(* ===== verification/Axis_Prelude.thy ===== *)
theory Axis_Prelude
  imports Main "HOL-Library.Word"
begin

text \<open>
  Shared vocabulary of the development: the status and error codes of
  \<^verbatim>\<open>util/include/axutil_error.h\<close>, the result type of the modelled operations, C pointers and
  strings, the outcome of an allocation, the comparison functions of \<^verbatim>\<open>util/src/string.c\<close>
  that the engine uses, and generic list lemmas that the components share.
\<close>

named_theorems ptr_simps "reading the C return value off a result"
named_theorems strcmp_simps "string comparison as equality of strings"

section \<open>Status and error codes\<close>

text \<open>
  \<^verbatim>\<open>enum axis2_status_codes\<close>: \<^verbatim>\<open>AXIS2_FAILURE = 0\<close>, \<^verbatim>\<open>AXIS2_SUCCESS\<close>. A C function that
  returns an \<^verbatim>\<open>int\<close> may return these numbers, see \<open>status_int\<close>. The third code,
  \<^verbatim>\<open>AXIS2_CRITICAL_FAILURE = -1\<close>, is not in the type: no function modelled here returns it as a status
  or tests a status for it. Where it is returned as a number (the status code of an HTTP status line)
  it is that number, in \<open>Http_Lines\<close>. The handlers, a parameter of the engine's model, return one of
  the two codes of the type.
\<close>

datatype axis2_status = AXIS2_FAILURE | AXIS2_SUCCESS

definition status_int :: "axis2_status \<Rightarrow> int" where
  "status_int s = (case s of AXIS2_FAILURE \<Rightarrow> 0 | AXIS2_SUCCESS \<Rightarrow> 1)"

text \<open>
  The error numbers the modelled code sets with \<^verbatim>\<open>AXIS2_ERROR_SET\<close> or \<^verbatim>\<open>AXIS2_PARAM_CHECK\<close>.
  \<open>FAILURE_STATUS\<close> is no error number: it stands for \<^verbatim>\<open>AXIS2_FAILURE\<close> returned without one.
  \<open>UNDEFINED_BEHAVIOUR\<close> is none either: it marks a branch on which the C program
  dereferences a NULL pointer, writes outside an array or leaves the range of an \<^verbatim>\<open>int\<close>. \<open>BUILDER_INPUT\<close> marks a branch on which
  the object model asks its stream builder for more input, which is not modelled.
\<close>

datatype axis2_error =
    NO_MEMORY
  | INVALID_NULL_PARAM
  | INDEX_OUT_OF_BOUNDS
  | NO_SUCH_ELEMENT
  | BEFORE_AFTER_HANDLERS_SAME
  | PHASE_FIRST_HANDLER_ALREADY_SET
  | PHASE_LAST_HANDLER_ALREADY_SET
  | INVALID_PHASE_FIRST_HANDLER
  | INVALID_PHASE_LAST_HANDLER
  | PHASE_ADD_HANDLER_INVALID
  | INVALID_HANDLER_RULES
  | INVALID_HANDLER_STATE
  | INVALID_STATE_PROCESSING_FAULT_ALREADY
  | NOWHERE_TO_SEND_FAULT
  | INVALID_PHASE
  | INVALID_MODULE_REF
  | INVALID_MODULE
  | ITERATOR_NEXT_METHOD_HAS_NOT_YET_BEEN_CALLED
  | ITERATOR_REMOVE_HAS_ALREADY_BEING_CALLED
  | NULL_STREAM_IN_CHUNKED_STREAM
  | INVALID_HTTP_HEADER_START_LINE
  | WRITING_RESPONSE
  | INVALID_ADDRESS
  | FAILURE_STATUS
  | BUILDER_INPUT
  | UNDEFINED_BEHAVIOUR

text \<open>
  An operation that can fail returns \<open>Inl e\<close> when it sets the error \<open>e\<close> and returns
  \<^verbatim>\<open>AXIS2_FAILURE\<close> or NULL, and \<open>Inr r\<close> otherwise.
\<close>

type_synonym 'a result = "axis2_error + 'a"

definition status_of :: "'a result \<Rightarrow> axis2_status" where
  "status_of r = (case r of Inl _ \<Rightarrow> AXIS2_FAILURE | Inr _ \<Rightarrow> AXIS2_SUCCESS)"

text \<open>The state after an operation: unchanged where it failed.\<close>

definition state_of :: "'s \<Rightarrow> 's result \<Rightarrow> 's" where
  "state_of s r = (case r of Inl _ \<Rightarrow> s | Inr s' \<Rightarrow> s')"

text \<open>The pointer a function returns: NULL (\<open>None\<close>) on the error branches.\<close>

definition ret_ptr :: "'a option result \<Rightarrow> 'a option" where
  "ret_ptr r = (case r of Inl _ \<Rightarrow> None | Inr p \<Rightarrow> p)"

text \<open>The next C statement, unless an earlier one has returned with an error.\<close>

definition res_bind :: "'a result \<Rightarrow> ('a \<Rightarrow> 'b result) \<Rightarrow> 'b result" where
  "res_bind r f = (case r of Inl e \<Rightarrow> Inl e | Inr x \<Rightarrow> f x)"

lemma res_bind_simps [simp]: "res_bind (Inl e) f = Inl e" "res_bind (Inr x) f = f x"
  by (simp_all add: res_bind_def)

lemma res_bind_Inr: "res_bind r f = Inr y \<longleftrightarrow> (\<exists>x. r = Inr x \<and> f x = Inr y)"
  by (cases r) auto

lemma status_of_simps [simp, ptr_simps]:
  "status_of (Inl e) = AXIS2_FAILURE" "status_of (Inr x) = AXIS2_SUCCESS"
  by (simp_all add: status_of_def)

lemma state_of_simps [simp, ptr_simps]:
  "state_of s (Inl e) = s" "state_of s (Inr s') = s'"
  by (simp_all add: state_of_def)

lemma ret_ptr_simps [simp, ptr_simps]:
  "ret_ptr (Inl e) = None" "ret_ptr (Inr p) = p"
  by (simp_all add: ret_ptr_def)

section \<open>Memory\<close>

text \<open>
  \<^verbatim>\<open>AXIS2_MALLOC(env->allocator, n)\<close> calls a function pointer of the environment. Its outcome is
  a parameter of every operation that allocates: \<open>malloc n\<close> holds iff a request of \<open>n\<close> bytes
  made during the operation is granted. A granted block holds indeterminate values. Sizes are
  those of an LP64 platform.
\<close>

type_synonym alloc = "nat \<Rightarrow> bool"

text \<open>Enough memory: every request is granted.\<close>

definition mem_ok :: "alloc \<Rightarrow> bool" where
  "mem_ok malloc \<longleftrightarrow> (\<forall>n. malloc n)"

lemma mem_okD: "mem_ok malloc \<Longrightarrow> malloc n"
  by (simp add: mem_ok_def)

lemma mem_ok_True [simp]: "mem_ok (\<lambda>n. True)"
  by (simp add: mem_ok_def)

definition sizeof_ptr :: nat where
  "sizeof_ptr = 8"

definition garbage :: "'a" where
  "garbage = undefined"

text \<open>A pointer to a structure of an explicit store: an address, or NULL.\<close>

type_synonym ptr = "nat option"

section \<open>Integers\<close>

text \<open>
  An \<^verbatim>\<open>int\<close> has 32 bits. \<open>c_wrap\<close> is the value a computation leaves in an \<^verbatim>\<open>int\<close> where overflow wraps
  around; \<open>int_val\<close> is used where the program has no defined value to go on with.
\<close>

definition INT_MAX :: int where
  "INT_MAX = 2147483647"

definition c_wrap :: "int \<Rightarrow> int" where
  "c_wrap x = (x + 2 ^ 31) mod 2 ^ 32 - 2 ^ 31"

definition in_int :: "int \<Rightarrow> bool" where
  "in_int x \<longleftrightarrow> - INT_MAX - 1 \<le> x \<and> x \<le> INT_MAX"

definition int_val :: "int \<Rightarrow> int result" where
  "int_val x = (if in_int x then Inr x else Inl UNDEFINED_BEHAVIOUR)"

lemma c_wrap_range: "- INT_MAX - 1 \<le> c_wrap x" "c_wrap x \<le> INT_MAX"
  using pos_mod_bound [of "2 ^ 32" "x + 2 ^ 31"] pos_mod_sign [of "2 ^ 32" "x + 2 ^ 31"]
  by (simp_all add: c_wrap_def INT_MAX_def)

lemma c_wrap_id: "in_int x \<Longrightarrow> c_wrap x = x"
  by (simp add: c_wrap_def in_int_def INT_MAX_def)

lemma int_val_id [simp]: "in_int x \<Longrightarrow> int_val x = Inr x"
  by (simp add: int_val_def)

section \<open>String comparison\<close>

text \<open>
  A C string is an Isabelle string; a \<^verbatim>\<open>char *\<close> that may be NULL is a \<open>string option\<close>.
  \<open>strcmp\<close> is the C library's function up to the magnitude of its result;
  \<open>axutil_strcmp\<close> is the NULL-tolerant wrapper.
\<close>

fun strcmp :: "string \<Rightarrow> string \<Rightarrow> int" where
  "strcmp [] [] = 0"
| "strcmp [] (y # ys) = -1"
| "strcmp (x # xs) [] = 1"
| "strcmp (x # xs) (y # ys) =
     (if x = y then strcmp xs ys else if (of_char x :: nat) < of_char y then -1 else 1)"

definition axutil_strcmp :: "string option \<Rightarrow> string option \<Rightarrow> int" where
  "axutil_strcmp s1 s2 =
     (case (s1, s2) of (Some a, Some b) \<Rightarrow> strcmp a b | _ \<Rightarrow> -1)"

lemma strcmp_eq_0 [simp, strcmp_simps]: "strcmp xs ys = 0 \<longleftrightarrow> xs = ys"
  by (induction xs ys rule: strcmp.induct) auto

lemma axutil_strcmp_eq_0 [strcmp_simps]:
  "axutil_strcmp s1 s2 = 0 \<longleftrightarrow> s1 \<noteq> None \<and> s1 = s2"
  by (auto simp: axutil_strcmp_def split: option.splits)

lemma axutil_strcmp_Some [simp]:
  "axutil_strcmp (Some a) (Some b) = 0 \<longleftrightarrow> a = b"
  by (simp add: axutil_strcmp_eq_0)

lemma axutil_strcmp_None [simp]:
  "axutil_strcmp None s = -1" "axutil_strcmp s None = -1"
  by (simp_all add: axutil_strcmp_def split: option.splits)

section \<open>Lists\<close>

text \<open>Inserting at and removing from a position of a list.\<close>

definition insert_nth :: "nat \<Rightarrow> 'a \<Rightarrow> 'a list \<Rightarrow> 'a list" where
  "insert_nth i x xs = take i xs @ x # drop i xs"

definition remove_nth :: "nat \<Rightarrow> 'a list \<Rightarrow> 'a list" where
  "remove_nth i xs = take i xs @ drop (Suc i) xs"

lemma length_insert_nth [simp]: "length (insert_nth i x xs) = Suc (length xs)"
  by (simp add: insert_nth_def)

lemma length_remove_nth [simp]: "i < length xs \<Longrightarrow> length (remove_nth i xs) = length xs - 1"
  by (simp add: remove_nth_def)

lemma set_insert_nth [simp]: "set (insert_nth i x xs) = insert x (set xs)"
proof -
  have "set (take i xs) \<union> set (drop i xs) = set xs"
    by (metis append_take_drop_id set_append)
  then show ?thesis by (auto simp: insert_nth_def)
qed

lemma insert_nth_length [simp]: "insert_nth (length xs) x xs = xs @ [x]"
  by (simp add: insert_nth_def)

lemma insert_nth_0 [simp]: "insert_nth 0 x xs = x # xs"
  by (simp add: insert_nth_def)

lemma remove_insert_nth [simp]: "i \<le> length xs \<Longrightarrow> remove_nth i (insert_nth i x xs) = xs"
  by (simp add: insert_nth_def remove_nth_def min_absorb2)

lemma nth_insert_nth:
  "i \<le> length xs \<Longrightarrow> j \<le> length xs \<Longrightarrow>
   insert_nth i x xs ! j = (if j < i then xs ! j else if j = i then x else xs ! (j - 1))"
  by (auto simp: insert_nth_def nth_append min_def nth_Cons split: nat.splits
      intro!: arg_cong [where f = "nth xs"])

lemma distinct_insert_nth:
  "distinct (insert_nth i x xs) \<longleftrightarrow> x \<notin> set xs \<and> distinct xs"
proof -
  have "distinct (take i xs @ drop i xs) \<longleftrightarrow> distinct xs" by simp
  moreover have "set xs = set (take i xs) \<union> set (drop i xs)"
    by (metis append_take_drop_id set_append)
  ultimately show ?thesis
    by (auto simp: insert_nth_def simp del: append_take_drop_id)
qed

lemma map_insert_nth: "map f (insert_nth i x xs) = insert_nth i (f x) (map f xs)"
  by (simp add: insert_nth_def take_map drop_map)

lemma map_remove_nth: "map f (remove_nth i xs) = remove_nth i (map f xs)"
  by (simp add: remove_nth_def take_map drop_map)

lemma set_remove_nth_subset: "set (remove_nth i xs) \<subseteq> set xs"
  by (auto simp: remove_nth_def dest: in_set_takeD in_set_dropD)

lemma distinct_remove_nth: "distinct xs \<Longrightarrow> distinct (remove_nth i xs)"
proof -
  assume d: "distinct xs"
  have "set (take i xs) \<inter> set (drop (Suc i) xs) = {}"
    using d by (simp add: set_take_disj_set_drop_if_distinct)
  with d show ?thesis by (simp add: remove_nth_def)
qed

text \<open>The first position of a list at which a predicate holds.\<close>

fun find_index :: "('a \<Rightarrow> bool) \<Rightarrow> 'a list \<Rightarrow> nat option" where
  "find_index P [] = None"
| "find_index P (x # xs) = (if P x then Some 0 else map_option Suc (find_index P xs))"

lemma find_index_None: "find_index P xs = None \<longleftrightarrow> (\<forall>x \<in> set xs. \<not> P x)"
  by (induction xs) auto

lemma find_index_Some:
  "find_index P xs = Some i \<longleftrightarrow> i < length xs \<and> P (xs ! i) \<and> (\<forall>j < i. \<not> P (xs ! j))"
proof (induction xs arbitrary: i)
  case Nil
  then show ?case by simp
next
  case (Cons x xs)
  show ?case
    by (cases i) (auto simp: Cons.IH less_Suc_eq_0_disj)
qed

text \<open>The first and the last address of a segment of linked cells, with what comes after and before it.\<close>

definition first_of :: "nat list \<Rightarrow> ptr \<Rightarrow> ptr" where
  "first_of ps q = (case ps of [] \<Rightarrow> q | a # _ \<Rightarrow> Some a)"

definition last_of :: "nat list \<Rightarrow> ptr \<Rightarrow> ptr" where
  "last_of ps p = (if ps = [] then p else Some (last ps))"

lemma first_of_simps [simp]: "first_of [] q = q" "first_of (a # as) q = Some a"
  by (simp_all add: first_of_def)

lemma last_of_simps [simp]: "last_of [] p = p" "last_of (as @ [a]) p = Some a"
  "last_of (a # as) p = last_of as (Some a)"
  by (simp_all add: last_of_def)

lemma first_of_append: "first_of (as @ bs) q = first_of as (first_of bs q)"
  by (cases as) simp_all

lemma last_of_append: "last_of (as @ bs) p = last_of bs (last_of as p)"
  by (induction as arbitrary: p) simp_all

lemma first_of_None: "first_of as None = None \<longleftrightarrow> as = []"
  by (cases as) simp_all

lemma last_of_None: "last_of as None = None \<longleftrightarrow> as = []"
  by (simp add: last_of_def)

section \<open>Histories of calls\<close>

text \<open>A sequence of calls on a state: the values returned and the final state.\<close>

fun calls :: "('s \<Rightarrow> 'c \<Rightarrow> 'r \<times> 's) \<Rightarrow> 's \<Rightarrow> 'c list \<Rightarrow> 'r list \<times> 's" where
  "calls f s [] = ([], s)"
| "calls f s (c # cs) = (case f s c of (r, s') \<Rightarrow> case calls f s' cs of (rs, s'') \<Rightarrow> (r # rs, s''))"

text \<open>The same where a call may not return, and the calls a client may make in a state of the abstract object.\<close>

fun runs :: "('s \<Rightarrow> 'c \<Rightarrow> ('r \<times> 's) option) \<Rightarrow> 's \<Rightarrow> 'c list \<Rightarrow> ('r list \<times> 's) option" where
  "runs f s [] = Some ([], s)"
| "runs f s (c # cs) =
     (case f s c of
        None \<Rightarrow> None
      | Some (r, s') \<Rightarrow> (case runs f s' cs of None \<Rightarrow> None | Some (rs, s'') \<Rightarrow> Some (r # rs, s'')))"

fun permitted :: "('a \<Rightarrow> 'c \<Rightarrow> bool) \<Rightarrow> ('a \<Rightarrow> 'c \<Rightarrow> 'r \<times> 'a) \<Rightarrow> 'a \<Rightarrow> 'c list \<Rightarrow> bool" where
  "permitted legal spec a [] = True"
| "permitted legal spec a (c # cs) = (legal a c \<and> permitted legal spec (snd (spec a c)) cs)"

text \<open>
  An object \<open>impl\<close> simulates an abstract one \<open>spec\<close>: a legal call on related states returns, with
  the value of the abstract object, and leaves related states. The client sees histories.
\<close>

locale simulation =
  fixes rel :: "'s \<Rightarrow> 'a \<Rightarrow> bool"
    and legal :: "'a \<Rightarrow> 'c \<Rightarrow> bool"
    and impl :: "'s \<Rightarrow> 'c \<Rightarrow> ('r \<times> 's) option"
    and spec :: "'a \<Rightarrow> 'c \<Rightarrow> 'r \<times> 'a"
  assumes call_rel: "rel s a \<Longrightarrow> legal a c \<Longrightarrow> spec a c = (r, a') \<Longrightarrow> \<exists>s'. impl s c = Some (r, s') \<and> rel s' a'"
begin

lemma history:
  "rel s a \<Longrightarrow> permitted legal spec a cs \<Longrightarrow> calls spec a cs = (rs, a') \<Longrightarrow>
   \<exists>s'. runs impl s cs = Some (rs, s') \<and> rel s' a'"
proof (induction cs arbitrary: s a rs)
  case (Cons c cs)
  obtain r b where r: "spec a c = (r, b)" by fastforce
  obtain qs u where q: "calls spec b cs = (qs, u)" by fastforce
  have u: "rs = r # qs" "u = a'" using Cons.prems(3) r q by auto
  obtain t where t: "impl s c = Some (r, t)" "rel t b"
    using call_rel [OF Cons.prems(1) _ r] Cons.prems(2) by auto
  moreover have "permitted legal spec b cs" using Cons.prems(2) r by simp
  ultimately obtain s' where "runs impl t cs = Some (qs, s')" "rel s' a'"
    using Cons.IH [of t b qs] q u(2) by blast
  with t(1) u(1) show ?case by simp
qed simp

end

text \<open>An object whose every call is legal and that has an abstraction function.\<close>

locale refinement =
  fixes ok :: "'s \<Rightarrow> bool"
    and abst :: "'s \<Rightarrow> 'a"
    and impl :: "'s \<Rightarrow> 'c \<Rightarrow> 'r \<times> 's"
    and spec :: "'a \<Rightarrow> 'c \<Rightarrow> 'r \<times> 'a"
  assumes call_ok: "ok s \<Longrightarrow> impl s c = (r, s') \<Longrightarrow> ok s'"
    and call_spec: "ok s \<Longrightarrow> impl s c = (r, s') \<Longrightarrow> spec (abst s) c = (r, abst s')"

sublocale refinement \<subseteq> sim: simulation "\<lambda>s a. ok s \<and> a = abst s" "\<lambda>_ _. True" "\<lambda>s c. Some (impl s c)" spec
proof unfold_locales
  fix s a c r a'
  assume "ok s \<and> a = abst s" and r: "spec a c = (r, a')"
  then have s: "ok s" "a = abst s" by auto
  obtain q t where q: "impl s c = (q, t)" by fastforce
  then show "\<exists>s'. Some (impl s c) = Some (r, s') \<and> ok s' \<and> a' = abst s'"
    using call_ok [OF s(1) q] call_spec [OF s(1) q] r s(2) by auto
qed

lemma permitted_any [simp]: "permitted (\<lambda>_ _. True) spec a cs"
  by (induction cs arbitrary: a) auto

lemma runs_total: "runs (\<lambda>s c. Some (f s c)) s cs = Some (calls f s cs)"
  by (induction cs arbitrary: s) (auto split: prod.splits)

context refinement
begin

lemma history:
  assumes "ok s" "calls impl s cs = (rs, s')"
  shows "ok s' \<and> calls spec (abst s) cs = (rs, abst s')"
proof -
  obtain qs b where q: "calls spec (abst s) cs = (qs, b)" by fastforce
  have "\<exists>t. runs (\<lambda>s c. Some (impl s c)) s cs = Some (qs, t) \<and> ok t \<and> b = abst t"
    by (rule sim.history [OF _ _ q]) (use assms(1) in simp_all)
  with q assms(2) show ?thesis by (auto simp: runs_total)
qed

end

end
