(* ===== verification/Array_List.thy ===== *)
theory Array_List
  imports Axis_Prelude
begin

text \<open>
  The growable array of \<^verbatim>\<open>util/src/array_list.c\<close>. Every operation of the file is a definition
  here; the two loops that move elements and the search loop are recursive functions. The product
  \<^verbatim>\<open>capacity * 2\<close> wraps around at 32 bits; \<^verbatim>\<open>size + 1\<close> leaves the range of an \<^verbatim>\<open>int\<close> only after
  $2^{31} - 1$ pointers are stored, which the histories of \<open>array_list_history_refines\<close> do not reach. The
  abstraction of an array list is the list of its stored pointers (\<open>al_list\<close>). The interface
  the rest of Axis2/C relies on is the locale \<open>sequence_store\<close>, interpreted here on the model of
  the C code; its client lemmas are the facts the phase and engine theories use.
\<close>

section \<open>State and operations\<close>

text \<open>
  \<^verbatim>\<open>struct axutil_array_list\<close>. An element is a \<^verbatim>\<open>void *\<close>: \<open>None\<close> is NULL. The block
  \<^verbatim>\<open>data\<close> is a list of as many cells as were allocated.
\<close>

record 'a array_list =
  al_size :: int
  al_capacity :: int
  al_data :: "'a option list"

definition AXIS2_ARRAY_LIST_DEFAULT_CAPACITY :: int where
  "AXIS2_ARRAY_LIST_DEFAULT_CAPACITY = 16"

definition sizeof_array_list :: nat where
  "sizeof_array_list = 16"

definition axutil_array_list_create :: "alloc \<Rightarrow> int \<Rightarrow> 'a array_list result" where
  "axutil_array_list_create malloc capacity =
     (if \<not> malloc sizeof_array_list then Inl NO_MEMORY
      else
        let capacity' = (if capacity \<le> 0 then AXIS2_ARRAY_LIST_DEFAULT_CAPACITY else capacity) in
        if \<not> malloc (sizeof_ptr * nat capacity') then Inl NO_MEMORY
        else Inr \<lparr>al_size = 0, al_capacity = capacity',
                  al_data = replicate (nat capacity') garbage\<rparr>)"

text \<open>
  \<open>memcpy\<close> copies the old \<^verbatim>\<open>capacity\<close> cells; the rest of the new block is indeterminate.
\<close>

definition axutil_array_list_ensure_capacity ::
    "alloc \<Rightarrow> 'a array_list option \<Rightarrow> int \<Rightarrow> 'a array_list result" where
  "axutil_array_list_ensure_capacity malloc p min_capacity =
     (case p of
        None \<Rightarrow> Inl INVALID_NULL_PARAM
      | Some al \<Rightarrow>
          if min_capacity > al_capacity al then
            let new_capacity = (if c_wrap (al_capacity al * 2) > min_capacity
                                then c_wrap (al_capacity al * 2) else min_capacity) in
            if \<not> malloc (sizeof_ptr * nat new_capacity) then Inl NO_MEMORY
            else Inr (al\<lparr>al_data := take (nat (al_capacity al)) (al_data al) @
                           replicate (nat new_capacity - nat (al_capacity al)) garbage,
                         al_capacity := new_capacity\<rparr>)
          else Inr al)"

definition axutil_array_list_size :: "'a array_list option \<Rightarrow> int" where
  "axutil_array_list_size p = (case p of None \<Rightarrow> 0 | Some al \<Rightarrow> al_size al)"

definition axutil_array_list_is_empty :: "'a array_list option \<Rightarrow> bool result" where
  "axutil_array_list_is_empty p =
     (case p of None \<Rightarrow> Inl INVALID_NULL_PARAM | Some al \<Rightarrow> Inr (al_size al = 0))"

function index_of_loop :: "'a option \<Rightarrow> 'a array_list \<Rightarrow> int \<Rightarrow> int" where
  "index_of_loop e al i =
     (if i < al_size al then
        if e = al_data al ! nat i then i else index_of_loop e al (i + 1)
      else -1)"
  by pat_completeness auto
termination
  by (relation "measure (\<lambda>(e, al, i). nat (al_size al - i))") auto

definition axutil_array_list_index_of ::
    "'a array_list option \<Rightarrow> 'a option \<Rightarrow> int result" where
  "axutil_array_list_index_of p e =
     (case p of None \<Rightarrow> Inl INVALID_NULL_PARAM | Some al \<Rightarrow> Inr (index_of_loop e al 0))"

definition axutil_array_list_contains ::
    "'a array_list option \<Rightarrow> 'a option \<Rightarrow> bool result" where
  "axutil_array_list_contains p e =
     (case p of
        None \<Rightarrow> Inl INVALID_NULL_PARAM
      | Some al \<Rightarrow>
          (case axutil_array_list_index_of (Some al) e of
             Inl err \<Rightarrow> Inl err
           | Inr i \<Rightarrow> Inr (i \<noteq> -1)))"

definition axutil_array_list_check_bound_inclusive :: "'a array_list option \<Rightarrow> int \<Rightarrow> bool" where
  "axutil_array_list_check_bound_inclusive p index =
     (case p of None \<Rightarrow> False | Some al \<Rightarrow> \<not> (index < 0 \<or> index > al_size al))"

definition axutil_array_list_check_bound_exclusive :: "'a array_list option \<Rightarrow> int \<Rightarrow> bool" where
  "axutil_array_list_check_bound_exclusive p index =
     (case p of None \<Rightarrow> False | Some al \<Rightarrow> \<not> (index < 0 \<or> index \<ge> al_size al))"

definition axutil_array_list_get :: "'a array_list option \<Rightarrow> int \<Rightarrow> 'a option result" where
  "axutil_array_list_get p index =
     (if axutil_array_list_check_bound_exclusive p index then Inr (al_data (the p) ! nat index)
      else Inl INDEX_OUT_OF_BOUNDS)"

text \<open>\<^verbatim>\<open>axutil_array_list_set\<close> returns the replaced pointer and the new list.\<close>

definition axutil_array_list_set ::
    "'a array_list option \<Rightarrow> int \<Rightarrow> 'a option \<Rightarrow> ('a option \<times> 'a array_list) result" where
  "axutil_array_list_set p index e =
     (case p of
        None \<Rightarrow> Inl INVALID_NULL_PARAM
      | Some al \<Rightarrow>
          if axutil_array_list_check_bound_exclusive (Some al) index then
            Inr (al_data al ! nat index, al\<lparr>al_data := (al_data al)[nat index := e]\<rparr>)
          else Inl INDEX_OUT_OF_BOUNDS)"

definition axutil_array_list_add ::
    "alloc \<Rightarrow> 'a array_list option \<Rightarrow> 'a option \<Rightarrow> 'a array_list result" where
  "axutil_array_list_add malloc p e =
     (case p of
        None \<Rightarrow> Inl INVALID_NULL_PARAM
      | Some al \<Rightarrow>
          (case (if al_size al = al_capacity al
                 then axutil_array_list_ensure_capacity malloc (Some al) (al_size al + 1)
                 else Inr al) of
             Inl err \<Rightarrow> Inl err
           | Inr al' \<Rightarrow> Inr (al'\<lparr>al_data := (al_data al')[nat (al_size al') := e],
                                al_size := al_size al' + 1\<rparr>)))"

text \<open>
  The loop \<^verbatim>\<open>for (i = size; i > index; i--) data[i] = data[i - 1]\<close>.
\<close>

function shift_right_loop :: "nat \<Rightarrow> nat \<Rightarrow> 'a list \<Rightarrow> 'a list" where
  "shift_right_loop index i d =
     (if i > index then shift_right_loop index (i - 1) (d[i := d ! (i - 1)]) else d)"
  by pat_completeness auto
termination
  by (relation "measure (\<lambda>(index, i, d). i - index)") auto

definition axutil_array_list_add_at ::
    "alloc \<Rightarrow> 'a array_list option \<Rightarrow> int \<Rightarrow> 'a option \<Rightarrow> 'a array_list result" where
  "axutil_array_list_add_at malloc p index e =
     (case p of
        None \<Rightarrow> Inl INVALID_NULL_PARAM
      | Some al \<Rightarrow>
          if \<not> axutil_array_list_check_bound_inclusive (Some al) index
          then Inl INDEX_OUT_OF_BOUNDS
          else
            (case (if al_size al = al_capacity al
                   then axutil_array_list_ensure_capacity malloc (Some al) (al_size al + 1)
                   else Inr al) of
               Inl err \<Rightarrow> Inl err
             | Inr al' \<Rightarrow>
                 let d = (if index \<noteq> al_size al'
                          then shift_right_loop (nat index) (nat (al_size al')) (al_data al')
                          else al_data al') in
                 Inr (al'\<lparr>al_data := d[nat index := e], al_size := al_size al' + 1\<rparr>)))"

text \<open>
  The loop \<^verbatim>\<open>for (i = index; i < size - 1; i++) data[i] = data[i + 1]\<close>; \<open>n\<close> is
  \<^verbatim>\<open>size - 1\<close>.
\<close>

function shift_left_loop :: "nat \<Rightarrow> nat \<Rightarrow> 'a list \<Rightarrow> 'a list" where
  "shift_left_loop n i d =
     (if i < n then shift_left_loop n (Suc i) (d[i := d ! Suc i]) else d)"
  by pat_completeness auto
termination
  by (relation "measure (\<lambda>(n, i, d). n - i)") auto

definition axutil_array_list_remove ::
    "'a array_list option \<Rightarrow> int \<Rightarrow> ('a option \<times> 'a array_list) result" where
  "axutil_array_list_remove p index =
     (case p of
        None \<Rightarrow> Inl INVALID_NULL_PARAM
      | Some al \<Rightarrow>
          if axutil_array_list_check_bound_exclusive (Some al) index then
            Inr (al_data al ! nat index,
                 al\<lparr>al_data := shift_left_loop (nat (al_size al - 1)) (nat index) (al_data al),
                    al_size := al_size al - 1\<rparr>)
          else Inl INDEX_OUT_OF_BOUNDS)"

declare index_of_loop.simps [simp del]
declare shift_right_loop.simps [simp del]
declare shift_left_loop.simps [simp del]

section \<open>Invariant and abstraction\<close>

definition al_inv :: "'a array_list \<Rightarrow> bool" where
  "al_inv al \<longleftrightarrow> 0 \<le> al_size al \<and> al_size al \<le> al_capacity al \<and> 0 < al_capacity al \<and>
     length (al_data al) = nat (al_capacity al)"

definition al_list :: "'a array_list \<Rightarrow> 'a option list" where
  "al_list al = take (nat (al_size al)) (al_data al)"

text \<open>An array list with the given elements.\<close>

definition al_of :: "'a list \<Rightarrow> 'a array_list" where
  "al_of xs = \<lparr>al_size = int (length xs), al_capacity = int (length xs) + 1,
     al_data = map Some xs @ [None]\<rparr>"

lemma al_of_simps [simp]: "al_inv (al_of xs)" "al_list (al_of xs) = map Some xs"
  by (simp_all add: al_of_def al_inv_def al_list_def nat_add_distrib)

lemma length_al_list [simp]: "al_inv al \<Longrightarrow> length (al_list al) = nat (al_size al)"
  by (auto simp: al_inv_def al_list_def min_def)

lemma al_size_eq: "al_inv al \<Longrightarrow> al_size al = int (length (al_list al))"
  by (auto simp: al_inv_def al_list_def min_def)

lemma nth_al_list: "al_inv al \<Longrightarrow> i < nat (al_size al) \<Longrightarrow> al_list al ! i = al_data al ! i"
  by (simp add: al_list_def)

section \<open>The loops\<close>

lemma shift_right_loop_length [simp]: "length (shift_right_loop index i d) = length d"
  by (induction index i d rule: shift_right_loop.induct) (subst shift_right_loop.simps, simp)

lemma shift_right_loop_nth:
  assumes "i < length d" and "j < length d"
  shows "shift_right_loop index i d ! j =
    (if index < j \<and> j \<le> i then d ! (j - 1) else d ! j)"
  using assms
proof (induction index i d rule: shift_right_loop.induct)
  case (1 index i d)
  show ?case
  proof (cases "i > index")
    case True
    with "1" show ?thesis
      by (subst shift_right_loop.simps) (auto simp: nth_list_update)
  next
    case False
    then show ?thesis by (subst shift_right_loop.simps) auto
  qed
qed

lemma shift_left_loop_length [simp]: "length (shift_left_loop n i d) = length d"
  by (induction n i d rule: shift_left_loop.induct) (subst shift_left_loop.simps, simp)

lemma shift_left_loop_nth:
  assumes "n < length d" and "j < length d"
  shows "shift_left_loop n i d ! j = (if i \<le> j \<and> j < n then d ! Suc j else d ! j)"
  using assms
proof (induction n i d rule: shift_left_loop.induct)
  case (1 n i d)
  show ?case
  proof (cases "i < n")
    case True
    with "1" show ?thesis
      by (subst shift_left_loop.simps) (auto simp: nth_list_update)
  next
    case False
    then show ?thesis by (subst shift_left_loop.simps) auto
  qed
qed

lemma index_of_loop_spec:
  assumes "al_inv al" and "0 \<le> i" and "i \<le> al_size al"
  shows "index_of_loop e al i =
    (case find_index (\<lambda>x. x = e) (drop (nat i) (al_list al)) of
       None \<Rightarrow> -1 | Some k \<Rightarrow> i + int k)"
  using assms
proof (induction e al i rule: index_of_loop.induct)
  case (1 e al i)
  show ?case
  proof (cases "i < al_size al")
    case True
    with "1.prems" have d: "drop (nat i) (al_list al) =
        al_data al ! nat i # drop (nat (i + 1)) (al_list al)"
      by (simp add: nth_al_list nat_add_distrib flip: Cons_nth_drop_Suc)
    with "1" True show ?thesis
      by (subst index_of_loop.simps) (auto split: option.splits)
  next
    case False
    with "1.prems" show ?thesis by (subst index_of_loop.simps) simp
  qed
qed


section \<open>The operations refine list operations\<close>

lemma create_ok:
  assumes "axutil_array_list_create malloc capacity = Inr al"
  shows "al_inv al \<and> al_list al = []"
  using assms
  by (auto simp: axutil_array_list_create_def al_inv_def al_list_def Let_def
      AXIS2_ARRAY_LIST_DEFAULT_CAPACITY_def split: if_splits)

lemma create_total:
  "mem_ok malloc \<Longrightarrow> \<exists>al. axutil_array_list_create malloc capacity = Inr al"
  by (simp add: axutil_array_list_create_def Let_def mem_okD)

text \<open>Growing the block keeps the stored pointers and makes room for one more.\<close>

lemma ensure_capacity_ok:
  assumes "al_inv al" and "axutil_array_list_ensure_capacity malloc (Some al) n = Inr al'"
  shows "al_inv al'" and "al_size al' = al_size al" and "al_list al' = al_list al"
    and "n \<le> al_capacity al'" and "al_capacity al \<le> al_capacity al'"
  using assms
  by (auto simp: axutil_array_list_ensure_capacity_def al_inv_def al_list_def Let_def min_def
      split: if_splits)

lemma ensure_capacity_err:
  assumes "axutil_array_list_ensure_capacity malloc (Some al) n = Inl e"
  shows "e = NO_MEMORY \<and> \<not> mem_ok malloc"
  using assms
  by (auto simp: axutil_array_list_ensure_capacity_def Let_def dest: mem_okD split: if_splits)

text \<open>The room both adding operations make: after it, the cell at \<^verbatim>\<open>size\<close> exists.\<close>

definition make_room :: "alloc \<Rightarrow> 'a array_list \<Rightarrow> 'a array_list result" where
  "make_room malloc al =
     (if al_size al = al_capacity al
      then axutil_array_list_ensure_capacity malloc (Some al) (al_size al + 1) else Inr al)"

lemma make_room_ok:
  assumes "al_inv al" and "make_room malloc al = Inr al'"
  shows "al_inv al'" "al_size al' = al_size al" "al_list al' = al_list al"
    "al_size al' < al_capacity al'"
proof -
  have "al_inv al' \<and> al_size al' = al_size al \<and> al_list al' = al_list al \<and>
      al_size al' < al_capacity al'"
  proof (cases "al_size al = al_capacity al")
    case True
    with assms(2) have e: "axutil_array_list_ensure_capacity malloc (Some al) (al_size al + 1) = Inr al'"
      by (simp add: make_room_def)
    show ?thesis using ensure_capacity_ok [OF assms(1) e] by linarith
  next
    case False
    with assms show ?thesis by (simp add: make_room_def al_inv_def)
  qed
  then show "al_inv al'" "al_size al' = al_size al" "al_list al' = al_list al"
    "al_size al' < al_capacity al'" by blast+
qed

lemma make_room_err: "make_room malloc al = Inl e \<Longrightarrow> e = NO_MEMORY \<and> \<not> mem_ok malloc"
  by (auto simp: make_room_def dest: ensure_capacity_err split: if_splits)

lemma add_alt:
  "axutil_array_list_add malloc (Some al) e =
     (case make_room malloc al of Inl err \<Rightarrow> Inl err
      | Inr al' \<Rightarrow> Inr (al'\<lparr>al_data := (al_data al')[nat (al_size al') := e],
                           al_size := al_size al' + 1\<rparr>))"
  by (simp add: axutil_array_list_add_def make_room_def)

lemma add_ok:
  assumes inv: "al_inv al" and add: "axutil_array_list_add malloc (Some al) e = Inr al'"
  shows "al_inv al' \<and> al_list al' = al_list al @ [e]"
proof -
  from add obtain b where b: "make_room malloc al = Inr b"
    and al': "al' = b\<lparr>al_data := (al_data b)[nat (al_size b) := e], al_size := al_size b + 1\<rparr>"
    by (auto simp: add_alt split: sum.splits)
  note room = make_room_ok [OF inv b]
  have "al_list al' = al_list b @ [e]"
    using room(1,4) unfolding al' al_list_def al_inv_def
    by (simp add: nat_add_distrib take_Suc_conv_app_nth)
  with room show ?thesis by (auto simp: al' al_inv_def)
qed

lemma add_err:
  "axutil_array_list_add malloc (Some al) e = Inl err \<Longrightarrow>
   err = NO_MEMORY \<and> \<not> mem_ok malloc"
  by (auto simp: add_alt dest: make_room_err split: sum.splits)

lemma add_at_alt:
  "axutil_array_list_add_at malloc (Some al) index e =
     (if 0 \<le> index \<and> index \<le> al_size al then
        (case make_room malloc al of Inl err \<Rightarrow> Inl err
         | Inr al' \<Rightarrow>
             Inr (al'\<lparr>al_data := (if index \<noteq> al_size al'
                        then shift_right_loop (nat index) (nat (al_size al')) (al_data al')
                        else al_data al')[nat index := e],
                      al_size := al_size al' + 1\<rparr>))
      else Inl INDEX_OUT_OF_BOUNDS)"
  unfolding axutil_array_list_add_at_def make_room_def [symmetric]
    axutil_array_list_check_bound_inclusive_def Let_def
  by (cases "make_room malloc al") auto

lemma shifted_insert:
  assumes "n < length d" and "i \<le> n"
  shows "take (Suc n) ((shift_right_loop i n d)[i := e]) = insert_nth i e (take n d)"
proof (rule nth_equalityI)
  show "length (take (Suc n) ((shift_right_loop i n d)[i := e])) =
      length (insert_nth i e (take n d))"
    using assms by simp
next
  fix j
  assume "j < length (take (Suc n) ((shift_right_loop i n d)[i := e]))"
  with assms have "j \<le> n" "j < length d" by auto
  with assms show "take (Suc n) ((shift_right_loop i n d)[i := e]) ! j =
      insert_nth i e (take n d) ! j"
    by (auto simp: nth_insert_nth nth_list_update shift_right_loop_nth)
qed

lemma shift_right_loop_none [simp]: "shift_right_loop i i d = d"
  by (subst shift_right_loop.simps) simp

lemma add_at_ok:
  assumes inv: "al_inv al" and add: "axutil_array_list_add_at malloc (Some al) i e = Inr al'"
  shows "0 \<le> i \<and> i \<le> al_size al \<and> al_inv al' \<and> al_list al' = insert_nth (nat i) e (al_list al)"
proof -
  from add have i: "0 \<le> i" "i \<le> al_size al" by (auto simp: add_at_alt split: if_splits)
  from add i obtain b where b: "make_room malloc al = Inr b"
    and al': "al' = b\<lparr>al_data := (shift_right_loop (nat i) (nat (al_size b)) (al_data b))[nat i := e],
                      al_size := al_size b + 1\<rparr>"
    by (auto simp: add_at_alt split: sum.splits if_splits)
  note room = make_room_ok [OF inv b]
  have "al_list al' = insert_nth (nat i) e (al_list b)"
    using room i shifted_insert [of "nat (al_size b)" "al_data b" "nat i" e]
    by (simp add: al' al_list_def al_inv_def nat_add_distrib)
  with room i show ?thesis by (auto simp: al' al_inv_def)
qed

lemma add_at_err:
  assumes "al_inv al" and "axutil_array_list_add_at malloc (Some al) i e = Inl err"
  shows "err = INDEX_OUT_OF_BOUNDS \<and> \<not> (0 \<le> i \<and> i \<le> al_size al) \<or>
    err = NO_MEMORY \<and> \<not> mem_ok malloc"
  using assms by (auto simp: add_at_alt dest: make_room_err split: if_splits sum.splits)

lemma shifted_remove:
  assumes "n < length d" and "i \<le> n"
  shows "take n (shift_left_loop n i d) = remove_nth i (take (Suc n) d)"
proof (rule nth_equalityI)
  show "length (take n (shift_left_loop n i d)) = length (remove_nth i (take (Suc n) d))"
    using assms by simp
next
  fix j
  assume "j < length (take n (shift_left_loop n i d))"
  with assms show "take n (shift_left_loop n i d) ! j = remove_nth i (take (Suc n) d) ! j"
    by (auto simp: shift_left_loop_nth remove_nth_def nth_append min_def)
qed

lemma remove_ok:
  assumes inv: "al_inv al" and rem: "axutil_array_list_remove (Some al) i = Inr (x, al')"
  shows "0 \<le> i \<and> i < al_size al \<and> x = al_list al ! nat i \<and> al_inv al' \<and>
    al_list al' = remove_nth (nat i) (al_list al)"
proof -
  from rem have i: "0 \<le> i" "i < al_size al"
    and al': "al' = al\<lparr>al_data := shift_left_loop (nat (al_size al - 1)) (nat i) (al_data al),
                       al_size := al_size al - 1\<rparr>"
    and x: "x = al_data al ! nat i"
    by (auto simp: axutil_array_list_remove_def axutil_array_list_check_bound_exclusive_def
        split: if_splits)
  have "Suc (nat (al_size al - 1)) = nat (al_size al)" using i by simp
  then have "al_list al' = remove_nth (nat i) (al_list al)"
    using inv i shifted_remove [of "nat (al_size al - 1)" "al_data al" "nat i"]
    by (simp add: al' al_list_def al_inv_def)
  with inv i x show ?thesis by (auto simp: al' al_inv_def nth_al_list)
qed

lemma remove_total:
  "0 \<le> i \<Longrightarrow> i < al_size al \<Longrightarrow> \<exists>r. axutil_array_list_remove (Some al) i = Inr r"
  by (simp add: axutil_array_list_remove_def axutil_array_list_check_bound_exclusive_def)

lemma remove_err:
  "axutil_array_list_remove (Some al) i = Inl err \<Longrightarrow>
   err = INDEX_OUT_OF_BOUNDS \<and> \<not> (0 \<le> i \<and> i < al_size al)"
  by (auto simp: axutil_array_list_remove_def axutil_array_list_check_bound_exclusive_def
      split: if_splits)

lemma get_spec:
  "al_inv al \<Longrightarrow> axutil_array_list_get (Some al) i =
     (if 0 \<le> i \<and> i < int (length (al_list al)) then Inr (al_list al ! nat i)
      else Inl INDEX_OUT_OF_BOUNDS)"
  by (auto simp: axutil_array_list_get_def axutil_array_list_check_bound_exclusive_def
      nth_al_list)

lemma set_spec:
  assumes inv: "al_inv al"
  shows "axutil_array_list_set (Some al) i e =
     (if 0 \<le> i \<and> i < al_size al
      then Inr (al_list al ! nat i, al\<lparr>al_data := (al_data al)[nat i := e]\<rparr>)
      else Inl INDEX_OUT_OF_BOUNDS)"
    and "0 \<le> i \<Longrightarrow> i < al_size al \<Longrightarrow>
      al_inv (al\<lparr>al_data := (al_data al)[nat i := e]\<rparr>) \<and>
      al_list (al\<lparr>al_data := (al_data al)[nat i := e]\<rparr>) = (al_list al)[nat i := e]"
  using inv
  by (auto simp: axutil_array_list_set_def axutil_array_list_check_bound_exclusive_def
      al_inv_def al_list_def take_update_swap)

lemma index_of_spec:
  "al_inv al \<Longrightarrow> axutil_array_list_index_of (Some al) e =
     Inr (case find_index (\<lambda>x. x = e) (al_list al) of None \<Rightarrow> -1 | Some k \<Rightarrow> int k)"
  by (subst axutil_array_list_index_of_def)
     (auto simp: index_of_loop_spec al_inv_def split: option.splits)

lemma contains_spec:
  "al_inv al \<Longrightarrow> axutil_array_list_contains (Some al) e = Inr (e \<in> set (al_list al))"
  using find_index_None [of "\<lambda>x. x = e" "al_list al"]
  by (auto simp: axutil_array_list_contains_def index_of_spec split: option.splits)

declare length_al_list [simp del]

section \<open>The interface the rest of Axis2/C relies on\<close>

text \<open>
  What a client of an indexed sequence relies on: positions are numbered from 0, \<open>add\<close>
  appends, \<open>add_at\<close> inserts and \<open>remove\<close> deletes at a position, a position out of range
  is an error, and an adding operation fails only when memory runs out.
\<close>

locale sequence_store =
  fixes inv :: "'s \<Rightarrow> bool"
    and repr :: "'s \<Rightarrow> 'x list"
    and size_of :: "'s \<Rightarrow> int"
    and get :: "'s \<Rightarrow> int \<Rightarrow> 'x result"
    and add :: "alloc \<Rightarrow> 's \<Rightarrow> 'x \<Rightarrow> 's result"
    and add_at :: "alloc \<Rightarrow> 's \<Rightarrow> int \<Rightarrow> 'x \<Rightarrow> 's result"
    and remove :: "'s \<Rightarrow> int \<Rightarrow> ('x \<times> 's) result"
  assumes size_law: "inv s \<Longrightarrow> size_of s = int (length (repr s))"
    and get_law: "inv s \<Longrightarrow> get s i =
      (if 0 \<le> i \<and> i < int (length (repr s)) then Inr (repr s ! nat i)
       else Inl INDEX_OUT_OF_BOUNDS)"
    and add_law: "inv s \<Longrightarrow> add m s x = Inr s' \<Longrightarrow> inv s' \<and> repr s' = repr s @ [x]"
    and add_fail: "inv s \<Longrightarrow> add m s x = Inl e \<Longrightarrow> e = NO_MEMORY \<and> \<not> mem_ok m"
    and add_at_law: "inv s \<Longrightarrow> add_at m s i x = Inr s' \<Longrightarrow>
      0 \<le> i \<and> i \<le> int (length (repr s)) \<and> inv s' \<and> repr s' = insert_nth (nat i) x (repr s)"
    and add_at_fail: "inv s \<Longrightarrow> add_at m s i x = Inl e \<Longrightarrow>
      e = INDEX_OUT_OF_BOUNDS \<and> \<not> (0 \<le> i \<and> i \<le> int (length (repr s))) \<or>
      e = NO_MEMORY \<and> \<not> mem_ok m"
    and remove_law: "inv s \<Longrightarrow> remove s i = Inr (x, s') \<Longrightarrow>
      0 \<le> i \<and> i < int (length (repr s)) \<and> x = repr s ! nat i \<and> inv s' \<and>
      repr s' = remove_nth (nat i) (repr s)"
    and remove_fail: "inv s \<Longrightarrow> remove s i = Inl e \<Longrightarrow>
      e = INDEX_OUT_OF_BOUNDS \<and> \<not> (0 \<le> i \<and> i < int (length (repr s)))"
begin

text \<open>An index loop over the store reads its elements in order.\<close>

lemma get_in_range: "inv s \<Longrightarrow> i < length (repr s) \<Longrightarrow> get s (int i) = Inr (repr s ! i)"
  by (simp add: get_law)

lemma get_all: "inv s \<Longrightarrow> map (\<lambda>i. get s (int i)) [0..<nat (size_of s)] = map Inr (repr s)"
  by (rule nth_equalityI) (simp_all add: size_law get_in_range)

lemma drop_unfold:
  assumes "inv s" and "0 \<le> i" and "i < size_of s"
  shows "\<exists>x. get s i = Inr x \<and> drop (nat i) (repr s) = x # drop (nat (i + 1)) (repr s)"
proof -
  from assms have "nat i < length (repr s)" by (simp add: size_law)
  with assms show ?thesis
    by (simp add: get_law size_law nat_add_distrib Cons_nth_drop_Suc)
qed

lemma drop_end: "inv s \<Longrightarrow> size_of s \<le> i \<Longrightarrow> drop (nat i) (repr s) = []"
  by (simp add: size_law)

lemma add_total:
  assumes "inv s" and "mem_ok m"
  shows "\<exists>s'. add m s x = Inr s' \<and> inv s' \<and> repr s' = repr s @ [x]"
  using assms by (cases "add m s x") (auto dest: add_fail add_law)

lemma add_at_total:
  assumes "inv s" and "mem_ok m" and "0 \<le> i" and "i \<le> size_of s"
  shows "\<exists>s'. add_at m s i x = Inr s' \<and> inv s' \<and> repr s' = insert_nth (nat i) x (repr s)"
  using assms by (cases "add_at m s i x") (auto simp: size_law dest: add_at_fail add_at_law)

lemma remove_add_at:
  assumes "inv s" and "add_at m s i x = Inr s'"
  shows "\<exists>s''. remove s' i = Inr (x, s'') \<and> inv s'' \<and> repr s'' = repr s"
proof -
  note law = add_at_law [OF assms]
  then have len: "length (repr s') = Suc (length (repr s))" by simp
  show ?thesis
  proof (cases "remove s' i")
    case (Inl e)
    with law len show ?thesis by (auto dest: remove_fail)
  next
    case (Inr r)
    then obtain y s'' where r: "remove s' i = Inr (y, s'')" by (cases r) auto
    from law have i: "nat i \<le> length (repr s)" by auto
    then have "insert_nth (nat i) x (repr s) ! nat i = x" by (simp add: nth_insert_nth)
    with r law i remove_law [of s' i y s''] show ?thesis by auto
  qed
qed

text \<open>
  Adding the elements of a list one by one, as initialisation code does, builds that list.
\<close>

lemma add_list:
  assumes "inv s" and "mem_ok m"
  shows "\<exists>s'. foldl (\<lambda>r x. case r of Inl e \<Rightarrow> Inl e | Inr t \<Rightarrow> add m t x) (Inr s) xs = Inr s' \<and>
    inv s' \<and> repr s' = repr s @ xs"
  using assms(1)
proof (induction xs arbitrary: s)
  case Nil
  then show ?case by simp
next
  case (Cons x xs)
  from add_total [OF Cons.prems assms(2)] obtain t
    where t: "add m s x = Inr t" "inv t" "repr t = repr s @ [x]" by blast
  from Cons.IH [OF t(2)] t show ?case by simp
qed

end

interpretation al: sequence_store al_inv al_list "\<lambda>al. axutil_array_list_size (Some al)"
    "\<lambda>al. axutil_array_list_get (Some al)" "\<lambda>m al. axutil_array_list_add m (Some al)"
    "\<lambda>m al. axutil_array_list_add_at m (Some al)" "\<lambda>al. axutil_array_list_remove (Some al)"
proof unfold_locales
  fix s :: "'a array_list" and m :: alloc and x s' e and i :: int
  assume inv: "al_inv s"
  then have sz: "al_size s = int (length (al_list s))" by (rule al_size_eq)
  show "axutil_array_list_size (Some s) = int (length (al_list s))"
    by (simp add: axutil_array_list_size_def sz)
  show "axutil_array_list_get (Some s) i =
      (if 0 \<le> i \<and> i < int (length (al_list s)) then Inr (al_list s ! nat i)
       else Inl INDEX_OUT_OF_BOUNDS)"
    using inv by (rule get_spec)
  show "al_inv s' \<and> al_list s' = al_list s @ [x]"
    if "axutil_array_list_add m (Some s) x = Inr s'"
    using inv that by (rule add_ok)
  show "e = NO_MEMORY \<and> \<not> mem_ok m" if "axutil_array_list_add m (Some s) x = Inl e"
    using that by (rule add_err)
  show "0 \<le> i \<and> i \<le> int (length (al_list s)) \<and> al_inv s' \<and>
      al_list s' = insert_nth (nat i) x (al_list s)"
    if "axutil_array_list_add_at m (Some s) i x = Inr s'"
    using add_at_ok [OF inv that] sz by simp
  show "e = INDEX_OUT_OF_BOUNDS \<and> \<not> (0 \<le> i \<and> i \<le> int (length (al_list s))) \<or>
      e = NO_MEMORY \<and> \<not> mem_ok m"
    if "axutil_array_list_add_at m (Some s) i x = Inl e"
    using add_at_err [OF inv that] sz by simp
  show "0 \<le> i \<and> i < int (length (al_list s)) \<and> x = al_list s ! nat i \<and> al_inv s' \<and>
      al_list s' = remove_nth (nat i) (al_list s)"
    if "axutil_array_list_remove (Some s) i = Inr (x, s')"
    using remove_ok [OF inv that] sz by simp
  show "e = INDEX_OUT_OF_BOUNDS \<and> \<not> (0 \<le> i \<and> i < int (length (al_list s)))"
    if "axutil_array_list_remove (Some s) i = Inl e"
    using remove_err [OF that] sz by simp
qed

section \<open>Histories of operations\<close>

text \<open>
  The calls a client makes on an array list and what each returns: a status, a number, a truth value
  or a pointer, or the error it sets. A failing call leaves the list unchanged. The same calls on a
  plain list are the specification.
\<close>

datatype 'a al_call = AAdd "'a option" | AAdd_at int "'a option" | ARemove int | ASet int "'a option"
  | AGet int | ASize | AIs_empty | AIndex_of "'a option" | AContains "'a option"

datatype 'a al_value = V_status | V_num int | V_truth bool | V_pointer "'a option"

definition kept :: "'s \<Rightarrow> 'v \<Rightarrow> 's result \<Rightarrow> 'v result \<times> 's" where
  "kept s v r = (case r of Inl e \<Rightarrow> (Inl e, s) | Inr s' \<Rightarrow> (Inr v, s'))"

definition taken :: "'s \<Rightarrow> ('a option \<times> 's) result \<Rightarrow> 'a al_value result \<times> 's" where
  "taken s r = (case r of Inl e \<Rightarrow> (Inl e, s) | Inr (x, s') \<Rightarrow> (Inr (V_pointer x), s'))"

fun do_al_call :: "alloc \<Rightarrow> 'a array_list \<Rightarrow> 'a al_call \<Rightarrow> 'a al_value result \<times> 'a array_list" where
  "do_al_call malloc al (AAdd e) = kept al V_status (axutil_array_list_add malloc (Some al) e)"
| "do_al_call malloc al (AAdd_at i e) = kept al V_status (axutil_array_list_add_at malloc (Some al) i e)"
| "do_al_call malloc al (ARemove i) = taken al (axutil_array_list_remove (Some al) i)"
| "do_al_call malloc al (ASet i e) = taken al (axutil_array_list_set (Some al) i e)"
| "do_al_call malloc al (AGet i) =
     (res_bind (axutil_array_list_get (Some al) i) (\<lambda>x. Inr (V_pointer x)), al)"
| "do_al_call malloc al ASize = (Inr (V_num (axutil_array_list_size (Some al))), al)"
| "do_al_call malloc al AIs_empty =
     (res_bind (axutil_array_list_is_empty (Some al)) (\<lambda>b. Inr (V_truth b)), al)"
| "do_al_call malloc al (AIndex_of e) =
     (res_bind (axutil_array_list_index_of (Some al) e) (\<lambda>i. Inr (V_num i)), al)"
| "do_al_call malloc al (AContains e) =
     (res_bind (axutil_array_list_contains (Some al) e) (\<lambda>b. Inr (V_truth b)), al)"

definition guarded :: "bool \<Rightarrow> 'v \<Rightarrow> 's \<Rightarrow> 's \<Rightarrow> 'v result \<times> 's" where
  "guarded b v s' s = (if b then (Inr v, s') else (Inl INDEX_OUT_OF_BOUNDS, s))"

fun plain_list_call :: "'a option list \<Rightarrow> 'a al_call \<Rightarrow> 'a al_value result \<times> 'a option list" where
  "plain_list_call xs (AAdd e) = (Inr V_status, xs @ [e])"
| "plain_list_call xs (AAdd_at i e) =
     guarded (0 \<le> i \<and> i \<le> int (length xs)) V_status (insert_nth (nat i) e xs) xs"
| "plain_list_call xs (ARemove i) =
     guarded (0 \<le> i \<and> i < int (length xs)) (V_pointer (xs ! nat i)) (remove_nth (nat i) xs) xs"
| "plain_list_call xs (ASet i e) =
     guarded (0 \<le> i \<and> i < int (length xs)) (V_pointer (xs ! nat i)) (xs[nat i := e]) xs"
| "plain_list_call xs (AGet i) =
     guarded (0 \<le> i \<and> i < int (length xs)) (V_pointer (xs ! nat i)) xs xs"
| "plain_list_call xs ASize = (Inr (V_num (int (length xs))), xs)"
| "plain_list_call xs AIs_empty = (Inr (V_truth (xs = [])), xs)"
| "plain_list_call xs (AIndex_of e) =
     (Inr (V_num (case find_index (\<lambda>x. x = e) xs of None \<Rightarrow> -1 | Some k \<Rightarrow> int k)), xs)"
| "plain_list_call xs (AContains e) = (Inr (V_truth (e \<in> set xs)), xs)"

lemma kept_add:
  assumes "al_inv al" "mem_ok malloc" "kept al v (axutil_array_list_add malloc (Some al) e) = (r, al')"
  shows "r = Inr v \<and> al_inv al' \<and> al_list al' = al_list al @ [e]"
  using al.add_total [OF assms(1,2), of e] assms(3) by (auto simp: kept_def)

lemma kept_add_at:
  assumes "al_inv al" "mem_ok malloc" "kept al v (axutil_array_list_add_at malloc (Some al) i e) = (r, al')"
  shows "al_inv al' \<and>
    guarded (0 \<le> i \<and> i \<le> int (length (al_list al))) v (insert_nth (nat i) e (al_list al)) (al_list al) = (r, al_list al')"
proof (cases "axutil_array_list_add_at malloc (Some al) i e")
  case (Inl err)
  with al.add_at_fail [OF assms(1) Inl] assms show ?thesis by (auto simp: kept_def guarded_def)
next
  case (Inr al'')
  with al.add_at_law [OF assms(1) Inr] assms(3) show ?thesis by (auto simp: kept_def guarded_def)
qed

lemma taken_remove:
  assumes "al_inv al" "taken al (axutil_array_list_remove (Some al) i) = (r, al')"
  shows "al_inv al' \<and>
    guarded (0 \<le> i \<and> i < int (length (al_list al))) (V_pointer (al_list al ! nat i))
      (remove_nth (nat i) (al_list al)) (al_list al) = (r, al_list al')"
proof (cases "axutil_array_list_remove (Some al) i")
  case (Inl err)
  with al.remove_fail [OF assms(1) Inl] assms show ?thesis by (auto simp: taken_def guarded_def)
next
  case (Inr q)
  then obtain x al'' where q: "axutil_array_list_remove (Some al) i = Inr (x, al'')" by (cases q) auto
  with al.remove_law [OF assms(1) q] assms(2) show ?thesis by (auto simp: taken_def guarded_def)
qed

lemma taken_set:
  assumes "al_inv al" "taken al (axutil_array_list_set (Some al) i e) = (r, al')"
  shows "al_inv al' \<and>
    guarded (0 \<le> i \<and> i < int (length (al_list al))) (V_pointer (al_list al ! nat i))
      ((al_list al)[nat i := e]) (al_list al) = (r, al_list al')"
  using assms set_spec [OF assms(1), of i e] al_size_eq [OF assms(1)]
  by (cases "0 \<le> i \<and> i < int (length (al_list al))") (auto simp: taken_def guarded_def)

lemma do_al_call_spec:
  assumes inv: "al_inv al" and m: "mem_ok malloc" and c: "do_al_call malloc al c = (r, al')"
  shows "al_inv al' \<and> plain_list_call (al_list al) c = (r, al_list al')"
proof (cases c)
  case (AGet i)
  with inv c al.get_law [OF inv, of i] show ?thesis by (auto simp: guarded_def)
next
  case AIs_empty
  with inv c al_size_eq [OF inv] show ?thesis by (auto simp: axutil_array_list_is_empty_def)
qed (use inv c m al.size_law [OF inv] in
    \<open>auto simp: index_of_spec contains_spec dest: kept_add kept_add_at taken_remove taken_set\<close>)

interpretation alh: refinement "\<lambda>al. mem_ok malloc \<and> al_inv al" al_list "do_al_call malloc" plain_list_call
  for malloc
  by unfold_locales (use do_al_call_spec in blast)+

text \<open>Bounds of the \<^verbatim>\<open>int\<close> fields: one call adds at most one element, and the capacity at most doubles.\<close>

lemma make_room_capacity:
  assumes "al_inv al" "make_room malloc al = Inr b"
  shows "al_capacity b = al_capacity al \<or>
    al_size al = al_capacity al \<and> al_capacity b \<le> max (al_capacity al + 1) (c_wrap (al_capacity al * 2))"
  using assms
  by (auto simp: make_room_def axutil_array_list_ensure_capacity_def al_inv_def Let_def split: if_splits)

lemma add_capacity:
  assumes "al_inv al"
    and "axutil_array_list_add malloc (Some al) e = Inr al' \<or>
         axutil_array_list_add_at malloc (Some al) i e = Inr al'"
  shows "al_size al' = al_size al + 1 \<and> (al_capacity al' = al_capacity al \<or>
    al_size al = al_capacity al \<and> al_capacity al' \<le> max (al_capacity al + 1) (c_wrap (al_capacity al * 2)))"
proof -
  obtain b where b: "make_room malloc al = Inr b" and cap: "al_capacity al' = al_capacity b"
    "al_size al' = al_size b + 1"
    using assms(2) by (auto simp: add_alt add_at_alt split: sum.splits if_splits)
  with make_room_capacity [OF assms(1) b] make_room_ok(2) [OF assms(1) b] show ?thesis by auto
qed

lemma do_al_call_bounds:
  assumes "al_inv al" "do_al_call malloc al c = (r, al')"
  shows "al_size al' \<le> al_size al + 1 \<and> (al_capacity al' = al_capacity al \<or>
    al_size al = al_capacity al \<and> al_capacity al' \<le> max (al_capacity al + 1) (c_wrap (al_capacity al * 2)))"
proof (cases c)
  case (AAdd e)
  show ?thesis
  proof (cases "axutil_array_list_add malloc (Some al) e")
    case (Inr b)
    with AAdd assms(2) add_capacity [OF assms(1), of malloc e b 0] show ?thesis by (simp add: kept_def)
  qed (use AAdd assms(2) in \<open>simp add: kept_def\<close>)
next
  case (AAdd_at i e)
  show ?thesis
  proof (cases "axutil_array_list_add_at malloc (Some al) i e")
    case (Inr b)
    with AAdd_at assms(2) add_capacity [OF assms(1), of malloc e b i] show ?thesis by (simp add: kept_def)
  qed (use AAdd_at assms(2) in \<open>simp add: kept_def\<close>)
qed (use assms(2) in \<open>auto simp: taken_def axutil_array_list_remove_def axutil_array_list_set_def
    split: if_splits sum.splits\<close>)

lemma al_calls_bounds:
  assumes "al_inv al" "mem_ok malloc" "calls (do_al_call malloc) al cs = (rs, al')"
    and "al_size al + int (length cs) < 2 ^ 30" "al_capacity al \<le> INT_MAX"
  shows "al_size al' \<le> al_size al + int (length cs) \<and> al_capacity al' \<le> INT_MAX"
  using assms
proof (induction cs arbitrary: al rs)
  case (Cons c cs)
  obtain r b qs where b: "do_al_call malloc al c = (r, b)" "calls (do_al_call malloc) b cs = (qs, al')"
    using Cons.prems(3) by (auto split: prod.splits)
  note bd = do_al_call_bounds [OF Cons.prems(1) b(1)]
  have "al_inv b" using do_al_call_spec [OF Cons.prems(1,2) b(1)] by blast
  moreover have "al_size b + int (length cs) < 2 ^ 30" using bd Cons.prems(4) by simp
  moreover have "al_capacity b \<le> INT_MAX"
    using bd Cons.prems(4,5) c_wrap_range(2) [of "al_capacity al * 2"] by (auto simp: INT_MAX_def)
  ultimately have "al_size al' \<le> al_size b + int (length cs) \<and> al_capacity al' \<le> INT_MAX"
    using Cons.IH [OF _ Cons.prems(2) b(2)] by blast
  with bd show ?case by simp
qed simp

section \<open>Properties\<close>

text \<open>
  C2 (refinement). Take a list created with any \<^verbatim>\<open>int\<close> as the requested capacity and any sequence of
  fewer than $2^{30}$ calls of \<^verbatim>\<open>add\<close>, \<^verbatim>\<open>add_at\<close>, \<^verbatim>\<open>remove\<close>, \<^verbatim>\<open>set\<close>, \<^verbatim>\<open>get\<close>, \<^verbatim>\<open>size\<close>, \<^verbatim>\<open>is_empty\<close>,
  \<^verbatim>\<open>index_of\<close> and \<^verbatim>\<open>contains\<close>, memory being granted. Every call returns what the same call on a
  plain list returns, the error included where an index is out of range, and the stored pointers are
  those of the plain list. The structure stays well formed and its \<^verbatim>\<open>int\<close> fields stay in range: the
  size is at most the number of calls, the capacity fits an \<^verbatim>\<open>int\<close>, and so do \<^verbatim>\<open>capacity * 2\<close> and
  \<^verbatim>\<open>size + 1\<close> whenever the next \<^verbatim>\<open>add\<close> has to grow the block.
\<close>

theorem array_list_history_refines:
  assumes "mem_ok malloc" and "axutil_array_list_create malloc capacity = Inr al"
    and "capacity \<le> INT_MAX" and "length cs < 2 ^ 30"
    and "calls (do_al_call malloc) al cs = (rs, al')"
  shows "calls plain_list_call [] cs = (rs, al_list al') \<and> al_inv al' \<and>
    al_size al' \<le> int (length cs) \<and> al_capacity al' \<le> INT_MAX \<and>
    (al_size al' = al_capacity al' \<longrightarrow> al_capacity al' * 2 \<le> INT_MAX \<and> al_size al' + 1 \<le> INT_MAX)"
proof -
  have al: "al_inv al" "al_list al = []" using create_ok [OF assms(2)] by auto
  have f: "al_size al = 0" "al_capacity al \<le> INT_MAX"
    using assms(2,3) by (auto simp: axutil_array_list_create_def AXIS2_ARRAY_LIST_DEFAULT_CAPACITY_def
        INT_MAX_def Let_def split: if_splits)
  have n: "int (length cs) < 2 ^ 30" using assms(4) by simp
  have b: "al_size al' \<le> int (length cs)" "al_capacity al' \<le> INT_MAX"
    using al_calls_bounds [OF al(1) assms(1,5)] f n by auto
  have "al_inv al' \<and> calls plain_list_call [] cs = (rs, al_list al')"
    using alh.history [OF _ assms(5)] al assms(1) by simp
  with b n show ?thesis by (auto simp: INT_MAX_def)
qed

theorem array_list_history_refines_witness:
  "\<exists>al rs al'. axutil_array_list_create (\<lambda>n. True) 1 = Inr al \<and>
    calls (do_al_call (\<lambda>n. True)) al
      [AAdd (Some 7), AAdd (Some 8), AAdd_at 1 (Some (9::nat)), ARemove 0, AGet 5, ASet 0 None, AIndex_of (Some 8)]
      = (rs, al') \<and>
    rs = [Inr V_status, Inr V_status, Inr V_status, Inr (V_pointer (Some 7)), Inl INDEX_OUT_OF_BOUNDS,
      Inr (V_pointer (Some 9)), Inr (V_num 1)] \<and>
    al_list al' = [None, Some 8] \<and> al_size al' \<le> 7 \<and> al_capacity al' \<le> INT_MAX"
proof -
  let ?cs = "[AAdd (Some 7), AAdd (Some 8), AAdd_at 1 (Some (9::nat)), ARemove 0, AGet 5, ASet 0 None, AIndex_of (Some 8)]"
  obtain al where al: "axutil_array_list_create (\<lambda>n. True) 1 = Inr (al :: nat array_list)"
    using create_total [OF mem_ok_True] by blast
  obtain rs al' where c: "calls (do_al_call (\<lambda>n. True)) al ?cs = (rs, al')" by fastforce
  have "calls plain_list_call [] ?cs = ([Inr V_status, Inr V_status, Inr V_status, Inr (V_pointer (Some 7)),
      Inl INDEX_OUT_OF_BOUNDS, Inr (V_pointer (Some 9)), Inr (V_num 1)], [None, Some 8])"
    by (simp add: guarded_def insert_nth_def remove_nth_def)
  with array_list_history_refines [OF mem_ok_True al _ _ c] al c show ?thesis
    by (auto simp: INT_MAX_def)
qed

text \<open>
  A pointer inserted with \<^verbatim>\<open>axutil_array_list_add_at\<close> is returned by
  \<^verbatim>\<open>axutil_array_list_remove\<close> at the same index, and the list is then what it was, also when
  the insertion had to move the data to a bigger block.
\<close>

theorem array_list_remove_add_at:
  assumes "al_inv al" and "axutil_array_list_add_at malloc (Some al) i e = Inr al'"
  shows "\<exists>al''. axutil_array_list_remove (Some al') i = Inr (e, al'') \<and> al_inv al'' \<and>
    al_list al'' = al_list al"
  using assms by (rule al.remove_add_at)

theorem array_list_remove_add_at_witness:
  "\<exists>al al' al''. al_list al = [Some 7, Some (8::nat)] \<and>
    axutil_array_list_add_at (\<lambda>n. True) (Some al) 1 (Some 9) = Inr al' \<and>
    axutil_array_list_remove (Some al') 1 = Inr (Some 9, al'') \<and> al_list al'' = [Some 7, Some 8]"
proof -
  let ?al = "\<lparr>al_size = 2, al_capacity = 2, al_data = [Some 7, Some (8::nat)]\<rparr>"
  have inv: "al_inv ?al" and l: "al_list ?al = [Some 7, Some 8]"
    by (simp_all add: al_inv_def al_list_def)
  then obtain al' where al': "axutil_array_list_add_at (\<lambda>n. True) (Some ?al) 1 (Some 9) = Inr al'"
    using al.add_at_total [OF inv mem_ok_True, of 1 "Some 9"]
    by (auto simp: axutil_array_list_size_def)
  from array_list_remove_add_at [OF inv al'] l al' show ?thesis by metis
qed

text \<open>
  The \<^verbatim>\<open>int\<close> arithmetic of the growing operations stays in range: while the
  capacity is below $2^{30}$, adding an element (at the end or at an index) computes
  \<^verbatim>\<open>capacity * 2\<close> and \<^verbatim>\<open>size + 1\<close> without overflowing 31 bits, the new capacity is at most
  twice the old one, or 1 more than it, and the new size does not exceed it.
\<close>

theorem array_list_int_bounds:
  assumes "al_inv al" and "al_capacity al < 2 ^ 30"
    and "axutil_array_list_add malloc (Some al) e = Inr al' \<or>
         axutil_array_list_add_at malloc (Some al) i e = Inr al'"
  shows "al_capacity al * 2 < 2 ^ 31 \<and> al_size al' = al_size al + 1 \<and>
    al_size al' \<le> al_capacity al' \<and> al_capacity al' \<le> al_capacity al * 2 \<and>
    al_capacity al' < 2 ^ 31"
proof -
  have inv: "al_inv al'"
    using assms(1,3) al.add_law [of al malloc e al'] al.add_at_law [of al malloc i e al'] by blast
  have "c_wrap (al_capacity al * 2) = al_capacity al * 2"
    using assms(1,2) by (intro c_wrap_id) (simp add: in_int_def INT_MAX_def al_inv_def)
  with add_capacity [OF assms(1,3)] inv assms(1,2) show ?thesis by (auto simp: al_inv_def)
qed

theorem array_list_int_bounds_witness:
  "\<exists>al'. axutil_array_list_add (\<lambda>n. True)
      (Some \<lparr>al_size = 1, al_capacity = 1, al_data = [Some (7::nat)]\<rparr>) (Some 8) = Inr al' \<and>
    al_size al' = 2 \<and> al_capacity al' \<le> 2"
proof -
  let ?al = "\<lparr>al_size = 1, al_capacity = 1, al_data = [Some (7::nat)]\<rparr>"
  have inv: "al_inv ?al" by (simp add: al_inv_def)
  then obtain al' where al': "axutil_array_list_add (\<lambda>n. True) (Some ?al) (Some 8) = Inr al'"
    using al.add_total [OF inv mem_ok_True] by blast
  from array_list_int_bounds [OF inv, of "\<lambda>n. True" "Some 8" al' 0] al' show ?thesis by auto
qed

text \<open>
  \<^verbatim>\<open>axutil_array_list_index_of\<close> returns the least index that holds the pointer,
  or -1 when no element below \<^verbatim>\<open>size\<close> is that pointer, and \<^verbatim>\<open>axutil_array_list_contains\<close> agrees
  with it; cells beyond \<^verbatim>\<open>size\<close> never count.
\<close>

theorem array_list_index_of_least:
  assumes "al_inv al"
  shows "\<exists>i. axutil_array_list_index_of (Some al) e = Inr i \<and>
    axutil_array_list_contains (Some al) e = Inr (i \<noteq> -1) \<and>
    (i = -1 \<and> e \<notin> set (al_list al) \<or>
     0 \<le> i \<and> i < al_size al \<and> al_list al ! nat i = e \<and> (\<forall>j < nat i. al_list al ! j \<noteq> e))"
proof (cases "find_index (\<lambda>x. x = e) (al_list al)")
  case None
  then have "e \<notin> set (al_list al)" by (auto simp: find_index_None)
  with assms None show ?thesis
    by (simp add: index_of_spec contains_spec)
next
  case (Some k)
  then have k: "k < length (al_list al)" "al_list al ! k = e" "\<forall>j < k. al_list al ! j \<noteq> e"
    by (simp_all add: find_index_Some)
  then have "e \<in> set (al_list al)" by (metis nth_mem)
  with assms Some k show ?thesis
    by (simp add: index_of_spec contains_spec length_al_list)
qed

theorem array_list_index_of_least_witness:
  "axutil_array_list_index_of
      (Some \<lparr>al_size = 2, al_capacity = 3, al_data = [Some 7, Some (8::nat), Some 9]\<rparr>) (Some 8)
     = Inr 1 \<and>
   axutil_array_list_index_of
      (Some \<lparr>al_size = 2, al_capacity = 3, al_data = [Some 7, Some (8::nat), Some 9]\<rparr>) (Some 9)
     = Inr (-1)"
proof -
  let ?al = "\<lparr>al_size = 2, al_capacity = 3, al_data = [Some 7, Some (8::nat), Some 9]\<rparr>"
  have inv: "al_inv ?al" and l: "al_list ?al = [Some 7, Some 8]"
    by (simp_all add: al_inv_def al_list_def)
  from array_list_index_of_least [OF inv, of "Some 8"] l obtain i
    where i: "axutil_array_list_index_of (Some ?al) (Some 8) = Inr i" "0 \<le> i" "i < 2"
      "[Some 7, Some 8] ! nat i = Some (8::nat)"
    by auto
  then have 1: "i = 1" by (cases "i = 0") auto
  have "[Some 7, Some 8] ! nat j \<noteq> Some (9::nat)" if "0 \<le> j" "j < 2" for j
    using that by (cases "j = 0"; cases "j = 1") auto
  with array_list_index_of_least [OF inv, of "Some 9"] l
  have "axutil_array_list_index_of (Some ?al) (Some 9) = Inr (-1)" by auto
  with i(1) 1 show ?thesis by simp
qed

end
