(* ===== verification/Handler_Desc.thy ===== *)
theory Handler_Desc
  imports Axis_Prelude
begin

text \<open>
  Handlers, their descriptions and the phase rules that order them:
  \<^verbatim>\<open>src/core/engine/handler.c\<close>, \<^verbatim>\<open>src/core/description/handler_desc.c\<close> and
  \<^verbatim>\<open>src/core/description/phase_rule.c\<close>. A handler and its description point at each other, so
  both live in an explicit store, addressed by numbers.
\<close>

section \<open>Phase rules\<close>

text \<open>\<^verbatim>\<open>struct axis2_phase_rule\<close>; a NULL string is \<open>None\<close>.\<close>

record axis2_phase_rule =
  rule_before :: "string option"
  rule_after :: "string option"
  rule_name :: "string option"
  rule_first :: bool
  rule_last :: bool

definition axis2_phase_rule_get_before :: "axis2_phase_rule \<Rightarrow> string option" where
  "axis2_phase_rule_get_before rule = rule_before rule"

definition axis2_phase_rule_get_after :: "axis2_phase_rule \<Rightarrow> string option" where
  "axis2_phase_rule_get_after rule = rule_after rule"

definition axis2_phase_rule_get_name :: "axis2_phase_rule \<Rightarrow> string option" where
  "axis2_phase_rule_get_name rule = rule_name rule"

definition axis2_phase_rule_is_first :: "axis2_phase_rule \<Rightarrow> bool" where
  "axis2_phase_rule_is_first rule = rule_first rule"

definition axis2_phase_rule_is_last :: "axis2_phase_rule \<Rightarrow> bool" where
  "axis2_phase_rule_is_last rule = rule_last rule"

definition axis2_phase_rule_set_first :: "axis2_phase_rule \<Rightarrow> bool \<Rightarrow> axis2_phase_rule" where
  "axis2_phase_rule_set_first rule b = rule\<lparr>rule_first := b\<rparr>"

definition axis2_phase_rule_set_last :: "axis2_phase_rule \<Rightarrow> bool \<Rightarrow> axis2_phase_rule" where
  "axis2_phase_rule_set_last rule b = rule\<lparr>rule_last := b\<rparr>"

section \<open>Handlers and handler descriptions\<close>

text \<open>
  \<^verbatim>\<open>struct axis2_handler_desc\<close> without its parameter containers, and \<^verbatim>\<open>struct axis2_handler\<close>
  without its \<^verbatim>\<open>invoke\<close> pointer, which is code of the deployed modules and a parameter of the
  operations that call it.
\<close>

record axis2_handler_desc =
  desc_name :: "string option"
  desc_rules :: "axis2_phase_rule option"
  desc_handler :: ptr
  desc_class_name :: "string option"

record axis2_handler =
  handler_desc :: ptr

record handler_store =
  handler_at :: "nat \<Rightarrow> axis2_handler"
  desc_at :: "nat \<Rightarrow> axis2_handler_desc"

definition axis2_handler_desc_get_name :: "handler_store \<Rightarrow> nat \<Rightarrow> string option" where
  "axis2_handler_desc_get_name hs d = desc_name (desc_at hs d)"

definition axis2_handler_desc_get_rules :: "handler_store \<Rightarrow> nat \<Rightarrow> axis2_phase_rule option" where
  "axis2_handler_desc_get_rules hs d = desc_rules (desc_at hs d)"

definition axis2_handler_desc_get_handler :: "handler_store \<Rightarrow> nat \<Rightarrow> ptr" where
  "axis2_handler_desc_get_handler hs d = desc_handler (desc_at hs d)"

definition axis2_handler_desc_set_name :: "handler_store \<Rightarrow> nat \<Rightarrow> string option \<Rightarrow> handler_store" where
  "axis2_handler_desc_set_name hs d name =
     hs\<lparr>desc_at := (desc_at hs)(d := (desc_at hs d)\<lparr>desc_name := name\<rparr>)\<rparr>"

text \<open>
  \<^verbatim>\<open>axis2_handler_desc_set_handler\<close> frees a different previous handler and stores a non-NULL one.
\<close>

definition axis2_handler_desc_set_handler :: "handler_store \<Rightarrow> nat \<Rightarrow> ptr \<Rightarrow> handler_store" where
  "axis2_handler_desc_set_handler hs d h =
     (case h of None \<Rightarrow> hs
      | Some _ \<Rightarrow> hs\<lparr>desc_at := (desc_at hs)(d := (desc_at hs d)\<lparr>desc_handler := h\<rparr>)\<rparr>)"

definition axis2_handler_get_handler_desc :: "handler_store \<Rightarrow> nat \<Rightarrow> ptr" where
  "axis2_handler_get_handler_desc hs h = handler_desc (handler_at hs h)"

definition axis2_handler_get_name :: "handler_store \<Rightarrow> nat \<Rightarrow> string option" where
  "axis2_handler_get_name hs h =
     (case handler_desc (handler_at hs h) of
        None \<Rightarrow> None
      | Some d \<Rightarrow> axis2_handler_desc_get_name hs d)"

definition axis2_handler_init :: "handler_store \<Rightarrow> nat \<Rightarrow> nat \<Rightarrow> handler_store" where
  "axis2_handler_init hs h d =
     axis2_handler_desc_set_handler
       (hs\<lparr>handler_at := (handler_at hs)(h := (handler_at hs h)\<lparr>handler_desc := Some d\<rparr>)\<rparr>)
       d (Some h)"

lemmas phase_rule_defs =
  axis2_phase_rule_get_before_def axis2_phase_rule_get_after_def axis2_phase_rule_get_name_def
  axis2_phase_rule_is_first_def axis2_phase_rule_is_last_def
  axis2_phase_rule_set_first_def axis2_phase_rule_set_last_def

lemmas handler_defs =
  axis2_handler_desc_get_name_def axis2_handler_desc_get_rules_def
  axis2_handler_desc_get_handler_def axis2_handler_get_handler_desc_def
  axis2_handler_get_name_def

text \<open>\<^verbatim>\<open>axis2_handler_init\<close> ties the two structures together, in both directions.\<close>

lemma handler_init_links:
  "axis2_handler_get_handler_desc (axis2_handler_init hs h d) h = Some d"
  "axis2_handler_desc_get_handler (axis2_handler_init hs h d) d = Some h"
  "axis2_handler_get_name (axis2_handler_init hs h d) h = axis2_handler_desc_get_name hs d"
  by (simp_all add: axis2_handler_init_def axis2_handler_desc_set_handler_def handler_defs)

text \<open>The rules of a handler, through its description; NULL when either is missing.\<close>

definition handler_rules :: "handler_store \<Rightarrow> nat \<Rightarrow> axis2_phase_rule option" where
  "handler_rules hs h = Option.bind (axis2_handler_get_handler_desc hs h) (axis2_handler_desc_get_rules hs)"

end
