(* ===== verification/Phase.thy ===== *)
theory Phase
  imports Array_List Handler_Desc
begin

text \<open>
  Phases and the placement of handlers in them: \<^verbatim>\<open>src/core/engine/phase.c\<close> up to the invocation
  of the handlers, which is in theory \<open>Phase_Invoke\<close>. A phase keeps its handlers in an array
  list, and optionally a first and a last handler beside it. The placement operations read the
  handlers' descriptions and rules from the handler store.
\<close>

section \<open>State\<close>

text \<open>\<^verbatim>\<open>struct axis2_phase\<close>; the handlers are addresses of the handler store.\<close>

record axis2_phase =
  phase_name :: "string option"
  handlers :: "nat array_list"
  first_handler :: ptr
  first_handler_set :: bool
  last_handler :: ptr
  last_handler_set :: bool
  is_one_handler :: bool
  phase_ref :: int

definition sizeof_phase :: nat where
  "sizeof_phase = 56"

text \<open>
  \<^verbatim>\<open>axis2_phase_create\<close>; \<^verbatim>\<open>axutil_strdup\<close> of the name asks for its length and one more byte.
\<close>

definition axis2_phase_create :: "alloc \<Rightarrow> string option \<Rightarrow> axis2_phase result" where
  "axis2_phase_create malloc name =
     (if \<not> malloc sizeof_phase then Inl NO_MEMORY
      else
        (case axutil_array_list_create malloc 10 of
           Inl e \<Rightarrow> Inl e
         | Inr hl \<Rightarrow>
             (case name of
                Some n \<Rightarrow> if \<not> malloc (length n + 1) then Inl NO_MEMORY
                  else Inr \<lparr>phase_name = Some n, handlers = hl, first_handler = None,
                    first_handler_set = False, last_handler = None, last_handler_set = False,
                    is_one_handler = False, phase_ref = 1\<rparr>
              | None \<Rightarrow> Inr \<lparr>phase_name = None, handlers = hl, first_handler = None,
                    first_handler_set = False, last_handler = None, last_handler_set = False,
                    is_one_handler = False, phase_ref = 1\<rparr>)))"

definition axis2_phase_get_name :: "axis2_phase \<Rightarrow> string option" where
  "axis2_phase_get_name ph = phase_name ph"

definition axis2_phase_get_handler_count :: "axis2_phase \<Rightarrow> int" where
  "axis2_phase_get_handler_count ph = axutil_array_list_size (Some (handlers ph))"

definition axis2_phase_get_all_handlers :: "axis2_phase \<Rightarrow> nat array_list" where
  "axis2_phase_get_all_handlers ph = handlers ph"

definition axis2_phase_increment_ref :: "axis2_phase \<Rightarrow> axis2_phase" where
  "axis2_phase_increment_ref ph = ph\<lparr>phase_ref := phase_ref ph + 1\<rparr>"

section \<open>Unique addition and removal\<close>

text \<open>
  The loop shared by \<^verbatim>\<open>axis2_phase_add_unique\<close> and \<^verbatim>\<open>axis2_phase_remove_unique\<close>: the index at
  which it breaks, if it does. It takes the name of every element, which dereferences it.
\<close>

function unique_loop :: "handler_store \<Rightarrow> nat array_list \<Rightarrow> nat \<Rightarrow> int \<Rightarrow> int option result" where
  "unique_loop hs list handler i =
     (if i < axutil_array_list_size (Some list) then
        (case ret_ptr (axutil_array_list_get (Some list) i) of
           None \<Rightarrow> Inl UNDEFINED_BEHAVIOUR
         | Some obj \<Rightarrow>
             if obj = handler then Inr (Some i)
             else if axutil_strcmp (axis2_handler_get_name hs handler)
                       (axis2_handler_get_name hs obj) = 0 then Inr (Some i)
             else unique_loop hs list handler (i + 1))
      else Inr None)"
  by pat_completeness auto
termination
  by (relation "measure (\<lambda>(hs, list, h, i). nat (axutil_array_list_size (Some list) - i))") auto

text \<open>The status of \<^verbatim>\<open>axutil_array_list_add\<close> is ignored: success is returned in any case.\<close>

definition axis2_phase_add_unique ::
    "alloc \<Rightarrow> handler_store \<Rightarrow> nat array_list \<Rightarrow> nat \<Rightarrow> nat array_list result" where
  "axis2_phase_add_unique malloc hs list handler =
     (case unique_loop hs list handler 0 of
        Inl e \<Rightarrow> Inl e
      | Inr (Some i) \<Rightarrow> Inr list
      | Inr None \<Rightarrow> Inr (state_of list (axutil_array_list_add malloc (Some list) (Some handler))))"

definition axis2_phase_remove_unique ::
    "handler_store \<Rightarrow> nat array_list \<Rightarrow> nat \<Rightarrow> nat array_list result" where
  "axis2_phase_remove_unique hs list handler =
     (case unique_loop hs list handler 0 of
        Inl e \<Rightarrow> Inl e
      | Inr (Some i) \<Rightarrow>
          (case axutil_array_list_remove (Some list) i of Inl _ \<Rightarrow> Inr list | Inr (_, l') \<Rightarrow> Inr l')
      | Inr None \<Rightarrow> Inr list)"

text \<open>The handler list of a phase replaced by the outcome of a list operation.\<close>

definition set_handlers :: "axis2_phase \<Rightarrow> nat array_list result \<Rightarrow> axis2_phase result" where
  "set_handlers ph r = (case r of Inl e \<Rightarrow> Inl e | Inr l \<Rightarrow> Inr (ph\<lparr>handlers := l\<rparr>))"

definition axis2_phase_add_handler_at ::
    "alloc \<Rightarrow> axis2_phase \<Rightarrow> int \<Rightarrow> nat \<Rightarrow> axis2_phase result" where
  "axis2_phase_add_handler_at malloc ph index handler =
     set_handlers ph (axutil_array_list_add_at malloc (Some (handlers ph)) index (Some handler))"

definition axis2_phase_add_handler ::
    "alloc \<Rightarrow> handler_store \<Rightarrow> axis2_phase \<Rightarrow> nat \<Rightarrow> axis2_phase result" where
  "axis2_phase_add_handler malloc hs ph handler =
     set_handlers ph (axis2_phase_add_unique malloc hs (handlers ph) handler)"

definition axis2_phase_remove_handler ::
    "handler_store \<Rightarrow> axis2_phase \<Rightarrow> nat \<Rightarrow> axis2_phase result" where
  "axis2_phase_remove_handler hs ph handler =
     set_handlers ph (axis2_phase_remove_unique hs (handlers ph) handler)"

definition axis2_phase_remove_handler_desc ::
    "handler_store \<Rightarrow> axis2_phase \<Rightarrow> nat \<Rightarrow> axis2_phase result" where
  "axis2_phase_remove_handler_desc hs ph desc =
     (case axis2_handler_desc_get_handler hs desc of
        None \<Rightarrow> Inl INVALID_NULL_PARAM
      | Some handler \<Rightarrow> set_handlers ph (axis2_phase_remove_unique hs (handlers ph) handler))"

section \<open>Rules of a handler\<close>

definition AXIS2_PHASE_BOTH_BEFORE_AFTER :: int where "AXIS2_PHASE_BOTH_BEFORE_AFTER = 0"

definition AXIS2_PHASE_BEFORE :: int where "AXIS2_PHASE_BEFORE = 1"

definition AXIS2_PHASE_AFTER :: int where "AXIS2_PHASE_AFTER = 2"

definition AXIS2_PHASE_ANYWHERE :: int where "AXIS2_PHASE_ANYWHERE = 3"

lemmas phase_type_defs = AXIS2_PHASE_BOTH_BEFORE_AFTER_def AXIS2_PHASE_BEFORE_def
  AXIS2_PHASE_AFTER_def AXIS2_PHASE_ANYWHERE_def

text \<open>
  \<^verbatim>\<open>_axis2_phase_get_before_after\<close> returns an \<^verbatim>\<open>int\<close>: on its error branches the number of
  \<^verbatim>\<open>AXIS2_FAILURE\<close>. The second component is the error number it sets, if any.
\<close>

definition axis2_phase_get_before_after ::
    "handler_store \<Rightarrow> nat \<Rightarrow> int \<times> axis2_error option" where
  "axis2_phase_get_before_after hs handler =
     (case axis2_handler_get_handler_desc hs handler of
        None \<Rightarrow> (status_int AXIS2_FAILURE, Some INVALID_NULL_PARAM)
      | Some desc \<Rightarrow>
          (case axis2_handler_desc_get_rules hs desc of
             None \<Rightarrow> (status_int AXIS2_FAILURE, Some INVALID_NULL_PARAM)
           | Some rules \<Rightarrow>
               (case (axis2_phase_rule_get_before rules, axis2_phase_rule_get_after rules) of
                  (Some before, Some after) \<Rightarrow>
                    if axutil_strcmp (Some before) (Some after) = 0
                    then (status_int AXIS2_FAILURE, Some BEFORE_AFTER_HANDLERS_SAME)
                    else (AXIS2_PHASE_BOTH_BEFORE_AFTER, None)
                | (Some before, None) \<Rightarrow> (AXIS2_PHASE_BEFORE, None)
                | (None, Some after) \<Rightarrow> (AXIS2_PHASE_AFTER, None)
                | (None, None) \<Rightarrow> (AXIS2_PHASE_ANYWHERE, None))))"

section \<open>First and last handler\<close>

definition axis2_phase_set_first_handler ::
    "handler_store \<Rightarrow> axis2_phase \<Rightarrow> nat \<Rightarrow> axis2_phase result" where
  "axis2_phase_set_first_handler hs ph handler =
     (if first_handler_set ph then Inl PHASE_FIRST_HANDLER_ALREADY_SET
      else if fst (axis2_phase_get_before_after hs handler) \<noteq> AXIS2_PHASE_ANYWHERE
      then Inl INVALID_PHASE_FIRST_HANDLER
      else Inr (ph\<lparr>first_handler := Some handler, first_handler_set := True\<rparr>))"

definition axis2_phase_set_last_handler ::
    "handler_store \<Rightarrow> axis2_phase \<Rightarrow> nat \<Rightarrow> axis2_phase result" where
  "axis2_phase_set_last_handler hs ph handler =
     (if last_handler_set ph then Inl PHASE_LAST_HANDLER_ALREADY_SET
      else if fst (axis2_phase_get_before_after hs handler) \<noteq> AXIS2_PHASE_ANYWHERE
      then Inl INVALID_PHASE_LAST_HANDLER
      else Inr (ph\<lparr>last_handler := Some handler, last_handler_set := True\<rparr>))"

definition axis2_phase_is_valid_before :: "handler_store \<Rightarrow> axis2_phase \<Rightarrow> nat \<Rightarrow> bool" where
  "axis2_phase_is_valid_before hs ph handler =
     (case first_handler ph of
        None \<Rightarrow> True
      | Some fh \<Rightarrow>
          (case axis2_handler_get_handler_desc hs fh of
             None \<Rightarrow> True
           | Some fd \<Rightarrow>
               (case axis2_handler_desc_get_name hs fd of
                  None \<Rightarrow> True
                | Some first_handler_name \<Rightarrow>
                    (case axis2_handler_get_handler_desc hs handler of
                       None \<Rightarrow> True
                     | Some desc \<Rightarrow>
                         (case axis2_handler_desc_get_rules hs desc of
                            None \<Rightarrow> True
                          | Some rules \<Rightarrow>
                              (case axis2_phase_rule_get_before rules of
                                 None \<Rightarrow> True
                               | Some before \<Rightarrow>
                                   axutil_strcmp (Some first_handler_name) (Some before) \<noteq> 0))))))"

definition axis2_phase_is_valid_after :: "handler_store \<Rightarrow> axis2_phase \<Rightarrow> nat \<Rightarrow> bool" where
  "axis2_phase_is_valid_after hs ph handler =
     (case last_handler ph of
        None \<Rightarrow> True
      | Some lh \<Rightarrow>
          (case axis2_handler_get_handler_desc hs lh of
             None \<Rightarrow> True
           | Some ld \<Rightarrow>
               (case axis2_handler_desc_get_name hs ld of
                  None \<Rightarrow> True
                | Some last_handler_name \<Rightarrow>
                    (case axis2_handler_get_handler_desc hs handler of
                       None \<Rightarrow> True
                     | Some desc \<Rightarrow>
                         (case axis2_handler_desc_get_rules hs desc of
                            None \<Rightarrow> True
                          | Some rules \<Rightarrow>
                              (case axis2_phase_rule_get_after rules of
                                 None \<Rightarrow> True
                               | Some after \<Rightarrow>
                                   axutil_strcmp (Some last_handler_name) (Some after) \<noteq> 0))))))"

section \<open>Placement by rule\<close>

text \<open>
  The name of a handler that is already in the phase, with the two error branches the insertion
  operations have for it.
\<close>

definition described_name :: "handler_store \<Rightarrow> nat \<Rightarrow> string result" where
  "described_name hs h =
     (case axis2_handler_get_handler_desc hs h of
        None \<Rightarrow> Inl INVALID_HANDLER_STATE
      | Some desc \<Rightarrow>
          (case axis2_handler_desc_get_name hs desc of
             None \<Rightarrow> Inl INVALID_HANDLER_STATE
           | Some name \<Rightarrow> Inr name))"

text \<open>
  The search loop of \<^verbatim>\<open>axis2_phase_insert_before\<close> and \<^verbatim>\<open>axis2_phase_insert_after\<close>: the first
  index whose handler has the name \<open>target\<close>. A NULL element is skipped.
\<close>

function target_loop :: "handler_store \<Rightarrow> nat array_list \<Rightarrow> string \<Rightarrow> int \<Rightarrow> int option result" where
  "target_loop hs list target i =
     (if i < axutil_array_list_size (Some list) then
        (case ret_ptr (axutil_array_list_get (Some list) i) of
           None \<Rightarrow> target_loop hs list target (i + 1)
         | Some temp_handler \<Rightarrow>
             (case described_name hs temp_handler of
                Inl e \<Rightarrow> Inl e
              | Inr name \<Rightarrow>
                  if axutil_strcmp (Some target) (Some name) = 0 then Inr (Some i)
                  else target_loop hs list target (i + 1)))
      else Inr None)"
  by pat_completeness auto
termination
  by (relation "measure (\<lambda>(hs, list, target, i). nat (axutil_array_list_size (Some list) - i))") auto

definition axis2_phase_insert_before ::
    "alloc \<Rightarrow> handler_store \<Rightarrow> axis2_phase \<Rightarrow> nat \<Rightarrow> axis2_phase result" where
  "axis2_phase_insert_before malloc hs ph handler =
     (case axis2_handler_get_handler_desc hs handler of
        None \<Rightarrow> Inl INVALID_NULL_PARAM
      | Some desc \<Rightarrow>
          (case axis2_handler_desc_get_rules hs desc of
             None \<Rightarrow> Inl INVALID_NULL_PARAM
           | Some rules \<Rightarrow>
               (case axis2_phase_rule_get_before rules of
                  None \<Rightarrow> Inl INVALID_NULL_PARAM
                | Some before \<Rightarrow>
                    (case (case last_handler ph of
                             None \<Rightarrow> Inr False
                           | Some lh \<Rightarrow>
                               (case described_name hs lh of
                                  Inl e \<Rightarrow> Inl e
                                | Inr name \<Rightarrow> Inr (axutil_strcmp (Some before) (Some name) = 0))) of
                       Inl e \<Rightarrow> Inl e
                     | Inr True \<Rightarrow>
                         set_handlers ph (axis2_phase_add_unique malloc hs (handlers ph) handler)
                     | Inr False \<Rightarrow>
                         (case target_loop hs (handlers ph) before 0 of
                            Inl e \<Rightarrow> Inl e
                          | Inr (Some i) \<Rightarrow>
                              set_handlers ph (axutil_array_list_add_at malloc
                                (Some (handlers ph)) i (Some handler))
                          | Inr None \<Rightarrow>
                              set_handlers ph (axis2_phase_add_unique malloc hs (handlers ph)
                                handler))))))"

definition axis2_phase_insert_after ::
    "alloc \<Rightarrow> handler_store \<Rightarrow> axis2_phase \<Rightarrow> nat \<Rightarrow> axis2_phase result" where
  "axis2_phase_insert_after malloc hs ph handler =
     (case axis2_handler_get_handler_desc hs handler of
        None \<Rightarrow> Inl INVALID_NULL_PARAM
      | Some desc \<Rightarrow>
          (case axis2_handler_desc_get_rules hs desc of
             None \<Rightarrow> Inl INVALID_NULL_PARAM
           | Some rules \<Rightarrow>
               (case axis2_phase_rule_get_after rules of
                  None \<Rightarrow> Inl INVALID_NULL_PARAM
                | Some after \<Rightarrow>
                    (case (case first_handler ph of
                             None \<Rightarrow> Inr False
                           | Some fh \<Rightarrow>
                               (case described_name hs fh of
                                  Inl e \<Rightarrow> Inl e
                                | Inr name \<Rightarrow> Inr (axutil_strcmp (Some after) (Some name) = 0))) of
                       Inl e \<Rightarrow> Inl e
                     | Inr True \<Rightarrow>
                         set_handlers ph (axutil_array_list_add_at malloc
                           (Some (handlers ph)) 0 (Some handler))
                     | Inr False \<Rightarrow>
                         let size = axutil_array_list_size (Some (handlers ph)) in
                         (case target_loop hs (handlers ph) after 0 of
                            Inl e \<Rightarrow> Inl e
                          | Inr (Some i) \<Rightarrow>
                              if i = size - 1 then
                                set_handlers ph (axis2_phase_add_unique malloc hs (handlers ph)
                                  handler)
                              else
                                set_handlers ph (axutil_array_list_add_at malloc
                                  (Some (handlers ph)) (i + 1) (Some handler))
                          | Inr None \<Rightarrow>
                              if size > 0 then
                                set_handlers ph (axutil_array_list_add_at malloc
                                  (Some (handlers ph)) 0 (Some handler))
                              else
                                set_handlers ph (axis2_phase_add_unique malloc hs (handlers ph)
                                  handler))))))"

text \<open>
  The loop of \<^verbatim>\<open>axis2_phase_insert_before_and_after\<close> with its variables \<^verbatim>\<open>after\<close> and
  \<^verbatim>\<open>before\<close> (\<open>-1\<close> while not found): it ends in an insertion as soon as both are known.
\<close>

function both_loop ::
    "alloc \<Rightarrow> handler_store \<Rightarrow> axis2_phase \<Rightarrow> nat \<Rightarrow> string \<Rightarrow> string \<Rightarrow> int \<Rightarrow> int \<Rightarrow> int \<Rightarrow>
     axis2_phase result" where
  "both_loop malloc hs ph handler after_name before_name after before i =
     (let size = axutil_array_list_size (Some (handlers ph)) in
      if i < size then
        (case (case ret_ptr (axutil_array_list_get (Some (handlers ph)) i) of
                 None \<Rightarrow> Inr (after, before)
               | Some temp_handler \<Rightarrow>
                   (case described_name hs temp_handler of
                      Inl e \<Rightarrow> Inl e
                    | Inr name \<Rightarrow>
                        Inr (if axutil_strcmp (Some name) (Some after_name) = 0 then i else after,
                             if axutil_strcmp (Some name) (Some before_name) = 0 then i
                             else before))) of
           Inl e \<Rightarrow> Inl e
         | Inr (after', before') \<Rightarrow>
             if after' \<ge> 0 \<and> before' \<ge> 0 then
               if after' > before' then Inl INVALID_HANDLER_STATE
               else if after' + 1 < size then
                 set_handlers ph (axutil_array_list_add_at malloc (Some (handlers ph))
                   (after' + 1) (Some handler))
               else set_handlers ph (axis2_phase_add_unique malloc hs (handlers ph) handler)
             else both_loop malloc hs ph handler after_name before_name after' before' (i + 1))
      else set_handlers ph (axis2_phase_add_unique malloc hs (handlers ph) handler))"
  by pat_completeness auto
termination
  by (relation "measure (\<lambda>(malloc, hs, ph, h, an, bn, a, b, i).
    nat (axutil_array_list_size (Some (handlers ph)) - i))") auto

definition optional_name :: "handler_store \<Rightarrow> ptr \<Rightarrow> string option result" where
  "optional_name hs p =
     (case p of
        None \<Rightarrow> Inr None
      | Some h \<Rightarrow> (case described_name hs h of Inl e \<Rightarrow> Inl e | Inr name \<Rightarrow> Inr (Some name)))"

definition axis2_phase_insert_before_and_after ::
    "alloc \<Rightarrow> handler_store \<Rightarrow> axis2_phase \<Rightarrow> nat \<Rightarrow> axis2_phase result" where
  "axis2_phase_insert_before_and_after malloc hs ph handler =
     (case axis2_handler_get_handler_desc hs handler of
        None \<Rightarrow> Inl INVALID_NULL_PARAM
      | Some desc \<Rightarrow>
          (case axis2_handler_desc_get_rules hs desc of
             None \<Rightarrow> Inl INVALID_NULL_PARAM
           | Some rules \<Rightarrow>
               (case axis2_phase_rule_get_before rules of
                  None \<Rightarrow> Inl INVALID_NULL_PARAM
                | Some before_name \<Rightarrow>
                    (case axis2_phase_rule_get_after rules of
                       None \<Rightarrow> Inl INVALID_NULL_PARAM
                     | Some after_name \<Rightarrow>
                         (case optional_name hs (first_handler ph) of
                            Inl e \<Rightarrow> Inl e
                          | Inr before_handler_name \<Rightarrow>
                              (case optional_name hs (last_handler ph) of
                                 Inl e \<Rightarrow> Inl e
                               | Inr after_handler_name \<Rightarrow>
                                   if before_handler_name \<noteq> None \<and> after_handler_name \<noteq> None \<and>
                                      axutil_strcmp before_handler_name (Some before_name) = 0 \<and>
                                      axutil_strcmp after_handler_name (Some after_name) = 0
                                   then set_handlers ph
                                     (axis2_phase_add_unique malloc hs (handlers ph) handler)
                                   else
                                     let size = axutil_array_list_size (Some (handlers ph));
                                         after = (if after_handler_name \<noteq> None \<and>
                                             axutil_strcmp after_handler_name (Some after_name) = 0
                                           then 0 else -1);
                                         before = (if after_handler_name \<noteq> None \<and>
                                             axutil_strcmp before_handler_name (Some before_name) = 0
                                           then size else -1) in
                                     both_loop malloc hs ph handler after_name before_name
                                       after before 0))))))"

text \<open>
  \<^verbatim>\<open>switch (type)\<close> over the numbers \<^verbatim>\<open>axis2_phase_get_before_after\<close> returns, which are 0 to 3: the
  \<^verbatim>\<open>default\<close> branch is never taken.
\<close>

definition axis2_phase_insert_handler_desc ::
    "alloc \<Rightarrow> handler_store \<Rightarrow> axis2_phase \<Rightarrow> nat \<Rightarrow> axis2_phase result" where
  "axis2_phase_insert_handler_desc malloc hs ph desc =
     (case axis2_handler_desc_get_handler hs desc of
        None \<Rightarrow> Inl INVALID_NULL_PARAM
      | Some handler \<Rightarrow>
          if \<not> axis2_phase_is_valid_after hs ph handler then Inl INVALID_HANDLER_STATE
          else if \<not> axis2_phase_is_valid_before hs ph handler then Inl INVALID_HANDLER_STATE
          else
            let type = fst (axis2_phase_get_before_after hs handler) in
            if type = 0 then axis2_phase_insert_before_and_after malloc hs ph handler
            else if type = 1 then axis2_phase_insert_before malloc hs ph handler
            else if type = 2 then axis2_phase_insert_after malloc hs ph handler
            else set_handlers ph (axis2_phase_add_unique malloc hs (handlers ph) handler))"

definition axis2_phase_add_handler_desc ::
    "alloc \<Rightarrow> handler_store \<Rightarrow> axis2_phase \<Rightarrow> nat \<Rightarrow> axis2_phase result" where
  "axis2_phase_add_handler_desc malloc hs ph desc =
     (if is_one_handler ph then Inl PHASE_ADD_HANDLER_INVALID
      else
        (case axis2_handler_desc_get_rules hs desc of
           None \<Rightarrow> Inl INVALID_NULL_PARAM
         | Some rules \<Rightarrow>
             let first = axis2_phase_rule_is_first rules; last = axis2_phase_rule_is_last rules in
             if first \<and> last then
               if axutil_array_list_size (Some (handlers ph)) > 0 then Inl INVALID_HANDLER_RULES
               else
                 (case axis2_handler_desc_get_handler hs desc of
                    None \<Rightarrow> Inl INVALID_NULL_PARAM
                  | Some handler \<Rightarrow>
                      (case set_handlers ph
                              (axis2_phase_add_unique malloc hs (handlers ph) handler) of
                         Inl e \<Rightarrow> Inl e
                       | Inr ph' \<Rightarrow> Inr (ph'\<lparr>is_one_handler := True\<rparr>)))
             else if first then
               (case axis2_handler_desc_get_handler hs desc of
                  None \<Rightarrow> Inl INVALID_NULL_PARAM
                | Some handler \<Rightarrow> axis2_phase_set_first_handler hs ph handler)
             else if last then
               (case axis2_handler_desc_get_handler hs desc of
                  None \<Rightarrow> Inl INVALID_NULL_PARAM
                | Some handler \<Rightarrow> axis2_phase_set_last_handler hs ph handler)
             else
               (case axis2_handler_desc_get_handler hs desc of
                  None \<Rightarrow> Inl INVALID_NULL_PARAM
                | Some handler \<Rightarrow> axis2_phase_insert_handler_desc malloc hs ph desc)))"

declare unique_loop.simps [simp del]
declare target_loop.simps [simp del]
declare both_loop.simps [simp del]

text \<open>A phase with the given handlers and no first or last handler.\<close>

definition plain_phase :: "string \<Rightarrow> nat list \<Rightarrow> axis2_phase" where
  "plain_phase n hs = \<lparr>phase_name = Some n, handlers = al_of hs, first_handler = None,
     first_handler_set = False, last_handler = None, last_handler_set = False,
     is_one_handler = False, phase_ref = 1\<rparr>"

end
