(* ===== verification/Phase_Placement.thy ===== *)
theory Phase_Placement
  imports Phase
begin

text \<open>
  What the placement operations of \<open>Phase\<close> do to the list of handlers: every successful
  placement leaves the handlers already there in their order (\<open>placed\<close>), the loops are searches
  by name (\<open>target_loop_spec\<close>, \<open>unique_loop_spec\<close>), and placement by rule refines the
  specification \<open>place_spec\<close> on the list of handler names.
\<close>

section \<open>Names and well-formed phases\<close>

definition hname :: "handler_store \<Rightarrow> ptr \<Rightarrow> string option" where
  "hname hs p = Option.bind p (axis2_handler_get_name hs)"

text \<open>
  A handler that \<^verbatim>\<open>axis2_handler_init\<close> has given a named description.
\<close>

definition named :: "handler_store \<Rightarrow> ptr \<Rightarrow> bool" where
  "named hs p \<longleftrightarrow> p \<noteq> None \<and> hname hs p \<noteq> None"

definition ph_list :: "axis2_phase \<Rightarrow> ptr list" where
  "ph_list ph = al_list (handlers ph)"

definition phase_wf :: "handler_store \<Rightarrow> axis2_phase \<Rightarrow> bool" where
  "phase_wf hs ph \<longleftrightarrow> al_inv (handlers ph) \<and> list_all (named hs) (ph_list ph) \<and>
     (first_handler_set ph \<longleftrightarrow> first_handler ph \<noteq> None) \<and>
     (last_handler_set ph \<longleftrightarrow> last_handler ph \<noteq> None) \<and>
     (first_handler ph \<noteq> None \<longrightarrow> named hs (first_handler ph)) \<and>
     (last_handler ph \<noteq> None \<longrightarrow> named hs (last_handler ph))"

definition phase_names :: "handler_store \<Rightarrow> axis2_phase \<Rightarrow> string option list" where
  "phase_names hs ph = map (hname hs) (ph_list ph)"

lemma hname_simps [simp]:
  "hname hs None = None" "hname hs (Some h) = axis2_handler_get_name hs h"
  by (simp_all add: hname_def)

lemma described_name_eq:
  "described_name hs h =
     (case axis2_handler_get_name hs h of None \<Rightarrow> Inl INVALID_HANDLER_STATE | Some n \<Rightarrow> Inr n)"
  by (simp add: described_name_def axis2_handler_get_name_def axis2_handler_get_handler_desc_def
      split: option.splits)

lemma described_name_Some [simp]:
  "axis2_handler_get_name hs h = Some n \<Longrightarrow> described_name hs h = Inr n"
  by (simp add: described_name_eq)

lemma namedE:
  assumes "named hs p"
  obtains h n where "p = Some h" "axis2_handler_get_name hs h = Some n"
  using assms by (auto simp: named_def)

section \<open>The search loops\<close>

text \<open>The handlers that \<^verbatim>\<open>axis2_phase_add_unique\<close> takes for the same as \<open>h\<close>.\<close>

definition same_handler :: "handler_store \<Rightarrow> nat \<Rightarrow> ptr \<Rightarrow> bool" where
  "same_handler hs h p \<longleftrightarrow> p = Some h \<or>
     axis2_handler_get_name hs h \<noteq> None \<and> hname hs p = axis2_handler_get_name hs h"

lemma same_handler_Some:
  "same_handler hs h (Some obj) \<longleftrightarrow>
   obj = h \<or> axutil_strcmp (axis2_handler_get_name hs h) (axis2_handler_get_name hs obj) = 0"
  by (auto simp: same_handler_def axutil_strcmp_eq_0)

lemma unique_loop_spec:
  assumes "al_inv l" and "None \<notin> set (al_list l)" and "0 \<le> i"
    and "i \<le> axutil_array_list_size (Some l)"
  shows "unique_loop hs l h i = Inr (map_option (\<lambda>k. i + int k)
    (find_index (same_handler hs h) (drop (nat i) (al_list l))))"
  using assms
proof (induction hs l h i rule: unique_loop.induct)
  case (1 hs l h i)
  show ?case
  proof (cases "i < axutil_array_list_size (Some l)")
    case True
    from al.drop_unfold [OF "1.prems"(1,3) True] obtain x
      where x: "axutil_array_list_get (Some l) i = Inr x"
        "drop (nat i) (al_list l) = x # drop (nat (i + 1)) (al_list l)" by blast
    then have "x \<in> set (al_list l)" by (metis in_set_dropD list.set_intros(1))
    with "1.prems"(2) obtain obj where obj: "x = Some obj" by (cases x) auto
    show ?thesis
      using "1" True x obj
      by (subst unique_loop.simps)
         (auto simp: same_handler_Some option.map_comp comp_def algebra_simps)
  next
    case False
    with "1.prems" have "drop (nat i) (al_list l) = []" by (simp add: al.drop_end)
    with False show ?thesis by (subst unique_loop.simps) simp
  qed
qed

lemma target_loop_spec:
  assumes "al_inv l" and "list_all (named hs) (al_list l)" and "0 \<le> i"
    and "i \<le> axutil_array_list_size (Some l)"
  shows "target_loop hs l t i = Inr (map_option (\<lambda>k. i + int k)
    (find_index (\<lambda>p. hname hs p = Some t) (drop (nat i) (al_list l))))"
  using assms
proof (induction hs l t i rule: target_loop.induct)
  case (1 hs l t i)
  show ?case
  proof (cases "i < axutil_array_list_size (Some l)")
    case True
    from al.drop_unfold [OF "1.prems"(1,3) True] obtain x
      where x: "axutil_array_list_get (Some l) i = Inr x"
        "drop (nat i) (al_list l) = x # drop (nat (i + 1)) (al_list l)" by blast
    then have "x \<in> set (al_list l)" by (metis in_set_dropD list.set_intros(1))
    with "1.prems"(2) have "named hs x" by (simp add: list_all_iff)
    then obtain obj n
      where obj: "x = Some obj" "axis2_handler_get_name hs obj = Some n" by (rule namedE)
    show ?thesis
      using "1" True x obj
      by (subst target_loop.simps)
         (auto simp: option.map_comp comp_def algebra_simps)
  next
    case False
    with "1.prems" have "drop (nat i) (al_list l) = []" by (simp add: al.drop_end)
    with False show ?thesis by (subst target_loop.simps) simp
  qed
qed

lemma size_nonneg: "al_inv l \<Longrightarrow> 0 \<le> axutil_array_list_size (Some l)"
  by (simp add: al_inv_def axutil_array_list_size_def)

lemma unique_loop_0:
  assumes "al_inv l" and "None \<notin> set (al_list l)"
  shows "unique_loop hs l h 0 = Inr (map_option int (find_index (same_handler hs h) (al_list l)))"
  using unique_loop_spec [OF assms, of 0 hs h] size_nonneg [OF assms(1)] by simp

lemma target_loop_0:
  assumes "al_inv l" and "list_all (named hs) (al_list l)"
  shows "target_loop hs l t 0 =
    Inr (map_option int (find_index (\<lambda>p. hname hs p = Some t) (al_list l)))"
  using target_loop_spec [OF assms, of 0 t] size_nonneg [OF assms(1)] by simp

section \<open>Every placement keeps the order of the handlers already there\<close>

definition placed :: "nat \<Rightarrow> nat array_list \<Rightarrow> nat array_list \<Rightarrow> bool" where
  "placed h l l' \<longleftrightarrow> al_inv l' \<and> (al_list l' = al_list l \<or>
     (\<exists>i \<le> length (al_list l). al_list l' = insert_nth i (Some h) (al_list l)))"

lemma placed_append:
  "al_inv l' \<Longrightarrow> al_list l' = al_list l @ [Some h] \<Longrightarrow> placed h l l'"
  unfolding placed_def by (metis insert_nth_length order_refl)

lemma placed_same: "al_inv l \<Longrightarrow> placed h l l"
  by (simp add: placed_def)

lemma add_unique_placed:
  assumes "al_inv l" and "axis2_phase_add_unique malloc hs l h = Inr l'"
  shows "placed h l l'"
proof (cases "axutil_array_list_add malloc (Some l) (Some h)")
  case (Inl e)
  with assms show ?thesis
    by (auto simp: axis2_phase_add_unique_def placed_same split: sum.splits option.splits)
next
  case (Inr al')
  with assms al.add_law [OF assms(1) Inr] show ?thesis
    by (auto simp: axis2_phase_add_unique_def placed_same placed_append
        split: sum.splits option.splits)
qed

lemma add_at_placed:
  assumes "al_inv l" and "axutil_array_list_add_at malloc (Some l) i (Some h) = Inr l'"
  shows "placed h l l'"
  using al.add_at_law [OF assms] by (auto simp: placed_def intro!: exI [of _ "nat i"])

lemma add_unique_set_placed:
  assumes "al_inv (handlers ph)"
    and "set_handlers ph (axis2_phase_add_unique malloc hs (handlers ph) h) = Inr ph'"
  shows "\<exists>l'. ph' = ph\<lparr>handlers := l'\<rparr> \<and> placed h (handlers ph) l'"
  using assms add_unique_placed [OF assms(1)] by (auto simp: set_handlers_def split: sum.splits)

lemma add_at_set_placed:
  assumes "al_inv (handlers ph)"
    and "set_handlers ph (axutil_array_list_add_at malloc (Some (handlers ph)) i (Some h)) = Inr ph'"
  shows "\<exists>l'. ph' = ph\<lparr>handlers := l'\<rparr> \<and> placed h (handlers ph) l'"
  using assms add_at_placed [OF assms(1)] by (auto simp: set_handlers_def split: sum.splits)

lemmas set_placed = add_unique_set_placed add_at_set_placed

lemma insert_before_placed:
  assumes "al_inv (handlers ph)" and "axis2_phase_insert_before malloc hs ph h = Inr ph'"
  shows "\<exists>l'. ph' = ph\<lparr>handlers := l'\<rparr> \<and> placed h (handlers ph) l'"
  using assms(2)
  by (auto simp: axis2_phase_insert_before_def split: option.splits sum.splits bool.splits
      intro: set_placed [OF assms(1)])

lemma insert_after_placed:
  assumes "al_inv (handlers ph)" and "axis2_phase_insert_after malloc hs ph h = Inr ph'"
  shows "\<exists>l'. ph' = ph\<lparr>handlers := l'\<rparr> \<and> placed h (handlers ph) l'"
  using assms(2)
  by (auto simp: axis2_phase_insert_after_def Let_def
      split: option.splits sum.splits bool.splits if_splits intro: set_placed [OF assms(1)])

lemma both_loop_placed:
  assumes "al_inv (handlers ph)" and "both_loop malloc hs ph h an bn a b i = Inr ph'"
  shows "\<exists>l'. ph' = ph\<lparr>handlers := l'\<rparr> \<and> placed h (handlers ph) l'"
  using assms
proof (induction malloc hs ph h an bn a b i rule: both_loop.induct)
  case (1 malloc hs ph h an bn a b i)
  show ?case
  proof (cases "i < axutil_array_list_size (Some (handlers ph))")
    case True
    then show ?thesis
      using "1.prems"(2)
      by (subst (asm) both_loop.simps)
         (auto simp: Let_def split: sum.splits prod.splits if_splits
           intro: set_placed [OF "1.prems"(1)] "1.IH" [OF refl True _ _ _ "1.prems"(1)])
  next
    case False
    then show ?thesis
      using "1.prems"(2)
      by (subst (asm) both_loop.simps) (auto simp: Let_def intro: set_placed [OF "1.prems"(1)])
  qed
qed

section \<open>Where a placement puts the handler\<close>

definition placed_at :: "axis2_phase \<Rightarrow> nat \<Rightarrow> axis2_phase result \<Rightarrow> nat \<Rightarrow> bool" where
  "placed_at ph h r p \<longleftrightarrow> (\<exists>l'. r = Inr (ph\<lparr>handlers := l'\<rparr>) \<and> al_inv l' \<and>
     al_list l' = insert_nth p (Some h) (ph_list ph))"

text \<open>A handler whose name no handler of the phase has.\<close>

definition fresh_handler :: "handler_store \<Rightarrow> axis2_phase \<Rightarrow> nat \<Rightarrow> bool" where
  "fresh_handler hs ph h \<longleftrightarrow> named hs (Some h) \<and> hname hs (Some h) \<notin> set (phase_names hs ph)"

lemma named_not_None: "list_all (named hs) xs \<Longrightarrow> None \<notin> set xs"
  by (auto simp: list_all_iff named_def)

lemma fresh_not_same:
  "fresh_handler hs ph h \<Longrightarrow> find_index (same_handler hs h) (ph_list ph) = None"
  by (force simp: find_index_None fresh_handler_def same_handler_def phase_names_def named_def
      image_iff)

lemma add_unique_at_end:
  assumes "phase_wf hs ph" and "mem_ok malloc" and "fresh_handler hs ph h"
  shows "placed_at ph h (set_handlers ph (axis2_phase_add_unique malloc hs (handlers ph) h))
    (length (ph_list ph))"
proof -
  from assms(1) have inv: "al_inv (handlers ph)" and nn: "None \<notin> set (al_list (handlers ph))"
    by (auto simp: phase_wf_def ph_list_def dest: named_not_None)
  have u: "unique_loop hs (handlers ph) h 0 = Inr None"
    using unique_loop_0 [OF inv nn] fresh_not_same [OF assms(3)] by (simp add: ph_list_def)
  from al.add_total [OF inv assms(2), of "Some h"] obtain l'
    where l': "axutil_array_list_add malloc (Some (handlers ph)) (Some h) = Inr l'" "al_inv l'"
      "al_list l' = al_list (handlers ph) @ [Some h]" by blast
  have "axis2_phase_add_unique malloc hs (handlers ph) h = Inr l'"
    using u l'(1) by (simp add: axis2_phase_add_unique_def)
  moreover have "al_list l' = insert_nth (length (ph_list ph)) (Some h) (ph_list ph)"
    unfolding insert_nth_length using l'(3) by (simp add: ph_list_def)
  ultimately show ?thesis using l'(2) by (auto simp: placed_at_def set_handlers_def)
qed

lemma add_at_index:
  assumes "phase_wf hs ph" and "mem_ok malloc" and "0 \<le> i" and "i \<le> int (length (ph_list ph))"
  shows "placed_at ph h
    (set_handlers ph (axutil_array_list_add_at malloc (Some (handlers ph)) i (Some h))) (nat i)"
proof -
  from assms(1) have inv: "al_inv (handlers ph)" by (simp add: phase_wf_def)
  from al.add_at_total [OF inv assms(2,3), of "Some h"] al.size_law [OF inv] assms(4)
  show ?thesis by (auto simp: placed_at_def set_handlers_def ph_list_def)
qed

text \<open>
  The specification of placement by rule for a phase with no first or last handler: the position
  for a handler with the rules \<open>before\<close> and \<open>after\<close> in a list of names, \<open>None\<close> where the
  rules cannot be met.
\<close>

definition position :: "string option list \<Rightarrow> string \<Rightarrow> nat option" where
  "position names t = find_index (\<lambda>n. n = Some t) names"

definition place_spec :: "string option list \<Rightarrow> string option \<Rightarrow> string option \<Rightarrow> nat option" where
  "place_spec names before after =
     (case (before, after) of
        (None, None) \<Rightarrow> Some (length names)
      | (Some b, None) \<Rightarrow>
          Some (case position names b of Some k \<Rightarrow> k | None \<Rightarrow> length names)
      | (None, Some a) \<Rightarrow> Some (case position names a of Some k \<Rightarrow> Suc k | None \<Rightarrow> 0)
      | (Some b, Some a) \<Rightarrow>
          (case (position names a, position names b) of
             (Some i, Some j) \<Rightarrow> if i > j then None else Some (Suc i)
           | _ \<Rightarrow> Some (length names)))"

lemma position_map:
  "position (map (hname hs) xs) t = find_index (\<lambda>p. hname hs p = Some t) xs"
  by (induction xs) (auto simp: position_def)

lemma position_less: "position names t = Some k \<Longrightarrow> k < length names \<and> names ! k = Some t"
  by (simp add: position_def find_index_Some)

lemma position_take: "position (take n names) t = Some k \<Longrightarrow> position names t = Some k"
  by (auto simp: position_def find_index_Some)

lemma position_unique:
  "distinct names \<Longrightarrow> k < length names \<Longrightarrow> names ! k = Some t \<Longrightarrow> position names t = Some k"
  unfolding position_def find_index_Some by (metis less_trans nat_less_le nth_eq_iff_index_eq)

text \<open>The variables \<^verbatim>\<open>after\<close> and \<^verbatim>\<open>before\<close> of the loop: the position seen so far, or -1.\<close>

definition seen :: "string option list \<Rightarrow> string \<Rightarrow> int" where
  "seen names t = (case position names t of None \<Rightarrow> -1 | Some k \<Rightarrow> int k)"

lemma seen_step:
  assumes "distinct names" and "i < length names"
  shows "seen (take (Suc i) names) t = (if names ! i = Some t then int i else seen (take i names) t)"
proof -
  have t: "take (Suc i) names = take i names @ [names ! i]"
    using assms(2) by (simp add: take_Suc_conv_app_nth)
  show ?thesis
  proof (cases "names ! i = Some t")
    case True
    have "position (take (Suc i) names) t = Some i"
      using assms True by (intro position_unique) auto
    with True show ?thesis by (simp add: seen_def)
  next
    case False
    have "position (xs @ [y]) t = position xs t" if "y \<noteq> Some t" for xs y
      using that by (induction xs) (auto simp: position_def)
    with False t show ?thesis by (simp add: seen_def)
  qed
qed

lemma seen_take_nonneg: "seen (take n names) t \<ge> 0 \<Longrightarrow> seen names t = seen (take n names) t"
  by (auto simp: seen_def dest: position_take split: option.splits)

definition both_result ::
    "alloc \<Rightarrow> handler_store \<Rightarrow> axis2_phase \<Rightarrow> nat \<Rightarrow> int \<Rightarrow> int \<Rightarrow> axis2_phase result" where
  "both_result malloc hs ph h after before =
     (if after \<ge> 0 \<and> before \<ge> 0 then
        if after > before then Inl INVALID_HANDLER_STATE
        else if after + 1 < int (length (ph_list ph)) then
          set_handlers ph (axutil_array_list_add_at malloc (Some (handlers ph)) (after + 1) (Some h))
        else set_handlers ph (axis2_phase_add_unique malloc hs (handlers ph) h)
      else set_handlers ph (axis2_phase_add_unique malloc hs (handlers ph) h))"

lemma both_loop_spec:
  assumes "al_inv (handlers ph)" and "list_all (named hs) (ph_list ph)"
    and "distinct (phase_names hs ph)" and "0 \<le> i" and "i \<le> int (length (ph_list ph))"
    and "a = seen (take (nat i) (phase_names hs ph)) an"
    and "b = seen (take (nat i) (phase_names hs ph)) bn" and "\<not> (a \<ge> 0 \<and> b \<ge> 0)"
  shows "both_loop malloc hs ph h an bn a b i =
    both_result malloc hs ph h (seen (phase_names hs ph) an) (seen (phase_names hs ph) bn)"
  using assms
proof (induction malloc hs ph h an bn a b i rule: both_loop.induct)
  case (1 malloc hs ph h an bn a b i)
  let ?N = "phase_names hs ph"
  have len: "axutil_array_list_size (Some (handlers ph)) = int (length (ph_list ph))"
    using al.size_law "1.prems"(1) by (simp add: ph_list_def)
  have N: "length ?N = length (ph_list ph)" by (simp add: phase_names_def)
  show ?case
  proof (cases "i < int (length (ph_list ph))")
    case True
    then have i: "nat i < length (ph_list ph)" and i1: "nat (i + 1) = Suc (nat i)"
      using "1.prems"(4) by auto
    have "named hs (ph_list ph ! nat i)" using "1.prems"(2) i by (simp add: list_all_length)
    then obtain obj n where obj: "ph_list ph ! nat i = Some obj"
        "axis2_handler_get_name hs obj = Some n" by (rule namedE)
    have get: "axutil_array_list_get (Some (handlers ph)) i = Inr (Some obj)"
      using al.get_in_range [OF "1.prems"(1), of "nat i"] i obj(1) "1.prems"(4)
      by (simp add: ph_list_def)
    have n: "?N ! nat i = Some n" using i obj by (simp add: phase_names_def)
    define a' where "a' = (if n = an then i else a)"
    define b' where "b' = (if n = bn then i else b)"
    have step: "a' = seen (take (nat (i + 1)) ?N) an" "b' = seen (take (nat (i + 1)) ?N) bn"
      using seen_step [OF "1.prems"(3), of "nat i"] i n N "1.prems"(4,6,7)
      unfolding i1 by (simp_all add: a'_def b'_def)
    have body: "both_loop malloc hs ph h an bn a b i =
        (if a' \<ge> 0 \<and> b' \<ge> 0 then both_result malloc hs ph h a' b'
         else both_loop malloc hs ph h an bn a' b' (i + 1))"
      using get obj(2) len True
      by (subst both_loop.simps) (simp add: both_result_def a'_def b'_def)
    show ?thesis
    proof (cases "a' \<ge> 0 \<and> b' \<ge> 0")
      case True
      then have "seen ?N an = a'" "seen ?N bn = b'"
        using step seen_take_nonneg by metis+
      with True body show ?thesis by simp
    next
      case False
      from obj(2) have d: "described_name hs obj = Inr n" by simp
      have "both_loop malloc hs ph h an bn a' b' (i + 1) =
          both_result malloc hs ph h (seen ?N an) (seen ?N bn)"
        using "1.IH" [of "int (length (ph_list ph))" "(a', b')" a' b'] len True get d False step
          "1.prems"(1-5) \<open>i < int (length (ph_list ph))\<close>
        by (simp add: a'_def b'_def)
      with body False show ?thesis by simp
    qed
  next
    case False
    with "1.prems"(5,6,7) N have "a = seen ?N an" "b = seen ?N bn" by simp_all
    with False "1.prems"(8) len show ?thesis
      by (subst both_loop.simps) (auto simp: both_result_def)
  qed
qed

lemma both_result_placed:
  assumes "phase_wf hs ph" and "mem_ok malloc" and "fresh_handler hs ph h"
  shows "case place_spec (phase_names hs ph) (Some b) (Some a) of
      None \<Rightarrow> both_result malloc hs ph h (seen (phase_names hs ph) a) (seen (phase_names hs ph) b)
        = Inl INVALID_HANDLER_STATE
    | Some p \<Rightarrow> placed_at ph h (both_result malloc hs ph h (seen (phase_names hs ph) a)
        (seen (phase_names hs ph) b)) p"
proof -
  have len: "length (phase_names hs ph) = length (ph_list ph)" by (simp add: phase_names_def)
  have last: "placed_at ph h (set_handlers ph (axis2_phase_add_unique malloc hs (handlers ph) h))
      (length (ph_list ph))"
    using assms by (rule add_unique_at_end)
  have at: "placed_at ph h (set_handlers ph (axutil_array_list_add_at malloc (Some (handlers ph))
      (int i + 1) (Some h))) (Suc i)" if "Suc i < length (ph_list ph)" for i
    using add_at_index [OF assms(1,2), of "int i + 1" h] that by (simp add: nat_add_distrib)
  have at_end: "Suc i = length (ph_list ph)"
    if "position (phase_names hs ph) a = Some i" "\<not> int i + 1 < int (length (ph_list ph))" for i
    using position_less [OF that(1)] that(2) len by simp
  show ?thesis
    using last at
    by (auto simp: place_spec_def both_result_def seen_def len dest: at_end split: option.splits)
qed

text \<open>
  Placement by rule: \<^verbatim>\<open>axis2_phase_insert_handler_desc\<close> implements \<open>place_spec\<close>.
\<close>

lemma insert_handler_desc_dispatch:
  assumes "axis2_handler_desc_get_handler hs d = Some h" and "handler_rules hs h = Some rules"
    and "first_handler ph = None" and "last_handler ph = None"
  shows "axis2_phase_insert_handler_desc malloc hs ph d =
    (case (axis2_phase_rule_get_before rules, axis2_phase_rule_get_after rules) of
       (Some b, Some a) \<Rightarrow>
         both_loop malloc hs ph h a b (-1) (-1) 0
     | (Some b, None) \<Rightarrow> axis2_phase_insert_before malloc hs ph h
     | (None, Some a) \<Rightarrow> axis2_phase_insert_after malloc hs ph h
     | (None, None) \<Rightarrow> set_handlers ph (axis2_phase_add_unique malloc hs (handlers ph) h))"
  using assms
  by (auto simp: axis2_phase_insert_handler_desc_def axis2_phase_is_valid_after_def
      axis2_phase_is_valid_before_def axis2_phase_get_before_after_def handler_rules_def
      phase_type_defs status_int_def axis2_phase_insert_before_and_after_def optional_name_def
      Let_def bind_eq_Some_conv split: option.splits)

lemma insert_before_spec:
  assumes "phase_wf hs ph" and "mem_ok malloc" and "fresh_handler hs ph h"
    and "handler_rules hs h = Some rules" and "axis2_phase_rule_get_before rules = Some b"
    and "last_handler ph = None"
  shows "placed_at ph h (axis2_phase_insert_before malloc hs ph h)
    (case position (phase_names hs ph) b of Some k \<Rightarrow> k | None \<Rightarrow> length (ph_list ph))"
proof -
  from assms(1) have wf: "al_inv (handlers ph)" "list_all (named hs) (al_list (handlers ph))"
    by (simp_all add: phase_wf_def ph_list_def)
  have t: "target_loop hs (handlers ph) b 0 = Inr (map_option int (position (phase_names hs ph) b))"
    using target_loop_0 [OF wf] by (simp add: phase_names_def position_map ph_list_def)
  have pos: "k \<le> length (ph_list ph)" if "position (phase_names hs ph) b = Some k" for k
    using position_less [OF that] by (simp add: phase_names_def)
  show ?thesis
    using assms t add_unique_at_end [OF assms(1-3)] add_at_index [OF assms(1,2), of "int _" h] pos
    by (auto simp: axis2_phase_insert_before_def handler_rules_def bind_eq_Some_conv
        split: option.splits)
qed

lemma insert_after_spec:
  assumes "phase_wf hs ph" and "mem_ok malloc" and "fresh_handler hs ph h"
    and "handler_rules hs h = Some rules" and "axis2_phase_rule_get_after rules = Some a"
    and "first_handler ph = None"
  shows "placed_at ph h (axis2_phase_insert_after malloc hs ph h)
    (case position (phase_names hs ph) a of Some k \<Rightarrow> Suc k | None \<Rightarrow> 0)"
proof -
  from assms(1) have wf: "al_inv (handlers ph)" "list_all (named hs) (al_list (handlers ph))"
    by (simp_all add: phase_wf_def ph_list_def)
  have size: "axutil_array_list_size (Some (handlers ph)) = int (length (ph_list ph))"
    using al.size_law [OF wf(1)] by (simp add: ph_list_def)
  have t: "target_loop hs (handlers ph) a 0 = Inr (map_option int (position (phase_names hs ph) a))"
    using target_loop_0 [OF wf] by (simp add: phase_names_def position_map ph_list_def)
  have last: "placed_at ph h (set_handlers ph (axis2_phase_add_unique malloc hs (handlers ph) h))
      (length (ph_list ph))"
    using assms(1-3) by (rule add_unique_at_end)
  show ?thesis
  proof (cases "position (phase_names hs ph) a")
    case None
    show ?thesis
    proof (cases "ph_list ph = []")
      case True
      with None last size t assms(4-6) show ?thesis
        by (auto simp: axis2_phase_insert_after_def handler_rules_def bind_eq_Some_conv)
    next
      case False
      with None size t assms(4-6) add_at_index [OF assms(1,2), of 0 h] show ?thesis
        by (auto simp: axis2_phase_insert_after_def handler_rules_def bind_eq_Some_conv)
    qed
  next
    case (Some k)
    then have k: "k < length (ph_list ph)" using position_less [OF Some] by (simp add: phase_names_def)
    show ?thesis
    proof (cases "Suc k = length (ph_list ph)")
      case True
      then have k1: "int k = int (length (ph_list ph)) - 1" by simp
      from last True have "placed_at ph h
          (set_handlers ph (axis2_phase_add_unique malloc hs (handlers ph) h)) (Suc k)" by simp
      with Some k1 size t assms(4-6) show ?thesis
        by (auto simp: axis2_phase_insert_after_def handler_rules_def bind_eq_Some_conv)
    next
      case False
      with k have "int k \<noteq> int (length (ph_list ph)) - 1" by simp
      with Some k size t assms(4-6) add_at_index [OF assms(1,2), of "int k + 1" h] show ?thesis
        by (auto simp: axis2_phase_insert_after_def handler_rules_def bind_eq_Some_conv
            nat_add_distrib)
    qed
  qed
qed

lemma insert_handler_desc_place:
  assumes wf: "phase_wf hs ph" and mem: "mem_ok malloc" and fresh: "fresh_handler hs ph h"
    and dist: "distinct (phase_names hs ph)"
    and h: "axis2_handler_desc_get_handler hs d = Some h" "handler_rules hs h = Some rules"
    and fl: "first_handler ph = None" "last_handler ph = None"
  shows "case place_spec (phase_names hs ph) (axis2_phase_rule_get_before rules)
        (axis2_phase_rule_get_after rules) of
      None \<Rightarrow> axis2_phase_insert_handler_desc malloc hs ph d = Inl INVALID_HANDLER_STATE
    | Some p \<Rightarrow> placed_at ph h (axis2_phase_insert_handler_desc malloc hs ph d) p"
proof -
  note disp = insert_handler_desc_dispatch [OF h fl]
  have len: "length (phase_names hs ph) = length (ph_list ph)" by (simp add: phase_names_def)
  show ?thesis
  proof (cases "axis2_phase_rule_get_before rules"; cases "axis2_phase_rule_get_after rules")
    assume "axis2_phase_rule_get_before rules = None" "axis2_phase_rule_get_after rules = None"
    with disp add_unique_at_end [OF wf mem fresh] len show ?thesis by (simp add: place_spec_def)
  next
    fix a
    assume "axis2_phase_rule_get_before rules = None" "axis2_phase_rule_get_after rules = Some a"
    with disp insert_after_spec [OF wf mem fresh h(2) _ fl(1)] show ?thesis
      by (simp add: place_spec_def)
  next
    fix b
    assume "axis2_phase_rule_get_before rules = Some b" "axis2_phase_rule_get_after rules = None"
    with disp insert_before_spec [OF wf mem fresh h(2) _ fl(2)] len show ?thesis
      by (simp add: place_spec_def split: option.splits)
  next
    fix b a
    assume r: "axis2_phase_rule_get_before rules = Some b" "axis2_phase_rule_get_after rules = Some a"
    have "both_loop malloc hs ph h a b (-1) (-1) 0 =
        both_result malloc hs ph h (seen (phase_names hs ph) a) (seen (phase_names hs ph) b)"
      using wf dist by (intro both_loop_spec) (auto simp: phase_wf_def seen_def position_def)
    with disp r both_result_placed [OF wf mem fresh, of a b] show ?thesis
      by (auto split: option.splits)
  qed
qed

section \<open>Lemmas on the whole operation\<close>

lemma insert_handler_desc_placed:
  assumes inv: "al_inv (handlers ph)"
    and "axis2_phase_insert_handler_desc malloc hs ph d = Inr ph'"
  shows "\<exists>h. axis2_handler_desc_get_handler hs d = Some h \<and>
    (\<exists>l'. ph' = ph\<lparr>handlers := l'\<rparr> \<and> placed h (handlers ph) l')"
  using assms(2)
  by (auto simp: axis2_phase_insert_handler_desc_def axis2_phase_insert_before_and_after_def Let_def
      split: if_splits option.splits sum.splits
      intro: set_placed [OF inv] both_loop_placed [OF inv] insert_before_placed [OF inv]
        insert_after_placed [OF inv])

text \<open>
  The four outcomes of a successful \<^verbatim>\<open>axis2_phase_add_handler_desc\<close>.
\<close>

lemma add_handler_desc_cases:
  assumes inv: "al_inv (handlers ph)"
    and add: "axis2_phase_add_handler_desc malloc hs ph d = Inr ph'"
  obtains h l' where "axis2_handler_desc_get_handler hs d = Some h"
      "ph' = ph\<lparr>handlers := l'\<rparr>" "placed h (handlers ph) l'"
  | h l' where "axis2_handler_desc_get_handler hs d = Some h"
      "ph' = ph\<lparr>handlers := l', is_one_handler := True\<rparr>" "placed h (handlers ph) l'"
  | h where "axis2_handler_desc_get_handler hs d = Some h"
      "ph' = ph\<lparr>first_handler := Some h, first_handler_set := True\<rparr>" "\<not> first_handler_set ph"
  | h where "axis2_handler_desc_get_handler hs d = Some h"
      "ph' = ph\<lparr>last_handler := Some h, last_handler_set := True\<rparr>" "\<not> last_handler_set ph"
proof -
  from add obtain rules where rules: "axis2_handler_desc_get_rules hs d = Some rules"
    by (auto simp: axis2_phase_add_handler_desc_def split: if_splits option.splits)
  show thesis
  proof (cases "axis2_phase_rule_is_first rules"; cases "axis2_phase_rule_is_last rules")
    assume "axis2_phase_rule_is_first rules" "axis2_phase_rule_is_last rules"
    with add rules obtain h p'
      where h: "axis2_handler_desc_get_handler hs d = Some h" "ph' = p'\<lparr>is_one_handler := True\<rparr>"
        "set_handlers ph (axis2_phase_add_unique malloc hs (handlers ph) h) = Inr p'"
      by (auto simp: axis2_phase_add_handler_desc_def Let_def split: if_splits option.splits sum.splits)
    with add_unique_set_placed [OF inv h(3)] that(2) show thesis by auto
  next
    assume "axis2_phase_rule_is_first rules" "\<not> axis2_phase_rule_is_last rules"
    with add rules that(3) show thesis
      by (auto simp: axis2_phase_add_handler_desc_def axis2_phase_set_first_handler_def
          split: if_splits option.splits)
  next
    assume "\<not> axis2_phase_rule_is_first rules" "axis2_phase_rule_is_last rules"
    with add rules that(4) show thesis
      by (auto simp: axis2_phase_add_handler_desc_def axis2_phase_set_last_handler_def
          split: if_splits option.splits)
  next
    assume "\<not> axis2_phase_rule_is_first rules" "\<not> axis2_phase_rule_is_last rules"
    with add rules have "axis2_phase_insert_handler_desc malloc hs ph d = Inr ph'"
      by (auto simp: axis2_phase_add_handler_desc_def split: if_splits option.splits)
    from insert_handler_desc_placed [OF inv this] that(1) show thesis by blast
  qed
qed

lemma placed_wf:
  assumes "placed h l l'" and "list_all (named hs) (al_list l)" and "named hs (Some h)"
  shows "al_inv l' \<and> list_all (named hs) (al_list l')"
  using assms by (auto simp: placed_def list_all_iff)

lemma insert_nth_position:
  assumes "Some t \<notin> set names" and "i \<le> length names"
  shows "position (insert_nth i (Some t) names) t = Some i"
  using assms
  by (auto simp: position_def find_index_Some nth_insert_nth) (metis less_le_trans nth_mem)

lemma insert_nth_position_other:
  assumes "distinct names" and "u \<noteq> t" and "position names u = Some k" and "i \<le> length names"
    and "Some t \<notin> set names"
  shows "position (insert_nth i (Some t) names) u = Some (if k < i then k else Suc k)"
proof (rule position_unique)
  from position_less [OF assms(3)] have k: "k < length names" "names ! k = Some u" by auto
  show "distinct (insert_nth i (Some t) names)"
    using assms(1,5) by (simp add: distinct_insert_nth)
  show "(if k < i then k else Suc k) < length (insert_nth i (Some t) names)"
    using k assms(4) by simp
  show "insert_nth i (Some t) names ! (if k < i then k else Suc k) = Some u"
    using k assms(4) by (auto simp: nth_insert_nth)
qed

text \<open>
  The position \<open>place_spec\<close> chooses meets the rules, when the handlers they name are there.
\<close>

lemma place_spec_meets_rules:
  assumes "distinct names" and "Some t \<notin> set names"
    and "place_spec names before after = Some p"
    and "before \<noteq> after \<or> before = None"
    and "\<And>b. before = Some b \<Longrightarrow> Some b \<in> set names"
    and "\<And>a. after = Some a \<Longrightarrow> Some a \<in> set names"
  shows "p \<le> length names"
    and "before = Some b \<Longrightarrow> \<exists>k. position (insert_nth p (Some t) names) b = Some k \<and> p < k"
    and "after = Some a \<Longrightarrow> \<exists>k. position (insert_nth p (Some t) names) a = Some k \<and> k < p"
proof -
  have pos: "\<exists>k. position names u = Some k \<and> k < length names" if "Some u \<in> set names" for u
    using that position_less find_index_None [of "\<lambda>n. n = Some u" names]
    by (cases "position names u") (auto simp: position_def)
  have inj: "i \<noteq> j" if "position names u = Some i" "position names v = Some j" "u \<noteq> v" for u v i j
    using that position_less by (metis option.inject)
  show len: "p \<le> length names"
    using assms(3) position_less
    by (auto simp: place_spec_def less_imp_le Suc_le_eq split: option.splits if_splits)
  show "\<exists>k. position (insert_nth p (Some t) names) b = Some k \<and> p < k" if b: "before = Some b"
  proof -
    from pos [OF assms(5) [OF b]] obtain k where k: "position names b = Some k" by auto
    have "p \<le> k"
    proof (cases after)
      case None
      with assms(3) b k show ?thesis by (simp add: place_spec_def)
    next
      case (Some a)
      from pos [OF assms(6) [OF Some]] obtain i where i: "position names a = Some i" by auto
      have "a \<noteq> b" using assms(4) b Some by auto
      with inj [OF i k] assms(3) b Some i k show ?thesis
        by (auto simp: place_spec_def split: if_splits)
    qed
    moreover have "b \<noteq> t" using assms(2) assms(5) [OF b] by auto
    ultimately show ?thesis
      using insert_nth_position_other [OF assms(1) _ k len assms(2)] by auto
  qed
  show "\<exists>k. position (insert_nth p (Some t) names) a = Some k \<and> k < p" if a: "after = Some a"
  proof -
    from pos [OF assms(6) [OF a]] obtain i where i: "position names a = Some i" by auto
    have "i < p"
    proof (cases before)
      case None
      with assms(3) a i show ?thesis by (auto simp: place_spec_def)
    next
      case (Some b)
      from pos [OF assms(5) [OF Some]] obtain k where k: "position names b = Some k" by auto
      with assms(3) a Some i k show ?thesis
        by (auto simp: place_spec_def split: if_splits)
    qed
    moreover have "a \<noteq> t" using assms(2) assms(6) [OF a] by auto
    ultimately show ?thesis
      using insert_nth_position_other [OF assms(1) _ i len assms(2)] by auto
  qed
qed

text \<open>
  With a first handler, the \<^verbatim>\<open>after\<close> rule of a handler with both rules is looked up in the list only.
\<close>

lemma insert_both_first_handler:
  assumes wf: "phase_wf hs ph" and mem: "mem_ok malloc" and fresh: "fresh_handler hs ph h"
    and dist: "distinct (phase_names hs ph)"
    and h: "axis2_handler_desc_get_handler hs d = Some h" "handler_rules hs h = Some rules"
    and r: "rule_before rules = Some b" "rule_after rules = Some a" "a \<noteq> b"
    and f: "first_handler ph = Some f" "axis2_handler_get_name hs f = Some a"
    and l: "last_handler ph = None" and a: "Some a \<notin> set (phase_names hs ph)"
  shows "placed_at ph h (axis2_phase_insert_handler_desc malloc hs ph d) (length (ph_list ph))"
proof -
  have s: "seen (phase_names hs ph) a = -1"
    using a find_index_None [of "\<lambda>n. n = Some a" "phase_names hs ph"]
    by (auto simp: seen_def position_def)
  have "both_loop malloc hs ph h a b (-1) (-1) 0 =
      both_result malloc hs ph h (seen (phase_names hs ph) a) (seen (phase_names hs ph) b)"
    using wf dist by (intro both_loop_spec) (auto simp: phase_wf_def seen_def position_def)
  also have "\<dots> = set_handlers ph (axis2_phase_add_unique malloc hs (handlers ph) h)"
    by (simp add: both_result_def s)
  finally have loop: "both_loop malloc hs ph h a b (-1) (-1) 0 =
      set_handlers ph (axis2_phase_add_unique malloc hs (handlers ph) h)" .
  have "axis2_phase_insert_handler_desc malloc hs ph d = both_loop malloc hs ph h a b (-1) (-1) 0"
    using h r f l
    by (auto simp: axis2_phase_insert_handler_desc_def axis2_phase_is_valid_after_def
        axis2_phase_is_valid_before_def axis2_phase_get_before_after_def handler_rules_def
        phase_type_defs status_int_def axis2_phase_insert_before_and_after_def optional_name_def
        Let_def bind_eq_Some_conv phase_rule_defs axis2_handler_get_name_def
        axis2_handler_get_handler_desc_def split: option.splits)
  with loop add_unique_at_end [OF wf mem fresh] show ?thesis by simp
qed

text \<open>Unique addition, as a function of the handler list.\<close>

lemma add_handler_spec:
  assumes wf: "phase_wf hs ph" and add: "axis2_phase_add_handler malloc hs ph h = Inr ph'"
  shows "\<exists>l'. ph' = ph\<lparr>handlers := l'\<rparr> \<and> al_inv l' \<and>
    (if find_index (same_handler hs h) (ph_list ph) = None
     then al_list l' = ph_list ph @ [Some h] \<or> \<not> mem_ok malloc \<and> ph' = ph
     else ph' = ph)"
proof -
  from wf have inv: "al_inv (handlers ph)" and nn: "None \<notin> set (al_list (handlers ph))"
    by (auto simp: phase_wf_def ph_list_def dest: named_not_None)
  note u = unique_loop_0 [OF inv nn, of hs h]
  show ?thesis
  proof (cases "axutil_array_list_add malloc (Some (handlers ph)) (Some h)")
    case (Inl e)
    with u add inv al.add_fail [OF inv Inl] show ?thesis
      by (auto simp: axis2_phase_add_handler_def axis2_phase_add_unique_def set_handlers_def
          ph_list_def split: option.splits intro!: exI [of _ "handlers ph"])
  next
    case (Inr l)
    with u add inv al.add_law [OF inv Inr] show ?thesis
      by (auto simp: axis2_phase_add_handler_def axis2_phase_add_unique_def set_handlers_def
          ph_list_def split: option.splits intro: exI [of _ "handlers ph"])
  qed
qed

section \<open>An example store\<close>

text \<open>
  A store in which the handler at address \<open>k\<close> has the description at address \<open>k\<close>, named and
  ruled by the \<open>k\<close>-th entry of a list, and a phase holding some of them; used to show that the
  hypotheses of the properties can be met.
\<close>

definition example_rule :: "string option \<Rightarrow> string option \<Rightarrow> axis2_phase_rule" where
  "example_rule before after = \<lparr>rule_before = before, rule_after = after, rule_name = None,
     rule_first = False, rule_last = False\<rparr>"

definition example_store :: "(string \<times> axis2_phase_rule) list \<Rightarrow> handler_store" where
  "example_store ds = \<lparr>handler_at = (\<lambda>h. \<lparr>handler_desc = Some h\<rparr>),
     desc_at = (\<lambda>d. \<lparr>desc_name = (if d < length ds then Some (fst (ds ! d)) else None),
       desc_rules = (if d < length ds then Some (snd (ds ! d)) else None),
       desc_handler = Some d, desc_class_name = None\<rparr>)\<rparr>"

definition example_phase :: "nat list \<Rightarrow> ptr \<Rightarrow> axis2_phase" where
  "example_phase xs first = \<lparr>phase_name = Some ''phase'',
     handlers = \<lparr>al_size = int (length xs), al_capacity = int (length xs) + 4,
       al_data = map Some xs @ replicate 4 None\<rparr>,
     first_handler = first, first_handler_set = (first \<noteq> None),
     last_handler = None, last_handler_set = False, is_one_handler = False, phase_ref = 1\<rparr>"

lemma example_phase_simps [simp]:
  "ph_list (example_phase xs f) = map Some xs"
  "al_list (handlers (example_phase xs f)) = map Some xs"
  "al_inv (handlers (example_phase xs f))"
  "first_handler (example_phase xs f) = f" "last_handler (example_phase xs f) = None"
  by (simp_all add: example_phase_def ph_list_def al_list_def al_inv_def nat_add_distrib)

lemma example_store_simps [simp]:
  "axis2_handler_get_name (example_store ds) h = (if h < length ds then Some (fst (ds ! h)) else None)"
  "axis2_handler_desc_get_handler (example_store ds) d = Some d"
  "handler_rules (example_store ds) h = (if h < length ds then Some (snd (ds ! h)) else None)"
  by (simp_all add: example_store_def handler_defs handler_rules_def)

lemma example_rule_simps [simp]:
  "axis2_phase_rule_get_before (example_rule b a) = b"
  "axis2_phase_rule_get_after (example_rule b a) = a"
  "axis2_phase_rule_is_first (example_rule b a) = False"
  "axis2_phase_rule_is_last (example_rule b a) = False"
  by (simp_all add: example_rule_def phase_rule_defs)

lemma example_phase_names [simp]:
  "phase_names hs (example_phase xs f) = map (\<lambda>h. axis2_handler_get_name hs h) xs"
  by (simp add: phase_names_def)

lemma example_phase_wf [simp]:
  "phase_wf (example_store ds) (example_phase xs f) \<longleftrightarrow>
   (\<forall>x \<in> set xs. x < length ds) \<and> (\<forall>h. f = Some h \<longrightarrow> h < length ds)"
  by (auto simp: phase_wf_def list_all_iff named_def split: if_splits)
     (auto simp: example_phase_def split: if_splits)

lemma example_fresh [simp]:
  "fresh_handler (example_store ds) (example_phase xs f) h \<longleftrightarrow>
   h < length ds \<and> Some (fst (ds ! h)) \<notin> (\<lambda>x. axis2_handler_get_name (example_store ds) x) ` set xs"
  by (auto simp: fresh_handler_def named_def split: if_splits)

lemma example_add_ok:
  "\<exists>ph'. axis2_phase_add_handler_desc (\<lambda>n. True)
     (example_store [(''A'', example_rule None None), (''B'', example_rule (Some ''A'') None)])
     (example_phase [0] None) 1 = Inr ph'"
proof -
  let ?hs = "example_store [(''A'', example_rule None None), (''B'', example_rule (Some ''A'') None)]"
  let ?ph = "example_phase [0] None"
  have "axis2_phase_add_handler_desc (\<lambda>n. True) ?hs ?ph 1 =
      axis2_phase_insert_handler_desc (\<lambda>n. True) ?hs ?ph 1"
    by (simp add: axis2_phase_add_handler_desc_def example_phase_def example_store_def handler_defs
        Let_def)
  then show ?thesis
    using insert_handler_desc_place [of ?hs ?ph "\<lambda>n. True" 1 1 "example_rule (Some ''A'') None"]
    by (auto simp: place_spec_def position_def placed_at_def)
qed

section \<open>Properties\<close>

text \<open>
  C12 (refinement). In a phase without a first and a last handler and with handlers of distinct
  names, \<^verbatim>\<open>axis2_phase_insert_handler_desc\<close> puts a handler with a new name exactly where the
  specification \<open>place_spec\<close> says: directly before the handler its \<^verbatim>\<open>before\<close> rule names or at the
  end, directly after the handler its \<^verbatim>\<open>after\<close> rule names or at the front, directly after the
  \<^verbatim>\<open>after\<close> handler when it has both rules and both handlers are there in that order, and it fails
  with \<^verbatim>\<open>AXIS2_ERROR_INVALID_HANDLER_STATE\<close> when they are there in the wrong order.
\<close>

theorem phase_insert_refines_place_spec:
  assumes "phase_wf hs ph" and "mem_ok malloc" and "fresh_handler hs ph h"
    and "distinct (phase_names hs ph)"
    and "axis2_handler_desc_get_handler hs d = Some h" and "handler_rules hs h = Some rules"
    and "first_handler ph = None" and "last_handler ph = None"
  shows "case place_spec (phase_names hs ph) (axis2_phase_rule_get_before rules)
        (axis2_phase_rule_get_after rules) of
      None \<Rightarrow> axis2_phase_insert_handler_desc malloc hs ph d = Inl INVALID_HANDLER_STATE
    | Some p \<Rightarrow> (\<exists>l'. axis2_phase_insert_handler_desc malloc hs ph d = Inr (ph\<lparr>handlers := l'\<rparr>) \<and>
        al_inv l' \<and> al_list l' = insert_nth p (Some h) (ph_list ph))"
  using insert_handler_desc_place [OF assms] by (simp add: placed_at_def split: option.splits)

theorem phase_insert_refines_place_spec_witness:
  "let hs = example_store [(''A'', example_rule None None), (''B'', example_rule None None),
        (''C'', example_rule (Some ''B'') (Some ''A''))];
       ph = example_phase [0, 1] None in
   \<exists>l'. axis2_phase_insert_handler_desc (\<lambda>n. True) hs ph 2 = Inr (ph\<lparr>handlers := l'\<rparr>) \<and>
     al_list l' = [Some 0, Some 2, Some 1]"
proof -
  let ?hs = "example_store [(''A'', example_rule None None), (''B'', example_rule None None),
        (''C'', example_rule (Some ''B'') (Some ''A''))]"
  have "\<exists>l'. axis2_phase_insert_handler_desc (\<lambda>n. True) ?hs (example_phase [0, 1] None) 2 =
      Inr ((example_phase [0, 1] None)\<lparr>handlers := l'\<rparr>) \<and> al_inv l' \<and>
      al_list l' = insert_nth 1 (Some 2) [Some 0, Some 1]"
    using phase_insert_refines_place_spec [of ?hs "example_phase [0, 1] None" "\<lambda>n. True" 2 2
        "example_rule (Some ''B'') (Some ''A'')"]
    by (simp add: place_spec_def position_def)
  then show ?thesis by (auto simp: insert_nth_def Let_def)
qed

text \<open>
  When the handlers that the rules of a new handler name are in the phase and the
  two rules differ, a successful \<^verbatim>\<open>axis2_phase_insert_handler_desc\<close> meets both rules: the new
  handler is before the one and after the other.
\<close>

theorem phase_rules_met:
  assumes "phase_wf hs ph" and "mem_ok malloc" and "fresh_handler hs ph h"
    and "distinct (phase_names hs ph)"
    and "axis2_handler_desc_get_handler hs d = Some h" and "handler_rules hs h = Some rules"
    and "first_handler ph = None" and "last_handler ph = None"
    and "rule_before rules \<noteq> rule_after rules \<or> rule_before rules = None"
    and "\<And>b. rule_before rules = Some b \<Longrightarrow> Some b \<in> set (phase_names hs ph)"
    and "\<And>a. rule_after rules = Some a \<Longrightarrow> Some a \<in> set (phase_names hs ph)"
    and "axis2_phase_insert_handler_desc malloc hs ph d = Inr ph'"
    and "axis2_handler_get_name hs h = Some t"
  shows "\<exists>p. position (phase_names hs ph') t = Some p \<and>
    (\<forall>b. rule_before rules = Some b \<longrightarrow> (\<exists>k. position (phase_names hs ph') b = Some k \<and> p < k)) \<and>
    (\<forall>a. rule_after rules = Some a \<longrightarrow> (\<exists>k. position (phase_names hs ph') a = Some k \<and> k < p))"
proof -
  have t: "Some t \<notin> set (phase_names hs ph)" using assms(3,13) by (simp add: fresh_handler_def)
  from insert_handler_desc_place [OF assms(1-8)] assms(12) obtain p
    where p: "place_spec (phase_names hs ph) (rule_before rules) (rule_after rules) = Some p"
      "ph_list ph' = insert_nth p (Some h) (ph_list ph)"
    by (auto simp: placed_at_def ph_list_def phase_rule_defs split: option.splits)
  have names: "phase_names hs ph' = insert_nth p (Some t) (phase_names hs ph)"
    using p(2) assms(13) by (simp add: phase_names_def map_insert_nth)
  note met = place_spec_meets_rules [OF assms(4) t p(1) assms(9-11)]
  show ?thesis
    using insert_nth_position [OF t met(1)] met(2,3) by (auto simp: names)
qed

theorem phase_rules_met_witness:
  "let hs = example_store [(''A'', example_rule None None), (''B'', example_rule None None),
        (''C'', example_rule (Some ''B'') (Some ''A''))];
       ph = example_phase [0, 1] None in
   \<exists>ph' p k j. axis2_phase_insert_handler_desc (\<lambda>n. True) hs ph 2 = Inr ph' \<and>
     position (phase_names hs ph') ''C'' = Some p \<and> position (phase_names hs ph') ''B'' = Some k \<and>
     position (phase_names hs ph') ''A'' = Some j \<and> j < p \<and> p < k"
proof -
  let ?r = "example_rule (Some ''B'') (Some ''A'')"
  let ?hs = "example_store [(''A'', example_rule None None), (''B'', example_rule None None),
        (''C'', ?r)]"
  let ?ph = "example_phase [0, 1] None"
  have r: "rule_before ?r = Some ''B''" "rule_after ?r = Some ''A''"
    by (simp_all add: example_rule_def)
  obtain ph' where ph': "axis2_phase_insert_handler_desc (\<lambda>n. True) ?hs ?ph 2 = Inr ph'"
    using insert_handler_desc_place [of ?hs ?ph "\<lambda>n. True" 2 2 ?r]
    by (auto simp: place_spec_def position_def placed_at_def)
  show ?thesis
    using phase_rules_met [of ?hs ?ph "\<lambda>n. True" 2 2 ?r ph' "''C''"] ph'
    by (auto simp: r)
qed

text \<open>
  C13 (safety). No successful \<^verbatim>\<open>axis2_phase_add_handler_desc\<close>, whatever the rules, the allocator and
  the other handlers, reorders or drops a handler: the handler list is unchanged or has the one
  new handler inserted somewhere, so any order established earlier is kept.
\<close>

theorem phase_add_keeps_order:
  assumes "al_inv (handlers ph)" and "axis2_phase_add_handler_desc malloc hs ph d = Inr ph'"
  shows "al_inv (handlers ph') \<and> (ph_list ph' = ph_list ph \<or>
    (\<exists>h i. axis2_handler_desc_get_handler hs d = Some h \<and> i \<le> length (ph_list ph) \<and>
       ph_list ph' = insert_nth i (Some h) (ph_list ph)))"
  using add_handler_desc_cases [OF assms] assms(1)
  by (cases rule: add_handler_desc_cases [OF assms]) (auto simp: placed_def ph_list_def)

theorem phase_add_keeps_order_witness:
  "let hs = example_store [(''A'', example_rule None None), (''B'', example_rule (Some ''A'') None)];
       ph = example_phase [0] None in
   \<exists>ph' i. axis2_phase_add_handler_desc (\<lambda>n. True) hs ph 1 = Inr ph' \<and>
     (ph_list ph' = [Some 0] \<or> ph_list ph' = insert_nth i (Some 1) [Some 0])"
proof -
  let ?hs = "example_store [(''A'', example_rule None None), (''B'', example_rule (Some ''A'') None)]"
  let ?ph = "example_phase [0] None"
  obtain ph' where ph': "axis2_phase_add_handler_desc (\<lambda>n. True) ?hs ?ph 1 = Inr ph'"
    using example_add_ok by blast
  from phase_add_keeps_order [OF _ ph'] ph' show ?thesis by auto
qed

text \<open>
  \<^verbatim>\<open>axis2_phase_add_handler_desc\<close> keeps a phase well formed: the handler array is
  consistent, every handler in it has a name, and the first and last handler are set exactly when
  their flags say so.
\<close>

theorem phase_add_keeps_wf:
  assumes "phase_wf hs ph" and "named hs (axis2_handler_desc_get_handler hs d)"
    and "axis2_phase_add_handler_desc malloc hs ph d = Inr ph'"
  shows "phase_wf hs ph'"
proof -
  from assms(1) have inv: "al_inv (handlers ph)" by (simp add: phase_wf_def)
  show ?thesis
    using assms(1,2) placed_wf
    by (cases rule: add_handler_desc_cases [OF inv assms(3)])
       (auto simp: phase_wf_def ph_list_def)
qed

theorem phase_add_keeps_wf_witness:
  "let hs = example_store [(''A'', example_rule None None), (''B'', example_rule (Some ''A'') None)];
       ph = example_phase [0] None in
   \<exists>ph'. axis2_phase_add_handler_desc (\<lambda>n. True) hs ph 1 = Inr ph' \<and> phase_wf hs ph'"
proof -
  let ?hs = "example_store [(''A'', example_rule None None), (''B'', example_rule (Some ''A'') None)]"
  let ?ph = "example_phase [0] None"
  obtain ph' where ph': "axis2_phase_add_handler_desc (\<lambda>n. True) ?hs ?ph 1 = Inr ph'"
    using example_add_ok by blast
  from phase_add_keeps_wf [OF _ _ ph'] ph' show ?thesis by (simp add: named_def)
qed

text \<open>
  \<^verbatim>\<open>axis2_phase_add_handler\<close> adds by name: it keeps the names of the handlers of a
  phase distinct, leaves a phase that has a handler of that name as it is, and, with memory
  available, a second call changes nothing.
\<close>

theorem phase_add_handler_unique:
  assumes "phase_wf hs ph" and "named hs (Some h)" and "distinct (phase_names hs ph)"
    and "axis2_phase_add_handler malloc hs ph h = Inr ph'"
  shows "distinct (phase_names hs ph') \<and>
    (hname hs (Some h) \<in> set (phase_names hs ph) \<longrightarrow> ph' = ph) \<and>
    (mem_ok malloc \<longrightarrow> hname hs (Some h) \<in> set (phase_names hs ph') \<and>
       axis2_phase_add_handler malloc hs ph' h = Inr ph')"
proof -
  have same: "find_index (same_handler hs h) (ph_list p) = None \<longleftrightarrow>
      hname hs (Some h) \<notin> set (phase_names hs p)" for p
    using assms(2)
    by (auto simp: find_index_None same_handler_def phase_names_def named_def image_iff)
  from add_handler_spec [OF assms(1,4)] same [of ph] obtain l'
    where l': "ph' = ph\<lparr>handlers := l'\<rparr>" "al_inv l'"
      and spec: "if hname hs (Some h) \<notin> set (phase_names hs ph)
        then al_list l' = ph_list ph @ [Some h] \<or> \<not> mem_ok malloc \<and> ph' = ph else ph' = ph"
    by auto
  have wf': "phase_wf hs ph'"
  proof (cases "ph' = ph")
    case True
    with assms(1) show ?thesis by simp
  next
    case False
    with spec have "al_list l' = ph_list ph @ [Some h]" by (auto split: if_splits)
    with l' assms(1,2) show ?thesis by (simp add: phase_wf_def ph_list_def)
  qed
  have again: "axis2_phase_add_handler malloc hs ph' h = Inr ph'"
    if "hname hs (Some h) \<in> set (phase_names hs ph')"
    using wf' that same [of ph'] unique_loop_0 [of "handlers ph'" hs h]
    by (auto simp: phase_wf_def axis2_phase_add_handler_def axis2_phase_add_unique_def
        set_handlers_def ph_list_def dest: named_not_None split: option.splits)
  show ?thesis
  proof (cases "hname hs (Some h) \<in> set (phase_names hs ph)")
    case True
    with spec have "ph' = ph" by simp
    with True again assms(3) show ?thesis by simp
  next
    case False
    with spec l' have "ph_list ph' = ph_list ph @ [Some h] \<or> \<not> mem_ok malloc \<and> ph' = ph"
      by (auto simp: ph_list_def)
    with False assms(3) again show ?thesis
      by (auto simp: phase_names_def)
  qed
qed

theorem phase_add_handler_unique_witness:
  "let hs = example_store [(''A'', example_rule None None), (''B'', example_rule None None)];
       ph = example_phase [0] None in
   \<exists>ph'. axis2_phase_add_handler (\<lambda>n. True) hs ph 1 = Inr ph' \<and>
     axis2_phase_add_handler (\<lambda>n. True) hs ph' 1 = Inr ph'"
proof -
  let ?hs = "example_store [(''A'', example_rule None None), (''B'', example_rule None None)]"
  let ?ph = "example_phase [0] None"
  obtain ph' where ph': "axis2_phase_add_handler (\<lambda>n. True) ?hs ?ph 1 = Inr ph'"
    using add_unique_at_end [of ?hs ?ph "\<lambda>n. True" 1]
    by (auto simp: axis2_phase_add_handler_def placed_at_def)
  from phase_add_handler_unique [OF _ _ _ ph'] ph' show ?thesis by (simp add: named_def)
qed

text \<open>
  A handler that must come after the first handler of its phase and before a handler
  \<open>b\<close> of the list is put behind \<open>b\<close>: \<^verbatim>\<open>axis2_phase_insert_before_and_after\<close> compares the first
  handler's name with the \<^verbatim>\<open>before\<close> rule instead of the \<^verbatim>\<open>after\<close> rule, never finds the \<^verbatim>\<open>after\<close>
  handler, appends the new handler at the end and reports success.
\<close>

theorem phase_after_first_handler_misplaced:
  assumes "phase_wf hs ph" and "mem_ok malloc" and "fresh_handler hs ph h"
    and "distinct (phase_names hs ph)"
    and "axis2_handler_desc_get_handler hs d = Some h" and "handler_rules hs h = Some rules"
    and "rule_before rules = Some b" and "rule_after rules = Some a" and "a \<noteq> b"
    and "first_handler ph = Some f" and "axis2_handler_get_name hs f = Some a"
    and "last_handler ph = None" and "Some a \<notin> set (phase_names hs ph)"
    and "Some b \<in> set (phase_names hs ph)" and "axis2_handler_get_name hs h = Some t"
  shows "\<exists>ph' k p. axis2_phase_insert_handler_desc malloc hs ph d = Inr ph' \<and>
    position (phase_names hs ph') b = Some k \<and> position (phase_names hs ph') t = Some p \<and> k < p"
proof -
  let ?N = "phase_names hs ph"
  have t: "Some t \<notin> set ?N" using assms(3,15) by (simp add: fresh_handler_def)
  from assms(14) obtain k where k: "position ?N b = Some k" "k < length ?N"
    using position_less find_index_None [of "\<lambda>n. n = Some b" ?N]
    by (cases "position ?N b") (auto simp: position_def)
  from insert_both_first_handler [OF assms(1-13)] obtain ph'
    where ph': "axis2_phase_insert_handler_desc malloc hs ph d = Inr ph'"
      "ph_list ph' = insert_nth (length (ph_list ph)) (Some h) (ph_list ph)"
    by (auto simp: placed_at_def ph_list_def)
  have N: "phase_names hs ph' = insert_nth (length ?N) (Some t) ?N"
    by (simp only: phase_names_def map_insert_nth length_map hname_simps ph'(2) assms(15))
  have "b \<noteq> t" using t assms(14) by auto
  then show ?thesis
    using ph'(1) insert_nth_position [OF t order_refl]
      insert_nth_position_other [OF assms(4) _ k(1) order_refl t] k(2) by (simp add: N)
qed

theorem phase_after_first_handler_misplaced_witness:
  "let hs = example_store [(''F'', example_rule None None), (''B'', example_rule None None),
        (''C'', example_rule (Some ''B'') (Some ''F''))];
       ph = example_phase [1] (Some 0) in
   \<exists>ph' k p. axis2_phase_insert_handler_desc (\<lambda>n. True) hs ph 2 = Inr ph' \<and>
     position (phase_names hs ph') ''B'' = Some k \<and> position (phase_names hs ph') ''C'' = Some p \<and>
     k < p"
proof -
  let ?r = "example_rule (Some ''B'') (Some ''F'')"
  let ?hs = "example_store [(''F'', example_rule None None), (''B'', example_rule None None),
        (''C'', ?r)]"
  have r: "rule_before ?r = Some ''B''" "rule_after ?r = Some ''F''"
    by (simp_all add: example_rule_def)
  show ?thesis
    using phase_after_first_handler_misplaced [of ?hs "example_phase [1] (Some 0)" "\<lambda>n. True" 2 2 ?r
        "''B''" "''F''" 0 "''C''"] by (simp add: r)
qed

text \<open>
  Rules whose \<^verbatim>\<open>before\<close> and \<^verbatim>\<open>after\<close> name the same handler are reported by
  \<^verbatim>\<open>_axis2_phase_get_before_after\<close> as \<^verbatim>\<open>AXIS2_ERROR_BEFORE_AFTER_HANDLERS_SAME\<close> with the return
  value \<^verbatim>\<open>AXIS2_FAILURE\<close>, which is the number of \<^verbatim>\<open>AXIS2_PHASE_BOTH_BEFORE_AFTER\<close>; the caller
  takes it for that placement and inserts the handler behind the named one.
\<close>

theorem phase_same_rules_accepted:
  assumes "phase_wf hs ph" and "mem_ok malloc" and "fresh_handler hs ph h"
    and "distinct (phase_names hs ph)"
    and "axis2_handler_desc_get_handler hs d = Some h" and "handler_rules hs h = Some rules"
    and "first_handler ph = None" and "last_handler ph = None"
    and "rule_before rules = Some b" and "rule_after rules = Some b"
    and "position (phase_names hs ph) b = Some k"
  shows "axis2_phase_get_before_after hs h =
      (AXIS2_PHASE_BOTH_BEFORE_AFTER, Some BEFORE_AFTER_HANDLERS_SAME) \<and>
    (\<exists>ph'. axis2_phase_insert_handler_desc malloc hs ph d = Inr ph' \<and>
       ph_list ph' = insert_nth (Suc k) (Some h) (ph_list ph))"
proof -
  have "axis2_phase_get_before_after hs h =
      (AXIS2_PHASE_BOTH_BEFORE_AFTER, Some BEFORE_AFTER_HANDLERS_SAME)"
    using assms(6,9,10)
    by (auto simp: axis2_phase_get_before_after_def handler_rules_def bind_eq_Some_conv
        phase_rule_defs phase_type_defs status_int_def)
  moreover have "place_spec (phase_names hs ph) (rule_before rules) (rule_after rules) = Some (Suc k)"
    using assms(9-11) by (simp add: place_spec_def)
  ultimately show ?thesis
    using insert_handler_desc_place [OF assms(1-8)]
    by (auto simp: placed_at_def ph_list_def phase_rule_defs)
qed

theorem phase_same_rules_accepted_witness:
  "let hs = example_store [(''A'', example_rule None None),
        (''C'', example_rule (Some ''A'') (Some ''A''))];
       ph = example_phase [0] None in
   \<exists>ph'. axis2_phase_insert_handler_desc (\<lambda>n. True) hs ph 1 = Inr ph' \<and>
     ph_list ph' = [Some 0, Some 1]"
proof -
  let ?r = "example_rule (Some ''A'') (Some ''A'')"
  let ?hs = "example_store [(''A'', example_rule None None), (''C'', ?r)]"
  have r: "rule_before ?r = Some ''A''" "rule_after ?r = Some ''A''"
    by (simp_all add: example_rule_def)
  have "\<exists>ph'. axis2_phase_insert_handler_desc (\<lambda>n. True) ?hs (example_phase [0] None) 1 = Inr ph' \<and>
     ph_list ph' = insert_nth (Suc 0) (Some 1) [Some 0]"
    using phase_same_rules_accepted [of ?hs "example_phase [0] None" "\<lambda>n. True" 1 1 ?r "''A''" 0]
    by (simp add: r position_def)
  then show ?thesis by (simp add: insert_nth_def)
qed

text \<open>
  Placement by a \<^verbatim>\<open>before\<close> rule does not look for the handler it inserts: a phase
  that has the handler, and the handler its rule names, gets it a second time.
\<close>

theorem phase_insert_before_duplicates:
  assumes "phase_wf hs ph" and "mem_ok malloc"
    and "axis2_handler_desc_get_handler hs d = Some h" and "handler_rules hs h = Some rules"
    and "first_handler ph = None" and "last_handler ph = None"
    and "rule_before rules = Some b" and "rule_after rules = None"
    and "position (phase_names hs ph) b = Some k" and "Some h \<in> set (ph_list ph)"
  shows "\<exists>ph'. axis2_phase_insert_handler_desc malloc hs ph d = Inr ph' \<and>
    ph_list ph' = insert_nth k (Some h) (ph_list ph) \<and> \<not> distinct (ph_list ph')"
proof -
  from assms(1) have wf: "al_inv (handlers ph)" "list_all (named hs) (al_list (handlers ph))"
    by (simp_all add: phase_wf_def ph_list_def)
  have t: "target_loop hs (handlers ph) b 0 = Inr (Some (int k))"
    using target_loop_0 [OF wf] assms(9) by (simp add: phase_names_def position_map ph_list_def)
  have k: "k \<le> length (ph_list ph)"
    using position_less [OF assms(9)] by (simp add: phase_names_def)
  have "axis2_phase_insert_handler_desc malloc hs ph d =
      set_handlers ph (axutil_array_list_add_at malloc (Some (handlers ph)) (int k) (Some h))"
    using insert_handler_desc_dispatch [OF assms(3-6)] assms(4,6-8) t
    by (auto simp: phase_rule_defs axis2_phase_insert_before_def handler_rules_def
        bind_eq_Some_conv)
  with add_at_index [OF assms(1,2), of "int k" h] k assms(10) show ?thesis
    by (auto simp: placed_at_def ph_list_def distinct_insert_nth)
qed

theorem phase_insert_before_duplicates_witness:
  "let hs = example_store [(''A'', example_rule (Some ''B'') None), (''B'', example_rule None None)];
       ph = example_phase [0, 1] None in
   \<exists>ph'. axis2_phase_insert_handler_desc (\<lambda>n. True) hs ph 0 = Inr ph' \<and>
     ph_list ph' = [Some 0, Some 0, Some 1]"
proof -
  let ?r = "example_rule (Some ''B'') None"
  let ?hs = "example_store [(''A'', ?r), (''B'', example_rule None None)]"
  have r: "rule_before ?r = Some ''B''" "rule_after ?r = None"
    by (simp_all add: example_rule_def)
  have "\<exists>ph'. axis2_phase_insert_handler_desc (\<lambda>n. True) ?hs (example_phase [0, 1] None) 0 = Inr ph' \<and>
     ph_list ph' = insert_nth 1 (Some 0) [Some 0, Some 1]"
    using phase_insert_before_duplicates [of ?hs "example_phase [0, 1] None" "\<lambda>n. True" 0 0 ?r "''B''" 1]
    by (auto simp: r position_def)
  then show ?thesis by (simp add: insert_nth_def)
qed

end
