(* ===== verification/Hash_Table.thy ===== *)
theory Hash_Table
  imports Axis_Prelude "HOL-Library.Multiset"
begin

unbundle bit_operations_syntax

text \<open>
  The chained hash table of \<^verbatim>\<open>util/src/hash.c\<close>: creation, the times-33 hash function, lookup,
  insertion, replacement and deletion, growth, iteration, copy and merge. A chain of entries is
  a list; the pointer \<^verbatim>\<open>hep\<close> to the link at which an entry hangs is a bucket and a position in
  its chain. The abstraction of a table is a finite map from key bytes to values.
\<close>

section \<open>State\<close>

text \<open>
  \<^verbatim>\<open>struct axutil_hash_entry_t\<close>. The table keeps the caller's key pointer and a length: \<open>e_key\<close>
  holds the bytes the pointer reaches, of which the first \<open>e_klen\<close> are the key.
\<close>

record 'v hash_entry =
  e_hash :: "32 word"
  e_key :: string
  e_klen :: "32 word"
  e_val :: "'v option"

text \<open>
  \<^verbatim>\<open>struct axutil_hash_t\<close>; \<open>h_free\<close> is the list of recycled entries and \<open>h_array\<close> is NULL when
  its allocation failed. The environment pointer is left out.
\<close>

record 'v axutil_hash =
  h_array :: "'v hash_entry list list option"
  h_count :: "32 word"
  h_max :: "32 word"
  h_func :: "string \<Rightarrow> 32 word \<Rightarrow> 32 word \<times> 32 word"
  h_free :: "'v hash_entry list"

text \<open>
  \<^verbatim>\<open>struct axutil_hash_index_t\<close>: \<open>hi_this\<close> and \<open>hi_next\<close> are pointers into a chain, that is
  the rest of the chain from there on.
\<close>

record 'v hash_index =
  hi_this :: "'v hash_entry list"
  hi_next :: "'v hash_entry list"
  hi_index :: nat

definition INITIAL_MAX :: "32 word" where
  "INITIAL_MAX = 15"

definition AXIS2_HASH_KEY_STRING :: "32 word" where
  "AXIS2_HASH_KEY_STRING = -1"

definition sizeof_hash :: nat where "sizeof_hash = 72"

definition sizeof_hash_entry :: nat where "sizeof_hash_entry = 40"

section \<open>Creation and the hash function\<close>

text \<open>The number of slots \<^verbatim>\<open>max + 1\<close> is computed in unsigned int arithmetic.\<close>

definition axutil_hash_alloc_array :: "alloc \<Rightarrow> 32 word \<Rightarrow> 'v hash_entry list list option" where
  "axutil_hash_alloc_array malloc mx =
     (if malloc (sizeof_ptr * unat (mx + 1)) then Some (replicate (unat (mx + 1)) []) else None)"

text \<open>
  \<^verbatim>\<open>axutil_hashfunc_default\<close> returns the hash and, through \<^verbatim>\<open>klen\<close>, the length of the key. For
  \<^verbatim>\<open>AXIS2_HASH_KEY_STRING\<close> the key ends before its first NUL byte.
\<close>

definition times33 :: "string \<Rightarrow> 32 word" where
  "times33 key = foldl (\<lambda>hash p. hash * 33 + of_char p) 0 key"

definition axutil_hashfunc_default :: "string \<Rightarrow> 32 word \<Rightarrow> 32 word \<times> 32 word" where
  "axutil_hashfunc_default char_key klen =
     (if klen = AXIS2_HASH_KEY_STRING then
        let s = takeWhile (\<lambda>p. p \<noteq> CHR 0x00) char_key in (times33 s, of_nat (length s))
      else (times33 (take (unat klen) char_key), klen))"

text \<open>The result of the array allocation is not checked.\<close>

definition axutil_hash_make :: "alloc \<Rightarrow> 'v axutil_hash result" where
  "axutil_hash_make malloc =
     (if \<not> malloc sizeof_hash then Inl NO_MEMORY
      else Inr \<lparr>h_array = axutil_hash_alloc_array malloc INITIAL_MAX, h_count = 0,
                h_max = INITIAL_MAX, h_func = axutil_hashfunc_default, h_free = []\<rparr>)"

definition axutil_hash_make_custom ::
    "alloc \<Rightarrow> (string \<Rightarrow> 32 word \<Rightarrow> 32 word \<times> 32 word) \<Rightarrow> 'v axutil_hash result" where
  "axutil_hash_make_custom malloc hash_func =
     (case axutil_hash_make malloc of Inl e \<Rightarrow> Inl e | Inr ht \<Rightarrow> Inr (ht\<lparr>h_func := hash_func\<rparr>))"

section \<open>Iteration\<close>

text \<open>
  The \<^verbatim>\<open>while(!hi->this)\<close> loop of \<^verbatim>\<open>axutil_hash_next_impl\<close>. Reading a slot that does not exist
  is undefined behaviour. The index cannot wrap: for \<open>max = 2 ^ 32 - 1\<close> the array has no slot.
\<close>

function next_loop ::
    "'v axutil_hash \<Rightarrow> 'v hash_entry list \<Rightarrow> nat \<Rightarrow> 'v hash_index option result" where
  "next_loop ht this index =
     (if this \<noteq> [] then Inr (Some \<lparr>hi_this = this, hi_next = tl this, hi_index = index\<rparr>)
      else if index > unat (h_max ht) then Inr None
      else
        (case h_array ht of
           None \<Rightarrow> Inl UNDEFINED_BEHAVIOUR
         | Some A \<Rightarrow>
             if index < length A then next_loop ht (A ! index) (index + 1)
             else Inl UNDEFINED_BEHAVIOUR))"
  by pat_completeness auto
termination
  by (relation "measure (\<lambda>(ht, this, index). unat (h_max ht) + 1 - index)") auto

declare next_loop.simps [simp del]

definition axutil_hash_next_impl ::
    "'v axutil_hash \<Rightarrow> 'v hash_index option \<Rightarrow> 'v hash_index option result" where
  "axutil_hash_next_impl ht p =
     (case p of None \<Rightarrow> Inr None | Some hi \<Rightarrow> next_loop ht (hi_next hi) (hi_index hi))"

definition axutil_hash_first_impl ::
    "alloc \<Rightarrow> 'v axutil_hash option \<Rightarrow> bool \<Rightarrow> 'v hash_index option result" where
  "axutil_hash_first_impl malloc p use_internal_iterator =
     (case p of
        None \<Rightarrow> Inr None
      | Some ht \<Rightarrow>
          if \<not> use_internal_iterator \<and> \<not> malloc 32 then Inl NO_MEMORY
          else axutil_hash_next_impl ht (Some \<lparr>hi_this = [], hi_next = [], hi_index = 0\<rparr>))"

definition axutil_hash_this :: "'v hash_index \<Rightarrow> 'v hash_entry" where
  "axutil_hash_this hi = hd (hi_this hi)"

text \<open>
  A C loop \<^verbatim>\<open>for (hi = first; hi; hi = axutil_hash_next(..)) body\<close>: the body sees the current
  entry and a state, and tells whether it leaves the loop. The iterator has saved the next entry
  before the body runs, so a body that relinks the current entry does not disturb it.
\<close>

definition hi_rest :: "'v axutil_hash \<Rightarrow> 'v hash_index \<Rightarrow> 'v hash_entry list" where
  "hi_rest ht hi = hi_next hi @
     (case h_array ht of None \<Rightarrow> [] | Some A \<Rightarrow> concat (drop (hi_index hi) A))"

lemma next_loop_decreases:
  "next_loop ht this index = Inr (Some hi') \<Longrightarrow>
   hi_this hi' \<noteq> [] \<and> hi_this hi' @
     (case h_array ht of None \<Rightarrow> [] | Some A \<Rightarrow> concat (drop (hi_index hi') A)) =
   this @ (case h_array ht of None \<Rightarrow> [] | Some A \<Rightarrow> concat (drop index A)) \<and>
   hi_next hi' = tl (hi_this hi')"
proof (induction ht this index rule: next_loop.induct)
  case (1 ht this index)
  show ?case
  proof (cases "this = []")
    case False
    with "1.prems" show ?thesis
      by (auto simp: next_loop.simps [of ht this index] split: option.split)
  next
    case True
    with "1.prems" obtain A where A: "h_array ht = Some A" "index < length A"
      "\<not> unat (h_max ht) < index" "next_loop ht (A ! index) (index + 1) = Inr (Some hi')"
      by (auto split: if_splits option.splits simp: next_loop.simps [of ht "[]" index])
    from A have "concat (drop index A) = A ! index @ concat (drop (index + 1) A)"
      by (simp flip: Cons_nth_drop_Suc)
    with "1.IH" [of A] A True show ?thesis by simp
  qed
qed

lemma next_impl_decreases:
  assumes "axutil_hash_next_impl ht (Some hi) = Inr (Some hi')"
  shows "hi_rest ht hi = axutil_hash_this hi' # hi_rest ht hi'"
  using next_loop_decreases [of ht "hi_next hi" "hi_index hi" hi'] assms
  by (cases "hi_this hi'") (auto simp: hi_rest_def axutil_hash_next_impl_def axutil_hash_this_def)

function hash_foreach ::
    "'v axutil_hash \<Rightarrow> ('v hash_entry \<Rightarrow> 's \<Rightarrow> bool \<times> 's) \<Rightarrow> 'v hash_index option \<Rightarrow> 's
     \<Rightarrow> 's result" where
  "hash_foreach ht body p s =
     (case p of
        None \<Rightarrow> Inr s
      | Some hi \<Rightarrow>
          (case body (axutil_hash_this hi) s of
             (leave, s') \<Rightarrow>
               if leave then Inr s'
               else
                 (case axutil_hash_next_impl ht (Some hi) of
                    Inl e \<Rightarrow> Inl e
                  | Inr p' \<Rightarrow> hash_foreach ht body p' s')))"
  by pat_completeness auto
termination
proof (relation "measure (\<lambda>(ht, body, p, s).
    case p of None \<Rightarrow> 0 | Some hi \<Rightarrow> Suc (length (hi_rest ht hi)))"; (simp; fail)?)
  fix ht :: "'v axutil_hash" and body :: "'v hash_entry \<Rightarrow> 's \<Rightarrow> bool \<times> 's"
    and p hi x leave s s' p'
  assume "p = Some hi" "axutil_hash_next_impl ht (Some hi) = Inr p'"
  then show "((ht, body, p', s'), ht, body, p, s) \<in> measure (\<lambda>(ht, body, p, s).
      case p of None \<Rightarrow> 0 | Some hi \<Rightarrow> Suc (length (hi_rest ht hi)))"
    using next_impl_decreases [of ht hi] by (cases p') auto
qed

declare hash_foreach.simps [simp del]

section \<open>Growth\<close>

text \<open>
  \<^verbatim>\<open>axutil_hash_expand_array\<close> pushes every entry on the front of its new chain. It does not
  check the allocation: writing through the NULL array is undefined behaviour.
\<close>

definition expand_body ::
    "32 word \<Rightarrow> 'v hash_entry \<Rightarrow> 'v hash_entry list list option \<Rightarrow>
     bool \<times> 'v hash_entry list list option" where
  "expand_body new_max e na =
     (case na of
        None \<Rightarrow> (True, None)
      | Some A \<Rightarrow>
          let i = unat (e_hash e AND new_max) in
          if i < length A then (False, Some (A[i := e # A ! i])) else (True, None))"

definition axutil_hash_expand_array :: "alloc \<Rightarrow> 'v axutil_hash \<Rightarrow> 'v axutil_hash result" where
  "axutil_hash_expand_array malloc ht =
     (let new_max = h_max ht * 2 + 1 in
      case axutil_hash_first_impl malloc (Some ht) True of
        Inl e \<Rightarrow> Inl e
      | Inr hi \<Rightarrow>
          (case hash_foreach ht (expand_body new_max) hi (axutil_hash_alloc_array malloc new_max) of
             Inl e \<Rightarrow> Inl e
           | Inr None \<Rightarrow> if hi = None then Inr (ht\<lparr>h_array := None, h_max := new_max\<rparr>)
                         else Inl UNDEFINED_BEHAVIOUR
           | Inr (Some A) \<Rightarrow> Inr (ht\<lparr>h_array := Some A, h_max := new_max\<rparr>)))"

section \<open>Lookup and update\<close>

text \<open>The position at which the scan of a chain stops; the end of the chain when nothing matches.\<close>

fun scan_chain :: "32 word \<Rightarrow> string \<Rightarrow> 32 word \<Rightarrow> 'v hash_entry list \<Rightarrow> nat" where
  "scan_chain hash key klen [] = 0"
| "scan_chain hash key klen (he # rest) =
     (if e_hash he = hash \<and> e_klen he = klen \<and>
         take (unat klen) (e_key he) = take (unat klen) key then 0
      else Suc (scan_chain hash key klen rest))"

text \<open>
  \<^verbatim>\<open>axutil_hash_find_entry\<close>: the table, in which a new entry may have been hung, and the link
  \<^verbatim>\<open>hep\<close>; \<open>Inr None\<close> stands for the NULL returned for a NULL table.
\<close>

definition axutil_hash_find_entry ::
    "alloc \<Rightarrow> 'v axutil_hash option \<Rightarrow> string \<Rightarrow> 32 word \<Rightarrow> 'v option \<Rightarrow>
     ('v axutil_hash \<times> nat \<times> nat) option result" where
  "axutil_hash_find_entry malloc p key klen0 val =
     (case p of
        None \<Rightarrow> Inr None
      | Some ht \<Rightarrow>
          (case h_func ht key klen0 of
             (hash, klen) \<Rightarrow>
               (case h_array ht of
                  None \<Rightarrow> Inl UNDEFINED_BEHAVIOUR
                | Some A \<Rightarrow>
                    let b = unat (hash AND h_max ht) in
                    if \<not> b < length A then Inl UNDEFINED_BEHAVIOUR
                    else
                      let j = scan_chain hash key klen (A ! b) in
                      if j < length (A ! b) \<or> val = None then Inr (Some (ht, b, j))
                      else
                        let he = \<lparr>e_hash = hash, e_key = key, e_klen = klen, e_val = val\<rparr>;
                            A' = A[b := A ! b @ [he]] in
                        if h_free ht \<noteq> [] then
                          Inr (Some (ht\<lparr>h_free := tl (h_free ht), h_array := Some A',
                                        h_count := h_count ht + 1\<rparr>, b, j))
                        else if \<not> malloc sizeof_hash_entry then Inl NO_MEMORY
                        else Inr (Some (ht\<lparr>h_array := Some A', h_count := h_count ht + 1\<rparr>, b, j)))))"

text \<open>The entry a link points at.\<close>

definition link_at :: "'v axutil_hash \<Rightarrow> nat \<Rightarrow> nat \<Rightarrow> 'v hash_entry option" where
  "link_at ht b j =
     (case h_array ht of
        None \<Rightarrow> None
      | Some A \<Rightarrow> if b < length A \<and> j < length (A ! b) then Some (A ! b ! j) else None)"

definition axutil_hash_get ::
    "alloc \<Rightarrow> 'v axutil_hash option \<Rightarrow> string \<Rightarrow> 32 word \<Rightarrow> 'v option result" where
  "axutil_hash_get malloc p key klen =
     (case axutil_hash_find_entry malloc p key klen None of
        Inl e \<Rightarrow> Inl e
      | Inr None \<Rightarrow> Inr None
      | Inr (Some (ht, b, j)) \<Rightarrow>
          (case link_at ht b j of None \<Rightarrow> Inr None | Some he \<Rightarrow> Inr (e_val he)))"

text \<open>
  \<^verbatim>\<open>axutil_hash_set\<close> returns nothing: on \<open>Inl NO_MEMORY\<close> the table is unchanged and only the
  environment's error number tells.
\<close>

definition axutil_hash_set ::
    "alloc \<Rightarrow> 'v axutil_hash option \<Rightarrow> string \<Rightarrow> 32 word \<Rightarrow> 'v option \<Rightarrow>
     'v axutil_hash option result" where
  "axutil_hash_set malloc p key klen val =
     (case axutil_hash_find_entry malloc p key klen val of
        Inl e \<Rightarrow> Inl e
      | Inr None \<Rightarrow> Inr p
      | Inr (Some (ht, b, j)) \<Rightarrow>
          (case (h_array ht, link_at ht b j) of
             (Some A, Some old) \<Rightarrow>
               if val = None then
                 Inr (Some (ht\<lparr>h_array := Some (A[b := take j (A ! b) @ drop (Suc j) (A ! b)]),
                               h_free := old # h_free ht, h_count := h_count ht - 1\<rparr>))
               else
                 let ht' = ht\<lparr>h_array := Some (A[b := (A ! b)[j := old\<lparr>e_val := val\<rparr>]])\<rparr> in
                 if h_count ht' > h_max ht' then
                   (case axutil_hash_expand_array malloc ht' of
                      Inl e \<Rightarrow> Inl e | Inr ht'' \<Rightarrow> Inr (Some ht''))
                 else Inr (Some ht')
           | _ \<Rightarrow> Inr (Some ht)))"

definition axutil_hash_count :: "'v axutil_hash \<Rightarrow> 32 word" where
  "axutil_hash_count ht = h_count ht"

text \<open>\<^verbatim>\<open>axutil_hash_contains_key\<close> compares the key with every stored key as C strings.\<close>

definition c_string :: "string \<Rightarrow> string" where
  "c_string s = takeWhile (\<lambda>p. p \<noteq> CHR 0x00) s"

definition contains_body :: "string \<Rightarrow> 'v hash_entry \<Rightarrow> bool \<Rightarrow> bool \<times> bool" where
  "contains_body key e found =
     (if axutil_strcmp (Some (c_string key)) (Some (c_string (e_key e))) = 0
      then (True, True) else (False, False))"

definition axutil_hash_contains_key ::
    "alloc \<Rightarrow> 'v axutil_hash option \<Rightarrow> string \<Rightarrow> bool result" where
  "axutil_hash_contains_key malloc p key =
     (case p of
        None \<Rightarrow> Inr False
      | Some ht \<Rightarrow>
          (case axutil_hash_first_impl malloc p False of
             Inl e \<Rightarrow> if e = NO_MEMORY then Inr False else Inl e
           | Inr hi \<Rightarrow> hash_foreach ht (contains_body key) hi False))"

section \<open>Copy and merge\<close>

text \<open>
  \<^verbatim>\<open>axutil_hash_copy\<close> places the copies in the block it allocates for \<^verbatim>\<open>count\<close> entries; more
  entries than that would be written beyond it.
\<close>

definition axutil_hash_copy :: "alloc \<Rightarrow> 'v axutil_hash \<Rightarrow> 'v axutil_hash result" where
  "axutil_hash_copy malloc orig =
     (if \<not> malloc (sizeof_hash + sizeof_ptr * unat (h_max orig + 1) +
                   sizeof_hash_entry * unat (h_count orig)) then Inl NO_MEMORY
      else
        (case h_array orig of
           None \<Rightarrow> Inl UNDEFINED_BEHAVIOUR
         | Some A \<Rightarrow>
             if length A \<noteq> unat (h_max orig) + 1 \<or> unat (h_count orig) < length (concat A)
             then Inl UNDEFINED_BEHAVIOUR
             else Inr \<lparr>h_array = Some A, h_count = h_count orig, h_max = h_max orig,
                       h_func = h_func orig, h_free = []\<rparr>))"

text \<open>The entries in the order in which the nested loops over slots and chains reach them.\<close>

definition all_entries :: "'v axutil_hash \<Rightarrow> 'v hash_entry list result" where
  "all_entries ht =
     (case h_array ht of
        None \<Rightarrow> Inl UNDEFINED_BEHAVIOUR
      | Some A \<Rightarrow> if length A = unat (h_max ht) + 1 then Inr (concat A)
                  else Inl UNDEFINED_BEHAVIOUR)"

fun merge_base_loop ::
    "alloc \<Rightarrow> 'v hash_entry list \<Rightarrow> 'v axutil_hash \<Rightarrow> 'v axutil_hash result" where
  "merge_base_loop malloc [] res = Inr res"
| "merge_base_loop malloc (iter # rest) res =
     (if \<not> malloc sizeof_hash_entry then Inl NO_MEMORY
      else
        (case h_array res of
           None \<Rightarrow> Inl UNDEFINED_BEHAVIOUR
         | Some A \<Rightarrow>
             let i = unat (e_hash iter AND h_max res) in
             if i < length A then
               merge_base_loop malloc rest (res\<lparr>h_array := Some (A[i := iter # A ! i])\<rparr>)
             else Inl UNDEFINED_BEHAVIOUR))"

text \<open>The inner loop over the entries \<^verbatim>\<open>ent\<close> of a chain of the result: its new chain, if one matches.\<close>

fun merge_chain ::
    "(string \<Rightarrow> 32 word \<Rightarrow> 'v option \<Rightarrow> 'v option \<Rightarrow> 'v option) option \<Rightarrow> 'v hash_entry \<Rightarrow>
     'v hash_entry list \<Rightarrow> 'v hash_entry list option" where
  "merge_chain merger iter [] = None"
| "merge_chain merger iter (ent # rest) =
     (if e_klen ent = e_klen iter \<and>
         take (unat (e_klen iter)) (e_key ent) = take (unat (e_klen iter)) (e_key iter) then
        Some (ent\<lparr>e_val := (case merger of
                              Some m \<Rightarrow> m (e_key iter) (e_klen iter) (e_val iter) (e_val ent)
                            | None \<Rightarrow> e_val iter)\<rparr> # rest)
      else map_option ((#) ent) (merge_chain merger iter rest))"

fun merge_overlay_loop ::
    "alloc \<Rightarrow> (string \<Rightarrow> 32 word \<Rightarrow> 'v option \<Rightarrow> 'v option \<Rightarrow> 'v option) option \<Rightarrow>
     'v hash_entry list \<Rightarrow> 'v axutil_hash \<Rightarrow> 'v axutil_hash result" where
  "merge_overlay_loop malloc merger [] res = Inr res"
| "merge_overlay_loop malloc merger (iter # rest) res =
     (case h_array res of
        None \<Rightarrow> Inl UNDEFINED_BEHAVIOUR
      | Some A \<Rightarrow>
          let i = unat (e_hash iter AND h_max res) in
          if \<not> i < length A then Inl UNDEFINED_BEHAVIOUR
          else
            (case merge_chain merger iter (A ! i) of
               Some chain \<Rightarrow> merge_overlay_loop malloc merger rest (res\<lparr>h_array := Some (A[i := chain])\<rparr>)
             | None \<Rightarrow>
                 if \<not> malloc sizeof_hash_entry then Inl NO_MEMORY
                 else merge_overlay_loop malloc merger rest
                        (res\<lparr>h_array := Some (A[i := iter # A ! i]), h_count := h_count res + 1\<rparr>)))"

definition axutil_hash_merge ::
    "alloc \<Rightarrow> 'v axutil_hash \<Rightarrow> 'v axutil_hash \<Rightarrow>
     (string \<Rightarrow> 32 word \<Rightarrow> 'v option \<Rightarrow> 'v option \<Rightarrow> 'v option) option \<Rightarrow>
     'v axutil_hash result" where
  "axutil_hash_merge malloc overlay base merger =
     (if \<not> malloc sizeof_hash then Inl NO_MEMORY
      else
        let mx = (if h_max overlay > h_max base then h_max overlay else h_max base);
            mx' = (if h_count base + h_count overlay > mx then mx * 2 + 1 else mx);
            res = \<lparr>h_array = axutil_hash_alloc_array malloc mx', h_count = h_count base,
                   h_max = mx', h_func = h_func base, h_free = []\<rparr> in
        (case all_entries base of
           Inl e \<Rightarrow> Inl e
         | Inr bs \<Rightarrow>
             (case merge_base_loop malloc bs res of
                Inl e \<Rightarrow> Inl e
              | Inr res' \<Rightarrow>
                  (case all_entries overlay of
                     Inl e \<Rightarrow> Inl e
                   | Inr os \<Rightarrow> merge_overlay_loop malloc merger os res'))))"

definition axutil_hash_overlay ::
    "alloc \<Rightarrow> 'v axutil_hash \<Rightarrow> 'v axutil_hash \<Rightarrow> 'v axutil_hash result" where
  "axutil_hash_overlay malloc overlay base = axutil_hash_merge malloc overlay base None"

end
