(* ===== verification/Hash_Map.thy ===== *)
theory Hash_Map
  imports Hash_Table
begin

unbundle bit_operations_syntax

text \<open>
  Correctness of the hash table: its invariant, the finite map it stands for, and the behaviour
  of lookup, update, growth, iteration, copy and merge in terms of that map. The interface the
  clients of the table rely on is the locale \<open>dictionary\<close>.
\<close>

section \<open>Keys\<close>

text \<open>The bytes that a key pointer and a length denote, and when they denote a key.\<close>

definition norm_key :: "string \<Rightarrow> 32 word \<Rightarrow> string" where
  "norm_key key klen =
     (if klen = AXIS2_HASH_KEY_STRING then c_string key else take (unat klen) key)"

definition valid_key :: "string \<Rightarrow> 32 word \<Rightarrow> bool" where
  "valid_key key klen \<longleftrightarrow>
     (if klen = AXIS2_HASH_KEY_STRING then length (c_string key) < 2 ^ 32 - 1
      else unat klen \<le> length key)"

text \<open>
  What the table needs of a hash function: hash and length depend only on the key bytes.
\<close>

definition hash_of :: "(string \<Rightarrow> 32 word \<Rightarrow> 32 word \<times> 32 word) \<Rightarrow> string \<Rightarrow> 32 word" where
  "hash_of f k = fst (f k (of_nat (length k)))"

definition hash_func_ok :: "(string \<Rightarrow> 32 word \<Rightarrow> 32 word \<times> 32 word) \<Rightarrow> bool" where
  "hash_func_ok f \<longleftrightarrow> (\<forall>key klen. valid_key key klen \<longrightarrow>
     f key klen = (hash_of f (norm_key key klen), of_nat (length (norm_key key klen))))"

definition entry_key :: "'v hash_entry \<Rightarrow> string" where
  "entry_key e = take (unat (e_klen e)) (e_key e)"

definition entry_ok :: "(string \<Rightarrow> 32 word \<Rightarrow> 32 word \<times> 32 word) \<Rightarrow> 'v hash_entry \<Rightarrow> bool" where
  "entry_ok f e \<longleftrightarrow> unat (e_klen e) \<le> length (e_key e) \<and> e_val e \<noteq> None \<and>
     e_hash e = hash_of f (entry_key e)"

section \<open>Invariant and abstraction\<close>

text \<open>The entries of a table, bucket after bucket.\<close>

definition entries :: "'v axutil_hash \<Rightarrow> 'v hash_entry list" where
  "entries ht = (case h_array ht of None \<Rightarrow> [] | Some A \<Rightarrow> concat A)"

definition buckets_ok ::
    "(string \<Rightarrow> 32 word \<Rightarrow> 32 word \<times> 32 word) \<Rightarrow> 32 word \<Rightarrow> 'v hash_entry list list \<Rightarrow> bool" where
  "buckets_ok f mx A \<longleftrightarrow> length A = unat mx + 1 \<and>
     (\<forall>i < length A. \<forall>e \<in> set (A ! i). entry_ok f e \<and> unat (e_hash e AND mx) = i) \<and>
     distinct (map entry_key (concat A))"

text \<open>
  The array has a power of two of slots, every entry hangs in the bucket of its hash, no key
  occurs twice, and \<^verbatim>\<open>count\<close> is the number of entries, which never exceeds \<^verbatim>\<open>max\<close>.
\<close>

definition hash_inv :: "'v axutil_hash \<Rightarrow> bool" where
  "hash_inv ht \<longleftrightarrow> hash_func_ok (h_func ht) \<and>
     (\<exists>k \<le> 31. h_max ht = mask k) \<and>
     (case h_array ht of None \<Rightarrow> False | Some A \<Rightarrow> buckets_ok (h_func ht) (h_max ht) A) \<and>
     unat (h_count ht) = length (entries ht) \<and> h_count ht \<le> h_max ht"

definition entry_map :: "'v hash_entry list \<Rightarrow> string \<Rightarrow> 'v option" where
  "entry_map es k = (case find (\<lambda>e. entry_key e = k) es of None \<Rightarrow> None | Some e \<Rightarrow> e_val e)"

definition hash_abs :: "'v axutil_hash \<Rightarrow> string \<Rightarrow> 'v option" where
  "hash_abs ht = entry_map (entries ht)"

section \<open>Lemmas on entries and buckets\<close>

lemma find_distinct:
  "distinct (map f xs) \<Longrightarrow> x \<in> set xs \<Longrightarrow> find (\<lambda>y. f y = f x) xs = Some x"
  by (induction xs) (auto simp: image_iff)

lemma entry_map_in:
  "distinct (map entry_key es) \<Longrightarrow> e \<in> set es \<Longrightarrow> entry_map es (entry_key e) = e_val e"
  by (simp add: entry_map_def find_distinct)

lemma entry_map_notin: "k \<notin> entry_key ` set es \<Longrightarrow> entry_map es k = None"
  by (force simp: entry_map_def find_Some_iff split: option.split)

lemma entry_map_cong:
  assumes "distinct (map entry_key es)" "mset es' = mset es"
  shows "entry_map es' = entry_map es" "distinct (map entry_key es')"
proof -
  have s: "set es' = set es" using assms(2) by (rule mset_eq_setD)
  show d: "distinct (map entry_key es')"
    using assms by (metis mset_map mset_eq_imp_distinct_iff)
  show "entry_map es' = entry_map es"
  proof
    fix k
    show "entry_map es' k = entry_map es k"
    proof (cases "k \<in> entry_key ` set es")
      case True
      then obtain e where "e \<in> set es" "k = entry_key e" by auto
      then show ?thesis using d assms(1) s by (simp add: entry_map_in)
    next
      case False
      then show ?thesis using s by (simp add: entry_map_notin)
    qed
  qed
qed

lemma entry_map_Cons:
  "entry_map (e # es) = (\<lambda>k. if k = entry_key e then e_val e else entry_map es k)"
  by (auto simp: entry_map_def fun_eq_iff)

lemma mset_concat_update:
  "b < length A \<Longrightarrow> mset (concat (A[b := C])) + mset (A ! b) = mset (concat A) + mset C"
  by (induction A arbitrary: b) (auto split: nat.split simp: less_Suc_eq_0_disj)

lemma mset_remove_at:
  "j < length C \<Longrightarrow> mset C = add_mset (C ! j) (mset (take j C @ drop (Suc j) C))"
  using arg_cong [OF id_take_nth_drop [of j C], of mset] by simp

lemma nth_update_set: "b < length A \<Longrightarrow> i < length A \<Longrightarrow> e \<in> set (A[b := C] ! i) \<Longrightarrow>
   e \<in> set (A ! i) \<or> i = b \<and> e \<in> set C"
  by (cases "i = b") auto

lemma length_update_le: "unat (h AND mx) < unat mx + 1" for h mx :: "32 word"
  by (metis Suc_eq_plus1 less_Suc_eq_le word_and_le1 word_le_nat_alt)

lemma concat_nth_in: "i < length A \<Longrightarrow> e \<in> set (A ! i) \<Longrightarrow> e \<in> set (concat A)"
  by auto

section \<open>Hash functions\<close>

lemma length_norm_key:
  "valid_key key klen \<Longrightarrow> length (norm_key key klen) < 2 ^ 32"
proof -
  assume "valid_key key klen"
  moreover have "unat klen < 2 ^ 32" using unsigned_less [of klen] by simp
  ultimately show ?thesis by (auto simp: valid_key_def norm_key_def split: if_splits)
qed

lemma unat_norm_length:
  "valid_key key klen \<Longrightarrow>
   unat (of_nat (length (norm_key key klen)) :: 32 word) = length (norm_key key klen)"
  using length_norm_key by (simp add: unat_of_nat take_bit_eq_mod)

lemma take_norm_key:
  "take (length (norm_key key klen)) key = norm_key key klen"
  by (auto simp: norm_key_def c_string_def min_def takeWhile_eq_take [symmetric])

lemma default_hash_ok: "hash_func_ok axutil_hashfunc_default"
proof -
  have "axutil_hashfunc_default key klen =
      (hash_of axutil_hashfunc_default (norm_key key klen), of_nat (length (norm_key key klen)))"
    if v: "valid_key key klen" for key klen
  proof (cases "klen = AXIS2_HASH_KEY_STRING")
    case True
    then have "length (c_string key) < 2 ^ 32 - 1" using v by (simp add: valid_key_def)
    then have ne: "(of_nat (length (c_string key)) :: 32 word) \<noteq> AXIS2_HASH_KEY_STRING"
      and len: "unat (of_nat (length (c_string key)) :: 32 word) = length (c_string key)"
      by (auto simp: AXIS2_HASH_KEY_STRING_def unat_of_nat take_bit_eq_mod word_unat_eq_iff
          unsigned_minus_1_eq_mask mask_eq_exp_minus_1)
    show ?thesis
      using True ne len
      by (simp add: axutil_hashfunc_default_def hash_of_def norm_key_def c_string_def Let_def)
  next
    case False
    with v have "unat klen \<le> length key" by (simp add: valid_key_def)
    with False show ?thesis
      by (simp add: axutil_hashfunc_default_def hash_of_def norm_key_def min_absorb2)
  qed
  then show ?thesis by (simp add: hash_func_ok_def)
qed


section \<open>Lookup\<close>

lemma scan_match:
  assumes f: "hash_func_ok f" and v: "valid_key key klen" and e: "entry_ok f e"
    and fk: "f key klen = (h, l)"
  shows "e_hash e = h \<and> e_klen e = l \<and> take (unat l) (e_key e) = take (unat l) key \<longleftrightarrow>
    entry_key e = norm_key key klen"
proof -
  let ?n = "norm_key key klen"
  have hl: "h = hash_of f ?n" "l = of_nat (length ?n)"
    using f v fk by (auto simp: hash_func_ok_def)
  then have ul: "unat l = length ?n" using unat_norm_length [OF v] by simp
  have tk: "take (unat l) key = ?n" using take_norm_key ul by simp
  show ?thesis
  proof
    assume "e_hash e = h \<and> e_klen e = l \<and> take (unat l) (e_key e) = take (unat l) key"
    then show "entry_key e = ?n" using tk by (simp add: entry_key_def)
  next
    assume n: "entry_key e = ?n"
    then have "unat (e_klen e) = length ?n"
      using e by (metis entry_key_def entry_ok_def length_take min_absorb2)
    then have "e_klen e = l" using ul by (simp add: word_unat_eq_iff)
    then show "e_hash e = h \<and> e_klen e = l \<and> take (unat l) (e_key e) = take (unat l) key"
      using e n hl tk by (simp add: entry_ok_def entry_key_def)
  qed
qed

lemma scan_spec:
  assumes "hash_func_ok f" "valid_key key klen" "f key klen = (h, l)"
    and "\<forall>e \<in> set C. entry_ok f e"
  shows "scan_chain h key l C =
    (case find_index (\<lambda>e. entry_key e = norm_key key klen) C of Some j \<Rightarrow> j | None \<Rightarrow> length C)"
  using assms(4)
  by (induction C) (auto simp: scan_match [OF assms(1,2) _ assms(3)] split: option.splits)

text \<open>The bucket a valid key belongs to.\<close>

definition bucket_of :: "'v axutil_hash \<Rightarrow> string \<Rightarrow> nat" where
  "bucket_of ht k = unat (hash_of (h_func ht) k AND h_max ht)"

lemma hash_invE:
  assumes "hash_inv ht"
  obtains A where "h_array ht = Some A" "buckets_ok (h_func ht) (h_max ht) A"
    "hash_func_ok (h_func ht)" "entries ht = concat A" "unat (h_count ht) = length (concat A)"
    "h_count ht \<le> h_max ht" "length A = unat (h_max ht) + 1"
  using assms by (auto simp: hash_inv_def entries_def buckets_ok_def split: option.splits)

lemma bucket_of_less: "hash_inv ht \<Longrightarrow> h_array ht = Some A \<Longrightarrow> bucket_of ht k < length A"
  using length_update_le by (auto elim!: hash_invE simp: bucket_of_def buckets_ok_def)

lemma buckets_entry:
  "buckets_ok f mx A \<Longrightarrow> i < length A \<Longrightarrow> e \<in> set (A ! i) \<Longrightarrow>
   entry_ok f e \<and> unat (hash_of f (entry_key e) AND mx) = i"
  unfolding buckets_ok_def by (metis entry_ok_def)

lemma entries_in_bucket:
  assumes "hash_inv ht" "h_array ht = Some A" "e \<in> set (entries ht)"
  shows "e \<in> set (A ! bucket_of ht (entry_key e))"
proof -
  from assms obtain i where "i < length A" "e \<in> set (A ! i)"
    by (auto simp: entries_def in_set_conv_nth [of _ A])
  with assms buckets_entry show ?thesis
    by (metis bucket_of_def hash_invE option.inject)
qed

lemma find_entry_spec:
  assumes inv: "hash_inv ht" and v: "valid_key key klen" and A: "h_array ht = Some A"
  defines "n \<equiv> norm_key key klen" and "b \<equiv> bucket_of ht (norm_key key klen)"
  defines "he \<equiv> \<lambda>v. \<lparr>e_hash = hash_of (h_func ht) n, e_key = key,
    e_klen = of_nat (length n), e_val = v\<rparr>"
  shows "axutil_hash_find_entry malloc (Some ht) key klen val =
    (case find_index (\<lambda>e. entry_key e = n) (A ! b) of
       Some j \<Rightarrow> Inr (Some (ht, b, j))
     | None \<Rightarrow>
         if val = None then Inr (Some (ht, b, length (A ! b)))
         else if h_free ht = [] \<and> \<not> malloc sizeof_hash_entry then Inl NO_MEMORY
         else Inr (Some (ht\<lparr>h_free := tl (h_free ht),
           h_array := Some (A[b := A ! b @ [he val]]), h_count := h_count ht + 1\<rparr>,
           b, length (A ! b))))"
proof -
  from inv A have bk: "buckets_ok (h_func ht) (h_max ht) A" "hash_func_ok (h_func ht)"
    by (auto elim: hash_invE)
  have fk: "h_func ht key klen = (hash_of (h_func ht) n, of_nat (length n))"
    using bk v by (simp add: hash_func_ok_def n_def)
  have bl: "b < length A" using bucket_of_less [OF inv A] by (simp add: b_def)
  have b_eq: "unat (hash_of (h_func ht) n AND h_max ht) = b"
    by (simp add: b_def n_def bucket_of_def)
  have ok: "\<forall>e \<in> set (A ! b). entry_ok (h_func ht) e"
    using buckets_entry [OF bk(1) bl] by blast
  have sc: "scan_chain (hash_of (h_func ht) n) key (of_nat (length n)) (A ! b) =
      (case find_index (\<lambda>e. entry_key e = n) (A ! b) of Some j \<Rightarrow> j | None \<Rightarrow> length (A ! b))"
    using scan_spec [OF bk(2) v fk ok] by (simp add: n_def)
  have free: "h_free ht = [] \<Longrightarrow> ht\<lparr>h_array := X, h_count := Y\<rparr> =
      ht\<lparr>h_free := tl (h_free ht), h_array := X, h_count := Y\<rparr>" for X Y
    by (cases ht) simp
  show ?thesis
  proof (cases "find_index (\<lambda>e. entry_key e = n) (A ! b)")
    case None
    then show ?thesis
      using sc fk A bl b_eq free by (simp add: axutil_hash_find_entry_def Let_def he_def)
  next
    case (Some j)
    then have "j < length (A ! b)" by (simp add: find_index_Some)
    with Some show ?thesis
      using sc fk A bl b_eq by (simp add: axutil_hash_find_entry_def Let_def)
  qed
qed

text \<open>What the scan of the bucket says about the map.\<close>

lemma bucket_found:
  assumes inv: "hash_inv ht" and A: "h_array ht = Some A"
    and f: "find_index (\<lambda>e. entry_key e = n) (A ! bucket_of ht n) = Some j"
  shows "j < length (A ! bucket_of ht n)" "entry_key (A ! bucket_of ht n ! j) = n"
    "hash_abs ht n = e_val (A ! bucket_of ht n ! j)" "hash_abs ht n \<noteq> None"
proof -
  let ?e = "A ! bucket_of ht n ! j"
  show j: "j < length (A ! bucket_of ht n)" and n: "entry_key ?e = n"
    using f by (simp_all add: find_index_Some)
  from inv A have bk: "buckets_ok (h_func ht) (h_max ht) A" and en: "entries ht = concat A"
    by (auto elim: hash_invE)
  have bl: "bucket_of ht n < length A" using inv A by (rule bucket_of_less)
  have "?e \<in> set (concat A)" using bl j by (meson concat_nth_in nth_mem)
  with bk en n show v: "hash_abs ht n = e_val ?e"
    by (metis buckets_ok_def entry_map_in hash_abs_def)
  have "entry_ok (h_func ht) ?e" using buckets_entry [OF bk bl] j by auto
  with v show "hash_abs ht n \<noteq> None" by (simp add: entry_ok_def)
qed

lemma bucket_absent:
  assumes inv: "hash_inv ht" and A: "h_array ht = Some A"
    and f: "find_index (\<lambda>e. entry_key e = n) (A ! bucket_of ht n) = None"
  shows "n \<notin> entry_key ` set (entries ht)" "hash_abs ht n = None"
proof -
  show "n \<notin> entry_key ` set (entries ht)"
    using f entries_in_bucket [OF inv A] by (auto simp: find_index_None)
  then show "hash_abs ht n = None" by (simp add: hash_abs_def entry_map_notin)
qed

lemma hash_get_spec:
  assumes inv: "hash_inv ht" and v: "valid_key key klen"
  shows "axutil_hash_get malloc (Some ht) key klen = Inr (hash_abs ht (norm_key key klen))"
proof -
  from inv obtain A where A: "h_array ht = Some A" by (auto elim: hash_invE)
  let ?b = "bucket_of ht (norm_key key klen)"
  have bl: "?b < length A" using inv A by (rule bucket_of_less)
  show ?thesis
  proof (cases "find_index (\<lambda>e. entry_key e = norm_key key klen) (A ! ?b)")
    case None
    with bucket_absent(2) [OF inv A] show ?thesis
      using A by (simp add: axutil_hash_get_def find_entry_spec [OF inv v A] link_at_def)
  next
    case (Some j)
    with bucket_found [OF inv A Some] show ?thesis
      using A bl by (simp add: axutil_hash_get_def find_entry_spec [OF inv v A] link_at_def)
  qed
qed

section \<open>Iteration\<close>

lemma next_loop_total:
  "h_array ht = Some A \<Longrightarrow> length A = unat (h_max ht) + 1 \<Longrightarrow>
   \<exists>r. next_loop ht this index = Inr r \<and> (r = None \<longleftrightarrow> this @ concat (drop index A) = [])"
proof (induction ht this index rule: next_loop.induct)
  case (1 ht this index)
  show ?case
  proof (cases "this = [] \<and> index < length A")
    case True
    then have "concat (drop index A) = A ! index @ concat (drop (index + 1) A)"
      by (simp flip: Cons_nth_drop_Suc)
    with True 1 show ?thesis by (simp add: next_loop.simps [of ht "[]" index])
  next
    case False
    with 1 show ?thesis by (auto simp: next_loop.simps [of ht this index])
  qed
qed

text \<open>A loop over a list of entries with the body of a C loop.\<close>

fun list_loop :: "('e \<Rightarrow> 's \<Rightarrow> bool \<times> 's) \<Rightarrow> 'e list \<Rightarrow> 's \<Rightarrow> 's" where
  "list_loop body [] s = s"
| "list_loop body (e # es) s =
     (case body e s of (leave, s') \<Rightarrow> if leave then s' else list_loop body es s')"

lemma foreach_spec:
  "h_array ht = Some A \<Longrightarrow> length A = unat (h_max ht) + 1 \<Longrightarrow>
   hash_foreach ht body p s = Inr (list_loop body
     (case p of None \<Rightarrow> [] | Some hi \<Rightarrow> axutil_hash_this hi # hi_rest ht hi) s)"
proof (induction ht body p s rule: hash_foreach.induct)
  case (1 ht body p s)
  show ?case
  proof (cases p)
    case None
    then show ?thesis by (simp add: hash_foreach.simps [of ht body None s])
  next
    case (Some hi)
    obtain leave s' where b: "body (axutil_hash_this hi) s = (leave, s')" by force
    obtain r where r: "axutil_hash_next_impl ht (Some hi) = Inr r"
      "r = None \<longleftrightarrow> hi_rest ht hi = []"
      using next_loop_total [OF "1.prems", of "hi_next hi" "hi_index hi"] "1.prems"
      by (auto simp: axutil_hash_next_impl_def hi_rest_def)
    have rest: "hi_rest ht hi = (case r of None \<Rightarrow> [] | Some hi' \<Rightarrow> axutil_hash_this hi' # hi_rest ht hi')"
      using r next_impl_decreases [of ht hi] by (cases r) auto
    show ?thesis
      using Some b r(1) rest "1.IH" [OF Some b [symmetric] _ r(1)] "1.prems"
      by (simp add: hash_foreach.simps [of ht body "Some hi" s])
  qed
qed

lemma first_spec:
  assumes "h_array ht = Some A" "length A = unat (h_max ht) + 1" "internal \<or> malloc 32"
  shows "\<exists>p. axutil_hash_first_impl malloc (Some ht) internal = Inr p \<and>
    (case p of None \<Rightarrow> [] | Some hi \<Rightarrow> axutil_hash_this hi # hi_rest ht hi) = concat A"
proof -
  let ?hi = "\<lparr>hi_this = [], hi_next = [], hi_index = 0\<rparr>"
  have e: "axutil_hash_first_impl malloc (Some ht) internal = axutil_hash_next_impl ht (Some ?hi)"
    using assms(3) by (auto simp: axutil_hash_first_impl_def)
  obtain r where r: "axutil_hash_next_impl ht (Some ?hi) = Inr r" "r = None \<longleftrightarrow> concat A = []"
    using next_loop_total [OF assms(1,2), of "[]" 0] by (auto simp: axutil_hash_next_impl_def)
  have "hi_rest ht ?hi = concat A" using assms(1) by (simp add: hi_rest_def)
  then show ?thesis
    using e r next_impl_decreases [of ht ?hi] by (cases r) auto
qed

lemmas iterate_spec = first_spec foreach_spec

section \<open>Growth\<close>

text \<open>An array in which every entry hangs in the bucket of its hash, whatever else it holds.\<close>

definition placed_ok :: "32 word \<Rightarrow> 'v hash_entry list list \<Rightarrow> bool" where
  "placed_ok mx A \<longleftrightarrow> length A = unat mx + 1 \<and>
     (\<forall>i < length A. \<forall>e \<in> set (A ! i). unat (e_hash e AND mx) = i)"

lemma placed_push:
  fixes e :: "'v hash_entry"
  assumes "placed_ok mx A"
  defines "i \<equiv> unat (e_hash e AND mx)"
  shows "i < length A" "placed_ok mx (A[i := e # A ! i])"
    "mset (concat (A[i := e # A ! i])) = add_mset e (mset (concat A))"
proof -
  show i: "i < length A"
    using assms(1) length_update_le [of "e_hash e" mx] by (simp add: i_def placed_ok_def)
  then show "placed_ok mx (A[i := e # A ! i])"
    using assms(1) by (auto simp: placed_ok_def i_def nth_list_update)
  show "mset (concat (A[i := e # A ! i])) = add_mset e (mset (concat A))"
    using mset_concat_update [OF i, of "e # A ! i"] by simp
qed

lemma expand_loop:
  "placed_ok mx A \<Longrightarrow>
   \<exists>B. list_loop (expand_body mx) es (Some A) = Some B \<and> placed_ok mx B \<and>
       mset (concat B) = mset es + mset (concat A)"
proof (induction es arbitrary: A)
  case Nil
  then show ?case by simp
next
  case (Cons e es)
  note p = placed_push [OF Cons.prems, of e]
  have "expand_body mx e (Some A) =
      (False, Some (A[unat (e_hash e AND mx) := e # A ! unat (e_hash e AND mx)]))"
    using p(1) by (simp add: expand_body_def Let_def)
  with Cons.IH [OF p(2)] p(3) show ?case by simp
qed

lemma placed_empty: "unat (mx + 1) = unat mx + 1 \<Longrightarrow> placed_ok mx (replicate (unat (mx + 1)) [])"
  by (simp add: placed_ok_def del: replicate_Suc)

lemma buckets_iff_placed:
  "buckets_ok f mx A \<longleftrightarrow> placed_ok mx A \<and> (\<forall>e \<in> set (concat A). entry_ok f e) \<and>
     distinct (map entry_key (concat A))"
proof -
  have "(\<forall>e \<in> set (concat A). entry_ok f e) \<longleftrightarrow>
      (\<forall>i < length A. \<forall>e \<in> set (A ! i). entry_ok f e)"
    by (force simp: in_set_conv_nth [of _ A])
  then show ?thesis unfolding buckets_ok_def placed_ok_def by blast
qed

lemma buckets_mset:
  assumes "buckets_ok f mx A" "placed_ok mx' B" "mset (concat B) = mset (concat A)"
  shows "buckets_ok f mx' B" "entry_map (concat B) = entry_map (concat A)"
proof -
  from assms(1) have d: "distinct (map entry_key (concat A))" by (simp add: buckets_ok_def)
  note c = entry_map_cong [OF d assms(3)]
  show "entry_map (concat B) = entry_map (concat A)" by (rule c(1))
  have "set (concat B) = set (concat A)" using assms(3) by (rule mset_eq_setD)
  then show "buckets_ok f mx' B" using assms(1,2) c(2) by (simp add: buckets_iff_placed)
qed

lemma mask_step:
  assumes "k < 31" shows "(mask k :: 32 word) * 2 + 1 = mask (Suc k)"
    "unat (mask (Suc k) + 1 :: 32 word) = unat (mask (Suc k) :: 32 word) + 1"
proof -
  show "(mask k :: 32 word) * 2 + 1 = mask (Suc k)"
    by (simp add: mask_eq_exp_minus_1 algebra_simps)
  have le: "(2::nat) ^ Suc k \<le> 2 ^ 31" using assms by (intro power_increasing) auto
  have "unat (mask (Suc k) :: 32 word) = unat (of_nat (mask (Suc k)) :: 32 word)"
    by (simp only: of_nat_mask_eq)
  also have "\<dots> = mask (Suc k) mod 2 ^ 32"
    by (simp only: unat_of_nat) simp
  also have "\<dots> = 2 ^ Suc k - 1"
    using le by (simp add: mask_eq_exp_minus_1)
  finally have "unat (mask (Suc k) :: 32 word) = 2 ^ Suc k - 1" .
  with le show "unat (mask (Suc k) + 1 :: 32 word) = unat (mask (Suc k) :: 32 word) + 1"
    by (simp add: unat_word_ariths)
qed

lemma expand_spec:
  assumes A: "h_array ht = Some A" "buckets_ok (h_func ht) (h_max ht) A"
    and k: "h_max ht = mask k" "k < 31" and m: "mem_ok malloc"
  shows "\<exists>B. axutil_hash_expand_array malloc ht =
      Inr (ht\<lparr>h_array := Some B, h_max := mask (Suc k)\<rparr>) \<and>
    buckets_ok (h_func ht) (mask (Suc k)) B \<and> entry_map (concat B) = entry_map (concat A) \<and>
    length (concat B) = length (concat A)"
proof -
  let ?mx = "mask (Suc k) :: 32 word"
  let ?N = "replicate (unat (?mx + 1)) [] :: 'a hash_entry list list"
  have len: "length A = unat (h_max ht) + 1" using A by (simp add: buckets_ok_def)
  obtain hi where hi: "axutil_hash_first_impl malloc (Some ht) True = Inr hi"
    "(case hi of None \<Rightarrow> [] | Some hi \<Rightarrow> axutil_hash_this hi # hi_rest ht hi) = concat A"
    using first_spec [OF A(1) len] by blast
  have new: "axutil_hash_alloc_array malloc ?mx = Some ?N"
    using m by (simp add: axutil_hash_alloc_array_def mem_okD)
  obtain B where B: "list_loop (expand_body ?mx) (concat A) (Some ?N) = Some B"
    "placed_ok ?mx B" "mset (concat B) = mset (concat A)"
    using expand_loop [OF placed_empty [OF mask_step(2) [OF k(2)]], of "concat A"] by auto
  have "length (concat B) = length (concat A)" using B(3) by (rule mset_eq_length)
  moreover have "axutil_hash_expand_array malloc ht =
      Inr (ht\<lparr>h_array := Some B, h_max := ?mx\<rparr>)"
    using foreach_spec [OF A(1) len, of "expand_body ?mx" hi "Some ?N"] hi new B(1) k
    by (simp add: axutil_hash_expand_array_def Let_def mask_step(1))
  ultimately show ?thesis using buckets_mset [OF A(2) B(2,3)] by blast
qed

section \<open>Update\<close>

lemma placed_update:
  "placed_ok mx A \<Longrightarrow> b < length A \<Longrightarrow> \<forall>e \<in> set C. unat (e_hash e AND mx) = b \<Longrightarrow>
   placed_ok mx (A[b := C])"
  by (auto simp: placed_ok_def nth_list_update)

lemma buckets_of_entries:
  assumes "placed_ok mx B" "mset (concat B) = mset es"
    "\<forall>e \<in> set es. entry_ok f e" "distinct (map entry_key es)"
  shows "buckets_ok f mx B" "entry_map (concat B) = entry_map es" "length (concat B) = length es"
  using assms entry_map_cong [OF assms(4,2)] mset_eq_setD [OF assms(2)] mset_eq_length [OF assms(2)]
  by (simp_all add: buckets_iff_placed del: mset_concat)

lemma bucket_insert:
  assumes bk: "buckets_ok f mx A" and b: "b < length A" "unat (e_hash he AND mx) = b"
    and he: "entry_ok f he" "entry_key he \<notin> entry_key ` set (concat A)"
    and C: "mset C = add_mset he (mset (A ! b))"
  shows "buckets_ok f mx (A[b := C])"
    "entry_map (concat (A[b := C])) = (entry_map (concat A))(entry_key he := e_val he)"
    "length (concat (A[b := C])) = Suc (length (concat A))"
proof -
  have "set C = insert he (set (A ! b))" using C by (metis set_mset_add_mset_insert set_mset_mset)
  then have pl: "placed_ok mx (A[b := C])"
    using bk b by (intro placed_update) (auto simp: buckets_iff_placed placed_ok_def)
  have ms: "mset (concat (A[b := C])) = mset (he # concat A)"
    using mset_concat_update [OF b(1), of C] C by simp
  have "\<forall>e \<in> set (he # concat A). entry_ok f e" "distinct (map entry_key (he # concat A))"
    using bk he by (auto simp: buckets_iff_placed)
  note r = buckets_of_entries [OF pl ms this]
  show "buckets_ok f mx (A[b := C])" by (rule r(1))
  show "entry_map (concat (A[b := C])) = (entry_map (concat A))(entry_key he := e_val he)"
    unfolding r(2) by (auto simp: entry_map_Cons)
  show "length (concat (A[b := C])) = Suc (length (concat A))" by (simp only: r(3)) simp
qed

lemma bucket_remove:
  assumes bk: "buckets_ok f mx A" and b: "b < length A" "j < length (A ! b)"
  defines "R \<equiv> A[b := take j (A ! b) @ drop (Suc j) (A ! b)]"
  shows "mset (concat A) = mset (A ! b ! j # concat R)" "buckets_ok f mx R"
    "entry_map (concat R) = (entry_map (concat A))(entry_key (A ! b ! j) := None)"
    "length (concat A) = Suc (length (concat R))"
    "entry_key (A ! b ! j) \<notin> entry_key ` set (concat R)"
proof -
  let ?o = "A ! b ! j"
  show ms: "mset (concat A) = mset (?o # concat R)"
    using mset_concat_update [OF b(1), of "take j (A ! b) @ drop (Suc j) (A ! b)"]
      mset_remove_at [OF b(2)] by (simp add: R_def)
  have d: "distinct (map entry_key (?o # concat R))"
    using bk entry_map_cong(2) [OF _ ms [symmetric]] by (simp add: buckets_ok_def)
  then show notin: "entry_key ?o \<notin> entry_key ` set (concat R)" by simp
  have pl: "placed_ok mx R"
    using bk b unfolding R_def
    by (intro placed_update) (auto simp: buckets_iff_placed placed_ok_def dest: in_set_takeD in_set_dropD)
  have "set (concat R) \<subseteq> set (concat A)"
    unfolding mset_eq_setD [OF ms] by (simp only: list.set) blast
  then have sub: "\<forall>e \<in> set (concat R). entry_ok f e"
    using bk unfolding buckets_iff_placed by blast
  show "buckets_ok f mx R" using pl sub d by (simp add: buckets_iff_placed)
  have "entry_map (concat A) = entry_map (?o # concat R)"
    using bk entry_map_cong(1) [OF _ ms [symmetric]] by (simp add: buckets_ok_def)
  then show "entry_map (concat R) = (entry_map (concat A))(entry_key ?o := None)"
    using entry_map_notin [OF notin] by (auto simp: entry_map_Cons)
  show "length (concat A) = Suc (length (concat R))"
    using mset_eq_length [OF ms] by simp
qed

lemma bucket_replace:
  fixes v :: 'v
  assumes bk: "buckets_ok f mx A" and b: "b < length A" "j < length (A ! b)"
  defines "n \<equiv> (A ! b ! j)\<lparr>e_val := Some v\<rparr>"
  defines "B \<equiv> A[b := (A ! b)[j := n]]"
  shows "buckets_ok f mx B"
    "entry_map (concat B) = (entry_map (concat A))(entry_key (A ! b ! j) := Some v)"
    "length (concat B) = length (concat A)"
proof -
  let ?o = "A ! b ! j"
  let ?R = "A[b := take j (A ! b) @ drop (Suc j) (A ! b)]"
  note rm = bucket_remove [OF bk b]
  have n: "entry_key n = entry_key ?o" "e_hash n = e_hash ?o" "e_val n = Some v"
    by (simp_all add: n_def entry_key_def)
  have o: "entry_ok f ?o" "unat (e_hash ?o AND mx) = b"
    using bk b by (auto simp: buckets_ok_def)
  have pl: "placed_ok mx B"
    using bk b n(2) o(2) set_update_subset_insert [of "A ! b" j n] unfolding B_def
    by (intro placed_update) (auto simp: buckets_iff_placed placed_ok_def)
  have "mset ((A ! b)[j := n]) = add_mset n (mset (take j (A ! b) @ drop (Suc j) (A ! b)))"
    using b(2) by (simp add: upd_conv_take_nth_drop)
  then have "mset (concat B) + mset (A ! b) = mset (n # concat ?R) + mset (A ! b)"
    using mset_concat_update [OF b(1), of "(A ! b)[j := n]"]
      mset_concat_update [OF b(1), of "take j (A ! b) @ drop (Suc j) (A ! b)"]
    unfolding B_def by simp
  then have ms: "mset (concat B) = mset (n # concat ?R)" by (rule add_right_imp_eq)
  have nk: "entry_ok f n" using o(1) n by (simp add: entry_ok_def n_def entry_key_def)
  have ok: "\<forall>e \<in> set (n # concat ?R). entry_ok f e" "distinct (map entry_key (n # concat ?R))"
    using rm(2,5) nk n(1) by (simp_all add: buckets_iff_placed)
  note r = buckets_of_entries [OF pl ms ok]
  show "buckets_ok f mx B" by (rule r(1))
  show "entry_map (concat B) = (entry_map (concat A))(entry_key ?o := Some v)"
    unfolding r(2) using rm(3) n by (auto simp: entry_map_Cons)
  show "length (concat B) = length (concat A)" using r(3) rm(4) by simp
qed

lemma hash_invI:
  "h_array ht = Some A \<Longrightarrow> buckets_ok (h_func ht) (h_max ht) A \<Longrightarrow> hash_func_ok (h_func ht) \<Longrightarrow>
   h_max ht = mask k \<Longrightarrow> k \<le> 31 \<Longrightarrow> unat (h_count ht) = length (concat A) \<Longrightarrow>
   h_count ht \<le> h_max ht \<Longrightarrow> hash_inv ht"
  by (auto simp: hash_inv_def entries_def)

lemma hash_abs_array: "h_array ht = Some A \<Longrightarrow> hash_abs ht = entry_map (concat A)"
  by (simp add: hash_abs_def entries_def)

text \<open>The effect of a successful update: the invariant is kept and the map is updated.\<close>

definition updates :: "'v axutil_hash \<Rightarrow> string \<Rightarrow> 'v option \<Rightarrow> 'v axutil_hash \<Rightarrow> bool" where
  "updates ht k val ht' \<longleftrightarrow> hash_inv ht' \<and> hash_abs ht' = (hash_abs ht)(k := val) \<and>
     h_func ht' = h_func ht"

lemma unat_mask_word: "k \<le> 31 \<Longrightarrow> unat (mask k :: 32 word) = 2 ^ k - 1"
proof -
  assume k: "k \<le> 31"
  then have le: "(2::nat) ^ k \<le> 2 ^ 31" by (intro power_increasing) auto
  have "unat (mask k :: 32 word) = unat (of_nat (mask k) :: 32 word)"
    by (simp only: of_nat_mask_eq)
  also have "\<dots> = mask k mod 2 ^ 32" by (simp only: unat_of_nat) simp
  also have "\<dots> = 2 ^ k - 1" using le by (simp add: mask_eq_exp_minus_1)
  finally show ?thesis .
qed

lemma grow_step:
  fixes c :: "32 word"
  assumes "c \<le> mask k" "k \<le> 31" "unat c < 2 ^ 31 - 1"
  shows "unat (c + 1) = unat c + 1" "c + 1 > mask k \<Longrightarrow> k < 31 \<and> c + 1 \<le> mask (Suc k)"
proof -
  show u: "unat (c + 1) = unat c + 1" using assms(3) by (simp add: unat_word_ariths)
  assume g: "c + 1 > mask k"
  have c: "unat c \<le> 2 ^ k - 1" using assms(1,2) by (simp add: word_le_nat_alt unat_mask_word)
  have "unat c + 1 > 2 ^ k - 1" using g u assms(2) by (simp add: word_less_nat_alt unat_mask_word)
  then have eq: "unat c = 2 ^ k - 1" using c by simp
  then have "k \<noteq> 31" using assms(3) by auto
  with assms(2) have k: "k < 31" by simp
  moreover have "c + 1 \<le> mask (Suc k)"
    using k eq u by (simp add: word_le_nat_alt unat_mask_word del: mask_Suc_exp)
  ultimately show "k < 31 \<and> c + 1 \<le> mask (Suc k)" by simp
qed

lemma set_delete:
  assumes inv: "hash_inv ht" and v: "valid_key key klen"
  shows "\<exists>ht'. axutil_hash_set malloc (Some ht) key klen None = Inr (Some ht') \<and>
    updates ht (norm_key key klen) None ht'"
proof -
  let ?n = "norm_key key klen" and ?b = "bucket_of ht (norm_key key klen)"
  obtain A where A: "h_array ht = Some A" and bk: "buckets_ok (h_func ht) (h_max ht) A"
    and f: "hash_func_ok (h_func ht)" and c: "unat (h_count ht) = length (concat A)"
    "h_count ht \<le> h_max ht"
    using inv by (auto elim: hash_invE)
  obtain k where k: "k \<le> 31" "h_max ht = mask k" using inv by (auto simp: hash_inv_def)
  have bl: "?b < length A" using inv A by (rule bucket_of_less)
  show ?thesis
  proof (cases "find_index (\<lambda>e. entry_key e = ?n) (A ! ?b)")
    case None
    with bucket_absent(2) [OF inv A None] show ?thesis
      using A inv by (simp add: axutil_hash_set_def find_entry_spec [OF inv v A] link_at_def
          updates_def fun_upd_idem)
  next
    case (Some j)
    note fnd = bucket_found [OF inv A Some]
    let ?R = "A[?b := take j (A ! ?b) @ drop (Suc j) (A ! ?b)]"
    let ?ht = "ht\<lparr>h_array := Some ?R, h_free := A ! ?b ! j # h_free ht, h_count := h_count ht - 1\<rparr>"
    note rm = bucket_remove [OF bk bl fnd(1)]
    have "axutil_hash_set malloc (Some ht) key klen None = Inr (Some ?ht)"
      using Some A bl fnd(1)
      by (simp add: axutil_hash_set_def find_entry_spec [OF inv v A] link_at_def)
    moreover have cn: "unat (h_count ht - 1) = length (concat ?R)"
      using rm(4) c(1) by (metis One_nat_def Suc_eq_plus1 add_diff_cancel_right' diff_Suc_1
          nat.distinct(1) unat_0 unat_minus_one)
    moreover have "h_count ht - 1 \<le> h_max ht"
      using c rm(4) cn by (simp add: word_le_nat_alt)
    ultimately show ?thesis
      using A f k rm(2,3) fnd(2) hash_invI [of ?ht ?R k]
      by (auto simp: updates_def hash_abs_array)
  qed
qed

lemma set_replace:
  assumes inv: "hash_inv ht" and v: "valid_key key klen" and A: "h_array ht = Some A"
    and Some: "find_index (\<lambda>e. entry_key e = norm_key key klen)
      (A ! bucket_of ht (norm_key key klen)) = Some j"
  shows "\<exists>ht'. axutil_hash_set malloc (Some ht) key klen (Some x) = Inr (Some ht') \<and>
    updates ht (norm_key key klen) (Some x) ht'"
proof -
  let ?n = "norm_key key klen" and ?b = "bucket_of ht (norm_key key klen)"
  have bk: "buckets_ok (h_func ht) (h_max ht) A"
    and f: "hash_func_ok (h_func ht)" and c: "unat (h_count ht) = length (concat A)"
    "h_count ht \<le> h_max ht"
    using inv A by (auto elim: hash_invE)
  obtain k where k: "k \<le> 31" "h_max ht = mask k" using inv by (auto simp: hash_inv_def)
  have bl: "?b < length A" using inv A by (rule bucket_of_less)
  note fnd = bucket_found [OF inv A Some]
  let ?B = "A[?b := (A ! ?b)[j := (A ! ?b ! j)\<lparr>e_val := Some x\<rparr>]]"
  note rp = bucket_replace [OF bk bl fnd(1), of x]
  have "axutil_hash_set malloc (Some ht) key klen (Some x) = Inr (Some (ht\<lparr>h_array := Some ?B\<rparr>))"
    using Some A bl fnd(1) leD [OF c(2)]
    by (simp add: axutil_hash_set_def find_entry_spec [OF inv v A] link_at_def Let_def)
  then show ?thesis
    using A f k c rp fnd(2) hash_invI [of "ht\<lparr>h_array := Some ?B\<rparr>" ?B k]
    by (auto simp: updates_def hash_abs_array)
qed

lemma set_insert:
  assumes inv: "hash_inv ht" and v: "valid_key key klen" and A: "h_array ht = Some A"
    and None: "find_index (\<lambda>e. entry_key e = norm_key key klen)
      (A ! bucket_of ht (norm_key key klen)) = None"
    and m: "mem_ok malloc" and room: "unat (h_count ht) < 2 ^ 31 - 1"
  shows "\<exists>ht'. axutil_hash_set malloc (Some ht) key klen (Some x) = Inr (Some ht') \<and>
    updates ht (norm_key key klen) (Some x) ht'"
proof -
  let ?n = "norm_key key klen" and ?b = "bucket_of ht (norm_key key klen)"
  have bk: "buckets_ok (h_func ht) (h_max ht) A"
    and f: "hash_func_ok (h_func ht)" and c: "unat (h_count ht) = length (concat A)"
    "h_count ht \<le> h_max ht" and en: "entries ht = concat A"
    using inv A by (auto elim: hash_invE)
  obtain k where k: "k \<le> 31" "h_max ht = mask k" using inv by (auto simp: hash_inv_def)
  have bl: "?b < length A" using inv A by (rule bucket_of_less)
  let ?he = "\<lparr>e_hash = hash_of (h_func ht) ?n, e_key = key, e_klen = of_nat (length ?n),
    e_val = Some x\<rparr>"
  let ?B = "A[?b := A ! ?b @ [?he]]"
  let ?h1 = "ht\<lparr>h_free := tl (h_free ht), h_count := h_count ht + 1, h_array := Some ?B\<rparr>"
  have key: "entry_key ?he = ?n" "length ?n \<le> length key"
    using take_norm_key [of key klen] unat_norm_length [OF v]
    by (simp_all add: entry_key_def) (metis length_take min.cobounded1)
  have he: "entry_ok (h_func ht) ?he" "unat (e_hash ?he AND h_max ht) = ?b"
    using key unat_norm_length [OF v] by (simp_all add: entry_ok_def bucket_of_def)
  have notin: "entry_key ?he \<notin> entry_key ` set (concat A)"
    using bucket_absent(1) [OF inv A None] key en by simp
  have "mset (A ! ?b @ [?he]) = add_mset ?he (mset (A ! ?b))" by simp
  note ins = bucket_insert [OF bk bl he(2) he(1) notin this]
  note gs = grow_step [OF c(2) [unfolded k(2)] k(1) room]
  have cnt: "unat (h_count ht + 1) = length (concat ?B)" using gs(1) c(1) ins(3) by simp
  have "?B[?b := (?B ! ?b)[length (A ! ?b) := ?he\<lparr>e_val := Some x\<rparr>]] = ?B"
    using bl by simp
  then have set1: "axutil_hash_set malloc (Some ht) key klen (Some x) =
      (if h_count ht + 1 > h_max ht then
         (case axutil_hash_expand_array malloc ?h1 of Inl e \<Rightarrow> Inl e | Inr h \<Rightarrow> Inr (Some h))
       else Inr (Some ?h1))"
    using None A bl m
    by (simp add: axutil_hash_set_def find_entry_spec [OF inv v A] link_at_def Let_def mem_okD)
  show ?thesis
  proof (cases "h_count ht + 1 > h_max ht")
    case False
    with set1 have "axutil_hash_set malloc (Some ht) key klen (Some x) = Inr (Some ?h1)" by simp
    moreover have "hash_inv ?h1" using False ins(1) f k cnt by (intro hash_invI [of _ ?B k]) auto
    ultimately show ?thesis
      using A ins(2) key by (auto simp: updates_def hash_abs_array)
  next
    case True
    then have k31: "k < 31" and cle: "h_count ht + 1 \<le> mask (Suc k)" using gs(2) k(2) by auto
    obtain C where C: "axutil_hash_expand_array malloc ?h1 =
        Inr (?h1\<lparr>h_array := Some C, h_max := mask (Suc k)\<rparr>)"
      "buckets_ok (h_func ht) (mask (Suc k)) C" "entry_map (concat C) = entry_map (concat ?B)"
      "length (concat C) = length (concat ?B)"
      using expand_spec [of ?h1 ?B k malloc] ins(1) k k31 m by auto
    let ?h2 = "?h1\<lparr>h_array := Some C, h_max := mask (Suc k)\<rparr>"
    have "hash_inv ?h2"
      using C(2,4) f k31 cnt cle by (intro hash_invI [of _ C "Suc k"]) auto
    moreover have "axutil_hash_set malloc (Some ht) key klen (Some x) = Inr (Some ?h2)"
      using set1 True C(1) by simp
    ultimately show ?thesis
      using A C(3) ins(2) key by (auto simp: updates_def hash_abs_array)
  qed
qed

lemma hash_set_spec:
  assumes inv: "hash_inv ht" and v: "valid_key key klen" and m: "mem_ok malloc"
    and room: "unat (h_count ht) < 2 ^ 31 - 1"
  shows "\<exists>ht'. axutil_hash_set malloc (Some ht) key klen val = Inr (Some ht') \<and>
    updates ht (norm_key key klen) val ht'"
proof -
  obtain A where A: "h_array ht = Some A" using inv by (auto elim: hash_invE)
  show ?thesis
  proof (cases val)
    case None
    then show ?thesis using set_delete [OF inv v] by simp
  next
    case (Some x)
    show ?thesis
      using set_insert [OF inv v A _ m room] set_replace [OF inv v A] Some
      by (cases "find_index (\<lambda>e. entry_key e = norm_key key klen)
          (A ! bucket_of ht (norm_key key klen))") auto
  qed
qed

section \<open>The dictionary interface\<close>

text \<open>The number of entries is the number of keys of the map.\<close>

lemma entry_map_dom:
  assumes "distinct (map entry_key es)" "\<forall>e \<in> set es. e_val e \<noteq> None"
  shows "dom (entry_map es) = entry_key ` set es" "card (dom (entry_map es)) = length es"
proof -
  show d: "dom (entry_map es) = entry_key ` set es"
    using assms entry_map_in [OF assms(1)] entry_map_notin [of _ es] by (fastforce simp: dom_def)
  show "card (dom (entry_map es)) = length es"
    unfolding d using assms(1) by (metis distinct_card length_map set_map)
qed

lemma count_spec:
  assumes "hash_inv ht"
  shows "finite (dom (hash_abs ht))" "unat (axutil_hash_count ht) = card (dom (hash_abs ht))"
proof -
  obtain A where A: "h_array ht = Some A" "buckets_ok (h_func ht) (h_max ht) A"
    "unat (h_count ht) = length (concat A)"
    using assms by (auto elim: hash_invE)
  have es: "distinct (map entry_key (concat A))" "\<forall>e \<in> set (concat A). e_val e \<noteq> None"
    using A(2) by (auto simp: buckets_iff_placed entry_ok_def)
  show "finite (dom (hash_abs ht))" "unat (axutil_hash_count ht) = card (dom (hash_abs ht))"
    using entry_map_dom [OF es] A(1,3) by (simp_all add: hash_abs_array axutil_hash_count_def)
qed

fun run_stores :: "('s \<Rightarrow> 'k \<Rightarrow> 'v option \<Rightarrow> 's result) \<Rightarrow> ('k \<times> 'v option) list \<Rightarrow> 's \<Rightarrow> 's result" where
  "run_stores store [] s = Inr s"
| "run_stores store ((k, v) # ops) s =
     (case store s k v of Inl e \<Rightarrow> Inl e | Inr s' \<Rightarrow> run_stores store ops s')"

fun map_stores :: "('k \<Rightarrow> 'n) \<Rightarrow> ('k \<times> 'v option) list \<Rightarrow> ('n \<Rightarrow> 'v option) \<Rightarrow> 'n \<Rightarrow> 'v option" where
  "map_stores name [] m = m"
| "map_stores name ((k, v) # ops) m = map_stores name ops (m(name k := v))"

text \<open>
  The contract of a dictionary: lookups read the map, a store updates it as long as the
  dictionary holds fewer than \<open>cap\<close> keys and memory is granted, and the size is the number of
  keys. Storing no value deletes.
\<close>

locale dictionary =
  fixes inv :: "'s \<Rightarrow> bool"
    and key_ok :: "'k \<Rightarrow> bool"
    and name :: "'k \<Rightarrow> 'n"
    and maps :: "'s \<Rightarrow> 'n \<Rightarrow> 'v option"
    and lookup :: "alloc \<Rightarrow> 's \<Rightarrow> 'k \<Rightarrow> 'v option result"
    and store :: "alloc \<Rightarrow> 's \<Rightarrow> 'k \<Rightarrow> 'v option \<Rightarrow> 's result"
    and size_of :: "'s \<Rightarrow> nat"
    and cap :: nat
  assumes lookup_law: "inv s \<Longrightarrow> key_ok k \<Longrightarrow> lookup m s k = Inr (maps s (name k))"
    and store_law: "inv s \<Longrightarrow> key_ok k \<Longrightarrow> mem_ok m \<Longrightarrow> size_of s < cap \<Longrightarrow>
      \<exists>s'. store m s k v = Inr s' \<and> inv s' \<and> maps s' = (maps s)(name k := v)"
    and size_law: "inv s \<Longrightarrow> finite (dom (maps s)) \<and> size_of s = card (dom (maps s))"
begin

lemma size_store:
  assumes "inv s" "inv s'" "maps s' = (maps s)(name k := v)"
  shows "size_of s' \<le> Suc (size_of s)"
proof -
  have "dom (maps s') \<subseteq> insert (name k) (dom (maps s))" using assms(3) by auto
  then have "card (dom (maps s')) \<le> card (insert (name k) (dom (maps s)))"
    using size_law [OF assms(1)] by (intro card_mono) auto
  then show ?thesis
    using size_law [OF assms(1)] size_law [OF assms(2)] card_insert_le_m1
    by (metis card_insert_if le_SucI order_trans order_refl)
qed

lemma history:
  assumes "inv s" "\<forall>(k, v) \<in> set ops. key_ok k" "mem_ok m" "size_of s + length ops \<le> cap"
  shows "\<exists>s'. run_stores (store m) ops s = Inr s' \<and> inv s' \<and> maps s' = map_stores name ops (maps s)"
  using assms
proof (induction ops arbitrary: s)
  case Nil
  then show ?case by simp
next
  case (Cons op ops)
  obtain k v where op: "op = (k, v)" by force
  obtain s' where s': "store m s k v = Inr s'" "inv s'" "maps s' = (maps s)(name k := v)"
    using store_law [of s k m v] Cons.prems op by auto
  then have "size_of s' + length ops \<le> cap"
    using size_store [OF Cons.prems(1) s'(2,3)] Cons.prems(4) by simp
  then obtain s'' where "run_stores (store m) ops s' = Inr s''" "inv s''"
    "maps s'' = map_stores name ops (maps s')"
    using Cons.IH [OF s'(2)] Cons.prems(2,3) by auto
  with s' op show ?case by simp
qed

end

definition hash_store ::
    "alloc \<Rightarrow> 'v axutil_hash \<Rightarrow> string \<times> 32 word \<Rightarrow> 'v option \<Rightarrow> 'v axutil_hash result" where
  "hash_store malloc ht k val =
     (case axutil_hash_set malloc (Some ht) (fst k) (snd k) val of
        Inl e \<Rightarrow> Inl e | Inr p \<Rightarrow> (case p of None \<Rightarrow> Inl UNDEFINED_BEHAVIOUR | Some ht' \<Rightarrow> Inr ht'))"

text \<open>The hash function of a table never changes: it is a parameter of the interpretation.\<close>

interpretation hd: dictionary "\<lambda>ht. hash_inv ht \<and> h_func ht = f" "\<lambda>k. valid_key (fst k) (snd k)"
    "\<lambda>k. norm_key (fst k) (snd k)" hash_abs
    "\<lambda>m ht k. axutil_hash_get m (Some ht) (fst k) (snd k)" hash_store
    "\<lambda>ht. unat (axutil_hash_count ht)" "2 ^ 31 - 1"
  for f :: "string \<Rightarrow> 32 word \<Rightarrow> 32 word \<times> 32 word"
proof unfold_locales
  fix s :: "'a axutil_hash" and k :: "string \<times> 32 word" and m :: alloc and v :: "'a option"
  assume "hash_inv s \<and> h_func s = f"
  then have inv: "hash_inv s" and f: "h_func s = f" by auto
  show "axutil_hash_get m (Some s) (fst k) (snd k) = Inr (hash_abs s (norm_key (fst k) (snd k)))"
    if "valid_key (fst k) (snd k)"
    using inv that by (rule hash_get_spec)
  show "\<exists>s'. hash_store m s k v = Inr s' \<and> (hash_inv s' \<and> h_func s' = f) \<and>
      hash_abs s' = (hash_abs s)(norm_key (fst k) (snd k) := v)"
    if "valid_key (fst k) (snd k)" "mem_ok m" "unat (axutil_hash_count s) < 2 ^ 31 - 1"
    using hash_set_spec [OF inv that(1,2), of v] that(3) f
    by (auto simp: hash_store_def updates_def axutil_hash_count_def)
  show "finite (dom (hash_abs s)) \<and> unat (axutil_hash_count s) = card (dom (hash_abs s))"
    using count_spec [OF inv] by simp
qed

lemma make_spec:
  assumes "mem_ok malloc"
  shows "\<exists>ht :: 'v axutil_hash. axutil_hash_make malloc = Inr ht \<and> hash_inv ht \<and> hash_abs ht = Map.empty \<and>
    h_func ht = axutil_hashfunc_default \<and> axutil_hash_count ht = 0"
proof -
  let ?ht = "\<lparr>h_array = Some (replicate 16 []), h_count = 0, h_max = 15,
    h_func = axutil_hashfunc_default, h_free = []\<rparr> :: 'v axutil_hash"
  have mk: "(axutil_hash_make malloc :: 'v axutil_hash result) = Inr ?ht"
    using assms by (simp add: axutil_hash_make_def axutil_hash_alloc_array_def mem_okD
        INITIAL_MAX_def)
  have c: "concat (replicate 16 []) = ([] :: 'v hash_entry list)"
    by (simp)
  have "placed_ok 15 (replicate 16 [] :: 'v hash_entry list list)"
    by (simp add: placed_ok_def)
  then have "buckets_ok axutil_hashfunc_default 15 (replicate 16 [] :: 'v hash_entry list list)"
    using c by (simp add: buckets_iff_placed)
  then have "hash_inv ?ht"
    using c by (intro hash_invI [of _ "replicate 16 []" 4])
      (simp_all add: default_hash_ok mask_eq_exp_minus_1)
  moreover have "hash_abs ?ht = Map.empty"
    using c hash_abs_array [of ?ht "replicate 16 []"]
    by (simp add: entry_map_def fun_eq_iff)
  ultimately show ?thesis using mk by (simp add: axutil_hash_count_def)
qed

section \<open>Copy and merge\<close>

lemma all_entries_spec:
  "hash_inv ht \<Longrightarrow> h_array ht = Some A \<Longrightarrow> all_entries ht = Inr (concat A)"
  by (auto elim!: hash_invE simp: all_entries_def)

lemma merge_base_spec:
  assumes "mem_ok malloc"
  shows "h_array res = Some A \<Longrightarrow> placed_ok (h_max res) A \<Longrightarrow>
    \<exists>B. merge_base_loop malloc es res = Inr (res\<lparr>h_array := Some B\<rparr>) \<and>
      placed_ok (h_max res) B \<and> mset (concat B) = mset es + mset (concat A)"
proof (induction es arbitrary: res A)
  case Nil
  then show ?case by (intro exI [of _ A]) (cases res, simp)
next
  case (Cons e es)
  note p = placed_push [OF Cons.prems(2), of e]
  let ?A = "A[unat (e_hash e AND h_max res) := e # A ! unat (e_hash e AND h_max res)]"
  have "merge_base_loop malloc (e # es) res = merge_base_loop malloc es (res\<lparr>h_array := Some ?A\<rparr>)"
    using p(1) Cons.prems(1) assms by (simp add: mem_okD Let_def)
  with Cons.IH [of "res\<lparr>h_array := Some ?A\<rparr>" ?A] p(2,3) show ?case by auto
qed

lemma merge_chain_spec:
  assumes it: "entry_ok f iter"
  shows "\<forall>e \<in> set C. entry_ok f e \<Longrightarrow> merge_chain None iter C =
    (case find_index (\<lambda>e. entry_key e = entry_key iter) C of None \<Rightarrow> None
     | Some j \<Rightarrow> Some (C[j := (C ! j)\<lparr>e_val := e_val iter\<rparr>]))"
proof (induction C)
  case Nil
  then show ?case by simp
next
  case (Cons e C)
  have "e_klen e = e_klen iter \<and>
      take (unat (e_klen iter)) (e_key e) = take (unat (e_klen iter)) (e_key iter) \<longleftrightarrow>
    entry_key e = entry_key iter"
  proof
    assume k: "entry_key e = entry_key iter"
    have "unat (e_klen e) \<le> length (e_key e)" "unat (e_klen iter) \<le> length (e_key iter)"
      using it Cons.prems by (auto simp: entry_ok_def)
    then have "unat (e_klen e) = unat (e_klen iter)"
      using k by (metis entry_key_def length_take min_absorb2)
    then have "e_klen e = e_klen iter" by (simp add: word_unat_eq_iff)
    with k show "e_klen e = e_klen iter \<and>
        take (unat (e_klen iter)) (e_key e) = take (unat (e_klen iter)) (e_key iter)"
      by (simp add: entry_key_def)
  qed (simp add: entry_key_def)
  with Cons show ?case by (auto split: option.splits)
qed

text \<open>
  One step of the overlay loop, on the buckets and on the map: the entry replaces the value of
  its key or is pushed on the front of its chain.
\<close>

lemma merge_overlay_step:
  assumes bk: "buckets_ok f (h_max res) A" and A: "h_array res = Some A"
    and it: "entry_ok f iter" and m: "mem_ok malloc"
  shows "\<exists>B n. merge_overlay_loop malloc None (iter # rest) res =
      merge_overlay_loop malloc None rest (res\<lparr>h_array := Some B, h_count := h_count res + of_nat n\<rparr>) \<and>
    buckets_ok f (h_max res) B \<and> length (concat B) = length (concat A) + n \<and> n \<le> 1 \<and>
    entry_map (concat B) = (entry_map (concat A))(entry_key iter := e_val iter)"
proof -
  let ?i = "unat (e_hash iter AND h_max res)"
  have il: "?i < length A"
    using bk length_update_le [of "e_hash iter" "h_max res"] by (simp add: buckets_ok_def)
  have ok: "\<forall>e \<in> set (A ! ?i). entry_ok f e" using buckets_entry [OF bk il] by blast
  show ?thesis
  proof (cases "find_index (\<lambda>e. entry_key e = entry_key iter) (A ! ?i)")
    case None
    have "e \<notin> set (concat A)" if "entry_key e = entry_key iter" for e
    proof
      assume "e \<in> set (concat A)"
      then obtain k where k: "k < length A" "e \<in> set (A ! k)" by (auto simp: in_set_conv_nth [of _ A])
      then have "k = ?i" using buckets_entry [OF bk] that it by (metis entry_ok_def)
      with k that None show False by (auto simp: find_index_None)
    qed
    then have notin: "entry_key iter \<notin> entry_key ` set (concat A)" by auto
    have "mset (iter # A ! ?i) = add_mset iter (mset (A ! ?i))" by simp
    note ins = bucket_insert [OF bk il refl it notin this]
    show ?thesis
      using None ins A il m merge_chain_spec [OF it ok]
      by (intro exI [of _ "A[?i := iter # A ! ?i]"] exI [of _ 1])
        (simp add: Let_def mem_okD)
  next
    case (Some j)
    then have j: "j < length (A ! ?i)" "entry_key (A ! ?i ! j) = entry_key iter"
      by (simp_all add: find_index_Some)
    obtain x where x: "e_val iter = Some x" using it by (auto simp: entry_ok_def)
    note rp = bucket_replace [OF bk il j(1), of x]
    show ?thesis
      using Some rp A il x j(2) merge_chain_spec [OF it ok]
      by (intro exI [of _ "A[?i := (A ! ?i)[j := (A ! ?i ! j)\<lparr>e_val := e_val iter\<rparr>]]"] exI [of _ 0])
        (simp add: Let_def)
  qed
qed

definition upd_entry :: "(string \<Rightarrow> 'v option) \<Rightarrow> 'v hash_entry \<Rightarrow> string \<Rightarrow> 'v option" where
  "upd_entry m e = m(entry_key e := e_val e)"

lemma foldl_upd_step:
  "foldl upd_entry m (e # es) = foldl upd_entry (m(entry_key e := e_val e)) es"
  by (simp only: foldl.simps upd_entry_def [of m e])

lemma foldl_upd_entry:
  "distinct (map entry_key es) \<Longrightarrow> \<forall>e \<in> set es. e_val e \<noteq> None \<Longrightarrow>
   foldl upd_entry m es = m ++ entry_map es"
proof (induction es arbitrary: m)
  case Nil
  then show ?case by (simp add: entry_map_def map_add_def)
next
  case (Cons e es)
  then have "entry_map es (entry_key e) = None" by (intro entry_map_notin) auto
  with Cons show ?case
    by (auto simp: upd_entry_def map_add_def entry_map_Cons fun_eq_iff split: option.splits)
qed

lemma merge_overlay_spec:
  assumes m: "mem_ok malloc"
  shows "h_array res = Some A \<Longrightarrow> buckets_ok f (h_max res) A \<Longrightarrow> \<forall>e \<in> set es. entry_ok f e \<Longrightarrow>
    \<exists>B n. merge_overlay_loop malloc None es res =
        Inr (res\<lparr>h_array := Some B, h_count := h_count res + of_nat n\<rparr>) \<and>
      buckets_ok f (h_max res) B \<and> length (concat B) = length (concat A) + n \<and> n \<le> length es \<and>
      entry_map (concat B) = foldl upd_entry (entry_map (concat A)) es"
proof (induction es arbitrary: res A)
  case Nil
  then show ?case by (intro exI [of _ A] exI [of _ 0]) simp
next
  case (Cons e es)
  obtain B n where B: "merge_overlay_loop malloc None (e # es) res =
      merge_overlay_loop malloc None es (res\<lparr>h_array := Some B, h_count := h_count res + of_nat n\<rparr>)"
    "buckets_ok f (h_max res) B" "length (concat B) = length (concat A) + n" "n \<le> 1"
    "entry_map (concat B) = (entry_map (concat A))(entry_key e := e_val e)"
    using merge_overlay_step [OF Cons.prems(2,1) _ m] Cons.prems(3) by (metis list.set_intros(1))
  let ?r = "res\<lparr>h_array := Some B, h_count := h_count res + of_nat n\<rparr>"
  obtain C k where "merge_overlay_loop malloc None es ?r =
        Inr (?r\<lparr>h_array := Some C, h_count := h_count ?r + of_nat k\<rparr>)"
      "buckets_ok f (h_max res) C" "length (concat C) = length (concat B) + k" "k \<le> length es"
      "entry_map (concat C) = foldl upd_entry (entry_map (concat B)) es"
    using Cons.IH [of ?r B] B(2) Cons.prems(3) by auto
  then show ?case
    using B by (intro exI [of _ C] exI [of _ "n + k"]) (simp add: add.assoc foldl_upd_step del: foldl.simps merge_overlay_loop.simps)
qed

lemma unat_mask_plus1: "k \<le> 31 \<Longrightarrow> unat (mask k + 1 :: 32 word) = unat (mask k :: 32 word) + 1"
proof -
  assume k: "k \<le> 31"
  have "(2::nat) ^ k \<le> 2 ^ 31" using k by (intro power_increasing) auto
  then show ?thesis using unat_mask_word [OF k] by (simp add: unat_word_ariths)
qed

text \<open>The size that \<^verbatim>\<open>axutil_hash_merge\<close> chooses is a power of two and large enough.\<close>

lemma merge_max:
  fixes cb co mb mo :: "32 word"
  assumes k: "kb \<le> 31" "mb = mask kb" "ko \<le> 31" "mo = mask ko" and c: "cb \<le> mb" "co \<le> mo"
    and sum: "unat cb + unat co < 2 ^ 31"
  defines "mx \<equiv> (if mo > mb then mo else mb)"
  defines "mx' \<equiv> (if cb + co > mx then mx * 2 + 1 else mx)"
  shows "\<exists>k \<le> 31. mx' = mask k" "unat cb + unat co \<le> unat mx'"
proof -
  let ?k = "if mo > mb then ko else kb"
  have mx: "mx = mask ?k" and k31: "?k \<le> 31" using k by (simp_all add: mx_def)
  have us: "unat (cb + co) = unat cb + unat co" using sum by (simp add: unat_word_ariths)
  have le: "unat cb \<le> unat mx" "unat co \<le> unat mx"
    using c by (auto simp: mx_def word_le_nat_alt word_less_nat_alt)
  have "(\<exists>k \<le> 31. mx' = mask k) \<and> unat cb + unat co \<le> unat mx'"
  proof (cases "cb + co > mx")
    case False
    then show ?thesis
      using mx k31 us by (auto simp: mx'_def word_less_nat_alt)
  next
    case True
    then have "unat mx < 2 ^ 31 - 1" using us sum by (simp add: word_less_nat_alt)
    then have "?k \<noteq> 31" using mx k31 unat_mask_word [OF k31] by auto
    then have k31': "?k < 31" using k31 by simp
    then have e: "mx' = mask (Suc ?k)" using True mx mask_step(1) [of ?k] by (simp add: mx'_def)
    have "unat mx' = 2 * 2 ^ ?k - 1" using unat_mask_word [of "Suc ?k"] k31' by (simp only: e) simp
    moreover have "unat mx = 2 ^ ?k - 1" using unat_mask_word [OF k31] by (simp only: mx)
    moreover have "(1::nat) \<le> 2 ^ ?k" by simp
    ultimately have "unat mx' = 2 * unat mx + 1" by linarith
    then show ?thesis using e k31' le by (intro conjI exI [of _ "Suc ?k"]) auto
  qed
  then show "\<exists>k \<le> 31. mx' = mask k" "unat cb + unat co \<le> unat mx'" by auto
qed

lemma overlay_spec:
  assumes inv: "hash_inv ov" "hash_inv base" and fn: "h_func ov = h_func base"
    and m: "mem_ok malloc" and room: "unat (h_count ov) + unat (h_count base) < 2 ^ 31"
  shows "\<exists>res. axutil_hash_overlay malloc ov base = Inr res \<and> hash_inv res \<and>
    hash_abs res = hash_abs base ++ hash_abs ov"
proof -
  obtain A where A: "h_array base = Some A" "buckets_ok (h_func base) (h_max base) A"
    "hash_func_ok (h_func base)" "unat (h_count base) = length (concat A)" "h_count base \<le> h_max base"
    using inv(2) by (auto elim: hash_invE)
  obtain B where B: "h_array ov = Some B" "buckets_ok (h_func base) (h_max ov) B"
    "unat (h_count ov) = length (concat B)" "h_count ov \<le> h_max ov"
    using inv(1) fn by (auto elim: hash_invE)
  obtain kb ko where k: "kb \<le> 31" "h_max base = mask kb" "ko \<le> 31" "h_max ov = mask ko"
    using inv by (auto simp: hash_inv_def)
  let ?mx = "if h_max ov > h_max base then h_max ov else h_max base"
  let ?mx' = "if h_count base + h_count ov > ?mx then ?mx * 2 + 1 else ?mx"
  obtain km where km: "km \<le> 31" "?mx' = mask km" "unat (h_count base) + unat (h_count ov) \<le> unat ?mx'"
    using merge_max [OF k A(5) B(4)] room by (metis add.commute)
  let ?N = "replicate (unat (?mx' + 1)) [] :: 'a hash_entry list list"
  let ?r = "\<lparr>h_array = Some ?N, h_count = h_count base, h_max = ?mx', h_func = h_func base, h_free = []\<rparr>"
  have pl: "placed_ok ?mx' ?N" using unat_mask_plus1 [OF km(1)] km(2) by (intro placed_empty) simp
  obtain C where C: "merge_base_loop malloc (concat A) ?r = Inr (?r\<lparr>h_array := Some C\<rparr>)"
    "placed_ok ?mx' C" "mset (concat C) = mset (concat A)"
    using merge_base_spec [OF m, of ?r ?N "concat A"] pl by auto
  note CA = buckets_mset [OF A(2) C(2,3)]
  have ok: "\<forall>e \<in> set (concat B). entry_ok (h_func base) e" "distinct (map entry_key (concat B))"
    using B(2) by (auto simp: buckets_iff_placed)
  obtain D n where D: "merge_overlay_loop malloc None (concat B) (?r\<lparr>h_array := Some C\<rparr>) =
      Inr (?r\<lparr>h_array := Some D, h_count := h_count base + of_nat n\<rparr>)"
    "buckets_ok (h_func base) ?mx' D" "length (concat D) = length (concat C) + n"
    "n \<le> length (concat B)" "entry_map (concat D) = foldl upd_entry (entry_map (concat C)) (concat B)"
    using merge_overlay_spec [OF m, of "?r\<lparr>h_array := Some C\<rparr>" C "h_func base" "concat B"] CA(1) ok
    by auto
  let ?res = "?r\<lparr>h_array := Some D, h_count := h_count base + of_nat n\<rparr>"
  have "axutil_hash_overlay malloc ov base = Inr ?res"
    using m C(1) D(1) all_entries_spec [OF inv(2) A(1)] all_entries_spec [OF inv(1) B(1)]
    by (simp add: axutil_hash_overlay_def axutil_hash_merge_def mem_okD Let_def
        axutil_hash_alloc_array_def)
  moreover have cnt: "unat (h_count base + of_nat n) = length (concat D)"
    using D(3,4) mset_eq_length [OF C(3)] A(4) B(3) room
    by (simp add: unat_word_ariths unat_of_nat)
  moreover have "h_count base + of_nat n \<le> ?mx'"
    using cnt D(3,4) mset_eq_length [OF C(3)] A(4) B(3) km(3) by (simp add: word_le_nat_alt)
  ultimately show ?thesis
    using D(2,5) CA(2) km A(1,3) B(1) ok hash_invI [of ?res D km]
    by (auto simp: hash_abs_array foldl_upd_entry entry_ok_def)
qed

section \<open>Properties\<close>

text \<open>
  C6 (refinement). Start from a new table and perform any sequence of stores and deletions
  (\<^verbatim>\<open>axutil_hash_set\<close> with a value or with NULL), of fewer than \<open>2 ^ 31\<close> operations, while memory
  lasts. Every operation returns, through every growth of the table; afterwards
  \<^verbatim>\<open>axutil_hash_get\<close> returns for every key what the same sequence leaves in a mathematical map,
  and \<^verbatim>\<open>axutil_hash_count\<close> is the number of keys of that map.
\<close>

theorem hash_table_refines_map:
  assumes "mem_ok malloc" "\<forall>((key, klen), val) \<in> set ops. valid_key key klen"
    and "length ops < 2 ^ 31"
  defines "spec \<equiv> map_stores (\<lambda>(key, klen). norm_key key klen) ops Map.empty"
  shows "\<exists>ht0 ht. axutil_hash_make malloc = Inr ht0 \<and>
    run_stores (hash_store malloc) ops ht0 = Inr ht \<and> hash_inv ht \<and>
    (\<forall>key klen. valid_key key klen \<longrightarrow>
       axutil_hash_get malloc (Some ht) key klen = Inr (spec (norm_key key klen))) \<and>
    unat (axutil_hash_count ht) = card (dom spec)"
proof -
  obtain ht0 :: "'a axutil_hash" where h0: "axutil_hash_make malloc = Inr ht0" "hash_inv ht0"
    "hash_abs ht0 = Map.empty" "h_func ht0 = axutil_hashfunc_default" "axutil_hash_count ht0 = 0"
    using make_spec [OF assms(1)] by blast
  have keys: "\<forall>(k, v) \<in> set ops. valid_key (fst k) (snd k)" using assms(2) by fastforce
  obtain ht where ht: "run_stores (hash_store malloc) ops ht0 = Inr ht" "hash_inv ht"
    "hash_abs ht = map_stores (\<lambda>k. norm_key (fst k) (snd k)) ops Map.empty"
    using hd.history [OF conjI [OF h0(2,4)] keys assms(1)] h0(3,5) assms(3) by auto
  moreover have "spec = hash_abs ht" using ht(3) by (simp add: spec_def case_prod_unfold)
  ultimately show ?thesis
    using h0(1) hash_get_spec count_spec(2) by (metis (no_types, lifting))
qed

lemma hash_built:
  assumes "\<forall>((key, klen), val) \<in> set ops. valid_key key klen" "length ops < 2 ^ 31"
  shows "\<exists>ht :: 'v axutil_hash. hash_inv ht \<and> h_func ht = axutil_hashfunc_default \<and>
    hash_abs ht = map_stores (\<lambda>k. norm_key (fst k) (snd k)) ops Map.empty"
proof -
  obtain ht0 :: "'v axutil_hash" where h0: "hash_inv ht0" "hash_abs ht0 = Map.empty"
    "h_func ht0 = axutil_hashfunc_default" "axutil_hash_count ht0 = 0"
    using make_spec [OF mem_ok_True] by blast
  have keys: "\<forall>(k, v) \<in> set ops. valid_key (fst k) (snd k)" using assms(1) by fastforce
  show ?thesis
    using hd.history [OF conjI [OF h0(1,3)] keys mem_ok_True] h0(2,4) assms(2) by auto
qed

text \<open>A table with two string keys, for the witnesses.\<close>

definition example_ops :: "((string \<times> 32 word) \<times> nat option) list" where
  "example_ops = [((''to'', AXIS2_HASH_KEY_STRING), Some 1), ((''from'', AXIS2_HASH_KEY_STRING), Some 2),
     ((''toto'', 2), Some 3)]"

lemma example_ops_valid: "\<forall>((key, klen), val) \<in> set example_ops. valid_key key klen"
  by (simp add: example_ops_def valid_key_def AXIS2_HASH_KEY_STRING_def c_string_def)

lemma example_ops_map:
  "map_stores (\<lambda>k. norm_key (fst k) (snd k)) example_ops Map.empty = [''from'' \<mapsto> 2, ''to'' \<mapsto> 3]"
  by (auto simp: example_ops_def norm_key_def AXIS2_HASH_KEY_STRING_def c_string_def fun_eq_iff)

lemma hash_example:
  "\<exists>ht :: nat axutil_hash. hash_inv ht \<and> h_func ht = axutil_hashfunc_default \<and>
    hash_abs ht = [''from'' \<mapsto> 2, ''to'' \<mapsto> 3] \<and> unat (h_count ht) = 2"
proof -
  obtain ht :: "nat axutil_hash" where ht: "hash_inv ht" "h_func ht = axutil_hashfunc_default"
    "hash_abs ht = [''from'' \<mapsto> 2, ''to'' \<mapsto> 3]"
    using hash_built [OF example_ops_valid] example_ops_map by (auto simp: example_ops_def)
  then show ?thesis using count_spec(2) [OF ht(1)] by (auto simp: axutil_hash_count_def)
qed

theorem hash_table_refines_map_witness:
  "\<exists>ht0 ht. axutil_hash_make (\<lambda>n. True) = Inr ht0 \<and>
    run_stores (hash_store (\<lambda>n. True)) example_ops ht0 = Inr ht \<and>
    axutil_hash_get (\<lambda>n. True) (Some ht) ''to'' AXIS2_HASH_KEY_STRING = Inr (Some 3)"
proof -
  have v: "valid_key ''to'' AXIS2_HASH_KEY_STRING"
    by (simp add: valid_key_def AXIS2_HASH_KEY_STRING_def c_string_def)
  have "norm_key ''to'' AXIS2_HASH_KEY_STRING = ''to''"
    by (simp add: norm_key_def AXIS2_HASH_KEY_STRING_def c_string_def)
  then show ?thesis
    using hash_table_refines_map [of "\<lambda>n. True" example_ops] example_ops_valid example_ops_map v
    by (fastforce simp: example_ops_def case_prod_unfold)
qed

lemma iterate_once:
  fixes ht :: "'v axutil_hash"
  assumes "hash_inv ht" "malloc 32"
  shows "\<exists>es p. axutil_hash_first_impl malloc (Some ht) False = Inr p \<and>
    (\<forall>(body :: 'v hash_entry \<Rightarrow> 's \<Rightarrow> bool \<times> 's) s.
       hash_foreach ht body p s = Inr (list_loop body es s)) \<and>
    length es = unat (axutil_hash_count ht) \<and> distinct (map entry_key es) \<and>
    (\<forall>k v. hash_abs ht k = Some v \<longleftrightarrow> (\<exists>e \<in> set es. entry_key e = k \<and> e_val e = Some v))"
proof -
  obtain A where A: "h_array ht = Some A" "buckets_ok (h_func ht) (h_max ht) A"
    "unat (h_count ht) = length (concat A)" "length A = unat (h_max ht) + 1"
    using assms(1) by (auto elim: hash_invE)
  obtain p where p: "axutil_hash_first_impl malloc (Some ht) False = Inr p"
    "(case p of None \<Rightarrow> [] | Some hi \<Rightarrow> axutil_hash_this hi # hi_rest ht hi) = concat A"
    using first_spec [OF A(1,4)] assms(2) by blast
  have d: "distinct (map entry_key (concat A))" using A(2) by (simp add: buckets_ok_def)
  have "hash_abs ht k = Some v \<longleftrightarrow> (\<exists>e \<in> set (concat A). entry_key e = k \<and> e_val e = Some v)" for k v
    using entry_map_in [OF d] entry_map_notin [of k "concat A"] hash_abs_array [OF A(1)]
    by (metis imageE option.distinct(1))
  moreover have "hash_foreach ht body p s = Inr (list_loop body (concat A) s)"
    for body :: "'v hash_entry \<Rightarrow> 's \<Rightarrow> bool \<times> 's" and s
    using foreach_spec [OF A(1,4), of body p s] p(2) by simp
  ultimately show ?thesis
    using p d A(3)
    by (intro exI [of _ "concat A"] exI [of _ p]) (simp add: axutil_hash_count_def)
qed


lemma list_loop_count: "list_loop (\<lambda>e n. (False, Suc n)) es n = n + length es"
  by (induction es arbitrary: n) auto


text \<open>
  \<^verbatim>\<open>axutil_hash_overlay\<close> of two tables with the same hash function returns, when
  memory lasts and together they hold fewer than \<open>2 ^ 31\<close> entries, a well-formed table in which
  an entry of the overlay hides the one of the base with the same key and every other entry of
  both is found; neither table is changed.
\<close>

theorem hash_overlay_shadows:
  assumes "hash_inv ov" "hash_inv base" "h_func ov = h_func base" "mem_ok malloc"
    and "unat (axutil_hash_count ov) + unat (axutil_hash_count base) < 2 ^ 31"
  shows "\<exists>res. axutil_hash_overlay malloc ov base = Inr res \<and> hash_inv res \<and>
    unat (axutil_hash_count res) = card (dom (hash_abs ov) \<union> dom (hash_abs base)) \<and>
    (\<forall>key klen. valid_key key klen \<longrightarrow> axutil_hash_get malloc (Some res) key klen =
       (case hash_abs ov (norm_key key klen) of
          Some v \<Rightarrow> Inr (Some v) | None \<Rightarrow> Inr (hash_abs base (norm_key key klen))))"
proof -
  obtain res where res: "axutil_hash_overlay malloc ov base = Inr res" "hash_inv res"
    "hash_abs res = hash_abs base ++ hash_abs ov"
    using overlay_spec [OF assms(1-4)] assms(5) by (auto simp: axutil_hash_count_def)
  moreover have "unat (axutil_hash_count res) = card (dom (hash_abs ov) \<union> dom (hash_abs base))"
    using count_spec(2) [OF res(2)] by (simp add: res(3))
  ultimately show ?thesis
    using hash_get_spec [OF res(2)] by (auto simp: map_add_def split: option.splits)
qed

theorem hash_overlay_shadows_witness:
  "\<exists>ht :: nat axutil_hash. hash_abs ht = [''from'' \<mapsto> 2, ''to'' \<mapsto> 3] \<and>
    (\<exists>res. axutil_hash_overlay (\<lambda>n. True) ht ht = Inr res \<and> unat (axutil_hash_count res) = 2)"
proof -
  obtain ht :: "nat axutil_hash" where ht: "hash_inv ht" "hash_abs ht = [''from'' \<mapsto> 2, ''to'' \<mapsto> 3]"
    "unat (h_count ht) = 2"
    using hash_example by blast
  then show ?thesis
    using hash_overlay_shadows [OF ht(1) ht(1) refl mem_ok_True] by (auto simp: axutil_hash_count_def)
qed

text \<open>
  \<^verbatim>\<open>axutil_hash_copy\<close> of a well-formed table stays within the block it
  allocates and returns a well-formed table with the same contents and the same count.
\<close>

theorem hash_copy_equal:
  assumes "hash_inv ht" "mem_ok malloc"
  shows "\<exists>ht'. axutil_hash_copy malloc ht = Inr ht' \<and> hash_inv ht' \<and> hash_abs ht' = hash_abs ht \<and>
    axutil_hash_count ht' = axutil_hash_count ht"
proof -
  obtain A where A: "h_array ht = Some A" "buckets_ok (h_func ht) (h_max ht) A"
    "hash_func_ok (h_func ht)" "unat (h_count ht) = length (concat A)" "h_count ht \<le> h_max ht"
    "length A = unat (h_max ht) + 1"
    using assms(1) by (auto elim: hash_invE)
  obtain k where k: "k \<le> 31" "h_max ht = mask k" using assms(1) by (auto simp: hash_inv_def)
  let ?c = "\<lparr>h_array = Some A, h_count = h_count ht, h_max = h_max ht, h_func = h_func ht, h_free = []\<rparr>"
  have "axutil_hash_copy malloc ht = Inr ?c"
    using A assms(2) by (simp add: axutil_hash_copy_def mem_okD)
  moreover have "hash_inv ?c" using A k by (intro hash_invI [of _ A k]) auto
  ultimately show ?thesis using A(1) by (simp add: hash_abs_array axutil_hash_count_def)
qed

theorem hash_copy_equal_witness:
  "\<exists>ht ht' :: nat axutil_hash. hash_abs ht = [''from'' \<mapsto> 2, ''to'' \<mapsto> 3] \<and>
    axutil_hash_copy (\<lambda>n. True) ht = Inr ht' \<and> hash_abs ht' = [''from'' \<mapsto> 2, ''to'' \<mapsto> 3]"
proof -
  obtain ht :: "nat axutil_hash" where "hash_inv ht" "hash_abs ht = [''from'' \<mapsto> 2, ''to'' \<mapsto> 3]"
    using hash_example by blast
  then show ?thesis using hash_copy_equal [of ht "\<lambda>n. True"] by auto
qed

end
