(* ===== verification/Msg_Ctx.thy ===== *)
theory Msg_Ctx
  imports Phase Hash_Table
begin

text \<open>
  The message context of \<^verbatim>\<open>src/core/context/msg_ctx.c\<close> with the structures the engine reads
  through it: message information headers (\<^verbatim>\<open>src/core/addr/msg_info_headers.c\<close>), the operation
  and its message flows (\<^verbatim>\<open>src/core/description/op.c\<close>, \<^verbatim>\<open>msg.c\<close>), the operation context, the
  configuration and its phases (\<^verbatim>\<open>src/core/engine/conf.c\<close>), and the transport-out description.
  A structure reached through a pointer that the engine never compares is kept by value; NULL is
  \<open>None\<close>. The context is an extensible record, so that a client can add fields of its own.
\<close>

section \<open>Contexts and their properties\<close>

text \<open>
  \<^verbatim>\<open>struct axis2_ctx\<close> (\<^verbatim>\<open>src/core/context/ctx.c\<close>), the base of every context: a table from keys to
  property pointers.
\<close>

record axis2_ctx =
  property_map :: "nat axutil_hash option"

definition sizeof_ctx :: nat where "sizeof_ctx = 16"

definition axis2_ctx_create :: "alloc \<Rightarrow> axis2_ctx result" where
  "axis2_ctx_create malloc =
     (if \<not> malloc sizeof_ctx then Inl NO_MEMORY
      else
        (case axutil_hash_make malloc of
           Inl e \<Rightarrow> Inl e
         | Inr ht \<Rightarrow> Inr \<lparr>property_map = Some ht\<rparr>))"

text \<open>
  \<^verbatim>\<open>axis2_ctx_set_property\<close> frees a property that it replaces, which no value of the model shows,
  and returns success also when the table could not store the value. The lookup before it does
  not change the table.
\<close>

definition axis2_ctx_set_property :: "alloc \<Rightarrow> axis2_ctx \<Rightarrow> string \<Rightarrow> ptr \<Rightarrow> axis2_ctx result" where
  "axis2_ctx_set_property malloc ctx key value =
     (case property_map ctx of
        None \<Rightarrow> Inr ctx
      | Some ht \<Rightarrow>
          (case axutil_hash_set malloc (Some ht) key AXIS2_HASH_KEY_STRING value of
             Inl e \<Rightarrow> if e = NO_MEMORY then Inr ctx else Inl e
           | Inr p \<Rightarrow> Inr (ctx\<lparr>property_map := p\<rparr>)))"

definition axis2_ctx_get_property :: "alloc \<Rightarrow> axis2_ctx \<Rightarrow> string \<Rightarrow> ptr result" where
  "axis2_ctx_get_property malloc ctx key =
     (case property_map ctx of
        None \<Rightarrow> Inr None
      | Some ht \<Rightarrow> axutil_hash_get malloc (Some ht) key AXIS2_HASH_KEY_STRING)"

section \<open>Structures reached through the context\<close>

text \<open>A flow is an array list of phases.\<close>

type_synonym flow = "axis2_phase array_list"

text \<open>
  \<^verbatim>\<open>struct axis2_msg\<close> (its flow) and \<^verbatim>\<open>struct axis2_op\<close>: \<open>op_base\<close> is the description base with
  its children, the messages of the operation by key.
\<close>

datatype msg_key = AXIS2_MSG_IN | AXIS2_MSG_OUT | AXIS2_MSG_IN_FAULT | AXIS2_MSG_OUT_FAULT

record axis2_msg =
  msg_flow :: "flow option"

record axis2_op =
  op_qname :: string
  op_base :: "(msg_key \<Rightarrow> axis2_msg option) option"
  op_msg_recv :: ptr

record axis2_svc_grp_ctx =
  sgc_base :: "axis2_ctx option"
  sgc_id :: "string option"

record axis2_svc_ctx =
  sc_base :: "axis2_ctx option"
  sc_parent :: "axis2_svc_grp_ctx option"
  sc_svc :: ptr

text \<open>The contexts of the messages of an operation, by the label of the message, are addresses.\<close>

record axis2_op_ctx =
  oc_base :: "axis2_ctx option"
  oc_op :: "axis2_op option"
  oc_parent :: "axis2_svc_ctx option"
  oc_msg_ctx_array :: "ptr list"
  oc_is_complete :: bool

record axis2_conf =
  conf_in_phases :: "flow option"
  conf_out_phases :: "flow option"
  conf_out_fault_phases :: "flow option"

record axis2_conf_ctx =
  cc_base :: "axis2_ctx option"
  cc_conf :: "axis2_conf option"

record axis2_transport_out_desc =
  to_sender :: ptr

definition axis2_desc_get_child ::
    "(msg_key \<Rightarrow> axis2_msg option) \<Rightarrow> msg_key \<Rightarrow> axis2_msg option" where
  "axis2_desc_get_child base key = base key"

definition axis2_msg_get_flow :: "axis2_msg \<Rightarrow> flow option" where
  "axis2_msg_get_flow m = msg_flow m"

definition op_get_flow :: "msg_key \<Rightarrow> 'e axis2_op_scheme \<Rightarrow> flow option" where
  "op_get_flow key op =
     (case op_base op of
        None \<Rightarrow> None
      | Some base \<Rightarrow>
          (case axis2_desc_get_child base key of None \<Rightarrow> None | Some m \<Rightarrow> axis2_msg_get_flow m))"

definition axis2_op_get_in_flow :: "'e axis2_op_scheme \<Rightarrow> flow option" where
  "axis2_op_get_in_flow op = op_get_flow AXIS2_MSG_IN op"

definition axis2_op_get_out_flow :: "'e axis2_op_scheme \<Rightarrow> flow option" where
  "axis2_op_get_out_flow op = op_get_flow AXIS2_MSG_OUT op"

definition axis2_op_get_fault_in_flow :: "'e axis2_op_scheme \<Rightarrow> flow option" where
  "axis2_op_get_fault_in_flow op = op_get_flow AXIS2_MSG_IN_FAULT op"

definition axis2_op_get_fault_out_flow :: "'e axis2_op_scheme \<Rightarrow> flow option" where
  "axis2_op_get_fault_out_flow op = op_get_flow AXIS2_MSG_OUT_FAULT op"

definition axis2_op_get_msg_recv :: "'e axis2_op_scheme \<Rightarrow> ptr" where
  "axis2_op_get_msg_recv op = op_msg_recv op"

definition axis2_op_ctx_get_op :: "axis2_op_ctx \<Rightarrow> axis2_op option" where
  "axis2_op_ctx_get_op oc = oc_op oc"

definition axis2_conf_get_in_phases_upto_and_including_post_dispatch ::
    "'e axis2_conf_scheme \<Rightarrow> flow option" where
  "axis2_conf_get_in_phases_upto_and_including_post_dispatch conf = conf_in_phases conf"

definition axis2_conf_get_out_phases :: "'e axis2_conf_scheme \<Rightarrow> flow option" where
  "axis2_conf_get_out_phases conf = conf_out_phases conf"

definition axis2_conf_get_out_fault_flow :: "'e axis2_conf_scheme \<Rightarrow> flow option" where
  "axis2_conf_get_out_fault_flow conf = conf_out_fault_phases conf"

definition axis2_conf_ctx_get_conf :: "axis2_conf_ctx \<Rightarrow> axis2_conf option" where
  "axis2_conf_ctx_get_conf cc = cc_conf cc"

definition axis2_transport_out_desc_get_sender :: "axis2_transport_out_desc \<Rightarrow> ptr" where
  "axis2_transport_out_desc_get_sender t = to_sender t"

lemmas desc_defs = axis2_desc_get_child_def axis2_msg_get_flow_def op_get_flow_def
  axis2_op_get_in_flow_def axis2_op_get_out_flow_def axis2_op_get_fault_in_flow_def
  axis2_op_get_fault_out_flow_def axis2_op_get_msg_recv_def axis2_op_ctx_get_op_def
  axis2_conf_get_in_phases_upto_and_including_post_dispatch_def axis2_conf_get_out_phases_def
  axis2_conf_get_out_fault_flow_def axis2_conf_ctx_get_conf_def
  axis2_transport_out_desc_get_sender_def

section \<open>Message information headers\<close>

record axis2_endpoint_ref =
  epr_address :: "string option"

record axis2_msg_info_headers =
  mih_to :: "axis2_endpoint_ref option"
  mih_from :: "axis2_endpoint_ref option"
  mih_reply_to :: "axis2_endpoint_ref option"
  mih_fault_to :: "axis2_endpoint_ref option"
  mih_action :: "string option"
  mih_message_id :: "string option"
  mih_relates_to :: "(string option \<times> string) option"

definition sizeof_msg_info_headers :: nat where "sizeof_msg_info_headers = 88"

definition axis2_msg_info_headers_create ::
    "alloc \<Rightarrow> axis2_endpoint_ref option \<Rightarrow> string option \<Rightarrow> axis2_msg_info_headers result" where
  "axis2_msg_info_headers_create malloc to action =
     (if \<not> malloc sizeof_msg_info_headers then Inl NO_MEMORY
      else
        (case action of
           Some a \<Rightarrow>
             if \<not> malloc (length a + 1) then Inl NO_MEMORY
             else Inr \<lparr>mih_to = to, mih_from = None, mih_reply_to = None, mih_fault_to = None,
                       mih_action = Some a, mih_message_id = None, mih_relates_to = None\<rparr>
         | None \<Rightarrow> Inr \<lparr>mih_to = to, mih_from = None, mih_reply_to = None, mih_fault_to = None,
                       mih_action = None, mih_message_id = None, mih_relates_to = None\<rparr>))"

definition axis2_msg_info_headers_set_to ::
    "axis2_msg_info_headers \<Rightarrow> axis2_endpoint_ref option \<Rightarrow> axis2_msg_info_headers" where
  "axis2_msg_info_headers_set_to h to = h\<lparr>mih_to := to\<rparr>"

definition axis2_msg_info_headers_set_fault_to ::
    "axis2_msg_info_headers \<Rightarrow> axis2_endpoint_ref option \<Rightarrow> axis2_msg_info_headers" where
  "axis2_msg_info_headers_set_fault_to h e = h\<lparr>mih_fault_to := e\<rparr>"

definition axis2_msg_info_headers_set_reply_to ::
    "axis2_msg_info_headers \<Rightarrow> axis2_endpoint_ref option \<Rightarrow> axis2_msg_info_headers" where
  "axis2_msg_info_headers_set_reply_to h e = h\<lparr>mih_reply_to := e\<rparr>"

definition axis2_msg_info_headers_set_from ::
    "axis2_msg_info_headers \<Rightarrow> axis2_endpoint_ref option \<Rightarrow> axis2_msg_info_headers" where
  "axis2_msg_info_headers_set_from h e = h\<lparr>mih_from := e\<rparr>"

text \<open>
  The action is duplicated; when \<^verbatim>\<open>axutil_strdup\<close> fails the action is left NULL and success is
  returned.
\<close>

definition axis2_msg_info_headers_set_action ::
    "alloc \<Rightarrow> axis2_msg_info_headers \<Rightarrow> string option \<Rightarrow> axis2_msg_info_headers" where
  "axis2_msg_info_headers_set_action malloc h action =
     (case action of
        None \<Rightarrow> h\<lparr>mih_action := None\<rparr>
      | Some a \<Rightarrow> if malloc (length a + 1) then h\<lparr>mih_action := Some a\<rparr> else h\<lparr>mih_action := None\<rparr>)"

definition AXIS2_MESSAGE_ID_PREFIX :: string where
  "AXIS2_MESSAGE_ID_PREFIX = ''urn:uuid:''"

definition axis2_msg_info_headers_set_message_id ::
    "alloc \<Rightarrow> axis2_msg_info_headers \<Rightarrow> string option \<Rightarrow> axis2_status \<times> axis2_msg_info_headers" where
  "axis2_msg_info_headers_set_message_id malloc h message_id =
     (case message_id of
        None \<Rightarrow> (AXIS2_SUCCESS, h\<lparr>mih_message_id := None\<rparr>)
      | Some i \<Rightarrow>
          if malloc (length AXIS2_MESSAGE_ID_PREFIX + length i + 1)
          then (AXIS2_SUCCESS, h\<lparr>mih_message_id := Some (AXIS2_MESSAGE_ID_PREFIX @ i)\<rparr>)
          else (AXIS2_FAILURE, h\<lparr>mih_message_id := None\<rparr>))"

definition axis2_msg_info_headers_set_in_message_id ::
    "alloc \<Rightarrow> axis2_msg_info_headers \<Rightarrow> string option \<Rightarrow> axis2_status \<times> axis2_msg_info_headers" where
  "axis2_msg_info_headers_set_in_message_id malloc h message_id =
     (case message_id of
        None \<Rightarrow> (AXIS2_SUCCESS, h\<lparr>mih_message_id := None\<rparr>)
      | Some i \<Rightarrow>
          if malloc (length i + 1) then (AXIS2_SUCCESS, h\<lparr>mih_message_id := Some i\<rparr>)
          else (AXIS2_FAILURE, h\<lparr>mih_message_id := None\<rparr>))"

definition axis2_msg_info_headers_set_relates_to ::
    "axis2_msg_info_headers \<Rightarrow> (string option \<times> string) option \<Rightarrow> axis2_msg_info_headers" where
  "axis2_msg_info_headers_set_relates_to h r = h\<lparr>mih_relates_to := r\<rparr>"

section \<open>SOAP envelope\<close>

text \<open>
  What the engine reads of an envelope: its version and the header blocks, kept in a hash table,
  each with the values of \<^verbatim>\<open>axiom_soap_header_block_is_processed\<close>, \<^verbatim>\<open>_get_must_understand\<close> and
  \<^verbatim>\<open>_get_role\<close>. The object model behind them is not part of this theory.
\<close>

datatype soap_version = AXIOM_SOAP11 | AXIOM_SOAP12

record header_block =
  hb_processed :: bool
  hb_must_understand :: bool
  hb_role :: "string option"

record soap_header =
  sh_header_blocks :: "header_block axutil_hash option"

record soap_envelope =
  env_version :: soap_version
  env_header :: "soap_header option"

section \<open>The message context\<close>

text \<open>\<^verbatim>\<open>struct axis2_msg_ctx\<close>, the fields the engine and the fault path use.\<close>

record msg_ctx =
  mc_base :: axis2_ctx
  mc_parent :: "axis2_op_ctx option"
  process_fault :: bool
  msg_info_headers :: "axis2_msg_info_headers option"
  op_ctx :: "axis2_op_ctx option"
  svc_ctx :: "axis2_svc_ctx option"
  svc_grp_ctx :: "axis2_svc_grp_ctx option"
  conf_ctx :: "axis2_conf_ctx option"
  mc_op :: "axis2_op option"
  mc_op_qname :: "string option"
  transport_in_desc :: ptr
  transport_out_desc :: "axis2_transport_out_desc option"
  soap_envelope_of :: "soap_envelope option"
  fault_soap_envelope :: "soap_envelope option"
  server_side :: bool
  paused :: bool
  paused_phase_name :: "string option"
  paused_handler_name :: "string option"
  doing_rest :: bool
  is_soap_11 :: bool
  execution_chain :: "nat array_list option"
  current_handler_index :: int
  paused_handler_index :: int
  current_phase_index :: int
  paused_phase_index :: int
  transport_out_stream :: ptr
  out_transport_info :: ptr

definition sizeof_msg_ctx :: nat where "sizeof_msg_ctx = 528"

text \<open>
  \<^verbatim>\<open>axis2_msg_ctx_create\<close>; the two transport enumeration fields, read only by the transports, are
  left out.
\<close>

definition axis2_msg_ctx_create ::
    "alloc \<Rightarrow> axis2_conf_ctx option \<Rightarrow> ptr \<Rightarrow> axis2_transport_out_desc option \<Rightarrow> msg_ctx result" where
  "axis2_msg_ctx_create malloc cc tin tout =
     (if \<not> malloc sizeof_msg_ctx then Inl NO_MEMORY
      else
        (case axis2_ctx_create malloc of
           Inl e \<Rightarrow> Inl e
         | Inr base \<Rightarrow>
             (case axis2_msg_info_headers_create malloc None None of
                Inl e \<Rightarrow> Inl e
              | Inr h \<Rightarrow>
                  Inr \<lparr>mc_base = base, mc_parent = None, process_fault = False,
                    msg_info_headers = Some h, op_ctx = None, svc_ctx = None, svc_grp_ctx = None,
                    conf_ctx = cc, mc_op = None, mc_op_qname = None, transport_in_desc = tin,
                    transport_out_desc = tout, soap_envelope_of = None, fault_soap_envelope = None,
                    server_side = False, paused = False, paused_phase_name = None,
                    paused_handler_name = None, doing_rest = False, is_soap_11 = False,
                    execution_chain = None, current_handler_index = -1,
                    paused_handler_index = -1, current_phase_index = 0, paused_phase_index = 0,
                    transport_out_stream = None, out_transport_info = None\<rparr>)))"

section \<open>Getters and setters of the message context\<close>

text \<open>The setters return success on a context that is not NULL; they are functions on contexts.\<close>

definition axis2_msg_ctx_get_op_ctx :: "'e msg_ctx_scheme \<Rightarrow> axis2_op_ctx option" where
  "axis2_msg_ctx_get_op_ctx mc = op_ctx mc"

definition axis2_msg_ctx_get_conf_ctx :: "'e msg_ctx_scheme \<Rightarrow> axis2_conf_ctx option" where
  "axis2_msg_ctx_get_conf_ctx mc = conf_ctx mc"

definition axis2_msg_ctx_get_transport_out_desc ::
    "'e msg_ctx_scheme \<Rightarrow> axis2_transport_out_desc option" where
  "axis2_msg_ctx_get_transport_out_desc mc = transport_out_desc mc"

definition axis2_msg_ctx_get_server_side :: "'e msg_ctx_scheme \<Rightarrow> bool" where
  "axis2_msg_ctx_get_server_side mc = server_side mc"

definition axis2_msg_ctx_set_server_side :: "'e msg_ctx_scheme \<Rightarrow> bool \<Rightarrow> 'e msg_ctx_scheme" where
  "axis2_msg_ctx_set_server_side mc b = mc\<lparr>server_side := b\<rparr>"

definition axis2_msg_ctx_is_paused :: "'e msg_ctx_scheme \<Rightarrow> bool" where
  "axis2_msg_ctx_is_paused mc = paused mc"

definition axis2_msg_ctx_set_paused :: "'e msg_ctx_scheme \<Rightarrow> bool \<Rightarrow> 'e msg_ctx_scheme" where
  "axis2_msg_ctx_set_paused mc b =
     mc\<lparr>paused := b, paused_phase_index := current_phase_index mc\<rparr>"

definition axis2_msg_ctx_get_paused_phase_name :: "'e msg_ctx_scheme \<Rightarrow> string option" where
  "axis2_msg_ctx_get_paused_phase_name mc = paused_phase_name mc"

definition axis2_msg_ctx_set_paused_phase_name ::
    "'e msg_ctx_scheme \<Rightarrow> string option \<Rightarrow> 'e msg_ctx_scheme" where
  "axis2_msg_ctx_set_paused_phase_name mc n = mc\<lparr>paused_phase_name := n\<rparr>"

definition axis2_msg_ctx_set_execution_chain ::
    "'e msg_ctx_scheme \<Rightarrow> nat array_list option \<Rightarrow> 'e msg_ctx_scheme" where
  "axis2_msg_ctx_set_execution_chain mc chain =
     mc\<lparr>execution_chain := chain, current_handler_index := -1, paused_handler_index := -1,
        current_phase_index := 0\<rparr>"

definition axis2_msg_ctx_get_current_handler_index :: "'e msg_ctx_scheme \<Rightarrow> int" where
  "axis2_msg_ctx_get_current_handler_index mc = current_handler_index mc"

text \<open>
  \<^verbatim>\<open>axis2_msg_ctx_set_current_handler_index\<close> also records the name of the handler at that
  position of the execution chain, when there is one.
\<close>

definition axis2_msg_ctx_set_current_handler_index ::
    "handler_store \<Rightarrow> 'e msg_ctx_scheme \<Rightarrow> int \<Rightarrow> 'e msg_ctx_scheme" where
  "axis2_msg_ctx_set_current_handler_index hs mc index =
     (let mc1 = mc\<lparr>current_handler_index := index\<rparr> in
      case execution_chain mc of
        None \<Rightarrow> mc1
      | Some chain \<Rightarrow>
          (case ret_ptr (axutil_array_list_get (Some chain) index) of
             None \<Rightarrow> mc1
           | Some handler \<Rightarrow> mc1\<lparr>paused_handler_name := axis2_handler_get_name hs handler\<rparr>))"

definition axis2_msg_ctx_get_process_fault :: "'e msg_ctx_scheme \<Rightarrow> bool" where
  "axis2_msg_ctx_get_process_fault mc = process_fault mc"

definition axis2_msg_ctx_set_process_fault :: "'e msg_ctx_scheme \<Rightarrow> bool \<Rightarrow> 'e msg_ctx_scheme" where
  "axis2_msg_ctx_set_process_fault mc b = mc\<lparr>process_fault := b\<rparr>"

definition axis2_msg_ctx_get_is_soap_11 :: "'e msg_ctx_scheme \<Rightarrow> bool" where
  "axis2_msg_ctx_get_is_soap_11 mc = is_soap_11 mc"

definition axis2_msg_ctx_get_soap_envelope :: "'e msg_ctx_scheme \<Rightarrow> soap_envelope option" where
  "axis2_msg_ctx_get_soap_envelope mc = soap_envelope_of mc"

definition axis2_msg_ctx_set_soap_envelope ::
    "'e msg_ctx_scheme \<Rightarrow> soap_envelope option \<Rightarrow> 'e msg_ctx_scheme" where
  "axis2_msg_ctx_set_soap_envelope mc e =
     (case e of
        Some env \<Rightarrow> mc\<lparr>is_soap_11 := env_version env \<noteq> AXIOM_SOAP12, soap_envelope_of := Some env\<rparr>
      | None \<Rightarrow> mc\<lparr>soap_envelope_of := None\<rparr>)"

definition axis2_msg_ctx_get_fault_soap_envelope :: "'e msg_ctx_scheme \<Rightarrow> soap_envelope option" where
  "axis2_msg_ctx_get_fault_soap_envelope mc = fault_soap_envelope mc"

definition axis2_msg_ctx_set_fault_soap_envelope ::
    "'e msg_ctx_scheme \<Rightarrow> soap_envelope option \<Rightarrow> 'e msg_ctx_scheme" where
  "axis2_msg_ctx_set_fault_soap_envelope mc e = mc\<lparr>fault_soap_envelope := e\<rparr>"

definition axis2_msg_ctx_set_op :: "'e msg_ctx_scheme \<Rightarrow> axis2_op option \<Rightarrow> 'e msg_ctx_scheme" where
  "axis2_msg_ctx_set_op mc p =
     (case p of None \<Rightarrow> mc | Some op \<Rightarrow> mc\<lparr>mc_op := Some op, mc_op_qname := Some (op_qname op)\<rparr>)"

text \<open>
  \<^verbatim>\<open>axis2_msg_ctx_set_op_ctx\<close> stores a non-NULL context, gives it the service context as parent
  when it has none, and copies its operation.
\<close>

definition axis2_msg_ctx_set_op_ctx ::
    "'e msg_ctx_scheme \<Rightarrow> axis2_op_ctx option \<Rightarrow> 'e msg_ctx_scheme" where
  "axis2_msg_ctx_set_op_ctx mc p =
     (case p of
        None \<Rightarrow> mc
      | Some oc0 \<Rightarrow>
          let oc = (if svc_ctx mc \<noteq> None \<and> oc_parent oc0 = None
                    then oc0\<lparr>oc_parent := svc_ctx mc\<rparr> else oc0) in
          axis2_msg_ctx_set_op (mc\<lparr>op_ctx := Some oc, mc_parent := Some oc\<rparr>)
            (axis2_op_ctx_get_op oc))"

text \<open>
  The addressing accessors work on the message information headers when there are any;
  \<^verbatim>\<open>axis2_msg_ctx_set_fault_to\<close> calls \<^verbatim>\<open>axis2_msg_info_headers_set_to\<close>.
\<close>

definition axis2_msg_ctx_get_fault_to :: "'e msg_ctx_scheme \<Rightarrow> axis2_endpoint_ref option" where
  "axis2_msg_ctx_get_fault_to mc = Option.bind (msg_info_headers mc) mih_fault_to"

definition axis2_msg_ctx_get_reply_to :: "'e msg_ctx_scheme \<Rightarrow> axis2_endpoint_ref option" where
  "axis2_msg_ctx_get_reply_to mc = Option.bind (msg_info_headers mc) mih_reply_to"

definition axis2_msg_ctx_get_to :: "'e msg_ctx_scheme \<Rightarrow> axis2_endpoint_ref option" where
  "axis2_msg_ctx_get_to mc = Option.bind (msg_info_headers mc) mih_to"

definition axis2_msg_ctx_get_msg_id :: "'e msg_ctx_scheme \<Rightarrow> string option" where
  "axis2_msg_ctx_get_msg_id mc = Option.bind (msg_info_headers mc) mih_message_id"

definition axis2_msg_ctx_get_wsa_action :: "'e msg_ctx_scheme \<Rightarrow> string option" where
  "axis2_msg_ctx_get_wsa_action mc = Option.bind (msg_info_headers mc) mih_action"

definition axis2_msg_ctx_set_fault_to ::
    "'e msg_ctx_scheme \<Rightarrow> axis2_endpoint_ref option \<Rightarrow> 'e msg_ctx_scheme" where
  "axis2_msg_ctx_set_fault_to mc r =
     (case msg_info_headers mc of
        None \<Rightarrow> mc
      | Some h \<Rightarrow> mc\<lparr>msg_info_headers := Some (axis2_msg_info_headers_set_to h r)\<rparr>)"

definition axis2_msg_ctx_set_wsa_action ::
    "alloc \<Rightarrow> 'e msg_ctx_scheme \<Rightarrow> string option \<Rightarrow> 'e msg_ctx_scheme" where
  "axis2_msg_ctx_set_wsa_action malloc mc action =
     (case msg_info_headers mc of
        None \<Rightarrow> mc
      | Some h \<Rightarrow> mc\<lparr>msg_info_headers := Some (axis2_msg_info_headers_set_action malloc h action)\<rparr>)"

definition axis2_msg_ctx_set_message_id ::
    "alloc \<Rightarrow> 'e msg_ctx_scheme \<Rightarrow> string option \<Rightarrow> axis2_status \<times> 'e msg_ctx_scheme" where
  "axis2_msg_ctx_set_message_id malloc mc i =
     (case msg_info_headers mc of
        None \<Rightarrow> (AXIS2_SUCCESS, mc)
      | Some h \<Rightarrow>
          (case axis2_msg_info_headers_set_message_id malloc h i of
             (st, h') \<Rightarrow> (st, mc\<lparr>msg_info_headers := Some h'\<rparr>)))"

definition axis2_msg_ctx_set_relates_to ::
    "'e msg_ctx_scheme \<Rightarrow> (string option \<times> string) option \<Rightarrow> 'e msg_ctx_scheme" where
  "axis2_msg_ctx_set_relates_to mc r =
     (case msg_info_headers mc of
        None \<Rightarrow> mc
      | Some h \<Rightarrow> mc\<lparr>msg_info_headers := Some (axis2_msg_info_headers_set_relates_to h r)\<rparr>)"

definition axis2_msg_ctx_set_doing_rest :: "'e msg_ctx_scheme \<Rightarrow> bool \<Rightarrow> 'e msg_ctx_scheme" where
  "axis2_msg_ctx_set_doing_rest mc b = mc\<lparr>doing_rest := b\<rparr>"

definition axis2_msg_ctx_set_transport_out_stream :: "'e msg_ctx_scheme \<Rightarrow> ptr \<Rightarrow> 'e msg_ctx_scheme" where
  "axis2_msg_ctx_set_transport_out_stream mc p = mc\<lparr>transport_out_stream := p\<rparr>"

definition axis2_msg_ctx_set_out_transport_info :: "'e msg_ctx_scheme \<Rightarrow> ptr \<Rightarrow> 'e msg_ctx_scheme" where
  "axis2_msg_ctx_set_out_transport_info mc p = mc\<lparr>out_transport_info := p\<rparr>"

text \<open>
  The properties of a context. \<^verbatim>\<open>axis2_msg_ctx_get_property\<close> looks in the message context and then
  in the operation, service, service group and configuration contexts.
\<close>

definition axis2_msg_ctx_set_property ::
    "alloc \<Rightarrow> 'e msg_ctx_scheme \<Rightarrow> string \<Rightarrow> ptr \<Rightarrow> 'e msg_ctx_scheme result" where
  "axis2_msg_ctx_set_property malloc mc key value =
     (case axis2_ctx_set_property malloc (mc_base mc) key value of
        Inl e \<Rightarrow> Inl e | Inr base \<Rightarrow> Inr (mc\<lparr>mc_base := base\<rparr>))"

definition search_base ::
    "alloc \<Rightarrow> string \<Rightarrow> axis2_ctx option \<Rightarrow> ptr result \<Rightarrow> ptr result" where
  "search_base malloc key base otherwise =
     (case base of
        None \<Rightarrow> otherwise
      | Some ctx \<Rightarrow>
          (case axis2_ctx_get_property malloc ctx key of
             Inl e \<Rightarrow> Inl e
           | Inr (Some obj) \<Rightarrow> Inr (Some obj)
           | Inr None \<Rightarrow> otherwise))"

definition axis2_msg_ctx_get_property :: "alloc \<Rightarrow> 'e msg_ctx_scheme \<Rightarrow> string \<Rightarrow> ptr result" where
  "axis2_msg_ctx_get_property malloc mc key =
     search_base malloc key (Some (mc_base mc))
      (search_base malloc key (Option.bind (op_ctx mc) oc_base)
        (search_base malloc key (Option.bind (svc_ctx mc) sc_base)
          (search_base malloc key (Option.bind (svc_grp_ctx mc) sgc_base)
            (search_base malloc key (Option.bind (conf_ctx mc) cc_base) (Inr None)))))"

lemmas msg_ctx_getters = axis2_msg_ctx_get_op_ctx_def axis2_msg_ctx_get_conf_ctx_def
  axis2_msg_ctx_get_transport_out_desc_def axis2_msg_ctx_get_server_side_def
  axis2_msg_ctx_is_paused_def axis2_msg_ctx_get_paused_phase_name_def
  axis2_msg_ctx_get_current_handler_index_def axis2_msg_ctx_get_process_fault_def
  axis2_msg_ctx_get_is_soap_11_def axis2_msg_ctx_get_soap_envelope_def
  axis2_msg_ctx_get_fault_soap_envelope_def axis2_msg_ctx_get_fault_to_def
  axis2_msg_ctx_get_reply_to_def axis2_msg_ctx_get_to_def axis2_msg_ctx_get_msg_id_def
  axis2_msg_ctx_get_wsa_action_def

lemmas msg_ctx_setters = axis2_msg_ctx_set_server_side_def axis2_msg_ctx_set_paused_def
  axis2_msg_ctx_set_paused_phase_name_def axis2_msg_ctx_set_process_fault_def
  axis2_msg_ctx_set_fault_soap_envelope_def axis2_msg_ctx_set_doing_rest_def
  axis2_msg_ctx_set_transport_out_stream_def axis2_msg_ctx_set_out_transport_info_def

lemma set_current_handler_index_simps [simp]:
  "paused (axis2_msg_ctx_set_current_handler_index hs mc i) = paused mc"
  "paused_phase_name (axis2_msg_ctx_set_current_handler_index hs mc i) = paused_phase_name mc"
  "current_handler_index (axis2_msg_ctx_set_current_handler_index hs mc i) = i"
  "op_ctx (axis2_msg_ctx_set_current_handler_index hs mc i) = op_ctx mc"
  "conf_ctx (axis2_msg_ctx_set_current_handler_index hs mc i) = conf_ctx mc"
  "server_side (axis2_msg_ctx_set_current_handler_index hs mc i) = server_side mc"
  by (simp_all add: axis2_msg_ctx_set_current_handler_index_def Let_def split: option.splits)

end
