(* ===== verification/Phase_Invoke.thy ===== *)
theory Phase_Invoke
  imports Msg_Ctx
begin

text \<open>
  The invocation of the handlers of a phase: \<^verbatim>\<open>axis2_phase_invoke\<close> and
  \<^verbatim>\<open>axis2_phase_invoke_start_from_handler\<close> of \<^verbatim>\<open>src/core/engine/phase.c\<close>. The code a handler runs
  belongs to the deployed modules: it is a function from a message context to a status and a new
  context. A run that does not return is \<open>None\<close>, one that reaches undefined behaviour is
  \<open>Some (Inl UNDEFINED_BEHAVIOUR)\<close>.
\<close>

section \<open>The code the engine calls\<close>

text \<open>
  The function pointers behind handlers, transport senders and message receivers, the
  construction of a default SOAP fault envelope by the object model, the generator of message
  identifiers, the outcome of allocations and the handler store.
\<close>

record 'c engine_env =
  hstore :: handler_store
  handler_invoke :: "nat \<Rightarrow> 'c \<Rightarrow> axis2_status \<times> 'c"
  sender_invoke :: "nat \<Rightarrow> 'c \<Rightarrow> axis2_status \<times> 'c"
  msg_recv_receive :: "nat \<Rightarrow> 'c \<Rightarrow> axis2_status \<times> 'c"
  default_fault_envelope :: "string \<Rightarrow> string \<Rightarrow> soap_version \<Rightarrow> soap_envelope option"
  uuid_gen :: "string option"
  mem :: alloc

type_synonym 'c run = "(axis2_status \<times> 'c) result option"

definition run_bind :: "'a result option \<Rightarrow> ('a \<Rightarrow> 'b result option) \<Rightarrow> 'b result option" where
  "run_bind r f =
     (case r of None \<Rightarrow> None | Some (Inl e) \<Rightarrow> Some (Inl e) | Some (Inr x) \<Rightarrow> f x)"

definition returns :: "axis2_status \<Rightarrow> 'c \<Rightarrow> 'c run" where
  "returns st mc = Some (Inr (st, mc))"

definition undefined_run :: "'c run" where
  "undefined_run = Some (Inl UNDEFINED_BEHAVIOUR)"

lemma run_bind_simps [simp]:
  "run_bind None f = None" "run_bind (Some (Inl e)) f = Some (Inl e)"
  "run_bind (Some (Inr x)) f = f x" "run_bind (returns st mc) f = f (st, mc)"
  by (simp_all add: run_bind_def returns_def)

section \<open>Invocation\<close>

text \<open>
  The \<^verbatim>\<open>while\<close> loop of \<^verbatim>\<open>axis2_phase_invoke\<close>. The index is advanced only after a handler was
  invoked: at a NULL entry the loop goes round forever.
\<close>

partial_function (option) invoke_loop ::
    "'e msg_ctx_scheme engine_env \<Rightarrow> axis2_phase \<Rightarrow> int \<Rightarrow> int \<Rightarrow> 'e msg_ctx_scheme \<Rightarrow>
     'e msg_ctx_scheme run" where
  "invoke_loop E ph index sz mc =
     (if index < sz \<and> \<not> axis2_msg_ctx_is_paused mc then
        (case ret_ptr (axutil_array_list_get (Some (handlers ph)) index) of
           None \<Rightarrow> invoke_loop E ph index sz mc
         | Some handler \<Rightarrow>
             (case handler_invoke E handler mc of
                (st, mc1) \<Rightarrow>
                  if st = AXIS2_FAILURE then returns st mc1
                  else invoke_loop E ph (index + 1) sz
                         (axis2_msg_ctx_set_current_handler_index (hstore E) mc1 (index + 1))))
      else returns AXIS2_SUCCESS mc)"

text \<open>
  The invocation of the first or the last handler of a phase: it returns at once when the
  context is paused; the continuation runs after a handler that succeeded.
\<close>

definition invoke_edge_handler ::
    "'e msg_ctx_scheme engine_env \<Rightarrow> ptr \<Rightarrow> 'e msg_ctx_scheme \<Rightarrow>
     ('e msg_ctx_scheme \<Rightarrow> 'e msg_ctx_scheme run) \<Rightarrow> 'e msg_ctx_scheme run" where
  "invoke_edge_handler E p mc continue =
     (case p of
        None \<Rightarrow> continue mc
      | Some h \<Rightarrow>
          if axis2_msg_ctx_is_paused mc then returns AXIS2_SUCCESS mc
          else
            (case handler_invoke E h mc of
               (st, mc1) \<Rightarrow> if st = AXIS2_FAILURE then returns st mc1 else continue mc1))"

definition axis2_phase_invoke ::
    "'e msg_ctx_scheme engine_env \<Rightarrow> axis2_phase \<Rightarrow> 'e msg_ctx_scheme \<Rightarrow> 'e msg_ctx_scheme run" where
  "axis2_phase_invoke E ph mc =
     invoke_edge_handler E (first_handler ph) (axis2_msg_ctx_set_paused_phase_name mc (phase_name ph))
       (\<lambda>mc1. run_bind
          (invoke_loop E ph 0 (axutil_array_list_size (Some (handlers ph))) mc1)
          (\<lambda>(st, mc2).
             if st = AXIS2_FAILURE then returns st mc2
             else invoke_edge_handler E (last_handler ph) mc2 (returns AXIS2_SUCCESS)))"

text \<open>
  \<^verbatim>\<open>axis2_phase_invoke_start_from_handler\<close> ignores the status of the handlers and does not look
  at the paused flag.
\<close>

function start_from_loop ::
    "'e msg_ctx_scheme engine_env \<Rightarrow> axis2_phase \<Rightarrow> int \<Rightarrow> int \<Rightarrow> 'e msg_ctx_scheme \<Rightarrow>
     axis2_status \<times> 'e msg_ctx_scheme" where
  "start_from_loop E ph i sz mc =
     (if i < sz then
        (case ret_ptr (axutil_array_list_get (Some (handlers ph)) i) of
           None \<Rightarrow> start_from_loop E ph (i + 1) sz mc
         | Some handler \<Rightarrow>
             (case axis2_handler_get_handler_desc (hstore E) handler of
                None \<Rightarrow> (AXIS2_FAILURE, mc)
              | Some desc \<Rightarrow>
                  let mc1 = snd (handler_invoke E handler mc) in
                  start_from_loop E ph (i + 1) sz
                    (axis2_msg_ctx_set_current_handler_index (hstore E) mc1
                       (axis2_msg_ctx_get_current_handler_index mc1 + 1))))
      else (AXIS2_SUCCESS, mc))"
  by pat_completeness auto
termination
  by (relation "measure (\<lambda>(E, ph, i, sz, mc). nat (sz - i))") auto

definition axis2_phase_invoke_start_from_handler ::
    "'e msg_ctx_scheme engine_env \<Rightarrow> axis2_phase \<Rightarrow> int \<Rightarrow> 'e msg_ctx_scheme \<Rightarrow>
     axis2_status \<times> 'e msg_ctx_scheme" where
  "axis2_phase_invoke_start_from_handler E ph start mc =
     start_from_loop E ph start (axutil_array_list_size (Some (handlers ph)))
       (axis2_msg_ctx_set_paused_phase_name mc (phase_name ph))"

declare start_from_loop.simps [simp del]

section \<open>Specification: a flat list of steps\<close>

text \<open>
  What a phase does is a list of steps: announce its name, then run its handlers one after the
  other. A handler of the phase's list is followed by recording the index of the next one.
\<close>

datatype invoke_step = SetPhase "string option" | RunHandler nat "int option"

fun list_steps :: "int \<Rightarrow> nat list \<Rightarrow> invoke_step list" where
  "list_steps i [] = []"
| "list_steps i (h # hs) = RunHandler h (Some (i + 1)) # list_steps (i + 1) hs"

definition edge_steps :: "ptr \<Rightarrow> invoke_step list" where
  "edge_steps p = (case p of None \<Rightarrow> [] | Some h \<Rightarrow> [RunHandler h None])"

text \<open>The handlers of a phase whose list holds no NULL.\<close>

definition handler_list :: "axis2_phase \<Rightarrow> nat list" where
  "handler_list ph = map the (al_list (handlers ph))"

definition no_null_handler :: "axis2_phase \<Rightarrow> bool" where
  "no_null_handler ph \<longleftrightarrow> al_inv (handlers ph) \<and> None \<notin> set (al_list (handlers ph))"

definition phase_steps :: "axis2_phase \<Rightarrow> invoke_step list" where
  "phase_steps ph = SetPhase (phase_name ph) # edge_steps (first_handler ph) @
     list_steps 0 (handler_list ph) @ edge_steps (last_handler ph)"

definition do_step ::
    "'e msg_ctx_scheme engine_env \<Rightarrow> invoke_step \<Rightarrow> 'e msg_ctx_scheme \<Rightarrow>
     axis2_status \<times> 'e msg_ctx_scheme" where
  "do_step E s mc =
     (case s of
        SetPhase n \<Rightarrow> (AXIS2_SUCCESS, axis2_msg_ctx_set_paused_phase_name mc n)
      | RunHandler h p \<Rightarrow>
          (case handler_invoke E h mc of
             (st, mc1) \<Rightarrow>
               (st, if st = AXIS2_FAILURE then mc1
                    else (case p of None \<Rightarrow> mc1
                          | Some i \<Rightarrow> axis2_msg_ctx_set_current_handler_index (hstore E) mc1 i))))"

text \<open>Steps run until one fails or the context is paused.\<close>

fun run_steps ::
    "'e msg_ctx_scheme engine_env \<Rightarrow> invoke_step list \<Rightarrow> 'e msg_ctx_scheme \<Rightarrow>
     axis2_status \<times> 'e msg_ctx_scheme" where
  "run_steps E [] mc = (AXIS2_SUCCESS, mc)"
| "run_steps E (s # ss) mc =
     (if paused mc then (AXIS2_SUCCESS, mc)
      else (case do_step E s mc of
              (st, mc1) \<Rightarrow> if st = AXIS2_FAILURE then (st, mc1) else run_steps E ss mc1))"

section \<open>Lemmas\<close>

lemma run_steps_paused [simp]: "paused mc \<Longrightarrow> run_steps E ss mc = (AXIS2_SUCCESS, mc)"
  by (cases ss) auto

lemma run_steps_append:
  "run_steps E (xs @ ys) mc =
     (case run_steps E xs mc of
        (st, mc1) \<Rightarrow> if st = AXIS2_FAILURE then (st, mc1) else run_steps E ys mc1)"
  by (induction xs arbitrary: mc) (auto split: prod.splits)

lemma handler_at_index:
  assumes "no_null_handler ph" "i < length (handler_list ph)"
  shows "ret_ptr (axutil_array_list_get (Some (handlers ph)) (int i)) = Some (handler_list ph ! i)"
proof -
  let ?l = "al_list (handlers ph)"
  have l: "i < length ?l" using assms(2) by (simp add: handler_list_def)
  then have "?l ! i \<noteq> None" using assms(1) by (metis no_null_handler_def nth_mem)
  with l show ?thesis
    using al.get_law [of "handlers ph" "int i"] assms(1)
    by (auto simp: no_null_handler_def handler_list_def)
qed

lemma handlers_size:
  "no_null_handler ph \<Longrightarrow> axutil_array_list_size (Some (handlers ph)) = int (length (handler_list ph))"
  using al.size_law [of "handlers ph"] by (simp add: no_null_handler_def handler_list_def)

lemma drop_handler_list:
  "i < length xs \<Longrightarrow> list_steps (int i) (drop i xs) =
   RunHandler (xs ! i) (Some (int i + 1)) # list_steps (int (Suc i)) (drop (Suc i) xs)"
  by (simp add: add.commute flip: Cons_nth_drop_Suc)

lemma invoke_loop_spec:
  assumes "no_null_handler ph" "i \<le> length (handler_list ph)"
  shows "invoke_loop E ph (int i) (int (length (handler_list ph))) mc =
    Some (Inr (run_steps E (list_steps (int i) (drop i (handler_list ph))) mc))"
  using assms(2)
proof (induction "length (handler_list ph) - i" arbitrary: i mc)
  case 0
  then show ?case by (simp add: invoke_loop.simps returns_def)
next
  case (Suc k)
  then have i: "i < length (handler_list ph)" by simp
  have IH: "invoke_loop E ph (int i + 1) (int (length (handler_list ph))) mc1 =
      Some (Inr (run_steps E (list_steps (int (Suc i)) (drop (Suc i) (handler_list ph))) mc1))" for mc1
    using Suc.hyps(1) [of "Suc i" mc1] Suc.hyps(2) i by (simp add: add.commute)
  show ?case
    using i handler_at_index [OF assms(1) i] IH
    by (simp add: invoke_loop.simps [of E ph "int i"] drop_handler_list do_step_def returns_def
        axis2_msg_ctx_is_paused_def split: prod.splits)
qed

lemma edge_handler_spec:
  assumes "\<And>mc1. continue mc1 = Some (Inr (run_steps E ss mc1))"
  shows "invoke_edge_handler E p mc continue = Some (Inr (run_steps E (edge_steps p @ ss) mc))"
  using assms
  by (auto simp: invoke_edge_handler_def edge_steps_def do_step_def returns_def
      axis2_msg_ctx_is_paused_def split: option.splits prod.splits)

text \<open>A phase without NULL entries returns, and it does what its list of steps says.\<close>

lemma phase_invoke_spec:
  assumes "no_null_handler ph" "\<not> paused mc"
  shows "axis2_phase_invoke E ph mc = Some (Inr (run_steps E (phase_steps ph) mc))"
proof -
  let ?mc = "axis2_msg_ctx_set_paused_phase_name mc (phase_name ph)"
  have last: "invoke_edge_handler E (last_handler ph) mc2 (returns AXIS2_SUCCESS) =
      Some (Inr (run_steps E (edge_steps (last_handler ph)) mc2))" for mc2
    using edge_handler_spec [of "returns AXIS2_SUCCESS" E "[]"] by (simp add: returns_def)
  have "run_bind (invoke_loop E ph 0 (axutil_array_list_size (Some (handlers ph))) mc1)
      (\<lambda>(st, mc2). if st = AXIS2_FAILURE then returns st mc2
        else invoke_edge_handler E (last_handler ph) mc2 (returns AXIS2_SUCCESS)) =
    Some (Inr (run_steps E (list_steps 0 (handler_list ph) @ edge_steps (last_handler ph)) mc1))" for mc1
    using invoke_loop_spec [OF assms(1), of 0 E mc1]
    by (auto simp: handlers_size [OF assms(1)] last run_steps_append returns_def split: prod.splits)
  then have "axis2_phase_invoke E ph mc = Some (Inr (run_steps E (edge_steps (first_handler ph) @
      list_steps 0 (handler_list ph) @ edge_steps (last_handler ph)) ?mc))"
    unfolding axis2_phase_invoke_def by (rule edge_handler_spec)
  then show ?thesis using assms(2) by (simp add: phase_steps_def do_step_def)
qed

end
