(* ===== verification/Engine.thy ===== *)
theory Engine
  imports Phase_Invoke
begin

text \<open>
  The message engine of \<^verbatim>\<open>src/core/engine/engine.c\<close>: sending and receiving of messages and
  faults through the flows of the operation and the global phases, pausing and resuming, the
  check of the headers that must be understood and the creation of fault contexts. Every
  function of the file is a definition here.
\<close>

record axis2_engine =
  eng_conf_ctx :: "axis2_conf_ctx option"

definition sizeof_engine :: nat where "sizeof_engine = 8"

definition axis2_engine_create :: "alloc \<Rightarrow> axis2_conf_ctx option \<Rightarrow> axis2_engine result" where
  "axis2_engine_create malloc cc =
     (if \<not> malloc sizeof_engine then Inl NO_MEMORY else Inr \<lparr>eng_conf_ctx = cc\<rparr>)"

section \<open>Invoking and resuming flows\<close>

text \<open>A NULL entry in a list of phases is dereferenced by \<^verbatim>\<open>axis2_phase_invoke\<close>.\<close>

function invoke_phases_loop ::
    "'e msg_ctx_scheme engine_env \<Rightarrow> flow \<Rightarrow> int \<Rightarrow> int \<Rightarrow> 'e msg_ctx_scheme \<Rightarrow> 'e msg_ctx_scheme run" where
  "invoke_phases_loop E phases i cnt mc =
     (if i < cnt \<and> \<not> axis2_msg_ctx_is_paused mc then
        (case ret_ptr (axutil_array_list_get (Some phases) i) of
           None \<Rightarrow> undefined_run
         | Some phase \<Rightarrow>
             (case axis2_phase_invoke E phase mc of
                None \<Rightarrow> None
              | Some (Inl e) \<Rightarrow> Some (Inl e)
              | Some (Inr (status, mc1)) \<Rightarrow>
                  if status \<noteq> AXIS2_SUCCESS then returns status mc1
                  else invoke_phases_loop E phases (i + 1) cnt mc1))
      else returns AXIS2_SUCCESS mc)"
  by pat_completeness auto
termination
  by (relation "measure (\<lambda>(E, phases, i, cnt, mc). nat (cnt - i))") auto

declare invoke_phases_loop.simps [simp del]

definition axis2_engine_invoke_phases ::
    "'e msg_ctx_scheme engine_env \<Rightarrow> flow option \<Rightarrow> 'e msg_ctx_scheme \<Rightarrow> 'e msg_ctx_scheme run" where
  "axis2_engine_invoke_phases E p mc =
     (case p of
        None \<Rightarrow> returns AXIS2_FAILURE mc
      | Some phases \<Rightarrow> invoke_phases_loop E phases 0 (axutil_array_list_size p) mc)"

function resume_loop ::
    "'e msg_ctx_scheme engine_env \<Rightarrow> flow \<Rightarrow> int \<Rightarrow> int \<Rightarrow> bool \<Rightarrow> 'e msg_ctx_scheme \<Rightarrow>
     'e msg_ctx_scheme run" where
  "resume_loop E phases i cnt found_match mc =
     (if i < cnt \<and> \<not> axis2_msg_ctx_is_paused mc then
        (case ret_ptr (axutil_array_list_get (Some phases) i) of
           None \<Rightarrow> undefined_run
         | Some phase \<Rightarrow>
             let phase_name = axis2_phase_get_name phase;
                 paused_name = axis2_msg_ctx_get_paused_phase_name mc in
             if phase_name \<noteq> None \<and> paused_name \<noteq> None \<and> 0 = axutil_strcmp phase_name paused_name then
               resume_loop E phases (i + 1) cnt True
                 (snd (axis2_phase_invoke_start_from_handler E phase
                         (axis2_msg_ctx_get_current_handler_index mc) mc))
             else if found_match then
               (case axis2_phase_invoke E phase mc of
                  None \<Rightarrow> None
                | Some (Inl e) \<Rightarrow> Some (Inl e)
                | Some (Inr (_, mc1)) \<Rightarrow> resume_loop E phases (i + 1) cnt True mc1)
             else resume_loop E phases (i + 1) cnt False mc)
      else returns AXIS2_SUCCESS mc)"
  by pat_completeness auto
termination
  by (relation "measure (\<lambda>(E, phases, i, cnt, found_match, mc). nat (cnt - i))") auto

declare resume_loop.simps [simp del]

definition axis2_engine_resume_invocation_phases ::
    "'e msg_ctx_scheme engine_env \<Rightarrow> flow option \<Rightarrow> 'e msg_ctx_scheme \<Rightarrow> 'e msg_ctx_scheme run" where
  "axis2_engine_resume_invocation_phases E p mc =
     (case p of
        None \<Rightarrow> returns AXIS2_FAILURE mc
      | Some phases \<Rightarrow>
          resume_loop E phases 0 (axutil_array_list_size p) False (axis2_msg_ctx_set_paused mc False))"

section \<open>Sending\<close>

text \<open>The out flow of the operation, or NULL.\<close>

definition op_ctx_flow :: "(axis2_op \<Rightarrow> flow option) \<Rightarrow> 'e msg_ctx_scheme \<Rightarrow> flow option" where
  "op_ctx_flow get mc =
     (case axis2_msg_ctx_get_op_ctx mc of
        None \<Rightarrow> None
      | Some oc \<Rightarrow> (case axis2_op_ctx_get_op oc of None \<Rightarrow> None | Some op \<Rightarrow> get op))"

text \<open>The global out phases; their status is not looked at.\<close>

definition invoke_global_phases ::
    "(axis2_conf \<Rightarrow> flow option) \<Rightarrow> 'e msg_ctx_scheme engine_env \<Rightarrow> 'e msg_ctx_scheme \<Rightarrow>
     'e msg_ctx_scheme run" where
  "invoke_global_phases get E mc =
     (case axis2_msg_ctx_get_conf_ctx mc of
        None \<Rightarrow> returns AXIS2_SUCCESS mc
      | Some cc \<Rightarrow>
          (case axis2_conf_ctx_get_conf cc of
             None \<Rightarrow> returns AXIS2_SUCCESS mc
           | Some conf \<Rightarrow>
               (case get conf of
                  None \<Rightarrow> returns AXIS2_SUCCESS mc
                | Some global \<Rightarrow> axis2_engine_invoke_phases E (Some global) mc)))"

definition axis2_engine_send ::
    "'e msg_ctx_scheme engine_env \<Rightarrow> 'e msg_ctx_scheme option \<Rightarrow> 'e msg_ctx_scheme run" where
  "axis2_engine_send E p =
     (case p of
        None \<Rightarrow> Some (Inl INVALID_NULL_PARAM)
      | Some mc \<Rightarrow>
          let phases = op_ctx_flow axis2_op_get_out_flow mc in
          run_bind
            (if axis2_msg_ctx_is_paused mc then axis2_engine_resume_invocation_phases E phases mc
             else axis2_engine_invoke_phases E phases mc)
            (\<lambda>(status, mc1).
               if status \<noteq> AXIS2_SUCCESS then returns status mc1
               else
                 run_bind (invoke_global_phases axis2_conf_get_out_phases E mc1)
                   (\<lambda>(_, mc2).
                      if axis2_msg_ctx_is_paused mc2 then returns AXIS2_SUCCESS mc2
                      else
                        (case axis2_msg_ctx_get_transport_out_desc mc2 of
                           None \<Rightarrow> returns AXIS2_FAILURE mc2
                         | Some transport_out \<Rightarrow>
                             (case axis2_transport_out_desc_get_sender transport_out of
                                None \<Rightarrow> returns AXIS2_FAILURE mc2
                              | Some sender \<Rightarrow> Some (Inr (sender_invoke E sender mc2)))))))"

definition axis2_engine_send_fault ::
    "'e msg_ctx_scheme engine_env \<Rightarrow> 'e msg_ctx_scheme option \<Rightarrow> 'e msg_ctx_scheme run" where
  "axis2_engine_send_fault E p =
     (case p of
        None \<Rightarrow> Some (Inl INVALID_NULL_PARAM)
      | Some mc \<Rightarrow>
          let phases = op_ctx_flow axis2_op_get_fault_out_flow mc in
          run_bind
            (if axis2_msg_ctx_is_paused mc then axis2_engine_resume_invocation_phases E phases mc
             else axis2_engine_invoke_phases E phases mc)
            (\<lambda>(status, mc1).
               if axis2_msg_ctx_is_paused mc \<and> status \<noteq> AXIS2_SUCCESS then returns status mc1
               else
                 run_bind (invoke_global_phases axis2_conf_get_out_fault_flow E mc1)
                   (\<lambda>(_, mc2).
                      if axis2_msg_ctx_is_paused mc2 then returns AXIS2_SUCCESS mc2
                      else
                        (case axis2_msg_ctx_get_transport_out_desc mc2 of
                           None \<Rightarrow> returns AXIS2_FAILURE mc2
                         | Some transport_out \<Rightarrow>
                             (case axis2_transport_out_desc_get_sender transport_out of
                                None \<Rightarrow> returns AXIS2_FAILURE mc2
                              | Some sender \<Rightarrow>
                                  returns AXIS2_SUCCESS (snd (sender_invoke E sender mc2)))))))"

definition axis2_engine_resume_send ::
    "'e msg_ctx_scheme engine_env \<Rightarrow> 'e msg_ctx_scheme \<Rightarrow> 'e msg_ctx_scheme run" where
  "axis2_engine_resume_send E mc =
     run_bind
       (axis2_engine_resume_invocation_phases E (op_ctx_flow axis2_op_get_out_flow mc) mc)
       (\<lambda>(_, mc1).
          if axis2_msg_ctx_is_paused mc1 then returns AXIS2_FAILURE mc1
          else
            (case axis2_msg_ctx_get_transport_out_desc mc1 of
               None \<Rightarrow> returns AXIS2_FAILURE mc1
             | Some transport_out \<Rightarrow>
                 (case axis2_transport_out_desc_get_sender transport_out of
                    None \<Rightarrow> returns AXIS2_FAILURE mc1
                  | Some sender \<Rightarrow> Some (Inr (sender_invoke E sender mc1)))))"

section \<open>Headers that must be understood\<close>

definition AXIOM_SOAP12_SOAP_ROLE_NEXT :: string where
  "AXIOM_SOAP12_SOAP_ROLE_NEXT = ''http://www.w3.org/2003/05/soap-envelope/role/next''"

definition AXIOM_SOAP11_SOAP_ACTOR_NEXT :: string where
  "AXIOM_SOAP11_SOAP_ACTOR_NEXT = ''http://schemas.xmlsoap.org/soap/actor/next''"

definition AXIOM_SOAP12_SOAP_ENVELOPE_NAMESPACE_URI :: string where
  "AXIOM_SOAP12_SOAP_ENVELOPE_NAMESPACE_URI = ''http://www.w3.org/2003/05/soap-envelope''"

definition AXIOM_SOAP12_FAULT_CODE_RECEIVER :: string where
  "AXIOM_SOAP12_FAULT_CODE_RECEIVER = ''Receiver''"

definition AXIOM_SOAP11_FAULT_CODE_RECEIVER :: string where
  "AXIOM_SOAP11_FAULT_CODE_RECEIVER = ''Server''"

definition axis2_engine_get_receiver_fault_code :: "string option \<Rightarrow> string" where
  "axis2_engine_get_receiver_fault_code soap_namespace =
     (if axutil_strcmp (Some AXIOM_SOAP12_SOAP_ENVELOPE_NAMESPACE_URI) soap_namespace \<noteq> 0
      then AXIOM_SOAP12_FAULT_CODE_RECEIVER else AXIOM_SOAP11_FAULT_CODE_RECEIVER)"

definition not_understood ::
    "'e msg_ctx_scheme engine_env \<Rightarrow> soap_version \<Rightarrow> 'e msg_ctx_scheme \<Rightarrow> 'e msg_ctx_scheme" where
  "not_understood E version mc =
     axis2_msg_ctx_set_wsa_action (mem E)
       (axis2_msg_ctx_set_fault_soap_envelope mc
          (default_fault_envelope E ''soapenv:MustUnderstand'' ''Header not understood'' version))
       (Some ''http://www.w3.org/2005/08/addressing/fault'')"

text \<open>The body of the loop over the header blocks; the status is the result so far.\<close>

definition must_understand_body ::
    "'e msg_ctx_scheme engine_env \<Rightarrow> header_block hash_entry \<Rightarrow> axis2_status \<times> 'e msg_ctx_scheme \<Rightarrow>
     bool \<times> (axis2_status \<times> 'e msg_ctx_scheme)" where
  "must_understand_body E hi s =
     (case s of
        (status, mc) \<Rightarrow>
          (case e_val hi of
             None \<Rightarrow> (False, s)
           | Some header_block \<Rightarrow>
               if hb_processed header_block \<or> \<not> hb_must_understand header_block then (False, s)
               else
                 let role = hb_role header_block in
                 if \<not> axis2_msg_ctx_get_is_soap_11 mc then
                   (if role = None \<or> axutil_strcmp role (Some AXIOM_SOAP12_SOAP_ROLE_NEXT) \<noteq> 0
                    then (True, (AXIS2_FAILURE, not_understood E AXIOM_SOAP12 mc)) else (False, s))
                 else
                   (if role = None \<or> axutil_strcmp role (Some AXIOM_SOAP11_SOAP_ACTOR_NEXT) \<noteq> 0
                    then (True, (AXIS2_FAILURE, not_understood E AXIOM_SOAP11 mc)) else (False, s))))"

text \<open>When the iterator cannot be allocated the loop is not entered.\<close>

definition axis2_engine_check_must_understand_headers ::
    "'e msg_ctx_scheme engine_env \<Rightarrow> 'e msg_ctx_scheme \<Rightarrow> 'e msg_ctx_scheme run" where
  "axis2_engine_check_must_understand_headers E mc =
     (case axis2_msg_ctx_get_soap_envelope mc of
        None \<Rightarrow> returns AXIS2_FAILURE mc
      | Some env \<Rightarrow>
          (case env_header env of
             None \<Rightarrow> returns AXIS2_SUCCESS mc
           | Some header \<Rightarrow>
               (case sh_header_blocks header of
                  None \<Rightarrow> returns AXIS2_SUCCESS mc
                | Some ht \<Rightarrow>
                    (case axutil_hash_first_impl (mem E) (Some ht) False of
                       Inl e \<Rightarrow> if e = NO_MEMORY then returns AXIS2_SUCCESS mc else Some (Inl e)
                     | Inr hi \<Rightarrow>
                         Some (hash_foreach ht (must_understand_body E) hi (AXIS2_SUCCESS, mc))))))"

section \<open>Receiving\<close>

text \<open>
  The end of \<^verbatim>\<open>axis2_engine_receive\<close>: on the server side the headers are checked and the message
  receiver of the operation found so far is called.
\<close>

definition deliver ::
    "'e msg_ctx_scheme engine_env \<Rightarrow> axis2_status \<Rightarrow> axis2_op option \<Rightarrow> 'e msg_ctx_scheme \<Rightarrow>
     'e msg_ctx_scheme run" where
  "deliver E status op mc =
     (if axis2_msg_ctx_get_server_side mc \<and> \<not> axis2_msg_ctx_is_paused mc then
        run_bind (axis2_engine_check_must_understand_headers E mc)
          (\<lambda>(status1, mc1).
             if status1 \<noteq> AXIS2_SUCCESS then returns status1 mc1
             else
               (case op of
                  None \<Rightarrow> returns AXIS2_FAILURE mc1
                | Some op1 \<Rightarrow>
                    (case axis2_op_get_msg_recv op1 of
                       None \<Rightarrow> returns AXIS2_FAILURE mc1
                     | Some receiver \<Rightarrow> Some (Inr (msg_recv_receive E receiver mc1)))))
      else returns status mc)"

text \<open>
  The operation specific phases, in the two branches of \<^verbatim>\<open>axis2_engine_receive\<close>: the continuation
  gets the operation. An operation context without operation is dereferenced.
\<close>

definition receive_op_phases ::
    "'e msg_ctx_scheme engine_env \<Rightarrow> bool \<Rightarrow> axis2_status \<Rightarrow> 'e msg_ctx_scheme \<Rightarrow>
     'e msg_ctx_scheme run" where
  "receive_op_phases E resuming status mc =
     (case axis2_msg_ctx_get_op_ctx mc of
        None \<Rightarrow> deliver E status None mc
      | Some oc \<Rightarrow>
          (case axis2_op_ctx_get_op oc of
             None \<Rightarrow> undefined_run
           | Some op \<Rightarrow>
               if resuming then
                 run_bind (axis2_engine_resume_invocation_phases E (axis2_op_get_in_flow op) mc)
                   (\<lambda>(_, mc1).
                      if axis2_msg_ctx_is_paused mc1 then returns AXIS2_SUCCESS mc1
                      else deliver E status (Some op) mc1)
               else
                 run_bind (axis2_engine_invoke_phases E (axis2_op_get_in_flow op) mc)
                   (\<lambda>(status1, mc1).
                      if status1 \<noteq> AXIS2_SUCCESS then returns status1 mc1
                      else if axis2_msg_ctx_is_paused mc1 then returns AXIS2_SUCCESS mc1
                      else deliver E status1 (Some op) mc1)))"

definition axis2_engine_receive ::
    "'e msg_ctx_scheme engine_env \<Rightarrow> 'e msg_ctx_scheme option \<Rightarrow> 'e msg_ctx_scheme run" where
  "axis2_engine_receive E p =
     (case p of
        None \<Rightarrow> Some (Inl INVALID_NULL_PARAM)
      | Some mc \<Rightarrow>
          (case Option.bind (axis2_msg_ctx_get_conf_ctx mc) axis2_conf_ctx_get_conf of
             None \<Rightarrow> undefined_run
           | Some conf \<Rightarrow>
               let pre = axis2_conf_get_in_phases_upto_and_including_post_dispatch conf in
               if axis2_msg_ctx_is_paused mc then
                 run_bind (axis2_engine_resume_invocation_phases E pre mc)
                   (\<lambda>(_, mc1).
                      if axis2_msg_ctx_is_paused mc1 then returns AXIS2_SUCCESS mc1
                      else receive_op_phases E True AXIS2_FAILURE mc1)
               else
                 run_bind (axis2_engine_invoke_phases E pre mc)
                   (\<lambda>(status, mc1).
                      if status \<noteq> AXIS2_SUCCESS \<and> axis2_msg_ctx_get_server_side mc1
                      then returns status mc1
                      else if axis2_msg_ctx_is_paused mc1 then returns AXIS2_SUCCESS mc1
                      else receive_op_phases E False status mc1)))"

definition axis2_engine_receive_fault ::
    "'e msg_ctx_scheme engine_env \<Rightarrow> 'e msg_ctx_scheme option \<Rightarrow> 'e msg_ctx_scheme run" where
  "axis2_engine_receive_fault E p =
     (case p of
        None \<Rightarrow> Some (Inl INVALID_NULL_PARAM)
      | Some mc \<Rightarrow>
          run_bind
            (if axis2_msg_ctx_get_op_ctx mc \<noteq> None then returns AXIS2_SUCCESS mc
             else
               (case Option.bind (axis2_msg_ctx_get_conf_ctx mc) axis2_conf_ctx_get_conf of
                  None \<Rightarrow> returns AXIS2_SUCCESS mc
                | Some conf \<Rightarrow>
                    (case axis2_conf_get_in_phases_upto_and_including_post_dispatch conf of
                       None \<Rightarrow> returns AXIS2_SUCCESS mc
                     | Some phases \<Rightarrow>
                         if axis2_msg_ctx_is_paused mc
                         then axis2_engine_resume_invocation_phases E (Some phases) mc
                         else axis2_engine_invoke_phases E (Some phases) mc)))
            (\<lambda>(_, mc1).
               case axis2_msg_ctx_get_op_ctx mc1 of
                 None \<Rightarrow> returns AXIS2_SUCCESS mc1
               | Some oc \<Rightarrow>
                   (case axis2_op_ctx_get_op oc of
                      None \<Rightarrow> undefined_run
                    | Some op \<Rightarrow>
                        run_bind
                          (if axis2_msg_ctx_is_paused mc1
                           then axis2_engine_resume_invocation_phases E (axis2_op_get_fault_in_flow op) mc1
                           else axis2_engine_invoke_phases E (axis2_op_get_fault_in_flow op) mc1)
                          (\<lambda>(_, mc2). returns AXIS2_SUCCESS mc2))))"

definition axis2_engine_resume_receive ::
    "'e msg_ctx_scheme engine_env \<Rightarrow> 'e msg_ctx_scheme \<Rightarrow> 'e msg_ctx_scheme run" where
  "axis2_engine_resume_receive E mc =
     (case Option.bind (axis2_msg_ctx_get_conf_ctx mc) axis2_conf_ctx_get_conf of
        None \<Rightarrow> undefined_run
      | Some conf \<Rightarrow>
          run_bind
            (axis2_engine_resume_invocation_phases E
               (axis2_conf_get_in_phases_upto_and_including_post_dispatch conf) mc)
            (\<lambda>(_, mc1).
               if axis2_msg_ctx_get_server_side mc1 \<and> \<not> axis2_msg_ctx_is_paused mc1 then
                 run_bind (axis2_engine_check_must_understand_headers E mc1)
                   (\<lambda>(status, mc2).
                      if status \<noteq> AXIS2_SUCCESS then returns status mc2
                      else
                        (case axis2_msg_ctx_get_op_ctx mc2 of
                           None \<Rightarrow> returns status mc2
                         | Some oc \<Rightarrow>
                             (case axis2_op_ctx_get_op oc of
                                None \<Rightarrow> returns status mc2
                              | Some op \<Rightarrow>
                                  (case axis2_op_get_msg_recv op of
                                     None \<Rightarrow> returns AXIS2_FAILURE mc2
                                   | Some receiver \<Rightarrow> Some (Inr (msg_recv_receive E receiver mc2))))))
               else returns AXIS2_FAILURE mc1))"

section \<open>Fault contexts\<close>

definition AXIS2_WSA_NONE_URL :: string where
  "AXIS2_WSA_NONE_URL = ''http://www.w3.org/2005/08/addressing/none''"

definition AXIS2_WSA_NONE_URL_SUBMISSION :: string where
  "AXIS2_WSA_NONE_URL_SUBMISSION = ''http://schemas.xmlsoap.org/ws/2004/08/addressing/role/none''"

definition AXIS2_WSA_RELATES_TO_RELATIONSHIP_TYPE_DEFAULT_VALUE :: string where
  "AXIS2_WSA_RELATES_TO_RELATIONSHIP_TYPE_DEFAULT_VALUE = ''http://www.w3.org/2005/08/addressing/reply''"

definition axis2_relates_to_create :: "alloc \<Rightarrow> string option \<Rightarrow> string \<Rightarrow> (string option \<times> string) option" where
  "axis2_relates_to_create malloc val relationship_type =
     (if \<not> malloc 16 then None
      else if (case val of None \<Rightarrow> False | Some v \<Rightarrow> \<not> malloc (length v + 1)) then None
      else if \<not> malloc (length relationship_type + 1) then None
      else Some (val, relationship_type))"

text \<open>
  The destination of the fault: the new value of the local variable \<^verbatim>\<open>fault_to\<close> (whether it is
  not NULL) and the fault context with its destination set.
\<close>

definition set_fault_destination :: "'e msg_ctx_scheme \<Rightarrow> msg_ctx \<Rightarrow> bool \<times> msg_ctx" where
  "set_fault_destination pc fault_ctx =
     (case axis2_msg_ctx_get_fault_to pc of
        None \<Rightarrow> (False, fault_ctx)
      | Some fault_to \<Rightarrow>
          (case epr_address fault_to of
             None \<Rightarrow> (False, fault_ctx)
           | Some address \<Rightarrow>
               if axutil_strcmp (Some AXIS2_WSA_NONE_URL) (Some address) = 0 \<or>
                  axutil_strcmp (Some AXIS2_WSA_NONE_URL_SUBMISSION) (Some address) = 0 then
                 (True, axis2_msg_ctx_set_fault_to fault_ctx
                    (case axis2_msg_ctx_get_reply_to pc of
                       Some reply_to \<Rightarrow> Some reply_to | None \<Rightarrow> Some fault_to))
               else (True, axis2_msg_ctx_set_fault_to fault_ctx (Some fault_to))))"

definition has_fault_to :: "'e msg_ctx_scheme \<Rightarrow> bool" where
  "has_fault_to pc =
     (case axis2_msg_ctx_get_fault_to pc of None \<Rightarrow> False | Some f \<Rightarrow> epr_address f \<noteq> None)"

text \<open>
  \<^verbatim>\<open>axis2_engine_create_fault_msg_ctx\<close>. When the new context cannot be allocated, every setter
  rejects the NULL context and NULL is returned at the end.
\<close>

definition axis2_engine_create_fault_msg_ctx ::
    "'e msg_ctx_scheme engine_env \<Rightarrow> axis2_engine \<Rightarrow> 'e msg_ctx_scheme option \<Rightarrow> string \<Rightarrow> string \<Rightarrow>
     msg_ctx result" where
  "axis2_engine_create_fault_msg_ctx E engine p code_value reason_text =
     (case p of
        None \<Rightarrow> Inl INVALID_NULL_PARAM
      | Some pc \<Rightarrow>
          if axis2_msg_ctx_get_process_fault pc then Inl INVALID_STATE_PROCESSING_FAULT_ALREADY
          else
            (case axis2_msg_ctx_create (mem E) (eng_conf_ctx engine) (transport_in_desc pc)
                    (axis2_msg_ctx_get_transport_out_desc pc) of
               Inl e \<Rightarrow>
                 if \<not> has_fault_to pc \<and> transport_out_stream pc = None then Inl NOWHERE_TO_SEND_FAULT
                 else Inl INVALID_NULL_PARAM
             | Inr ctx0 \<Rightarrow>
                 (case set_fault_destination pc (axis2_msg_ctx_set_process_fault ctx0 True) of
                    (fault_to_set, ctx1) \<Rightarrow>
                      let stream = transport_out_stream pc;
                          ctx2 = (case stream of
                                    None \<Rightarrow> ctx1
                                  | Some st \<Rightarrow> axis2_msg_ctx_set_transport_out_stream ctx1 stream) in
                      if \<not> fault_to_set \<and> stream = None then Inl NOWHERE_TO_SEND_FAULT
                      else
                        let ctx3 = (case axis2_msg_ctx_get_wsa_action pc of
                                      None \<Rightarrow> ctx2
                                    | Some action \<Rightarrow> axis2_msg_ctx_set_wsa_action (mem E) ctx2 (Some action));
                            ctx4 = axis2_msg_ctx_set_relates_to ctx3
                                     (axis2_relates_to_create (mem E) (axis2_msg_ctx_get_msg_id pc)
                                        AXIS2_WSA_RELATES_TO_RELATIONSHIP_TYPE_DEFAULT_VALUE);
                            ctx5 = snd (axis2_msg_ctx_set_message_id (mem E) ctx4 (uuid_gen E));
                            ctx6 = axis2_msg_ctx_set_op_ctx ctx5 (axis2_msg_ctx_get_op_ctx pc);
                            ctx7 = axis2_msg_ctx_set_server_side
                                     (axis2_msg_ctx_set_process_fault ctx6 True) True in
                        (case (case axis2_msg_ctx_get_fault_soap_envelope pc of
                                 Some env \<Rightarrow> Some env
                               | None \<Rightarrow>
                                   if axis2_msg_ctx_get_is_soap_11 pc
                                   then default_fault_envelope E code_value reason_text AXIOM_SOAP11
                                   else default_fault_envelope E code_value reason_text AXIOM_SOAP12) of
                           None \<Rightarrow> Inl NO_MEMORY
                         | Some envelope \<Rightarrow>
                             Inr (axis2_msg_ctx_set_out_transport_info
                                    (axis2_msg_ctx_set_soap_envelope
                                       (axis2_msg_ctx_set_doing_rest ctx7 (doing_rest pc))
                                       (Some envelope))
                                    (out_transport_info pc))))))"

end
