(* ===== verification/Engine_Flow.thy ===== *)
theory Engine_Flow
  imports Engine Hash_Map
begin

text \<open>
  Correctness of the engine: a flow runs the handlers of its phases in order up to the first
  failure or pause, resuming runs exactly the handlers that did not run before, and the paths of
  sending, receiving and faults behave as stated below, errors included.
\<close>

section \<open>Flows as lists of steps\<close>

definition flow_list :: "flow \<Rightarrow> axis2_phase list" where
  "flow_list fl = map the (al_list fl)"

text \<open>A flow that the engine can run: no NULL phase and no NULL handler.\<close>

definition flow_ok :: "flow \<Rightarrow> bool" where
  "flow_ok fl \<longleftrightarrow> al_inv fl \<and> None \<notin> set (al_list fl) \<and> (\<forall>ph \<in> set (flow_list fl). no_null_handler ph)"

definition flow_steps :: "axis2_phase list \<Rightarrow> invoke_step list" where
  "flow_steps phs = concat (map phase_steps phs)"

lemma flow_steps_simps [simp]:
  "flow_steps [] = []" "flow_steps (ph # phs) = phase_steps ph @ flow_steps phs"
  "flow_steps (xs @ ys) = flow_steps xs @ flow_steps ys"
  by (simp_all add: flow_steps_def)

lemma phase_at_index:
  assumes "flow_ok fl" "i < length (flow_list fl)"
  shows "ret_ptr (axutil_array_list_get (Some fl) (int i)) = Some (flow_list fl ! i)"
    "no_null_handler (flow_list fl ! i)"
proof -
  have l: "i < length (al_list fl)" using assms(2) by (simp add: flow_list_def)
  then have "al_list fl ! i \<noteq> None" using assms(1) by (metis flow_ok_def nth_mem)
  with l show "ret_ptr (axutil_array_list_get (Some fl) (int i)) = Some (flow_list fl ! i)"
    using al.get_law [of fl "int i"] assms(1) by (auto simp: flow_ok_def flow_list_def)
  show "no_null_handler (flow_list fl ! i)" using assms by (simp add: flow_ok_def)
qed

lemma flow_size: "flow_ok fl \<Longrightarrow> axutil_array_list_size (Some fl) = int (length (flow_list fl))"
  using al.size_law [of fl] by (simp add: flow_ok_def flow_list_def)

lemma drop_flow_steps:
  "i < length phs \<Longrightarrow> flow_steps (drop i phs) = phase_steps (phs ! i) @ flow_steps (drop (Suc i) phs)"
  by (simp flip: Cons_nth_drop_Suc)

lemma status_neq_SUCCESS [simp]: "st \<noteq> AXIS2_SUCCESS \<longleftrightarrow> st = AXIS2_FAILURE"
  by (cases st) auto

lemma invoke_phases_loop_spec:
  assumes "flow_ok fl" "i \<le> length (flow_list fl)"
  shows "invoke_phases_loop E fl (int i) (int (length (flow_list fl))) mc =
    Some (Inr (run_steps E (flow_steps (drop i (flow_list fl))) mc))"
  using assms(2)
proof (induction "length (flow_list fl) - i" arbitrary: i mc)
  case 0
  then show ?case by (simp add: invoke_phases_loop.simps [of E fl] returns_def)
next
  case (Suc k)
  then have i: "i < length (flow_list fl)" by simp
  note ph = phase_at_index [OF assms(1) i]
  have IH: "invoke_phases_loop E fl (int i + 1) (int (length (flow_list fl))) mc1 =
      Some (Inr (run_steps E (flow_steps (drop (Suc i) (flow_list fl))) mc1))" for mc1
    using Suc.hyps(1) [of "Suc i" mc1] Suc.hyps(2) i by (simp add: add.commute)
  show ?case
  proof (cases "paused mc")
    case True
    then show ?thesis
      by (simp add: invoke_phases_loop.simps [of E fl] returns_def axis2_msg_ctx_is_paused_def)
  next
    case False
    then show ?thesis
      using i ph(1) IH phase_invoke_spec [OF ph(2) False, of E]
      by (simp add: invoke_phases_loop.simps [of E fl "int i"] drop_flow_steps run_steps_append
          returns_def axis2_msg_ctx_is_paused_def split: prod.splits)
  qed
qed

lemma invoke_phases_spec:
  assumes "flow_ok fl"
  shows "axis2_engine_invoke_phases E (Some fl) mc =
    Some (Inr (run_steps E (flow_steps (flow_list fl)) mc))"
  using invoke_phases_loop_spec [OF assms, of 0 E mc] flow_size [OF assms]
  by (simp add: axis2_engine_invoke_phases_def)

section \<open>Resuming\<close>

text \<open>
  What resuming relies on: a handler leaves the bookkeeping of the position alone, and has a
  description. Phases have distinct names and no first or last handler.
\<close>

definition steady :: "'e msg_ctx_scheme engine_env \<Rightarrow> nat \<Rightarrow> bool" where
  "steady E h \<longleftrightarrow> axis2_handler_get_handler_desc (hstore E) h \<noteq> None \<and>
     (\<forall>mc. paused_phase_name (snd (handler_invoke E h mc)) = paused_phase_name mc \<and>
           current_handler_index (snd (handler_invoke E h mc)) = current_handler_index mc)"

definition resumable :: "'e msg_ctx_scheme engine_env \<Rightarrow> flow \<Rightarrow> bool" where
  "resumable E fl \<longleftrightarrow> flow_ok fl \<and> distinct (map phase_name (flow_list fl)) \<and>
     (\<forall>ph \<in> set (flow_list fl). phase_name ph \<noteq> None \<and> first_handler ph = None \<and>
        last_handler ph = None \<and> (\<forall>h \<in> set (handler_list ph). steady E h))"

text \<open>Steps that all succeed without pausing the context.\<close>

fun smooth :: "'e msg_ctx_scheme engine_env \<Rightarrow> invoke_step list \<Rightarrow> 'e msg_ctx_scheme \<Rightarrow> bool" where
  "smooth E [] mc \<longleftrightarrow> True"
| "smooth E (s # ss) mc \<longleftrightarrow>
     (case do_step E s mc of (st, mc1) \<Rightarrow> st = AXIS2_SUCCESS \<and> \<not> paused mc1 \<and> smooth E ss mc1)"

lemma smooth_run:
  "smooth E ss mc \<Longrightarrow> \<not> paused mc \<Longrightarrow>
   fst (run_steps E ss mc) = AXIS2_SUCCESS \<and> \<not> paused (snd (run_steps E ss mc))"
  by (induction ss arbitrary: mc) (auto split: prod.splits)

lemma smooth_append:
  "\<not> paused mc \<Longrightarrow>
   smooth E (xs @ ys) mc \<longleftrightarrow> smooth E xs mc \<and> smooth E ys (snd (run_steps E xs mc))"
  by (induction xs arbitrary: mc) (auto split: prod.splits)

lemma list_steps_keep_name:
  "\<forall>h \<in> set hs. steady E h \<Longrightarrow>
   paused_phase_name (snd (run_steps E (list_steps i hs) mc)) = paused_phase_name mc"
proof (induction hs arbitrary: i mc)
  case (Cons h hs)
  obtain st mc1 where h: "handler_invoke E h mc = (st, mc1)" by force
  then have "paused_phase_name mc1 = paused_phase_name mc"
    using Cons.prems by (metis list.set_intros(1) snd_conv steady_def)
  then show ?case using Cons h by (simp add: do_step_def)
qed simp

lemma plain_phase_steps:
  "first_handler ph = None \<Longrightarrow> last_handler ph = None \<Longrightarrow>
   phase_steps ph = SetPhase (phase_name ph) # list_steps 0 (handler_list ph)"
  by (simp add: phase_steps_def edge_steps_def)

lemma name_after_phase:
  assumes "first_handler ph = None" "last_handler ph = None" "\<forall>h \<in> set (handler_list ph). steady E h"
    and "\<not> paused mc"
  shows "paused_phase_name (snd (run_steps E (phase_steps ph) mc)) = phase_name ph"
  using assms
  by (simp add: plain_phase_steps do_step_def list_steps_keep_name axis2_msg_ctx_set_paused_phase_name_def)

lemma start_from_loop_spec:
  assumes "no_null_handler ph" "\<forall>h \<in> set (handler_list ph). steady E h"
  shows "i \<le> length (handler_list ph) \<Longrightarrow> current_handler_index mc = int i \<Longrightarrow> \<not> paused mc \<Longrightarrow>
    smooth E (list_steps (int i) (drop i (handler_list ph))) mc \<Longrightarrow>
    start_from_loop E ph (int i) (int (length (handler_list ph))) mc =
    run_steps E (list_steps (int i) (drop i (handler_list ph))) mc"
proof (induction "length (handler_list ph) - i" arbitrary: i mc)
  case 0
  then show ?case by (simp add: start_from_loop.simps [of E ph])
next
  case (Suc k)
  then have i: "i < length (handler_list ph)" by simp
  let ?h = "handler_list ph ! i"
  have st: "steady E ?h" using assms(2) i by simp
  obtain s mc1 where h: "handler_invoke E ?h mc = (s, mc1)" by force
  let ?mc2 = "axis2_msg_ctx_set_current_handler_index (hstore E) mc1 (int i + 1)"
  have cur: "current_handler_index mc1 = int i"
    using st h Suc.prems(2) by (metis snd_conv steady_def)
  have sm: "s = AXIS2_SUCCESS" "\<not> paused ?mc2"
    "smooth E (list_steps (int (Suc i)) (drop (Suc i) (handler_list ph))) ?mc2"
    using Suc.prems(4) h by (auto simp: drop_handler_list [OF i] do_step_def)
  have IH: "start_from_loop E ph (int (Suc i)) (int (length (handler_list ph))) ?mc2 =
      run_steps E (list_steps (int (Suc i)) (drop (Suc i) (handler_list ph))) ?mc2"
    using Suc.hyps(1) [of "Suc i" ?mc2] Suc.hyps(2) i sm by simp
  obtain d where "axis2_handler_get_handler_desc (hstore E) ?h = Some d"
    using st by (auto simp: steady_def)
  then have "start_from_loop E ph (int i) (int (length (handler_list ph))) mc =
      start_from_loop E ph (int (Suc i)) (int (length (handler_list ph))) ?mc2"
    using i handler_at_index [OF assms(1) i] h cur
    by (simp add: start_from_loop.simps [of E ph "int i"] axis2_msg_ctx_get_current_handler_index_def
        add.commute)
  with IH Suc.prems(3) h sm(1) show ?case by (simp add: drop_handler_list [OF i] do_step_def)
qed

lemma resume_rest:
  assumes r: "resumable E fl"
  shows "i \<le> length (flow_list fl) \<Longrightarrow> \<not> paused mc \<Longrightarrow>
    paused_phase_name mc \<notin> phase_name ` set (drop i (flow_list fl)) \<Longrightarrow>
    smooth E (flow_steps (drop i (flow_list fl))) mc \<Longrightarrow>
    resume_loop E fl (int i) (int (length (flow_list fl))) True mc =
    Some (Inr (run_steps E (flow_steps (drop i (flow_list fl))) mc))"
proof (induction "length (flow_list fl) - i" arbitrary: i mc)
  case 0
  then show ?case by (simp add: resume_loop.simps [of E fl] returns_def)
next
  case (Suc k)
  then have i: "i < length (flow_list fl)" by simp
  let ?ph = "flow_list fl ! i" and ?rest = "drop (Suc i) (flow_list fl)"
  have ok: "flow_ok fl" using r by (simp add: resumable_def)
  note ph = phase_at_index [OF ok i]
  have d: "drop i (flow_list fl) = ?ph # ?rest" using i by (simp add: Cons_nth_drop_Suc)
  have plain: "first_handler ?ph = None" "last_handler ?ph = None"
    "\<forall>h \<in> set (handler_list ?ph). steady E h"
    using r i by (auto simp: resumable_def)
  have "distinct (map phase_name (?ph # ?rest))"
    using r d by (metis distinct_drop drop_map resumable_def)
  then have new: "phase_name ?ph \<notin> phase_name ` set ?rest" by auto
  obtain st mc1 where run: "run_steps E (phase_steps ?ph) mc = (st, mc1)" by force
  have sm: "smooth E (phase_steps ?ph) mc" "smooth E (flow_steps ?rest) mc1"
    using Suc.prems(4) smooth_append [OF Suc.prems(2)] run by (simp_all add: d)
  then have st: "st = AXIS2_SUCCESS" "\<not> paused mc1"
    using smooth_run [OF _ Suc.prems(2)] run by (metis fst_conv snd_conv)+
  have "paused_phase_name mc1 = phase_name ?ph"
    using name_after_phase [OF plain Suc.prems(2)] run by simp
  then have IH: "resume_loop E fl (int i + 1) (int (length (flow_list fl))) True mc1 =
      Some (Inr (run_steps E (flow_steps ?rest) mc1))"
    using Suc.hyps(1) [of "Suc i" mc1] Suc.hyps(2) i sm(2) st new by (simp add: add.commute)
  have neq: "axutil_strcmp (phase_name ?ph) (paused_phase_name mc) \<noteq> 0"
    using Suc.prems(3) by (auto simp: d axutil_strcmp_eq_0)
  have pi: "axis2_phase_invoke E ?ph mc = Some (Inr (st, mc1))"
    using phase_invoke_spec [OF ph(2) Suc.prems(2)] run by simp
  have "resume_loop E fl (int i) (int (length (flow_list fl))) True mc =
      resume_loop E fl (int i + 1) (int (length (flow_list fl))) True mc1"
    using i Suc.prems(2) ph(1) neq pi
    by (simp add: resume_loop.simps [of E fl "int i"] axis2_msg_ctx_is_paused_def
        axis2_msg_ctx_get_paused_phase_name_def axis2_phase_get_name_def)
  with IH run st show ?case by (simp add: d run_steps_append)
qed

lemma resume_skip:
  assumes ok: "flow_ok fl" and k: "k \<le> length (flow_list fl)" and np: "\<not> paused mc"
    and name: "paused_phase_name mc \<notin> phase_name ` set (take k (flow_list fl))"
  shows "i \<le> k \<Longrightarrow> resume_loop E fl (int i) (int (length (flow_list fl))) False mc =
    resume_loop E fl (int k) (int (length (flow_list fl))) False mc"
proof (induction "k - i" arbitrary: i)
  case 0
  then show ?case by simp
next
  case (Suc n)
  then have i: "i < k" by simp
  have "flow_list fl ! i \<in> set (take k (flow_list fl))"
    using i k by (metis (no_types) in_set_conv_nth length_take min_absorb2 nth_take)
  then have "axutil_strcmp (phase_name (flow_list fl ! i)) (paused_phase_name mc) \<noteq> 0"
    using name by (metis axutil_strcmp_eq_0 imageI)
  then have "resume_loop E fl (int i) (int (length (flow_list fl))) False mc =
      resume_loop E fl (int (Suc i)) (int (length (flow_list fl))) False mc"
    using i k np phase_at_index(1) [OF ok, of i]
    by (simp add: resume_loop.simps [of E fl "int i"] axis2_msg_ctx_is_paused_def
        axis2_msg_ctx_get_paused_phase_name_def axis2_phase_get_name_def add.commute)
  also have "\<dots> = resume_loop E fl (int k) (int (length (flow_list fl))) False mc"
    using Suc.hyps(2) i by (intro Suc.hyps(1)) auto
  finally show ?case .
qed

lemma set_same_phase_name:
  "paused_phase_name mc = n \<Longrightarrow> axis2_msg_ctx_set_paused_phase_name mc n = mc"
  by (cases mc) (auto simp: axis2_msg_ctx_set_paused_phase_name_def)

text \<open>Resuming at a known position runs the rest of the phase and the phases after it.\<close>

lemma resume_at:
  assumes r: "resumable E fl" and fl: "flow_list fl = phs1 @ ph # phs2"
    and d: "j \<le> length (handler_list ph)" and np: "\<not> paused mc"
    and name: "paused_phase_name mc = phase_name ph"
    and cur: "current_handler_index mc = int j"
    and sm: "smooth E (list_steps (int j) (drop j (handler_list ph)) @ flow_steps phs2) mc"
  shows "resume_loop E fl 0 (int (length (flow_list fl))) False mc =
    Some (Inr (run_steps E (list_steps (int j) (drop j (handler_list ph)) @ flow_steps phs2) mc))"
proof -
  let ?k = "length phs1" and ?n = "int (length (flow_list fl))"
  let ?rest = "list_steps (int j) (drop j (handler_list ph))"
  have ok: "flow_ok fl" using r by (simp add: resumable_def)
  have k: "?k < length (flow_list fl)" "flow_list fl ! ?k = ph" using fl by auto
  note at = phase_at_index [OF ok k(1)]
  have dist: "phase_name ph \<notin> phase_name ` set phs1" "phase_name ph \<notin> phase_name ` set phs2"
    using r fl by (auto simp: resumable_def)
  have st: "\<forall>h \<in> set (handler_list ph). steady E h" using r fl by (auto simp: resumable_def)
  then have st2: "\<forall>h \<in> set (drop j (handler_list ph)). steady E h" by (meson in_set_dropD)
  obtain s1 mc1 where run: "run_steps E ?rest mc = (s1, mc1)" by force
  have sm1: "smooth E ?rest mc" "smooth E (flow_steps phs2) mc1"
    using sm smooth_append [OF np] run by auto
  have ok1: "s1 = AXIS2_SUCCESS" "\<not> paused mc1"
    using smooth_run [OF sm1(1) np] run by auto
  have name1: "paused_phase_name mc1 = phase_name ph"
    using list_steps_keep_name [OF st2, of "int j" mc] run name by simp
  have "start_from_loop E ph (int j) (int (length (handler_list ph))) mc = (s1, mc1)"
    using start_from_loop_spec [OF at(2) [unfolded k(2)] st d] cur np sm1(1) run by simp
  then have start: "axis2_phase_invoke_start_from_handler E ph (int j) mc = (s1, mc1)"
    using set_same_phase_name [OF name] handlers_size [OF at(2) [unfolded k(2)]]
    by (simp add: axis2_phase_invoke_start_from_handler_def)
  have "resume_loop E fl 0 ?n False mc = resume_loop E fl (int ?k) ?n False mc"
    using resume_skip [OF ok _ np, of ?k 0] k dist(1) name fl by simp
  also have "\<dots> = resume_loop E fl (int (Suc ?k)) ?n True mc1"
    using k at(1) np start name cur r fl
    by (simp add: resume_loop.simps [of E fl "int ?k"] axis2_msg_ctx_is_paused_def Let_def
        axis2_msg_ctx_get_paused_phase_name_def axis2_phase_get_name_def axutil_strcmp_eq_0
        axis2_msg_ctx_get_current_handler_index_def resumable_def add.commute)
  also have "\<dots> = Some (Inr (run_steps E (flow_steps phs2) mc1))"
    using resume_rest [OF r, of "Suc ?k" mc1] fl ok1 name1 dist(2) sm1(2) by simp
  finally show ?thesis using run ok1 by (simp add: run_steps_append)
qed

lemma resume_from:
  assumes "resumable E fl" and "flow_list fl = phs1 @ ph # phs2"
    and "handler_list ph = hs1 @ h # hs2" and "\<not> paused mc"
    and "paused_phase_name mc = phase_name ph"
    and "current_handler_index mc = int (length hs1) + 1"
    and "smooth E (list_steps (int (length hs1) + 1) hs2 @ flow_steps phs2) mc"
  shows "resume_loop E fl 0 (int (length (flow_list fl))) False mc =
    Some (Inr (run_steps E (list_steps (int (length hs1) + 1) hs2 @ flow_steps phs2) mc))"
  using resume_at [OF assms(1,2), of "Suc (length hs1)" mc] assms(3-7) by (simp add: add.commute)

section \<open>Where a run was paused\<close>

lemma pause_split:
  "run_steps E ss mc = (AXIS2_SUCCESS, mc1) \<Longrightarrow> \<not> paused mc \<Longrightarrow> paused mc1 \<Longrightarrow>
   \<exists>pre h p post mcP. ss = pre @ RunHandler h p # post \<and> run_steps E pre mc = (AXIS2_SUCCESS, mcP) \<and>
     \<not> paused mcP \<and> do_step E (RunHandler h p) mcP = (AXIS2_SUCCESS, mc1)"
proof (induction ss arbitrary: mc)
  case Nil
  then show ?case by simp
next
  case (Cons s ss)
  obtain st mc2 where s: "do_step E s mc = (st, mc2)" by force
  then have st: "st = AXIS2_SUCCESS" "run_steps E ss mc2 = (AXIS2_SUCCESS, mc1)"
    using Cons.prems(1,2) by (cases st; simp)+
  show ?case
  proof (cases "paused mc2")
    case True
    then have mc2: "mc2 = mc1" using st by simp
    have "\<exists>h p. s = RunHandler h p"
      using s True Cons.prems(2)
      by (cases s) (auto simp: do_step_def axis2_msg_ctx_set_paused_phase_name_def)
    with s st mc2 Cons.prems(2) show ?thesis
      by (metis append_Nil run_steps.simps(1))
  next
    case False
    then obtain pre h p post mcP where "ss = pre @ RunHandler h p # post"
      "run_steps E pre mc2 = (AXIS2_SUCCESS, mcP)" "\<not> paused mcP"
      "do_step E (RunHandler h p) mcP = (AXIS2_SUCCESS, mc1)"
      using Cons.IH [OF st(2) False Cons.prems(3)] by blast
    with s st Cons.prems(2) show ?thesis
      by (intro exI [of _ "s # pre"] exI [of _ h] exI [of _ p] exI [of _ post] exI [of _ mcP]) simp
  qed
qed

lemma list_steps_split:
  "list_steps i hs = pre @ RunHandler h p # post \<Longrightarrow>
   \<exists>hs1 hs2. hs = hs1 @ h # hs2 \<and> p = Some (i + int (length hs1) + 1) \<and> pre = list_steps i hs1 \<and>
     post = list_steps (i + int (length hs1) + 1) hs2"
proof (induction hs arbitrary: i pre)
  case (Cons g hs)
  show ?case
  proof (cases pre)
    case Nil
    with Cons.prems show ?thesis by (intro exI [of _ "[]"] exI [of _ hs]) simp
  next
    case (Cons s pre')
    then have "list_steps (i + 1) hs = pre' @ RunHandler h p # post" using Cons.prems by simp
    then obtain hs1 hs2 where "hs = hs1 @ h # hs2" "p = Some (i + 1 + int (length hs1) + 1)"
      "pre' = list_steps (i + 1) hs1" "post = list_steps (i + 1 + int (length hs1) + 1) hs2"
      using Cons.IH by blast
    with Cons Cons.prems show ?thesis
      by (intro exI [of _ "g # hs1"] exI [of _ hs2]) (simp add: algebra_simps)
  qed
qed simp

lemma flow_split:
  "flow_steps phs = pre @ RunHandler h p # post \<Longrightarrow>
   \<forall>ph \<in> set phs. first_handler ph = None \<and> last_handler ph = None \<Longrightarrow>
   \<exists>phs1 ph phs2 hs1 hs2. phs = phs1 @ ph # phs2 \<and> handler_list ph = hs1 @ h # hs2 \<and>
     p = Some (int (length hs1) + 1) \<and>
     pre = flow_steps phs1 @ SetPhase (phase_name ph) # list_steps 0 hs1 \<and>
     post = list_steps (int (length hs1) + 1) hs2 @ flow_steps phs2"
proof (induction phs arbitrary: pre)
  case Nil
  then show ?case by simp
next
  case (Cons ph phs)
  let ?A = "SetPhase (phase_name ph) # list_steps 0 (handler_list ph)"
  have ph: "phase_steps ph = ?A" using Cons.prems(2) by (intro plain_phase_steps) auto
  have "?A @ flow_steps phs = pre @ RunHandler h p # post" using Cons.prems(1) ph by simp
  then consider us where "?A = pre @ RunHandler h p # us" "post = us @ flow_steps phs"
    | us where "pre = ?A @ us" "flow_steps phs = us @ RunHandler h p # post"
    by (force simp: append_eq_append_conv2 Cons_eq_append_conv append_eq_Cons_conv)
  then show ?case
  proof cases
    case (1 us)
    then obtain pre' where pre: "pre = SetPhase (phase_name ph) # pre'"
      "list_steps 0 (handler_list ph) = pre' @ RunHandler h p # us"
      by (cases pre) auto
    obtain hs1 hs2 where "handler_list ph = hs1 @ h # hs2" "p = Some (int (length hs1) + 1)"
      "pre' = list_steps 0 hs1" "us = list_steps (int (length hs1) + 1) hs2"
      using list_steps_split [OF pre(2)] by auto
    with 1(2) pre(1) show ?thesis
      by (intro exI [of _ "[]"] exI [of _ ph] exI [of _ phs] exI [of _ hs1] exI [of _ hs2]) simp
  next
    case (2 us)
    obtain phs1 ph' phs2 hs1 hs2 where "phs = phs1 @ ph' # phs2" "handler_list ph' = hs1 @ h # hs2"
      "p = Some (int (length hs1) + 1)" "us = flow_steps phs1 @ SetPhase (phase_name ph') # list_steps 0 hs1"
      "post = list_steps (int (length hs1) + 1) hs2 @ flow_steps phs2"
      using Cons.IH [OF 2(2)] Cons.prems(2) by auto
    with 2(1) ph show ?thesis
      by (intro exI [of _ "ph # phs1"] exI [of _ ph'] exI [of _ phs2] exI [of _ hs1] exI [of _ hs2]) simp
  qed
qed

text \<open>The position recorded in a context that a handler of a resumable flow has paused.\<close>

lemma paused_position:
  assumes run: "run_steps E (xs @ SetPhase n # list_steps i hs1) mc = (AXIS2_SUCCESS, mcP)"
    and np: "\<not> paused mcP" and st: "\<forall>g \<in> set hs1. steady E g" "steady E h"
    and step: "do_step E (RunHandler h (Some j)) mcP = (AXIS2_SUCCESS, mc1)"
  shows "paused_phase_name mc1 = n" "current_handler_index mc1 = j"
proof -
  obtain sA mcA where A: "run_steps E xs mc = (sA, mcA)" by force
  with run np have "sA \<noteq> AXIS2_FAILURE" "\<not> paused mcA"
    by (auto simp: run_steps_append split: if_splits)
  with run A have "run_steps E (list_steps i hs1) (axis2_msg_ctx_set_paused_phase_name mcA n) =
      (AXIS2_SUCCESS, mcP)"
    by (simp add: run_steps_append do_step_def)
  then have P: "paused_phase_name mcP = n"
    using list_steps_keep_name [OF st(1)]
    by (metis axis2_msg_ctx_set_paused_phase_name_def msg_ctx.select_convs msg_ctx.surjective
        msg_ctx.update_convs snd_conv)
  obtain s2 mc2 where h: "handler_invoke E h mcP = (s2, mc2)" by force
  then have "paused_phase_name mc2 = n" using st(2) P by (metis snd_conv steady_def)
  with h step show "paused_phase_name mc1 = n" "current_handler_index mc1 = j"
    by (auto simp: do_step_def split: if_splits)
qed

lemma unpause_simps [simp]:
  "paused (axis2_msg_ctx_set_paused mc b) = b"
  "paused_phase_name (axis2_msg_ctx_set_paused mc b) = paused_phase_name mc"
  "current_handler_index (axis2_msg_ctx_set_paused mc b) = current_handler_index mc"
  by (simp_all add: axis2_msg_ctx_set_paused_def)

lemma pause_resume_spec:
  assumes r: "resumable E fl" and np: "\<not> paused mc"
    and inv: "axis2_engine_invoke_phases E (Some fl) mc = Some (Inr (AXIS2_SUCCESS, mc1))"
    and p1: "paused mc1"
  shows "\<exists>ran remaining. flow_steps (flow_list fl) = ran @ remaining \<and>
    run_steps E ran mc = (AXIS2_SUCCESS, mc1) \<and>
    (smooth E remaining (axis2_msg_ctx_set_paused mc1 False) \<longrightarrow>
       axis2_engine_resume_invocation_phases E (Some fl) mc1 =
       Some (Inr (run_steps E remaining (axis2_msg_ctx_set_paused mc1 False))))"
proof -
  have ok: "flow_ok fl" using r by (simp add: resumable_def)
  have run: "run_steps E (flow_steps (flow_list fl)) mc = (AXIS2_SUCCESS, mc1)"
    using inv invoke_phases_spec [OF ok, of E mc] by simp
  obtain pre h p post mcP where sp: "flow_steps (flow_list fl) = pre @ RunHandler h p # post"
    "run_steps E pre mc = (AXIS2_SUCCESS, mcP)" "\<not> paused mcP"
    "do_step E (RunHandler h p) mcP = (AXIS2_SUCCESS, mc1)"
    using pause_split [OF run np p1] by blast
  have plain: "\<forall>ph \<in> set (flow_list fl). first_handler ph = None \<and> last_handler ph = None"
    using r by (simp add: resumable_def)
  obtain phs1 ph phs2 hs1 hs2 where f: "flow_list fl = phs1 @ ph # phs2"
    "handler_list ph = hs1 @ h # hs2" "p = Some (int (length hs1) + 1)"
    "pre = flow_steps phs1 @ SetPhase (phase_name ph) # list_steps 0 hs1"
    "post = list_steps (int (length hs1) + 1) hs2 @ flow_steps phs2"
    using flow_split [OF sp(1) plain] by blast
  have st: "\<forall>g \<in> set hs1. steady E g" "steady E h" using r f(1,2) by (auto simp: resumable_def)
  note pos = paused_position [OF sp(2) [unfolded f(4)] sp(3) st sp(4) [unfolded f(3)]]
  let ?mc = "axis2_msg_ctx_set_paused mc1 False"
  have "smooth E post ?mc \<Longrightarrow> axis2_engine_resume_invocation_phases E (Some fl) mc1 =
      Some (Inr (run_steps E post ?mc))"
    using resume_from [OF r f(1,2), of ?mc] pos f(5) flow_size [OF ok]
    by (simp add: axis2_engine_resume_invocation_phases_def)
  moreover have "run_steps E (pre @ [RunHandler h p]) mc = (AXIS2_SUCCESS, mc1)"
    using sp(2-4) by (simp add: run_steps_append)
  ultimately show ?thesis
    using sp(1) by (intro exI [of _ "pre @ [RunHandler h p]"] exI [of _ post]) simp
qed

end
