(* ===== verification/Engine_Props.thy ===== *)
theory Engine_Props
  imports Engine_Flow
begin

text \<open>
  The properties of the engine and of the message context, each with a witness on a concrete
  engine whose handlers write a trace.
\<close>

section \<open>A concrete engine for the witnesses\<close>

lemma plain_phase_simps [simp]:
  "phase_name (plain_phase n hs) = Some n" "handler_list (plain_phase n hs) = hs"
  "no_null_handler (plain_phase n hs)" "first_handler (plain_phase n hs) = None"
  "last_handler (plain_phase n hs) = None"
  by (auto simp: plain_phase_def handler_list_def no_null_handler_def comp_def)

lemma flow_of_simps [simp]: "flow_list (al_of phs) = phs"
  by (simp add: flow_list_def comp_def)

lemma flow_ok_of: "\<forall>ph \<in> set phs. no_null_handler ph \<Longrightarrow> flow_ok (al_of phs)"
  by (auto simp: flow_ok_def)

record trace_ctx = msg_ctx +
  trace :: "nat list"

text \<open>
  Handler 7 fails, handler 2 pauses the message the first time it runs; every handler notes its
  number. The sender notes 100 and the message receiver 200.
\<close>

definition mark :: "nat \<Rightarrow> trace_ctx \<Rightarrow> trace_ctx" where
  "mark h mc = mc\<lparr>trace := trace mc @ [h]\<rparr>"

definition trace_env :: "trace_ctx engine_env" where
  "trace_env = \<lparr>hstore = \<lparr>handler_at = (\<lambda>h. \<lparr>handler_desc = Some 0\<rparr>),
       desc_at = (\<lambda>d. \<lparr>desc_name = Some ''h'', desc_rules = None, desc_handler = None,
         desc_class_name = None\<rparr>)\<rparr>,
     handler_invoke = (\<lambda>h mc.
       if h = 7 then (AXIS2_FAILURE, mark h mc)
       else if h = 2 \<and> 2 \<notin> set (trace mc)
       then (AXIS2_SUCCESS, axis2_msg_ctx_set_paused (mark h mc) True)
       else (AXIS2_SUCCESS, mark h mc)),
     sender_invoke = (\<lambda>s mc. (AXIS2_SUCCESS, mark 100 mc)),
     msg_recv_receive = (\<lambda>r mc. (AXIS2_SUCCESS, mark 200 mc)),
     default_fault_envelope = (\<lambda>c r v. Some \<lparr>env_version = v, env_header = None\<rparr>),
     uuid_gen = Some ''1'', mem = (\<lambda>n. True)\<rparr>"

definition example_op :: "flow option \<Rightarrow> flow option \<Rightarrow> axis2_op" where
  "example_op fin out = \<lparr>op_qname = ''echo'',
     op_base = Some (\<lambda>k. case k of AXIS2_MSG_IN \<Rightarrow> Some \<lparr>msg_flow = fin\<rparr>
       | AXIS2_MSG_OUT \<Rightarrow> Some \<lparr>msg_flow = out\<rparr> | _ \<Rightarrow> None),
     op_msg_recv = Some 1\<rparr>"

definition example_conf :: "flow option \<Rightarrow> flow option \<Rightarrow> axis2_conf" where
  "example_conf fin out = \<lparr>conf_in_phases = fin, conf_out_phases = out, conf_out_fault_phases = None\<rparr>"

definition example_headers :: axis2_msg_info_headers where
  "example_headers = \<lparr>mih_to = None, mih_from = None,
     mih_reply_to = Some \<lparr>epr_address = Some ''http://client/reply''\<rparr>,
     mih_fault_to = Some \<lparr>epr_address = Some ''http://client/fault''\<rparr>,
     mih_action = Some ''urn:echo'', mih_message_id = Some ''urn:uuid:0'', mih_relates_to = None\<rparr>"

definition example_ctx :: "axis2_op \<Rightarrow> axis2_conf \<Rightarrow> bool \<Rightarrow> trace_ctx" where
  "example_ctx op conf server = \<lparr>mc_base = \<lparr>property_map = None\<rparr>, mc_parent = None,
     process_fault = False, msg_info_headers = Some example_headers,
     op_ctx = Some \<lparr>oc_base = None, oc_op = Some op, oc_parent = None, oc_msg_ctx_array = [],
       oc_is_complete = False\<rparr>, svc_ctx = None,
     svc_grp_ctx = None, conf_ctx = Some \<lparr>cc_base = None, cc_conf = Some conf\<rparr>, mc_op = None,
     mc_op_qname = None, transport_in_desc = None, transport_out_desc = Some \<lparr>to_sender = Some 1\<rparr>,
     soap_envelope_of = Some \<lparr>env_version = AXIOM_SOAP12, env_header = None\<rparr>,
     fault_soap_envelope = None, server_side = server, paused = False, paused_phase_name = None,
     paused_handler_name = None, doing_rest = False, is_soap_11 = False, execution_chain = None,
     current_handler_index = -1, paused_handler_index = -1, current_phase_index = 0,
     paused_phase_index = 0, transport_out_stream = None, out_transport_info = None, trace = []\<rparr>"

lemmas example_defs = trace_env_def example_op_def example_conf_def example_ctx_def mark_def

lemma steady_trace_env: "steady trace_env h"
  by (auto simp: steady_def trace_env_def mark_def axis2_handler_get_handler_desc_def
      axis2_msg_ctx_set_paused_def)

lemmas run_example = phase_steps_def edge_steps_def do_step_def flow_steps_def
  axis2_msg_ctx_set_paused_phase_name_def axis2_msg_ctx_set_current_handler_index_def
  axis2_msg_ctx_set_paused_def example_defs

section \<open>Running a flow\<close>

text \<open>
  C7 (refinement). On a flow without NULL entries \<^verbatim>\<open>axis2_engine_invoke_phases\<close> returns, and its
  status and its effect are those of the flat list of steps: announce a phase, run its first
  handler, its handlers in list order and its last handler, phase after phase, until a handler
  fails (then the failure is returned) or leaves the message paused (then success is returned).
\<close>

theorem engine_flow_in_order:
  assumes "flow_ok fl"
  shows "axis2_engine_invoke_phases E (Some fl) mc =
    Some (Inr (run_steps E (concat (map phase_steps (flow_list fl))) mc))"
  using invoke_phases_spec [OF assms] by (simp add: flow_steps_def)

theorem engine_flow_in_order_witness:
  "\<exists>mc. axis2_engine_invoke_phases trace_env (Some (al_of [plain_phase ''a'' [1, 3], plain_phase ''b'' [4, 2, 5]]))
    (example_ctx (example_op None None) (example_conf None None) True) = Some (Inr (AXIS2_SUCCESS, mc)) \<and>
    trace mc = [1, 3, 4, 2] \<and> paused mc"
proof -
  have "flow_ok (al_of [plain_phase ''a'' [1, 3], plain_phase ''b'' [4, 2, 5]])"
    by (intro flow_ok_of) simp
  then show ?thesis
    using engine_flow_in_order [of "al_of [plain_phase ''a'' [1, 3], plain_phase ''b'' [4, 2, 5]]" trace_env]
    by (simp add: run_example)
qed

lemma invoke_loop_stuck:
  assumes "index < sz" "\<not> paused mc" "ret_ptr (axutil_array_list_get (Some (handlers ph)) index) = None"
  shows "invoke_loop E ph index sz mc = None"
proof -
  let ?P = "\<lambda>E ph index sz mc y. \<not> (index < sz \<and> \<not> paused mc \<and>
    ret_ptr (axutil_array_list_get (Some (handlers ph)) index) = None)"
  have "?P E ph index sz mc y" if "invoke_loop E ph index sz mc = Some y" for y
    by (rule invoke_loop.raw_induct [of ?P, OF _ that])
      (fastforce simp: axis2_msg_ctx_is_paused_def split: if_splits option.splits)
  then show ?thesis using assms by (cases "invoke_loop E ph index sz mc") auto
qed

lemma invoke_loop_prefix:
  assumes inv: "al_inv (handlers ph)" and l: "al_list (handlers ph) = map Some hs @ rest"
  shows "i \<le> length hs \<Longrightarrow> \<not> paused mc \<Longrightarrow> smooth E (list_steps (int i) (drop i hs)) mc \<Longrightarrow>
    length hs \<le> n \<Longrightarrow> invoke_loop E ph (int i) (int n) mc =
    invoke_loop E ph (int (length hs)) (int n) (snd (run_steps E (list_steps (int i) (drop i hs)) mc))"
proof (induction "length hs - i" arbitrary: i mc)
  case 0
  then show ?case by simp
next
  case (Suc k)
  then have i: "i < length hs" by simp
  obtain s mc1 where h: "handler_invoke E (hs ! i) mc = (s, mc1)" by force
  let ?mc2 = "axis2_msg_ctx_set_current_handler_index (hstore E) mc1 (int i + 1)"
  have sm: "s = AXIS2_SUCCESS" "\<not> paused mc1"
    "smooth E (list_steps (int (Suc i)) (drop (Suc i) hs)) ?mc2"
    using Suc.prems(3) h by (auto simp: drop_handler_list [OF i] do_step_def)
  have get: "ret_ptr (axutil_array_list_get (Some (handlers ph)) (int i)) = Some (hs ! i)"
    using al.get_law [OF inv, of "int i"] l i by (simp add: nth_append)
  have "invoke_loop E ph (int i) (int n) mc = invoke_loop E ph (int (Suc i)) (int n) ?mc2"
    using i Suc.prems(2,4) get h sm(1)
    by (simp add: invoke_loop.simps [of E ph "int i"] axis2_msg_ctx_is_paused_def add.commute)
  also have "\<dots> = invoke_loop E ph (int (length hs)) (int n)
      (snd (run_steps E (list_steps (int (Suc i)) (drop (Suc i) hs)) ?mc2))"
    using Suc.hyps(2) i sm Suc.prems(4) by (intro Suc.hyps(1)) auto
  finally show ?case using Suc.prems(2) h sm(1) by (simp add: drop_handler_list [OF i] do_step_def)
qed

text \<open>
  When the message is not paused and the loop of
  \<^verbatim>\<open>axis2_phase_invoke\<close> reaches a NULL entry of the handler list, the phase never returns: the index
  is advanced only after a handler was invoked.
\<close>

theorem phase_invoke_null_handler_diverges:
  assumes "al_inv (handlers ph)" "al_list (handlers ph) = map Some hs @ None # rest"
    and "first_handler ph = None" "\<not> paused mc"
    and "smooth E (list_steps 0 hs) (axis2_msg_ctx_set_paused_phase_name mc (phase_name ph))"
  shows "axis2_phase_invoke E ph mc = None"
proof -
  let ?mc = "axis2_msg_ctx_set_paused_phase_name mc (phase_name ph)"
  let ?mc1 = "snd (run_steps E (list_steps 0 hs) ?mc)"
  have sz: "axutil_array_list_size (Some (handlers ph)) = int (length hs + Suc (length rest))"
    using al.size_law [OF assms(1)] assms(2) by simp
  have np: "\<not> paused ?mc" using assms(4) by (simp add: axis2_msg_ctx_set_paused_phase_name_def)
  then have np1: "\<not> paused ?mc1" using smooth_run [OF assms(5)] by simp
  have get: "ret_ptr (axutil_array_list_get (Some (handlers ph)) (int (length hs))) = None"
    using al.get_law [OF assms(1), of "int (length hs)"] assms(2) by (simp add: nth_append)
  have "invoke_loop E ph 0 (int (length hs + Suc (length rest))) ?mc =
      invoke_loop E ph (int (length hs)) (int (length hs + Suc (length rest))) ?mc1"
    using invoke_loop_prefix [OF assms(1,2), of 0 ?mc E "length hs + Suc (length rest)"] np assms(5) by simp
  also have "\<dots> = None" using np1 get by (intro invoke_loop_stuck) auto
  finally show ?thesis
    using assms(3) sz by (simp add: axis2_phase_invoke_def invoke_edge_handler_def)
qed

theorem phase_invoke_null_handler_diverges_witness:
  "axis2_phase_invoke trace_env ((plain_phase ''a'' [1])\<lparr>handlers :=
      \<lparr>al_size = 2, al_capacity = 2, al_data = [Some 1, None]\<rparr>\<rparr>)
    (example_ctx (example_op None None) (example_conf None None) True) = None"
  by (rule phase_invoke_null_handler_diverges [of _ "[1]" "[]"])
    (simp_all add: al_inv_def al_list_def run_example plain_phase_def)

text \<open>
  In a flow whose phases have distinct names and no first or last handler, and whose handlers leave
  the recorded position alone: when a handler pauses the message, the handlers that have run are an
  initial segment of the steps of the flow, and the engine resumes with the remaining steps. The
  recorded index is by then that of the handler after the one that paused, which therefore is not
  invoked again.
\<close>

theorem engine_pause_resume_once:
  assumes "resumable E fl" "\<not> paused mc" "paused mc1"
    and "axis2_engine_invoke_phases E (Some fl) mc = Some (Inr (AXIS2_SUCCESS, mc1))"
  shows "\<exists>ran remaining. flow_steps (flow_list fl) = ran @ remaining \<and>
    run_steps E ran mc = (AXIS2_SUCCESS, mc1) \<and>
    (smooth E remaining (axis2_msg_ctx_set_paused mc1 False) \<longrightarrow>
       axis2_engine_resume_invocation_phases E (Some fl) mc1 =
       Some (Inr (run_steps E remaining (axis2_msg_ctx_set_paused mc1 False))))"
  by (rule pause_resume_spec [OF assms(1,2,4,3)])

definition example_flow :: flow where
  "example_flow = al_of [plain_phase ''a'' [1], plain_phase ''b'' [3, 2, 4], plain_phase ''c'' [5]]"

lemma example_flow_resumable: "resumable trace_env example_flow"
  by (auto simp: resumable_def example_flow_def steady_trace_env intro!: flow_ok_of)

text \<open>The context in which handler 2 has paused the message, in phase \<open>b\<close> before handler 4.\<close>

definition paused_example :: "axis2_op \<Rightarrow> axis2_conf \<Rightarrow> bool \<Rightarrow> trace_ctx" where
  "paused_example op conf server =
     (example_ctx op conf server)\<lparr>paused := True, paused_phase_name := Some ''b'',
        current_handler_index := 2, trace := [1, 3, 2]\<rparr>"

theorem engine_pause_resume_once_witness:
  "\<exists>ran remaining. flow_steps (flow_list example_flow) = ran @ remaining \<and>
    run_steps trace_env ran (example_ctx (example_op None None) (example_conf None None) True) =
      (AXIS2_SUCCESS, paused_example (example_op None None) (example_conf None None) True)"
proof -
  let ?mc = "example_ctx (example_op None None) (example_conf None None) True"
  let ?mc1 = "paused_example (example_op None None) (example_conf None None) True"
  have run: "axis2_engine_invoke_phases trace_env (Some example_flow) ?mc =
      Some (Inr (AXIS2_SUCCESS, ?mc1))"
    using invoke_phases_spec [of example_flow trace_env ?mc] example_flow_resumable
    by (simp add: resumable_def paused_example_def example_flow_def run_example)
  have "\<not> paused ?mc" "paused ?mc1" by (simp_all add: example_ctx_def paused_example_def)
  from engine_pause_resume_once [OF example_flow_resumable this run] show ?thesis by blast
qed

text \<open>
  C1 (functional). In a flow whose phases have distinct names and no first or last handler, and whose
  handlers leave the recorded position alone, take a message whose recorded position is the handler
  with index \<open>j\<close> of the phase \<open>ph\<close>. \<^verbatim>\<open>axis2_engine_resume_invocation_phases\<close> unpauses the message, runs
  no handler of an earlier phase and none before \<open>j\<close> in \<open>ph\<close>, then runs the handlers of \<open>ph\<close> from index \<open>j\<close> on
  and all later phases, each handler once and in order, provided that none of them fails or pauses the
  message again. The status and the resulting context are those of this list of steps.
\<close>

theorem engine_resume_from_position:
  assumes "resumable E fl" and "flow_list fl = phs1 @ ph # phs2"
    and "paused_phase_name mc = phase_name ph"
    and "current_handler_index mc = int j" and "j \<le> length (handler_list ph)"
    and "smooth E (list_steps (int j) (drop j (handler_list ph)) @ flow_steps phs2)
      (axis2_msg_ctx_set_paused mc False)"
  shows "axis2_engine_resume_invocation_phases E (Some fl) mc =
    Some (Inr (run_steps E (list_steps (int j) (drop j (handler_list ph)) @ flow_steps phs2)
      (axis2_msg_ctx_set_paused mc False)))"
proof -
  have "flow_ok fl" using assms(1) by (simp add: resumable_def)
  with resume_at [OF assms(1,2,5) _ _ _ assms(6)] assms(3,4) show ?thesis
    by (simp add: axis2_engine_resume_invocation_phases_def flow_size axis2_msg_ctx_set_paused_def)
qed

theorem engine_resume_from_position_witness:
  "\<exists>mc. axis2_engine_resume_invocation_phases trace_env (Some example_flow)
      (paused_example (example_op None None) (example_conf None None) True) = Some (Inr (AXIS2_SUCCESS, mc)) \<and>
    trace mc = [1, 3, 2, 4, 5] \<and> \<not> paused mc"
proof -
  have "flow_list example_flow = [plain_phase ''a'' [1]] @ plain_phase ''b'' [3, 2, 4] # [plain_phase ''c'' [5]]"
    by (simp add: example_flow_def)
  from engine_resume_from_position [OF example_flow_resumable this,
      of "paused_example (example_op None None) (example_conf None None) True" 2]
  show ?thesis by (simp add: paused_example_def run_example)
qed

section \<open>Sending\<close>

lemma invoke_phases_paused:
  "paused mc \<Longrightarrow> axis2_engine_invoke_phases E (Some fl) mc = Some (Inr (AXIS2_SUCCESS, mc))"
  by (simp add: axis2_engine_invoke_phases_def invoke_phases_loop.simps [of E fl]
      axis2_msg_ctx_is_paused_def returns_def)

lemma invoke_global_paused:
  "paused mc \<Longrightarrow> invoke_global_phases get E mc = Some (Inr (AXIS2_SUCCESS, mc))"
  by (auto simp: invoke_global_phases_def invoke_phases_paused returns_def split: option.split)

text \<open>
  When a handler of the operation's out flow pauses a message that is being sent,
  \<^verbatim>\<open>axis2_engine_send\<close> returns success with exactly the context that handler left: no later
  handler, no global handler and no transport sender has seen it.
\<close>

theorem engine_send_paused_not_sent:
  assumes "\<not> paused mc" "op_ctx_flow axis2_op_get_out_flow mc = Some fl" "flow_ok fl"
    and "run_steps E (flow_steps (flow_list fl)) mc = (AXIS2_SUCCESS, mc1)" "paused mc1"
  shows "axis2_engine_send E (Some mc) = Some (Inr (AXIS2_SUCCESS, mc1))"
  using assms invoke_phases_spec [OF assms(3), of E mc] invoke_global_paused [OF assms(5)]
  by (simp add: axis2_engine_send_def axis2_msg_ctx_is_paused_def returns_def)

theorem engine_send_paused_not_sent_witness:
  "axis2_engine_send trace_env
     (Some (example_ctx (example_op None (Some example_flow)) (example_conf None None) False)) =
   Some (Inr (AXIS2_SUCCESS,
     paused_example (example_op None (Some example_flow)) (example_conf None None) False))"
  by (rule engine_send_paused_not_sent [of _ example_flow])
    (use example_flow_resumable in \<open>simp_all add: resumable_def op_ctx_flow_def desc_defs
      axis2_msg_ctx_get_op_ctx_def paused_example_def example_flow_def run_example\<close>)

text \<open>
  C34 (functional). When nothing fails or pauses, \<^verbatim>\<open>axis2_engine_send\<close> runs the handlers of the
  operation's out flow, then those of the global out phases, and then hands the resulting context
  to the transport sender, whose outcome it returns.
\<close>

theorem engine_send_runs_flows_then_sender:
  assumes "\<not> paused mc" "op_ctx_flow axis2_op_get_out_flow mc = Some fl" "flow_ok fl"
    and "run_steps E (flow_steps (flow_list fl)) mc = (AXIS2_SUCCESS, mc1)"
    and "conf_ctx mc1 = Some cc" "cc_conf cc = Some conf" "conf_out_phases conf = Some gl" "flow_ok gl"
    and "run_steps E (flow_steps (flow_list fl @ flow_list gl)) mc = (AXIS2_SUCCESS, mc2)" "\<not> paused mc2"
    and "transport_out_desc mc2 = Some t" "to_sender t = Some s"
  shows "axis2_engine_send E (Some mc) = Some (Inr (sender_invoke E s mc2))"
proof -
  have "run_steps E (flow_steps (flow_list gl)) mc1 = (AXIS2_SUCCESS, mc2)"
    using assms(4,9) by (simp add: run_steps_append)
  then have "invoke_global_phases axis2_conf_get_out_phases E mc1 = Some (Inr (AXIS2_SUCCESS, mc2))"
    using assms(5-8) invoke_phases_spec [OF assms(8), of E mc1]
    by (simp add: invoke_global_phases_def desc_defs axis2_msg_ctx_get_conf_ctx_def)
  then show ?thesis
    using assms invoke_phases_spec [OF assms(3), of E mc]
    by (simp add: axis2_engine_send_def axis2_msg_ctx_is_paused_def desc_defs
        axis2_msg_ctx_get_transport_out_desc_def)
qed

definition send_example :: "nat list \<Rightarrow> trace_ctx" where
  "send_example gs = example_ctx (example_op None (Some (al_of [plain_phase ''a'' [1, 3]])))
     (example_conf None (Some (al_of [plain_phase ''g'' gs]))) False"

theorem engine_send_runs_flows_then_sender_witness:
  "\<exists>mc. axis2_engine_send trace_env (Some (send_example [4])) = Some (Inr (AXIS2_SUCCESS, mc)) \<and>
     trace mc = [1, 3, 4, 100]"
proof -
  let ?mc = "send_example [4]"
  let ?mc1 = "snd (run_steps trace_env (flow_steps [plain_phase ''a'' [1, 3]]) ?mc)"
  let ?mc2 = "snd (run_steps trace_env (flow_steps [plain_phase ''a'' [1, 3], plain_phase ''g'' [4]]) ?mc)"
  have "axis2_engine_send trace_env (Some ?mc) = Some (Inr (sender_invoke trace_env 1 ?mc2))"
    by (rule engine_send_runs_flows_then_sender [of _ "al_of [plain_phase ''a'' [1, 3]]" _ ?mc1
          "\<lparr>cc_base = None, cc_conf = Some (example_conf None (Some (al_of [plain_phase ''g'' [4]])))\<rparr>"
          "example_conf None (Some (al_of [plain_phase ''g'' [4]]))" "al_of [plain_phase ''g'' [4]]" _ "\<lparr>to_sender = Some 1\<rparr>"])
      (simp_all add: op_ctx_flow_def desc_defs axis2_msg_ctx_get_op_ctx_def flow_ok_of
        run_example send_example_def)
  then show ?thesis by (simp add: run_example send_example_def)
qed

text \<open>
  The status of the global out phases is not looked at: when a
  handler of a global out phase fails (a module that signs or encrypts the message, say) and does
  not pause the message, \<^verbatim>\<open>axis2_engine_send\<close> still hands the message to the transport sender and
  returns the sender's status.
\<close>

theorem engine_send_ignores_global_failure:
  assumes "\<not> paused mc" "op_ctx_flow axis2_op_get_out_flow mc = Some fl" "flow_ok fl"
    and "run_steps E (flow_steps (flow_list fl)) mc = (AXIS2_SUCCESS, mc1)"
    and "conf_ctx mc1 = Some cc" "cc_conf cc = Some conf" "conf_out_phases conf = Some gl" "flow_ok gl"
    and "run_steps E (flow_steps (flow_list gl)) mc1 = (AXIS2_FAILURE, mc2)" "\<not> paused mc2"
    and "transport_out_desc mc2 = Some t" "to_sender t = Some s"
  shows "axis2_engine_send E (Some mc) = Some (Inr (sender_invoke E s mc2))"
proof -
  have "invoke_global_phases axis2_conf_get_out_phases E mc1 = Some (Inr (AXIS2_FAILURE, mc2))"
    using assms(5-9) invoke_phases_spec [OF assms(8), of E mc1]
    by (simp add: invoke_global_phases_def desc_defs axis2_msg_ctx_get_conf_ctx_def)
  then show ?thesis
    using assms invoke_phases_spec [OF assms(3), of E mc]
    by (simp add: axis2_engine_send_def axis2_msg_ctx_is_paused_def desc_defs
        axis2_msg_ctx_get_transport_out_desc_def)
qed

theorem engine_send_ignores_global_failure_witness:
  "\<exists>mc. axis2_engine_send trace_env (Some (send_example [7])) = Some (Inr (AXIS2_SUCCESS, mc)) \<and>
     trace mc = [1, 3, 7, 100]"
proof -
  let ?mc = "send_example [7]"
  let ?mc1 = "snd (run_steps trace_env (flow_steps [plain_phase ''a'' [1, 3]]) ?mc)"
  let ?mc2 = "snd (run_steps trace_env (flow_steps [plain_phase ''g'' [7]]) ?mc1)"
  have "axis2_engine_send trace_env (Some ?mc) = Some (Inr (sender_invoke trace_env 1 ?mc2))"
    by (rule engine_send_ignores_global_failure [of _ "al_of [plain_phase ''a'' [1, 3]]" _ ?mc1
          "\<lparr>cc_base = None, cc_conf = Some (example_conf None (Some (al_of [plain_phase ''g'' [7]])))\<rparr>"
          "example_conf None (Some (al_of [plain_phase ''g'' [7]]))" "al_of [plain_phase ''g'' [7]]" _ "\<lparr>to_sender = Some 1\<rparr>"])
      (simp_all add: op_ctx_flow_def desc_defs axis2_msg_ctx_get_op_ctx_def flow_ok_of
        run_example send_example_def)
  then show ?thesis by (simp add: run_example send_example_def)
qed

section \<open>Headers that must be understood\<close>

text \<open>A header block on which the check fails, by the SOAP version of the message.\<close>

definition next_role :: "bool \<Rightarrow> string" where
  "next_role soap11 = (if soap11 then AXIOM_SOAP11_SOAP_ACTOR_NEXT else AXIOM_SOAP12_SOAP_ROLE_NEXT)"

definition offending :: "bool \<Rightarrow> header_block \<Rightarrow> bool" where
  "offending soap11 hb \<longleftrightarrow> \<not> hb_processed hb \<and> hb_must_understand hb \<and>
     hb_role hb \<noteq> Some (next_role soap11)"

definition not_understood_version :: "bool \<Rightarrow> soap_version" where
  "not_understood_version soap11 = (if soap11 then AXIOM_SOAP11 else AXIOM_SOAP12)"

lemma must_understand_loop:
  "list_loop (must_understand_body E) es (AXIS2_SUCCESS, mc) =
   (if \<exists>e \<in> set es. \<exists>hb. e_val e = Some hb \<and> offending (is_soap_11 mc) hb
    then (AXIS2_FAILURE, not_understood E (not_understood_version (is_soap_11 mc)) mc)
    else (AXIS2_SUCCESS, mc))"
proof (induction es)
  case (Cons e es)
  have "must_understand_body E e (AXIS2_SUCCESS, mc) =
      (if \<exists>hb. e_val e = Some hb \<and> offending (is_soap_11 mc) hb
       then (True, (AXIS2_FAILURE, not_understood E (not_understood_version (is_soap_11 mc)) mc))
       else (False, (AXIS2_SUCCESS, mc)))"
    by (cases "e_val e") (auto simp: must_understand_body_def offending_def next_role_def
        not_understood_version_def axis2_msg_ctx_get_is_soap_11_def axutil_strcmp_eq_0 Let_def)
  with Cons show ?case by auto
qed simp

text \<open>
  On a message whose header blocks are in a well-formed table,
  \<^verbatim>\<open>axis2_engine_check_must_understand_headers\<close> returns failure exactly when some unprocessed
  block with the mustUnderstand attribute has no role or a role other than ``next''; then the
  fault envelope and the fault action are set in the context, and otherwise it is unchanged.
\<close>

theorem engine_must_understand_spec:
  assumes "soap_envelope_of mc = Some env" "env_header env = Some hdr" "sh_header_blocks hdr = Some ht"
    and "hash_inv ht" "mem_ok (mem E)"
  shows "axis2_engine_check_must_understand_headers E mc = Some (Inr
    (if \<exists>k hb. hash_abs ht k = Some hb \<and> offending (is_soap_11 mc) hb
     then (AXIS2_FAILURE, not_understood E (not_understood_version (is_soap_11 mc)) mc)
     else (AXIS2_SUCCESS, mc)))"
proof -
  obtain es p where es: "axutil_hash_first_impl (mem E) (Some ht) False = Inr p"
    "\<forall>(body :: header_block hash_entry \<Rightarrow> axis2_status \<times> 'a msg_ctx_scheme \<Rightarrow>
        bool \<times> (axis2_status \<times> 'a msg_ctx_scheme)) s.
       hash_foreach ht body p s = Inr (list_loop body es s)"
    "\<forall>k v. hash_abs ht k = Some v \<longleftrightarrow> (\<exists>e \<in> set es. entry_key e = k \<and> e_val e = Some v)"
    using iterate_once [OF assms(4), of "mem E", where ?'s = "axis2_status \<times> 'a msg_ctx_scheme"]
      assms(5) by (auto simp: mem_okD)
  have "(\<exists>e \<in> set es. \<exists>hb. e_val e = Some hb \<and> offending (is_soap_11 mc) hb) \<longleftrightarrow>
      (\<exists>k hb. hash_abs ht k = Some hb \<and> offending (is_soap_11 mc) hb)"
    using es(3) by blast
  then show ?thesis
    using assms(1-3) es(1,2) must_understand_loop [of E es mc]
    by (simp add: axis2_engine_check_must_understand_headers_def axis2_msg_ctx_get_soap_envelope_def)
qed

lemma header_table_exists:
  "\<exists>ht. hash_inv ht \<and> hash_abs ht =
     [''Security'' \<mapsto> \<lparr>hb_processed = False, hb_must_understand = True, hb_role = None\<rparr>]"
  using hash_built [of "[((''Security'', AXIS2_HASH_KEY_STRING),
    Some \<lparr>hb_processed = False, hb_must_understand = True, hb_role = None\<rparr>)]"]
  by (auto simp: valid_key_def norm_key_def AXIS2_HASH_KEY_STRING_def c_string_def)

theorem engine_must_understand_spec_witness:
  "\<exists>ht mc'. hash_abs ht = [''Security'' \<mapsto> \<lparr>hb_processed = False, hb_must_understand = True, hb_role = None\<rparr>] \<and>
    axis2_engine_check_must_understand_headers trace_env
      ((example_ctx (example_op None None) (example_conf None None) True)\<lparr>soap_envelope_of :=
         Some \<lparr>env_version = AXIOM_SOAP12, env_header = Some \<lparr>sh_header_blocks = Some ht\<rparr>\<rparr>\<rparr>) =
    Some (Inr (AXIS2_FAILURE, mc'))"
proof -
  let ?hb = "\<lparr>hb_processed = False, hb_must_understand = True, hb_role = None\<rparr>"
  obtain ht where ht: "hash_inv ht" "hash_abs ht = [''Security'' \<mapsto> ?hb]"
    using header_table_exists by blast
  let ?mc = "(example_ctx (example_op None None) (example_conf None None) True)\<lparr>soap_envelope_of :=
    Some \<lparr>env_version = AXIOM_SOAP12, env_header = Some \<lparr>sh_header_blocks = Some ht\<rparr>\<rparr>\<rparr>"
  have "mem_ok (mem trace_env)" by (simp add: trace_env_def)
  moreover have "\<exists>k hb. hash_abs ht k = Some hb \<and> offending (is_soap_11 ?mc) hb"
    using ht(2) by (intro exI [of _ "''Security''"]) (simp add: offending_def)
  ultimately show ?thesis
    using ht engine_must_understand_spec [of ?mc _ _ ht trace_env] by auto
qed

section \<open>Receiving\<close>

text \<open>
  On the server side a message whose global in phases fail is not delivered:
  \<^verbatim>\<open>axis2_engine_receive\<close> returns the failure with the context as the failing handler left it;
  no operation phase and no message receiver has seen it.
\<close>

theorem engine_receive_failure_not_delivered:
  assumes "\<not> paused mc" "conf_ctx mc = Some cc" "cc_conf cc = Some conf"
    and "conf_in_phases conf = Some pre" "flow_ok pre"
    and "run_steps E (flow_steps (flow_list pre)) mc = (AXIS2_FAILURE, mc1)" "server_side mc1"
  shows "axis2_engine_receive E (Some mc) = Some (Inr (AXIS2_FAILURE, mc1))"
  using assms invoke_phases_spec [OF assms(5), of E mc]
  by (simp add: axis2_engine_receive_def axis2_msg_ctx_is_paused_def desc_defs returns_def
      axis2_msg_ctx_get_conf_ctx_def axis2_msg_ctx_get_server_side_def)

definition receive_example :: "nat list \<Rightarrow> nat list \<Rightarrow> bool \<Rightarrow> trace_ctx" where
  "receive_example gs os server = example_ctx (example_op (Some (al_of [plain_phase ''o'' os])) None)
     (example_conf (Some (al_of [plain_phase ''g'' gs])) None) server"

theorem engine_receive_failure_not_delivered_witness:
  "\<exists>mc. axis2_engine_receive trace_env (Some (receive_example [1, 7, 3] [5] True)) =
     Some (Inr (AXIS2_FAILURE, mc)) \<and> trace mc = [1, 7]"
proof -
  let ?pre = "al_of [plain_phase ''g'' [1, 7, 3]]" and ?mc = "receive_example [1, 7, 3] [5] True"
  let ?conf = "example_conf (Some ?pre) None"
  have "axis2_engine_receive trace_env (Some ?mc) =
      Some (Inr (AXIS2_FAILURE, snd (run_steps trace_env (flow_steps (flow_list ?pre)) ?mc)))"
    by (rule engine_receive_failure_not_delivered [of _ "\<lparr>cc_base = None, cc_conf = Some ?conf\<rparr>" ?conf ?pre])
      (simp_all add: flow_ok_of run_example receive_example_def)
  then show ?thesis by (simp add: run_example receive_example_def)
qed



section \<open>Resuming a receive\<close>

lemma resume_not_found:
  assumes "flow_ok fl" "paused_phase_name mc \<notin> phase_name ` set (flow_list fl)"
  shows "axis2_engine_resume_invocation_phases E (Some fl) mc =
    Some (Inr (AXIS2_SUCCESS, axis2_msg_ctx_set_paused mc False))"
proof -
  let ?n = "length (flow_list fl)" and ?mc = "axis2_msg_ctx_set_paused mc False"
  have "resume_loop E fl (int 0) (int ?n) False ?mc = resume_loop E fl (int ?n) (int ?n) False ?mc"
    using assms by (intro resume_skip) auto
  also have "\<dots> = Some (Inr (AXIS2_SUCCESS, ?mc))"
    by (simp add: resume_loop.simps [of E fl "int ?n"] returns_def)
  finally show ?thesis
    using flow_size [OF assms(1)] by (simp add: axis2_engine_resume_invocation_phases_def)
qed

text \<open>
  A message that was paused in a global in phase and is
  given to \<^verbatim>\<open>axis2_engine_receive\<close> again: the rest of the global phases is run, but when the phase
  recorded after that is none of the operation's in flow (it is the last global phase that ran),
  no handler of the operation's in flow is run at all; the message goes straight to the check of
  the headers and to the message receiver.
\<close>

theorem engine_receive_resume_skips_op_phases:
  assumes "paused mc" "conf_ctx mc = Some cc" "cc_conf cc = Some conf"
    and "axis2_engine_resume_invocation_phases E (conf_in_phases conf) mc = Some (Inr (st, mc1))"
    and "\<not> paused mc1" "op_ctx mc1 = Some oc" "oc_op oc = Some op"
    and "axis2_op_get_in_flow op = Some fl" "flow_ok fl"
    and "paused_phase_name mc1 \<notin> phase_name ` set (flow_list fl)"
  shows "axis2_engine_receive E (Some mc) =
    deliver E AXIS2_FAILURE (Some op) (axis2_msg_ctx_set_paused mc1 False)"
proof -
  have "receive_op_phases E True AXIS2_FAILURE mc1 =
      deliver E AXIS2_FAILURE (Some op) (axis2_msg_ctx_set_paused mc1 False)"
    using assms(6-8) resume_not_found [OF assms(9,10), of E]
    by (simp add: receive_op_phases_def axis2_msg_ctx_get_op_ctx_def axis2_op_ctx_get_op_def
        axis2_msg_ctx_is_paused_def)
  then show ?thesis
    using assms(1-5)
    by (simp add: axis2_engine_receive_def axis2_msg_ctx_is_paused_def axis2_conf_ctx_get_conf_def
        axis2_conf_get_in_phases_upto_and_including_post_dispatch_def axis2_msg_ctx_get_conf_ctx_def)
qed

text \<open>Paused by handler 2 of the global phase \<open>g\<close>; the operation's phase \<open>o\<close> holds handler 5.\<close>

definition paused_receive :: "bool \<Rightarrow> trace_ctx" where
  "paused_receive server = (receive_example [1, 2, 3] [5] server)\<lparr>paused := True,
     paused_phase_name := Some ''g'', current_handler_index := 2, trace := [1, 2]\<rparr>"

definition resumed_receive :: "bool \<Rightarrow> trace_ctx" where
  "resumed_receive server = (receive_example [1, 2, 3] [5] server)\<lparr>
     paused_phase_name := Some ''g'', current_handler_index := 3, trace := [1, 2, 3]\<rparr>"

lemma paused_receive_resumes:
  "axis2_engine_resume_invocation_phases trace_env (Some (al_of [plain_phase ''g'' [1, 2, 3]]))
     (paused_receive server) = Some (Inr (AXIS2_SUCCESS, resumed_receive server))"
proof -
  let ?fl = "al_of [plain_phase ''g'' [1, 2, 3]]"
  let ?mc = "axis2_msg_ctx_set_paused (paused_receive server) False"
  have ok: "flow_ok ?fl" by (intro flow_ok_of) simp
  then have r: "resumable trace_env ?fl" by (simp add: resumable_def steady_trace_env)
  have run: "run_steps trace_env (list_steps (int (length [1::nat]) + 1) [3] @ flow_steps []) ?mc =
      (AXIS2_SUCCESS, resumed_receive server)"
    by (simp add: run_example paused_receive_def resumed_receive_def receive_example_def)
  have "resume_loop trace_env ?fl 0 (int (length (flow_list ?fl))) False ?mc =
      Some (Inr (run_steps trace_env (list_steps (int (length [1::nat]) + 1) [3] @ flow_steps []) ?mc))"
    by (rule resume_from [OF r, of "[]" "plain_phase ''g'' [1, 2, 3]" "[]" "[1]" 2 "[3]"])
      (simp_all add: run_example paused_receive_def receive_example_def)
  then show ?thesis
    using flow_size [OF ok] run by (simp add: axis2_engine_resume_invocation_phases_def)
qed

theorem engine_receive_resume_skips_op_phases_witness:
  "\<exists>mc. axis2_engine_receive trace_env (Some (paused_receive True)) = Some (Inr (AXIS2_SUCCESS, mc)) \<and>
     trace mc = [1, 2, 3, 200] \<and> 5 \<notin> set (trace mc)"
proof -
  let ?pre = "al_of [plain_phase ''g'' [1, 2, 3]]" and ?fl = "al_of [plain_phase ''o'' [5]]"
  let ?op = "example_op (Some ?fl) None" and ?conf = "example_conf (Some ?pre) None"
  have "axis2_engine_receive trace_env (Some (paused_receive True)) =
      deliver trace_env AXIS2_FAILURE (Some ?op)
        (axis2_msg_ctx_set_paused (resumed_receive True) False)"
    by (rule engine_receive_resume_skips_op_phases [of _ "\<lparr>cc_base = None, cc_conf = Some ?conf\<rparr>" ?conf
          _ AXIS2_SUCCESS _ "\<lparr>oc_base = None, oc_op = Some ?op, oc_parent = None, oc_msg_ctx_array = [],
       oc_is_complete = False\<rparr>" _ ?fl])
      (use paused_receive_resumes [of True] in \<open>simp_all add: flow_ok_of paused_receive_def
        resumed_receive_def receive_example_def example_ctx_def example_conf_def example_op_def desc_defs\<close>)
  then show ?thesis
    by (simp add: deliver_def axis2_engine_check_must_understand_headers_def msg_ctx_getters
        resumed_receive_def receive_example_def run_example returns_def axis2_op_get_msg_recv_def)
qed

text \<open>
  On the client side \<^verbatim>\<open>axis2_engine_receive\<close> returns failure
  for every paused message it resumes to the end: its status is still the initial one when the
  resumed phases have run without complaint.
\<close>

theorem engine_receive_resume_client_fails:
  assumes "paused mc" "conf_ctx mc = Some cc" "cc_conf cc = Some conf"
    and "axis2_engine_resume_invocation_phases E (conf_in_phases conf) mc = Some (Inr (AXIS2_SUCCESS, mc1))"
    and "\<not> paused mc1" "op_ctx mc1 = Some oc" "oc_op oc = Some op"
    and "axis2_engine_resume_invocation_phases E (axis2_op_get_in_flow op) mc1 =
      Some (Inr (AXIS2_SUCCESS, mc2))" "\<not> paused mc2" "\<not> server_side mc2"
  shows "axis2_engine_receive E (Some mc) = Some (Inr (AXIS2_FAILURE, mc2))"
proof -
  have "receive_op_phases E True AXIS2_FAILURE mc1 = Some (Inr (AXIS2_FAILURE, mc2))"
    using assms(6-10)
    by (simp add: receive_op_phases_def axis2_msg_ctx_get_op_ctx_def axis2_op_ctx_get_op_def
        axis2_msg_ctx_is_paused_def deliver_def axis2_msg_ctx_get_server_side_def returns_def)
  then show ?thesis
    using assms(1-5)
    by (simp add: axis2_engine_receive_def axis2_msg_ctx_is_paused_def axis2_conf_ctx_get_conf_def
        axis2_conf_get_in_phases_upto_and_including_post_dispatch_def axis2_msg_ctx_get_conf_ctx_def)
qed

theorem engine_receive_resume_client_fails_witness:
  "axis2_engine_receive trace_env (Some (paused_receive False)) =
     Some (Inr (AXIS2_FAILURE, axis2_msg_ctx_set_paused (resumed_receive False) False))"
proof -
  let ?pre = "al_of [plain_phase ''g'' [1, 2, 3]]" and ?fl = "al_of [plain_phase ''o'' [5]]"
  let ?op = "example_op (Some ?fl) None" and ?conf = "example_conf (Some ?pre) None"
  have "axis2_engine_resume_invocation_phases trace_env (Some ?fl) (resumed_receive False) =
      Some (Inr (AXIS2_SUCCESS, axis2_msg_ctx_set_paused (resumed_receive False) False))"
    by (rule resume_not_found) (simp_all add: flow_ok_of resumed_receive_def)
  then show ?thesis
    by (intro engine_receive_resume_client_fails [of _ "\<lparr>cc_base = None, cc_conf = Some ?conf\<rparr>" ?conf
          _ "resumed_receive False" "\<lparr>oc_base = None, oc_op = Some ?op, oc_parent = None, oc_msg_ctx_array = [],
       oc_is_complete = False\<rparr>" ?op])
      (use paused_receive_resumes [of False] in \<open>simp_all add: paused_receive_def resumed_receive_def
        receive_example_def example_ctx_def example_conf_def example_op_def desc_defs
        axis2_msg_ctx_set_paused_def\<close>)
qed

section \<open>Faults\<close>

text \<open>Where a fault about a message goes: \<^verbatim>\<open>fault_to\<close>, or \<^verbatim>\<open>reply_to\<close> when that is the none address.\<close>

definition fault_destination :: "'e msg_ctx_scheme \<Rightarrow> axis2_endpoint_ref option" where
  "fault_destination pc =
     (case axis2_msg_ctx_get_fault_to pc of
        None \<Rightarrow> None
      | Some f \<Rightarrow>
          if epr_address f = None then None
          else if epr_address f \<in> {Some AXIS2_WSA_NONE_URL, Some AXIS2_WSA_NONE_URL_SUBMISSION} then
            (case axis2_msg_ctx_get_reply_to pc of None \<Rightarrow> Some f | Some r \<Rightarrow> Some r)
          else Some f)"

lemma set_fault_destination_spec:
  assumes "msg_info_headers fc = Some h" "mih_to h = None"
  shows "set_fault_destination pc fc =
    (has_fault_to pc, fc\<lparr>msg_info_headers := Some (h\<lparr>mih_to := fault_destination pc\<rparr>)\<rparr>)"
proof -
  have "fc\<lparr>msg_info_headers := Some (h\<lparr>mih_to := None\<rparr>)\<rparr> = fc"
    using assms by (cases fc; cases h) simp
  then show ?thesis
    using assms
    by (auto simp: set_fault_destination_def fault_destination_def has_fault_to_def
        axis2_msg_ctx_set_fault_to_def axis2_msg_info_headers_set_to_def axutil_strcmp_eq_0
        split: option.splits)
qed

definition blank_headers :: axis2_msg_info_headers where
  "blank_headers = \<lparr>mih_to = None, mih_from = None, mih_reply_to = None, mih_fault_to = None,
     mih_action = None, mih_message_id = None, mih_relates_to = None\<rparr>"

lemma msg_ctx_create_ok:
  assumes "mem_ok malloc"
  shows "\<exists>ctx. axis2_msg_ctx_create malloc cc tin tout = Inr ctx \<and>
    msg_info_headers ctx = Some blank_headers \<and> conf_ctx ctx = cc \<and> transport_out_desc ctx = tout \<and>
    \<not> paused ctx \<and> svc_ctx ctx = None \<and> op_ctx ctx = None"
  using assms
  by (simp add: axis2_msg_ctx_create_def axis2_ctx_create_def axutil_hash_make_def mem_okD
      axis2_msg_info_headers_create_def blank_headers_def)

lemma set_op_ctx_fresh:
  assumes "svc_ctx ctx = None" "op_ctx ctx = None"
  shows "op_ctx (axis2_msg_ctx_set_op_ctx ctx p) = p"
    "paused (axis2_msg_ctx_set_op_ctx ctx p) = paused ctx"
    "conf_ctx (axis2_msg_ctx_set_op_ctx ctx p) = conf_ctx ctx"
    "msg_info_headers (axis2_msg_ctx_set_op_ctx ctx p) = msg_info_headers ctx"
    "transport_out_desc (axis2_msg_ctx_set_op_ctx ctx p) = transport_out_desc ctx"
  using assms
  by (auto simp: axis2_msg_ctx_set_op_ctx_def axis2_msg_ctx_set_op_def Let_def split: option.splits)

lemma set_soap_envelope_keeps [simp]:
  "process_fault (axis2_msg_ctx_set_soap_envelope ctx e) = process_fault ctx"
  "server_side (axis2_msg_ctx_set_soap_envelope ctx e) = server_side ctx"
  "paused (axis2_msg_ctx_set_soap_envelope ctx e) = paused ctx"
  "op_ctx (axis2_msg_ctx_set_soap_envelope ctx e) = op_ctx ctx"
  "conf_ctx (axis2_msg_ctx_set_soap_envelope ctx e) = conf_ctx ctx"
  "msg_info_headers (axis2_msg_ctx_set_soap_envelope ctx e) = msg_info_headers ctx"
  "transport_out_desc (axis2_msg_ctx_set_soap_envelope ctx e) = transport_out_desc ctx"
  by (simp_all add: axis2_msg_ctx_set_soap_envelope_def split: option.split)

text \<open>
  \<^verbatim>\<open>axis2_engine_create_fault_msg_ctx\<close>, with enough memory and a working
  construction of envelopes, returns a context for a message that is not itself being processed
  as a fault and that has somewhere to go. The new context is marked as a server side fault, is
  not paused, goes to the fault destination, relates to the message id of the request, carries a
  fresh message id, the operation context and the transport of the request. A fault about that
  context is refused: faults do not cascade.
\<close>

theorem engine_fault_context_spec:
  assumes "mem_ok (mem E)" "\<not> process_fault pc" "has_fault_to pc \<or> transport_out_stream pc \<noteq> None"
    and "\<forall>v. default_fault_envelope E code reason v \<noteq> None"
  shows "\<exists>fc. axis2_engine_create_fault_msg_ctx E engine (Some pc) code reason = Inr fc \<and>
    process_fault fc \<and> server_side fc \<and> \<not> paused fc \<and>
    axis2_msg_ctx_get_to fc = fault_destination pc \<and>
    Option.bind (msg_info_headers fc) mih_relates_to = Some (axis2_msg_ctx_get_msg_id pc,
      AXIS2_WSA_RELATES_TO_RELATIONSHIP_TYPE_DEFAULT_VALUE) \<and>
    axis2_msg_ctx_get_msg_id fc = map_option ((@) AXIS2_MESSAGE_ID_PREFIX) (uuid_gen E) \<and>
    axis2_msg_ctx_get_wsa_action fc = axis2_msg_ctx_get_wsa_action pc \<and>
    op_ctx fc = op_ctx pc \<and> conf_ctx fc = eng_conf_ctx engine \<and>
    transport_out_desc fc = transport_out_desc pc \<and>
    (\<forall>E' engine' c r. axis2_engine_create_fault_msg_ctx E' engine' (Some fc) c r =
       Inl INVALID_STATE_PROCESSING_FAULT_ALREADY)"
proof -
  obtain c where c: "axis2_msg_ctx_create (mem E) (eng_conf_ctx engine) (transport_in_desc pc)
      (transport_out_desc pc) = Inr c"
    "msg_info_headers c = Some blank_headers" "conf_ctx c = eng_conf_ctx engine"
    "transport_out_desc c = transport_out_desc pc" "\<not> paused c" "svc_ctx c = None" "op_ctx c = None"
    using msg_ctx_create_ok [OF assms(1)] by blast
  have dest: "set_fault_destination pc (c\<lparr>process_fault := True\<rparr>) = (has_fault_to pc,
      c\<lparr>process_fault := True, msg_info_headers := Some (blank_headers\<lparr>mih_to := fault_destination pc\<rparr>)\<rparr>)"
    using c by (subst set_fault_destination_spec [of _ blank_headers]) (simp_all add: blank_headers_def)
  let ?env = "case axis2_msg_ctx_get_fault_soap_envelope pc of Some env \<Rightarrow> Some env
      | None \<Rightarrow> if axis2_msg_ctx_get_is_soap_11 pc then default_fault_envelope E code reason AXIOM_SOAP11
                else default_fault_envelope E code reason AXIOM_SOAP12"
  have "?env \<noteq> None"
    using assms(4) by (cases "axis2_msg_ctx_get_fault_soap_envelope pc";
      cases "axis2_msg_ctx_get_is_soap_11 pc") (simp_all del: not_None_eq)
  then obtain e where e: "?env = Some e" by blast
  have m: "mem E n" for n using assms(1) by (rule mem_okD)
  note defs = axis2_engine_create_fault_msg_ctx_def axis2_msg_ctx_get_process_fault_def
    axis2_msg_ctx_get_transport_out_desc_def axis2_msg_ctx_get_to_def axis2_msg_ctx_get_msg_id_def
    axis2_msg_ctx_set_wsa_action_def axis2_msg_info_headers_set_action_def
    axis2_msg_ctx_set_relates_to_def axis2_msg_info_headers_set_relates_to_def
    axis2_relates_to_create_def axis2_msg_ctx_set_message_id_def
    axis2_msg_info_headers_set_message_id_def axis2_msg_ctx_get_op_ctx_def msg_ctx_setters
  show ?thesis
    using assms(2,3) c dest e m
    by (simp add: defs Let_def set_op_ctx_fresh blank_headers_def axis2_msg_ctx_get_wsa_action_def
        split: option.split prod.split)
qed

theorem engine_fault_context_spec_witness:
  "\<exists>fc. axis2_engine_create_fault_msg_ctx trace_env \<lparr>eng_conf_ctx = None\<rparr>
      (Some (example_ctx (example_op None None) (example_conf None None) True)) ''soapenv:Receiver'' ''boom'' = Inr fc \<and>
    axis2_msg_ctx_get_to fc = Some \<lparr>epr_address = Some ''http://client/fault''\<rparr> \<and>
    axis2_msg_ctx_get_msg_id fc = Some ''urn:uuid:1''"
proof -
  let ?pc = "example_ctx (example_op None None) (example_conf None None) True"
  have "mem_ok (mem trace_env)" "\<not> process_fault ?pc" "has_fault_to ?pc \<or> transport_out_stream ?pc \<noteq> None"
    "\<forall>v. default_fault_envelope trace_env ''soapenv:Receiver'' ''boom'' v \<noteq> None"
    by (simp_all add: trace_env_def example_ctx_def has_fault_to_def axis2_msg_ctx_get_fault_to_def
        example_headers_def)
  from engine_fault_context_spec [OF this, of "\<lparr>eng_conf_ctx = None\<rparr>"] show ?thesis
    by (auto simp: fault_destination_def axis2_msg_ctx_get_fault_to_def example_ctx_def
        example_headers_def trace_env_def AXIS2_MESSAGE_ID_PREFIX_def AXIS2_WSA_NONE_URL_def
        AXIS2_WSA_NONE_URL_SUBMISSION_def)
qed

text \<open>
  \<^verbatim>\<open>axis2_engine_create_fault_msg_ctx\<close> fails with
  \<^verbatim>\<open>AXIS2_ERROR_NOWHERE_TO_SEND_FAULT\<close> exactly for a request with no usable \<^verbatim>\<open>fault_to\<close> and no output
  stream that is not processed as a fault, whatever memory is granted.
\<close>

theorem engine_fault_nowhere_iff:
  "axis2_engine_create_fault_msg_ctx E engine (Some pc) code reason = Inl NOWHERE_TO_SEND_FAULT \<longleftrightarrow>
   \<not> process_fault pc \<and> \<not> has_fault_to pc \<and> transport_out_stream pc = None"
proof -
  have d: "fst (set_fault_destination pc c) = has_fault_to pc" for c
    by (auto simp: set_fault_destination_def has_fault_to_def split: option.split)
  show ?thesis
  proof (cases "axis2_msg_ctx_create (mem E) (eng_conf_ctx engine) (transport_in_desc pc)
      (transport_out_desc pc)")
    case (Inl e)
    then show ?thesis
      by (simp add: axis2_engine_create_fault_msg_ctx_def axis2_msg_ctx_get_process_fault_def
          axis2_msg_ctx_get_transport_out_desc_def)
  next
    case (Inr c)
    obtain b c1 where s: "set_fault_destination pc (axis2_msg_ctx_set_process_fault c True) = (b, c1)"
      by force
    then have "b = has_fault_to pc" using d by (metis fst_conv)
    with Inr s show ?thesis
      by (auto simp: axis2_engine_create_fault_msg_ctx_def axis2_msg_ctx_get_process_fault_def
          axis2_msg_ctx_get_transport_out_desc_def Let_def split: option.splits if_splits)
  qed
qed

text \<open>
  \<^verbatim>\<open>axis2_engine_get_receiver_fault_code\<close> tests the result of
  \<^verbatim>\<open>axutil_strcmp\<close> the wrong way round: for the SOAP 1.2 namespace it returns the SOAP 1.1 code
  ``Server'', and for every other namespace, the one of SOAP 1.1 included, the SOAP 1.2 code
  ``Receiver''.
\<close>

theorem engine_receiver_fault_code_swapped:
  "axis2_engine_get_receiver_fault_code ns =
     (if ns = Some AXIOM_SOAP12_SOAP_ENVELOPE_NAMESPACE_URI then ''Server'' else ''Receiver'')"
  by (auto simp: axis2_engine_get_receiver_fault_code_def axutil_strcmp_eq_0
      AXIOM_SOAP11_FAULT_CODE_RECEIVER_def AXIOM_SOAP12_FAULT_CODE_RECEIVER_def)

section \<open>The message context\<close>

text \<open>
  \<^verbatim>\<open>axis2_msg_ctx_set_fault_to\<close> stores its argument as the
  \<^verbatim>\<open>to\<close> address: what \<^verbatim>\<open>axis2_msg_ctx_get_fault_to\<close> returns is unchanged, and the previous \<^verbatim>\<open>to\<close> is
  lost.
\<close>

theorem msg_ctx_set_fault_to_sets_to:
  assumes "msg_info_headers mc = Some h"
  shows "axis2_msg_ctx_get_fault_to (axis2_msg_ctx_set_fault_to mc r) = axis2_msg_ctx_get_fault_to mc \<and>
    axis2_msg_ctx_get_to (axis2_msg_ctx_set_fault_to mc r) = r"
  using assms
  by (simp_all add: axis2_msg_ctx_get_fault_to_def axis2_msg_ctx_get_to_def
      axis2_msg_ctx_set_fault_to_def axis2_msg_info_headers_set_to_def)

theorem msg_ctx_set_fault_to_sets_to_witness:
  "axis2_msg_ctx_get_to (axis2_msg_ctx_set_fault_to
     (example_ctx (example_op None None) (example_conf None None) True) None) = None \<and>
   axis2_msg_ctx_get_fault_to (axis2_msg_ctx_set_fault_to
     (example_ctx (example_op None None) (example_conf None None) True) None) =
     Some \<lparr>epr_address = Some ''http://client/fault''\<rparr>"
  using msg_ctx_set_fault_to_sets_to [of "example_ctx (example_op None None) (example_conf None None) True"
      example_headers None]
  by (simp add: example_ctx_def axis2_msg_ctx_get_fault_to_def example_headers_def)

text \<open>The properties of a context as a map; no context, no properties.\<close>

definition ctx_ok :: "axis2_ctx option \<Rightarrow> bool" where
  "ctx_ok p = (case p of None \<Rightarrow> True | Some ctx \<Rightarrow>
     (case property_map ctx of None \<Rightarrow> True | Some ht \<Rightarrow> hash_inv ht))"

definition ctx_props :: "axis2_ctx option \<Rightarrow> string \<Rightarrow> ptr" where
  "ctx_props p key = (case p of None \<Rightarrow> None | Some ctx \<Rightarrow>
     (case property_map ctx of None \<Rightarrow> None | Some ht \<Rightarrow> hash_abs ht (c_string key)))"

definition all_bases :: "'e msg_ctx_scheme \<Rightarrow> axis2_ctx option list" where
  "all_bases mc = [Some (mc_base mc), Option.bind (op_ctx mc) oc_base, Option.bind (svc_ctx mc) sc_base,
     Option.bind (svc_grp_ctx mc) sgc_base, Option.bind (conf_ctx mc) cc_base]"

fun first_defined :: "'a option list \<Rightarrow> 'a option" where
  "first_defined [] = None"
| "first_defined (p # ps) = (case p of None \<Rightarrow> first_defined ps | Some v \<Rightarrow> Some v)"

definition short_key :: "string \<Rightarrow> bool" where
  "short_key key \<longleftrightarrow> length (c_string key) < 2 ^ 32 - 1"

lemma short_key_valid: "short_key key \<Longrightarrow> valid_key key AXIS2_HASH_KEY_STRING"
  by (simp add: short_key_def valid_key_def)

lemma ctx_get_property_spec:
  "ctx_ok (Some ctx) \<Longrightarrow> short_key key \<Longrightarrow>
   axis2_ctx_get_property malloc ctx key = Inr (ctx_props (Some ctx) key)"
  by (auto simp: axis2_ctx_get_property_def ctx_ok_def ctx_props_def hash_get_spec short_key_valid
      norm_key_def split: option.splits)

lemma search_base_spec:
  assumes "ctx_ok p" "short_key key"
  shows "search_base malloc key p (Inr q) =
    Inr (case ctx_props p key of None \<Rightarrow> q | Some v \<Rightarrow> Some v)"
proof (cases p)
  case None
  then show ?thesis by (simp add: search_base_def ctx_props_def)
next
  case (Some ctx)
  then show ?thesis
    using assms ctx_get_property_spec [of ctx key malloc]
    by (cases "ctx_props (Some ctx) key") (simp_all add: search_base_def)
qed

text \<open>
  \<^verbatim>\<open>axis2_msg_ctx_get_property\<close> returns the property of the innermost context that
  has one: the message context before the operation, service, service group and configuration
  contexts.
\<close>

theorem msg_ctx_property_innermost:
  assumes "\<forall>p \<in> set (all_bases mc). ctx_ok p" "short_key key"
  shows "axis2_msg_ctx_get_property malloc mc key =
    Inr (first_defined (map (\<lambda>p. ctx_props p key) (all_bases mc)))"
  using assms by (simp add: axis2_msg_ctx_get_property_def search_base_spec all_bases_def
      split: option.split)

lemma property_ctx_exists:
  "\<exists>ctx. ctx_ok (Some ctx) \<and> ctx_props (Some ctx) ''from'' = Some 2 \<and> ctx_props (Some ctx) ''x'' = None"
proof -
  obtain ht :: "nat axutil_hash" where "hash_inv ht" "hash_abs ht = [''from'' \<mapsto> 2, ''to'' \<mapsto> 3]"
    using hash_example by blast
  then show ?thesis
    by (intro exI [of _ "\<lparr>property_map = Some ht\<rparr>"]) (simp add: ctx_ok_def ctx_props_def c_string_def)
qed

theorem msg_ctx_property_innermost_witness:
  "\<exists>mc :: trace_ctx. axis2_msg_ctx_get_property (\<lambda>n. True) mc ''from'' = Inr (Some 2)"
proof -
  obtain ctx where ctx: "ctx_ok (Some ctx)" "ctx_props (Some ctx) ''from'' = Some 2"
    using property_ctx_exists by blast
  let ?mc = "(example_ctx (example_op None None) (example_conf None None) True)\<lparr>
    conf_ctx := Some \<lparr>cc_base = Some ctx, cc_conf = None\<rparr>\<rparr>"
  have "\<forall>p \<in> set (all_bases ?mc). ctx_ok p"
    using ctx(1) by (simp add: all_bases_def example_ctx_def ctx_ok_def)
  moreover have "short_key ''from''" by (simp add: short_key_def c_string_def)
  moreover have "first_defined (map (\<lambda>p. ctx_props p ''from'') (all_bases ?mc)) = Some 2"
    using ctx(2) by (simp add: all_bases_def example_ctx_def ctx_props_def)
  ultimately show ?thesis
    using msg_ctx_property_innermost [of ?mc "''from''" "\<lambda>n. True"] by auto
qed

end
