(* ===== verification/Linked_List.thy ===== *)
theory Linked_List
  imports Axis_Prelude
begin

text \<open>
  The doubly linked list of \<^verbatim>\<open>util/src/linked_list.c\<close>: every operation of the file. The entries live
  in a heap of addresses, because their pointers are shared; a dereference of NULL is
  \<open>UNDEFINED_BEHAVIOUR\<close>. The loops that follow pointers until NULL may not end on a cyclic
  heap and are partial functions into \<open>option\<close>. The size and the modification count are \<^verbatim>\<open>int\<close>s that
  each call changes by at most one; the histories of \<open>linked_list_refines_list\<close> are short enough for
  both to stay in range, which that theorem also states.
\<close>

section \<open>State\<close>

text \<open>\<^verbatim>\<open>entry_t\<close> of \<^verbatim>\<open>util/include/axutil_linked_list.h\<close>.\<close>

record 'a entry_t =
  e_data :: "'a option"
  e_next :: ptr
  e_previous :: ptr

text \<open>
  \<^verbatim>\<open>struct axutil_linked_list\<close>, with the heap its entries live in and the next unused address.
\<close>

record 'a linked_list =
  ll_size :: int
  ll_first :: ptr
  ll_last :: ptr
  ll_mod_count :: int
  ll_heap :: "nat \<Rightarrow> 'a entry_t option"
  ll_unused :: nat

definition sizeof_linked_list :: nat where
  "sizeof_linked_list = 32"

definition sizeof_entry :: nat where
  "sizeof_entry = 24"

text \<open>Reading and writing through an entry pointer.\<close>

definition deref :: "'a linked_list \<Rightarrow> ptr \<Rightarrow> 'a entry_t result" where
  "deref l p =
     (case p of None \<Rightarrow> Inl UNDEFINED_BEHAVIOUR
      | Some a \<Rightarrow> (case ll_heap l a of None \<Rightarrow> Inl UNDEFINED_BEHAVIOUR | Some e \<Rightarrow> Inr e))"

definition modify :: "ptr \<Rightarrow> ('a entry_t \<Rightarrow> 'a entry_t) \<Rightarrow> 'a linked_list \<Rightarrow> 'a linked_list result" where
  "modify p f l =
     res_bind (deref l p) (\<lambda>e. Inr (l\<lparr>ll_heap := (ll_heap l)(the p \<mapsto> f e)\<rparr>))"

section \<open>Operations\<close>

definition axutil_linked_list_create :: "alloc \<Rightarrow> 'a linked_list result" where
  "axutil_linked_list_create malloc =
     (if \<not> malloc sizeof_linked_list then Inl NO_MEMORY
      else Inr \<lparr>ll_size = 0, ll_first = None, ll_last = None, ll_mod_count = 0,
                ll_heap = (\<lambda>_. None), ll_unused = 0\<rparr>)"

text \<open>The new entry's address, or NULL when there is no memory.\<close>

definition axutil_linked_list_create_entry ::
    "alloc \<Rightarrow> 'a linked_list \<Rightarrow> 'a option \<Rightarrow> ptr \<times> 'a linked_list" where
  "axutil_linked_list_create_entry malloc l d =
     (if \<not> malloc sizeof_entry then (None, l)
      else (Some (ll_unused l),
            l\<lparr>ll_heap := (ll_heap l)(ll_unused l \<mapsto>
                 \<lparr>e_data = d, e_next = None, e_previous = None\<rparr>),
              ll_unused := ll_unused l + 1\<rparr>))"

definition axutil_linked_list_add_last_entry ::
    "'a linked_list \<Rightarrow> ptr \<Rightarrow> 'a linked_list result" where
  "axutil_linked_list_add_last_entry l e =
     (if e = None then Inl INVALID_NULL_PARAM
      else
        let l1 = l\<lparr>ll_mod_count := ll_mod_count l + 1\<rparr> in
        res_bind
          (if ll_size l1 = 0 then Inr (l1\<lparr>ll_first := e, ll_last := e\<rparr>)
           else
             res_bind (modify e (\<lambda>x. x\<lparr>e_previous := ll_last l1\<rparr>) l1) (\<lambda>l2.
             res_bind (modify (ll_last l2) (\<lambda>x. x\<lparr>e_next := e\<rparr>) l2) (\<lambda>l3.
             Inr (l3\<lparr>ll_last := e\<rparr>))))
          (\<lambda>l4. Inr (l4\<lparr>ll_size := ll_size l4 + 1\<rparr>)))"

text \<open>
  \<^verbatim>\<open>while (current) { next = current->next; free(current); current = next; }\<close>: the heap afterwards.
\<close>

partial_function (option) free_loop ::
    "(nat \<Rightarrow> 'a entry_t option) \<Rightarrow> ptr \<Rightarrow> (nat \<Rightarrow> 'a entry_t option) result option" where
  "free_loop h current =
     (case current of
        None \<Rightarrow> Some (Inr h)
      | Some a \<Rightarrow>
          (case h a of
             None \<Rightarrow> Some (Inl UNDEFINED_BEHAVIOUR)
           | Some e \<Rightarrow> free_loop (h(a := None)) (e_next e)))"

definition axutil_linked_list_free ::
    "'a linked_list \<Rightarrow> (nat \<Rightarrow> 'a entry_t option) result option" where
  "axutil_linked_list_free l = free_loop (ll_heap l) (ll_first l)"

text \<open>\<^verbatim>\<open>while (n > 0) { e = e->next; n = n - 1; }\<close>\<close>

fun forward_loop :: "'a linked_list \<Rightarrow> ptr \<Rightarrow> nat \<Rightarrow> ptr result" where
  "forward_loop l e 0 = Inr e"
| "forward_loop l e (Suc n) = res_bind (deref l e) (\<lambda>x. forward_loop l (e_next x) n)"

text \<open>
  \<^verbatim>\<open>while ((n = n + 1) < size) e = e->previous;\<close>: the body runs \<^verbatim>\<open>size - n - 1\<close> times.
\<close>

fun backward_loop :: "'a linked_list \<Rightarrow> ptr \<Rightarrow> nat \<Rightarrow> ptr result" where
  "backward_loop l e 0 = Inr e"
| "backward_loop l e (Suc n) = res_bind (deref l e) (\<lambda>x. backward_loop l (e_previous x) n)"

text \<open>In the second branch \<^verbatim>\<open>n = n + 1\<close> overflows when \<^verbatim>\<open>n\<close> is the greatest \<^verbatim>\<open>int\<close>.\<close>

definition axutil_linked_list_get_entry :: "'a linked_list \<Rightarrow> int \<Rightarrow> ptr result" where
  "axutil_linked_list_get_entry l n =
     (if n < ll_size l div 2 then forward_loop l (ll_first l) (nat n)
      else if n = INT_MAX then Inl UNDEFINED_BEHAVIOUR
      else backward_loop l (ll_last l) (nat (ll_size l - n - 1)))"

definition axutil_linked_list_remove_entry ::
    "'a linked_list \<Rightarrow> ptr \<Rightarrow> 'a linked_list result" where
  "axutil_linked_list_remove_entry l e =
     (if e = None then Inl INVALID_NULL_PARAM
      else
        let l1 = l\<lparr>ll_mod_count := ll_mod_count l + 1, ll_size := ll_size l - 1\<rparr> in
        if ll_size l1 = 0 then Inr (l1\<lparr>ll_first := None, ll_last := None\<rparr>)
        else
          res_bind (deref l1 e) (\<lambda>x.
          if e = ll_first l1 then
            modify (e_next x) (\<lambda>y. y\<lparr>e_previous := None\<rparr>) (l1\<lparr>ll_first := e_next x\<rparr>)
          else if e = ll_last l1 then
            modify (e_previous x) (\<lambda>y. y\<lparr>e_next := None\<rparr>) (l1\<lparr>ll_last := e_previous x\<rparr>)
          else
            res_bind (modify (e_next x) (\<lambda>y. y\<lparr>e_previous := e_previous x\<rparr>) l1) (\<lambda>l2.
            res_bind (deref l2 e) (\<lambda>x'.
            modify (e_previous x') (\<lambda>y. y\<lparr>e_next := e_next x'\<rparr>) l2))))"

text \<open>
  The bounds checks set the error and return false; their callers below ignore the result. The
  operations with an index therefore return the error they leave in the environment beside
  their value.
\<close>

definition axutil_linked_list_check_bounds_inclusive ::
    "'a linked_list \<Rightarrow> int \<Rightarrow> axis2_error option" where
  "axutil_linked_list_check_bounds_inclusive l index =
     (if index < 0 \<or> index > ll_size l then Some INDEX_OUT_OF_BOUNDS else None)"

definition axutil_linked_list_check_bounds_exclusive ::
    "'a linked_list \<Rightarrow> int \<Rightarrow> axis2_error option" where
  "axutil_linked_list_check_bounds_exclusive l index =
     (if index < 0 \<or> index \<ge> ll_size l then Some INDEX_OUT_OF_BOUNDS else None)"

definition axutil_linked_list_get_first :: "'a linked_list \<Rightarrow> 'a option result" where
  "axutil_linked_list_get_first l =
     (if ll_size l = 0 then Inl NO_SUCH_ELEMENT
      else res_bind (deref l (ll_first l)) (\<lambda>e. Inr (e_data e)))"

definition axutil_linked_list_get_last :: "'a linked_list \<Rightarrow> 'a option result" where
  "axutil_linked_list_get_last l =
     (if ll_size l = 0 then Inl NO_SUCH_ELEMENT
      else res_bind (deref l (ll_last l)) (\<lambda>e. Inr (e_data e)))"

definition axutil_linked_list_remove_first ::
    "'a linked_list \<Rightarrow> ('a option \<times> 'a linked_list) result" where
  "axutil_linked_list_remove_first l =
     (if ll_size l = 0 then Inl NO_SUCH_ELEMENT
      else
        let l1 = l\<lparr>ll_mod_count := ll_mod_count l + 1, ll_size := ll_size l - 1\<rparr> in
        res_bind (deref l1 (ll_first l1)) (\<lambda>e.
        res_bind
          (if e_next e \<noteq> None then modify (e_next e) (\<lambda>y. y\<lparr>e_previous := None\<rparr>) l1
           else Inr (l1\<lparr>ll_last := None\<rparr>)) (\<lambda>l2.
        res_bind (deref l2 (ll_first l2)) (\<lambda>e'.
        Inr (e_data e, l2\<lparr>ll_first := e_next e'\<rparr>)))))"

definition axutil_linked_list_remove_last ::
    "'a linked_list \<Rightarrow> ('a option \<times> 'a linked_list) result" where
  "axutil_linked_list_remove_last l =
     (if ll_size l = 0 then Inl NO_SUCH_ELEMENT
      else
        let l1 = l\<lparr>ll_mod_count := ll_mod_count l + 1, ll_size := ll_size l - 1\<rparr> in
        res_bind (deref l1 (ll_last l1)) (\<lambda>e.
        res_bind
          (if e_previous e \<noteq> None then modify (e_previous e) (\<lambda>y. y\<lparr>e_next := None\<rparr>) l1
           else Inr (l1\<lparr>ll_first := None\<rparr>)) (\<lambda>l2.
        res_bind (deref l2 (ll_last l2)) (\<lambda>e'.
        Inr (e_data e, l2\<lparr>ll_last := e_previous e'\<rparr>)))))"

definition axutil_linked_list_add_first ::
    "alloc \<Rightarrow> 'a linked_list \<Rightarrow> 'a option \<Rightarrow> 'a linked_list result" where
  "axutil_linked_list_add_first malloc l ob =
     (if ob = None then Inl INVALID_NULL_PARAM
      else
        let (e, l0) = axutil_linked_list_create_entry malloc l ob;
            l1 = l0\<lparr>ll_mod_count := ll_mod_count l0 + 1\<rparr> in
        res_bind
          (if ll_size l1 = 0 then Inr (l1\<lparr>ll_first := e, ll_last := e\<rparr>)
           else
             res_bind (modify e (\<lambda>x. x\<lparr>e_next := ll_first l1\<rparr>) l1) (\<lambda>l2.
             res_bind (modify (ll_first l2) (\<lambda>x. x\<lparr>e_previous := e\<rparr>) l2) (\<lambda>l3.
             Inr (l3\<lparr>ll_first := e\<rparr>))))
          (\<lambda>l4. Inr (l4\<lparr>ll_size := ll_size l4 + 1\<rparr>)))"

definition axutil_linked_list_add_last ::
    "alloc \<Rightarrow> 'a linked_list \<Rightarrow> 'a option \<Rightarrow> 'a linked_list result" where
  "axutil_linked_list_add_last malloc l ob =
     (if ob = None then Inl INVALID_NULL_PARAM
      else let (e, l0) = axutil_linked_list_create_entry malloc l ob
           in axutil_linked_list_add_last_entry l0 e)"

text \<open>
  The loop \<^verbatim>\<open>while (e) { if (o == e->data) ...; index++; e = e->next; }\<close> that \<^verbatim>\<open>contains\<close>, \<^verbatim>\<open>remove\<close> and
  \<^verbatim>\<open>index_of\<close> share: the entry with the data \<^verbatim>\<open>o\<close> and its index.
\<close>

partial_function (option) search_loop ::
    "'a linked_list \<Rightarrow> 'a option \<Rightarrow> int \<Rightarrow> ptr \<Rightarrow> (nat \<times> int) option result option" where
  "search_loop l ob index e =
     (case e of
        None \<Rightarrow> Some (Inr None)
      | Some a \<Rightarrow>
          (case ll_heap l a of
             None \<Rightarrow> Some (Inl UNDEFINED_BEHAVIOUR)
           | Some x \<Rightarrow>
               if ob = e_data x then Some (Inr (Some (a, index)))
               else search_loop l ob (index + 1) (e_next x)))"

partial_function (option) search_back_loop ::
    "'a linked_list \<Rightarrow> 'a option \<Rightarrow> int \<Rightarrow> ptr \<Rightarrow> (nat \<times> int) option result option" where
  "search_back_loop l ob index e =
     (case e of
        None \<Rightarrow> Some (Inr None)
      | Some a \<Rightarrow>
          (case ll_heap l a of
             None \<Rightarrow> Some (Inl UNDEFINED_BEHAVIOUR)
           | Some x \<Rightarrow>
               if ob = e_data x then Some (Inr (Some (a, index)))
               else search_back_loop l ob (index - 1) (e_previous x)))"

definition axutil_linked_list_contains ::
    "'a linked_list \<Rightarrow> 'a option \<Rightarrow> bool result option" where
  "axutil_linked_list_contains l ob =
     (if ob = None then Some (Inl INVALID_NULL_PARAM)
      else map_option (\<lambda>r. res_bind r (\<lambda>f. Inr (f \<noteq> None)))
             (search_loop l ob 0 (ll_first l)))"

definition axutil_linked_list_size :: "'a linked_list \<Rightarrow> int" where
  "axutil_linked_list_size l = ll_size l"

definition axutil_linked_list_add ::
    "alloc \<Rightarrow> 'a linked_list \<Rightarrow> 'a option \<Rightarrow> 'a linked_list result" where
  "axutil_linked_list_add malloc l ob =
     (if ob = None then Inl INVALID_NULL_PARAM
      else let (e, l0) = axutil_linked_list_create_entry malloc l ob
           in axutil_linked_list_add_last_entry l0 e)"

text \<open>\<^verbatim>\<open>axutil_linked_list_remove\<close> returns false (0) where no entry has the data.\<close>

definition axutil_linked_list_remove ::
    "'a linked_list \<Rightarrow> 'a option \<Rightarrow> (bool \<times> 'a linked_list) result option" where
  "axutil_linked_list_remove l ob =
     (if ob = None then Some (Inl INVALID_NULL_PARAM)
      else map_option (\<lambda>r. res_bind r (\<lambda>f.
             case f of
               None \<Rightarrow> Inr (False, l)
             | Some (a, _) \<Rightarrow>
                 res_bind (axutil_linked_list_remove_entry l (Some a)) (\<lambda>l'. Inr (True, l'))))
             (search_loop l ob 0 (ll_first l)))"

definition axutil_linked_list_clear :: "'a linked_list \<Rightarrow> 'a linked_list" where
  "axutil_linked_list_clear l =
     (if ll_size l > 0 then
        l\<lparr>ll_mod_count := ll_mod_count l + 1, ll_first := None, ll_last := None, ll_size := 0\<rparr>
      else l)"

definition axutil_linked_list_get ::
    "'a linked_list \<Rightarrow> int \<Rightarrow> (axis2_error option \<times> 'a option) result" where
  "axutil_linked_list_get l index =
     (let err = axutil_linked_list_check_bounds_exclusive l index in
      res_bind (axutil_linked_list_get_entry l index) (\<lambda>p.
      res_bind (deref l p) (\<lambda>e. Inr (err, e_data e))))"

definition axutil_linked_list_set ::
    "'a linked_list \<Rightarrow> int \<Rightarrow> 'a option \<Rightarrow>
     (axis2_error option \<times> 'a option \<times> 'a linked_list) result" where
  "axutil_linked_list_set l index ob =
     (if ob = None then Inl INVALID_NULL_PARAM
      else
        let err = axutil_linked_list_check_bounds_exclusive l index in
        res_bind (axutil_linked_list_get_entry l index) (\<lambda>p.
        res_bind (deref l p) (\<lambda>e.
        res_bind (modify p (\<lambda>x. x\<lparr>e_data := ob\<rparr>) l) (\<lambda>l'.
        Inr (err, e_data e, l')))))"

text \<open>
  In \<^verbatim>\<open>axutil_linked_list_add_at_index\<close> the status of \<^verbatim>\<open>add_last_entry\<close> is ignored: without memory
  for the entry the list is unchanged and the call still succeeds.
\<close>

definition axutil_linked_list_add_at_index ::
    "alloc \<Rightarrow> 'a linked_list \<Rightarrow> int \<Rightarrow> 'a option \<Rightarrow>
     (axis2_error option \<times> 'a linked_list) result" where
  "axutil_linked_list_add_at_index malloc l index ob =
     (if ob = None then Inl INVALID_NULL_PARAM
      else
        let err = axutil_linked_list_check_bounds_inclusive l index;
            (e, l0) = axutil_linked_list_create_entry malloc l ob in
        if index < ll_size l0 then
          let l1 = l0\<lparr>ll_mod_count := ll_mod_count l0 + 1\<rparr> in
          res_bind (axutil_linked_list_get_entry l1 index) (\<lambda>after.
          res_bind (modify e (\<lambda>x. x\<lparr>e_next := after\<rparr>) l1) (\<lambda>l2.
          res_bind (deref l2 after) (\<lambda>y.
          res_bind (modify e (\<lambda>x. x\<lparr>e_previous := e_previous y\<rparr>) l2) (\<lambda>l3.
          res_bind
            (if e_previous y = None then Inr (l3\<lparr>ll_first := e\<rparr>)
             else modify (e_previous y) (\<lambda>x. x\<lparr>e_next := e\<rparr>) l3) (\<lambda>l4.
          res_bind (modify after (\<lambda>x. x\<lparr>e_previous := e\<rparr>) l4) (\<lambda>l5.
          Inr (err, l5\<lparr>ll_size := ll_size l5 + 1\<rparr>)))))))
        else
          (case axutil_linked_list_add_last_entry l0 e of
             Inl UNDEFINED_BEHAVIOUR \<Rightarrow> Inl UNDEFINED_BEHAVIOUR
           | Inl err' \<Rightarrow> Inr (Some err', l0)
           | Inr l' \<Rightarrow> Inr (err, l')))"

text \<open>
  The status of \<^verbatim>\<open>remove_entry\<close> is ignored too; a NULL entry is dereferenced right after it.
\<close>

definition axutil_linked_list_remove_at_index ::
    "'a linked_list \<Rightarrow> int \<Rightarrow> (axis2_error option \<times> 'a option \<times> 'a linked_list) result" where
  "axutil_linked_list_remove_at_index l index =
     (let err = axutil_linked_list_check_bounds_exclusive l index in
      res_bind (axutil_linked_list_get_entry l index) (\<lambda>p.
      if p = None then Inl UNDEFINED_BEHAVIOUR
      else
        res_bind (axutil_linked_list_remove_entry l p) (\<lambda>l'.
        res_bind (deref l' p) (\<lambda>e. Inr (err, e_data e, l')))))"

text \<open>
  \<^verbatim>\<open>index_of\<close> and \<^verbatim>\<open>last_index_of\<close> return an \<^verbatim>\<open>int\<close>; for a NULL argument that is
  \<^verbatim>\<open>AXIS2_FAILURE\<close>, the number 0.
\<close>

definition axutil_linked_list_index_of :: "'a linked_list \<Rightarrow> 'a option \<Rightarrow> int result option" where
  "axutil_linked_list_index_of l ob =
     (if ob = None then Some (Inr (status_int AXIS2_FAILURE))
      else map_option (\<lambda>r. res_bind r (\<lambda>f. Inr (case f of None \<Rightarrow> -1 | Some (_, i) \<Rightarrow> i)))
             (search_loop l ob 0 (ll_first l)))"

definition axutil_linked_list_last_index_of ::
    "'a linked_list \<Rightarrow> 'a option \<Rightarrow> int result option" where
  "axutil_linked_list_last_index_of l ob =
     (if ob = None then Some (Inr (status_int AXIS2_FAILURE))
      else map_option (\<lambda>r. res_bind r (\<lambda>f. Inr (case f of None \<Rightarrow> -1 | Some (_, i) \<Rightarrow> i)))
             (search_back_loop l ob (ll_size l - 1) (ll_last l)))"

text \<open>
  \<^verbatim>\<open>for (i = 0; i < size; i++) { array[i] = e->data; e = e->next; }\<close>
\<close>

fun array_loop :: "'a linked_list \<Rightarrow> ptr \<Rightarrow> nat \<Rightarrow> 'a option list result" where
  "array_loop l e 0 = Inr []"
| "array_loop l e (Suc n) =
     res_bind (deref l e) (\<lambda>x. res_bind (array_loop l (e_next x) n) (\<lambda>ds. Inr (e_data x # ds)))"

text \<open>The block is written without a check that it was allocated.\<close>

definition axutil_linked_list_to_array ::
    "alloc \<Rightarrow> 'a linked_list \<Rightarrow> 'a option list result" where
  "axutil_linked_list_to_array malloc l =
     (if \<not> malloc (nat (ll_size l) * sizeof_ptr) \<and> ll_size l > 0 then Inl UNDEFINED_BEHAVIOUR
      else array_loop l (ll_first l) (nat (ll_size l)))"

end
