(* ===== verification/Linked_List_Spec.thy ===== *)
theory Linked_List_Spec
  imports Linked_List
begin

text \<open>
  The linked list refines a list. \<open>dseg h p ps xs q\<close> says that the heap \<open>h\<close> holds, at the addresses
  \<open>ps\<close>, a doubly linked segment with the data \<open>xs\<close>, between the pointers \<open>p\<close> before it and \<open>q\<close> after
  it. The list's invariant is one segment from NULL to NULL; every operation is shown to
  turn one such segment into another, and histories of calls follow from the locale
  \<open>simulation\<close>.
\<close>

section \<open>Doubly linked segments\<close>

fun dseg :: "(nat \<Rightarrow> 'a entry_t option) \<Rightarrow> ptr \<Rightarrow> nat list \<Rightarrow> 'a list \<Rightarrow> ptr \<Rightarrow> bool" where
  "dseg h p [] [] q = True"
| "dseg h p (a # as) (x # xs) q =
     (h a = Some \<lparr>e_data = Some x, e_next = first_of as q, e_previous = p\<rparr> \<and>
      dseg h (Some a) as xs q)"
| "dseg h p as xs q = False"

lemma dseg_length: "dseg h p as xs q \<Longrightarrow> length as = length xs"
  by (induction h p as xs q rule: dseg.induct) auto

lemma dseg_Nil [simp]: "dseg h p [] xs q \<longleftrightarrow> xs = []" "dseg h p as [] q \<longleftrightarrow> as = []"
  by (cases xs; simp) (cases as; simp)

lemma dseg_frame [simp]: "a \<notin> set as \<Longrightarrow> dseg (h(a := v)) p as xs q = dseg h p as xs q"
  by (induction h p as xs q rule: dseg.induct) auto

lemma dseg_append:
  "length as = length xs \<Longrightarrow>
   dseg h p (as @ bs) (xs @ ys) q \<longleftrightarrow>
     dseg h p as xs (first_of bs q) \<and> dseg h (last_of as p) bs ys q"
  by (induction as xs arbitrary: p rule: list_induct2) (auto simp: first_of_append)

lemma dseg_snoc:
  "length as = length xs \<Longrightarrow>
   dseg h p (as @ [a]) (xs @ [x]) q \<longleftrightarrow> dseg h p as xs (Some a) \<and>
     h a = Some \<lparr>e_data = Some x, e_next = q, e_previous = last_of as p\<rparr>"
  by (simp add: dseg_append)

lemma dseg_split:
  assumes "dseg h p ps xs q" and "i < length xs"
  obtains as a bs where "ps = as @ a # bs" "length as = i"
    "dseg h p as (take i xs) (Some a)" "dseg h (Some a) bs (drop (Suc i) xs) q"
    "h a = Some \<lparr>e_data = Some (xs ! i), e_next = first_of bs q, e_previous = last_of as p\<rparr>"
proof -
  let ?as = "take i ps" and ?a = "ps ! i" and ?bs = "drop (Suc i) ps"
  have len: "length ps = length xs" using dseg_length [OF assms(1)] .
  have ps: "ps = ?as @ ?a # ?bs" and xs: "xs = take i xs @ xs ! i # drop (Suc i) xs"
    using assms(2) len by (simp_all add: id_take_nth_drop [symmetric])
  have "dseg h p (?as @ ?a # ?bs) (take i xs @ xs ! i # drop (Suc i) xs) q"
    using assms(1) ps xs by metis
  moreover have "length ?as = length (take i xs)" using len by simp
  ultimately have "dseg h p ?as (take i xs) (Some ?a) \<and>
      dseg h (last_of ?as p) (?a # ?bs) (xs ! i # drop (Suc i) xs) q"
    by (simp add: dseg_append del: dseg.simps)
  then show thesis using that [OF ps] len assms(2) by simp
qed

text \<open>Redirecting the pointer at either end of a segment.\<close>

lemma dseg_set_next:
  assumes "dseg h p as xs q" and "distinct as" and "as \<noteq> []"
  obtains e where "h (last as) = Some e" "dseg (h(last as \<mapsto> e\<lparr>e_next := q'\<rparr>)) p as xs q'"
proof -
  obtain bs b where as: "as = bs @ [b]" using assms(3) by (metis rev_exhaust)
  obtain ys y where xs: "xs = ys @ [y]"
    using dseg_length [OF assms(1)] assms(3) by (metis length_0_conv rev_exhaust)
  have "length bs = length ys" using dseg_length [OF assms(1)] as xs by simp
  then show thesis
    using assms(1,2) that unfolding as xs by (auto simp: dseg_snoc)
qed

lemma dseg_set_prev:
  assumes "dseg h p as xs q" and "distinct as" and "as \<noteq> []"
  obtains e where "h (hd as) = Some e" "dseg (h(hd as \<mapsto> e\<lparr>e_previous := p'\<rparr>)) p' as xs q"
proof -
  obtain b bs where as: "as = b # bs" using assms(3) by (cases as) auto
  obtain y ys where xs: "xs = y # ys" using assms(1) as by (cases xs) auto
  show thesis using assms(1,2) that unfolding as xs by auto
qed

section \<open>The invariant\<close>

definition ll_inv :: "'a linked_list \<Rightarrow> nat list \<Rightarrow> 'a list \<Rightarrow> bool" where
  "ll_inv l ps xs \<longleftrightarrow> distinct ps \<and> dseg (ll_heap l) None ps xs None \<and>
     ll_size l = int (length xs) \<and> ll_first l = first_of ps None \<and> ll_last l = last_of ps None \<and>
     (\<forall>a \<in> set ps. a < ll_unused l)"

text \<open>The data of the list, read by following the next pointers.\<close>

definition ll_list :: "'a linked_list \<Rightarrow> 'a list" where
  "ll_list l = (case array_loop l (ll_first l) (nat (ll_size l)) of
     Inl _ \<Rightarrow> [] | Inr ds \<Rightarrow> map the ds)"

definition ll_ok :: "'a linked_list \<Rightarrow> bool" where
  "ll_ok l \<longleftrightarrow> (\<exists>ps. ll_inv l ps (ll_list l))"

lemma deref_Some [simp]:
  "ll_heap l a = Some e \<Longrightarrow> deref l (Some a) = Inr e"
  by (simp add: deref_def)

lemma modify_Some [simp]:
  "ll_heap l a = Some e \<Longrightarrow> modify (Some a) f l = Inr (l\<lparr>ll_heap := (ll_heap l)(a \<mapsto> f e)\<rparr>)"
  by (simp add: modify_def)

lemma array_loop_dseg:
  "dseg (ll_heap l) p ps xs None \<Longrightarrow>
   array_loop l (first_of ps None) (length xs) = Inr (map Some xs)"
proof (induction "ll_heap l" p ps xs "None :: ptr" rule: dseg.induct)
  case (2 p a as x xs)
  then show ?case by simp
qed simp_all

lemma ll_inv_list: "ll_inv l ps xs \<Longrightarrow> ll_list l = xs"
  by (auto simp: ll_inv_def ll_list_def array_loop_dseg comp_def)

lemma ll_inv_ok: "ll_inv l ps xs \<Longrightarrow> ll_ok l \<and> ll_list l = xs"
  using ll_inv_list by (auto simp: ll_ok_def)

section \<open>Finding an entry\<close>

lemma forward_loop_dseg:
  "dseg (ll_heap l) p ps xs q \<Longrightarrow> i < length ps \<Longrightarrow>
   forward_loop l (first_of ps q) i = Inr (Some (ps ! i))"
proof (induction "ll_heap l" p ps xs q arbitrary: i rule: dseg.induct)
  case (2 p a as x xs q)
  then show ?case by (cases i) auto
qed simp_all

lemma backward_loop_dseg:
  "dseg (ll_heap l) p ps xs q \<Longrightarrow> i < length ps \<Longrightarrow>
   backward_loop l (last_of ps p) i = Inr (Some (ps ! (length ps - 1 - i)))"
proof (induction ps arbitrary: xs q i rule: rev_induct)
  case (snoc a as)
  obtain ys y where xs: "xs = ys @ [y]"
    using dseg_length [OF snoc.prems(1)] by (metis length_append_singleton Zero_not_Suc list.size(3) rev_exhaust)
  have "length as = length ys" using dseg_length [OF snoc.prems(1)] xs by simp
  then have d: "dseg (ll_heap l) p as ys (Some a)"
      "ll_heap l a = Some \<lparr>e_data = Some y, e_next = q, e_previous = last_of as p\<rparr>"
    using snoc.prems(1) by (simp_all add: xs dseg_snoc)
  show ?case
  proof (cases i)
    case (Suc j)
    with snoc.prems(2) have "length as - Suc j < length as" by simp
    with Suc snoc.IH [OF d(1), of j] snoc.prems(2) d(2) show ?thesis
      by (simp add: nth_append)
  qed simp
qed simp

text \<open>
  The entry an index names: an index below the list names its first entry, one above its last.
\<close>

definition clamp :: "int \<Rightarrow> nat \<Rightarrow> nat" where
  "clamp i n = (if i < 0 then 0 else if nat i < n then nat i else n - 1)"

lemma clamp_less: "0 < n \<Longrightarrow> clamp i n < n"
  by (simp add: clamp_def)

lemma get_entry_spec:
  assumes "ll_inv l ps xs" and "i < INT_MAX"
  shows "axutil_linked_list_get_entry l i =
    Inr (if xs = [] then None else Some (ps ! clamp i (length xs)))"
proof (cases "xs = []")
  case True
  with assms show ?thesis
    by (auto simp: axutil_linked_list_get_entry_def ll_inv_def)
next
  case False
  have inv: "dseg (ll_heap l) None ps xs None" "ll_size l = int (length xs)"
    "ll_first l = first_of ps None" "ll_last l = last_of ps None"
    using assms by (auto simp: ll_inv_def)
  have len: "length ps = length xs" using dseg_length [OF inv(1)] .
  show ?thesis
  proof (cases "i < int (length xs) div 2")
    case True
    then have "nat i < length ps" using False len by (cases "i < 0") (simp, linarith)
    with True False show ?thesis
      using forward_loop_dseg [OF inv(1), of "nat i"] len
      by (auto simp: axutil_linked_list_get_entry_def inv clamp_def)
  next
    case ge: False
    then have i: "0 \<le> i" using False by linarith
    have "nat (int (length xs) - i - 1) < length ps"
      using False len i length_greater_0_conv [of xs] by linarith
    from backward_loop_dseg [OF inv(1) this] ge i False len assms(2) show ?thesis
      by (auto simp: axutil_linked_list_get_entry_def inv clamp_def nat_diff_distrib
          intro!: arg_cong [where f = "nth ps"])
  qed
qed

section \<open>Removing entries\<close>

text \<open>Joining the segments on both sides of an entry, as \<^verbatim>\<open>remove_entry\<close> does.\<close>

lemma dseg_unlink:
  assumes dist: "distinct (as @ a # bs)" and len: "length as = length us"
    and as: "dseg h None as us (Some a)" and bs: "dseg h (Some a) bs vs None"
    and ne: "as \<noteq> []" "bs \<noteq> []"
  obtains e e' where "h (hd bs) = Some e" "h (last as) = Some e'" "last as \<noteq> hd bs"
    "dseg (h(hd bs \<mapsto> e\<lparr>e_previous := Some (last as)\<rparr>, last as \<mapsto> e'\<lparr>e_next := Some (hd bs)\<rparr>))
       None (as @ bs) (us @ vs) None"
proof -
  have d: "hd bs \<notin> set as" "last as \<notin> set bs" "last as \<noteq> hd bs"
    using dist hd_in_set [OF ne(2)] last_in_set [OF ne(1)]
    by (auto simp del: hd_in_set last_in_set)
  from dseg_set_prev [OF bs _ ne(2), of "Some (last as)"] dist obtain e
    where e: "h (hd bs) = Some e"
      "dseg (h(hd bs \<mapsto> e\<lparr>e_previous := Some (last as)\<rparr>)) (Some (last as)) bs vs None" by auto
  let ?h = "h(hd bs \<mapsto> e\<lparr>e_previous := Some (last as)\<rparr>)"
  have as': "dseg ?h None as us (Some a)" using as d(1) by simp
  from dseg_set_next [OF as' _ ne(1), of "Some (hd bs)"] dist obtain e'
    where e': "?h (last as) = Some e'"
      "dseg (?h(last as \<mapsto> e'\<lparr>e_next := Some (hd bs)\<rparr>)) None as us (Some (hd bs))" by auto
  have "last_of as None = Some (last as)" "first_of bs None = Some (hd bs)"
    using ne by (auto simp: last_of_def first_of_def split: list.splits)
  then have "dseg (?h(last as \<mapsto> e'\<lparr>e_next := Some (hd bs)\<rparr>)) None (as @ bs) (us @ vs) None"
    using e e' d len by (simp add: dseg_append)
  with e e' d that show thesis by auto
qed

text \<open>What the invariant says around one entry.\<close>

lemma ll_inv_middle:
  assumes "ll_inv l (as @ a # bs) (us @ x # vs)" and "length as = length us"
  shows "distinct (as @ a # bs)" "ll_size l = int (length us + length vs) + 1"
    "dseg (ll_heap l) None as us (Some a)" "dseg (ll_heap l) (Some a) bs vs None"
    "ll_heap l a =
       Some \<lparr>e_data = Some x, e_next = first_of bs None, e_previous = last_of as None\<rparr>"
    "ll_first l = first_of as (Some a)" "ll_last l = last_of bs (Some a)"
    "\<forall>b \<in> set (as @ a # bs). b < ll_unused l" "length bs = length vs"
  using assms dseg_length [of "ll_heap l" "Some a" bs vs None]
  by (auto simp: ll_inv_def dseg_append first_of_append last_of_append)

lemma first_of_eq: "as \<noteq> [] \<Longrightarrow> first_of as q = Some (hd as)"
  by (cases as) simp_all

lemma last_of_eq: "as \<noteq> [] \<Longrightarrow> last_of as p = Some (last as)"
  by (simp add: last_of_def)

lemma remove_entry_spec:
  assumes inv: "ll_inv l (as @ a # bs) (us @ x # vs)" and len: "length as = length us"
  shows "\<exists>l' e. axutil_linked_list_remove_entry l (Some a) = Inr l' \<and>
    ll_inv l' (as @ bs) (us @ vs) \<and> ll_mod_count l' = ll_mod_count l + 1 \<and>
    ll_heap l' a = Some e \<and> e_data e = Some x"
proof -
  note m = ll_inv_middle [OF inv len]
  show ?thesis
  proof (cases "as = []"; cases "bs = []")
    assume "as = []" "bs = []"
    with m len show ?thesis
      by (simp add: axutil_linked_list_remove_entry_def ll_inv_def)
  next
    assume ne: "as = []" "bs \<noteq> []"
    from dseg_set_prev [OF m(4) _ ne(2), of None] m(1) obtain e
      where e: "ll_heap l (hd bs) = Some e"
        "dseg ((ll_heap l)(hd bs \<mapsto> e\<lparr>e_previous := None\<rparr>)) None bs vs None" by auto
    from m ne have "hd bs \<noteq> a" by (cases bs) auto
    with e m ne len show ?thesis
      by (auto simp: axutil_linked_list_remove_entry_def ll_inv_def Let_def first_of_eq last_of_eq)
  next
    assume ne: "as \<noteq> []" "bs = []"
    from dseg_set_next [OF m(3) _ ne(1), of None] m(1) obtain e
      where e: "ll_heap l (last as) = Some e"
        "dseg ((ll_heap l)(last as \<mapsto> e\<lparr>e_next := None\<rparr>)) None as us None" by auto
    from m ne have "hd as \<noteq> a" "last as \<noteq> a" by (cases as; auto)+
    with e m ne len show ?thesis
      by (auto simp: axutil_linked_list_remove_entry_def ll_inv_def Let_def first_of_eq last_of_eq)
  next
    assume ne: "as \<noteq> []" "bs \<noteq> []"
    from dseg_unlink [OF m(1) len m(3,4) ne] obtain e e'
      where e: "ll_heap l (hd bs) = Some e" "ll_heap l (last as) = Some e'" "last as \<noteq> hd bs"
        and d: "dseg ((ll_heap l)(hd bs \<mapsto> e\<lparr>e_previous := Some (last as)\<rparr>,
          last as \<mapsto> e'\<lparr>e_next := Some (hd bs)\<rparr>)) None (as @ bs) (us @ vs) None" .
    let ?l' = "l\<lparr>ll_mod_count := ll_mod_count l + 1, ll_size := ll_size l - 1,
      ll_heap := (ll_heap l)(hd bs \<mapsto> e\<lparr>e_previous := Some (last as)\<rparr>,
          last as \<mapsto> e'\<lparr>e_next := Some (hd bs)\<rparr>)\<rparr>"
    have ends: "hd as \<noteq> a" "last as \<noteq> a" "hd bs \<noteq> a" "last bs \<noteq> a"
      "int (length us) + int (length vs) \<noteq> 0"
      using m(1) ne len by (cases as; cases bs; auto)+
    then have "axutil_linked_list_remove_entry l (Some a) = Inr ?l'"
      using e m ne by (simp add: axutil_linked_list_remove_entry_def Let_def first_of_eq last_of_eq)
    moreover have "ll_inv ?l' (as @ bs) (us @ vs)"
      using d m ne by (auto simp: ll_inv_def first_of_append last_of_append first_of_eq last_of_eq)
    ultimately show ?thesis using m(5) ends by auto
  qed
qed

lemma remove_first_spec:
  assumes "ll_inv l (a # bs) (x # vs)"
  shows "\<exists>l'. axutil_linked_list_remove_first l = Inr (Some x, l') \<and>
    ll_inv l' bs vs \<and> ll_mod_count l' = ll_mod_count l + 1"
proof (cases bs)
  case Nil
  with assms show ?thesis
    by (auto simp: ll_inv_def axutil_linked_list_remove_first_def Let_def)
next
  case (Cons b bs')
  with assms obtain y vs' where "vs = y # vs'" by (cases vs) (auto simp: ll_inv_def)
  with assms Cons show ?thesis
    by (auto simp: ll_inv_def axutil_linked_list_remove_first_def Let_def last_of_def)
qed

lemma remove_last_spec:
  assumes "ll_inv l (as @ [a]) (us @ [x])"
  shows "\<exists>l'. axutil_linked_list_remove_last l = Inr (Some x, l') \<and>
    ll_inv l' as us \<and> ll_mod_count l' = ll_mod_count l + 1"
proof -
  have len: "length as = length us"
    using assms dseg_length [of "ll_heap l" None "as @ [a]" "us @ [x]"] by (auto simp: ll_inv_def)
  show ?thesis
  proof (cases as rule: rev_cases)
    case Nil
    with assms len show ?thesis
      by (auto simp: ll_inv_def axutil_linked_list_remove_last_def Let_def)
  next
    case (snoc bs b)
    with len obtain vs y where us: "us = vs @ [y]" by (cases us rule: rev_cases) auto
    with snoc len assms show ?thesis
      by (auto simp: ll_inv_def axutil_linked_list_remove_last_def Let_def dseg_append
          first_of_append last_of_append)
  qed
qed

section \<open>Adding entries\<close>

lemma create_entry_granted:
  "malloc sizeof_entry \<Longrightarrow> axutil_linked_list_create_entry malloc l d =
    (Some (ll_unused l),
     l\<lparr>ll_heap := (ll_heap l)(ll_unused l \<mapsto> \<lparr>e_data = d, e_next = None, e_previous = None\<rparr>),
       ll_unused := ll_unused l + 1\<rparr>)"
  by (simp add: axutil_linked_list_create_entry_def)

lemma fresh_notin: "ll_inv l ps xs \<Longrightarrow> ll_unused l \<notin> set ps"
  by (auto simp: ll_inv_def)

lemma add_last_entry_spec:
  assumes inv: "ll_inv l ps xs" and m: "malloc sizeof_entry"
    and e: "axutil_linked_list_create_entry malloc l (Some x) = (e, l0)"
  shows "\<exists>l'. axutil_linked_list_add_last_entry l0 e = Inr l' \<and>
    ll_inv l' (ps @ [ll_unused l]) (xs @ [x]) \<and> ll_mod_count l' = ll_mod_count l + 1"
proof (cases ps rule: rev_cases)
  case Nil
  with inv e m show ?thesis
    by (auto simp: ll_inv_def create_entry_granted axutil_linked_list_add_last_entry_def Let_def)
next
  case (snoc bs b)
  have len: "length ps = length xs" using inv dseg_length by (auto simp: ll_inv_def)
  with snoc obtain vs y where xs: "xs = vs @ [y]" by (cases xs rule: rev_cases) auto
  have fresh: "ll_unused l \<notin> set ps" using fresh_notin [OF inv] .
  with snoc xs len inv e m show ?thesis
    by (auto simp: ll_inv_def create_entry_granted axutil_linked_list_add_last_entry_def Let_def
        dseg_append first_of_append last_of_append less_Suc_eq)
qed

lemma add_first_spec:
  assumes inv: "ll_inv l ps xs" and m: "malloc sizeof_entry"
  shows "\<exists>l'. axutil_linked_list_add_first malloc l (Some x) = Inr l' \<and>
    ll_inv l' (ll_unused l # ps) (x # xs) \<and> ll_mod_count l' = ll_mod_count l + 1"
proof (cases ps)
  case Nil
  with inv m show ?thesis
    by (auto simp: ll_inv_def create_entry_granted axutil_linked_list_add_first_def Let_def)
next
  case (Cons b bs)
  with inv obtain y vs where xs: "xs = y # vs" by (cases xs) (auto simp: ll_inv_def)
  have fresh: "ll_unused l \<notin> set ps" using fresh_notin [OF inv] .
  with Cons xs inv m show ?thesis
    by (auto simp: ll_inv_def create_entry_granted axutil_linked_list_add_first_def Let_def
        less_Suc_eq)
qed

lemma ll_insert_before_spec:
  assumes inv: "ll_inv l (as @ a # bs) (us @ y # vs)" and len: "length as = length us"
    and m: "malloc sizeof_entry" and i: "clamp i (length (us @ y # vs)) = length us"
    and lt: "i < int (length (us @ y # vs))" and top: "i < INT_MAX"
  shows "\<exists>l'. axutil_linked_list_add_at_index malloc l i (Some x) =
      Inr (axutil_linked_list_check_bounds_inclusive l i, l') \<and>
    ll_inv l' (as @ ll_unused l # a # bs) (us @ x # y # vs) \<and> ll_mod_count l' = ll_mod_count l + 1"
proof -
  note mid = ll_inv_middle [OF inv len]
  let ?n = "ll_unused l"
  let ?l1 = "l\<lparr>ll_heap := (ll_heap l)(?n \<mapsto> \<lparr>e_data = Some x, e_next = None, e_previous = None\<rparr>),
    ll_unused := ?n + 1, ll_mod_count := ll_mod_count l + 1\<rparr>"
  have fresh: "?n \<notin> set (as @ a # bs)" using fresh_notin [OF inv] .
  have "ll_inv ?l1 (as @ a # bs) (us @ y # vs)"
    using inv fresh by (auto simp: ll_inv_def less_Suc_eq)
  from get_entry_spec [OF this top] have get: "axutil_linked_list_get_entry ?l1 i = Inr (Some a)"
    using i by (simp flip: len)
  show ?thesis
  proof (cases "as = []")
    case True
    with get mid fresh len lt m show ?thesis
      by (auto simp: axutil_linked_list_add_at_index_def create_entry_granted Let_def ll_inv_def
          less_Suc_eq)
  next
    case False
    from dseg_set_next [OF mid(3) _ False, of "Some ?n"] mid(1) obtain e
      where e: "ll_heap l (last as) = Some e"
        "dseg ((ll_heap l)(last as \<mapsto> e\<lparr>e_next := Some ?n\<rparr>)) None as us (Some ?n)" by auto
    have "last as \<noteq> a" "last as \<noteq> ?n" "last as \<notin> set bs" 
      using mid(1) fresh last_in_set [OF False] by (auto simp del: last_in_set)
    with get mid e fresh len lt m False show ?thesis
      by (auto simp: axutil_linked_list_add_at_index_def create_entry_granted Let_def ll_inv_def
          dseg_append first_of_append last_of_append last_of_eq first_of_eq less_Suc_eq fun_upd_twist)
  qed
qed

section \<open>Reading and searching\<close>

lemma ll_inv_nth:
  assumes "ll_inv l ps xs" and "i < length xs"
  obtains as a bs where "ps = as @ a # bs" "length as = i" "ps ! i = a"
    "xs = take i xs @ xs ! i # drop (Suc i) xs"
    "ll_inv l (as @ a # bs) (take i xs @ xs ! i # drop (Suc i) xs)"
proof -
  have len: "length ps = length xs" using assms(1) dseg_length by (auto simp: ll_inv_def)
  have "ps = take i ps @ ps ! i # drop (Suc i) ps" "xs = take i xs @ xs ! i # drop (Suc i) xs"
    using assms(2) len by (simp_all add: id_take_nth_drop [symmetric])
  with assms len that [of "take i ps" "ps ! i" "drop (Suc i) ps"] show thesis by simp
qed

lemma ll_get_spec:
  assumes "ll_inv l ps xs" and "i < INT_MAX"
  shows "axutil_linked_list_get l i =
    (if xs = [] then Inl UNDEFINED_BEHAVIOUR
     else Inr (axutil_linked_list_check_bounds_exclusive l i, Some (xs ! clamp i (length xs))))"
proof (cases "xs = []")
  case True
  with get_entry_spec [OF assms] show ?thesis
    by (simp add: axutil_linked_list_get_def Let_def deref_def)
next
  case False
  then have "clamp i (length xs) < length xs" by (simp add: clamp_less)
  from ll_inv_nth [OF assms(1) this] obtain as a bs where a: "length as = clamp i (length xs)"
    "ps ! clamp i (length xs) = a"
    "ll_inv l (as @ a # bs) (take (clamp i (length xs)) xs @ xs ! clamp i (length xs) #
      drop (Suc (clamp i (length xs))) xs)" by metis
  from ll_inv_middle(5) [OF a(3)] a(1,2) False \<open>clamp i (length xs) < length xs\<close>
    get_entry_spec [OF assms] show ?thesis
    by (simp add: axutil_linked_list_get_def Let_def)
qed

lemma ll_set_spec:
  assumes "ll_inv l ps xs" and "xs \<noteq> []" and "i < INT_MAX"
  shows "\<exists>l'. axutil_linked_list_set l i (Some x) =
      Inr (axutil_linked_list_check_bounds_exclusive l i, Some (xs ! clamp i (length xs)), l') \<and>
    ll_inv l' ps (xs[clamp i (length xs) := x]) \<and> ll_mod_count l' = ll_mod_count l"
proof -
  define k where "k = clamp i (length xs)"
  have k: "k < length xs" using assms(2) by (simp add: k_def clamp_less)
  from ll_inv_nth [OF assms(1) this] obtain as a bs where ps: "ps = as @ a # bs" "length as = k"
    "ps ! k = a" and inv: "ll_inv l (as @ a # bs) (take k xs @ xs ! k # drop (Suc k) xs)" by metis
  have len: "length as = length (take k xs)" using ps k by simp
  note mid = ll_inv_middle [OF inv len]
  let ?l' = "l\<lparr>ll_heap := (ll_heap l)(a \<mapsto> \<lparr>e_data = Some x, e_next = first_of bs None,
    e_previous = last_of as None\<rparr>)\<rparr>"
  have "axutil_linked_list_set l i (Some x) =
      Inr (axutil_linked_list_check_bounds_exclusive l i, Some (xs ! k), ?l')"
    using get_entry_spec [OF assms(1,3)] mid(5) ps assms(2)
    by (simp add: axutil_linked_list_set_def Let_def k_def [symmetric])
  moreover have "ll_inv ?l' ps (xs[k := x])"
    using mid len k by (auto simp: ll_inv_def ps upd_conv_take_nth_drop dseg_append
        first_of_append last_of_append)
  ultimately show ?thesis by (auto simp: k_def)
qed

lemma search_loop_spec:
  "dseg (ll_heap l) p ps xs None \<Longrightarrow>
   search_loop l (Some x) n (first_of ps None) =
     Some (Inr (case find_index (\<lambda>y. y = x) xs of None \<Rightarrow> None | Some i \<Rightarrow> Some (ps ! i, n + int i)))"
proof (induction "ll_heap l" p ps xs "None :: ptr" arbitrary: n rule: dseg.induct)
  case (2 p a as y ys)
  then show ?case by (subst search_loop.simps) (auto split: option.splits)
qed (simp_all add: search_loop.simps)

lemma search_back_loop_spec:
  "dseg (ll_heap l) None ps xs q \<Longrightarrow>
   search_back_loop l (Some x) (int (length ps) - 1) (last_of ps None) =
     Some (Inr (case find_index (\<lambda>y. y = x) (rev xs) of None \<Rightarrow> None
       | Some i \<Rightarrow> Some (ps ! (length ps - 1 - i), int (length ps) - 1 - int i)))"
proof (induction ps arbitrary: xs q rule: rev_induct)
  case Nil
  then show ?case by (simp add: search_back_loop.simps)
next
  case (snoc a as)
  obtain ys y where xs: "xs = ys @ [y]"
    using dseg_length [OF snoc.prems(1)]
    by (metis length_append_singleton Zero_not_Suc list.size(3) rev_exhaust)
  have "length as = length ys" using dseg_length [OF snoc.prems(1)] xs by simp
  then have d: "dseg (ll_heap l) None as ys (Some a)"
      "ll_heap l a = Some \<lparr>e_data = Some y, e_next = q, e_previous = last_of as None\<rparr>"
    using snoc.prems(1) by (simp_all add: xs dseg_snoc)
  have f: "i < length as" if "find_index (\<lambda>y. y = x) (rev ys) = Some i" for i
    using that \<open>length as = length ys\<close> by (simp add: find_index_Some)
  show ?case
    using snoc.IH [OF d(1)] d(2) xs
    by (subst search_back_loop.simps) (auto simp: nth_append split: option.splits dest: f)
qed

text \<open>Freeing a list frees its entries and nothing else.\<close>

lemma free_loop_spec:
  "distinct ps \<Longrightarrow> dseg h p ps xs None \<Longrightarrow>
   free_loop h (first_of ps None) = Some (Inr (\<lambda>a. if a \<in> set ps then None else h a))"
proof (induction ps arbitrary: h p xs)
  case Nil
  then show ?case by (simp add: free_loop.simps)
next
  case (Cons a as)
  then obtain y ys where xs: "xs = y # ys" by (cases xs) auto
  with Cons.prems have "dseg (h(a := None)) (Some a) as ys None" by simp
  with Cons xs show ?case
    by (subst free_loop.simps) (auto intro!: ext)
qed

section \<open>Calls\<close>

datatype 'a ll_call =
    LAdd "'a option" | LAdd_first "'a option" | LAdd_last "'a option"
  | LAdd_at_index int "'a option" | LRemove "'a option" | LRemove_first | LRemove_last
  | LRemove_at_index int | LSet int "'a option" | LGet int | LGet_first | LGet_last
  | LContains "'a option" | LIndex_of "'a option" | LLast_index_of "'a option" | LClear | LSize
  | LTo_array

text \<open>
  What a call returns: nothing but the error it fails with, or the error it leaves behind and a
  value; \<open>L_never\<close> for a call that does not return.
\<close>

datatype 'a ll_val =
    V_unit | V_ptr "'a option" | V_bool bool | V_int int | V_array "'a option list"

datatype 'a ll_ret = L_failed axis2_error | L_done "axis2_error option" "'a ll_val" | L_never

definition finish :: "'s \<Rightarrow> ('s \<times> axis2_error option \<times> 'a ll_val) result \<Rightarrow> 'a ll_ret \<times> 's" where
  "finish l r = (case r of Inl e \<Rightarrow> (L_failed e, l) | Inr (l', err, v) \<Rightarrow> (L_done err v, l'))"

definition finish_loop ::
    "'s \<Rightarrow> ('s \<times> axis2_error option \<times> 'a ll_val) result option \<Rightarrow> 'a ll_ret \<times> 's" where
  "finish_loop l r = (case r of None \<Rightarrow> (L_never, l) | Some q \<Rightarrow> finish l q)"

definition do_ll_call ::
    "alloc \<Rightarrow> 'a linked_list \<Rightarrow> 'a ll_call \<Rightarrow> 'a ll_ret \<times> 'a linked_list" where
  "do_ll_call malloc l c =
     (case c of
        LAdd ob \<Rightarrow> finish l (map_sum id (\<lambda>l'. (l', None, V_unit)) (axutil_linked_list_add malloc l ob))
      | LAdd_first ob \<Rightarrow>
          finish l (map_sum id (\<lambda>l'. (l', None, V_unit)) (axutil_linked_list_add_first malloc l ob))
      | LAdd_last ob \<Rightarrow>
          finish l (map_sum id (\<lambda>l'. (l', None, V_unit)) (axutil_linked_list_add_last malloc l ob))
      | LAdd_at_index i ob \<Rightarrow>
          finish l (map_sum id (\<lambda>(err, l'). (l', err, V_unit))
            (axutil_linked_list_add_at_index malloc l i ob))
      | LRemove ob \<Rightarrow>
          finish_loop l (map_option (map_sum id (\<lambda>(b, l'). (l', None, V_bool b)))
            (axutil_linked_list_remove l ob))
      | LRemove_first \<Rightarrow>
          finish l (map_sum id (\<lambda>(d, l'). (l', None, V_ptr d)) (axutil_linked_list_remove_first l))
      | LRemove_last \<Rightarrow>
          finish l (map_sum id (\<lambda>(d, l'). (l', None, V_ptr d)) (axutil_linked_list_remove_last l))
      | LRemove_at_index i \<Rightarrow>
          finish l (map_sum id (\<lambda>(err, d, l'). (l', err, V_ptr d))
            (axutil_linked_list_remove_at_index l i))
      | LSet i ob \<Rightarrow>
          finish l (map_sum id (\<lambda>(err, d, l'). (l', err, V_ptr d)) (axutil_linked_list_set l i ob))
      | LGet i \<Rightarrow> finish l (map_sum id (\<lambda>(err, d). (l, err, V_ptr d)) (axutil_linked_list_get l i))
      | LGet_first \<Rightarrow> finish l (map_sum id (\<lambda>d. (l, None, V_ptr d)) (axutil_linked_list_get_first l))
      | LGet_last \<Rightarrow> finish l (map_sum id (\<lambda>d. (l, None, V_ptr d)) (axutil_linked_list_get_last l))
      | LContains ob \<Rightarrow>
          finish_loop l (map_option (map_sum id (\<lambda>b. (l, None, V_bool b)))
            (axutil_linked_list_contains l ob))
      | LIndex_of ob \<Rightarrow>
          finish_loop l (map_option (map_sum id (\<lambda>i. (l, None, V_int i)))
            (axutil_linked_list_index_of l ob))
      | LLast_index_of ob \<Rightarrow>
          finish_loop l (map_option (map_sum id (\<lambda>i. (l, None, V_int i)))
            (axutil_linked_list_last_index_of l ob))
      | LClear \<Rightarrow> (L_done None V_unit, axutil_linked_list_clear l)
      | LSize \<Rightarrow> (L_done None (V_int (axutil_linked_list_size l)), l)
      | LTo_array \<Rightarrow>
          finish l (map_sum id (\<lambda>ds. (l, None, V_array ds)) (axutil_linked_list_to_array malloc l)))"

text \<open>
  The same calls on a list of data and a count of the structural modifications. An index out of
  range is reported, but the call still acts, on the nearest position.
\<close>

definition out_of_range :: "int \<Rightarrow> int \<Rightarrow> axis2_error option" where
  "out_of_range i n = (if 0 \<le> i \<and> i < n then None else Some INDEX_OUT_OF_BOUNDS)"

definition seq_call :: "'a list \<times> int \<Rightarrow> 'a ll_call \<Rightarrow> 'a ll_ret \<times> 'a list \<times> int" where
  "seq_call s c =
     (let (xs, n) = s; len = length xs in
      case c of
        LAdd None \<Rightarrow> (L_failed INVALID_NULL_PARAM, s)
      | LAdd (Some x) \<Rightarrow> (L_done None V_unit, xs @ [x], n + 1)
      | LAdd_last None \<Rightarrow> (L_failed INVALID_NULL_PARAM, s)
      | LAdd_last (Some x) \<Rightarrow> (L_done None V_unit, xs @ [x], n + 1)
      | LAdd_first None \<Rightarrow> (L_failed INVALID_NULL_PARAM, s)
      | LAdd_first (Some x) \<Rightarrow> (L_done None V_unit, x # xs, n + 1)
      | LAdd_at_index i None \<Rightarrow> (L_failed INVALID_NULL_PARAM, s)
      | LAdd_at_index i (Some x) \<Rightarrow>
          if xs = [] \<and> i < 0 then (L_failed UNDEFINED_BEHAVIOUR, s)
          else (L_done (out_of_range i (int len + 1)) V_unit, insert_nth (clamp i (Suc len)) x xs, n + 1)
      | LRemove None \<Rightarrow> (L_failed INVALID_NULL_PARAM, s)
      | LRemove (Some x) \<Rightarrow>
          (case find_index (\<lambda>y. y = x) xs of
             None \<Rightarrow> (L_done None (V_bool False), s)
           | Some k \<Rightarrow> (L_done None (V_bool True), remove_nth k xs, n + 1))
      | LRemove_first \<Rightarrow>
          if xs = [] then (L_failed NO_SUCH_ELEMENT, s)
          else (L_done None (V_ptr (Some (hd xs))), tl xs, n + 1)
      | LRemove_last \<Rightarrow>
          if xs = [] then (L_failed NO_SUCH_ELEMENT, s)
          else (L_done None (V_ptr (Some (last xs))), butlast xs, n + 1)
      | LRemove_at_index i \<Rightarrow>
          if xs = [] then (L_failed UNDEFINED_BEHAVIOUR, s)
          else (L_done (out_of_range i (int len)) (V_ptr (Some (xs ! clamp i len))),
                remove_nth (clamp i len) xs, n + 1)
      | LSet i None \<Rightarrow> (L_failed INVALID_NULL_PARAM, s)
      | LSet i (Some x) \<Rightarrow>
          if xs = [] then (L_failed UNDEFINED_BEHAVIOUR, s)
          else (L_done (out_of_range i (int len)) (V_ptr (Some (xs ! clamp i len))),
                xs[clamp i len := x], n)
      | LGet i \<Rightarrow>
          if xs = [] then (L_failed UNDEFINED_BEHAVIOUR, s)
          else (L_done (out_of_range i (int len)) (V_ptr (Some (xs ! clamp i len))), s)
      | LGet_first \<Rightarrow>
          if xs = [] then (L_failed NO_SUCH_ELEMENT, s) else (L_done None (V_ptr (Some (hd xs))), s)
      | LGet_last \<Rightarrow>
          if xs = [] then (L_failed NO_SUCH_ELEMENT, s) else (L_done None (V_ptr (Some (last xs))), s)
      | LContains None \<Rightarrow> (L_failed INVALID_NULL_PARAM, s)
      | LContains (Some x) \<Rightarrow> (L_done None (V_bool (x \<in> set xs)), s)
      | LIndex_of None \<Rightarrow> (L_done None (V_int 0), s)
      | LIndex_of (Some x) \<Rightarrow>
          (L_done None (V_int (case find_index (\<lambda>y. y = x) xs of None \<Rightarrow> -1 | Some k \<Rightarrow> int k)), s)
      | LLast_index_of None \<Rightarrow> (L_done None (V_int 0), s)
      | LLast_index_of (Some x) \<Rightarrow>
          (L_done None (V_int (case find_index (\<lambda>y. y = x) (rev xs) of None \<Rightarrow> -1
             | Some k \<Rightarrow> int len - 1 - int k)), s)
      | LClear \<Rightarrow> (L_done None V_unit, [], if xs = [] then n else n + 1)
      | LSize \<Rightarrow> (L_done None (V_int (int len)), s)
      | LTo_array \<Rightarrow> (L_done None (V_array (map Some xs)), s))"

definition ll_abs :: "'a linked_list \<Rightarrow> 'a list \<times> int" where
  "ll_abs l = (ll_list l, ll_mod_count l)"

lemma finish_simps [simp]:
  "finish l (Inl e) = (L_failed e, l)" "finish l (Inr (l', err, v)) = (L_done err v, l')"
  by (simp_all add: finish_def)

lemma finish_loop_simps [simp]: "finish_loop l (Some q) = finish l q"
  by (simp add: finish_loop_def)

text \<open>One call simulates: the state after it and what it returns are those of \<open>seq_call\<close>.\<close>

definition simulated :: "alloc \<Rightarrow> 'a linked_list \<Rightarrow> 'a list \<Rightarrow> 'a ll_call \<Rightarrow> bool" where
  "simulated malloc l xs c \<longleftrightarrow>
     (\<exists>ps' xs'. ll_inv (snd (do_ll_call malloc l c)) ps' xs' \<and>
        seq_call (xs, ll_mod_count l) c =
          (fst (do_ll_call malloc l c), xs', ll_mod_count (snd (do_ll_call malloc l c))))"

lemma simulatedI:
  "do_ll_call malloc l c = (r, l') \<Longrightarrow> ll_inv l' ps' xs' \<Longrightarrow>
   seq_call (xs, ll_mod_count l) c = (r, xs', ll_mod_count l') \<Longrightarrow> simulated malloc l xs c"
  by (auto simp: simulated_def)

lemma check_exclusive: "ll_inv l ps xs \<Longrightarrow>
  axutil_linked_list_check_bounds_exclusive l i = out_of_range i (int (length xs))"
  by (auto simp: axutil_linked_list_check_bounds_exclusive_def out_of_range_def ll_inv_def)

lemma check_inclusive: "ll_inv l ps xs \<Longrightarrow>
  axutil_linked_list_check_bounds_inclusive l i = out_of_range i (int (length xs) + 1)"
  by (auto simp: axutil_linked_list_check_bounds_inclusive_def out_of_range_def ll_inv_def)

lemma simulated_add:
  assumes inv: "ll_inv l ps xs" and mem: "mem_ok malloc"
  shows "simulated malloc l xs (LAdd ob)" "simulated malloc l xs (LAdd_last ob)"
    "simulated malloc l xs (LAdd_first ob)"
proof -
  have m: "malloc sizeof_entry" using mem by (rule mem_okD)
  have "simulated malloc l xs (LAdd ob) \<and> simulated malloc l xs (LAdd_last ob) \<and>
    simulated malloc l xs (LAdd_first ob)"
  proof (cases ob)
    case None
    with inv show ?thesis
      by (auto simp: simulated_def do_ll_call_def seq_call_def Let_def axutil_linked_list_add_def
          axutil_linked_list_add_last_def axutil_linked_list_add_first_def)
  next
    case (Some x)
    from add_last_entry_spec [where malloc = malloc, OF inv m create_entry_granted [of malloc, OF m], of x]
      add_first_spec [where malloc = malloc, OF inv m, of x] Some show ?thesis
      by (auto simp: simulated_def do_ll_call_def seq_call_def Let_def axutil_linked_list_add_def
          axutil_linked_list_add_last_def create_entry_granted [of malloc, OF m])
  qed
  then show "simulated malloc l xs (LAdd ob)" "simulated malloc l xs (LAdd_last ob)"
    "simulated malloc l xs (LAdd_first ob)" by auto
qed

lemma simulated_add_at_index:
  assumes inv: "ll_inv l ps xs" and mem: "mem_ok malloc" and top: "i < INT_MAX"
  shows "simulated malloc l xs (LAdd_at_index i ob)"
proof (cases ob)
  case None
  with inv show ?thesis
    by (auto simp: simulated_def do_ll_call_def seq_call_def Let_def axutil_linked_list_add_at_index_def)
next
  case (Some x)
  have m: "malloc sizeof_entry" using mem by (rule mem_okD)
  have size: "ll_size l = int (length xs)" using inv by (simp add: ll_inv_def)
  consider "xs = []" "i < 0" | "xs \<noteq> []" "i < int (length xs)" | "int (length xs) \<le> i" by fastforce
  then show ?thesis
  proof cases
    case 1
    with inv Some m show ?thesis
      by (auto simp: simulated_def do_ll_call_def seq_call_def Let_def axutil_linked_list_add_at_index_def
          create_entry_granted Let_def axutil_linked_list_get_entry_def deref_def ll_inv_def)
  next
    case 2
    let ?k = "clamp i (length xs)"
    have k: "?k < length xs" "clamp i (Suc (length xs)) = ?k"
      using 2 by (auto simp: clamp_def)
    from ll_inv_nth [OF inv k(1)] obtain as a bs where a: "length as = ?k"
      "ll_inv l (as @ a # bs) (take ?k xs @ xs ! ?k # drop (Suc ?k) xs)" by metis
    have xs: "take ?k xs @ xs ! ?k # drop (Suc ?k) xs = xs" using k(1) by (simp add: id_take_nth_drop [symmetric])
    have "x # xs ! ?k # drop (Suc ?k) xs = x # drop ?k xs" using k(1) by (simp add: Cons_nth_drop_Suc)
    with ll_insert_before_spec [where malloc = malloc, OF a(2) _ m, of i x] a(1) k 2 xs Some top check_inclusive [OF inv, of i] show ?thesis
      by (auto simp: simulated_def do_ll_call_def seq_call_def Let_def insert_nth_def)
  next
    case 3
    then have "clamp i (Suc (length xs)) = length xs" by (auto simp: clamp_def)
    with 3 add_last_entry_spec [where malloc = malloc, OF inv m create_entry_granted [of malloc, OF m], of x] Some size
      check_inclusive [OF inv, of i] show ?thesis
      by (auto simp: simulated_def do_ll_call_def seq_call_def Let_def axutil_linked_list_add_at_index_def
          create_entry_granted [of malloc, OF m] Let_def)
  qed
qed

lemma simulated_remove_entry:
  assumes inv: "ll_inv l ps xs" and k: "k < length xs"
  shows "\<exists>l' e ps'. axutil_linked_list_remove_entry l (Some (ps ! k)) = Inr l' \<and>
    ll_inv l' ps' (remove_nth k xs) \<and> ll_mod_count l' = ll_mod_count l + 1 \<and>
    deref l' (Some (ps ! k)) = Inr e \<and> e_data e = Some (xs ! k)"
proof -
  from ll_inv_nth [OF inv k] obtain as a bs where a: "length as = k" "ps ! k = a"
    "ll_inv l (as @ a # bs) (take k xs @ xs ! k # drop (Suc k) xs)" by metis
  have "length as = length (take k xs)" using a(1) k by simp
  from remove_entry_spec [OF a(3) this] a(2) show ?thesis
    unfolding remove_nth_def by (metis deref_Some)
qed

lemma simulated_remove:
  assumes inv: "ll_inv l ps xs"
  shows "simulated malloc l xs (LRemove ob)" and "i < INT_MAX \<Longrightarrow> simulated malloc l xs (LRemove_at_index i)"
proof -
  have d: "dseg (ll_heap l) None ps xs None" "ll_first l = first_of ps None" "ll_last l = last_of ps None"
    using inv by (auto simp: ll_inv_def)
  show "simulated malloc l xs (LRemove ob)"
  proof (cases ob)
    case None
    with inv show ?thesis by (auto simp: simulated_def do_ll_call_def seq_call_def Let_def axutil_linked_list_remove_def)
  next
    case (Some x)
    show ?thesis
    proof (cases "find_index (\<lambda>y. y = x) xs")
      case None
      with Some inv d search_loop_spec [OF d(1), of x 0] show ?thesis
        by (auto simp: simulated_def do_ll_call_def seq_call_def Let_def axutil_linked_list_remove_def)
    next
      case (Some k)
      then have "k < length xs" by (simp add: find_index_Some)
      from simulated_remove_entry [OF inv this] \<open>ob = Some x\<close> Some d search_loop_spec [OF d(1), of x 0]
      show ?thesis
        by (auto simp: simulated_def do_ll_call_def seq_call_def Let_def axutil_linked_list_remove_def)
    qed
  qed
  show "simulated malloc l xs (LRemove_at_index i)" if top: "i < INT_MAX"
  proof (cases "xs = []")
    case True
    with inv get_entry_spec [OF inv top] show ?thesis
      by (auto simp: simulated_def do_ll_call_def seq_call_def Let_def axutil_linked_list_remove_at_index_def)
  next
    case False
    then have "clamp i (length xs) < length xs" by (simp add: clamp_less)
    from simulated_remove_entry [OF inv this] get_entry_spec [OF inv top] False check_exclusive [OF inv, of i]
    show ?thesis
      by (auto simp: simulated_def do_ll_call_def seq_call_def Let_def axutil_linked_list_remove_at_index_def Let_def)
  qed
qed

lemma simulated_ends:
  assumes inv: "ll_inv l ps xs"
  shows "simulated malloc l xs LRemove_first" "simulated malloc l xs LRemove_last"
    "simulated malloc l xs LGet_first" "simulated malloc l xs LGet_last"
proof -
  have "simulated malloc l xs LRemove_first \<and> simulated malloc l xs LRemove_last \<and>
    simulated malloc l xs LGet_first \<and> simulated malloc l xs LGet_last"
  proof (cases "xs = []")
    case True
    with inv show ?thesis
      by (auto simp: simulated_def do_ll_call_def seq_call_def Let_def ll_inv_def axutil_linked_list_remove_first_def
        axutil_linked_list_remove_last_def axutil_linked_list_get_first_def axutil_linked_list_get_last_def)
  next
    case False
    have len: "length ps = length xs" using inv dseg_length by (auto simp: ll_inv_def)
    with False obtain a bs as b x vs us y where eq: "ps = a # bs" "xs = x # vs" "ps = as @ [b]" "xs = us @ [y]"
      by (metis length_0_conv neq_Nil_conv rev_exhaust)
    have ends: "hd xs = x" "tl xs = vs" using eq(2) by simp_all
    have lasts: "last xs = y" "butlast xs = us" using eq(4) by simp_all
    have "simulated malloc l xs LRemove_first"
      using remove_first_spec [of l a bs x vs] inv [unfolded eq(1,2)] False
      by (auto simp: simulated_def do_ll_call_def seq_call_def Let_def ends)
    moreover have "simulated malloc l xs LRemove_last"
      using remove_last_spec [of l as b us y] inv [unfolded eq(3,4)] False
      by (auto simp: simulated_def do_ll_call_def seq_call_def Let_def lasts)
    moreover from inv have "ll_heap l a = Some \<lparr>e_data = Some x, e_next = first_of bs None, e_previous = None\<rparr>"
      "ll_first l = Some a" "ll_size l \<noteq> 0"
      using eq(1,2) by (auto simp: ll_inv_def)
    moreover from inv have "ll_heap l b = Some \<lparr>e_data = Some y, e_next = None, e_previous = last_of as None\<rparr>"
      "ll_last l = Some b"
      using eq(3,4) len by (auto simp: ll_inv_def dseg_snoc)
    ultimately show ?thesis using inv ends lasts False
      by (auto simp: simulated_def do_ll_call_def seq_call_def Let_def axutil_linked_list_get_first_def axutil_linked_list_get_last_def)
  qed
  then show "simulated malloc l xs LRemove_first" "simulated malloc l xs LRemove_last"
    "simulated malloc l xs LGet_first" "simulated malloc l xs LGet_last" by auto
qed

lemma simulated_reads:
  assumes inv: "ll_inv l ps xs" and mem: "mem_ok malloc"
  shows "i < INT_MAX \<Longrightarrow> simulated malloc l xs (LGet i)" "i < INT_MAX \<Longrightarrow> simulated malloc l xs (LSet i ob)"
    "simulated malloc l xs LClear" "simulated malloc l xs LSize" "simulated malloc l xs LTo_array"
proof -
  show "simulated malloc l xs (LGet i)" if top: "i < INT_MAX"
    using inv ll_get_spec [OF inv top] check_exclusive [OF inv, of i]
    by (auto simp: simulated_def do_ll_call_def seq_call_def Let_def)
  have empty: "axutil_linked_list_set l i (Some x) = Inl UNDEFINED_BEHAVIOUR" if "xs = []" "i < INT_MAX" for x
    using get_entry_spec [OF inv, of i] that by (simp add: axutil_linked_list_set_def Let_def deref_def)
  show "simulated malloc l xs (LSet i ob)" if top: "i < INT_MAX"
  proof (cases ob)
    case None
    with inv show ?thesis by (auto simp: simulated_def do_ll_call_def seq_call_def Let_def axutil_linked_list_set_def)
  next
    case (Some x)
    with inv empty top ll_set_spec [OF inv _ top, of x] check_exclusive [OF inv, of i] show ?thesis
      by (cases "xs = []") (auto simp: simulated_def do_ll_call_def seq_call_def Let_def)
  qed
  show "simulated malloc l xs LClear" "simulated malloc l xs LSize"
    using inv by (auto simp: simulated_def do_ll_call_def seq_call_def Let_def axutil_linked_list_clear_def ll_inv_def
      axutil_linked_list_size_def)
  show "simulated malloc l xs LTo_array"
    using inv mem_okD [OF mem] array_loop_dseg [of l None ps xs]
    by (auto simp: simulated_def do_ll_call_def seq_call_def Let_def axutil_linked_list_to_array_def ll_inv_def)
qed

lemma simulated_searches:
  assumes inv: "ll_inv l ps xs"
  shows "simulated malloc l xs (LContains ob)" "simulated malloc l xs (LIndex_of ob)"
    "simulated malloc l xs (LLast_index_of ob)"
proof -
  have d: "dseg (ll_heap l) None ps xs None" "ll_first l = first_of ps None" "ll_last l = last_of ps None"
    "ll_size l = int (length ps)"
    using inv dseg_length [of "ll_heap l" None ps xs] by (auto simp: ll_inv_def)
  have len: "length ps = length xs" using dseg_length [OF d(1)] .
  have mem: "x \<in> set xs \<longleftrightarrow> find_index (\<lambda>y. y = x) xs \<noteq> None" for x
    by (auto simp: find_index_None)
  have "simulated malloc l xs (LContains ob) \<and> simulated malloc l xs (LIndex_of ob) \<and> simulated malloc l xs (LLast_index_of ob)"
  proof (cases ob)
    case None
    with inv show ?thesis
      by (auto simp: simulated_def do_ll_call_def seq_call_def Let_def axutil_linked_list_contains_def
          axutil_linked_list_index_of_def axutil_linked_list_last_index_of_def status_int_def)
  next
    case (Some x)
    with inv d len search_loop_spec [OF d(1), of x 0] search_back_loop_spec [OF d(1), of x] mem show ?thesis
      by (auto simp: simulated_def do_ll_call_def seq_call_def Let_def axutil_linked_list_contains_def
          axutil_linked_list_index_of_def axutil_linked_list_last_index_of_def split: option.splits)
  qed
  then show "simulated malloc l xs (LContains ob)" "simulated malloc l xs (LIndex_of ob)"
    "simulated malloc l xs (LLast_index_of ob)" by auto
qed

text \<open>The calls with an index take any \<^verbatim>\<open>int\<close> but the greatest.\<close>

definition index_ok :: "int \<Rightarrow> bool" where
  "index_ok i \<longleftrightarrow> in_int i \<and> i \<noteq> INT_MAX"

fun legal_call :: "'a ll_call \<Rightarrow> bool" where
  "legal_call (LAdd_at_index i ob) = index_ok i"
| "legal_call (LRemove_at_index i) = index_ok i"
| "legal_call (LSet i ob) = index_ok i"
| "legal_call (LGet i) = index_ok i"
| "legal_call _ = True"

lemma index_ok_less [simp]: "index_ok i \<Longrightarrow> i < INT_MAX"
  by (simp add: index_ok_def in_int_def)

lemma do_ll_call_simulates:
  assumes "ll_ok l" and "mem_ok malloc" and "legal_call c" and "do_ll_call malloc l c = (r, l')"
  shows "ll_ok l' \<and> seq_call (ll_abs l) c = (r, ll_abs l')"
proof -
  from assms(1) obtain ps where inv: "ll_inv l ps (ll_list l)" by (auto simp: ll_ok_def)
  have "simulated malloc l (ll_list l) c"
    using assms(3)
    by (cases c) (simp_all add: simulated_add [OF inv assms(2)] simulated_add_at_index [OF inv assms(2)]
        simulated_remove [OF inv] simulated_ends [OF inv] simulated_reads [OF inv assms(2)]
        simulated_searches [OF inv])
  then obtain ps' xs' where "ll_inv l' ps' xs'"
    "seq_call (ll_list l, ll_mod_count l) c = (r, xs', ll_mod_count l')"
    using assms(4) by (auto simp: simulated_def)
  with ll_inv_ok show ?thesis by (fastforce simp: ll_abs_def)
qed

lemma seq_call_returns: "fst (seq_call s c) \<noteq> L_never"
  by (auto simp: seq_call_def Let_def split: prod.splits ll_call.splits option.splits)

lemma seq_calls_return: "calls seq_call s cs = (rs, s') \<Longrightarrow> L_never \<notin> set rs"
proof (induction cs arbitrary: s rs)
  case (Cons c cs)
  then show ?case using seq_call_returns [of s c] by (auto split: prod.splits)
qed simp

interpretation lst: simulation "\<lambda>l s. mem_ok malloc \<and> ll_ok l \<and> s = ll_abs l" "\<lambda>_. legal_call"
    "\<lambda>l c. Some (do_ll_call malloc l c)" seq_call
  for malloc
proof unfold_locales
  fix l :: "'a linked_list" and s c r s'
  assume l: "mem_ok malloc \<and> ll_ok l \<and> s = ll_abs l" "legal_call c" "seq_call s c = (r, s')"
  obtain q l' where q: "do_ll_call malloc l c = (q, l')" by fastforce
  with do_ll_call_simulates [OF _ _ l(2) q] l(1,3)
  show "\<exists>l'. Some (do_ll_call malloc l c) = Some (r, l') \<and> mem_ok malloc \<and> ll_ok l' \<and> s' = ll_abs l'"
    by auto
qed

lemma legal_permitted: "\<forall>c \<in> set cs. legal_call c \<Longrightarrow> permitted (\<lambda>_. legal_call) spec s cs"
  by (induction cs arbitrary: s) auto

text \<open>Bounds of the \<^verbatim>\<open>int\<close> fields: a call adds at most one entry and counts at most one modification.\<close>

lemma seq_call_bounds:
  assumes "seq_call (xs, n) c = (r, xs', n')"
  shows "length xs' \<le> Suc (length xs) \<and> n \<le> n' \<and> n' \<le> n + 1"
proof -
  have "length (remove_nth k xs) \<le> Suc (length xs)" for k by (auto simp: remove_nth_def)
  with assms show ?thesis by (cases c) (auto simp: seq_call_def Let_def split: option.splits if_splits)
qed

lemma seq_calls_bounds:
  "calls seq_call (xs, n) cs = (rs, xs', n') \<Longrightarrow>
   length xs' \<le> length xs + length cs \<and> n \<le> n' \<and> n' \<le> n + int (length cs)"
proof (induction cs arbitrary: xs n rs)
  case (Cons c cs)
  obtain r ys m where r: "seq_call (xs, n) c = (r, ys, m)" by (metis prod_cases3)
  with Cons.prems obtain qs where "calls seq_call (ys, m) cs = (qs, xs', n')" by (auto split: prod.splits)
  from Cons.IH [OF this] seq_call_bounds [OF r] show ?case by simp
qed simp

lemma create_abs:
  assumes "axutil_linked_list_create malloc = Inr l"
  shows "ll_ok l \<and> ll_abs l = ([], 0)"
proof -
  have "ll_inv l [] []"
    using assms by (auto simp: axutil_linked_list_create_def ll_inv_def split: if_splits)
  with ll_inv_ok assms show ?thesis
    by (fastforce simp: ll_abs_def axutil_linked_list_create_def split: if_splits)
qed

section \<open>Properties\<close>

text \<open>
  C16. A new linked list behaves as a list with a modification count under every history of fewer than
  $2^{31}$ calls of its eighteen list operations, when memory is granted and no index is the greatest
  \<^verbatim>\<open>int\<close>: each call returns, with the value the call on the list has, pointers are kept doubly linked,
  and the count grows by one for each structural change. An index out of range is reported as an error,
  but the call acts on the nearest position, and on an empty list it dereferences NULL. The size and the
  count stay within an \<^verbatim>\<open>int\<close>.
\<close>

theorem linked_list_refines_list:
  assumes "axutil_linked_list_create malloc = Inr l" and "mem_ok malloc"
    and "\<forall>c \<in> set cs. legal_call c" and "length cs < 2 ^ 31"
    and "calls (do_ll_call malloc) l cs = (rs, l')"
  shows "calls seq_call ([], 0) cs = (rs, ll_list l', ll_mod_count l') \<and> ll_ok l' \<and>
    L_never \<notin> set rs \<and> in_int (ll_size l') \<and> in_int (ll_mod_count l')"
proof -
  have l: "ll_ok l" "ll_abs l = ([], 0)" using create_abs [OF assms(1)] by auto
  obtain qs s where q: "calls seq_call ([], 0) cs = (qs, s)" by (metis surj_pair)
  have "\<exists>t. runs (\<lambda>l c. Some (do_ll_call malloc l c)) l cs = Some (qs, t) \<and>
      mem_ok malloc \<and> ll_ok t \<and> s = ll_abs t"
    by (rule lst.history [OF _ legal_permitted [OF assms(3)] q]) (use l assms(2) in simp)
  then have c: "calls seq_call ([], 0) cs = (rs, ll_list l', ll_mod_count l')" "ll_ok l'"
    using assms(5) q by (auto simp: runs_total ll_abs_def)
  have "int (length cs) < 2 ^ 31" using assms(4) by simp
  moreover have "ll_size l' = int (length (ll_list l'))" using c(2) by (auto simp: ll_ok_def ll_inv_def)
  ultimately have "in_int (ll_size l')" "in_int (ll_mod_count l')"
    using seq_calls_bounds [OF c(1)] by (auto simp: in_int_def INT_MAX_def)
  with c seq_calls_return show ?thesis by blast
qed

theorem linked_list_refines_list_witness:
  "\<exists>l rs l'. axutil_linked_list_create (\<lambda>n. True) = Inr l \<and>
     calls (do_ll_call (\<lambda>n. True)) l
       [LAdd (Some 1), LAdd_first (Some 2), LAdd_at_index 1 (Some (3 :: nat)), LGet 7,
        LRemove (Some 1), LIndex_of (Some 3), LTo_array] = (rs, l') \<and>
     rs = [L_done None V_unit, L_done None V_unit, L_done None V_unit,
       L_done (Some INDEX_OUT_OF_BOUNDS) (V_ptr (Some 1)), L_done None (V_bool True),
       L_done None (V_int 1), L_done None (V_array [Some 2, Some 3])] \<and>
     ll_list l' = [2, 3] \<and> ll_mod_count l' = 4 \<and> ll_ok l' \<and> L_never \<notin> set rs"
proof -
  let ?cs = "[LAdd (Some 1), LAdd_first (Some 2), LAdd_at_index 1 (Some (3 :: nat)), LGet 7,
        LRemove (Some 1), LIndex_of (Some 3), LTo_array]"
  obtain l where l: "axutil_linked_list_create (\<lambda>n. True) = Inr (l :: nat linked_list)"
    by (simp add: axutil_linked_list_create_def)
  obtain rs l' where c: "calls (do_ll_call (\<lambda>n. True)) l ?cs = (rs, l')" by fastforce
  have "\<forall>c \<in> set ?cs. legal_call c" by (simp add: index_ok_def in_int_def INT_MAX_def)
  from linked_list_refines_list [OF l _ this _ c]
  have r: "calls seq_call ([], 0) ?cs = (rs, ll_list l', ll_mod_count l')"
    "ll_ok l'" "L_never \<notin> set rs" by simp_all
  have "calls seq_call ([], 0) ?cs = ([L_done None V_unit, L_done None V_unit, L_done None V_unit,
       L_done (Some INDEX_OUT_OF_BOUNDS) (V_ptr (Some 1)), L_done None (V_bool True),
       L_done None (V_int 1), L_done None (V_array [Some 2, Some 3])], [2, 3], 4)"
    by (simp add: seq_call_def Let_def out_of_range_def clamp_def insert_nth_def remove_nth_def)
  with r l c show ?thesis by auto
qed

text \<open>
  Freeing a list ends, dereferences only entries not yet freed, and frees exactly the entries
  that are linked: what \<^verbatim>\<open>remove\<close>, \<^verbatim>\<open>remove_entry\<close> and \<^verbatim>\<open>clear\<close> have taken out of the list before stays
  allocated.
\<close>

theorem linked_list_free_exact:
  assumes "ll_inv l ps xs"
  shows "axutil_linked_list_free l = Some (Inr (\<lambda>a. if a \<in> set ps then None else ll_heap l a))"
  using assms by (auto simp: axutil_linked_list_free_def ll_inv_def free_loop_spec)

theorem linked_list_free_exact_witness:
  "axutil_linked_list_free
     \<lparr>ll_size = 2, ll_first = Some 0, ll_last = Some 2, ll_mod_count = 4,
       ll_heap = Map.empty(0 \<mapsto> \<lparr>e_data = Some (CHR ''a''), e_next = Some 2, e_previous = None\<rparr>,
         1 \<mapsto> \<lparr>e_data = Some (CHR ''b''), e_next = Some 2, e_previous = Some 0\<rparr>,
         2 \<mapsto> \<lparr>e_data = Some (CHR ''c''), e_next = None, e_previous = Some 0\<rparr>), ll_unused = 3\<rparr> =
   Some (Inr [1 \<mapsto> \<lparr>e_data = Some (CHR ''b''), e_next = Some 2, e_previous = Some 0\<rparr>])"
  (is "axutil_linked_list_free ?l = _")
proof -
  have "ll_inv ?l [0, 2] [CHR ''a'', CHR ''c'']" by (simp add: ll_inv_def)
  from linked_list_free_exact [OF this] show ?thesis by (auto intro!: ext)
qed

end
