(* ===== verification/Util_Stack.thy ===== *)
theory Util_Stack
  imports Axis_Prelude
begin

text \<open>
  The growable stack of \<^verbatim>\<open>util/src/stack.c\<close>: every operation of the file but
  \<^verbatim>\<open>axutil_stack_free\<close>. The abstraction of a stack is the list of its pointers, the bottom
  first; the stack is an instance of the locale \<open>refinement\<close>.
\<close>

section \<open>State and operations\<close>

record 'a axutil_stack =
  st_data :: "'a option list"
  st_size :: int
  st_capacity :: int
  st_is_empty_stack :: bool

definition AXIS2_STACK_DEFAULT_CAPACITY :: int where
  "AXIS2_STACK_DEFAULT_CAPACITY = 10"

definition sizeof_stack :: nat where
  "sizeof_stack = 24"

definition axutil_stack_create :: "alloc \<Rightarrow> 'a axutil_stack result" where
  "axutil_stack_create malloc =
     (if \<not> malloc sizeof_stack then Inl NO_MEMORY
      else if \<not> malloc (sizeof_ptr * nat AXIS2_STACK_DEFAULT_CAPACITY) then Inl NO_MEMORY
      else Inr \<lparr>st_data = replicate (nat AXIS2_STACK_DEFAULT_CAPACITY) garbage, st_size = 0,
                st_capacity = AXIS2_STACK_DEFAULT_CAPACITY, st_is_empty_stack = True\<rparr>)"

definition axutil_stack_pop :: "'a axutil_stack \<Rightarrow> 'a option \<times> 'a axutil_stack" where
  "axutil_stack_pop stack =
     (if st_is_empty_stack stack \<or> st_size stack = 0 then (None, stack)
      else if st_size stack > 0 then
        let value = st_data stack ! nat (st_size stack - 1);
            stack1 = stack\<lparr>st_data := (st_data stack)[nat (st_size stack - 1) := None],
                           st_size := st_size stack - 1\<rparr>;
            stack2 = (if st_size stack1 = 0 then stack1\<lparr>st_is_empty_stack := True\<rparr> else stack1)
        in (value, stack2)
      else (None, stack))"

text \<open>
  \<^verbatim>\<open>memset\<close> clears the new block, \<^verbatim>\<open>memcpy\<close> copies the old \<^verbatim>\<open>capacity\<close> cells over it.
\<close>

definition axutil_stack_push ::
    "alloc \<Rightarrow> 'a axutil_stack \<Rightarrow> 'a option \<Rightarrow> 'a axutil_stack result" where
  "axutil_stack_push malloc stack value =
     (if value = None then Inl INVALID_NULL_PARAM
      else if st_size stack < st_capacity stack \<and> st_capacity stack > 0 then
        Inr (stack\<lparr>st_data := (st_data stack)[nat (st_size stack) := value],
                   st_size := st_size stack + 1, st_is_empty_stack := False\<rparr>)
      else
        let new_capacity = st_capacity stack + AXIS2_STACK_DEFAULT_CAPACITY in
        if \<not> malloc (sizeof_ptr * nat new_capacity) then Inl NO_MEMORY
        else
          let new_data = take (nat (st_capacity stack)) (st_data stack) @
                replicate (nat new_capacity - nat (st_capacity stack)) None
          in Inr (stack\<lparr>st_data := new_data[nat (st_size stack) := value],
                        st_size := st_size stack + 1, st_capacity := new_capacity,
                        st_is_empty_stack := False\<rparr>))"

definition axutil_stack_size :: "'a axutil_stack \<Rightarrow> int" where
  "axutil_stack_size stack = st_size stack"

definition axutil_stack_get :: "'a axutil_stack \<Rightarrow> 'a option" where
  "axutil_stack_get stack =
     (if st_size stack > 0 then st_data stack ! nat (st_size stack - 1) else None)"

definition axutil_stack_get_at :: "'a axutil_stack \<Rightarrow> int \<Rightarrow> 'a option" where
  "axutil_stack_get_at stack i =
     (if st_size stack = 0 \<or> i < 0 \<or> i \<ge> st_size stack then None else st_data stack ! nat i)"

section \<open>Invariant and abstraction\<close>

definition stack_inv :: "'a axutil_stack \<Rightarrow> bool" where
  "stack_inv s \<longleftrightarrow> 0 \<le> st_size s \<and> st_size s \<le> st_capacity s \<and> 0 < st_capacity s \<and>
     length (st_data s) = nat (st_capacity s) \<and> st_is_empty_stack s = (st_size s = 0) \<and>
     (\<forall>i < nat (st_size s). st_data s ! i \<noteq> None)"

text \<open>The pointers on the stack, from the bottom to the top.\<close>

definition stack_items :: "'a axutil_stack \<Rightarrow> 'a list" where
  "stack_items s = map the (take (nat (st_size s)) (st_data s))"

lemma length_stack_items: "stack_inv s \<Longrightarrow> int (length (stack_items s)) = st_size s"
  by (auto simp: stack_inv_def stack_items_def min_def)

lemma nth_stack_items:
  "stack_inv s \<Longrightarrow> i < nat (st_size s) \<Longrightarrow> st_data s ! i = Some (stack_items s ! i)"
  by (auto simp: stack_inv_def stack_items_def)

lemma stack_items_empty: "stack_inv s \<Longrightarrow> stack_items s = [] \<longleftrightarrow> st_size s = 0"
  using length_stack_items [of s] by auto

section \<open>The operations on the list of items\<close>

lemma stack_create_ok:
  "axutil_stack_create malloc = Inr s \<Longrightarrow> stack_inv s \<and> stack_items s = []"
  by (auto simp: axutil_stack_create_def stack_inv_def stack_items_def
      AXIS2_STACK_DEFAULT_CAPACITY_def split: if_splits)

lemma stack_push_ok:
  assumes inv: "stack_inv s" and p: "axutil_stack_push malloc s (Some x) = Inr s'"
  shows "stack_inv s' \<and> stack_items s' = stack_items s @ [x]"
proof -
  define d where "d = (if st_size s < st_capacity s then st_data s
    else take (nat (st_capacity s)) (st_data s) @
      replicate (nat (st_capacity s + 10) - nat (st_capacity s)) None)"
  define c where "c = (if st_size s < st_capacity s then st_capacity s else st_capacity s + 10)"
  have s': "s' = s\<lparr>st_data := d[nat (st_size s) := Some x], st_size := st_size s + 1,
      st_capacity := c, st_is_empty_stack := False\<rparr>"
    using p inv
    by (auto simp: axutil_stack_push_def d_def c_def stack_inv_def Let_def
        AXIS2_STACK_DEFAULT_CAPACITY_def split: if_splits)
  have n: "nat (st_size s) < length d" "length d = nat c" "st_size s + 1 \<le> c"
      "take (nat (st_size s)) d = take (nat (st_size s)) (st_data s)"
    using inv by (auto simp: d_def c_def stack_inv_def)
  have "stack_items s' = stack_items s @ [x]"
    using n inv by (simp add: s' stack_items_def nat_add_distrib take_Suc_conv_app_nth stack_inv_def)
  moreover have "d ! i \<noteq> None" if "i < nat (st_size s)" for i
    using that n(4) inv by (metis nth_take stack_inv_def)
  ultimately show ?thesis
    using n inv by (auto simp: s' stack_inv_def nth_list_update nat_add_distrib less_Suc_eq)
qed

lemma stack_pop_ok:
  assumes inv: "stack_inv s" and p: "axutil_stack_pop s = (r, s')"
  shows "stack_inv s' \<and> stack_items s' = butlast (stack_items s) \<and>
    r = (if stack_items s = [] then None else Some (last (stack_items s)))"
proof (cases "st_size s = 0")
  case True
  with assms show ?thesis by (auto simp: axutil_stack_pop_def stack_items_def)
next
  case False
  with inv have pos: "0 < st_size s" by (simp add: stack_inv_def)
  let ?k = "nat (st_size s - 1)"
  have k: "nat (st_size s) = Suc ?k" "?k < length (st_data s)"
    using pos inv by (auto simp: stack_inv_def)
  have r: "r = st_data s ! ?k" and
    s': "s' = s\<lparr>st_data := (st_data s)[?k := None], st_size := st_size s - 1,
               st_is_empty_stack := (st_size s = 1)\<rparr>"
    using p pos inv by (auto simp: axutil_stack_pop_def Let_def stack_inv_def split: if_splits)
  have items: "stack_items s = stack_items s' @ [the (st_data s ! ?k)]"
    using k by (simp add: stack_items_def s' take_Suc_conv_app_nth)
  moreover have "st_data s ! ?k \<noteq> None" using inv k by (auto simp: stack_inv_def)
  moreover have "stack_inv s'"
    using inv pos k by (auto simp: stack_inv_def s')
  ultimately show ?thesis by (auto simp: r)
qed

lemma stack_push_status:
  assumes "stack_inv s"
  shows "axutil_stack_push malloc s None = Inl INVALID_NULL_PARAM"
    and "mem_ok malloc \<Longrightarrow> \<exists>s'. axutil_stack_push malloc s (Some x) = Inr s'"
    and "axutil_stack_push malloc s (Some x) = Inl e \<Longrightarrow>
      e = NO_MEMORY \<and> st_size s = st_capacity s \<and> \<not> mem_ok malloc"
  using assms
  by (auto simp: axutil_stack_push_def stack_inv_def Let_def mem_okD split: if_splits)

section \<open>Histories of calls\<close>

datatype 'a stack_call = Push "'a option" | Pop | Get | Get_at int | Size

datatype 'a stack_ret = Ptr "'a option" | Status axis2_status | Num int

definition do_stack_call ::
    "alloc \<Rightarrow> 'a axutil_stack \<Rightarrow> 'a stack_call \<Rightarrow> 'a stack_ret \<times> 'a axutil_stack" where
  "do_stack_call malloc s c =
     (case c of
        Push v \<Rightarrow> let r = axutil_stack_push malloc s v in (Status (status_of r), state_of s r)
      | Pop \<Rightarrow> (case axutil_stack_pop s of (v, s') \<Rightarrow> (Ptr v, s'))
      | Get \<Rightarrow> (Ptr (axutil_stack_get s), s)
      | Get_at i \<Rightarrow> (Ptr (axutil_stack_get_at s i), s)
      | Size \<Rightarrow> (Num (axutil_stack_size s), s))"

text \<open>The same calls on a list of items, the bottom first.\<close>

definition list_call :: "'a list \<Rightarrow> 'a stack_call \<Rightarrow> 'a stack_ret \<times> 'a list" where
  "list_call xs c =
     (case c of
        Push None \<Rightarrow> (Status AXIS2_FAILURE, xs)
      | Push (Some x) \<Rightarrow> (Status AXIS2_SUCCESS, xs @ [x])
      | Pop \<Rightarrow> (Ptr (if xs = [] then None else Some (last xs)), butlast xs)
      | Get \<Rightarrow> (Ptr (if xs = [] then None else Some (last xs)), xs)
      | Get_at i \<Rightarrow> (Ptr (if 0 \<le> i \<and> i < int (length xs) then Some (xs ! nat i) else None), xs)
      | Size \<Rightarrow> (Num (int (length xs)), xs))"

lemma stack_get_last:
  assumes "stack_inv s"
  shows "axutil_stack_get s = (if stack_items s = [] then None else Some (last (stack_items s)))"
proof (cases "st_size s = 0")
  case False
  with assms have "nat (st_size s - 1) < nat (st_size s)" by (auto simp: stack_inv_def)
  moreover have "length (stack_items s) - 1 = nat (st_size s - 1)"
    using length_stack_items [OF assms] by linarith
  then have "last (stack_items s) = stack_items s ! nat (st_size s - 1)"
    using False assms by (simp add: last_conv_nth stack_items_empty)
  ultimately show ?thesis
    using False assms by (auto simp: axutil_stack_get_def nth_stack_items stack_items_empty stack_inv_def)
qed (use assms in \<open>simp add: axutil_stack_get_def stack_items_empty\<close>)

lemma do_stack_call_simulates:
  assumes inv: "stack_inv s" and mem: "mem_ok malloc" and c: "do_stack_call malloc s c = (r, s')"
  shows "stack_inv s' \<and> list_call (stack_items s) c = (r, stack_items s')"
proof (cases c)
  case (Push v)
  show ?thesis
  proof (cases v)
    case None
    with Push c inv show ?thesis
      by (auto simp: do_stack_call_def list_call_def stack_push_status Let_def)
  next
    case (Some x)
    obtain t where t: "axutil_stack_push malloc s (Some x) = Inr t"
      using stack_push_status(2) [OF inv mem] by blast
    with Push Some c stack_push_ok [OF inv t] show ?thesis
      by (auto simp: do_stack_call_def list_call_def Let_def)
  qed
next
  case Pop
  with c stack_pop_ok [OF inv] show ?thesis
    by (auto simp: do_stack_call_def list_call_def split: prod.splits)
next
  case Get
  with c inv show ?thesis by (auto simp: do_stack_call_def list_call_def stack_get_last)
next
  case (Get_at i)
  with c inv length_stack_items [OF inv] show ?thesis
    by (auto simp: do_stack_call_def list_call_def axutil_stack_get_at_def nth_stack_items)
next
  case Size
  with c inv show ?thesis
    by (auto simp: do_stack_call_def list_call_def axutil_stack_size_def length_stack_items)
qed

interpretation stk: refinement "\<lambda>s. mem_ok malloc \<and> stack_inv s" stack_items
    "do_stack_call malloc" list_call for malloc
  by unfold_locales (use do_stack_call_simulates in blast)+

text \<open>
  A new stack behaves as a list under every history of \<^verbatim>\<open>push\<close>, \<^verbatim>\<open>pop\<close>, \<^verbatim>\<open>get\<close>,
  \<^verbatim>\<open>get_at\<close> and \<^verbatim>\<open>size\<close> calls, across any number of growths of its block: each call returns
  what it returns on the list, and the invariant holds at the end.
\<close>

theorem stack_refines_list:
  assumes "axutil_stack_create malloc = Inr s" and "mem_ok malloc"
    and "calls (do_stack_call malloc) s cs = (rs, s')"
  shows "calls list_call [] cs = (rs, stack_items s') \<and> stack_inv s'"
proof -
  have s: "stack_inv s" "stack_items s = []" using stack_create_ok [OF assms(1)] by auto
  with assms(2) show ?thesis using stk.history [OF _ assms(3)] by simp
qed

theorem stack_refines_list_witness:
  "\<exists>s rs s'. axutil_stack_create (\<lambda>n. True) = Inr s \<and>
     calls (do_stack_call (\<lambda>n. True)) s [Push (Some 5), Push None, Push (Some 7), Pop, Get, Size, Pop, Pop] = (rs, s') \<and>
     calls list_call [] [Push (Some 5), Push None, Push (Some 7), Pop, Get, Size, Pop, Pop] = (rs, stack_items s') \<and>
     rs = [Status AXIS2_SUCCESS, Status AXIS2_FAILURE, Status AXIS2_SUCCESS, Ptr (Some 7),
       Ptr (Some (5 :: nat)), Num 1, Ptr (Some 5), Ptr None] \<and> stack_inv s'"
proof -
  let ?cs = "[Push (Some 5), Push None, Push (Some 7), Pop, Get, Size, Pop, Pop]"
  obtain s where s: "axutil_stack_create (\<lambda>n. True) = Inr (s :: nat axutil_stack)"
    by (simp add: axutil_stack_create_def)
  obtain rs s' where c: "calls (do_stack_call (\<lambda>n. True)) s ?cs = (rs, s')" by fastforce
  from stack_refines_list [OF s _ c]
  have r: "calls list_call [] ?cs = (rs, stack_items s')" "stack_inv s'" by simp_all
  then have "rs = [Status AXIS2_SUCCESS, Status AXIS2_FAILURE, Status AXIS2_SUCCESS, Ptr (Some 7),
       Ptr (Some 5), Num 1, Ptr (Some 5), Ptr None]"
    by (simp add: list_call_def)
  with s c r show ?thesis by blast
qed

end
