(* ===== verification/Base64.thy ===== *)
theory Base64
  imports Axis_Prelude "HOL-Library.Signed_Division"
begin

text \<open>
  The base64 codec of \<^verbatim>\<open>util/src/base64.c\<close>, in its ASCII configuration (the branches under
  \<^verbatim>\<open>__OS400__\<close> belong to EBCDIC machines). A buffer is a list of bytes. An operation returns the
  bytes it writes, from the start of its output buffer, beside its C return value; an access
  outside a buffer is \<open>UNDEFINED_BEHAVIOUR\<close>, and so is a length that does not fit an \<^verbatim>\<open>int\<close> (the code's
  comments take for granted that the differences of pointers fit). Bytes are promoted to 32-bit
  integers before the shifts, as in C.

  The lemmas show that decoding inverts encoding, that the encoder is the one of RFC 4648, and
  that the two length functions are exactly the numbers of bytes the codec writes.
\<close>

unbundle bit_operations_syntax

section \<open>The codec\<close>

type_synonym byte = "8 word"
type_synonym c_int = "32 word"

definition pr2six :: "byte list" where
  "pr2six = [
     64, 64, 64, 64, 64, 64, 64, 64, 64, 64, 64, 64, 64, 64, 64, 64,
     64, 64, 64, 64, 64, 64, 64, 64, 64, 64, 64, 64, 64, 64, 64, 64,
     64, 64, 64, 64, 64, 64, 64, 64, 64, 64, 64, 62, 64, 64, 64, 63,
     52, 53, 54, 55, 56, 57, 58, 59, 60, 61, 64, 64, 64, 64, 64, 64,
     64, 0, 1, 2, 3, 4, 5, 6, 7, 8, 9, 10, 11, 12, 13, 14,
     15, 16, 17, 18, 19, 20, 21, 22, 23, 24, 25, 64, 64, 64, 64, 64,
     64, 26, 27, 28, 29, 30, 31, 32, 33, 34, 35, 36, 37, 38, 39, 40,
     41, 42, 43, 44, 45, 46, 47, 48, 49, 50, 51, 64, 64, 64, 64, 64,
     64, 64, 64, 64, 64, 64, 64, 64, 64, 64, 64, 64, 64, 64, 64, 64,
     64, 64, 64, 64, 64, 64, 64, 64, 64, 64, 64, 64, 64, 64, 64, 64,
     64, 64, 64, 64, 64, 64, 64, 64, 64, 64, 64, 64, 64, 64, 64, 64,
     64, 64, 64, 64, 64, 64, 64, 64, 64, 64, 64, 64, 64, 64, 64, 64,
     64, 64, 64, 64, 64, 64, 64, 64, 64, 64, 64, 64, 64, 64, 64, 64,
     64, 64, 64, 64, 64, 64, 64, 64, 64, 64, 64, 64, 64, 64, 64, 64,
     64, 64, 64, 64, 64, 64, 64, 64, 64, 64, 64, 64, 64, 64, 64, 64,
     64, 64, 64, 64, 64, 64, 64, 64, 64, 64, 64, 64, 64, 64, 64, 64]"

definition basis_64 :: "byte list" where
  "basis_64 = map of_char
     ''ABCDEFGHIJKLMNOPQRSTUVWXYZabcdefghijklmnopqrstuvwxyz0123456789+/''"

text \<open>The byte at an index, and its entry of \<^verbatim>\<open>pr2six\<close>, as C promotes them to \<^verbatim>\<open>int\<close>.\<close>

definition at_int :: "byte list \<Rightarrow> nat \<Rightarrow> c_int" where
  "at_int buf i = ucast (buf ! i)"

definition six_at :: "byte list \<Rightarrow> nat \<Rightarrow> c_int" where
  "six_at buf i = ucast (pr2six ! unat (buf ! i))"

definition basis_at :: "c_int \<Rightarrow> byte" where
  "basis_at v = basis_64 ! unat v"

text \<open>
  \<^verbatim>\<open>while (pr2six[*(bufin++)] <= 63);\<close> counts the bytes before the first one outside the
  alphabet; \<open>None\<close>: the scan leaves the buffer.
\<close>

fun count_prbytes :: "byte list \<Rightarrow> nat option" where
  "count_prbytes [] = None"
| "count_prbytes (b # bs) =
     (if pr2six ! unat b \<le> 63 then map_option Suc (count_prbytes bs) else Some 0)"

definition axutil_base64_decode_len :: "byte list option \<Rightarrow> int result" where
  "axutil_base64_decode_len bufcoded =
     (case bufcoded of
        None \<Rightarrow> Inr (-1)
      | Some buf \<Rightarrow>
          (case count_prbytes buf of
             None \<Rightarrow> Inl UNDEFINED_BEHAVIOUR
           | Some nprbytes \<Rightarrow>
               if \<not> in_int (int nprbytes + 1) then Inl UNDEFINED_BEHAVIOUR
               else
               let nbytesdecoded = int (drop_bit 2 nprbytes * 3) in
               Inr (if nprbytes AND 3 \<noteq> 0 then nbytesdecoded + (int (nprbytes AND 3) - 1)
                    else nbytesdecoded)))"

text \<open>The three bytes of a quantum of four characters, at the position of \<^verbatim>\<open>bufin\<close>.\<close>

definition plain0 :: "byte list \<Rightarrow> byte" where
  "plain0 bufin = ucast (push_bit 2 (six_at bufin 0) OR drop_bit 4 (six_at bufin 1))"

definition plain1 :: "byte list \<Rightarrow> byte" where
  "plain1 bufin = ucast (push_bit 4 (six_at bufin 1) OR drop_bit 2 (six_at bufin 2))"

definition plain2 :: "byte list \<Rightarrow> byte" where
  "plain2 bufin = ucast (push_bit 6 (six_at bufin 2) OR six_at bufin 3)"

text \<open>
  The loop \<^verbatim>\<open>while (nprbytes > 4)\<close>: the written bytes, and \<^verbatim>\<open>bufin\<close> and \<^verbatim>\<open>nprbytes\<close> after it.
\<close>

fun decode_loop :: "byte list \<Rightarrow> nat \<Rightarrow> byte list \<times> byte list \<times> nat" where
  "decode_loop bufin nprbytes =
     (if nprbytes > 4 then
        (case decode_loop (drop 4 bufin) (nprbytes - 4) of
           (out, rest) \<Rightarrow> (plain0 bufin # plain1 bufin # plain2 bufin # out, rest))
      else ([], bufin, nprbytes))"

declare decode_loop.simps [simp del]

definition axutil_base64_decode_binary ::
    "byte list option \<Rightarrow> (byte list \<times> int) result" where
  "axutil_base64_decode_binary bufcoded =
     (case bufcoded of
        None \<Rightarrow> Inr ([], -1)
      | Some buf \<Rightarrow>
          (case count_prbytes buf of
             None \<Rightarrow> Inl UNDEFINED_BEHAVIOUR
           | Some nprbytes0 \<Rightarrow>
               if \<not> in_int (int nprbytes0 + 3) then Inl UNDEFINED_BEHAVIOUR
               else
               let nbytesdecoded = (nprbytes0 + 3) div 4 * 3;
                   (out, bufin, nprbytes) = decode_loop buf nprbytes0;
                   tail = (if nprbytes > 1 then [plain0 bufin] else []) @
                          (if nprbytes > 2 then [plain1 bufin] else []) @
                          (if nprbytes > 3 then [plain2 bufin] else [])
               in Inr (out @ tail, int nbytesdecoded - ((4 - int nprbytes) AND 3))))"

text \<open>
  \<^verbatim>\<open>axutil_base64_decode\<close> stores a NUL at \<^verbatim>\<open>bufplain[len]\<close>; for a NULL argument \<^verbatim>\<open>len\<close> is -1
  and the store is before the buffer.
\<close>

definition axutil_base64_decode :: "byte list option \<Rightarrow> (byte list \<times> int) result" where
  "axutil_base64_decode bufcoded =
     (case axutil_base64_decode_binary bufcoded of
        Inl e \<Rightarrow> Inl e
      | Inr (bufplain, len) \<Rightarrow>
          if len < 0 then Inl UNDEFINED_BEHAVIOUR
          else Inr (take (nat len) bufplain @ [0] @ drop (Suc (nat len)) bufplain, len))"

text \<open>
  \<^verbatim>\<open>((len + 2) / 3 * 4) + 1\<close>, an overflow of any of the operations included. C's division rounds
  towards zero, which only matters for \<^verbatim>\<open>len < -2\<close>.
\<close>

definition axutil_base64_encode_len :: "int \<Rightarrow> int result" where
  "axutil_base64_encode_len len =
     res_bind (int_val (len + 2)) (\<lambda>a. res_bind (int_val (a sdiv 3 * 4)) (\<lambda>b. int_val (b + 1)))"

text \<open>
  The loop \<^verbatim>\<open>for (i = 0; i < len - 2; i += 3)\<close>: the characters written and the final \<^verbatim>\<open>i\<close>.
\<close>

function encode_loop :: "byte list \<Rightarrow> int \<Rightarrow> nat \<Rightarrow> byte list \<times> nat" where
  "encode_loop str len i =
     (if int i < len - 2 then
        (case encode_loop str len (i + 3) of
           (out, i') \<Rightarrow>
             (basis_at (drop_bit 2 (at_int str i) AND 0x3F) #
              basis_at (push_bit 4 (at_int str i AND 0x3) OR
                        drop_bit 4 (at_int str (i + 1) AND 0xF0)) #
              basis_at (push_bit 2 (at_int str (i + 1) AND 0xF) OR
                        drop_bit 6 (at_int str (i + 2) AND 0xC0)) #
              basis_at (at_int str (i + 2) AND 0x3F) # out, i'))
      else ([], i))"
  by pat_completeness auto
termination
  by (relation "measure (\<lambda>(str, len, i). nat (len - int i))") auto

declare encode_loop.simps [simp del]

text \<open>
  The code reads \<^verbatim>\<open>string[0]\<close> to \<^verbatim>\<open>string[len - 1]\<close>, each at least once.
\<close>

definition axutil_base64_encode_binary ::
    "byte list \<Rightarrow> int \<Rightarrow> (byte list \<times> int) result" where
  "axutil_base64_encode_binary str len =
     (if len > int (length str) \<or> \<not> in_int (len - 2) then Inl UNDEFINED_BEHAVIOUR
      else
        let (out, i) = encode_loop str len 0;
            tail =
              (if int i < len then
                 [basis_at (drop_bit 2 (at_int str i) AND 0x3F)] @
                 (if int i = len - 1 then
                    [basis_at (push_bit 4 (at_int str i AND 0x3)), of_char (CHR ''='')]
                  else
                    [basis_at (push_bit 4 (at_int str i AND 0x3) OR
                               drop_bit 4 (at_int str (i + 1) AND 0xF0)),
                     basis_at (push_bit 2 (at_int str (i + 1) AND 0xF))]) @
                 [of_char (CHR ''='')]
               else []);
            encoded = out @ tail @ [0]
        in res_bind (int_val (int (length encoded))) (\<lambda>n. Inr (encoded, n)))"

definition axutil_base64_encode :: "byte list \<Rightarrow> int \<Rightarrow> (byte list \<times> int) result" where
  "axutil_base64_encode str len = axutil_base64_encode_binary str len"

section \<open>Bit operations as arithmetic\<close>

lemma unat_or_word: "unat (v OR w :: 'a::len word) = unat v OR unat w"
  by transfer (simp add: nat_eq_iff or_nat_def take_bit_or)
lemma unat_and_word: "unat (v AND w :: 'a::len word) = unat v AND unat w"
  by transfer (simp add: and_nat_def)
lemma or_shift_add: "(y::nat) < 2 ^ k \<Longrightarrow> push_bit k x OR y = x * 2 ^ k + y"
proof -
  assume y: "y < 2 ^ k"
  have "\<not> (bit (push_bit k x) n \<and> bit y n)" for n
    using y by (metis bit_push_bit_iff_nat bit_take_bit_iff linorder_not_le take_bit_nat_eq_self_iff)
  then have "push_bit k x OR y = push_bit k x + y"
    by (simp add: disjunctive_add)
  then show ?thesis by (simp add: push_bit_eq_mult)
qed

lemma and_low_nat:
  "(n::nat) AND 3 = n mod 4" "(n::nat) AND 15 = n mod 16" "(n::nat) AND 63 = n mod 64"
  using take_bit_eq_mask [of 2 n] take_bit_eq_mask [of 4 n] take_bit_eq_mask [of 6 n]
  by (simp_all add: take_bit_eq_mod mask_eq_exp_minus_1)

lemma and_high_nat:
  "drop_bit 4 ((n::nat) AND 240) = n div 16 mod 16" "drop_bit 6 ((n::nat) AND 192) = n div 64 mod 4"
proof -
  have "drop_bit 4 (240::nat) = 15" "drop_bit 6 (192::nat) = 3"
    by (simp_all add: drop_bit_eq_div)
  then show "drop_bit 4 (n AND 240) = n div 16 mod 16" "drop_bit 6 (n AND 192) = n div 64 mod 4"
    unfolding drop_bit_and by (simp_all only: and_low_nat) (simp_all add: drop_bit_eq_div)
qed

lemma unat_byte [simp]: "unat (b :: byte) < 256"
proof -
  have "unat b < 2 ^ LENGTH(8)" by (rule unsigned_less)
  then show ?thesis by simp
qed

lemma unat_ucast_byte [simp]: "unat (ucast (b::byte) :: c_int) = unat b"
  by (simp add: unsigned_ucast_eq take_bit_nat_eq_self_iff  order_less_trans [OF unat_byte])

lemma unat_push_small:
  "unat (w :: c_int) < 64 \<Longrightarrow> k \<le> 6 \<Longrightarrow> unat (push_bit k w) = unat w * 2 ^ k"
proof -
  assume w: "unat w < 64" "k \<le> 6"
  have "unat w * 2 ^ k < 64 * 64"
    using w power_increasing [of k 6 "2::nat"] by (intro mult_less_le_imp_less) auto
  then show ?thesis
    by (simp only: unsigned_push_bit_eq) (simp add: take_bit_nat_eq_self_iff push_bit_eq_mult)
qed

lemma or_shift_mult: "(y::nat) < 2 ^ k \<Longrightarrow> x * 2 ^ k OR y = x * 2 ^ k + y"
  using or_shift_add [of y k x] by (simp add: push_bit_eq_mult)

lemma unat_lits: "unat (3::c_int) = 3" "unat (15::c_int) = 15" "unat (63::c_int) = 63"
  "unat (240::c_int) = 240" "unat (192::c_int) = 192" by simp_all

lemma basis_index:
  fixes a b :: byte
  shows "unat (drop_bit 2 (ucast a :: c_int) AND 0x3F) = unat a div 4"
    and "unat (push_bit 4 (ucast a AND 0x3 :: c_int) OR drop_bit 4 (ucast b AND 0xF0)) =
         unat a mod 4 * 16 + unat b div 16"
    and "unat (push_bit 2 (ucast a AND 0xF :: c_int) OR drop_bit 6 (ucast b AND 0xC0)) =
         unat a mod 16 * 4 + unat b div 64"
    and "unat (ucast a AND 0x3F :: c_int) = unat a mod 64"
    and "unat (push_bit 4 (ucast a AND 0x3 :: c_int)) = unat a mod 4 * 16"
    and "unat (push_bit 2 (ucast a AND 0xF :: c_int)) = unat a mod 16 * 4"
proof -
  have d: "unat a div 4 < 64" "unat b div 16 < 16" "unat b div 64 < 4"
    using unat_byte [of a] unat_byte [of b] by (simp_all add: less_mult_imp_div_less)
  have lo: "unat (ucast a AND 0x3 :: c_int) = unat a mod 4" "unat (ucast a AND 0xF :: c_int) = unat a mod 16"
    by (simp_all only: unat_and_word unat_ucast_byte unat_lits and_low_nat)
  show p: "unat (push_bit 4 (ucast a AND 0x3 :: c_int)) = unat a mod 4 * 16"
     "unat (push_bit 2 (ucast a AND 0xF :: c_int)) = unat a mod 16 * 4"
    by (subst unat_push_small; simp only: lo; simp)+
  have hi: "unat (drop_bit 4 (ucast b AND 0xF0 :: c_int)) = unat b div 16"
      "unat (drop_bit 6 (ucast b AND 0xC0 :: c_int)) = unat b div 64"
    using d by (simp_all only: unat_and_word unat_drop_bit_eq unat_ucast_byte unat_lits and_high_nat mod_less)
  show "unat (drop_bit 2 (ucast a :: c_int) AND 0x3F) = unat a div 4"
    using d by (simp only: unat_and_word unat_drop_bit_eq unat_ucast_byte unat_lits and_low_nat) 
     (simp add: drop_bit_eq_div)
  show "unat (push_bit 4 (ucast a AND 0x3 :: c_int) OR drop_bit 4 (ucast b AND 0xF0)) =
         unat a mod 4 * 16 + unat b div 16"
    "unat (push_bit 2 (ucast a AND 0xF :: c_int) OR drop_bit 6 (ucast b AND 0xC0)) =
         unat a mod 16 * 4 + unat b div 64"
    using d or_shift_mult [of "unat b div 16" 4 "unat a mod 4"] or_shift_mult [of "unat b div 64" 2 "unat a mod 16"]
    by (simp_all only: unat_or_word p hi) simp_all
  show "unat (ucast a AND 0x3F :: c_int) = unat a mod 64"
    by (simp only: unat_and_word unat_ucast_byte unat_lits and_low_nat)
qed

lemma pr2six_basis: "n < 64 \<Longrightarrow> pr2six ! unat (basis_64 ! n) = of_nat n"
proof -
  have "list_all (\<lambda>n. pr2six ! unat (basis_64 ! n) = of_nat n) [0..<64]" by code_simp
  then show "n < 64 \<Longrightarrow> pr2six ! unat (basis_64 ! n) = of_nat n" by (simp add: list_all_iff)
qed

lemma pr2six_stop [simp]: "pr2six ! 61 = 64" "pr2six ! 0 = 64"
  by (simp_all add: pr2six_def)

section \<open>The decoder\<close>

text \<open>
  The value of a character in the alphabet, and the specification of decoding on such values:
  four of them are three bytes, a rest of three two bytes, a rest of two one byte, and a rest of one
  nothing.
\<close>

definition six :: "byte \<Rightarrow> nat" where
  "six b = unat (pr2six ! unat b)"

fun unsextets :: "nat list \<Rightarrow> byte list" where
  "unsextets (a # b # c # d # r) =
     of_nat (a * 4 + b div 16) # of_nat (b * 16 + c div 4) # of_nat (c * 64 + d) # unsextets r"
| "unsextets [a, b, c] = [of_nat (a * 4 + b div 16), of_nat (b * 16 + c div 4)]"
| "unsextets [a, b] = [of_nat (a * 4 + b div 16)]"
| "unsextets [a] = []"
| "unsextets [] = []"

lemma six_at_unat [simp]: "unat (six_at buf i) = six (buf ! i)"
  by (simp add: six_at_def six_def)

lemma byte_of_int: "(ucast (w :: c_int) :: byte) = of_nat (unat w)"
  by simp

lemma or_shift_byte:
  assumes "unat (u :: c_int) < 64" "unat (v :: c_int) < 2 ^ k" "k \<le> 6"
  shows "(ucast (push_bit k u OR v) :: byte) = of_nat (unat u * 2 ^ k + unat v)"
  using assms by (simp only: byte_of_int unat_or_word unat_push_small or_shift_mult)

lemma or_shift_drop:
  assumes "unat (u :: c_int) < 64" "unat (v :: c_int) < 64" "k + j = 6"
  shows "(ucast (push_bit k u OR drop_bit j v) :: byte) =
    of_nat (unat u * 2 ^ k + unat v div 2 ^ j)"
proof -
  have "unat v < 2 ^ k * 2 ^ j" using assms(2,3) by (simp flip: power_add)
  then have "unat (drop_bit j v) < 2 ^ k"
    unfolding unat_drop_bit_eq by (simp add: drop_bit_eq_div less_mult_imp_div_less)
  from or_shift_byte [OF assms(1) this] assms(3) show ?thesis
    unfolding unat_drop_bit_eq by (simp add: drop_bit_eq_div)
qed

lemma plain_bytes:
  "six (buf ! 0) < 64 \<Longrightarrow> six (buf ! 1) < 64 \<Longrightarrow>
     plain0 buf = of_nat (six (buf ! 0) * 4 + six (buf ! 1) div 16)"
  "six (buf ! 1) < 64 \<Longrightarrow> six (buf ! 2) < 64 \<Longrightarrow>
     plain1 buf = of_nat (six (buf ! 1) * 16 + six (buf ! 2) div 4)"
  "six (buf ! 2) < 64 \<Longrightarrow> six (buf ! 3) < 64 \<Longrightarrow>
     plain2 buf = of_nat (six (buf ! 2) * 64 + six (buf ! 3))"
  using or_shift_drop [of "six_at buf 0" "six_at buf 1" 2 4]
    or_shift_drop [of "six_at buf 1" "six_at buf 2" 4 2]
    or_shift_byte [of "six_at buf 2" "six_at buf 3" 6]
  by (simp_all only: plain0_def plain1_def plain2_def six_at_unat) simp_all

lemma count_prbytes_Some:
  "count_prbytes buf = Some n \<longleftrightarrow>
     n < length buf \<and> (\<forall>b \<in> set (take n buf). six b < 64) \<and> \<not> six (buf ! n) < 64"
proof (induction buf arbitrary: n)
  case (Cons b bs)
  have six: "pr2six ! unat b \<le> 63 \<longleftrightarrow> six b < 64" by (simp add: six_def word_le_nat_alt, linarith)
  show ?case by (cases n) (auto simp: Cons.IH six)
qed simp

lemma count_prbytes_None: "count_prbytes buf = None \<longleftrightarrow> (\<forall>b \<in> set buf. six b < 64)"
proof (induction buf)
  case (Cons b bs)
  have six: "pr2six ! unat b \<le> 63 \<longleftrightarrow> six b < 64" by (simp add: six_def word_le_nat_alt, linarith)
  show ?case by (auto simp: Cons.IH six)
qed simp

text \<open>The three conditional stores after the loop of the decoder.\<close>

definition decode_tail :: "byte list \<Rightarrow> nat \<Rightarrow> byte list" where
  "decode_tail bufin nprbytes =
     (if nprbytes > 1 then [plain0 bufin] else []) @
     (if nprbytes > 2 then [plain1 bufin] else []) @
     (if nprbytes > 3 then [plain2 bufin] else [])"

lemma take_map_nth: "n \<le> length xs \<Longrightarrow> take n xs = map (nth xs) [0..<n]"
  by (rule nth_equalityI) auto

lemma upt_small: "[0..<2] = [0, 1::nat]" "[0..<3] = [0, 1, 2::nat]" "[0..<4] = [0, 1, 2, 3::nat]"
  by (simp_all add: upt_rec)

lemma decode_tail_spec:
  assumes "n \<le> 4" "n \<le> length buf" "\<forall>b \<in> set (take n buf). six b < 64"
  shows "decode_tail buf n = unsextets (map six (take n buf))"
proof -
  have six: "six (buf ! i) < 64" if "i < n" for i
    using assms that by (metis in_set_conv_nth length_take min.absorb2 nth_take)
  consider "n = 0" | "n = 1" | "n = 2" | "n = 3" | "n = 4" using assms(1) by linarith
  then show ?thesis
    using assms(2) six
    by cases (simp_all add: decode_tail_def plain_bytes take_map_nth upt_small)
qed

lemma decode_loop_spec:
  assumes "n \<le> length buf" "\<forall>b \<in> set (take n buf). six b < 64"
    and "decode_loop buf n = (out, bufin, m)"
  shows "out @ decode_tail bufin m = unsextets (map six (take n buf)) \<and>
    m = (if n = 0 then 0 else (n - 1) mod 4 + 1)"
  using assms
proof (induction buf n arbitrary: out rule: decode_loop.induct)
  case (1 buf n)
  show ?case
  proof (cases "n > 4")
    case True
    obtain out' where l: "decode_loop (drop 4 buf) (n - 4) = (out', bufin, m)"
      and out: "out = plain0 buf # plain1 buf # plain2 buf # out'"
      using "1.prems"(3) True by (subst (asm) decode_loop.simps) (auto split: prod.splits)
    have t: "take n buf = take 4 buf @ take (n - 4) (drop 4 buf)"
      using True by (metis add_diff_inverse_nat less_imp_not_less not_less_iff_gr_or_eq take_add)
    have ih: "out' @ decode_tail bufin m = unsextets (map six (take (n - 4) (drop 4 buf))) \<and>
        m = (if n - 4 = 0 then 0 else (n - 4 - 1) mod 4 + 1)"
      using "1.prems" True l t by (intro "1.IH") auto
    have four: "take 4 buf = [buf ! 0, buf ! 1, buf ! 2, buf ! 3]"
      using True "1.prems"(1) by (simp add: take_map_nth upt_small)
    have "\<forall>b \<in> {buf ! 0, buf ! 1, buf ! 2, buf ! 3}. six b < 64"
      using "1.prems"(2) unfolding t four by auto
    then have "out @ decode_tail bufin m = unsextets (map six (take n buf))"
      unfolding t four out using conjunct1 [OF ih] by (simp add: plain_bytes)
    moreover have "(n - 4 - 1) mod 4 = (n - 1) mod 4"
      using True mod_add_self2 [of "n - 5" 4] by simp
    ultimately show ?thesis using ih True by simp
  next
    case False
    with "1.prems" show ?thesis
      by (subst (asm) decode_loop.simps) (auto simp: decode_tail_spec)
  qed
qed

lemma length_unsextets: "length (unsextets ss) = length ss div 4 * 3 + (length ss mod 4 - 1)"
proof (induction ss rule: unsextets.induct)
  case (1 a b c d r)
  have "(4 + length r) div 4 = 1 + length r div 4"
    using div_add_self1 [of 4 "length r"] by simp
  with "1.IH" show ?case by simp
qed simp_all

lemma decoded_count:
  "int ((n + 3) div 4 * 3) - (4 - int (if n = 0 then 0 else (n - 1) mod 4 + 1)) mod 4 =
     int (n div 4 * 3 + (n mod 4 - 1))"
proof (cases n)
  case (Suc k)
  define q where "q = k div 4"
  define r where "r = k mod 4"
  have k: "k = r + q * 4" by (simp add: q_def r_def)
  have "r < 4" by (simp add: r_def)
  then consider "r = 0" | "r = 1" | "r = 2" | "r = 3" by linarith
  moreover have "n div 4 = q + (r + 1) div 4" "n mod 4 = (r + 1) mod 4" "(n + 3) div 4 = q + 1"
    "(n - 1) mod 4 = r"
    using div_mult_self1 [of 4 "r + 1" q] mod_mult_self1 [of "r + 1" q 4]
      div_mult_self1 [of 4 r "q + 1"] \<open>r < 4\<close> by (simp_all add: Suc k algebra_simps)
  ultimately show ?thesis using Suc by cases simp_all
qed simp

lemma decode_binary_spec:
  assumes "count_prbytes buf = Some n" and "in_int (int n + 3)"
  shows "axutil_base64_decode_binary (Some buf) =
    Inr (unsextets (map six (take n buf)), int (length (unsextets (map six (take n buf)))))"
proof -
  obtain out bufin m where l: "decode_loop buf n = (out, bufin, m)"
    by (metis prod_cases3)
  have n: "n \<le> length buf" "\<forall>b \<in> set (take n buf). six b < 64"
    using assms(1) by (auto simp: count_prbytes_Some)
  note spec = decode_loop_spec [OF n l]
  have "(4 - int m) AND 3 = (4 - int m) mod 4"
    using take_bit_eq_mask [of 2 "4 - int m"] by (simp add: take_bit_eq_mod mask_eq_exp_minus_1)
  moreover have "int ((n + 3) div 4 * 3) - (4 - int m) mod 4 = int (n div 4 * 3 + (n mod 4 - 1))"
    using conjunct2 [OF spec] by (simp only: decoded_count)
  ultimately show ?thesis
    using assms l conjunct1 [OF spec] n(1)
    by (simp add: axutil_base64_decode_binary_def Let_def length_unsextets decode_tail_def)
qed

lemma decode_len_spec:
  assumes "count_prbytes buf = Some n" and "in_int (int n + 1)"
  shows "axutil_base64_decode_len (Some buf) = Inr (int (length (unsextets (map six (take n buf)))))"
proof -
  have "n \<le> length buf" using assms(1) by (simp add: count_prbytes_Some)
  with assms show ?thesis
    by (auto simp: axutil_base64_decode_len_def Let_def length_unsextets and_low_nat drop_bit_eq_div)
qed

section \<open>The encoder\<close>

text \<open>
  RFC 4648, section 4: three bytes are a 24-bit number, written as four digits to the base 64; an
  incomplete group is filled with zero bits on the right, only the digits with input bits are
  written, and the output is padded to a multiple of four characters.
\<close>

definition sextets :: "byte \<Rightarrow> byte \<Rightarrow> byte \<Rightarrow> nat list" where
  "sextets a b c =
     (let n = (unat a * 256 + unat b) * 256 + unat c
      in [n div 64 ^ 3, n div 64 ^ 2 mod 64, n div 64 mod 64, n mod 64])"

fun sextet_list :: "byte list \<Rightarrow> nat list" where
  "sextet_list (a # b # c # r) = sextets a b c @ sextet_list r"
| "sextet_list [a, b] = take 3 (sextets a b 0)"
| "sextet_list [a] = take 2 (sextets a 0 0)"
| "sextet_list [] = []"

definition pad :: byte where
  "pad = of_char (CHR ''='')"

definition rfc4648 :: "byte list \<Rightarrow> byte list" where
  "rfc4648 xs = map (nth basis_64) (sextet_list xs) @ replicate ((3 - length xs mod 3) mod 3) pad"

text \<open>Digits of a number written with a low part \<open>x\<close> below \<open>m\<close>.\<close>

lemma low_part:
  fixes x m :: nat
  assumes "x < m"
  shows "(u * m + x) div m = u" "(u * m + x) mod m = x" "(u * m + x) mod (m * k) = u mod k * m + x"
  using assms by (simp_all add: mod_mult2_eq)

lemma sextets_eq:
  "sextets a b c = [unat a div 4, unat a mod 4 * 16 + unat b div 16,
     unat b mod 16 * 4 + unat c div 64, unat c mod 64]"
proof -
  define A where "A = unat a"
  define B where "B = unat b"
  define C where "C = unat c"
  let ?n = "(A * 256 + B) * 256 + C"
  have B: "B < 256" and C: "C < 256" by (simp_all add: B_def C_def)
  have n1: "?n div 256 = A * 256 + B" and n2: "(A * 256 + B) div 256 = A"
    using low_part(1) [OF C, of "A * 256 + B"] low_part(1) [OF B, of A] .
  have "?n div 64 ^ 3 = ?n div 256 div 256 div 4" by (simp flip: div_mult2_eq)
  then have d0: "?n div 64 ^ 3 = A div 4" by (simp only: n1 n2)
  have "?n div 64 ^ 2 = ?n div 256 div 16" by (simp flip: div_mult2_eq)
  also have "\<dots> = A * 16 + B div 16" unfolding n1 using div_mult_self3 [of 16 "A * 16" B] by simp
  finally have d1: "?n div 64 ^ 2 mod 64 = A mod 4 * 16 + B div 16"
    using low_part(3) [of "B div 16" 16 A 4] B by (simp add: less_mult_imp_div_less)
  have "?n div 64 = (A * 256 + B) * 4 + C div 64"
    using div_mult_self3 [of 64 "(A * 256 + B) * 4" C] by simp
  then have d2: "?n div 64 mod 64 = (A * 256 + B) mod 16 * 4 + C div 64"
    using low_part(3) [of "C div 64" 4 "A * 256 + B" 16] C by (simp add: less_mult_imp_div_less)
  have m: "(A * 256 + B) mod 16 = B mod 16" "?n mod 64 = C mod 64"
    using mod_mult_self3 [of "A * 16" 16 B] mod_mult_self3 [of "(A * 256 + B) * 4" 64 C]
    by (simp_all add: algebra_simps)
  show ?thesis
    by (simp only: sextets_def Let_def A_def [symmetric] B_def [symmetric] C_def [symmetric]
        d0 d1 d2 m)
qed

lemma sextets_less: "\<forall>s \<in> set (sextets a b c). s < 64"
proof -
  have "unat a div 4 < 64" "unat b div 16 < 16" "unat c div 64 < 4"
    by (simp_all add: less_mult_imp_div_less)
  moreover have "unat a mod 4 < 4" "unat b mod 16 < 16" "unat c mod 64 < 64" by simp_all
  ultimately have "unat a div 4 < 64" "unat a mod 4 * 16 + unat b div 16 < 64"
    "unat b mod 16 * 4 + unat c div 64 < 64" "unat c mod 64 < 64" by linarith+
  then show ?thesis by (simp add: sextets_eq)
qed

lemma sextet_list_less: "\<forall>s \<in> set (sextet_list xs). s < 64"
proof (induction xs rule: sextet_list.induct)
  case (1 a b c r)
  then show ?case using sextets_less [of a b c] by auto
next
  case (2 a b)
  show ?case using sextets_less [of a b 0] by (auto dest: in_set_takeD)
next
  case (3 a)
  show ?case using sextets_less [of a 0 0] by (auto dest: in_set_takeD)
qed simp

lemma of_nat_byte_eq: "n mod 256 = unat (b::byte) \<Longrightarrow> of_nat n = b"
  by (simp add: word_unat_eq_iff unat_of_nat)

lemma unsextets_sextets:
  fixes a b c :: byte
  shows "of_nat (unat a div 4 * 4 + (unat a mod 4 * 16 + unat b div 16) div 16) = a"
    "of_nat ((unat a mod 4 * 16 + unat b div 16) * 16 + (unat b mod 16 * 4 + unat c div 64) div 4) = b"
    "of_nat ((unat b mod 16 * 4 + unat c div 64) * 64 + unat c mod 64) = c"
proof -
  have hi: "unat b div 16 < 16" "unat c div 64 < 4" by (simp_all add: less_mult_imp_div_less)
  show "of_nat (unat a div 4 * 4 + (unat a mod 4 * 16 + unat b div 16) div 16) = a"
    using low_part(1) [OF hi(1), of "unat a mod 4"] by (intro of_nat_byte_eq) simp
  have "(unat a mod 4 * 16 + unat b div 16) * 16 + unat b mod 16 = unat a mod 4 * 256 + unat b"
    using div_mult_mod_eq [of "unat b" 16] by (simp add: algebra_simps)
  then show "of_nat ((unat a mod 4 * 16 + unat b div 16) * 16 +
      (unat b mod 16 * 4 + unat c div 64) div 4) = b"
    using low_part(1) [OF hi(2), of "unat b mod 16"] by (intro of_nat_byte_eq) simp
  have "(unat b mod 16 * 4 + unat c div 64) * 64 + unat c mod 64 = unat b mod 16 * 256 + unat c"
    using div_mult_mod_eq [of "unat c" 64] by (simp add: algebra_simps)
  then show "of_nat ((unat b mod 16 * 4 + unat c div 64) * 64 + unat c mod 64) = c"
    by (intro of_nat_byte_eq) simp
qed

lemma unsextets_sextet_list: "unsextets (sextet_list xs) = xs"
proof (induction xs rule: sextet_list.induct)
  case (1 a b c r)
  then show ?case
    by (simp only: sextet_list.simps sextets_eq append_Cons append_Nil unsextets.simps unsextets_sextets)
next
  case (2 a b)
  show ?case
    using unsextets_sextets(1) [of a b] unsextets_sextets(2) [of a b 0]
    by (simp only: sextet_list.simps sextets_eq numeral_eq_Suc take_Suc_Cons take0 
       list.map pred_numeral_simps BitM.simps unsextets.simps unat_0 One_nat_def)
next
  case (3 a)
  show ?case
    using unsextets_sextets(1) [of a 0]
    by (simp only: sextet_list.simps sextets_eq numeral_eq_Suc take_Suc_Cons take0
        list.map pred_numeral_simps BitM.simps unsextets.simps unat_0 One_nat_def)
qed simp

text \<open>The part of the encoder after its loop.\<close>

definition encode_tail :: "byte list \<Rightarrow> int \<Rightarrow> nat \<Rightarrow> byte list" where
  "encode_tail str len i =
     (if int i < len then
        [basis_at (drop_bit 2 (at_int str i) AND 0x3F)] @
        (if int i = len - 1 then
           [basis_at (push_bit 4 (at_int str i AND 0x3)), of_char (CHR ''='')]
         else
           [basis_at (push_bit 4 (at_int str i AND 0x3) OR
                      drop_bit 4 (at_int str (i + 1) AND 0xF0)),
            basis_at (push_bit 2 (at_int str (i + 1) AND 0xF))]) @
        [of_char (CHR ''='')]
      else [])"

lemma encode_binary_alt:
  "len \<le> int (length str) \<Longrightarrow> in_int (len - 2) \<Longrightarrow> encode_loop str len 0 = (out, i) \<Longrightarrow>
   axutil_base64_encode_binary str len =
     res_bind (int_val (int (length (out @ encode_tail str len i @ [0]))))
       (\<lambda>n. Inr (out @ encode_tail str len i @ [0], n))"
  by (simp only: axutil_base64_encode_binary_def encode_tail_def Let_def prod.case if_False not_le)
    simp

lemma basis_at_index:
  fixes a b :: byte
  shows "basis_at (drop_bit 2 (ucast a) AND 0x3F) = basis_64 ! (unat a div 4)"
    "basis_at (push_bit 4 (ucast a AND 0x3) OR drop_bit 4 (ucast b AND 0xF0)) =
       basis_64 ! (unat a mod 4 * 16 + unat b div 16)"
    "basis_at (push_bit 2 (ucast a AND 0xF) OR drop_bit 6 (ucast b AND 0xC0)) =
       basis_64 ! (unat a mod 16 * 4 + unat b div 64)"
    "basis_at (ucast a AND 0x3F) = basis_64 ! (unat a mod 64)"
    "basis_at (push_bit 4 (ucast a AND 0x3)) = basis_64 ! (unat a mod 4 * 16)"
    "basis_at (push_bit 2 (ucast a AND 0xF)) = basis_64 ! (unat a mod 16 * 4)"
  by (simp_all only: basis_at_def basis_index)

lemma sextet_list_small:
  "sextet_list [a] = [unat a div 4, unat a mod 4 * 16]"
  "sextet_list [a, b] =
     [unat a div 4, unat a mod 4 * 16 + unat b div 16, unat b mod 16 * 4]"
  by (simp_all add: sextets_eq take_Cons')

lemma rfc4648_simps:
  "rfc4648 [] = []"
  "rfc4648 [a] = [basis_64 ! (unat a div 4), basis_64 ! (unat a mod 4 * 16), pad, pad]"
  "rfc4648 [a, b] = [basis_64 ! (unat a div 4), basis_64 ! (unat a mod 4 * 16 + unat b div 16),
     basis_64 ! (unat b mod 16 * 4), pad]"
  "rfc4648 (a # b # c # r) = map (nth basis_64) (sextets a b c) @ rfc4648 r"
  by (simp_all add: rfc4648_def sextet_list_small numeral_2_eq_2 del: sextet_list.simps(2,3))

lemma encode_tail_spec:
  assumes "len - 2 \<le> int i" "int i \<le> len" "len \<le> int (length str)"
  shows "encode_tail str len i = rfc4648 (drop i (take (nat len) str))"
proof -
  consider "len = int i" | "len = int i + 1" | "len = int i + 2" using assms by linarith
  then show ?thesis
  proof cases
    case 1
    then show ?thesis by (simp add: encode_tail_def rfc4648_simps)
  next
    case 2
    then have "drop i (take (nat len) str) = [str ! i]"
      using assms(3) by (simp add: nat_add_distrib take_Suc_conv_app_nth)
    with 2 show ?thesis
      by (simp only: encode_tail_def at_int_def basis_at_index rfc4648_simps pad_def) simp
  next
    case 3
    then have "drop i (take (nat len) str) = [str ! i, str ! (i + 1)]"
      using assms(3) by (simp add: nat_add_distrib take_Suc_conv_app_nth numeral_eq_Suc)
    with 3 show ?thesis
      by (simp only: encode_tail_def at_int_def basis_at_index rfc4648_simps pad_def) simp
  qed
qed

lemma encode_loop_spec:
  assumes "int i \<le> len" "len \<le> int (length str)" "encode_loop str len i = (out, i')"
  shows "out @ encode_tail str len i' = rfc4648 (drop i (take (nat len) str))"
  using assms
proof (induction str len i arbitrary: out rule: encode_loop.induct)
  case (1 str len i)
  show ?case
  proof (cases "int i < len - 2")
    case False
    with 1 show ?thesis by (subst (asm) encode_loop.simps) (auto simp: encode_tail_spec)
  next
    case True
    obtain o' where l: "encode_loop str len (i + 3) = (o', i')"
      and out: "out = map (nth basis_64) (sextets (str ! i) (str ! (i + 1)) (str ! (i + 2))) @ o'"
      using "1.prems"(3) True
      by (subst (asm) encode_loop.simps)
        (simp only: at_int_def basis_at_index sextets_eq if_True split: prod.splits, simp)
    have ih: "o' @ encode_tail str len i' = rfc4648 (drop (i + 3) (take (nat len) str))"
      using "1.prems" True l by (intro "1.IH") auto
    have "drop i (take (nat len) str) =
        str ! i # str ! (i + 1) # str ! (i + 2) # drop (i + 3) (take (nat len) str)"
      using True "1.prems"(2) by (simp add: Cons_nth_drop_Suc numeral_eq_Suc flip: Cons_nth_drop_Suc)
    then show ?thesis using ih by (simp add: out rfc4648_simps(4))
  qed
qed

lemma length_rfc4648: "length (rfc4648 xs) = (length xs + 2) div 3 * 4"
proof (induction xs rule: sextet_list.induct)
  case (1 a b c r)
  have "(3 + (length r + 2)) div 3 = 1 + (length r + 2) div 3"
    using div_add_self1 [of 3 "length r + 2"] by simp
  with "1.IH" show ?case by (simp add: rfc4648_simps sextets_eq)
qed (simp_all add: rfc4648_simps)

lemma encode_len_spec:
  assumes "0 \<le> len" "len \<le> 1610612733"
  shows "axutil_base64_encode_len len = Inr ((len + 2) div 3 * 4 + 1)"
    "in_int ((len + 2) div 3 * 4 + 1)"
  using assms
  by (auto simp: axutil_base64_encode_len_def signed_divide_int_def int_val_def in_int_def INT_MAX_def)

lemma length_rfc4648_int:
  assumes "0 \<le> len" "len \<le> int (length str)"
  shows "int (length (rfc4648 (take (nat len) str) @ [0])) = (len + 2) div 3 * 4 + 1"
  using assms by (simp add: length_rfc4648 zdiv_int nat_add_distrib)

lemma encode_spec:
  assumes "0 \<le> len" "len \<le> int (length str)" "len \<le> 1610612733"
  shows "axutil_base64_encode_binary str len =
    Inr (rfc4648 (take (nat len) str) @ [0], (len + 2) div 3 * 4 + 1)"
proof -
  obtain out i where l: "encode_loop str len 0 = (out, i)" by fastforce
  have out: "out @ encode_tail str len i @ [0] = rfc4648 (take (nat len) str) @ [0]"
    using encode_loop_spec [OF _ assms(2) l] assms(1) by simp
  have "in_int (len - 2)" using assms(1,3) by (simp add: in_int_def INT_MAX_def)
  from encode_binary_alt [OF assms(2) this l, unfolded out length_rfc4648_int [OF assms(1,2)]]
  show ?thesis using encode_len_spec(2) [OF assms(1,3)] by simp
qed

lemma six_basis: "n < 64 \<Longrightarrow> six (basis_64 ! n) = n"
  by (simp add: six_def pr2six_basis unat_of_nat)

lemma map_six_basis: "\<forall>s \<in> set ss. s < 64 \<Longrightarrow> map (six \<circ> nth basis_64) ss = ss"
  by (induction ss) (simp_all add: six_basis)

lemma six_stop: "six pad = 64" "six 0 = 64"
  by (simp_all add: six_def pad_def)

lemma rfc4648_ends:
  obtains p r where "rfc4648 xs @ [0] = map (nth basis_64) (sextet_list xs) @ p # r" "\<not> six p < 64"
proof (cases "(3 - length xs mod 3) mod 3")
  case 0
  then show ?thesis using that [of 0 "[]"] by (simp add: rfc4648_def six_stop)
next
  case (Suc k)
  then show ?thesis using that [of pad "replicate k pad @ [0]"] by (simp add: rfc4648_def six_stop)
qed

lemma length_sextet_list_le: "length (sextet_list xs) \<le> length (rfc4648 xs)"
  by (simp add: rfc4648_def)

lemma decode_rfc4648:
  assumes "length xs \<le> 1610612733"
  shows "axutil_base64_decode_binary (Some (rfc4648 xs @ [0])) = Inr (xs, int (length xs))"
    "axutil_base64_decode_len (Some (rfc4648 xs @ [0])) = Inr (int (length xs))"
proof -
  let ?ss = "sextet_list xs"
  obtain p r where buf: "rfc4648 xs @ [0] = map (nth basis_64) ?ss @ p # r" and p: "\<not> six p < 64"
    by (rule rfc4648_ends)
  have "count_prbytes (rfc4648 xs @ [0]) = Some (length ?ss)"
    using p sextet_list_less [of xs] by (auto simp: buf count_prbytes_Some six_basis nth_append)
  moreover have "unsextets (map six (take (length ?ss) (rfc4648 xs @ [0]))) = xs"
    using map_six_basis [OF sextet_list_less] by (simp add: buf unsextets_sextet_list)
  moreover have "length ?ss \<le> 2147483644"
    using length_sextet_list_le [of xs] div_le_mono [of "length xs + 2" 1610612735 3] assms
    by (simp add: length_rfc4648)
  then have "in_int (int (length ?ss) + 3)" "in_int (int (length ?ss) + 1)"
    by (simp_all add: in_int_def INT_MAX_def)
  ultimately show "axutil_base64_decode_binary (Some (rfc4648 xs @ [0])) = Inr (xs, int (length xs))"
    "axutil_base64_decode_len (Some (rfc4648 xs @ [0])) = Inr (int (length xs))"
    by (simp_all add: decode_binary_spec decode_len_spec)
qed

section \<open>Properties\<close>

lemma replicate_two: "replicate 2 x = [x, x]"
  by (simp add: numeral_2_eq_2)

text \<open>
  C24. Round trip: encoding at most 1610612733 bytes gives a NUL-terminated text of exactly
  \<^verbatim>\<open>axutil_base64_encode_len\<close> bytes, which fits an \<^verbatim>\<open>int\<close>, and decoding that text gives the bytes back,
  with \<^verbatim>\<open>axutil_base64_decode_len\<close> announcing their number; \<^verbatim>\<open>axutil_base64_decode\<close> adds a NUL. No
  \<^verbatim>\<open>int\<close> overflows on the way. For more bytes the length of the text does not fit.
\<close>

theorem base64_roundtrip:
  assumes "length xs \<le> 1610612733"
  shows "\<exists>coded. axutil_base64_encode xs (int (length xs)) = Inr (coded, int (length coded)) \<and>
     axutil_base64_encode_len (int (length xs)) = Inr (int (length coded)) \<and>
     in_int (int (length coded)) \<and>
     axutil_base64_decode_len (Some coded) = Inr (int (length xs)) \<and>
     axutil_base64_decode_binary (Some coded) = Inr (xs, int (length xs)) \<and>
     axutil_base64_decode (Some coded) = Inr (xs @ [0], int (length xs))"
proof -
  have n: "0 \<le> int (length xs)" "int (length xs) \<le> 1610612733" using assms by simp_all
  have "int (length (rfc4648 xs @ [0])) = (int (length xs) + 2) div 3 * 4 + 1"
    using length_rfc4648_int [OF n(1) order_refl] by simp
  with encode_spec [OF n(1) order_refl n(2)] encode_len_spec [OF n] decode_rfc4648 [OF assms] show ?thesis
    by (intro exI [of _ "rfc4648 xs @ [0]"]) (simp add: axutil_base64_encode_def axutil_base64_decode_def add.commute)
qed

theorem base64_roundtrip_witness:
  "\<exists>coded. axutil_base64_encode [77, 97, 110, 33] 4 = Inr (coded, int (length coded)) \<and>
     axutil_base64_encode_len 4 = Inr (int (length coded)) \<and>
     axutil_base64_decode_binary (Some coded) = Inr ([77, 97, 110, 33], 4) \<and>
     axutil_base64_decode (Some coded) = Inr ([77, 97, 110, 33, 0], 4)"
  using base64_roundtrip [of "[77, 97, 110, 33]"] by auto

lemma base64_encode_len_overflows:
  "1610612733 < len \<Longrightarrow> axutil_base64_encode_len len = Inl UNDEFINED_BEHAVIOUR"
  using zdiv_mono1 [of 1610612736 "len + 2" 3]
  by (auto simp: axutil_base64_encode_len_def signed_divide_int_def int_val_def in_int_def INT_MAX_def)

text \<open>
  C37 (equivalence). The encoder with its index loop and bit operations writes the base64 text of RFC 4648 for
  the first \<^verbatim>\<open>len\<close> bytes and a NUL, and returns \<^verbatim>\<open>axutil_base64_encode_len(len)\<close>, for lengths up to
  1610612733.
\<close>

theorem base64_encode_rfc:
  assumes "0 \<le> len" and "len \<le> int (length str)" and "len \<le> 1610612733"
  shows "\<exists>n. axutil_base64_encode_binary str len = Inr (rfc4648 (take (nat len) str) @ [0], n) \<and>
    axutil_base64_encode_len len = Inr n"
  using encode_spec [OF assms] encode_len_spec(1) [OF assms(1,3)] by simp

theorem base64_encode_rfc_witness:
  "\<exists>n. axutil_base64_encode_binary (map of_char ''Man!'') 4 = Inr (map of_char ''TWFuIQ=='' @ [0], n) \<and>
    axutil_base64_encode_len 4 = Inr n"
  using base64_encode_rfc [of 4 "map of_char ''Man!''"]
  by (simp add: rfc4648_def sextets_def basis_64_def pad_def replicate_two)

text \<open>
  Decoding any NUL-terminated text of fewer than $2^{31} - 2$ bytes, well formed or not, returns; it
  writes exactly as many bytes as it returns and as \<^verbatim>\<open>axutil_base64_decode_len\<close> announces, so that a
  buffer of that size plus one is never overrun, and fewer than three quarters of the text's size.
\<close>

theorem base64_decode_writes:
  assumes "0 \<in> set buf" and "length buf < 2 ^ 31 - 2"
  shows "\<exists>out. axutil_base64_decode_binary (Some buf) = Inr (out, int (length out)) \<and>
    axutil_base64_decode_len (Some buf) = Inr (int (length out)) \<and>
    axutil_base64_decode (Some buf) = Inr (out @ [0], int (length out)) \<and>
    4 * length out < 3 * length buf"
proof -
  have "count_prbytes buf \<noteq> None"
    unfolding count_prbytes_None using assms(1) six_stop(2) by (metis less_irrefl)
  then obtain n where n: "count_prbytes buf = Some n" by auto
  let ?out = "unsextets (map six (take n buf))"
  have len: "n < length buf" using n by (simp add: count_prbytes_Some)
  have "4 * (q * 3 + (r - 1)) \<le> 3 * n" if "q * 4 + r = n" "r < 4" for q r
    using that by auto
  then have "4 * (n div 4 * 3 + (n mod 4 - 1)) \<le> 3 * n" by simp
  with len have "4 * length ?out < 3 * length buf"
    by (simp add: length_unsextets)
  moreover have "in_int (int n + 3)" "in_int (int n + 1)"
    using len assms(2) by (simp_all add: in_int_def INT_MAX_def)
  ultimately show ?thesis
    using n by (intro exI [of _ ?out]) (simp add: decode_binary_spec decode_len_spec axutil_base64_decode_def)
qed

theorem base64_decode_writes_witness:
  "\<exists>out. axutil_base64_decode_binary (Some [84, 87, 70, 10, 0]) = Inr (out, int (length out)) \<and>
    axutil_base64_decode_len (Some [84, 87, 70, 10, 0]) = Inr (int (length out)) \<and>
    axutil_base64_decode (Some [84, 87, 70, 10, 0]) = Inr (out @ [0], int (length out)) \<and>
    4 * length out < 3 * length [84, 87, 70, 10, 0 :: byte]"
  by (rule base64_decode_writes) simp_all

end
