(* ===== verification/Neethi.thy ===== *)
theory Neethi
  imports Axis_Prelude "HOL-Library.Monad_Syntax"
begin

text \<open>
  The policy framework \<^verbatim>\<open>neethi\<close>: the policy object model (\<^verbatim>\<open>neethi/src/policy.c\<close>, \<^verbatim>\<open>all.c\<close>,
  \<^verbatim>\<open>exactlyone.c\<close>, \<^verbatim>\<open>reference.c\<close>, \<^verbatim>\<open>operator.c\<close>), building it from XML and writing it back, and
  normalisation and merge (\<^verbatim>\<open>neethi/src/engine.c\<close>).

  A policy is a tree; the list of components of an operator is kept by its contents, the attributes
  of a policy by the map they stand for (theories \<open>Array_List\<close> and \<open>Hash_Map\<close> justify both), and
  memory is taken to be granted. Assertions are opaque: building one from an element is the job of the
  security policy library and a parameter of the model. Policy references may be cyclic, so
  that normalisation is a partial function into \<open>option\<close>.
\<close>

section \<open>The policy object model\<close>

datatype neethi_operator_type =
    OPERATOR_TYPE_POLICY | OPERATOR_TYPE_ALL | OPERATOR_TYPE_EXACTLYONE | OPERATOR_TYPE_REFERENCE
  | OPERATOR_TYPE_ASSERTION | OPERATOR_TYPE_UNKNOWN

text \<open>
  \<^verbatim>\<open>struct neethi_operator_t\<close>: the value with the type that tells what it is. A policy has its
  attributes and its components, a reference its URI (NULL when the element had none).
\<close>

datatype 'a neethi_operator =
    Op_policy "string \<Rightarrow> string option" "'a neethi_operator list"
  | Op_all "'a neethi_operator list"
  | Op_exactlyone "'a neethi_operator list"
  | Op_reference "string option"
  | Op_assertion 'a
  | Op_unknown

text \<open>A policy and an exactlyone outside of an operator.\<close>

type_synonym 'a neethi_policy = "(string \<Rightarrow> string option) \<times> 'a neethi_operator list"
type_synonym 'a neethi_exactlyone = "'a neethi_operator list"

fun neethi_operator_get_type :: "'a neethi_operator \<Rightarrow> neethi_operator_type" where
  "neethi_operator_get_type (Op_policy _ _) = OPERATOR_TYPE_POLICY"
| "neethi_operator_get_type (Op_all _) = OPERATOR_TYPE_ALL"
| "neethi_operator_get_type (Op_exactlyone _) = OPERATOR_TYPE_EXACTLYONE"
| "neethi_operator_get_type (Op_reference _) = OPERATOR_TYPE_REFERENCE"
| "neethi_operator_get_type (Op_assertion _) = OPERATOR_TYPE_ASSERTION"
| "neethi_operator_get_type Op_unknown = OPERATOR_TYPE_UNKNOWN"

text \<open>The errors of this component; an operation that fails returns NULL.\<close>

datatype neethi_error =
    NEETHI_URI_NOT_SPECIFIED
  | NEETHI_REGISTRY_NOT_PROVIDED
  | NEETHI_NO_ENTRY_FOR_THE_GIVEN_URI
  | NEETHI_DEEP_NOT_SUPPORTED
  | NEETHI_EXACTLYONE_IS_EMPTY
  | NEETHI_NO_RESULT
  | NEETHI_NORMALIZATION_FAILED
  | NEETHI_WRONG_INPUT_FOR_MERGE
  | NEETHI_CAST

section \<open>Policies\<close>

definition name_key :: string where "name_key = ''Name''"

definition id_key :: string where
  "id_key = ''Id|http://docs.oasis-open.org/wss/2004/01/oasis-200401-wss-wssecurity-utility-1.0.xsd''"

definition neethi_policy_create :: "'a neethi_policy" where
  "neethi_policy_create = (\<lambda>_. None, [])"

definition neethi_policy_add_operator ::
    "'a neethi_policy \<Rightarrow> 'a neethi_operator \<Rightarrow> 'a neethi_policy" where
  "neethi_policy_add_operator p op = (fst p, snd p @ [op])"

text \<open>The keys are the strings of the qualified names.\<close>

definition neethi_policy_get_name :: "'a neethi_policy \<Rightarrow> string option" where
  "neethi_policy_get_name p = fst p name_key"

definition neethi_policy_set_name :: "'a neethi_policy \<Rightarrow> string \<Rightarrow> 'a neethi_policy" where
  "neethi_policy_set_name p name = ((fst p)(name_key := Some name), snd p)"

definition neethi_policy_get_id :: "'a neethi_policy \<Rightarrow> string option" where
  "neethi_policy_get_id p = fst p id_key"

definition neethi_policy_set_id :: "'a neethi_policy \<Rightarrow> string \<Rightarrow> 'a neethi_policy" where
  "neethi_policy_set_id p ident = ((fst p)(id_key := Some ident), snd p)"

definition neethi_policy_get_exactlyone :: "'a neethi_policy \<Rightarrow> 'a neethi_exactlyone option" where
  "neethi_policy_get_exactlyone p =
     (case snd p of [Op_exactlyone cs] \<Rightarrow> Some cs | _ \<Rightarrow> None)"

definition neethi_policy_get_alternatives :: "'a neethi_policy \<Rightarrow> 'a neethi_operator list option" where
  "neethi_policy_get_alternatives p =
     (case neethi_policy_get_exactlyone p of None \<Rightarrow> None | Some cs \<Rightarrow> Some cs)"

section \<open>The registry\<close>

text \<open>\<^verbatim>\<open>struct neethi_registry_t\<close> (\<^verbatim>\<open>neethi/src/registry.c\<close>): a table of policies and a parent.\<close>

datatype 'a neethi_registry =
  Registry "string \<Rightarrow> 'a neethi_policy option" "'a neethi_registry option"

definition neethi_registry_create :: "'a neethi_registry" where
  "neethi_registry_create = Registry (\<lambda>_. None) None"

definition neethi_registry_create_with_parent :: "'a neethi_registry \<Rightarrow> 'a neethi_registry" where
  "neethi_registry_create_with_parent parent = Registry (\<lambda>_. None) (Some parent)"

fun neethi_registry_register ::
    "'a neethi_registry \<Rightarrow> string \<Rightarrow> 'a neethi_policy \<Rightarrow> 'a neethi_registry" where
  "neethi_registry_register (Registry t parent) key value = Registry (t(key := Some value)) parent"

fun neethi_registry_lookup :: "'a neethi_registry \<Rightarrow> string \<Rightarrow> 'a neethi_policy option" where
  "neethi_registry_lookup (Registry t parent) key =
     (case t key of
        Some p \<Rightarrow> Some p
      | None \<Rightarrow> (case parent of None \<Rightarrow> None | Some r \<Rightarrow> neethi_registry_lookup r key))"

section \<open>Normalisation\<close>

text \<open>
  \<^verbatim>\<open>neethi_engine_operator_get_components\<close> and \<^verbatim>\<open>neethi_engine_operator_is_empty\<close>. An assertion has
  components of its own, which belong to the opaque part.
\<close>

fun neethi_engine_operator_get_components :: "'a neethi_operator \<Rightarrow> 'a neethi_operator list" where
  "neethi_engine_operator_get_components (Op_policy _ cs) = cs"
| "neethi_engine_operator_get_components (Op_all cs) = cs"
| "neethi_engine_operator_get_components (Op_exactlyone cs) = cs"
| "neethi_engine_operator_get_components _ = []"

fun neethi_engine_operator_is_empty :: "'a neethi_operator \<Rightarrow> bool" where
  "neethi_engine_operator_is_empty (Op_policy _ cs) = (cs = [])"
| "neethi_engine_operator_is_empty (Op_all cs) = (cs = [])"
| "neethi_engine_operator_is_empty (Op_exactlyone cs) = (cs = [])"
| "neethi_engine_operator_is_empty _ = False"

text \<open>
  The value of a component of an exactlyone, cast to an all: the structures of all, exactlyone and
  policy begin with the list of components; the cast of another value is undefined.
\<close>

fun as_all :: "'a neethi_operator \<Rightarrow> neethi_error + 'a neethi_operator list" where
  "as_all (Op_all cs) = Inr cs"
| "as_all (Op_exactlyone cs) = Inr cs"
| "as_all (Op_policy _ cs) = Inr cs"
| "as_all _ = Inl NEETHI_CAST"

text \<open>The loops over \<^verbatim>\<open>j\<close> and \<^verbatim>\<open>i\<close> of \<^verbatim>\<open>neethi_engine_get_cross_product\<close>.\<close>

fun cross_inner :: "'a neethi_operator list \<Rightarrow> 'a neethi_operator list \<Rightarrow>
    neethi_error + 'a neethi_operator list" where
  "cross_inner as1 [] = Inr []"
| "cross_inner as1 (c2 # cs2) =
     (case as_all c2 of
        Inl e \<Rightarrow> Inl e
      | Inr as2 \<Rightarrow>
          (case cross_inner as1 cs2 of Inl e \<Rightarrow> Inl e | Inr r \<Rightarrow> Inr (Op_all (as1 @ as2) # r)))"

fun neethi_engine_get_cross_product :: "'a neethi_exactlyone \<Rightarrow> 'a neethi_exactlyone \<Rightarrow>
    neethi_error + 'a neethi_exactlyone" where
  "neethi_engine_get_cross_product [] e2 = Inr []"
| "neethi_engine_get_cross_product (c1 # cs1) e2 =
     (case as_all c1 of
        Inl e \<Rightarrow> Inl e
      | Inr as1 \<Rightarrow>
          (case cross_inner as1 e2 of
             Inl e \<Rightarrow> Inl e
           | Inr r1 \<Rightarrow>
               (case neethi_engine_get_cross_product cs1 e2 of
                  Inl e \<Rightarrow> Inl e | Inr r \<Rightarrow> Inr (r1 @ r))))"

text \<open>
  The loop from the second component on: an empty exactlyone ends it and is the result.
\<close>

fun cross_loop :: "'a neethi_exactlyone \<Rightarrow> 'a neethi_exactlyone list \<Rightarrow>
    neethi_error + 'a neethi_exactlyone" where
  "cross_loop e [] = Inr e"
| "cross_loop e (current # es) =
     (if current = [] then Inr current
      else
        (case neethi_engine_get_cross_product e current of
           Inl err \<Rightarrow> Inl err | Inr e' \<Rightarrow> cross_loop e' es))"

definition neethi_engine_compute_resultant_component ::
    "'a neethi_exactlyone list \<Rightarrow> neethi_operator_type \<Rightarrow> neethi_error + 'a neethi_exactlyone" where
  "neethi_engine_compute_resultant_component inner type =
     (if type = OPERATOR_TYPE_EXACTLYONE then Inr (concat inner)
      else if type = OPERATOR_TYPE_POLICY \<or> type = OPERATOR_TYPE_ALL then
        (case inner of
           [] \<Rightarrow> Inl NEETHI_NO_RESULT
         | [e] \<Rightarrow> Inr e
         | e # es \<Rightarrow> if e = [] then Inl NEETHI_EXACTLYONE_IS_EMPTY else cross_loop e es)
      else Inl NEETHI_NO_RESULT)"

text \<open>
  The end of \<^verbatim>\<open>neethi_engine_normalize_operator\<close> for an operator of a type with some components, when
  the normalised components are known; an empty operator is a single empty alternative, or none
  for an exactlyone.
\<close>

definition normalized_from ::
    "neethi_operator_type \<Rightarrow> 'a neethi_operator list \<Rightarrow> neethi_error + 'a neethi_exactlyone list \<Rightarrow>
     neethi_error + 'a neethi_exactlyone" where
  "normalized_from type cs r =
     (if cs = [] \<and> type \<in> {OPERATOR_TYPE_POLICY, OPERATOR_TYPE_ALL, OPERATOR_TYPE_EXACTLYONE} then
        Inr (if type \<noteq> OPERATOR_TYPE_EXACTLYONE then [Op_all []] else [])
      else
        (case r of
           Inl e \<Rightarrow> Inl e
         | Inr inner \<Rightarrow> neethi_engine_compute_resultant_component inner type))"

text \<open>
  A component whose own normalisation failed is left out of the list (\<^verbatim>\<open>if (exactlyone)\<close>).
\<close>

definition add_normalized :: "neethi_error + 'a neethi_exactlyone \<Rightarrow>
    neethi_error + 'a neethi_exactlyone list \<Rightarrow> neethi_error + 'a neethi_exactlyone list" where
  "add_normalized r rs =
     (case rs of Inl e \<Rightarrow> Inl e
      | Inr es \<Rightarrow> Inr ((case r of Inl _ \<Rightarrow> [] | Inr e \<Rightarrow> [e]) @ es))"

text \<open>
  The loop of \<^verbatim>\<open>neethi_engine_normalize_operator\<close> over the components. An assertion is wrapped; a
  policy and a resolved reference are normalised as an all of their components; the
  other operators by a recursive call. The code replaces a resolved reference in its list by the
  policy, which the result does not show.
\<close>

partial_function (option) normalize_components ::
    "'a neethi_registry option \<Rightarrow> bool \<Rightarrow> 'a neethi_operator list \<Rightarrow>
     (neethi_error + 'a neethi_exactlyone list) option" where
  "normalize_components registry deep cs =
     (case cs of
        [] \<Rightarrow> Some (Inr [])
      | c # cs' \<Rightarrow>
          (case c of
             Op_assertion a \<Rightarrow>
               if deep then Some (Inl NEETHI_DEEP_NOT_SUPPORTED)
               else do {
                 rs \<leftarrow> normalize_components registry deep cs';
                 Some (add_normalized (Inr [Op_all [Op_assertion a]]) rs) }
           | Op_policy _ children \<Rightarrow> do {
               inner \<leftarrow> normalize_components registry deep children;
               rs \<leftarrow> normalize_components registry deep cs';
               Some (add_normalized (normalized_from OPERATOR_TYPE_ALL children inner) rs) }
           | Op_reference uri \<Rightarrow>
               (case uri of
                  None \<Rightarrow> Some (Inl NEETHI_URI_NOT_SPECIFIED)
                | Some u \<Rightarrow>
                    (case registry of
                       None \<Rightarrow> Some (Inl NEETHI_REGISTRY_NOT_PROVIDED)
                     | Some reg \<Rightarrow>
                         (case neethi_registry_lookup reg u of
                            None \<Rightarrow> Some (Inl NEETHI_NO_ENTRY_FOR_THE_GIVEN_URI)
                          | Some policy \<Rightarrow> do {
                              inner \<leftarrow> normalize_components registry deep (snd policy);
                              rs \<leftarrow> normalize_components registry deep cs';
                              Some (add_normalized
                                (normalized_from OPERATOR_TYPE_ALL (snd policy) inner) rs) })))
           | Op_all children \<Rightarrow> do {
               inner \<leftarrow> normalize_components registry deep children;
               rs \<leftarrow> normalize_components registry deep cs';
               Some (add_normalized (normalized_from OPERATOR_TYPE_ALL children inner) rs) }
           | Op_exactlyone children \<Rightarrow> do {
               inner \<leftarrow> normalize_components registry deep children;
               rs \<leftarrow> normalize_components registry deep cs';
               Some (add_normalized (normalized_from OPERATOR_TYPE_EXACTLYONE children inner) rs) }
           | Op_unknown \<Rightarrow> do {
               rs \<leftarrow> normalize_components registry deep cs';
               Some (add_normalized (normalized_from OPERATOR_TYPE_UNKNOWN [] (Inr [])) rs) }))"

definition neethi_engine_normalize_operator ::
    "'a neethi_operator \<Rightarrow> 'a neethi_registry option \<Rightarrow> bool \<Rightarrow>
     (neethi_error + 'a neethi_exactlyone) option" where
  "neethi_engine_normalize_operator op registry deep =
     (if neethi_engine_operator_is_empty op then
        Some (Inr (if neethi_operator_get_type op \<noteq> OPERATOR_TYPE_EXACTLYONE then [Op_all []] else []))
      else do {
        r \<leftarrow> normalize_components registry deep (neethi_engine_operator_get_components op);
        Some (case r of
          Inl e \<Rightarrow> Inl e
        | Inr inner \<Rightarrow>
            neethi_engine_compute_resultant_component inner (neethi_operator_get_type op)) })"

definition neethi_engine_normalize ::
    "'a neethi_policy \<Rightarrow> 'a neethi_registry option \<Rightarrow> bool \<Rightarrow>
     (neethi_error + 'a neethi_policy) option" where
  "neethi_engine_normalize policy registry deep =
     (let p0 = neethi_policy_create;
          p1 = (case neethi_policy_get_name policy of
                  None \<Rightarrow> p0 | Some name \<Rightarrow> neethi_policy_set_name p0 name);
          p2 = (case neethi_policy_get_id policy of
                  None \<Rightarrow> p1 | Some ident \<Rightarrow> neethi_policy_set_id p1 ident)
      in do {
        r \<leftarrow> neethi_engine_normalize_operator (Op_policy (fst policy) (snd policy)) registry deep;
        Some (case r of
          Inl e \<Rightarrow> Inl NEETHI_NORMALIZATION_FAILED
        | Inr e \<Rightarrow> Inr (neethi_policy_add_operator p2 (Op_exactlyone e))) })"

definition neethi_engine_get_normalize ::
    "bool \<Rightarrow> 'a neethi_policy \<Rightarrow> (neethi_error + 'a neethi_policy) option" where
  "neethi_engine_get_normalize deep policy = neethi_engine_normalize policy None deep"

definition neethi_engine_merge ::
    "'a neethi_policy \<Rightarrow> 'a neethi_policy \<Rightarrow> neethi_error + 'a neethi_policy" where
  "neethi_engine_merge policy1 policy2 =
     (case (neethi_policy_get_exactlyone policy1, neethi_policy_get_exactlyone policy2) of
        (Some e1, Some e2) \<Rightarrow>
          (case neethi_engine_get_cross_product e1 e2 of
             Inl e \<Rightarrow> Inl e
           | Inr e \<Rightarrow> Inr (neethi_policy_add_operator neethi_policy_create (Op_exactlyone e)))
      | _ \<Rightarrow> Inl NEETHI_WRONG_INPUT_FOR_MERGE)"

end
