(* ===== verification/Neethi_Normal.thy ===== *)
theory Neethi_Normal
  imports Neethi
begin

text \<open>
  What normalisation and merge of policies compute. The meaning of a policy is its list of
  alternatives (\<open>alternatives\<close>, after the WS-Policy specification the comments of \<^verbatim>\<open>engine.c\<close> refer to);
  the normal form lists them.
\<close>

section \<open>The meaning of a policy\<close>

text \<open>All ways to choose an alternative of each component and put the choices together.\<close>

definition both :: "'a list list \<Rightarrow> 'a list list \<Rightarrow> 'a list list" where
  "both A B = [a @ b. a \<leftarrow> A, b \<leftarrow> B]"

fun conjoin :: "'a list list list \<Rightarrow> 'a list list" where
  "conjoin [] = [[]]"
| "conjoin (A # As) = both A (conjoin As)"

text \<open>
  An assertion is one alternative; an all and a policy conjoin the alternatives of their components;
  an exactlyone offers those of each component; a reference is the policy it names. A cyclic
  reference has no meaning.
\<close>

inductive alternatives :: "(string \<Rightarrow> 'a neethi_policy option) \<Rightarrow> 'a neethi_operator \<Rightarrow>
    'a list list \<Rightarrow> bool" for L where
  assertion: "alternatives L (Op_assertion a) [[a]]"
| all: "list_all2 (alternatives L) cs As \<Longrightarrow> alternatives L (Op_all cs) (conjoin As)"
| policy: "list_all2 (alternatives L) cs As \<Longrightarrow> alternatives L (Op_policy attrs cs) (conjoin As)"
| exactlyone: "list_all2 (alternatives L) cs As \<Longrightarrow> alternatives L (Op_exactlyone cs) (concat As)"
| reference: "L u = Some p \<Longrightarrow> alternatives L (Op_policy (fst p) (snd p)) A \<Longrightarrow>
    alternatives L (Op_reference (Some u)) A"

text \<open>The normal form of a list of alternatives.\<close>

definition normal_form :: "'a list list \<Rightarrow> 'a neethi_exactlyone" where
  "normal_form A = map (\<lambda>a. Op_all (map Op_assertion a)) A"

lemma normal_form_simps [simp]:
  "normal_form [] = []"
  "normal_form (a # A) = Op_all (map Op_assertion a) # normal_form A"
  "normal_form (A @ B) = normal_form A @ normal_form B"
  by (simp_all add: normal_form_def)

lemma normal_form_concat [simp]: "normal_form (concat As) = concat (map normal_form As)"
  by (induction As) simp_all

lemma normal_form_Nil_iff [simp]: "normal_form A = [] \<longleftrightarrow> A = []"
  by (simp add: normal_form_def)

lemma inj_normal_form: "inj normal_form"
proof (rule injI)
  fix A B :: "'a list list"
  have "inj (\<lambda>a :: 'a list. Op_all (map Op_assertion a))"
    by (auto simp: inj_def dest: map_injective intro: injI)
  then show "A = B" if "normal_form A = normal_form B"
    using that by (auto simp: normal_form_def dest: map_injective)
qed

text \<open>A choice between no components; a policy that has one inside another operator is lost, see below.\<close>

fun no_empty_choice :: "'a neethi_operator \<Rightarrow> bool" where
  "no_empty_choice (Op_policy _ cs) = list_all no_empty_choice cs"
| "no_empty_choice (Op_all cs) = list_all no_empty_choice cs"
| "no_empty_choice (Op_exactlyone cs) = (cs \<noteq> [] \<and> list_all no_empty_choice cs)"
| "no_empty_choice (Op_reference _) = True"
| "no_empty_choice (Op_assertion _) = True"
| "no_empty_choice Op_unknown = True"

section \<open>The cross product\<close>

lemma both_simps [simp]:
  "both [] B = []"
  "both (a # A) B = map ((@) a) B @ both A B"
  by (simp_all add: both_def)

lemma both_Nil2 [simp]: "both A [] = []"
  by (induction A) simp_all

lemma both_append: "both (A @ A') B = both A B @ both A' B"
  by (induction A) simp_all

lemma both_unit [simp]: "both A [[]] = A"
  by (induction A) simp_all

lemma map_append_both: "both (map ((@) a) A) B = map ((@) a) (both A B)"
  by (induction A) simp_all

lemma both_assoc: "both (both A B) C = both A (both B C)"
  by (induction A) (simp_all add: both_append map_append_both)

lemma both_eq_Nil [simp]: "both A B = [] \<longleftrightarrow> A = [] \<or> B = []"
  by (induction A) auto

lemma conjoin_eq_Nil: "conjoin As = [] \<longleftrightarrow> [] \<in> set As"
  by (induction As) auto

lemma cross_inner_normal:
  "cross_inner (map Op_assertion a) (normal_form B) = Inr (normal_form (map ((@) a) B))"
  by (induction B) auto

lemma cross_product_normal:
  "neethi_engine_get_cross_product (normal_form A) (normal_form B) = Inr (normal_form (both A B))"
  by (induction A) (simp_all add: cross_inner_normal)

lemma cross_loop_normal:
  "[] \<notin> set Bs \<Longrightarrow> cross_loop (normal_form A) (map normal_form Bs) = Inr (normal_form (both A (conjoin Bs)))"
  by (induction Bs arbitrary: A) (auto simp: cross_product_normal both_assoc)

lemma resultant_all:
  assumes "As \<noteq> []" "[] \<notin> set As" "type = OPERATOR_TYPE_ALL \<or> type = OPERATOR_TYPE_POLICY"
  shows "neethi_engine_compute_resultant_component (map normal_form As) type = Inr (normal_form (conjoin As))"
proof -
  obtain A Bs where As: "As = A # Bs" using assms(1) by (cases As) auto
  show ?thesis
    using assms(2,3) cross_loop_normal [of Bs A]
    by (cases Bs) (auto simp: As neethi_engine_compute_resultant_component_def)
qed

lemma resultant_exactlyone:
  "neethi_engine_compute_resultant_component (map normal_form As) OPERATOR_TYPE_EXACTLYONE =
   Inr (normal_form (concat As))"
  by (simp add: neethi_engine_compute_resultant_component_def)

text \<open>Whatever the components, as long as they are in normal form, so is the result.\<close>

lemma cross_loop_type:
  "cross_loop (normal_form A) (map normal_form Bs) = Inr r \<Longrightarrow> r \<in> range normal_form"
proof (induction Bs arbitrary: A)
  case (Cons B Bs)
  then show ?case
    by (auto simp: cross_product_normal split: if_splits intro: range_eqI [where x = "[]"])
qed auto

lemma resultant_type:
  assumes "set es \<subseteq> range normal_form" "neethi_engine_compute_resultant_component es type = Inr r"
  shows "r \<in> range normal_form"
proof -
  from assms(1) obtain As where es: "es = map normal_form As"
    by (auto simp: ex_map_conv [symmetric] subset_eq image_iff)
  have concat: "concat (map normal_form As) \<in> range normal_form"
    by (metis normal_form_concat rangeI)
  have "[] \<in> range normal_form" by (metis normal_form_simps(1) rangeI)
  with assms(2) es concat show ?thesis
    by (auto simp: neethi_engine_compute_resultant_component_def map_eq_Cons_conv cross_product_normal
        split: if_splits list.splits dest!: cross_loop_type)
qed

section \<open>Normalisation computes the alternatives\<close>

text \<open>The policies a reference can name.\<close>

definition resolve :: "'a neethi_registry option \<Rightarrow> string \<Rightarrow> 'a neethi_policy option" where
  "resolve registry u = (case registry of None \<Rightarrow> None | Some reg \<Rightarrow> neethi_registry_lookup reg u)"

lemma resolve_Some:
  "resolve registry u = Some p \<longleftrightarrow> (\<exists>reg. registry = Some reg \<and> neethi_registry_lookup reg u = Some p)"
  by (auto simp: resolve_def split: option.splits)

lemma add_normalized_simps [simp]:
  "add_normalized r (Inl e) = Inl e"
  "add_normalized (Inr x) (Inr xs) = Inr (x # xs)"
  "add_normalized (Inl e) (Inr xs) = Inr xs"
  by (simp_all add: add_normalized_def)

lemma normalize_components_Nil [simp]: "normalize_components registry deep [] = Some (Inr [])"
  by (subst normalize_components.simps) simp

text \<open>The first component contributes the exactlyone \<open>e\<close> to the list.\<close>

definition contributes ::
    "'a neethi_registry option \<Rightarrow> bool \<Rightarrow> 'a neethi_operator \<Rightarrow> 'a neethi_exactlyone \<Rightarrow> bool" where
  "contributes registry deep c e \<longleftrightarrow>
     (\<forall>cs. normalize_components registry deep (c # cs) =
       map_option (add_normalized (Inr e)) (normalize_components registry deep cs))"

lemma contributes_all:
  assumes "list_all2 (contributes registry deep) cs es"
  shows "normalize_components registry deep cs = Some (Inr es)"
  using assms by (induction) (simp_all add: contributes_def)

lemma contributes_assertion: "contributes registry False (Op_assertion a) [Op_all [Op_assertion a]]"
  by (auto simp: contributes_def normalize_components.simps [of _ _ "_ # _"] map_option_bind
      intro!: option.expand split: Option.bind_splits)

lemma contributes_children:
  assumes cs: "list_all2 (contributes registry deep) cs es"
    and e: "cs \<noteq> [] \<Longrightarrow> neethi_engine_compute_resultant_component es type = Inr e"
    and e0: "cs = [] \<Longrightarrow> e = (if type \<noteq> OPERATOR_TYPE_EXACTLYONE then [Op_all []] else [])"
  shows "type = OPERATOR_TYPE_ALL \<Longrightarrow> contributes registry deep (Op_policy attrs cs) e"
    and "type = OPERATOR_TYPE_ALL \<Longrightarrow> contributes registry deep (Op_all cs) e"
    and "type = OPERATOR_TYPE_EXACTLYONE \<Longrightarrow> contributes registry deep (Op_exactlyone cs) e"
proof -
  have "normalized_from type cs (Inr es) = Inr e"
    if "type = OPERATOR_TYPE_ALL \<or> type = OPERATOR_TYPE_EXACTLYONE"
    using that e e0 by (auto simp: normalized_from_def)
  moreover have "normalize_components registry deep cs = Some (Inr es)"
    by (rule contributes_all [OF cs])
  ultimately show "type = OPERATOR_TYPE_ALL \<Longrightarrow> contributes registry deep (Op_policy attrs cs) e"
    "type = OPERATOR_TYPE_ALL \<Longrightarrow> contributes registry deep (Op_all cs) e"
    "type = OPERATOR_TYPE_EXACTLYONE \<Longrightarrow> contributes registry deep (Op_exactlyone cs) e"
    by (auto simp: contributes_def normalize_components.simps [of _ _ "_ # _"]
        split: Option.bind_splits)
qed

lemma contributes_reference:
  "resolve registry u = Some p \<Longrightarrow> contributes registry deep (Op_policy (fst p) (snd p)) e \<Longrightarrow>
   contributes registry deep (Op_reference (Some u)) e"
  by (auto simp: contributes_def normalize_components.simps [of _ _ "_ # _"] resolve_Some)

text \<open>What an operator with some alternatives contributes: their normal form.\<close>

lemma list_all2_alternatives:
  assumes "list_all2 (\<lambda>c A. alternatives L c A \<and>
      (no_empty_choice c \<longrightarrow> A \<noteq> [] \<and> contributes registry deep c (normal_form A))) cs As"
    and "list_all no_empty_choice cs"
  shows "[] \<notin> set As" "list_all2 (contributes registry deep) cs (map normal_form As)"
  using assms by (induction) auto

lemma contributes_conjoin:
  assumes As: "[] \<notin> set As" "list_all2 (contributes registry deep) cs (map normal_form As)"
  shows "conjoin As \<noteq> []"
    and "contributes registry deep (Op_policy attrs cs) (normal_form (conjoin As))"
    and "contributes registry deep (Op_all cs) (normal_form (conjoin As))"
proof -
  have len: "length As = length cs" using As(2) by (auto dest: list_all2_lengthD)
  have "neethi_engine_compute_resultant_component (map normal_form As) OPERATOR_TYPE_ALL =
      Inr (normal_form (conjoin As))" if "cs \<noteq> []"
    using resultant_all [of As OPERATOR_TYPE_ALL] As(1) that len by (cases As) auto
  moreover have "normal_form (conjoin As) = [Op_all []]" if "cs = []"
    using len that by simp
  ultimately show "contributes registry deep (Op_policy attrs cs) (normal_form (conjoin As))"
    "contributes registry deep (Op_all cs) (normal_form (conjoin As))"
    using contributes_children [OF As(2), of OPERATOR_TYPE_ALL "normal_form (conjoin As)"] by simp_all
  show "conjoin As \<noteq> []" using As(1) by (simp add: conjoin_eq_Nil)
qed

lemma contributes_concat:
  assumes As: "cs \<noteq> []" "[] \<notin> set As" "list_all2 (contributes registry deep) cs (map normal_form As)"
  shows "concat As \<noteq> []"
    and "contributes registry deep (Op_exactlyone cs) (normal_form (concat As))"
proof -
  have "As \<noteq> []" using As by auto
  then show "concat As \<noteq> []" using As(2) by (cases As) auto
  show "contributes registry deep (Op_exactlyone cs) (normal_form (concat As))"
    using contributes_children(3) [OF As(3) resultant_exactlyone] As(1) by auto
qed

lemma alternatives_contribute:
  assumes "alternatives (resolve registry) op A"
    and reg: "\<And>u p. resolve registry u = Some p \<Longrightarrow> list_all no_empty_choice (snd p)"
  shows "no_empty_choice op \<longrightarrow> A \<noteq> [] \<and> contributes registry False op (normal_form A)"
  using assms(1)
proof (induction)
  case (assertion a)
  then show ?case using contributes_assertion by auto
next
  case (all cs As)
  show ?case using contributes_conjoin list_all2_alternatives [OF all] by auto
next
  case (policy cs As attrs)
  show ?case using contributes_conjoin list_all2_alternatives [OF policy] by auto
next
  case (exactlyone cs As)
  show ?case using contributes_concat list_all2_alternatives [OF exactlyone] by auto
next
  case (reference u p A)
  then show ?case using contributes_reference [OF reference(1)] reg by auto
qed

section \<open>Properties of normalisation and merge\<close>

text \<open>A registry and a policy that refers to it, to try the properties on.\<close>

definition sample_choice :: "nat neethi_policy" where
  "sample_choice = (\<lambda>_. None, [Op_exactlyone [Op_assertion 1, Op_assertion 2]])"

definition sample_registry :: "nat neethi_registry" where
  "sample_registry = neethi_registry_register neethi_registry_create ''choice'' sample_choice"

definition sample_policy :: "nat neethi_policy" where
  "sample_policy = (\<lambda>_. None, [Op_assertion 0, Op_reference (Some ''choice'')])"

lemma resolve_sample:
  "resolve (Some sample_registry) u = Some q \<longleftrightarrow> u = ''choice'' \<and> q = sample_choice"
  by (auto simp: resolve_def sample_registry_def neethi_registry_create_def)

lemma alternatives_sample:
  "alternatives (resolve (Some sample_registry)) (Op_policy (fst sample_policy) (snd sample_policy)) [[0, 1], [0, 2]]"
proof -
  let ?L = "resolve (Some sample_registry)"
  have "alternatives ?L (Op_exactlyone [Op_assertion 1, Op_assertion 2]) [[1], [2]]"
    using alternatives.exactlyone [of ?L _ "[[[1]], [[2]]]"] by (simp add: alternatives.assertion)
  then have "alternatives ?L (Op_policy (fst sample_choice) (snd sample_choice)) [[1], [2]]"
    using alternatives.policy [of ?L _ "[[[1], [2]]]"] by (simp add: sample_choice_def)
  then have "alternatives ?L (Op_reference (Some ''choice'')) [[1], [2]]"
    by (rule alternatives.reference [rotated]) (simp add: resolve_sample)
  then show ?thesis
    using alternatives.policy [of ?L _ "[[[0]], [[1], [2]]]"]
    by (simp add: sample_policy_def alternatives.assertion)
qed

lemma policy_attributes [simp]:
  "neethi_policy_get_name (neethi_policy_add_operator p op) = neethi_policy_get_name p"
  "neethi_policy_get_id (neethi_policy_add_operator p op) = neethi_policy_get_id p"
  "neethi_policy_get_name (neethi_policy_set_name p n) = Some n"
  "neethi_policy_get_name (neethi_policy_set_id p n) = neethi_policy_get_name p"
  "neethi_policy_get_id (neethi_policy_set_id p n) = Some n"
  "neethi_policy_get_id (neethi_policy_set_name p n) = neethi_policy_get_id p"
  "neethi_policy_get_name neethi_policy_create = None"
  "neethi_policy_get_id neethi_policy_create = None"
  "snd (neethi_policy_add_operator p op) = snd p @ [op]"
  "snd (neethi_policy_set_name p n) = snd p"
  "snd (neethi_policy_set_id p n) = snd p"
  "snd neethi_policy_create = []"
  by (simp_all add: neethi_policy_get_name_def neethi_policy_get_id_def neethi_policy_set_name_def
      neethi_policy_set_id_def neethi_policy_create_def neethi_policy_add_operator_def
      name_key_def id_key_def)

text \<open>The result of a normalisation, from that of the operator.\<close>

lemma normalize_Inr:
  assumes "neethi_engine_normalize_operator (Op_policy (fst p) (snd p)) registry deep = Some (Inr e)"
  shows "\<exists>q. neethi_engine_normalize p registry deep = Some (Inr q) \<and> snd q = [Op_exactlyone e] \<and>
    neethi_policy_get_name q = neethi_policy_get_name p \<and> neethi_policy_get_id q = neethi_policy_get_id p"
  using assms
  by (cases "neethi_policy_get_name p"; cases "neethi_policy_get_id p")
     (simp_all add: neethi_engine_normalize_def Let_def)

lemma normalize_cases:
  assumes "neethi_engine_normalize p registry deep = Some (Inr q)"
  obtains e where "neethi_engine_normalize_operator (Op_policy (fst p) (snd p)) registry deep = Some (Inr e)"
    "snd q = [Op_exactlyone e]"
  using assms
  by (cases "neethi_policy_get_name p"; cases "neethi_policy_get_id p")
     (auto simp: neethi_engine_normalize_def Let_def split: Option.bind_splits sum.splits)

lemma get_alternatives_single [simp]:
  "snd q = [Op_exactlyone e] \<Longrightarrow> neethi_policy_get_alternatives q = Some e"
  by (simp add: neethi_policy_get_alternatives_def neethi_policy_get_exactlyone_def)

lemma normalize_operator_policy_eq:
  "neethi_engine_normalize_operator (Op_policy attrs cs) registry deep =
     (if cs = [] then Some (Inr [Op_all []])
      else map_option (normalized_from OPERATOR_TYPE_POLICY cs) (normalize_components registry deep cs))"
  by (auto simp: neethi_engine_normalize_operator_def normalized_from_def map_option_case
      split: option.splits sum.splits)

lemma normalize_operator_policy:
  assumes "[] \<notin> set As" "list_all2 (contributes registry deep) cs (map normal_form As)"
  shows "neethi_engine_normalize_operator (Op_policy attrs cs) registry deep =
    Some (Inr (normal_form (conjoin As)))"
proof (cases "cs = []")
  case False
  with assms have "As \<noteq> []" by auto
  with False show ?thesis
    using contributes_all [OF assms(2)] resultant_all [of As OPERATOR_TYPE_POLICY] assms(1)
    by (simp add: neethi_engine_normalize_operator_def)
qed (use assms in \<open>simp add: neethi_engine_normalize_operator_def\<close>)

text \<open>Running the normalisation.\<close>

lemmas neethi_run = normalize_components.simps [of _ _ "_ # _"] neethi_engine_normalize_def
  normalize_operator_policy_eq normalized_from_def neethi_engine_compute_resultant_component_def
  neethi_policy_get_name_def neethi_policy_get_id_def neethi_policy_create_def
  neethi_policy_add_operator_def

text \<open>
  C29 (refinement): a policy in which every choice has a component, in the policy itself and in all registered policies, so
  that it has an alternative, is normalised without the deep option to a single exactlyone of alls that lists its
  alternatives, in the order and with the assertions the WS-Policy meaning of nested operators and references
  gives; the name and the identifier are kept. A policy with an empty choice is left out: its normal form may have
  alternatives the policy does not have (\<open>neethi_normalize_drops_unsatisfiable\<close>).
\<close>

theorem neethi_normalize_alternatives:
  assumes "alternatives (resolve registry) (Op_policy (fst p) (snd p)) A"
    and "list_all no_empty_choice (snd p)"
    and "\<And>u q. resolve registry u = Some q \<Longrightarrow> list_all no_empty_choice (snd q)"
  shows "\<exists>q. neethi_engine_normalize p registry False = Some (Inr q) \<and>
    neethi_policy_get_alternatives q = Some (map (\<lambda>a. Op_all (map Op_assertion a)) A) \<and>
    neethi_policy_get_name q = neethi_policy_get_name p \<and>
    neethi_policy_get_id q = neethi_policy_get_id p"
proof -
  obtain As where As: "list_all2 (alternatives (resolve registry)) (snd p) As" "A = conjoin As"
    using assms(1) by (auto elim: alternatives.cases)
  have "list_all2 (\<lambda>c A. alternatives (resolve registry) c A \<and>
      (no_empty_choice c \<longrightarrow> A \<noteq> [] \<and> contributes registry False c (normal_form A))) (snd p) As"
    using As(1) by (rule list_all2_mono) (auto dest: alternatives_contribute [OF _ assms(3)])
  from normalize_operator_policy [OF list_all2_alternatives [OF this assms(2)]] As(2)
  have "neethi_engine_normalize_operator (Op_policy (fst p) (snd p)) registry False =
    Some (Inr (normal_form A))" by simp
  from normalize_Inr [OF this] show ?thesis
    by (auto simp: normal_form_def)
qed

theorem neethi_normalize_alternatives_witness:
  "\<exists>q. neethi_engine_normalize sample_policy (Some sample_registry) False = Some (Inr q) \<and>
     neethi_policy_get_alternatives q =
       Some [Op_all [Op_assertion 0, Op_assertion 1], Op_all [Op_assertion 0, Op_assertion 2]]"
  using neethi_normalize_alternatives [OF alternatives_sample]
  by (auto simp: resolve_sample sample_policy_def sample_choice_def)

lemma normalized_from_type:
  assumes "normalized_from type cs r = Inr e" "\<And>es. r = Inr es \<Longrightarrow> set es \<subseteq> range normal_form"
  shows "e \<in> range normal_form"
proof -
  have "[] = normal_form []" "[Op_all []] = normal_form [[]]" by simp_all
  then have "[] \<in> range normal_form" "[Op_all []] \<in> range normal_form" by (metis rangeI)+
  with assms show ?thesis
    by (auto simp: normalized_from_def split: if_splits sum.splits dest: resultant_type)
qed

lemma add_normalized_type:
  assumes "add_normalized r rs = Inr es" "\<And>e. r = Inr e \<Longrightarrow> e \<in> range normal_form"
    and "\<And>es. rs = Inr es \<Longrightarrow> set es \<subseteq> range normal_form"
  shows "set es \<subseteq> range normal_form"
  using assms by (cases rs; cases r) auto

lemma normalize_components_type:
  assumes "normalize_components registry deep cs = Some r" "r = Inr es"
  shows "set es \<subseteq> range normal_form"
proof -
  have single: "[Op_all [Op_assertion a]] \<in> range normal_form" for a :: 'a
    using rangeI [of normal_form "[[a]]"] by simp
  have "\<forall>es. r = Inr es \<longrightarrow> set es \<subseteq> range normal_form"
    using assms(1)
    by (rule normalize_components.raw_induct [where P = "\<lambda>_ _ _ r. \<forall>es. r = Inr es \<longrightarrow> set es \<subseteq> range normal_form", rotated])
       (fastforce split: list.splits neethi_operator.splits option.splits if_splits Option.bind_splits
        dest!: add_normalized_type dest: normalized_from_type intro: single)
  then show ?thesis using assms(2) by simp
qed

lemma normalize_operator_policy_type:
  assumes "neethi_engine_normalize_operator (Op_policy attrs cs) registry deep = Some (Inr e)"
  obtains A where "e = normal_form A"
proof (cases "cs = []")
  case True
  with assms that [of "[[]]"] show ?thesis by (simp add: normalize_operator_policy_eq)
next
  case False
  with assms obtain r where "normalize_components registry deep cs = Some r"
    "normalized_from OPERATOR_TYPE_POLICY cs r = Inr e"
    by (auto simp: normalize_operator_policy_eq)
  then have "e \<in> range normal_form" using normalized_from_type normalize_components_type by blast
  with that show ?thesis by blast
qed

text \<open>
  C30 (type): whatever the policy, the registry and the mode, when normalisation returns a policy it is
  a single exactlyone whose components are alls whose components are assertions: nested operators and
  references are gone.
\<close>

theorem neethi_normalize_type:
  assumes "neethi_engine_normalize p registry deep = Some (Inr q)"
  shows "\<exists>A. snd q = [Op_exactlyone (map (\<lambda>a. Op_all (map Op_assertion a)) A)]"
  using assms
  by (auto elim!: normalize_cases normalize_operator_policy_type simp: normal_form_def)

theorem neethi_normalize_type_witness:
  "\<exists>A. snd (the (map_option projr (neethi_engine_normalize sample_choice None False))) =
     [Op_exactlyone (map (\<lambda>a. Op_all (map Op_assertion a)) A)]"
proof -
  have "neethi_engine_normalize sample_choice None False =
      Some (Inr (\<lambda>_. None, [Op_exactlyone [Op_all [Op_assertion 1], Op_all [Op_assertion 2]]]))"
    by (simp add: neethi_run sample_choice_def)
  from neethi_normalize_type [OF this] this show ?thesis by simp
qed

text \<open>The references of a list of operators, outside of assertions.\<close>

fun op_refs :: "'a neethi_operator \<Rightarrow> string set" where
  "op_refs (Op_policy _ cs) = \<Union> (op_refs ` set cs)"
| "op_refs (Op_all cs) = \<Union> (op_refs ` set cs)"
| "op_refs (Op_exactlyone cs) = \<Union> (op_refs ` set cs)"
| "op_refs (Op_reference uri) = set_option uri"
| "op_refs (Op_assertion _) = {}"
| "op_refs Op_unknown = {}"

lemma normalize_components_returns:
  assumes rank: "\<And>u q v. resolve registry u = Some q \<Longrightarrow> v \<in> \<Union> (op_refs ` set (snd q)) \<Longrightarrow> rank v < (rank u :: nat)"
  shows "(\<And>v. v \<in> \<Union> (op_refs ` set cs) \<Longrightarrow> rank v < n) \<Longrightarrow>
    \<exists>r. normalize_components registry deep cs = Some r"
proof (induction "(n, size_list size cs)" arbitrary: n cs rule: wf_induct_rule [OF wf_lex_prod [OF wf_less_than wf_less_than]])
  case (1 n cs)
  show ?case
  proof (cases cs)
    case (Cons c cs')
    have rest: "\<exists>r. normalize_components registry deep cs' = Some r"
      using 1 Cons by (intro 1(1)) auto
    have child: "\<exists>r. normalize_components registry deep ds = Some r"
      if "c = Op_policy attrs ds \<or> c = Op_all ds \<or> c = Op_exactlyone ds" for attrs ds
      using 1(2) Cons that by (intro 1(1)) fastforce+
    have ref: "\<exists>r. normalize_components registry deep (snd q) = Some r"
      if "c = Op_reference (Some u)" "resolve registry u = Some q" for u q
      using 1(2) Cons that rank [OF that(2)] by (intro 1(1) [of "rank u"]) auto
    show ?thesis
      using rest child ref Cons
      by (cases c) (force simp: normalize_components.simps [of _ _ "_ # _"] resolve_Some split: option.splits)+
  qed simp
qed

text \<open>
  C32 (termination): when the registered policies can be ranked so that each refers only to lower
  ones, that is, when references are not cyclic, normalisation returns.
\<close>

theorem neethi_normalize_returns:
  assumes "\<And>u q v. resolve registry u = Some q \<Longrightarrow> v \<in> \<Union> (op_refs ` set (snd q)) \<Longrightarrow> rank v < (rank u :: nat)"
    and "\<And>v. v \<in> \<Union> (op_refs ` set (snd p)) \<Longrightarrow> rank v < n"
  shows "\<exists>r. neethi_engine_normalize p registry deep = Some r"
proof -
  obtain r where "normalize_components registry deep (snd p) = Some r"
    using normalize_components_returns [of registry rank "snd p" n deep] assms by blast
  then show ?thesis
    by (simp add: neethi_engine_normalize_def normalize_operator_policy_eq Let_def)
qed

theorem neethi_normalize_returns_witness:
  "\<exists>r. neethi_engine_normalize sample_policy (Some sample_registry) True = Some r"
  by (rule neethi_normalize_returns [where rank = "\<lambda>_. 0" and n = 1])
     (auto simp: resolve_sample sample_policy_def sample_choice_def)

text \<open>
  A policy that refers to itself is never normalised: the code follows the reference
  for ever.
\<close>

theorem neethi_normalize_cycle_diverges:
  assumes "resolve registry u = Some (attrs, Op_reference (Some u) # cs)"
  shows "neethi_engine_normalize (attrs, Op_reference (Some u) # cs) registry deep = None"
proof -
  have "normalize_components registry deep (Op_reference (Some u) # cs) = None"
  proof (rule ccontr)
    assume "normalize_components registry deep (Op_reference (Some u) # cs) \<noteq> None"
    then obtain r where r: "normalize_components registry deep (Op_reference (Some u) # cs) = Some r" by auto
    have "\<not> (resolve registry u = Some (attrs, Op_reference (Some u) # cs) \<and> ds = Op_reference (Some u) # cs)"
      if "normalize_components registry deep ds = Some r" for ds
      using that
      by (rule normalize_components.raw_induct [where
            P = "\<lambda>registry _ ds _. \<not> (resolve registry u = Some (attrs, Op_reference (Some u) # cs) \<and> ds = Op_reference (Some u) # cs)", rotated])
         (fastforce simp: resolve_Some split: Option.bind_splits)
    with r assms show False by blast
  qed
  then show ?thesis
    by (simp add: neethi_engine_normalize_def neethi_engine_normalize_operator_def Let_def)
qed

theorem neethi_normalize_cycle_diverges_witness:
  "neethi_engine_normalize (\<lambda>_. None, [Op_reference (Some ''p''), Op_assertion (0 :: nat)])
     (Some (neethi_registry_register neethi_registry_create ''p''
       (\<lambda>_. None, [Op_reference (Some ''p''), Op_assertion 0]))) False = None"
  by (rule neethi_normalize_cycle_diverges) (simp add: resolve_def neethi_registry_create_def)

text \<open>A policy inside a policy contributes its own normal form.\<close>

lemma contributes_policy:
  assumes "neethi_engine_normalize_operator (Op_policy attrs cs) registry deep = Some (Inr e)"
  shows "contributes registry deep (Op_policy attrs cs) e"
proof -
  have same: "normalized_from OPERATOR_TYPE_ALL cs = normalized_from OPERATOR_TYPE_POLICY cs"
    by (simp add: fun_eq_iff normalized_from_def neethi_engine_compute_resultant_component_def
        split: sum.splits)
  obtain r where "normalize_components registry deep cs = Some r"
    "normalized_from OPERATOR_TYPE_POLICY cs r = Inr e"
    using assms by (cases "cs = []") (auto simp: normalize_operator_policy_eq normalized_from_def)
  then show ?thesis
    by (auto simp: contributes_def normalize_components.simps [of _ _ "_ # _"] same
        split: Option.bind_splits)
qed

text \<open>
  Merging the normal forms of two policies is the same as normalising the policy
  that has both as its components, provided that the first has an alternative.
\<close>

theorem neethi_merge_conjunction:
  assumes q1: "neethi_engine_normalize p1 registry deep = Some (Inr q1)"
    and q2: "neethi_engine_normalize p2 registry deep = Some (Inr q2)"
    and ne: "neethi_policy_get_alternatives q1 \<noteq> Some []"
  shows "\<exists>q. neethi_engine_merge q1 q2 = Inr q \<and>
    neethi_engine_normalize (\<lambda>_. None, [Op_policy (fst p1) (snd p1), Op_policy (fst p2) (snd p2)]) registry deep =
      Some (Inr q)"
proof -
  obtain A where e1: "neethi_engine_normalize_operator (Op_policy (fst p1) (snd p1)) registry deep =
      Some (Inr (normal_form A))" and A: "snd q1 = [Op_exactlyone (normal_form A)]"
    using q1 by (auto elim!: normalize_cases elim: normalize_operator_policy_type)
  obtain B where e2: "neethi_engine_normalize_operator (Op_policy (fst p2) (snd p2)) registry deep =
      Some (Inr (normal_form B))" and B: "snd q2 = [Op_exactlyone (normal_form B)]"
    using q2 by (auto elim!: normalize_cases elim: normalize_operator_policy_type)
  have "A \<noteq> []" using ne A by auto
  have "normalize_components registry deep [Op_policy (fst p1) (snd p1), Op_policy (fst p2) (snd p2)] =
      Some (Inr [normal_form A, normal_form B])"
    by (rule contributes_all) (simp add: contributes_policy e1 e2)
  then have "neethi_engine_normalize_operator
      (Op_policy (\<lambda>_. None) [Op_policy (fst p1) (snd p1), Op_policy (fst p2) (snd p2)]) registry deep =
    Some (Inr (normal_form (both A B)))"
    using \<open>A \<noteq> []\<close> by (auto simp: normalize_operator_policy_eq normalized_from_def
      neethi_engine_compute_resultant_component_def cross_product_normal)
  then show ?thesis
    by (simp add: neethi_engine_merge_def neethi_policy_get_exactlyone_def A B cross_product_normal
        neethi_engine_normalize_def neethi_policy_get_name_def neethi_policy_get_id_def)
qed

theorem neethi_merge_conjunction_witness:
  "\<exists>q. neethi_engine_merge
      (\<lambda>_. None, [Op_exactlyone [Op_all [Op_assertion 1], Op_all [Op_assertion 2]]])
      (\<lambda>_. None, [Op_exactlyone [Op_all [Op_assertion (1 :: nat)], Op_all [Op_assertion 2]]]) = Inr q \<and>
    neethi_engine_normalize
      (\<lambda>_. None, [Op_policy (fst sample_choice) (snd sample_choice), Op_policy (fst sample_choice) (snd sample_choice)])
      None False = Some (Inr q)"
proof -
  have n: "neethi_engine_normalize sample_choice None False =
      Some (Inr (\<lambda>_. None, [Op_exactlyone [Op_all [Op_assertion 1], Op_all [Op_assertion 2]]]))"
    by (simp add: neethi_run sample_choice_def)
  show ?thesis by (rule neethi_merge_conjunction [OF n n]) simp
qed

text \<open>
  An all whose first component offers no alternative fails to normalise, and its
  failure is dropped by the operator around it: a policy that demands it beside an assertion \<open>c\<close> has
  no alternative, and is normalised to the single alternative \<open>c\<close>. With the two components
  of the all exchanged, normalisation of the same policy is refused.
\<close>

theorem neethi_normalize_drops_unsatisfiable:
  "alternatives (resolve registry)
     (Op_policy (\<lambda>_. None) [Op_all [Op_exactlyone [], Op_assertion a], Op_assertion c]) [] \<and>
   neethi_engine_normalize
     (\<lambda>_. None, [Op_all [Op_exactlyone [], Op_assertion a], Op_assertion c]) registry False =
     Some (Inr (\<lambda>_. None, [Op_exactlyone [Op_all [Op_assertion c]]])) \<and>
   neethi_engine_normalize
     (\<lambda>_. None, [Op_all [Op_assertion a, Op_exactlyone []], Op_assertion c]) registry False =
     Some (Inl NEETHI_NORMALIZATION_FAILED)"
  (is "alternatives _ ?p [] \<and> ?lost \<and> ?refused")
proof (intro conjI)
  have ex: "alternatives (resolve registry) (Op_exactlyone []) []"
    using alternatives.exactlyone [of "resolve registry" "[]" "[]"] by simp
  have all: "alternatives (resolve registry) (Op_all [Op_exactlyone [], Op_assertion a]) []"
    using alternatives.all [of "resolve registry" _ "[[], [[a]]]"] ex
    by (simp add: alternatives.assertion)
  show "alternatives (resolve registry) ?p []"
    using alternatives.policy [of "resolve registry" _ "[[], [[c]]]"] all
    by (simp add: alternatives.assertion)
  show ?lost by (simp add: neethi_run)
  show ?refused by (simp add: neethi_run)
qed

end
