(* ===== verification/C_String.thy ===== *)
theory C_String
  imports Axis_Prelude
begin

text \<open>
  The string functions of \<^verbatim>\<open>util/src/string.c\<close>: copies and concatenation, comparison without regard to
  case, searching, trimming, replacing, and the reference counted \<^verbatim>\<open>axutil_string\<close>. A C string is an
  Isabelle string without its terminator; the C library's \<^verbatim>\<open>strchr\<close>, \<^verbatim>\<open>strrchr\<close> and \<^verbatim>\<open>strstr\<close> return positions.
\<close>

section \<open>The C library\<close>

definition NUL :: char where "NUL = CHR 0x00"

definition strchr :: "string \<Rightarrow> char \<Rightarrow> nat option" where
  "strchr s c = (if c = NUL then Some (length s) else find_index (\<lambda>x. x = c) s)"

definition strrchr :: "string \<Rightarrow> char \<Rightarrow> nat option" where
  "strrchr s c =
     (if c = NUL then Some (length s) else map_option (\<lambda>i. length s - 1 - i) (find_index (\<lambda>x. x = c) (rev s)))"

fun strstr :: "string \<Rightarrow> string \<Rightarrow> nat option" where
  "strstr [] t = (if t = [] then Some 0 else None)"
| "strstr (c # s) t = (if take (length t) (c # s) = t then Some 0 else map_option Suc (strstr s t))"

text \<open>A \<^verbatim>\<open>char\<close> is signed; the conversions of \<^verbatim>\<open>ctype.h\<close> are those of the C locale.\<close>

definition c_int :: "char \<Rightarrow> int" where
  "c_int c = (let n = int (of_char c) in if n < 128 then n else n - 256)"

definition is_upper :: "char \<Rightarrow> bool" where
  "is_upper c \<longleftrightarrow> c_int (CHR ''A'') \<le> c_int c \<and> c_int c \<le> c_int (CHR ''Z'')"

definition is_lower :: "char \<Rightarrow> bool" where
  "is_lower c \<longleftrightarrow> c_int (CHR ''a'') \<le> c_int c \<and> c_int c \<le> c_int (CHR ''z'')"

definition c_tolower :: "char \<Rightarrow> char" where
  "c_tolower c = (if is_upper c then char_of (of_char c + 32 :: nat) else c)"

definition c_toupper :: "char \<Rightarrow> char" where
  "c_toupper c = (if is_lower c then char_of (of_char c - 32 :: nat) else c)"

text \<open>The character at the front of a string, which is the terminator at its end.\<close>

definition front :: "string \<Rightarrow> char" where
  "front s = (case s of [] \<Rightarrow> NUL | c # _ \<Rightarrow> c)"

section \<open>Copies and concatenation\<close>

definition axutil_strdup :: "alloc \<Rightarrow> string option \<Rightarrow> string option result" where
  "axutil_strdup malloc p =
     (case p of
        None \<Rightarrow> Inr None
      | Some s \<Rightarrow> if malloc (length s + 1) then Inr (Some s) else Inl NO_MEMORY)"

text \<open>\<^verbatim>\<open>axutil_stracat\<close> writes to the block it asked for without a look at the answer.\<close>

definition axutil_stracat :: "alloc \<Rightarrow> string option \<Rightarrow> string option \<Rightarrow> string option result" where
  "axutil_stracat malloc s1 s2 =
     (case (s1, s2) of
        (None, None) \<Rightarrow> Inr None
      | (None, Some _) \<Rightarrow> axutil_strdup malloc s2
      | (Some _, None) \<Rightarrow> axutil_strdup malloc s1
      | (Some a, Some b) \<Rightarrow>
          if malloc (length a + length b + 1) then Inr (Some (a @ b)) else Inl UNDEFINED_BEHAVIOUR)"

text \<open>
  \<^verbatim>\<open>axutil_strcat\<close> takes its arguments up to a NULL. The lengths of the first six are kept from the first
  pass; a copy is a prefix of the argument.
\<close>

definition MAX_SAVED_LENGTHS :: nat where "MAX_SAVED_LENGTHS = 6"

fun strcat_copy :: "nat list \<Rightarrow> nat \<Rightarrow> string list \<Rightarrow> string" where
  "strcat_copy saved nargs [] = []"
| "strcat_copy saved nargs (a # as) =
     (if nargs < MAX_SAVED_LENGTHS then take (saved ! nargs) a @ strcat_copy saved (nargs + 1) as
      else take (length a) a @ strcat_copy saved nargs as)"

definition axutil_strcat :: "alloc \<Rightarrow> string list \<Rightarrow> string result" where
  "axutil_strcat malloc args =
     (let saved_lengths = map length (take MAX_SAVED_LENGTHS args) in
      if malloc (sum_list (map length args) + 1) then Inr (strcat_copy saved_lengths 0 args) else Inl NO_MEMORY)"

text \<open>
  Functions on memory: \<open>mem\<close> is the rest of the block a pointer points into. Reading past its end is undefined.
  A negative \<^verbatim>\<open>int\<close> size becomes a huge \<^verbatim>\<open>size_t\<close>.
\<close>

definition size_of_int :: "int \<Rightarrow> nat" where
  "size_of_int n = nat (n mod 2 ^ 64)"

fun axutil_memchr :: "string \<Rightarrow> char \<Rightarrow> nat \<Rightarrow> nat option result" where
  "axutil_memchr mem c 0 = Inr None"
| "axutil_memchr [] c (Suc n) = Inl UNDEFINED_BEHAVIOUR"
| "axutil_memchr (x # mem) c (Suc n) =
     (if x = c then Inr (Some 0) else map_sum id (map_option Suc) (axutil_memchr mem c n))"

definition axutil_strmemdup :: "alloc \<Rightarrow> string option \<Rightarrow> nat \<Rightarrow> string result" where
  "axutil_strmemdup malloc p n =
     (case p of
        None \<Rightarrow> Inl INVALID_NULL_PARAM
      | Some mem \<Rightarrow>
          if \<not> malloc (n + 1) then Inl NO_MEMORY
          else if length mem < n then Inl UNDEFINED_BEHAVIOUR
          else Inr (take n mem @ [NUL]))"

definition axutil_strndup :: "alloc \<Rightarrow> string option \<Rightarrow> int \<Rightarrow> string result" where
  "axutil_strndup malloc p n =
     (case p of
        None \<Rightarrow> Inl INVALID_NULL_PARAM
      | Some mem \<Rightarrow>
          res_bind (axutil_memchr mem NUL (size_of_int n)) (\<lambda>e.
            let n' = (case e of None \<Rightarrow> n | Some i \<Rightarrow> int i) in
            if \<not> malloc (size_of_int (n' + 1)) then Inl NO_MEMORY
            else if length mem < size_of_int n' then Inl UNDEFINED_BEHAVIOUR
            else Inr (take (nat n') mem @ [NUL])))"

section \<open>Comparison and searching\<close>

definition axutil_strlen :: "string option \<Rightarrow> int" where
  "axutil_strlen s = (case s of None \<Rightarrow> -1 | Some t \<Rightarrow> int (length t))"

fun strncmp :: "string \<Rightarrow> string \<Rightarrow> nat \<Rightarrow> int" where
  "strncmp s t 0 = 0"
| "strncmp s t (Suc n) =
     (let a = (of_char (front s) :: int); b = of_char (front t) in
      if a \<noteq> b then a - b else if a = 0 then 0 else strncmp (tl s) (tl t) n)"

definition axutil_strncmp :: "string option \<Rightarrow> string option \<Rightarrow> int \<Rightarrow> int" where
  "axutil_strncmp s1 s2 n =
     (case (s1, s2) of (Some a, Some b) \<Rightarrow> strncmp a b (size_of_int n) | _ \<Rightarrow> -1)"

fun axutil_strcasecmp :: "string \<Rightarrow> string \<Rightarrow> int" where
  "axutil_strcasecmp (x # s1) (y # s2) =
     (if is_upper x \<and> is_lower y then
        if c_int y - c_int x - 32 \<noteq> 0 then 1 else axutil_strcasecmp s1 s2
      else if is_lower x \<and> is_upper y then
        if c_int x - c_int y - 32 \<noteq> 0 then 1 else axutil_strcasecmp s1 s2
      else if c_int x - c_int y \<noteq> 0 then 1 else axutil_strcasecmp s1 s2)"
| "axutil_strcasecmp s1 s2 = (if front s1 \<noteq> front s2 then 1 else 0)"

fun strncasecmp_loop :: "nat \<Rightarrow> string \<Rightarrow> string \<Rightarrow> int" where
  "strncasecmp_loop 0 str1 str2 = 0"
| "strncasecmp_loop (Suc i) str1 str2 =
     (if c_toupper (front str1) = c_toupper (front str2) then
        if c_toupper (front str1) = NUL then 0 else strncasecmp_loop i (tl str1) (tl str2)
      else c_int (c_toupper (front str1)) - c_int (c_toupper (front str2)))"

definition axutil_strncasecmp :: "string \<Rightarrow> string \<Rightarrow> int \<Rightarrow> int" where
  "axutil_strncasecmp s1 s2 n = strncasecmp_loop (nat n) s1 s2"

text \<open>The outer and inner loop over the haystack; \<open>needle\<close> is without its first character.\<close>

fun strcasestr_loop :: "char \<Rightarrow> string \<Rightarrow> string \<Rightarrow> string option" where
  "strcasestr_loop start needle [] = None"
| "strcasestr_loop start needle (current # haystack) =
     (if c_toupper current \<noteq> c_toupper start then strcasestr_loop start needle haystack
      else if axutil_strncasecmp haystack needle (int (length needle)) \<noteq> 0 then strcasestr_loop start needle haystack
      else Some (current # haystack))"

definition axutil_strcasestr :: "string option \<Rightarrow> string option \<Rightarrow> string option" where
  "axutil_strcasestr haystack needle =
     (case (haystack, needle) of
        (Some h, Some n) \<Rightarrow> (case n of [] \<Rightarrow> Some h | start # needle' \<Rightarrow> strcasestr_loop start needle' h)
      | _ \<Rightarrow> None)"

definition axutil_strstr :: "string \<Rightarrow> string \<Rightarrow> nat option" where
  "axutil_strstr haystack needle = strstr haystack needle"

definition axutil_strchr :: "string \<Rightarrow> char \<Rightarrow> nat option" where
  "axutil_strchr s ch = strchr s ch"

fun rindex_loop :: "string \<Rightarrow> char \<Rightarrow> nat \<Rightarrow> nat option" where
  "rindex_loop s ch 0 = None"
| "rindex_loop s ch (Suc i) = (if s ! i = ch then Some i else rindex_loop s ch i)"

definition axutil_rindex :: "string option \<Rightarrow> char \<Rightarrow> nat option" where
  "axutil_rindex s ch =
     (if axutil_strlen s < 1 then None else rindex_loop (the s) ch (nat (axutil_strlen s)))"

section \<open>Trimming and replacing\<close>

fun ltrim_loop :: "alloc \<Rightarrow> string \<Rightarrow> string \<Rightarrow> string option result" where
  "ltrim_loop malloc trim [] = Inr None"
| "ltrim_loop malloc trim (c # p) =
     (if strchr trim c = None then axutil_strdup malloc (Some (c # p)) else ltrim_loop malloc trim p)"

definition axutil_strltrim :: "alloc \<Rightarrow> string option \<Rightarrow> string option \<Rightarrow> string option result" where
  "axutil_strltrim malloc s trim =
     (case s of
        None \<Rightarrow> Inr None
      | Some p \<Rightarrow>
          ltrim_loop malloc (case trim of None \<Rightarrow> [CHR '' '', CHR 0x09, CHR 0x0D, CHR 0x0A] | Some t \<Rightarrow> t) p)"

text \<open>The copy is shortened in place; what is trimmed away completely is NULL.\<close>

fun rtrim_loop :: "string \<Rightarrow> string \<Rightarrow> nat \<Rightarrow> string option" where
  "rtrim_loop trim s 0 = None"
| "rtrim_loop trim s (Suc tail) =
     (if strchr trim (s ! tail) = None then Some (take (Suc tail) s) else rtrim_loop trim s tail)"

definition axutil_strrtrim :: "alloc \<Rightarrow> string option \<Rightarrow> string option \<Rightarrow> string option result" where
  "axutil_strrtrim malloc s trim =
     (case s of
        None \<Rightarrow> Inr None
      | Some _ \<Rightarrow>
          res_bind (axutil_strdup malloc s) (\<lambda>p.
            Inr (rtrim_loop (case trim of None \<Rightarrow> [CHR '' '', CHR 0x09, CHR 0x0A, CHR 0x0D] | Some t \<Rightarrow> t)
                   (the p) (length (the p)))))"

text \<open>\<^verbatim>\<open>axutil_strtrim\<close> passes a NULL on; the error code of a failed copy stays set.\<close>

definition axutil_strtrim :: "alloc \<Rightarrow> string option \<Rightarrow> string option \<Rightarrow> string option result" where
  "axutil_strtrim malloc s trim =
     res_bind (axutil_strltrim malloc s trim) (\<lambda>p. axutil_strrtrim malloc p trim)"

text \<open>
  The loop of \<^verbatim>\<open>axutil_replace\<close> searches from the beginning each time. Storing a terminator shortens the
  string; overwriting the terminator leaves none.
\<close>

partial_function (option) replace_loop :: "char \<Rightarrow> char \<Rightarrow> string \<Rightarrow> string result option" where
  "replace_loop s1 s2 newstr =
     (case strchr newstr s1 of
        None \<Rightarrow> Some (Inr newstr)
      | Some index \<Rightarrow>
          if index = length newstr then Some (Inl UNDEFINED_BEHAVIOUR)
          else replace_loop s1 s2 (if s2 = NUL then take index newstr else newstr[index := s2]))"

definition axutil_replace :: "alloc \<Rightarrow> string option \<Rightarrow> char \<Rightarrow> char \<Rightarrow> string option result option" where
  "axutil_replace malloc str s1 s2 =
     (case str of
        None \<Rightarrow> Some (Inr None)
      | Some s \<Rightarrow>
          (case axutil_strdup malloc str of
             Inl _ \<Rightarrow> Some (Inl UNDEFINED_BEHAVIOUR)
           | Inr _ \<Rightarrow> map_option (map_sum id Some) (replace_loop s1 s2 s)))"

text \<open>The functions that change their argument return it changed.\<close>

fun axutil_string_replace :: "string \<Rightarrow> char \<Rightarrow> char \<Rightarrow> string" where
  "axutil_string_replace [] old new = []"
| "axutil_string_replace (c # str) old new =
     (if c = old then if new = NUL then [] else new # axutil_string_replace str old new
      else c # axutil_string_replace str old new)"

definition axutil_string_substring_starting_at :: "string \<Rightarrow> int \<Rightarrow> string option result" where
  "axutil_string_substring_starting_at str s =
     (if int (length str) \<le> s then Inr None
      else if s < 0 then Inl UNDEFINED_BEHAVIOUR
      else Inr (Some (drop (nat s) str)))"

definition axutil_string_substring_ending_at :: "string \<Rightarrow> int \<Rightarrow> string option result" where
  "axutil_string_substring_ending_at str e =
     (if int (length str) \<le> e then Inr None
      else if e < 0 then Inl UNDEFINED_BEHAVIOUR
      else Inr (Some (take (nat e) str)))"

definition axutil_string_tolower :: "string \<Rightarrow> string" where
  "axutil_string_tolower str = map c_tolower str"

definition axutil_string_toupper :: "string \<Rightarrow> string" where
  "axutil_string_toupper str = map c_toupper str"

section \<open>Reference counted strings\<close>

text \<open>The buffer is an address with the text at it.\<close>

record axutil_string =
  str_buffer :: "(nat \<times> string) option"
  str_length :: "32 word"
  str_ref_count :: "32 word"
  str_owns_buffer :: bool

definition sizeof_string :: nat where "sizeof_string = 24"

definition string_object :: "nat \<times> string \<Rightarrow> bool \<Rightarrow> axutil_string" where
  "string_object b owns = \<lparr>str_buffer = Some b, str_length = of_nat (length (snd b)), str_ref_count = 1,
     str_owns_buffer = owns\<rparr>"

text \<open>\<open>a\<close> is the address of the new buffer. The length is unsigned: it is never negative.\<close>

definition axutil_string_create :: "alloc \<Rightarrow> nat \<Rightarrow> string option \<Rightarrow> axutil_string result" where
  "axutil_string_create malloc a str =
     (case str of
        None \<Rightarrow> Inl INVALID_NULL_PARAM
      | Some s \<Rightarrow>
          if \<not> malloc sizeof_string then Inl NO_MEMORY
          else if \<not> malloc (unat (of_nat (length s) + 1 :: 32 word)) then Inl NO_MEMORY
          else Inr (string_object (a, s) True))"

definition axutil_string_create_assume_ownership :: "alloc \<Rightarrow> (nat \<times> string) option \<Rightarrow> axutil_string result" where
  "axutil_string_create_assume_ownership malloc str =
     (case str of
        None \<Rightarrow> Inl INVALID_NULL_PARAM
      | Some b \<Rightarrow> if \<not> malloc sizeof_string then Inl NO_MEMORY else Inr (string_object b True))"

definition axutil_string_create_const :: "alloc \<Rightarrow> (nat \<times> string) option \<Rightarrow> axutil_string result" where
  "axutil_string_create_const malloc str =
     (case str of
        None \<Rightarrow> Inl INVALID_NULL_PARAM
      | Some b \<Rightarrow> if \<not> malloc sizeof_string then Inl NO_MEMORY else Inr (string_object b False))"

text \<open>What is left of a string after its deallocation function: \<open>None\<close> when it was the last reference.\<close>

definition axutil_string_free :: "axutil_string option \<Rightarrow> axutil_string option" where
  "axutil_string_free p =
     (case p of
        None \<Rightarrow> None
      | Some x \<Rightarrow>
          let r = str_ref_count x - 1 in if r > 0 then Some (x\<lparr>str_ref_count := r\<rparr>) else None)"

definition axutil_string_equals :: "axutil_string option \<Rightarrow> axutil_string option \<Rightarrow> bool" where
  "axutil_string_equals p q =
     (case (p, q) of
        (Some x, Some y) \<Rightarrow> map_option fst (str_buffer x) = map_option fst (str_buffer y)
      | _ \<Rightarrow> False)"

definition axutil_string_clone :: "axutil_string option \<Rightarrow> axutil_string option" where
  "axutil_string_clone p = map_option (\<lambda>x. x\<lparr>str_ref_count := str_ref_count x + 1\<rparr>) p"

definition axutil_string_get_buffer :: "axutil_string option \<Rightarrow> (nat \<times> string) option" where
  "axutil_string_get_buffer p = (case p of None \<Rightarrow> None | Some x \<Rightarrow> str_buffer x)"

definition axutil_string_get_length :: "axutil_string option \<Rightarrow> 32 word" where
  "axutil_string_get_length p = (case p of None \<Rightarrow> -1 | Some x \<Rightarrow> str_length x)"

section \<open>Copies\<close>

lemma strdup_ok [simp]: "mem_ok malloc \<Longrightarrow> axutil_strdup malloc p = Inr p"
  by (simp add: axutil_strdup_def mem_okD split: option.splits)

lemma stracat_ok [simp]:
  "mem_ok malloc \<Longrightarrow> axutil_stracat malloc (Some a) (Some b) = Inr (Some (a @ b))"
  by (simp add: axutil_stracat_def mem_okD)

lemma strcat_copy_concat:
  "\<forall>i < length as. nargs + i < MAX_SAVED_LENGTHS \<longrightarrow> saved ! (nargs + i) = length (as ! i) \<Longrightarrow>
   strcat_copy saved nargs as = concat as"
proof (induction as arbitrary: nargs)
  case (Cons a as)
  show ?case
  proof (cases "nargs < MAX_SAVED_LENGTHS")
    case True
    have "saved ! nargs = length a" using Cons.prems True by (metis add.right_neutral length_Cons nth_Cons_0 zero_less_Suc)
    moreover have "strcat_copy saved (nargs + 1) as = concat as"
    proof (rule Cons.IH, intro allI impI)
      fix i assume "i < length as" "nargs + 1 + i < MAX_SAVED_LENGTHS"
      then show "saved ! (nargs + 1 + i) = length (as ! i)" using Cons.prems [rule_format, of "Suc i"] by simp
    qed
    ultimately show ?thesis using True by simp
  next
    case False
    then show ?thesis using Cons.IH [of nargs] by simp
  qed
qed simp

lemma strcat_spec: "mem_ok malloc \<Longrightarrow> axutil_strcat malloc args = Inr (concat args)"
  by (simp add: axutil_strcat_def Let_def mem_okD strcat_copy_concat)

section \<open>Case\<close>

lemma char_code_less: "(of_char c :: nat) < 256"
  by (cases c) simp

lemma char_code_eq: "(of_char c :: nat) = of_char d \<longleftrightarrow> c = d"
  by (simp add: of_char_eq_iff)

lemma c_int_code: "c_int c = (if (of_char c :: nat) < 128 then int (of_char c) else int (of_char c) - 256)"
  by (simp add: c_int_def Let_def)

lemma c_int_eq [simp]: "c_int c = c_int d \<longleftrightarrow> c = d"
  unfolding char_code_eq [symmetric] c_int_code
  by (auto simp del: of_char_eq_iff split: if_splits) (use char_code_less [of c] char_code_less [of d] in linarith)+

lemma upper_code: "is_upper c \<longleftrightarrow> (of_char c :: nat) \<in> {65..90}"
  by (auto simp: is_upper_def c_int_code) (use char_code_less [of c] in linarith)

lemma lower_code: "is_lower c \<longleftrightarrow> (of_char c :: nat) \<in> {97..122}"
  by (auto simp: is_lower_def c_int_code) (use char_code_less [of c] in linarith)

lemma tolower_code: "(of_char (c_tolower c) :: nat) = (if is_upper c then of_char c + 32 else of_char c)"
  by (auto simp: c_tolower_def upper_code)

lemma toupper_code: "(of_char (c_toupper c) :: nat) = (if is_lower c then of_char c - 32 else of_char c)"
  by (auto simp: c_toupper_def lower_code)

lemma same_letter: "c_toupper c = c_toupper d \<longleftrightarrow> c_tolower c = c_tolower d"
  unfolding char_code_eq [symmetric] tolower_code toupper_code
  by (auto simp: upper_code lower_code simp del: of_char_eq_iff)

lemma toupper_NUL [simp]: "c_toupper c = NUL \<longleftrightarrow> c = NUL"
  unfolding char_code_eq [symmetric] toupper_code by (auto simp: lower_code NUL_def)

lemma toupper_of_NUL [simp]: "c_toupper NUL = NUL" "NUL = c_toupper c \<longleftrightarrow> c = NUL"
  by (metis toupper_NUL)+

lemma strcasecmp_zero: "axutil_strcasecmp s t = 0 \<longleftrightarrow> map c_tolower s = map c_tolower t" if "NUL \<notin> set s" "NUL \<notin> set t"
  using that
proof (induction s t rule: axutil_strcasecmp.induct)
  case (1 x s y t)
  have "(if is_upper x \<and> is_lower y then c_int y - c_int x - 32 = 0
      else if is_lower x \<and> is_upper y then c_int x - c_int y - 32 = 0 else x = y) \<longleftrightarrow> c_tolower x = c_tolower y"
    unfolding char_code_eq [symmetric] tolower_code
    by (auto simp: upper_code lower_code c_int_code simp del: of_char_eq_iff)
  with 1 show ?case by (auto split: if_splits)
qed (auto simp: front_def split: list.splits)

lemma strncasecmp_zero:
  "NUL \<notin> set s \<Longrightarrow> NUL \<notin> set t \<Longrightarrow>
   strncasecmp_loop n s t = 0 \<longleftrightarrow> map c_toupper (take n s) = map c_toupper (take n t)"
proof (induction n s t rule: strncasecmp_loop.induct)
  case (2 n s t)
  have "c_toupper c \<noteq> NUL" if "c \<in> set s \<union> set t" for c using 2 that by auto
  with 2 show ?case
    by (cases s; cases t) (auto simp: front_def)
qed simp

section \<open>Searching\<close>

lemma strchr_None: "c \<noteq> NUL \<Longrightarrow> strchr s c = None \<longleftrightarrow> c \<notin> set s"
  by (auto simp: strchr_def find_index_None)

lemma strchr_notin [simp]: "c \<noteq> NUL \<Longrightarrow> c \<notin> set s \<Longrightarrow> strchr s c = None"
  by (simp add: strchr_None)

lemma strchr_split: "c \<noteq> NUL \<Longrightarrow> c \<notin> set xs \<Longrightarrow> strchr (xs @ c # ys) c = Some (length xs)"
  by (induction xs) (auto simp: strchr_def)

lemma strchr_Some:
  assumes "c \<noteq> NUL" "strchr s c = Some i"
  shows "\<exists>l r. s = l @ c # r \<and> c \<notin> set l \<and> i = length l"
proof -
  have "c \<in> set s" using assms strchr_None [of c s] by auto
  then obtain l r where s: "s = l @ c # r" "c \<notin> set l" by (meson split_list_first)
  with strchr_split [OF assms(1) s(2), of r] assms(2) show ?thesis by auto
qed

lemma strrchr_split: "c \<noteq> NUL \<Longrightarrow> c \<notin> set ys \<Longrightarrow> strrchr (xs @ c # ys) c = Some (length xs)"
  using strchr_split [of c "rev ys" "rev xs"] by (simp add: strchr_def strrchr_def)

lemma strrchr_None: "c \<noteq> NUL \<Longrightarrow> strrchr s c = None \<longleftrightarrow> c \<notin> set s"
  by (auto simp: strrchr_def find_index_None)

lemma strstr_Some:
  "strstr s t = Some i \<longleftrightarrow> i \<le> length s \<and> take (length t) (drop i s) = t \<and> (\<forall>j < i. take (length t) (drop j s) \<noteq> t)"
proof (induction s t arbitrary: i rule: strstr.induct)
  case (2 c s t)
  show ?case by (cases i) (auto simp: 2 less_Suc_eq_0_disj)
qed auto

lemma strstr_None: "strstr s t = None \<longleftrightarrow> (\<forall>j \<le> length s. take (length t) (drop j s) \<noteq> t)"
proof -
  have "strstr s t \<noteq> None" if "j \<le> length s" "take (length t) (drop j s) = t" for j
  proof -
    let ?P = "\<lambda>j. j \<le> length s \<and> take (length t) (drop j s) = t"
    have "?P (LEAST j. ?P j)" by (rule LeastI [of ?P j]) (use that in blast)
    moreover have "\<not> ?P k" if "k < (LEAST j. ?P j)" for k using that by (rule not_less_Least)
    ultimately have "strstr s t = Some (LEAST j. ?P j)" using le_trans less_imp_le by (fastforce simp: strstr_Some)
    then show ?thesis by simp
  qed
  then show ?thesis by (metis option.exhaust strstr_Some)
qed

lemma rindex_loop_strrchr: "n \<le> length s \<Longrightarrow> c \<noteq> NUL \<Longrightarrow> rindex_loop s c n = strrchr (take n s) c"
proof (induction n)
  case (Suc n)
  then have "take (Suc n) s = take n s @ [s ! n]" by (simp add: take_Suc_conv_app_nth)
  with Suc show ?case by (auto simp: strrchr_def option.map_comp o_def min_def intro!: option.map_cong)
qed (simp add: strrchr_def)

lemma rindex_strrchr: "c \<noteq> NUL \<Longrightarrow> axutil_rindex (Some s) c = strrchr s c"
  by (cases s) (auto simp: axutil_rindex_def axutil_strlen_def rindex_loop_strrchr strrchr_def)

lemma strcasestr_loop_spec:
  assumes n: "NUL \<notin> set (c # needle)"
  shows "NUL \<notin> set h \<Longrightarrow> strcasestr_loop c needle h =
    map_option (\<lambda>i. drop i h) (strstr (map c_tolower h) (map c_tolower (c # needle)))"
proof (induction h)
  case (Cons x h)
  have "axutil_strncasecmp h needle (int (length needle)) = 0 \<longleftrightarrow>
      map c_toupper (take (length needle) h) = map c_toupper needle"
    using Cons.prems n by (simp add: axutil_strncasecmp_def strncasecmp_zero)
  also have "\<dots> \<longleftrightarrow> take (length needle) (map c_tolower h) = map c_tolower needle"
    by (auto simp: take_map list_eq_iff_nth_eq same_letter)
  finally show ?case using Cons by (auto simp: same_letter option.map_comp o_def)
qed simp

section \<open>Trimming\<close>

definition blanks :: "string option \<Rightarrow> string" where
  "blanks trim = (case trim of None \<Rightarrow> [CHR '' '', CHR 0x09, CHR 0x0D, CHR 0x0A] | Some t \<Rightarrow> t)"

definition nonempty :: "string \<Rightarrow> string option" where
  "nonempty s = (if s = [] then None else Some s)"

lemma ltrim_spec:
  assumes "mem_ok malloc" "NUL \<notin> set s"
  shows "axutil_strltrim malloc (Some s) trim = Inr (nonempty (dropWhile (\<lambda>c. c \<in> set (blanks trim)) s))"
proof -
  have "ltrim_loop malloc t s = Inr (nonempty (dropWhile (\<lambda>c. c \<in> set t) s))" for t
    using assms(2)
  proof (induction s)
    case (Cons c s)
    then have "c \<noteq> NUL" by auto
    with Cons show ?case using strchr_None [of c t] by (simp add: nonempty_def assms(1))
  qed (simp add: nonempty_def)
  then show ?thesis by (simp add: axutil_strltrim_def blanks_def split: option.splits)
qed

lemma rtrim_loop_spec:
  assumes "NUL \<notin> set s"
  shows "n \<le> length s \<Longrightarrow> rtrim_loop t s n = nonempty (rev (dropWhile (\<lambda>c. c \<in> set t) (rev (take n s))))"
proof (induction n)
  case (Suc n)
  then have n: "take (Suc n) s = take n s @ [s ! n]" by (simp add: take_Suc_conv_app_nth)
  have "s ! n \<noteq> NUL" using assms Suc.prems by (metis Suc_le_lessD nth_mem)
  with Suc n strchr_None [of "s ! n" t] show ?case by (simp add: nonempty_def)
qed (simp add: nonempty_def)

lemma rtrim_spec:
  assumes "mem_ok malloc" "NUL \<notin> set s"
  shows "axutil_strrtrim malloc (Some s) trim = Inr (nonempty (rev (dropWhile (\<lambda>c. c \<in> set (blanks trim)) (rev s))))"
proof -
  have "set [CHR '' '', CHR 0x09, CHR 0x0A, CHR 0x0D] = set [CHR '' '', CHR 0x09, CHR 0x0D, CHR 0x0A]" by auto
  then show ?thesis
    using assms by (auto simp: axutil_strrtrim_def rtrim_loop_spec blanks_def split: option.splits)
qed

lemma dropWhile_last: "dropWhile P s \<noteq> [] \<Longrightarrow> last (dropWhile P s) = last s"
  by (induction s) auto

text \<open>
  Trimming removes exactly the characters of the given set (blanks, when none is given) from both
  ends; a string of nothing else becomes NULL, not the empty string.
\<close>

theorem strtrim_spec:
  assumes "mem_ok malloc" "NUL \<notin> set s"
  shows "axutil_strtrim malloc (Some s) trim = Inr (nonempty
    (rev (dropWhile (\<lambda>c. c \<in> set (blanks trim)) (rev (dropWhile (\<lambda>c. c \<in> set (blanks trim)) s)))))"
proof -
  let ?t = "dropWhile (\<lambda>c. c \<in> set (blanks trim)) s"
  have "NUL \<notin> set ?t" using assms(2) by (auto dest: set_dropWhileD)
  note r = rtrim_spec [OF assms(1) this, of trim]
  show ?thesis
  proof (cases "?t = []")
    case True
    have "axutil_strltrim malloc (Some s) trim = Inr None" unfolding ltrim_spec [OF assms] True by (simp add: nonempty_def)
    then show ?thesis unfolding True by (simp add: axutil_strtrim_def axutil_strrtrim_def nonempty_def)
  next
    case False
    have "axutil_strltrim malloc (Some s) trim = Inr (Some ?t)"
      unfolding ltrim_spec [OF assms] by (simp only: nonempty_def False if_False)
    then show ?thesis using r by (simp only: axutil_strtrim_def res_bind_simps)
  qed
qed

theorem strtrim_spec_witness:
  "axutil_strtrim (\<lambda>_. True) (Some '' a b  '') None = Inr (Some ''a b'')"
  using strtrim_spec [of "\<lambda>_. True" "'' a b  ''" None] by (simp add: NUL_def blanks_def nonempty_def)

section \<open>Replacing\<close>

text \<open>Each step replaces the first occurrence that is left.\<close>

lemma replace_loop_done: "s1 \<noteq> NUL \<Longrightarrow> s1 \<notin> set s \<Longrightarrow> replace_loop s1 s2 s = Some (Inr s)"
  by (subst replace_loop.simps) simp

lemma replace_loop_step:
  assumes "s1 \<noteq> NUL" "s1 \<notin> set xs"
  shows "replace_loop s1 s2 (xs @ s1 # ys) = replace_loop s1 s2 (if s2 = NUL then xs else xs @ s2 # ys)"
  by (subst replace_loop.simps) (simp add: strchr_split [OF assms])

lemma replace_loop_spec:
  assumes "s1 \<noteq> NUL" "s2 \<noteq> NUL" "s1 \<noteq> s2"
  shows "s1 \<notin> set xs \<Longrightarrow> replace_loop s1 s2 (xs @ s) = Some (Inr (xs @ map (\<lambda>c. if c = s1 then s2 else c) s))"
proof (induction s arbitrary: xs)
  case Nil
  then show ?case by (simp add: replace_loop_done [OF assms(1)])
next
  case (Cons c s)
  then show ?case
    using replace_loop_step [OF assms(1), of xs s2 s] Cons.IH [of "xs @ [s2]"] Cons.IH [of "xs @ [c]"] assms(2,3)
    by (cases "c = s1") auto
qed

lemma replace_spec:
  assumes "mem_ok malloc" "s1 \<noteq> NUL" "s2 \<noteq> NUL" "s1 \<noteq> s2"
  shows "axutil_replace malloc (Some s) s1 s2 = Some (Inr (Some (map (\<lambda>c. if c = s1 then s2 else c) s)))"
  using replace_loop_spec [OF assms(2-4), of "[]" s] assms(1) by (simp add: axutil_replace_def)

text \<open>Replacing a character that occurs by itself never ends.\<close>

lemma replace_loop_same_diverges:
  assumes "c \<noteq> NUL" "c \<in> set s"
  shows "replace_loop c c s = None"
proof -
  let ?P = "\<lambda>s1 s2 t (_ :: string result). s1 = c \<longrightarrow> s2 = c \<longrightarrow> c \<notin> set t"
  have "?P c c s r" if "replace_loop c c s = Some r" for r
  proof (rule replace_loop.raw_induct [of ?P, OF _ that], intro impI notI)
    fix f s1 s2 t r
    assume IH: "\<And>s1 s2 t r. f s1 s2 t = Some r \<Longrightarrow> ?P s1 s2 t r"
      and body: "(case strchr t s1 of None \<Rightarrow> Some (Inr t)
        | Some index \<Rightarrow> if index = length t then Some (Inl UNDEFINED_BEHAVIOUR)
          else f s1 s2 (if s2 = NUL then take index t else t[index := s2])) = Some r"
      and c: "s1 = c" "s2 = c" "c \<in> set t"
    then obtain i where i: "strchr t c = Some i" "i < length t" "t ! i = c"
      using strchr_None [OF assms(1), of t] assms(1) by (auto simp: strchr_def find_index_Some split: option.splits)
    have "t[i := c] = t" using i(2,3) by (metis list_update_id)
    then have "f c c t = Some r" using body c i assms(1) by simp
    from IH [OF this] c(3) show False by simp
  qed
  then show ?thesis using assms(2) by (cases "replace_loop c c s") auto
qed

text \<open>
  \<^verbatim>\<open>axutil_replace\<close> returns the string with every occurrence of the character replaced; it returns
  exactly when the two characters differ or the character does not occur, and runs forever otherwise.
\<close>

theorem replace_returns_iff:
  assumes "mem_ok malloc" "s1 \<noteq> NUL" "s2 \<noteq> NUL"
  shows "axutil_replace malloc (Some s) s1 s2 =
    (if s1 = s2 \<and> s1 \<in> set s then None else Some (Inr (Some (map (\<lambda>c. if c = s1 then s2 else c) s))))"
proof (cases "s1 = s2")
  case True
  have "map (\<lambda>c. if c = s2 then s2 else c) s = s" by (simp add: map_idI)
  then show ?thesis
    using True replace_loop_same_diverges [OF assms(3)] replace_loop_done [OF assms(3)] assms(1)
    by (cases "s2 \<in> set s") (auto simp: axutil_replace_def)
next
  case False
  then show ?thesis using replace_spec [OF assms] by simp
qed

theorem replace_returns_iff_witness:
  "axutil_replace (\<lambda>_. True) (Some ''a.b.c'') (CHR ''.'') (CHR ''-'') = Some (Inr (Some ''a-b-c'')) \<and>
   axutil_replace (\<lambda>_. True) (Some ''a.b.c'') (CHR ''.'') (CHR ''.'') = None"
  using replace_returns_iff [of "\<lambda>_. True" "CHR ''.''" "CHR ''-''" "''a.b.c''"]
    replace_returns_iff [of "\<lambda>_. True" "CHR ''.''" "CHR ''.''" "''a.b.c''"] by (simp add: NUL_def)

text \<open>
  \<^verbatim>\<open>axutil_strcasecmp\<close> and \<^verbatim>\<open>axutil_strncasecmp\<close> return zero exactly for strings, or first parts of
  strings, that are equal in lower case, and \<^verbatim>\<open>axutil_strcasestr\<close> finds the first occurrence of a
  needle in lower case.
\<close>

theorem case_insensitive_spec:
  assumes "NUL \<notin> set s" "NUL \<notin> set t"
  shows "(axutil_strcasecmp s t = 0 \<longleftrightarrow> axutil_string_tolower s = axutil_string_tolower t) \<and>
    (axutil_strncasecmp s t n = 0 \<longleftrightarrow> axutil_string_tolower (take (nat n) s) = axutil_string_tolower (take (nat n) t)) \<and>
    axutil_strcasestr (Some s) (Some t) =
      map_option (\<lambda>i. drop i s) (axutil_strstr (axutil_string_tolower s) (axutil_string_tolower t))"
proof (intro conjI)
  show "axutil_strcasecmp s t = 0 \<longleftrightarrow> axutil_string_tolower s = axutil_string_tolower t"
    using strcasecmp_zero [OF assms] by (simp add: axutil_string_tolower_def)
  have "map c_toupper (take (nat n) s) = map c_toupper (take (nat n) t) \<longleftrightarrow>
      map c_tolower (take (nat n) s) = map c_tolower (take (nat n) t)"
    by (simp add: list_eq_iff_nth_eq same_letter cong: conj_cong)
  then show "axutil_strncasecmp s t n = 0 \<longleftrightarrow>
      axutil_string_tolower (take (nat n) s) = axutil_string_tolower (take (nat n) t)"
    using strncasecmp_zero [OF assms] by (simp add: axutil_strncasecmp_def axutil_string_tolower_def)
  show "axutil_strcasestr (Some s) (Some t) =
      map_option (\<lambda>i. drop i s) (axutil_strstr (axutil_string_tolower s) (axutil_string_tolower t))"
  proof (cases t)
    case Nil
    then show ?thesis
      by (cases s) (auto simp: axutil_strcasestr_def axutil_strstr_def axutil_string_tolower_def)
  next
    case (Cons c needle)
    then show ?thesis
      using strcasestr_loop_spec [of c needle s] assms
      by (simp add: axutil_strcasestr_def axutil_strstr_def axutil_string_tolower_def)
  qed
qed

theorem case_insensitive_spec_witness:
  "axutil_strcasecmp ''Content-Type'' ''content-type'' = 0 \<and>
   axutil_strcasestr (Some ''a Chunked b'') (Some ''chunkED'') = Some ''Chunked b''"
proof -
  have "axutil_string_tolower ''Content-Type'' = axutil_string_tolower ''content-type''"
    "axutil_strstr (axutil_string_tolower ''a Chunked b'') (axutil_string_tolower ''chunkED'') = Some 2" by code_simp+
  with case_insensitive_spec [of "''Content-Type''" "''content-type''" 0] case_insensitive_spec [of "''a Chunked b''" "''chunkED''" 0]
  show ?thesis by (simp add: NUL_def)
qed

section \<open>Line ends\<close>

definition AXIS2_HTTP_CRLF :: string where
  "AXIS2_HTTP_CRLF = [CHR 0x0D, CHR 0x0A]"

abbreviation CR :: char where "CR \<equiv> CHR 0x0D"
abbreviation LF :: char where "LF \<equiv> CHR 0x0A"

lemma CRLF_simps: "AXIS2_HTTP_CRLF = [CR, LF]"
  by (simp add: AXIS2_HTTP_CRLF_def)

text \<open>The first line end of a text.\<close>

lemma strstr_CRLF_append: "strstr (s @ [CR]) AXIS2_HTTP_CRLF = None \<Longrightarrow> strstr (s @ AXIS2_HTTP_CRLF @ r) AXIS2_HTTP_CRLF = Some (length s)"
proof (induction s)
  case (Cons c s)
  have n: "strstr (s @ [CR]) AXIS2_HTTP_CRLF = None" using Cons.prems by (auto split: if_splits)
  have "take 2 (c # s @ CR # LF # r) \<noteq> [CR, LF]" using Cons.prems by (cases s) (auto simp: CRLF_simps split: if_splits)
  then show ?case using Cons.IH [OF n] by (simp add: CRLF_simps)
qed (simp add: CRLF_simps)

lemma strstr_CRLF_cases:
  assumes "strstr s AXIS2_HTTP_CRLF = Some i"
  shows "\<exists>l r. s = l @ AXIS2_HTTP_CRLF @ r \<and> i = length l \<and> strstr (l @ [CR]) AXIS2_HTTP_CRLF = None"
  using assms
proof (induction s arbitrary: i)
  case (Cons c s)
  show ?case
  proof (cases "take 2 (c # s) = [CR, LF]")
    case True
    then have "i = 0" "c = CR" "take 1 s = [LF]" using Cons.prems by (auto simp: CRLF_simps)
    then show ?thesis by (intro exI [of _ "[]"] exI [of _ "tl s"]) (cases s, auto simp: CRLF_simps)
  next
    case False
    then obtain j where j: "strstr s AXIS2_HTTP_CRLF = Some j" "i = Suc j" using Cons.prems by (auto simp: CRLF_simps)
    obtain l r where r: "s = l @ AXIS2_HTTP_CRLF @ r" "j = length l" "strstr (l @ [CR]) AXIS2_HTTP_CRLF = None"
      using Cons.IH [OF j(1)] by blast
    have "take 2 (c # l @ [CR]) \<noteq> [CR, LF]" using False r(1) by (cases l) (auto simp: CRLF_simps)
    with r j show ?thesis by (intro exI [of _ "c # l"] exI [of _ r]) (simp add: CRLF_simps)
  qed
qed (simp add: CRLF_simps)

lemma no_CR_strstr: "CR \<notin> set s \<Longrightarrow> strstr s AXIS2_HTTP_CRLF = None \<and> strstr (s @ [CR]) AXIS2_HTTP_CRLF = None"
  by (induction s) (auto simp: CRLF_simps)

lemma CRLF_strstr: "CR \<notin> set s \<Longrightarrow> strstr (s @ AXIS2_HTTP_CRLF) AXIS2_HTTP_CRLF \<noteq> None"
  by (induction s) (auto simp: CRLF_simps)

end
