(* ===== verification/Qname.thy ===== *)
theory Qname
  imports C_String
begin

text \<open>
  Qualified names: \<^verbatim>\<open>util/src/qname.c\<close>, every operation. The string of a name is the key under which tables of Axis2/C hold
  what it names; it is computed once and kept in the structure.
\<close>

section \<open>Names\<close>

text \<open>\<^verbatim>\<open>struct axutil_qname\<close>; the local part is never NULL.\<close>

record axutil_qname =
  localpart :: string
  namespace_uri :: "string option"
  prefix :: "string option"
  qname_string :: "string option"
  qname_ref :: "32 word"

definition sizeof_qname :: nat where "sizeof_qname = 40"

definition axutil_qname_create ::
    "alloc \<Rightarrow> string option \<Rightarrow> string option \<Rightarrow> string option \<Rightarrow> axutil_qname result" where
  "axutil_qname_create malloc local uri pre =
     (case local of
        None \<Rightarrow> Inl INVALID_NULL_PARAM
      | Some l \<Rightarrow>
          if \<not> malloc sizeof_qname then Inl NO_MEMORY
          else
            res_bind (axutil_strdup malloc local) (\<lambda>_.
            res_bind (axutil_strdup malloc pre) (\<lambda>pre'.
            res_bind (axutil_strdup malloc uri) (\<lambda>uri'.
              Inr \<lparr>localpart = l, namespace_uri = uri', prefix = pre', qname_string = None,
                   qname_ref = 1\<rparr>))))"

text \<open>The comparison of two strings that may be NULL: two NULLs do not differ.\<close>

definition parts_differ :: "string option \<Rightarrow> string option \<Rightarrow> bool" where
  "parts_differ s1 s2 =
     (if s1 \<noteq> None \<and> s2 \<noteq> None then axutil_strcmp s1 s2 \<noteq> 0 else s1 \<noteq> None \<or> s2 \<noteq> None)"

definition axutil_qname_equals :: "axutil_qname \<Rightarrow> axutil_qname option \<Rightarrow> bool result" where
  "axutil_qname_equals q p =
     (case p of
        None \<Rightarrow> Inl INVALID_NULL_PARAM
      | Some q2 \<Rightarrow>
          Inr (\<not> parts_differ (namespace_uri q) (namespace_uri q2) \<and>
               \<not> parts_differ (Some (localpart q)) (Some (localpart q2))))"

text \<open>A clone is the same structure with one more reference.\<close>

definition axutil_qname_clone :: "axutil_qname option \<Rightarrow> axutil_qname option" where
  "axutil_qname_clone p = map_option (\<lambda>q. q\<lparr>qname_ref := qname_ref q + 1\<rparr>) p"

definition axutil_qname_get_uri :: "axutil_qname option \<Rightarrow> string option result" where
  "axutil_qname_get_uri p = (case p of None \<Rightarrow> Inl INVALID_NULL_PARAM | Some q \<Rightarrow> Inr (namespace_uri q))"

definition axutil_qname_get_prefix :: "axutil_qname option \<Rightarrow> string option result" where
  "axutil_qname_get_prefix p = (case p of None \<Rightarrow> Inl INVALID_NULL_PARAM | Some q \<Rightarrow> Inr (prefix q))"

definition axutil_qname_get_localpart :: "axutil_qname option \<Rightarrow> string option result" where
  "axutil_qname_get_localpart p =
     (case p of None \<Rightarrow> Inl INVALID_NULL_PARAM | Some q \<Rightarrow> Inr (Some (localpart q)))"

text \<open>
  \<^verbatim>\<open>axutil_qname_to_string\<close> returns the string and keeps it. A copy that fails leaves NULL.
\<close>

definition axutil_qname_to_string ::
    "alloc \<Rightarrow> axutil_qname \<Rightarrow> (string option \<times> axutil_qname) result" where
  "axutil_qname_to_string malloc q =
     (case qname_string q of
        Some s \<Rightarrow> Inr (Some s, q)
      | None \<Rightarrow>
          if namespace_uri q = None \<or> axutil_strcmp (namespace_uri q) (Some '''') = 0 then
            (case axutil_strdup malloc (Some (localpart q)) of
               Inl _ \<Rightarrow> Inr (None, q)
             | Inr s \<Rightarrow> Inr (s, q\<lparr>qname_string := s\<rparr>))
          else if prefix q = None \<or> axutil_strcmp (prefix q) (Some '''') = 0 then
            res_bind (axutil_stracat malloc (Some (localpart q)) (Some ''|'')) (\<lambda>t1.
            res_bind (axutil_stracat malloc t1 (namespace_uri q)) (\<lambda>s.
              Inr (s, q\<lparr>qname_string := s\<rparr>)))
          else
            res_bind (axutil_stracat malloc (Some (localpart q)) (Some ''|'')) (\<lambda>t1.
            res_bind (axutil_stracat malloc t1 (namespace_uri q)) (\<lambda>t2.
            res_bind (axutil_stracat malloc t2 (Some ''|'')) (\<lambda>t3.
            res_bind (axutil_stracat malloc t3 (prefix q)) (\<lambda>s.
              Inr (s, q\<lparr>qname_string := s\<rparr>))))))"

text \<open>\<^verbatim>\<open>strchr(s, '|')\<close>: the text before the first bar and the one after it.\<close>

definition split_bar :: "string \<Rightarrow> string \<times> string option" where
  "split_bar s =
     (takeWhile (\<lambda>c. c \<noteq> CHR ''|'') s,
      case dropWhile (\<lambda>c. c \<noteq> CHR ''|'') s of [] \<Rightarrow> None | _ # t \<Rightarrow> Some t)"

definition axutil_qname_create_from_string ::
    "alloc \<Rightarrow> string option \<Rightarrow> axutil_qname option result" where
  "axutil_qname_create_from_string malloc qstring =
     (case qstring of
        None \<Rightarrow> Inr None
      | Some s \<Rightarrow>
          if axutil_strcmp qstring (Some '''') = 0 then Inr None
          else
            (case axutil_strdup malloc qstring of
               Inl _ \<Rightarrow> Inl UNDEFINED_BEHAVIOUR
             | Inr _ \<Rightarrow>
                 (case split_bar s of
                    (local, Some rest) \<Rightarrow>
                      (case split_bar rest of
                         (uri, Some pre) \<Rightarrow>
                           map_sum id Some (axutil_qname_create malloc (Some local) (Some uri) (Some pre))
                       | (uri, None) \<Rightarrow>
                           map_sum id Some (axutil_qname_create malloc (Some local) (Some rest) None))
                  | (local, None) \<Rightarrow>
                      map_sum id Some (axutil_qname_create malloc (Some s) None None))))"

section \<open>Equality and keys\<close>

lemma parts_differ_iff [simp]: "parts_differ s1 s2 \<longleftrightarrow> s1 \<noteq> s2"
  by (cases s1; cases s2) (auto simp: parts_differ_def)

lemma qname_equals_iff:
  "axutil_qname_equals q (Some q2) = Inr (namespace_uri q = namespace_uri q2 \<and> localpart q = localpart q2)"
  by (simp add: axutil_qname_equals_def)

text \<open>The string of a name, when its parts are known.\<close>

definition key_of :: "string \<Rightarrow> string option \<Rightarrow> string option \<Rightarrow> string" where
  "key_of l uri pre =
     (case uri of
        None \<Rightarrow> l
      | Some u \<Rightarrow>
          if u = '''' then l
          else (case pre of
                  None \<Rightarrow> l @ ''|'' @ u
                | Some p \<Rightarrow> if p = '''' then l @ ''|'' @ u else l @ ''|'' @ u @ ''|'' @ p))"

lemma to_string_key:
  assumes "mem_ok malloc" "qname_string q = None"
  shows "axutil_qname_to_string malloc q =
    (let s = key_of (localpart q) (namespace_uri q) (prefix q) in Inr (Some s, q\<lparr>qname_string := Some s\<rparr>))"
  using assms
  by (auto simp: axutil_qname_to_string_def key_of_def axutil_strcmp_eq_0 Let_def split: option.splits)

text \<open>
  Names in canonical form: no bar in the local part and the URI, no empty URI or prefix, and a prefix
  only beside a URI.
\<close>

definition canonical :: "string \<Rightarrow> string option \<Rightarrow> string option \<Rightarrow> bool" where
  "canonical l uri pre \<longleftrightarrow> l \<noteq> '''' \<and> CHR ''|'' \<notin> set l \<and>
     (case uri of None \<Rightarrow> pre = None
      | Some u \<Rightarrow> u \<noteq> '''' \<and> CHR ''|'' \<notin> set u \<and> pre \<noteq> Some '''')"

lemma split_bar_none: "CHR ''|'' \<notin> set s \<Longrightarrow> split_bar s = (s, None)"
  by (induction s) (auto simp: split_bar_def)

lemma split_bar_some: "CHR ''|'' \<notin> set s \<Longrightarrow> split_bar (s @ CHR ''|'' # t) = (s, Some t)"
  by (induction s) (auto simp: split_bar_def)

lemma qname_create_ok:
  "mem_ok malloc \<Longrightarrow> axutil_qname_create malloc (Some l) uri pre =
     Inr \<lparr>localpart = l, namespace_uri = uri, prefix = pre, qname_string = None, qname_ref = 1\<rparr>"
  by (simp add: axutil_qname_create_def mem_okD)

lemma create_from_key:
  assumes "mem_ok malloc" "canonical l uri pre"
  shows "axutil_qname_create_from_string malloc (Some (key_of l uri pre)) =
    Inr (Some \<lparr>localpart = l, namespace_uri = uri, prefix = pre, qname_string = None, qname_ref = 1\<rparr>)"
  using assms
  by (auto simp: axutil_qname_create_from_string_def key_of_def canonical_def qname_create_ok
      split_bar_none split_bar_some split: option.splits)

text \<open>
  The string of a name in canonical form, read back by
  \<^verbatim>\<open>axutil_qname_create_from_string\<close>, is a name with the same local part, URI and prefix.
\<close>

theorem qname_string_roundtrip:
  assumes "mem_ok malloc" "canonical l uri pre"
    and "axutil_qname_create malloc (Some l) uri pre = Inr q"
  shows "\<exists>s q'. axutil_qname_to_string malloc q = Inr (Some s, q') \<and>
    axutil_qname_create_from_string malloc (Some s) = Inr (Some q)"
  using assms create_from_key [OF assms(1,2)]
  by (auto simp: qname_create_ok to_string_key Let_def)

theorem qname_string_roundtrip_witness:
  "\<exists>s q' q. axutil_qname_create (\<lambda>n. True) (Some ''Id'') (Some ''urn:x'') (Some ''p'') = Inr q \<and>
    axutil_qname_to_string (\<lambda>n. True) q = Inr (Some s, q') \<and>
    axutil_qname_create_from_string (\<lambda>n. True) (Some s) = Inr (Some q)"
  using qname_string_roundtrip [of "\<lambda>n. True" "''Id''" "Some ''urn:x''" "Some ''p''"]
  by (simp add: canonical_def qname_create_ok)

text \<open>
  For names in canonical form, two names have the same string exactly when they are
  equal for \<^verbatim>\<open>axutil_qname_equals\<close> and have the same prefix: equal names with different prefixes
  are different keys of a table.
\<close>

theorem qname_key_iff_equal_and_prefix:
  assumes "mem_ok malloc" "canonical l1 u1 p1" "canonical l2 u2 p2"
    and "axutil_qname_create malloc (Some l1) u1 p1 = Inr q1"
    and "axutil_qname_create malloc (Some l2) u2 p2 = Inr q2"
  shows "map_sum id fst (axutil_qname_to_string malloc q1) = map_sum id fst (axutil_qname_to_string malloc q2) \<longleftrightarrow>
    axutil_qname_equals q1 (Some q2) = Inr True \<and> prefix q1 = prefix q2"
proof -
  have "l1 = l2 \<and> u1 = u2 \<and> p1 = p2" if k: "key_of l1 u1 p1 = key_of l2 u2 p2"
    using trans [OF create_from_key [OF assms(1,2), symmetric, unfolded k] create_from_key [OF assms(1,3)]]
    by simp
  then have "key_of l1 u1 p1 = key_of l2 u2 p2 \<longleftrightarrow> l1 = l2 \<and> u1 = u2 \<and> p1 = p2" by blast
  then show ?thesis
    using assms(1,4,5) by (auto simp: qname_create_ok to_string_key Let_def qname_equals_iff)
qed

theorem qname_key_iff_equal_and_prefix_witness:
  "\<exists>q1 q2. axutil_qname_create (\<lambda>n. True) (Some ''a'') (Some ''u'') (Some ''p'') = Inr q1 \<and>
    axutil_qname_create (\<lambda>n. True) (Some ''a'') (Some ''u'') None = Inr q2 \<and>
    axutil_qname_equals q1 (Some q2) = Inr True \<and>
    map_sum id fst (axutil_qname_to_string (\<lambda>n. True) q1) \<noteq> map_sum id fst (axutil_qname_to_string (\<lambda>n. True) q2)"
  using qname_key_iff_equal_and_prefix [of "\<lambda>n. True" "''a''" "Some ''u''" "Some ''p''" "''a''" "Some ''u''" None]
  by (simp add: canonical_def qname_create_ok qname_equals_iff)

end
