(* ===== verification/Steps.thy ===== *)
theory Steps
  imports Array_List Hash_Map
begin

text \<open>
  Steps of the C program that may fail half way: a step returns its status and the changed state. Loops
  over lists and hash tables with a step as their body, and what they keep.
\<close>

section \<open>Steps and loops\<close>

type_synonym 'w step = "'w \<Rightarrow> unit result \<times> 'w"

definition skip :: "'w step" where
  "skip w = (Inr (), w)"

definition fail :: "axis2_error \<Rightarrow> 'w step" where
  "fail e w = (Inl e, w)"

definition andthen :: "'w step \<Rightarrow> 'w step \<Rightarrow> 'w step" where
  "andthen f g w = (case f w of (Inl e, w') \<Rightarrow> (Inl e, w') | (Inr _, w') \<Rightarrow> g w')"

text \<open>A loop that returns on the first failure.\<close>

fun each :: "('x \<Rightarrow> 'w step) \<Rightarrow> 'x list \<Rightarrow> 'w step" where
  "each f [] = skip"
| "each f (x # xs) = andthen (f x) (each f xs)"

text \<open>
  The elements that a loop \<^verbatim>\<open>for (i = 0; i < axutil_array_list_size(l); i++)\<close> gets; a NULL list has
  no elements.
\<close>

definition items :: "'a array_list option \<Rightarrow> 'a option list" where
  "items p = map (\<lambda>i. ret_ptr (axutil_array_list_get p (int i))) [0..<nat (axutil_array_list_size p)]"

text \<open>
  A loop over a hash table with a step for each value; the loop does not run when the iterator
  cannot be allocated.
\<close>

definition foreach_body ::
    "('v option \<Rightarrow> 'w step) \<Rightarrow> 'v hash_entry \<Rightarrow> unit result \<times> 'w \<Rightarrow> bool \<times> unit result \<times> 'w" where
  "foreach_body f e s = (case f (e_val e) (snd s) of (r, w) \<Rightarrow> (isl r, r, w))"

definition foreach :: "alloc \<Rightarrow> 'v axutil_hash \<Rightarrow> ('v option \<Rightarrow> 'w step) \<Rightarrow> 'w step" where
  "foreach malloc ht f w =
     (case axutil_hash_first_impl malloc (Some ht) False of
        Inl e \<Rightarrow> if e = NO_MEMORY then (Inr (), w) else (Inl e, w)
      | Inr hi \<Rightarrow>
          (case hash_foreach ht (foreach_body f) hi (Inr (), w) of
             Inl e \<Rightarrow> (Inl e, w)
           | Inr s \<Rightarrow> s))"

lemma items_spec: "al_inv l \<Longrightarrow> items (Some l) = al_list l"
proof -
  assume "al_inv l"
  from al.get_all [OF this] have "map (ret_ptr \<circ> (\<lambda>i. axutil_array_list_get (Some l) (int i)))
      [0..<nat (axutil_array_list_size (Some l))] = map (ret_ptr \<circ> Inr) (al_list l)"
    by (metis list.map_comp)
  then show ?thesis by (simp add: items_def o_def)
qed

lemma items_None [simp]: "items None = []"
  by (simp add: items_def axutil_array_list_size_def)

section \<open>Loops of steps\<close>

text \<open>The values of a table in the order in which loops visit them.\<close>

definition hash_values :: "'v axutil_hash \<Rightarrow> 'v list" where
  "hash_values ht = map (the \<circ> e_val) (entries ht)"

lemma each_list_loop:
  assumes "\<forall>e \<in> set es. e_val e \<noteq> None"
  shows "list_loop (foreach_body f) es (Inr (), w) = each (\<lambda>x. f (Some x)) (map (the \<circ> e_val) es) w"
  using assms
proof (induction es arbitrary: w)
  case (Cons e es)
  obtain r w' where f: "f (e_val e) w = (r, w')" by force
  with Cons show ?case
    by (cases r) (auto simp: foreach_body_def andthen_def)
qed (simp add: skip_def)

lemma hash_loop:
  assumes "hash_inv ht" "m 32"
  shows "\<exists>hi. axutil_hash_first_impl m (Some ht) False = Inr hi \<and>
    hash_foreach ht body hi s = Inr (list_loop body (entries ht) s)"
proof -
  obtain A where A: "h_array ht = Some A" "entries ht = concat A" "length A = unat (h_max ht) + 1"
    using assms(1) by (auto elim: hash_invE)
  obtain p where "axutil_hash_first_impl m (Some ht) False = Inr p"
    "(case p of None \<Rightarrow> [] | Some hi \<Rightarrow> axutil_hash_this hi # hi_rest ht hi) = concat A"
    using first_spec [OF A(1,3)] assms(2) by blast
  with foreach_spec [OF A(1,3), of body p s] A(2) show ?thesis by simp
qed

lemma entries_Some: "hash_inv ht \<Longrightarrow> \<forall>e \<in> set (entries ht). e_val e \<noteq> None"
proof
  fix e assume "hash_inv ht" "e \<in> set (entries ht)"
  then obtain A i where "buckets_ok (h_func ht) (h_max ht) A" "i < length A" "e \<in> set (A ! i)"
    by (auto elim!: hash_invE simp: in_set_conv_nth [of _ "_ :: _ list list"])
  from buckets_entry [OF this] show "e_val e \<noteq> None" by (simp add: entry_ok_def)
qed

lemma foreach_each:
  assumes "hash_inv ht" "m 32"
  shows "foreach m ht f w = each (\<lambda>x. f (Some x)) (hash_values ht) w"
  using hash_loop [of ht m "foreach_body f" "(Inr (), w)", OF assms] each_list_loop [OF entries_Some [OF assms(1)]]
  by (auto simp: foreach_def hash_values_def)

lemma values_abs:
  assumes "hash_inv ht"
  shows "p \<in> set (hash_values ht) \<longleftrightarrow> (\<exists>k. hash_abs ht k = Some p)"
proof -
  obtain A where A: "h_array ht = Some A" "buckets_ok (h_func ht) (h_max ht) A" "entries ht = concat A"
    using assms by (auto elim: hash_invE)
  then have d: "distinct (map entry_key (entries ht))" by (simp add: buckets_ok_def)
  have "(\<exists>k. hash_abs ht k = Some p) \<longleftrightarrow> (\<exists>e \<in> set (entries ht). e_val e = Some p)"
    using entry_map_in [OF d] entry_map_notin [of _ "entries ht"] unfolding hash_abs_def
    by (metis imageE option.distinct(1))
  then show ?thesis
    using entries_Some [OF assms] by (auto simp: hash_values_def image_iff) (metis option.sel)
qed

text \<open>A relation that every step keeps holds between the ends of a loop, and around each of its steps.\<close>

lemma each_rel:
  assumes "reflp R" "transp R" "\<And>x w. x \<in> set xs \<Longrightarrow> R w (snd (f x w))"
  shows "R w (snd (each f xs w))"
  using assms(3)
proof (induction xs arbitrary: w)
  case Nil
  then show ?case using assms(1) by (simp add: skip_def reflpD)
next
  case (Cons x xs)
  obtain r w' where f: "f x w = (r, w')" by force
  have "R w w'" using Cons.prems [of x w] f by simp
  moreover have "R w' (snd (each f xs w'))" using Cons by simp
  ultimately show ?case
    using f assms(2) by (auto simp: andthen_def split: sum.splits dest: transpD)
qed

lemma each_step:
  assumes "reflp R" "transp R" "\<And>x w. x \<in> set xs \<Longrightarrow> R w (snd (f x w))"
    and "each f xs w = (Inr (), w')" "x \<in> set xs"
  shows "\<exists>u v. R w u \<and> f x u = (Inr (), v) \<and> R v w'"
  using assms(3-5)
proof (induction xs arbitrary: w)
  case (Cons y ys)
  from Cons.prems(2) obtain v where v: "f y w = (Inr (), v)" "each f ys v = (Inr (), w')"
    by (auto simp: andthen_def split: prod.splits sum.splits)
  have "R v w'" using each_rel [OF assms(1,2), of ys f v] Cons.prems(1) v(2) by (metis list.set_intros(2) snd_conv)
  have "R w v" using Cons.prems(1) [of y w] v(1) by simp
  show ?case
  proof (cases "x = y")
    case True
    then show ?thesis using v(1) \<open>R v w'\<close> assms(1) by (blast dest: reflpD)
  next
    case False
    then obtain u z where "R v u" "f x u = (Inr (), z)" "R z w'"
      using Cons.IH [OF _ v(2)] Cons.prems by auto
    with \<open>R w v\<close> assms(2) show ?thesis by (blast dest: transpD)
  qed
qed simp

end
