(* ===== verification/Phase_Resolver.thy ===== *)
theory Phase_Resolver
  imports Msg_Ctx Qname Steps
begin

text \<open>
  Module engagement: \<^verbatim>\<open>src/core/phaseresolver/phase_holder.c\<close> and \<^verbatim>\<open>phase_resolver.c\<close>, with the operations
  on flows, operations, services and the configuration they call
  (\<^verbatim>\<open>src/core/description/flow.c\<close>, \<^verbatim>\<open>op.c\<close>, \<^verbatim>\<open>svc.c\<close>, \<^verbatim>\<open>svc_grp.c\<close>, \<^verbatim>\<open>src/core/engine/conf.c\<close>). The handlers
  of a module go into the phases named by their rules: the system phases of the
  configuration, or the phases of the operations' flows.

  Operations, services and groups are shared (a module's operation belongs to every service), so they
  live in stores addressed by numbers; a phase belongs to one flow and is kept by value. A step
  returns its status and the changed world, also where it fails half way.
\<close>

section \<open>Flows of modules\<close>

text \<open>
  \<^verbatim>\<open>struct axis2_flow\<close>: the handler descriptions of a flow of a module, as addresses of the handler store.
\<close>

record axis2_flow =
  flow_list :: "nat array_list option"

definition axis2_flow_create :: "alloc \<Rightarrow> axis2_flow result" where
  "axis2_flow_create malloc =
     (if \<not> malloc sizeof_ptr then Inl NO_MEMORY
      else
        (case axutil_array_list_create malloc 20 of
           Inl _ \<Rightarrow> Inl NO_MEMORY
         | Inr l \<Rightarrow> Inr \<lparr>flow_list = Some l\<rparr>))"

definition axis2_flow_add_handler :: "alloc \<Rightarrow> axis2_flow \<Rightarrow> ptr \<Rightarrow> axis2_flow result" where
  "axis2_flow_add_handler malloc flow handler =
     (case handler of
        None \<Rightarrow> Inl INVALID_NULL_PARAM
      | Some _ \<Rightarrow>
          res_bind (case flow_list flow of
                      Some l \<Rightarrow> Inr l
                    | None \<Rightarrow> (case axutil_array_list_create malloc 0 of
                                 Inl _ \<Rightarrow> Inl NO_MEMORY | Inr l \<Rightarrow> Inr l))
            (\<lambda>l. res_bind (axutil_array_list_add malloc (Some l) handler)
              (\<lambda>l'. Inr \<lparr>flow_list = Some l'\<rparr>)))"

definition axis2_flow_get_handler :: "axis2_flow \<Rightarrow> int \<Rightarrow> ptr" where
  "axis2_flow_get_handler flow index = ret_ptr (axutil_array_list_get (flow_list flow) index)"

definition axis2_flow_get_handler_count :: "axis2_flow \<Rightarrow> int" where
  "axis2_flow_get_handler_count flow = axutil_array_list_size (flow_list flow)"

text \<open>The handlers the loops over \<^verbatim>\<open>j < handler_count\<close> get.\<close>

definition flow_handlers :: "axis2_flow \<Rightarrow> ptr list" where
  "flow_handlers flow =
     map (\<lambda>j. axis2_flow_get_handler flow (int j)) [0..<nat (axis2_flow_get_handler_count flow)]"

text \<open>
  \<^verbatim>\<open>struct axis2_module_desc\<close> with the flows of its \<^verbatim>\<open>axis2_flow_container\<close>; its operations are
  addresses.
\<close>

datatype flow_type = AXIS2_IN_FLOW | AXIS2_OUT_FLOW | AXIS2_FAULT_IN_FLOW | AXIS2_FAULT_OUT_FLOW

text \<open>The loops \<^verbatim>\<open>for (type = 1; type < 5; type++)\<close>.\<close>

definition flow_types :: "flow_type list" where
  "flow_types = [AXIS2_IN_FLOW, AXIS2_OUT_FLOW, AXIS2_FAULT_IN_FLOW, AXIS2_FAULT_OUT_FLOW]"

record axis2_module_desc =
  md_qname :: axutil_qname
  md_in_flow :: "axis2_flow option"
  md_out_flow :: "axis2_flow option"
  md_fault_in_flow :: "axis2_flow option"
  md_fault_out_flow :: "axis2_flow option"
  md_ops :: "nat axutil_hash"

text \<open>The \<^verbatim>\<open>switch (type)\<close> on the flow of the module.\<close>

definition module_flow :: "axis2_module_desc \<Rightarrow> flow_type \<Rightarrow> axis2_flow option" where
  "module_flow md type =
     (case type of
        AXIS2_IN_FLOW \<Rightarrow> md_in_flow md
      | AXIS2_OUT_FLOW \<Rightarrow> md_out_flow md
      | AXIS2_FAULT_IN_FLOW \<Rightarrow> md_fault_in_flow md
      | AXIS2_FAULT_OUT_FLOW \<Rightarrow> md_fault_out_flow md)"

section \<open>Descriptions\<close>

text \<open>
  The operation with the fields engagement uses; \<open>op_engaged_module_list\<close> holds addresses of module
  descriptions and is NULL until the first one is added. A parameter is a name with a value.
\<close>

record op_desc = axis2_op +
  op_parent :: ptr
  op_engaged_module_list :: "nat array_list option"
  op_wsamapping_list :: "string list"
  op_from_module :: bool
  op_params :: "(string \<times> string) list"

record axis2_svc =
  op_alias_map :: "nat axutil_hash"
  op_action_map :: "nat axutil_hash"
  svc_engaged_module_list :: "nat array_list"
  svc_module_list :: "axutil_qname array_list"
  svc_parent :: ptr

record axis2_svc_grp =
  grp_module_qname_list :: "axutil_qname array_list"

record conf_desc = axis2_conf +
  conf_in_fault_phases :: "flow option"
  conf_engaged_module_list :: "axutil_qname array_list"
  conf_all_modules :: "nat axutil_hash"
  conf_name_to_version_map :: "string axutil_hash option"
  conf_all_svcs :: "nat axutil_hash option"

record world =
  w_op :: "nat \<Rightarrow> op_desc"
  w_svc :: "nat \<Rightarrow> axis2_svc"
  w_grp :: "nat \<Rightarrow> axis2_svc_grp"
  w_module :: "nat \<Rightarrow> axis2_module_desc"
  w_conf :: conf_desc

text \<open>
  What the functions find in their environment: the handlers and their descriptions, which engagement
  only reads, the outcome of allocations, the status code \<^verbatim>\<open>env->error\<close> holds from earlier calls,
  and the message receiver that \<^verbatim>\<open>axis2_desc_builder_load_default_msg_recv\<close> loads.
\<close>

record resolver_env =
  re_malloc :: alloc
  re_store :: handler_store
  re_error_status :: axis2_status
  re_default_msg_recv :: ptr

definition flow_msg :: "flow_type \<Rightarrow> msg_key" where
  "flow_msg type =
     (case type of
        AXIS2_IN_FLOW \<Rightarrow> AXIS2_MSG_IN
      | AXIS2_OUT_FLOW \<Rightarrow> AXIS2_MSG_OUT
      | AXIS2_FAULT_IN_FLOW \<Rightarrow> AXIS2_MSG_IN_FAULT
      | AXIS2_FAULT_OUT_FLOW \<Rightarrow> AXIS2_MSG_OUT_FAULT)"

text \<open>The \<^verbatim>\<open>switch (type)\<close> on the flow of the operation, and the flow changed through its pointer.\<close>

definition op_flow :: "'e axis2_op_scheme \<Rightarrow> flow_type \<Rightarrow> flow option" where
  "op_flow op type =
     (case type of
        AXIS2_IN_FLOW \<Rightarrow> axis2_op_get_in_flow op
      | AXIS2_OUT_FLOW \<Rightarrow> axis2_op_get_out_flow op
      | AXIS2_FAULT_IN_FLOW \<Rightarrow> axis2_op_get_fault_in_flow op
      | AXIS2_FAULT_OUT_FLOW \<Rightarrow> axis2_op_get_fault_out_flow op)"

definition set_op_flow :: "'e axis2_op_scheme \<Rightarrow> flow_type \<Rightarrow> flow \<Rightarrow> 'e axis2_op_scheme" where
  "set_op_flow op type fl =
     op\<lparr>op_base := map_option (\<lambda>base. base(flow_msg type :=
        map_option (\<lambda>m. m\<lparr>msg_flow := Some fl\<rparr>) (base (flow_msg type)))) (op_base op)\<rparr>"

text \<open>The \<^verbatim>\<open>switch (type)\<close> on the phases of the configuration.\<close>

definition conf_flow :: "conf_desc \<Rightarrow> flow_type \<Rightarrow> flow option" where
  "conf_flow c type =
     (case type of
        AXIS2_IN_FLOW \<Rightarrow> axis2_conf_get_in_phases_upto_and_including_post_dispatch c
      | AXIS2_OUT_FLOW \<Rightarrow> conf_out_phases c
      | AXIS2_FAULT_IN_FLOW \<Rightarrow> conf_in_fault_phases c
      | AXIS2_FAULT_OUT_FLOW \<Rightarrow> axis2_conf_get_out_fault_flow c)"

definition set_conf_flow :: "conf_desc \<Rightarrow> flow_type \<Rightarrow> flow \<Rightarrow> conf_desc" where
  "set_conf_flow c type fl =
     (case type of
        AXIS2_IN_FLOW \<Rightarrow> c\<lparr>conf_in_phases := Some fl\<rparr>
      | AXIS2_OUT_FLOW \<Rightarrow> c\<lparr>conf_out_phases := Some fl\<rparr>
      | AXIS2_FAULT_IN_FLOW \<Rightarrow> c\<lparr>conf_in_fault_phases := Some fl\<rparr>
      | AXIS2_FAULT_OUT_FLOW \<Rightarrow> c\<lparr>conf_out_fault_phases := Some fl\<rparr>)"

section \<open>Phase holders\<close>

text \<open>
  A phase holder is a pointer to the list of phases it works on, here the list itself. The search loop of
  \<^verbatim>\<open>axis2_phase_holder_is_phase_exist\<close> and \<^verbatim>\<open>axis2_phase_holder_get_phase\<close>: the index of the first
  phase of that name. The name of a NULL phase is undefined.
\<close>

definition sizeof_phase_holder :: nat where "sizeof_phase_holder = 8"

function holder_loop :: "flow \<Rightarrow> string \<Rightarrow> int \<Rightarrow> int option result" where
  "holder_loop phases name i =
     (if i < axutil_array_list_size (Some phases) then
        (case ret_ptr (axutil_array_list_get (Some phases) i) of
           None \<Rightarrow> Inl UNDEFINED_BEHAVIOUR
         | Some ph \<Rightarrow>
             if axutil_strcmp (axis2_phase_get_name ph) (Some name) = 0 then Inr (Some i)
             else holder_loop phases name (i + 1))
      else Inr None)"
  by pat_completeness auto
termination
  by (relation "measure (\<lambda>(phases, name, i). nat (axutil_array_list_size (Some phases) - i))") auto

declare holder_loop.simps [simp del]

definition axis2_phase_holder_is_phase_exist :: "flow \<Rightarrow> string option \<Rightarrow> bool result" where
  "axis2_phase_holder_is_phase_exist phases name =
     (case name of
        None \<Rightarrow> Inr False
      | Some n \<Rightarrow> res_bind (holder_loop phases n 0) (\<lambda>p. Inr (p \<noteq> None)))"

definition axis2_phase_holder_get_phase :: "flow \<Rightarrow> string option \<Rightarrow> int option result" where
  "axis2_phase_holder_get_phase phases name =
     (case name of None \<Rightarrow> Inl INVALID_NULL_PARAM | Some n \<Rightarrow> holder_loop phases n 0)"

text \<open>A phase changed through its pointer in the list.\<close>

definition set_phase :: "flow \<Rightarrow> int \<Rightarrow> axis2_phase \<Rightarrow> flow" where
  "set_phase phases i ph = phases\<lparr>al_data := (al_data phases)[nat i := Some ph]\<rparr>"

text \<open>
  The common shape of \<^verbatim>\<open>axis2_phase_holder_add_handler\<close> and \<^verbatim>\<open>axis2_phase_holder_remove_handler\<close>, with
  what is done to the phase found.
\<close>

definition holder_apply ::
    "(axis2_phase \<Rightarrow> axis2_phase result) \<Rightarrow> handler_store \<Rightarrow> flow \<Rightarrow> nat \<Rightarrow> flow result" where
  "holder_apply f hs phases desc =
     (case axis2_handler_desc_get_rules hs desc of
        None \<Rightarrow> Inl UNDEFINED_BEHAVIOUR
      | Some rules \<Rightarrow>
          let name = axis2_phase_rule_get_name rules in
          res_bind (axis2_phase_holder_is_phase_exist phases name) (\<lambda>exist.
            if \<not> exist then Inl INVALID_PHASE
            else
              res_bind (axis2_phase_holder_get_phase phases name) (\<lambda>p.
                (case p of
                   None \<Rightarrow> Inl UNDEFINED_BEHAVIOUR
                 | Some i \<Rightarrow>
                     (case ret_ptr (axutil_array_list_get (Some phases) i) of
                        None \<Rightarrow> Inl UNDEFINED_BEHAVIOUR
                      | Some ph \<Rightarrow> res_bind (f ph) (\<lambda>ph'. Inr (set_phase phases i ph')))))))"

definition axis2_phase_holder_add_handler ::
    "alloc \<Rightarrow> handler_store \<Rightarrow> flow \<Rightarrow> nat \<Rightarrow> flow result" where
  "axis2_phase_holder_add_handler m hs phases desc =
     holder_apply (\<lambda>ph. axis2_phase_add_handler_desc m hs ph desc) hs phases desc"

definition axis2_phase_holder_remove_handler ::
    "handler_store \<Rightarrow> flow \<Rightarrow> nat \<Rightarrow> flow result" where
  "axis2_phase_holder_remove_handler hs phases desc =
     holder_apply (\<lambda>ph. axis2_phase_remove_handler_desc hs ph desc) hs phases desc"

section \<open>Engaging a module to an operation\<close>

definition AXIS2_PHASE_TRANSPORT_IN :: string where "AXIS2_PHASE_TRANSPORT_IN = ''Transport''"
definition AXIS2_PHASE_PRE_DISPATCH :: string where "AXIS2_PHASE_PRE_DISPATCH = ''PreDispatch''"
definition AXIS2_PHASE_DISPATCH :: string where "AXIS2_PHASE_DISPATCH = ''Dispatch''"
definition AXIS2_PHASE_POST_DISPATCH :: string where "AXIS2_PHASE_POST_DISPATCH = ''PostDispatch''"

definition is_system_phase :: "string option \<Rightarrow> bool" where
  "is_system_phase name \<longleftrightarrow>
     axutil_strcmp (Some AXIS2_PHASE_TRANSPORT_IN) name = 0 \<or>
     axutil_strcmp (Some AXIS2_PHASE_DISPATCH) name = 0 \<or>
     axutil_strcmp (Some AXIS2_PHASE_POST_DISPATCH) name = 0 \<or>
     axutil_strcmp (Some AXIS2_PHASE_PRE_DISPATCH) name = 0"

text \<open>Work on the flow of an operation or of the configuration, through its pointer.\<close>

definition on_op_flow :: "nat \<Rightarrow> flow_type \<Rightarrow> (flow \<Rightarrow> flow result) \<Rightarrow> world step" where
  "on_op_flow op type f w =
     (case op_flow (w_op w op) type of
        None \<Rightarrow> (Inl UNDEFINED_BEHAVIOUR, w)
      | Some fl \<Rightarrow>
          (case f fl of
             Inl e \<Rightarrow> (Inl e, w)
           | Inr fl' \<Rightarrow> (Inr (), w\<lparr>w_op := (w_op w)(op := set_op_flow (w_op w op) type fl')\<rparr>)))"

definition on_conf_flow :: "flow_type \<Rightarrow> (flow \<Rightarrow> flow result) \<Rightarrow> world step" where
  "on_conf_flow type f w =
     (case conf_flow (w_conf w) type of
        None \<Rightarrow> (Inl UNDEFINED_BEHAVIOUR, w)
      | Some fl \<Rightarrow>
          (case f fl of
             Inl e \<Rightarrow> (Inl e, w)
           | Inr fl' \<Rightarrow> (Inr (), w\<lparr>w_conf := set_conf_flow (w_conf w) type fl'\<rparr>)))"

text \<open>
  The body of the loops over the handlers of a module's flow in \<^verbatim>\<open>axis2_phase_resolver_engage_module_to_op\<close>
  and \<^verbatim>\<open>axis2_phase_resolver_disengage_module_from_op\<close>, which differ in what they do with the phase
  holder (\<open>act\<close>). A handler for a system phase goes to the in phases of the configuration,
  whatever the flow.
\<close>

definition handle_in_op ::
    "resolver_env \<Rightarrow> (flow \<Rightarrow> nat \<Rightarrow> flow result) \<Rightarrow> nat \<Rightarrow> flow_type \<Rightarrow> ptr \<Rightarrow> world step" where
  "handle_in_op env act op type metadata =
     (case metadata of
        None \<Rightarrow> fail UNDEFINED_BEHAVIOUR
      | Some desc \<Rightarrow>
          (case axis2_handler_desc_get_rules (re_store env) desc of
             None \<Rightarrow> fail UNDEFINED_BEHAVIOUR
           | Some rules \<Rightarrow>
               if \<not> is_system_phase (axis2_phase_rule_get_name rules)
               then on_op_flow op type (\<lambda>fl. act fl desc)
               else if \<not> re_malloc env sizeof_phase_holder then fail UNDEFINED_BEHAVIOUR
               else on_conf_flow AXIS2_IN_FLOW (\<lambda>fl. act fl desc)))"

text \<open>The loop over the flow types: a flow is left alone when the operation or the module lacks it.\<close>

definition handle_op_flow ::
    "resolver_env \<Rightarrow> (flow \<Rightarrow> nat \<Rightarrow> flow result) \<Rightarrow> nat \<Rightarrow> axis2_module_desc \<Rightarrow> flow_type \<Rightarrow> world step" where
  "handle_op_flow env act op md type w =
     (case (op_flow (w_op w op) type, module_flow md type) of
        (None, _) \<Rightarrow> skip w
      | (Some _, None) \<Rightarrow> if re_malloc env sizeof_phase_holder then skip w else fail UNDEFINED_BEHAVIOUR w
      | (Some _, Some flow) \<Rightarrow>
          if re_malloc env sizeof_phase_holder
          then each (handle_in_op env act op type) (flow_handlers flow) w
          else fail UNDEFINED_BEHAVIOUR w)"

definition axis2_phase_resolver_engage_module_to_op ::
    "resolver_env \<Rightarrow> ptr \<Rightarrow> axis2_module_desc option \<Rightarrow> world step" where
  "axis2_phase_resolver_engage_module_to_op env axis_op module_desc =
     (case (axis_op, module_desc) of
        (Some op, Some md) \<Rightarrow>
          each (handle_op_flow env (axis2_phase_holder_add_handler (re_malloc env) (re_store env)) op md)
            flow_types
      | _ \<Rightarrow> fail INVALID_NULL_PARAM)"

definition axis2_phase_resolver_disengage_module_from_op ::
    "resolver_env \<Rightarrow> ptr \<Rightarrow> axis2_module_desc option \<Rightarrow> world step" where
  "axis2_phase_resolver_disengage_module_from_op env axis_op module_desc =
     (case (axis_op, module_desc) of
        (Some op, Some md) \<Rightarrow>
          each (handle_op_flow env (axis2_phase_holder_remove_handler (re_store env)) op md) flow_types
      | _ \<Rightarrow> fail INVALID_NULL_PARAM)"

section \<open>Engaged modules of an operation\<close>

text \<open>
  The loops over \<^verbatim>\<open>engaged_module_list\<close> that compare the names of modules: the index at which they
  find the module \<open>q\<close>; \<open>null\<close> is what they do at a NULL element.
\<close>

fun engaged_loop :: "axis2_error \<Rightarrow> world \<Rightarrow> axutil_qname \<Rightarrow> ptr list \<Rightarrow> nat \<Rightarrow> nat option result" where
  "engaged_loop null w q [] i = Inr None"
| "engaged_loop null w q (m # ms) i =
     (case m of
        None \<Rightarrow> Inl null
      | Some md \<Rightarrow>
          if axutil_qname_equals q (Some (md_qname (w_module w md))) = Inr True then Inr (Some i)
          else engaged_loop null w q ms (Suc i))"

definition engaged_index :: "axis2_error \<Rightarrow> world \<Rightarrow> nat \<Rightarrow> nat \<Rightarrow> nat option result" where
  "engaged_index null w op md =
     engaged_loop null w (md_qname (w_module w md)) (items (op_engaged_module_list (w_op w op))) 0"

definition set_engaged_list :: "nat \<Rightarrow> nat array_list \<Rightarrow> world \<Rightarrow> world" where
  "set_engaged_list op l w =
     w\<lparr>w_op := (w_op w)(op := (w_op w op)\<lparr>op_engaged_module_list := Some l\<rparr>)\<rparr>"

text \<open>
  When the list cannot be created, the addition to NULL fails.
\<close>

definition axis2_op_add_to_engaged_module_list :: "resolver_env \<Rightarrow> nat \<Rightarrow> nat \<Rightarrow> world step" where
  "axis2_op_add_to_engaged_module_list env op md w =
     (let list = (case op_engaged_module_list (w_op w op) of
                    Some l \<Rightarrow> Some l
                  | None \<Rightarrow> (case axutil_array_list_create (re_malloc env) 0 of
                               Inl _ \<Rightarrow> None | Inr l \<Rightarrow> Some l));
          w1 = (case list of None \<Rightarrow> w | Some l \<Rightarrow> set_engaged_list op l w)
      in case engaged_index UNDEFINED_BEHAVIOUR w1 op md of
           Inl e \<Rightarrow> (Inl e, w1)
         | Inr (Some _) \<Rightarrow> (Inr (), w1)
         | Inr None \<Rightarrow>
             (case axutil_array_list_add (re_malloc env) list (Some md) of
                Inl e \<Rightarrow> (Inl e, w1)
              | Inr l' \<Rightarrow> (Inr (), set_engaged_list op l' w1)))"

definition axis2_op_remove_from_engaged_module_list :: "nat \<Rightarrow> nat \<Rightarrow> world step" where
  "axis2_op_remove_from_engaged_module_list op md w =
     (case op_engaged_module_list (w_op w op) of
        None \<Rightarrow> (Inl INVALID_NULL_PARAM, w)
      | Some l \<Rightarrow>
          (case engaged_index UNDEFINED_BEHAVIOUR w op md of
             Inl e \<Rightarrow> (Inl e, w)
           | Inr None \<Rightarrow> (Inr (), w)
           | Inr (Some i) \<Rightarrow>
               (case axutil_array_list_remove (Some l) (int i) of
                  Inl _ \<Rightarrow> (Inr (), w)
                | Inr (_, l') \<Rightarrow> (Inr (), set_engaged_list op l' w))))"

text \<open>
  \<^verbatim>\<open>axis2_op_engage_module\<close>: the flag \<^verbatim>\<open>need_to_add\<close> is never set, so the module is never added to the
  list, and a failure of the engagement is ignored.
\<close>

definition sizeof_phase_resolver :: nat where "sizeof_phase_resolver = 16"

definition axis2_op_engage_module :: "resolver_env \<Rightarrow> nat \<Rightarrow> nat option \<Rightarrow> world step" where
  "axis2_op_engage_module env op moduleref w =
     (case moduleref of
        None \<Rightarrow> (Inl INVALID_NULL_PARAM, w)
      | Some md \<Rightarrow>
          (case engaged_index FAILURE_STATUS w op md of
             Inl e \<Rightarrow> (Inl e, w)
           | Inr (Some _) \<Rightarrow> (Inl FAILURE_STATUS, w)
           | Inr None \<Rightarrow>
               if \<not> re_malloc env sizeof_phase_resolver then (Inl UNDEFINED_BEHAVIOUR, w)
               else (Inr (), snd (axis2_phase_resolver_engage_module_to_op env (Some op)
                                    (Some (w_module w md)) w))))"

section \<open>System phases\<close>

text \<open>A handler of a module; without rules or phase name it is refused.\<close>

definition named_phase :: "handler_store \<Rightarrow> ptr \<Rightarrow> (nat \<Rightarrow> string \<Rightarrow> world step) \<Rightarrow> world step" where
  "named_phase hs metadata f =
     (case metadata of
        None \<Rightarrow> fail UNDEFINED_BEHAVIOUR
      | Some desc \<Rightarrow>
          (case Option.bind (axis2_handler_desc_get_rules hs desc) axis2_phase_rule_get_name of
             None \<Rightarrow> fail FAILURE_STATUS
           | Some name \<Rightarrow> f desc name))"

definition system_handler :: "resolver_env \<Rightarrow> flow_type \<Rightarrow> ptr \<Rightarrow> world step" where
  "system_handler env type metadata =
     named_phase (re_store env) metadata (\<lambda>desc name.
       if is_system_phase (Some name)
       then on_conf_flow type (\<lambda>fl. axis2_phase_holder_add_handler (re_malloc env) (re_store env) fl desc)
       else skip)"

definition system_flow :: "resolver_env \<Rightarrow> axis2_module_desc \<Rightarrow> flow_type \<Rightarrow> world step" where
  "system_flow env md type w =
     (case conf_flow (w_conf w) type of
        None \<Rightarrow> skip w
      | Some _ \<Rightarrow>
          if \<not> re_malloc env sizeof_phase_holder then fail UNDEFINED_BEHAVIOUR w
          else
            (case module_flow md type of
               None \<Rightarrow> skip w
             | Some flow \<Rightarrow> each (system_handler env type) (flow_handlers flow) w))"

definition axis2_phase_resolver_add_module_handlers_to_system_defined_phases ::
    "resolver_env \<Rightarrow> axis2_module_desc \<Rightarrow> world step" where
  "axis2_phase_resolver_add_module_handlers_to_system_defined_phases env md =
     each (system_flow env md) flow_types"

section \<open>User phases of the operations of a service\<close>

definition user_handler :: "resolver_env \<Rightarrow> nat \<Rightarrow> flow_type \<Rightarrow> ptr \<Rightarrow> world step" where
  "user_handler env op type metadata =
     named_phase (re_store env) metadata (\<lambda>desc name w.
       if is_system_phase (Some name) \<or> op_flow (w_op w op) type = None then skip w
       else on_op_flow op type
         (\<lambda>fl. axis2_phase_holder_add_handler (re_malloc env) (re_store env) fl desc) w)"

definition user_flow :: "resolver_env \<Rightarrow> nat \<Rightarrow> axis2_module_desc \<Rightarrow> flow_type \<Rightarrow> world step" where
  "user_flow env op md type w =
     (if op_flow (w_op w op) type \<noteq> None \<and> \<not> re_malloc env sizeof_phase_holder
      then fail UNDEFINED_BEHAVIOUR w
      else
        (case module_flow md type of
           None \<Rightarrow> skip w
         | Some flow \<Rightarrow> each (user_handler env op type) (flow_handlers flow) w))"

text \<open>What is done for one operation to which the module is not engaged yet.\<close>

definition engage_user_phases :: "resolver_env \<Rightarrow> nat \<Rightarrow> nat \<Rightarrow> world step" where
  "engage_user_phases env md op w =
     andthen (each (user_flow env op (w_module w md)) flow_types)
       (axis2_op_add_to_engaged_module_list env op md) w"

text \<open>
  The body of the loop over the operations of the service. The flag \<^verbatim>\<open>engaged\<close> is declared
  outside of the loop and is part of its state: once set, it stays.
\<close>

definition user_op_body ::
    "resolver_env \<Rightarrow> nat \<Rightarrow> ptr \<Rightarrow> (bool \<times> world) step" where
  "user_op_body env md op s =
     (case op of
        None \<Rightarrow> fail UNDEFINED_BEHAVIOUR s
      | Some p \<Rightarrow>
          (case engaged_index UNDEFINED_BEHAVIOUR (snd s) p md of
             Inl e \<Rightarrow> (Inl e, s)
           | Inr i \<Rightarrow>
               if fst s \<or> i \<noteq> None then (Inr (), True, snd s)
               else (case engage_user_phases env md p (snd s) of (r, w) \<Rightarrow> (r, False, w))))"

definition axis2_phase_resolver_add_module_handlers_to_user_defined_phases ::
    "resolver_env \<Rightarrow> ptr \<Rightarrow> ptr \<Rightarrow> world step" where
  "axis2_phase_resolver_add_module_handlers_to_user_defined_phases env svc module_desc w =
     (case (svc, module_desc) of
        (Some s, Some md) \<Rightarrow>
          (case foreach (re_malloc env) (op_alias_map (w_svc w s)) (user_op_body env md) (False, w) of
             (r, _, w') \<Rightarrow> (r, w'))
      | _ \<Rightarrow> (Inl INVALID_NULL_PARAM, w))"

section \<open>Execution chains\<close>

text \<open>
  \<^verbatim>\<open>axis2_conf_get_module\<close>: by the string of the name, then by the name with its default version.
  The strings kept inside the names on the way are not shown.
\<close>

definition axis2_core_utils_get_module_qname ::
    "alloc \<Rightarrow> string option \<Rightarrow> string option \<Rightarrow> axutil_qname result" where
  "axis2_core_utils_get_module_qname m name version =
     (case name of
        None \<Rightarrow> Inl INVALID_NULL_PARAM
      | Some n \<Rightarrow>
          (case version of
             None \<Rightarrow> axutil_qname_create m name None None
           | Some v \<Rightarrow>
               if length v = 0 then axutil_qname_create m name None None
               else
                 res_bind (axutil_stracat m name (Some ''-'')) (\<lambda>mod_name1.
                 res_bind (axutil_stracat m mod_name1 version) (\<lambda>mod_name.
                   axutil_qname_create m mod_name None None))))"

definition axis2_conf_get_default_module_version ::
    "alloc \<Rightarrow> conf_desc \<Rightarrow> string \<Rightarrow> string option result" where
  "axis2_conf_get_default_module_version m c module_name =
     (case conf_name_to_version_map c of
        None \<Rightarrow> Inr None
      | Some def_ver_map \<Rightarrow> axutil_hash_get m (Some def_ver_map) module_name AXIS2_HASH_KEY_STRING)"

definition module_by_string :: "alloc \<Rightarrow> conf_desc \<Rightarrow> string option \<Rightarrow> ptr result" where
  "module_by_string m c name =
     (case name of
        None \<Rightarrow> Inl UNDEFINED_BEHAVIOUR
      | Some n \<Rightarrow> axutil_hash_get m (Some (conf_all_modules c)) n AXIS2_HASH_KEY_STRING)"

definition axis2_conf_get_module :: "alloc \<Rightarrow> conf_desc \<Rightarrow> axutil_qname option \<Rightarrow> ptr result" where
  "axis2_conf_get_module m c qname =
     (case qname of
        None \<Rightarrow> Inr None
      | Some q \<Rightarrow>
          res_bind (axutil_qname_to_string m q) (\<lambda>(name, _).
          res_bind (module_by_string m c name) (\<lambda>ret.
            if ret \<noteq> None then Inr ret
            else
              res_bind (axis2_conf_get_default_module_version m c (localpart q)) (\<lambda>def_mod_ver.
                (case axis2_core_utils_get_module_qname m name def_mod_ver of
                   Inl e \<Rightarrow> if e = UNDEFINED_BEHAVIOUR then Inl e else Inr None
                 | Inr mod_qname \<Rightarrow>
                     res_bind (axutil_qname_to_string m mod_qname) (\<lambda>(name', _).
                       module_by_string m c name'))))))"

text \<open>
  \<^verbatim>\<open>axis2_phase_resolver_add_to_handler_list\<close>: the handlers of a module's flow for user phases are appended to
  the list. It fails when an earlier call has left an error status in the environment.
\<close>

fun list_handlers ::
    "resolver_env \<Rightarrow> ptr list \<Rightarrow> nat array_list \<Rightarrow> nat array_list result" where
  "list_handlers env [] hl = Inr hl"
| "list_handlers env (metadata # rest) hl =
     (case metadata of
        None \<Rightarrow> Inl UNDEFINED_BEHAVIOUR
      | Some desc \<Rightarrow>
          (case axis2_handler_desc_get_rules (re_store env) desc of
             None \<Rightarrow> Inl UNDEFINED_BEHAVIOUR
           | Some rules \<Rightarrow>
               (case axis2_phase_rule_get_name rules of
                  None \<Rightarrow> Inl FAILURE_STATUS
                | Some name \<Rightarrow>
                    if is_system_phase (Some name) then list_handlers env rest hl
                    else res_bind (axutil_array_list_add (re_malloc env) (Some hl) (Some desc))
                           (list_handlers env rest))))"

definition axis2_phase_resolver_add_to_handler_list ::
    "resolver_env \<Rightarrow> nat array_list \<Rightarrow> axis2_module_desc \<Rightarrow> flow_type \<Rightarrow> nat array_list result" where
  "axis2_phase_resolver_add_to_handler_list env hl md type =
     (case module_flow md type of
        None \<Rightarrow> Inr hl
      | Some flow \<Rightarrow>
          if re_error_status env \<noteq> AXIS2_SUCCESS then Inl FAILURE_STATUS
          else list_handlers env (flow_handlers flow) hl)"

text \<open>
  The two loops over engaged modules: their handlers are collected and the modules recorded in
  the operation; the outcome of the recording is not looked at.
\<close>

fun collect_modules ::
    "resolver_env \<Rightarrow> nat \<Rightarrow> flow_type \<Rightarrow> ptr result list \<Rightarrow> nat array_list \<Rightarrow> world \<Rightarrow>
     nat array_list result \<times> world" where
  "collect_modules env op type [] hl w = (Inr hl, w)"
| "collect_modules env op type (m # ms) hl w =
     (case m of
        Inl e \<Rightarrow> (Inl e, w)
      | Inr None \<Rightarrow> (Inl INVALID_MODULE_REF, w)
      | Inr (Some md) \<Rightarrow>
          (case axis2_phase_resolver_add_to_handler_list env hl (w_module w md) type of
             Inl e \<Rightarrow> (Inl (if e = UNDEFINED_BEHAVIOUR then e else FAILURE_STATUS), w)
           | Inr hl' \<Rightarrow>
               collect_modules env op type ms hl' (snd (axis2_op_add_to_engaged_module_list env op md w))))"

text \<open>The modules engaged to the configuration, looked up by name, and those engaged to a service.\<close>

definition conf_modules :: "resolver_env \<Rightarrow> conf_desc \<Rightarrow> ptr result list" where
  "conf_modules env c =
     map (axis2_conf_get_module (re_malloc env) c) (items (Some (conf_engaged_module_list c)))"

definition svc_modules :: "axis2_svc \<Rightarrow> ptr result list" where
  "svc_modules svc = map Inr (items (Some (svc_engaged_module_list svc)))"

text \<open>The last loop: every collected handler is added to the flow of the operation.\<close>

definition chain_handler :: "resolver_env \<Rightarrow> nat \<Rightarrow> flow_type \<Rightarrow> ptr \<Rightarrow> world step" where
  "chain_handler env op type metadata =
     (case metadata of
        None \<Rightarrow> fail INVALID_NULL_PARAM
      | Some desc \<Rightarrow>
          on_op_flow op type
            (\<lambda>fl. axis2_phase_holder_add_handler (re_malloc env) (re_store env) fl desc))"

definition axis2_phase_resolver_build_execution_chains_for_op ::
    "resolver_env \<Rightarrow> ptr \<Rightarrow> flow_type \<Rightarrow> nat \<Rightarrow> world step" where
  "axis2_phase_resolver_build_execution_chains_for_op env svc type op w =
     (case axutil_array_list_create (re_malloc env) 0 of
        Inl e \<Rightarrow> (Inl FAILURE_STATUS, w)
      | Inr hl \<Rightarrow>
          (case collect_modules env op type (conf_modules env (w_conf w)) hl w of
             (Inl e, w1) \<Rightarrow> (Inl e, w1)
           | (Inr hl1, w1) \<Rightarrow>
               (case svc of
                  None \<Rightarrow> (Inl UNDEFINED_BEHAVIOUR, w1)
                | Some s \<Rightarrow>
                    (case collect_modules env op type (svc_modules (w_svc w1 s)) hl1 w1 of
                       (Inl e, w2) \<Rightarrow> (Inl e, w2)
                     | (Inr hl2, w2) \<Rightarrow>
                         if axutil_array_list_size (Some hl2) = 0 \<or> op_flow (w_op w2 op) type = None
                         then (Inr (), w2)
                         else if \<not> re_malloc env sizeof_phase_holder then (Inl UNDEFINED_BEHAVIOUR, w2)
                         else each (chain_handler env op type) (items (Some hl2)) w2))))"

text \<open>
  \<^verbatim>\<open>axis2_phase_resolver_build_execution_chains_for_svc\<close> goes on after a failure: it returns the
  status of the last flow of the last operation.
\<close>

definition op_chains :: "resolver_env \<Rightarrow> ptr \<Rightarrow> nat \<Rightarrow> unit result \<times> world \<Rightarrow> unit result \<times> world" where
  "op_chains env svc op s =
     foldl (\<lambda>(_, w) type. axis2_phase_resolver_build_execution_chains_for_op env svc type op w) s flow_types"

definition svc_chains_body ::
    "resolver_env \<Rightarrow> ptr \<Rightarrow> nat hash_entry \<Rightarrow> unit result \<times> world \<Rightarrow> bool \<times> unit result \<times> world" where
  "svc_chains_body env svc e s =
     (case e_val e of
        None \<Rightarrow> (True, Inl UNDEFINED_BEHAVIOUR, snd s)
      | Some op \<Rightarrow> (False, op_chains env svc op s))"

definition axis2_phase_resolver_build_execution_chains_for_svc :: "resolver_env \<Rightarrow> ptr \<Rightarrow> world step" where
  "axis2_phase_resolver_build_execution_chains_for_svc env svc w =
     (case svc of
        None \<Rightarrow> (Inl FAILURE_STATUS, w)
      | Some s \<Rightarrow>
          (case axutil_hash_first_impl (re_malloc env) (Some (op_alias_map (w_svc w s))) False of
             Inl e \<Rightarrow> (Inl FAILURE_STATUS, w)
           | Inr hi \<Rightarrow>
               (case hash_foreach (op_alias_map (w_svc w s)) (svc_chains_body env svc) hi
                       (Inl FAILURE_STATUS, w) of
                  Inl e \<Rightarrow> (Inl e, w)
                | Inr r \<Rightarrow> r)))"

definition axis2_phase_resolver_build_execution_chains_for_module_op ::
    "resolver_env \<Rightarrow> ptr \<Rightarrow> ptr \<Rightarrow> world step" where
  "axis2_phase_resolver_build_execution_chains_for_module_op env svc op =
     (case op of
        None \<Rightarrow> fail INVALID_NULL_PARAM
      | Some p \<Rightarrow>
          each (\<lambda>type. axis2_phase_resolver_build_execution_chains_for_op env svc type p) flow_types)"

section \<open>Services\<close>

text \<open>
  \<^verbatim>\<open>axis2_svc_add_mapping\<close> and the tables of a service. A store that runs out of memory goes unnoticed.
\<close>

definition store_ptr :: "alloc \<Rightarrow> nat axutil_hash \<Rightarrow> string \<Rightarrow> nat \<Rightarrow> nat axutil_hash result" where
  "store_ptr m ht key p =
     (case axutil_hash_set m (Some ht) key AXIS2_HASH_KEY_STRING (Some p) of
        Inl e \<Rightarrow> if e = NO_MEMORY then Inr ht else Inl e
      | Inr None \<Rightarrow> Inr ht
      | Inr (Some ht') \<Rightarrow> Inr ht')"

definition set_svc :: "nat \<Rightarrow> axis2_svc \<Rightarrow> world \<Rightarrow> world" where
  "set_svc s svc w = w\<lparr>w_svc := (w_svc w)(s := svc)\<rparr>"

definition axis2_svc_add_mapping :: "resolver_env \<Rightarrow> nat \<Rightarrow> string \<Rightarrow> nat \<Rightarrow> world step" where
  "axis2_svc_add_mapping env s mapping_key op w =
     (case store_ptr (re_malloc env) (op_action_map (w_svc w s)) mapping_key op of
        Inl e \<Rightarrow> (Inl e, w)
      | Inr ht \<Rightarrow> (Inr (), set_svc s ((w_svc w s)\<lparr>op_action_map := ht\<rparr>) w))"

text \<open>
  \<^verbatim>\<open>axis2_svc_add_op\<close>: the parent of the operation is set, a missing message receiver is loaded, and
  the operation is entered under its name unless the service has one of that name.
\<close>

definition axis2_svc_add_op :: "resolver_env \<Rightarrow> nat \<Rightarrow> ptr \<Rightarrow> world step" where
  "axis2_svc_add_op env s op =
     (case op of
        None \<Rightarrow> fail INVALID_NULL_PARAM
      | Some p \<Rightarrow>
          (\<lambda>w. andthen (each (\<lambda>mapping. axis2_svc_add_mapping env s mapping p) (op_wsamapping_list (w_op w p)))
            (\<lambda>w1.
              let o1 = (w_op w1 p)\<lparr>op_parent := Some s\<rparr>;
                  o2 = (if axis2_op_get_msg_recv o1 = None then o1\<lparr>op_msg_recv := re_default_msg_recv env\<rparr>
                        else o1);
                  w2 = w1\<lparr>w_op := (w_op w1)(p := o2)\<rparr>;
                  map = op_alias_map (w_svc w2 s); key = op_qname o2
              in case axutil_hash_get (re_malloc env) (Some map) key AXIS2_HASH_KEY_STRING of
                   Inl e \<Rightarrow> (Inl e, w2)
                 | Inr (Some _) \<Rightarrow> (Inr (), w2)
                 | Inr None \<Rightarrow>
                     (case store_ptr (re_malloc env) map key p of
                        Inl e \<Rightarrow> (Inl e, w2)
                      | Inr ht \<Rightarrow> (Inr (), set_svc s ((w_svc w2 s)\<lparr>op_alias_map := ht\<rparr>) w2))) w))"

text \<open>Every operation of the module gets its chains and is entered: the same operation in each service.\<close>

definition axis2_svc_add_module_ops :: "resolver_env \<Rightarrow> nat \<Rightarrow> ptr \<Rightarrow> world step" where
  "axis2_svc_add_module_ops env s module_desc w =
     (case module_desc of
        None \<Rightarrow> (Inl INVALID_NULL_PARAM, w)
      | Some md \<Rightarrow>
          if \<not> re_malloc env sizeof_phase_resolver then (Inl FAILURE_STATUS, w)
          else
            foreach (re_malloc env) (md_ops (w_module w md))
              (\<lambda>op. case op of
                 None \<Rightarrow> fail UNDEFINED_BEHAVIOUR
               | Some _ \<Rightarrow>
                   andthen (axis2_phase_resolver_build_execution_chains_for_module_op env (Some s) op)
                     (axis2_svc_add_op env s op)) w)"

text \<open>The body of the loop over the operations in \<^verbatim>\<open>axis2_phase_resolver_engage_module_to_svc\<close>.\<close>

definition engage_op_body :: "resolver_env \<Rightarrow> nat \<Rightarrow> ptr \<Rightarrow> world step" where
  "engage_op_body env md op w =
     (case op of
        None \<Rightarrow> (Inl UNDEFINED_BEHAVIOUR, w)
      | Some p \<Rightarrow>
          (case engaged_index UNDEFINED_BEHAVIOUR w p md of
             Inl e \<Rightarrow> (Inl e, w)
           | Inr (Some _) \<Rightarrow> (Inr (), w)
           | Inr None \<Rightarrow>
               andthen (axis2_phase_resolver_engage_module_to_op env op (Some (w_module w md)))
                 (axis2_op_add_to_engaged_module_list env p md) w))"

definition axis2_phase_resolver_engage_module_to_svc :: "resolver_env \<Rightarrow> nat \<Rightarrow> nat \<Rightarrow> world step" where
  "axis2_phase_resolver_engage_module_to_svc env s md =
     andthen (axis2_svc_add_module_ops env s (Some md))
       (\<lambda>w. foreach (re_malloc env) (op_alias_map (w_svc w s)) (engage_op_body env md) w)"

text \<open>
  In \<^verbatim>\<open>axis2_phase_resolver_disengage_module_from_svc\<close> the status is a failure until some operation
  had the module.
\<close>

definition disengage_op_body ::
    "resolver_env \<Rightarrow> nat \<Rightarrow> nat hash_entry \<Rightarrow> unit result \<times> world \<Rightarrow> bool \<times> unit result \<times> world" where
  "disengage_op_body env md e s =
     (let w = snd s in
      case e_val e of
        None \<Rightarrow> (True, Inl UNDEFINED_BEHAVIOUR, w)
      | Some p \<Rightarrow>
          (case engaged_index UNDEFINED_BEHAVIOUR w p md of
             Inl err \<Rightarrow> (True, Inl err, w)
           | Inr None \<Rightarrow> (False, s)
           | Inr (Some _) \<Rightarrow>
               (case axis2_phase_resolver_disengage_module_from_op env (Some p) (Some (w_module w md)) w of
                  (Inl err, w') \<Rightarrow> (True, Inl err, w')
                | (Inr _, w') \<Rightarrow> (False, axis2_op_remove_from_engaged_module_list p md w'))))"

definition axis2_phase_resolver_disengage_module_from_svc :: "resolver_env \<Rightarrow> nat \<Rightarrow> nat \<Rightarrow> world step" where
  "axis2_phase_resolver_disengage_module_from_svc env s md w =
     (case axutil_hash_first_impl (re_malloc env) (Some (op_alias_map (w_svc w s))) False of
        Inl e \<Rightarrow> (Inl FAILURE_STATUS, w)
      | Inr hi \<Rightarrow>
          (case hash_foreach (op_alias_map (w_svc w s)) (disengage_op_body env md) hi
                  (Inl FAILURE_STATUS, w) of
             Inl e \<Rightarrow> (Inl e, w)
           | Inr r \<Rightarrow> r))"

definition axis2_svc_add_module_qname :: "resolver_env \<Rightarrow> nat \<Rightarrow> axutil_qname \<Rightarrow> world step" where
  "axis2_svc_add_module_qname env s q w =
     (case axutil_array_list_add (re_malloc env) (Some (svc_module_list (w_svc w s)))
             (axutil_qname_clone (Some q)) of
        Inl e \<Rightarrow> (Inl e, w)
      | Inr l \<Rightarrow> (Inr (), set_svc s ((w_svc w s)\<lparr>svc_module_list := l\<rparr>) w))"

text \<open>The status of \<^verbatim>\<open>axis2_svc_engage_module\<close> is that of the addition to the list of modules.\<close>

definition axis2_svc_engage_module :: "resolver_env \<Rightarrow> nat \<Rightarrow> ptr \<Rightarrow> world step" where
  "axis2_svc_engage_module env s module_desc w =
     (case module_desc of
        None \<Rightarrow> (Inl INVALID_NULL_PARAM, w)
      | Some md \<Rightarrow>
          if \<not> re_malloc env sizeof_phase_resolver then (Inl UNDEFINED_BEHAVIOUR, w)
          else
            (case axis2_phase_resolver_engage_module_to_svc env s md w of
               (Inl e, w1) \<Rightarrow> (Inl e, w1)
             | (Inr _, w1) \<Rightarrow>
                 (case axutil_array_list_add (re_malloc env) (Some (svc_engaged_module_list (w_svc w1 s)))
                         (Some md) of
                    Inl e \<Rightarrow> (Inl e, snd (axis2_svc_add_module_qname env s (md_qname (w_module w1 md)) w1))
                  | Inr l \<Rightarrow>
                      (Inr (), snd (axis2_svc_add_module_qname env s (md_qname (w_module w1 md))
                                 (set_svc s ((w_svc w1 s)\<lparr>svc_engaged_module_list := l\<rparr>) w1))))))"

definition axis2_svc_disengage_module :: "resolver_env \<Rightarrow> nat \<Rightarrow> ptr \<Rightarrow> world step" where
  "axis2_svc_disengage_module env s module_desc w =
     (case module_desc of
        None \<Rightarrow> (Inl INVALID_NULL_PARAM, w)
      | Some md \<Rightarrow>
          if \<not> re_malloc env sizeof_phase_resolver then (Inl UNDEFINED_BEHAVIOUR, w)
          else axis2_phase_resolver_disengage_module_from_svc env s md w)"

section \<open>Global engagement\<close>

definition AXIS2_MODULE_ADDRESSING :: string where "AXIS2_MODULE_ADDRESSING = ''addressing''"
definition AXIS2_WSA_MAPPING :: string where "AXIS2_WSA_MAPPING = ''wsamapping''"

text \<open>
  For the addressing module, the \<^verbatim>\<open>wsamapping\<close> parameters of the service's own operations become action
  mappings of the service; the outcome is not looked at.
\<close>

definition add_wsa_mappings :: "resolver_env \<Rightarrow> nat \<Rightarrow> ptr \<Rightarrow> world step" where
  "add_wsa_mappings env s op w =
     (case op of
        None \<Rightarrow> (Inr (), w)
      | Some p \<Rightarrow>
          if op_from_module (w_op w p) then (Inr (), w)
          else
            (Inr (), foldl (\<lambda>w' (name, val).
               if axutil_strcmp (Some name) (Some AXIS2_WSA_MAPPING) = 0
               then snd (axis2_svc_add_mapping env s val p w') else w') w (op_params (w_op w p))))"

definition add_to_group :: "resolver_env \<Rightarrow> nat \<Rightarrow> axutil_qname \<Rightarrow> world step" where
  "add_to_group env s q w =
     (case svc_parent (w_svc w s) of
        None \<Rightarrow> (Inr (), w)
      | Some g \<Rightarrow>
          let l = grp_module_qname_list (w_grp w g) in
          if Inr True \<in> set (map (axutil_qname_equals q) (items (Some l))) then (Inr (), w)
          else
            (case axutil_array_list_add (re_malloc env) (Some l) (Some q) of
               Inl e \<Rightarrow> (Inl e, w)
             | Inr l' \<Rightarrow> (Inr (), w\<lparr>w_grp := (w_grp w)(g := \<lparr>grp_module_qname_list = l'\<rparr>)\<rparr>)))"

definition engage_svc_body :: "resolver_env \<Rightarrow> nat \<Rightarrow> axutil_qname option \<Rightarrow> ptr \<Rightarrow> world step" where
  "engage_svc_body env md addressing svc =
     (case svc of
        None \<Rightarrow> fail UNDEFINED_BEHAVIOUR
      | Some s \<Rightarrow>
          andthen (axis2_svc_add_module_ops env s (Some md))
         (andthen (axis2_phase_resolver_add_module_handlers_to_user_defined_phases env (Some s) (Some md))
         (andthen (\<lambda>w. if axutil_qname_equals (md_qname (w_module w md)) addressing = Inr True
                       then foreach (re_malloc env) (op_alias_map (w_svc w s)) (add_wsa_mappings env s) w
                       else (Inr (), w))
           (\<lambda>w. add_to_group env s (md_qname (w_module w md)) w))))"

definition axis2_phase_resolver_engage_module_globally :: "resolver_env \<Rightarrow> ptr \<Rightarrow> world step" where
  "axis2_phase_resolver_engage_module_globally env module_desc =
     (case module_desc of
        None \<Rightarrow> fail INVALID_NULL_PARAM
      | Some md \<Rightarrow>
          (\<lambda>w. andthen
             (axis2_phase_resolver_add_module_handlers_to_system_defined_phases env (w_module w md))
             (\<lambda>w1. case conf_all_svcs (w_conf w1) of
                None \<Rightarrow> (Inl FAILURE_STATUS, w1)
              | Some all_svcs \<Rightarrow>
                  let addressing = (case axutil_qname_create (re_malloc env)
                                            (Some AXIS2_MODULE_ADDRESSING) None None of
                                      Inl _ \<Rightarrow> None | Inr q \<Rightarrow> Some q)
                  in foreach (re_malloc env) all_svcs (engage_svc_body env md addressing) w1) w))"

text \<open>
  \<^verbatim>\<open>axis2_conf_add_module\<close>: the description is entered under the string of its name. A store
  that runs out of memory goes unnoticed.
\<close>

definition axis2_conf_add_module :: "resolver_env \<Rightarrow> ptr \<Rightarrow> world step" where
  "axis2_conf_add_module env module_desc w =
     (case module_desc of
        None \<Rightarrow> (Inl INVALID_NULL_PARAM, w)
      | Some md \<Rightarrow>
          (case axutil_qname_to_string (re_malloc env) (md_qname (w_module w md)) of
             Inl e \<Rightarrow> (Inl e, w)
           | Inr (None, _) \<Rightarrow> (Inl UNDEFINED_BEHAVIOUR, w)
           | Inr (Some name, _) \<Rightarrow>
               (case store_ptr (re_malloc env) (conf_all_modules (w_conf w)) name md of
                  Inl e \<Rightarrow> (Inl e, w)
                | Inr ht \<Rightarrow> (Inr (), w\<lparr>w_conf := (w_conf w)\<lparr>conf_all_modules := ht\<rparr>\<rparr>))))"

text \<open>
  \<^verbatim>\<open>axis2_conf_engage_module\<close>. A module without a description is built from its files by the deployment
  engine, which reads the repository: \<open>build\<close> is what it returns and the world it leaves. A module that is engaged
  already keeps the initial status, a failure, unless it is new.
\<close>

definition axis2_conf_engage_module ::
    "resolver_env \<Rightarrow> (axutil_qname \<Rightarrow> world \<Rightarrow> ptr \<times> world) \<Rightarrow> axutil_qname option \<Rightarrow> world step" where
  "axis2_conf_engage_module env build module_ref w =
     (case module_ref of
        None \<Rightarrow> (Inl INVALID_NULL_PARAM, w)
      | Some q \<Rightarrow>
          (case axis2_conf_get_module (re_malloc env) (w_conf w) (Some q) of
             Inl e \<Rightarrow> (Inl e, w)
           | Inr found \<Rightarrow>
               let is_new_module = (found = None);
                   (module_desc, w1) = (if is_new_module then build q w else (found, w))
               in case module_desc of
                    None \<Rightarrow> (Inl INVALID_MODULE, w1)
                  | Some md \<Rightarrow>
                      let mq = md_qname (w_module w1 md);
                          to_be_engaged = (Inr True \<notin> set (map (axutil_qname_equals mq)
                            (items (Some (conf_engaged_module_list (w_conf w1))))));
                          add_new = (\<lambda>(r, w'). if is_new_module then axis2_conf_add_module env (Some md) w'
                                               else (r, w'))
                      in if \<not> to_be_engaged then add_new (Inl FAILURE_STATUS, w1)
                         else if \<not> re_malloc env sizeof_phase_resolver then (Inl UNDEFINED_BEHAVIOUR, w1)
                         else
                           (case axis2_phase_resolver_engage_module_globally env (Some md) w1 of
                              (Inl e, w2) \<Rightarrow> (Inl e, w2)
                            | (Inr _, w2) \<Rightarrow>
                                add_new
                                  (case axutil_array_list_add (re_malloc env)
                                     (Some (conf_engaged_module_list (w_conf w2)))
                                     (axutil_qname_clone (Some mq)) of
                                     Inl e \<Rightarrow> (Inl e, w2)
                                   | Inr l \<Rightarrow>
                                       (Inr (), w2\<lparr>w_conf := (w_conf w2)\<lparr>conf_engaged_module_list := l\<rparr>\<rparr>)))))"

end
