(* ===== verification/Phase_Resolver_Props.thy ===== *)
theory Phase_Resolver_Props
  imports Phase_Resolver Phase_Placement "HOL-Library.Sublist"
begin

text \<open>
  What engaging a module does: where its handlers end up, what stays as it was, and where
  the code of \<^verbatim>\<open>phase_resolver.c\<close> goes wrong.
\<close>

section \<open>A placed handler is in its phase\<close>

text \<open>A handler is in a phase when it, or one of its name, is in the list or at an end.\<close>

definition phase_has :: "handler_store \<Rightarrow> axis2_phase \<Rightarrow> nat \<Rightarrow> bool" where
  "phase_has hs ph h \<longleftrightarrow>
     (\<exists>p \<in> set (ph_list ph). same_handler hs h p) \<or> first_handler ph = Some h \<or> last_handler ph = Some h"

lemma same_handler_refl: "same_handler hs h (Some h)"
  by (simp add: same_handler_def)

lemma add_unique_has:
  assumes "phase_wf hs ph" "mem_ok m"
    and "set_handlers ph (axis2_phase_add_unique m hs (handlers ph) h) = Inr ph'"
  shows "phase_has hs ph' h"
proof -
  from assms(1) have inv: "al_inv (handlers ph)" and nn: "None \<notin> set (al_list (handlers ph))"
    by (auto simp: phase_wf_def ph_list_def dest: named_not_None)
  from al.add_total [OF inv assms(2), of "Some h"] obtain l'
    where l': "axutil_array_list_add m (Some (handlers ph)) (Some h) = Inr l'"
      "al_list l' = al_list (handlers ph) @ [Some h]" by blast
  show ?thesis
  proof (cases "find_index (same_handler hs h) (al_list (handlers ph))")
    case None
    then show ?thesis
      using assms(3) l' unique_loop_0 [OF inv nn, of hs h]
      by (auto simp: axis2_phase_add_unique_def set_handlers_def phase_has_def ph_list_def same_handler_refl)
  next
    case (Some i)
    then have "axis2_phase_add_unique m hs (handlers ph) h = Inr (handlers ph)"
      using unique_loop_0 [OF inv nn, of hs h] by (simp add: axis2_phase_add_unique_def)
    moreover have "\<exists>p \<in> set (al_list (handlers ph)). same_handler hs h p"
      using Some find_index_None [of "same_handler hs h" "al_list (handlers ph)"] by auto
    ultimately show ?thesis
      using assms(3) by (auto simp: set_handlers_def phase_has_def ph_list_def)
  qed
qed

lemma add_at_has:
  assumes "phase_wf hs ph"
    and "set_handlers ph (axutil_array_list_add_at m (Some (handlers ph)) i (Some h)) = Inr ph'"
  shows "phase_has hs ph' h"
proof -
  from assms obtain l' where l': "ph' = ph\<lparr>handlers := l'\<rparr>"
    "axutil_array_list_add_at m (Some (handlers ph)) i (Some h) = Inr l'"
    by (auto simp: set_handlers_def split: sum.splits)
  with al.add_at_law [of "handlers ph" m i "Some h" l'] assms(1) show ?thesis
    by (auto simp: phase_has_def ph_list_def phase_wf_def same_handler_refl)
qed

lemma insert_before_has:
  assumes "phase_wf hs ph" "mem_ok m" "axis2_phase_insert_before m hs ph h = Inr ph'"
  shows "phase_has hs ph' h"
  using assms(3)
  by (auto simp: axis2_phase_insert_before_def split: option.splits sum.splits bool.splits
      intro: add_unique_has [OF assms(1,2)] add_at_has [OF assms(1)])

lemma insert_after_has:
  assumes "phase_wf hs ph" "mem_ok m" "axis2_phase_insert_after m hs ph h = Inr ph'"
  shows "phase_has hs ph' h"
  using assms(3)
  by (auto simp: axis2_phase_insert_after_def Let_def split: option.splits sum.splits bool.splits if_splits
      intro: add_unique_has [OF assms(1,2)] add_at_has [OF assms(1)])

lemma both_loop_has:
  assumes "phase_wf hs ph" "mem_ok m" "both_loop m hs ph h an bn a b i = Inr ph'"
  shows "phase_has hs ph' h"
  using assms
proof (induction m hs ph h an bn a b i rule: both_loop.induct)
  case (1 m hs ph h an bn a b i)
  show ?case
  proof (cases "i < axutil_array_list_size (Some (handlers ph))")
    case True
    then show ?thesis
      using "1.prems"(3)
      by (subst (asm) both_loop.simps)
         (auto simp: Let_def split: sum.splits prod.splits if_splits
           intro: add_unique_has [OF "1.prems"(1,2)] add_at_has [OF "1.prems"(1)] "1.IH" [OF refl True _ _ _ "1.prems"(1,2)])
  next
    case False
    then show ?thesis
      using "1.prems"(3)
      by (subst (asm) both_loop.simps) (auto simp: Let_def intro: add_unique_has [OF "1.prems"(1,2)])
  qed
qed

lemma insert_handler_desc_has:
  assumes "phase_wf hs ph" "mem_ok m" "axis2_phase_insert_handler_desc m hs ph d = Inr ph'"
    and "axis2_handler_desc_get_handler hs d = Some h"
  shows "phase_has hs ph' h"
  using assms(3,4)
  by (auto simp: axis2_phase_insert_handler_desc_def axis2_phase_insert_before_and_after_def Let_def
      split: if_splits option.splits sum.splits
      intro: add_unique_has [OF assms(1,2)] both_loop_has [OF assms(1,2)]
        insert_before_has [OF assms(1,2)] insert_after_has [OF assms(1,2)])

lemma phase_has_one: "phase_has hs (ph\<lparr>is_one_handler := b\<rparr>) h = phase_has hs ph h"
  by (simp add: phase_has_def ph_list_def)

lemma add_handler_desc_has:
  assumes "phase_wf hs ph" "mem_ok m" "axis2_phase_add_handler_desc m hs ph d = Inr ph'"
    and "axis2_handler_desc_get_handler hs d = Some h"
  shows "phase_has hs ph' h"
  using assms(3,4)
  by (auto simp: axis2_phase_add_handler_desc_def axis2_phase_set_first_handler_def phase_has_one
      axis2_phase_set_last_handler_def Let_def split: if_splits option.splits sum.splits
      intro: insert_handler_desc_has [OF assms(1,2)] add_unique_has [OF assms(1,2)])
     (simp_all add: phase_has_def)

section \<open>Growth of phases and flows\<close>

text \<open>
  A phase has grown when its name and its first and last handlers are still there and its old handlers
  are in the same order.
\<close>

definition phase_grows :: "axis2_phase \<Rightarrow> axis2_phase \<Rightarrow> bool" where
  "phase_grows ph ph' \<longleftrightarrow> phase_name ph' = phase_name ph \<and> subseq (ph_list ph) (ph_list ph') \<and>
     (first_handler ph \<noteq> None \<longrightarrow> first_handler ph' = first_handler ph) \<and>
     (last_handler ph \<noteq> None \<longrightarrow> last_handler ph' = last_handler ph)"

lemma phase_grows_refl [simp]: "phase_grows ph ph"
  by (simp add: phase_grows_def)

lemma phase_grows_name: "phase_grows ph ph' \<Longrightarrow> phase_name ph' = phase_name ph"
  by (simp add: phase_grows_def)

lemma phase_grows_trans: "phase_grows a b \<Longrightarrow> phase_grows b c \<Longrightarrow> phase_grows a c"
  by (auto simp: phase_grows_def intro: subseq_order.order_trans)

lemma subseq_insert_nth: "subseq xs (insert_nth i x xs)"
proof -
  have "subseq (take i xs @ drop i xs) (take i xs @ x # drop i xs)"
    by (intro list_emb_append_mono) auto
  then show ?thesis by (simp add: insert_nth_def)
qed

lemma placed_subseq: "placed h l l' \<Longrightarrow> subseq (al_list l) (al_list l')"
  by (auto simp: placed_def subseq_insert_nth)

lemma add_handler_desc_grows:
  assumes wf: "phase_wf hs ph" and add: "axis2_phase_add_handler_desc m hs ph d = Inr ph'"
  shows "phase_grows ph ph'"
proof -
  from wf have inv: "al_inv (handlers ph)" by (simp add: phase_wf_def)
  show ?thesis
    by (rule add_handler_desc_cases [OF inv add]) (use wf in \<open>auto simp: phase_grows_def ph_list_def phase_wf_def placed_subseq\<close>)
qed

lemma phase_has_grows: "phase_grows ph ph' \<Longrightarrow> phase_has hs ph h \<Longrightarrow> phase_has hs ph' h"
  by (auto simp: phase_has_def phase_grows_def dest: list_emb_set)

text \<open>Flows whose entries are well-formed phases.\<close>

definition flow_wf :: "handler_store \<Rightarrow> flow \<Rightarrow> bool" where
  "flow_wf hs fl \<longleftrightarrow> al_inv fl \<and> (\<forall>p \<in> set (al_list fl). \<exists>ph. p = Some ph \<and> phase_wf hs ph)"

definition flow_grows :: "flow \<Rightarrow> flow \<Rightarrow> bool" where
  "flow_grows fl fl' \<longleftrightarrow> list_all2 (rel_option phase_grows) (al_list fl) (al_list fl')"

lemma flow_grows_refl [simp]: "flow_grows fl fl"
  by (auto simp: flow_grows_def intro!: list_all2_refl option.rel_refl)

lemma flow_grows_trans: "flow_grows a b \<Longrightarrow> flow_grows b c \<Longrightarrow> flow_grows a c"
  unfolding flow_grows_def
  by (erule (1) list_all2_trans [rotated]) (auto simp: option_rel_Some1 elim!: option.rel_cases intro: phase_grows_trans)

text \<open>Some phase of the flow with the name \<open>n\<close> has the handler.\<close>

definition flow_has :: "handler_store \<Rightarrow> flow \<Rightarrow> string \<Rightarrow> nat \<Rightarrow> bool" where
  "flow_has hs fl n h \<longleftrightarrow> (\<exists>ph. Some ph \<in> set (al_list fl) \<and> phase_name ph = Some n \<and> phase_has hs ph h)"

lemma flow_has_grows: "flow_grows fl fl' \<Longrightarrow> flow_has hs fl n h \<Longrightarrow> flow_has hs fl' n h"
proof -
  assume g: "flow_grows fl fl'" and "flow_has hs fl n h"
  then obtain ph where ph: "Some ph \<in> set (al_list fl)" "phase_name ph = Some n" "phase_has hs ph h"
    by (auto simp: flow_has_def)
  from g ph(1) obtain p' where "p' \<in> set (al_list fl')" "rel_option phase_grows (Some ph) p'"
    by (auto simp: flow_grows_def list_all2_conv_all_nth in_set_conv_nth) (metis)
  then obtain ph' where ph': "Some ph' \<in> set (al_list fl')" "phase_grows ph ph'"
    by (auto simp: option_rel_Some1)
  then have "phase_name ph' = Some n" "phase_has hs ph' h"
    using ph phase_has_grows phase_grows_name by metis+
  with ph'(1) show ?thesis by (auto simp: flow_has_def)
qed

lemma holder_loop_spec:
  assumes "flow_wf hs fl" "0 \<le> i" "i \<le> int (length (al_list fl))"
  shows "holder_loop fl n i = Inr (map_option (\<lambda>k. i + int k)
    (find_index (\<lambda>p. Option.bind p phase_name = Some n) (drop (nat i) (al_list fl))))"
  using assms
proof (induction fl n i rule: holder_loop.induct)
  case (1 fl n i)
  have inv: "al_inv fl" using "1.prems" by (simp add: flow_wf_def)
  show ?case
  proof (cases "i < axutil_array_list_size (Some fl)")
    case True
    from al.drop_unfold [OF inv "1.prems"(2) True] obtain x
      where x: "axutil_array_list_get (Some fl) i = Inr x"
        "drop (nat i) (al_list fl) = x # drop (nat (i + 1)) (al_list fl)" by blast
    then have "x \<in> set (al_list fl)" by (metis in_set_dropD list.set_intros(1))
    then obtain ph where ph: "x = Some ph" using "1.prems"(1) by (auto simp: flow_wf_def)
    have "i + 1 \<le> int (length (al_list fl))" using True al.size_law [OF inv] by simp
    with "1.IH" [OF True, of ph] x ph "1.prems" show ?thesis
      by (subst holder_loop.simps)
         (auto simp: True axis2_phase_get_name_def axutil_strcmp_eq_0 option.map_comp o_def ac_simps
           split: if_splits)
  next
    case False
    then show ?thesis
      using al.drop_end [OF inv, of i] by (subst holder_loop.simps) simp
  qed
qed

lemma set_phase_list:
  assumes "al_inv fl" "k < length (al_list fl)"
  shows "al_inv (set_phase fl (int k) ph)" "al_list (set_phase fl (int k) ph) = (al_list fl)[k := Some ph]"
  using set_spec(2) [OF assms(1), of "int k" "Some ph"] assms al_size_eq [OF assms(1)]
  by (simp_all add: set_phase_def)

lemma holder_apply_spec:
  assumes wf: "flow_wf hs fl" and r: "axis2_handler_desc_get_rules hs d = Some rules"
    and n: "rule_name rules = Some n"
  shows "holder_apply f hs fl d =
    (case find_index (\<lambda>p. Option.bind p phase_name = Some n) (al_list fl) of
       None \<Rightarrow> Inl INVALID_PHASE
     | Some k \<Rightarrow> res_bind (f (the (al_list fl ! k))) (\<lambda>ph'. Inr (set_phase fl (int k) ph')))"
proof -
  have inv: "al_inv fl" using wf by (simp add: flow_wf_def)
  have l: "holder_loop fl n 0 = Inr (map_option int (find_index (\<lambda>p. Option.bind p phase_name = Some n) (al_list fl)))"
    using holder_loop_spec [OF wf, of 0 n] by simp
  show ?thesis
  proof (cases "find_index (\<lambda>p. Option.bind p phase_name = Some n) (al_list fl)")
    case None
    then show ?thesis
      using l r n by (simp add: holder_apply_def axis2_phase_holder_is_phase_exist_def phase_rule_defs)
  next
    case (Some k)
    then have "k < length (al_list fl)" "al_list fl ! k \<noteq> None"
      by (auto simp: find_index_Some bind_eq_Some_conv)
    then show ?thesis
      using Some l r n al.get_in_range [OF inv, of k]
      by (auto simp: holder_apply_def axis2_phase_holder_is_phase_exist_def phase_rule_defs
          axis2_phase_holder_get_phase_def)
  qed
qed

lemma add_handler_desc_wf:
  assumes "phase_wf hs ph" "named hs (axis2_handler_desc_get_handler hs d)"
    and "axis2_phase_add_handler_desc m hs ph d = Inr ph'"
  shows "phase_wf hs ph'"
proof -
  from assms(1) have inv: "al_inv (handlers ph)" by (simp add: phase_wf_def)
  show ?thesis
    using assms(1,2) placed_wf
    by (cases rule: add_handler_desc_cases [OF inv assms(3)]) (auto simp: phase_wf_def ph_list_def)
qed

lemma holder_add_handler:
  assumes wf: "flow_wf hs fl" and nm: "named hs (axis2_handler_desc_get_handler hs d)"
    and r: "axis2_handler_desc_get_rules hs d = Some rules" and n: "rule_name rules = Some n"
    and add: "axis2_phase_holder_add_handler m hs fl d = Inr fl'"
  shows "flow_wf hs fl'" "flow_grows fl fl'"
    "mem_ok m \<Longrightarrow> \<exists>h. axis2_handler_desc_get_handler hs d = Some h \<and> flow_has hs fl' n h"
proof -
  have inv: "al_inv fl" using wf by (simp add: flow_wf_def)
  obtain k ph' where k: "find_index (\<lambda>p. Option.bind p phase_name = Some n) (al_list fl) = Some k"
    and ph': "axis2_phase_add_handler_desc m hs (the (al_list fl ! k)) d = Inr ph'"
      "fl' = set_phase fl (int k) ph'"
    using add by (auto simp: axis2_phase_holder_add_handler_def holder_apply_spec [OF wf r n] res_bind_Inr
        split: option.splits)
  have k': "k < length (al_list fl)" "Option.bind (al_list fl ! k) phase_name = Some n"
    using k by (auto simp: find_index_Some)
  obtain ph where ph: "al_list fl ! k = Some ph" "phase_wf hs ph"
    using wf nth_mem [OF k'(1)] unfolding flow_wf_def by blast
  then have name: "phase_name ph = Some n" using k'(2) by simp
  note l = set_phase_list [OF inv k'(1), of ph']
  have wf': "phase_wf hs ph'" and g: "phase_grows ph ph'"
    using ph ph'(1) add_handler_desc_wf [OF _ nm] add_handler_desc_grows by (simp_all)
  show "flow_wf hs fl'"
    using wf wf' l ph'(2) by (auto simp: flow_wf_def dest: set_update_subset_insert [THEN subsetD])
  show "flow_grows fl fl'"
    using l ph'(2) g ph(1) k'(1)
    by (auto simp: flow_grows_def list_all2_conv_all_nth nth_list_update intro: option.rel_refl)
  show "\<exists>h. axis2_handler_desc_get_handler hs d = Some h \<and> flow_has hs fl' n h" if "mem_ok m"
  proof -
    obtain h where h: "axis2_handler_desc_get_handler hs d = Some h" using nm by (auto simp: named_def)
    have "phase_has hs ph' h" using add_handler_desc_has [OF ph(2) that _ h] ph'(1) ph(1) by simp
    moreover have "Some ph' \<in> set (al_list fl')" using l ph'(2) k'(1) by (simp add: set_update_memI)
    ultimately show ?thesis
      using h phase_grows_name [OF g] name by (auto simp: flow_has_def)
  qed
qed

section \<open>Handlers added to the flows of an operation\<close>

text \<open>Everything but the operation \<open>p\<close> is as before.\<close>

definition only_op :: "nat \<Rightarrow> world \<Rightarrow> world \<Rightarrow> bool" where
  "only_op p w w' \<longleftrightarrow> (\<forall>q. q \<noteq> p \<longrightarrow> w_op w' q = w_op w q) \<and> w_svc w' = w_svc w \<and> w_grp w' = w_grp w \<and>
     w_module w' = w_module w \<and> w_conf w' = w_conf w"

text \<open>The flows of an operation have grown; the rest of it that engagement looks at is as before.\<close>

definition flow_added :: "handler_store \<Rightarrow> flow \<Rightarrow> flow \<Rightarrow> bool" where
  "flow_added hs fl fl' \<longleftrightarrow> (flow_wf hs fl \<longrightarrow> flow_wf hs fl' \<and> flow_grows fl fl')"

definition flows_grow :: "handler_store \<Rightarrow> op_desc \<Rightarrow> op_desc \<Rightarrow> bool" where
  "flows_grow hs o1 o2 \<longleftrightarrow> (\<forall>t. rel_option (flow_added hs) (op_flow o1 t) (op_flow o2 t))"

lemma flows_grow_refl [simp]: "flows_grow hs o1 o1"
  by (auto simp: flows_grow_def flow_added_def intro: option.rel_refl)

lemma flow_added_trans: "flow_added hs a b \<Longrightarrow> flow_added hs b c \<Longrightarrow> flow_added hs a c"
  by (auto simp: flow_added_def intro: flow_grows_trans)

lemma flows_grow_trans: "flows_grow hs o1 o2 \<Longrightarrow> flows_grow hs o2 o3 \<Longrightarrow> flows_grow hs o1 o3"
proof -
  assume a: "flows_grow hs o1 o2" "flows_grow hs o2 o3"
  have "rel_option (flow_added hs) (op_flow o1 t) (op_flow o3 t)" for t
    using a [unfolded flows_grow_def, THEN spec, of t]
    by (cases "op_flow o1 t"; cases "op_flow o2 t"; cases "op_flow o3 t") (auto intro: flow_added_trans)
  then show ?thesis by (simp add: flows_grow_def)
qed

lemma flows_growD:
  "flows_grow hs o1 o2 \<Longrightarrow> op_flow o1 t = Some fl \<Longrightarrow> flow_wf hs fl \<Longrightarrow>
   \<exists>fl'. op_flow o2 t = Some fl' \<and> flow_wf hs fl' \<and> flow_grows fl fl'"
  unfolding flows_grow_def by (metis flow_added_def option_rel_Some1)

definition handlers_added :: "handler_store \<Rightarrow> nat \<Rightarrow> world \<Rightarrow> world \<Rightarrow> bool" where
  "handlers_added hs p w w' \<longleftrightarrow> only_op p w w' \<and> flows_grow hs (w_op w p) (w_op w' p) \<and>
     op_engaged_module_list (w_op w' p) = op_engaged_module_list (w_op w p)"

lemma handlers_added_refl: "reflp (handlers_added hs p)"
  by (simp add: reflp_def handlers_added_def only_op_def)

lemma handlers_added_trans: "transp (handlers_added hs p)"
  by (auto simp: transp_def handlers_added_def only_op_def intro: flows_grow_trans)

lemma op_flow_eq: "op_flow o1 t = op_get_flow (flow_msg t) o1"
  by (simp add: op_flow_def flow_msg_def axis2_op_get_in_flow_def axis2_op_get_out_flow_def
      axis2_op_get_fault_in_flow_def axis2_op_get_fault_out_flow_def split: flow_type.splits)

lemma flow_msg_inj: "flow_msg t = flow_msg t' \<longleftrightarrow> t = t'"
  by (cases t; cases t') (simp_all add: flow_msg_def)

lemma op_flow_set:
  "op_flow o1 t \<noteq> None \<Longrightarrow> op_flow (set_op_flow o1 t fl) t' = (if t' = t then Some fl else op_flow o1 t')"
  by (auto simp: op_flow_eq op_get_flow_def set_op_flow_def axis2_desc_get_child_def axis2_msg_get_flow_def
      flow_msg_inj split: option.splits)

lemma engaged_set_op_flow [simp]:
  "op_engaged_module_list (set_op_flow o1 t fl) = op_engaged_module_list o1"
  by (simp add: set_op_flow_def)

lemma on_op_flow_added:
  assumes "\<And>fl fl'. f fl = Inr fl' \<Longrightarrow> flow_wf hs fl \<Longrightarrow> flow_wf hs fl' \<and> flow_grows fl fl'"
  shows "handlers_added hs p w (snd (on_op_flow p t f w))"
proof (cases "op_flow (w_op w p) t")
  case None
  then show ?thesis by (simp add: on_op_flow_def handlers_added_def only_op_def)
next
  case (Some fl)
  show ?thesis
  proof (cases "f fl")
    case (Inl e)
    with Some show ?thesis by (simp add: on_op_flow_def handlers_added_def only_op_def)
  next
    case (Inr fl')
    have "flows_grow hs (w_op w p) (set_op_flow (w_op w p) t fl')"
      using Some assms [OF Inr] by (auto simp: flows_grow_def op_flow_set flow_added_def intro: option.rel_refl)
    with Some Inr show ?thesis by (simp add: on_op_flow_def handlers_added_def only_op_def)
  qed
qed

text \<open>The handlers of a module have names.\<close>

definition module_ok :: "handler_store \<Rightarrow> axis2_module_desc \<Rightarrow> bool" where
  "module_ok hs md \<longleftrightarrow> (\<forall>t flow d. module_flow md t = Some flow \<longrightarrow> Some d \<in> set (flow_handlers flow) \<longrightarrow>
     named hs (axis2_handler_desc_get_handler hs d))"

text \<open>A handler of a module that goes to the user phase \<open>n\<close>.\<close>

definition user_desc :: "handler_store \<Rightarrow> nat \<Rightarrow> string \<Rightarrow> bool" where
  "user_desc hs d n \<longleftrightarrow> (\<exists>rules. axis2_handler_desc_get_rules hs d = Some rules \<and> rule_name rules = Some n) \<and>
     \<not> is_system_phase (Some n)"

lemma add_handler_flow:
  assumes "named hs (axis2_handler_desc_get_handler hs d)"
    "axis2_handler_desc_get_rules hs d = Some rules" "rule_name rules = Some n"
    "axis2_phase_holder_add_handler m hs fl d = Inr fl'" "flow_wf hs fl"
  shows "flow_wf hs fl' \<and> flow_grows fl fl'"
  using holder_add_handler [OF assms(5,1-4)] by blast

lemma user_handler_added:
  assumes "\<forall>d. x = Some d \<longrightarrow> named (re_store env) (axis2_handler_desc_get_handler (re_store env) d)"
  shows "handlers_added (re_store env) p w (snd (user_handler env p t x w))"
proof -
  have id: "handlers_added (re_store env) p w w"
    using handlers_added_refl by (simp add: reflpD)
  show ?thesis
  proof (cases "\<exists>d rules n. x = Some d \<and> axis2_handler_desc_get_rules (re_store env) d = Some rules \<and>
      rule_name rules = Some n")
    case True
    then obtain d rules n where d: "x = Some d" "axis2_handler_desc_get_rules (re_store env) d = Some rules"
      "rule_name rules = Some n" by blast
    have "handlers_added (re_store env) p w (snd (on_op_flow p t
        (\<lambda>fl. axis2_phase_holder_add_handler (re_malloc env) (re_store env) fl d) w))"
      using assms d by (intro on_op_flow_added) (blast dest: add_handler_flow)
    with id d show ?thesis
      by (auto simp: user_handler_def named_phase_def skip_def phase_rule_defs)
  next
    case False
    then show ?thesis
      using id by (auto simp: user_handler_def named_phase_def fail_def phase_rule_defs
          split: option.splits bind_splits)
  qed
qed

lemma handlers_added_same: "handlers_added hs p w w"
  using handlers_added_refl by (simp add: reflpD)

lemma user_flow_added:
  assumes "module_ok (re_store env) md"
  shows "handlers_added (re_store env) p w (snd (user_flow env p md t w))"
proof (cases "module_flow md t")
  case None
  then show ?thesis by (simp add: user_flow_def fail_def skip_def handlers_added_same)
next
  case (Some flow)
  have "handlers_added (re_store env) p w (snd (each (user_handler env p t) (flow_handlers flow) w))"
    using assms Some
    by (intro each_rel [OF handlers_added_refl handlers_added_trans] user_handler_added)
       (auto simp: module_ok_def)
  with Some show ?thesis by (simp add: user_flow_def fail_def handlers_added_same)
qed

lemma user_flows_added:
  assumes "module_ok (re_store env) md"
  shows "handlers_added (re_store env) p w (snd (each (user_flow env p md) types w))"
  by (rule each_rel [OF handlers_added_refl handlers_added_trans user_flow_added [OF assms]])

lemma user_handler_has:
  assumes mem: "mem_ok (re_malloc env)" and nm: "named (re_store env) (axis2_handler_desc_get_handler (re_store env) d)"
    and d: "user_desc (re_store env) d n"
    and fl: "op_flow (w_op w p) t = Some fl" "flow_wf (re_store env) fl"
    and run: "user_handler env p t (Some d) w = (Inr (), w')"
  shows "\<exists>fl' h. op_flow (w_op w' p) t = Some fl' \<and> axis2_handler_desc_get_handler (re_store env) d = Some h \<and>
    flow_has (re_store env) fl' n h"
proof -
  obtain rules where r: "axis2_handler_desc_get_rules (re_store env) d = Some rules" "rule_name rules = Some n"
    using d by (auto simp: user_desc_def)
  obtain fl' where fl': "axis2_phase_holder_add_handler (re_malloc env) (re_store env) fl d = Inr fl'"
    "w' = w\<lparr>w_op := (w_op w)(p := set_op_flow (w_op w p) t fl')\<rparr>"
    using run r d fl(1)
    by (auto simp: user_handler_def named_phase_def phase_rule_defs user_desc_def on_op_flow_def
        split: sum.splits)
  from holder_add_handler(3) [OF fl(2) nm r fl'(1) mem] fl' fl(1) show ?thesis
    by (auto simp: op_flow_set)
qed

lemma user_flows_has:
  assumes mem: "mem_ok (re_malloc env)" and md: "module_ok (re_store env) md"
    and run: "each (user_flow env p md) flow_types w = (Inr (), w')"
    and fl: "op_flow (w_op w p) t = Some fl" "flow_wf (re_store env) fl"
    and flow: "module_flow md t = Some flow" "Some d \<in> set (flow_handlers flow)"
    and d: "user_desc (re_store env) d n"
  shows "\<exists>fl' h. op_flow (w_op w' p) t = Some fl' \<and> axis2_handler_desc_get_handler (re_store env) d = Some h \<and>
    flow_has (re_store env) fl' n h"
proof -
  let ?R = "handlers_added (re_store env) p"
  note RT = handlers_added_refl [of "re_store env" p] handlers_added_trans [of "re_store env" p]
  have "t \<in> set flow_types" by (cases t) (simp_all add: flow_types_def)
  from each_step [OF RT user_flow_added [OF md] run this]
  obtain u v where uv: "?R w u" "user_flow env p md t u = (Inr (), v)" "?R v w'" by blast
  have run2: "each (user_handler env p t) (flow_handlers flow) u = (Inr (), v)"
    using uv(2) flow(1) by (auto simp: user_flow_def fail_def split: if_splits)
  have "?R z (snd (user_handler env p t x z))" if "x \<in> set (flow_handlers flow)" for x z
    using that md flow(1) by (intro user_handler_added) (auto simp: module_ok_def)
  from each_step [OF RT this run2 flow(2)]
  obtain u1 v1 where u1: "?R u u1" "user_handler env p t (Some d) u1 = (Inr (), v1)" "?R v1 v" by blast
  have w_u1: "?R w u1" and v1_w': "?R v1 w'"
    using uv u1 RT(2) by (blast dest: transpD)+
  obtain fl1 where fl1: "op_flow (w_op u1 p) t = Some fl1" "flow_wf (re_store env) fl1"
    using w_u1 fl flows_growD by (fastforce simp: handlers_added_def)
  have nm: "named (re_store env) (axis2_handler_desc_get_handler (re_store env) d)"
    using md flow by (auto simp: module_ok_def)
  obtain fl2 h where fl2: "op_flow (w_op v1 p) t = Some fl2" "axis2_handler_desc_get_handler (re_store env) d = Some h"
    "flow_has (re_store env) fl2 n h"
    using user_handler_has [OF mem nm d fl1 u1(2)] by blast
  have "?R u1 v1" using user_handler_added [of "Some d" env p u1 t] nm u1(2) by simp
  then have "flow_wf (re_store env) fl2"
    using flows_growD [of "re_store env" "w_op u1 p" "w_op v1 p" t fl1] fl1 fl2(1) by (auto simp: handlers_added_def)
  then obtain fl3 where "op_flow (w_op w' p) t = Some fl3" "flow_grows fl2 fl3"
    using v1_w' fl2(1) flows_growD by (fastforce simp: handlers_added_def)
  with fl2 flow_has_grows show ?thesis by blast
qed

section \<open>The record of engaged modules\<close>

definition engaged :: "world \<Rightarrow> nat \<Rightarrow> nat \<Rightarrow> bool" where
  "engaged w p md \<longleftrightarrow> (\<exists>i. engaged_index UNDEFINED_BEHAVIOUR w p md = Inr (Some i))"

definition engaged_ok :: "op_desc \<Rightarrow> bool" where
  "engaged_ok o1 \<longleftrightarrow> (case op_engaged_module_list o1 of None \<Rightarrow> True
     | Some l \<Rightarrow> al_inv l \<and> None \<notin> set (al_list l))"

lemma engaged_index_cong:
  "w_module w' = w_module w \<Longrightarrow> op_engaged_module_list (w_op w' p) = op_engaged_module_list (w_op w p) \<Longrightarrow>
   engaged_index null w' p md = engaged_index null w p md"
proof -
  assume a: "w_module w' = w_module w" "op_engaged_module_list (w_op w' p) = op_engaged_module_list (w_op w p)"
  have "engaged_loop null w' q ms i = engaged_loop null w q ms i" for q ms i
    by (induction ms arbitrary: i) (simp_all add: a split: option.splits)
  then show ?thesis by (simp add: engaged_index_def a)
qed

lemma engaged_loop_total:
  "None \<notin> set ms \<Longrightarrow> \<exists>r. engaged_loop null w q ms i = Inr r"
proof (induction ms arbitrary: i)
  case (Cons m ms)
  then show ?case by (cases m) auto
qed simp

lemma engaged_loop_found:
  assumes "None \<notin> set ms" "Some md \<in> set ms"
  shows "\<exists>k. engaged_loop null w (md_qname (w_module w md)) ms i = Inr (Some k)"
  using assms
proof (induction ms arbitrary: i)
  case (Cons m ms)
  then show ?case by (cases m) (auto simp: qname_equals_iff)
qed simp

lemma op_flow_engaged_list [simp]: "op_flow (o1\<lparr>op_engaged_module_list := x\<rparr>) t = op_flow o1 t"
  by (simp add: op_flow_eq op_get_flow_def)

lemma record_engaged:
  assumes mem: "mem_ok (re_malloc env)" and ok: "engaged_ok (w_op w p)"
    and run: "axis2_op_add_to_engaged_module_list env p md w = (r, w')"
  shows "r = Inr ()" "only_op p w w'" "op_flow (w_op w' p) = op_flow (w_op w p)" "engaged w' p md"
    "engaged_ok (w_op w' p)"
proof -
  obtain l where l: "al_inv l" "None \<notin> set (al_list l)"
    and list: "(case op_engaged_module_list (w_op w p) of Some l \<Rightarrow> Some l
      | None \<Rightarrow> (case axutil_array_list_create (re_malloc env) 0 of Inl _ \<Rightarrow> None | Inr l \<Rightarrow> Some l)) = Some l"
    using ok create_total [OF mem, of 0] create_ok [of "re_malloc env" 0]
    by (fastforce simp: engaged_ok_def split: option.splits)
  define w1 where "w1 = set_engaged_list p l w"
  have f: "only_op p w w1" "op_flow (w_op w1 p) = op_flow (w_op w p)" "engaged_ok (w_op w1 p)"
    and eng: "op_engaged_module_list (w_op w1 p) = Some l"
    using l by (auto simp: w1_def set_engaged_list_def only_op_def engaged_ok_def fun_eq_iff)
  obtain l' where l': "axutil_array_list_add (re_malloc env) (Some l) (Some md) = Inr l'" "al_inv l'"
    "al_list l' = al_list l @ [Some md]"
    using al.add_total [OF l(1) mem, of "Some md"] by blast
  define w2 where "w2 = set_engaged_list p l' w1"
  have g: "only_op p w w2" "op_flow (w_op w2 p) = op_flow (w_op w p)" "engaged_ok (w_op w2 p)" "engaged w2 p md"
    using l l' f engaged_loop_found [of "al_list l'" md UNDEFINED_BEHAVIOUR w2 0]
    by (auto simp: w2_def set_engaged_list_def only_op_def engaged_ok_def fun_eq_iff engaged_def
        engaged_index_def items_spec)
  obtain i where i: "engaged_index UNDEFINED_BEHAVIOUR w1 p md = Inr i"
    using engaged_loop_total [OF l(2), of UNDEFINED_BEHAVIOUR w1 "md_qname (w_module w1 md)" 0] eng
    by (auto simp: engaged_index_def items_spec [OF l(1)])
  have "(r, w') = (Inr (), if i = None then w2 else w1)"
    using run list i l'(1) by (auto simp: axis2_op_add_to_engaged_module_list_def Let_def w1_def w2_def
        split: option.splits)
  with f g i show "r = Inr ()" "only_op p w w'" "op_flow (w_op w' p) = op_flow (w_op w p)"
    "engaged w' p md" "engaged_ok (w_op w' p)"
    by (auto simp: engaged_def split: if_splits)
qed

section \<open>All operations of a service\<close>

text \<open>
  An operation ready for a module: its flows and its record are well formed and the module is not recorded.
\<close>

definition ready :: "handler_store \<Rightarrow> world \<Rightarrow> nat \<Rightarrow> nat \<Rightarrow> bool" where
  "ready hs w md p \<longleftrightarrow> engaged_ok (w_op w p) \<and> \<not> engaged w p md \<and>
     (\<forall>t fl. op_flow (w_op w p) t = Some fl \<longrightarrow> flow_wf hs fl)"

text \<open>
  The module is engaged to the operation: it is recorded, every flow has grown, and every handler of
  the module for a user phase is in the phase of that name of the flow of its type.
\<close>

definition engaged_from :: "handler_store \<Rightarrow> nat \<Rightarrow> world \<Rightarrow> world \<Rightarrow> nat \<Rightarrow> bool" where
  "engaged_from hs md w w' p \<longleftrightarrow> engaged w' p md \<and>
     (\<forall>t fl. op_flow (w_op w p) t = Some fl \<longrightarrow>
        (\<exists>fl'. op_flow (w_op w' p) t = Some fl' \<and> flow_wf hs fl' \<and> flow_grows fl fl' \<and>
          (\<forall>flow d n. module_flow (w_module w md) t = Some flow \<longrightarrow> Some d \<in> set (flow_handlers flow) \<longrightarrow>
             user_desc hs d n \<longrightarrow>
             (\<exists>h. axis2_handler_desc_get_handler hs d = Some h \<and> flow_has hs fl' n h))))"

lemma engage_user_phases_spec:
  assumes mem: "mem_ok (re_malloc env)" and md: "module_ok (re_store env) (w_module w md)"
    and rdy: "ready (re_store env) w md p"
  shows "only_op p w (snd (engage_user_phases env md p w))"
    and "engage_user_phases env md p w = (Inr (), w') \<Longrightarrow> engaged_from (re_store env) md w w' p"
proof -
  obtain r w1 where run: "each (user_flow env p (w_module w md)) flow_types w = (r, w1)" by force
  have a: "handlers_added (re_store env) p w w1"
    using user_flows_added [OF md, of p w flow_types] run by simp
  then have ok: "engaged_ok (w_op w1 p)" using rdy by (simp add: handlers_added_def ready_def engaged_ok_def)
  obtain r2 w2 where run2: "axis2_op_add_to_engaged_module_list env p md w1 = (r2, w2)" by force
  note rec = record_engaged [OF mem ok run2]
  show "only_op p w (snd (engage_user_phases env md p w))"
    using run run2 a rec(2) by (cases r) (auto simp: engage_user_phases_def andthen_def handlers_added_def only_op_def)
  show "engaged_from (re_store env) md w w' p" if ok': "engage_user_phases env md p w = (Inr (), w')"
  proof -
    from ok' run run2 have r: "r = Inr ()" "w' = w2"
      by (cases r; auto simp: engage_user_phases_def andthen_def)+
    show ?thesis
      unfolding engaged_from_def
    proof (intro conjI allI impI)
      show "engaged w' p md" using rec(4) r(2) by simp
      fix t fl assume fl: "op_flow (w_op w p) t = Some fl"
      then have wf: "flow_wf (re_store env) fl" using rdy by (auto simp: ready_def)
      obtain fl' where fl': "op_flow (w_op w1 p) t = Some fl'" "flow_wf (re_store env) fl'" "flow_grows fl fl'"
        using a fl wf flows_growD unfolding handlers_added_def by blast
      have "\<exists>h. axis2_handler_desc_get_handler (re_store env) d = Some h \<and> flow_has (re_store env) fl' n h"
        if "module_flow (w_module w md) t = Some flow" "Some d \<in> set (flow_handlers flow)"
          "user_desc (re_store env) d n" for flow d n
        using user_flows_has [OF mem md run [unfolded r(1)] fl wf that] fl'(1) by auto
      with fl' rec(3) r(2) show "\<exists>fl'. op_flow (w_op w' p) t = Some fl' \<and> flow_wf (re_store env) fl' \<and>
          flow_grows fl fl' \<and>
          (\<forall>flow d n. module_flow (w_module w md) t = Some flow \<longrightarrow> Some d \<in> set (flow_handlers flow) \<longrightarrow>
             user_desc (re_store env) d n \<longrightarrow>
             (\<exists>h. axis2_handler_desc_get_handler (re_store env) d = Some h \<and> flow_has (re_store env) fl' n h))"
        by auto
    qed
  qed
qed

lemma engaged_total: "engaged_ok (w_op w p) \<Longrightarrow> \<exists>i. engaged_index null w p md = Inr i"
  by (auto simp: engaged_ok_def engaged_index_def items_spec engaged_loop_total split: option.splits)

lemma only_op_other:
  assumes "only_op p w w1" "q \<noteq> p"
  shows "engaged w1 q md = engaged w q md" "ready hs w1 md q = ready hs w md q"
    "engaged_from hs md w1 w' q = engaged_from hs md w w' q"
  using assms engaged_index_cong [of w1 w q UNDEFINED_BEHAVIOUR md]
  by (simp_all add: only_op_def engaged_def ready_def engaged_from_def)

lemma user_op_body_ready:
  assumes "ready hs w md p"
  shows "user_op_body env md (Some p) (False, w) = (case engage_user_phases env md p w of (r, w') \<Rightarrow> (r, False, w'))"
proof -
  obtain i where "engaged_index UNDEFINED_BEHAVIOUR w p md = Inr i"
    using engaged_total assms unfolding ready_def by blast
  then show ?thesis
    using assms by (cases i) (auto simp: user_op_body_def ready_def engaged_def)
qed

lemma user_ops_engaged:
  assumes mem: "mem_ok (re_malloc env)" and md: "module_ok (re_store env) (w_module w md)"
    and "distinct ps" "\<forall>p \<in> set ps. ready (re_store env) w md p"
  shows "(\<forall>q. q \<notin> set ps \<longrightarrow> w_op (snd (snd (each (\<lambda>p. user_op_body env md (Some p)) ps (False, w)))) q = w_op w q) \<and>
    w_module (snd (snd (each (\<lambda>p. user_op_body env md (Some p)) ps (False, w)))) = w_module w \<and>
    (fst (each (\<lambda>p. user_op_body env md (Some p)) ps (False, w)) = Inr () \<longrightarrow>
      (\<forall>p \<in> set ps. engaged_from (re_store env) md w
         (snd (snd (each (\<lambda>p. user_op_body env md (Some p)) ps (False, w)))) p))"
  using assms(2-)
proof (induction ps arbitrary: w)
  case Nil
  then show ?case by (simp add: skip_def)
next
  case (Cons p ps)
  let ?hs = "re_store env"
  obtain r w1 where r: "engage_user_phases env md p w = (r, w1)" by force
  have p: "ready ?hs w md p" using Cons.prems by simp
  have frame: "only_op p w w1" using engage_user_phases_spec(1) [OF mem Cons.prems(1) p] r by simp
  then have m1: "w_module w1 = w_module w" by (simp add: only_op_def)
  show ?case
  proof (cases r)
    case (Inl e)
    with r frame user_op_body_ready [OF p] show ?thesis by (auto simp: andthen_def only_op_def)
  next
    case (Inr u)
    let ?r = "each (\<lambda>p. user_op_body env md (Some p)) ps (False, w1)"
    have eq: "each (\<lambda>p. user_op_body env md (Some p)) (p # ps) (False, w) = ?r"
      using r Inr user_op_body_ready [OF p] by (simp add: andthen_def)
    have "\<forall>q \<in> set ps. ready ?hs w1 md q"
      using Cons.prems only_op_other(2) [OF frame] by (metis distinct.simps(2) list.set_intros(2))
    note IH = Cons.IH [OF _ _ this]
    have dist: "distinct ps" "p \<notin> set ps" using Cons.prems by auto
    note IH = IH [unfolded m1, OF Cons.prems(1) dist(1)]
    have "engaged_from ?hs md w (snd (snd ?r)) p"
    proof -
      have "engaged_from ?hs md w w1 p"
        using engage_user_phases_spec(2) [OF mem Cons.prems(1) p] r Inr by simp
      moreover have "w_op (snd (snd ?r)) p = w_op w1 p" "w_module (snd (snd ?r)) = w_module w1"
        using IH dist m1 by auto
      ultimately show ?thesis
        using engaged_index_cong [of "snd (snd ?r)" w1 p UNDEFINED_BEHAVIOUR md]
        by (simp add: engaged_from_def engaged_def)
    qed
    moreover have "engaged_from ?hs md w (snd (snd ?r)) q" if "engaged_from ?hs md w1 (snd (snd ?r)) q" "q \<in> set ps" for q
      using that only_op_other(3) [OF frame] dist by metis
    ultimately show ?thesis
      unfolding eq using IH frame dist by (auto simp: only_op_def)
  qed
qed

text \<open>Once the flag is set, the rest of the loop changes nothing.\<close>

lemma user_ops_flag_set:
  "snd (snd (each (\<lambda>p. user_op_body env md (Some p)) ps (True, w))) = w"
proof (induction ps)
  case (Cons p ps)
  then show ?case
    by (auto simp: andthen_def user_op_body_def split: sum.splits)
qed (simp add: skip_def)

lemma user_op_body_engaged:
  assumes "engaged w p md"
  shows "user_op_body env md (Some p) (b, w) = (Inr (), True, w)"
  using assms by (auto simp: user_op_body_def engaged_def)

lemma user_phases_each:
  assumes "hash_inv (op_alias_map (w_svc w s))" "re_malloc env 32"
  shows "axis2_phase_resolver_add_module_handlers_to_user_defined_phases env (Some s) (Some md) w =
    (case each (\<lambda>p. user_op_body env md (Some p)) (hash_values (op_alias_map (w_svc w s))) (False, w) of
       (r, _, w') \<Rightarrow> (r, w'))"
  by (simp add: axis2_phase_resolver_add_module_handlers_to_user_defined_phases_def
      foreach_each [of _ "re_malloc env", OF assms])

section \<open>A service for the witnesses\<close>

text \<open>
  Two operations with one user phase each, and a module with a handler for the user phase and one for
  the dispatch phase. The table has one bucket chain, as with a hash function that returns 0.
\<close>

definition chain_hash :: "string \<Rightarrow> 32 word \<Rightarrow> 32 word \<times> 32 word" where
  "chain_hash key klen =
     (0, if klen = AXIS2_HASH_KEY_STRING then of_nat (length (c_string key)) else klen)"

definition chain_table :: "(string \<times> nat) list \<Rightarrow> nat axutil_hash" where
  "chain_table kvs = \<lparr>h_array = Some [map (\<lambda>(k, v). \<lparr>e_hash = 0, e_key = k, e_klen = of_nat (length k),
       e_val = Some v\<rparr>) kvs, [], [], []],
     h_count = of_nat (length kvs), h_max = 3, h_func = chain_hash, h_free = []\<rparr>"

definition rule_for :: "string \<Rightarrow> axis2_phase_rule" where
  "rule_for n = \<lparr>rule_before = None, rule_after = None, rule_name = Some n, rule_first = False,
     rule_last = False\<rparr>"

definition logging_store :: handler_store where
  "logging_store = \<lparr>handler_at = (\<lambda>h. \<lparr>handler_desc = Some h\<rparr>),
     desc_at = (\<lambda>d. \<lparr>desc_name = Some (if d = 0 then ''Logger'' else ''Dispatcher''),
       desc_rules = Some (rule_for (if d = 0 then ''UserPhase'' else ''Dispatch'')),
       desc_handler = Some d, desc_class_name = None\<rparr>)\<rparr>"

definition example_env :: resolver_env where
  "example_env = \<lparr>re_malloc = (\<lambda>n. True), re_store = logging_store, re_error_status = AXIS2_SUCCESS,
     re_default_msg_recv = None\<rparr>"

definition logging_module :: axis2_module_desc where
  "logging_module = \<lparr>md_qname = \<lparr>localpart = ''logging'', namespace_uri = None, prefix = None,
       qname_string = None, qname_ref = 1\<rparr>,
     md_in_flow = Some \<lparr>axis2_flow.flow_list = Some (al_of [0, 1])\<rparr>, md_out_flow = None,
     md_fault_in_flow = None, md_fault_out_flow = None, md_ops = chain_table []\<rparr>"

definition echo_op :: "nat list \<Rightarrow> op_desc" where
  "echo_op ms = \<lparr>op_qname = ''echo'',
     op_base = Some (\<lambda>k. if k = AXIS2_MSG_IN then Some \<lparr>msg_flow = Some (al_of [plain_phase ''UserPhase'' []])\<rparr>
       else None),
     op_msg_recv = Some 1, op_parent = Some 0, op_engaged_module_list = Some (al_of ms),
     op_wsamapping_list = [], op_from_module = False, op_params = []\<rparr>"

text \<open>The first operation has the modules \<open>ms\<close> engaged.\<close>

definition example_world :: "nat list \<Rightarrow> world" where
  "example_world ms = \<lparr>w_op = (\<lambda>p. echo_op (if p = 0 then ms else [])),
     w_svc = (\<lambda>s. \<lparr>op_alias_map = chain_table [(''echo'', 0), (''ping'', 2)], op_action_map = chain_table [],
       svc_engaged_module_list = al_of [], svc_module_list = al_of [], svc_parent = None\<rparr>),
     w_grp = (\<lambda>g. \<lparr>grp_module_qname_list = al_of []\<rparr>), w_module = (\<lambda>m. logging_module),
     w_conf = \<lparr>conf_in_phases = Some (al_of [plain_phase ''Dispatch'' []]), conf_out_phases = None,
       conf_out_fault_phases = None, conf_in_fault_phases = None, conf_engaged_module_list = al_of [],
       conf_all_modules = chain_table [], conf_name_to_version_map = None, conf_all_svcs = None\<rparr>\<rparr>"

lemmas example_world_defs = example_world_def example_env_def echo_op_def logging_module_def
  logging_store_def rule_for_def

lemma chain_hash_ok: "hash_func_ok chain_hash"
  by (auto simp: hash_func_ok_def chain_hash_def hash_of_def norm_key_def valid_key_def min_absorb2)

lemma example_table: "hash_inv (chain_table [(''echo'', 0), (''ping'', 2)])"
proof -
  have "\<exists>k\<le>31. (3::32 word) = mask k" by (rule exI [of _ 2]) (simp add: mask_eq_exp_minus_1)
  then show ?thesis
    using chain_hash_ok
    by (auto simp: hash_inv_def chain_table_def buckets_ok_def entries_def entry_ok_def entry_key_def
        hash_of_def chain_hash_def less_Suc_eq nth_Cons')
qed

lemma example_parts [simp]:
  "w_module (example_world ms) m = logging_module" "w_op (example_world ms) 2 = echo_op []"
  "op_alias_map (w_svc (example_world ms) s) = chain_table [(''echo'', 0), (''ping'', 2)]"
  "re_store example_env = logging_store" "mem_ok (re_malloc example_env)"
  by (simp_all add: example_world_def example_env_def)

lemma example_values: "hash_values (chain_table [(''echo'', 0), (''ping'', 2)]) = [0, 2]"
  by (simp add: hash_values_def entries_def chain_table_def)

lemma example_abs: "hash_abs (chain_table [(''echo'', 0), (''ping'', 2)]) ''ping'' = Some 2"
  by (simp add: hash_abs_def entries_def chain_table_def entry_map_def entry_key_def)

lemma example_flow_wf: "phase_wf hs (plain_phase n []) \<and> flow_wf hs (al_of [plain_phase n []])"
  by (simp add: flow_wf_def phase_wf_def plain_phase_def ph_list_def)

lemma example_module_ok: "module_ok logging_store logging_module"
  by (auto simp: module_ok_def module_flow_def example_world_defs named_def hname_def handler_defs
      split: flow_type.splits)

lemma example_ready:
  assumes "p = 0 \<longrightarrow> ms = []"
  shows "ready logging_store (example_world ms) 0 p"
  using assms example_flow_wf
  by (auto simp: ready_def engaged_ok_def engaged_def engaged_index_def items_spec example_world_defs
      op_flow_eq op_get_flow_def axis2_desc_get_child_def axis2_msg_get_flow_def split: if_splits)

section \<open>Properties of the user phases\<close>

text \<open>
  C33 (functional): when the module is engaged to no operation of a service yet, and
  \<^verbatim>\<open>axis2_phase_resolver_add_module_handlers_to_user_defined_phases\<close> succeeds, then it is recorded in every operation
  of the service; each of the operation's flows keeps its phases and the order of their handlers; and each
  handler of the module's flow of that type that names a user phase is in the phase of that name. Services with an
  operation that has the module already are left out: there the operations visited later may get nothing
  (\<open>user_phases_skip_after_engaged\<close>).
\<close>

theorem user_phases_engage_every_operation:
  assumes "mem_ok (re_malloc env)" and "module_ok (re_store env) (w_module w md)"
    and "hash_inv (op_alias_map (w_svc w s))" and "distinct (hash_values (op_alias_map (w_svc w s)))"
    and "\<And>k p. hash_abs (op_alias_map (w_svc w s)) k = Some p \<Longrightarrow> ready (re_store env) w md p"
    and "axis2_phase_resolver_add_module_handlers_to_user_defined_phases env (Some s) (Some md) w = (Inr (), w')"
    and "hash_abs (op_alias_map (w_svc w s)) k = Some p"
  shows "engaged_from (re_store env) md w w' p"
proof -
  let ?ps = "hash_values (op_alias_map (w_svc w s))"
  have rdy: "\<forall>p \<in> set ?ps. ready (re_store env) w md p"
    using assms(5) by (auto simp: values_abs [OF assms(3)])
  have p: "p \<in> set ?ps" using assms(7) by (auto simp: values_abs [OF assms(3)])
  have "fst (each (\<lambda>p. user_op_body env md (Some p)) ?ps (False, w)) = Inr ()"
    "w' = snd (snd (each (\<lambda>p. user_op_body env md (Some p)) ?ps (False, w)))"
    using assms(6) user_phases_each [OF assms(3) mem_okD [OF assms(1)]] by (auto split: prod.splits)
  with user_ops_engaged [OF assms(1,2,4) rdy] p show ?thesis by blast
qed

theorem user_phases_engage_every_operation_witness:
  "\<exists>w'. axis2_phase_resolver_add_module_handlers_to_user_defined_phases example_env (Some 0) (Some 0)
     (example_world []) = (Inr (), w') \<and> engaged_from logging_store 0 (example_world []) w' 2"
proof -
  let ?r = "axis2_phase_resolver_add_module_handlers_to_user_defined_phases example_env (Some 0) (Some 0)
     (example_world [])"
  have "\<not> isl (fst ?r)" by code_simp
  then obtain w' where run: "?r = (Inr (), w')" by (cases ?r; cases "fst ?r") auto
  have "engaged_from (re_store example_env) 0 (example_world []) w' 2"
    by (rule user_phases_engage_every_operation [OF _ _ _ _ _ run, of "''ping''"])
       (simp_all add: example_table example_module_ok example_values example_ready example_abs)
  with run show ?thesis by auto
qed

text \<open>
  The flag that says whether the module is engaged is not reset between operations: when the
  loop meets an operation that has the module already, all the operations it would visit later are left as
  they are, without the module's handlers, and success is returned all the same.
\<close>

theorem user_phases_skip_after_engaged:
  assumes "mem_ok (re_malloc env)" and "module_ok (re_store env) (w_module w md)"
    and "hash_inv (op_alias_map (w_svc w s))"
    and "hash_values (op_alias_map (w_svc w s)) = xs @ p # ys" "distinct (xs @ p # ys)"
    and "\<And>q. q \<in> set xs \<Longrightarrow> ready (re_store env) w md q" and "engaged w p md"
    and "q \<in> set ys"
  shows "w_op (snd (axis2_phase_resolver_add_module_handlers_to_user_defined_phases env (Some s) (Some md) w)) q =
    w_op w q"
proof -
  let ?e = "each (\<lambda>p. user_op_body env md (Some p))"
  have app: "each f (as @ bs) = andthen (each f as) (each f bs)" for f :: "nat \<Rightarrow> (bool \<times> world) step" and as bs
    by (induction as) (auto simp: fun_eq_iff andthen_def skip_def split: prod.splits sum.splits)
  obtain r b w1 where r: "?e xs (False, w) = (r, b, w1)" by (metis prod.exhaust)
  have xs: "\<forall>q. q \<notin> set xs \<longrightarrow> w_op w1 q = w_op w q" "w_module w1 = w_module w"
    using user_ops_engaged [OF assms(1,2), of xs] assms(5,6) r by auto
  then have "engaged w1 p md"
    using assms(5,7) engaged_index_cong [of w1 w p UNDEFINED_BEHAVIOUR md] by (auto simp: engaged_def)
  then have "snd (snd (?e (p # ys) (b, w1))) = w1"
    using user_op_body_engaged [of w1 p md env b] user_ops_flag_set [of env md ys w1]
    by (simp add: andthen_def)
  then have "snd (snd (?e (xs @ p # ys) (False, w))) = w1"
    using r by (simp add: app andthen_def split: sum.splits)
  then show ?thesis
    using user_phases_each [OF assms(3) mem_okD [OF assms(1)], of md] assms(4,5,8) xs(1)
    by (auto split: prod.splits)
qed

theorem user_phases_skip_after_engaged_witness:
  "w_op (snd (axis2_phase_resolver_add_module_handlers_to_user_defined_phases example_env (Some 0) (Some 0)
     (example_world [0]))) 2 = echo_op []"
proof -
  have "engaged (example_world [0]) 0 0"
    by (simp add: engaged_def engaged_index_def items_spec example_world_defs qname_equals_iff)
  then show ?thesis
    using user_phases_skip_after_engaged [of example_env "example_world [0]" 0 0 "[]" 0 "[2]" 2]
      example_values example_table example_module_ok
    by simp
qed

end
