(* ===== verification/Phase_Resolver_Op.thy ===== *)
theory Phase_Resolver_Op
  imports Phase_Resolver_Props
begin

text \<open>
  What engaging a module to one operation does (\<^verbatim>\<open>axis2_phase_resolver_engage_module_to_op\<close> and its client
  \<^verbatim>\<open>axis2_op_engage_module\<close>): where the handlers go, and what is not recorded.
\<close>

section \<open>Engaging a module to one operation\<close>

text \<open>
  Handlers are added to an operation and to the in phases of the configuration; nothing else changes.
\<close>

definition engagement :: "handler_store \<Rightarrow> nat \<Rightarrow> world \<Rightarrow> world \<Rightarrow> bool" where
  "engagement hs p w w' \<longleftrightarrow> (\<forall>q. q \<noteq> p \<longrightarrow> w_op w' q = w_op w q) \<and> w_svc w' = w_svc w \<and> w_grp w' = w_grp w \<and>
     w_module w' = w_module w \<and> flows_grow hs (w_op w p) (w_op w' p) \<and>
     op_engaged_module_list (w_op w' p) = op_engaged_module_list (w_op w p) \<and>
     rel_option (flow_added hs) (conf_in_phases (w_conf w)) (conf_in_phases (w_conf w'))"

lemma engagement_refl: "reflp (engagement hs p)"
  by (auto simp: reflp_def engagement_def flow_added_def intro: option.rel_refl)

lemma engagement_trans: "transp (engagement hs p)"
proof (rule transpI)
  fix x y z assume a: "engagement hs p x y" "engagement hs p y z"
  then have "rel_option (flow_added hs) (conf_in_phases (w_conf x)) (conf_in_phases (w_conf z))"
    by (cases "conf_in_phases (w_conf x)"; cases "conf_in_phases (w_conf y)"; cases "conf_in_phases (w_conf z)")
       (auto simp: engagement_def intro: flow_added_trans)
  with a show "engagement hs p x z"
    by (auto simp: engagement_def intro: flows_grow_trans)
qed

lemma engagement_same: "engagement hs p w w"
  using engagement_refl by (simp add: reflpD)

lemma handlers_added_engagement: "handlers_added hs p w w' \<Longrightarrow> engagement hs p w w'"
  by (auto simp: handlers_added_def engagement_def only_op_def flow_added_def intro: option.rel_refl)

lemma on_conf_in_flow_engagement:
  assumes "\<And>fl fl'. f fl = Inr fl' \<Longrightarrow> flow_wf hs fl \<Longrightarrow> flow_wf hs fl' \<and> flow_grows fl fl'"
  shows "engagement hs p w (snd (on_conf_flow AXIS2_IN_FLOW f w))"
  using assms
  by (auto simp: on_conf_flow_def engagement_same conf_flow_def set_conf_flow_def
      axis2_conf_get_in_phases_upto_and_including_post_dispatch_def split: option.splits sum.splits)
     (auto simp: engagement_def flow_added_def)

lemma handle_in_op_engagement:
  assumes "\<forall>d. x = Some d \<longrightarrow> named (re_store env) (axis2_handler_desc_get_handler (re_store env) d) \<and>
      (\<forall>rules. axis2_handler_desc_get_rules (re_store env) d = Some rules \<longrightarrow> rule_name rules \<noteq> None)"
  shows "engagement (re_store env) p w (snd (handle_in_op env
    (axis2_phase_holder_add_handler (re_malloc env) (re_store env)) p t x w))"
proof (cases "\<exists>d rules. x = Some d \<and> axis2_handler_desc_get_rules (re_store env) d = Some rules")
  case True
  then obtain d rules n where d: "x = Some d" "axis2_handler_desc_get_rules (re_store env) d = Some rules"
    "rule_name rules = Some n" using assms by blast
  note step = add_handler_flow [OF _ d(2,3)]
  have "named (re_store env) (axis2_handler_desc_get_handler (re_store env) d)" using assms d(1) by blast
  then show ?thesis
    using d handlers_added_engagement [OF on_op_flow_added] on_conf_in_flow_engagement step
    by (auto simp: handle_in_op_def fail_def engagement_same)
next
  case False
  then show ?thesis
    by (auto simp: handle_in_op_def fail_def engagement_same split: option.splits)
qed

text \<open>The handlers of a module have names, and their rules name a phase.\<close>

definition named_module :: "handler_store \<Rightarrow> axis2_module_desc \<Rightarrow> bool" where
  "named_module hs md \<longleftrightarrow> module_ok hs md \<and> (\<forall>t flow d rules. module_flow md t = Some flow \<longrightarrow>
     Some d \<in> set (flow_handlers flow) \<longrightarrow> axis2_handler_desc_get_rules hs d = Some rules \<longrightarrow> rule_name rules \<noteq> None)"

lemma handle_op_flow_engagement:
  assumes "named_module (re_store env) md"
  shows "engagement (re_store env) p w (snd (handle_op_flow env
    (axis2_phase_holder_add_handler (re_malloc env) (re_store env)) p md t w))"
proof (cases "op_flow (w_op w p) t = None \<or> module_flow md t = None")
  case True
  then show ?thesis
    by (auto simp: handle_op_flow_def skip_def fail_def engagement_same split: option.splits)
next
  case False
  then obtain flow where flow: "module_flow md t = Some flow" by blast
  have "engagement (re_store env) p w (snd (each (handle_in_op env
      (axis2_phase_holder_add_handler (re_malloc env) (re_store env)) p t) (flow_handlers flow) w))"
    using assms flow
    by (intro each_rel [OF engagement_refl engagement_trans] handle_in_op_engagement)
       (auto simp: named_module_def module_ok_def)
  with False flow show ?thesis
    by (auto simp: handle_op_flow_def fail_def engagement_same split: option.splits)
qed

text \<open>The handler \<open>d\<close> of the flow \<open>t\<close> goes to the phase \<open>n\<close>: where it is found afterwards.\<close>

definition in_place :: "handler_store \<Rightarrow> world \<Rightarrow> nat \<Rightarrow> flow_type \<Rightarrow> string \<Rightarrow> nat \<Rightarrow> bool" where
  "in_place hs w p t n h \<longleftrightarrow>
     (\<exists>fl. (if is_system_phase (Some n) then conf_in_phases (w_conf w) else op_flow (w_op w p) t) = Some fl \<and>
       flow_wf hs fl \<and> flow_has hs fl n h)"

lemma in_place_engagement:
  assumes "engagement hs p w w'" "in_place hs w p t n h"
  shows "in_place hs w' p t n h"
proof -
  obtain fl where fl: "(if is_system_phase (Some n) then conf_in_phases (w_conf w) else op_flow (w_op w p) t) = Some fl"
    "flow_wf hs fl" "flow_has hs fl n h" using assms(2) by (auto simp: in_place_def)
  have "\<exists>fl'. (if is_system_phase (Some n) then conf_in_phases (w_conf w') else op_flow (w_op w' p) t) = Some fl' \<and>
      flow_wf hs fl' \<and> flow_grows fl fl'"
    using assms(1) fl(1,2) flows_growD [of hs "w_op w p" "w_op w' p" t fl]
    by (auto simp: engagement_def flow_added_def option_rel_Some1 split: if_splits)
  with fl(3) show ?thesis by (auto simp: in_place_def intro: flow_has_grows)
qed

text \<open>The flows that the handlers may go to are well formed.\<close>

definition op_ready :: "handler_store \<Rightarrow> world \<Rightarrow> nat \<Rightarrow> bool" where
  "op_ready hs w p \<longleftrightarrow> (\<forall>t fl. op_flow (w_op w p) t = Some fl \<longrightarrow> flow_wf hs fl) \<and>
     (\<forall>fl. conf_in_phases (w_conf w) = Some fl \<longrightarrow> flow_wf hs fl)"

lemma op_ready_engagement:
  assumes "engagement hs p w w'" "op_ready hs w p"
  shows "op_ready hs w' p"
proof -
  have "rel_option (flow_added hs) (op_flow (w_op w p) t) (op_flow (w_op w' p) t)" for t
    using assms(1) by (simp add: engagement_def flows_grow_def)
  then have "flow_wf hs fl'" if "op_flow (w_op w' p) t = Some fl'" for t fl'
    using that assms(2) by (metis flow_added_def op_ready_def option_rel_Some2)
  moreover have "rel_option (flow_added hs) (conf_in_phases (w_conf w)) (conf_in_phases (w_conf w'))"
    using assms(1) by (simp add: engagement_def)
  then have "flow_wf hs fl'" if "conf_in_phases (w_conf w') = Some fl'" for fl'
    using that assms(2) by (auto simp: flow_added_def op_ready_def option_rel_Some2)
  ultimately show ?thesis by (auto simp: op_ready_def)
qed

lemma handle_in_op_places:
  assumes mem: "mem_ok (re_malloc env)" and rdy: "op_ready (re_store env) w p"
    and nm: "named (re_store env) (axis2_handler_desc_get_handler (re_store env) d)"
    and r: "axis2_handler_desc_get_rules (re_store env) d = Some rules" "rule_name rules = Some n"
    and run: "handle_in_op env (axis2_phase_holder_add_handler (re_malloc env) (re_store env)) p t (Some d) w =
      (Inr (), w')"
  shows "\<exists>h. axis2_handler_desc_get_handler (re_store env) d = Some h \<and> in_place (re_store env) w' p t n h"
proof -
  let ?fl = "if is_system_phase (Some n) then conf_in_phases (w_conf w) else op_flow (w_op w p) t"
  obtain fl fl' where fl: "?fl = Some fl"
    "axis2_phase_holder_add_handler (re_malloc env) (re_store env) fl d = Inr fl'"
    "(if is_system_phase (Some n) then conf_in_phases (w_conf w') else op_flow (w_op w' p) t) = Some fl'"
    using run r
    by (auto simp: handle_in_op_def phase_rule_defs on_op_flow_def on_conf_flow_def fail_def conf_flow_def
        set_conf_flow_def axis2_conf_get_in_phases_upto_and_including_post_dispatch_def op_flow_set
        split: if_splits option.splits sum.splits)
  then have wf: "flow_wf (re_store env) fl" using rdy by (auto simp: op_ready_def split: if_splits)
  from holder_add_handler [OF wf nm r fl(2)] mem fl(3) show ?thesis
    by (auto simp: in_place_def)
qed

section \<open>Properties of the engagement to an operation\<close>

text \<open>
  After a successful \<^verbatim>\<open>axis2_phase_resolver_engage_module_to_op\<close> each handler of a flow
  of the module that the operation has too is in the phase its rules name: for a user phase in
  that flow of the operation; for a system phase, whatever the flow, in the in phases of the configuration. All
  other operations, the services and the recorded modules are as before, and flows only grow. A comment of the file
  says that a handler of a system phase goes to the phases of its own flow.
\<close>

theorem engage_module_to_op_places_handlers:
  assumes "mem_ok (re_malloc env)" and "named_module (re_store env) md" and "op_ready (re_store env) w p"
    and "axis2_phase_resolver_engage_module_to_op env (Some p) (Some md) w = (Inr (), w')"
    and "op_flow (w_op w p) t \<noteq> None" and "module_flow md t = Some flow" and "Some d \<in> set (flow_handlers flow)"
    and "axis2_handler_desc_get_rules (re_store env) d = Some rules" and "rule_name rules = Some n"
  shows "engagement (re_store env) p w w' \<and>
    (\<exists>h. axis2_handler_desc_get_handler (re_store env) d = Some h \<and> in_place (re_store env) w' p t n h)"
proof
  let ?act = "axis2_phase_holder_add_handler (re_malloc env) (re_store env)"
  let ?R = "engagement (re_store env) p"
  note RT = engagement_refl [of "re_store env" p] engagement_trans [of "re_store env" p]
  note flow_step = handle_op_flow_engagement [OF assms(2)]
  have run: "each (handle_op_flow env ?act p md) flow_types w = (Inr (), w')"
    using assms(4) by (simp add: axis2_phase_resolver_engage_module_to_op_def)
  have "?R w (snd (each (handle_op_flow env ?act p md) flow_types w))"
    by (rule each_rel [OF RT flow_step])
  then show "?R w w'" by (simp add: run)
  have "t \<in> set flow_types" by (cases t) (simp_all add: flow_types_def)
  from each_step [OF RT flow_step run this]
  obtain u v where uv: "?R w u" "handle_op_flow env ?act p md t u = (Inr (), v)" "?R v w'" by blast
  have "op_flow (w_op u p) t \<noteq> None"
    using uv(1) assms(5) by (auto simp: engagement_def flows_grow_def option_rel_Some1 dest!: spec [of _ t])
  then have run2: "each (handle_in_op env ?act p t) (flow_handlers flow) u = (Inr (), v)"
    using uv(2) assms(6) by (auto simp: handle_op_flow_def fail_def split: if_splits)
  have "?R z (snd (handle_in_op env ?act p t x z))" if "x \<in> set (flow_handlers flow)" for x z
    using that assms(2,6) by (intro handle_in_op_engagement) (auto simp: named_module_def module_ok_def)
  from each_step [OF RT this run2 assms(7)]
  obtain u1 v1 where u1: "?R u u1" "handle_in_op env ?act p t (Some d) u1 = (Inr (), v1)" "?R v1 v" by blast
  have "?R w u1" and v1: "?R v1 w'" using uv u1 RT(2) by (blast dest: transpD)+
  then have "op_ready (re_store env) u1 p" using op_ready_engagement assms(3) by blast
  moreover have "named (re_store env) (axis2_handler_desc_get_handler (re_store env) d)"
    using assms(2,6,7) by (auto simp: named_module_def module_ok_def)
  ultimately show "\<exists>h. axis2_handler_desc_get_handler (re_store env) d = Some h \<and> in_place (re_store env) w' p t n h"
    using handle_in_op_places [OF assms(1) _ _ assms(8,9) u1(2)] in_place_engagement [OF v1] by blast
qed

theorem engage_module_to_op_places_handlers_witness:
  "\<exists>w'. axis2_phase_resolver_engage_module_to_op example_env (Some 0) (Some logging_module) (example_world []) =
     (Inr (), w') \<and> in_place logging_store w' 0 AXIS2_IN_FLOW ''Dispatch'' 1"
proof -
  let ?r = "axis2_phase_resolver_engage_module_to_op example_env (Some 0) (Some logging_module) (example_world [])"
  have "\<not> isl (fst ?r)" by code_simp
  then obtain w' where run: "?r = (Inr (), w')" by (cases ?r; cases "fst ?r") auto
  have nm: "named_module logging_store logging_module"
    using example_module_ok by (auto simp: named_module_def handler_defs logging_store_def rule_for_def)
  have rdy: "op_ready logging_store (example_world []) 0"
    using example_ready [of 0 "[]"] example_flow_wf by (auto simp: op_ready_def ready_def example_world_def)
  have d: "Some 1 \<in> set (flow_handlers \<lparr>axis2_flow.flow_list = Some (al_of [0, 1])\<rparr>)"
    by code_simp
  have "op_flow (w_op (example_world []) 0) AXIS2_IN_FLOW \<noteq> None"
    by (simp add: op_flow_eq flow_msg_def op_get_flow_def axis2_desc_get_child_def axis2_msg_get_flow_def
        example_world_defs)
  from engage_module_to_op_places_handlers [OF _ _ _ run this _ d, of "rule_for ''Dispatch''" "''Dispatch''"] nm rdy
  have "\<exists>h. axis2_handler_desc_get_handler logging_store 1 = Some h \<and>
      in_place logging_store w' 0 AXIS2_IN_FLOW ''Dispatch'' h"
    by (simp add: module_flow_def example_world_defs handler_defs)
  with run show ?thesis by (simp add: handler_defs logging_store_def)
qed

text \<open>Steps that change phases leave the records of engaged modules as they are.\<close>

definition records_kept :: "world \<Rightarrow> world \<Rightarrow> bool" where
  "records_kept w w' \<longleftrightarrow> w_module w' = w_module w \<and>
     (\<forall>q. op_engaged_module_list (w_op w' q) = op_engaged_module_list (w_op w q))"

lemma records_kept_refl: "reflp records_kept"
  by (simp add: reflp_def records_kept_def)

lemma records_kept_trans: "transp records_kept"
  by (simp add: transp_def records_kept_def)

lemma handle_in_op_kept: "records_kept w (snd (handle_in_op env act p t x w))"
  by (auto simp: records_kept_def handle_in_op_def fail_def on_op_flow_def on_conf_flow_def
      split: option.splits sum.splits)

lemma handle_op_flow_kept: "records_kept w (snd (handle_op_flow env act p md t w))"
  using each_rel [OF records_kept_refl records_kept_trans handle_in_op_kept] records_kept_refl
  by (auto simp: handle_op_flow_def skip_def fail_def reflpD split: option.splits)

text \<open>
  \<^verbatim>\<open>axis2_op_engage_module\<close> never records the module. After a call that succeeds no
  list of engaged modules has changed, so that the same call is not refused the next time but succeeds again;
  and it succeeds whatever \<^verbatim>\<open>axis2_phase_resolver_engage_module_to_op\<close> returned.
\<close>

theorem op_engage_module_not_recorded:
  assumes "axis2_op_engage_module env p (Some md) w = (Inr (), w')"
  shows "(\<forall>q. op_engaged_module_list (w_op w' q) = op_engaged_module_list (w_op w q)) \<and>
    w' = snd (axis2_phase_resolver_engage_module_to_op env (Some p) (Some (w_module w md)) w) \<and>
    fst (axis2_op_engage_module env p (Some md) w') = Inr ()"
proof -
  from assms have eng: "engaged_index FAILURE_STATUS w p md = Inr None"
    and w': "w' = snd (axis2_phase_resolver_engage_module_to_op env (Some p) (Some (w_module w md)) w)"
    and m: "re_malloc env sizeof_phase_resolver"
    by (auto simp: axis2_op_engage_module_def split: sum.splits option.splits if_splits)
  have "records_kept w w'"
    unfolding w' axis2_phase_resolver_engage_module_to_op_def
    using each_rel [OF records_kept_refl records_kept_trans handle_op_flow_kept] by simp
  then have k: "w_module w' = w_module w" "\<forall>q. op_engaged_module_list (w_op w' q) = op_engaged_module_list (w_op w q)"
    by (auto simp: records_kept_def)
  then have "engaged_index FAILURE_STATUS w' p md = Inr None"
    using eng engaged_index_cong [of w' w p FAILURE_STATUS md] by simp
  with w' m k(2) show ?thesis by (simp add: axis2_op_engage_module_def)
qed

theorem op_engage_module_not_recorded_witness:
  "\<exists>w'. axis2_op_engage_module example_env 0 (Some 0) (example_world []) = (Inr (), w') \<and>
     op_engaged_module_list (w_op w' 0) = Some (al_of [])"
proof -
  let ?r = "axis2_op_engage_module example_env 0 (Some 0) (example_world [])"
  have "\<not> isl (fst ?r)" by code_simp
  then obtain w' where run: "?r = (Inr (), w')" by (cases ?r; cases "fst ?r") auto
  have "op_engaged_module_list (w_op (example_world []) 0) = Some (al_of [])"
    by (simp add: example_world_def echo_op_def)
  with op_engage_module_not_recorded [OF run] run show ?thesis by auto
qed

end
