(* ===== verification/Om_Node.thy ===== *)
theory Om_Node
  imports Axis_Prelude "HOL-Library.Monad_Syntax"
begin

text \<open>
  The nodes of the XML object model: \<^verbatim>\<open>axiom/src/om/om_node.c\<close>, its links and the serialisation of a tree, and the
  iterators over children (\<^verbatim>\<open>om_children_iterator.c\<close>, \<^verbatim>\<open>om_child_element_iterator.c\<close>). Nodes live in a heap
  of addresses. What a node holds (an element, a text) is an address of another store.
  Here is the unlinking of a node, \<^verbatim>\<open>axiom_node_detach_without_namespaces\<close>; \<^verbatim>\<open>axiom_node_detach\<close>, which also gives
  a detached element the namespaces its subtree uses, is in \<open>Om_Detach\<close>.

  A node may be completed lazily by a stream builder. That is not modelled: a getter that would
  ask the builder for more input ends in \<open>BUILDER_INPUT\<close>.
\<close>

section \<open>State\<close>

datatype axiom_types =
    AXIOM_INVALID | AXIOM_DOCUMENT | AXIOM_ELEMENT | AXIOM_DOCTYPE | AXIOM_COMMENT | AXIOM_ATTRIBUTE
  | AXIOM_NAMESPACE | AXIOM_PROCESSING_INSTRUCTION | AXIOM_TEXT | AXIOM_DATA_SOURCE

record axiom_node =
  n_doc :: ptr
  n_builder :: ptr
  n_parent :: ptr
  n_prev_sibling :: ptr
  n_next_sibling :: ptr
  n_first_child :: ptr
  n_last_child :: ptr
  n_type :: axiom_types
  n_done :: bool
  n_data :: ptr

type_synonym om_heap = "nat \<Rightarrow> axiom_node option"

definition sizeof_node :: nat where "sizeof_node = 80"

text \<open>Reading and writing through a node pointer.\<close>

definition node_at :: "om_heap \<Rightarrow> ptr \<Rightarrow> axiom_node result" where
  "node_at h p =
     (case p of None \<Rightarrow> Inl UNDEFINED_BEHAVIOUR
      | Some a \<Rightarrow> (case h a of None \<Rightarrow> Inl UNDEFINED_BEHAVIOUR | Some n \<Rightarrow> Inr n))"

definition set_node :: "ptr \<Rightarrow> (axiom_node \<Rightarrow> axiom_node) \<Rightarrow> om_heap \<Rightarrow> om_heap result" where
  "set_node p f h = res_bind (node_at h p) (\<lambda>n. Inr (h(the p \<mapsto> f n)))"

text \<open>\<open>a\<close> is the address the allocator returns.\<close>

definition axiom_node_create :: "alloc \<Rightarrow> nat \<Rightarrow> om_heap \<Rightarrow> (ptr \<times> om_heap) result" where
  "axiom_node_create malloc a h =
     (if \<not> malloc sizeof_node then Inl NO_MEMORY
      else Inr (Some a, h(a \<mapsto> \<lparr>n_doc = None, n_builder = None, n_parent = None, n_prev_sibling = None,
        n_next_sibling = None, n_first_child = None, n_last_child = None, n_type = AXIOM_INVALID,
        n_done = False, n_data = None\<rparr>)))"

section \<open>Getters and setters\<close>

definition axiom_node_get_parent :: "om_heap \<Rightarrow> ptr \<Rightarrow> ptr result" where
  "axiom_node_get_parent h p = res_bind (node_at h p) (\<lambda>n. Inr (n_parent n))"

definition axiom_node_get_last_child :: "om_heap \<Rightarrow> ptr \<Rightarrow> ptr result" where
  "axiom_node_get_last_child h p = res_bind (node_at h p) (\<lambda>n. Inr (n_last_child n))"

definition axiom_node_get_previous_sibling :: "om_heap \<Rightarrow> ptr \<Rightarrow> ptr result" where
  "axiom_node_get_previous_sibling h p = res_bind (node_at h p) (\<lambda>n. Inr (n_prev_sibling n))"

definition axiom_node_get_node_type :: "om_heap \<Rightarrow> ptr \<Rightarrow> axiom_types result" where
  "axiom_node_get_node_type h p = res_bind (node_at h p) (\<lambda>n. Inr (n_type n))"

definition axiom_node_is_complete :: "om_heap \<Rightarrow> ptr \<Rightarrow> bool result" where
  "axiom_node_is_complete h p = res_bind (node_at h p) (\<lambda>n. Inr (n_done n))"

definition axiom_node_get_data_element :: "om_heap \<Rightarrow> ptr \<Rightarrow> ptr result" where
  "axiom_node_get_data_element h p = res_bind (node_at h p) (\<lambda>n. Inr (n_data n))"

definition axiom_node_get_document :: "om_heap \<Rightarrow> ptr \<Rightarrow> ptr result" where
  "axiom_node_get_document h p = res_bind (node_at h p) (\<lambda>n. Inr (n_doc n))"

definition axiom_node_get_builder :: "om_heap \<Rightarrow> ptr \<Rightarrow> ptr result" where
  "axiom_node_get_builder h p = (if p = None then Inr None else res_bind (node_at h p) (\<lambda>n. Inr (n_builder n)))"

definition axiom_node_get_first_child :: "om_heap \<Rightarrow> ptr \<Rightarrow> ptr result" where
  "axiom_node_get_first_child h p =
     (if p = None then Inr None
      else res_bind (node_at h p) (\<lambda>n.
        if n_first_child n = None \<and> \<not> n_done n \<and> n_builder n \<noteq> None then Inl BUILDER_INPUT
        else Inr (n_first_child n)))"

definition axiom_node_get_next_sibling :: "om_heap \<Rightarrow> ptr \<Rightarrow> ptr result" where
  "axiom_node_get_next_sibling h p =
     (if p = None then Inr None
      else res_bind (node_at h p) (\<lambda>n.
        if n_next_sibling n = None \<and> n_parent n \<noteq> None \<and> n_builder n \<noteq> None
        then res_bind (axiom_node_is_complete h (n_parent n)) (\<lambda>complete.
          if complete then Inr None else Inl BUILDER_INPUT)
        else Inr (n_next_sibling n)))"

text \<open>The loop of \<^verbatim>\<open>axiom_node_get_first_element\<close> over the siblings.\<close>

partial_function (option) first_element_loop :: "om_heap \<Rightarrow> ptr \<Rightarrow> ptr result option" where
  "first_element_loop h p =
     (case p of
        None \<Rightarrow> Some (Inr None)
      | Some _ \<Rightarrow>
          (case axiom_node_get_node_type h p of
             Inl e \<Rightarrow> Some (Inl e)
           | Inr t \<Rightarrow>
               if t = AXIOM_ELEMENT then Some (Inr p)
               else
                 (case axiom_node_get_next_sibling h p of
                    Inl e \<Rightarrow> Some (Inl e)
                  | Inr q \<Rightarrow> first_element_loop h q)))"

definition axiom_node_get_first_element :: "om_heap \<Rightarrow> ptr \<Rightarrow> ptr result option" where
  "axiom_node_get_first_element h p =
     (if p = None then Some (Inr None)
      else
        (case axiom_node_get_first_child h p of
           Inl e \<Rightarrow> Some (Inl e)
         | Inr c \<Rightarrow> first_element_loop h c))"

text \<open>The setters check their arguments for NULL.\<close>

definition set_field :: "ptr \<Rightarrow> (axiom_node \<Rightarrow> axiom_node) \<Rightarrow> om_heap \<Rightarrow> om_heap result" where
  "set_field p f h = (if p = None then Inl INVALID_NULL_PARAM else set_node p f h)"

definition axiom_node_set_previous_sibling :: "om_heap \<Rightarrow> ptr \<Rightarrow> ptr \<Rightarrow> om_heap result" where
  "axiom_node_set_previous_sibling h p q =
     (if q = None then Inl INVALID_NULL_PARAM else set_field p (\<lambda>n. n\<lparr>n_prev_sibling := q\<rparr>) h)"

definition axiom_node_set_next_sibling :: "om_heap \<Rightarrow> ptr \<Rightarrow> ptr \<Rightarrow> om_heap result" where
  "axiom_node_set_next_sibling h p q =
     (if q = None then Inl INVALID_NULL_PARAM else set_field p (\<lambda>n. n\<lparr>n_next_sibling := q\<rparr>) h)"

definition axiom_node_set_node_type :: "om_heap \<Rightarrow> ptr \<Rightarrow> axiom_types \<Rightarrow> om_heap result" where
  "axiom_node_set_node_type h p t = set_field p (\<lambda>n. n\<lparr>n_type := t\<rparr>) h"

definition axiom_node_set_data_element :: "om_heap \<Rightarrow> ptr \<Rightarrow> ptr \<Rightarrow> om_heap result" where
  "axiom_node_set_data_element h p d =
     (if d = None then Inl INVALID_NULL_PARAM else set_field p (\<lambda>n. n\<lparr>n_data := d\<rparr>) h)"

definition axiom_node_set_complete :: "om_heap \<Rightarrow> ptr \<Rightarrow> bool \<Rightarrow> om_heap result" where
  "axiom_node_set_complete h p b = set_field p (\<lambda>n. n\<lparr>n_done := b\<rparr>) h"

definition axiom_node_set_document :: "om_heap \<Rightarrow> ptr \<Rightarrow> ptr \<Rightarrow> om_heap result" where
  "axiom_node_set_document h p d = set_field p (\<lambda>n. n\<lparr>n_doc := d\<rparr>) h"

definition axiom_node_set_builder :: "om_heap \<Rightarrow> ptr \<Rightarrow> ptr \<Rightarrow> om_heap result" where
  "axiom_node_set_builder h p b = set_field p (\<lambda>n. n\<lparr>n_builder := b\<rparr>) h"

section \<open>Links\<close>

definition axiom_node_detach_without_namespaces :: "om_heap \<Rightarrow> ptr \<Rightarrow> om_heap result" where
  "axiom_node_detach_without_namespaces h om_node =
     res_bind (node_at h om_node) (\<lambda>n.
       if n_parent n = None then set_node om_node (\<lambda>m. m\<lparr>n_builder := None\<rparr>) h
       else
         res_bind
           (if n_prev_sibling n = None
            then set_node (n_parent n) (\<lambda>m. m\<lparr>n_first_child := n_next_sibling n\<rparr>) h
            else set_node (n_prev_sibling n) (\<lambda>m. m\<lparr>n_next_sibling := n_next_sibling n\<rparr>) h) (\<lambda>h1.
         res_bind
           (res_bind (node_at h1 om_node) (\<lambda>n1.
              if n_next_sibling n1 \<noteq> None
              then set_node (n_next_sibling n1) (\<lambda>m. m\<lparr>n_prev_sibling := n_prev_sibling n1\<rparr>) h1
              else Inr h1)) (\<lambda>h2.
         res_bind
           (res_bind (node_at h2 (n_parent n)) (\<lambda>par.
              if n_last_child par \<noteq> None \<and> n_last_child par = om_node
              then res_bind (node_at h2 om_node) (\<lambda>n2.
                set_node (n_parent n) (\<lambda>m. m\<lparr>n_last_child := n_prev_sibling n2\<rparr>) h2)
              else Inr h2)) (\<lambda>h3.
         set_node om_node (\<lambda>m. m\<lparr>n_parent := None, n_prev_sibling := None, n_next_sibling := None,
           n_builder := None\<rparr>) h3))))"

definition axiom_node_set_parent :: "om_heap \<Rightarrow> ptr \<Rightarrow> ptr \<Rightarrow> om_heap result" where
  "axiom_node_set_parent h om_node parent =
     (if om_node = None then Inl FAILURE_STATUS
      else if parent = None then Inl INVALID_NULL_PARAM
      else
        res_bind (node_at h om_node) (\<lambda>n.
          if parent = n_parent n then Inr h
          else
            res_bind (if n_parent n \<noteq> None then axiom_node_detach_without_namespaces h om_node else Inr h)
              (set_node om_node (\<lambda>m. m\<lparr>n_parent := parent\<rparr>))))"

text \<open>Only the links of the parent; the outcome of setting the parent is not looked at.\<close>

definition axiom_node_set_first_child :: "om_heap \<Rightarrow> ptr \<Rightarrow> ptr \<Rightarrow> om_heap result" where
  "axiom_node_set_first_child h om_node first_child =
     (if om_node = None \<or> first_child = None then Inl INVALID_NULL_PARAM
      else
        (case axiom_node_set_parent h first_child om_node of
           Inl e \<Rightarrow> Inl e
         | Inr h1 \<Rightarrow> set_node om_node (\<lambda>m. m\<lparr>n_first_child := first_child\<rparr>) h1))"

text \<open>The end of \<^verbatim>\<open>axiom_node_add_child\<close>, when the child has no parent.\<close>

definition append_child :: "om_heap \<Rightarrow> ptr \<Rightarrow> ptr \<Rightarrow> om_heap result" where
  "append_child h om_node child =
     res_bind
       (res_bind (node_at h om_node) (\<lambda>n.
          if n_first_child n = None then set_node om_node (\<lambda>m. m\<lparr>n_first_child := child\<rparr>) h
          else if n_last_child n \<noteq> None then
            res_bind (set_node (n_last_child n) (\<lambda>m. m\<lparr>n_next_sibling := child\<rparr>) h)
              (set_node child (\<lambda>m. m\<lparr>n_prev_sibling := n_last_child n\<rparr>))
          else Inr h)) (\<lambda>h1.
     res_bind (set_node child (\<lambda>m. m\<lparr>n_parent := om_node\<rparr>) h1)
       (set_node om_node (\<lambda>m. m\<lparr>n_last_child := child\<rparr>)))"

text \<open>
  The node to insert is not detached from where it is. The last child of the parent is not updated
  by \<^verbatim>\<open>axiom_node_insert_sibling_after\<close>.
\<close>

definition axiom_node_insert_sibling_after :: "om_heap \<Rightarrow> ptr \<Rightarrow> ptr \<Rightarrow> om_heap result" where
  "axiom_node_insert_sibling_after h om_node node_to_insert =
     (if node_to_insert = None then Inl INVALID_NULL_PARAM
      else
        res_bind (node_at h om_node) (\<lambda>n.
          if n_parent n = None then Inl FAILURE_STATUS
          else
            res_bind (set_node node_to_insert (\<lambda>m. m\<lparr>n_parent := n_parent n\<rparr>) h) (\<lambda>h1.
            res_bind (set_node node_to_insert (\<lambda>m. m\<lparr>n_prev_sibling := om_node\<rparr>) h1) (\<lambda>h2.
            res_bind (node_at h2 om_node) (\<lambda>n2.
            res_bind (if n_next_sibling n2 \<noteq> None
                      then set_node (n_next_sibling n2) (\<lambda>m. m\<lparr>n_prev_sibling := node_to_insert\<rparr>) h2
                      else Inr h2) (\<lambda>h3.
            res_bind (node_at h3 om_node) (\<lambda>n3.
            res_bind (set_node node_to_insert (\<lambda>m. m\<lparr>n_next_sibling := n_next_sibling n3\<rparr>) h3)
              (set_node om_node (\<lambda>m. m\<lparr>n_next_sibling := node_to_insert\<rparr>)))))))))"

definition axiom_node_insert_sibling_before :: "om_heap \<Rightarrow> ptr \<Rightarrow> ptr \<Rightarrow> om_heap result" where
  "axiom_node_insert_sibling_before h om_node node_to_insert =
     (if node_to_insert = None then Inl INVALID_NULL_PARAM
      else
        res_bind (node_at h om_node) (\<lambda>n.
          if n_parent n = None then Inl FAILURE_STATUS
          else
            res_bind (set_node node_to_insert (\<lambda>m. m\<lparr>n_parent := n_parent n\<rparr>) h) (\<lambda>h1.
            res_bind (node_at h1 om_node) (\<lambda>n1.
            res_bind (set_node node_to_insert (\<lambda>m. m\<lparr>n_prev_sibling := n_prev_sibling n1\<rparr>) h1) (\<lambda>h2.
            res_bind (set_node node_to_insert (\<lambda>m. m\<lparr>n_next_sibling := om_node\<rparr>) h2) (\<lambda>h3.
            res_bind (node_at h3 om_node) (\<lambda>n3.
            res_bind (if n_prev_sibling n3 = None
                      then set_node (n_parent n3) (\<lambda>m. m\<lparr>n_first_child := node_to_insert\<rparr>) h3
                      else set_node (n_prev_sibling n3) (\<lambda>m. m\<lparr>n_next_sibling := node_to_insert\<rparr>) h3)
              (set_node om_node (\<lambda>m. m\<lparr>n_prev_sibling := node_to_insert\<rparr>)))))))))"

section \<open>Deallocation\<close>

text \<open>
  The loop over the children in \<^verbatim>\<open>axiom_node_free_detached_subtree\<close>, with the recursive call for a
  child unfolded: its own children first, then the node.
\<close>

partial_function (option) free_children :: "om_heap \<Rightarrow> ptr \<Rightarrow> om_heap result option" where
  "free_children h child_node =
     (case child_node of
        None \<Rightarrow> Some (Inr h)
      | Some c \<Rightarrow>
          (case h c of
             None \<Rightarrow> Some (Inl UNDEFINED_BEHAVIOUR)
           | Some n \<Rightarrow> do {
               r \<leftarrow> free_children h (n_first_child n);
               (case r of
                  Inl e \<Rightarrow> Some (Inl e)
                | Inr h1 \<Rightarrow> free_children (h1(c := None)) (n_next_sibling n)) }))"

definition axiom_node_free_detached_subtree :: "om_heap \<Rightarrow> nat \<Rightarrow> om_heap result option" where
  "axiom_node_free_detached_subtree h p =
     (case h p of
        None \<Rightarrow> Some (Inl UNDEFINED_BEHAVIOUR)
      | Some n \<Rightarrow> do {
          r \<leftarrow> free_children h (n_first_child n);
          Some (res_bind r (\<lambda>h1. Inr (h1(p := None)))) })"

definition axiom_node_free_tree :: "om_heap \<Rightarrow> ptr \<Rightarrow> om_heap result option" where
  "axiom_node_free_tree h om_node =
     (case om_node of
        None \<Rightarrow> Some (Inr h)
      | Some p \<Rightarrow>
          (case axiom_node_detach_without_namespaces h om_node of
             Inl e \<Rightarrow> Some (Inl e)
           | Inr h1 \<Rightarrow> axiom_node_free_detached_subtree h1 p))"

section \<open>Serialisation\<close>

text \<open>
  The functions that write what a single node holds, with the state of the output; they end in the XML
  writer, which is not modelled.
\<close>

record 'o serializer =
  ser_start :: "nat \<Rightarrow> nat \<Rightarrow> 'o \<Rightarrow> axis2_status \<times> 'o"
  ser_end :: "nat \<Rightarrow> 'o \<Rightarrow> axis2_status \<times> 'o"
  ser_leaf :: "axiom_types \<Rightarrow> nat \<Rightarrow> 'o \<Rightarrow> axis2_status \<times> 'o"

definition own_part :: "'o serializer \<Rightarrow> axiom_node \<Rightarrow> nat \<Rightarrow> 'o \<Rightarrow> axis2_status \<times> 'o" where
  "own_part E n p out =
     (case n_data n of
        None \<Rightarrow> (AXIS2_SUCCESS, out)
      | Some d \<Rightarrow>
          if n_type n = AXIOM_ELEMENT then ser_start E d p out
          else if n_type n \<in> {AXIOM_DATA_SOURCE, AXIOM_TEXT, AXIOM_COMMENT, AXIOM_DOCTYPE,
                  AXIOM_PROCESSING_INSTRUCTION}
          then ser_leaf E (n_type n) d out
          else (AXIS2_SUCCESS, out))"

definition end_part :: "'o serializer \<Rightarrow> axiom_node \<Rightarrow> 'o \<Rightarrow> axis2_status \<times> 'o" where
  "end_part E n out =
     (case n_data n of
        None \<Rightarrow> (AXIS2_SUCCESS, out)
      | Some d \<Rightarrow> if n_type n = AXIOM_ELEMENT then ser_end E d out else (AXIS2_SUCCESS, out))"

text \<open>
  The stack \<^verbatim>\<open>nodes[256]\<close> is a list with the top in front; \<^verbatim>\<open>count\<close> is its length. The loop
  \<^verbatim>\<open>while (count > 1 && !temp_node)\<close> pops finished nodes: its status and output, the node, the stack and
  the sibling it ends with.
\<close>

fun climb :: "'o serializer \<Rightarrow> om_heap \<Rightarrow> nat \<Rightarrow> nat list \<Rightarrow> 'o \<Rightarrow>
    (axis2_status \<times> 'o \<times> nat \<times> nat list \<times> ptr) result" where
  "climb E h om_node (x # y # rest) out =
     res_bind (node_at h (Some y)) (\<lambda>n.
       (case end_part E n out of
          (AXIS2_FAILURE, out1) \<Rightarrow> Inr (AXIS2_FAILURE, out1, y, y # rest, None)
        | (AXIS2_SUCCESS, out1) \<Rightarrow>
            res_bind (axiom_node_get_next_sibling h (Some y)) (\<lambda>temp_node.
              if temp_node = None then climb E h y (y # rest) out1
              else Inr (AXIS2_SUCCESS, out1, y, y # rest, temp_node))))"
| "climb E h om_node nodes out = Inr (AXIS2_SUCCESS, out, om_node, nodes, None)"

definition NODES_MAX :: nat where "NODES_MAX = 256"

partial_function (option) serialize_loop ::
    "'o serializer \<Rightarrow> om_heap \<Rightarrow> nat \<Rightarrow> nat list \<Rightarrow> 'o \<Rightarrow> (axis2_status \<times> 'o) result option" where
  "serialize_loop E h om_node nodes out =
     (case h om_node of
        None \<Rightarrow> Some (Inl UNDEFINED_BEHAVIOUR)
      | Some n \<Rightarrow>
          (case own_part E n om_node out of
             (AXIS2_FAILURE, out1) \<Rightarrow> Some (Inr (AXIS2_FAILURE, out1))
           | (AXIS2_SUCCESS, out1) \<Rightarrow>
               (case axiom_node_get_first_child h (Some om_node) of
                  Inl e \<Rightarrow> Some (Inl e)
                | Inr (Some c) \<Rightarrow>
                    if length nodes < NODES_MAX then serialize_loop E h c (c # nodes) out1
                    else Some (Inl UNDEFINED_BEHAVIOUR)
                | Inr None \<Rightarrow>
                    (case end_part E n out1 of
                       (AXIS2_FAILURE, out2) \<Rightarrow> Some (Inr (AXIS2_FAILURE, out2))
                     | (AXIS2_SUCCESS, out2) \<Rightarrow>
                         (case axiom_node_get_next_sibling h (Some om_node) of
                            Inl e \<Rightarrow> Some (Inl e)
                          | Inr (Some s) \<Rightarrow> serialize_loop E h s (s # tl nodes) out2
                          | Inr None \<Rightarrow>
                              (case climb E h om_node nodes out2 of
                                 Inl e \<Rightarrow> Some (Inl e)
                               | Inr (AXIS2_FAILURE, out3, _) \<Rightarrow> Some (Inr (AXIS2_FAILURE, out3))
                               | Inr (AXIS2_SUCCESS, out3, om_node', nodes', temp_node) \<Rightarrow>
                                   (case (temp_node, tl nodes') of
                                      (Some t, x # xs) \<Rightarrow> serialize_loop E h t (t # x # xs) out3
                                    | (_, []) \<Rightarrow> Some (Inr (AXIS2_SUCCESS, out3))
                                    | (None, x # xs) \<Rightarrow> serialize_loop E h om_node' (x # xs) out3)))))))"

definition axiom_node_serialize ::
    "'o serializer \<Rightarrow> om_heap \<Rightarrow> ptr \<Rightarrow> 'o \<Rightarrow> (axis2_status \<times> 'o) result option" where
  "axiom_node_serialize E h om_node out =
     (case om_node of
        None \<Rightarrow> Some (Inr (AXIS2_SUCCESS, out))
      | Some p \<Rightarrow> serialize_loop E h p [p] out)"

section \<open>Iterators over children\<close>

record axiom_children_iterator =
  it_first_child :: ptr
  it_current_child :: ptr
  it_last_child :: ptr
  it_next_called :: bool
  it_remove_called :: bool

definition sizeof_iterator :: nat where "sizeof_iterator = 32"

definition axiom_children_iterator_create :: "alloc \<Rightarrow> ptr \<Rightarrow> axiom_children_iterator result" where
  "axiom_children_iterator_create malloc current_child =
     (if \<not> malloc sizeof_iterator then Inl NO_MEMORY
      else Inr \<lparr>it_first_child = current_child, it_current_child = current_child, it_last_child = None,
        it_next_called = False, it_remove_called = False\<rparr>)"

definition axiom_children_iterator_has_next :: "axiom_children_iterator \<Rightarrow> bool" where
  "axiom_children_iterator_has_next it = (it_current_child it \<noteq> None)"

definition axiom_children_iterator_next ::
    "om_heap \<Rightarrow> axiom_children_iterator \<Rightarrow> (ptr \<times> axiom_children_iterator) result" where
  "axiom_children_iterator_next h it =
     (let it1 = it\<lparr>it_next_called := True, it_remove_called := False\<rparr> in
      if it_current_child it1 = None then Inr (None, it1)
      else
        res_bind (axiom_node_get_next_sibling h (it_current_child it1)) (\<lambda>nx.
          Inr (it_current_child it1,
            it1\<lparr>it_last_child := it_current_child it1, it_current_child := nx\<rparr>)))"

definition axiom_children_iterator_reset :: "axiom_children_iterator \<Rightarrow> axiom_children_iterator" where
  "axiom_children_iterator_reset it = it\<lparr>it_current_child := it_first_child it\<rparr>"

text \<open>The iterator is changed also where removing fails.\<close>

definition axiom_children_iterator_remove ::
    "om_heap \<Rightarrow> axiom_children_iterator \<Rightarrow>
     (unit result \<times> om_heap \<times> axiom_children_iterator) option" where
  "axiom_children_iterator_remove h it =
     (if \<not> it_next_called it then Some (Inl ITERATOR_NEXT_METHOD_HAS_NOT_YET_BEEN_CALLED, h, it)
      else if it_remove_called it then Some (Inl ITERATOR_REMOVE_HAS_ALREADY_BEING_CALLED, h, it)
      else
        let it1 = it\<lparr>it_remove_called := True\<rparr> in
        if it_last_child it1 = None then Some (Inl FAILURE_STATUS, h, it1)
        else do {
          r \<leftarrow> axiom_node_free_tree h (it_last_child it1);
          Some (case r of
            Inl e \<Rightarrow> (Inl e, h, it1)
          | Inr h1 \<Rightarrow> (Inr (), h1, it1\<lparr>it_last_child := None\<rparr>)) })"

text \<open>
  The iterator over child elements of \<^verbatim>\<open>om_child_element_iterator.c\<close>: \<^verbatim>\<open>next\<close> moves on to the next element, and a
  failing removal sets no error code.
\<close>

record axiom_child_element_iterator =
  ce_current_child :: ptr
  ce_last_child :: ptr
  ce_next_called :: bool
  ce_remove_called :: bool

definition sizeof_element_iterator :: nat where "sizeof_element_iterator = 24"

definition axiom_child_element_iterator_create :: "alloc \<Rightarrow> ptr \<Rightarrow> axiom_child_element_iterator result" where
  "axiom_child_element_iterator_create malloc current_child =
     (if \<not> malloc sizeof_element_iterator then Inl NO_MEMORY
      else Inr \<lparr>ce_current_child = current_child, ce_last_child = None, ce_next_called = False,
        ce_remove_called = False\<rparr>)"

definition axiom_child_element_iterator_has_next :: "axiom_child_element_iterator \<Rightarrow> bool" where
  "axiom_child_element_iterator_has_next it = (ce_current_child it \<noteq> None)"

definition axiom_child_element_iterator_next ::
    "om_heap \<Rightarrow> axiom_child_element_iterator \<Rightarrow> (ptr \<times> axiom_child_element_iterator) result option" where
  "axiom_child_element_iterator_next h it =
     (let it1 = it\<lparr>ce_next_called := True, ce_remove_called := False\<rparr> in
      if ce_current_child it1 = None then Some (Inr (None, it1))
      else
        (case axiom_node_get_next_sibling h (ce_current_child it1) of
           Inl e \<Rightarrow> Some (Inl e)
         | Inr nx \<Rightarrow> do {
             r \<leftarrow> first_element_loop h nx;
             Some (res_bind r (\<lambda>nx'.
               Inr (ce_current_child it1,
                 it1\<lparr>ce_last_child := ce_current_child it1, ce_current_child := nx'\<rparr>))) }))"

definition axiom_child_element_iterator_remove ::
    "om_heap \<Rightarrow> axiom_child_element_iterator \<Rightarrow>
     (unit result \<times> om_heap \<times> axiom_child_element_iterator) option" where
  "axiom_child_element_iterator_remove h it =
     (if \<not> ce_next_called it \<or> ce_remove_called it then Some (Inl FAILURE_STATUS, h, it)
      else
        let it1 = it\<lparr>ce_remove_called := True\<rparr> in
        if ce_last_child it1 = None then Some (Inl FAILURE_STATUS, h, it1)
        else do {
          r \<leftarrow> axiom_node_free_tree h (ce_last_child it1);
          Some (case r of
            Inl e \<Rightarrow> (Inl e, h, it1)
          | Inr h1 \<Rightarrow> (Inr (), h1, it1\<lparr>ce_last_child := None\<rparr>)) })"

end
