(* ===== verification/Om_Forest.thy ===== *)
theory Om_Forest
  imports Om_Node
begin

text \<open>
  The linked nodes of \<open>Om_Node\<close> as an ordered forest: each node has a list of children, and at most one
  parent. \<open>rep h F\<close> says that the heap \<open>h\<close> is linked as the forest \<open>F\<close>. Each operation
  on the links is one on the lists.
\<close>

section \<open>Links as functions\<close>

text \<open>A pointer field of a heap, and the heap with one node changed.\<close>

definition fld :: "(axiom_node \<Rightarrow> ptr) \<Rightarrow> om_heap \<Rightarrow> nat \<Rightarrow> ptr" where
  "fld f h a = Option.bind (h a) f"

definition app :: "nat \<Rightarrow> (axiom_node \<Rightarrow> axiom_node) \<Rightarrow> om_heap \<Rightarrow> om_heap" where
  "app a f h = h(a \<mapsto> f (the (h a)))"

lemma node_at_run: "a \<in> dom h \<Longrightarrow> node_at h (Some a) = Inr (the (h a))"
  by (auto simp: node_at_def)

lemma set_node_run: "a \<in> dom h \<Longrightarrow> set_node (Some a) f h = Inr (app a f h)"
  by (auto simp: set_node_def node_at_def app_def)

lemma the_fld:
  "a \<in> dom h \<Longrightarrow> n_parent (the (h a)) = fld n_parent h a"
  "a \<in> dom h \<Longrightarrow> n_prev_sibling (the (h a)) = fld n_prev_sibling h a"
  "a \<in> dom h \<Longrightarrow> n_next_sibling (the (h a)) = fld n_next_sibling h a"
  "a \<in> dom h \<Longrightarrow> n_first_child (the (h a)) = fld n_first_child h a"
  "a \<in> dom h \<Longrightarrow> n_last_child (the (h a)) = fld n_last_child h a"
  "a \<in> dom h \<Longrightarrow> n_builder (the (h a)) = fld n_builder h a"
  by (auto simp: fld_def)

lemma dom_app [simp]: "a \<in> dom h \<Longrightarrow> dom (app a f h) = dom h"
  by (auto simp: app_def)

lemma fld_app: "a \<in> dom h \<Longrightarrow> fld g (app a f h) = (fld g h)(a := g (f (the (h a))))"
  by (auto simp: fld_def app_def fun_eq_iff)

lemma fld_other:
  assumes "a \<in> dom h" "\<And>n. g (f n) = g n"
  shows "fld g (app a f h) = fld g h"
  using assms by (auto simp: fld_def app_def fun_eq_iff)

lemmas fld_set = fld_other fld_app

text \<open>Running the operations: the heap is always one of changed nodes.\<close>

lemmas run_links = node_at_run set_node_run the_fld fld_set

section \<open>Chains\<close>

fun chain :: "(nat \<Rightarrow> ptr) \<Rightarrow> (nat \<Rightarrow> ptr) \<Rightarrow> ptr \<Rightarrow> nat list \<Rightarrow> ptr \<Rightarrow> bool" where
  "chain pv nx p [] q = True"
| "chain pv nx p (a # as) q = (pv a = p \<and> nx a = first_of as q \<and> chain pv nx (Some a) as q)"

lemma chain_append:
  "chain pv nx p (as @ bs) q \<longleftrightarrow> chain pv nx p as (first_of bs q) \<and> chain pv nx (last_of as p) bs q"
  by (induction as arbitrary: p) (auto simp: first_of_append)

lemma chain_frame [simp]:
  "a \<notin> set as \<Longrightarrow> chain (pv(a := x)) nx p as q = chain pv nx p as q"
  "a \<notin> set as \<Longrightarrow> chain pv (nx(a := x)) p as q = chain pv nx p as q"
  by (induction as arbitrary: p) auto

lemma chain_set_next:
  "distinct as \<Longrightarrow> as \<noteq> [] \<Longrightarrow> chain pv nx p as q \<Longrightarrow> chain pv (nx(last as := q')) p as q'"
proof (induction as arbitrary: p)
  case (Cons a as)
  then show ?case by (cases as) auto
qed simp

lemma chain_set_prev:
  "distinct as \<Longrightarrow> as \<noteq> [] \<Longrightarrow> chain pv nx p as q \<Longrightarrow> chain (pv(hd as := p')) nx p' as q"
  by (cases as) auto

lemma chain_at:
  "chain pv nx p (as @ a # bs) q \<Longrightarrow> pv a = last_of as p \<and> nx a = first_of bs q"
  by (simp add: chain_append)

section \<open>Forests\<close>

record om_forest =
  f_kids :: "nat \<Rightarrow> nat list option"
  f_par :: "nat \<Rightarrow> ptr"

definition kids :: "om_forest \<Rightarrow> nat \<Rightarrow> nat list" where
  "kids F p = (case f_kids F p of None \<Rightarrow> [] | Some xs \<Rightarrow> xs)"

definition par_rel :: "om_forest \<Rightarrow> (nat \<times> nat) set" where
  "par_rel F = {(c, p). f_par F c = Some p}"

definition forest_ok :: "om_forest \<Rightarrow> bool" where
  "forest_ok F \<longleftrightarrow> finite (dom (f_kids F)) \<and> acyclic (par_rel F) \<and> (\<forall>p. distinct (kids F p)) \<and>
     (\<forall>c p. f_par F c = Some p \<longleftrightarrow> c \<in> set (kids F p)) \<and>
     (\<forall>c p. f_par F c = Some p \<longrightarrow> c \<in> dom (f_kids F))"

definition rep :: "om_heap \<Rightarrow> om_forest \<Rightarrow> bool" where
  "rep h F \<longleftrightarrow> dom h = dom (f_kids F) \<and> fld n_parent h = f_par F \<and>
     (\<forall>p. fld n_first_child h p = first_of (kids F p) None) \<and>
     (\<forall>p. fld n_last_child h p = last_of (kids F p) None) \<and>
     (\<forall>p. chain (fld n_prev_sibling h) (fld n_next_sibling h) None (kids F p) None) \<and>
     (\<forall>p. f_par F p = None \<longrightarrow> fld n_prev_sibling h p = None \<and> fld n_next_sibling h p = None)"

lemma forest_okD:
  assumes "forest_ok F"
  shows "finite (dom (f_kids F))" "acyclic (par_rel F)" "distinct (kids F p)"
    "f_par F c = Some p \<longleftrightarrow> c \<in> set (kids F p)" "f_par F c = Some p \<Longrightarrow> c \<in> dom (f_kids F)"
  using assms unfolding forest_ok_def by blast+

lemma kid_dom: "forest_ok F \<Longrightarrow> c \<in> set (kids F p) \<Longrightarrow> p \<in> dom (f_kids F) \<and> c \<in> dom (f_kids F)"
  using forest_okD(4,5) [of F c p] by (cases "f_kids F p") (auto simp: kids_def)

lemma kid_unique: "forest_ok F \<Longrightarrow> c \<in> set (kids F p) \<Longrightarrow> c \<in> set (kids F q) \<Longrightarrow> p = q"
  unfolding forest_ok_def by (metis option.inject)

lemma not_own_kid: "forest_ok F \<Longrightarrow> p \<notin> set (kids F p)"
proof
  assume ok: "forest_ok F" and "p \<in> set (kids F p)"
  then have "(p, p) \<in> par_rel F" using forest_okD(4) by (auto simp: par_rel_def)
  then show False using forest_okD(2) [OF ok] by (meson acyclic_def r_into_trancl')
qed

section \<open>Operations on forests\<close>

definition f_create :: "nat \<Rightarrow> om_forest \<Rightarrow> om_forest" where
  "f_create a F = F\<lparr>f_kids := (f_kids F)(a \<mapsto> []), f_par := (f_par F)(a := None)\<rparr>"

definition set_kids :: "nat \<Rightarrow> nat list \<Rightarrow> om_forest \<Rightarrow> om_forest" where
  "set_kids p xs F = F\<lparr>f_kids := (f_kids F)(p \<mapsto> xs)\<rparr>"

definition f_detach :: "nat \<Rightarrow> om_forest \<Rightarrow> om_forest" where
  "f_detach c F =
     (case f_par F c of
        None \<Rightarrow> F
      | Some p \<Rightarrow> (set_kids p (remove1 c (kids F p)) F)\<lparr>f_par := (f_par F)(c := None)\<rparr>)"

text \<open>A node without parent put at a place among the children of another.\<close>

definition f_place :: "nat \<Rightarrow> nat \<Rightarrow> nat \<Rightarrow> om_forest \<Rightarrow> om_forest" where
  "f_place p i c F = (set_kids p (insert_nth i c (kids F p)) F)\<lparr>f_par := (f_par F)(c := Some p)\<rparr>"

text \<open>The nodes of a subtree.\<close>

definition below :: "om_forest \<Rightarrow> nat \<Rightarrow> nat set" where
  "below F c = {x. (x, c) \<in> (par_rel F)\<^sup>*}"

definition f_cut :: "nat set \<Rightarrow> om_forest \<Rightarrow> om_forest" where
  "f_cut S F = F\<lparr>f_kids := (\<lambda>p. if p \<in> S then None else f_kids F p),
     f_par := (\<lambda>p. if p \<in> S then None else f_par F p)\<rparr>"

definition f_free :: "nat \<Rightarrow> om_forest \<Rightarrow> om_forest" where
  "f_free c F = f_cut (below F c) (f_detach c F)"

lemma kids_set_kids: "kids (set_kids p xs F) q = (if q = p then xs else kids F q)"
  by (simp add: kids_def set_kids_def)

lemma dom_set_kids: "p \<in> dom (f_kids F) \<Longrightarrow> dom (f_kids (set_kids p xs F)) = dom (f_kids F)"
  by (auto simp: set_kids_def)

lemma kids_par_update [simp]: "kids (F\<lparr>f_par := g\<rparr>) = kids F"
  by (simp add: kids_def fun_eq_iff)

lemma forest_ok_create: "forest_ok F \<Longrightarrow> a \<notin> dom (f_kids F) \<Longrightarrow> forest_ok (f_create a F)"
proof -
  assume ok: "forest_ok F" and a: "a \<notin> dom (f_kids F)"
  have none: "f_par F a = None" using ok a by (cases "f_par F a") (auto simp: forest_ok_def)
  then have eq: "(f_par F)(a := None) = f_par F" by (simp add: fun_upd_idem)
  have "kids F a = []" using a by (simp add: kids_def domIff)
  then have "kids (f_create a F) = kids F" by (auto simp: kids_def f_create_def fun_eq_iff)
  with ok show ?thesis
    by (auto simp: forest_ok_def f_create_def par_rel_def eq)
qed

lemma par_detach: "par_rel (f_detach c F) \<subseteq> par_rel F"
  by (auto simp: f_detach_def par_rel_def set_kids_def split: option.splits if_splits)

lemma forest_ok_detach:
  assumes "forest_ok F"
  shows "forest_ok (f_detach c F)"
proof (cases "f_par F c")
  case None
  with assms show ?thesis by (simp add: f_detach_def)
next
  case (Some p)
  then have c: "c \<in> set (kids F p)" using forest_okD(4) [OF assms] by simp
  then have p: "p \<in> dom (f_kids F)" using kid_dom [OF assms] by blast
  have acyc: "acyclic (par_rel (f_detach c F))"
    using forest_okD(2) [OF assms] par_detach by (rule acyclic_subset)
  let ?G = "f_detach c F"
  have kids: "kids ?G q = (if q = p then remove1 c (kids F p) else kids F q)" for q
    using Some by (simp add: f_detach_def kids_set_kids)
  have par: "f_par ?G = (f_par F)(c := None)" using Some by (simp add: f_detach_def)
  have dom: "dom (f_kids ?G) = dom (f_kids F)" using Some p by (simp add: f_detach_def dom_set_kids)
  have "f_par ?G x = Some q \<longleftrightarrow> x \<in> set (kids ?G q)" for x q
    using forest_okD(3,4) [OF assms] kid_unique [OF assms c] by (cases "x = c") (auto simp: kids par)
  moreover have "distinct (kids ?G q)" for q using forest_okD(3) [OF assms] by (simp add: kids)
  moreover have "f_par ?G x = Some q \<Longrightarrow> x \<in> dom (f_kids ?G)" for x q
    using forest_okD(5) [OF assms] by (auto simp: par dom split: if_splits)
  ultimately show ?thesis
    using acyc forest_okD(1) [OF assms] by (simp add: forest_ok_def dom)
qed

lemma forest_ok_place:
  assumes "forest_ok F" and p: "p \<in> dom (f_kids F)" and c: "c \<in> dom (f_kids F)" "f_par F c = None"
    and acyc: "p \<notin> below F c"
  shows "forest_ok (f_place p i c F)"
proof -
  have "par_rel (f_place p i c F) = insert (c, p) (par_rel F)"
    using c(2) by (auto simp: par_rel_def f_place_def set_kids_def split: if_splits)
  then have "acyclic (par_rel (f_place p i c F))"
    using assms(1) acyc by (simp add: forest_ok_def below_def)
  moreover have fresh: "c \<notin> set (kids F q)" for q using forest_okD(4) [OF assms(1)] c(2) by force
  moreover have dom: "dom (f_kids (f_place p i c F)) = dom (f_kids F)"
    using p by (simp add: f_place_def dom_set_kids)
  moreover have "f_par (f_place p i c F) x = Some q \<Longrightarrow> x \<in> dom (f_kids F)" for x q
    using forest_okD(5) [OF assms(1)] c(1) by (auto simp: f_place_def split: if_splits)
  ultimately show ?thesis
    using forest_okD(1,3,4) [OF assms(1)]
    by (auto simp: forest_ok_def f_place_def kids_set_kids distinct_insert_nth split: if_splits)
qed

section \<open>The operations follow the lists\<close>

lemma repD:
  assumes "rep h F"
  shows "dom h = dom (f_kids F)" "fld n_parent h = f_par F"
    "fld n_first_child h p = first_of (kids F p) None" "fld n_last_child h p = last_of (kids F p) None"
    "chain (fld n_prev_sibling h) (fld n_next_sibling h) None (kids F p) None"
    "f_par F p = None \<Longrightarrow> fld n_prev_sibling h p = None" "f_par F p = None \<Longrightarrow> fld n_next_sibling h p = None"
  using assms by (auto simp: rep_def)

text \<open>What an operation does to the fields, but for the links.\<close>

definition same_data :: "om_heap \<Rightarrow> om_heap \<Rightarrow> bool" where
  "same_data h h' \<longleftrightarrow> (\<forall>a. map_option (\<lambda>n. (n_type n, n_data n, n_done n, n_doc n)) (h' a) =
     map_option (\<lambda>n. (n_type n, n_data n, n_done n, n_doc n)) (h a))"

lemma same_data_refl [simp]: "same_data h h"
  by (simp add: same_data_def)

lemma same_data_app:
  assumes "a \<in> dom h" "\<And>n. n_type (f n) = n_type n" "\<And>n. n_data (f n) = n_data n"
    "\<And>n. n_done (f n) = n_done n" "\<And>n. n_doc (f n) = n_doc n"
  shows "same_data g (app a f h) = same_data g h"
proof -
  have "map_option (\<lambda>n. (n_type n, n_data n, n_done n, n_doc n)) (app a f h b) =
      map_option (\<lambda>n. (n_type n, n_data n, n_done n, n_doc n)) (h b)" for b
    using assms by (auto simp: app_def)
  then show ?thesis by (simp add: same_data_def)
qed

text \<open>A child in the list of its parent.\<close>

lemma kid_split:
  assumes "forest_ok F" "f_par F c = Some p"
  obtains xs ys where "kids F p = xs @ c # ys" "c \<notin> set xs" "c \<notin> set ys" "distinct xs" "distinct ys"
    "set xs \<inter> set ys = {}"
proof -
  from assms obtain xs ys where s: "kids F p = xs @ c # ys" using forest_okD(4) by (metis split_list)
  then show ?thesis using that forest_okD(3) [OF assms(1), of p] by auto
qed

lemma remove1_split: "c \<notin> set xs \<Longrightarrow> remove1 c (xs @ c # ys) = xs @ ys"
  by (simp add: remove1_append)

text \<open>The links around a child, and around the place of a new one.\<close>

lemma chain_remove:
  assumes "chain pv nx p (xs @ c # ys) q" "distinct (xs @ c # ys)"
  shows "chain (if ys = [] then pv else pv(hd ys := last_of xs p))
    (if xs = [] then nx else nx(last xs := first_of ys q)) p (xs @ ys) q"
proof -
  have "chain pv nx p xs (Some c)" and ys: "chain pv nx (Some c) ys q" using assms(1) by (auto simp: chain_append)
  then have "chain pv (if xs = [] then nx else nx(last xs := first_of ys q)) p xs (first_of ys q)"
    using assms(2) chain_set_next [of xs] by auto
  moreover have "hd ys \<notin> set xs" if "ys \<noteq> []" using that assms(2) hd_in_set by fastforce
  ultimately have "chain (if ys = [] then pv else pv(hd ys := last_of xs p))
      (if xs = [] then nx else nx(last xs := first_of ys q)) p xs (first_of ys q)" by (auto split: if_splits)
  moreover have "last xs \<notin> set ys" if "xs \<noteq> []" using that assms(2) last_in_set by fastforce
  then have "chain (if ys = [] then pv else pv(hd ys := last_of xs p))
      (if xs = [] then nx else nx(last xs := first_of ys q)) (last_of xs p) ys q"
    using assms(2) ys chain_set_prev [of ys] by auto
  ultimately show ?thesis by (simp add: chain_append)
qed

lemma chain_insert:
  assumes "chain pv nx p (xs @ ys) q" "distinct (xs @ c # ys)"
  shows "chain ((if ys = [] then pv else pv(hd ys := Some c))(c := last_of xs p))
    ((if xs = [] then nx else nx(last xs := Some c))(c := first_of ys q)) p (xs @ c # ys) q"
proof -
  have "chain pv nx p xs (first_of ys q)" and ys: "chain pv nx (last_of xs p) ys q"
    using assms(1) by (auto simp: chain_append)
  then have "chain pv (if xs = [] then nx else nx(last xs := Some c)) p xs (Some c)"
    using assms(2) chain_set_next [of xs] by auto
  moreover have "hd ys \<notin> set xs" if "ys \<noteq> []" using that assms(2) hd_in_set by fastforce
  moreover have "last xs \<notin> set ys" if "xs \<noteq> []" using that assms(2) last_in_set by fastforce
  moreover have "chain (if ys = [] then pv else pv(hd ys := Some c)) nx (Some c) ys q"
    using assms(2) ys chain_set_prev [of ys] by auto
  ultimately show ?thesis
    using assms(2) by (auto simp: chain_append split: if_splits)
qed

text \<open>What is known of a child and its neighbours.\<close>

lemma kid_links:
  assumes ok: "forest_ok F" and rep: "rep h F" and k: "kids F p = xs @ c # ys"
  shows "fld n_prev_sibling h c = last_of xs None" "fld n_next_sibling h c = first_of ys None"
    "fld n_parent h c = Some p" "p \<in> dom h" "c \<in> dom h" "set xs \<subseteq> dom h" "set ys \<subseteq> dom h"
    "p \<noteq> c" "p \<notin> set xs" "p \<notin> set ys" "distinct (xs @ c # ys)"
proof -
  show "fld n_prev_sibling h c = last_of xs None" "fld n_next_sibling h c = first_of ys None"
    using chain_at repD(5) [OF rep, of p] unfolding k by blast+
  have "f_par F c = Some p" using forest_okD(4) [OF ok] k by simp
  then show "fld n_parent h c = Some p" using repD(2) [OF rep] by simp
  have "x \<in> dom h \<and> p \<in> dom h" if "x \<in> set (xs @ c # ys)" for x
    using kid_dom [OF ok, of x p] that repD(1) [OF rep] k by auto
  then show "p \<in> dom h" "c \<in> dom h" "set xs \<subseteq> dom h" "set ys \<subseteq> dom h" by auto
  show "p \<noteq> c" "p \<notin> set xs" "p \<notin> set ys" using not_own_kid [OF ok, of p] k by auto
  show "distinct (xs @ c # ys)" using forest_okD(3) [OF ok, of p] k by simp
qed

lemma ptr_of_last: "last_of xs None = (if xs = [] then None else Some (last xs))"
  by (simp add: last_of_def)

lemma ptr_of_first: "first_of ys None = (if ys = [] then None else Some (hd ys))"
  by (cases ys) auto

lemma detach_run:
  assumes ok: "forest_ok F" and rep: "rep h F" and k: "kids F p = xs @ c # ys"
  shows "\<exists>h'. axiom_node_detach_without_namespaces h (Some c) = Inr h' \<and> dom h' = dom h \<and>
    fld n_parent h' = (fld n_parent h)(c := None) \<and>
    fld n_first_child h' = (fld n_first_child h)(p := first_of (xs @ ys) None) \<and>
    fld n_last_child h' = (fld n_last_child h)(p := last_of (xs @ ys) None) \<and>
    fld n_prev_sibling h' = (if ys = [] then fld n_prev_sibling h
      else (fld n_prev_sibling h)(hd ys := last_of xs None))(c := None) \<and>
    fld n_next_sibling h' = (if xs = [] then fld n_next_sibling h
      else (fld n_next_sibling h)(last xs := first_of ys None))(c := None) \<and>
    fld n_builder h' = (fld n_builder h)(c := None) \<and> same_data h h'"
proof -
  note l = kid_links [OF ok rep k]
  have f: "fld n_first_child h p = first_of (xs @ c # ys) None" "fld n_last_child h p = last_of (xs @ c # ys) None"
    using repD(3,4) [OF rep, of p] k by simp_all
  have a: "last xs \<in> dom h \<and> last xs \<noteq> c \<and> last xs \<noteq> p" if "xs \<noteq> []"
    using l(9,11) last_in_set [OF that] subsetD [OF l(6), of "last xs"] by auto
  have b: "hd ys \<in> dom h \<and> hd ys \<noteq> c \<and> hd ys \<noteq> p" if "ys \<noteq> []"
    using l(10,11) hd_in_set [OF that] subsetD [OF l(7), of "hd ys"] by auto
  have ab: "last xs \<noteq> hd ys" if "xs \<noteq> []" "ys \<noteq> []"
    using l(11) last_in_set [OF that(1)] hd_in_set [OF that(2)] by auto
  have c: "last ys \<noteq> c" if "ys \<noteq> []" using l(11) last_in_set [OF that] by auto
  show ?thesis
    using l a b ab c f
    by (cases "xs = []"; cases "ys = []")
       (simp_all add: axiom_node_detach_without_namespaces_def run_links same_data_app ptr_of_last ptr_of_first
         fun_upd_twist fun_upd_idem last_of_append first_of_append)
qed

lemma detach_rep:
  assumes ok: "forest_ok F" and rep: "rep h F" and c: "c \<in> dom h"
  shows "\<exists>h'. axiom_node_detach_without_namespaces h (Some c) = Inr h' \<and> rep h' (f_detach c F) \<and>
    fld n_builder h' = (fld n_builder h)(c := None) \<and> same_data h h'"
proof (cases "f_par F c")
  case None
  let ?h = "app c (\<lambda>m. m\<lparr>n_builder := None\<rparr>) h"
  have "axiom_node_detach_without_namespaces h (Some c) = Inr ?h"
    using None c repD(2) [OF rep] by (simp add: axiom_node_detach_without_namespaces_def run_links)
  moreover have "rep ?h (f_detach c F)"
    using rep None c by (simp add: rep_def f_detach_def fld_set)
  ultimately show ?thesis using c by (simp add: fld_set same_data_app)
next
  case (Some p)
  then obtain xs ys where k: "kids F p = xs @ c # ys" "c \<notin> set xs" by (rule kid_split [OF ok])
  note l = kid_links [OF ok rep k(1)]
  obtain h' where run: "axiom_node_detach_without_namespaces h (Some c) = Inr h'" and h': "dom h' = dom h"
      "fld n_parent h' = (fld n_parent h)(c := None)"
      "fld n_first_child h' = (fld n_first_child h)(p := first_of (xs @ ys) None)"
      "fld n_last_child h' = (fld n_last_child h)(p := last_of (xs @ ys) None)"
      "fld n_prev_sibling h' = (if ys = [] then fld n_prev_sibling h
        else (fld n_prev_sibling h)(hd ys := last_of xs None))(c := None)"
      "fld n_next_sibling h' = (if xs = [] then fld n_next_sibling h
        else (fld n_next_sibling h)(last xs := first_of ys None))(c := None)"
      "fld n_builder h' = (fld n_builder h)(c := None)" "same_data h h'"
    using detach_run [OF ok rep k(1)] by blast
  let ?G = "f_detach c F"
  have G: "kids ?G = (kids F)(p := xs @ ys)" "f_par ?G = (f_par F)(c := None)" "dom (f_kids ?G) = dom (f_kids F)"
    using Some k repD(1) [OF rep] l(4)
    by (auto simp: f_detach_def kids_set_kids remove1_split dom_set_kids fun_eq_iff)
  have other: "x \<notin> set (kids F q)" if "x \<in> set (xs @ c # ys)" "q \<noteq> p" for x q
    using kid_unique [OF ok, of x p q] that k(1) by auto
  have "chain (fld n_prev_sibling h') (fld n_next_sibling h') None (kids ?G q) None" for q
  proof (cases "q = p")
    case True
    then show ?thesis
      using chain_remove [of "fld n_prev_sibling h" "fld n_next_sibling h" None xs c ys None] l(11)
        repD(5) [OF rep, of p] by (simp add: G h'(5,6) k)
  next
    case False
    then have "c \<notin> set (kids F q)" "ys \<noteq> [] \<Longrightarrow> hd ys \<notin> set (kids F q)" "xs \<noteq> [] \<Longrightarrow> last xs \<notin> set (kids F q)"
      using other by simp_all
    then show ?thesis using repD(5) [OF rep, of q] False by (simp add: G h'(5,6))
  qed
  moreover have "fld n_prev_sibling h' q = None \<and> fld n_next_sibling h' q = None" if "f_par ?G q = None" for q
  proof -
    have "q \<notin> set (xs @ ys)" "q \<noteq> c \<Longrightarrow> f_par F q = None"
      using that forest_okD(4) [OF ok, of q p] k l(11) by (auto simp: G split: if_splits)
    then show ?thesis
      using repD(6,7) [OF rep, of q] by (auto simp: h'(5,6) split: if_splits)
  qed
  ultimately have "rep h' ?G"
    using repD(1-4) [OF rep] by (simp add: rep_def G h'(1-4))
  with run h'(7,8) show ?thesis by blast
qed

text \<open>A node linked between the children \<open>xs\<close> and \<open>ys\<close> of \<open>p\<close>.\<close>

definition linked_in :: "om_heap \<Rightarrow> nat \<Rightarrow> nat list \<Rightarrow> nat \<Rightarrow> nat list \<Rightarrow> om_heap \<Rightarrow> bool" where
  "linked_in h p xs c ys h' \<longleftrightarrow> dom h' = dom h \<and> fld n_parent h' = (fld n_parent h)(c := Some p) \<and>
     fld n_first_child h' = (fld n_first_child h)(p := first_of (xs @ c # ys) None) \<and>
     fld n_last_child h' = (fld n_last_child h)(p := last_of (xs @ c # ys) None) \<and>
     fld n_prev_sibling h' = (if ys = [] then fld n_prev_sibling h
       else (fld n_prev_sibling h)(hd ys := Some c))(c := last_of xs None) \<and>
     fld n_next_sibling h' = (if xs = [] then fld n_next_sibling h
       else (fld n_next_sibling h)(last xs := Some c))(c := first_of ys None) \<and>
     fld n_builder h' = fld n_builder h \<and> same_data h h'"

lemma place_rep:
  assumes ok: "forest_ok F" and rep: "rep h F" and k: "kids F p = xs @ ys" and p: "p \<in> dom h"
    and c: "f_par F c = None" and link: "linked_in h p xs c ys h'"
  shows "rep h' (f_place p (length xs) c F)"
proof -
  let ?G = "f_place p (length xs) c F"
  have G: "kids ?G = (kids F)(p := xs @ c # ys)" "f_par ?G = (f_par F)(c := Some p)" "dom (f_kids ?G) = dom (f_kids F)"
    using k p repD(1) [OF rep] by (auto simp: f_place_def kids_set_kids dom_set_kids insert_nth_def fun_eq_iff)
  have fresh: "c \<notin> set (kids F q)" for q using forest_okD(4) [OF ok] c by force
  have d: "distinct (xs @ c # ys)" using forest_okD(3) [OF ok, of p] k fresh [of p] by auto
  have other: "x \<notin> set (kids F q)" if "x \<in> set (xs @ ys)" "q \<noteq> p" for x q
    using kid_unique [OF ok, of x p q] that k by auto
  have "chain (fld n_prev_sibling h') (fld n_next_sibling h') None (kids ?G q) None" for q
  proof (cases "q = p")
    case True
    then show ?thesis
      using chain_insert [of "fld n_prev_sibling h" "fld n_next_sibling h" None xs ys None c] d
        repD(5) [OF rep, of p] link by (simp add: G k linked_in_def)
  next
    case False
    then have "ys \<noteq> [] \<Longrightarrow> hd ys \<notin> set (kids F q)" "xs \<noteq> [] \<Longrightarrow> last xs \<notin> set (kids F q)"
      using other by simp_all
    then show ?thesis using repD(5) [OF rep, of q] fresh [of q] link False by (simp add: G linked_in_def)
  qed
  moreover have "fld n_prev_sibling h' q = None \<and> fld n_next_sibling h' q = None" if "f_par ?G q = None" for q
  proof -
    have q: "q \<noteq> c" "f_par F q = None" using that by (auto simp: G split: if_splits)
    then have "q \<notin> set (xs @ ys)" using forest_okD(4) [OF ok, of q p] k by auto
    then show ?thesis
      using repD(6,7) [OF rep q(2)] q(1) link by (auto simp: linked_in_def split: if_splits)
  qed
  ultimately show ?thesis
    using repD(1-4) [OF rep] link by (simp add: rep_def G linked_in_def)
qed

lemma append_run:
  assumes ok: "forest_ok F" and rep: "rep h F" and p: "p \<in> dom h" and c: "c \<in> dom h" "f_par F c = None" "p \<noteq> c"
  shows "\<exists>h'. append_child h (Some p) (Some c) = Inr h' \<and> linked_in h p (kids F p) c [] h'"
proof -
  let ?xs = "kids F p"
  have f: "fld n_first_child h p = first_of ?xs None" "fld n_last_child h p = last_of ?xs None"
    using repD(3,4) [OF rep] by simp_all
  have n: "fld n_next_sibling h c = None" "fld n_prev_sibling h c = None" using repD(6,7) [OF rep c(2)] by simp_all
  have l: "last ?xs \<in> dom h \<and> last ?xs \<noteq> p \<and> last ?xs \<noteq> c" if "?xs \<noteq> []"
    using last_in_set [OF that] kid_dom [OF ok] not_own_kid [OF ok, of p] forest_okD(4) [OF ok, of c p] c(2)
      repD(1) [OF rep] by (metis option.distinct(1))
  show ?thesis
    using p c n l f
    by (cases "?xs = []")
       (simp_all add: append_child_def linked_in_def run_links same_data_app ptr_of_last ptr_of_first
         first_of_append fun_upd_idem)
qed

lemma before_run:
  assumes ok: "forest_ok F" and rep: "rep h F" and k: "kids F p = xs @ x # ys"
    and c: "c \<in> dom h" "f_par F c = None" "p \<noteq> c"
  shows "\<exists>h'. axiom_node_insert_sibling_before h (Some x) (Some c) = Inr h' \<and> linked_in h p xs c (x # ys) h'"
proof -
  note l = kid_links [OF ok rep k]
  have f: "fld n_first_child h p = first_of (xs @ x # ys) None" "fld n_last_child h p = last_of (xs @ x # ys) None"
    using repD(3,4) [OF rep, of p] k by simp_all
  have n: "x \<noteq> c" "c \<notin> set xs" using forest_okD(4) [OF ok, of c p] c(2) k by auto
  have a: "last xs \<in> dom h \<and> last xs \<noteq> c \<and> last xs \<noteq> p \<and> last xs \<noteq> x" if "xs \<noteq> []"
    using l(9,11) n last_in_set [OF that] subsetD [OF l(6), of "last xs"] by auto
  show ?thesis
    using l a c n f
    by (cases "xs = []")
       (simp_all add: axiom_node_insert_sibling_before_def linked_in_def run_links same_data_app ptr_of_last
         ptr_of_first first_of_append last_of_append fun_upd_twist fun_upd_idem)
qed

text \<open>After a node that is not the last child.\<close>

lemma after_run:
  assumes ok: "forest_ok F" and rep: "rep h F" and k: "kids F p = xs @ x # ys" "ys \<noteq> []"
    and c: "c \<in> dom h" "f_par F c = None" "p \<noteq> c"
  shows "\<exists>h'. axiom_node_insert_sibling_after h (Some x) (Some c) = Inr h' \<and> linked_in h p (xs @ [x]) c ys h'"
proof -
  note l = kid_links [OF ok rep k(1)]
  have f: "fld n_first_child h p = first_of (xs @ x # ys) None" "fld n_last_child h p = last_of (xs @ x # ys) None"
    using repD(3,4) [OF rep, of p] k by simp_all
  have n: "x \<noteq> c" "c \<notin> set ys" using forest_okD(4) [OF ok, of c p] c(2) k by auto
  have b: "hd ys \<in> dom h \<and> hd ys \<noteq> c \<and> hd ys \<noteq> p \<and> hd ys \<noteq> x"
    using l(10,11) n hd_in_set [OF k(2)] subsetD [OF l(7), of "hd ys"] by auto
  show ?thesis
    using l b c n f k(2)
    by (cases "xs = []")
       (simp_all add: axiom_node_insert_sibling_after_def linked_in_def run_links same_data_app ptr_of_last
         ptr_of_first first_of_append last_of_append fun_upd_twist fun_upd_idem)
qed

section \<open>Subtrees\<close>

lemma below_self [simp]: "c \<in> below F c"
  by (simp add: below_def)

lemma below_unfold:
  assumes "forest_ok F"
  shows "below F c = insert c (\<Union>z \<in> set (kids F c). below F z)"
proof -
  have "(x, c) \<in> (par_rel F)\<^sup>* \<longleftrightarrow> x = c \<or> (\<exists>z. (x, z) \<in> (par_rel F)\<^sup>* \<and> (z, c) \<in> par_rel F)" for x
    by (meson rtrancl.rtrancl_into_rtrancl rtrancl.rtrancl_refl rtranclE)
  then show ?thesis
    using forest_okD(4) [OF assms] by (auto simp: below_def par_rel_def)
qed

lemma forest_wf: "forest_ok F \<Longrightarrow> wf (par_rel F)"
proof (rule finite_acyclic_wf)
  assume ok: "forest_ok F"
  have "par_rel F \<subseteq> dom (f_kids F) \<times> dom (f_kids F)"
    using kid_dom [OF ok] forest_okD(4) [OF ok] by (auto simp: par_rel_def)
  then show "finite (par_rel F)" using forest_okD(1) [OF ok] finite_subset by blast
  show "acyclic (par_rel F)" by (rule forest_okD(2) [OF ok])
qed

lemma par_rel_fun: "(x, y) \<in> par_rel F \<Longrightarrow> (x, z) \<in> par_rel F \<Longrightarrow> y = z"
  by (simp add: par_rel_def)

text \<open>The ancestors of a node are in line.\<close>

lemma ancestors_linear:
  "(x, y) \<in> (par_rel F)\<^sup>* \<Longrightarrow> (x, z) \<in> (par_rel F)\<^sup>* \<Longrightarrow> (y, z) \<in> (par_rel F)\<^sup>* \<or> (z, y) \<in> (par_rel F)\<^sup>*"
proof (induction rule: converse_rtrancl_induct)
  case (step x w)
  from step.prems show ?case
  proof (cases rule: converse_rtranclE)
    case base
    then show ?thesis using step.hyps by (meson converse_rtrancl_into_rtrancl)
  next
    case (step v)
    then show ?thesis using \<open>(x, w) \<in> par_rel F\<close> par_rel_fun step.IH by metis
  qed
qed simp

lemma siblings_apart:
  assumes ok: "forest_ok F" and y: "y \<in> set (kids F p)" "z \<in> set (kids F p)" "y \<noteq> z"
  shows "below F y \<inter> below F z = {}"
proof -
  have no: "(a, b) \<notin> (par_rel F)\<^sup>*" if "a \<in> set (kids F p)" "b \<in> set (kids F p)" "a \<noteq> b" for a b
  proof
    assume ab: "(a, b) \<in> (par_rel F)\<^sup>*"
    have "\<exists>v. (a, v) \<in> par_rel F \<and> (v, b) \<in> (par_rel F)\<^sup>*"
      using ab that(3) by (metis converse_rtranclE)
    then obtain v where "(a, v) \<in> par_rel F" "(v, b) \<in> (par_rel F)\<^sup>*" by blast
    moreover have "(a, p) \<in> par_rel F" "(b, p) \<in> par_rel F"
      using that forest_okD(4) [OF ok] by (auto simp: par_rel_def)
    ultimately have "(p, p) \<in> (par_rel F)\<^sup>+" by (metis par_rel_fun rtrancl_into_trancl1)
    then show False using forest_okD(2) [OF ok] by (simp add: acyclic_def)
  qed
  then show ?thesis
    using ancestors_linear [of _ y F z] no [OF y] no [OF y(2,1)] y(3) by (auto simp: below_def)
qed

lemma below_detach: "forest_ok F \<Longrightarrow> below (f_detach c F) c = below F c"
proof -
  assume ok: "forest_ok F"
  have sub: "below (f_detach c F) c \<subseteq> below F c"
    using rtrancl_mono [OF par_detach [of c F]] by (auto simp: below_def)
  have "(x, c) \<in> (par_rel (f_detach c F))\<^sup>*" if "(x, c) \<in> (par_rel F)\<^sup>*" for x
    using that
  proof (induction rule: converse_rtrancl_induct)
    case (step x y)
    have "x \<noteq> c"
      using step.hyps forest_okD(2) [OF ok] by (metis acyclic_def rtrancl_into_trancl2)
    then have "(x, y) \<in> par_rel (f_detach c F)"
      using step.hyps(1) by (auto simp: par_rel_def f_detach_def set_kids_def split: option.splits)
    then show ?case using step.IH by (rule converse_rtrancl_into_rtrancl)
  qed simp
  with sub show ?thesis by (auto simp: below_def)
qed

section \<open>Deallocation\<close>

definition without :: "nat set \<Rightarrow> om_heap \<Rightarrow> om_heap" where
  "without S h = (\<lambda>a. if a \<in> S then None else h a)"

lemma without_simps [simp]: "without {} h = h" "(without S h)(a := None) = without (insert a S) h"
  by (auto simp: without_def fun_eq_iff)

lemma dom_without: "dom (without S h) = dom h - S"
  by (auto simp: without_def split: if_splits)

lemma free_children_spec:
  assumes ok: "forest_ok F" and rep: "rep h F"
  shows "kids F p = xs @ ys \<Longrightarrow> S \<inter> (\<Union>y \<in> set ys. below F y) = {} \<Longrightarrow>
    free_children (without S h) (first_of ys None) = Some (Inr (without (S \<union> (\<Union>y \<in> set ys. below F y)) h))"
proof (induction p arbitrary: xs ys S rule: wf_induct_rule [OF forest_wf [OF ok]])
  case (1 p)
  from "1.prems" show ?case
  proof (induction ys arbitrary: xs S)
    case Nil
    then show ?case by (simp add: free_children.simps)
  next
    case (Cons y ys)
    note l = kid_links [OF ok rep Cons.prems(1)]
    have "(y, p) \<in> par_rel F" using forest_okD(4) [OF ok, of y p] Cons.prems(1) by (simp add: par_rel_def)
    note outer = "1.IH" [OF this, of "[]"]
    have y: "y \<notin> S" "S \<inter> below F y = {}" using Cons.prems(2) below_self by auto
    obtain n where n: "h y = Some n" using l(5) by blast
    then have nl: "n_first_child n = first_of (kids F y) None" "n_next_sibling n = first_of ys None"
      using repD(3) [OF rep, of y] l(2) by (auto simp: fld_def)
    have b: "below F y = insert y (\<Union>z \<in> set (kids F y). below F z)" by (rule below_unfold [OF ok])
    then have "free_children (without S h) (first_of (kids F y) None) =
        Some (Inr (without (S \<union> (\<Union>z \<in> set (kids F y). below F z)) h))"
      using y by (intro outer) auto
    moreover have "insert y (S \<union> (\<Union>z \<in> set (kids F y). below F z)) = S \<union> below F y" using b by blast
    moreover have "below F y \<inter> (\<Union>z \<in> set ys. below F z) = {}"
      using siblings_apart [OF ok, of y p] Cons.prems(1) l(11) by fastforce
    then have "free_children (without (S \<union> below F y) h) (first_of ys None) =
        Some (Inr (without (S \<union> below F y \<union> (\<Union>z \<in> set ys. below F z)) h))"
      using Cons.prems by (intro Cons.IH [of "xs @ [y]"]) auto
    moreover have "without S h y = Some n" using n y(1) by (simp add: without_def)
    ultimately show ?case
      by (subst free_children.simps) (simp add: nl Un_assoc)
  qed
qed

lemma free_detached_spec:
  assumes "forest_ok F" "rep h F" "c \<in> dom h"
  shows "axiom_node_free_detached_subtree h c = Some (Inr (without (below F c) h))"
proof -
  obtain n where n: "h c = Some n" using assms(3) by blast
  then have "n_first_child n = first_of (kids F c) None" using repD(3) [OF assms(2), of c] by (simp add: fld_def)
  with free_children_spec [OF assms(1,2), of c "[]" "kids F c" "{}"] n below_unfold [OF assms(1), of c] show ?thesis
    by (simp add: axiom_node_free_detached_subtree_def)
qed

text \<open>A subtree that hangs at no parent is cut out of the forest.\<close>

lemma f_cut_simps:
  "kids (f_cut S F) p = (if p \<in> S then [] else kids F p)"
  "f_par (f_cut S F) = (\<lambda>p. if p \<in> S then None else f_par F p)"
  "dom (f_kids (f_cut S F)) = dom (f_kids F) - S"
  by (auto simp: f_cut_def kids_def split: if_splits)

lemma cut_kids:
  assumes ok: "forest_ok F" and c: "f_par F c = None" and p: "p \<notin> below F c"
  shows "set (kids F p) \<inter> below F c = {}"
proof -
  have "x \<notin> below F c" if "x \<in> set (kids F p)" for x
  proof
    assume x: "x \<in> below F c"
    have xp: "(x, p) \<in> par_rel F" using that forest_okD(4) [OF ok] by (simp add: par_rel_def)
    then have "x \<noteq> c" using c by (auto simp: par_rel_def)
    then obtain v where "(x, v) \<in> par_rel F" "(v, c) \<in> (par_rel F)\<^sup>*"
      using x by (auto simp: below_def elim: converse_rtranclE)
    then show False using par_rel_fun [OF xp] p by (simp add: below_def)
  qed
  then show ?thesis by blast
qed

lemma f_detach_par: "f_par (f_detach c F) c = None"
  by (simp add: f_detach_def split: option.splits)

lemma f_free_alt: "forest_ok F \<Longrightarrow> f_free c F = f_cut (below (f_detach c F) c) (f_detach c F)"
  by (simp add: f_free_def below_detach)

lemma forest_ok_cut:
  assumes ok: "forest_ok F" and c: "f_par F c = None"
  shows "forest_ok (f_cut (below F c) F)" (is "forest_ok ?G")
proof -
  have "par_rel ?G \<subseteq> par_rel F" by (auto simp: par_rel_def f_cut_simps split: if_splits)
  with forest_okD(2) [OF ok] have "acyclic (par_rel ?G)" by (rule acyclic_subset)
  moreover have "f_par ?G x = Some p \<longleftrightarrow> x \<in> set (kids ?G p)" for x p
  proof (cases "p \<in> below F c")
    case True
    have "x \<in> below F c" if "f_par F x = Some p"
      using True that by (auto simp: below_def par_rel_def intro: converse_rtrancl_into_rtrancl)
    with True show ?thesis by (auto simp: f_cut_simps)
  next
    case False
    with cut_kids [OF ok c False] forest_okD(4) [OF ok, of x p] show ?thesis by (auto simp: f_cut_simps)
  qed
  moreover have "f_par ?G x = Some p \<Longrightarrow> x \<in> dom (f_kids ?G)" for x p
    using forest_okD(5) [OF ok, of x p] unfolding f_cut_simps by (auto split: if_splits)
  moreover have "finite (dom (f_kids ?G))" using forest_okD(1) [OF ok] by (simp add: f_cut_simps)
  moreover have "distinct (kids ?G p)" for p using forest_okD(3) [OF ok] by (simp add: f_cut_simps)
  ultimately show ?thesis unfolding forest_ok_def by blast
qed

lemma chain_cong:
  "\<forall>a \<in> set as. pv' a = pv a \<and> nx' a = nx a \<Longrightarrow> chain pv' nx' p as q = chain pv nx p as q"
  by (induction as arbitrary: p) auto

lemma rep_cut:
  assumes ok: "forest_ok F" and rep: "rep h F" and c: "f_par F c = None"
  shows "rep (without (below F c) h) (f_cut (below F c) F)" (is "rep ?h ?G")
proof -
  have f: "fld f ?h = (\<lambda>a. if a \<in> below F c then None else fld f h a)" for f
    by (auto simp: fld_def without_def fun_eq_iff)
  have "chain (fld n_prev_sibling ?h) (fld n_next_sibling ?h) None (kids ?G p) None" for p
  proof (cases "p \<in> below F c")
    case False
    then have "\<forall>a \<in> set (kids F p). a \<notin> below F c" using cut_kids [OF ok c] by blast
    then have "chain (fld n_prev_sibling ?h) (fld n_next_sibling ?h) None (kids F p) None"
      using repD(5) [OF rep, of p]
      by (subst chain_cong [of _ _ "fld n_prev_sibling h" _ "fld n_next_sibling h"]) (auto simp: f)
    with False show ?thesis by (simp add: f_cut_simps)
  qed (simp add: f_cut_simps)
  moreover have "dom ?h = dom (f_kids ?G)" using repD(1) [OF rep] by (simp add: f_cut_simps dom_without)
  moreover have "fld n_parent ?h = f_par ?G" by (simp only: f f_cut_simps repD(2) [OF rep])
  moreover have "fld n_first_child ?h p = first_of (kids ?G p) None" "fld n_last_child ?h p = last_of (kids ?G p) None" for p
    using repD(3,4) [OF rep, of p] by (simp_all add: f f_cut_simps last_of_def)
  moreover have "fld n_prev_sibling ?h p = None \<and> fld n_next_sibling ?h p = None" if "f_par ?G p = None" for p
    using that repD(6,7) [OF rep, of p] by (auto simp: f f_cut_simps)
  ultimately show ?thesis unfolding rep_def by blast
qed

lemma same_data_dom: "same_data h h' \<Longrightarrow> dom h' = dom h"
proof -
  assume same: "same_data h h'"
  have "h' a = None \<longleftrightarrow> h a = None" for a
    using spec [OF same [unfolded same_data_def], of a] by (cases "h a"; cases "h' a") auto
  then show ?thesis by (auto simp: dom_def)
qed

text \<open>Freeing a tree: the subtree is gone, and the rest is linked as after detaching it.\<close>

lemma free_rep:
  assumes ok: "forest_ok F" and rep: "rep h F" and c: "c \<in> dom h"
  shows "\<exists>h1. axiom_node_detach_without_namespaces h (Some c) = Inr h1 \<and>
    fld n_builder h1 = (fld n_builder h)(c := None) \<and> same_data h h1 \<and>
    axiom_node_free_tree h (Some c) = Some (Inr (without (below F c) h1)) \<and>
    rep (without (below F c) h1) (f_free c F) \<and> forest_ok (f_free c F)"
proof -
  obtain h1 where h1: "axiom_node_detach_without_namespaces h (Some c) = Inr h1" "rep h1 (f_detach c F)"
    "fld n_builder h1 = (fld n_builder h)(c := None)" "same_data h h1"
    using detach_rep [OF assms] by blast
  note okd = forest_ok_detach [OF ok, of c]
  have "c \<in> dom h1" using c same_data_dom [OF h1(4)] by simp
  note fr = free_detached_spec [OF okd h1(2) this]
  with h1 rep_cut [OF okd h1(2) f_detach_par] forest_ok_cut [OF okd f_detach_par] show ?thesis
    by (simp add: axiom_node_free_tree_def f_free_alt [OF ok] below_detach [OF ok])
qed

end
