(* ===== verification/Om_Tree.thy ===== *)
theory Om_Tree
  imports Om_Forest
begin

text \<open>
  The object model as its clients see it: any history of legal calls on linked nodes behaves as the same
  history on an ordered forest (an interpretation of the locale \<open>simulation\<close>), and a defect of
  \<^verbatim>\<open>axiom_node_insert_sibling_after\<close>, which the legal calls leave out.
\<close>

section \<open>Calls\<close>

datatype om_call =
    Create nat | Append nat nat | Unlink nat | Before nat nat | After nat nat | Free nat
  | Set_type nat axiom_types | Set_data nat nat | Set_complete nat bool
  | First_child nat | Last_child nat | Next_sibling nat | Previous_sibling nat | Parent nat

definition no_value :: "om_heap \<Rightarrow> om_heap result \<Rightarrow> ptr result \<times> om_heap" where
  "no_value h r = (case r of Inl e \<Rightarrow> (Inl e, h) | Inr h' \<Rightarrow> (Inr None, h'))"

fun do_om_call :: "alloc \<Rightarrow> om_heap \<Rightarrow> om_call \<Rightarrow> (ptr result \<times> om_heap) option" where
  "do_om_call malloc h (Create a) =
     Some (case axiom_node_create malloc a h of Inl e \<Rightarrow> (Inl e, h) | Inr (p, h') \<Rightarrow> (Inr p, h'))"
| "do_om_call malloc h (Append p c) = Some (no_value h (append_child h (Some p) (Some c)))"
| "do_om_call malloc h (Unlink c) = Some (no_value h (axiom_node_detach_without_namespaces h (Some c)))"
| "do_om_call malloc h (Before x c) = Some (no_value h (axiom_node_insert_sibling_before h (Some x) (Some c)))"
| "do_om_call malloc h (After x c) = Some (no_value h (axiom_node_insert_sibling_after h (Some x) (Some c)))"
| "do_om_call malloc h (Free c) = map_option (no_value h) (axiom_node_free_tree h (Some c))"
| "do_om_call malloc h (Set_type c t) = Some (no_value h (axiom_node_set_node_type h (Some c) t))"
| "do_om_call malloc h (Set_data c d) = Some (no_value h (axiom_node_set_data_element h (Some c) (Some d)))"
| "do_om_call malloc h (Set_complete c b) = Some (no_value h (axiom_node_set_complete h (Some c) b))"
| "do_om_call malloc h (First_child p) = Some (axiom_node_get_first_child h (Some p), h)"
| "do_om_call malloc h (Last_child p) = Some (axiom_node_get_last_child h (Some p), h)"
| "do_om_call malloc h (Next_sibling c) = Some (axiom_node_get_next_sibling h (Some c), h)"
| "do_om_call malloc h (Previous_sibling c) = Some (axiom_node_get_previous_sibling h (Some c), h)"
| "do_om_call malloc h (Parent c) = Some (axiom_node_get_parent h (Some c), h)"

section \<open>Calls on forests\<close>

text \<open>The siblings before and after a child.\<close>

definition elders :: "om_forest \<Rightarrow> nat \<Rightarrow> nat list" where
  "elders F c = (case f_par F c of None \<Rightarrow> [] | Some p \<Rightarrow> takeWhile (\<lambda>x. x \<noteq> c) (kids F p))"

definition youngers :: "om_forest \<Rightarrow> nat \<Rightarrow> nat list" where
  "youngers F c = (case f_par F c of None \<Rightarrow> [] | Some p \<Rightarrow> tl (dropWhile (\<lambda>x. x \<noteq> c) (kids F p)))"

definition f_beside :: "(nat \<Rightarrow> nat) \<Rightarrow> nat \<Rightarrow> nat \<Rightarrow> om_forest \<Rightarrow> ptr result \<times> om_forest" where
  "f_beside shift x c F =
     (case f_par F x of
        None \<Rightarrow> (Inl FAILURE_STATUS, F)
      | Some p \<Rightarrow> (Inr None, f_place p (shift (length (elders F x))) c F))"

fun forest_call :: "alloc \<Rightarrow> om_forest \<Rightarrow> om_call \<Rightarrow> ptr result \<times> om_forest" where
  "forest_call malloc F (Create a) = (if malloc sizeof_node then (Inr (Some a), f_create a F) else (Inl NO_MEMORY, F))"
| "forest_call malloc F (Append p c) = (Inr None, f_place p (length (kids F p)) c F)"
| "forest_call malloc F (Unlink c) = (Inr None, f_detach c F)"
| "forest_call malloc F (Before x c) = f_beside (\<lambda>i. i) x c F"
| "forest_call malloc F (After x c) = f_beside Suc x c F"
| "forest_call malloc F (Free c) = (Inr None, f_free c F)"
| "forest_call malloc F (Set_type c t) = (Inr None, F)"
| "forest_call malloc F (Set_data c d) = (Inr None, F)"
| "forest_call malloc F (Set_complete c b) = (Inr None, F)"
| "forest_call malloc F (First_child p) = (Inr (first_of (kids F p) None), F)"
| "forest_call malloc F (Last_child p) = (Inr (last_of (kids F p) None), F)"
| "forest_call malloc F (Next_sibling c) = (Inr (first_of (youngers F c) None), F)"
| "forest_call malloc F (Previous_sibling c) = (Inr (last_of (elders F c) None), F)"
| "forest_call malloc F (Parent c) = (Inr (f_par F c), F)"

text \<open>
  A node is linked only when it has no parent and the new parent is not below it; nothing is inserted
  after a last child.
\<close>

definition can_hang :: "om_forest \<Rightarrow> nat \<Rightarrow> nat \<Rightarrow> bool" where
  "can_hang F p c \<longleftrightarrow> c \<in> dom (f_kids F) \<and> f_par F c = None \<and> p \<notin> below F c"

fun legal_om_call :: "om_forest \<Rightarrow> om_call \<Rightarrow> bool" where
  "legal_om_call F (Create a) = (a \<notin> dom (f_kids F))"
| "legal_om_call F (Append p c) = (p \<in> dom (f_kids F) \<and> can_hang F p c)"
| "legal_om_call F (Before x c) = (x \<in> dom (f_kids F) \<and> (\<forall>p. f_par F x = Some p \<longrightarrow> can_hang F p c))"
| "legal_om_call F (After x c) =
     (x \<in> dom (f_kids F) \<and> (\<forall>p. f_par F x = Some p \<longrightarrow> can_hang F p c \<and> youngers F x \<noteq> []))"
| "legal_om_call F (Unlink c) = (c \<in> dom (f_kids F))"
| "legal_om_call F (Free c) = (c \<in> dom (f_kids F))"
| "legal_om_call F (Set_type c t) = (c \<in> dom (f_kids F))"
| "legal_om_call F (Set_data c d) = (c \<in> dom (f_kids F))"
| "legal_om_call F (Set_complete c b) = (c \<in> dom (f_kids F))"
| "legal_om_call F (First_child c) = (c \<in> dom (f_kids F))"
| "legal_om_call F (Last_child c) = (c \<in> dom (f_kids F))"
| "legal_om_call F (Next_sibling c) = (c \<in> dom (f_kids F))"
| "legal_om_call F (Previous_sibling c) = (c \<in> dom (f_kids F))"
| "legal_om_call F (Parent c) = (c \<in> dom (f_kids F))"

text \<open>A heap that stands for a forest; no node waits for a builder.\<close>

definition om_rel :: "om_heap \<Rightarrow> om_forest \<Rightarrow> bool" where
  "om_rel h F \<longleftrightarrow> forest_ok F \<and> rep h F \<and> (\<forall>a. fld n_builder h a = None)"

definition no_nodes :: om_forest where
  "no_nodes = \<lparr>f_kids = Map.empty, f_par = (\<lambda>_. None)\<rparr>"

section \<open>Each call\<close>

lemma om_relD: "om_rel h F \<Longrightarrow> forest_ok F" "om_rel h F \<Longrightarrow> rep h F" "om_rel h F \<Longrightarrow> fld n_builder h a = None"
  by (simp_all add: om_rel_def)

lemma om_rel_dom: "om_rel h F \<Longrightarrow> dom (f_kids F) = dom h"
  using repD(1) om_relD(2) by metis

lemma om_rel_empty: "om_rel Map.empty no_nodes"
  by (auto simp: om_rel_def no_nodes_def forest_ok_def rep_def kids_def par_rel_def fld_def acyclic_def)

lemma kid_parts:
  assumes "om_rel h F" "f_par F c = Some p"
  shows "kids F p = elders F c @ c # youngers F c"
proof -
  have "c \<in> set (kids F p)" using assms om_relD(1) forest_okD(4) by blast
  then have "dropWhile (\<lambda>x. x \<noteq> c) (kids F p) = c # youngers F c"
    using hd_dropWhile [of "\<lambda>x. x \<noteq> c" "kids F p"] assms(2)
    by (cases "dropWhile (\<lambda>x. x \<noteq> c) (kids F p)") (auto simp: youngers_def)
  then show ?thesis
    using takeWhile_dropWhile_id [of "\<lambda>x. x \<noteq> c" "kids F p"] assms(2) by (simp add: elders_def)
qed

lemma create_sim:
  assumes "om_rel h F" "a \<notin> dom (f_kids F)" "axiom_node_create malloc a h = Inr (q, h')"
  shows "q = Some a \<and> om_rel h' (f_create a F)"
proof -
  note ok = om_relD(1) [OF assms(1)] and rep = om_relD(2) [OF assms(1)]
  let ?n = "\<lparr>n_doc = None, n_builder = None, n_parent = None, n_prev_sibling = None,
        n_next_sibling = None, n_first_child = None, n_last_child = None, n_type = AXIOM_INVALID,
        n_done = False, n_data = None\<rparr>"
  have h': "h' = h(a \<mapsto> ?n)" "q = Some a" using assms(3) by (auto simp: axiom_node_create_def split: if_splits)
  have "h a = None" using assms(2) om_rel_dom [OF assms(1)] by auto
  then have none: "fld f h a = None" for f by (simp add: fld_def)
  have f: "fld f h' = fld f h" if "f ?n = None" for f
    using that none [of f] by (auto simp: h' fld_def fun_eq_iff)
  have "kids F a = []" using assms(2) by (simp add: kids_def domIff)
  then have "kids (f_create a F) = kids F" by (auto simp: kids_def f_create_def fun_eq_iff)
  moreover have "f_par (f_create a F) = f_par F"
    using none [of n_parent] repD(2) [OF rep] by (auto simp: f_create_def fun_eq_iff)
  moreover have "dom h' = dom (f_kids (f_create a F))" using repD(1) [OF rep] by (simp add: h' f_create_def)
  ultimately have "rep h' (f_create a F)" using rep by (simp add: rep_def f)
  then show ?thesis
    using forest_ok_create [OF ok assms(2)] om_relD(3) [OF assms(1)] h'(2) by (simp add: om_rel_def f)
qed

lemma hang_sim:
  assumes "om_rel h F" "p \<in> dom h" "can_hang F p c" "kids F p = xs @ ys" "linked_in h p xs c ys h'"
  shows "om_rel h' (f_place p (length xs) c F)"
proof -
  note ok = om_relD(1) [OF assms(1)] and rep = om_relD(2) [OF assms(1)]
  have c: "c \<in> dom (f_kids F)" "f_par F c = None" "p \<notin> below F c" using assms(3) by (auto simp: can_hang_def)
  have "p \<in> dom (f_kids F)" using assms(2) om_rel_dom [OF assms(1)] by simp
  note forest_ok_place [OF ok this c] and place_rep [OF ok rep assms(4,2) c(2) assms(5)]
  moreover have "fld n_builder h' a = None" for a using assms(5) om_relD(3) [OF assms(1)] by (simp add: linked_in_def)
  ultimately show ?thesis by (simp add: om_rel_def)
qed

lemma can_hang_ne: "can_hang F p c \<Longrightarrow> p \<noteq> c"
  by (auto simp: can_hang_def)

lemma append_sim:
  assumes "om_rel h F" "legal_om_call F (Append p c)"
  shows "\<exists>h'. append_child h (Some p) (Some c) = Inr h' \<and> om_rel h' (f_place p (length (kids F p)) c F)"
proof -
  have p: "p \<in> dom h" "can_hang F p c" "c \<in> dom h" "f_par F c = None"
    using assms om_rel_dom by (auto simp: can_hang_def)
  obtain h' where "append_child h (Some p) (Some c) = Inr h'" "linked_in h p (kids F p) c [] h'"
    using append_run [OF om_relD(1) [OF assms(1)] om_relD(2) [OF assms(1)] p(1,3,4) can_hang_ne [OF p(2)]] by blast
  with hang_sim [OF assms(1) p(1,2), of "kids F p" "[]" h'] show ?thesis by simp
qed

lemma before_sim:
  assumes "om_rel h F" "legal_om_call F (Before x c)" "f_par F x = Some p"
  shows "\<exists>h'. axiom_node_insert_sibling_before h (Some x) (Some c) = Inr h' \<and>
    om_rel h' (f_place p (length (elders F x)) c F)"
proof -
  note ok = om_relD(1) [OF assms(1)] and rep = om_relD(2) [OF assms(1)] and k = kid_parts [OF assms(1,3)]
  have c: "can_hang F p c" "c \<in> dom h" "f_par F c = None"
    using assms om_rel_dom by (auto simp: can_hang_def)
  have "p \<in> dom h" using kid_links(4) [OF ok rep k] .
  moreover obtain h' where "axiom_node_insert_sibling_before h (Some x) (Some c) = Inr h'"
      "linked_in h p (elders F x) c (x # youngers F x) h'"
    using before_run [OF ok rep k c(2,3) can_hang_ne [OF c(1)]] by blast
  ultimately show ?thesis using hang_sim [OF assms(1) _ c(1) k] by blast
qed

lemma after_sim:
  assumes "om_rel h F" "legal_om_call F (After x c)" "f_par F x = Some p"
  shows "\<exists>h'. axiom_node_insert_sibling_after h (Some x) (Some c) = Inr h' \<and>
    om_rel h' (f_place p (Suc (length (elders F x))) c F)"
proof -
  note ok = om_relD(1) [OF assms(1)] and rep = om_relD(2) [OF assms(1)] and k = kid_parts [OF assms(1,3)]
  have c: "can_hang F p c" "c \<in> dom h" "f_par F c = None" "youngers F x \<noteq> []"
    using assms om_rel_dom by (auto simp: can_hang_def)
  have "p \<in> dom h" using kid_links(4) [OF ok rep k] .
  moreover obtain h' where "axiom_node_insert_sibling_after h (Some x) (Some c) = Inr h'"
      "linked_in h p (elders F x @ [x]) c (youngers F x) h'"
    using after_run [OF ok rep k c(4,2,3) can_hang_ne [OF c(1)]] by blast
  moreover have "kids F p = (elders F x @ [x]) @ youngers F x" using k by simp
  ultimately show ?thesis using hang_sim [OF assms(1) _ c(1), of "elders F x @ [x]"] by fastforce
qed

lemma beside_root:
  assumes "om_rel h F" "x \<in> dom h" "f_par F x = None"
  shows "axiom_node_insert_sibling_before h (Some x) (Some c) = Inl FAILURE_STATUS"
    "axiom_node_insert_sibling_after h (Some x) (Some c) = Inl FAILURE_STATUS"
proof -
  have "fld n_parent h x = None" using assms(3) repD(2) [OF om_relD(2) [OF assms(1)]] by simp
  with assms(2) show "axiom_node_insert_sibling_before h (Some x) (Some c) = Inl FAILURE_STATUS"
    "axiom_node_insert_sibling_after h (Some x) (Some c) = Inl FAILURE_STATUS"
    by (simp_all add: axiom_node_insert_sibling_before_def axiom_node_insert_sibling_after_def run_links)
qed

lemma unlink_sim:
  assumes "om_rel h F" "c \<in> dom h"
  shows "\<exists>h'. axiom_node_detach_without_namespaces h (Some c) = Inr h' \<and> om_rel h' (f_detach c F)"
  using detach_rep [OF om_relD(1) [OF assms(1)] om_relD(2) [OF assms(1)] assms(2)]
    forest_ok_detach [OF om_relD(1) [OF assms(1)]] om_relD(3) [OF assms(1)]
  by (auto simp: om_rel_def)

lemma free_sim:
  assumes "om_rel h F" "c \<in> dom h"
  shows "\<exists>h'. axiom_node_free_tree h (Some c) = Some (Inr h') \<and> om_rel h' (f_free c F)"
proof -
  obtain h1 where h1: "fld n_builder h1 = (fld n_builder h)(c := None)"
    "axiom_node_free_tree h (Some c) = Some (Inr (without (below F c) h1))"
    "rep (without (below F c) h1) (f_free c F)" "forest_ok (f_free c F)"
    using free_rep [OF om_relD(1) [OF assms(1)] om_relD(2) [OF assms(1)] assms(2)] by blast
  have "fld n_builder (without (below F c) h1) a = None" for a
    using fun_cong [OF h1(1), of a] om_relD(3) [OF assms(1), of a]
    by (auto simp: fld_def without_def split: if_splits)
  with h1 show ?thesis by (simp add: om_rel_def)
qed

lemma links_sim:
  assumes rel: "om_rel h F" and c: "c \<in> dom h"
  shows "axiom_node_get_first_child h (Some c) = Inr (first_of (kids F c) None)"
    "axiom_node_get_last_child h (Some c) = Inr (last_of (kids F c) None)"
    "axiom_node_get_parent h (Some c) = Inr (f_par F c)"
    "axiom_node_get_next_sibling h (Some c) = Inr (first_of (youngers F c) None)"
    "axiom_node_get_previous_sibling h (Some c) = Inr (last_of (elders F c) None)"
proof -
  note rep = om_relD(2) [OF rel]
  have b: "n_builder (the (h a)) = None" if "a \<in> dom h" for a using om_relD(3) [OF rel, of a] that by (simp add: the_fld)
  show "axiom_node_get_first_child h (Some c) = Inr (first_of (kids F c) None)"
    "axiom_node_get_last_child h (Some c) = Inr (last_of (kids F c) None)"
    "axiom_node_get_parent h (Some c) = Inr (f_par F c)"
    using c b [OF c] repD(2-4) [OF rep]
    by (simp_all add: axiom_node_get_first_child_def axiom_node_get_last_child_def axiom_node_get_parent_def run_links)
  have "fld n_next_sibling h c = first_of (youngers F c) None \<and> fld n_prev_sibling h c = last_of (elders F c) None"
  proof (cases "f_par F c")
    case None
    then show ?thesis using repD(6,7) [OF rep None] by (simp add: elders_def youngers_def)
  next
    case (Some p)
    then show ?thesis using kid_links(1,2) [OF om_relD(1) [OF rel] rep kid_parts [OF rel Some]] by simp
  qed
  then show "axiom_node_get_next_sibling h (Some c) = Inr (first_of (youngers F c) None)"
    "axiom_node_get_previous_sibling h (Some c) = Inr (last_of (elders F c) None)"
    using c b [OF c]
    by (simp_all add: axiom_node_get_next_sibling_def axiom_node_get_previous_sibling_def run_links)
qed

text \<open>What a node holds may change: the forest stays.\<close>

lemma data_sim:
  assumes "om_rel h F" "c \<in> dom h"
  shows "\<exists>h'. axiom_node_set_node_type h (Some c) t = Inr h' \<and> om_rel h' F"
    "\<exists>h'. axiom_node_set_data_element h (Some c) (Some d) = Inr h' \<and> om_rel h' F"
    "\<exists>h'. axiom_node_set_complete h (Some c) b = Inr h' \<and> om_rel h' F"
  using assms om_rel_dom [OF assms(1)]
  by (simp_all add: axiom_node_set_node_type_def axiom_node_set_data_element_def axiom_node_set_complete_def
      set_field_def run_links om_rel_def rep_def)

section \<open>Histories\<close>

lemma om_call_simulates:
  assumes "om_rel h F" "legal_om_call F c" "forest_call malloc F c = (r, F')"
  shows "\<exists>h'. do_om_call malloc h c = Some (r, h') \<and> om_rel h' F'"
proof -
  note rel = assms(1) and d = om_rel_dom [OF assms(1)]
  show ?thesis
  proof (cases c)
    case (Create a)
    show ?thesis
    proof (cases "malloc sizeof_node")
      case True
      then show ?thesis
        using create_sim [OF rel, of a malloc] assms Create by (cases "axiom_node_create malloc a h") (auto simp: axiom_node_create_def)
    qed (use assms Create in \<open>auto simp: axiom_node_create_def\<close>)
  next
    case (Before x y)
    then show ?thesis
      using assms before_sim [OF rel, of x y] beside_root(1) [OF rel, of x y] d
      by (cases "f_par F x") (auto simp: f_beside_def no_value_def)
  next
    case (After x y)
    then show ?thesis
      using assms after_sim [OF rel, of x y] beside_root(2) [OF rel, of x y] d
      by (cases "f_par F x") (auto simp: f_beside_def no_value_def)
  next
    case (Append p y)
    then show ?thesis using assms append_sim [OF rel, of p y] by (auto simp: no_value_def)
  next
    case (Unlink y)
    then show ?thesis using assms unlink_sim [OF rel, of y] d by (auto simp: no_value_def)
  next
    case (Free y)
    then show ?thesis using assms free_sim [OF rel, of y] d by (auto simp: no_value_def)
  next
    case (Set_type y t)
    then show ?thesis using assms data_sim(1) [OF rel, of y t] d by (auto simp: no_value_def)
  next
    case (Set_data y t)
    then show ?thesis using assms data_sim(2) [OF rel, of y t] d by (auto simp: no_value_def)
  next
    case (Set_complete y b)
    then show ?thesis using assms data_sim(3) [OF rel, of y b] d by (auto simp: no_value_def)
  qed (use assms d links_sim [OF rel] in auto)
qed

interpretation om: simulation om_rel legal_om_call "do_om_call malloc" "forest_call malloc" for malloc
  by unfold_locales (rule om_call_simulates)

text \<open>
  C21: any history of legal calls on linked nodes (creating, linking, detaching, inserting beside,
  freeing, setting what a node holds, reading links) returns, with the results the same calls have on an ordered forest, and leaves
  a heap that stands for the forest they leave.
\<close>

theorem om_nodes_refine_forest:
  assumes "om_rel h F" "permitted legal_om_call (forest_call malloc) F cs" "calls (forest_call malloc) F cs = (rs, F')"
  shows "\<exists>h'. runs (do_om_call malloc) h cs = Some (rs, h') \<and> om_rel h' F'"
  by (rule om.history [OF assms])

lemma below_leaf: "\<forall>x. f_par F x \<noteq> Some c \<Longrightarrow> below F c = {c}"
  by (auto simp: below_def par_rel_def elim: rtranclE)

theorem om_nodes_refine_forest_witness:
  "\<exists>h'. runs (do_om_call (\<lambda>_. True)) Map.empty
       [Create 0, Create 1, Create 2, Append 0 1, Before 1 2, First_child 0, Next_sibling 2, Free 2, First_child 0] =
     Some ([Inr (Some 0), Inr (Some 1), Inr (Some 2), Inr None, Inr None, Inr (Some 2), Inr (Some 1), Inr None,
       Inr (Some 1)], h') \<and>
     dom h' = {0, 1}"
proof -
  let ?cs = "[Create 0, Create 1, Create 2, Append 0 1, Before 1 2, First_child 0, Next_sibling 2, Free 2, First_child 0]"
  let ?F' = "snd (calls (forest_call (\<lambda>_. True)) no_nodes ?cs)"
  note defs = no_nodes_def f_create_def f_place_def set_kids_def kids_def f_beside_def elders_def youngers_def
    can_hang_def below_leaf f_free_def f_cut_def f_detach_def
  have 1: "permitted legal_om_call (forest_call (\<lambda>_. True)) no_nodes ?cs" by (simp add: defs domIff)
  have 2: "calls (forest_call (\<lambda>_. True)) no_nodes ?cs =
      ([Inr (Some 0), Inr (Some 1), Inr (Some 2), Inr None, Inr None, Inr (Some 2), Inr (Some 1), Inr None,
       Inr (Some 1)], ?F')" by (simp add: defs)
  have "dom (f_kids ?F') = {0, 1}" by (auto simp: defs dom_def cong: if_cong)
  then show ?thesis using om_nodes_refine_forest [OF om_rel_empty 1 2] om_rel_dom by auto
qed

section \<open>Inserting after the last child\<close>

lemma getter_fld:
  "axiom_node_get_next_sibling h (Some a) = Inr (Some c) \<Longrightarrow> fld n_next_sibling h a = Some c"
  "axiom_node_get_first_child h (Some a) = Inr (Some c) \<Longrightarrow> fld n_first_child h a = Some c"
  by (auto simp: axiom_node_get_next_sibling_def axiom_node_get_first_child_def axiom_node_is_complete_def
      node_at_def fld_def res_bind_def split: option.splits sum.splits if_splits)

text \<open>No link leads to a node without parent.\<close>

lemma unlinked:
  assumes "om_rel h F" "f_par F c = None"
  shows "fld n_next_sibling h a \<noteq> Some c" "fld n_first_child h a \<noteq> Some c"
proof -
  note ok = om_relD(1) [OF assms(1)] and rep = om_relD(2) [OF assms(1)]
  have no: "c \<notin> set (kids F q)" for q using forest_okD(4) [OF ok, of c q] assms(2) by simp
  show "fld n_first_child h a \<noteq> Some c" using repD(3) [OF rep, of a] no [of a] by (cases "kids F a") auto
  show "fld n_next_sibling h a \<noteq> Some c"
  proof (cases "f_par F a")
    case None
    then show ?thesis using repD(7) [OF rep] by simp
  next
    case (Some q)
    then show ?thesis
      using kid_links(2) [OF ok rep kid_parts [OF assms(1) Some]] kid_parts [OF assms(1) Some] no [of q]
      by (cases "youngers F a") auto
  qed
qed

text \<open>
  \<^verbatim>\<open>axiom_node_insert_sibling_after\<close> does not make the inserted node the last child. When it is
  inserted after the last child and another child is added, no link leads to it any more: it is in no
  list of children, though it names its parent.
\<close>

theorem insert_after_last_child_lost:
  assumes "om_rel h F" "kids F p = xs @ [x]" "can_hang F p c" "can_hang F p d" "c \<noteq> d"
  shows "\<exists>h1 h2. axiom_node_insert_sibling_after h (Some x) (Some c) = Inr h1 \<and>
    append_child h1 (Some p) (Some d) = Inr h2 \<and> axiom_node_get_parent h2 (Some c) = Inr (Some p) \<and>
    (\<forall>a. axiom_node_get_next_sibling h2 (Some a) \<noteq> Inr (Some c) \<and>
      axiom_node_get_first_child h2 (Some a) \<noteq> Inr (Some c))"
proof -
  note ok = om_relD(1) [OF assms(1)] and rep = om_relD(2) [OF assms(1)]
  note l = kid_links [OF ok rep assms(2)]
  have f: "fld n_first_child h p = first_of (xs @ [x]) None" "fld n_last_child h p = Some x"
    using repD(3,4) [OF rep, of p] assms(2) by simp_all
  have c: "c \<in> dom h" "d \<in> dom h" "f_par F c = None" "f_par F d = None"
    using assms(3,4) om_rel_dom [OF assms(1)] by (auto simp: can_hang_def)
  have n: "x \<noteq> c" "x \<noteq> d" using forest_okD(4) [OF ok, of _ p] c(3,4) assms(2) by force+
  note p = can_hang_ne [OF assms(3)] can_hang_ne [OF assms(4)]
  have first: "fld n_first_child h p \<noteq> None" using f(1) by (cases xs) auto
  obtain h1 where h1: "axiom_node_insert_sibling_after h (Some x) (Some c) = Inr h1" "dom h1 = dom h"
    "fld n_first_child h1 = fld n_first_child h" "fld n_last_child h1 = fld n_last_child h"
    "fld n_parent h1 = (fld n_parent h)(c := Some p)" "fld n_next_sibling h1 = (fld n_next_sibling h)(c := None, x := Some c)"
    using l c n by (simp add: axiom_node_insert_sibling_after_def run_links)
  obtain h2 where h2: "append_child h1 (Some p) (Some d) = Inr h2" "dom h2 = dom h"
    "fld n_first_child h2 = fld n_first_child h" "fld n_parent h2 = (fld n_parent h)(c := Some p, d := Some p)"
    "fld n_next_sibling h2 = (fld n_next_sibling h)(c := None, x := Some d)"
    using l c n p f(2) first h1 assms(5) by (simp add: append_child_def run_links)
  have "fld n_next_sibling h2 a \<noteq> Some c \<and> fld n_first_child h2 a \<noteq> Some c" for a
    using unlinked [OF assms(1) c(3), of a] h2(3,5) assms(5) by simp
  then have "axiom_node_get_next_sibling h2 (Some a) \<noteq> Inr (Some c) \<and>
      axiom_node_get_first_child h2 (Some a) \<noteq> Inr (Some c)" for a
    using getter_fld by blast
  moreover have "axiom_node_get_parent h2 (Some c) = Inr (Some p)"
    using h2(2,4) c(1) assms(5) by (simp add: axiom_node_get_parent_def run_links)
  ultimately show ?thesis using h1(1) h2(1) by blast
qed

theorem insert_after_last_child_lost_witness:
  "\<exists>h h1 h2. map_option snd (runs (do_om_call (\<lambda>_. True)) Map.empty
      [Create 0, Create 1, Create 2, Create 3, Append 0 1]) = Some h \<and>
    axiom_node_insert_sibling_after h (Some 1) (Some 2) = Inr h1 \<and> append_child h1 (Some 0) (Some 3) = Inr h2 \<and>
    axiom_node_get_parent h2 (Some 2) = Inr (Some 0) \<and>
    (\<forall>a. axiom_node_get_next_sibling h2 (Some a) \<noteq> Inr (Some 2) \<and> axiom_node_get_first_child h2 (Some a) \<noteq> Inr (Some 2))"
proof -
  let ?cs = "[Create 0, Create 1, Create 2, Create 3, Append 0 1]"
  let ?F = "snd (calls (forest_call (\<lambda>_. True)) no_nodes ?cs)"
  note defs = no_nodes_def f_create_def f_place_def set_kids_def kids_def can_hang_def below_leaf
  have "permitted legal_om_call (forest_call (\<lambda>_. True)) no_nodes ?cs" by (simp add: defs)
  from om.history [OF om_rel_empty this prod.collapse [symmetric]] obtain h where
    h: "runs (do_om_call (\<lambda>_. True)) Map.empty ?cs = Some (fst (calls (forest_call (\<lambda>_. True)) no_nodes ?cs), h)"
      "om_rel h ?F" by blast
  have "kids ?F 0 = [] @ [1]" "can_hang ?F 0 2" "can_hang ?F 0 3" by (simp_all add: defs)
  from insert_after_last_child_lost [OF h(2) this] h(1) show ?thesis by fastforce
qed

end
