(* ===== verification/Om_Serialize.thy ===== *)
theory Om_Serialize
  imports Om_Tree
begin

text \<open>
  \<^verbatim>\<open>axiom_node_serialize\<close>: the loop with its explicit stack against the recursive traversal of a tree. A
  tree of at most 256 levels is written in document order, every element closed after its children.
\<close>

section \<open>Trees and their document order\<close>

datatype om_tree = Tree (root: nat) (branches: "om_tree list")

fun tree_at :: "om_forest \<Rightarrow> om_tree \<Rightarrow> bool" where
  "tree_at F (Tree a ts) = (a \<in> dom (f_kids F) \<and> kids F a = map root ts \<and> (\<forall>t \<in> set ts. tree_at F t))"

fun levels :: "om_tree \<Rightarrow> nat" where
  "levels (Tree a ts) = Suc (foldr (\<lambda>t m. max (levels t) m) ts 0)"

datatype om_part = Own nat | End nat

fun parts :: "om_tree \<Rightarrow> om_part list" where
  "parts (Tree a ts) = Own a # concat (map parts ts) @ [End a]"

fun run_part :: "'o serializer \<Rightarrow> om_heap \<Rightarrow> om_part \<Rightarrow> 'o \<Rightarrow> axis2_status \<times> 'o" where
  "run_part E h (Own a) out = own_part E (the (h a)) a out"
| "run_part E h (End a) out = end_part E (the (h a)) out"

text \<open>Writing stops at the first part that fails.\<close>

fun run_parts :: "'o serializer \<Rightarrow> om_heap \<Rightarrow> om_part list \<Rightarrow> 'o \<Rightarrow> axis2_status \<times> 'o" where
  "run_parts E h [] out = (AXIS2_SUCCESS, out)"
| "run_parts E h (p # ps) out =
     (case run_part E h p out of
        (AXIS2_FAILURE, out1) \<Rightarrow> (AXIS2_FAILURE, out1)
      | (AXIS2_SUCCESS, out1) \<Rightarrow> run_parts E h ps out1)"

lemma levels_branch: "t \<in> set ts \<Longrightarrow> Suc (levels t) \<le> levels (Tree a ts)"
  by (induction ts) (auto simp: max_def)

lemma tree_exists:
  assumes ok: "forest_ok F"
  shows "a \<in> dom (f_kids F) \<Longrightarrow> \<exists>t. tree_at F t \<and> root t = a"
proof (induction a rule: wf_induct_rule [OF forest_wf [OF ok]])
  case (1 a)
  have "\<exists>t. tree_at F t \<and> root t = c" if "c \<in> set (kids F a)" for c
    using that kid_dom [OF ok that] forest_okD(4) [OF ok, of c a] 1 by (auto simp: par_rel_def)
  then obtain f where f: "\<forall>c \<in> set (kids F a). tree_at F (f c) \<and> root (f c) = c" by metis
  then have "map root (map f (kids F a)) = kids F a" by (simp add: map_idI)
  with f 1(2) show ?case by (intro exI [of _ "Tree a (map f (kids F a))"]) simp
qed

lemma run_parts_append:
  "run_parts E h (ps @ qs) out =
     (case run_parts E h ps out of
        (AXIS2_FAILURE, out1) \<Rightarrow> (AXIS2_FAILURE, out1)
      | (AXIS2_SUCCESS, out1) \<Rightarrow> run_parts E h qs out1)"
  by (induction ps arbitrary: out) (auto split: prod.splits axis2_status.splits)

section \<open>The loop\<close>

text \<open>How the loop goes on after a node is written, and how a written list of parts ends it.\<close>

definition serialize_rest ::
    "'o serializer \<Rightarrow> om_heap \<Rightarrow> nat \<Rightarrow> nat list \<Rightarrow> 'o \<Rightarrow> (axis2_status \<times> 'o) result option" where
  "serialize_rest E h c rest out =
     (case axiom_node_get_next_sibling h (Some c) of
        Inl e \<Rightarrow> Some (Inl e)
      | Inr (Some s) \<Rightarrow> serialize_loop E h s (s # rest) out
      | Inr None \<Rightarrow>
          (case climb E h c (c # rest) out of
             Inl e \<Rightarrow> Some (Inl e)
           | Inr (AXIS2_FAILURE, out3, _) \<Rightarrow> Some (Inr (AXIS2_FAILURE, out3))
           | Inr (AXIS2_SUCCESS, out3, om_node', nodes', temp_node) \<Rightarrow>
               (case (temp_node, tl nodes') of
                  (Some t, x # xs) \<Rightarrow> serialize_loop E h t (t # x # xs) out3
                | (_, []) \<Rightarrow> Some (Inr (AXIS2_SUCCESS, out3))
                | (None, x # xs) \<Rightarrow> serialize_loop E h om_node' (x # xs) out3)))"

definition on_success ::
    "axis2_status \<times> 'o \<Rightarrow> ('o \<Rightarrow> (axis2_status \<times> 'o) result option) \<Rightarrow> (axis2_status \<times> 'o) result option" where
  "on_success r k = (case r of (AXIS2_FAILURE, out) \<Rightarrow> Some (Inr (AXIS2_FAILURE, out)) | (AXIS2_SUCCESS, out) \<Rightarrow> k out)"

lemma on_success_parts:
  "on_success (run_parts E h (p # ps) out) k = on_success (run_part E h p out) (\<lambda>out1. on_success (run_parts E h ps out1) k)"
  "on_success (run_parts E h (ps @ qs) out) k = on_success (run_parts E h ps out) (\<lambda>out1. on_success (run_parts E h qs out1) k)"
  "on_success (run_parts E h [] out) k = k out"
  by (auto simp: on_success_def run_parts_append split: prod.splits axis2_status.splits)

lemma on_success_end [simp]: "on_success r (\<lambda>out. Some (Inr (AXIS2_SUCCESS, out))) = Some (Inr r)"
  by (auto simp: on_success_def split: prod.splits axis2_status.splits)

lemma on_success_part:
  "on_success (run_part E h p out) (\<lambda>out. Some (Inr (run_parts E h ps out))) = Some (Inr (run_parts E h (p # ps) out))"
  using on_success_parts(1) [of E h p ps out "\<lambda>out. Some (Inr (AXIS2_SUCCESS, out))"] by (simp del: run_parts.simps)

lemma loop_leaf:
  assumes "om_rel h F" "c \<in> dom h" "kids F c = []"
  shows "serialize_loop E h c (c # rest) out = on_success (run_parts E h [Own c, End c] out) (serialize_rest E h c rest)"
proof -
  obtain n where n: "h c = Some n" using assms(2) by blast
  show ?thesis
    by (subst serialize_loop.simps)
       (simp add: n on_success_parts links_sim(1) [OF assms(1,2)] assms(3) serialize_rest_def on_success_def
         split: prod.splits axis2_status.splits sum.split option.split)
qed

lemma loop_inner:
  assumes "om_rel h F" "c \<in> dom h" "kids F c = k # ks" "Suc (length rest) < NODES_MAX"
  shows "serialize_loop E h c (c # rest) out =
    on_success (run_part E h (Own c) out) (serialize_loop E h k (k # c # rest))"
proof -
  obtain n where n: "h c = Some n" using assms(2) by blast
  show ?thesis
    by (subst serialize_loop.simps)
       (use assms(4) in \<open>simp add: n links_sim(1) [OF assms(1,2)] assms(3) on_success_def
         split: prod.splits axis2_status.splits\<close>)
qed

lemma rest_next:
  assumes "om_rel h F" "c \<in> dom h" "youngers F c = s # ss"
  shows "serialize_rest E h c rest out = serialize_loop E h s (s # rest) out"
  by (simp add: serialize_rest_def links_sim(4) [OF assms(1,2)] assms(3))

text \<open>The stack is popped to the parent; at the bottom the loop ends whatever sibling there is.\<close>

lemma rest_up:
  assumes "om_rel h F" "c \<in> dom h" "youngers F c = []" "p \<in> dom h"
  shows "serialize_rest E h c (p # rest) out = on_success (run_part E h (End p) out)
    (\<lambda>out1. if rest = [] then Some (Inr (AXIS2_SUCCESS, out1)) else serialize_rest E h p rest out1)"
proof -
  obtain n where n: "h p = Some n" using assms(4) by blast
  show ?thesis
    using links_sim(4) [OF assms(1,2)] links_sim(4) [OF assms(1,4)] assms(3)
    by (cases "youngers F p"; cases rest)
       (auto simp: serialize_rest_def n node_at_def on_success_def split: prod.splits axis2_status.splits)
qed

lemma rest_root:
  assumes "om_rel h F" "c \<in> dom h" "youngers F c = []"
  shows "serialize_rest E h c [] out = Some (Inr (AXIS2_SUCCESS, out))"
  using links_sim(4) [OF assms(1,2)] assms(3) by (simp add: serialize_rest_def)

lemma youngers_split:
  assumes "forest_ok F" "kids F p = xs @ c # ys"
  shows "youngers F c = ys" "f_par F c = Some p"
proof -
  show "f_par F c = Some p" using forest_okD(4) [OF assms(1), of c p] assms(2) by simp
  moreover have "c \<notin> set xs" using forest_okD(3) [OF assms(1), of p] assms(2) by simp
  then have "dropWhile (\<lambda>x. x \<noteq> c) (xs @ c # ys) = c # ys" by (induction xs) auto
  ultimately show "youngers F c = ys" using assms(2) by (simp add: youngers_def)
qed

section \<open>Subtrees\<close>

text \<open>What the loop does with a subtree on top of a stack.\<close>

definition writes_tree :: "'o serializer \<Rightarrow> om_heap \<Rightarrow> om_tree \<Rightarrow> nat list \<Rightarrow> bool" where
  "writes_tree E h t rest \<longleftrightarrow> (\<forall>out. serialize_loop E h (root t) (root t # rest) out =
     on_success (run_parts E h (parts t) out) (serialize_rest E h (root t) rest))"

lemma writes_branches:
  assumes rel: "om_rel h F" and p: "p \<in> dom h"
  shows "kids F p = xs @ map root ts \<Longrightarrow> ts \<noteq> [] \<Longrightarrow> (\<And>t. t \<in> set ts \<Longrightarrow> writes_tree E h t (p # rest)) \<Longrightarrow>
    serialize_loop E h (root (hd ts)) (root (hd ts) # p # rest) =
    (\<lambda>out. on_success (run_parts E h (concat (map parts ts) @ [End p]) out)
      (\<lambda>out1. if rest = [] then Some (Inr (AXIS2_SUCCESS, out1)) else serialize_rest E h p rest out1))"
proof (induction ts arbitrary: xs)
  case (Cons t ts)
  have k: "kids F p = xs @ root t # map root ts" using Cons.prems(1) by simp
  note y = youngers_split(1) [OF om_relD(1) [OF rel] k] and c = kid_links(5) [OF om_relD(1) [OF rel] om_relD(2) [OF rel] k]
  have t: "serialize_loop E h (root t) (root t # p # rest) =
      (\<lambda>out. on_success (run_parts E h (parts t) out) (serialize_rest E h (root t) (p # rest)))"
    by (rule ext) (use Cons.prems(3) [of t] in \<open>simp add: writes_tree_def\<close>)
  show ?case
  proof (cases ts)
    case Nil
    have "serialize_rest E h (root t) (p # rest) = (\<lambda>out. on_success (run_part E h (End p) out)
        (\<lambda>out1. if rest = [] then Some (Inr (AXIS2_SUCCESS, out1)) else serialize_rest E h p rest out1))"
      by (rule ext) (use Nil y in \<open>simp add: rest_up [OF rel c _ p]\<close>)
    then show ?thesis using t Nil by (simp add: on_success_parts del: run_parts.simps run_part.simps)
  next
    case (Cons u us)
    then have "serialize_rest E h (root t) (p # rest) = serialize_loop E h (root u) (root u # p # rest)"
      by (intro ext) (use y in \<open>simp add: rest_next [OF rel c]\<close>)
    moreover have "serialize_loop E h (root (hd ts)) (root (hd ts) # p # rest) =
        (\<lambda>out1. on_success (run_parts E h (concat (map parts ts) @ [End p]) out1)
          (\<lambda>out1. if rest = [] then Some (Inr (AXIS2_SUCCESS, out1)) else serialize_rest E h p rest out1))"
      by (rule Cons.IH [of "xs @ [root t]"]) (use Cons Cons.prems k in auto)
    ultimately show ?thesis using t Cons by (simp add: on_success_parts del: run_parts.simps)
  qed
qed simp

lemma writes_subtree:
  assumes rel: "om_rel h F"
  shows "tree_at F t \<Longrightarrow> rest \<noteq> [] \<Longrightarrow> levels t + length rest \<le> NODES_MAX \<Longrightarrow> writes_tree E h t rest"
proof (induction t arbitrary: rest)
  case (Tree a ts)
  have a: "a \<in> dom h" "kids F a = map root ts" using Tree.prems(1) om_rel_dom [OF rel] by auto
  show ?case
  proof (cases "ts = []")
    case True
    then show ?thesis using a(2) by (simp add: writes_tree_def loop_leaf [OF rel a(1)])
  next
    case False
    have sub: "writes_tree E h t (a # rest)" if "t \<in> set ts" for t
      using Tree.prems levels_branch [OF that, of a] that by (intro Tree.IH) auto
    have "kids F a = root (hd ts) # map root (tl ts)" using a(2) False by (cases ts) auto
    moreover have "Suc (length rest) < NODES_MAX"
      using Tree.prems(3) levels_branch [OF hd_in_set [OF False], of a] by (cases "hd ts") auto
    ultimately show ?thesis
      using writes_branches [OF rel a(1), of "[]" ts, OF _ False sub] Tree.prems(2) a(2)
      by (simp add: writes_tree_def on_success_parts loop_inner [OF rel a(1)] del: run_parts.simps run_part.simps)
  qed
qed

section \<open>The whole tree\<close>

text \<open>
  C22: \<^verbatim>\<open>axiom_node_serialize\<close> on a node that has children or no next sibling, with a tree of at most 256 levels, returns;
  it writes the nodes of the tree in document order, each element closed after its children, and stops
  at the first part that cannot be written. A childless node with a next sibling is left out: there the code goes
  on to the sibling (\<open>serialize_leaf_goes_on\<close>).
\<close>

theorem serialize_document_order:
  assumes rel: "om_rel h F" and t: "tree_at F t" "levels t \<le> NODES_MAX"
    and last: "branches t \<noteq> [] \<or> youngers F (root t) = []"
  shows "axiom_node_serialize E h (Some (root t)) out = Some (Inr (run_parts E h (parts t) out))"
proof -
  obtain a ts where ts: "t = Tree a ts" by (cases t)
  then have a: "a \<in> dom h" "kids F a = map root ts" using t(1) om_rel_dom [OF rel] by auto
  show ?thesis
  proof (cases "ts = []")
    case True
    then have "serialize_rest E h a [] = (\<lambda>out1. Some (Inr (AXIS2_SUCCESS, out1)))"
      by (intro ext) (use last ts in \<open>simp add: rest_root [OF rel a(1)]\<close>)
    then show ?thesis
      using True a(2) loop_leaf [OF rel a(1), of E "[]"]
      by (simp add: axiom_node_serialize_def ts del: run_parts.simps)
  next
    case False
    have sub: "writes_tree E h u [a]" if "u \<in> set ts" for u
      using t levels_branch [OF that, of a] that by (intro writes_subtree [OF rel]) (auto simp: ts)
    have "kids F a = root (hd ts) # map root (tl ts)" using a(2) False by (cases ts) auto
    then have "serialize_loop E h a [a] out =
        on_success (run_part E h (Own a) out) (serialize_loop E h (root (hd ts)) [root (hd ts), a])"
      by (rule loop_inner [OF rel a(1)]) (simp add: NODES_MAX_def)
    moreover have "serialize_loop E h (root (hd ts)) [root (hd ts), a] = (\<lambda>out1.
        on_success (run_parts E h (concat (map parts ts) @ [End a]) out1) (\<lambda>out2. Some (Inr (AXIS2_SUCCESS, out2))))"
      using writes_branches [OF rel a(1), of "[]" ts, OF _ False sub] a(2) by simp
    ultimately show ?thesis
      by (simp add: axiom_node_serialize_def ts on_success_part del: run_parts.simps run_part.simps)
  qed
qed

text \<open>
  A childless node that has a next sibling is not written alone: \<^verbatim>\<open>axiom_node_serialize\<close> goes on
  with the sibling as if it were called on it.
\<close>

theorem serialize_leaf_goes_on:
  assumes "om_rel h F" "c \<in> dom h" "kids F c = []" "youngers F c = s # ss"
    and "run_parts E h [Own c, End c] out = (AXIS2_SUCCESS, out1)"
  shows "axiom_node_serialize E h (Some c) out = axiom_node_serialize E h (Some s) out1"
  using loop_leaf [OF assms(1-3), of E "[]" out] rest_next [OF assms(1,2,4), of E "[]"] assms(5)
  by (simp add: axiom_node_serialize_def on_success_def)

text \<open>A document to try: an element with a text and an empty element, written as a list of marks.\<close>

definition sample_calls :: "om_call list" where
  "sample_calls = [Create 0, Create 1, Create 2, Set_type 0 AXIOM_ELEMENT, Set_data 0 10, Set_type 1 AXIOM_TEXT,
     Set_data 1 11, Set_type 2 AXIOM_ELEMENT, Set_data 2 12, Append 0 1, Append 0 2, Set_complete 0 True, Set_complete 1 True,
     Set_complete 2 True]"

definition sample_writer :: "(string \<times> nat) list serializer" where
  "sample_writer = \<lparr>ser_start = (\<lambda>d p out. (AXIS2_SUCCESS, out @ [(''start'', d)])),
     ser_end = (\<lambda>d out. (AXIS2_SUCCESS, out @ [(''end'', d)])),
     ser_leaf = (\<lambda>t d out. (AXIS2_SUCCESS, out @ [(''leaf'', d)]))\<rparr>"

definition sample_forest :: om_forest where
  "sample_forest = snd (calls (forest_call (\<lambda>_. True)) no_nodes sample_calls)"

definition sample_heap :: om_heap where
  "sample_heap = snd (the (runs (do_om_call (\<lambda>_. True)) Map.empty sample_calls))"

lemma sample_legal: "permitted legal_om_call (forest_call (\<lambda>_. True)) no_nodes sample_calls"
  by (simp add: sample_calls_def no_nodes_def f_create_def f_place_def set_kids_def kids_def can_hang_def below_leaf)

lemma sample_rel: "om_rel sample_heap sample_forest"
  using om.history [OF om_rel_empty sample_legal prod.collapse [symmetric]]
  by (auto simp: sample_heap_def sample_forest_def)

lemma sample_shape:
  "kids sample_forest 0 = [1, 2]" "kids sample_forest 1 = []" "kids sample_forest 2 = []"
  "dom (f_kids sample_forest) = {0, 1, 2}" "youngers sample_forest 0 = []" "youngers sample_forest 1 = [2]"
  by (auto simp: sample_forest_def sample_calls_def no_nodes_def f_create_def f_place_def set_kids_def kids_def
      youngers_def)

lemma sample_nodes:
  "n_type (the (sample_heap 0)) = AXIOM_ELEMENT" "n_data (the (sample_heap 0)) = Some 10"
  "n_type (the (sample_heap 1)) = AXIOM_TEXT" "n_data (the (sample_heap 1)) = Some 11"
  "n_type (the (sample_heap 2)) = AXIOM_ELEMENT" "n_data (the (sample_heap 2)) = Some 12"
  by (simp_all add: sample_heap_def sample_calls_def axiom_node_create_def no_value_def axiom_node_set_node_type_def
      axiom_node_set_data_element_def axiom_node_set_complete_def set_field_def set_node_def node_at_def append_child_def)

lemmas sample_write = own_part_def end_part_def sample_nodes [simplified] sample_writer_def

theorem serialize_document_order_witness:
  "axiom_node_serialize sample_writer sample_heap (Some 0) [] =
     Some (Inr (AXIS2_SUCCESS, [(''start'', 10), (''leaf'', 11), (''start'', 12), (''end'', 12), (''end'', 10)]))"
proof -
  have "tree_at sample_forest (Tree 0 [Tree 1 [], Tree 2 []])" using sample_shape by simp
  from serialize_document_order [OF sample_rel this, of sample_writer "[]"] show ?thesis
    by (simp add: NODES_MAX_def sample_write)
qed

theorem serialize_leaf_goes_on_witness:
  "axiom_node_serialize sample_writer sample_heap (Some 1) [] =
     axiom_node_serialize sample_writer sample_heap (Some 2) [(''leaf'', 11)]"
proof -
  have "1 \<in> dom sample_heap" using om_rel_dom [OF sample_rel] sample_shape(4) by blast
  from serialize_leaf_goes_on [OF sample_rel this, of 2 "[]" sample_writer "[]"] sample_shape show ?thesis
    by (simp add: sample_write)
qed

end
