(* ===== verification/Om_Iterator.thy ===== *)
theory Om_Iterator
  imports Om_Serialize
begin

text \<open>
  The iterators over the children of a node and over its child elements visit the children in order,
  and the first element among the children is the one the iterator over elements starts from.
\<close>

section \<open>Loops over an iterator\<close>

text \<open>The loop \<^verbatim>\<open>while (has_next) next\<close> of the clients, with the nodes it is given.\<close>

partial_function (option) drain ::
    "('i \<Rightarrow> bool) \<Rightarrow> ('i \<Rightarrow> ('x \<times> 'i) result option) \<Rightarrow> 'i \<Rightarrow> 'x list result option" where
  "drain has_next next it =
     (if \<not> has_next it then Some (Inr [])
      else do {
        r \<leftarrow> next it;
        (case r of
           Inl e \<Rightarrow> Some (Inl e)
         | Inr (p, it') \<Rightarrow> do {
             rs \<leftarrow> drain has_next next it';
             Some (res_bind rs (\<lambda>ps. Inr (p # ps))) }) })"

abbreviation drain_children :: "om_heap \<Rightarrow> axiom_children_iterator \<Rightarrow> ptr list result option" where
  "drain_children h \<equiv> drain axiom_children_iterator_has_next (\<lambda>it. Some (axiom_children_iterator_next h it))"

abbreviation drain_elements :: "om_heap \<Rightarrow> axiom_child_element_iterator \<Rightarrow> ptr list result option" where
  "drain_elements h \<equiv> drain axiom_child_element_iterator_has_next (axiom_child_element_iterator_next h)"

definition is_element :: "om_heap \<Rightarrow> nat \<Rightarrow> bool" where
  "is_element h a = (n_type (the (h a)) = AXIOM_ELEMENT)"

lemma node_type_run: "a \<in> dom h \<Longrightarrow> axiom_node_get_node_type h (Some a) = Inr (n_type (the (h a)))"
  by (simp add: axiom_node_get_node_type_def node_at_run)

text \<open>The siblings that follow, from any place.\<close>

lemma next_of_kid:
  assumes "om_rel h F" "kids F p = xs @ c # ys"
  shows "c \<in> dom h" "axiom_node_get_next_sibling h (Some c) = Inr (first_of ys None)"
proof -
  show "c \<in> dom h" by (rule kid_links(5) [OF om_relD(1) om_relD(2)]) (use assms in auto)
  then show "axiom_node_get_next_sibling h (Some c) = Inr (first_of ys None)"
    using links_sim(4) [OF assms(1)] youngers_split(1) [OF om_relD(1) assms(2)] assms(1) by simp
qed

lemma first_element_spec:
  assumes "om_rel h F"
  shows "kids F p = xs @ ys \<Longrightarrow> first_element_loop h (first_of ys None) = Some (Inr (first_of (filter (is_element h) ys) None))"
proof (induction ys arbitrary: xs)
  case Nil
  then show ?case by (simp add: first_element_loop.simps)
next
  case (Cons y ys)
  note n = next_of_kid [OF assms Cons.prems]
  have "first_element_loop h (first_of ys None) = Some (Inr (first_of (filter (is_element h) ys) None))"
    by (rule Cons.IH [of "xs @ [y]"]) (use Cons.prems in simp)
  then show ?case
    by (subst first_element_loop.simps) (simp add: node_type_run n is_element_def)
qed

lemma drain_children_spec:
  assumes "om_rel h F"
  shows "kids F p = xs @ ys \<Longrightarrow> it_current_child it = first_of ys None \<Longrightarrow>
    drain_children h it = Some (Inr (map Some ys))"
proof (induction ys arbitrary: xs it)
  case Nil
  then show ?case by (simp add: drain.simps axiom_children_iterator_has_next_def)
next
  case (Cons y ys)
  note n = next_of_kid(2) [OF assms Cons.prems(1)]
  let ?it = "it\<lparr>it_next_called := True, it_remove_called := False, it_last_child := Some y, it_current_child := first_of ys None\<rparr>"
  have "drain_children h ?it = Some (Inr (map Some ys))"
    by (rule Cons.IH [of "xs @ [y]"]) (use Cons.prems in simp_all)
  then show ?case using Cons.prems(2) n
    by (subst drain.simps) (simp add: axiom_children_iterator_has_next_def axiom_children_iterator_next_def Let_def)
qed

lemma drain_elements_spec:
  assumes "om_rel h F"
  shows "kids F p = xs @ ys \<Longrightarrow> filter (is_element h) ys = zs \<Longrightarrow> ce_current_child it = first_of zs None \<Longrightarrow>
    drain_elements h it = Some (Inr (map Some zs))"
proof (induction zs arbitrary: xs ys it)
  case Nil
  then show ?case by (simp add: drain.simps axiom_child_element_iterator_has_next_def)
next
  case (Cons z zs)
  obtain us vs where u: "ys = us @ z # vs" "filter (is_element h) vs = zs"
    using Cons.prems(2) by (auto simp: filter_eq_Cons_iff)
  then have k: "kids F p = (xs @ us) @ z # vs" "kids F p = (xs @ us @ [z]) @ vs" using Cons.prems(1) by simp_all
  let ?it = "it\<lparr>ce_next_called := True, ce_remove_called := False, ce_last_child := Some z, ce_current_child := first_of zs None\<rparr>"
  have "drain_elements h ?it = Some (Inr (map Some zs))"
    by (rule Cons.IH [OF k(2) u(2)]) simp
  then show ?case
    using Cons.prems(3) next_of_kid(2) [OF assms k(1)] first_element_spec [OF assms k(2)] u(2)
    by (subst drain.simps) (simp add: axiom_child_element_iterator_has_next_def axiom_child_element_iterator_next_def Let_def)
qed

section \<open>Iteration\<close>

text \<open>
  An iterator over the children of a node gives exactly its children in order and then ends; the
  iterator over child elements, started at the first element, gives exactly the elements among them.
\<close>

theorem child_iterators_visit:
  assumes "om_rel h F" "p \<in> dom h" "malloc sizeof_iterator" "malloc sizeof_element_iterator"
  shows "\<exists>c e it it'. axiom_node_get_first_child h (Some p) = Inr c \<and> axiom_children_iterator_create malloc c = Inr it \<and>
    drain_children h it = Some (Inr (map Some (kids F p))) \<and>
    axiom_node_get_first_element h (Some p) = Some (Inr e) \<and> axiom_child_element_iterator_create malloc e = Inr it' \<and>
    drain_elements h it' = Some (Inr (map Some (filter (is_element h) (kids F p))))"
proof -
  let ?es = "filter (is_element h) (kids F p)"
  have c: "axiom_node_get_first_child h (Some p) = Inr (first_of (kids F p) None)"
    by (rule links_sim(1) [OF assms(1,2)])
  have e: "axiom_node_get_first_element h (Some p) = Some (Inr (first_of ?es None))"
    using first_element_spec [OF assms(1), of p "[]"] c by (simp add: axiom_node_get_first_element_def)
  obtain it where it: "axiom_children_iterator_create malloc (first_of (kids F p) None) = Inr it"
      "it_current_child it = first_of (kids F p) None"
    using assms(3) by (simp add: axiom_children_iterator_create_def)
  obtain it' where it': "axiom_child_element_iterator_create malloc (first_of ?es None) = Inr it'"
      "ce_current_child it' = first_of ?es None"
    using assms(4) by (simp add: axiom_child_element_iterator_create_def)
  have "drain_children h it = Some (Inr (map Some (kids F p)))"
    by (rule drain_children_spec [OF assms(1) _ it(2), of p "[]"]) simp
  moreover have "drain_elements h it' = Some (Inr (map Some ?es))"
    by (rule drain_elements_spec [OF assms(1) _ _ it'(2), of p "[]" "kids F p"]) simp_all
  ultimately show ?thesis using c e it(1) it'(1) by blast
qed

theorem child_iterators_visit_witness:
  "\<exists>c e it it'. axiom_node_get_first_child sample_heap (Some 0) = Inr c \<and>
    axiom_children_iterator_create (\<lambda>_. True) c = Inr it \<and> drain_children sample_heap it = Some (Inr [Some 1, Some 2]) \<and>
    axiom_node_get_first_element sample_heap (Some 0) = Some (Inr e) \<and>
    axiom_child_element_iterator_create (\<lambda>_. True) e = Inr it' \<and> drain_elements sample_heap it' = Some (Inr [Some 2])"
proof -
  have d: "0 \<in> dom sample_heap" using om_rel_dom [OF sample_rel] sample_shape(4) by blast
  have "filter (is_element sample_heap) (kids sample_forest 0) = [2]"
    by (simp add: sample_shape(1) is_element_def sample_nodes [simplified])
  with child_iterators_visit [OF sample_rel d, of "\<lambda>_. True"] sample_shape(1) show ?thesis by simp
qed

end
