(* ===== verification/Om_Navigator.thy ===== *)
theory Om_Navigator
  imports Om_Iterator
begin

text \<open>
  The navigator of \<^verbatim>\<open>axiom/src/om/om_navigator.c\<close>, which walks over a tree without a stack: from a root it
  gives every element before and after its children. From a node that has a parent it leaves the subtree.
\<close>

section \<open>State and operations\<close>

record axiom_navigator =
  nav_node :: ptr
  nav_visited :: bool
  nav_next :: ptr
  nav_root :: ptr
  nav_backtracked :: bool
  nav_end :: bool
  nav_start :: bool

definition sizeof_navigator :: nat where "sizeof_navigator = 48"

definition axiom_navigator_create :: "alloc \<Rightarrow> ptr \<Rightarrow> axiom_navigator result" where
  "axiom_navigator_create malloc om_node =
     (if om_node = None then Inl INVALID_NULL_PARAM
      else if \<not> malloc sizeof_navigator then Inl NO_MEMORY
      else Inr \<lparr>nav_node = None, nav_visited = False, nav_next = om_node, nav_root = om_node,
        nav_backtracked = False, nav_end = False, nav_start = True\<rparr>)"

definition axiom_navigator_is_navigable :: "axiom_navigator \<Rightarrow> bool" where
  "axiom_navigator_is_navigable nav = (\<not> nav_end nav \<and> nav_next nav \<noteq> None)"

definition axiom_navigator_update_next_node :: "om_heap \<Rightarrow> axiom_navigator \<Rightarrow> axiom_navigator result" where
  "axiom_navigator_update_next_node h nav =
     (if nav_next nav = None then Inr nav
      else
        res_bind (axiom_node_get_node_type h (nav_next nav)) (\<lambda>t.
          if t = AXIOM_ELEMENT \<and> \<not> nav_visited nav then
            res_bind (axiom_node_get_first_child h (nav_next nav)) (\<lambda>c.
              if c \<noteq> None then Inr (nav\<lparr>nav_next := c\<rparr>)
              else
                res_bind (axiom_node_is_complete h (nav_next nav)) (\<lambda>complete.
                  if complete then Inr (nav\<lparr>nav_backtracked := True\<rparr>)
                  else Inr (nav\<lparr>nav_next := None\<rparr>)))
          else
            res_bind (axiom_node_get_next_sibling h (nav_next nav)) (\<lambda>next_sibling.
            res_bind (axiom_node_get_parent h (nav_next nav)) (\<lambda>parent.
              if next_sibling \<noteq> None then Inr (nav\<lparr>nav_next := next_sibling\<rparr>)
              else if parent = None then Inr (nav\<lparr>nav_next := None\<rparr>)
              else
                res_bind (axiom_node_is_complete h parent) (\<lambda>complete.
                  if complete then Inr (nav\<lparr>nav_next := parent, nav_backtracked := True\<rparr>)
                  else Inr (nav\<lparr>nav_next := None\<rparr>))))))"

definition axiom_navigator_next :: "om_heap \<Rightarrow> axiom_navigator \<Rightarrow> (ptr \<times> axiom_navigator) result" where
  "axiom_navigator_next h nav =
     (if nav_next nav = None then Inr (None, nav)
      else
        res_bind
          (axiom_navigator_update_next_node h
             (nav\<lparr>nav_node := nav_next nav, nav_visited := nav_backtracked nav, nav_backtracked := False\<rparr>))
          (\<lambda>nav1.
             let nav2 = (if nav_root nav1 = nav_next nav1
                         then if \<not> nav_start nav1 then nav1\<lparr>nav_end := True\<rparr> else nav1\<lparr>nav_start := False\<rparr>
                         else nav1)
             in Inr (nav_node nav2, nav2)))"

text \<open>The loop of the clients: each node, and whether it was visited before.\<close>

definition navigate :: "om_heap \<Rightarrow> axiom_navigator \<Rightarrow> (ptr \<times> bool) list result option" where
  "navigate h = drain axiom_navigator_is_navigable
     (\<lambda>nav. Some (res_bind (axiom_navigator_next h nav) (\<lambda>(p, nav1). Inr ((p, nav_visited nav1), nav1))))"

section \<open>Steps\<close>

fun nav_parts :: "om_heap \<Rightarrow> om_tree \<Rightarrow> (ptr \<times> bool) list" where
  "nav_parts h (Tree a ts) =
     (if is_element h a then (Some a, False) # concat (map (nav_parts h) ts) @ [(Some a, True)] else [(Some a, False)])"

inductive emits :: "om_heap \<Rightarrow> axiom_navigator \<Rightarrow> (ptr \<times> bool) list \<Rightarrow> axiom_navigator \<Rightarrow> bool" for h where
  emits_nil: "emits h nav [] nav"
| emits_step: "axiom_navigator_is_navigable nav \<Longrightarrow> axiom_navigator_next h nav = Inr (p, nav1) \<Longrightarrow>
    emits h nav1 xs nav2 \<Longrightarrow> emits h nav ((p, nav_visited nav1) # xs) nav2"

lemma emits_append: "emits h nav xs nav1 \<Longrightarrow> emits h nav1 ys nav2 \<Longrightarrow> emits h nav (xs @ ys) nav2"
  by (induction rule: emits.induct) (auto intro: emits.intros)

lemma emits_one:
  "axiom_navigator_is_navigable nav \<Longrightarrow> axiom_navigator_next h nav = Inr (p, nav1) \<Longrightarrow> v = nav_visited nav1 \<Longrightarrow>
   emits h nav [(p, v)] nav1"
  by (auto intro: emits.intros)

lemma emits_navigate:
  "emits h nav xs nav' \<Longrightarrow> \<not> axiom_navigator_is_navigable nav' \<Longrightarrow> navigate h nav = Some (Inr xs)"
proof (induction rule: emits.induct)
  case (emits_nil nav)
  then show ?case by (simp add: navigate_def drain.simps)
next
  case (emits_step nav p nav1 xs nav2)
  then show ?case unfolding navigate_def by (subst drain.simps) simp
qed

text \<open>The navigator stands before or behind a node of the tree of root \<open>r\<close>.\<close>

definition nav_at :: "nat \<Rightarrow> nat \<Rightarrow> bool \<Rightarrow> axiom_navigator \<Rightarrow> bool" where
  "nav_at r a b nav \<longleftrightarrow> nav_next nav = Some a \<and> nav_backtracked nav = b \<and> nav_root nav = Some r \<and> \<not> nav_end nav \<and>
     (nav_start nav \<or> a = r \<and> b)"

definition nav_after :: "om_forest \<Rightarrow> nat \<Rightarrow> nat \<Rightarrow> axiom_navigator \<Rightarrow> bool" where
  "nav_after F r a nav =
     (case youngers F a of
        s # _ \<Rightarrow> nav_at r s False nav
      | [] \<Rightarrow> (case f_par F a of Some p \<Rightarrow> nav_at r p True nav | None \<Rightarrow> nav_next nav = None))"

definition all_complete :: "om_heap \<Rightarrow> bool" where
  "all_complete h \<longleftrightarrow> (\<forall>n \<in> ran h. n_done n)"

lemma complete_run: "all_complete h \<Longrightarrow> a \<in> dom h \<Longrightarrow> axiom_node_is_complete h (Some a) = Inr True"
  by (auto simp: all_complete_def axiom_node_is_complete_def node_at_def ran_def)

lemma par_not_root: "forest_ok F \<Longrightarrow> f_par F r = None \<Longrightarrow> kids F p = xs @ c # ys \<Longrightarrow> c \<noteq> r"
  using forest_okD(4) [of F r p] by auto

definition walkable :: "om_heap \<Rightarrow> om_forest \<Rightarrow> nat \<Rightarrow> bool" where
  "walkable h F r \<longleftrightarrow> om_rel h F \<and> f_par F r = None \<and> all_complete h"

lemma walkableD: "walkable h F r \<Longrightarrow> om_rel h F" "walkable h F r \<Longrightarrow> f_par F r = None" "walkable h F r \<Longrightarrow> all_complete h"
  by (simp_all add: walkable_def)

lemmas nav_run = axiom_navigator_next_def axiom_navigator_update_next_node_def nav_at_def node_type_run is_element_def

lemma nav_down:
  assumes w: "walkable h F r" and "nav_at r a False nav" "a \<in> dom h" "is_element h a" "kids F a = k # ks"
  shows "\<exists>nav'. emits h nav [(Some a, False)] nav' \<and> nav_at r k False nav'"
proof -
  note rel = walkableD(1) [OF w]
  have "k \<noteq> r" using par_not_root [OF om_relD(1) [OF rel] walkableD(2) [OF w], of a "[]"] assms(5) by simp
  then have "\<exists>nav'. axiom_navigator_next h nav = Inr (Some a, nav') \<and> \<not> nav_visited nav' \<and> nav_at r k False nav'"
    using assms(2-5) links_sim(1) [OF rel assms(3)] by (auto simp: nav_run)
  then show ?thesis
    using assms(2) emits_one [of nav h "Some a" _ False] by (auto simp: nav_at_def axiom_navigator_is_navigable_def)
qed

lemma nav_turn:
  assumes w: "walkable h F r" and "nav_at r a False nav" "a \<in> dom h" "is_element h a" "kids F a = []"
  shows "\<exists>nav'. emits h nav [(Some a, False)] nav' \<and> nav_at r a True nav'"
proof -
  have "\<exists>nav'. axiom_navigator_next h nav = Inr (Some a, nav') \<and> \<not> nav_visited nav' \<and> nav_at r a True nav'"
    using assms(2-5) links_sim(1) [OF walkableD(1) [OF w] assms(3)] complete_run [OF walkableD(3) [OF w] assms(3)]
    by (cases "a = r") (auto simp: nav_run)
  then show ?thesis
    using assms(2) emits_one [of nav h "Some a" _ False] by (auto simp: nav_at_def axiom_navigator_is_navigable_def)
qed

lemma nav_leave:
  assumes w: "walkable h F r" and "nav_at r a b nav" "a \<in> dom h" "b \<or> \<not> is_element h a"
  shows "\<exists>nav'. emits h nav [(Some a, b)] nav' \<and> nav_after F r a nav'"
proof -
  note rel = walkableD(1) [OF w] and l = links_sim(3,4) [OF walkableD(1) [OF w] assms(3)]
  have "\<exists>nav'. axiom_navigator_next h nav = Inr (Some a, nav') \<and> nav_visited nav' = b \<and> nav_after F r a nav'"
  proof (cases "f_par F a")
    case None
    then show ?thesis
      using assms(2-4) l by (auto simp: nav_run youngers_def nav_after_def)
  next
    case (Some p)
    note k = kid_parts [OF rel Some]
    have p: "p \<in> dom h" by (rule kid_links(4) [OF om_relD(1) [OF rel] om_relD(2) [OF rel] k])
    have ar: "a \<noteq> r" using Some walkableD(2) [OF w] by auto
    show ?thesis
    proof (cases "youngers F a")
      case Nil
      then show ?thesis
        using assms(2-4) l Some ar complete_run [OF walkableD(3) [OF w] p]
        by (cases "p = r") (auto simp: nav_run nav_after_def)
    next
      case (Cons s ss)
      then have "s \<noteq> r"
        using par_not_root [OF om_relD(1) [OF rel] walkableD(2) [OF w], of p "elders F a @ [a]"] k by simp
      then show ?thesis using assms(2-4) l Cons ar by (auto simp: nav_run nav_after_def)
    qed
  qed
  then show ?thesis
    using assms(2) emits_one [of nav h "Some a" _ b] by (auto simp: nav_at_def axiom_navigator_is_navigable_def)
qed

section \<open>Trees\<close>

lemma nav_branches:
  assumes w: "walkable h F r"
  shows "kids F p = xs @ map root ts \<Longrightarrow> ts \<noteq> [] \<Longrightarrow>
    (\<And>t nav. t \<in> set ts \<Longrightarrow> nav_at r (root t) False nav \<Longrightarrow> \<exists>nav'. emits h nav (nav_parts h t) nav' \<and> nav_after F r (root t) nav') \<Longrightarrow>
    nav_at r (root (hd ts)) False nav \<Longrightarrow> \<exists>nav'. emits h nav (concat (map (nav_parts h) ts)) nav' \<and> nav_at r p True nav'"
proof (induction ts arbitrary: xs nav)
  case (Cons t ts)
  have k: "kids F p = xs @ root t # map root ts" using Cons.prems(1) by simp
  note y = youngers_split [OF om_relD(1) [OF walkableD(1) [OF w]] k]
  obtain nav1 where n: "emits h nav (nav_parts h t) nav1" "nav_after F r (root t) nav1"
    using Cons.prems(3) [of t nav] Cons.prems(4) by auto
  show ?case
  proof (cases ts)
    case Nil
    then show ?thesis using n y by (auto simp: nav_after_def)
  next
    case (Cons u us)
    then have "nav_at r (root (hd ts)) False nav1" using n(2) y(1) by (simp add: nav_after_def)
    with Cons.IH [of "xs @ [root t]" nav1] Cons.prems(3) k Cons obtain nav2 where
      "emits h nav1 (concat (map (nav_parts h) ts)) nav2" "nav_at r p True nav2" by auto
    with n(1) show ?thesis using emits_append by fastforce
  qed
qed simp

lemma nav_tree:
  assumes w: "walkable h F r"
  shows "tree_at F t \<Longrightarrow> nav_at r (root t) False nav \<Longrightarrow>
    \<exists>nav'. emits h nav (nav_parts h t) nav' \<and> nav_after F r (root t) nav'"
proof (induction t arbitrary: nav)
  case (Tree a ts)
  have a: "a \<in> dom h" "kids F a = map root ts" using Tree.prems(1) om_rel_dom [OF walkableD(1) [OF w]] by auto
  have at: "nav_at r a False nav" using Tree.prems(2) by simp
  show ?case
  proof (cases "is_element h a")
    case False
    then show ?thesis using nav_leave [OF w at a(1)] by simp
  next
    case True
    have "\<exists>nav1. emits h nav ((Some a, False) # concat (map (nav_parts h) ts)) nav1 \<and> nav_at r a True nav1"
    proof (cases "ts = []")
      case True
      then show ?thesis using nav_turn [OF w at a(1) \<open>is_element h a\<close>] a(2) by simp
    next
      case False
      then have "kids F a = root (hd ts) # map root (tl ts)" using a(2) by (cases ts) auto
      from nav_down [OF w at a(1) True this] obtain nav1 where
        n: "emits h nav [(Some a, False)] nav1" "nav_at r (root (hd ts)) False nav1" by blast
      have "\<exists>nav2. emits h nav1 (concat (map (nav_parts h) ts)) nav2 \<and> nav_at r a True nav2"
        by (rule nav_branches [OF w, of a "[]"]) (use a(2) False Tree n(2) in auto)
      with n(1) show ?thesis using emits_append by fastforce
    qed
    then obtain nav1 where n: "emits h nav ((Some a, False) # concat (map (nav_parts h) ts)) nav1" "nav_at r a True nav1"
      by blast
    from nav_leave [OF w n(2) a(1)] obtain nav2 where "emits h nav1 [(Some a, True)] nav2" "nav_after F r a nav2" by auto
    with emits_append [OF n(1)] True show ?thesis by fastforce
  qed
qed

text \<open>
  C23: a navigator started at a node without parent, in a tree whose nodes are all marked complete, as the builder leaves
  them at the end of its input, gives each element before and after its children and each other node once, in document
  order, and then ends. A tree made with \<^verbatim>\<open>axiom_element_create\<close> and \<^verbatim>\<open>axiom_text_create\<close> has nodes that are not marked
  complete, and is left out.
\<close>

theorem navigator_document_order:
  assumes "walkable h F (root t)" "tree_at F t" "malloc sizeof_navigator"
  shows "\<exists>nav. axiom_navigator_create malloc (Some (root t)) = Inr nav \<and> navigate h nav = Some (Inr (nav_parts h t))"
proof -
  obtain nav where n: "axiom_navigator_create malloc (Some (root t)) = Inr nav" "nav_at (root t) (root t) False nav"
    using assms(3) by (simp add: axiom_navigator_create_def nav_at_def)
  from nav_tree [OF assms(1,2) n(2)] obtain nav' where
    e: "emits h nav (nav_parts h t) nav'" "nav_after F (root t) (root t) nav'" by blast
  then have "\<not> axiom_navigator_is_navigable nav'"
    using walkableD(2) [OF assms(1)] by (simp add: nav_after_def youngers_def axiom_navigator_is_navigable_def)
  from emits_navigate [OF e(1) this] n(1) show ?thesis by blast
qed

theorem navigator_document_order_witness:
  "\<exists>nav. axiom_navigator_create (\<lambda>_. True) (Some 0) = Inr nav \<and> navigate sample_heap nav =
     Some (Inr [(Some 0, False), (Some 1, False), (Some 2, False), (Some 2, True), (Some 0, True)])"
proof -
  have "all_complete sample_heap"
    by (auto simp: all_complete_def sample_heap_def sample_calls_def axiom_node_create_def no_value_def
        axiom_node_set_node_type_def axiom_node_set_data_element_def axiom_node_set_complete_def set_field_def
        set_node_def node_at_def append_child_def ran_def split: if_splits)
  moreover have "f_par sample_forest 0 = None"
    by (simp add: sample_forest_def sample_calls_def no_nodes_def f_create_def f_place_def set_kids_def)
  ultimately have "walkable sample_heap sample_forest (root (Tree 0 [Tree 1 [], Tree 2 []]))"
    by (simp add: walkable_def sample_rel)
  moreover have "tree_at sample_forest (Tree 0 [Tree 1 [], Tree 2 []])" using sample_shape by simp
  ultimately show ?thesis
    using navigator_document_order [of sample_heap sample_forest "Tree 0 [Tree 1 [], Tree 2 []]" "\<lambda>_. True"]
    by (simp add: is_element_def sample_nodes [simplified])
qed

text \<open>
  Started at a node that has a parent, the navigator does not end with the subtree: the flag \<^verbatim>\<open>start\<close> is only
  reset when it comes back to its root, so that \<^verbatim>\<open>end\<close> is not set then.
\<close>

lemma navigator_leaves_subtree:
  assumes "om_rel h F" "all_complete h" "c \<in> dom h" "is_element h c" "kids F c = []" "f_par F c = Some p"
    "youngers F c = []" "axiom_navigator_create malloc (Some c) = Inr nav"
  shows "\<exists>nav'. emits h nav [(Some c, False), (Some c, True)] nav' \<and> axiom_navigator_is_navigable nav' \<and>
    nav_next nav' = Some p"
proof -
  note l = links_sim [OF assms(1,3)]
  have k: "kids F p = elders F c @ c # youngers F c" by (rule kid_parts [OF assms(1,6)])
  have p: "p \<in> dom h" "p \<noteq> c" using kid_links(4,8) [OF om_relD(1) om_relD(2) k] assms(1) by auto
  note run = axiom_navigator_next_def axiom_navigator_update_next_node_def node_type_run
  let ?n1 = "nav\<lparr>nav_node := Some c, nav_visited := False, nav_backtracked := True, nav_start := False\<rparr>"
  let ?n2 = "?n1\<lparr>nav_visited := True, nav_next := Some p\<rparr>"
  have nav: "nav_next nav = Some c" "nav_root nav = Some c" "nav_start nav" "\<not> nav_end nav" "\<not> nav_backtracked nav"
    using assms(8) by (auto simp: axiom_navigator_create_def split: if_splits)
  then have "axiom_navigator_next h nav = Inr (Some c, ?n1)"
    using assms(3-5) l(1) complete_run [OF assms(2,3)] by (simp add: run is_element_def)
  moreover have "axiom_navigator_next h ?n1 = Inr (Some c, ?n2)"
    using assms(3,6,7) l(3,4) nav p(2) complete_run [OF assms(2) p(1)] by (simp add: run)
  ultimately have "emits h nav ([(Some c, False)] @ [(Some c, True)]) ?n2"
    using nav by (intro emits_append emits_one) (auto simp: axiom_navigator_is_navigable_def)
  then show ?thesis using nav by (auto simp: axiom_navigator_is_navigable_def)
qed

end
