(* ===== verification/C_Number.thy ===== *)
theory C_Number
  imports C_String
begin

text \<open>
  Numbers and their text in the C library as the transport code uses them: \<^verbatim>\<open>strtol\<close> and \<^verbatim>\<open>atoi\<close>, the conversions
  \<^verbatim>\<open>%x\<close> and \<^verbatim>\<open>%d\<close> of \<^verbatim>\<open>sprintf\<close>, and the conversions between integer types of an LP64 platform.
\<close>

section \<open>Reading\<close>

definition is_space :: "char \<Rightarrow> bool" where
  "is_space c \<longleftrightarrow> c = CHR '' '' \<or> c \<in> {CHR 0x09, CHR 0x0A, CHR 0x0B, CHR 0x0C, CHR 0x0D}"

definition digit_val :: "char \<Rightarrow> nat option" where
  "digit_val c =
     (let n = of_char c :: nat in
      if 48 \<le> n \<and> n \<le> 57 then Some (n - 48)
      else if 97 \<le> n \<and> n \<le> 122 then Some (n - 87)
      else if 65 \<le> n \<and> n \<le> 90 then Some (n - 55)
      else None)"

definition is_digit :: "nat \<Rightarrow> char \<Rightarrow> bool" where
  "is_digit base c = (case digit_val c of None \<Rightarrow> False | Some d \<Rightarrow> d < base)"

definition digits_val :: "nat \<Rightarrow> string \<Rightarrow> nat" where
  "digits_val base ds = foldl (\<lambda>v c. v * base + the (digit_val c)) 0 ds"

definition skip_0x :: "nat \<Rightarrow> string \<Rightarrow> string" where
  "skip_0x base s =
     (case s of
        z # x # d # r \<Rightarrow>
          if base = 16 \<and> z = CHR ''0'' \<and> (x = CHR ''x'' \<or> x = CHR ''X'') \<and> is_digit 16 d then d # r else s
      | _ \<Rightarrow> s)"

definition clamp_long :: "int \<Rightarrow> int" where
  "clamp_long n = max (- (2 ^ 63)) (min (2 ^ 63 - 1) n)"

definition strtol :: "string \<Rightarrow> nat \<Rightarrow> int" where
  "strtol s base =
     (let s1 = dropWhile is_space s;
          neg = (front s1 = CHR ''-'');
          s2 = (if neg \<or> front s1 = CHR ''+'' then tl s1 else s1);
          v = int (digits_val base (takeWhile (is_digit base) (skip_0x base s2)))
      in clamp_long (if neg then - v else v))"

text \<open>A \<^verbatim>\<open>long\<close> stored in an \<^verbatim>\<open>int\<close>.\<close>

definition int_of_long :: "int \<Rightarrow> int" where
  "int_of_long n = (n + 2 ^ 31) mod 2 ^ 32 - 2 ^ 31"

text \<open>
  The functions of \<^verbatim>\<open>util/src/types.c\<close> read decimal digits from the start of the string; the base they are given
  is not used. A signed value that leaves its type is undefined, an unsigned one wraps.
\<close>

definition is_dec :: "char \<Rightarrow> bool" where
  "is_dec c \<longleftrightarrow> c_int (CHR ''0'') \<le> c_int c \<and> c_int c \<le> c_int (CHR ''9'')"

fun atoi_loop :: "int \<Rightarrow> int \<Rightarrow> string \<Rightarrow> int result" where
  "atoi_loop limit n [] = Inr n"
| "atoi_loop limit n (c # s) =
     (if is_dec c then
        let m = 10 * n + (c_int c - c_int (CHR ''0'')) in
        if m \<le> limit then atoi_loop limit m s else Inl UNDEFINED_BEHAVIOUR
      else Inr n)"

definition axutil_atoi :: "string \<Rightarrow> int result" where
  "axutil_atoi s = atoi_loop (2 ^ 31 - 1) 0 s"

definition axutil_atol :: "string \<Rightarrow> int result" where
  "axutil_atol s = atoi_loop (2 ^ 63 - 1) 0 s"

text \<open>The value and the text behind the digits.\<close>

definition axutil_strtol :: "string \<Rightarrow> int \<Rightarrow> (int \<times> string) result" where
  "axutil_strtol s base = res_bind (atoi_loop (2 ^ 63 - 1) 0 s) (\<lambda>n. Inr (n, dropWhile is_dec s))"

definition axutil_strtoul :: "string \<Rightarrow> int \<Rightarrow> 64 word \<times> string" where
  "axutil_strtoul s base =
     (foldl (\<lambda>n c. 10 * n + of_int (c_int c - c_int (CHR ''0''))) 0 (takeWhile is_dec s), dropWhile is_dec s)"

section \<open>Printing\<close>

definition digit_char :: "nat \<Rightarrow> char" where
  "digit_char d = (if d < 10 then char_of (d + 48) else char_of (d + 87))"

fun print_base :: "nat \<Rightarrow> nat \<Rightarrow> string" where
  "print_base base n =
     (if base < 2 \<or> n < base then [digit_char n] else print_base base (n div base) @ [digit_char (n mod base)])"

declare print_base.simps [simp del]

definition print_hex :: "nat \<Rightarrow> string" where
  "print_hex n = print_base 16 n"

definition print_int :: "int \<Rightarrow> string" where
  "print_int n = (if n < 0 then CHR ''-'' # print_base 10 (nat (- n)) else print_base 10 (nat n))"

section \<open>Reading back\<close>

lemma digit_char_code: "d < 16 \<Longrightarrow> (of_char (digit_char d) :: nat) = (if d < 10 then d + 48 else d + 87)"
  by (simp add: digit_char_def)

lemma digit_val_char [simp]: "d < 16 \<Longrightarrow> digit_val (digit_char d) = Some d"
  by (simp add: digit_val_def digit_char_code Let_def)

lemma is_digit_char [simp]: "d < base \<Longrightarrow> base \<le> 16 \<Longrightarrow> is_digit base (digit_char d)"
  by (simp add: is_digit_def)

lemma digits_val_snoc: "digits_val base (ds @ [c]) = digits_val base ds * base + the (digit_val c)"
  by (simp add: digits_val_def)

lemma print_base_digits:
  assumes "2 \<le> base" "base \<le> 16"
  shows "digits_val base (print_base base n) = n \<and> (\<forall>c \<in> set (print_base base n). is_digit base c) \<and> print_base base n \<noteq> []"
proof (induction n rule: less_induct)
  case (less n)
  show ?case
  proof (cases "n < base")
    case True
    then show ?thesis using assms by (subst (1 2 3) print_base.simps) (simp add: digits_val_def)
  next
    case False
    then have "n div base < n" using assms by (simp add: div_less_dividend)
    moreover have "n mod base < 16" using assms mod_less_divisor [of base n] by linarith
    ultimately show ?thesis using less [of "n div base"] False assms
      by (subst (1 2 3) print_base.simps) (auto simp: digits_val_snoc)
  qed
qed

lemma print_base_length:
  assumes "2 \<le> base" "n < base ^ k" "0 < k"
  shows "length (print_base base n) \<le> k"
  using assms(2,3)
proof (induction k arbitrary: n)
  case (Suc k)
  show ?case
  proof (cases "n < base")
    case True
    then show ?thesis by (subst print_base.simps) simp
  next
    case False
    then have "0 < k" using Suc.prems(1) by (cases k) auto
    moreover have "n div base < base ^ k" using Suc.prems(1) assms(1) by (simp add: less_mult_imp_div_less mult.commute)
    ultimately have "length (print_base base (n div base)) \<le> k" using Suc.IH by blast
    then show ?thesis using False by (subst print_base.simps) simp
  qed
qed simp

lemma print_base_length_ge:
  assumes "2 \<le> base" "base ^ k \<le> n"
  shows "k < length (print_base base n)"
  using assms(2)
proof (induction k arbitrary: n)
  case 0
  then show ?case by (subst print_base.simps) simp
next
  case (Suc k)
  then have "base ^ k \<le> n div base" using assms(1) by (simp add: less_eq_div_iff_mult_less_eq mult.commute)
  with Suc.IH have "k < length (print_base base (n div base))" by blast
  moreover have "base \<le> n" by (rule order_trans [OF _ Suc.prems]) (use assms(1) in simp)
  then have "\<not> n < base" by simp
  ultimately show ?case using assms(1) by (subst print_base.simps) simp
qed

text \<open>A number printed in hexadecimal is read back, after blanks and before anything that is no digit.\<close>

lemma digit_not_space: "is_digit base c \<Longrightarrow> \<not> is_space c \<and> c \<noteq> CHR ''-'' \<and> c \<noteq> CHR ''+''"
  by (auto simp: is_digit_def is_space_def digit_val_def Let_def split: if_splits)

lemma x_no_digit: "\<not> is_digit 16 (CHR ''x'')" "\<not> is_digit 16 (CHR ''X'')"
  by (simp_all add: is_digit_def digit_val_def)

lemma takeWhile_digits:
  "\<forall>c \<in> set ds. P c \<Longrightarrow> \<not> P c \<Longrightarrow> takeWhile P (ds @ c # r) = ds"
  by (induction ds) auto

lemma strtol_print_hex:
  assumes "\<forall>c \<in> set ws. is_space c" "\<not> is_digit 16 c" "c \<noteq> CHR ''x''" "c \<noteq> CHR ''X''" "n < 2 ^ 63"
  shows "strtol (ws @ print_hex n @ c # r) 16 = int n"
proof -
  note p = print_base_digits [of 16 n, simplified, folded print_hex_def]
  obtain d ds where d: "print_hex n = d # ds" using p by (cases "print_hex n") auto
  have dd: "is_digit 16 d" using p d by simp
  have s1: "dropWhile is_space (ws @ print_hex n @ c # r) = print_hex n @ c # r"
    using assms(1) d digit_not_space [OF dd] by (induction ws) auto
  have x: "hd (ds @ c # r) \<noteq> CHR ''x'' \<and> hd (ds @ c # r) \<noteq> CHR ''X''"
    using p d assms(3,4) x_no_digit by (cases ds) auto
  have "skip_0x 16 (print_hex n @ c # r) = print_hex n @ c # r"
  proof (cases "ds @ c # r")
    case (Cons y ys)
    then show ?thesis using x d by (cases ys) (auto simp: skip_0x_def)
  qed simp
  moreover have "takeWhile (is_digit 16) (print_hex n @ c # r) = print_hex n"
    using p assms(2) by (intro takeWhile_digits) auto
  ultimately show ?thesis
    using s1 d digit_not_space [OF dd] p assms(5)
    by (simp add: strtol_def Let_def front_def clamp_long_def)
qed

text \<open>A natural number printed in decimal is read back by \<^verbatim>\<open>axutil_atoi\<close>, where it fits.\<close>

lemma is_dec_digit: "is_dec c \<longleftrightarrow> is_digit 10 c"
  by (auto simp: is_dec_def is_digit_def digit_val_def c_int_code Let_def split: if_splits)
     (use char_code_less [of c] in linarith)+

lemma dec_value: "is_digit 10 c \<Longrightarrow> c_int c - c_int (CHR ''0'') = int (the (digit_val c))"
  by (auto simp: is_digit_def digit_val_def c_int_code Let_def split: if_splits)

lemma digits_val_mono: "digits_val base ds \<le> digits_val base (ds @ es)" if "1 \<le> base"
proof (induction es rule: rev_induct)
  case (snoc e es)
  have "digits_val base (ds @ es) * 1 \<le> digits_val base (ds @ es) * base" using that by (intro mult_le_mono2) simp
  moreover have "digits_val base (ds @ es @ [e]) = digits_val base (ds @ es) * base + the (digit_val e)"
    using digits_val_snoc [of base "ds @ es" e] by simp
  ultimately show ?case using snoc by linarith
qed simp

lemma atoi_loop_digits:
  assumes "\<forall>c \<in> set ds. is_digit 10 c" "s = [] \<or> \<not> is_digit 10 (hd s)"
  shows "int (digits_val 10 (es @ ds)) \<le> limit \<Longrightarrow>
    atoi_loop limit (int (digits_val 10 es)) (ds @ s) = Inr (int (digits_val 10 (es @ ds)))"
  using assms(1)
proof (induction ds arbitrary: es)
  case Nil
  then show ?case using assms(2) by (cases s) (auto simp: is_dec_digit)
next
  case (Cons d ds)
  have d: "is_digit 10 d" using Cons.prems by simp
  have v: "10 * int (digits_val 10 es) + (c_int d - c_int (CHR ''0'')) = int (digits_val 10 (es @ [d]))"
    unfolding digits_val_snoc dec_value [OF d] by simp
  have "int (digits_val 10 (es @ [d])) \<le> limit"
    using Cons.prems(1) digits_val_mono [of 10 "es @ [d]" ds] by simp
  then show ?case
    using Cons.IH [of "es @ [d]"] Cons.prems d v by (simp add: is_dec_digit Let_def)
qed

lemma atoi_print:
  assumes "n < 2 ^ 31" "s = [] \<or> \<not> is_digit 10 (hd s)"
  shows "axutil_atoi (print_base 10 n @ s) = Inr (int n)"
proof -
  note p = print_base_digits [of 10 n, simplified]
  have "atoi_loop (2 ^ 31 - 1) (int (digits_val 10 [])) (print_base 10 n @ s) = Inr (int (digits_val 10 ([] @ print_base 10 n)))"
    by (rule atoi_loop_digits) (use p assms in auto)
  then show ?thesis using p by (simp add: axutil_atoi_def digits_val_def)
qed

end
