(* ===== verification/Http_Lines.thy ===== *)
theory Http_Lines
  imports C_Number
begin

text \<open>
  The lines of an HTTP message: \<^verbatim>\<open>http_header.c\<close>, \<^verbatim>\<open>http_request_line.c\<close> and \<^verbatim>\<open>http_status_line.c\<close> under
  \<^verbatim>\<open>src/core/transport/http/common\<close>. The strings of these objects are copies made with \<^verbatim>\<open>axutil_strdup\<close>, mostly
  without a look at the answer, and may be NULL. Printing a NULL string is undefined.
\<close>

section \<open>Headers\<close>

definition AXIS2_RETURN :: char where "AXIS2_RETURN = CHR 0x0D"
definition AXIS2_SPACE :: char where "AXIS2_SPACE = CHR '' ''"
definition AXIS2_COLON :: char where "AXIS2_COLON = CHR '':''"
definition AXIS2_F_SLASH :: char where "AXIS2_F_SLASH = CHR ''/''"

record http_header =
  hdr_name :: "string option"
  hdr_value :: "string option"

definition sizeof_http_header :: nat where "sizeof_http_header = 16"

definition axis2_http_header_create :: "alloc \<Rightarrow> string option \<Rightarrow> string option \<Rightarrow> http_header result" where
  "axis2_http_header_create malloc name value =
     (if \<not> malloc sizeof_http_header then Inl NO_MEMORY
      else Inr \<lparr>hdr_name = ret_ptr (axutil_strdup malloc name), hdr_value = ret_ptr (axutil_strdup malloc value)\<rparr>)"

definition cut_crlf :: "string \<Rightarrow> string" where
  "cut_crlf s = (if 2 \<le> length s \<and> s ! (length s - 2) = AXIS2_RETURN then take (length s - 2) s else s)"

definition axis2_http_header_create_by_str :: "alloc \<Rightarrow> string option \<Rightarrow> http_header result" where
  "axis2_http_header_create_by_str malloc str =
     (case str of
        None \<Rightarrow> Inl INVALID_NULL_PARAM
      | Some s \<Rightarrow>
          res_bind (axutil_strdup malloc (Some s)) (\<lambda>_.
            let tmp_str = cut_crlf s in
            case strchr tmp_str AXIS2_COLON of
              None \<Rightarrow> Inl FAILURE_STATUS
            | Some ch \<Rightarrow>
                axis2_http_header_create malloc (Some (take ch tmp_str))
                  (Some (dropWhile (\<lambda>c. c = AXIS2_SPACE) (drop (ch + 1) tmp_str)))))"

text \<open>The block is \<^verbatim>\<open>len\<close> bytes long and is not checked.\<close>

definition axis2_http_header_to_external_form :: "alloc \<Rightarrow> http_header option \<Rightarrow> string result" where
  "axis2_http_header_to_external_form malloc p =
     (case p of
        None \<Rightarrow> Inl INVALID_NULL_PARAM
      | Some h \<Rightarrow>
          (case (hdr_name h, hdr_value h) of
             (Some n, Some v) \<Rightarrow>
               let len = length n + length v + 8; external_form = n @ '': '' @ v @ AXIS2_HTTP_CRLF in
               if \<not> malloc len \<or> len < length external_form + 1 then Inl UNDEFINED_BEHAVIOUR
               else Inr external_form
           | _ \<Rightarrow> Inl UNDEFINED_BEHAVIOUR))"

definition axis2_http_header_get_name :: "http_header \<Rightarrow> string option" where
  "axis2_http_header_get_name h = hdr_name h"

definition axis2_http_header_get_value :: "http_header \<Rightarrow> string option" where
  "axis2_http_header_get_value h = hdr_value h"

definition axis2_http_header_set_value :: "alloc \<Rightarrow> http_header \<Rightarrow> string option \<Rightarrow> http_header" where
  "axis2_http_header_set_value malloc h value = h\<lparr>hdr_value := ret_ptr (axutil_strdup malloc value)\<rparr>"

section \<open>Request lines\<close>

record http_request_line =
  rl_http_version :: "string option"
  rl_method :: "string option"
  rl_uri :: "string option"

definition sizeof_request_line :: nat where "sizeof_request_line = 24"

definition axis2_http_request_line_create ::
    "alloc \<Rightarrow> string option \<Rightarrow> string option \<Rightarrow> string option \<Rightarrow> http_request_line result" where
  "axis2_http_request_line_create malloc method uri http_version =
     (if method = None \<or> uri = None \<or> http_version = None then Inl INVALID_NULL_PARAM
      else if \<not> malloc sizeof_request_line then Inl NO_MEMORY
      else Inr \<lparr>rl_http_version = ret_ptr (axutil_strdup malloc http_version), rl_method = ret_ptr (axutil_strdup malloc method),
        rl_uri = ret_ptr (axutil_strdup malloc uri)\<rparr>)"

definition axis2_http_request_line_parse_line :: "alloc \<Rightarrow> string option \<Rightarrow> http_request_line result" where
  "axis2_http_request_line_parse_line malloc str =
     (case str of
        None \<Rightarrow> Inl INVALID_NULL_PARAM
      | Some s \<Rightarrow>
          (case strstr s AXIS2_HTTP_CRLF of
             None \<Rightarrow> Inl INVALID_HTTP_HEADER_START_LINE
           | Some i \<Rightarrow>
               if \<not> malloc (i + 1) then Inl NO_MEMORY
               else
                 let req_line = take i s in
                 case strchr req_line AXIS2_SPACE of
                   None \<Rightarrow> Inl INVALID_HTTP_HEADER_START_LINE
                 | Some j \<Rightarrow>
                     let method = take j req_line; tmp = drop (j + 1) req_line in
                     case strrchr tmp AXIS2_SPACE of
                       None \<Rightarrow> Inl INVALID_HTTP_HEADER_START_LINE
                     | Some k \<Rightarrow>
                         axis2_http_request_line_create malloc (Some method) (Some (take k tmp)) (Some (drop (k + 1) tmp))))"

definition axis2_http_request_line_get_method :: "http_request_line \<Rightarrow> string option" where
  "axis2_http_request_line_get_method rl = rl_method rl"

definition axis2_http_request_line_get_http_version :: "http_request_line \<Rightarrow> string option" where
  "axis2_http_request_line_get_http_version rl = rl_http_version rl"

definition axis2_http_request_line_get_uri :: "http_request_line \<Rightarrow> string option" where
  "axis2_http_request_line_get_uri rl = rl_uri rl"

definition axis2_http_request_line_to_string :: "alloc \<Rightarrow> http_request_line \<Rightarrow> string result" where
  "axis2_http_request_line_to_string malloc rl =
     (let alloc_len = axutil_strlen (rl_method rl) + axutil_strlen (rl_uri rl) + axutil_strlen (rl_http_version rl) + 6 in
      if \<not> malloc (nat alloc_len) then Inl NO_MEMORY
      else
        case (rl_method rl, rl_uri rl, rl_http_version rl) of
          (Some m, Some u, Some v) \<Rightarrow>
            let ret = (if front u \<noteq> AXIS2_F_SLASH then m @ '' /'' @ u @ '' '' @ v @ AXIS2_HTTP_CRLF else m @ '' '' @ u @ '' '' @ v @ AXIS2_HTTP_CRLF)
            in if nat alloc_len < length ret + 1 then Inl UNDEFINED_BEHAVIOUR else Inr ret
        | _ \<Rightarrow> Inl UNDEFINED_BEHAVIOUR)"

section \<open>Status lines\<close>

record http_status_line =
  sl_line :: "string option"
  sl_http_version :: "string option"
  sl_status_code :: "string option"
  sl_reason_phrase :: "string option"

definition sizeof_status_line :: nat where "sizeof_status_line = 32"

definition AXIS2_CRITICAL_FAILURE :: int where "AXIS2_CRITICAL_FAILURE = -1"

text \<open>The copy of the status code is not looked at, those of the version and the phrase are.\<close>

definition axis2_http_status_line_create :: "alloc \<Rightarrow> string option \<Rightarrow> http_status_line result" where
  "axis2_http_status_line_create malloc str =
     (if \<not> malloc sizeof_status_line then Inl NO_MEMORY
      else
        case str of
          None \<Rightarrow> Inl UNDEFINED_BEHAVIOUR
        | Some s \<Rightarrow>
            (case strstr s AXIS2_HTTP_CRLF of
               None \<Rightarrow> Inl INVALID_HTTP_HEADER_START_LINE
             | Some i \<Rightarrow>
                 if \<not> malloc (i + 1) then Inl NO_MEMORY
                 else
                   let line = take i s in
                   case strchr line AXIS2_SPACE of
                     None \<Rightarrow> Inl INVALID_HTTP_HEADER_START_LINE
                   | Some j \<Rightarrow>
                       let http_version = take j line; tmp = drop (j + 1) line in
                       case strchr tmp AXIS2_SPACE of
                         None \<Rightarrow> Inl INVALID_HTTP_HEADER_START_LINE
                       | Some k \<Rightarrow>
                           let st = \<lparr>sl_line = ret_ptr (axutil_strdup malloc (Some s)),
                                     sl_http_version = ret_ptr (axutil_strdup malloc (Some http_version)),
                                     sl_status_code = ret_ptr (axutil_strdup malloc (Some (take k tmp))),
                                     sl_reason_phrase = ret_ptr (axutil_strdup malloc (Some (drop (k + 1) tmp)))\<rparr>
                           in if sl_http_version st = None \<or> sl_reason_phrase st = None then Inl NO_MEMORY else Inr st))"

definition axis2_http_status_line_get_status_code :: "http_status_line \<Rightarrow> int result" where
  "axis2_http_status_line_get_status_code st =
     (case sl_status_code st of Some c \<Rightarrow> axutil_atoi c | None \<Rightarrow> Inr AXIS2_CRITICAL_FAILURE)"

definition axis2_http_status_line_get_http_version :: "http_status_line \<Rightarrow> string option" where
  "axis2_http_status_line_get_http_version st = sl_http_version st"

definition axis2_http_status_line_set_http_version :: "alloc \<Rightarrow> http_status_line \<Rightarrow> string option \<Rightarrow> http_status_line" where
  "axis2_http_status_line_set_http_version malloc st http_version =
     st\<lparr>sl_http_version := ret_ptr (axutil_strdup malloc http_version)\<rparr>"

definition axis2_http_status_line_get_reason_phrase :: "http_status_line \<Rightarrow> string option" where
  "axis2_http_status_line_get_reason_phrase st = sl_reason_phrase st"

definition AXIS2_HTTP :: string where "AXIS2_HTTP = ''HTTP''"

definition axis2_http_status_line_starts_with_http :: "http_status_line \<Rightarrow> bool result" where
  "axis2_http_status_line_starts_with_http st =
     (case sl_line st of
        None \<Rightarrow> Inl UNDEFINED_BEHAVIOUR
      | Some l \<Rightarrow> Inr (axutil_strncasecmp l AXIS2_HTTP 4 = 0))"

definition axis2_http_status_line_to_string :: "http_status_line \<Rightarrow> string option" where
  "axis2_http_status_line_to_string st = sl_line st"

section \<open>Lines printed and parsed\<close>

lemma char_facts [simp]: "AXIS2_SPACE \<noteq> NUL" "AXIS2_COLON \<noteq> NUL"
  by (simp_all add: AXIS2_SPACE_def AXIS2_COLON_def NUL_def)

lemma strrchr_Some:
  assumes "c \<noteq> NUL" "strrchr s c = Some i"
  shows "\<exists>l r. s = l @ c # r \<and> c \<notin> set r \<and> i = length l"
proof -
  have "c \<in> set s" using assms strrchr_None [of c s] by auto
  then obtain l r where s: "s = l @ c # r" "c \<notin> set r" by (meson split_list_last)
  with strrchr_split [OF assms(1) s(2), of l] assms(2) show ?thesis by auto
qed

lemma cut_crlf_line [simp]: "cut_crlf (s @ AXIS2_HTTP_CRLF) = s"
  by (simp add: cut_crlf_def CRLF_simps AXIS2_RETURN_def nth_append)

lemma parse_line_fields:
  assumes "mem_ok malloc" "strstr (me @ '' '' @ u @ '' '' @ v @ [CR]) AXIS2_HTTP_CRLF = None" "CHR '' '' \<notin> set me" "CHR '' '' \<notin> set v"
  shows "axis2_http_request_line_parse_line malloc (Some (me @ '' '' @ u @ '' '' @ v @ AXIS2_HTTP_CRLF @ rest)) =
    Inr \<lparr>rl_http_version = Some v, rl_method = Some me, rl_uri = Some u\<rparr>"
proof -
  let ?l = "me @ AXIS2_SPACE # u @ AXIS2_SPACE # v"
  let ?s = "?l @ AXIS2_HTTP_CRLF @ rest"
  have s: "me @ '' '' @ u @ '' '' @ v @ AXIS2_HTTP_CRLF @ rest = ?s" by (simp add: AXIS2_SPACE_def)
  have i: "strstr ?s AXIS2_HTTP_CRLF = Some (length ?l)"
    by (rule strstr_CRLF_append) (use assms(2) in \<open>simp add: AXIS2_SPACE_def\<close>)
  have "strchr ?l AXIS2_SPACE = Some (length me)" "strrchr (u @ AXIS2_SPACE # v) AXIS2_SPACE = Some (length u)"
    using assms(3,4) strchr_split [OF char_facts(1)] strrchr_split [OF char_facts(1)] by (simp_all add: AXIS2_SPACE_def)
  moreover have "take (length ?l) ?s = ?l" by simp
  ultimately show ?thesis
    unfolding s axis2_http_request_line_parse_line_def using i mem_okD [OF assms(1)] assms(1)
    by (simp add: axis2_http_request_line_create_def Let_def del: length_append)
qed

text \<open>The lines \<^verbatim>\<open>axis2_http_request_line_parse_line\<close> accepts are those of a method without spaces, a URI, which may contain
  spaces, and a version without spaces, one space between them, up to the first CRLF; every other line is an invalid start line.\<close>

theorem parse_line_spec:
  assumes "mem_ok malloc"
  shows "(axis2_http_request_line_parse_line malloc (Some s) = Inr rl \<longleftrightarrow>
      (\<exists>m u v rest. s = m @ '' '' @ u @ '' '' @ v @ AXIS2_HTTP_CRLF @ rest \<and> axutil_strstr (m @ '' '' @ u @ '' '' @ v @ [AXIS2_RETURN]) AXIS2_HTTP_CRLF = None \<and>
         CHR '' '' \<notin> set m \<and> CHR '' '' \<notin> set v \<and> rl = \<lparr>rl_http_version = Some v, rl_method = Some m, rl_uri = Some u\<rparr>)) \<and>
    (axis2_http_request_line_parse_line malloc (Some s) = Inl e \<longrightarrow> e = INVALID_HTTP_HEADER_START_LINE)"
proof (intro conjI iffI)
  note m = mem_okD [OF assms]
  assume "axis2_http_request_line_parse_line malloc (Some s) = Inr rl"
  then obtain i j k where i: "strstr s AXIS2_HTTP_CRLF = Some i" and j: "strchr (take i s) AXIS2_SPACE = Some j"
      and k: "strrchr (drop (j + 1) (take i s)) AXIS2_SPACE = Some k"
      and rl: "axis2_http_request_line_create malloc (Some (take j (take i s))) (Some (take k (drop (j + 1) (take i s))))
        (Some (drop (k + 1) (drop (j + 1) (take i s)))) = Inr rl"
    by (auto simp: axis2_http_request_line_parse_line_def Let_def m split: option.splits)
  obtain l r where r: "s = l @ AXIS2_HTTP_CRLF @ r" "i = length l" "strstr (l @ [CR]) AXIS2_HTTP_CRLF = None"
    using strstr_CRLF_cases [OF i] by blast
  obtain me t where t: "l = me @ AXIS2_SPACE # t" "AXIS2_SPACE \<notin> set me" "j = length me"
    using strchr_Some [OF char_facts(1) j] r by auto
  obtain u v where v: "t = u @ AXIS2_SPACE # v" "AXIS2_SPACE \<notin> set v" "k = length u"
    using strrchr_Some [OF char_facts(1) k] r t by auto
  have "rl = \<lparr>rl_http_version = Some v, rl_method = Some me, rl_uri = Some u\<rparr>"
    using rl r t v m assms by (simp add: axis2_http_request_line_create_def)
  then show "\<exists>m u v rest. s = m @ '' '' @ u @ '' '' @ v @ AXIS2_HTTP_CRLF @ rest \<and>
      axutil_strstr (m @ '' '' @ u @ '' '' @ v @ [AXIS2_RETURN]) AXIS2_HTTP_CRLF = None \<and> CHR '' '' \<notin> set m \<and> CHR '' '' \<notin> set v \<and>
      rl = \<lparr>rl_http_version = Some v, rl_method = Some m, rl_uri = Some u\<rparr>"
    using r t v
    by (intro exI [of _ me] exI [of _ u] exI [of _ v] exI [of _ r])
       (simp add: axutil_strstr_def AXIS2_RETURN_def AXIS2_SPACE_def)
next
  assume "\<exists>m u v rest. s = m @ '' '' @ u @ '' '' @ v @ AXIS2_HTTP_CRLF @ rest \<and>
      axutil_strstr (m @ '' '' @ u @ '' '' @ v @ [AXIS2_RETURN]) AXIS2_HTTP_CRLF = None \<and> CHR '' '' \<notin> set m \<and> CHR '' '' \<notin> set v \<and>
      rl = \<lparr>rl_http_version = Some v, rl_method = Some m, rl_uri = Some u\<rparr>"
  then show "axis2_http_request_line_parse_line malloc (Some s) = Inr rl"
    using parse_line_fields [OF assms] by (auto simp: axutil_strstr_def AXIS2_RETURN_def)
next
  show "axis2_http_request_line_parse_line malloc (Some s) = Inl e \<longrightarrow> e = INVALID_HTTP_HEADER_START_LINE"
    by (auto simp: axis2_http_request_line_parse_line_def axis2_http_request_line_create_def Let_def mem_okD [OF assms] split: option.splits)
qed

theorem parse_line_spec_witness:
  "axis2_http_request_line_parse_line (\<lambda>n. True) (Some (''POST /a b HTTP/1.1'' @ AXIS2_HTTP_CRLF @ ''Host: x'')) =
    Inr \<lparr>rl_http_version = Some ''HTTP/1.1'', rl_method = Some ''POST'', rl_uri = Some ''/a b''\<rparr>"
proof -
  have n: "axutil_strstr (''POST'' @ '' '' @ ''/a b'' @ '' '' @ ''HTTP/1.1'' @ [AXIS2_RETURN]) AXIS2_HTTP_CRLF = None" by code_simp
  show ?thesis
    by (rule parse_line_spec [of "\<lambda>n. True", OF mem_ok_True, THEN conjunct1, THEN iffD2],
        rule exI [of _ "''POST''"], rule exI [of _ "''/a b''"], rule exI [of _ "''HTTP/1.1''"], rule exI [of _ "''Host: x''"])
       (use n in simp)
qed

text \<open>What the client prints, the server parses; a URI that does not start with a slash gets one.\<close>

lemma request_line_print:
  assumes "mem_ok malloc" "axis2_http_request_line_create malloc (Some m) (Some u) (Some v) = Inr rl"
  shows "axis2_http_request_line_to_string malloc rl =
    Inr (m @ '' '' @ (if front u = CHR ''/'' then u else CHR ''/'' # u) @ '' '' @ v @ AXIS2_HTTP_CRLF)"
  using assms
  by (auto simp: axis2_http_request_line_create_def axis2_http_request_line_to_string_def Let_def mem_okD axutil_strlen_def
      AXIS2_F_SLASH_def CRLF_simps)

text \<open>A request line printed by \<^verbatim>\<open>axis2_http_request_line_to_string\<close> fits the block allocated for it and is parsed back,
  whatever follows it, up to the slash in front of the URI.\<close>

theorem request_line_roundtrip:
  assumes "mem_ok malloc" "axis2_http_request_line_create malloc (Some m) (Some u) (Some v) = Inr rl"
    and "CHR '' '' \<notin> set m" "CHR '' '' \<notin> set v" "AXIS2_RETURN \<notin> set (m @ u @ v)"
  shows "\<exists>line. axis2_http_request_line_to_string malloc rl = Inr line \<and>
    axis2_http_request_line_parse_line malloc (Some (line @ rest)) =
      Inr (rl\<lparr>rl_uri := Some (if front u = CHR ''/'' then u else CHR ''/'' # u)\<rparr>)"
proof -
  let ?u = "if front u = CHR ''/'' then u else CHR ''/'' # u"
  have rl: "rl = \<lparr>rl_http_version = Some v, rl_method = Some m, rl_uri = Some u\<rparr>"
    using assms(1,2) by (simp add: axis2_http_request_line_create_def mem_okD)
  have "axutil_strstr ((m @ '' '' @ ?u @ '' '' @ v) @ [AXIS2_RETURN]) AXIS2_HTTP_CRLF = None"
    unfolding axutil_strstr_def AXIS2_RETURN_def
    by (rule no_CR_strstr [THEN conjunct2]) (use assms(5) in \<open>auto simp: AXIS2_RETURN_def\<close>)
  then have "axis2_http_request_line_parse_line malloc (Some ((m @ '' '' @ ?u @ '' '' @ v @ AXIS2_HTTP_CRLF) @ rest)) =
      Inr \<lparr>rl_http_version = Some v, rl_method = Some m, rl_uri = Some ?u\<rparr>"
    using assms(3,4) parse_line_fields [OF assms(1), of m ?u v rest]
    by (simp add: axutil_strstr_def AXIS2_RETURN_def split del: if_split)
  then show ?thesis using request_line_print [OF assms(1,2)] rl by auto
qed

theorem request_line_roundtrip_witness:
  "\<exists>line. axis2_http_request_line_to_string (\<lambda>n. True) \<lparr>rl_http_version = Some ''HTTP/1.1'', rl_method = Some ''GET'', rl_uri = Some ''svc''\<rparr> = Inr line \<and>
    axis2_http_request_line_parse_line (\<lambda>n. True) (Some (line @ ''x'')) =
      Inr \<lparr>rl_http_version = Some ''HTTP/1.1'', rl_method = Some ''GET'', rl_uri = Some ''/svc''\<rparr>"
  using request_line_roundtrip [of "\<lambda>n. True" "''GET''" "''svc''" "''HTTP/1.1''"
      "\<lparr>rl_http_version = Some ''HTTP/1.1'', rl_method = Some ''GET'', rl_uri = Some ''svc''\<rparr>" "''x''"]
  by (simp add: axis2_http_request_line_create_def front_def AXIS2_RETURN_def)

lemma header_line_back:
  assumes "mem_ok malloc" "CHR '':'' \<notin> set n"
  shows "\<exists>line. axis2_http_header_to_external_form malloc (Some \<lparr>hdr_name = Some n, hdr_value = Some v\<rparr>) = Inr line \<and>
    axis2_http_header_create_by_str malloc (Some line) = Inr \<lparr>hdr_name = Some n, hdr_value = Some (dropWhile (\<lambda>c. c = CHR '' '') v)\<rparr>"
proof -
  note m = mem_okD [OF assms(1)]
  have cut: "cut_crlf (n @ '': '' @ v @ AXIS2_HTTP_CRLF) = n @ AXIS2_COLON # AXIS2_SPACE # v"
    using cut_crlf_line [of "n @ '': '' @ v"] by (simp add: AXIS2_COLON_def AXIS2_SPACE_def)
  have "strchr (n @ AXIS2_COLON # AXIS2_SPACE # v) AXIS2_COLON = Some (length n)"
    by (rule strchr_split) (use assms(2) in \<open>auto simp: AXIS2_COLON_def NUL_def\<close>)
  then have "axis2_http_header_create_by_str malloc (Some (n @ '': '' @ v @ AXIS2_HTTP_CRLF)) =
      Inr \<lparr>hdr_name = Some n, hdr_value = Some (dropWhile (\<lambda>c. c = CHR '' '') v)\<rparr>"
    unfolding axis2_http_header_create_by_str_def using cut m assms(1)
    by (simp add: axis2_http_header_create_def Let_def AXIS2_SPACE_def)
  moreover have "axis2_http_header_to_external_form malloc (Some \<lparr>hdr_name = Some n, hdr_value = Some v\<rparr>) = Inr (n @ '': '' @ v @ AXIS2_HTTP_CRLF)"
    by (simp add: axis2_http_header_to_external_form_def Let_def m CRLF_simps)
  ultimately show ?thesis by simp
qed

text \<open>A header printed by \<^verbatim>\<open>axis2_http_header_to_external_form\<close> fits the block allocated for it and is read back by
  \<^verbatim>\<open>axis2_http_header_create_by_str\<close>, but for the spaces in front of its value, if its name has no colon; any line without a colon, its
  line end apart, is rejected.\<close>

theorem header_roundtrip:
  assumes "mem_ok malloc"
  shows "(CHR '':'' \<notin> set n \<longrightarrow> (\<exists>line. axis2_http_header_to_external_form malloc (Some \<lparr>hdr_name = Some n, hdr_value = Some v\<rparr>) = Inr line \<and>
      axis2_http_header_create_by_str malloc (Some line) =
        Inr \<lparr>hdr_name = Some n, hdr_value = Some (dropWhile (\<lambda>c. c = CHR '' '') v)\<rparr>)) \<and>
    (CHR '':'' \<notin> set s \<longrightarrow> axis2_http_header_create_by_str malloc (Some (s @ AXIS2_HTTP_CRLF)) = Inl FAILURE_STATUS)"
  using header_line_back [OF assms, of n v] assms
  by (simp add: axis2_http_header_create_by_str_def cut_crlf_line Let_def AXIS2_COLON_def NUL_def)

theorem header_roundtrip_witness:
  "(\<exists>line. axis2_http_header_to_external_form (\<lambda>n. True) (Some \<lparr>hdr_name = Some ''Host'', hdr_value = Some ''a:80''\<rparr>) = Inr line \<and>
      axis2_http_header_create_by_str (\<lambda>n. True) (Some line) = Inr \<lparr>hdr_name = Some ''Host'', hdr_value = Some ''a:80''\<rparr>) \<and>
    axis2_http_header_create_by_str (\<lambda>n. True) (Some (''Host'' @ AXIS2_HTTP_CRLF)) = Inl FAILURE_STATUS"
  using header_roundtrip [of "\<lambda>n. True" "''Host''" "''a:80''" "''Host''"] by simp

text \<open>The parts of a status line; the phrase may contain spaces.\<close>

lemma status_line_fields:
  assumes "mem_ok malloc" "strstr (v @ '' '' @ c @ '' '' @ p @ [CR]) AXIS2_HTTP_CRLF = None" "CHR '' '' \<notin> set v" "CHR '' '' \<notin> set c"
  shows "axis2_http_status_line_create malloc (Some (v @ '' '' @ c @ '' '' @ p @ AXIS2_HTTP_CRLF @ rest)) =
    Inr \<lparr>sl_line = Some (v @ '' '' @ c @ '' '' @ p @ AXIS2_HTTP_CRLF @ rest), sl_http_version = Some v, sl_status_code = Some c,
      sl_reason_phrase = Some p\<rparr>"
proof -
  let ?l = "v @ AXIS2_SPACE # c @ AXIS2_SPACE # p"
  let ?s = "?l @ AXIS2_HTTP_CRLF @ rest"
  have s: "v @ '' '' @ c @ '' '' @ p @ AXIS2_HTTP_CRLF @ rest = ?s" by (simp add: AXIS2_SPACE_def)
  have i: "strstr ?s AXIS2_HTTP_CRLF = Some (length ?l)"
    by (rule strstr_CRLF_append) (use assms(2) in \<open>simp add: AXIS2_SPACE_def\<close>)
  have "strchr ?l AXIS2_SPACE = Some (length v)" "strchr (c @ AXIS2_SPACE # p) AXIS2_SPACE = Some (length c)"
    using assms(3,4) strchr_split [OF char_facts(1)] by (simp_all add: AXIS2_SPACE_def)
  moreover have "take (length ?l) ?s = ?l" by simp
  ultimately show ?thesis
    unfolding s axis2_http_status_line_create_def using i mem_okD [OF assms(1)] assms(1)
    by (simp add: Let_def del: length_append)
qed

end
