(* ===== verification/Util_Stream.thy ===== *)
theory Util_Stream
  imports C_Number
begin

text \<open>
  Streams: \<^verbatim>\<open>util/src/stream.c\<close>, the basic streams in memory and the streams over files and sockets. The read and write
  functions are pointers of a stream; what the users of a stream rely on is stated by the locales
  \<open>byte_source\<close> and \<open>byte_sink\<close>. Basic streams are sinks as long as nothing is read from them, but they
  are no sources: a read returns one byte less than it is asked for.

  A read returns its length, the bytes it stored in the caller's buffer and the stream. The error number set
  beside a length of -1 is not kept.
\<close>

section \<open>Basic streams\<close>

definition AXIS2_STREAM_DEFAULT_BUF_SIZE :: nat where "AXIS2_STREAM_DEFAULT_BUF_SIZE = 2048"

text \<open>
  \<open>bs_block\<close> is the allocated block (\<^verbatim>\<open>buffer_head\<close>), \<open>bs_pos\<close> the offset of \<^verbatim>\<open>buffer\<close> in it.
\<close>

record basic_stream =
  bs_block :: "string option"
  bs_pos :: nat
  bs_len :: int
  bs_max_len :: int

definition sizeof_stream :: nat where "sizeof_stream = 80"

definition axutil_stream_create_basic :: "alloc \<Rightarrow> basic_stream result" where
  "axutil_stream_create_basic malloc =
     (if \<not> malloc sizeof_stream then Inl NO_MEMORY
      else if \<not> malloc AXIS2_STREAM_DEFAULT_BUF_SIZE then Inl FAILURE_STATUS
      else Inr \<lparr>bs_block = Some (replicate AXIS2_STREAM_DEFAULT_BUF_SIZE garbage), bs_pos = 0, bs_len = 0,
        bs_max_len = int AXIS2_STREAM_DEFAULT_BUF_SIZE\<rparr>)"

text \<open>\<^verbatim>\<open>count - 1\<close> is computed as a \<^verbatim>\<open>size_t\<close> and then converted.\<close>

definition axutil_stream_read_basic :: "basic_stream \<Rightarrow> nat \<Rightarrow> (int \<times> string \<times> basic_stream) result" where
  "axutil_stream_read_basic st count =
     (case bs_block st of
        None \<Rightarrow> Inr (-1, [], st)
      | Some b \<Rightarrow>
          let c = int_of_long (int (size_of_int (int count - 1)));
              len = (if c > bs_len st then bs_len st else c)
          in if len < 0 \<or> length b < bs_pos st + nat len then Inl UNDEFINED_BEHAVIOUR
             else Inr (len, take (nat len) (drop (bs_pos st) b),
               st\<lparr>bs_len := bs_len st - len, bs_pos := bs_pos st + nat len\<rparr>))"

definition overwrite :: "nat \<Rightarrow> string \<Rightarrow> string \<Rightarrow> string" where
  "overwrite i bs b = take i b @ bs @ drop (i + length bs) b"

definition axutil_stream_write_basic ::
    "alloc \<Rightarrow> basic_stream \<Rightarrow> string \<Rightarrow> (int \<times> basic_stream) result" where
  "axutil_stream_write_basic malloc st bytes =
     (let count = length bytes;
          new_len = int_of_long (bs_len st + int count);
          grown =
            (if new_len > bs_max_len st then
               if \<not> malloc (size_of_int (new_len + int AXIS2_STREAM_DEFAULT_BUF_SIZE)) then None
               else
                 Some (st\<lparr>bs_max_len := new_len + int AXIS2_STREAM_DEFAULT_BUF_SIZE,
                   bs_block := map_option (\<lambda>b. take (nat (bs_len st)) (drop (bs_pos st) b) @
                     replicate (nat (new_len + int AXIS2_STREAM_DEFAULT_BUF_SIZE) - nat (bs_len st)) garbage) (bs_block st),
                   bs_pos := 0\<rparr>)
             else Some st)
      in case grown of
           None \<Rightarrow> Inr (-1, st)
         | Some st1 \<Rightarrow>
             (case bs_block st1 of
                None \<Rightarrow> Inl UNDEFINED_BEHAVIOUR
              | Some b \<Rightarrow>
                  if length b < bs_pos st1 + nat (bs_len st1) + count then Inl UNDEFINED_BEHAVIOUR
                  else Inr (int_of_long (int count),
                    st1\<lparr>bs_block := Some (overwrite (bs_pos st1 + nat (bs_len st1)) bytes b),
                      bs_len := bs_len st1 + int_of_long (int count)\<rparr>)))"

definition axutil_stream_get_len :: "basic_stream \<Rightarrow> int" where
  "axutil_stream_get_len st = bs_len st"

definition axutil_stream_skip_basic :: "basic_stream \<Rightarrow> int \<Rightarrow> int \<times> basic_stream" where
  "axutil_stream_skip_basic st count =
     (if count > 0 then
        let del_len = (if count \<le> bs_len st then count else bs_len st)
        in (del_len, st\<lparr>bs_len := bs_len st - del_len, bs_pos := nat (int (bs_pos st) + del_len)\<rparr>)
      else (-1, st))"

definition axutil_stream_get_buffer :: "basic_stream \<Rightarrow> string option" where
  "axutil_stream_get_buffer st = map_option (drop (bs_pos st)) (bs_block st)"

definition axutil_stream_flush_buffer :: "basic_stream \<Rightarrow> basic_stream" where
  "axutil_stream_flush_buffer st = st\<lparr>bs_len := 0\<rparr>"

section \<open>Files\<close>

text \<open>A \<^verbatim>\<open>FILE\<close>: the bytes still to be read and those written.\<close>

record c_file =
  file_in :: string
  file_out :: string

text \<open>A stream over a file; \<^verbatim>\<open>fp\<close> may be NULL.\<close>

type_synonym file_stream = "c_file option"

definition axutil_stream_read_file :: "file_stream \<Rightarrow> nat \<Rightarrow> (int \<times> string \<times> file_stream) result" where
  "axutil_stream_read_file st count =
     (case st of
        None \<Rightarrow> Inr (-1, [], st)
      | Some fp \<Rightarrow>
          let bytes = take count (file_in fp)
          in Inr (int_of_long (int (length bytes)), bytes, Some (fp\<lparr>file_in := drop count (file_in fp)\<rparr>)))"

definition axutil_stream_write_file :: "file_stream \<Rightarrow> string \<Rightarrow> (int \<times> file_stream) result" where
  "axutil_stream_write_file st bytes =
     (case st of
        None \<Rightarrow> Inr (-1, st)
      | Some fp \<Rightarrow>
          Inr (int_of_long (int (length bytes)), Some (fp\<lparr>file_out := file_out fp @ bytes\<rparr>)))"

text \<open>The loop calls \<^verbatim>\<open>fgetc\<close> before it looks at the number of bytes left to skip.\<close>

fun skip_file_loop :: "string \<Rightarrow> nat \<Rightarrow> nat \<times> string" where
  "skip_file_loop [] i = (i, [])"
| "skip_file_loop (c # r) 0 = (0, r)"
| "skip_file_loop (c # r) (Suc i) = skip_file_loop r i"

definition axutil_stream_skip_file :: "file_stream \<Rightarrow> int \<Rightarrow> int \<times> file_stream" where
  "axutil_stream_skip_file st count =
     (case st of
        None \<Rightarrow> (-1, st)
      | Some fp \<Rightarrow>
          (case skip_file_loop (file_in fp) (nat count) of
             (i, r) \<Rightarrow> (if count > 0 then count - int i else 0, Some (fp\<lparr>file_in := r\<rparr>))))"

section \<open>Sockets\<close>

text \<open>
  A connected socket: the bytes it delivers until the peer shuts down, how many of them have arrived, how many more arrive before
  each of the next calls (a call waits for at least one; when the list has ended, everything has arrived), and the bytes sent.
\<close>

record c_socket =
  sock_in :: string
  sock_avail :: nat
  sock_pieces :: "nat list"
  sock_out :: string

definition arrived :: "c_socket \<Rightarrow> nat" where
  "arrived s =
     (case sock_pieces s of
        [] \<Rightarrow> length (sock_in s)
      | k # _ \<Rightarrow> min (length (sock_in s)) (max 1 (sock_avail s + k)))"

definition recv_len :: "c_socket \<Rightarrow> nat \<Rightarrow> nat" where
  "recv_len s count = min count (arrived s)"

definition recv :: "c_socket \<Rightarrow> nat \<Rightarrow> int \<times> string \<times> c_socket" where
  "recv s count =
     (let k = recv_len s count
      in (int k, take k (sock_in s),
          s\<lparr>sock_in := drop k (sock_in s), sock_avail := arrived s - k, sock_pieces := tl (sock_pieces s)\<rparr>))"

text \<open>With \<^verbatim>\<open>MSG_PEEK\<close> the bytes stay.\<close>

definition recv_peek :: "c_socket \<Rightarrow> nat \<Rightarrow> int \<times> string \<times> c_socket" where
  "recv_peek s count =
     (let k = recv_len s count
      in (int k, take k (sock_in s), s\<lparr>sock_avail := arrived s, sock_pieces := tl (sock_pieces s)\<rparr>))"

text \<open>A stream over a socket; \<open>None\<close> is the descriptor -1.\<close>

type_synonym socket_stream = "c_socket option"

definition axutil_stream_read_socket :: "socket_stream \<Rightarrow> nat \<Rightarrow> (int \<times> string \<times> socket_stream) result" where
  "axutil_stream_read_socket st count =
     (case st of
        None \<Rightarrow> Inr (-1, [], st)
      | Some s \<Rightarrow> (case recv s (size_of_int (int_of_long (int count))) of (len, bytes, s') \<Rightarrow> Inr (int_of_long len, bytes, Some s')))"

text \<open>A blocking \<^verbatim>\<open>send\<close> of \<^verbatim>\<open>(int)count\<close> bytes; a negative number is a huge \<^verbatim>\<open>size_t\<close>, more than the buffer holds.\<close>

definition axutil_stream_write_socket :: "socket_stream \<Rightarrow> string \<Rightarrow> (int \<times> socket_stream) result" where
  "axutil_stream_write_socket st bytes =
     (case st of
        None \<Rightarrow> Inr (-1, st)
      | Some s \<Rightarrow>
          let n = int_of_long (int (length bytes)) in
          if n < 0 then Inl UNDEFINED_BEHAVIOUR else Inr (n, Some (s\<lparr>sock_out := sock_out s @ take (nat n) bytes\<rparr>)))"

fun skip_socket_loop :: "nat \<Rightarrow> c_socket \<Rightarrow> bool \<times> c_socket" where
  "skip_socket_loop 0 s = (True, s)"
| "skip_socket_loop (Suc n) s =
     (case recv s 1 of (received, _, s') \<Rightarrow> if received \<le> 0 then (False, s') else skip_socket_loop n s')"

definition axutil_stream_skip_socket :: "socket_stream \<Rightarrow> int \<Rightarrow> int \<times> socket_stream" where
  "axutil_stream_skip_socket st count =
     (case st of
        None \<Rightarrow> (-1, st)
      | Some s \<Rightarrow>
          (case skip_socket_loop (nat count) s of
             (all, s') \<Rightarrow> (if all then int (nat count) else -1, Some s')))"

definition axutil_stream_peek_socket :: "socket_stream option \<Rightarrow> nat \<Rightarrow> int \<times> string \<times> socket_stream option" where
  "axutil_stream_peek_socket p count =
     (case p of
        Some (Some s) \<Rightarrow> (case recv_peek s count of (len, bytes, s') \<Rightarrow> (int_of_long len, bytes, Some (Some s')))
      | _ \<Rightarrow> (-1, [], p))"

section \<open>Sources and sinks\<close>

text \<open>
  A source gives at least one byte of its contents, and no more than asked for, as long as there are any.
  A sink takes all the bytes it is given, up to a total of \<open>cap\<close>.
\<close>

locale byte_source =
  fixes rd :: "'s \<Rightarrow> nat \<Rightarrow> (int \<times> string \<times> 's) result"
    and ready :: "'s \<Rightarrow> bool"
    and contents :: "'s \<Rightarrow> string"
  assumes rd_some: "ready s \<Longrightarrow> 0 < n \<Longrightarrow> n < 2 ^ 31 \<Longrightarrow> contents s \<noteq> [] \<Longrightarrow>
      \<exists>k s'. 0 < k \<and> k \<le> n \<and> k \<le> length (contents s) \<and> rd s n = Inr (int k, take k (contents s), s') \<and>
        contents s' = drop k (contents s) \<and> ready s'"
    and rd_none: "ready s \<Longrightarrow> n < 2 ^ 31 \<Longrightarrow> n = 0 \<or> contents s = [] \<Longrightarrow>
      \<exists>s'. rd s n = Inr (0, [], s') \<and> contents s' = contents s \<and> ready s'"
begin

text \<open>A single byte is given, if there is one.\<close>

lemma rd_byte: "ready s \<Longrightarrow> contents s = c # r \<Longrightarrow> \<exists>s'. rd s 1 = Inr (1, [c], s') \<and> contents s' = r \<and> ready s'"
  using rd_some [of s 1] by (auto simp: le_Suc_eq)

end

locale byte_sink =
  fixes wr :: "'s \<Rightarrow> string \<Rightarrow> (int \<times> 's) result"
    and ready :: "'s \<Rightarrow> bool"
    and written :: "'s \<Rightarrow> string"
    and cap :: nat
  assumes wr_all: "ready s \<Longrightarrow> length (written s @ bytes) < cap \<Longrightarrow>
      \<exists>s'. wr s bytes = Inr (int (length bytes), s') \<and> written s' = written s @ bytes \<and> ready s'"

lemma int_of_long_id [simp]: "0 \<le> n \<Longrightarrow> n < 2 ^ 31 \<Longrightarrow> int_of_long n = n"
  by (simp add: int_of_long_def)

lemma size_of_int_id [simp]: "0 \<le> n \<Longrightarrow> n < 2 ^ 64 \<Longrightarrow> size_of_int n = nat n"
  by (simp add: size_of_int_def)

interpretation file_source: byte_source axutil_stream_read_file "\<lambda>st. st \<noteq> None" "\<lambda>st. file_in (the st)"
proof unfold_locales
  fix s :: file_stream and n :: nat
  assume s: "s \<noteq> None" and n: "n < 2 ^ 31"
  then obtain fp where fp: "s = Some fp" by blast
  have len: "int (length (take n (file_in fp))) < 2 ^ 31" using n by simp
  show "\<exists>k s'. 0 < k \<and> k \<le> n \<and> k \<le> length (file_in (the s)) \<and>
      axutil_stream_read_file s n = Inr (int k, take k (file_in (the s)), s') \<and>
      file_in (the s') = drop k (file_in (the s)) \<and> s' \<noteq> None" if "0 < n" "file_in (the s) \<noteq> []"
    by (rule exI [of _ "min n (length (file_in fp))"])
       (use that fp len in \<open>auto simp: axutil_stream_read_file_def Let_def min_def\<close>)
  show "\<exists>s'. axutil_stream_read_file s n = Inr (0, [], s') \<and> file_in (the s') = file_in (the s) \<and> s' \<noteq> None"
    if "n = 0 \<or> file_in (the s) = []"
    using that fp by (auto simp: axutil_stream_read_file_def Let_def)
qed

interpretation socket_source: byte_source axutil_stream_read_socket "\<lambda>st. st \<noteq> None" "\<lambda>st. sock_in (the st)"
proof unfold_locales
  fix s :: socket_stream and n :: nat
  assume s: "s \<noteq> None" and n: "n < 2 ^ 31"
  then obtain c where c: "s = Some c" by blast
  have k: "recv_len c n \<le> n" "recv_len c n \<le> length (sock_in c)"
    by (auto simp: recv_len_def arrived_def split: list.splits)
  show "\<exists>k s'. 0 < k \<and> k \<le> n \<and> k \<le> length (sock_in (the s)) \<and>
      axutil_stream_read_socket s n = Inr (int k, take k (sock_in (the s)), s') \<and>
      sock_in (the s') = drop k (sock_in (the s)) \<and> s' \<noteq> None" if "0 < n" "sock_in (the s) \<noteq> []"
  proof (rule exI [of _ "recv_len c n"])
    have "0 < recv_len c n" using that c by (auto simp: recv_len_def arrived_def split: list.splits)
    with k c n show "\<exists>s'. 0 < recv_len c n \<and> recv_len c n \<le> n \<and> recv_len c n \<le> length (sock_in (the s)) \<and>
        axutil_stream_read_socket s n = Inr (int (recv_len c n), take (recv_len c n) (sock_in (the s)), s') \<and>
        sock_in (the s') = drop (recv_len c n) (sock_in (the s)) \<and> s' \<noteq> None"
      by (simp add: axutil_stream_read_socket_def recv_def Let_def)
  qed
  show "\<exists>s'. axutil_stream_read_socket s n = Inr (0, [], s') \<and> sock_in (the s') = sock_in (the s) \<and> s' \<noteq> None"
    if "n = 0 \<or> sock_in (the s) = []"
  proof -
    have "recv_len c n = 0" using that c by (auto simp: recv_len_def arrived_def split: list.splits)
    then show ?thesis using c n by (simp add: axutil_stream_read_socket_def recv_def Let_def)
  qed
qed

interpretation file_sink: byte_sink axutil_stream_write_file "\<lambda>st. st \<noteq> None" "\<lambda>st. file_out (the st)" "2 ^ 31"
  by unfold_locales (auto simp: axutil_stream_write_file_def)

lemma write_socket_all:
  "length bytes < 2 ^ 31 \<Longrightarrow>
    axutil_stream_write_socket (Some s) bytes = Inr (int (length bytes), Some (s\<lparr>sock_out := sock_out s @ bytes\<rparr>))"
  by (simp add: axutil_stream_write_socket_def)

interpretation socket_sink: byte_sink axutil_stream_write_socket "\<lambda>st. st \<noteq> None" "\<lambda>st. sock_out (the st)" "2 ^ 31"
  by unfold_locales (auto simp: write_socket_all)

section \<open>Basic streams as sinks\<close>

text \<open>
  What holds of every stream that is created, written, read and skipped: the unread bytes lie in the block. The
  length of the block is \<open>bs_max_len\<close>, whatever part of it has been read.
\<close>

definition basic_inv :: "basic_stream \<Rightarrow> bool" where
  "basic_inv st =
     (case bs_block st of
        None \<Rightarrow> False
      | Some b \<Rightarrow> int (length b) = bs_max_len st \<and> 0 \<le> bs_len st \<and> int (bs_pos st) + bs_len st \<le> bs_max_len st \<and>
          bs_max_len st < 2 ^ 31)"

definition unread :: "basic_stream \<Rightarrow> string" where
  "unread st = take (nat (bs_len st)) (drop (bs_pos st) (the (bs_block st)))"

lemma length_unread: "basic_inv st \<Longrightarrow> int (length (unread st)) = bs_len st"
  by (auto simp: basic_inv_def unread_def split: option.splits)

lemma create_basic_inv: "axutil_stream_create_basic malloc = Inr st \<Longrightarrow> basic_inv st \<and> unread st = [] \<and> bs_pos st = 0"
  by (auto simp: axutil_stream_create_basic_def basic_inv_def unread_def AXIS2_STREAM_DEFAULT_BUF_SIZE_def split: if_splits)

lemma overwrite_end: "n \<le> length b \<Longrightarrow> n + length bs \<le> length b \<Longrightarrow>
    take (k + length bs) (drop i (overwrite n bs b)) = take k (drop i b) @ bs" if "n = i + k"
  using that by (cases "length b = i + k") (auto simp: overwrite_def min_def drop_take)

lemma length_overwrite [simp]: "i + length bs \<le> length b \<Longrightarrow> length (overwrite i bs b) = length b"
  by (simp add: overwrite_def)

text \<open>
  A write makes a larger block when the unread bytes and the new ones need more than \<open>bs_max_len\<close>; the bytes
  already read are not counted, though they stay in the block. So it writes behind the block
  exactly when the read bytes are needed as well.
\<close>

lemma write_basic_grow:
  assumes inv: "basic_inv st" and new: "bs_len st + int (length bytes) < 2 ^ 31 - 2048"
    and grow: "bs_max_len st < bs_len st + int (length bytes)" and mem: "mem_ok malloc"
  shows "\<exists>st'. axutil_stream_write_basic malloc st bytes = Inr (int (length bytes), st') \<and> basic_inv st' \<and>
    bs_pos st' = 0 \<and> unread st' = unread st @ bytes"
proof -
  obtain b where b: "bs_block st = Some b" using inv by (auto simp: basic_inv_def split: option.splits)
  let ?n = "nat (bs_len st)"
  let ?b = "unread st @ replicate (nat (bs_len st + int (length bytes) + 2048) - ?n) garbage"
  have l: "length (unread st) = ?n" "0 \<le> bs_len st" using length_unread [OF inv] by auto
  have u: "take ?n (drop (bs_pos st) b) = unread st" by (simp add: unread_def b)
  have lb: "length ?b = nat (bs_len st + int (length bytes) + 2048)" using l by simp
  have w: "axutil_stream_write_basic malloc st bytes = Inr (int (length bytes),
      \<lparr>bs_block = Some (overwrite ?n bytes ?b), bs_pos = 0, bs_len = bs_len st + int (length bytes),
       bs_max_len = bs_len st + int (length bytes) + 2048\<rparr>)" (is "_ = Inr (_, ?st')")
    using new grow l lb b u mem_okD [OF mem]
    by (simp add: axutil_stream_write_basic_def Let_def AXIS2_STREAM_DEFAULT_BUF_SIZE_def)
  have "basic_inv ?st'" using new l lb by (simp add: basic_inv_def)
  moreover have "unread ?st' = unread st @ bytes"
  proof -
    have "take (?n + length bytes) (drop 0 (overwrite ?n bytes ?b)) = take ?n (drop 0 ?b) @ bytes"
      by (rule overwrite_end) (use l lb in auto)
    then show ?thesis using l by (simp add: unread_def nat_add_distrib)
  qed
  ultimately show ?thesis using w by simp
qed

lemma write_basic_fit:
  assumes inv: "basic_inv st" and fit: "int (bs_pos st) + bs_len st + int (length bytes) \<le> bs_max_len st"
  shows "\<exists>st'. axutil_stream_write_basic malloc st bytes = Inr (int (length bytes), st') \<and> basic_inv st' \<and>
    bs_pos st' = bs_pos st \<and> unread st' = unread st @ bytes"
proof -
  obtain b where b: "bs_block st = Some b" using inv by (auto simp: basic_inv_def split: option.splits)
  let ?n = "nat (bs_len st)"
  have i: "int (length b) = bs_max_len st" "0 \<le> bs_len st" "bs_max_len st < 2 ^ 31" using inv b by (auto simp: basic_inv_def)
  let ?st' = "st\<lparr>bs_block := Some (overwrite (bs_pos st + ?n) bytes b), bs_len := bs_len st + int (length bytes)\<rparr>"
  have "axutil_stream_write_basic malloc st bytes = Inr (int (length bytes), ?st')"
    using fit i b by (simp add: axutil_stream_write_basic_def Let_def)
  moreover have "basic_inv ?st'" using fit i by (simp add: basic_inv_def)
  moreover have "unread ?st' = unread st @ bytes"
  proof -
    have "take (?n + length bytes) (drop (bs_pos st) (overwrite (bs_pos st + ?n) bytes b)) = take ?n (drop (bs_pos st) b) @ bytes"
      by (rule overwrite_end) (use i fit in auto)
    then show ?thesis using i by (simp add: unread_def b nat_add_distrib)
  qed
  ultimately show ?thesis by simp
qed

interpretation basic_sink: byte_sink "axutil_stream_write_basic (\<lambda>n. True)" "\<lambda>st. basic_inv st \<and> bs_pos st = 0" unread "2 ^ 31 - 2048"
proof unfold_locales
  fix s :: basic_stream and bytes
  assume s: "basic_inv s \<and> bs_pos s = 0" and cap: "length (unread s @ bytes) < 2 ^ 31 - 2048"
  have c: "bs_len s + int (length bytes) < 2 ^ 31 - 2048" using cap length_unread [of s] s by simp
  show "\<exists>s'. axutil_stream_write_basic (\<lambda>n. True) s bytes = Inr (int (length bytes), s') \<and> unread s' = unread s @ bytes \<and>
      basic_inv s' \<and> bs_pos s' = 0"
    using write_basic_grow [of s bytes "\<lambda>n. True"] write_basic_fit [of s bytes "\<lambda>n. True"] s c
    by (cases "bs_max_len s < bs_len s + int (length bytes)") auto
qed

text \<open>A write to a basic stream appends its bytes to the unread ones, growing the block where they do not fit, unless
  the bytes already read take the room: then, and only then, it writes outside the block.\<close>

theorem write_basic_spec:
  assumes "basic_inv st" "bs_len st + int (length bytes) < 2 ^ 31 - 2048" "mem_ok malloc"
  shows "if bs_len st + int (length bytes) \<le> bs_max_len st \<and> bs_max_len st < int (bs_pos st) + bs_len st + int (length bytes)
    then axutil_stream_write_basic malloc st bytes = Inl UNDEFINED_BEHAVIOUR
    else \<exists>st'. axutil_stream_write_basic malloc st bytes = Inr (int (length bytes), st') \<and> basic_inv st' \<and>
      unread st' = unread st @ bytes"
proof (cases "bs_len st + int (length bytes) \<le> bs_max_len st \<and> bs_max_len st < int (bs_pos st) + bs_len st + int (length bytes)")
  case True
  then show ?thesis using assms(1)
    by (auto simp: axutil_stream_write_basic_def Let_def basic_inv_def split: option.splits)
next
  case False
  then consider "bs_max_len st < bs_len st + int (length bytes)" | "int (bs_pos st) + bs_len st + int (length bytes) \<le> bs_max_len st"
    by linarith
  then show ?thesis
    by cases (use False write_basic_grow [OF assms(1,2) _ assms(3)] write_basic_fit [OF assms(1), of bytes malloc] in auto)
qed

theorem write_basic_spec_witness:
  "(\<exists>st'. axutil_stream_write_basic (\<lambda>n. True)
      \<lparr>bs_block = Some (replicate 2048 (CHR ''x'')), bs_pos = 0, bs_len = 3, bs_max_len = 2048\<rparr> ''ab'' = Inr (2, st') \<and>
      basic_inv st' \<and> unread st' = ''xxxab'') \<and>
    axutil_stream_write_basic (\<lambda>n. True)
      \<lparr>bs_block = Some (replicate 2048 (CHR ''x'')), bs_pos = 2000, bs_len = 47, bs_max_len = 2048\<rparr> ''ab'' = Inl UNDEFINED_BEHAVIOUR"
  using write_basic_spec [of "\<lparr>bs_block = Some (replicate 2048 (CHR ''x'')), bs_pos = 0, bs_len = 3, bs_max_len = 2048\<rparr>" "''ab''" "\<lambda>n. True"]
    write_basic_spec [of "\<lparr>bs_block = Some (replicate 2048 (CHR ''x'')), bs_pos = 2000, bs_len = 47, bs_max_len = 2048\<rparr>" "''ab''" "\<lambda>n. True"]
  by (simp add: basic_inv_def unread_def numeral_3_eq_3)

text \<open>A read gives one byte less than it is asked for, and keeps the rest.\<close>

lemma read_basic_spec:
  assumes "basic_inv st" "0 < n" "n < 2 ^ 31"
  shows "\<exists>st'. axutil_stream_read_basic st n = Inr (int (min (n - 1) (nat (bs_len st))), take (n - 1) (unread st), st') \<and>
    basic_inv st' \<and> unread st' = drop (n - 1) (unread st)"
  using assms
  by (auto simp: axutil_stream_read_basic_def Let_def basic_inv_def unread_def min_def drop_take of_nat_diff nat_diff_distrib
      nat_add_distrib algebra_simps split: option.splits)

text \<open>A skip of a positive number of bytes.\<close>

lemma skip_basic_spec:
  assumes "basic_inv st" "0 < n"
  shows "basic_inv (snd (axutil_stream_skip_basic st n)) \<and> fst (axutil_stream_skip_basic st n) = min n (bs_len st) \<and>
    unread (snd (axutil_stream_skip_basic st n)) = drop (nat n) (unread st)"
  using assms
  by (auto simp: axutil_stream_skip_basic_def Let_def basic_inv_def unread_def min_def drop_take nat_diff_distrib nat_add_distrib
      add.commute split: option.splits)

text \<open>Skipping in a file takes one byte more than it reports, where there is one.\<close>

lemma skip_file_extra:
  assumes "0 \<le> n" "nat n < length (file_in fp)"
  shows "axutil_stream_skip_file (Some fp) n = (n, Some (fp\<lparr>file_in := drop (nat n + 1) (file_in fp)\<rparr>))"
proof -
  have "skip_file_loop s k = (0, drop (Suc k) s)" if "k < length s" for s k
    using that by (induction s k rule: skip_file_loop.induct) auto
  then show ?thesis using assms by (auto simp: axutil_stream_skip_file_def)
qed

end
