(* ===== verification/Http_Message.thy ===== *)
theory Http_Message
  imports Http_Lines Util_Stream Hash_Map Array_List
begin

text \<open>
  HTTP messages: \<^verbatim>\<open>http_simple_request.c\<close> and \<^verbatim>\<open>http_simple_response.c\<close> under \<^verbatim>\<open>src/core/transport/http/common\<close>. A message has its
  first line, a group of headers, which is an array list or NULL, and a stream. The stream is of any type; the functions that
  create and use one take its operations as arguments. A header belongs to one group and is a value of it.
\<close>

section \<open>Groups of headers\<close>

text \<open>The loops that look for a header by its name, without regard to case: the index and the header of the first one.\<close>

function find_header_loop :: "string \<Rightarrow> http_header array_list \<Rightarrow> int \<Rightarrow> int \<Rightarrow> (int \<times> http_header) option result" where
  "find_header_loop str header_group hdr_count i =
     (if i < hdr_count then
        res_bind (axutil_array_list_get (Some header_group) i) (\<lambda>tmp_header.
          case tmp_header of
            None \<Rightarrow> Inl UNDEFINED_BEHAVIOUR
          | Some h \<Rightarrow>
              (case axis2_http_header_get_name h of
                 None \<Rightarrow> Inl UNDEFINED_BEHAVIOUR
               | Some tmp_name \<Rightarrow>
                   if axutil_strcasecmp str tmp_name = 0 then Inr (Some (i, h))
                   else find_header_loop str header_group hdr_count (i + 1)))
      else Inr None)"
  by pat_completeness auto
termination
  by (relation "measure (\<lambda>(str, g, hdr_count, i). nat (hdr_count - i))") auto

declare find_header_loop.simps [simp del]

definition find_header :: "string \<Rightarrow> http_header array_list \<Rightarrow> (int \<times> http_header) option result" where
  "find_header str header_group = find_header_loop str header_group (axutil_array_list_size (Some header_group)) 0"

text \<open>The loop of the create functions; the answer of \<^verbatim>\<open>axutil_array_list_add\<close> is not looked at.\<close>

definition add_headers ::
    "alloc \<Rightarrow> http_header array_list option \<Rightarrow> http_header option list \<Rightarrow> http_header array_list option" where
  "add_headers malloc g hs =
     foldl (\<lambda>g h. case axutil_array_list_add malloc g h of Inl _ \<Rightarrow> g | Inr g' \<Rightarrow> Some g') g hs"

definition new_headers ::
    "alloc \<Rightarrow> http_header option list option \<Rightarrow> nat \<Rightarrow> http_header array_list option result" where
  "new_headers malloc http_headers hdr_count =
     (case http_headers of
        None \<Rightarrow> Inr None
      | Some hs \<Rightarrow>
          if hdr_count = 0 then Inr None
          else if length hs < hdr_count then Inl UNDEFINED_BEHAVIOUR
          else Inr (add_headers malloc (case axutil_array_list_create malloc (int hdr_count) of Inl _ \<Rightarrow> None | Inr g \<Rightarrow> Some g)
            (take hdr_count hs)))"

section \<open>Requests\<close>

record 'st simple_request =
  req_line :: "http_request_line option"
  req_header_group :: "http_header array_list option"
  req_stream :: "'st option"
  req_owns_stream :: bool

definition sizeof_simple_request :: nat where "sizeof_simple_request = 32"

text \<open>\<open>new_stream\<close> is the outcome of \<^verbatim>\<open>axutil_stream_create_basic\<close>.\<close>

definition axis2_http_simple_request_create ::
    "alloc \<Rightarrow> 'st result \<Rightarrow> http_request_line option \<Rightarrow> http_header option list option \<Rightarrow> nat \<Rightarrow> 'st option \<Rightarrow>
     'st simple_request result" where
  "axis2_http_simple_request_create malloc new_stream request_line http_headers http_hdr_count content =
     (if \<not> malloc sizeof_simple_request then Inl NO_MEMORY
      else
        case (case content of Some st \<Rightarrow> Inr (st, False) | None \<Rightarrow> map_sum id (\<lambda>st. (st, True)) new_stream) of
          Inl _ \<Rightarrow> Inl NO_MEMORY
        | Inr (st, owns) \<Rightarrow>
            res_bind (new_headers malloc http_headers http_hdr_count) (\<lambda>g.
              Inr \<lparr>req_line = request_line, req_header_group = g, req_stream = Some st, req_owns_stream = owns\<rparr>))"

definition axis2_http_simple_request_get_request_line :: "'st simple_request \<Rightarrow> http_request_line option" where
  "axis2_http_simple_request_get_request_line r = req_line r"

definition axis2_http_simple_request_set_request_line ::
    "'st simple_request \<Rightarrow> http_request_line option \<Rightarrow> 'st simple_request result" where
  "axis2_http_simple_request_set_request_line r rl =
     (if rl = None then Inl INVALID_NULL_PARAM else Inr (r\<lparr>req_line := rl\<rparr>))"

definition axis2_http_simple_request_contains_header :: "'st simple_request \<Rightarrow> string option \<Rightarrow> bool result" where
  "axis2_http_simple_request_contains_header r name =
     (case name of
        None \<Rightarrow> Inl INVALID_NULL_PARAM
      | Some n \<Rightarrow>
          (case req_header_group r of
             None \<Rightarrow> Inr False
           | Some g \<Rightarrow> if axutil_array_list_size (Some g) = 0 then Inr False
               else res_bind (find_header n g) (\<lambda>f. Inr (f \<noteq> None))))"

definition axis2_http_simple_request_get_headers :: "'st simple_request \<Rightarrow> http_header array_list option" where
  "axis2_http_simple_request_get_headers r = req_header_group r"

definition axis2_http_simple_request_get_first_header :: "'st simple_request \<Rightarrow> string option \<Rightarrow> http_header option result" where
  "axis2_http_simple_request_get_first_header r str =
     (case str of
        None \<Rightarrow> Inl INVALID_NULL_PARAM
      | Some s \<Rightarrow>
          (case req_header_group r of
             None \<Rightarrow> Inr None
           | Some g \<Rightarrow> if axutil_array_list_size (Some g) = 0 then Inr None
               else res_bind (find_header s g) (\<lambda>f. Inr (map_option snd f))))"

text \<open>Only the first header with the name is removed.\<close>

definition remove_first :: "string \<Rightarrow> http_header array_list \<Rightarrow> http_header array_list result" where
  "remove_first str g =
     res_bind (find_header str g) (\<lambda>f.
       case f of
         None \<Rightarrow> Inr g
       | Some (i, h) \<Rightarrow> (case axutil_array_list_remove (Some g) i of Inl _ \<Rightarrow> Inr g | Inr (_, g') \<Rightarrow> Inr g'))"

definition axis2_http_simple_request_remove_headers :: "'st simple_request \<Rightarrow> string option \<Rightarrow> 'st simple_request result" where
  "axis2_http_simple_request_remove_headers r str =
     (case str of
        None \<Rightarrow> Inl INVALID_NULL_PARAM
      | Some s \<Rightarrow>
          (case req_header_group r of
             None \<Rightarrow> Inr r
           | Some g \<Rightarrow> res_bind (remove_first s g) (\<lambda>g'. Inr (r\<lparr>req_header_group := Some g'\<rparr>))))"

text \<open>A group that cannot be created stays NULL, which the next call reports.\<close>

definition axis2_http_simple_request_add_header ::
    "alloc \<Rightarrow> 'st simple_request \<Rightarrow> http_header option \<Rightarrow> 'st simple_request result" where
  "axis2_http_simple_request_add_header malloc r header =
     (if header = None then Inl INVALID_NULL_PARAM
      else
        let g = (case req_header_group r of
                   Some g \<Rightarrow> Some g
                 | None \<Rightarrow> (case axutil_array_list_create malloc 1 of Inl _ \<Rightarrow> None | Inr g \<Rightarrow> Some g))
        in res_bind (axutil_array_list_add malloc g header) (\<lambda>g'. Inr (r\<lparr>req_header_group := Some g'\<rparr>)))"

definition AXIS2_HTTP_HEADER_CONTENT_TYPE :: string where "AXIS2_HTTP_HEADER_CONTENT_TYPE = ''Content-Type''"
definition AXIS2_HTTP_HEADER_CONTENT_LENGTH :: string where "AXIS2_HTTP_HEADER_CONTENT_LENGTH = ''Content-Length''"
definition AXIS2_HTTP_HEADER_ACCEPT_TEXT_PLAIN :: string where "AXIS2_HTTP_HEADER_ACCEPT_TEXT_PLAIN = ''text/plain''"
definition AXIS2_HTTP_CHAR_SET_ENCODING :: string where "AXIS2_HTTP_CHAR_SET_ENCODING = ''charset''"
definition AXIS2_HTTP_DEFAULT_CONTENT_CHARSET :: string where "AXIS2_HTTP_DEFAULT_CONTENT_CHARSET = ''ISO-8859-1''"

text \<open>What the three content functions of both files do with the header they have found.\<close>

definition type_of_header :: "http_header option \<Rightarrow> string option" where
  "type_of_header h = (case h of Some h \<Rightarrow> axis2_http_header_get_value h | None \<Rightarrow> Some AXIS2_HTTP_HEADER_ACCEPT_TEXT_PLAIN)"

text \<open>The result starts with the equals sign; it is NULL when there is none.\<close>

definition charset_of_header :: "http_header option \<Rightarrow> string option result" where
  "charset_of_header h =
     (case h of
        None \<Rightarrow> Inr (Some AXIS2_HTTP_DEFAULT_CONTENT_CHARSET)
      | Some h \<Rightarrow>
          (case axis2_http_header_get_value h of
             None \<Rightarrow> Inl UNDEFINED_BEHAVIOUR
           | Some value \<Rightarrow>
               (case strstr value AXIS2_HTTP_CHAR_SET_ENCODING of
                  None \<Rightarrow> Inr (Some AXIS2_HTTP_DEFAULT_CONTENT_CHARSET)
                | Some i \<Rightarrow> let charset = drop i value in
                    Inr (map_option (\<lambda>k. drop k charset) (strchr charset (CHR ''=''))))))"

text \<open>The result type is \<^verbatim>\<open>axis2_ssize_t\<close>, which is \<^verbatim>\<open>unsigned int\<close>.\<close>

definition length_of_header :: "http_header option \<Rightarrow> int result" where
  "length_of_header h =
     (case h of
        None \<Rightarrow> Inr (-1 mod 2 ^ 32)
      | Some h \<Rightarrow>
          (case axis2_http_header_get_value h of
             None \<Rightarrow> Inl UNDEFINED_BEHAVIOUR
           | Some value \<Rightarrow> res_bind (axutil_atoi value) (\<lambda>n. Inr (n mod 2 ^ 32))))"

definition axis2_http_simple_request_get_content_type :: "'st simple_request \<Rightarrow> string option result" where
  "axis2_http_simple_request_get_content_type r =
     res_bind (axis2_http_simple_request_get_first_header r (Some AXIS2_HTTP_HEADER_CONTENT_TYPE)) (\<lambda>h. Inr (type_of_header h))"

definition axis2_http_simple_request_get_charset :: "'st simple_request \<Rightarrow> string option result" where
  "axis2_http_simple_request_get_charset r =
     res_bind (axis2_http_simple_request_get_first_header r (Some AXIS2_HTTP_HEADER_CONTENT_TYPE)) charset_of_header"

definition axis2_http_simple_request_get_content_length :: "'st simple_request \<Rightarrow> int result" where
  "axis2_http_simple_request_get_content_length r =
     res_bind (axis2_http_simple_request_get_first_header r (Some AXIS2_HTTP_HEADER_CONTENT_LENGTH)) length_of_header"

definition axis2_http_simple_request_get_body :: "'st simple_request \<Rightarrow> 'st option" where
  "axis2_http_simple_request_get_body r = req_stream r"

text \<open>The answer of the write is not looked at.\<close>

definition axis2_http_simple_request_set_body_string ::
    "'st result \<Rightarrow> ('st \<Rightarrow> string \<Rightarrow> (int \<times> 'st) result) \<Rightarrow> 'st simple_request \<Rightarrow> string option \<Rightarrow> 'st simple_request result" where
  "axis2_http_simple_request_set_body_string new_stream wr r str =
     (case str of
        None \<Rightarrow> Inl INVALID_NULL_PARAM
      | Some s \<Rightarrow>
          res_bind (case req_stream r of
              Some st \<Rightarrow> Inr (st, req_owns_stream r)
            | None \<Rightarrow> (case new_stream of Inl _ \<Rightarrow> Inl FAILURE_STATUS | Inr st \<Rightarrow> Inr (st, True)))
            (\<lambda>(st, owns). res_bind (wr st s) (\<lambda>(_, st').
              Inr (r\<lparr>req_stream := Some st', req_owns_stream := owns\<rparr>))))"

section \<open>Responses\<close>

record 'st simple_response =
  rsp_status_line :: "http_status_line option"
  rsp_header_group :: "http_header array_list option"
  rsp_stream :: "'st option"

definition sizeof_simple_response :: nat where "sizeof_simple_response = 40"

definition axis2_http_simple_response_create_default :: "alloc \<Rightarrow> 'st simple_response result" where
  "axis2_http_simple_response_create_default malloc =
     (if \<not> malloc sizeof_simple_response then Inl NO_MEMORY
      else Inr \<lparr>rsp_status_line = None, rsp_header_group = None, rsp_stream = None\<rparr>)"

definition axis2_http_simple_response_create ::
    "alloc \<Rightarrow> http_status_line option \<Rightarrow> http_header option list option \<Rightarrow> nat \<Rightarrow> 'st option \<Rightarrow> 'st simple_response result" where
  "axis2_http_simple_response_create malloc status_line http_headers http_hdr_count content =
     res_bind (axis2_http_simple_response_create_default malloc) (\<lambda>r.
     res_bind (new_headers malloc http_headers http_hdr_count) (\<lambda>g.
       Inr (r\<lparr>rsp_status_line := status_line, rsp_header_group := g, rsp_stream := content\<rparr>)))"

text \<open>The conversion \<^verbatim>\<open>%3d\<close>.\<close>

definition print_int3 :: "int \<Rightarrow> string" where
  "print_int3 n = replicate (3 - length (print_int n)) (CHR '' '') @ print_int n"

text \<open>
  A block that was not allocated is written to all the same. When the line cannot be parsed, the text just freed
  is printed in the message of the log.
\<close>

definition axis2_http_simple_response_set_status_line ::
    "alloc \<Rightarrow> 'st simple_response \<Rightarrow> string option \<Rightarrow> int \<Rightarrow> string option \<Rightarrow> 'st simple_response result" where
  "axis2_http_simple_response_set_status_line malloc r http_ver status_code phrase =
     (case (http_ver, phrase) of
        (Some v, Some p) \<Rightarrow>
          if status_code = 0 then Inl INVALID_NULL_PARAM
          else
            let size = (length v + length p + 8) * sizeof_ptr;
                text = v @ '' '' @ print_int3 status_code @ '' '' @ p @ AXIS2_HTTP_CRLF
            in if \<not> malloc size \<or> size < length text + 1 then Inl UNDEFINED_BEHAVIOUR
               else
                 (case axis2_http_status_line_create malloc (Some text) of
                    Inl _ \<Rightarrow> Inl UNDEFINED_BEHAVIOUR
                  | Inr sl \<Rightarrow> Inr (r\<lparr>rsp_status_line := Some sl\<rparr>))
      | _ \<Rightarrow> Inl INVALID_NULL_PARAM)"

definition axis2_http_simple_response_get_phrase :: "'st simple_response \<Rightarrow> string option" where
  "axis2_http_simple_response_get_phrase r =
     (case rsp_status_line r of None \<Rightarrow> None | Some sl \<Rightarrow> axis2_http_status_line_get_reason_phrase sl)"

definition axis2_http_simple_response_get_status_code :: "'st simple_response \<Rightarrow> int result" where
  "axis2_http_simple_response_get_status_code r =
     (case rsp_status_line r of None \<Rightarrow> Inr (-1) | Some sl \<Rightarrow> axis2_http_status_line_get_status_code sl)"

definition axis2_http_simple_response_get_http_version :: "'st simple_response \<Rightarrow> string option" where
  "axis2_http_simple_response_get_http_version r =
     (case rsp_status_line r of None \<Rightarrow> None | Some sl \<Rightarrow> axis2_http_status_line_get_http_version sl)"

definition axis2_http_simple_response_set_http_version ::
    "alloc \<Rightarrow> 'st simple_response \<Rightarrow> string option \<Rightarrow> 'st simple_response result" where
  "axis2_http_simple_response_set_http_version malloc r http_version =
     (case rsp_status_line r of
        None \<Rightarrow> Inl FAILURE_STATUS
      | Some sl \<Rightarrow> Inr (r\<lparr>rsp_status_line := Some (axis2_http_status_line_set_http_version malloc sl http_version)\<rparr>))"

definition axis2_http_simple_response_get_status_line :: "'st simple_response \<Rightarrow> string option" where
  "axis2_http_simple_response_get_status_line r =
     (case rsp_status_line r of None \<Rightarrow> None | Some sl \<Rightarrow> axis2_http_status_line_to_string sl)"

definition axis2_http_simple_response_get_headers :: "'st simple_response \<Rightarrow> http_header array_list option" where
  "axis2_http_simple_response_get_headers r = rsp_header_group r"

definition axis2_http_simple_response_extract_headers ::
    "'st simple_response \<Rightarrow> http_header array_list option \<times> 'st simple_response" where
  "axis2_http_simple_response_extract_headers r = (rsp_header_group r, r\<lparr>rsp_header_group := None\<rparr>)"

definition axis2_http_simple_response_get_first_header :: "'st simple_response \<Rightarrow> string option \<Rightarrow> http_header option result" where
  "axis2_http_simple_response_get_first_header r str =
     (case str of
        None \<Rightarrow> Inl INVALID_NULL_PARAM
      | Some s \<Rightarrow>
          (case rsp_header_group r of
             None \<Rightarrow> Inr None
           | Some g \<Rightarrow> if axutil_array_list_size (Some g) = 0 then Inr None
               else res_bind (find_header s g) (\<lambda>f. Inr (map_option snd f))))"

definition axis2_http_simple_response_remove_headers :: "'st simple_response \<Rightarrow> string option \<Rightarrow> 'st simple_response result" where
  "axis2_http_simple_response_remove_headers r str =
     (case str of
        None \<Rightarrow> Inl INVALID_NULL_PARAM
      | Some s \<Rightarrow>
          (case rsp_header_group r of
             None \<Rightarrow> Inr r
           | Some g \<Rightarrow> res_bind (remove_first s g) (\<lambda>g'. Inr (r\<lparr>rsp_header_group := Some g'\<rparr>))))"

text \<open>The answers of the list operations are not looked at: the old header is lost when there is no room for the new one.\<close>

definition axis2_http_simple_response_set_header ::
    "alloc \<Rightarrow> 'st simple_response \<Rightarrow> http_header option \<Rightarrow> 'st simple_response result" where
  "axis2_http_simple_response_set_header malloc r header =
     (case header of
        None \<Rightarrow> Inl INVALID_NULL_PARAM
      | Some h \<Rightarrow>
          (case rsp_header_group r of
             None \<Rightarrow>
               (case axutil_array_list_create malloc 10 of
                  Inl _ \<Rightarrow> Inr r
                | Inr g \<Rightarrow> Inr (r\<lparr>rsp_header_group := add_headers malloc (Some g) [Some h]\<rparr>))
           | Some g \<Rightarrow>
               (if axutil_array_list_size (Some g) > 0 \<and> axis2_http_header_get_name h = None then Inl UNDEFINED_BEHAVIOUR
                else
                  res_bind (if axutil_array_list_size (Some g) > 0 then remove_first (the (axis2_http_header_get_name h)) g else Inr g) (\<lambda>g'.
                    Inr (r\<lparr>rsp_header_group := add_headers malloc (Some g') [Some h]\<rparr>)))))"

definition axis2_http_simple_response_get_charset :: "'st simple_response \<Rightarrow> string option result" where
  "axis2_http_simple_response_get_charset r =
     res_bind (axis2_http_simple_response_get_first_header r (Some AXIS2_HTTP_HEADER_CONTENT_TYPE)) charset_of_header"

definition axis2_http_simple_response_get_content_length :: "'st simple_response \<Rightarrow> int result" where
  "axis2_http_simple_response_get_content_length r =
     res_bind (axis2_http_simple_response_get_first_header r (Some AXIS2_HTTP_HEADER_CONTENT_LENGTH)) length_of_header"

definition axis2_http_simple_response_get_content_type :: "'st simple_response \<Rightarrow> string option result" where
  "axis2_http_simple_response_get_content_type r =
     res_bind (axis2_http_simple_response_get_first_header r (Some AXIS2_HTTP_HEADER_CONTENT_TYPE)) (\<lambda>h. Inr (type_of_header h))"

definition axis2_http_simple_response_set_body_string ::
    "'st result \<Rightarrow> ('st \<Rightarrow> string \<Rightarrow> (int \<times> 'st) result) \<Rightarrow> 'st simple_response \<Rightarrow> string option \<Rightarrow> 'st simple_response result" where
  "axis2_http_simple_response_set_body_string new_stream wr r str =
     (case str of
        None \<Rightarrow> Inl INVALID_NULL_PARAM
      | Some s \<Rightarrow>
          res_bind (case rsp_stream r of
              Some st \<Rightarrow> Inr st
            | None \<Rightarrow> (case new_stream of Inl _ \<Rightarrow> Inl FAILURE_STATUS | Inr st \<Rightarrow> Inr st))
            (\<lambda>st. res_bind (wr st s) (\<lambda>(_, st'). Inr (r\<lparr>rsp_stream := Some st'\<rparr>))))"

definition axis2_http_simple_response_set_body_stream :: "'st simple_response \<Rightarrow> 'st option \<Rightarrow> 'st simple_response" where
  "axis2_http_simple_response_set_body_stream r stream = r\<lparr>rsp_stream := stream\<rparr>"

definition axis2_http_simple_response_get_body :: "'st simple_response \<Rightarrow> 'st option" where
  "axis2_http_simple_response_get_body r = rsp_stream r"

definition axis2_http_simple_response_contains_header :: "'st simple_response \<Rightarrow> string option \<Rightarrow> bool result" where
  "axis2_http_simple_response_contains_header r name =
     (case name of
        None \<Rightarrow> Inl INVALID_NULL_PARAM
      | Some n \<Rightarrow>
          (case rsp_header_group r of
             None \<Rightarrow> Inr False
           | Some g \<Rightarrow> if axutil_array_list_size (Some g) = 0 then Inr False
               else res_bind (find_header n g) (\<lambda>f. Inr (f \<noteq> None))))"

section \<open>The headers of a response are a dictionary\<close>

text \<open>A header as the code makes them when memory suffices: two C strings. Names are compared in lower case.\<close>

definition header_ok :: "http_header option \<Rightarrow> bool" where
  "header_ok p = (case p of None \<Rightarrow> False | Some h \<Rightarrow> hdr_name h \<noteq> None \<and> hdr_value h \<noteq> None \<and> NUL \<notin> set (the (hdr_name h)))"

definition header_key :: "http_header option \<Rightarrow> string" where
  "header_key p = axutil_string_tolower (the (hdr_name (the p)))"

definition header_val :: "http_header option \<Rightarrow> string" where
  "header_val p = the (hdr_value (the p))"

definition group_ok :: "http_header array_list \<Rightarrow> bool" where
  "group_ok g \<longleftrightarrow> al_inv g \<and> (\<forall>h \<in> set (al_list g). header_ok h)"

lemma find_header_loop_spec:
  assumes "group_ok g" "NUL \<notin> set str" "0 \<le> i" "i \<le> al_size g"
  shows "find_header_loop str g (al_size g) i =
    Inr (map_option (\<lambda>j. (i + int j, the (al_list g ! (nat i + j))))
      (find_index (\<lambda>h. header_key h = axutil_string_tolower str) (drop (nat i) (al_list g))))"
  using assms
proof (induction str g "al_size g" i rule: find_header_loop.induct)
  case (1 str g i)
  have inv: "al_inv g" using "1.prems" by (simp add: group_ok_def)
  show ?case
  proof (cases "i < al_size g")
    case True
    obtain x where x: "axutil_array_list_get (Some g) i = Inr x" "drop (nat i) (al_list g) = x # drop (nat (i + 1)) (al_list g)"
      using al.drop_unfold [OF inv, of i] True "1.prems" by (auto simp: axutil_array_list_size_def)
    have "x \<in> set (al_list g)" using x(2) by (metis in_set_dropD list.set_intros(1))
    then have ok: "header_ok x" using "1.prems" by (auto simp: group_ok_def)
    then obtain h n where h: "x = Some h" "hdr_name h = Some n" "NUL \<notin> set n" by (auto simp: header_ok_def split: option.splits)
    have eq: "axutil_strcasecmp str n = 0 \<longleftrightarrow> header_key x = axutil_string_tolower str"
      using strcasecmp_zero [OF "1.prems"(2) h(3)] h by (auto simp: header_key_def axutil_string_tolower_def)
    have xi: "al_list g ! nat i = Some h" using x(2) h(1) by (metis hd_drop_conv_nth list.sel(1) drop_eq_Nil2 list.distinct(1) linorder_not_less)
    show ?thesis
      using True x h eq xi "1.hyps" [OF True, of h n] "1.prems"
      by (subst find_header_loop.simps)
         (auto simp: axis2_http_header_get_name_def option.map_comp o_def nat_add_distrib algebra_simps)
  next
    case False
    then show ?thesis using al.drop_end [OF inv, of i] by (subst find_header_loop.simps) (simp add: axutil_array_list_size_def)
  qed
qed

lemma find_header_spec:
  assumes "group_ok g" "NUL \<notin> set str"
  shows "find_header str g = Inr (map_option (\<lambda>j. (int j, the (al_list g ! j)))
    (find_index (\<lambda>h. header_key h = axutil_string_tolower str) (al_list g)))"
  using find_header_loop_spec [OF assms, of 0] assms(1)
  by (simp add: find_header_def axutil_array_list_size_def group_ok_def al_inv_def)

lemma remove_header_spec:
  assumes "group_ok g" "NUL \<notin> set str"
  shows "\<exists>g'. remove_first str g = Inr g' \<and> group_ok g' \<and>
    al_list g' = (case find_index (\<lambda>h. header_key h = axutil_string_tolower str) (al_list g) of
      None \<Rightarrow> al_list g | Some j \<Rightarrow> remove_nth j (al_list g))"
proof (cases "find_index (\<lambda>h. header_key h = axutil_string_tolower str) (al_list g)")
  case None
  then show ?thesis using find_header_spec [OF assms] assms(1) by (simp add: remove_first_def)
next
  case (Some j)
  have inv: "al_inv g" using assms(1) by (simp add: group_ok_def)
  have j: "j < length (al_list g)" using Some by (simp add: find_index_Some)
  obtain x g' where r: "axutil_array_list_remove (Some g) (int j) = Inr (x, g')"
    using al.remove_fail [OF inv, of "int j"] j by (cases "axutil_array_list_remove (Some g) (int j)") auto
  then have g': "al_inv g'" "al_list g' = remove_nth j (al_list g)" using al.remove_law [OF inv r] by auto
  moreover have "group_ok g'" using g' assms(1) set_remove_nth_subset [of j "al_list g"] by (auto simp: group_ok_def)
  ultimately show ?thesis using Some find_header_spec [OF assms] r by (simp add: remove_first_def)
qed

text \<open>Lists of headers with distinct names, as finite maps.\<close>

definition header_map :: "http_header option list \<Rightarrow> string \<Rightarrow> string option" where
  "header_map hs = map_of (map (\<lambda>h. (header_key h, header_val h)) hs)"

lemma header_map_find:
  "header_map hs k = map_option (\<lambda>j. header_val (hs ! j)) (find_index (\<lambda>h. header_key h = k) hs)"
  by (induction hs) (auto simp: header_map_def option.map_comp o_def)

lemma header_map_Cons: "header_map (h # hs) = (header_map hs)(header_key h \<mapsto> header_val h)"
  by (simp add: header_map_def)

lemma header_map_append: "header_map (hs @ [h]) = (\<lambda>k. case header_map hs k of Some v \<Rightarrow> Some v | None \<Rightarrow> if k = header_key h then Some (header_val h) else None)"
  by (auto simp: header_map_def map_add_def fun_eq_iff split: option.splits)

lemma header_map_remove:
  assumes "distinct (map header_key hs)"
  shows "header_map (case find_index (\<lambda>h. header_key h = k) hs of None \<Rightarrow> hs | Some j \<Rightarrow> remove_nth j hs) = (header_map hs)(k := None)"
  using assms
proof (induction hs)
  case (Cons h hs)
  show ?case
  proof (cases "header_key h = k")
    case True
    then have "header_map hs k = None" using Cons.prems by (auto simp: header_map_def map_of_eq_None_iff image_image)
    with True show ?thesis by (auto simp: header_map_def remove_nth_def fun_eq_iff)
  next
    case False
    then have "(case find_index (\<lambda>h. header_key h = k) (h # hs) of None \<Rightarrow> h # hs | Some j \<Rightarrow> remove_nth j (h # hs)) =
        h # (case find_index (\<lambda>h. header_key h = k) hs of None \<Rightarrow> hs | Some j \<Rightarrow> remove_nth j hs)"
      by (auto simp: remove_nth_def split: option.splits)
    with Cons False show ?thesis by (simp only: header_map_Cons) auto
  qed
qed (simp add: header_map_def)

definition response_ok :: "'st simple_response \<Rightarrow> bool" where
  "response_ok r =
     (case rsp_header_group r of None \<Rightarrow> True | Some g \<Rightarrow> group_ok g \<and> distinct (map header_key (al_list g)))"

definition response_headers :: "'st simple_response \<Rightarrow> http_header option list" where
  "response_headers r = (case rsp_header_group r of None \<Rightarrow> [] | Some g \<Rightarrow> al_list g)"

definition header_lookup :: "alloc \<Rightarrow> 'st simple_response \<Rightarrow> string \<Rightarrow> string option result" where
  "header_lookup malloc r name =
     res_bind (axis2_http_simple_response_get_first_header r (Some name)) (\<lambda>h. Inr (Option.bind h axis2_http_header_get_value))"

text \<open>Storing a value is creating a header and setting it, storing none is removing the header.\<close>

definition header_store :: "alloc \<Rightarrow> 'st simple_response \<Rightarrow> string \<Rightarrow> string option \<Rightarrow> 'st simple_response result" where
  "header_store malloc r name v =
     (case v of
        None \<Rightarrow> axis2_http_simple_response_remove_headers r (Some name)
      | Some _ \<Rightarrow> res_bind (axis2_http_header_create malloc (Some name) v) (\<lambda>h. axis2_http_simple_response_set_header malloc r (Some h)))"

lemma add_header_spec:
  assumes "group_ok g" "header_ok h" "mem_ok malloc"
  shows "\<exists>g'. add_headers malloc (Some g) [h] = Some g' \<and> group_ok g' \<and> al_list g' = al_list g @ [h]"
  using al.add_total [of g malloc h] assms by (fastforce simp: add_headers_def group_ok_def)

lemma distinct_keys_remove:
  assumes "distinct (map header_key hs)"
  shows "distinct (map header_key (case find_index P hs of None \<Rightarrow> hs | Some j \<Rightarrow> remove_nth j hs))"
  using assms by (auto simp: map_remove_nth distinct_remove_nth split: option.splits)

lemma empty_group: "axutil_array_list_create malloc n = Inr g \<Longrightarrow> group_ok g \<and> al_list g = []"
  using create_ok by (fastforce simp: group_ok_def)

lemma header_store_spec:
  assumes ok: "response_ok r" and k: "NUL \<notin> set k" and m: "mem_ok malloc"
  shows "\<exists>r'. header_store malloc r k v = Inr r' \<and> response_ok r' \<and> rsp_status_line r' = rsp_status_line r \<and> rsp_stream r' = rsp_stream r \<and>
    header_map (response_headers r') = (header_map (response_headers r))(axutil_string_tolower k := v)"
proof (cases "rsp_header_group r")
  case None
  obtain g :: "http_header array_list" where g: "axutil_array_list_create malloc 10 = Inr g" using create_total [OF m] by blast
  show ?thesis
  proof (cases v)
    case (Some x)
    let ?h = "Some \<lparr>hdr_name = Some k, hdr_value = Some x\<rparr>"
    obtain g' where g': "add_headers malloc (Some g) [?h] = Some g'" "group_ok g'" "al_list g' = [?h]"
      using add_header_spec [of g ?h malloc] empty_group [OF g] k m by (auto simp: header_ok_def)
    then show ?thesis using None Some g m
      by (simp add: header_store_def axis2_http_header_create_def mem_okD axis2_http_simple_response_set_header_def response_ok_def
          response_headers_def header_map_def header_key_def header_val_def)
  qed (use None ok in \<open>simp add: header_store_def axis2_http_simple_response_remove_headers_def response_headers_def header_map_def\<close>)
next
  case (Some g)
  have g: "group_ok g" "distinct (map header_key (al_list g))" using ok Some by (auto simp: response_ok_def)
  obtain g1 where g1: "remove_first k g = Inr g1" "group_ok g1"
      "al_list g1 = (case find_index (\<lambda>h. header_key h = axutil_string_tolower k) (al_list g) of None \<Rightarrow> al_list g | Some j \<Rightarrow> remove_nth j (al_list g))"
    using remove_header_spec [OF g(1) k] by blast
  have d1: "distinct (map header_key (al_list g1))" using distinct_keys_remove [OF g(2)] g1(3) by simp
  have m1: "header_map (al_list g1) = (header_map (al_list g))(axutil_string_tolower k := None)"
    using header_map_remove [OF g(2)] g1(3) by simp
  show ?thesis
  proof (cases v)
    case None
    then show ?thesis using Some g1 d1 m1
      by (simp add: header_store_def axis2_http_simple_response_remove_headers_def response_ok_def response_headers_def)
  next
    case v: (Some x)
    let ?h = "Some \<lparr>hdr_name = Some k, hdr_value = Some x\<rparr>"
    have key: "header_key ?h = axutil_string_tolower k" "header_val ?h = x" by (simp_all add: header_key_def header_val_def)
    obtain g2 where g2: "add_headers malloc (Some g1) [?h] = Some g2" "group_ok g2" "al_list g2 = al_list g1 @ [?h]"
      using add_header_spec [of g1 ?h malloc] g1(2) k m by (auto simp: header_ok_def)
    have "axutil_string_tolower k \<notin> header_key ` set (al_list g1)"
      using fun_cong [OF m1, of "axutil_string_tolower k"] by (auto simp: header_map_def map_of_eq_None_iff image_image)
    then have "distinct (map header_key (al_list g2))" using d1 g2(3) key by simp
    moreover have "header_map (al_list g2) = (header_map (al_list g))(axutil_string_tolower k := Some x)"
      unfolding g2(3) header_map_append m1 key by (auto simp: fun_eq_iff split: option.splits)
    moreover have "(if axutil_array_list_size (Some g) > 0 then remove_first k g else Inr g) = Inr g1"
    proof (cases "axutil_array_list_size (Some g) > 0")
      case False
      then have "al_list g = []" using g(1) by (simp add: axutil_array_list_size_def al_list_def)
      then have "remove_first k g = Inr g" using find_header_spec [OF g(1) k] by (simp add: remove_first_def)
      with g1(1) False show ?thesis by simp
    qed (use g1 in simp)
    ultimately show ?thesis using Some v g2 m
      by (auto simp: header_store_def axis2_http_header_create_def mem_okD axis2_http_simple_response_set_header_def response_ok_def
          response_headers_def axis2_http_header_get_name_def)
  qed
qed

lemma header_lookup_spec:
  assumes "response_ok r" "NUL \<notin> set k"
  shows "header_lookup malloc r k = Inr (header_map (response_headers r) (axutil_string_tolower k))"
proof (cases "rsp_header_group r")
  case None
  then show ?thesis by (simp add: header_lookup_def axis2_http_simple_response_get_first_header_def response_headers_def header_map_def)
next
  case (Some g)
  have g: "group_ok g" using assms Some by (auto simp: response_ok_def)
  have val: "hdr_value (the (al_list g ! j)) = Some (header_val (al_list g ! j))"
    if "find_index (\<lambda>h. header_key h = axutil_string_tolower k) (al_list g) = Some j" for j
  proof -
    have "al_list g ! j \<in> set (al_list g)" using that by (simp add: find_index_Some)
    then show ?thesis using g by (auto simp: group_ok_def header_ok_def header_val_def split: option.splits)
  qed
  show ?thesis
  proof (cases "axutil_array_list_size (Some g) = 0")
    case True
    then have "al_list g = []" by (simp add: axutil_array_list_size_def al_list_def)
    with True Some show ?thesis
      by (simp add: header_lookup_def axis2_http_simple_response_get_first_header_def response_headers_def header_map_def)
  next
    case False
    then show ?thesis using Some find_header_spec [OF g assms(2)] val
      by (cases "find_index (\<lambda>h. header_key h = axutil_string_tolower k) (al_list g)") (auto simp: header_lookup_def axis2_http_simple_response_get_first_header_def response_headers_def header_map_find
          axis2_http_header_get_value_def split: option.splits)
  qed
qed

interpretation headers: dictionary response_ok "\<lambda>k. NUL \<notin> set k" axutil_string_tolower "\<lambda>r. header_map (response_headers r)"
    header_lookup header_store "\<lambda>r. length (response_headers r)" "2 ^ 31 - 1"
proof unfold_locales
  fix s :: "'a simple_response" and k m and v :: "string option"
  assume ok: "response_ok s"
  show "header_lookup m s k = Inr (header_map (response_headers s) (axutil_string_tolower k))" if "NUL \<notin> set k"
    using header_lookup_spec [OF ok that] .
  show "\<exists>s'. header_store m s k v = Inr s' \<and> response_ok s' \<and>
      header_map (response_headers s') = (header_map (response_headers s))(axutil_string_tolower k := v)"
    if "NUL \<notin> set k" "mem_ok m" "length (response_headers s) < 2 ^ 31 - 1"
    using header_store_spec [OF ok that(1,2), of v] by blast
  have d: "distinct (map header_key (response_headers s))"
    using ok by (auto simp: response_ok_def response_headers_def split: option.splits)
  have "dom (header_map (response_headers s)) = set (map header_key (response_headers s))"
    by (simp add: header_map_def dom_map_of_conv_image_fst image_image)
  then show "finite (dom (header_map (response_headers s))) \<and> length (response_headers s) = card (dom (header_map (response_headers s)))"
    using distinct_card [OF d] by simp
qed

text \<open>C15: after any sequence of headers set in and removed from a response, starting with distinct names, a lookup by any name,
  in any case, gives the value set last under that name, and none if it was removed since.\<close>

theorem header_history:
  assumes "response_ok r" "\<forall>(k, v) \<in> set ops. NUL \<notin> set k" "mem_ok malloc" "length (response_headers r) + length ops < 2 ^ 31"
    "NUL \<notin> set name"
  shows "\<exists>r'. run_stores (header_store malloc) ops r = Inr r' \<and>
    header_lookup malloc r' name = Inr (map_stores axutil_string_tolower ops (header_map (response_headers r)) (axutil_string_tolower name))"
proof -
  have "length (response_headers r) + length ops \<le> 2 ^ 31 - 1" using assms(4) by simp
  then obtain r' where "run_stores (header_store malloc) ops r = Inr r'" "response_ok r'"
      "header_map (response_headers r') = map_stores axutil_string_tolower ops (header_map (response_headers r))"
    using headers.history [OF assms(1-3)] by blast
  moreover from this(2) have "header_lookup malloc r' name = Inr (header_map (response_headers r') (axutil_string_tolower name))"
    by (rule header_lookup_spec [OF _ assms(5)])
  ultimately show ?thesis by simp
qed

theorem header_history_witness:
  "\<exists>r' :: basic_stream simple_response. run_stores (header_store (\<lambda>n. True)) [(''Server'', Some ''a''), (''Date'', Some ''d''), (''SERVER'', Some ''b''), (''date'', None)]
      \<lparr>rsp_status_line = None, rsp_header_group = None, rsp_stream = None\<rparr> = Inr r' \<and>
    header_lookup (\<lambda>n. True) r' ''server'' = Inr (Some ''b'')"
proof -
  have "axutil_string_tolower ''SERVER'' = axutil_string_tolower ''server''" "axutil_string_tolower ''date'' \<noteq> axutil_string_tolower ''server''"
    by code_simp+
  then show ?thesis
    using header_history [of "\<lparr>rsp_status_line = None, rsp_header_group = None, rsp_stream = None\<rparr> :: basic_stream simple_response"
      "[(''Server'', Some ''a''), (''Date'', Some ''d''), (''SERVER'', Some ''b''), (''date'', None)]" "\<lambda>n. True" "''server''"]
    by (simp add: response_ok_def response_headers_def NUL_def)
qed

section \<open>Status lines of responses\<close>

lemma print_int_pos: "0 < n \<Longrightarrow> print_int n = print_base 10 (nat n)"
  by (simp add: print_int_def)

lemma print_digits_plain:
  assumes "c \<in> set (print_base 10 n)"
  shows "c \<noteq> CHR '' '' \<and> c \<noteq> CR \<and> c \<noteq> NUL"
proof -
  have "is_digit 10 c" using print_base_digits [of 10 n] assms by simp
  then show ?thesis by (auto simp: is_digit_def digit_val_def NUL_def Let_def split: if_splits)
qed

lemma print_int3_length: "0 < n \<Longrightarrow> n < 2 ^ 31 \<Longrightarrow> length (print_int3 n) \<le> 10"
  using print_base_length [of 10 "nat n" 10] by (simp add: print_int3_def print_int_pos nat_less_iff)

lemma print_int3_large: "100 \<le> n \<Longrightarrow> print_int3 n = print_base 10 (nat n)"
  using print_base_length_ge [of 10 2 "nat n"] by (simp add: print_int3_def print_int_pos le_nat_iff)

lemma print_int3_small:
  assumes "0 < n" "n < 100"
  shows "\<exists>r. print_int3 n = CHR '' '' # r \<and> CR \<notin> set r"
proof -
  have l: "length (print_base 10 (nat n)) \<le> 2" using print_base_length [of 10 "nat n" 2] assms by simp
  then obtain k where "3 - length (print_base 10 (nat n)) = Suc k" by (metis Suc_diff_le numeral_2_eq_2 numeral_3_eq_3)
  then have "print_int3 n = CHR '' '' # replicate k (CHR '' '') @ print_base 10 (nat n)"
    using assms by (simp add: print_int3_def print_int_pos)
  then show ?thesis using print_digits_plain by fastforce
qed

lemma set_status_line_text:
  assumes m: "mem_ok malloc" and n: "0 < n" "n < 2 ^ 31" and split: "print_int3 n @ '' '' @ p = c @ '' '' @ q"
    and plain: "CHR '' '' \<notin> set v" "CHR '' '' \<notin> set c" "CR \<notin> set v" "CR \<notin> set c" "CR \<notin> set q"
  shows "axis2_http_simple_response_set_status_line malloc r (Some v) n (Some p) =
    Inr (r\<lparr>rsp_status_line := Some \<lparr>sl_line = Some (v @ '' '' @ print_int3 n @ '' '' @ p @ AXIS2_HTTP_CRLF), sl_http_version = Some v,
      sl_status_code = Some c, sl_reason_phrase = Some q\<rparr>\<rparr>)"
proof -
  have t: "v @ '' '' @ print_int3 n @ '' '' @ p @ AXIS2_HTTP_CRLF = v @ '' '' @ c @ '' '' @ q @ AXIS2_HTTP_CRLF"
    using split by (metis append.assoc)
  have "strstr ((v @ '' '' @ c @ '' '' @ q) @ [CR]) AXIS2_HTTP_CRLF = None"
    by (rule no_CR_strstr [THEN conjunct2]) (use plain in auto)
  then have s: "axis2_http_status_line_create malloc (Some (v @ '' '' @ print_int3 n @ '' '' @ p @ AXIS2_HTTP_CRLF)) =
      Inr \<lparr>sl_line = Some (v @ '' '' @ print_int3 n @ '' '' @ p @ AXIS2_HTTP_CRLF), sl_http_version = Some v, sl_status_code = Some c, sl_reason_phrase = Some q\<rparr>"
    unfolding t using status_line_fields [OF m, of v c q "[]"] plain by simp
  have "\<not> (length v + length p + 8) * sizeof_ptr < length (v @ '' '' @ print_int3 n @ '' '' @ p @ AXIS2_HTTP_CRLF) + 1"
    using print_int3_length [OF n] by (simp add: sizeof_ptr_def CRLF_simps)
  then show ?thesis using s mem_okD [OF m] n by (simp add: axis2_http_simple_response_set_status_line_def Let_def)
qed

text \<open>The status line set in a response is the one its getters give back, for codes of at least three digits; a
  smaller code is printed with leading spaces, and the code read back is 0.\<close>

theorem status_line_roundtrip:
  assumes "mem_ok malloc" "0 < n" "n < 2 ^ 31" "CHR '' '' \<notin> set v" "AXIS2_RETURN \<notin> set v" "AXIS2_RETURN \<notin> set p"
  shows "\<exists>r'. axis2_http_simple_response_set_status_line malloc r (Some v) n (Some p) = Inr r' \<and>
    axis2_http_simple_response_get_http_version r' = Some v \<and>
    axis2_http_simple_response_get_status_code r' = Inr (if 100 \<le> n then n else 0) \<and>
    (100 \<le> n \<longrightarrow> axis2_http_simple_response_get_phrase r' = Some p)"
proof (cases "100 \<le> n")
  case True
  have "axutil_atoi (print_base 10 (nat n)) = Inr n" using atoi_print [of "nat n" "[]"] assms(2,3) by simp
  moreover have "axis2_http_simple_response_set_status_line malloc r (Some v) n (Some p) =
      Inr (r\<lparr>rsp_status_line := Some \<lparr>sl_line = Some (v @ '' '' @ print_int3 n @ '' '' @ p @ AXIS2_HTTP_CRLF), sl_http_version = Some v,
        sl_status_code = Some (print_base 10 (nat n)), sl_reason_phrase = Some p\<rparr>\<rparr>)"
    by (rule set_status_line_text [OF assms(1-3)]) (use True assms print_digits_plain in \<open>auto simp: print_int3_large AXIS2_RETURN_def\<close>)
  ultimately show ?thesis using True
    by (simp add: axis2_http_simple_response_get_http_version_def axis2_http_status_line_get_http_version_def
        axis2_http_simple_response_get_status_code_def axis2_http_status_line_get_status_code_def
        axis2_http_simple_response_get_phrase_def axis2_http_status_line_get_reason_phrase_def)
next
  case False
  then obtain q where q: "print_int3 n = CHR '' '' # q" "CR \<notin> set q" using print_int3_small assms(2) by fastforce
  have "axis2_http_simple_response_set_status_line malloc r (Some v) n (Some p) =
      Inr (r\<lparr>rsp_status_line := Some \<lparr>sl_line = Some (v @ '' '' @ print_int3 n @ '' '' @ p @ AXIS2_HTTP_CRLF), sl_http_version = Some v,
        sl_status_code = Some [], sl_reason_phrase = Some (q @ '' '' @ p)\<rparr>\<rparr>)"
    by (rule set_status_line_text [OF assms(1-3)]) (use q assms in \<open>auto simp: AXIS2_RETURN_def\<close>)
  then show ?thesis using False
    by (simp add: axis2_http_simple_response_get_http_version_def axis2_http_status_line_get_http_version_def
        axis2_http_simple_response_get_status_code_def axis2_http_status_line_get_status_code_def axutil_atoi_def)
qed

theorem status_line_roundtrip_witness:
  "\<exists>r' :: basic_stream simple_response. axis2_http_simple_response_set_status_line (\<lambda>n. True) \<lparr>rsp_status_line = None, rsp_header_group = None, rsp_stream = None\<rparr>
      (Some ''HTTP/1.1'') 404 (Some ''Not Found'') = Inr r' \<and>
    axis2_http_simple_response_get_http_version r' = Some ''HTTP/1.1'' \<and> axis2_http_simple_response_get_status_code r' = Inr 404 \<and>
    axis2_http_simple_response_get_phrase r' = Some ''Not Found''"
  using status_line_roundtrip [of "\<lambda>n. True" 404 "''HTTP/1.1''" "''Not Found''" "\<lparr>rsp_status_line = None, rsp_header_group = None, rsp_stream = None\<rparr> :: basic_stream simple_response"]
  by (simp add: AXIS2_RETURN_def)

end
