(* ===== verification/Http_Chunked.thy ===== *)
theory Http_Chunked
  imports Util_Stream
begin

text \<open>
  The chunked transfer coding of HTTP: \<^verbatim>\<open>util/src/http_chunked_stream.c\<close>. A chunked stream lies over a
  stream and reaches it through its read and write functions, which are the arguments \<open>rd\<close> and \<open>wr\<close> here.

  The loops of the code end when the stream below gives them what they need; they are partial functions, \<open>None\<close> is a
  call that does not return. A byte stored outside the caller's buffer or a local array is undefined.
\<close>

section \<open>The model\<close>

record 's chunked_stream =
  cs_stream :: "'s option"
  cs_current_chunk_size :: int
  cs_unread_len :: int
  cs_end_of_chunks :: bool
  cs_chunk_started :: bool

type_synonym 's reader = "'s \<Rightarrow> nat \<Rightarrow> (int \<times> string \<times> 's) result"
type_synonym 's writer = "'s \<Rightarrow> string \<Rightarrow> (int \<times> 's) result"

definition sizeof_chunked_stream :: nat where "sizeof_chunked_stream = 24"

definition axutil_http_chunked_stream_create :: "alloc \<Rightarrow> 's option \<Rightarrow> 's chunked_stream result" where
  "axutil_http_chunked_stream_create malloc stream =
     (if stream = None then Inl INVALID_NULL_PARAM
      else if \<not> malloc sizeof_chunked_stream then Inl NO_MEMORY
      else Inr \<lparr>cs_stream = stream, cs_current_chunk_size = -1, cs_unread_len = -1, cs_end_of_chunks = False,
        cs_chunk_started = False\<rparr>)"

text \<open>
  The loop that reads a line byte by byte into an array of 512 characters, up to CRLF or the end of the stream:
  in \<^verbatim>\<open>axutil_http_chunked_stream_start_chunk\<close> the length of a chunk and its extensions, in the client the lines of a response. A NUL
  byte ends the string that is appended. The result has the answer of the last read.
\<close>

definition LINE_SIZE :: nat where "LINE_SIZE = 512"

partial_function (option) crlf_line :: "'s reader \<Rightarrow> 's \<Rightarrow> string \<Rightarrow> (int \<times> string \<times> 's) result option" where
  "crlf_line rd stream line =
     (case rd stream 1 of
        Inl e \<Rightarrow> Some (Inl e)
      | Inr (read, tmp_buf, stream') \<Rightarrow>
          if read \<le> 0 then Some (Inr (read, line, stream'))
          else
            let str = line @ takeWhile (\<lambda>c. c \<noteq> NUL) tmp_buf in
            if LINE_SIZE \<le> length str then Some (Inl UNDEFINED_BEHAVIOUR)
            else if strstr str AXIS2_HTTP_CRLF \<noteq> None then Some (Inr (read, str, stream'))
            else crlf_line rd stream' str)"

declare crlf_line.simps [code]

text \<open>What the code does with the line: the extensions are cut off, the rest is a hexadecimal number.\<close>

definition chunk_size :: "string \<Rightarrow> int" where
  "chunk_size str =
     int_of_long (strtol (case strchr str (CHR '';'') of None \<Rightarrow> str | Some tmp \<Rightarrow> take tmp str) 16)"

definition axutil_http_chunked_stream_start_chunk ::
    "'s reader \<Rightarrow> 's chunked_stream \<Rightarrow> 's chunked_stream result option" where
  "axutil_http_chunked_stream_start_chunk rd st =
     (case cs_stream st of
        None \<Rightarrow> Some (Inl UNDEFINED_BEHAVIOUR)
      | Some s \<Rightarrow>
          (case (if cs_chunk_started st then res_bind (rd s 2) (\<lambda>(read, _, s'). Inr s') else Inr s) of
             Inl e \<Rightarrow> Some (Inl e)
           | Inr s1 \<Rightarrow>
               Option.bind (crlf_line rd s1 []) (\<lambda>r. Some (
                 res_bind r (\<lambda>(_, str_chunk_len, s2).
                   let size = chunk_size str_chunk_len;
                       st1 = st\<lparr>cs_chunk_started := False, cs_current_chunk_size := size\<rparr>
                   in if size = 0 then
                        res_bind (rd s2 2) (\<lambda>(read, _, s3). Inr (st1\<lparr>cs_stream := Some s3, cs_end_of_chunks := True\<rparr>))
                      else Inr (st1\<lparr>cs_stream := Some s2, cs_chunk_started := True, cs_unread_len := size\<rparr>))))))"

text \<open>The bytes a read stores at an offset of the caller's buffer.\<close>

definition store :: "int \<Rightarrow> string \<Rightarrow> string \<Rightarrow> string result" where
  "store i bytes buf =
     (if bytes = [] then Inr buf
      else if i < 0 \<or> int (length buf) < i + int (length bytes) then Inl UNDEFINED_BEHAVIOUR
      else Inr (overwrite (nat i) bytes buf))"

text \<open>A difference of two \<^verbatim>\<open>int\<close>s, undefined outside the type.\<close>

definition int_minus :: "int \<Rightarrow> int \<Rightarrow> int result" where
  "int_minus a b = (if - (2 ^ 31) \<le> a - b \<and> a - b < 2 ^ 31 then Inr (a - b) else Inl UNDEFINED_BEHAVIOUR)"

text \<open>
  One read of the loop: \<^verbatim>\<open>yet_to_read\<close>, the buffer and the stream behind it. The bytes go to the offset
  \<^verbatim>\<open>count - yet_to_read\<close>; the number asked for is converted to \<^verbatim>\<open>size_t\<close>.
\<close>

definition read_part ::
    "'s reader \<Rightarrow> 's chunked_stream \<Rightarrow> string \<Rightarrow> int \<Rightarrow> int \<Rightarrow> (int \<times> string \<times> 's chunked_stream) result" where
  "read_part rd st buf yet n =
     (case cs_stream st of
        None \<Rightarrow> Inl UNDEFINED_BEHAVIOUR
      | Some s \<Rightarrow>
          res_bind (rd s (size_of_int n)) (\<lambda>(len, bytes, s').
          res_bind (store (int (length buf) - yet) bytes buf) (\<lambda>buf'.
          res_bind (int_minus yet len) (\<lambda>yet'.
          res_bind (int_minus (cs_unread_len st) len) (\<lambda>unread'.
            Inr (yet', buf', st\<lparr>cs_stream := Some s', cs_unread_len := unread'\<rparr>))))))"

partial_function (option) chunked_read_loop ::
    "'s reader \<Rightarrow> 's chunked_stream \<Rightarrow> string \<Rightarrow> int \<Rightarrow> (int \<times> string \<times> 's chunked_stream) result option" where
  "chunked_read_loop rd st buf yet =
     (if cs_end_of_chunks st \<or> yet \<le> 0 then Some (Inr (yet, buf, st))
      else if cs_unread_len st < yet then
        (case read_part rd st buf yet (cs_unread_len st) of
           Inl e \<Rightarrow> Some (Inl e)
         | Inr (yet', buf', st1) \<Rightarrow>
             if cs_unread_len st1 \<le> 0 then
               Option.bind (axutil_http_chunked_stream_start_chunk rd st1) (\<lambda>r.
                 case r of Inl e \<Rightarrow> Some (Inl e) | Inr st2 \<Rightarrow> chunked_read_loop rd st2 buf' yet')
             else chunked_read_loop rd st1 buf' yet')
      else
        (case read_part rd st buf yet yet of
           Inl e \<Rightarrow> Some (Inl e)
         | Inr (yet', buf', st1) \<Rightarrow> chunked_read_loop rd st1 buf' yet'))"

text \<open>
  \<^verbatim>\<open>count\<close> is the length of the caller's buffer. A length of -1 is returned without error on a NULL buffer and with
  \<^verbatim>\<open>NULL_STREAM_IN_CHUNKED_STREAM\<close> on a stream without one below it.
\<close>

definition axutil_http_chunked_stream_read ::
    "'s reader \<Rightarrow> 's chunked_stream \<Rightarrow> string option \<Rightarrow> (int \<times> string option \<times> 's chunked_stream) result option" where
  "axutil_http_chunked_stream_read rd st buffer =
     (case buffer of
        None \<Rightarrow> Some (Inr (-1, None, st))
      | Some buf \<Rightarrow>
          if cs_stream st = None then Some (Inl NULL_STREAM_IN_CHUNKED_STREAM)
          else if cs_end_of_chunks st then Some (Inr (0, buffer, st))
          else
            Option.bind (if cs_chunk_started st then Some (Inr st) else axutil_http_chunked_stream_start_chunk rd st) (\<lambda>r.
              case r of
                Inl e \<Rightarrow> Some (Inl e)
              | Inr st1 \<Rightarrow>
                  Option.bind (chunked_read_loop rd st1 buf (int_of_long (int (length buf)))) (\<lambda>r.
                    Some (res_bind r (\<lambda>(yet, buf', st2).
                      res_bind (int_minus (int_of_long (int (length buf))) yet) (\<lambda>n. Inr (n, Some buf', st2)))))))"

text \<open>\<^verbatim>\<open>sprintf\<close> writes the length, CRLF and a NUL into \<^verbatim>\<open>tmp_buf[10]\<close>; the length is truncated to 32 bits.\<close>

definition axutil_http_chunked_stream_write ::
    "'s writer \<Rightarrow> 's chunked_stream \<Rightarrow> string option \<Rightarrow> (int \<times> 's chunked_stream) result" where
  "axutil_http_chunked_stream_write wr st buffer =
     (case buffer of
        None \<Rightarrow> Inr (-1, st)
      | Some bytes \<Rightarrow>
          (case cs_stream st of
             None \<Rightarrow> Inl NULL_STREAM_IN_CHUNKED_STREAM
           | Some s \<Rightarrow>
               let tmp_buf = print_hex (length bytes mod 2 ^ 32) @ AXIS2_HTTP_CRLF in
               if 10 < length tmp_buf + 1 then Inl UNDEFINED_BEHAVIOUR
               else
                 res_bind (wr s tmp_buf) (\<lambda>(_, s1).
                 res_bind (wr s1 bytes) (\<lambda>(len, s2).
                 res_bind (wr s2 AXIS2_HTTP_CRLF) (\<lambda>(_, s3). Inr (len, st\<lparr>cs_stream := Some s3\<rparr>))))))"

definition last_chunk :: string where
  "last_chunk = CHR ''0'' # AXIS2_HTTP_CRLF @ AXIS2_HTTP_CRLF"

definition axutil_http_chunked_stream_write_last_chunk ::
    "'s writer \<Rightarrow> 's chunked_stream \<Rightarrow> (axis2_status \<times> 's chunked_stream) result" where
  "axutil_http_chunked_stream_write_last_chunk wr st =
     (case cs_stream st of
        None \<Rightarrow> Inl UNDEFINED_BEHAVIOUR
      | Some s \<Rightarrow>
          res_bind (wr s last_chunk) (\<lambda>(len, s').
            Inr (if len = 5 then AXIS2_SUCCESS else AXIS2_FAILURE, st\<lparr>cs_stream := Some s'\<rparr>)))"

definition axutil_http_chunked_stream_get_current_chunk_size :: "'s chunked_stream \<Rightarrow> int" where
  "axutil_http_chunked_stream_get_current_chunk_size st = cs_current_chunk_size st"

definition axutil_http_chunked_stream_get_end_of_chunks :: "'s chunked_stream \<Rightarrow> bool" where
  "axutil_http_chunked_stream_get_end_of_chunks st = cs_end_of_chunks st"

section \<open>Reading what a source holds\<close>

text \<open>A chunk on the wire, and the chunks of a body up to the last one.\<close>

definition chunk_text :: "string \<Rightarrow> string" where
  "chunk_text c = print_hex (length c) @ AXIS2_HTTP_CRLF @ c @ AXIS2_HTTP_CRLF"

definition body_text :: "string list \<Rightarrow> string" where
  "body_text cs = concat (map chunk_text cs) @ last_chunk"

definition chunks_ok :: "string list \<Rightarrow> bool" where
  "chunks_ok cs \<longleftrightarrow> (\<forall>c \<in> set cs. c \<noteq> [] \<and> length c < 2 ^ 31)"

lemma digit_no_CR: "is_digit b c \<Longrightarrow> c \<noteq> CR \<and> c \<noteq> LF \<and> c \<noteq> NUL \<and> c \<noteq> CHR '';''"
  by (auto simp: is_digit_def digit_val_def NUL_def Let_def split: if_splits)

lemma print_hex_no_CR: "c \<in> set (print_hex n) \<Longrightarrow> c \<noteq> CR \<and> c \<noteq> LF \<and> c \<noteq> NUL \<and> c \<noteq> CHR '';''"
  using print_base_digits [of 16 n] digit_no_CR by (auto simp: print_hex_def)

lemma print_hex_length: "n < 16 ^ k \<Longrightarrow> 0 < k \<Longrightarrow> length (print_hex n) \<le> k"
  unfolding print_hex_def by (rule print_base_length) auto

text \<open>A line feed left over from a short read of the previous CRLF does no harm: \<^verbatim>\<open>strtol\<close> skips it.\<close>

lemma chunk_crlf_line:
  assumes "n < 2 ^ 31" "ws = [] \<or> ws = [LF]"
  shows "chunk_size (ws @ print_hex n @ AXIS2_HTTP_CRLF) = int n"
proof -
  have "CHR '';'' \<notin> set (ws @ print_hex n @ AXIS2_HTTP_CRLF)"
    using print_hex_no_CR [of _ n] assms(2) by (auto simp: CRLF_simps)
  then have "strchr (ws @ print_hex n @ AXIS2_HTTP_CRLF) (CHR '';'') = None"
    by (intro strchr_notin) (auto simp: NUL_def)
  moreover have "strtol (ws @ print_hex n @ CR # [LF]) 16 = int n"
    by (rule strtol_print_hex) (use assms in \<open>auto simp: is_space_def is_digit_def digit_val_def\<close>)
  ultimately show ?thesis using assms(1) by (simp add: chunk_size_def CRLF_simps)
qed

lemma print_hex_0: "print_hex 0 = ''0''"
  by (simp add: print_hex_def print_base.simps [of 16 0] digit_char_def char_of_eq_iff)

context byte_source
begin

lemma crlf_line_reads:
  assumes "ready s" "contents s = str @ AXIS2_HTTP_CRLF @ rest" "CR \<notin> set (acc @ str)" "NUL \<notin> set str"
    "length (acc @ str) + 2 < LINE_SIZE"
  shows "\<exists>s'. crlf_line rd s acc = Some (Inr (1, acc @ str @ AXIS2_HTTP_CRLF, s')) \<and> contents s' = rest \<and> ready s'"
  using assms
proof (induction str arbitrary: s acc)
  case (Cons c str)
  obtain s1 where s1: "rd s 1 = Inr (1, [c], s1)" "contents s1 = str @ AXIS2_HTTP_CRLF @ rest" "ready s1"
    using rd_byte [of s c] Cons.prems(1,2) by auto
  have "\<exists>s'. crlf_line rd s1 (acc @ [c]) = Some (Inr (1, (acc @ [c]) @ str @ AXIS2_HTTP_CRLF, s')) \<and> contents s' = rest \<and> ready s'"
    by (rule Cons.IH) (use s1 Cons.prems in auto)
  moreover have "crlf_line rd s acc = crlf_line rd s1 (acc @ [c])"
    using s1(1) Cons.prems(3,4,5) no_CR_strstr [of "acc @ [c]"] by (subst crlf_line.simps) auto
  ultimately show ?case by simp
next
  case Nil
  obtain s1 where s1: "rd s 1 = Inr (1, [CR], s1)" "contents s1 = LF # rest" "ready s1"
    using rd_byte [of s CR] Nil.prems(1,2) by (auto simp: CRLF_simps)
  obtain s2 where s2: "rd s1 1 = Inr (1, [LF], s2)" "contents s2 = rest" "ready s2"
    using rd_byte [of s1 LF] s1 by auto
  have "crlf_line rd s1 (acc @ [CR]) = Some (Inr (1, acc @ AXIS2_HTTP_CRLF, s2))"
    using s2(1) Nil.prems(3,5) CRLF_strstr [of acc] by (subst crlf_line.simps) (auto simp: CRLF_simps NUL_def)
  moreover have "crlf_line rd s acc = crlf_line rd s1 (acc @ [CR])"
    using s1(1) Nil.prems(3,5) no_CR_strstr [of acc] by (subst crlf_line.simps) (auto simp: NUL_def)
  ultimately show ?case using s2 by auto
qed

text \<open>Two bytes, one of them or both.\<close>

lemma rd_two:
  assumes "ready s" "contents s = a # b # r"
  shows "\<exists>n bs s'. rd s 2 = Inr (n, bs, s') \<and> ready s' \<and> (contents s' = r \<or> contents s' = b # r)"
proof -
  obtain k s' where k: "0 < k" "k \<le> 2" "rd s 2 = Inr (int k, take k (contents s), s')" "contents s' = drop k (contents s)" "ready s'"
    using rd_some [of s 2] assms by auto
  then have "k = 1 \<or> k = 2" by auto
  with k assms(2) show ?thesis by auto
qed

text \<open>
  The data a chunked stream still has to give. Between chunks the source stands before a size
  line, inside a chunk before the rest of it and its CRLF.
\<close>

definition pending :: "'s chunked_stream \<Rightarrow> string \<Rightarrow> bool" where
  "pending st data \<longleftrightarrow>
     (\<exists>s. cs_stream st = Some s \<and> ready s \<and>
        (if cs_end_of_chunks st then data = []
         else if cs_chunk_started st then
           (\<exists>c cs tail. contents s = c @ AXIS2_HTTP_CRLF @ body_text cs @ tail \<and> data = c @ concat cs \<and> chunks_ok cs \<and>
              cs_unread_len st = int (length c) \<and> length c < 2 ^ 31)
         else (\<exists>cs tail. contents s = body_text cs @ tail \<and> data = concat cs \<and> chunks_ok cs)))"

lemma pending_started:
  "cs_stream st = Some s \<Longrightarrow> ready s \<Longrightarrow> contents s = c @ AXIS2_HTTP_CRLF @ body_text cs @ tail \<Longrightarrow> chunks_ok cs \<Longrightarrow>
   cs_unread_len st = int (length c) \<Longrightarrow> length c < 2 ^ 31 \<Longrightarrow> \<not> cs_end_of_chunks st \<Longrightarrow> cs_chunk_started st \<Longrightarrow>
   pending st (c @ concat cs)"
  unfolding pending_def by auto

lemma pending_fresh:
  "cs_stream st = Some s \<Longrightarrow> ready s \<Longrightarrow> contents s = body_text cs @ tail \<Longrightarrow> chunks_ok cs \<Longrightarrow>
   \<not> cs_end_of_chunks st \<Longrightarrow> \<not> cs_chunk_started st \<Longrightarrow> pending st (concat cs)"
  unfolding pending_def by auto

text \<open>A size line, possibly behind the line feed of the previous chunk.\<close>

lemma start_line:
  assumes "ready s" "contents s = ws @ print_hex n @ AXIS2_HTTP_CRLF @ rest" "ws = [] \<or> ws = [LF]" "n < 2 ^ 31"
  shows "\<exists>str s'. crlf_line rd s [] = Some (Inr (1, str, s')) \<and> chunk_size str = int n \<and> contents s' = rest \<and> ready s'"
proof -
  have "\<exists>s'. crlf_line rd s [] = Some (Inr (1, [] @ (ws @ print_hex n) @ AXIS2_HTTP_CRLF, s')) \<and> contents s' = rest \<and> ready s'"
    by (rule crlf_line_reads)
       (use assms print_hex_no_CR [of _ n] print_hex_length [of n 8] in \<open>auto simp: LINE_SIZE_def NUL_def\<close>)
  then show ?thesis using chunk_crlf_line [OF assms(4,3)] by auto
qed

lemma start_chunk_from:
  assumes s: "cs_stream st = Some s" "ready s"
    and before: "if cs_chunk_started st then contents s = AXIS2_HTTP_CRLF @ body_text cs @ tail
      else contents s = body_text cs @ tail"
    and cs: "chunks_ok cs" and run: "\<not> cs_end_of_chunks st"
  shows "\<exists>st' s'. axutil_http_chunked_stream_start_chunk rd st = Some (Inr st') \<and> cs_stream st' = Some s' \<and>
    length (contents s') < length (contents s) \<and> pending st' (concat cs) \<and> (cs_end_of_chunks st' \<or> cs_chunk_started st')"
proof -
  obtain s1 ws where s1: "(if cs_chunk_started st then res_bind (rd s 2) (\<lambda>(read, _, s'). Inr s') else Inr s) = Inr s1"
      "contents s1 = ws @ body_text cs @ tail" "ready s1" "ws = [] \<or> ws = [LF]" "length (contents s1) \<le> length (contents s)"
  proof (cases "cs_chunk_started st")
    case True
    then show ?thesis using that rd_two [of s CR LF "body_text cs @ tail"] s before by (fastforce simp: CRLF_simps)
  next
    case False
    then show ?thesis using that [of s "[]"] s before by simp
  qed
  show ?thesis
  proof (cases cs)
    case Nil
    have c: "contents s1 = ws @ print_hex 0 @ AXIS2_HTTP_CRLF @ AXIS2_HTTP_CRLF @ tail"
      using s1(2) Nil by (simp add: body_text_def last_chunk_def print_hex_0)
    obtain str s2 where s2: "crlf_line rd s1 [] = Some (Inr (1, str, s2))" "chunk_size str = 0"
        "contents s2 = AXIS2_HTTP_CRLF @ tail" "ready s2"
      using start_line [OF s1(3) c s1(4)] by auto
    obtain n bs s3 where s3: "rd s2 2 = Inr (n, bs, s3)" "ready s3" "contents s3 = tail \<or> contents s3 = LF # tail"
      using rd_two [of s2 CR LF tail] s2(3,4) by (auto simp: CRLF_simps)
    have "length (contents s3) < length (contents s)" using s3(3) c s1(5) by (auto simp: CRLF_simps)
    then show ?thesis using s s1 s2 s3 Nil
      by (auto simp: axutil_http_chunked_stream_start_chunk_def Let_def pending_def)
  next
    case (Cons c ds)
    have c: "contents s1 = ws @ print_hex (length c) @ AXIS2_HTTP_CRLF @ (c @ AXIS2_HTTP_CRLF @ body_text ds @ tail)"
      using s1(2) Cons by (simp add: body_text_def chunk_text_def)
    have len: "length c < 2 ^ 31" "c \<noteq> []" "chunks_ok ds" using cs Cons by (auto simp: chunks_ok_def)
    obtain str s2 where s2: "crlf_line rd s1 [] = Some (Inr (1, str, s2))" "chunk_size str = int (length c)"
        "contents s2 = c @ AXIS2_HTTP_CRLF @ body_text ds @ tail" "ready s2"
      using start_line [OF s1(3) c s1(4) len(1)] by auto
    have "length (contents s2) < length (contents s)" using s2(3) c s1(5) by (simp add: CRLF_simps)
    then show ?thesis using s s1 s2 len Cons run
      by (auto simp: axutil_http_chunked_stream_start_chunk_def Let_def pending_def)
  qed
qed

lemma read_part_reads:
  assumes s: "cs_stream st = Some s" "ready s" "contents s = c @ r" and n: "0 \<le> n" "n \<le> int (length c)" "n \<le> yet"
    and yet: "0 < yet" "yet \<le> int (length buf)" "length buf < 2 ^ 31"
    and u: "cs_unread_len st = int (length c)" "length c < 2 ^ 31"
  shows "\<exists>k s'. k \<le> nat n \<and> (0 < k \<or> n = 0) \<and> contents s' = drop k c @ r \<and> ready s' \<and>
    read_part rd st buf yet n = Inr (yet - int k, overwrite (nat (int (length buf) - yet)) (take k c) buf,
      st\<lparr>cs_stream := Some s', cs_unread_len := int (length c) - int k\<rparr>)"
proof (cases "n = 0")
  case True
  obtain s' where "rd s 0 = Inr (0, [], s')" "contents s' = contents s" "ready s'" using rd_none [of s 0] s by auto
  then show ?thesis using s u yet True by (auto simp: read_part_def store_def int_minus_def overwrite_def)
next
  case False
  then have n0: "0 < nat n" "nat n < 2 ^ 31" "size_of_int n = nat n" using n u(2) by auto
  then have "contents s \<noteq> []" using s(3) n by auto
  then obtain k s' where k: "0 < k" "k \<le> nat n" "rd s (nat n) = Inr (int k, take k (contents s), s')"
      "contents s' = drop k (contents s)" "ready s'"
    using rd_some [OF s(2) n0(1,2)] by blast
  have kc: "k \<le> length c" "int k \<le> yet" using k(1,2) n by linarith+
  then have "store (int (length buf) - yet) (take k c) buf = Inr (overwrite (nat (int (length buf) - yet)) (take k c) buf)"
    using k(1) yet by (auto simp: store_def)
  then show ?thesis using k kc s u yet n n0(3) by (auto simp: read_part_def int_minus_def)
qed

end

lemma overwrite_append:
  "i + length xs + length ys \<le> length b \<Longrightarrow> overwrite (i + length xs) ys (overwrite i xs b) = overwrite i (xs @ ys) b"
  by (cases xs) (auto simp: overwrite_def min_def ac_simps)

lemma overwrite_Nil [simp]: "overwrite i [] b = b"
  by (simp add: overwrite_def)

text \<open>
  A buffer whose first \<open>length buf - yet\<close> bytes are filled already, and what is in it when the rest is filled with data.
\<close>

definition filled :: "string \<Rightarrow> nat \<Rightarrow> string \<Rightarrow> string" where
  "filled buf yet data = overwrite (length buf - yet) (take yet data) buf"

lemma filled_step:
  assumes "k \<le> length c" "int k \<le> yet" "0 < yet" "yet \<le> int (length buf)"
  shows "filled (overwrite (nat (int (length buf) - yet)) (take k c) buf) (nat (yet - int k)) (drop k c @ r) =
    filled buf (nat yet) (c @ r)"
proof -
  obtain j where j: "nat yet = k + j" using assms(2) by (metis le_Suc_ex nat_int nat_mono)
  have i: "nat (int (length buf) - yet) = length buf - nat yet" and e: "nat (yet - int k) = j" using assms j by linarith+
  let ?i = "length buf - nat yet"
  have t: "take k c @ take j (drop k c @ r) = take (nat yet) (c @ r)"
    using take_add [of k j "c @ r"] assms(1) j by simp
  have l: "length (overwrite ?i (take k c) buf) = length buf" using assms j by (auto intro!: length_overwrite)
  have "?i + length (take k c) = length buf - j" using assms j by auto
  moreover have "overwrite (?i + length (take k c)) (take j (drop k c @ r)) (overwrite ?i (take k c) buf) =
      overwrite ?i (take k c @ take j (drop k c @ r)) buf"
    by (rule overwrite_append) (use assms j in \<open>auto simp: min_def\<close>)
  ultimately show ?thesis unfolding filled_def i e l t by simp
qed

context byte_source
begin

lemma chunked_read_loop_reads:
  assumes "pending st data" "cs_end_of_chunks st \<or> cs_chunk_started st" "0 \<le> yet" "yet \<le> int (length buf)" "length buf < 2 ^ 31"
  shows "\<exists>st'. chunked_read_loop rd st buf yet = Some (Inr (yet - int (min (nat yet) (length data)), filled buf (nat yet) data, st')) \<and>
    pending st' (drop (nat yet) data) \<and> (cs_end_of_chunks st' \<or> cs_chunk_started st')"
  using assms
proof (induction "length (contents (the (cs_stream st)))" arbitrary: st data yet buf rule: less_induct)
  case less
  show ?case
  proof (cases "cs_end_of_chunks st \<or> yet \<le> 0")
    case True
    then have "data = [] \<or> yet = 0" using less.prems(1,3) by (auto simp: pending_def)
    then show ?thesis using True less.prems by (subst chunked_read_loop.simps) (auto simp: filled_def)
  next
    case False
    then obtain s c cs tail where s: "cs_stream st = Some s" "ready s" "contents s = c @ AXIS2_HTTP_CRLF @ body_text cs @ tail"
        and d: "data = c @ concat cs" "chunks_ok cs" and u: "cs_unread_len st = int (length c)" "length c < 2 ^ 31"
      using less.prems(1,2) by (auto simp: pending_def)
    have yet: "0 < yet" using False by simp
    define n where "n = min (cs_unread_len st) yet"
    obtain k s' where k: "k \<le> nat n" "0 < k \<or> n = 0" "contents s' = drop k c @ AXIS2_HTTP_CRLF @ body_text cs @ tail" "ready s'"
        and r: "read_part rd st buf yet n = Inr (yet - int k, overwrite (nat (int (length buf) - yet)) (take k c) buf,
          st\<lparr>cs_stream := Some s', cs_unread_len := int (length c) - int k\<rparr>)"
      using read_part_reads [OF s, of n yet buf] yet less.prems(4,5) u by (auto simp: n_def)
    define buf1 where "buf1 = overwrite (nat (int (length buf) - yet)) (take k c) buf"
    define st1 where "st1 = st\<lparr>cs_stream := Some s', cs_unread_len := int (length c) - int k\<rparr>"
    have kc: "k \<le> length c" "int k \<le> yet" using k(1,2) u yet by (auto simp: n_def)
    have buf1: "length buf1 = length buf" unfolding buf1_def
      by (rule length_overwrite) (use kc yet less.prems(4) in \<open>auto simp: min_def\<close>)
    have fill: "filled buf1 (nat (yet - int k)) (drop k c @ concat cs) = filled buf (nat yet) data"
      unfolding buf1_def d by (rule filled_step) (use kc yet less.prems(4) in auto)
    have out: "yet - int k - int (min (nat (yet - int k)) (length (drop k c @ concat cs))) = yet - int (min (nat yet) (length data))"
      using kc d by (auto simp: min_def)
    have rest: "drop (nat (yet - int k)) (drop k c @ concat cs) = drop (nat yet) data"
    proof -
      have "drop k c @ concat cs = drop k data" using kc d by simp
      moreover have "nat (yet - int k) + k = nat yet" using kc by linarith
      ultimately show ?thesis by (simp only: drop_drop)
    qed
    have step: ?thesis
      if "chunked_read_loop rd st buf yet = chunked_read_loop rd st2 buf1 (yet - int k)"
        and "pending st2 (drop k c @ concat cs)" "cs_end_of_chunks st2 \<or> cs_chunk_started st2"
        and "length (contents (the (cs_stream st2))) < length (contents s)" for st2
      using less.hyps [of st2 "drop k c @ concat cs" "yet - int k" buf1] that kc less.prems(4,5) s(1) buf1 fill out rest by auto
    have p1: "pending st1 (drop k c @ concat cs)" "cs_chunk_started st1"
      using False less.prems(2) k kc d u pending_started [of st1 s' "drop k c" cs tail] by (auto simp: st1_def of_nat_diff)
    show ?thesis
    proof (cases "cs_unread_len st < yet \<and> int (length c) - int k \<le> 0")
      case True
      then have "k = length c" using kc by simp
      then obtain st2 s2 where st2: "axutil_http_chunked_stream_start_chunk rd st1 = Some (Inr st2)" "cs_stream st2 = Some s2"
          "length (contents s2) < length (contents s')" "pending st2 (concat cs)" "cs_end_of_chunks st2 \<or> cs_chunk_started st2"
        using start_chunk_from [of st1 s' cs tail] k(3,4) d(2) p1(2) False by (auto simp: st1_def)
      show ?thesis
      proof (rule step [of st2])
        show "chunked_read_loop rd st buf yet = chunked_read_loop rd st2 buf1 (yet - int k)"
          using False True r st2(1) by (subst chunked_read_loop.simps) (simp add: n_def st1_def buf1_def)
      qed (use st2 k(3) s(3) \<open>k = length c\<close> in auto)
    next
      case c2: False
      have "0 < k"
      proof (rule ccontr)
        assume "\<not> 0 < k"
        then have "n = 0" "k = 0" using k(2) by auto
        then show False using c2 u yet by (auto simp: n_def min_def split: if_splits)
      qed
      show ?thesis
      proof (rule step [of st1])
        show "chunked_read_loop rd st buf yet = chunked_read_loop rd st1 buf1 (yet - int k)"
          using False c2 r by (subst chunked_read_loop.simps) (auto simp: n_def st1_def buf1_def min_absorb1 min_absorb2)
      qed (use p1 k(3) kc s \<open>0 < k\<close> in \<open>auto simp: st1_def\<close>)
    qed
  qed
qed

text \<open>A read fills the caller's buffer with the next data, as far as there are any.\<close>

lemma chunked_read_reads:
  assumes p: "pending st data" and len: "length buf < 2 ^ 31"
  shows "\<exists>st'. axutil_http_chunked_stream_read rd st (Some buf) =
      Some (Inr (int (min (length buf) (length data)), Some (overwrite 0 (take (length buf) data) buf), st')) \<and>
    pending st' (drop (length buf) data)"
proof -
  obtain s where s: "cs_stream st = Some s" "ready s" using p by (auto simp: pending_def)
  have loop: ?thesis if st1: "pending st1 data" "cs_end_of_chunks st1 \<or> cs_chunk_started st1" and run: "\<not> cs_end_of_chunks st"
      and start: "(if cs_chunk_started st then Some (Inr st) else axutil_http_chunked_stream_start_chunk rd st) = Some (Inr st1)" for st1
    using chunked_read_loop_reads [OF st1, of "int (length buf)" buf] len run start s
    by (auto simp: axutil_http_chunked_stream_read_def int_minus_def filled_def)
  show ?thesis
  proof (cases "cs_end_of_chunks st \<or> cs_chunk_started st")
    case True
    then show ?thesis using loop [OF p] p s by (auto simp: axutil_http_chunked_stream_read_def pending_def)
  next
    case False
    then obtain cs tail where c: "contents s = body_text cs @ tail" "data = concat cs" "chunks_ok cs"
      using p s by (auto simp: pending_def)
    obtain st1 where "axutil_http_chunked_stream_start_chunk rd st = Some (Inr st1)" "pending st1 data"
        "cs_end_of_chunks st1 \<or> cs_chunk_started st1"
      using start_chunk_from [of st s cs tail] s c False by auto
    then show ?thesis using loop False by auto
  qed
qed

lemma pending_start:
  "axutil_http_chunked_stream_create malloc (Some s) = Inr st \<Longrightarrow> ready s \<Longrightarrow> contents s = body_text cs @ tail \<Longrightarrow> chunks_ok cs \<Longrightarrow>
    pending st (concat cs)"
  unfolding axutil_http_chunked_stream_create_def by (auto intro: pending_fresh split: if_splits)

text \<open>Where the source ends inside a chunk, the loop asks for more of it for ever.\<close>

lemma read_part_end:
  assumes s: "cs_stream st = Some s" "ready s" "int (length (contents s)) < cs_unread_len st" "int (length (contents s)) < yet"
    and n: "n = min (cs_unread_len st) yet" "yet \<le> int (length buf)" "length buf < 2 ^ 31" "cs_unread_len st < 2 ^ 31"
  shows "\<exists>yet' buf' st1 s'. read_part rd st buf yet n = Inr (yet', buf', st1) \<and> cs_unread_len st1 > 0 \<and> length buf' = length buf \<and>
    yet' \<le> int (length buf) \<and> cs_unread_len st1 < 2 ^ 31 \<and> cs_stream st1 = Some s' \<and> ready s' \<and>
    int (length (contents s')) < cs_unread_len st1 \<and> int (length (contents s')) < yet' \<and> cs_end_of_chunks st1 = cs_end_of_chunks st"
proof -
  have n0: "0 < nat n" "nat n < 2 ^ 31" "size_of_int n = nat n" using s n by auto
  obtain k s' where k: "k \<le> nat n" "k \<le> length (contents s)" "rd s (nat n) = Inr (int k, take k (contents s), s')"
      "contents s' = drop k (contents s)" "ready s'"
    using rd_some [OF s(2) n0(1,2)] rd_none [OF s(2) n0(2)] by (cases "contents s = []") force+
  obtain b where b: "store (int (length buf) - yet) (take k (contents s)) buf = Inr b" "length b = length buf"
    using s(4) n(2) k(2) by (cases "k = 0 \<or> contents s = []") (auto simp: store_def)
  show ?thesis using s n k b n0(3) by (auto simp: read_part_def int_minus_def of_nat_diff)
qed

lemma chunked_read_loop_end:
  assumes "cs_stream st = Some s" "ready s" "int (length (contents s)) < cs_unread_len st" "int (length (contents s)) < yet"
    "yet \<le> int (length buf)" "length buf < 2 ^ 31" "cs_unread_len st < 2 ^ 31" "\<not> cs_end_of_chunks st"
  shows "chunked_read_loop rd st buf yet = None"
proof -
  let ?Q = "\<lambda>st buf yet. \<exists>s. cs_stream st = Some s \<and> ready s \<and> int (length (contents s)) < cs_unread_len st \<and>
    int (length (contents s)) < yet \<and> yet \<le> int (length buf) \<and> length buf < 2 ^ 31 \<and> cs_unread_len st < 2 ^ 31 \<and> \<not> cs_end_of_chunks st"
  let ?P = "\<lambda>rd' st buf yet r. rd' = rd \<longrightarrow> \<not> ?Q st buf yet"
  have "?P rd st buf yet r" if "chunked_read_loop rd st buf yet = Some r" for r
  proof (rule chunked_read_loop.raw_induct [of ?P, OF _ that], intro impI notI)
    fix loop :: "'s reader \<Rightarrow> 's chunked_stream \<Rightarrow> string \<Rightarrow> int \<Rightarrow> (int \<times> string \<times> 's chunked_stream) result option"
      and rd' st buf yet r
    assume hyp: "\<And>rd' st buf yet r. loop rd' st buf yet = Some r \<Longrightarrow> ?P rd' st buf yet r"
    assume body: "(if cs_end_of_chunks st \<or> yet \<le> 0 then Some (Inr (yet, buf, st))
      else if cs_unread_len st < yet then
        (case read_part rd' st buf yet (cs_unread_len st) of
           Inl e \<Rightarrow> Some (Inl e)
         | Inr (yet', buf', st1) \<Rightarrow>
             if cs_unread_len st1 \<le> 0 then
               Option.bind (axutil_http_chunked_stream_start_chunk rd' st1) (\<lambda>r.
                 case r of Inl e \<Rightarrow> Some (Inl e) | Inr st2 \<Rightarrow> loop rd' st2 buf' yet')
             else loop rd' st1 buf' yet')
      else
        (case read_part rd' st buf yet yet of
           Inl e \<Rightarrow> Some (Inl e)
         | Inr (yet', buf', st1) \<Rightarrow> loop rd' st1 buf' yet')) = Some r"
    assume rd': "rd' = rd" and q: "?Q st buf yet"
    let ?n = "min (cs_unread_len st) yet"
    obtain yet' buf' st1 s' where a: "read_part rd st buf yet ?n = Inr (yet', buf', st1)" "0 < cs_unread_len st1" "?Q st1 buf' yet'"
      using q read_part_end [of st _ yet ?n buf] by (elim exE conjE) (metis (no_types, lifting))
    have "loop rd st1 buf' yet' = Some r"
      using body q rd' a(1,2) by (auto simp: min_def split: if_splits)
    then show False using hyp a(3) by blast
  qed
  then show ?thesis using assms by (cases "chunked_read_loop rd st buf yet") blast+
qed

end

section \<open>Writing to a sink\<close>

lemma chunk_text_length: "length (chunk_text c) = length (print_hex (length c)) + length c + 4"
  by (simp add: chunk_text_def CRLF_simps)

lemma tmp_buf_fits: "10 < length (print_hex n @ AXIS2_HTTP_CRLF) + 1 \<longleftrightarrow> 2 ^ 28 \<le> n"
  using print_hex_length [of n 7] print_base_length_ge [of 16 7 n]
  by (cases "n < 2 ^ 28") (auto simp: CRLF_simps print_hex_def)

context byte_sink
begin

lemma chunked_write_sink:
  assumes "cs_stream st = Some s" "ready s" "length c < 2 ^ 28" "length (written s @ chunk_text c) < cap"
  shows "\<exists>s'. axutil_http_chunked_stream_write wr st (Some c) = Inr (int (length c), st\<lparr>cs_stream := Some s'\<rparr>) \<and>
    ready s' \<and> written s' = written s @ chunk_text c"
proof -
  let ?t = "print_hex (length c) @ AXIS2_HTTP_CRLF"
  obtain s1 where s1: "wr s ?t = Inr (int (length ?t), s1)" "written s1 = written s @ ?t" "ready s1"
    using wr_all [of s ?t] assms by (auto simp: chunk_text_length CRLF_simps)
  obtain s2 where s2: "wr s1 c = Inr (int (length c), s2)" "written s2 = written s @ ?t @ c" "ready s2"
    using wr_all [of s1 c] assms s1 by (auto simp: chunk_text_length CRLF_simps)
  obtain s3 where s3: "wr s2 AXIS2_HTTP_CRLF = Inr (2, s3)" "written s3 = written s @ ?t @ c @ AXIS2_HTTP_CRLF" "ready s3"
    using wr_all [of s2 AXIS2_HTTP_CRLF] assms s2 by (auto simp: chunk_text_length CRLF_simps)
  have "length c mod 2 ^ 32 = length c" using assms(3) by simp
  moreover have "\<not> 10 < length ?t + 1" using assms(3) by (subst tmp_buf_fits) simp
  ultimately show ?thesis
    using assms(1) s1(1) s2(1) s3 by (intro exI [of _ s3]) (simp add: axutil_http_chunked_stream_write_def Let_def chunk_text_def)
qed

lemma write_last_chunk_sink:
  assumes "cs_stream st = Some s" "ready s" "length (written s @ last_chunk) < cap"
  shows "\<exists>s'. axutil_http_chunked_stream_write_last_chunk wr st = Inr (AXIS2_SUCCESS, st\<lparr>cs_stream := Some s'\<rparr>) \<and>
    ready s' \<and> written s' = written s @ last_chunk"
  using wr_all [of s last_chunk] assms
  by (auto simp: axutil_http_chunked_stream_write_last_chunk_def last_chunk_def CRLF_simps)

end

section \<open>A body sent and received\<close>

text \<open>The calls that send a body in blocks, and those that read it into buffers of any sizes.\<close>

fun send_body :: "'s writer \<Rightarrow> 's chunked_stream \<Rightarrow> string list \<Rightarrow> (axis2_status \<times> 's chunked_stream) result" where
  "send_body wr st [] = axutil_http_chunked_stream_write_last_chunk wr st"
| "send_body wr st (c # cs) =
     res_bind (axutil_http_chunked_stream_write wr st (Some c)) (\<lambda>(len, st'). send_body wr st' cs)"

fun receive_body :: "'s reader \<Rightarrow> 's chunked_stream \<Rightarrow> string list \<Rightarrow> string list result option" where
  "receive_body rd st [] = Some (Inr [])"
| "receive_body rd st (buf # bufs) =
     Option.bind (axutil_http_chunked_stream_read rd st (Some buf)) (\<lambda>r.
       case r of
         Inl e \<Rightarrow> Some (Inl e)
       | Inr (len, b, st') \<Rightarrow>
           Option.bind (receive_body rd st' bufs) (\<lambda>r. Some (res_bind r (\<lambda>ds. Inr (take (nat len) (the b) # ds)))))"

text \<open>Data cut into pieces of given sizes; the pieces behind the end are empty.\<close>

fun cut :: "string \<Rightarrow> nat list \<Rightarrow> string list" where
  "cut data [] = []"
| "cut data (n # ns) = take n data # cut (drop n data) ns"

lemma concat_cut: "concat (cut data ns) = take (sum_list ns) data"
  by (induction data ns rule: cut.induct) (auto simp: take_add)

context byte_sink
begin

lemma send_body_sink:
  assumes "cs_stream st = Some s" "ready s" "\<forall>c \<in> set cs. length c < 2 ^ 28" "length (written s @ body_text cs) < cap"
  shows "\<exists>s'. send_body wr st cs = Inr (AXIS2_SUCCESS, st\<lparr>cs_stream := Some s'\<rparr>) \<and> ready s' \<and> written s' = written s @ body_text cs"
  using assms
proof (induction cs arbitrary: st s)
  case Nil
  then show ?case using write_last_chunk_sink [of st s] by (simp add: body_text_def)
next
  case (Cons c cs)
  obtain s1 where s1: "axutil_http_chunked_stream_write wr st (Some c) = Inr (int (length c), st\<lparr>cs_stream := Some s1\<rparr>)"
      "ready s1" "written s1 = written s @ chunk_text c"
    using chunked_write_sink [of st s c] Cons.prems by (auto simp: body_text_def)
  have "\<exists>s'. send_body wr (st\<lparr>cs_stream := Some s1\<rparr>) cs = Inr (AXIS2_SUCCESS, (st\<lparr>cs_stream := Some s1\<rparr>)\<lparr>cs_stream := Some s'\<rparr>) \<and>
      ready s' \<and> written s' = written s1 @ body_text cs"
    by (rule Cons.IH) (use s1 Cons.prems in \<open>auto simp: body_text_def\<close>)
  then show ?case using s1 by (simp add: body_text_def)
qed

end

context byte_source
begin

lemma receive_body_source:
  assumes "pending st data" "\<forall>b \<in> set bufs. length b < 2 ^ 31"
  shows "receive_body rd st bufs = Some (Inr (cut data (map length bufs)))"
  using assms
proof (induction bufs arbitrary: st data)
  case (Cons b bufs)
  obtain st' where st': "axutil_http_chunked_stream_read rd st (Some b) =
        Some (Inr (int (min (length b) (length data)), Some (overwrite 0 (take (length b) data) b), st'))"
      "pending st' (drop (length b) data)"
    using chunked_read_reads [of st data b] Cons.prems by auto
  have "take (min (length b) (length data)) (overwrite 0 (take (length b) data) b) = take (length b) data"
    by (simp add: overwrite_def min_def)
  then show ?case using st' Cons.IH [OF st'(2)] Cons.prems(2) by simp
qed simp

end

text \<open>C8: what a client sends over a socket in blocks of less than 2^28 bytes, none of them empty, and ends with
  \<^verbatim>\<open>write_last_chunk\<close>, the server reads back with any sequence of buffers, in whatever pieces the network delivers it and whatever
  follows it on the connection; every read fills its buffer as long as there are data, and returns 0 behind them.\<close>

theorem chunked_roundtrip:
  assumes blocks: "\<forall>c \<in> set blocks. c \<noteq> [] \<and> length c < 2 ^ 28" "length (body_text blocks) < 2 ^ 31"
    and bufs: "\<forall>b \<in> set bufs. length b < 2 ^ 31"
    and create: "axutil_http_chunked_stream_create malloc (Some (Some \<lparr>sock_in = i, sock_avail = a, sock_pieces = ps, sock_out = []\<rparr>)) = Inr client"
    "axutil_http_chunked_stream_create malloc (Some (Some \<lparr>sock_in = body_text blocks @ tail, sock_avail = a', sock_pieces = pieces, sock_out = o'\<rparr>)) = Inr server"
  shows "(\<exists>s. send_body axutil_stream_write_socket client blocks = Inr (AXIS2_SUCCESS, client\<lparr>cs_stream := Some (Some s)\<rparr>) \<and>
      sock_out s = body_text blocks) \<and>
    receive_body axutil_stream_read_socket server bufs = Some (Inr (cut (concat blocks) (map length bufs)))"
proof
  have "cs_stream client = Some (Some \<lparr>sock_in = i, sock_avail = a, sock_pieces = ps, sock_out = []\<rparr>)"
    using create(1) by (auto simp: axutil_http_chunked_stream_create_def split: if_splits)
  then show "\<exists>s. send_body axutil_stream_write_socket client blocks = Inr (AXIS2_SUCCESS, client\<lparr>cs_stream := Some (Some s)\<rparr>) \<and>
      sock_out s = body_text blocks"
    using socket_sink.send_body_sink [of client "Some \<lparr>sock_in = i, sock_avail = a, sock_pieces = ps, sock_out = []\<rparr>" blocks] blocks by auto
  have ok: "chunks_ok blocks" using blocks by (auto simp: chunks_ok_def)
  have "socket_source.pending server (concat blocks)"
    by (rule socket_source.pending_start [OF create(2) _ _ ok]) simp_all
  then show "receive_body axutil_stream_read_socket server bufs = Some (Inr (cut (concat blocks) (map length bufs)))"
    using socket_source.receive_body_source bufs by blast
qed

theorem chunked_roundtrip_witness:
  "\<exists>client server.
    send_body axutil_stream_write_socket client [''hello '', ''world''] =
      Inr (AXIS2_SUCCESS, client\<lparr>cs_stream := Some (Some \<lparr>sock_in = [], sock_avail = 0, sock_pieces = [], sock_out = body_text [''hello '', ''world'']\<rparr>)\<rparr>) \<and>
    receive_body axutil_stream_read_socket server [''....'', ''....'', ''....'', ''....''] = Some (Inr [''hell'', ''o wo'', ''rld'', []])"
proof -
  let ?s = "\<lambda>i ps. \<lparr>cs_stream = Some (Some \<lparr>sock_in = i, sock_avail = 0, sock_pieces = ps, sock_out = []\<rparr>), cs_current_chunk_size = -1, cs_unread_len = -1,
    cs_end_of_chunks = False, cs_chunk_started = False\<rparr> :: socket_stream chunked_stream"
  have t: "body_text [''hello '', ''world''] = ''6'' @ AXIS2_HTTP_CRLF @ ''hello '' @ AXIS2_HTTP_CRLF @ ''5'' @ AXIS2_HTTP_CRLF @ ''world'' @ AXIS2_HTTP_CRLF @ last_chunk"
    by (simp add: body_text_def chunk_text_def print_hex_def print_base.simps digit_char_def char_of_eq_iff)
  have "receive_body axutil_stream_read_socket (?s (body_text [''hello '', ''world''] @ ''next'') [1, 1, 1, 2, 1, 1, 1])
      [''....'', ''....'', ''....'', ''....''] = Some (Inr (cut ''hello world'' [4, 4, 4, 4]))"
    using chunked_roundtrip [of "[''hello '', ''world'']" "[''....'', ''....'', ''....'', ''....'']" "\<lambda>n. True" "[]" 0 "[]" "?s [] []"
        "''next''" 0 "[1, 1, 1, 2, 1, 1, 1]" "[]" "?s (body_text [''hello '', ''world''] @ ''next'') [1, 1, 1, 2, 1, 1, 1]"]
    by (simp add: t CRLF_simps last_chunk_def axutil_http_chunked_stream_create_def)
  moreover have "send_body axutil_stream_write_socket (?s [] []) [''hello '', ''world''] =
      Inr (AXIS2_SUCCESS, (?s [] [])\<lparr>cs_stream := Some (Some \<lparr>sock_in = [], sock_avail = 0, sock_pieces = [], sock_out = body_text [''hello '', ''world'']\<rparr>)\<rparr>)"
    by (simp add: t axutil_http_chunked_stream_write_def axutil_stream_write_socket_def axutil_http_chunked_stream_write_last_chunk_def
        print_hex_def print_base.simps digit_char_def char_of_eq_iff CRLF_simps last_chunk_def Let_def)
  moreover have "cut ''hello world'' [4, 4, 4, 4] = [''hell'', ''o wo'', ''rld'', []]" by (simp add: numeral_eq_Suc)
  ultimately show ?thesis by metis
qed

text \<open>C40: a read does not return when the peer has shut down the connection inside a chunk and the caller asks for more
  than the bytes that arrived.\<close>

theorem chunked_read_truncated:
  assumes "cs_stream st = Some (Some s)" "cs_chunk_started st" "\<not> cs_end_of_chunks st"
    "int (length (sock_in s)) < cs_unread_len st" "cs_unread_len st < 2 ^ 31" "length (sock_in s) < length buf" "length buf < 2 ^ 31"
  shows "axutil_http_chunked_stream_read axutil_stream_read_socket st (Some buf) = None"
  using socket_source.chunked_read_loop_end [of st "Some s" "int (length buf)" buf] assms
  by (simp add: axutil_http_chunked_stream_read_def)

theorem chunked_read_truncated_witness:
  "axutil_http_chunked_stream_read axutil_stream_read_socket
    \<lparr>cs_stream = Some (Some \<lparr>sock_in = ''abc'', sock_avail = 0, sock_pieces = [], sock_out = []\<rparr>), cs_current_chunk_size = 5, cs_unread_len = 5,
     cs_end_of_chunks = False, cs_chunk_started = True\<rparr> (Some ''......'') = None"
  by (rule chunked_read_truncated [where s = "\<lparr>sock_in = ''abc'', sock_avail = 0, sock_pieces = [], sock_out = []\<rparr>"]) simp_all

text \<open>C39: a block written to a chunked stream over a socket goes out as one chunk, its length in hexadecimal in front, and the
  call returns its length, up to 2^28 - 1 bytes; from there to 2^32 - 1 bytes the text of the length overruns the array it is printed to.\<close>

theorem chunked_write_spec:
  assumes "cs_stream st = Some (Some s)" "length c < 2 ^ 32"
  shows "if length c < 2 ^ 28
    then axutil_http_chunked_stream_write axutil_stream_write_socket st (Some c) =
      Inr (int (length c), st\<lparr>cs_stream := Some (Some (s\<lparr>sock_out := sock_out s @ chunk_text c\<rparr>))\<rparr>)
    else axutil_http_chunked_stream_write axutil_stream_write_socket st (Some c) = Inl UNDEFINED_BEHAVIOUR"
proof (cases "length c < 2 ^ 28")
  case True
  then have "\<not> 10 < length (print_hex (length c) @ AXIS2_HTTP_CRLF) + 1" by (subst tmp_buf_fits) simp
  moreover have "length c mod 2 ^ 32 = length c" using True by simp
  ultimately show ?thesis using True assms(1)
    by (simp add: axutil_http_chunked_stream_write_def axutil_stream_write_socket_def chunk_text_def Let_def)
next
  case False
  then have "10 < length (print_hex (length c) @ AXIS2_HTTP_CRLF) + 1" by (subst tmp_buf_fits) simp
  moreover have "length c mod 2 ^ 32 = length c" using assms(2) by simp
  ultimately show ?thesis using False assms(1) by (simp add: axutil_http_chunked_stream_write_def Let_def)
qed

theorem chunked_write_spec_witness:
  "axutil_http_chunked_stream_write axutil_stream_write_socket
    \<lparr>cs_stream = Some (Some \<lparr>sock_in = [], sock_avail = 0, sock_pieces = [], sock_out = ''x''\<rparr>), cs_current_chunk_size = -1, cs_unread_len = -1,
     cs_end_of_chunks = False, cs_chunk_started = False\<rparr> (Some ''ab'') =
   Inr (2, \<lparr>cs_stream = Some (Some \<lparr>sock_in = [], sock_avail = 0, sock_pieces = [], sock_out = ''x2'' @ AXIS2_HTTP_CRLF @ ''ab'' @ AXIS2_HTTP_CRLF\<rparr>),
     cs_current_chunk_size = -1, cs_unread_len = -1, cs_end_of_chunks = False, cs_chunk_started = False\<rparr>)"
  using chunked_write_spec [of "\<lparr>cs_stream = Some (Some \<lparr>sock_in = [], sock_avail = 0, sock_pieces = [], sock_out = ''x''\<rparr>), cs_current_chunk_size = -1,
      cs_unread_len = -1, cs_end_of_chunks = False, cs_chunk_started = False\<rparr>" "\<lparr>sock_in = [], sock_avail = 0, sock_pieces = [], sock_out = ''x''\<rparr>" "''ab''"]
  by (simp add: chunk_text_def print_hex_def print_base.simps digit_char_def char_of_eq_iff)

text \<open>An empty block ends the body: it is written as a chunk of length 0.\<close>

lemma empty_block_ends: "chunk_text [] = last_chunk"
  by (simp add: chunk_text_def last_chunk_def print_hex_0)

end
