(* ===== verification/Http_Conn.thy ===== *)
theory Http_Conn
  imports Http_Message Http_Chunked
begin

text \<open>
  The two ends of an HTTP connection: \<^verbatim>\<open>http_response_writer.c\<close> and \<^verbatim>\<open>simple_http_svr_conn.c\<close> of the server, and the part of
  \<^verbatim>\<open>http_client.c\<close> that writes a request to an open connection and reads the head of the response. Opening connections, proxies,
  SSL and attachments (MTOM) are not modelled; the MTOM branch of the response is a parameter. Objects that hold a pointer to the stream of the
  connection hold its current value here.
\<close>

section \<open>The response writer\<close>

record 's response_writer =
  rw_stream :: "'s option"
  rw_encoding :: "string option"

definition sizeof_response_writer :: nat where "sizeof_response_writer = 16"

definition axis2_http_response_writer_create_with_encoding ::
    "alloc \<Rightarrow> 's option \<Rightarrow> string option \<Rightarrow> 's response_writer result" where
  "axis2_http_response_writer_create_with_encoding malloc stream encoding =
     (if encoding = None then Inl INVALID_NULL_PARAM
      else if \<not> malloc sizeof_response_writer then Inl NO_MEMORY
      else Inr \<lparr>rw_stream = stream, rw_encoding = ret_ptr (axutil_strdup malloc encoding)\<rparr>)"

definition axis2_http_response_writer_create :: "alloc \<Rightarrow> 's option \<Rightarrow> 's response_writer result" where
  "axis2_http_response_writer_create malloc stream =
     axis2_http_response_writer_create_with_encoding malloc stream (Some AXIS2_HTTP_DEFAULT_CONTENT_CHARSET)"

definition axis2_http_response_writer_get_encoding :: "'s response_writer \<Rightarrow> string option" where
  "axis2_http_response_writer_get_encoding w = rw_encoding w"

text \<open>Bytes written to the stream of the writer: the status, and the writer. The error number of a NULL argument is not kept.\<close>

definition rw_put :: "'s writer \<Rightarrow> 's response_writer \<Rightarrow> string \<Rightarrow> (axis2_status \<times> 's response_writer) result" where
  "rw_put wr w bytes =
     (case rw_stream w of
        None \<Rightarrow> Inr (AXIS2_FAILURE, w)
      | Some s \<Rightarrow>
          res_bind (wr s bytes) (\<lambda>(write, s').
            Inr (if write < 0 then AXIS2_FAILURE else AXIS2_SUCCESS, w\<lparr>rw_stream := Some s'\<rparr>)))"

definition axis2_http_response_writer_write_char ::
    "'s writer \<Rightarrow> 's response_writer \<Rightarrow> char \<Rightarrow> (axis2_status \<times> 's response_writer) result" where
  "axis2_http_response_writer_write_char wr w c = rw_put wr w [c]"

text \<open>The offset is not used; \<open>buf\<close> is the memory the pointer points to.\<close>

definition axis2_http_response_writer_write_buf ::
    "'s writer \<Rightarrow> 's response_writer \<Rightarrow> string option \<Rightarrow> int \<Rightarrow> nat \<Rightarrow> (axis2_status \<times> 's response_writer) result" where
  "axis2_http_response_writer_write_buf wr w buf offset len =
     (case buf of
        None \<Rightarrow> Inr (AXIS2_FAILURE, w)
      | Some b \<Rightarrow> if length b < len \<and> rw_stream w \<noteq> None then Inl UNDEFINED_BEHAVIOUR else rw_put wr w (take len b))"

definition axis2_http_response_writer_print_str ::
    "'s writer \<Rightarrow> 's response_writer \<Rightarrow> string option \<Rightarrow> (axis2_status \<times> 's response_writer) result" where
  "axis2_http_response_writer_print_str wr w str =
     (case str of None \<Rightarrow> Inr (AXIS2_FAILURE, w) | Some s \<Rightarrow> rw_put wr w s)"

text \<open>\<^verbatim>\<open>%10d\<close> prints at least ten characters and a NUL into \<^verbatim>\<open>int_str[10]\<close>.\<close>

definition axis2_http_response_writer_print_int ::
    "'s writer \<Rightarrow> 's response_writer \<Rightarrow> int \<Rightarrow> (axis2_status \<times> 's response_writer) result" where
  "axis2_http_response_writer_print_int wr w i =
     (let int_str = replicate (10 - length (print_int i)) (CHR '' '') @ print_int i in
      if 10 < length int_str + 1 then Inl UNDEFINED_BEHAVIOUR
      else axis2_http_response_writer_print_str wr w (Some int_str))"

definition axis2_http_response_writer_println_str ::
    "'s writer \<Rightarrow> 's response_writer \<Rightarrow> string option \<Rightarrow> (axis2_status \<times> 's response_writer) result" where
  "axis2_http_response_writer_println_str wr w str =
     (if str = None then Inr (AXIS2_FAILURE, w)
      else
        res_bind (axis2_http_response_writer_print_str wr w str) (\<lambda>(status, w').
          if status = AXIS2_SUCCESS then axis2_http_response_writer_print_str wr w' (Some AXIS2_HTTP_CRLF)
          else Inr (AXIS2_FAILURE, w')))"

definition axis2_http_response_writer_println ::
    "'s writer \<Rightarrow> 's response_writer \<Rightarrow> (axis2_status \<times> 's response_writer) result" where
  "axis2_http_response_writer_println wr w = axis2_http_response_writer_print_str wr w (Some AXIS2_HTTP_CRLF)"

section \<open>The connection of the server\<close>

record svr_conn =
  conn_stream :: "socket_stream option"
  conn_keep_alive :: bool

definition axis2_simple_http_svr_conn_set_keep_alive :: "svr_conn \<Rightarrow> bool \<Rightarrow> svr_conn" where
  "axis2_simple_http_svr_conn_set_keep_alive c keep_alive = c\<lparr>conn_keep_alive := keep_alive\<rparr>"

definition axis2_simple_http_svr_conn_is_keep_alive :: "svr_conn \<Rightarrow> bool" where
  "axis2_simple_http_svr_conn_is_keep_alive c = conn_keep_alive c"

definition axis2_simple_http_svr_conn_get_stream :: "svr_conn \<Rightarrow> socket_stream option" where
  "axis2_simple_http_svr_conn_get_stream c = conn_stream c"

definition axis2_simple_http_svr_conn_get_writer :: "alloc \<Rightarrow> svr_conn \<Rightarrow> socket_stream response_writer result" where
  "axis2_simple_http_svr_conn_get_writer malloc c = axis2_http_response_writer_create malloc (conn_stream c)"

text \<open>The text a read has stored in \<^verbatim>\<open>tmp_buf\<close>, appended to the line; the line stays when the copy cannot be allocated.\<close>

definition append_line :: "alloc \<Rightarrow> string option \<Rightarrow> string \<Rightarrow> string option result" where
  "append_line malloc str_line bytes =
     (case axutil_stracat malloc str_line (Some (takeWhile (\<lambda>c. c \<noteq> NUL) bytes)) of
        Inl e \<Rightarrow> if e = UNDEFINED_BEHAVIOUR then Inl e else Inr str_line
      | Inr tmp_str_line \<Rightarrow> Inr tmp_str_line)"

text \<open>
  The two loops of \<^verbatim>\<open>axis2_simple_http_svr_conn_read_request\<close> that read a line: they look at what has arrived and take it up to its first
  line end, or all of it when there is none. The result has the flags \<^verbatim>\<open>end_of_line\<close> and \<^verbatim>\<open>is_read\<close>.
\<close>

definition PEEK_SIZE :: nat where "PEEK_SIZE = 2048 - 1"

partial_function (option) peek_line ::
    "alloc \<Rightarrow> socket_stream option \<Rightarrow> string option \<Rightarrow> bool \<Rightarrow> (string option \<times> bool \<times> bool \<times> socket_stream option) result option" where
  "peek_line malloc stream str_line is_read =
     (case axutil_stream_peek_socket stream PEEK_SIZE of
        (read, tmp_buf, stream1) \<Rightarrow>
          if read \<le> 0 then Some (Inr (str_line, False, is_read, stream1))
          else
            (case stream1 of
               None \<Rightarrow> Some (Inl UNDEFINED_BEHAVIOUR)
             | Some s \<Rightarrow>
                 (case strstr (takeWhile (\<lambda>c. c \<noteq> NUL) tmp_buf) AXIS2_HTTP_CRLF of
                    Some end \<Rightarrow>
                      (case axutil_stream_read_socket s (end + 2) of
                         Inl e \<Rightarrow> Some (Inl e)
                       | Inr (n, bytes, s') \<Rightarrow>
                           if n > 0 then
                             Some (res_bind (append_line malloc str_line bytes) (\<lambda>l. Inr (l, True, True, Some s')))
                           else Some (Inr (str_line, False, True, Some s')))
                  | None \<Rightarrow>
                      (case axutil_stream_read_socket s PEEK_SIZE of
                         Inl e \<Rightarrow> Some (Inl e)
                       | Inr (n, bytes, s') \<Rightarrow>
                           if n > 0 then
                             (case append_line malloc str_line bytes of
                                Inl e \<Rightarrow> Some (Inl e)
                              | Inr l \<Rightarrow> peek_line malloc (Some s') l True)
                           else peek_line malloc (Some s') str_line True))))"

text \<open>The loop over the headers. A line without a colon is dropped. A failure to add the header is not looked at.\<close>

partial_function (option) request_headers ::
    "alloc \<Rightarrow> socket_stream option \<Rightarrow> socket_stream simple_request \<Rightarrow> string option \<Rightarrow>
     (socket_stream simple_request \<times> socket_stream option) result option" where
  "request_headers malloc stream request str_line =
     Option.bind (peek_line malloc stream str_line False) (\<lambda>r.
       case r of
         Inl e \<Rightarrow> Some (Inl e)
       | Inr (line, end_of_line, is_read, stream1) \<Rightarrow>
           if end_of_line then
             if axutil_strcmp line (Some AXIS2_HTTP_CRLF) = 0 then Some (Inr (request, stream1))
             else
               request_headers malloc stream1
                 (case axis2_http_header_create_by_str malloc line of
                    Inl _ \<Rightarrow> request
                  | Inr tmp_header \<Rightarrow>
                      (case axis2_http_simple_request_add_header malloc request (Some tmp_header) of
                         Inl _ \<Rightarrow> request | Inr request' \<Rightarrow> request')) None
           else if is_read then request_headers malloc stream1 request line
           else Some (Inr (request, stream1)))"

text \<open>A request that cannot be allocated is used all the same where a header is added to it.\<close>

definition axis2_simple_http_svr_conn_read_request ::
    "alloc \<Rightarrow> svr_conn \<Rightarrow> (socket_stream simple_request \<times> svr_conn) result option" where
  "axis2_simple_http_svr_conn_read_request malloc c =
     Option.bind (peek_line malloc (conn_stream c) None False) (\<lambda>r.
       case r of
         Inl e \<Rightarrow> Some (Inl e)
       | Inr (str_line, _, _, stream1) \<Rightarrow>
           (case axis2_http_request_line_parse_line malloc str_line of
              Inl _ \<Rightarrow> Some (Inl INVALID_HTTP_HEADER_START_LINE)
            | Inr request_line \<Rightarrow>
                (case axis2_http_simple_request_create malloc (Inl NO_MEMORY) (Some request_line) None 0 stream1 of
                   Inl _ \<Rightarrow> Some (Inl UNDEFINED_BEHAVIOUR)
                 | Inr request \<Rightarrow>
                     Option.bind (request_headers malloc stream1 request None) (\<lambda>r.
                       Some (res_bind r (\<lambda>(request', stream2).
                         Inr (request'\<lparr>req_stream := stream2\<rparr>, c\<lparr>conn_stream := stream2\<rparr>)))))))"

definition AXIS2_HTTP_HEADER_TRANSFER_ENCODING :: string where "AXIS2_HTTP_HEADER_TRANSFER_ENCODING = ''Transfer-Encoding''"
definition AXIS2_HTTP_HEADER_TRANSFER_ENCODING_CHUNKED :: string where "AXIS2_HTTP_HEADER_TRANSFER_ENCODING_CHUNKED = ''chunked''"
definition AXIS2_HTTP_HEADER_ACCEPT_MULTIPART_RELATED :: string where "AXIS2_HTTP_HEADER_ACCEPT_MULTIPART_RELATED = ''multipart/related''"
definition AXIS2_HTTP_HEADER_ACCEPT_XOP_XML :: string where "AXIS2_HTTP_HEADER_ACCEPT_XOP_XML = ''application/xop+xml''"

text \<open>The headers, printed one after another; the answers of the writer are not looked at.\<close>

fun print_headers ::
    "alloc \<Rightarrow> 's writer \<Rightarrow> http_header option list \<Rightarrow> 's response_writer \<Rightarrow> 's response_writer result" where
  "print_headers malloc wr [] w = Inr w"
| "print_headers malloc wr (h # hs) w =
     (case h of
        None \<Rightarrow> print_headers malloc wr hs w
      | Some _ \<Rightarrow>
          res_bind (axis2_http_header_to_external_form malloc h) (\<lambda>header_ext_form.
          res_bind (axis2_http_response_writer_print_str wr w (Some header_ext_form)) (\<lambda>(_, w').
            print_headers malloc wr hs w')))"

text \<open>The loop that writes the body as a chunk until \<^verbatim>\<open>left\<close> is used up.\<close>

partial_function (option) chunk_body_loop ::
    "'s writer \<Rightarrow> 's chunked_stream \<Rightarrow> string \<Rightarrow> int \<Rightarrow> 's chunked_stream result option" where
  "chunk_body_loop wr cs body left =
     (if left > 0 then
        (case axutil_http_chunked_stream_write wr cs (Some body) of
           Inl e \<Rightarrow> Some (Inl e)
         | Inr (n, cs') \<Rightarrow> chunk_body_loop wr cs' body (left - n))
      else Some (Inr cs))"

text \<open>Whether the body is chunked, and the response without a length if so.\<close>

definition response_chunked :: "'st simple_response \<Rightarrow> (bool \<times> 'st simple_response) result" where
  "response_chunked r =
     res_bind (axis2_http_simple_response_get_first_header r (Some AXIS2_HTTP_HEADER_TRANSFER_ENCODING)) (\<lambda>enc_header.
       if axutil_strcmp (Option.bind enc_header axis2_http_header_get_value) (Some AXIS2_HTTP_HEADER_TRANSFER_ENCODING_CHUNKED) = 0 then
         res_bind (axis2_http_simple_response_contains_header r (Some AXIS2_HTTP_HEADER_CONTENT_LENGTH)) (\<lambda>has.
           if has then
             res_bind (axis2_http_simple_response_remove_headers r (Some AXIS2_HTTP_HEADER_CONTENT_LENGTH)) (\<lambda>r'. Inr (True, r'))
           else Inr (True, r))
       else Inr (False, r))"

text \<open>
  The body: its length, and the buffer of the stream, in which a NUL is stored behind the body; the stream is emptied.
\<close>

definition response_body :: "basic_stream simple_response \<Rightarrow> (int \<times> string \<times> basic_stream simple_response) result" where
  "response_body r =
     (case axis2_http_simple_response_get_body r of
        None \<Rightarrow> Inr (0, [], r)
      | Some st \<Rightarrow>
          let body_size = axutil_stream_get_len st in
          (case axutil_stream_get_buffer st of
             None \<Rightarrow> Inl UNDEFINED_BEHAVIOUR
           | Some b \<Rightarrow>
               if body_size < 0 \<or> int (length b) \<le> body_size then Inl UNDEFINED_BEHAVIOUR
               else Inr (body_size, take (nat body_size) b, r\<lparr>rsp_stream := Some (axutil_stream_flush_buffer st)\<rparr>)))"

text \<open>
  \<open>mtom\<close> stands for the branch that sends attachments. A body that is not chunked is printed as a string, up to its first NUL.
\<close>

definition axis2_simple_http_svr_conn_write_response ::
    "alloc \<Rightarrow> (socket_stream option \<Rightarrow> (axis2_status \<times> socket_stream option) result) \<Rightarrow> svr_conn \<Rightarrow> basic_stream simple_response option \<Rightarrow>
     (svr_conn \<times> basic_stream simple_response) result option" where
  "axis2_simple_http_svr_conn_write_response malloc mtom c response =
     (case response of
        None \<Rightarrow> Some (Inl INVALID_NULL_PARAM)
      | Some r \<Rightarrow>
          (case
             res_bind (axis2_http_simple_response_get_content_type r) (\<lambda>content_type.
             res_bind (axis2_http_response_writer_create malloc (conn_stream c)) (\<lambda>w.
             res_bind (response_chunked r) (\<lambda>(chunked, r1).
               case axis2_http_simple_response_get_status_line r1 of
                 None \<Rightarrow> Inl INVALID_HTTP_HEADER_START_LINE
               | Some status_line \<Rightarrow>
                   res_bind (axis2_http_response_writer_print_str axutil_stream_write_socket w (Some status_line)) (\<lambda>(_, w1).
                   res_bind (print_headers malloc axutil_stream_write_socket
                       (case axis2_http_simple_response_get_headers r1 of None \<Rightarrow> [] | Some g \<Rightarrow> al_list g) w1) (\<lambda>w2.
                   res_bind (axis2_http_response_writer_println axutil_stream_write_socket w2) (\<lambda>(_, w3).
                   res_bind (response_body r1) (\<lambda>(body_size, body, r2).
                     Inr (content_type, chunked, w3, body_size, body, r2)))))))) of
             Inl e \<Rightarrow> Some (Inl e)
           | Inr (content_type, chunked, w, body_size, body, r2) \<Rightarrow>
               let binary_content = (case content_type of None \<Rightarrow> False
                     | Some t \<Rightarrow> strstr t AXIS2_HTTP_HEADER_ACCEPT_MULTIPART_RELATED \<noteq> None \<and> strstr t AXIS2_HTTP_HEADER_ACCEPT_XOP_XML \<noteq> None)
               in
               if body_size \<le> 0 \<and> \<not> binary_content then Some (Inr (c\<lparr>conn_stream := rw_stream w\<rparr>, r2))
               else if \<not> chunked \<and> \<not> binary_content then
                 Some (res_bind (axis2_http_response_writer_println_str axutil_stream_write_socket w (Some (takeWhile (\<lambda>c. c \<noteq> NUL) body)))
                   (\<lambda>(status, w'). if status = AXIS2_SUCCESS then Inr (c\<lparr>conn_stream := rw_stream w'\<rparr>, r2) else Inl WRITING_RESPONSE))
               else if binary_content then
                 Some (res_bind (mtom (rw_stream w)) (\<lambda>(status, s).
                   if status = AXIS2_SUCCESS then Inr (c\<lparr>conn_stream := s\<rparr>, r2) else Inl FAILURE_STATUS))
               else
                 (case axutil_http_chunked_stream_create malloc (rw_stream w) of
                    Inl _ \<Rightarrow> Some (Inl UNDEFINED_BEHAVIOUR)
                  | Inr cs \<Rightarrow>
                      Option.bind (chunk_body_loop axutil_stream_write_socket cs body body_size) (\<lambda>r.
                        Some (res_bind r (\<lambda>cs1.
                          res_bind (axutil_http_chunked_stream_write_last_chunk axutil_stream_write_socket cs1) (\<lambda>(_, cs2).
                            Inr (c\<lparr>conn_stream := cs_stream cs2\<rparr>, r2))))))))"

end
