(* ===== verification/Util_Url.thy ===== *)
theory Util_Url
  imports C_String C_Number "HOL-Library.Sublist"
begin

text \<open>
  URLs (\<^verbatim>\<open>util/src/url.c\<close>, and the default ports of \<^verbatim>\<open>util/src/uri.c\<close>): creation from parts, parsing, printing, the accessors,
  and the escapes of \<^verbatim>\<open>axutil_url_encode\<close>. The main results are that a URL is read back from its text, and what the escapes are.
\<close>

section \<open>Ports\<close>

definition schemes :: "(string \<times> int) list" where
  "schemes =
     [(''http'', 80), (''ftp'', 21), (''https'', 443), (''gopher'', 70), (''ldap'', 389), (''nntp'', 119), (''snews'', 563), (''imap'', 143),
      (''pop'', 110), (''sip'', 5060), (''rtsp'', 554), (''wais'', 210), (''z39.50r'', 210), (''z39.50s'', 210), (''prospero'', 191), (''nfs'', 2049),
      (''tip'', 3372), (''acap'', 674), (''telnet'', 23), (''ssh'', 22)]"

definition axutil_uri_port_of_scheme :: "string option \<Rightarrow> int" where
  "axutil_uri_port_of_scheme scheme_str =
     (case scheme_str of
        None \<Rightarrow> 0
      | Some s \<Rightarrow> (case find (\<lambda>scheme. axutil_strcasecmp s (fst scheme) = 0) schemes of None \<Rightarrow> 0 | Some scheme \<Rightarrow> snd scheme))"

section \<open>The structure\<close>

text \<open>
  The pointer to the text of the server may be left dangling: \<open>Freed\<close> is a pointer to a block that was freed.
\<close>

datatype server = No_Server | Server string | Freed

record axutil_url =
  url_protocol :: "string option"
  url_host :: "string option"
  url_port :: int
  url_path :: "string option"
  url_query :: "string option"
  url_server :: server

definition sizeof_url :: nat where "sizeof_url = 48"

text \<open>The path with a slash in front, without the query, and the query with its question mark or hash. The copies are not checked.\<close>

definition split_query :: "alloc \<Rightarrow> string \<Rightarrow> (string option \<times> string option) result" where
  "split_query malloc path =
     (let temp = (if front path = CHR ''/'' then axutil_strdup malloc (Some path) else axutil_stracat malloc (Some ''/'') (Some path)) in
      case ret_ptr temp of
        None \<Rightarrow> Inl UNDEFINED_BEHAVIOUR
      | Some t \<Rightarrow>
          (case (case strchr t (CHR ''?'') of None \<Rightarrow> strchr t (CHR ''#'') | Some i \<Rightarrow> Some i) of
             None \<Rightarrow> Inr (ret_ptr (axutil_strdup malloc (Some t)), None)
           | Some i \<Rightarrow> Inr (ret_ptr (axutil_strdup malloc (Some (take i t))), ret_ptr (axutil_strdup malloc (Some (drop i t))))))"

definition axutil_url_create :: "alloc \<Rightarrow> string option \<Rightarrow> string option \<Rightarrow> int \<Rightarrow> string option \<Rightarrow> axutil_url result" where
  "axutil_url_create malloc protocol host port path =
     (case protocol of
        None \<Rightarrow> Inl INVALID_NULL_PARAM
      | Some pr \<Rightarrow>
          if pr = [] \<or> strstr pr ''://'' \<noteq> None \<or> (case host of None \<Rightarrow> False | Some h \<Rightarrow> strchr h (CHR ''/'') \<noteq> None) then Inl FAILURE_STATUS
          else if \<not> malloc sizeof_url then Inl NO_MEMORY
          else
            let u = \<lparr>url_protocol = ret_ptr (axutil_strdup malloc protocol), url_host = ret_ptr (axutil_strdup malloc host),
                     url_port = (case host of None \<Rightarrow> 0 | Some _ \<Rightarrow> port), url_path = None, url_query = None, url_server = No_Server\<rparr> in
            (case path of
               None \<Rightarrow> Inr u
             | Some p \<Rightarrow> res_bind (split_query malloc p) (\<lambda>(path', query). Inr (u\<lparr>url_path := path', url_query := query\<rparr>))))"

section \<open>Parsing\<close>

text \<open>
  Behind the host: without a colon, and with one. In the first case a slash is not part of the path handed on, but a question mark and
  a hash are; \<^verbatim>\<open>axutil_url_create\<close> puts the slash back.
\<close>

definition parse_without_port :: "alloc \<Rightarrow> string \<Rightarrow> string \<Rightarrow> axutil_url result" where
  "parse_without_port malloc protocol host =
     (case strchr host (CHR ''/'') of
        Some i \<Rightarrow> axutil_url_create malloc (Some protocol) (Some (take i host)) 0 (ret_ptr (axutil_strdup malloc (Some (drop (i + 1) host))))
      | None \<Rightarrow>
          (case (case strchr host (CHR ''?'') of None \<Rightarrow> strchr host (CHR ''#'') | Some i \<Rightarrow> Some i) of
             None \<Rightarrow> axutil_url_create malloc (Some protocol) (Some host) 0 (Some ''/'')
           | Some i \<Rightarrow> axutil_url_create malloc (Some protocol) (Some (take i host)) 0 (ret_ptr (axutil_strdup malloc (Some (drop i host))))))"

definition parse_with_port :: "alloc \<Rightarrow> string \<Rightarrow> string \<Rightarrow> string \<Rightarrow> axutil_url result" where
  "parse_with_port malloc protocol host port_str =
     (let (number, path) =
        (case strchr port_str (CHR ''/'') of
           Some i \<Rightarrow> (take i port_str, Some (drop (i + 1) port_str))
         | None \<Rightarrow>
             (case (case strchr port_str (CHR ''?'') of None \<Rightarrow> strchr port_str (CHR ''#'') | Some i \<Rightarrow> Some i) of
                None \<Rightarrow> (port_str, None)
              | Some i \<Rightarrow> (take i port_str, Some (drop i port_str))))
      in res_bind (axutil_atoi number) (\<lambda>port.
           case path of
             None \<Rightarrow> axutil_url_create malloc (Some protocol) (Some host) port (Some ''/'')
           | Some p \<Rightarrow>
               if axutil_strlen (Some p) > 0
               then axutil_url_create malloc (Some protocol) (Some host) port (ret_ptr (axutil_strdup malloc (Some p)))
               else axutil_url_create malloc (Some protocol) (Some host) port (Some ''/'')))"

definition axutil_url_parse_string :: "alloc \<Rightarrow> string option \<Rightarrow> axutil_url result" where
  "axutil_url_parse_string malloc str_url =
     (case str_url of
        None \<Rightarrow> Inl INVALID_NULL_PARAM
      | Some s \<Rightarrow>
          res_bind (axutil_strdup malloc str_url) (\<lambda>_.
            case strstr s ''://'' of
              None \<Rightarrow> Inl INVALID_ADDRESS
            | Some i \<Rightarrow>
                let protocol = take i s; host = drop (i + 3) s in
                if axutil_strlen (Some host) \<le> 0 then Inl INVALID_ADDRESS
                else if axutil_strcasecmp protocol ''file'' = 0 then axutil_url_create malloc (Some protocol) None 0 (Some host)
                else
                  (case strchr host (CHR '':'') of
                     None \<Rightarrow> parse_without_port malloc protocol host
                   | Some j \<Rightarrow> parse_with_port malloc protocol (take j host) (drop (j + 1) host))))"

section \<open>Printing and accessors\<close>

text \<open>The port is printed to an array of eight bytes.\<close>

definition print_port :: "int \<Rightarrow> string result" where
  "print_port port = (if 8 < length (print_int port) + 1 then Inl UNDEFINED_BEHAVIOUR else Inr (print_int port))"

definition axutil_url_to_external_form :: "alloc \<Rightarrow> axutil_url option \<Rightarrow> string option result" where
  "axutil_url_to_external_form malloc url =
     (case url of
        None \<Rightarrow> Inl INVALID_NULL_PARAM
      | Some u \<Rightarrow>
          (case url_protocol u of
             None \<Rightarrow> Inr None
           | Some pr \<Rightarrow>
               res_bind (if url_port u \<noteq> 0 \<and> url_port u \<noteq> axutil_uri_port_of_scheme (url_protocol u)
                 then res_bind (print_port (url_port u)) (\<lambda>p. Inr ('':'' @ p)) else Inr []) (\<lambda>port.
                 let text_of = \<lambda>p. (case p of None \<Rightarrow> [] | Some t \<Rightarrow> t);
                     external_form = pr @ ''://'' @ text_of (url_host u) @ port @ text_of (url_path u) @ text_of (url_query u)
                 in if malloc (length external_form + 3) then Inr (Some external_form) else Inl UNDEFINED_BEHAVIOUR)))"

definition axutil_url_set_protocol :: "alloc \<Rightarrow> axutil_url \<Rightarrow> string option \<Rightarrow> axutil_url result" where
  "axutil_url_set_protocol malloc u protocol =
     (case protocol of None \<Rightarrow> Inl INVALID_NULL_PARAM | Some _ \<Rightarrow> Inr (u\<lparr>url_protocol := ret_ptr (axutil_strdup malloc protocol)\<rparr>))"

definition axutil_url_get_protocol :: "axutil_url \<Rightarrow> string option" where
  "axutil_url_get_protocol u = url_protocol u"

text \<open>
  The text of the server, host and port, is printed to a block with no room for its terminator: \<^verbatim>\<open>len\<close> counts the characters only.
\<close>

definition new_server :: "alloc \<Rightarrow> axutil_url \<Rightarrow> string \<Rightarrow> string result" where
  "new_server malloc u host =
     res_bind (if url_port u \<noteq> 0 \<and> (url_protocol u = None \<or> url_port u \<noteq> axutil_uri_port_of_scheme (url_protocol u))
       then res_bind (print_port (url_port u)) (\<lambda>p. Inr ('':'' @ p)) else Inr []) (\<lambda>port.
       let len = length host + length port in
       if \<not> malloc len \<or> len < length (host @ port) + 1 then Inl UNDEFINED_BEHAVIOUR else Inr (host @ port))"

definition free_server :: "axutil_url \<Rightarrow> axutil_url result" where
  "free_server u = (case url_server u of No_Server \<Rightarrow> Inr u | Server _ \<Rightarrow> Inr (u\<lparr>url_server := Freed\<rparr>) | Freed \<Rightarrow> Inl UNDEFINED_BEHAVIOUR)"

definition axutil_url_set_host :: "alloc \<Rightarrow> axutil_url \<Rightarrow> string option \<Rightarrow> axutil_url result" where
  "axutil_url_set_host malloc u host =
     (case host of
        None \<Rightarrow> Inl INVALID_NULL_PARAM
      | Some _ \<Rightarrow>
          res_bind (free_server (u\<lparr>url_host := ret_ptr (axutil_strdup malloc host)\<rparr>)) (\<lambda>u1.
            case url_host u1 of
              None \<Rightarrow> Inr u1
            | Some h \<Rightarrow> res_bind (new_server malloc u1 h) (\<lambda>s. Inr (u1\<lparr>url_server := Server s\<rparr>))))"

definition axutil_url_get_host :: "axutil_url \<Rightarrow> string option" where
  "axutil_url_get_host u = url_host u"

definition axutil_url_set_server :: "alloc \<Rightarrow> axutil_url \<Rightarrow> string option \<Rightarrow> axutil_url result" where
  "axutil_url_set_server malloc u server =
     (case server of
        None \<Rightarrow> Inl INVALID_NULL_PARAM
      | Some _ \<Rightarrow>
          (case ret_ptr (axutil_strdup malloc server) of
             None \<Rightarrow> Inl UNDEFINED_BEHAVIOUR
           | Some temp \<Rightarrow>
               if front temp = CHR '':'' \<or> strchr temp (CHR ''/'') \<noteq> None then Inl FAILURE_STATUS
               else
                 res_bind (free_server u) (\<lambda>u1.
                   let u2 = u1\<lparr>url_server := (case ret_ptr (axutil_strdup malloc server) of None \<Rightarrow> No_Server | Some s \<Rightarrow> Server s)\<rparr> in
                   case strchr temp (CHR '':'') of
                     None \<Rightarrow> Inr (u2\<lparr>url_port := 0, url_host := ret_ptr (axutil_strdup malloc (Some temp))\<rparr>)
                   | Some i \<Rightarrow>
                       res_bind (axutil_atoi (drop (i + 1) temp)) (\<lambda>port.
                         Inr (u2\<lparr>url_port := port, url_host := ret_ptr (axutil_strdup malloc (Some (take i temp)))\<rparr>)))))"

text \<open>The pointer to the server is left behind when it is freed because there is no host.\<close>

definition axutil_url_get_server :: "alloc \<Rightarrow> axutil_url \<Rightarrow> (string option \<times> axutil_url) result" where
  "axutil_url_get_server malloc u =
     (case url_host u of
        None \<Rightarrow> res_bind (free_server u) (\<lambda>u1. Inr (None, u1))
      | Some h \<Rightarrow>
          (case url_server u of
             No_Server \<Rightarrow> res_bind (new_server malloc u h) (\<lambda>s. Inr (Some s, u\<lparr>url_server := Server s\<rparr>))
           | Server s \<Rightarrow> Inr (Some s, u)
           | Freed \<Rightarrow> Inl UNDEFINED_BEHAVIOUR))"

definition axutil_url_set_port :: "alloc \<Rightarrow> axutil_url \<Rightarrow> int \<Rightarrow> axutil_url result" where
  "axutil_url_set_port malloc u port =
     (if url_port u = port then Inr u
      else
        res_bind (free_server (u\<lparr>url_port := port\<rparr>)) (\<lambda>u1.
          case url_host u1 of
            None \<Rightarrow> Inr u1
          | Some h \<Rightarrow> res_bind (new_server malloc u1 h) (\<lambda>s. Inr (u1\<lparr>url_server := Server s\<rparr>))))"

definition axutil_url_get_port :: "axutil_url \<Rightarrow> int" where
  "axutil_url_get_port u = (if url_port u = 0 then axutil_uri_port_of_scheme (url_protocol u) else url_port u)"

definition axutil_url_set_path :: "alloc \<Rightarrow> axutil_url \<Rightarrow> string option \<Rightarrow> axutil_url result" where
  "axutil_url_set_path malloc u path =
     (case path of None \<Rightarrow> Inl INVALID_NULL_PARAM | Some _ \<Rightarrow> Inr (u\<lparr>url_path := ret_ptr (axutil_strdup malloc path)\<rparr>))"

definition axutil_url_get_path :: "axutil_url \<Rightarrow> string option" where
  "axutil_url_get_path u = url_path u"

definition axutil_url_get_query :: "axutil_url \<Rightarrow> string option" where
  "axutil_url_get_query u = url_query u"

text \<open>The path with the query is put together and thrown away: the clone has the path only.\<close>

definition axutil_url_clone :: "alloc \<Rightarrow> axutil_url \<Rightarrow> axutil_url result" where
  "axutil_url_clone malloc u =
     res_bind (case (url_path u, url_query u) of
         (Some p, Some q) \<Rightarrow> axutil_stracat malloc (Some p) (Some q)
       | (Some p, None) \<Rightarrow> Inr (ret_ptr (axutil_strdup malloc (Some p)))
       | (None, q) \<Rightarrow> Inr (ret_ptr (axutil_strdup malloc q))) (\<lambda>_.
       axutil_url_create malloc (url_protocol u) (url_host u) (url_port u) (url_path u))"

section \<open>Reading a URL back\<close>

lemma url_chars [simp]:
  "CHR ''/'' \<noteq> NUL" "CHR ''?'' \<noteq> NUL" "CHR ''#'' \<noteq> NUL" "CHR '':'' \<noteq> NUL" "NUL \<noteq> CHR ''/''"
  by (simp_all add: NUL_def)

lemma strstr_scheme: "CHR '':'' \<notin> set p \<Longrightarrow> strstr (p @ ''://'' @ r) ''://'' = Some (length p)"
  by (induction p) auto

lemma strstr_no_colon: "CHR '':'' \<notin> set p \<Longrightarrow> strstr p ''://'' = None"
proof (induction p)
  case (Cons c p)
  then show ?case by (cases "c = CHR '':''") auto
qed simp

text \<open>The path of a URL as it is printed, in the two parts that are stored.\<close>

definition full_path :: "string \<Rightarrow> string" where
  "full_path p = (if front p = CHR ''/'' then p else CHR ''/'' # p)"

definition query_at :: "string \<Rightarrow> nat" where
  "query_at t = (case (case strchr t (CHR ''?'') of None \<Rightarrow> strchr t (CHR ''#'') | Some i \<Rightarrow> Some i) of None \<Rightarrow> length t | Some i \<Rightarrow> i)"

definition path_of :: "string \<Rightarrow> string" where
  "path_of p = take (query_at (full_path p)) (full_path p)"

definition query_of :: "string \<Rightarrow> string option" where
  "query_of p = (if CHR ''?'' \<in> set p \<or> CHR ''#'' \<in> set p then Some (drop (query_at (full_path p)) (full_path p)) else None)"

lemma full_path_set: "c \<noteq> CHR ''/'' \<Longrightarrow> c \<in> set (full_path p) \<longleftrightarrow> c \<in> set p"
  by (auto simp: full_path_def)

lemma split_query_ok: "mem_ok malloc \<Longrightarrow> split_query malloc p = Inr (Some (path_of p), query_of p)"
proof -
  assume m: "mem_ok malloc"
  have temp: "(if front p = CHR ''/'' then axutil_strdup malloc (Some p) else axutil_stracat malloc (Some ''/'') (Some p)) = Inr (Some (full_path p))"
    using m by (simp add: full_path_def axutil_stracat_def mem_okD)
  have "strchr (full_path p) (CHR ''?'') = None \<longleftrightarrow> CHR ''?'' \<notin> set p" "strchr (full_path p) (CHR ''#'') = None \<longleftrightarrow> CHR ''#'' \<notin> set p"
    by (simp_all add: strchr_None full_path_set)
  then show ?thesis unfolding split_query_def temp using m
    by (auto simp: path_of_def query_of_def query_at_def split: option.splits)
qed

lemma path_query: "path_of p @ (case query_of p of None \<Rightarrow> [] | Some q \<Rightarrow> q) = full_path p"
proof (cases "query_of p")
  case None
  then have "query_at (full_path p) = length (full_path p)"
    by (simp add: query_of_def query_at_def strchr_None full_path_set split: if_splits)
  then show ?thesis using None by (simp add: path_of_def)
qed (auto simp: path_of_def query_of_def split: if_splits)

lemma url_create_ok:
  assumes "mem_ok malloc" "pr \<noteq> []" "CHR '':'' \<notin> set pr" "CHR ''/'' \<notin> set h"
  shows "axutil_url_create malloc (Some pr) (Some h) port (Some p) =
    Inr \<lparr>url_protocol = Some pr, url_host = Some h, url_port = port, url_path = Some (path_of p), url_query = query_of p, url_server = No_Server\<rparr>"
  using assms by (simp add: axutil_url_create_def strstr_no_colon strchr_None split_query_ok mem_okD)

text \<open>What is parsed behind the slash of a path is completed to the path again, unless it starts with another slash.\<close>

lemma path_back:
  assumes "full_path p = CHR ''/'' # r" "front r \<noteq> CHR ''/''"
  shows "path_of r = path_of p" "query_of r = query_of p"
proof -
  have f: "full_path r = full_path p" using assms by (simp add: full_path_def)
  then show "path_of r = path_of p" by (simp add: path_of_def)
  have "c \<in> set r \<longleftrightarrow> c \<in> set p" if "c \<noteq> CHR ''/''" for c
    using full_path_set [OF that, of p] that assms(1) by simp
  then show "query_of r = query_of p" using f by (simp add: query_of_def)
qed

lemma parse_without_port_ok:
  assumes "mem_ok malloc" "pr \<noteq> []" "CHR '':'' \<notin> set pr" "CHR ''/'' \<notin> set h" "front r \<noteq> CHR ''/''"
  shows "parse_without_port malloc pr (h @ CHR ''/'' # r) = axutil_url_create malloc (Some pr) (Some h) 0 (Some r)"
  using assms by (simp add: parse_without_port_def strchr_split)

lemma parse_with_port_ok:
  assumes "mem_ok malloc" "0 < port" "port < 2 ^ 31"
  shows "parse_with_port malloc pr h (print_int port @ CHR ''/'' # r) =
    axutil_url_create malloc (Some pr) (Some h) port (Some (if r = [] then ''/'' else r))"
proof -
  have d: "CHR ''/'' \<notin> set (print_int port)"
    using print_base_digits [of 10 "nat port", simplified] assms(2) by (auto simp: print_int_def is_digit_def digit_val_def)
  have "axutil_atoi (print_int port) = Inr port"
    using atoi_print [of "nat port" "[]"] assms(2,3) by (simp add: print_int_def)
  then show ?thesis using d assms(1)
    by (auto simp: parse_with_port_def strchr_split axutil_strlen_def)
qed

lemma full_path_slash: "\<not> prefix ''//'' p \<Longrightarrow> \<exists>r. full_path p = CHR ''/'' # r \<and> front r \<noteq> CHR ''/''"
proof (cases "front p = CHR ''/''")
  case True
  moreover assume "\<not> prefix ''//'' p"
  ultimately show ?thesis by (cases p; cases "tl p") (auto simp: full_path_def front_def NUL_def)
qed (simp add: full_path_def)

lemma print_port_ok: "0 < port \<Longrightarrow> port < 10 ^ 7 \<Longrightarrow> print_port port = Inr (print_int port)"
  using print_base_length [of 10 "nat port" 7] by (simp add: print_port_def print_int_def nat_less_iff)

text \<open>
  C31: a URL printed by \<^verbatim>\<open>axutil_url_to_external_form\<close> is parsed back: the same protocol, host, path and query, and the same
  port, except that a port which is the default one of the protocol is not printed. This holds for protocols without a colon other than
  \<^verbatim>\<open>file\<close>, hosts without a colon or a slash, ports of up to seven digits, and paths that do not start with two slashes; a path with a colon needs
  a port that is printed, since a URL without one is refused (\<open>colon_in_path_refused\<close>).
\<close>

theorem url_roundtrip:
  assumes "mem_ok malloc" "axutil_url_create malloc (Some pr) (Some h) port (Some p) = Inr u"
    and pr: "CHR '':'' \<notin> set pr" "axutil_strcasecmp pr ''file'' \<noteq> 0" and h: "CHR '':'' \<notin> set h"
    and port: "0 \<le> port" "port < 10 ^ 7" and p: "\<not> prefix ''//'' p" "CHR '':'' \<notin> set p \<or> port \<notin> {0, axutil_uri_port_of_scheme (Some pr)}"
  shows "\<exists>t u'. axutil_url_to_external_form malloc (Some u) = Inr (Some t) \<and> axutil_url_parse_string malloc (Some t) = Inr u' \<and>
    u' = u\<lparr>url_port := if port = axutil_uri_port_of_scheme (Some pr) then 0 else port\<rparr> \<and> axutil_url_get_port u' = axutil_url_get_port u"
proof -
  note m = assms(1)
  have pr0: "pr \<noteq> []" and h0: "CHR ''/'' \<notin> set h"
    using assms(2) by (auto simp: axutil_url_create_def strchr_None split: if_splits)
  have u: "u = \<lparr>url_protocol = Some pr, url_host = Some h, url_port = port, url_path = Some (path_of p), url_query = query_of p, url_server = No_Server\<rparr>"
    using assms(2) url_create_ok [OF m pr0 pr(1) h0] by simp
  obtain r where r: "full_path p = CHR ''/'' # r" "front r \<noteq> CHR ''/''" using full_path_slash [OF p(1)] by blast
  let ?printed = "port \<noteq> 0 \<and> port \<noteq> axutil_uri_port_of_scheme (Some pr)"
  let ?ps = "if ?printed then '':'' @ print_int port else []"
  let ?t = "pr @ ''://'' @ h @ ?ps @ full_path p"
  have ext: "axutil_url_to_external_form malloc (Some u) = Inr (Some ?t)"
    using port print_port_ok path_query [of p] m by (auto simp: u axutil_url_to_external_form_def mem_okD Let_def split: option.splits)
  have "take (length pr) ?t = pr" "drop (length pr + 3) ?t = h @ ?ps @ full_path p" by simp_all
  then have parse: "axutil_url_parse_string malloc (Some ?t) = (case strchr (h @ ?ps @ full_path p) (CHR '':'') of
      None \<Rightarrow> parse_without_port malloc pr (h @ ?ps @ full_path p)
    | Some j \<Rightarrow> parse_with_port malloc pr (take j (h @ ?ps @ full_path p)) (drop (j + 1) (h @ ?ps @ full_path p)))"
    using m pr(2) strstr_scheme [OF pr(1), of "h @ ?ps @ full_path p"] r(1)
    by (simp only: axutil_url_parse_string_def option.case strdup_ok res_bind_simps Let_def) (simp add: axutil_strlen_def)
  have create: "axutil_url_create malloc (Some pr) (Some h) k (Some s) = Inr (u\<lparr>url_port := k\<rparr>)" if "s = r \<or> s = ''/'' \<and> r = []" for k s
  proof -
    have "path_of s = path_of p" "query_of s = query_of p"
      using that path_back [OF r] path_back [of "''/''" "[]"] by (auto simp: full_path_def front_def)
    then show ?thesis using url_create_ok [OF m pr0 pr(1) h0, of k s] by (simp add: u)
  qed
  have "axutil_url_parse_string malloc (Some ?t) = Inr (u\<lparr>url_port := if ?printed then port else 0\<rparr>)"
  proof (cases ?printed)
    case True
    then have "strchr (h @ ?ps @ full_path p) (CHR '':'') = Some (length h)" using strchr_split [OF url_chars(4) h] by simp
    then show ?thesis using True parse parse_with_port_ok [OF m, of port pr h r] port r(1) create by auto
  next
    case False
    then have "CHR '':'' \<notin> set (h @ ?ps @ full_path p)" using p(2) h by (auto simp: full_path_set)
    then have "strchr (h @ ?ps @ full_path p) (CHR '':'') = None" by (simp add: strchr_None)
    then show ?thesis using False parse parse_without_port_ok [OF m pr0 pr(1) h0 r(2)] r(1) create by auto
  qed
  then show ?thesis using ext by (auto simp: axutil_url_get_port_def u)
qed

theorem url_roundtrip_witness:
  "\<exists>u t u'. axutil_url_create (\<lambda>n. True) (Some ''http'') (Some ''localhost'') 9090 (Some ''axis2/services/echo?a=b:c'') = Inr u \<and>
    axutil_url_to_external_form (\<lambda>n. True) (Some u) = Inr (Some t) \<and> axutil_url_parse_string (\<lambda>n. True) (Some t) = Inr u' \<and>
    url_path u' = Some ''/axis2/services/echo'' \<and> axutil_url_get_port u' = 9090"
proof -
  let ?p = "''axis2/services/echo?a=b:c''"
  obtain u where u: "axutil_url_create (\<lambda>n. True) (Some ''http'') (Some ''localhost'') 9090 (Some ?p) = Inr u"
      "url_path u = Some (path_of ?p)" "url_port u = 9090"
    using url_create_ok [of "\<lambda>n. True" "''http''" "''localhost''" 9090 ?p] by simp
  have c: "path_of ?p = ''/axis2/services/echo''" "axutil_strcasecmp ''http'' ''file'' \<noteq> 0" "axutil_uri_port_of_scheme (Some ''http'') = 80"
    by code_simp+
  then have "\<exists>t u'. axutil_url_to_external_form (\<lambda>n. True) (Some u) = Inr (Some t) \<and> axutil_url_parse_string (\<lambda>n. True) (Some t) = Inr u' \<and>
      u' = u\<lparr>url_port := if 9090 = axutil_uri_port_of_scheme (Some ''http'') then 0 else 9090\<rparr> \<and> axutil_url_get_port u' = axutil_url_get_port u"
    by (intro url_roundtrip [OF mem_ok_True u(1)]) simp_all
  then obtain t u' where "axutil_url_to_external_form (\<lambda>n. True) (Some u) = Inr (Some t)" "axutil_url_parse_string (\<lambda>n. True) (Some t) = Inr u'"
      "u' = u\<lparr>url_port := 9090\<rparr>" using c(3) by auto
  then show ?thesis using u c(1) by (intro exI [of _ u] exI [of _ t] exI [of _ u']) (simp add: axutil_url_get_port_def)
qed

text \<open>
  A colon behind the slash of a URL without a port is taken for the one in front of the port, and the URL is refused: the host then contains
  the slash.
\<close>

lemma colon_in_path_refused:
  assumes "mem_ok malloc" "CHR '':'' \<notin> set pr" "axutil_strcasecmp pr ''file'' \<noteq> 0" "CHR '':'' \<notin> set h" "CHR '':'' \<notin> set a"
  shows "\<exists>e. axutil_url_parse_string malloc (Some (pr @ ''://'' @ h @ CHR ''/'' # a @ CHR '':'' # b)) = Inl e"
proof -
  let ?r = "(h @ CHR ''/'' # a) @ CHR '':'' # b"
  have c: "axutil_url_create malloc (Some pr) (Some (h @ CHR ''/'' # a)) k p = Inl FAILURE_STATUS" for k p
    using strchr_None [OF url_chars(1), of "h @ CHR ''/'' # a"] by (simp add: axutil_url_create_def)
  have "\<exists>e. parse_with_port malloc pr (h @ CHR ''/'' # a) b = Inl e"
    by (auto simp: parse_with_port_def c res_bind_def Let_def split: option.splits sum.splits)
  moreover have "strchr ?r (CHR '':'') = Some (length (h @ CHR ''/'' # a))"
    by (rule strchr_split) (use assms in auto)
  moreover have "take (length (h @ CHR ''/'' # a)) ?r = h @ CHR ''/'' # a" "drop (length (h @ CHR ''/'' # a) + 1) ?r = b" by simp_all
  ultimately show ?thesis using assms(1,3) strstr_scheme [OF assms(2), of ?r]
    by (simp add: axutil_url_parse_string_def axutil_strlen_def del: length_append)
qed

text \<open>
  The text of the server never fits the block allocated for it: setting the host, changing the port of a URL with a host, and asking for
  the server when it is not stored all write past a block. A clone has no query.
\<close>

lemma new_server_overflows: "new_server malloc u h = Inl UNDEFINED_BEHAVIOUR"
  by (auto simp: new_server_def print_port_def Let_def)

lemma set_host_overflows: "mem_ok malloc \<Longrightarrow> axutil_url_set_host malloc u (Some h) = Inl UNDEFINED_BEHAVIOUR"
  by (auto simp: axutil_url_set_host_def free_server_def new_server_overflows split: server.splits)

lemma clone_drops_query:
  assumes "mem_ok malloc" "axutil_url_create malloc (Some pr) (Some h) port (Some p) = Inr u" "CHR '':'' \<notin> set pr" "CHR ''#'' \<notin> set p"
  shows "\<exists>u'. axutil_url_clone malloc u = Inr u' \<and> url_query u' = None"
proof -
  have ok: "pr \<noteq> []" "CHR ''/'' \<notin> set h" using assms(2) by (auto simp: axutil_url_create_def strchr_None split: if_splits)
  have u: "u = \<lparr>url_protocol = Some pr, url_host = Some h, url_port = port, url_path = Some (path_of p), url_query = query_of p, url_server = No_Server\<rparr>"
    using assms(2) url_create_ok [OF assms(1) ok(1) assms(3) ok(2)] by simp
  have "CHR ''#'' \<notin> set (full_path p)" using assms(4) by (simp add: full_path_set)
  then have "CHR ''#'' \<notin> set (path_of p)" by (auto simp: path_of_def dest: in_set_takeD)
  moreover have "CHR ''?'' \<notin> set (path_of p)"
  proof (cases "strchr (full_path p) (CHR ''?'')")
    case None
    then have "CHR ''?'' \<notin> set (full_path p)" by (simp add: strchr_None)
    then show ?thesis by (auto simp: path_of_def dest: in_set_takeD)
  next
    case (Some i)
    then show ?thesis using strchr_Some [OF url_chars(2) Some] by (auto simp: path_of_def query_at_def)
  qed
  ultimately have "query_of (path_of p) = None" by (simp add: query_of_def)
  then show ?thesis using url_create_ok [OF assms(1) ok(1) assms(3) ok(2)] assms(1)
    by (auto simp: axutil_url_clone_def u axutil_stracat_def mem_okD split: option.splits)
qed

end
