(* ===== verification/Http_Client.thy ===== *)
theory Http_Client
  imports Http_Conn Util_Url
begin

text \<open>
  The HTTP client (\<^verbatim>\<open>src/core/transport/http/sender/http_client.c\<close>), and the functions of \<^verbatim>\<open>http_simple_request.c\<close> and
  \<^verbatim>\<open>http_simple_response.c\<close> that take the whole body out of a stream. The model is that of a build without TLS; opening a connection and sending
  attachments are parameters.
\<close>

section \<open>The bytes of a body\<close>

text \<open>
  Without a content length the body of a request is read in pieces of 128 bytes, each taken as a string. The request has its body in a basic
  stream, which puts a NUL behind the bytes it delivers.
\<close>

partial_function (option) body_loop :: "alloc \<Rightarrow> basic_stream \<Rightarrow> string option \<Rightarrow> (string option \<times> basic_stream) result option" where
  "body_loop malloc body tmp_buf =
     (case axutil_stream_read_basic body 128 of
        Inl e \<Rightarrow> Some (Inl e)
      | Inr (n, bytes, body') \<Rightarrow>
          if n > 0 then
            (case axutil_stracat malloc tmp_buf (Some (c_string bytes)) of
               Inl e \<Rightarrow> if e = UNDEFINED_BEHAVIOUR then Some (Inl e) else body_loop malloc body' None
             | Inr tmp_buf3 \<Rightarrow> body_loop malloc body' tmp_buf3)
          else Some (Inr (tmp_buf, body')))"

definition axis2_http_simple_request_get_body_bytes ::
    "alloc \<Rightarrow> basic_stream simple_request \<Rightarrow> (string \<times> basic_stream simple_request) result option" where
  "axis2_http_simple_request_get_body_bytes malloc r =
     (case req_stream r of
        None \<Rightarrow> Some (if malloc 1 then Inr ([], r) else Inl UNDEFINED_BEHAVIOUR)
      | Some body \<Rightarrow>
          (case axis2_http_simple_request_get_content_length r of
             Inl e \<Rightarrow> Some (Inl e)
           | Inr n \<Rightarrow>
               let len = (if n < 2 ^ 31 then n else n - 2 ^ 32) in
               if len > 0 then
                 Some (if len = 2 ^ 31 - 1 \<or> \<not> malloc (nat len + 1) then Inl UNDEFINED_BEHAVIOUR
                   else res_bind (axutil_stream_read_basic body (nat len + 1)) (\<lambda>(read_len, bytes, body').
                     Inr (bytes, r\<lparr>req_stream := Some body'\<rparr>)))
               else if \<not> malloc 128 then Some (Inl UNDEFINED_BEHAVIOUR)
               else
                 Option.bind (body_loop malloc body None) (\<lambda>p. Some (res_bind p (\<lambda>(tmp_buf, body').
                   let r' = r\<lparr>req_stream := Some body'\<rparr> in
                   case tmp_buf of
                     Some text \<Rightarrow> Inr (text, r')
                   | None \<Rightarrow> if malloc 1 then Inr ([], r') else Inl UNDEFINED_BEHAVIOUR)))))"

text \<open>
  The body of a response is copied to a basic stream in pieces of 2048 bytes, until a piece is shorter: on a connection this is the first
  piece that has not arrived whole. The block for the result is not checked: the test is on the pointer to the pointer.
\<close>

definition AXIS2_HTTP_SIMPLE_RESPONSE_READ_SIZE :: nat where "AXIS2_HTTP_SIMPLE_RESPONSE_READ_SIZE = 2048"

partial_function (option) copy_body_loop ::
    "alloc \<Rightarrow> 's reader \<Rightarrow> 's \<Rightarrow> basic_stream \<Rightarrow> ('s \<times> basic_stream) result option" where
  "copy_body_loop malloc rd s tmp_stream =
     (case rd s AXIS2_HTTP_SIMPLE_RESPONSE_READ_SIZE of
        Inl e \<Rightarrow> Some (Inl e)
      | Inr (read, buf, s') \<Rightarrow>
          if read < 0 then Some (Inr (s', tmp_stream))
          else
            (case axutil_stream_write_basic malloc tmp_stream buf of
               Inl e \<Rightarrow> Some (Inl e)
             | Inr (_, tmp_stream') \<Rightarrow>
                 if read < int AXIS2_HTTP_SIMPLE_RESPONSE_READ_SIZE - 1 then Some (Inr (s', tmp_stream'))
                 else copy_body_loop malloc rd s' tmp_stream'))"

definition axis2_http_simple_response_get_body_bytes ::
    "alloc \<Rightarrow> 's reader \<Rightarrow> 's simple_response \<Rightarrow> (int \<times> string \<times> 's simple_response) result option" where
  "axis2_http_simple_response_get_body_bytes malloc rd r =
     (case rsp_stream r of
        None \<Rightarrow> Some (Inr (-1, [], r))
      | Some s \<Rightarrow>
          (case axutil_stream_create_basic malloc of
             Inl _ \<Rightarrow> Some (Inl UNDEFINED_BEHAVIOUR)
           | Inr tmp_stream \<Rightarrow>
               Option.bind (copy_body_loop malloc rd s tmp_stream) (\<lambda>p. Some (res_bind p (\<lambda>(s', tmp_stream').
                 let return_size = axutil_stream_get_len tmp_stream'; r' = r\<lparr>rsp_stream := Some s'\<rparr> in
                 if return_size > 0 then
                   if \<not> malloc (nat return_size + 1) then Inl UNDEFINED_BEHAVIOUR
                   else res_bind (axutil_stream_read_basic tmp_stream' (nat return_size + 1)) (\<lambda>(n, bytes, _). Inr (n, bytes, r'))
                 else Inr (return_size, [], r'))))))"

section \<open>The client\<close>

text \<open>
  \<open>cl_open\<close> is whether \<^verbatim>\<open>sockfd\<close> is not -1. The body is kept as the bytes its size counts.
\<close>

record 's http_client =
  cl_open :: bool
  cl_data_stream :: "'s option"
  cl_url :: "axutil_url option"
  cl_response :: "'s simple_response option"
  cl_request_sent :: bool
  cl_timeout :: int
  cl_proxy_enabled :: bool
  cl_proxy_host :: "string option"
  cl_proxy_port :: int
  cl_proxy_host_port :: "string option"
  cl_dump_input_msg :: bool
  cl_server_cert :: "string option"
  cl_key_file :: "string option"
  cl_req_body :: "string option"
  cl_doing_mtom :: bool

definition sizeof_http_client :: nat where "sizeof_http_client = 128"

definition AXIS2_HTTP_DEFAULT_CONNECTION_TIMEOUT :: int where "AXIS2_HTTP_DEFAULT_CONNECTION_TIMEOUT = 60000"

definition axis2_http_client_create :: "alloc \<Rightarrow> axutil_url option \<Rightarrow> 's http_client result" where
  "axis2_http_client_create malloc url =
     (if \<not> malloc sizeof_http_client then Inl NO_MEMORY
      else Inr \<lparr>cl_open = False, cl_data_stream = None, cl_url = url, cl_response = None, cl_request_sent = False,
        cl_timeout = AXIS2_HTTP_DEFAULT_CONNECTION_TIMEOUT, cl_proxy_enabled = False, cl_proxy_host = None, cl_proxy_port = 0,
        cl_proxy_host_port = None, cl_dump_input_msg = False, cl_server_cert = None, cl_key_file = None, cl_req_body = None, cl_doing_mtom = False\<rparr>)"

definition axis2_http_client_get_response :: "'s http_client \<Rightarrow> 's simple_response option" where
  "axis2_http_client_get_response c = cl_response c"

definition axis2_http_client_set_url :: "'s http_client \<Rightarrow> axutil_url option \<Rightarrow> 's http_client result" where
  "axis2_http_client_set_url c url = (case url of None \<Rightarrow> Inl INVALID_NULL_PARAM | Some _ \<Rightarrow> Inr (c\<lparr>cl_url := url\<rparr>))"

definition axis2_http_client_get_url :: "'s http_client \<Rightarrow> axutil_url option" where
  "axis2_http_client_get_url c = cl_url c"

definition axis2_http_client_set_timeout :: "'s http_client \<Rightarrow> int \<Rightarrow> 's http_client" where
  "axis2_http_client_set_timeout c timeout_ms = c\<lparr>cl_timeout := timeout_ms\<rparr>"

definition axis2_http_client_get_timeout :: "'s http_client \<Rightarrow> int" where
  "axis2_http_client_get_timeout c = cl_timeout c"

text \<open>The block for host and port has ten bytes for the colon, the port and the terminator, and is not checked.\<close>

definition axis2_http_client_set_proxy :: "alloc \<Rightarrow> 's http_client \<Rightarrow> string option \<Rightarrow> int \<Rightarrow> (axis2_status \<times> 's http_client) result" where
  "axis2_http_client_set_proxy malloc c proxy_host proxy_port =
     (case proxy_host of
        None \<Rightarrow> Inl INVALID_NULL_PARAM
      | Some h \<Rightarrow>
          if proxy_port \<le> 0 then Inr (AXIS2_FAILURE, c)
          else
            let c1 = c\<lparr>cl_proxy_port := proxy_port, cl_proxy_host_port := None, cl_proxy_host := ret_ptr (axutil_strdup malloc proxy_host)\<rparr> in
            if cl_proxy_host c1 = None then Inr (AXIS2_FAILURE, c1)
            else
              let text = h @ '':'' @ print_int proxy_port in
              if \<not> malloc (length h + 10) \<or> length h + 10 < length text + 1 then Inl UNDEFINED_BEHAVIOUR
              else Inr (AXIS2_SUCCESS, c1\<lparr>cl_proxy_host_port := Some text, cl_proxy_enabled := True\<rparr>))"

definition axis2_http_client_get_proxy :: "'s http_client \<Rightarrow> string option" where
  "axis2_http_client_get_proxy c = cl_proxy_host_port c"

definition axis2_http_client_set_dump_input_msg :: "'s http_client \<Rightarrow> bool \<Rightarrow> 's http_client" where
  "axis2_http_client_set_dump_input_msg c b = c\<lparr>cl_dump_input_msg := b\<rparr>"

definition axis2_http_client_set_server_cert :: "'s http_client \<Rightarrow> string option \<Rightarrow> 's http_client result" where
  "axis2_http_client_set_server_cert c server_cert =
     (case server_cert of None \<Rightarrow> Inl INVALID_NULL_PARAM | Some _ \<Rightarrow> Inr (c\<lparr>cl_server_cert := server_cert\<rparr>))"

definition axis2_http_client_get_server_cert :: "'s http_client \<Rightarrow> string option" where
  "axis2_http_client_get_server_cert c = cl_server_cert c"

definition axis2_http_client_set_key_file :: "'s http_client \<Rightarrow> string option \<Rightarrow> 's http_client result" where
  "axis2_http_client_set_key_file c key_file =
     (case key_file of None \<Rightarrow> Inl INVALID_NULL_PARAM | Some _ \<Rightarrow> Inr (c\<lparr>cl_key_file := key_file\<rparr>))"

definition axis2_http_client_get_key_file :: "'s http_client \<Rightarrow> string option" where
  "axis2_http_client_get_key_file c = cl_key_file c"

definition axis2_http_client_set_doing_mtom :: "'s http_client \<Rightarrow> bool \<Rightarrow> 's http_client" where
  "axis2_http_client_set_doing_mtom c b = c\<lparr>cl_doing_mtom := b\<rparr>"

definition axis2_http_client_get_doing_mtom :: "'s http_client \<Rightarrow> bool" where
  "axis2_http_client_get_doing_mtom c = cl_doing_mtom c"

section \<open>Receiving the head of a response\<close>

text \<open>
  The first loop of \<^verbatim>\<open>axis2_http_client_recieve_header\<close>: lines are read until one is a status line with a code of at least 200. The code is
  returned with the line; a read that fails or finds the end of the stream ends the function with -1 and 0.
\<close>

definition AXIS2_HTTP_RESPONSE_OK_CODE_VAL :: int where "AXIS2_HTTP_RESPONSE_OK_CODE_VAL = 200"

partial_function (option) status_lines ::
    "alloc \<Rightarrow> 's reader \<Rightarrow> 's \<Rightarrow> ((int + http_status_line) \<times> 's) result option" where
  "status_lines malloc rd s =
     Option.bind (crlf_line rd s []) (\<lambda>r.
       case r of
         Inl e \<Rightarrow> Some (Inl e)
       | Inr (read, str_status_line, s') \<Rightarrow>
           if read < 0 then Some (Inr (Inl (-1), s'))
           else if read = 0 then Some (Inr (Inl 0, s'))
           else
             (case axis2_http_status_line_create malloc (Some str_status_line) of
                Inl _ \<Rightarrow> status_lines malloc rd s'
              | Inr status_line \<Rightarrow>
                  (case axis2_http_status_line_get_status_code status_line of
                     Inl e \<Rightarrow> Some (Inl e)
                   | Inr http_status \<Rightarrow>
                       if AXIS2_HTTP_RESPONSE_OK_CODE_VAL > http_status then status_lines malloc rd s'
                       else Some (Inr (Inr status_line, s')))))"

text \<open>The loop over the headers. It does not look at the end of the stream: the loop goes on with the line read so far.\<close>

partial_function (option) response_header_loop ::
    "alloc \<Rightarrow> 's reader \<Rightarrow> 's \<Rightarrow> 's simple_response \<Rightarrow> string \<Rightarrow> ('s \<times> 's simple_response) result option" where
  "response_header_loop malloc rd s r str_header =
     Option.bind (crlf_line rd s str_header) (\<lambda>l.
       case l of
         Inl e \<Rightarrow> Some (Inl e)
       | Inr (read, str, s') \<Rightarrow>
           if read > 0 then
             if axutil_strcmp (Some str) (Some AXIS2_HTTP_CRLF) = 0 then Some (Inr (s', r))
             else
               (case axis2_http_header_create_by_str malloc (Some str) of
                  Inl _ \<Rightarrow> response_header_loop malloc rd s' r []
                | Inr tmp_header \<Rightarrow>
                    (case axis2_http_simple_response_set_header malloc r (Some tmp_header) of
                       Inl e \<Rightarrow> Some (Inl e)
                     | Inr r' \<Rightarrow> response_header_loop malloc rd s' r' []))
           else response_header_loop malloc rd s' r str)"

definition axis2_http_client_recieve_header ::
    "alloc \<Rightarrow> 's reader \<Rightarrow> 's http_client \<Rightarrow> (int \<times> 's http_client) result option" where
  "axis2_http_client_recieve_header malloc rd c =
     (case cl_data_stream c of
        None \<Rightarrow> Some (Inr (-1, c))
      | Some s \<Rightarrow>
          if \<not> cl_open c \<or> \<not> cl_request_sent c then Some (Inr (-1, c))
          else
            Option.bind (status_lines malloc rd s) (\<lambda>r.
              case r of
                Inl e \<Rightarrow> Some (Inl e)
              | Inr (Inl n, s1) \<Rightarrow> Some (Inr (n, c\<lparr>cl_data_stream := Some s1\<rparr>))
              | Inr (Inr status_line, s1) \<Rightarrow>
                  (case
                     res_bind (axis2_http_status_line_get_status_code status_line) (\<lambda>code.
                     case axis2_http_simple_response_create_default malloc of
                       Inl _ \<Rightarrow> Inl UNDEFINED_BEHAVIOUR
                     | Inr r0 \<Rightarrow>
                         (case axis2_http_simple_response_set_status_line malloc r0
                             (axis2_http_status_line_get_http_version status_line) code
                             (axis2_http_status_line_get_reason_phrase status_line) of
                            Inl e \<Rightarrow> if e = UNDEFINED_BEHAVIOUR then Inl e else Inr (code, r0)
                          | Inr r1 \<Rightarrow> Inr (code, r1))) of
                     Inl e \<Rightarrow> Some (Inl e)
                   | Inr (status_code, r1) \<Rightarrow>
                       Option.bind (response_header_loop malloc rd s1 r1 []) (\<lambda>r.
                         Some (
                           res_bind r (\<lambda>(s2, r2).
                             let r3 = axis2_http_simple_response_set_body_stream r2 (Some s2);
                                 c' = c\<lparr>cl_data_stream := Some s2, cl_response := Some r3\<rparr>
                             in
                             res_bind (axis2_http_simple_response_contains_header r3 (Some AXIS2_HTTP_HEADER_CONTENT_TYPE)) (\<lambda>has_type.
                               if \<not> has_type \<and> status_code \<noteq> 202 then
                                 res_bind (axis2_http_simple_response_get_content_length r3) (\<lambda>len.
                                   if len > 0 then Inr (-1, c') else Inr (status_code, c'))
                               else Inr (status_code, c'))))))))"

section \<open>Sending a request\<close>

text \<open>First the headers, and whether one of them asks for chunks.\<close>

fun client_headers :: "alloc \<Rightarrow> http_header option list \<Rightarrow> bool \<Rightarrow> string option \<Rightarrow> (bool \<times> string option) result" where
  "client_headers malloc [] chunking_enabled str_header = Inr (chunking_enabled, str_header)"
| "client_headers malloc (p # hs) chunking_enabled str_header =
     (case p of
        None \<Rightarrow> client_headers malloc hs chunking_enabled str_header
      | Some h \<Rightarrow>
          res_bind (axis2_http_header_to_external_form malloc p) (\<lambda>header_ext_form.
            let str_header2 = axutil_stracat malloc str_header (Some header_ext_form) in
            if str_header2 = Inl UNDEFINED_BEHAVIOUR then Inl UNDEFINED_BEHAVIOUR
            else
              client_headers malloc hs
                (chunking_enabled \<or>
                 axutil_strcmp (axis2_http_header_get_name h) (Some AXIS2_HTTP_HEADER_TRANSFER_ENCODING) = 0 \<and>
                 axutil_strcmp (axis2_http_header_get_value h) (Some AXIS2_HTTP_HEADER_TRANSFER_ENCODING_CHUNKED) = 0)
                (ret_ptr str_header2)))"

text \<open>The loops that write the body; the second one writes all of it again until the answer is large enough.\<close>

partial_function (option) send_plain_loop :: "'s writer \<Rightarrow> 's \<Rightarrow> string \<Rightarrow> int \<Rightarrow> (axis2_status \<times> 's) result option" where
  "send_plain_loop wr s body written =
     (if written < int (length body) then
        (case wr s (drop (nat written) body) of
           Inl e \<Rightarrow> Some (Inl e)
         | Inr (len, s') \<Rightarrow> if len = -1 then Some (Inr (AXIS2_FAILURE, s')) else send_plain_loop wr s' body (written + len))
      else Some (Inr (AXIS2_SUCCESS, s)))"

partial_function (option) send_chunk_loop ::
    "'s writer \<Rightarrow> 's chunked_stream \<Rightarrow> string \<Rightarrow> int \<Rightarrow> (axis2_status \<times> 's chunked_stream) result option" where
  "send_chunk_loop wr cs body written =
     (if written < int (length body) then
        (case axutil_http_chunked_stream_write wr cs (Some body) of
           Inl e \<Rightarrow> Some (Inl e)
         | Inr (n, cs') \<Rightarrow> if n = -1 then Some (Inr (AXIS2_FAILURE, cs')) else send_chunk_loop wr cs' body n)
      else Some (Inr (AXIS2_SUCCESS, cs)))"

definition send_request_body ::
    "alloc \<Rightarrow> 's writer \<Rightarrow> 's \<Rightarrow> bool \<Rightarrow> string \<Rightarrow> (axis2_status \<times> 's) result option" where
  "send_request_body malloc wr s chunking_enabled req_body =
     (if req_body = [] then Some (Inr (AXIS2_FAILURE, s))
      else if \<not> chunking_enabled then send_plain_loop wr s req_body 0
      else
        (case axutil_http_chunked_stream_create malloc (Some s) of
           Inl _ \<Rightarrow> Some (Inl FAILURE_STATUS)
         | Inr cs \<Rightarrow>
             Option.bind (send_chunk_loop wr cs req_body 0) (\<lambda>r.
               Some (res_bind r (\<lambda>(status, cs1).
                 res_bind (if status = AXIS2_SUCCESS then axutil_http_chunked_stream_write_last_chunk wr cs1 else Inr (status, cs1)) (\<lambda>(_, cs2).
                   Inr (status, the (cs_stream cs2))))))))"

text \<open>
  The request line, with the whole URL for a proxy: the address is printed to a block of twenty bytes more than host and path, the line to one of
  twenty bytes more than the address, whatever the lengths of the method and the version.
\<close>

definition request_line_text :: "alloc \<Rightarrow> 's http_client \<Rightarrow> axutil_url \<Rightarrow> http_request_line option \<Rightarrow> string option result" where
  "request_line_text malloc c url request_line =
     (case request_line of
        None \<Rightarrow> Inl UNDEFINED_BEHAVIOUR
      | Some rl \<Rightarrow>
          if \<not> cl_proxy_enabled c then
            (case axis2_http_request_line_to_string malloc rl of
               Inl e \<Rightarrow> if e = UNDEFINED_BEHAVIOUR then Inl e else Inr None
             | Inr l \<Rightarrow> Inr (Some l))
          else
            (case (axutil_url_get_host url, axis2_http_request_line_get_uri rl, axis2_http_request_line_get_method rl, axis2_http_request_line_get_http_version rl) of
               (Some host, Some path, Some me, Some v) \<Rightarrow>
                 let host_port_str = ''http://'' @ host @ '':'' @ print_int (axutil_url_get_port url) @ path;
                     line = me @ '' '' @ host_port_str @ '' '' @ v @ AXIS2_HTTP_CRLF
                 in if \<not> malloc (length host + length path + 20) \<or> \<not> malloc (length host_port_str + 20) then Inl NO_MEMORY
                    else if length host_port_str + 20 < length line + 1 then Inl UNDEFINED_BEHAVIOUR
                    else Inr (Some line)
             | _ \<Rightarrow> Inl UNDEFINED_BEHAVIOUR))"

text \<open>The head of the request; the answers of the stream are not looked at.\<close>

definition send_head ::
    "alloc \<Rightarrow> 's writer \<Rightarrow> 's http_client \<Rightarrow> axutil_url \<Rightarrow> 'st simple_request \<Rightarrow> 's \<Rightarrow> (bool \<times> 's) result" where
  "send_head malloc wr c url request s =
     res_bind (client_headers malloc (case axis2_http_simple_request_get_headers request of None \<Rightarrow> [] | Some g \<Rightarrow> al_list g) False None)
       (\<lambda>(chunking_enabled, str_header).
     res_bind (request_line_text malloc c url (axis2_http_simple_request_get_request_line request)) (\<lambda>str_request_line.
       let wire_format = axutil_stracat malloc str_request_line str_header in
       if wire_format = Inl UNDEFINED_BEHAVIOUR then Inl UNDEFINED_BEHAVIOUR
       else
         res_bind (case ret_ptr wire_format of None \<Rightarrow> Inr s | Some text \<Rightarrow> res_bind (wr s text) (\<lambda>(_, s1). Inr s1)) (\<lambda>s1.
         res_bind (wr s1 AXIS2_HTTP_CRLF) (\<lambda>(_, s2). Inr (chunking_enabled, s2)))))"

text \<open>
  The connection: \<open>connect host port\<close> is the connection \<^verbatim>\<open>axutil_network_handler_open_socket\<close> opens, if it does. \<open>Inl AXIS2_FAILURE\<close> ends the
  function; https is refused.
\<close>

definition AXIS2_TRANSPORT_URL_HTTPS :: string where "AXIS2_TRANSPORT_URL_HTTPS = ''HTTPS''"

definition open_connection ::
    "(string \<Rightarrow> int \<Rightarrow> 's option) \<Rightarrow> 's http_client \<Rightarrow> axutil_url \<Rightarrow> ('s option \<times> 's http_client) result" where
  "open_connection connect c url =
     (if cl_proxy_enabled c \<and> (cl_proxy_host c = None \<or> cl_proxy_port c \<le> 0) then Inr (None, c)
      else
        case (if cl_proxy_enabled c then Option.bind (cl_proxy_host c) (\<lambda>h. connect h (cl_proxy_port c))
              else Option.bind (axutil_url_get_host url) (\<lambda>h. connect h (axutil_url_get_port url))) of
          None \<Rightarrow> Inr (None, c\<lparr>cl_open := False\<rparr>)
        | Some s \<Rightarrow>
            (case axutil_url_get_protocol url of
               None \<Rightarrow> Inl UNDEFINED_BEHAVIOUR
             | Some pr \<Rightarrow>
                 if axutil_strcasecmp pr AXIS2_TRANSPORT_URL_HTTPS = 0 then Inr (None, c\<lparr>cl_open := False\<rparr>)
                 else Inr (Some s, c\<lparr>cl_open := True, cl_data_stream := Some s\<rparr>)))"

text \<open>
  \<open>mtom s\<close> stands for sending the attachments: \<open>None\<close> when the callback for them is missing, which ends the function. Their status is
  that of an inner variable: what is returned after them, as for an empty body, is the initial failure.
\<close>

definition axis2_http_client_send ::
    "alloc \<Rightarrow> (string \<Rightarrow> int \<Rightarrow> 's option) \<Rightarrow> 's writer \<Rightarrow> ('s \<Rightarrow> 's option) \<Rightarrow> 's http_client \<Rightarrow> basic_stream simple_request \<Rightarrow>
     (axis2_status \<times> 's http_client \<times> basic_stream simple_request) result option" where
  "axis2_http_client_send malloc connect wr mtom c0 request0 =
     Option.bind
       (if cl_req_body c0 = None \<and> \<not> cl_doing_mtom c0 then
          Option.bind (axis2_http_simple_request_get_body_bytes malloc request0) (\<lambda>p.
            Some (res_bind p (\<lambda>(body, request'). Inr (c0\<lparr>cl_req_body := Some body\<rparr>, request'))))
        else Some (Inr (c0, request0))) (\<lambda>p.
     case p of
       Inl e \<Rightarrow> Some (Inl e)
     | Inr (c, request) \<Rightarrow>
         if cl_dump_input_msg c then Some (Inr (AXIS2_SUCCESS, c, request))
         else
           (case cl_url c of
              None \<Rightarrow> Some (Inr (AXIS2_FAILURE, c, request))
            | Some url \<Rightarrow>
                (case open_connection connect c url of
                   Inl e \<Rightarrow> Some (Inl e)
                 | Inr (None, c1) \<Rightarrow> Some (Inr (AXIS2_FAILURE, c1, request))
                 | Inr (Some s, c1) \<Rightarrow>
                     (case send_head malloc wr c1 url request s of
                        Inl e \<Rightarrow> Some (if e = NO_MEMORY then Inr (AXIS2_FAILURE, c1\<lparr>cl_open := False\<rparr>, request) else Inl e)
                      | Inr (chunking_enabled, s2) \<Rightarrow>
                          if cl_doing_mtom c1 then
                            (case mtom s2 of
                               None \<Rightarrow> Some (Inr (AXIS2_FAILURE, c1\<lparr>cl_data_stream := Some s2\<rparr>, request))
                             | Some s3 \<Rightarrow> Some (Inr (AXIS2_FAILURE, c1\<lparr>cl_data_stream := Some s3, cl_request_sent := True\<rparr>, request)))
                          else
                            Option.bind (send_request_body malloc wr s2 chunking_enabled (case cl_req_body c1 of None \<Rightarrow> [] | Some b \<Rightarrow> b)) (\<lambda>r.
                              Some (case r of
                                 Inl e \<Rightarrow> if e = FAILURE_STATUS then Inr (AXIS2_FAILURE, c1\<lparr>cl_open := False, cl_data_stream := Some s2\<rparr>, request) else Inl e
                               | Inr (status, s3) \<Rightarrow> Inr (status, c1\<lparr>cl_data_stream := Some s3, cl_request_sent := True\<rparr>, request)))))))"

end
