(* ===== verification/Http_Response.thy ===== *)
theory Http_Response
  imports Http_Client
begin

text \<open>
  A response on its way from \<^verbatim>\<open>axis2_simple_http_svr_conn_write_response\<close> to \<^verbatim>\<open>axis2_http_client_recieve_header\<close>: the bytes the server
  writes, what the client makes of them in whatever pieces they arrive, and the chunked body behind them.
\<close>

section \<open>What the server writes\<close>

definition header_text :: "http_header option \<Rightarrow> string" where
  "header_text p = the (hdr_name (the p)) @ '': '' @ the (hdr_value (the p)) @ AXIS2_HTTP_CRLF"

lemma external_form_ok:
  "header_ok p \<Longrightarrow> mem_ok malloc \<Longrightarrow> axis2_http_header_to_external_form malloc p = Inr (header_text p)"
  by (auto simp: header_ok_def axis2_http_header_to_external_form_def header_text_def mem_okD CRLF_simps Let_def split: option.splits)

lemma rw_put_socket:
  "rw_stream w = Some (Some s) \<Longrightarrow> length bytes < 2 ^ 31 \<Longrightarrow>
    rw_put axutil_stream_write_socket w bytes = Inr (AXIS2_SUCCESS, w\<lparr>rw_stream := Some (Some (s\<lparr>sock_out := sock_out s @ bytes\<rparr>))\<rparr>)"
  by (simp add: rw_put_def write_socket_all)

lemma print_headers_socket:
  assumes "\<forall>h \<in> set hs. header_ok h \<and> length (header_text h) < 2 ^ 31" "mem_ok malloc"
  shows "rw_stream w = Some (Some s) \<Longrightarrow> print_headers malloc axutil_stream_write_socket hs w =
    Inr (w\<lparr>rw_stream := Some (Some (s\<lparr>sock_out := sock_out s @ concat (map header_text hs)\<rparr>))\<rparr>)"
  using assms(1)
proof (induction hs arbitrary: w s)
  case (Cons h hs)
  have h: "header_ok h" "h \<noteq> None" using Cons.prems by (cases h; simp add: header_ok_def)+
  let ?w = "w\<lparr>rw_stream := Some (Some (s\<lparr>sock_out := sock_out s @ header_text h\<rparr>))\<rparr>"
  have "print_headers malloc axutil_stream_write_socket (h # hs) w = print_headers malloc axutil_stream_write_socket hs ?w"
    using h external_form_ok [OF h(1) assms(2)] Cons.prems rw_put_socket [OF Cons.prems(1), of "header_text h"]
    by (auto simp: axis2_http_response_writer_print_str_def)
  then show ?case using Cons.IH [of ?w] Cons.prems by simp
qed (auto simp: fun_upd_def)

lemma contains_header_spec:
  assumes "response_ok r" "NUL \<notin> set k"
  shows "axis2_http_simple_response_contains_header r (Some k) = Inr (header_map (response_headers r) (axutil_string_tolower k) \<noteq> None)"
proof (cases "rsp_header_group r")
  case None
  then show ?thesis by (simp add: axis2_http_simple_response_contains_header_def response_headers_def header_map_def)
next
  case (Some g)
  have g: "group_ok g" using assms Some by (auto simp: response_ok_def)
  show ?thesis
  proof (cases "axutil_array_list_size (Some g) = 0")
    case True
    then have "al_list g = []" by (simp add: axutil_array_list_size_def al_list_def)
    with True Some show ?thesis by (simp add: axis2_http_simple_response_contains_header_def response_headers_def header_map_def)
  next
    case False
    then show ?thesis using Some find_header_spec [OF g assms(2)]
      by (simp add: axis2_http_simple_response_contains_header_def response_headers_def header_map_find)
  qed
qed

lemma first_header_value:
  assumes "response_ok r" "NUL \<notin> set k"
  shows "\<exists>h. axis2_http_simple_response_get_first_header r (Some k) = Inr h \<and>
    Option.bind h axis2_http_header_get_value = header_map (response_headers r) (axutil_string_tolower k) \<and>
    (h = None \<longleftrightarrow> header_map (response_headers r) (axutil_string_tolower k) = None)"
proof -
  obtain h where h: "axis2_http_simple_response_get_first_header r (Some k) = Inr h"
      "Option.bind h axis2_http_header_get_value = header_map (response_headers r) (axutil_string_tolower k)"
    using header_lookup_spec [OF assms, of "\<lambda>n. True"] by (auto simp: header_lookup_def res_bind_Inr)
  have iff: "h = None \<longleftrightarrow> header_map (response_headers r) (axutil_string_tolower k) = None"
  proof (cases "rsp_header_group r")
    case None
    then show ?thesis using h by (auto simp: axis2_http_simple_response_get_first_header_def response_headers_def header_map_def)
  next
    case (Some g)
    have g: "group_ok g" using assms Some by (auto simp: response_ok_def)
    have e: "axutil_array_list_size (Some g) = 0 \<Longrightarrow> al_list g = []" by (simp add: axutil_array_list_size_def al_list_def)
    let ?i = "find_index (\<lambda>h. header_key h = axutil_string_tolower k) (al_list g)"
    have m: "header_map (response_headers r) (axutil_string_tolower k) = map_option (\<lambda>j. header_val (al_list g ! j)) ?i"
      by (simp add: response_headers_def Some header_map_find)
    have "h = (if axutil_array_list_size (Some g) = 0 then None
        else map_option (\<lambda>j. the (al_list g ! j)) (find_index (\<lambda>h. header_key h = axutil_string_tolower k) (al_list g)))"
      using Some h(1) find_header_spec [OF g assms(2)]
      by (cases "axutil_array_list_size (Some g) = 0")
         (simp_all add: axis2_http_simple_response_get_first_header_def option.map_comp o_def)
    moreover have "axutil_array_list_size (Some g) = 0 \<Longrightarrow> ?i = None" using e by simp
    ultimately show ?thesis unfolding m by (simp split: if_splits)
  qed
  show ?thesis by (intro exI [of _ h] conjI h iff)
qed

text \<open>The headers are those of the response, without the length if the body is chunked.\<close>

definition is_chunked :: "'st simple_response \<Rightarrow> bool" where
  "is_chunked r \<longleftrightarrow> header_map (response_headers r) (axutil_string_tolower AXIS2_HTTP_HEADER_TRANSFER_ENCODING) = Some AXIS2_HTTP_HEADER_TRANSFER_ENCODING_CHUNKED"

lemma names_plain [simp]: "NUL \<notin> set AXIS2_HTTP_HEADER_TRANSFER_ENCODING" "NUL \<notin> set AXIS2_HTTP_HEADER_CONTENT_LENGTH"
  "NUL \<notin> set AXIS2_HTTP_HEADER_CONTENT_TYPE"
  by (simp_all add: NUL_def AXIS2_HTTP_HEADER_TRANSFER_ENCODING_def AXIS2_HTTP_HEADER_CONTENT_LENGTH_def AXIS2_HTTP_HEADER_CONTENT_TYPE_def)

definition without :: "string \<Rightarrow> http_header option list \<Rightarrow> http_header option list" where
  "without k hs = filter (\<lambda>h. header_key h \<noteq> axutil_string_tolower k) hs"

lemma filter_find_remove:
  assumes "distinct (map header_key hs)"
  shows "(case find_index (\<lambda>h. header_key h = k) hs of None \<Rightarrow> hs | Some j \<Rightarrow> remove_nth j hs) = filter (\<lambda>h. header_key h \<noteq> k) hs"
  using assms
proof (induction hs)
  case (Cons h hs)
  show ?case
  proof (cases "header_key h = k")
    case True
    then have "filter (\<lambda>h. header_key h \<noteq> k) hs = hs" using Cons.prems by (intro filter_True) (auto simp: image_iff)
    then show ?thesis using True by (simp add: remove_nth_def)
  next
    case False
    then have "(case find_index (\<lambda>h. header_key h = k) (h # hs) of None \<Rightarrow> h # hs | Some j \<Rightarrow> remove_nth j (h # hs)) =
        h # (case find_index (\<lambda>h. header_key h = k) hs of None \<Rightarrow> hs | Some j \<Rightarrow> remove_nth j hs)"
      by (auto simp: remove_nth_def split: option.splits)
    with Cons False show ?thesis by simp
  qed
qed simp

lemma remove_headers_spec:
  assumes "response_ok r" "NUL \<notin> set k"
  shows "\<exists>r'. axis2_http_simple_response_remove_headers r (Some k) = Inr r' \<and> response_ok r' \<and> response_headers r' = without k (response_headers r) \<and>
    rsp_status_line r' = rsp_status_line r \<and> rsp_stream r' = rsp_stream r"
proof (cases "rsp_header_group r")
  case None
  then show ?thesis using assms by (simp add: axis2_http_simple_response_remove_headers_def response_headers_def without_def)
next
  case (Some g)
  have g: "group_ok g" "distinct (map header_key (al_list g))" using assms Some by (auto simp: response_ok_def)
  obtain g1 where g1: "remove_first k g = Inr g1" "group_ok g1" "al_list g1 = without k (al_list g)"
    using remove_header_spec [OF g(1) assms(2)] filter_find_remove [OF g(2)] by (auto simp: without_def)
  have "distinct (map header_key (al_list g1))" using g(2) g1(3) by (simp add: without_def distinct_map_filter)
  then show ?thesis using Some g1 by (simp add: axis2_http_simple_response_remove_headers_def response_ok_def response_headers_def)
qed

lemma without_none: "header_map hs (axutil_string_tolower k) = None \<Longrightarrow> without k hs = hs"
  by (auto simp: without_def header_map_def map_of_eq_None_iff image_image image_iff intro!: filter_True)

lemma response_chunked_spec:
  assumes "response_ok r"
  shows "\<exists>r'. response_chunked r = Inr (is_chunked r, r') \<and> response_ok r' \<and> rsp_status_line r' = rsp_status_line r \<and> rsp_stream r' = rsp_stream r \<and>
    response_headers r' = (if is_chunked r then without AXIS2_HTTP_HEADER_CONTENT_LENGTH (response_headers r) else response_headers r)"
proof -
  obtain h where h: "axis2_http_simple_response_get_first_header r (Some AXIS2_HTTP_HEADER_TRANSFER_ENCODING) = Inr h"
      "Option.bind h axis2_http_header_get_value = header_map (response_headers r) (axutil_string_tolower AXIS2_HTTP_HEADER_TRANSFER_ENCODING)"
    using first_header_value [OF assms, of AXIS2_HTTP_HEADER_TRANSFER_ENCODING] by auto
  have c: "axutil_strcmp (Option.bind h axis2_http_header_get_value) (Some AXIS2_HTTP_HEADER_TRANSFER_ENCODING_CHUNKED) = 0 \<longleftrightarrow> is_chunked r"
    unfolding h(2) is_chunked_def by (auto simp: strcmp_simps)
  show ?thesis
  proof (cases "is_chunked r \<and> header_map (response_headers r) (axutil_string_tolower AXIS2_HTTP_HEADER_CONTENT_LENGTH) \<noteq> None")
    case True
    obtain r' where "axis2_http_simple_response_remove_headers r (Some AXIS2_HTTP_HEADER_CONTENT_LENGTH) = Inr r'" "response_ok r'"
        "response_headers r' = without AXIS2_HTTP_HEADER_CONTENT_LENGTH (response_headers r)" "rsp_status_line r' = rsp_status_line r" "rsp_stream r' = rsp_stream r"
      using remove_headers_spec [OF assms, of AXIS2_HTTP_HEADER_CONTENT_LENGTH] by auto
    then show ?thesis using True h(1) c contains_header_spec [OF assms, of AXIS2_HTTP_HEADER_CONTENT_LENGTH]
      by (simp add: response_chunked_def)
  next
    case False
    then show ?thesis using assms h(1) c contains_header_spec [OF assms, of AXIS2_HTTP_HEADER_CONTENT_LENGTH]
      by (auto simp: response_chunked_def without_none)
  qed
qed

text \<open>The bytes of a response: the head, and the body.\<close>

definition sent_headers :: "'st simple_response \<Rightarrow> http_header option list" where
  "sent_headers r = (if is_chunked r then without AXIS2_HTTP_HEADER_CONTENT_LENGTH (response_headers r) else response_headers r)"

definition head_wire :: "string \<Rightarrow> http_header option list \<Rightarrow> string" where
  "head_wire line hs = line @ concat (map header_text hs) @ AXIS2_HTTP_CRLF"

definition body_wire :: "bool \<Rightarrow> string \<Rightarrow> string" where
  "body_wire chunked body =
     (if body = [] then [] else if chunked then body_text [body] else takeWhile (\<lambda>c. c \<noteq> NUL) body @ AXIS2_HTTP_CRLF)"

text \<open>The body lies in a basic stream with room for a NUL behind it.\<close>

definition body_in :: "basic_stream option \<Rightarrow> string \<Rightarrow> bool" where
  "body_in p body =
     (case p of
        None \<Rightarrow> body = []
      | Some st \<Rightarrow> basic_inv st \<and> unread st = body \<and> int (bs_pos st) + bs_len st < bs_max_len st)"

lemma response_body_spec:
  assumes "body_in (rsp_stream r) body"
  shows "\<exists>r'. response_body r = Inr (int (length body), body, r')"
proof (cases "rsp_stream r")
  case None
  then show ?thesis using assms by (simp add: response_body_def axis2_http_simple_response_get_body_def body_in_def)
next
  case (Some st)
  then have st: "basic_inv st" "unread st = body" "int (bs_pos st) + bs_len st < bs_max_len st" using assms by (auto simp: body_in_def)
  then obtain b where b: "bs_block st = Some b" "int (length b) = bs_max_len st" "0 \<le> bs_len st"
    by (auto simp: basic_inv_def split: option.splits)
  have "bs_len st = int (length body)" using length_unread [OF st(1)] st(2) by simp
  then show ?thesis using Some b st
    by (auto simp: response_body_def axis2_http_simple_response_get_body_def axutil_stream_get_len_def axutil_stream_get_buffer_def
        unread_def of_nat_diff Let_def)
qed

lemma chunk_body_loop_once:
  assumes "cs_stream cs = Some (Some s)" "length body < 2 ^ 28" "body \<noteq> []"
  shows "chunk_body_loop axutil_stream_write_socket cs body (int (length body)) =
    Some (Inr (cs\<lparr>cs_stream := Some (Some (s\<lparr>sock_out := sock_out s @ chunk_text body\<rparr>))\<rparr>))"
proof -
  have "\<not> 10 < length (print_hex (length body) @ AXIS2_HTTP_CRLF) + 1" using assms(2) by (subst tmp_buf_fits) simp
  moreover have "length body mod 2 ^ 32 = length body" using assms(2) by simp
  ultimately have "axutil_http_chunked_stream_write axutil_stream_write_socket cs (Some body) =
      Inr (int (length body), cs\<lparr>cs_stream := Some (Some (s\<lparr>sock_out := sock_out s @ chunk_text body\<rparr>))\<rparr>)"
    using assms by (simp add: axutil_http_chunked_stream_write_def write_socket_all chunk_text_def Let_def CRLF_simps)
  then show ?thesis using assms(3) by (subst chunk_body_loop.simps) (simp add: chunk_body_loop.simps [of _ _ _ 0])
qed

definition not_binary :: "'st simple_response \<Rightarrow> bool" where
  "not_binary r =
     (case header_map (response_headers r) (axutil_string_tolower AXIS2_HTTP_HEADER_CONTENT_TYPE) of
        None \<Rightarrow> True
      | Some t \<Rightarrow> strstr t AXIS2_HTTP_HEADER_ACCEPT_MULTIPART_RELATED = None \<or> strstr t AXIS2_HTTP_HEADER_ACCEPT_XOP_XML = None)"

lemma content_type_not_binary:
  assumes "response_ok r" "not_binary r"
  shows "\<exists>t. axis2_http_simple_response_get_content_type r = Inr t \<and>
    (case t of None \<Rightarrow> True | Some t \<Rightarrow> strstr t AXIS2_HTTP_HEADER_ACCEPT_MULTIPART_RELATED = None \<or> strstr t AXIS2_HTTP_HEADER_ACCEPT_XOP_XML = None)"
proof -
  obtain h where h: "axis2_http_simple_response_get_first_header r (Some AXIS2_HTTP_HEADER_CONTENT_TYPE) = Inr h"
      "Option.bind h axis2_http_header_get_value = header_map (response_headers r) (axutil_string_tolower AXIS2_HTTP_HEADER_CONTENT_TYPE)"
    using first_header_value [OF assms(1), of AXIS2_HTTP_HEADER_CONTENT_TYPE] by auto
  have plain: "strstr AXIS2_HTTP_HEADER_ACCEPT_TEXT_PLAIN AXIS2_HTTP_HEADER_ACCEPT_MULTIPART_RELATED = None" by code_simp
  show ?thesis
  proof (cases h)
    case None
    then show ?thesis using h(1) plain by (simp add: axis2_http_simple_response_get_content_type_def type_of_header_def)
  next
    case (Some x)
    then have "axis2_http_header_get_value x = header_map (response_headers r) (axutil_string_tolower AXIS2_HTTP_HEADER_CONTENT_TYPE)" using h(2) by simp
    then show ?thesis using h(1) Some assms(2) unfolding not_binary_def
      by (simp add: axis2_http_simple_response_get_content_type_def type_of_header_def)
  qed
qed

lemma write_response_wire:
  assumes m: "mem_ok malloc" and r: "response_ok r" "not_binary r" and line: "axis2_http_simple_response_get_status_line r = Some line"
    and body: "body_in (rsp_stream r) body" "length body < 2 ^ 28" and c: "conn_stream c = Some (Some s)"
    and size: "length line < 2 ^ 31" "\<forall>h \<in> set (response_headers r). length (header_text h) < 2 ^ 31"
  shows "\<exists>c' r'. axis2_simple_http_svr_conn_write_response malloc mtom c (Some r) = Some (Inr (c', r')) \<and>
    conn_stream c' = Some (Some (s\<lparr>sock_out := sock_out s @ head_wire line (sent_headers r) @ body_wire (is_chunked r) body\<rparr>))"
proof -
  obtain t where t: "axis2_http_simple_response_get_content_type r = Inr t"
      "case t of None \<Rightarrow> True | Some t \<Rightarrow> strstr t AXIS2_HTTP_HEADER_ACCEPT_MULTIPART_RELATED = None \<or> strstr t AXIS2_HTTP_HEADER_ACCEPT_XOP_XML = None"
    using content_type_not_binary [OF r] by blast
  have bin: "\<not> (case t of None \<Rightarrow> False
      | Some t \<Rightarrow> strstr t AXIS2_HTTP_HEADER_ACCEPT_MULTIPART_RELATED \<noteq> None \<and> strstr t AXIS2_HTTP_HEADER_ACCEPT_XOP_XML \<noteq> None)"
    using t(2) by (auto split: option.splits)
  obtain r1 where r1: "response_chunked r = Inr (is_chunked r, r1)" "response_ok r1" "rsp_status_line r1 = rsp_status_line r"
      "rsp_stream r1 = rsp_stream r" "response_headers r1 = sent_headers r"
    using response_chunked_spec [OF r(1)] unfolding sent_headers_def by blast
  obtain w where w: "axis2_http_response_writer_create malloc (conn_stream c) = Inr w" "rw_stream w = Some (Some s)"
    using m c by (simp add: axis2_http_response_writer_create_def axis2_http_response_writer_create_with_encoding_def mem_okD)
  have l1: "axis2_http_simple_response_get_status_line r1 = Some line"
    using line r1(3) by (simp add: axis2_http_simple_response_get_status_line_def)
  have hs: "(case axis2_http_simple_response_get_headers r1 of None \<Rightarrow> [] | Some g \<Rightarrow> al_list g) = sent_headers r"
    using r1(5) by (simp add: axis2_http_simple_response_get_headers_def response_headers_def)
  have "\<forall>h \<in> set (sent_headers r). header_ok h"
    using r1(2) unfolding r1(5) [symmetric] by (auto simp: response_ok_def response_headers_def group_ok_def split: option.splits)
  then have ok: "\<forall>h \<in> set (sent_headers r). header_ok h \<and> length (header_text h) < 2 ^ 31"
    using size(2) by (auto simp: sent_headers_def without_def)
  define w1 where "w1 = w\<lparr>rw_stream := Some (Some (s\<lparr>sock_out := sock_out s @ line\<rparr>))\<rparr>"
  define w2 where "w2 = w\<lparr>rw_stream := Some (Some (s\<lparr>sock_out := sock_out s @ line @ concat (map header_text (sent_headers r))\<rparr>))\<rparr>"
  define w3 where "w3 = w\<lparr>rw_stream := Some (Some (s\<lparr>sock_out := sock_out s @ head_wire line (sent_headers r)\<rparr>))\<rparr>"
  have p1: "\<exists>x. axis2_http_response_writer_print_str axutil_stream_write_socket w (Some line) = Inr (x, w1)"
    using rw_put_socket [OF w(2) size(1)] by (simp add: axis2_http_response_writer_print_str_def w1_def)
  have p2: "print_headers malloc axutil_stream_write_socket (sent_headers r) w1 = Inr w2"
    using print_headers_socket [OF ok m, of w1] by (simp add: w1_def w2_def)
  have p3: "\<exists>x. axis2_http_response_writer_println axutil_stream_write_socket w2 = Inr (x, w3)"
    using rw_put_socket [of w2 _ AXIS2_HTTP_CRLF]
    by (simp add: axis2_http_response_writer_println_def axis2_http_response_writer_print_str_def w2_def w3_def head_wire_def CRLF_simps)
  obtain r2 where b: "response_body r1 = Inr (int (length body), body, r2)" using response_body_spec [of r1 body] body(1) r1(4) by auto
  have unf: "axis2_simple_http_svr_conn_write_response malloc mtom c (Some r) =
      (if body = [] then Some (Inr (c\<lparr>conn_stream := rw_stream w3\<rparr>, r2))
       else if \<not> is_chunked r then
         Some (res_bind (axis2_http_response_writer_println_str axutil_stream_write_socket w3 (Some (takeWhile (\<lambda>c. c \<noteq> NUL) body)))
           (\<lambda>(status, w'). if status = AXIS2_SUCCESS then Inr (c\<lparr>conn_stream := rw_stream w'\<rparr>, r2) else Inl WRITING_RESPONSE))
       else
         (case axutil_http_chunked_stream_create malloc (rw_stream w3) of
            Inl _ \<Rightarrow> Some (Inl UNDEFINED_BEHAVIOUR)
          | Inr cs \<Rightarrow>
              Option.bind (chunk_body_loop axutil_stream_write_socket cs body (int (length body))) (\<lambda>r.
                Some (res_bind r (\<lambda>cs1.
                  res_bind (axutil_http_chunked_stream_write_last_chunk axutil_stream_write_socket cs1) (\<lambda>(_, cs2).
                    Inr (c\<lparr>conn_stream := cs_stream cs2\<rparr>, r2)))))))"
    using t(1) bin r1(1) w(1) l1 hs p1 p2 p3 b
    by (auto simp: axis2_simple_http_svr_conn_write_response_def Let_def)
  show ?thesis
  proof (cases "body = []")
    case True
    then show ?thesis unfolding unf by (simp add: w3_def body_wire_def)
  next
    case ne: False
    show ?thesis
    proof (cases "is_chunked r")
      case False
      have "length (takeWhile (\<lambda>c. c \<noteq> NUL) body) < 2 ^ 31"
        using body(2) length_takeWhile_le [of "\<lambda>c. c \<noteq> NUL" body] by simp
      then show ?thesis unfolding unf using ne False
        by (simp add: axis2_http_response_writer_println_str_def axis2_http_response_writer_print_str_def w3_def rw_put_socket CRLF_simps
            body_wire_def)
    next
      case True
      obtain cs where cs: "axutil_http_chunked_stream_create malloc (rw_stream w3) = Inr cs" "cs_stream cs = rw_stream w3"
        using m by (simp add: axutil_http_chunked_stream_create_def mem_okD w3_def)
      show ?thesis unfolding unf using ne True cs chunk_body_loop_once [of cs _ body] body(2)
        by (simp add: w3_def axutil_http_chunked_stream_write_last_chunk_def write_socket_all body_wire_def body_text_def last_chunk_def CRLF_simps)
    qed
  qed
qed

section \<open>What the client reads\<close>

text \<open>Text without line ends, and a header whose line is shorter than a limit and can be read back.\<close>

definition plain_text :: "string \<Rightarrow> bool" where
  "plain_text s \<longleftrightarrow> CR \<notin> set s \<and> NUL \<notin> set s"

definition header_plain :: "nat \<Rightarrow> http_header option \<Rightarrow> bool" where
  "header_plain limit p \<longleftrightarrow>
     (\<exists>n v. p = Some \<lparr>hdr_name = Some n, hdr_value = Some v\<rparr> \<and> plain_text n \<and> plain_text v \<and> CHR '':'' \<notin> set n \<and> front v \<noteq> CHR '' '' \<and>
        length (header_text p) < limit)"

lemma header_plain_ok: "header_plain limit p \<Longrightarrow> header_ok p"
  by (auto simp: header_plain_def header_ok_def plain_text_def)

lemma header_plain_parse:
  assumes "header_plain limit p" "mem_ok malloc"
  shows "axis2_http_header_create_by_str malloc (Some (header_text p)) = Inr (the p)"
proof -
  obtain n v where p: "p = Some \<lparr>hdr_name = Some n, hdr_value = Some v\<rparr>" "CHR '':'' \<notin> set n" "front v \<noteq> CHR '' ''"
    using assms(1) by (auto simp: header_plain_def)
  have "dropWhile (\<lambda>c. c = CHR '' '') v = v" using p(3) by (cases v) (auto simp: front_def)
  moreover have "\<exists>line. axis2_http_header_to_external_form malloc p = Inr line \<and> axis2_http_header_create_by_str malloc (Some line) =
      Inr \<lparr>hdr_name = Some n, hdr_value = Some (dropWhile (\<lambda>c. c = CHR '' '') v)\<rparr>"
    using header_line_back [OF assms(2) p(2), of v] p(1) by simp
  ultimately show ?thesis using external_form_ok [OF header_plain_ok [OF assms(1)] assms(2)] p(1) by auto
qed

text \<open>A header with a new name is put behind the others.\<close>

lemma set_header_new:
  assumes "response_ok r" "header_ok (Some h)" "mem_ok malloc" "header_key (Some h) \<notin> header_key ` set (response_headers r)"
  shows "\<exists>r'. axis2_http_simple_response_set_header malloc r (Some h) = Inr r' \<and> response_ok r' \<and>
    response_headers r' = response_headers r @ [Some h] \<and> rsp_status_line r' = rsp_status_line r"
proof (cases "rsp_header_group r")
  case None
  obtain g :: "http_header array_list" where g: "axutil_array_list_create malloc 10 = Inr g" using create_total [OF assms(3)] by blast
  obtain g' where "add_headers malloc (Some g) [Some h] = Some g'" "group_ok g'" "al_list g' = [Some h]"
    using add_header_spec [of g "Some h" malloc] empty_group [OF g] assms by auto
  then show ?thesis using None g by (simp add: axis2_http_simple_response_set_header_def response_ok_def response_headers_def)
next
  case (Some g)
  have g: "group_ok g" "distinct (map header_key (al_list g))" using assms(1) Some by (auto simp: response_ok_def)
  obtain n where n: "hdr_name h = Some n" "NUL \<notin> set n" using assms(2) by (auto simp: header_ok_def)
  have "find_index (\<lambda>x. header_key x = axutil_string_tolower n) (al_list g) = None"
    using assms(4) n Some by (auto simp: find_index_None response_headers_def header_key_def image_iff)
  then have rm: "remove_first n g = Inr g" using find_header_spec [OF g(1) n(2)] by (simp add: remove_first_def)
  obtain g' where "add_headers malloc (Some g) [Some h] = Some g'" "group_ok g'" "al_list g' = al_list g @ [Some h]"
    using add_header_spec [OF g(1) assms(2,3)] by auto
  then show ?thesis using Some g rm n assms(4)
    by (auto simp: axis2_http_simple_response_set_header_def response_ok_def response_headers_def axis2_http_header_get_name_def)
qed

context byte_source
begin

lemma response_header_loop_reads:
  assumes "ready s" "contents s = concat (map header_text hs) @ AXIS2_HTTP_CRLF @ rest" "\<forall>h \<in> set hs. header_plain LINE_SIZE h"
    "response_ok r" "distinct (map header_key (response_headers r @ hs))" "mem_ok malloc"
  shows "\<exists>s' r'. response_header_loop malloc rd s r [] = Some (Inr (s', r')) \<and> contents s' = rest \<and> ready s' \<and>
    response_headers r' = response_headers r @ hs \<and> response_ok r' \<and> rsp_status_line r' = rsp_status_line r"
  using assms
proof (induction hs arbitrary: s r)
  case Nil
  have "\<exists>s'. crlf_line rd s [] = Some (Inr (1, [] @ [] @ AXIS2_HTTP_CRLF, s')) \<and> contents s' = rest \<and> ready s'"
    by (rule crlf_line_reads) (use Nil.prems in \<open>auto simp: LINE_SIZE_def\<close>)
  then show ?case using Nil.prems by (auto simp: response_header_loop.simps [of malloc rd s])
next
  case (Cons h hs)
  obtain n v where h: "h = Some \<lparr>hdr_name = Some n, hdr_value = Some v\<rparr>" "plain_text n" "plain_text v" "length (header_text h) < LINE_SIZE"
    using Cons.prems(3) by (auto simp: header_plain_def)
  have ht: "header_text h = n @ '': '' @ v @ AXIS2_HTTP_CRLF" using h(1) by (simp add: header_text_def)
  have "\<exists>s'. crlf_line rd s [] = Some (Inr (1, [] @ (n @ '': '' @ v) @ AXIS2_HTTP_CRLF, s')) \<and>
      contents s' = concat (map header_text hs) @ AXIS2_HTTP_CRLF @ rest \<and> ready s'"
    by (rule crlf_line_reads) (use Cons.prems(1,2) h(2-4) ht in \<open>auto simp: plain_text_def CRLF_simps NUL_def\<close>)
  then obtain s1 where s1: "crlf_line rd s [] = Some (Inr (1, header_text h, s1))"
      "contents s1 = concat (map header_text hs) @ AXIS2_HTTP_CRLF @ rest" "ready s1"
    using ht by auto
  obtain r1 where r1: "axis2_http_simple_response_set_header malloc r h = Inr r1" "response_ok r1"
      "response_headers r1 = response_headers r @ [h]" "rsp_status_line r1 = rsp_status_line r"
    using set_header_new [of r "the h" malloc] Cons.prems(3-6) h(1) header_plain_ok by auto
  have "axis2_http_header_create_by_str malloc (Some (header_text h)) = Inr (the h)"
    using header_plain_parse Cons.prems(3,6) by auto
  moreover have "header_text h \<noteq> AXIS2_HTTP_CRLF" by (simp add: header_text_def CRLF_simps)
  ultimately have "response_header_loop malloc rd s r [] = response_header_loop malloc rd s1 r1 []"
    using s1(1) r1(1) h(1) by (subst response_header_loop.simps) simp
  moreover have "\<exists>s' r'. response_header_loop malloc rd s1 r1 [] = Some (Inr (s', r')) \<and> contents s' = rest \<and> ready s' \<and>
      response_headers r' = response_headers r1 @ hs \<and> response_ok r' \<and> rsp_status_line r' = rsp_status_line r1"
    by (rule Cons.IH) (use s1 r1 Cons.prems in auto)
  ultimately show ?case using r1 by simp
qed

lemma status_lines_reads:
  assumes "ready s" "contents s = v @ '' '' @ c @ '' '' @ p @ AXIS2_HTTP_CRLF @ rest" "plain_text v" "plain_text c" "plain_text p"
    "CHR '' '' \<notin> set v" "CHR '' '' \<notin> set c" "length v + length c + length p + 4 < LINE_SIZE" "mem_ok malloc"
    "axutil_atoi c = Inr n" "200 \<le> n"
  shows "\<exists>s'. status_lines malloc rd s = Some (Inr (Inr \<lparr>sl_line = Some (v @ '' '' @ c @ '' '' @ p @ AXIS2_HTTP_CRLF), sl_http_version = Some v,
      sl_status_code = Some c, sl_reason_phrase = Some p\<rparr>, s')) \<and> contents s' = rest \<and> ready s'"
proof -
  have "\<exists>s'. crlf_line rd s [] = Some (Inr (1, [] @ (v @ '' '' @ c @ '' '' @ p) @ AXIS2_HTTP_CRLF, s')) \<and> contents s' = rest \<and> ready s'"
    by (rule crlf_line_reads) (use assms in \<open>auto simp: plain_text_def NUL_def\<close>)
  then obtain s1 where s1: "crlf_line rd s [] = Some (Inr (1, v @ '' '' @ c @ '' '' @ p @ AXIS2_HTTP_CRLF, s1))" "contents s1 = rest" "ready s1" by auto
  have "strstr ((v @ '' '' @ c @ '' '' @ p) @ [CR]) AXIS2_HTTP_CRLF = None"
    by (rule no_CR_strstr [THEN conjunct2]) (use assms(3-5) in \<open>auto simp: plain_text_def\<close>)
  then have "axis2_http_status_line_create malloc (Some (v @ '' '' @ c @ '' '' @ p @ AXIS2_HTTP_CRLF)) =
      Inr \<lparr>sl_line = Some (v @ '' '' @ c @ '' '' @ p @ AXIS2_HTTP_CRLF), sl_http_version = Some v, sl_status_code = Some c, sl_reason_phrase = Some p\<rparr>"
    using status_line_fields [OF assms(9), of v c p "[]"] assms(6,7) by simp
  then show ?thesis using s1 assms(10,11)
    by (subst status_lines.simps) (simp add: axis2_http_status_line_get_status_code_def AXIS2_HTTP_RESPONSE_OK_CODE_VAL_def)
qed

text \<open>The head of a response, read by the client: its answer is the code, or -1 when neither a content type nor a length is given.\<close>

lemma recieve_header_reads:
  assumes c: "cl_data_stream c = Some s" "cl_open c \<and> cl_request_sent c" "ready s"
    and wire: "contents s = head_wire (v @ '' '' @ print_base 10 (nat n) @ '' '' @ p @ AXIS2_HTTP_CRLF) hs @ rest"
    and n: "200 \<le> n" "n < 2 ^ 31" and plain: "plain_text v" "plain_text p" "CHR '' '' \<notin> set v"
    and size: "length v + length p + 14 < LINE_SIZE" and hs: "\<forall>h \<in> set hs. header_plain LINE_SIZE h" "distinct (map header_key hs)"
    and m: "mem_ok malloc"
    and ct: "header_map hs (axutil_string_tolower AXIS2_HTTP_HEADER_CONTENT_TYPE) \<noteq> None \<or> n = 202 \<or>
      header_map hs (axutil_string_tolower AXIS2_HTTP_HEADER_CONTENT_LENGTH) = None"
  shows "\<exists>s' r'. axis2_http_client_recieve_header malloc rd c =
      Some (Inr (if header_map hs (axutil_string_tolower AXIS2_HTTP_HEADER_CONTENT_TYPE) \<noteq> None \<or> n = 202 then n else -1,
        c\<lparr>cl_data_stream := Some s', cl_response := Some r'\<rparr>)) \<and> contents s' = rest \<and> ready s' \<and> rsp_stream r' = Some s' \<and>
    response_headers r' = hs \<and> axis2_http_simple_response_get_status_code r' = Inr n \<and>
    axis2_http_simple_response_get_http_version r' = Some v \<and> axis2_http_simple_response_get_phrase r' = Some p"
proof -
  let ?d = "print_base 10 (nat n)"
  let ?sl = "\<lparr>sl_line = Some (v @ '' '' @ ?d @ '' '' @ p @ AXIS2_HTTP_CRLF), sl_http_version = Some v, sl_status_code = Some ?d, sl_reason_phrase = Some p\<rparr>"
  have d: "axutil_atoi ?d = Inr n" "plain_text ?d" "CHR '' '' \<notin> set ?d" "length ?d \<le> 10"
    using atoi_print [of "nat n" "[]"] n print_digits_plain [of _ "nat n"] print_base_length [of 10 "nat n" 10]
    by (auto simp: plain_text_def nat_less_iff)
  obtain s1 where s1: "status_lines malloc rd s = Some (Inr (Inr ?sl, s1))" "contents s1 = concat (map header_text hs) @ AXIS2_HTTP_CRLF @ rest" "ready s1"
    using status_lines_reads [of s v ?d p "concat (map header_text hs) @ AXIS2_HTTP_CRLF @ rest" malloc n] c(3) wire plain d size m n
    by (auto simp: head_wire_def)
  let ?r0 = "\<lparr>rsp_status_line = None, rsp_header_group = None, rsp_stream = None\<rparr> :: 's simple_response"
  let ?r1 = "?r0\<lparr>rsp_status_line := Some ?sl\<rparr>"
  have r0: "axis2_http_simple_response_create_default malloc = Inr ?r0"
    using m by (simp add: axis2_http_simple_response_create_default_def mem_okD)
  have p3: "print_int3 n = ?d" using n by (simp add: print_int3_large)
  have "axis2_http_simple_response_set_status_line malloc ?r0 (Some v) n (Some p) =
      Inr (?r0\<lparr>rsp_status_line := Some \<lparr>sl_line = Some (v @ '' '' @ print_int3 n @ '' '' @ p @ AXIS2_HTTP_CRLF), sl_http_version = Some v,
        sl_status_code = Some ?d, sl_reason_phrase = Some p\<rparr>\<rparr>)"
    by (rule set_status_line_text [OF m]) (use n plain d p3 in \<open>auto simp: plain_text_def\<close>)
  then have r1: "axis2_http_simple_response_set_status_line malloc ?r0 (Some v) n (Some p) = Inr ?r1" using p3 by simp
  obtain s2 r2 where r2: "response_header_loop malloc rd s1 ?r1 [] = Some (Inr (s2, r2))" "contents s2 = rest" "ready s2"
      "response_headers r2 = hs" "response_ok r2" "rsp_status_line r2 = Some ?sl"
    using response_header_loop_reads [of s1 hs rest ?r1 malloc] s1 hs m by (auto simp: response_ok_def response_headers_def)
  let ?r3 = "r2\<lparr>rsp_stream := Some s2\<rparr>"
  have r3: "response_ok ?r3" "response_headers ?r3 = hs" using r2 by (simp_all add: response_ok_def response_headers_def)
  have has: "axis2_http_simple_response_contains_header ?r3 (Some AXIS2_HTTP_HEADER_CONTENT_TYPE) =
      Inr (header_map hs (axutil_string_tolower AXIS2_HTTP_HEADER_CONTENT_TYPE) \<noteq> None)"
    using contains_header_spec [OF r3(1), of AXIS2_HTTP_HEADER_CONTENT_TYPE] r3(2) by simp
  have len: "axis2_http_simple_response_get_content_length ?r3 = Inr (2 ^ 32 - 1)"
    if "header_map hs (axutil_string_tolower AXIS2_HTTP_HEADER_CONTENT_LENGTH) = None"
  proof -
    have "axis2_http_simple_response_get_first_header ?r3 (Some AXIS2_HTTP_HEADER_CONTENT_LENGTH) = Inr None"
      using first_header_value [OF r3(1), of AXIS2_HTTP_HEADER_CONTENT_LENGTH] r3(2) that by auto
    then show ?thesis by (simp add: axis2_http_simple_response_get_content_length_def length_of_header_def)
  qed
  have "axis2_http_client_recieve_header malloc rd c =
      Some (Inr (if header_map hs (axutil_string_tolower AXIS2_HTTP_HEADER_CONTENT_TYPE) \<noteq> None \<or> n = 202 then n else -1,
        c\<lparr>cl_data_stream := Some s2, cl_response := Some ?r3\<rparr>))"
    using c(1,2) s1(1) d(1) r0 r1 r2(1) has len ct
    by (auto simp: axis2_http_client_recieve_header_def axis2_http_status_line_get_status_code_def axis2_http_status_line_get_http_version_def
        axis2_http_status_line_get_reason_phrase_def axis2_http_simple_response_set_body_stream_def Let_def)
  then show ?thesis using r2 r3 d(1)
    by (intro exI [of _ s2] exI [of _ ?r3])
       (simp add: axis2_http_simple_response_get_status_code_def axis2_http_status_line_get_status_code_def
        axis2_http_simple_response_get_http_version_def axis2_http_status_line_get_http_version_def
        axis2_http_simple_response_get_phrase_def axis2_http_status_line_get_reason_phrase_def)
qed

end

section \<open>From the server to the client\<close>

lemma header_map_without:
  "distinct (map header_key hs) \<Longrightarrow> header_map (without k hs) = (header_map hs)(axutil_string_tolower k := None)"
  using header_map_remove filter_find_remove by (simp add: without_def)

lemma type_not_length: "axutil_string_tolower AXIS2_HTTP_HEADER_CONTENT_TYPE \<noteq> axutil_string_tolower AXIS2_HTTP_HEADER_CONTENT_LENGTH"
  by code_simp

lemma sent_headers_facts:
  assumes "response_ok r" "\<forall>h \<in> set (response_headers r). header_plain LINE_SIZE h"
  shows "distinct (map header_key (sent_headers r))" "\<forall>h \<in> set (sent_headers r). header_plain LINE_SIZE h"
    "header_map (sent_headers r) (axutil_string_tolower AXIS2_HTTP_HEADER_CONTENT_TYPE) =
     header_map (response_headers r) (axutil_string_tolower AXIS2_HTTP_HEADER_CONTENT_TYPE)"
proof -
  have d: "distinct (map header_key (response_headers r))" using assms(1) by (auto simp: response_ok_def response_headers_def split: option.splits)
  then show "distinct (map header_key (sent_headers r))" by (simp add: sent_headers_def without_def distinct_map_filter)
  show "\<forall>h \<in> set (sent_headers r). header_plain LINE_SIZE h" using assms(2) by (simp add: sent_headers_def without_def)
  show "header_map (sent_headers r) (axutil_string_tolower AXIS2_HTTP_HEADER_CONTENT_TYPE) =
     header_map (response_headers r) (axutil_string_tolower AXIS2_HTTP_HEADER_CONTENT_TYPE)"
    using header_map_without [OF d] type_not_length by (simp add: sent_headers_def)
qed

text \<open>The client's side of a response: its head, and the chunks of the body if it is chunked.\<close>

lemma client_reads_response:
  assumes m: "mem_ok malloc" and r0: "response_ok r0" "\<forall>h \<in> set (response_headers r0). header_plain LINE_SIZE h"
    and n: "200 \<le> n" "n < 2 ^ 31" and plain: "plain_text v" "plain_text p" "CHR '' '' \<notin> set v" "length v + length p + 14 < LINE_SIZE"
    and body: "length body < 2 ^ 28" and ct: "header_map (response_headers r0) (axutil_string_tolower AXIS2_HTTP_HEADER_CONTENT_TYPE) \<noteq> None"
    and bufs: "\<forall>b \<in> set bufs. length b < 2 ^ 31"
    and cl: "cl_data_stream cl = Some (Some \<lparr>sock_in = (head_wire (v @ '' '' @ print_base 10 (nat n) @ '' '' @ p @ AXIS2_HTTP_CRLF) (sent_headers r0) @
      body_wire (is_chunked r0) body) @ tail, sock_avail = a, sock_pieces = pieces, sock_out = out'\<rparr>)" "cl_open cl \<and> cl_request_sent cl"
  shows "\<exists>cl' q t. axis2_http_client_recieve_header malloc axutil_stream_read_socket cl = Some (Inr (n, cl')) \<and>
      cl_response cl' = Some q \<and> response_headers q = sent_headers r0 \<and> axis2_http_simple_response_get_status_code q = Inr n \<and>
      axis2_http_simple_response_get_http_version q = Some v \<and> axis2_http_simple_response_get_phrase q = Some p \<and>
      cl_data_stream cl' = Some (Some t) \<and> sock_in t = body_wire (is_chunked r0) body @ tail \<and>
      (is_chunked r0 \<and> body \<noteq> [] \<longrightarrow> (\<exists>cs. axutil_http_chunked_stream_create malloc (Some (Some t)) = Inr cs \<and>
        receive_body axutil_stream_read_socket cs bufs = Some (Inr (cut body (map length bufs)))))"
proof -
  obtain s2 q where q: "axis2_http_client_recieve_header malloc axutil_stream_read_socket cl =
        Some (Inr (n, cl\<lparr>cl_data_stream := Some s2, cl_response := Some q\<rparr>))"
      "sock_in (the s2) = body_wire (is_chunked r0) body @ tail" "s2 \<noteq> None" "response_headers q = sent_headers r0"
      "axis2_http_simple_response_get_status_code q = Inr n" "axis2_http_simple_response_get_http_version q = Some v"
      "axis2_http_simple_response_get_phrase q = Some p"
    using socket_source.recieve_header_reads [OF cl(1,2), of v n p "sent_headers r0" "body_wire (is_chunked r0) body @ tail" malloc]
      n plain sent_headers_facts [OF r0] ct m by auto
  obtain t where t: "s2 = Some t" using q(3) by blast
  have "\<exists>cs. axutil_http_chunked_stream_create malloc (Some (Some t)) = Inr cs \<and>
      receive_body axutil_stream_read_socket cs bufs = Some (Inr (cut body (map length bufs)))" if ch: "is_chunked r0" "body \<noteq> []"
  proof -
    obtain cs where cs: "axutil_http_chunked_stream_create malloc (Some (Some t)) = Inr cs"
      using m by (simp add: axutil_http_chunked_stream_create_def mem_okD)
    have "socket_source.pending cs (concat [body])"
      by (rule socket_source.pending_start [OF cs, of "[body]" tail]) (use q(2) t ch body in \<open>auto simp: body_wire_def chunks_ok_def\<close>)
    then show ?thesis using cs socket_source.receive_body_source bufs by fastforce
  qed
  then show ?thesis using q t by (intro exI [of _ "cl\<lparr>cl_data_stream := Some s2, cl_response := Some q\<rparr>"] exI [of _ q] exI [of _ t]) simp
qed

text \<open>
  What the client finds after the head of a response, chunked or not: the headers and the bytes of the body as the server has sent them.
\<close>

lemma response_on_the_wire:
  assumes m: "mem_ok malloc" and r0: "response_ok r0" "\<forall>h \<in> set (response_headers r0). header_plain LINE_SIZE h" "not_binary r0"
    and line: "axis2_http_simple_response_set_status_line malloc r0 (Some v) n (Some p) = Inr r"
    and n: "200 \<le> n" "n < 2 ^ 31" and plain: "plain_text v" "plain_text p" "CHR '' '' \<notin> set v" "length v + length p + 14 < LINE_SIZE"
    and body: "body_in (rsp_stream r0) body" "length body < 2 ^ 28"
    and ct: "header_map (response_headers r0) (axutil_string_tolower AXIS2_HTTP_HEADER_CONTENT_TYPE) \<noteq> None"
    and srv: "conn_stream srv = Some (Some s)" "sock_out s = []"
    and bufs: "\<forall>b \<in> set bufs. length b < 2 ^ 31"
  shows "\<exists>srv' r' s'. axis2_simple_http_svr_conn_write_response malloc mtom srv (Some r) = Some (Inr (srv', r')) \<and> conn_stream srv' = Some (Some s') \<and>
    (\<forall>cl a pieces out' tail. cl_data_stream cl = Some (Some \<lparr>sock_in = sock_out s' @ tail, sock_avail = a, sock_pieces = pieces, sock_out = out'\<rparr>) \<longrightarrow>
      cl_open cl \<and> cl_request_sent cl \<longrightarrow>
      (\<exists>cl' q t. axis2_http_client_recieve_header malloc axutil_stream_read_socket cl = Some (Inr (n, cl')) \<and>
        cl_response cl' = Some q \<and> response_headers q = sent_headers r0 \<and> axis2_http_simple_response_get_status_code q = Inr n \<and>
        axis2_http_simple_response_get_http_version q = Some v \<and> axis2_http_simple_response_get_phrase q = Some p \<and>
        cl_data_stream cl' = Some (Some t) \<and> sock_in t = body_wire (is_chunked r0) body @ tail \<and>
        (is_chunked r0 \<and> body \<noteq> [] \<longrightarrow>
          (\<exists>cs. axutil_http_chunked_stream_create malloc (Some (Some t)) = Inr cs \<and>
            receive_body axutil_stream_read_socket cs bufs = Some (Inr (cut body (map length bufs)))))))"
proof -
  let ?d = "print_base 10 (nat n)"
  let ?line = "v @ '' '' @ ?d @ '' '' @ p @ AXIS2_HTTP_CRLF"
  have p3: "print_int3 n = ?d" using n by (simp add: print_int3_large)
  have "axis2_http_simple_response_set_status_line malloc r0 (Some v) n (Some p) =
      Inr (r0\<lparr>rsp_status_line := Some \<lparr>sl_line = Some (v @ '' '' @ print_int3 n @ '' '' @ p @ AXIS2_HTTP_CRLF), sl_http_version = Some v,
        sl_status_code = Some ?d, sl_reason_phrase = Some p\<rparr>\<rparr>)"
    by (rule set_status_line_text [OF m]) (use n plain p3 print_digits_plain [of _ "nat n"] in \<open>auto simp: plain_text_def\<close>)
  then have r: "r = r0\<lparr>rsp_status_line := Some \<lparr>sl_line = Some ?line, sl_http_version = Some v, sl_status_code = Some ?d, sl_reason_phrase = Some p\<rparr>\<rparr>"
    using line p3 by simp
  have rh: "response_headers r = response_headers r0" "response_ok r" "not_binary r" "is_chunked r = is_chunked r0" "sent_headers r = sent_headers r0"
    using r r0 by (simp_all add: response_headers_def response_ok_def not_binary_def is_chunked_def sent_headers_def)
  have size: "length ?line < 2 ^ 31" "\<forall>h \<in> set (response_headers r). length (header_text h) < 2 ^ 31"
    using plain(4) print_base_length [of 10 "nat n" 10] n r0(2) rh(1)
    by (auto simp: LINE_SIZE_def CRLF_simps header_plain_def nat_less_iff)
  obtain srv' r' where w: "axis2_simple_http_svr_conn_write_response malloc mtom srv (Some r) = Some (Inr (srv', r'))"
      "conn_stream srv' = Some (Some (s\<lparr>sock_out := head_wire ?line (sent_headers r0) @ body_wire (is_chunked r0) body\<rparr>))"
    using write_response_wire [OF m rh(2,3), of ?line body srv s mtom] body srv r rh size
    by (auto simp: axis2_http_simple_response_get_status_line_def axis2_http_status_line_to_string_def)
  then show ?thesis
    using client_reads_response [OF m r0(1,2) n plain body(2) ct bufs] by (intro exI [of _ srv'] exI [of _ r']) (auto simp del: append_assoc)
qed

lemma without_absent: "header_map hs (axutil_string_tolower k) = None \<Longrightarrow> without k hs = hs"
  by (auto simp: without_def header_map_def map_of_eq_None_iff image_image image_iff intro!: filter_True)

text \<open>
  C3: a response with a non-empty body of less than $2^{28}$ bytes, sent with \<^verbatim>\<open>Transfer-Encoding: chunked\<close> and without a Content-Length.
  Its headers are plain text of distinct names, each shorter than the line buffer, among them a content type that is not one of an attachment;
  the status code is at least 200 and version and phrase are plain text that fits the line buffer. Written by the server to a connection, it is
  read back by the client with the same code, version, phrase and headers in the same order, in whatever pieces the bytes arrive and whatever follows
  them on the connection; reading from a chunked stream over the connection with any buffers then gives the bytes of the body in order, and
  nothing more.
\<close>

theorem response_roundtrip:
  assumes m: "mem_ok malloc" and r0: "response_ok r0" "\<forall>h \<in> set (response_headers r0). header_plain LINE_SIZE h" "not_binary r0"
    and line: "axis2_http_simple_response_set_status_line malloc r0 (Some v) n (Some p) = Inr r"
    and n: "200 \<le> n" "n < 2 ^ 31" and plain: "plain_text v" "plain_text p" "CHR '' '' \<notin> set v" "length v + length p + 14 < LINE_SIZE"
    and body: "body_in (rsp_stream r0) body" "length body < 2 ^ 28" "body \<noteq> []"
    and ct: "header_map (response_headers r0) (axutil_string_tolower AXIS2_HTTP_HEADER_CONTENT_TYPE) \<noteq> None"
    and chunked: "is_chunked r0" "header_map (response_headers r0) (axutil_string_tolower AXIS2_HTTP_HEADER_CONTENT_LENGTH) = None"
    and srv: "conn_stream srv = Some (Some s)" "sock_out s = []"
    and bufs: "\<forall>b \<in> set bufs. length b < 2 ^ 31"
  shows "\<exists>srv' r' s'. axis2_simple_http_svr_conn_write_response malloc mtom srv (Some r) = Some (Inr (srv', r')) \<and> conn_stream srv' = Some (Some s') \<and>
    (\<forall>cl a pieces out' tail. cl_data_stream cl = Some (Some \<lparr>sock_in = sock_out s' @ tail, sock_avail = a, sock_pieces = pieces, sock_out = out'\<rparr>) \<longrightarrow>
      cl_open cl \<and> cl_request_sent cl \<longrightarrow>
      (\<exists>cl' q t cs. axis2_http_client_recieve_header malloc axutil_stream_read_socket cl = Some (Inr (n, cl')) \<and>
        cl_response cl' = Some q \<and> response_headers q = response_headers r0 \<and> axis2_http_simple_response_get_status_code q = Inr n \<and>
        axis2_http_simple_response_get_http_version q = Some v \<and> axis2_http_simple_response_get_phrase q = Some p \<and>
        cl_data_stream cl' = Some (Some t) \<and> axutil_http_chunked_stream_create malloc (Some (Some t)) = Inr cs \<and>
        receive_body axutil_stream_read_socket cs bufs = Some (Inr (cut body (map length bufs)))))"
proof -
  have "sent_headers r0 = response_headers r0" using chunked by (simp add: sent_headers_def without_absent)
  with response_on_the_wire [OF m r0 line n plain body(1,2) ct srv bufs, of mtom] chunked(1) body(3) show ?thesis by fastforce
qed

text \<open>A client that has sent its request over a connection.\<close>

definition client_on :: "'s \<Rightarrow> 's http_client" where
  "client_on s = (projr (axis2_http_client_create (\<lambda>n. True) None))\<lparr>cl_open := True, cl_data_stream := Some s, cl_request_sent := True\<rparr>"

definition sample_response :: "basic_stream simple_response" where
  "sample_response =
     \<lparr>rsp_status_line = None,
      rsp_header_group = Some (al_of [\<lparr>hdr_name = Some ''Content-Type'', hdr_value = Some ''text/xml''\<rparr>,
        \<lparr>hdr_name = Some ''Transfer-Encoding'', hdr_value = Some ''chunked''\<rparr>]),
      rsp_stream = Some \<lparr>bs_block = Some (''hi'' @ replicate 10 (CHR ''x'')), bs_pos = 0, bs_len = 2, bs_max_len = 12\<rparr>\<rparr>"

definition sample_status :: http_status_line where
  "sample_status = \<lparr>sl_line = Some (''HTTP/1.1 200 OK'' @ AXIS2_HTTP_CRLF), sl_http_version = Some ''HTTP/1.1'', sl_status_code = Some ''200'',
     sl_reason_phrase = Some ''OK''\<rparr>"

lemma sample_headers: "response_headers sample_response =
    [Some \<lparr>hdr_name = Some ''Content-Type'', hdr_value = Some ''text/xml''\<rparr>, Some \<lparr>hdr_name = Some ''Transfer-Encoding'', hdr_value = Some ''chunked''\<rparr>]"
  by (simp add: sample_response_def response_headers_def)

lemma sample_map:
  "header_map (response_headers sample_response) (axutil_string_tolower AXIS2_HTTP_HEADER_CONTENT_TYPE) = Some ''text/xml''"
  "is_chunked sample_response"
  unfolding sample_headers is_chunked_def by code_simp+

lemma sample_ok: "response_ok sample_response" "\<forall>h \<in> set (response_headers sample_response). header_plain LINE_SIZE h" "not_binary sample_response"
  "body_in (rsp_stream sample_response) ''hi''"
proof -
  have "header_key (Some \<lparr>hdr_name = Some ''Content-Type'', hdr_value = Some ''text/xml''\<rparr>) \<noteq>
      header_key (Some \<lparr>hdr_name = Some ''Transfer-Encoding'', hdr_value = Some ''chunked''\<rparr>)" by code_simp
  then show "response_ok sample_response"
    by (simp add: response_ok_def sample_response_def group_ok_def header_ok_def NUL_def)
  show "\<forall>h \<in> set (response_headers sample_response). header_plain LINE_SIZE h"
    by (simp add: sample_headers header_plain_def plain_text_def NUL_def front_def LINE_SIZE_def header_text_def CRLF_simps)
  show "not_binary sample_response" unfolding not_binary_def sample_map(1) by code_simp
  show "body_in (rsp_stream sample_response) ''hi''"
    by (simp add: body_in_def sample_response_def basic_inv_def unread_def numeral_2_eq_2)
qed

lemma sample_line: "axis2_http_simple_response_set_status_line (\<lambda>n. True) sample_response (Some ''HTTP/1.1'') 200 (Some ''OK'') =
    Inr (sample_response\<lparr>rsp_status_line := Some sample_status\<rparr>)"
proof -
  have "print_int3 200 = ''200''" by code_simp
  then show ?thesis
    using set_status_line_text [of "\<lambda>n. True" 200 "''OK''" "''200''" "''OK''" "''HTTP/1.1''" sample_response]
    by (simp add: sample_status_def)
qed

theorem response_roundtrip_witness:
  "\<exists>srv' r' s' cl' q t cs. axis2_simple_http_svr_conn_write_response (\<lambda>n. True) (\<lambda>s. Inl FAILURE_STATUS)
      \<lparr>conn_stream = Some (Some \<lparr>sock_in = [], sock_avail = 0, sock_pieces = [], sock_out = []\<rparr>), conn_keep_alive = False\<rparr>
      (Some (sample_response\<lparr>rsp_status_line := Some sample_status\<rparr>)) = Some (Inr (srv', r')) \<and>
    conn_stream srv' = Some (Some s') \<and>
    axis2_http_client_recieve_header (\<lambda>n. True) axutil_stream_read_socket
      (client_on (Some \<lparr>sock_in = sock_out s' @ ''next'', sock_avail = 0, sock_pieces = [5, 1, 1, 7], sock_out = []\<rparr>)) = Some (Inr (200, cl')) \<and>
    cl_response cl' = Some q \<and> response_headers q = response_headers sample_response \<and>
    cl_data_stream cl' = Some (Some t) \<and> axutil_http_chunked_stream_create (\<lambda>n. True) (Some (Some t)) = Inr cs \<and>
    receive_body axutil_stream_read_socket cs [''.'', ''...''] = Some (Inr [''h'', ''i''])"
proof -
  have ct: "header_map (response_headers sample_response) (axutil_string_tolower AXIS2_HTTP_HEADER_CONTENT_TYPE) \<noteq> None"
    "header_map (response_headers sample_response) (axutil_string_tolower AXIS2_HTTP_HEADER_CONTENT_LENGTH) = None"
    by (simp add: sample_map) (unfold sample_headers, code_simp)
  obtain srv' r' s' where w: "axis2_simple_http_svr_conn_write_response (\<lambda>n. True) (\<lambda>s. Inl FAILURE_STATUS)
      \<lparr>conn_stream = Some (Some \<lparr>sock_in = [], sock_avail = 0, sock_pieces = [], sock_out = []\<rparr>), conn_keep_alive = False\<rparr>
      (Some (sample_response\<lparr>rsp_status_line := Some sample_status\<rparr>)) = Some (Inr (srv', r'))"
      "conn_stream srv' = Some (Some s')"
    and cl: "\<forall>cl a pieces out' tail. cl_data_stream cl = Some (Some \<lparr>sock_in = sock_out s' @ tail, sock_avail = a, sock_pieces = pieces, sock_out = out'\<rparr>) \<longrightarrow>
      cl_open cl \<and> cl_request_sent cl \<longrightarrow>
      (\<exists>cl' q t cs. axis2_http_client_recieve_header (\<lambda>n. True) axutil_stream_read_socket cl = Some (Inr (200, cl')) \<and>
        cl_response cl' = Some q \<and> response_headers q = response_headers sample_response \<and> axis2_http_simple_response_get_status_code q = Inr 200 \<and>
        axis2_http_simple_response_get_http_version q = Some ''HTTP/1.1'' \<and> axis2_http_simple_response_get_phrase q = Some ''OK'' \<and>
        cl_data_stream cl' = Some (Some t) \<and> axutil_http_chunked_stream_create (\<lambda>n. True) (Some (Some t)) = Inr cs \<and>
        receive_body axutil_stream_read_socket cs [''.'', ''...''] = Some (Inr (cut ''hi'' (map length [''.'', ''...'']))))"
    using response_roundtrip [OF mem_ok_True sample_ok(1,2,3) sample_line _ _ _ _ _ _ sample_ok(4) _ _ ct(1) sample_map(2) ct(2),
      of "\<lparr>conn_stream = Some (Some \<lparr>sock_in = [], sock_avail = 0, sock_pieces = [], sock_out = []\<rparr>), conn_keep_alive = False\<rparr>"
        "\<lparr>sock_in = [], sock_avail = 0, sock_pieces = [], sock_out = []\<rparr>" "[''.'', ''...'']" "\<lambda>s. Inl FAILURE_STATUS"]
    by (auto simp: plain_text_def NUL_def LINE_SIZE_def)
  have k: "cut ''hi'' (map length [''.'', ''...'']) = [''h'', ''i'']" by simp
  show ?thesis
    using w cl [rule_format, of "client_on (Some \<lparr>sock_in = sock_out s' @ ''next'', sock_avail = 0, sock_pieces = [5, 1, 1, 7], sock_out = []\<rparr>)"]
    unfolding k by (fastforce simp: client_on_def)
qed

end
