(* ===== verification/Http_Request.thy ===== *)
theory Http_Request
  imports Http_Response
begin

text \<open>
  A request on its way from \<^verbatim>\<open>axis2_http_client_send\<close> to \<^verbatim>\<open>axis2_simple_http_svr_conn_read_request\<close>: the bytes the client writes, and what the
  server makes of them when the head of the request has arrived before it starts to read. The server reads lines by looking at
  what has arrived first; when more arrives between the look and the read, lines are merged, as the last section shows.
\<close>

section \<open>What the client writes\<close>

definition wants_chunks :: "http_header option \<Rightarrow> bool" where
  "wants_chunks p \<longleftrightarrow> p = Some \<lparr>hdr_name = Some AXIS2_HTTP_HEADER_TRANSFER_ENCODING, hdr_value = Some AXIS2_HTTP_HEADER_TRANSFER_ENCODING_CHUNKED\<rparr>"

definition text_ptr :: "string option \<Rightarrow> string" where
  "text_ptr p = (case p of None \<Rightarrow> [] | Some s \<Rightarrow> s)"

lemma stracat_text: "mem_ok malloc \<Longrightarrow> \<exists>p. axutil_stracat malloc a (Some b) = Inr p \<and> text_ptr p = text_ptr a @ b \<and> p \<noteq> None"
  by (cases a) (auto simp: axutil_stracat_def axutil_strdup_def text_ptr_def mem_okD)

lemma stracat_line: "mem_ok malloc \<Longrightarrow> axutil_stracat malloc (Some a) p = Inr (Some (a @ text_ptr p))"
  by (cases p) (auto simp: axutil_stracat_def axutil_strdup_def text_ptr_def mem_okD)

lemma client_headers_spec:
  assumes "\<forall>h \<in> set hs. header_ok h" "mem_ok malloc"
  shows "\<exists>p. client_headers malloc hs chunk str = Inr (chunk \<or> (\<exists>h \<in> set hs. wants_chunks h), p) \<and>
    text_ptr p = text_ptr str @ concat (map header_text hs)"
  using assms(1)
proof (induction hs arbitrary: chunk str)
  case (Cons h hs)
  obtain x where h: "h = Some x" "header_ok h" using Cons.prems by (cases h) (auto simp: header_ok_def)
  obtain p where p: "axutil_stracat malloc str (Some (header_text h)) = Inr p" "text_ptr p = text_ptr str @ header_text h"
    using stracat_text [OF assms(2)] by blast
  let ?c = "axutil_strcmp (axis2_http_header_get_name x) (Some AXIS2_HTTP_HEADER_TRANSFER_ENCODING) = 0 \<and>
    axutil_strcmp (axis2_http_header_get_value x) (Some AXIS2_HTTP_HEADER_TRANSFER_ENCODING_CHUNKED) = 0"
  have c: "?c \<longleftrightarrow> wants_chunks h"
    using h by (cases x) (auto simp: wants_chunks_def axutil_strcmp_eq_0 axis2_http_header_get_name_def axis2_http_header_get_value_def header_ok_def)
  have "client_headers malloc (h # hs) chunk str = client_headers malloc hs (chunk \<or> ?c) p"
    using h external_form_ok [OF h(2) assms(2)] p(1) by simp
  then show ?case using Cons.IH [of "chunk \<or> ?c" p] Cons.prems p(2) c by (auto simp del: axutil_strcmp_eq_0)
qed (auto simp: text_ptr_def)

lemma send_body_socket:
  assumes "length body < 2 ^ 28" "mem_ok malloc"
  shows "send_request_body malloc axutil_stream_write_socket (Some s) chunk body =
    Some (Inr (if body = [] then AXIS2_FAILURE else AXIS2_SUCCESS,
      Some (s\<lparr>sock_out := sock_out s @ (if body = [] then [] else if chunk then body_text [body] else body)\<rparr>)))"
proof (cases "body = []")
  case True
  then show ?thesis by (simp add: send_request_body_def)
next
  case ne: False
  show ?thesis
  proof (cases chunk)
    case False
    have "send_plain_loop axutil_stream_write_socket (Some s) body 0 =
        send_plain_loop axutil_stream_write_socket (Some (s\<lparr>sock_out := sock_out s @ body\<rparr>)) body (int (length body))"
      using ne assms(1) by (subst send_plain_loop.simps) (simp add: write_socket_all)
    then show ?thesis using ne False by (simp add: send_request_body_def send_plain_loop.simps [of _ _ body "int (length body)"])
  next
    case True
    let ?cs = "\<lambda>s. \<lparr>cs_stream = Some (Some s), cs_current_chunk_size = -1, cs_unread_len = -1, cs_end_of_chunks = False, cs_chunk_started = False\<rparr> :: socket_stream chunked_stream"
    have n: "\<not> 10 < length (print_hex (length body) @ AXIS2_HTTP_CRLF) + 1" using assms(1) by (subst tmp_buf_fits) simp
    have "length body mod 2 ^ 32 = length body" using assms(1) by simp
    then have "axutil_http_chunked_stream_write axutil_stream_write_socket (?cs s) (Some body) =
        Inr (int (length body), ?cs (s\<lparr>sock_out := sock_out s @ chunk_text body\<rparr>))"
      using n assms(1) by (simp add: axutil_http_chunked_stream_write_def write_socket_all chunk_text_def Let_def CRLF_simps)
    then have "send_chunk_loop axutil_stream_write_socket (?cs s) body 0 =
        Some (Inr (AXIS2_SUCCESS, ?cs (s\<lparr>sock_out := sock_out s @ chunk_text body\<rparr>)))"
      using ne by (subst send_chunk_loop.simps) (simp add: send_chunk_loop.simps [of _ _ body "int (length body)"])
    then show ?thesis using ne True assms(2)
      by (simp add: send_request_body_def axutil_http_chunked_stream_create_def mem_okD axutil_http_chunked_stream_write_last_chunk_def
          write_socket_all body_text_def last_chunk_def CRLF_simps)
  qed
qed

definition request_headers_of :: "'st simple_request \<Rightarrow> http_header option list" where
  "request_headers_of r = (case req_header_group r of None \<Rightarrow> [] | Some g \<Rightarrow> al_list g)"

definition request_body_wire :: "http_header option list \<Rightarrow> string \<Rightarrow> string" where
  "request_body_wire hs body =
     (if body = [] then [] else if \<exists>h \<in> set hs. wants_chunks h then body_text [body] else body)"

lemma send_head_wire:
  assumes m: "mem_ok malloc" and rl: "req_line req = Some rl" "axis2_http_request_line_to_string malloc rl = Inr line"
    and hs: "\<forall>h \<in> set (request_headers_of req). header_ok h" and c: "\<not> cl_proxy_enabled c"
    and size: "length (line @ concat (map header_text (request_headers_of req))) < 2 ^ 31"
  shows "send_head malloc axutil_stream_write_socket c url req (Some s) =
    Inr (\<exists>h \<in> set (request_headers_of req). wants_chunks h, Some (s\<lparr>sock_out := sock_out s @ head_wire line (request_headers_of req)\<rparr>))"
proof -
  obtain p where p: "client_headers malloc (request_headers_of req) False None = Inr (\<exists>h \<in> set (request_headers_of req). wants_chunks h, p)"
      "text_ptr p = concat (map header_text (request_headers_of req))"
    using client_headers_spec [OF hs m, of False None] by (auto simp: text_ptr_def)
  have hd: "(case axis2_http_simple_request_get_headers req of None \<Rightarrow> [] | Some g \<Rightarrow> al_list g) = request_headers_of req"
    by (simp add: axis2_http_simple_request_get_headers_def request_headers_of_def)
  have "request_line_text malloc c url (axis2_http_simple_request_get_request_line req) = Inr (Some line)"
    using rl c by (simp add: request_line_text_def axis2_http_simple_request_get_request_line_def)
  then show ?thesis using p stracat_line [OF m, of line p] unfolding send_head_def hd
    by (simp add: Let_def write_socket_all [OF size] write_socket_all CRLF_simps head_wire_def)
qed

text \<open>The bytes of the body, read from the stream of the request with or without a content length.\<close>

lemma body_loop_ok:
  assumes "mem_ok malloc" "basic_inv st" "NUL \<notin> set (unread st)"
  shows "\<exists>p st'. body_loop malloc st tmp = Some (Inr (p, st')) \<and> text_ptr p = text_ptr tmp @ unread st"
  using assms(2,3)
proof (induction "length (unread st)" arbitrary: st tmp rule: less_induct)
  case less
  obtain st1 where r: "axutil_stream_read_basic st 128 = Inr (int (min 127 (nat (bs_len st))), take 127 (unread st), st1)" "basic_inv st1"
      "unread st1 = drop 127 (unread st)"
    using read_basic_spec [OF less.prems(1), of 128] by auto
  have len: "nat (bs_len st) = length (unread st)" using length_unread [OF less.prems(1)] by simp
  show ?case
  proof (cases "unread st")
    case Nil
    then show ?thesis using r(1) len by (subst body_loop.simps) simp
  next
    case (Cons c cs)
    have "NUL \<notin> set (take 127 (unread st))" "NUL \<notin> set (unread st1)" using less.prems(2) r(3) by (auto dest: in_set_takeD in_set_dropD)
    then have cs: "c_string (take 127 (unread st)) = take 127 (unread st)" by (simp add: c_string_def NUL_def takeWhile_eq_all_conv) metis
    obtain q where q: "axutil_stracat malloc tmp (Some (take 127 (unread st))) = Inr q" "text_ptr q = text_ptr tmp @ take 127 (unread st)"
      using stracat_text [OF assms(1)] by blast
    have "length (unread st1) < length (unread st)" using r(3) Cons by simp
    from less.hyps [OF this r(2) \<open>NUL \<notin> set (unread st1)\<close>, of q] obtain p st' where
      "body_loop malloc st1 q = Some (Inr (p, st'))" "text_ptr p = text_ptr q @ unread st1" by blast
    moreover have "body_loop malloc st tmp = body_loop malloc st1 q"
      using r(1) len Cons q(1) cs by (subst body_loop.simps) simp
    ultimately show ?thesis using q(2) r(3) by simp
  qed
qed

definition length_fits :: "'st simple_request \<Rightarrow> string \<Rightarrow> bool" where
  "length_fits r body \<longleftrightarrow> axis2_http_simple_request_get_content_length r \<in> {Inr (2 ^ 32 - 1), Inr (int (length body))}"

lemma get_body_bytes_ok:
  assumes "mem_ok malloc" "body_in (req_stream r) body" "length_fits r body" "NUL \<notin> set body" "length body < 2 ^ 28"
  shows "\<exists>st. axis2_http_simple_request_get_body_bytes malloc r = Some (Inr (body, r\<lparr>req_stream := st\<rparr>))"
proof (cases "req_stream r")
  case None
  then show ?thesis using assms(1,2) by (auto simp: axis2_http_simple_request_get_body_bytes_def body_in_def mem_okD intro!: exI [of _ None])
next
  case (Some st)
  then have st: "basic_inv st" "unread st = body" using assms(2) by (auto simp: body_in_def)
  obtain n where n: "axis2_http_simple_request_get_content_length r = Inr n" "n = 2 ^ 32 - 1 \<or> n = int (length body)"
    using assms(3) by (auto simp: length_fits_def)
  show ?thesis
  proof (cases "n = int (length body) \<and> body \<noteq> []")
    case True
    then obtain st1 where "axutil_stream_read_basic st (length body + 1) = Inr (int (length body), body, st1)"
      using read_basic_spec [OF st(1), of "length body + 1"] st(2) assms(5) length_unread [OF st(1)] by auto
    then show ?thesis using Some n(1) True assms(1,5)
      by (auto simp: axis2_http_simple_request_get_body_bytes_def mem_okD Let_def intro!: exI [of _ "Some st1"])
  next
    case False
    then have "(if n < 2 ^ 31 then n else n - 2 ^ 32) \<le> 0" using n(2) by auto
    moreover obtain p st' where "body_loop malloc st None = Some (Inr (p, st'))" "text_ptr p = body"
      using body_loop_ok [OF assms(1) st(1), of None] st(2) assms(4) by (auto simp: text_ptr_def)
    ultimately show ?thesis using Some n(1) mem_okD [OF assms(1)]
      by (cases p) (auto simp: axis2_http_simple_request_get_body_bytes_def Let_def text_ptr_def intro!: exI [of _ "Some st'"])
  qed
qed

text \<open>A new client for a URL, whose host answers with the connection \<open>s\<close>.\<close>

definition fresh_client ::
    "alloc \<Rightarrow> (string \<Rightarrow> int \<Rightarrow> socket_stream option) \<Rightarrow> socket_stream http_client \<Rightarrow> c_socket \<Rightarrow> bool" where
  "fresh_client malloc connect c s \<longleftrightarrow>
     (\<exists>url h pr. axis2_http_client_create malloc (Some url) = Inr c \<and> axutil_url_get_host url = Some h \<and> connect h (axutil_url_get_port url) = Some (Some s) \<and>
       axutil_url_get_protocol url = Some pr \<and> axutil_strcasecmp pr AXIS2_TRANSPORT_URL_HTTPS \<noteq> 0)"

lemma client_send_wire:
  assumes m: "mem_ok malloc" and rl: "req_line req = Some rl" "axis2_http_request_line_to_string malloc rl = Inr line"
    and hs: "\<forall>h \<in> set (request_headers_of req). header_ok h"
    and body: "body_in (req_stream req) body" "length_fits req body" "NUL \<notin> set body" "length body < 2 ^ 28"
    and c: "fresh_client malloc connect c s" and size: "length (line @ concat (map header_text (request_headers_of req))) < 2 ^ 31"
  shows "\<exists>st. axis2_http_client_send malloc connect axutil_stream_write_socket mtom c req =
    Some (Inr (if body = [] then AXIS2_FAILURE else AXIS2_SUCCESS,
      c\<lparr>cl_open := True, cl_data_stream := Some (Some (s\<lparr>sock_out := sock_out s @ head_wire line (request_headers_of req) @ request_body_wire (request_headers_of req) body\<rparr>)),
        cl_request_sent := True, cl_req_body := Some body\<rparr>, req\<lparr>req_stream := st\<rparr>))"
proof -
  obtain url h pr where url: "axis2_http_client_create malloc (Some url) = Inr c" "axutil_url_get_host url = Some h"
      "connect h (axutil_url_get_port url) = Some (Some s)" "axutil_url_get_protocol url = Some pr" "axutil_strcasecmp pr AXIS2_TRANSPORT_URL_HTTPS \<noteq> 0"
    using c by (auto simp: fresh_client_def)
  have new: "cl_url c = Some url" "cl_req_body c = None" "\<not> cl_doing_mtom c" "\<not> cl_dump_input_msg c" "\<not> cl_proxy_enabled c"
    using url(1) by (auto simp: axis2_http_client_create_def split: if_splits)
  obtain st where st: "axis2_http_simple_request_get_body_bytes malloc req = Some (Inr (body, req\<lparr>req_stream := st\<rparr>))"
    using get_body_bytes_ok [OF m body] by blast
  let ?c1 = "c\<lparr>cl_req_body := Some body, cl_open := True, cl_data_stream := Some (Some s)\<rparr>"
  have op: "open_connection connect (c\<lparr>cl_req_body := Some body\<rparr>) url = Inr (Some (Some s), ?c1)"
    using url new by (simp add: open_connection_def)
  have hd: "request_headers_of (req\<lparr>req_stream := st\<rparr>) = request_headers_of req" by (simp add: request_headers_of_def)
  have "send_head malloc axutil_stream_write_socket ?c1 url (req\<lparr>req_stream := st\<rparr>) (Some s) =
      Inr (\<exists>h \<in> set (request_headers_of req). wants_chunks h, Some (s\<lparr>sock_out := sock_out s @ head_wire line (request_headers_of req)\<rparr>))"
    using send_head_wire [OF m _ rl(2), of "req\<lparr>req_stream := st\<rparr>" ?c1 url s] rl(1) hs size new by (simp add: hd)
  then show ?thesis using st op new send_body_socket [OF body(4) m]
    by (auto simp: axis2_http_client_send_def request_body_wire_def intro!: exI [of _ st])
qed

section \<open>What the server reads\<close>

lemma arrived_avail: "min (sock_avail s) (length (sock_in s)) \<le> arrived s" "arrived s \<le> length (sock_in s)"
  by (auto simp: arrived_def split: list.splits)

text \<open>A line that has arrived is taken whole, and what had arrived behind it stays available.\<close>

lemma peek_line_arrived:
  assumes m: "mem_ok malloc" and s: "sock_in s = l @ AXIS2_HTTP_CRLF @ rest" "length l + 2 \<le> sock_avail s" "length l + 2 \<le> PEEK_SIZE"
    and l: "plain_text l"
  shows "\<exists>s'. peek_line malloc (Some (Some s)) None f = Some (Inr (Some (l @ AXIS2_HTTP_CRLF), True, True, Some (Some s'))) \<and>
    sock_in s' = rest \<and> min (sock_avail s) (length (sock_in s)) - (length l + 2) \<le> sock_avail s'"
proof -
  have len: "length (sock_in s) = length l + 2 + length rest" using s(1) by (simp add: CRLF_simps)
  let ?a = "arrived s"
  have a: "length l + 2 \<le> ?a" "min (sock_avail s) (length (sock_in s)) \<le> ?a" "?a \<le> length (sock_in s)"
    using s(2) len arrived_avail [of s] by auto
  define k where "k = min PEEK_SIZE ?a"
  define s1 where "s1 = s\<lparr>sock_avail := ?a, sock_pieces := tl (sock_pieces s)\<rparr>"
  have k: "length l + 2 \<le> k" "0 < k" "k < 2 ^ 31" using a(1) s(3) by (auto simp: k_def PEEK_SIZE_def)
  have peek: "axutil_stream_peek_socket (Some (Some s)) PEEK_SIZE = (int k, take k (sock_in s), Some (Some s1))"
    using k by (simp add: axutil_stream_peek_socket_def recv_peek_def recv_len_def Let_def k_def s1_def)
  define t where "t = take (k - (length l + 2)) rest"
  have seen: "take k (sock_in s) = l @ AXIS2_HTTP_CRLF @ t"
  proof -
    obtain j where "k = length (l @ AXIS2_HTTP_CRLF) + j" using k(1) by (auto simp: CRLF_simps le_iff_add)
    then show ?thesis using s(1) by (simp add: t_def CRLF_simps)
  qed
  have "takeWhile (\<lambda>c. c \<noteq> NUL) (l @ AXIS2_HTTP_CRLF @ t) = l @ AXIS2_HTTP_CRLF @ takeWhile (\<lambda>c. c \<noteq> NUL) t"
    using l by (auto simp: plain_text_def CRLF_simps NUL_def takeWhile_append)
  moreover have "strstr (l @ AXIS2_HTTP_CRLF @ takeWhile (\<lambda>c. c \<noteq> NUL) t) AXIS2_HTTP_CRLF = Some (length l)"
    using strstr_CRLF_append no_CR_strstr l by (simp add: plain_text_def)
  ultimately have find: "strstr (takeWhile (\<lambda>c. c \<noteq> NUL) (take k (sock_in s))) AXIS2_HTTP_CRLF = Some (length l)" using seen by simp
  have a1: "length l + 2 \<le> arrived s1" "?a \<le> arrived s1"
    using a arrived_avail [of s1] by (auto simp: s1_def)
  define s2 where "s2 = s1\<lparr>sock_in := rest, sock_avail := arrived s1 - (length l + 2), sock_pieces := tl (sock_pieces s1)\<rparr>"
  have tk: "take (length l + 2) (sock_in s) = l @ AXIS2_HTTP_CRLF" "drop (length l + 2) (sock_in s) = rest"
    using s(1) by (simp_all add: CRLF_simps)
  have n: "length l + 2 < 2 ^ 31" using s(3) by (simp add: PEEK_SIZE_def)
  have rd: "axutil_stream_read_socket (Some s1) (length l + 2) = Inr (int (length l + 2), l @ AXIS2_HTTP_CRLF, Some s2)"
    using a1(1) tk n by (simp add: axutil_stream_read_socket_def recv_def recv_len_def Let_def s1_def s2_def min_def nat_add_distrib)
  have app: "append_line malloc None (l @ AXIS2_HTTP_CRLF) = Inr (Some (l @ AXIS2_HTTP_CRLF))"
    using m l by (auto simp: append_line_def axutil_stracat_def plain_text_def CRLF_simps NUL_def)
  have "peek_line malloc (Some (Some s)) None f = Some (Inr (Some (l @ AXIS2_HTTP_CRLF), True, True, Some (Some s2)))"
    using peek k(2) find rd app by (subst peek_line.simps) simp
  moreover have "min (sock_avail s) (length (sock_in s)) - (length l + 2) \<le> sock_avail s2" using a(2) a1(2) by (simp add: s2_def)
  ultimately show ?thesis by (simp add: s2_def)
qed

lemma add_header_request:
  assumes "mem_ok malloc" "case req_header_group q of None \<Rightarrow> True | Some g \<Rightarrow> al_inv g"
  shows "\<exists>q'. axis2_http_simple_request_add_header malloc q (Some h) = Inr q' \<and> request_headers_of q' = request_headers_of q @ [Some h] \<and>
    req_line q' = req_line q \<and> (case req_header_group q' of None \<Rightarrow> True | Some g \<Rightarrow> al_inv g)"
proof (cases "req_header_group q")
  case None
  obtain g :: "http_header array_list" where g: "axutil_array_list_create malloc 1 = Inr g" "al_inv g" "al_list g = []"
    using create_total [OF assms(1)] create_ok by blast
  then show ?thesis using None al.add_total [OF g(2) assms(1), of "Some h"]
    by (auto simp: axis2_http_simple_request_add_header_def request_headers_of_def)
next
  case (Some g)
  then show ?thesis using al.add_total [of g malloc "Some h"] assms
    by (auto simp: axis2_http_simple_request_add_header_def request_headers_of_def)
qed

lemma request_headers_arrived:
  assumes m: "mem_ok malloc"
  shows "sock_in s = concat (map header_text hs) @ AXIS2_HTTP_CRLF @ rest \<Longrightarrow>
    length (concat (map header_text hs) @ AXIS2_HTTP_CRLF) \<le> sock_avail s \<Longrightarrow> \<forall>h \<in> set hs. header_plain (Suc PEEK_SIZE) h \<Longrightarrow>
    (case req_header_group q of None \<Rightarrow> True | Some g \<Rightarrow> al_inv g) \<Longrightarrow>
    \<exists>q' s'. request_headers malloc (Some (Some s)) q None = Some (Inr (q', Some (Some s'))) \<and> sock_in s' = rest \<and>
      request_headers_of q' = request_headers_of q @ hs \<and> req_line q' = req_line q"
proof (induction hs arbitrary: s q)
  case Nil
  have "\<exists>s'. peek_line malloc (Some (Some s)) None False = Some (Inr (Some ([] @ AXIS2_HTTP_CRLF), True, True, Some (Some s'))) \<and>
      sock_in s' = rest \<and> min (sock_avail s) (length (sock_in s)) - (length ([] :: string) + 2) \<le> sock_avail s'"
    by (rule peek_line_arrived [OF m]) (use Nil.prems in \<open>auto simp: CRLF_simps PEEK_SIZE_def plain_text_def\<close>)
  then show ?case by (subst request_headers.simps) auto
next
  case (Cons h hs)
  have hp: "header_plain (Suc PEEK_SIZE) h" using Cons.prems(3) by simp
  then obtain n v where h: "h = Some \<lparr>hdr_name = Some n, hdr_value = Some v\<rparr>" "plain_text n" "plain_text v" "length (header_text h) \<le> PEEK_SIZE"
    by (auto simp: header_plain_def)
  have ht: "header_text h = (n @ '': '' @ v) @ AXIS2_HTTP_CRLF" using h(1) by (simp add: header_text_def)
  have pl: "plain_text (n @ '': '' @ v)" using h(2,3) by (auto simp: plain_text_def NUL_def)
  have len: "length (header_text h) = length (n @ '': '' @ v) + 2" by (simp add: ht CRLF_simps)
  obtain s1 where s1: "peek_line malloc (Some (Some s)) None False = Some (Inr (Some (header_text h), True, True, Some (Some s1)))"
      "sock_in s1 = concat (map header_text hs) @ AXIS2_HTTP_CRLF @ rest" "min (sock_avail s) (length (sock_in s)) - length (header_text h) \<le> sock_avail s1"
    using peek_line_arrived [OF m, of s "n @ '': '' @ v" "concat (map header_text hs) @ AXIS2_HTTP_CRLF @ rest" False] pl Cons.prems(1,2) h(4) len
    unfolding ht by (auto simp: ht)
  obtain q1 where q1: "axis2_http_simple_request_add_header malloc q h = Inr q1" "request_headers_of q1 = request_headers_of q @ [h]"
      "req_line q1 = req_line q" "case req_header_group q1 of None \<Rightarrow> True | Some g \<Rightarrow> al_inv g"
    using add_header_request [OF m Cons.prems(4), of "the h"] h(1) by auto
  have "axis2_http_header_create_by_str malloc (Some (header_text h)) = Inr (the h)" using header_plain_parse [OF hp m] .
  moreover have "header_text h \<noteq> AXIS2_HTTP_CRLF" by (simp add: ht CRLF_simps)
  ultimately have "request_headers malloc (Some (Some s)) q None = request_headers malloc (Some (Some s1)) q1 None"
    using s1(1) q1(1) h(1) by (subst request_headers.simps) simp
  moreover have "\<exists>q' s'. request_headers malloc (Some (Some s1)) q1 None = Some (Inr (q', Some (Some s'))) \<and> sock_in s' = rest \<and>
      request_headers_of q' = request_headers_of q1 @ hs \<and> req_line q' = req_line q1"
    by (rule Cons.IH) (use s1 q1 Cons.prems in auto)
  ultimately show ?case using q1 by auto
qed

lemma read_request_arrived:
  assumes m: "mem_ok malloc" and c: "conn_stream c = Some (Some s)"
    and s: "sock_in s = head_wire (me @ '' '' @ u @ '' '' @ v @ AXIS2_HTTP_CRLF) hs @ rest"
      "length (head_wire (me @ '' '' @ u @ '' '' @ v @ AXIS2_HTTP_CRLF) hs) \<le> sock_avail s"
    and line: "CHR '' '' \<notin> set me" "CHR '' '' \<notin> set v" "plain_text me" "plain_text u" "plain_text v" "length me + length u + length v + 4 \<le> PEEK_SIZE"
    and hs: "\<forall>h \<in> set hs. header_plain (Suc PEEK_SIZE) h"
  shows "\<exists>q t. axis2_simple_http_svr_conn_read_request malloc c = Some (Inr (q, c\<lparr>conn_stream := Some (Some t)\<rparr>)) \<and> sock_in t = rest \<and>
    req_line q = Some \<lparr>rl_http_version = Some v, rl_method = Some me, rl_uri = Some u\<rparr> \<and> request_headers_of q = hs \<and> req_stream q = Some (Some t)"
proof -
  let ?l = "me @ '' '' @ u @ '' '' @ v"
  have pl: "plain_text ?l" using line by (auto simp: plain_text_def NUL_def)
  obtain s1 where s1: "peek_line malloc (Some (Some s)) None False = Some (Inr (Some (?l @ AXIS2_HTTP_CRLF), True, True, Some (Some s1)))"
      "sock_in s1 = concat (map header_text hs) @ AXIS2_HTTP_CRLF @ rest" "min (sock_avail s) (length (sock_in s)) - (length ?l + 2) \<le> sock_avail s1"
    using peek_line_arrived [OF m, of s ?l "concat (map header_text hs) @ AXIS2_HTTP_CRLF @ rest" False] pl s line(6)
    by (auto simp: head_wire_def CRLF_simps)
  let ?rl = "\<lparr>rl_http_version = Some v, rl_method = Some me, rl_uri = Some u\<rparr>"
  have "strstr (?l @ [CR]) AXIS2_HTTP_CRLF = None" using no_CR_strstr [of ?l] pl by (simp add: plain_text_def)
  then have parse: "axis2_http_request_line_parse_line malloc (Some (?l @ AXIS2_HTTP_CRLF)) = Inr ?rl"
    using parse_line_fields [OF m, of me u v "[]"] line(1,2) by simp
  let ?q = "\<lparr>req_line = Some ?rl, req_header_group = None, req_stream = Some (Some s1), req_owns_stream = False\<rparr> :: socket_stream simple_request"
  have create: "axis2_http_simple_request_create malloc (Inl NO_MEMORY) (Some ?rl) None 0 (Some (Some s1)) = Inr ?q"
    using m by (simp add: axis2_http_simple_request_create_def new_headers_def mem_okD)
  have av: "length (concat (map header_text hs) @ AXIS2_HTTP_CRLF) \<le> sock_avail s1"
    using s1(3) s by (simp add: head_wire_def CRLF_simps)
  obtain q t where "request_headers malloc (Some (Some s1)) ?q None = Some (Inr (q, Some (Some t)))" "sock_in t = rest"
      "request_headers_of q = hs" "req_line q = Some ?rl"
    using request_headers_arrived [OF m s1(2) av hs, of ?q] by (auto simp: request_headers_of_def)
  then show ?thesis using c s1(1) parse create
    by (auto simp: axis2_simple_http_svr_conn_read_request_def request_headers_of_def)
qed

section \<open>From the client to the server\<close>


definition sample_request :: "basic_stream simple_request" where
  "sample_request =
     \<lparr>req_line = Some \<lparr>rl_http_version = Some ''HTTP/1.1'', rl_method = Some ''POST'', rl_uri = Some ''axis2/services/echo''\<rparr>,
      req_header_group = Some (al_of [\<lparr>hdr_name = Some ''Host'', hdr_value = Some ''a''\<rparr>]),
      req_stream = Some \<lparr>bs_block = Some (''hi'' @ replicate 2046 (CHR ''x'')), bs_pos = 0, bs_len = 2, bs_max_len = 2048\<rparr>, req_owns_stream = True\<rparr>"

definition sample_client :: "socket_stream http_client" where
  "sample_client = projr (axis2_http_client_create (\<lambda>n. True) (Some
     \<lparr>url_protocol = Some ''http'', url_host = Some ''a'', url_port = 9090, url_path = Some ''/axis2/services/echo'', url_query = None, url_server = No_Server\<rparr>))"

definition fresh_socket :: c_socket where
  "fresh_socket = \<lparr>sock_in = [], sock_avail = 0, sock_pieces = [], sock_out = []\<rparr>"

lemma sample_request_facts:
  "request_headers_of sample_request = [Some \<lparr>hdr_name = Some ''Host'', hdr_value = Some ''a''\<rparr>]"
  "\<forall>h \<in> set (request_headers_of sample_request). header_plain (Suc PEEK_SIZE) h"
  "request_body_wire (request_headers_of sample_request) ''hi'' = ''hi''"
  "body_in (req_stream sample_request) ''hi''" "length_fits sample_request ''hi''"
  "fresh_client (\<lambda>n. True) (\<lambda>h p. Some (Some fresh_socket)) sample_client fresh_socket"
proof -
  show hs: "request_headers_of sample_request = [Some \<lparr>hdr_name = Some ''Host'', hdr_value = Some ''a''\<rparr>]"
    by (simp add: request_headers_of_def sample_request_def)
  show "\<forall>h \<in> set (request_headers_of sample_request). header_plain (Suc PEEK_SIZE) h"
    unfolding hs by (simp add: header_plain_def plain_text_def NUL_def front_def PEEK_SIZE_def header_text_def CRLF_simps)
  show "request_body_wire (request_headers_of sample_request) ''hi'' = ''hi''"
    unfolding hs by (simp add: request_body_wire_def wants_chunks_def AXIS2_HTTP_HEADER_TRANSFER_ENCODING_def)
  show "body_in (req_stream sample_request) ''hi''"
    by (simp add: body_in_def sample_request_def basic_inv_def unread_def numeral_2_eq_2)
  have "axis2_http_simple_request_get_content_length sample_request = Inr (2 ^ 32 - 1)" by code_simp
  then show "length_fits sample_request ''hi''" by (simp add: length_fits_def)
  have "axutil_strcasecmp ''http'' AXIS2_TRANSPORT_URL_HTTPS \<noteq> 0" by code_simp
  then show "fresh_client (\<lambda>n. True) (\<lambda>h p. Some (Some fresh_socket)) sample_client fresh_socket"
    by (auto simp: fresh_client_def sample_client_def axis2_http_client_create_def axutil_url_get_host_def axutil_url_get_protocol_def
        simp del: axutil_strcasecmp.simps)
qed


section \<open>Requests that arrive in pieces\<close>

text \<open>
  The head of this request arrives in two pieces, the second between the look at the first ten bytes and the read: the read takes all of it for the
  first line. The request is delivered without its header, and without its body.
\<close>

definition split_request :: string where
  "split_request = ''POST / HTTP/1.1'' @ AXIS2_HTTP_CRLF @ ''Content-Length: 2'' @ AXIS2_HTTP_CRLF @ AXIS2_HTTP_CRLF @ ''hi''"

declare peek_line.simps [code] request_headers.simps [code]

lemma split_request_lost:
  "axis2_simple_http_svr_conn_read_request (\<lambda>n. True)
      \<lparr>conn_stream = Some (Some \<lparr>sock_in = split_request, sock_avail = 0, sock_pieces = [10, 100], sock_out = []\<rparr>), conn_keep_alive = False\<rparr> =
    Some (Inr (\<lparr>req_line = Some \<lparr>rl_http_version = Some ''HTTP/1.1'', rl_method = Some ''POST'', rl_uri = Some ''/''\<rparr>, req_header_group = None,
      req_stream = Some (Some \<lparr>sock_in = [], sock_avail = 0, sock_pieces = [], sock_out = []\<rparr>), req_owns_stream = False\<rparr>,
      \<lparr>conn_stream = Some (Some \<lparr>sock_in = [], sock_avail = 0, sock_pieces = [], sock_out = []\<rparr>), conn_keep_alive = False\<rparr>))"
  by code_simp

end
