(* ===== verification/Http_Params.thy ===== *)
theory Http_Params
  imports Util_Url Hash_Map
begin

text \<open>
  Parameters of a request (\<^verbatim>\<open>axutil_url_encode\<close> of \<^verbatim>\<open>util/src/url.c\<close>, the parameter string of
  \<^verbatim>\<open>src/core/transport/http/sender/http_sender.c\<close>, and the decoder and parser of
  \<^verbatim>\<open>src/core/transport/http/util/http_transport_utils.c\<close>): how the client escapes and joins them and how the server takes them apart.
\<close>

section \<open>Escapes\<close>

definition is_safe_or_unreserve :: "char \<Rightarrow> bool" where
  "is_safe_or_unreserve c \<longleftrightarrow> c \<in> set ''-_.~''"

definition is_alnum :: "char \<Rightarrow> bool" where
  "is_alnum c \<longleftrightarrow> is_upper c \<or> is_lower c \<or> is_dec c"

text \<open>
  The escape of a character, printed with \<^verbatim>\<open>%%%x\<close> to an array of four bytes: a negative character is printed with eight digits.
\<close>

definition escape :: "char \<Rightarrow> string" where
  "escape c = CHR ''%'' # print_hex (unat (of_int (c_int c) :: 32 word))"

definition encode_char :: "char \<Rightarrow> string result" where
  "encode_char c =
     (if is_alnum c \<or> is_safe_or_unreserve c then Inr [c]
      else if 4 < length (escape c) + 1 then Inl UNDEFINED_BEHAVIOUR
      else Inr (escape c))"

text \<open>
  The loop of \<^verbatim>\<open>axutil_url_encode\<close>: \<open>dest\<close> is the text in the buffer, \<open>cap\<close> the size of the buffer. The variable \<^verbatim>\<open>len\<close> is both the
  number of characters to encode and what is taken for the size of the buffer; when the buffer is found too small it is doubled once.
\<close>

fun url_encode_loop :: "alloc \<Rightarrow> string \<Rightarrow> nat \<Rightarrow> string \<Rightarrow> nat \<Rightarrow> nat \<Rightarrow> string result" where
  "url_encode_loop malloc dest cap [] i len = Inr dest"
| "url_encode_loop malloc dest cap (c # buff) i len =
     (if i < len then
        res_bind (encode_char c) (\<lambda>s.
          let grow = length dest + 4 > len;
              len' = (if grow then len * 2 else len);
              cap' = (if grow then len * 2 else cap)
          in if grow \<and> (2 ^ 31 \<le> len * 2 \<or> \<not> malloc (len * 2)) \<or> cap' < length dest + length s + 1 then Inl UNDEFINED_BEHAVIOUR
             else url_encode_loop malloc (dest @ s) cap' buff (i + 1) len')
      else Inr dest)"

text \<open>The buffer handed over is filled with zeros and has \<open>cap\<close> bytes; a buffer of no bytes is no string to be extended or returned.\<close>

definition axutil_url_encode :: "alloc \<Rightarrow> nat \<Rightarrow> string \<Rightarrow> nat \<Rightarrow> string result" where
  "axutil_url_encode malloc cap buff len = (if cap = 0 then Inl UNDEFINED_BEHAVIOUR else url_encode_loop malloc [] cap buff 0 len)"

definition axis2_http_transport_utils_hexit :: "char \<Rightarrow> nat" where
  "axis2_http_transport_utils_hexit c = (case digit_val c of None \<Rightarrow> 0 | Some n \<Rightarrow> if n < 16 then n else 0)"

text \<open>
  The decoder is called with the same block as source and destination; it writes no further than it has read, so that the result is that of a
  separate destination.
\<close>

fun strdecode_loop :: "string \<Rightarrow> string" where
  "strdecode_loop (c # a # b # src) =
     (if c = CHR ''%'' \<and> is_digit 16 a \<and> is_digit 16 b
      then char_of (axis2_http_transport_utils_hexit a * 16 + axis2_http_transport_utils_hexit b) # strdecode_loop src
      else c # strdecode_loop (a # b # src))"
| "strdecode_loop src = src"

definition axis2_http_transport_utils_strdecode :: "string option \<Rightarrow> string option" where
  "axis2_http_transport_utils_strdecode src = map_option (\<lambda>s. c_string (strdecode_loop s)) src"

section \<open>The parameter string of the client\<close>

text \<open>
  From \<^verbatim>\<open>axis2_http_sender_get_param_string\<close>: the pairs of the parameters that have a value, as the list of parameters holds them, and the
  loop that joins them. \<^verbatim>\<open>axutil_strcat\<close> takes its arguments up to the first NULL.
\<close>

definition strcat_args :: "alloc \<Rightarrow> string option list \<Rightarrow> string option result" where
  "strcat_args malloc args =
     (case axutil_strcat malloc (map the (takeWhile (\<lambda>p. p \<noteq> None) args)) of
        Inl e \<Rightarrow> if e = UNDEFINED_BEHAVIOUR then Inl e else Inr None
      | Inr s \<Rightarrow> Inr (Some s))"

definition encoded_pair :: "alloc \<Rightarrow> string \<Rightarrow> string \<Rightarrow> string option result" where
  "encoded_pair malloc name value =
     (if \<not> malloc (length value) then Inl UNDEFINED_BEHAVIOUR
      else res_bind (axutil_url_encode malloc (length value) value (length value)) (\<lambda>encoded_value.
             strcat_args malloc [Some name, Some ''='', Some encoded_value]))"

fun param_list :: "alloc \<Rightarrow> (string \<times> string option) list \<Rightarrow> string option list result" where
  "param_list malloc [] = Inr []"
| "param_list malloc ((name, value) # elements) =
     (case value of
        None \<Rightarrow> param_list malloc elements
      | Some v \<Rightarrow> res_bind (encoded_pair malloc name v) (\<lambda>pair. res_bind (param_list malloc elements) (\<lambda>ps. Inr (pair # ps))))"

fun join_params :: "alloc \<Rightarrow> string option \<Rightarrow> nat \<Rightarrow> string option list \<Rightarrow> string option result" where
  "join_params malloc param_string i [] = Inr param_string"
| "join_params malloc param_string i (pair # ps) =
     res_bind (if i = 0 then axutil_stracat malloc param_string pair else strcat_args malloc [param_string, Some ''&'', pair]) (\<lambda>tmp_string.
       join_params malloc tmp_string (i + 1) ps)"

definition param_string :: "alloc \<Rightarrow> (string \<times> string option) list \<Rightarrow> string option result" where
  "param_string malloc elements = res_bind (param_list malloc elements) (\<lambda>ps. join_params malloc None 0 ps)"

section \<open>The parameters of a request\<close>

text \<open>Storing a parameter, in a table that is created with the first one.\<close>

definition put_param ::
    "alloc \<Rightarrow> string axutil_hash option \<Rightarrow> string \<Rightarrow> string option \<Rightarrow> string axutil_hash option result" where
  "put_param malloc ret name value =
     (let ret1 = (case ret of Some h \<Rightarrow> Some h | None \<Rightarrow> (case axutil_hash_make malloc of Inl _ \<Rightarrow> None | Inr h \<Rightarrow> Some h)) in
      case axutil_hash_set malloc ret1 name AXIS2_HASH_KEY_STRING value of
        Inl e \<Rightarrow> if e = UNDEFINED_BEHAVIOUR then Inl e else Inr ret1
      | Inr ret2 \<Rightarrow> Inr ret2)"

text \<open>
  The loop over the query: \<open>cur\<close> is the text from \<^verbatim>\<open>tmp2\<close> to \<^verbatim>\<open>tmp\<close>, which an equals sign makes a name and an ampersand a value.
\<close>

fun params_loop ::
    "alloc \<Rightarrow> string \<Rightarrow> string \<Rightarrow> string option \<Rightarrow> string option \<Rightarrow> string axutil_hash option \<Rightarrow>
     (string \<times> string option \<times> string axutil_hash option) result" where
  "params_loop malloc cur [] tmp_name tmp_value ret = Inr (cur, tmp_name, ret)"
| "params_loop malloc cur (c # rest) tmp_name tmp_value ret =
     (let decoded = axis2_http_transport_utils_strdecode (ret_ptr (axutil_strdup malloc (Some cur)));
          name = (if c = CHR ''='' then decoded else tmp_name);
          val = (if c = CHR ''&'' then decoded else tmp_value);
          cur' = (if c = CHR ''='' \<or> c = CHR ''&'' then [] else cur @ [c])
      in case (name, val) of
           (Some n, Some v) \<Rightarrow> res_bind (put_param malloc ret n val) (\<lambda>ret'. params_loop malloc cur' rest None None ret')
         | _ \<Rightarrow> params_loop malloc cur' rest name val ret)"

definition axis2_http_transport_utils_get_request_params :: "alloc \<Rightarrow> string option \<Rightarrow> string axutil_hash option result" where
  "axis2_http_transport_utils_get_request_params malloc request_uri =
     (case request_uri of
        None \<Rightarrow> Inl UNDEFINED_BEHAVIOUR
      | Some uri \<Rightarrow>
          (case strchr uri (CHR ''?'') of
             None \<Rightarrow> Inr None
           | Some i \<Rightarrow>
               if drop (i + 1) uri = [] then Inr None
               else
                 (case ret_ptr (axutil_strdup malloc (Some (drop (i + 1) uri))) of
                    None \<Rightarrow> Inl UNDEFINED_BEHAVIOUR
                  | Some query_str \<Rightarrow>
                      res_bind (params_loop malloc [] query_str None None None) (\<lambda>(cur, tmp_name, ret).
                        case tmp_name of
                          Some n \<Rightarrow>
                            if cur = [] then Inr ret
                            else put_param malloc ret n (axis2_http_transport_utils_strdecode (ret_ptr (axutil_strdup malloc (Some cur))))
                        | None \<Rightarrow> Inr ret))))"

section \<open>Escaping and decoding\<close>

lemma strdecode_plain: "c \<noteq> CHR ''%'' \<Longrightarrow> strdecode_loop (c # s) = c # strdecode_loop s"
  by (cases s; cases "tl s") auto

text \<open>The characters the client can escape: with two digits.\<close>

definition escapable :: "char \<Rightarrow> bool" where
  "escapable c \<longleftrightarrow> 16 \<le> (of_char c :: nat) \<and> (of_char c :: nat) < 128"

lemma escape_two:
  assumes "escapable c"
  shows "escape c = [CHR ''%'', digit_char (of_char c div 16), digit_char (of_char c mod 16)]"
proof -
  let ?n = "of_char c :: nat"
  have n: "16 \<le> ?n" "?n < 128" using assms by (auto simp: escapable_def)
  have "unat (of_int (c_int c) :: 32 word) = ?n" using n by (simp add: c_int_def unat_of_nat)
  moreover have "print_base 16 ?n = [digit_char (?n div 16), digit_char (?n mod 16)]"
    using n by (subst print_base.simps) (simp add: print_base.simps [of 16 "?n div 16"])
  ultimately show ?thesis by (simp add: escape_def print_hex_def)
qed

lemma encode_char_ok:
  assumes "escapable c"
  obtains s where "encode_char c = Inr s" "length s \<le> 3" "s \<noteq> []" "strdecode_loop (s @ r) = c # strdecode_loop r"
    "CHR ''='' \<notin> set s" "CHR ''&'' \<notin> set s"
proof (cases "is_alnum c \<or> is_safe_or_unreserve c")
  case True
  then have "c \<noteq> CHR ''%''" "c \<noteq> CHR ''=''" "c \<noteq> CHR ''&''"
    by (auto simp: is_alnum_def is_safe_or_unreserve_def is_upper_def is_lower_def is_dec_def c_int_def Let_def)
  then show ?thesis using that [of "[c]"] True by (simp add: encode_char_def strdecode_plain)
next
  case False
  let ?n = "of_char c :: nat"
  have n: "?n div 16 < 16" "?n mod 16 < 16" "?n < 256" using assms by (auto simp: escapable_def)
  have dc: "digit_char d \<noteq> CHR ''=''" "digit_char d \<noteq> CHR ''&''" if "d < 16" for d
    using digit_char_code [OF that] by (auto split: if_splits)
  have "strdecode_loop (escape c @ r) = c # strdecode_loop r"
    using n by (simp add: escape_two [OF assms] axis2_http_transport_utils_hexit_def)
  then show ?thesis using that [of "escape c"] False dc [OF n(1)] dc [OF n(2)] by (auto simp: encode_char_def escape_two [OF assms])
qed

definition encoding :: "string \<Rightarrow> string" where
  "encoding v = concat (map (\<lambda>c. projr (encode_char c)) v)"

lemma encoding_simps [simp]: "encoding [] = []" "encoding (c # v) = projr (encode_char c) @ encoding v"
  by (simp_all add: encoding_def)

lemma encoding_ok:
  assumes "\<forall>c \<in> set v. escapable c"
  shows "strdecode_loop (encoding v) = v" "CHR ''='' \<notin> set (encoding v)" "CHR ''&'' \<notin> set (encoding v)"
    "v \<noteq> [] \<Longrightarrow> encoding v \<noteq> []" "length (encoding v) \<le> 3 * length v"
proof -
  have "strdecode_loop (encoding v) = v \<and> CHR ''='' \<notin> set (encoding v) \<and> CHR ''&'' \<notin> set (encoding v) \<and> (v \<noteq> [] \<longrightarrow> encoding v \<noteq> []) \<and>
      length (encoding v) \<le> 3 * length v"
    using assms
  proof (induction v)
    case (Cons c v)
    obtain s where "encode_char c = Inr s" "length s \<le> 3" "s \<noteq> []" "strdecode_loop (s @ encoding v) = c # strdecode_loop (encoding v)"
        "CHR ''='' \<notin> set s" "CHR ''&'' \<notin> set s"
      by (rule encode_char_ok [of c "encoding v"]) (use Cons.prems in auto)
    then show ?case using Cons by auto
  qed simp
  then show "strdecode_loop (encoding v) = v" "CHR ''='' \<notin> set (encoding v)" "CHR ''&'' \<notin> set (encoding v)"
    "v \<noteq> [] \<Longrightarrow> encoding v \<noteq> []" "length (encoding v) \<le> 3 * length v" by blast+
qed

text \<open>
  The buffer of the encoder always has room for the next escape: this holds from the second character on, and for the first one unless the
  text has a single character, which must not need an escape.
\<close>

lemma url_encode_loop_ok:
  assumes "mem_ok malloc" "\<forall>c \<in> set buff. escapable c" "i + length buff \<le> len" "length dest + 3 * length buff + 4 < 2 ^ 30"
    and "length dest < len \<and> 3 \<le> len \<and> len \<le> cap \<or> dest = [] \<and> 2 \<le> len \<and> cap = len"
  shows "url_encode_loop malloc dest cap buff i len = Inr (dest @ encoding buff)"
  using assms(2-)
proof (induction buff arbitrary: dest cap i len)
  case (Cons c buff)
  obtain s where s: "encode_char c = Inr s" "length s \<le> 3" using encode_char_ok Cons.prems(1) by (metis list.set_intros(1))
  let ?grow = "length dest + 4 > len"
  let ?len = "if ?grow then len * 2 else len"
  let ?cap = "if ?grow then len * 2 else cap"
  have room: "\<not> ?cap < length dest + length s + 1" "length (dest @ s) < ?len" "3 \<le> ?len" "?len \<le> ?cap" "i + 1 + length buff \<le> ?len"
    using Cons.prems(2,4) s(2) by (auto split: if_splits)
  have "\<not> (?grow \<and> (2 ^ 31 \<le> len * 2 \<or> \<not> malloc (len * 2)))" using Cons.prems(3) mem_okD [OF assms(1)] by auto
  then have "url_encode_loop malloc dest cap (c # buff) i len = url_encode_loop malloc (dest @ s) ?cap buff (i + 1) ?len"
    using s(1) room(1) Cons.prems(2) by (simp only: url_encode_loop.simps res_bind_simps Let_def if_False simp_thms) simp
  also have "\<dots> = Inr ((dest @ s) @ encoding buff)"
    by (rule Cons.IH) (use room s(2) Cons.prems in auto)
  finally show ?case using s(1) by simp
qed simp

text \<open>The values the client can encode: a single character must need no escape.\<close>

definition encodable :: "string \<Rightarrow> bool" where
  "encodable v \<longleftrightarrow> v \<noteq> [] \<and> length v < 2 ^ 28 \<and> (\<forall>c \<in> set v. escapable c) \<and> (length v = 1 \<longrightarrow> is_alnum (hd v) \<or> is_safe_or_unreserve (hd v))"

lemma url_encode_ok:
  assumes "mem_ok malloc" "encodable v"
  shows "axutil_url_encode malloc (length v) v (length v) = Inr (encoding v)"
proof (cases "length v = 1")
  case True
  then obtain c where v: "v = [c]" by (auto simp: length_Suc_conv)
  then have "encode_char c = Inr [c]" using assms(2) by (simp add: encodable_def encode_char_def)
  then show ?thesis using assms(1) v by (simp add: axutil_url_encode_def mem_okD)
next
  case False
  have "2 \<le> length v" using False assms(2) by (cases v) (auto simp: encodable_def Suc_le_eq)
  moreover have "url_encode_loop malloc [] (length v) v 0 (length v) = Inr ([] @ encoding v)"
    by (rule url_encode_loop_ok [OF assms(1)]) (use assms(2) calculation in \<open>auto simp: encodable_def\<close>)
  ultimately show ?thesis by (auto simp: axutil_url_encode_def)
qed

section \<open>From the client to the server\<close>

definition pair_text :: "string \<times> string \<Rightarrow> string" where
  "pair_text kv = fst kv @ ''='' @ encoding (snd kv)"

fun query_text :: "(string \<times> string) list \<Rightarrow> string" where
  "query_text [] = []"
| "query_text [kv] = pair_text kv"
| "query_text (kv # ps) = pair_text kv @ ''&'' @ query_text ps"

lemma strcat_args_ok: "mem_ok malloc \<Longrightarrow> strcat_args malloc (map Some ss) = Inr (Some (concat ss))"
  by (simp add: strcat_args_def strcat_spec takeWhile_eq_all_conv [THEN iffD2] comp_def)

lemma param_list_ok:
  assumes "mem_ok malloc" "\<forall>(k, v) \<in> set ps. encodable v"
  shows "param_list malloc (map (\<lambda>(k, v). (k, Some v)) ps) = Inr (map (Some \<circ> pair_text) ps)"
  using assms(2)
proof (induction ps)
  case (Cons kv ps)
  obtain k v where kv: "kv = (k, v)" by force
  have "strcat_args malloc [Some k, Some ''='', Some (encoding v)] = Inr (Some (pair_text kv))"
    using strcat_args_ok [OF assms(1), of "[k, ''='', encoding v]"] by (simp add: kv pair_text_def)
  then have "encoded_pair malloc k v = Inr (Some (pair_text kv))"
    using url_encode_ok [OF assms(1), of v] Cons.prems assms(1) by (auto simp: encoded_pair_def kv mem_okD)
  then show ?case using Cons by (auto simp: kv)
qed simp

lemma join_params_ok:
  assumes "mem_ok malloc"
  shows "join_params malloc (Some t) (Suc i) (map (Some \<circ> pair_text) ps) = Inr (Some (t @ concat (map (\<lambda>kv. ''&'' @ pair_text kv) ps)))"
proof (induction ps arbitrary: t i)
  case (Cons kv ps)
  have "strcat_args malloc [Some t, Some ''&'', Some (pair_text kv)] = Inr (Some (t @ ''&'' @ pair_text kv))"
    using strcat_args_ok [OF assms, of "[t, ''&'', pair_text kv]"] by simp
  then show ?case using Cons.IH by simp
qed simp

lemma query_text_Cons: "query_text (kv # ps) = pair_text kv @ concat (map (\<lambda>kv. ''&'' @ pair_text kv) ps)"
  by (induction ps arbitrary: kv) auto

lemma param_string_ok:
  assumes "mem_ok malloc" "\<forall>(k, v) \<in> set ps. encodable v" "ps \<noteq> []"
  shows "param_string malloc (map (\<lambda>(k, v). (k, Some v)) ps) = Inr (Some (query_text ps))"
proof -
  obtain kv ps' where ps: "ps = kv # ps'" using assms(3) by (cases ps) auto
  have "axutil_stracat malloc None (Some (pair_text kv)) = Inr (Some (pair_text kv))"
    using assms(1) by (simp add: axutil_stracat_def)
  then show ?thesis
    using param_list_ok [OF assms(1,2)] join_params_ok [OF assms(1), of "pair_text kv" 0 ps']
    by (simp add: param_string_def ps query_text_Cons)
qed

text \<open>The server: the names that are read back as they are.\<close>

definition name_plain :: "string \<Rightarrow> bool" where
  "name_plain k \<longleftrightarrow> length k < 2 ^ 32 - 1 \<and> set k \<inter> {NUL, CHR ''%'', CHR ''='', CHR ''&''} = {}"

lemma strdecode_no_percent: "CHR ''%'' \<notin> set s \<Longrightarrow> strdecode_loop s = s"
  by (induction s) (auto simp: strdecode_plain)

lemma c_string_id: "NUL \<notin> set s \<Longrightarrow> c_string s = s"
  by (simp add: c_string_def NUL_def takeWhile_eq_all_conv) (metis)

lemma decode_name: "name_plain k \<Longrightarrow> axis2_http_transport_utils_strdecode (Some k) = Some k"
  by (simp add: axis2_http_transport_utils_strdecode_def name_plain_def strdecode_no_percent c_string_id)

lemma decode_value: "encodable v \<Longrightarrow> axis2_http_transport_utils_strdecode (Some (encoding v)) = Some v"
proof -
  assume v: "encodable v"
  then have "NUL \<notin> set v" by (auto simp: encodable_def escapable_def NUL_def)
  then show ?thesis using v by (simp add: axis2_http_transport_utils_strdecode_def encoding_ok encodable_def c_string_id)
qed

lemma params_loop_chars:
  assumes "CHR ''='' \<notin> set s" "CHR ''&'' \<notin> set s" "name = None \<or> val = None"
  shows "params_loop malloc cur (s @ rest) name val ret = params_loop malloc (cur @ s) rest name val ret"
  using assms(1,2)
proof (induction s arbitrary: cur)
  case (Cons c s)
  then show ?case using Cons.IH [of "cur @ [c]"] assms(3) by (auto simp: Let_def split: option.splits)
qed simp

text \<open>The table after some of the parameters.\<close>

definition table_of :: "(string \<times> string) list \<Rightarrow> string axutil_hash option \<Rightarrow> bool" where
  "table_of ps ret \<longleftrightarrow>
     (case ret of
        None \<Rightarrow> ps = []
      | Some ht \<Rightarrow> hash_inv ht \<and> hash_abs ht = map_of (rev ps) \<and> unat (h_count ht) \<le> length ps)"

lemma put_param_ok:
  assumes "mem_ok malloc" "table_of ps ret" "name_plain k" "length ps < 2 ^ 31 - 1"
  shows "\<exists>ret'. put_param malloc ret k (Some v) = Inr ret' \<and> table_of (ps @ [(k, v)]) ret' \<and> ret' \<noteq> None"
proof -
  obtain ht :: "string axutil_hash" where ht: "(case ret of Some h \<Rightarrow> Some h | None \<Rightarrow> (case axutil_hash_make malloc of Inl _ \<Rightarrow> None | Inr h \<Rightarrow> Some h)) = Some ht"
      "hash_inv ht" "hash_abs ht = map_of (rev ps)" "unat (h_count ht) \<le> length ps"
    using assms(2) make_spec [OF assms(1), where 'v = string]
    by (cases ret) (auto simp: table_of_def axutil_hash_count_def)
  have valid: "valid_key k AXIS2_HASH_KEY_STRING" "norm_key k AXIS2_HASH_KEY_STRING = k"
    using assms(3) by (auto simp: valid_key_def norm_key_def name_plain_def c_string_id)
  obtain ht' where ht': "axutil_hash_set malloc (Some ht) k AXIS2_HASH_KEY_STRING (Some v) = Inr (Some ht')" "updates ht k (Some v) ht'"
    using hash_set_spec [OF ht(2) valid(1) assms(1), of "Some v"] ht(4) assms(4) valid(2) by auto
  have inv: "hash_inv ht'" and abs: "hash_abs ht' = (map_of (rev ps))(k \<mapsto> v)" using ht'(2) ht(3) by (auto simp: updates_def)
  have "unat (h_count ht') = card (dom (hash_abs ht'))" using count_spec(2) [OF inv] by (simp add: axutil_hash_count_def)
  also have "\<dots> \<le> card (insert k (dom (hash_abs ht)))" unfolding abs ht(3) by (rule card_mono) (auto simp: finite_dom_map_of)
  also have "\<dots> \<le> Suc (card (dom (hash_abs ht)))" by (rule card_insert_le_m1) auto
  also have "\<dots> \<le> Suc (length ps)" using count_spec(2) [OF ht(2)] ht(4) by (simp add: axutil_hash_count_def)
  finally have "table_of (ps @ [(k, v)]) (Some ht')" using inv abs by (auto simp: table_of_def)
  then show ?thesis using ht(1) ht'(1) by (simp add: put_param_def)
qed

lemma params_loop_pair:
  assumes "mem_ok malloc" "name_plain k" "encodable v"
  shows "params_loop malloc [] (pair_text (k, v) @ rest) None None ret = params_loop malloc (encoding v) rest (Some k) None ret"
proof -
  have "params_loop malloc [] (k @ CHR ''='' # encoding v @ rest) None None ret = params_loop malloc k (CHR ''='' # encoding v @ rest) None None ret"
    using params_loop_chars [of k None None malloc "[]"] assms(2) by (auto simp: name_plain_def)
  also have "\<dots> = params_loop malloc [] (encoding v @ rest) (Some k) None ret"
    using assms(1,2) by (simp add: Let_def decode_name)
  also have "\<dots> = params_loop malloc (encoding v) rest (Some k) None ret"
    using params_loop_chars [of "encoding v" "Some k" None malloc "[]"] assms(3) encoding_ok by (simp add: encodable_def)
  finally show ?thesis by (simp add: pair_text_def)
qed

lemma params_loop_ok:
  assumes "mem_ok malloc" "\<forall>(k, v) \<in> set ps. name_plain k \<and> encodable v" "ps \<noteq> []" "table_of qs ret" "length qs + length ps < 2 ^ 31"
  shows "\<exists>ret'. params_loop malloc [] (query_text ps) None None ret = Inr (encoding (snd (last ps)), Some (fst (last ps)), ret') \<and>
    table_of (qs @ butlast ps) ret'"
  using assms(2-)
proof (induction ps arbitrary: qs ret rule: query_text.induct)
  case (2 kv)
  then show ?case using params_loop_pair [OF assms(1), of "fst kv" "snd kv" "[]"] by (auto simp: case_prod_unfold)
next
  case (3 kv p ps)
  obtain ret1 where ret1: "put_param malloc ret (fst kv) (Some (snd kv)) = Inr ret1" "table_of (qs @ [kv]) ret1"
    using put_param_ok [OF assms(1), of qs ret "fst kv" "snd kv"] "3.prems" by (auto simp: case_prod_unfold)
  obtain ret' where ret': "params_loop malloc [] (query_text (p # ps)) None None ret1 = Inr (encoding (snd (last (p # ps))), Some (fst (last (p # ps))), ret')"
      "table_of ((qs @ [kv]) @ butlast (p # ps)) ret'"
    using "3.IH" [OF _ _ ret1(2)] "3.prems" by auto
  have "params_loop malloc [] (query_text (kv # p # ps)) None None ret = params_loop malloc [] (query_text (p # ps)) None None ret1"
    using params_loop_pair [OF assms(1), of "fst kv" "snd kv" "CHR ''&'' # query_text (p # ps)" ret] "3.prems" ret1(1) assms(1)
    by (simp add: Let_def decode_value case_prod_unfold)
  then show ?case using ret' by simp
qed simp

text \<open>
  C14: parameters whose names need no escape (no percent sign, equals sign or ampersand) and whose values are not empty and have only characters of the
  codes 16 to 127 are read by the server from the query the client puts together: the last value given to a name is the one found under it, and no other
  name is found. A value of one character must be a letter, a digit or a character that is not escaped. Empty values, control characters below 16, line
  ends among them, characters above 127 and single characters that need an escape are left out: for them the encoder fails,
  or writes what the decoder does not read back.
\<close>

theorem request_params_roundtrip:
  assumes "mem_ok malloc" "\<forall>(k, v) \<in> set ps. name_plain k \<and> encodable v" "ps \<noteq> []" "length ps < 2 ^ 31 - 1" "CHR ''?'' \<notin> set uri"
  shows "\<exists>q ht. param_string malloc (map (\<lambda>(k, v). (k, Some v)) ps) = Inr (Some q) \<and>
    axis2_http_transport_utils_get_request_params malloc (Some (uri @ ''?'' @ q)) = Inr (Some ht) \<and>
    (\<forall>name. NUL \<notin> set name \<and> length name < 2 ^ 32 - 1 \<longrightarrow> axutil_hash_get malloc (Some ht) name AXIS2_HASH_KEY_STRING = Inr (map_of (rev ps) name))"
proof -
  let ?q = "query_text ps"
  let ?l = "last ps"
  have l: "?l \<in> set ps" using assms(3) by simp
  have v: "name_plain (fst ?l)" "encodable (snd ?l)" using assms(2) l by (auto simp: case_prod_unfold)
  have "strchr (uri @ CHR ''?'' # ?q) (CHR ''?'') = Some (length uri)" by (rule strchr_split) (use assms(5) in auto)
  moreover have "?q \<noteq> []" using assms(3) by (cases ps) (auto simp: query_text_Cons pair_text_def)
  moreover obtain ret where ret: "params_loop malloc [] ?q None None None = Inr (encoding (snd ?l), Some (fst ?l), ret)" "table_of (butlast ps) ret"
    using params_loop_ok [OF assms(1,2,3), of "[]" None] assms(4) by (auto simp: table_of_def)
  moreover obtain ht where ht: "put_param malloc ret (fst ?l) (Some (snd ?l)) = Inr (Some ht)" "table_of (butlast ps @ [?l]) (Some ht)"
    using put_param_ok [OF assms(1) ret(2) v(1), of "snd ?l"] less_imp_diff_less [OF assms(4)] by fastforce
  moreover have "encoding (snd ?l) \<noteq> []" using encoding_ok(4) v(2) by (simp add: encodable_def)
  ultimately have "axis2_http_transport_utils_get_request_params malloc (Some (uri @ ''?'' @ ?q)) = Inr (Some ht)"
    using decode_value [OF v(2)] assms(1) by (simp add: axis2_http_transport_utils_get_request_params_def)
  moreover have "axutil_hash_get malloc (Some ht) name AXIS2_HASH_KEY_STRING = Inr (map_of (rev ps) name)"
    if "NUL \<notin> set name" "length name < 2 ^ 32 - 1" for name
    using hash_get_spec [of ht name AXIS2_HASH_KEY_STRING malloc] ht(2) that assms(3)
    by (simp add: table_of_def valid_key_def norm_key_def c_string_id)
  ultimately show ?thesis using param_string_ok [OF assms(1) _ assms(3)] assms(2) by (auto simp: case_prod_unfold)
qed

theorem request_params_roundtrip_witness:
  "\<exists>q ht. param_string (\<lambda>n. True) [(''text'', Some ''a b&c''), (''n'', Some ''7'')] = Inr (Some q) \<and>
    axis2_http_transport_utils_get_request_params (\<lambda>n. True) (Some (''/axis2/services/echo'' @ ''?'' @ q)) = Inr (Some ht) \<and>
    axutil_hash_get (\<lambda>n. True) (Some ht) ''text'' AXIS2_HASH_KEY_STRING = Inr (Some ''a b&c'')"
proof -
  have v: "\<forall>(k, v) \<in> set [(''text'', ''a b&c''), (''n'', ''7'')]. name_plain k \<and> encodable v"
    by (simp add: name_plain_def NUL_def encodable_def escapable_def is_alnum_def is_dec_def c_int_def)
  show ?thesis
    using request_params_roundtrip [OF mem_ok_True v, of "''/axis2/services/echo''"] by (fastforce simp: NUL_def)
qed

text \<open>
  Outside of these the pair breaks: a single character that needs an escape overruns the buffer of the encoder, and the text of a parameter
  without an equals sign becomes the value of the next name.
\<close>

lemma single_escape_overflows: "axutil_url_encode malloc 1 '' '' 1 = Inl UNDEFINED_BEHAVIOUR"
proof -
  have "encode_char (CHR '' '') = Inr ''%20''" by code_simp
  then show ?thesis by (simp add: axutil_url_encode_def)
qed

lemma valueless_parameter:
  "\<exists>ht. axis2_http_transport_utils_get_request_params (\<lambda>n. True) (Some ''/s?a&b=c'') = Inr (Some ht) \<and>
    axutil_hash_get (\<lambda>n. True) (Some ht) ''b'' AXIS2_HASH_KEY_STRING = Inr (Some ''a'')"
proof -
  have p: "name_plain ''b''" by (simp add: name_plain_def NUL_def)
  obtain ht where ht: "put_param (\<lambda>n. True) None ''b'' (Some ''a'') = Inr (Some ht)" "table_of ([] @ [(''b'', ''a'')]) (Some ht)"
    using put_param_ok [OF mem_ok_True _ p, of "[]" None "''a''"] by (auto simp: table_of_def)
  have d: "axis2_http_transport_utils_strdecode (Some ''a'') = Some ''a''" "axis2_http_transport_utils_strdecode (Some ''b'') = Some ''b''"
    "strchr ''/s?a&b=c'' (CHR ''?'') = Some 2" by code_simp+
  have "axis2_http_transport_utils_get_request_params (\<lambda>n. True) (Some ''/s?a&b=c'') = Inr (Some ht)"
    using ht(1) d by (simp add: axis2_http_transport_utils_get_request_params_def Let_def numeral_2_eq_2)
  moreover have "axutil_hash_get (\<lambda>n. True) (Some ht) ''b'' AXIS2_HASH_KEY_STRING = Inr (Some ''a'')"
    using hash_get_spec [of ht "''b''" AXIS2_HASH_KEY_STRING] ht(2)
    by (simp add: table_of_def valid_key_def norm_key_def c_string_id NUL_def)
  ultimately show ?thesis by blast
qed

end
