(* ===== verification/Dispatch_Names.thy ===== *)
theory Dispatch_Names
  imports Phase_Resolver C_String
begin

text \<open>
  The names the dispatchers work with: the service and the operation in a request URL
  (\<^verbatim>\<open>axutil_parse_request_url_for_svc_and_op\<close> of \<^verbatim>\<open>util/src/utils.c\<close>), the service of that name in the
  configuration (\<^verbatim>\<open>src/core/engine/conf.c\<close>), and the operation of a name or of an action pattern in a
  service (\<^verbatim>\<open>src/core/description/svc.c\<close>).
\<close>

section \<open>The request URL\<close>

definition axis2_request_url_prefix :: string where
  "axis2_request_url_prefix = ''services''"

text \<open>
  The two tokens, each NULL when it is not there. The blocks for the pair and for a token that is cut
  out of the URL are used without a look at the allocator's answer; a token that reaches to the
  end of the URL is duplicated, and NULL when that fails. A URL is shorter than \<open>2 ^ 31\<close>, so that the
  differences of pointers fit an \<^verbatim>\<open>int\<close>.
\<close>

definition axutil_parse_request_url_for_svc_and_op ::
    "alloc \<Rightarrow> string \<Rightarrow> (string option \<times> string option) result" where
  "axutil_parse_request_url_for_svc_and_op malloc request =
     (if \<not> malloc (2 * sizeof_ptr) then Inl UNDEFINED_BEHAVIOUR
      else
        (case strstr request axis2_request_url_prefix of
           None \<Rightarrow> Inr (None, None)
         | Some i \<Rightarrow>
             let service_str = drop (i + length axis2_request_url_prefix) request in
             if service_str = [] then Inr (None, None)
             else
               let s = (if front service_str = CHR ''/'' then tl service_str else service_str) in
               (case strchr s (CHR ''/'') of
                  None \<Rightarrow> Inr (ret_ptr (axutil_strdup malloc (Some s)), None)
                | Some j \<Rightarrow>
                    if \<not> malloc (j + 1) then Inl UNDEFINED_BEHAVIOUR
                    else
                      let rest = drop (Suc j) s in
                      (case strchr rest (CHR ''?'') of
                         Some k \<Rightarrow>
                           if \<not> malloc (k + 1) then Inl UNDEFINED_BEHAVIOUR
                           else Inr (Some (take j s), Some (take k rest))
                       | None \<Rightarrow> Inr (Some (take j s), ret_ptr (axutil_strdup malloc (Some rest)))))))"

section \<open>Lookup\<close>

definition axis2_conf_get_svc :: "alloc \<Rightarrow> conf_desc \<Rightarrow> string option \<Rightarrow> ptr result" where
  "axis2_conf_get_svc malloc conf svc_name =
     (case svc_name of
        None \<Rightarrow> Inl INVALID_NULL_PARAM
      | Some n \<Rightarrow> axutil_hash_get malloc (conf_all_svcs conf) n AXIS2_HASH_KEY_STRING)"

definition axis2_svc_get_op_with_name :: "alloc \<Rightarrow> axis2_svc \<Rightarrow> string option \<Rightarrow> ptr result" where
  "axis2_svc_get_op_with_name malloc svc nc_name =
     (case nc_name of
        None \<Rightarrow> Inl INVALID_NULL_PARAM
      | Some n \<Rightarrow> axutil_hash_get malloc (Some (op_alias_map svc)) n AXIS2_HASH_KEY_STRING)"

section \<open>Action patterns\<close>

text \<open>
  The loop \<^verbatim>\<open>while (search && *search)\<close> of \<^verbatim>\<open>axis2_svc_get_op_with_qname\<close>: the segments of the pattern
  between its stars. The value is \<^verbatim>\<open>is_matched\<close> and what \<^verbatim>\<open>search\<close> points to when the loop is left.
  The segment is copied to a block that is not checked.
\<close>

function pattern_loop :: "alloc \<Rightarrow> string \<Rightarrow> string \<Rightarrow> bool \<Rightarrow> (bool \<times> string) result" where
  "pattern_loop malloc search nc match_start =
     (if search = [] then Inr (False, [])
      else
        (case strchr search (CHR ''*'') of
           Some l \<Rightarrow>
             if drop (Suc l) search = [] then Inr (True, search)
             else if \<not> malloc (l + 1) then Inl UNDEFINED_BEHAVIOUR
             else
               (case strstr nc (take l search) of
                  None \<Rightarrow> Inr (False, search)
                | Some i \<Rightarrow>
                    if match_start \<and> axutil_strncmp (Some nc) (Some search) (int l) \<noteq> 0
                    then Inr (False, search)
                    else pattern_loop malloc (drop (Suc l) search) (drop (i + l) nc) True)
         | None \<Rightarrow>
             (case strstr nc search of
                None \<Rightarrow> Inr (False, search)
              | Some i \<Rightarrow> Inr (length (drop i nc) = length search, search))))"
  by pat_completeness auto
termination
  by (relation "measure (\<lambda>(malloc, search, nc, m). length search)") auto

declare pattern_loop.simps [simp del]

text \<open>One round of the loop over the keys of \<^verbatim>\<open>op_action_map\<close>: whether the key matches the name.\<close>

definition pattern_match :: "alloc \<Rightarrow> string \<Rightarrow> string \<Rightarrow> bool result" where
  "pattern_match malloc key nc =
     (if strchr key (CHR ''*'') = None then
        Inr (case strstr nc key of None \<Rightarrow> False | Some i \<Rightarrow> length (drop i nc) = length key)
      else if front key = CHR ''*'' \<and> tl key = [] then Inr True
      else if front key = CHR ''*'' \<and> strchr (tl key) (CHR ''*'') \<noteq> None then Inr False
      else
        res_bind (if front key = CHR ''*'' then pattern_loop malloc (tl key) nc False
                  else pattern_loop malloc key nc True)
          (\<lambda>(is_matched, search). Inr (is_matched \<or> search = [])))"

definition pattern_body ::
    "alloc \<Rightarrow> string \<Rightarrow> 'v hash_entry \<Rightarrow> string option result \<Rightarrow> bool \<times> string option result" where
  "pattern_body malloc nc e s =
     (case pattern_match malloc (e_key e) nc of
        Inl err \<Rightarrow> (True, Inl err)
      | Inr m \<Rightarrow> if m then (True, Inr (Some (e_key e))) else (False, s))"

text \<open>The key found, if any. When the iterator cannot be allocated the loop is not entered.\<close>

definition find_pattern :: "alloc \<Rightarrow> 'v axutil_hash \<Rightarrow> string \<Rightarrow> string option result" where
  "find_pattern malloc actions nc =
     (case axutil_hash_first_impl malloc (Some actions) False of
        Inl e \<Rightarrow> if e = NO_MEMORY then Inr None else Inl e
      | Inr hi \<Rightarrow> res_bind (hash_foreach actions (pattern_body malloc nc) hi (Inr None)) id)"

text \<open>A name is looked up among the names and then among the actions.\<close>

definition alias_or_action :: "alloc \<Rightarrow> axis2_svc \<Rightarrow> string \<Rightarrow> ptr result" where
  "alias_or_action malloc svc n =
     res_bind (axutil_hash_get malloc (Some (op_alias_map svc)) n AXIS2_HASH_KEY_STRING) (\<lambda>op.
       if op \<noteq> None then Inr op
       else axutil_hash_get malloc (Some (op_action_map svc)) n AXIS2_HASH_KEY_STRING)"

definition axis2_svc_get_op_with_qname :: "alloc \<Rightarrow> axis2_svc \<Rightarrow> axutil_qname option \<Rightarrow> ptr result" where
  "axis2_svc_get_op_with_qname malloc svc qname =
     (case qname of
        None \<Rightarrow> Inl INVALID_NULL_PARAM
      | Some q \<Rightarrow>
          res_bind (alias_or_action malloc svc (localpart q)) (\<lambda>op.
            if op \<noteq> None then Inr op
            else
              res_bind (if localpart q \<noteq> [] then find_pattern malloc (op_action_map svc) (localpart q)
                        else Inr None) (\<lambda>m.
                alias_or_action malloc svc (case m of None \<Rightarrow> localpart q | Some key \<Rightarrow> key))))"

section \<open>What the URL names\<close>

text \<open>The prefix found first is the one after \<open>pre\<close>, whatever follows it.\<close>

lemma strstr_first_append:
  assumes "strstr (p @ t) t = Some (length p)"
  shows "strstr (p @ t @ r) t = Some (length p)"
proof -
  have "take (length t) (drop j (p @ t @ r)) = take (length t) (drop j (p @ t))" if "j \<le> length p" for j
    using that by (simp add: take_append)
  with assms show ?thesis by (simp add: strstr_Some)
qed

lemma parse_request_url_spec:
  assumes "mem_ok malloc" "strstr (pre @ axis2_request_url_prefix) axis2_request_url_prefix = Some (length pre)"
    and "CHR ''/'' \<notin> set svc" "CHR ''?'' \<notin> set op"
  shows "axutil_parse_request_url_for_svc_and_op malloc
      (pre @ axis2_request_url_prefix @ ''/'' @ svc @ ''/'' @ op) = Inr (Some svc, Some op)"
    and "axutil_parse_request_url_for_svc_and_op malloc
      (pre @ axis2_request_url_prefix @ ''/'' @ svc @ ''/'' @ op @ ''?'' @ query) = Inr (Some svc, Some op)"
    and "axutil_parse_request_url_for_svc_and_op malloc
      (pre @ axis2_request_url_prefix @ ''/'' @ svc) = Inr (Some svc, None)"
  using assms strstr_first_append [OF assms(2)]
  by (simp_all add: axutil_parse_request_url_for_svc_and_op_def Let_def mem_okD NUL_def front_def
      strchr_split axutil_strdup_def)

lemma parse_request_url_none:
  assumes "mem_ok malloc" "strstr url axis2_request_url_prefix = None"
  shows "axutil_parse_request_url_for_svc_and_op malloc url = Inr (None, None)"
  using assms by (simp add: axutil_parse_request_url_for_svc_and_op_def mem_okD)

section \<open>What a pattern matches\<close>

text \<open>The first occurrence of \<open>t\<close> in \<open>s\<close> is at its end.\<close>

definition ends_first :: "string \<Rightarrow> string \<Rightarrow> bool" where
  "ends_first s t \<longleftrightarrow> (\<exists>p. s = p @ t \<and> strstr s t = Some (length p))"

lemma ends_first_iff:
  "ends_first s t \<longleftrightarrow> (case strstr s t of None \<Rightarrow> False | Some i \<Rightarrow> length (drop i s) = length t)"
proof (cases "strstr s t")
  case (Some i)
  then have i: "i \<le> length s" "take (length t) (drop i s) = t" by (simp_all add: strstr_Some)
  have "s = take i s @ t \<and> length (take i s) = i" if "length (drop i s) = length t"
    using i that by (metis append_take_drop_id length_take min.absorb2 order.refl take_all)
  with Some i show ?thesis by (auto simp: ends_first_def)
qed (auto simp: ends_first_def)

lemma pattern_match_plain:
  "CHR ''*'' \<notin> set key \<Longrightarrow> pattern_match malloc key nc = Inr (ends_first nc key)"
  by (simp add: pattern_match_def ends_first_iff NUL_def)

text \<open>The segments of a pattern, each with its star.\<close>

definition stars :: "string list \<Rightarrow> string" where
  "stars ss = concat (map (\<lambda>s. s @ ''*'') ss)"

lemma stars_simps [simp]: "stars [] = []" "stars (s # ss) = s @ ''*'' @ stars ss"
  by (simp_all add: stars_def)

lemma strncmp_prefix:
  "NUL \<notin> set s \<Longrightarrow> strncmp nc (s @ r) (length s) = 0 \<longleftrightarrow> take (length s) nc = s"
proof (induction s arbitrary: nc)
  case (Cons c s)
  have inj: "(of_char d :: int) = of_char c \<longleftrightarrow> d = c" for d by simp
  have "(of_char c :: int) \<noteq> of_char NUL" using Cons.prems by auto
  then have "(of_char c :: int) \<noteq> 0" by (simp add: NUL_def)
  with Cons show ?case by (cases nc) (auto simp: Let_def front_def inj NUL_def)
qed simp

lemma strstr_prefix: "take (length t) s = t \<Longrightarrow> strstr s t = Some 0"
  by (cases s) auto

lemma axutil_strncmp_prefix:
  assumes "NUL \<notin> set s" "length s < 2 ^ 31"
  shows "axutil_strncmp (Some nc) (Some (s @ r)) (int (length s)) = 0 \<longleftrightarrow> take (length s) nc = s"
  using strncmp_prefix [OF assms(1)] assms(2) by (simp add: axutil_strncmp_def size_of_int_def)

text \<open>
  The loop takes the segments one after the other from the front of the name, also those after a star;
  a star at the end of the pattern ends it before the segment in front of that star is compared.
\<close>

lemma pattern_loop_last:
  assumes "CHR ''*'' \<notin> set u" "u \<noteq> []"
  shows "pattern_loop malloc u nc m = Inr (ends_first nc u, u)"
  using assms by (subst pattern_loop.simps) (auto simp: ends_first_iff NUL_def split: option.splits)

lemma pattern_loop_end:
  assumes "CHR ''*'' \<notin> set t"
  shows "pattern_loop malloc (t @ ''*'') nc m = Inr (True, t @ ''*'')"
  using assms strchr_split [of "CHR ''*''" t "[]"] by (subst pattern_loop.simps) (simp add: NUL_def)

lemma pattern_loop_segment:
  assumes "mem_ok malloc" "CHR ''*'' \<notin> set s" "NUL \<notin> set s" "length s < 2 ^ 31" "r \<noteq> []"
  shows "pattern_loop malloc (s @ ''*'' @ r) nc True =
    (if take (length s) nc = s then pattern_loop malloc r (drop (length s) nc) True
     else Inr (False, s @ ''*'' @ r))"
proof -
  have c: "strchr (s @ ''*'' @ r) (CHR ''*'') = Some (length s)"
    using strchr_split [of "CHR ''*''" s r] assms(2) by (simp add: NUL_def)
  have p: "axutil_strncmp (Some nc) (Some (s @ ''*'' @ r)) (int (length s)) = 0 \<longleftrightarrow> take (length s) nc = s"
    by (rule axutil_strncmp_prefix [OF assms(3,4)])
  show ?thesis
    using assms(1,5) p c strstr_prefix [of s nc]
    by (subst pattern_loop.simps) (auto simp: mem_okD split: option.splits)
qed

definition segment_ok :: "string \<Rightarrow> bool" where
  "segment_ok s \<longleftrightarrow> CHR ''*'' \<notin> set s \<and> NUL \<notin> set s \<and> length s < 2 ^ 31"

lemma pattern_loop_stars:
  assumes "mem_ok malloc" "\<forall>s \<in> set ss. segment_ok s" "segment_ok t" "segment_ok u"
  shows "\<exists>r. r \<noteq> [] \<and> pattern_loop malloc (stars (ss @ [t]) @ u) nc True =
    Inr (if u = [] then take (length (concat ss)) nc = concat ss
         else \<exists>m. nc = concat ss @ t @ m \<and> ends_first m u, r)"
  using assms(2)
proof (induction ss arbitrary: nc)
  case Nil
  show ?case
  proof (cases "u = []")
    case True
    then show ?thesis using pattern_loop_end [of t malloc nc True] assms(3) by (simp add: segment_ok_def)
  next
    case False
    then have "pattern_loop malloc (t @ ''*'' @ u) nc True =
        (if take (length t) nc = t then Inr (ends_first (drop (length t) nc) u, u) else Inr (False, t @ ''*'' @ u))"
      using pattern_loop_segment [OF assms(1), of t u nc] pattern_loop_last [of u] assms(3,4) by (simp add: segment_ok_def)
    moreover have "(\<exists>m. nc = t @ m \<and> ends_first m u) \<longleftrightarrow> take (length t) nc = t \<and> ends_first (drop (length t) nc) u"
      by (metis append_eq_conv_conj)
    ultimately show ?thesis using False by simp
  qed
next
  case (Cons s ss)
  let ?r = "stars (ss @ [t]) @ u"
  have r: "?r \<noteq> []" by (induction ss) auto
  have e: "pattern_loop malloc (s @ ''*'' @ ?r) nc True =
      (if take (length s) nc = s then pattern_loop malloc ?r (drop (length s) nc) True else Inr (False, s @ ''*'' @ ?r))"
    using pattern_loop_segment [OF assms(1) _ _ _ r] Cons.prems by (simp add: segment_ok_def)
  show ?case
  proof (cases "take (length s) nc = s")
    case True
    then obtain nc' where nc: "nc = s @ nc'" by (metis append_take_drop_id)
    then show ?thesis using e Cons.IH [of nc'] Cons.prems by (cases "u = []") simp_all
  next
    case False
    have "take (length (concat (s # ss))) nc \<noteq> concat (s # ss)"
    proof
      assume a: "take (length (concat (s # ss))) nc = concat (s # ss)"
      have "take (length s) nc = take (length s) (take (length (concat (s # ss))) nc)" by simp
      with a False show False by simp
    qed
    moreover have "\<not> (\<exists>m. nc = concat (s # ss) @ t @ m \<and> ends_first m u)" using False by auto
    ultimately show ?thesis using e False by (cases "u = []") auto
  qed
qed

lemma strchr_stars: "strchr (stars (ss @ [t]) @ u) (CHR ''*'') \<noteq> None"
  using strchr_None [of "CHR ''*''"] by (induction ss) (auto simp: NUL_def)

lemma pattern_match_spec:
  assumes "mem_ok malloc" "\<forall>s \<in> set ss. segment_ok s" "segment_ok t" "segment_ok u"
  shows "pattern_match malloc (stars (ss @ [t]) @ u) nc =
    Inr ((ss = [] \<or> hd ss \<noteq> []) \<and>
         (if u = [] then take (length (concat ss)) nc = concat ss
          else \<exists>m. nc = concat ss @ t @ m \<and> ends_first m u))"
proof (cases "ss \<noteq> [] \<and> hd ss = []")
  case True
  then obtain ss' where ss: "ss = [] # ss'" by (cases ss) auto
  have "stars (ss' @ [t]) @ u \<noteq> []" by (induction ss') auto
  then show ?thesis using True ss strchr_stars [of ss' t u] by (simp add: pattern_match_def front_def NUL_def strchr_def)
next
  case f: False
  show ?thesis
  proof (cases "ss = [] \<and> t = []")
    case True
    then show ?thesis using assms(4) pattern_loop_last [of u malloc nc False] strchr_stars [of "[]" "[]" u]
      by (cases "u = []") (auto simp: pattern_match_def front_def segment_ok_def NUL_def)
  next
    case False
    then have "front (stars (ss @ [t]) @ u) \<noteq> CHR ''*''"
      using f assms(2,3) by (cases ss; cases "hd (ss @ [t])") (auto simp: front_def segment_ok_def)
    then show ?thesis using pattern_loop_stars [OF assms, of nc] strchr_stars [of ss t u] f
      by (auto simp: pattern_match_def)
  qed
qed

section \<open>What a lookup finds\<close>

text \<open>A string as a key of a table.\<close>

definition name_ok :: "string \<Rightarrow> bool" where
  "name_ok n \<longleftrightarrow> NUL \<notin> set n \<and> length n < 2 ^ 32 - 1"

lemma hash_get_name:
  assumes "hash_inv ht" "name_ok n"
  shows "axutil_hash_get malloc (Some ht) n AXIS2_HASH_KEY_STRING = Inr (hash_abs ht n)"
proof -
  have "c_string n = n" using assms(2) by (auto simp: name_ok_def c_string_def NUL_def takeWhile_eq_all_conv)
  then show ?thesis
    using hash_get_spec [OF assms(1), of n AXIS2_HASH_KEY_STRING malloc] assms(2)
    by (simp add: valid_key_def norm_key_def name_ok_def)
qed

definition svc_ok :: "axis2_svc \<Rightarrow> bool" where
  "svc_ok svc \<longleftrightarrow> hash_inv (op_alias_map svc) \<and> hash_inv (op_action_map svc)"

text \<open>The operation a name stands for: one of that name or else one of that action.\<close>

definition op_named :: "axis2_svc \<Rightarrow> string \<Rightarrow> ptr" where
  "op_named svc n =
     (case hash_abs (op_alias_map svc) n of Some a \<Rightarrow> Some a | None \<Rightarrow> hash_abs (op_action_map svc) n)"

lemma alias_or_action_spec:
  assumes "svc_ok svc" "name_ok n"
  shows "alias_or_action malloc svc n = Inr (op_named svc n)"
  using assms by (simp add: alias_or_action_def op_named_def svc_ok_def hash_get_name split: option.split)

lemma get_op_with_qname_found:
  assumes "svc_ok svc" "name_ok (localpart q)" "op_named svc (localpart q) = Some a"
  shows "axis2_svc_get_op_with_qname malloc svc (Some q) = Inr (Some a)"
  using assms by (simp add: axis2_svc_get_op_with_qname_def alias_or_action_spec)

text \<open>
  C28 (equivalence). Which names an action pattern with stars matches, in closed form. The pattern is its segments, each
  with the star behind it, and a rest: a first segment that is empty matches nothing when another star follows; the
  segments but the last are compared with the front of the name, one right behind the other; with an empty rest
  the last segment is not compared at all, otherwise it follows the others, and the first occurrence of the rest
  behind it has to be at the end of the name.
\<close>

theorem action_pattern_spec:
  assumes "mem_ok malloc" "\<forall>s \<in> set ss. segment_ok s" "segment_ok t" "segment_ok u"
  shows "pattern_match malloc (stars (ss @ [t]) @ u) nc =
    Inr ((ss = [] \<or> hd ss \<noteq> []) \<and>
         (if u = [] then take (length (concat ss)) nc = concat ss
          else \<exists>m. nc = concat ss @ t @ m \<and> ends_first m u))"
  by (rule pattern_match_spec [OF assms])

theorem action_pattern_spec_witness:
  "pattern_match (\<lambda>n. True) ''urn:*Request'' ''urn:echoRequest'' = Inr True"
proof -
  have "ends_first ''echoRequest'' ''Request''" by (simp add: ends_first_iff)
  then show ?thesis
    using action_pattern_spec [of "\<lambda>n. True" "[]" "''urn:''" "''Request''" "''urn:echoRequest''"]
    by (simp add: segment_ok_def NUL_def)
qed

text \<open>A pattern with one star, at its end, matches every name; one with a star in front may miss a name that ends in it.\<close>

lemma prefix_pattern_matches_all: "CHR ''*'' \<notin> set t \<Longrightarrow> pattern_match malloc (t @ ''*'') nc = Inr True"
  using pattern_loop_end [of t malloc nc True] strchr_stars [of "[]" t "[]"]
  by (cases t) (auto simp: pattern_match_def front_def)

lemma suffix_pattern_misses: "pattern_match malloc ''*ab'' ''abab'' = Inr False"
  using pattern_loop_last [of "''ab''" malloc "''abab''" False]
  by (simp add: pattern_match_def front_def strchr_def NUL_def ends_first_iff)

text \<open>The prefix is looked for in the whole address: a host name that holds it hides the path.\<close>

lemma services_in_host_name:
  "axutil_parse_request_url_for_svc_and_op (\<lambda>n. True) ''http://services.org/axis2/services/echo/hello'' =
     Inr (Some ''.org'', Some ''axis2/services/echo/hello'')"
  by (simp add: axutil_parse_request_url_for_svc_and_op_def axis2_request_url_prefix_def front_def strchr_def NUL_def
      axutil_strdup_def)

end
