(* ===== verification/Om_Element.thy ===== *)
theory Om_Element
  imports Om_Node Qname Hash_Map
begin

text \<open>
  Elements of the object model with their namespaces and attributes: \<^verbatim>\<open>axiom/src/om/om_element.c\<close>,
  \<^verbatim>\<open>om_namespace.c\<close> and \<^verbatim>\<open>om_attribute.c\<close>. Nodes, elements, namespaces and attributes are structures of a
  store and are named by their addresses; an element keeps the namespaces declared at it in a table by their
  prefixes, and its attributes in a table by their qualified names.
\<close>

section \<open>State\<close>

record axiom_namespace =
  ns_uri :: "string option"
  ns_prefix :: "string option"
  ns_ref :: int

record axiom_attribute =
  at_localname :: "string option"
  at_value :: "string option"
  at_ns :: ptr
  at_qname :: "axutil_qname option"
  at_ref :: int

text \<open>\<^verbatim>\<open>struct axiom_text\<close> without its fields for attachments.\<close>

record axiom_text =
  tx_value :: "string option"

text \<open>\<^verbatim>\<open>struct axiom_element\<close> without the iterators it hands out and the text it caches.\<close>

record axiom_element =
  elt_ns :: ptr
  elt_localname :: "string option"
  elt_attributes :: "nat axutil_hash option"
  elt_namespaces :: "nat axutil_hash option"
  elt_qname :: "axutil_qname option"
  elt_next_ns_prefix_number :: int
  elt_is_empty :: bool

text \<open>
  The structures by their addresses, and the addresses of the namespaces that were released. The list of
  released namespaces is a record only: a namespace stays readable at its address after its release, so
  that a use of freed memory is not detected.
\<close>

record om_store =
  os_nodes :: om_heap
  os_elements :: "nat \<Rightarrow> axiom_element"
  os_namespaces :: "nat \<Rightarrow> axiom_namespace"
  os_attributes :: "nat \<Rightarrow> axiom_attribute"
  os_texts :: "nat \<Rightarrow> axiom_text"
  os_released :: "nat list"

section \<open>Namespaces\<close>

definition sizeof_namespace :: nat where "sizeof_namespace = 32"

text \<open>
  A namespace without URI gets the empty one. When the prefix cannot be stored, the function releases the structure and then
  reads the address of the URI from it.
\<close>

definition axiom_namespace_create :: "alloc \<Rightarrow> string option \<Rightarrow> string option \<Rightarrow> axiom_namespace result" where
  "axiom_namespace_create malloc uri pre =
     (let u = (case uri of None \<Rightarrow> '''' | Some s \<Rightarrow> s) in
      if \<not> malloc sizeof_namespace then Inl NO_MEMORY
      else
        res_bind (axutil_string_create malloc 0 (Some u)) (\<lambda>_.
          case pre of
            None \<Rightarrow> Inr \<lparr>ns_uri = Some u, ns_prefix = None, ns_ref = 0\<rparr>
          | Some p \<Rightarrow>
              (case axutil_string_create malloc 0 (Some p) of
                 Inl _ \<Rightarrow> Inl UNDEFINED_BEHAVIOUR
               | Inr _ \<Rightarrow> Inr \<lparr>ns_uri = Some u, ns_prefix = Some p, ns_ref = 0\<rparr>)))"

definition axiom_namespace_equals :: "axiom_namespace \<Rightarrow> axiom_namespace \<Rightarrow> bool" where
  "axiom_namespace_equals a b \<longleftrightarrow>
     \<not> parts_differ (ns_uri a) (ns_uri b) \<and> \<not> parts_differ (ns_prefix a) (ns_prefix b)"

definition axiom_namespace_get_uri :: "axiom_namespace \<Rightarrow> string option" where
  "axiom_namespace_get_uri ns = ns_uri ns"

definition axiom_namespace_get_prefix :: "axiom_namespace \<Rightarrow> string option" where
  "axiom_namespace_get_prefix ns = ns_prefix ns"

definition axiom_namespace_increment_ref :: "axiom_namespace \<Rightarrow> axiom_namespace" where
  "axiom_namespace_increment_ref ns = ns\<lparr>ns_ref := ns_ref ns + 1\<rparr>"

section \<open>Looking for a namespace\<close>

text \<open>The element around a node, with its node, when the parent is an element.\<close>

definition parent_element :: "om_heap \<Rightarrow> nat \<Rightarrow> (nat \<times> nat) option result" where
  "parent_element h node =
     res_bind (axiom_node_get_parent h (Some node)) (\<lambda>parent.
       case parent of
         None \<Rightarrow> Inr None
       | Some q \<Rightarrow>
           res_bind (axiom_node_get_node_type h parent) (\<lambda>t.
             if t \<noteq> AXIOM_ELEMENT then Inr None
             else
               res_bind (axiom_node_get_data_element h parent) (\<lambda>e. Inr (map_option (\<lambda>a. (a, q)) e))))"

text \<open>A prefix in the table of an element; an element may have no table.\<close>

definition declared_here :: "alloc \<Rightarrow> om_store \<Rightarrow> nat \<Rightarrow> string \<Rightarrow> ptr result" where
  "declared_here malloc S e pre =
     (case elt_namespaces (os_elements S e) of
        None \<Rightarrow> Inr None
      | Some ht \<Rightarrow> axutil_hash_get malloc (Some ht) pre AXIS2_HASH_KEY_STRING)"

text \<open>The three searches call themselves for the parent; on a cycle of parents they do not return.\<close>

partial_function (option) axiom_element_get_default_namespace ::
    "alloc \<Rightarrow> om_store \<Rightarrow> nat \<Rightarrow> nat \<Rightarrow> ptr result option" where
  "axiom_element_get_default_namespace malloc S om_element element_node =
     (case declared_here malloc S om_element '''' of
        Inl err \<Rightarrow> Some (Inl err)
      | Inr (Some default_ns) \<Rightarrow> Some (Inr (Some default_ns))
      | Inr None \<Rightarrow>
          (case parent_element (os_nodes S) element_node of
             Inl err \<Rightarrow> Some (Inl err)
           | Inr None \<Rightarrow> Some (Inr None)
           | Inr (Some (parent_ele, parent_node)) \<Rightarrow>
               axiom_element_get_default_namespace malloc S parent_ele parent_node))"

partial_function (option) axiom_element_find_namespace_uri ::
    "alloc \<Rightarrow> om_store \<Rightarrow> nat \<Rightarrow> string \<Rightarrow> nat \<Rightarrow> ptr result option" where
  "axiom_element_find_namespace_uri malloc S om_element pre element_node =
     (case declared_here malloc S om_element pre of
        Inl err \<Rightarrow> Some (Inl err)
      | Inr (Some ns) \<Rightarrow> Some (Inr (Some ns))
      | Inr None \<Rightarrow>
          (case parent_element (os_nodes S) element_node of
             Inl err \<Rightarrow> Some (Inl err)
           | Inr None \<Rightarrow> Some (Inr None)
           | Inr (Some (parent_ele, parent_node)) \<Rightarrow>
               axiom_element_find_namespace_uri malloc S parent_ele pre parent_node))"

text \<open>The loop over the table of an element for a namespace with the given URI.\<close>

definition uri_body :: "om_store \<Rightarrow> string \<Rightarrow> nat hash_entry \<Rightarrow> ptr \<Rightarrow> bool \<times> ptr" where
  "uri_body S uri entry found =
     (case e_val entry of
        None \<Rightarrow> (False, found)
      | Some ns \<Rightarrow>
          if axutil_strcmp (axiom_namespace_get_uri (os_namespaces S ns)) (Some uri) = 0 then (True, Some ns)
          else (False, found))"

definition table_uri :: "alloc \<Rightarrow> om_store \<Rightarrow> nat axutil_hash \<Rightarrow> string \<Rightarrow> ptr result" where
  "table_uri malloc S ht uri =
     (case axutil_hash_first_impl malloc (Some ht) False of
        Inl e \<Rightarrow> if e = NO_MEMORY then Inr None else Inl e
      | Inr hi \<Rightarrow> hash_foreach ht (uri_body S uri) hi None)"

text \<open>
  What \<^verbatim>\<open>axiom_element_find_namespace\<close> decides at one element: \<open>Some r\<close> when it returns \<open>r\<close> there, \<open>None\<close>
  when it goes on to the parent.
\<close>

definition search_here ::
    "alloc \<Rightarrow> om_store \<Rightarrow> nat \<Rightarrow> nat \<Rightarrow> string option \<Rightarrow> string option \<Rightarrow> ptr option result option" where
  "search_here malloc S om_element element_node uri pre =
     (case elt_namespaces (os_elements S om_element) of
        None \<Rightarrow> Some (Inr None)
      | Some ht \<Rightarrow>
          if uri \<noteq> None \<and> (pre = None \<or> axutil_strcmp pre (Some '''') = 0) then
            (case axiom_element_get_default_namespace malloc S om_element element_node of
               None \<Rightarrow> None
             | Some (Inl err) \<Rightarrow> Some (Inl err)
             | Some (Inr (Some d)) \<Rightarrow>
                 Some (Inr (Some (if axutil_strcmp uri (axiom_namespace_get_uri (os_namespaces S d)) = 0
                                  then Some d else None)))
             | Some (Inr None) \<Rightarrow> Some (res_bind (table_uri malloc S ht (the uri)) (\<lambda>ns. Inr (map_option Some ns))))
          else
            (case pre of
               None \<Rightarrow> Some (Inr None)
             | Some p \<Rightarrow> Some (
                 res_bind (axutil_hash_get malloc (Some ht) p AXIS2_HASH_KEY_STRING) (\<lambda>ns.
                   case ns of
                     None \<Rightarrow> Inr None
                   | Some a \<Rightarrow>
                       Inr (Some (if uri = None \<or> axutil_strcmp (axiom_namespace_get_uri (os_namespaces S a)) uri = 0
                                  then Some a else None))))))"

partial_function (option) axiom_element_find_namespace ::
    "alloc \<Rightarrow> om_store \<Rightarrow> nat \<Rightarrow> nat \<Rightarrow> string option \<Rightarrow> string option \<Rightarrow> ptr result option" where
  "axiom_element_find_namespace malloc S om_element element_node uri pre =
     (case res_bind (axiom_node_get_data_element (os_nodes S) (Some element_node)) (\<lambda>d.
             if d = None then Inl INVALID_NULL_PARAM
             else res_bind (axiom_node_get_node_type (os_nodes S) (Some element_node)) (\<lambda>t.
               if t \<noteq> AXIOM_ELEMENT then Inl INVALID_NULL_PARAM else Inr ())) of
        Inl err \<Rightarrow> Some (Inl err)
      | Inr _ \<Rightarrow>
          (case search_here malloc S om_element element_node uri pre of
             None \<Rightarrow> None
           | Some (Inl err) \<Rightarrow> Some (Inl err)
           | Some (Inr (Some r)) \<Rightarrow> Some (Inr r)
           | Some (Inr None) \<Rightarrow>
               (case parent_element (os_nodes S) element_node of
                  Inl err \<Rightarrow> Some (Inl err)
                | Inr None \<Rightarrow> Some (Inr None)
                | Inr (Some (parent_ele, parent)) \<Rightarrow>
                    axiom_element_find_namespace malloc S parent_ele parent uri pre)))"

definition axiom_element_find_namespace_with_qname ::
    "alloc \<Rightarrow> om_store \<Rightarrow> nat \<Rightarrow> nat \<Rightarrow> axutil_qname \<Rightarrow> ptr result option" where
  "axiom_element_find_namespace_with_qname malloc S element node qname =
     (case namespace_uri qname of
        None \<Rightarrow> Some (Inr None)
      | Some uri \<Rightarrow> axiom_element_find_namespace malloc S element node (Some uri) (prefix qname))"

definition axiom_element_find_declared_namespace ::
    "alloc \<Rightarrow> om_store \<Rightarrow> nat \<Rightarrow> string option \<Rightarrow> string option \<Rightarrow> ptr result" where
  "axiom_element_find_declared_namespace malloc S om_element uri pre =
     (case elt_namespaces (os_elements S om_element) of
        None \<Rightarrow> Inr None
      | Some ht \<Rightarrow>
          if uri \<noteq> None \<and> (pre = None \<or> axutil_strcmp pre (Some '''') = 0) then table_uri malloc S ht (the uri)
          else
            (case pre of
               None \<Rightarrow> Inr None
             | Some p \<Rightarrow>
                 res_bind (axutil_hash_get malloc (Some ht) p AXIS2_HASH_KEY_STRING) (\<lambda>ns.
                   case ns of
                     None \<Rightarrow> Inr None
                   | Some a \<Rightarrow>
                       Inr (if uri \<noteq> None \<and> axutil_strcmp (axiom_namespace_get_uri (os_namespaces S a)) uri = 0
                            then Some a else None))))"

section \<open>Declaring a namespace\<close>

definition set_element :: "nat \<Rightarrow> (axiom_element \<Rightarrow> axiom_element) \<Rightarrow> om_store \<Rightarrow> om_store" where
  "set_element e f S = S\<lparr>os_elements := (os_elements S)(e := f (os_elements S e))\<rparr>"

definition set_namespace :: "nat \<Rightarrow> (axiom_namespace \<Rightarrow> axiom_namespace) \<Rightarrow> om_store \<Rightarrow> om_store" where
  "set_namespace n f S = S\<lparr>os_namespaces := (os_namespaces S)(n := f (os_namespaces S n))\<rparr>"

text \<open>
  \<^verbatim>\<open>axutil_hash_set\<close> as the functions here use it: it returns nothing, and without memory it leaves the table
  alone.
\<close>

definition hash_put :: "alloc \<Rightarrow> 'v axutil_hash \<Rightarrow> string \<Rightarrow> 'v option \<Rightarrow> 'v axutil_hash result" where
  "hash_put malloc ht key v =
     (case axutil_hash_set malloc (Some ht) key AXIS2_HASH_KEY_STRING v of
        Inl e \<Rightarrow> if e = NO_MEMORY then Inr ht else Inl e
      | Inr None \<Rightarrow> Inr ht
      | Inr (Some ht') \<Rightarrow> Inr ht')"

text \<open>
  The common end of the functions that declare a namespace: the table is made when there is none, and the namespace
  is put under its prefix, or under an empty key in a block that is not checked.
\<close>

definition declare_at :: "alloc \<Rightarrow> om_store \<Rightarrow> nat \<Rightarrow> nat \<Rightarrow> (axis2_status \<times> om_store) result" where
  "declare_at malloc S e n =
     (case (case elt_namespaces (os_elements S e) of
              Some ht \<Rightarrow> Some ht
            | None \<Rightarrow> (case axutil_hash_make malloc of Inl _ \<Rightarrow> None | Inr ht \<Rightarrow> Some ht)) of
        None \<Rightarrow> Inr (AXIS2_FAILURE, S)
      | Some ht \<Rightarrow>
          (case axiom_namespace_get_prefix (os_namespaces S n) of
             Some p \<Rightarrow>
               res_bind (hash_put malloc ht p (Some n)) (\<lambda>ht'.
                 Inr (AXIS2_SUCCESS,
                      set_namespace n axiom_namespace_increment_ref
                        (set_element e (\<lambda>el. el\<lparr>elt_namespaces := Some ht'\<rparr>) S)))
           | None \<Rightarrow>
               if \<not> malloc 10 then Inl UNDEFINED_BEHAVIOUR
               else
                 res_bind (hash_put malloc ht '''' (Some n)) (\<lambda>ht'.
                   Inr (AXIS2_SUCCESS,
                        set_namespace n axiom_namespace_increment_ref
                          (set_element e (\<lambda>el. el\<lparr>elt_namespaces := Some ht',
                             elt_next_ns_prefix_number := elt_next_ns_prefix_number el + 1\<rparr>) S)))))"

definition axiom_element_declare_namespace_assume_param_ownership ::
    "alloc \<Rightarrow> om_store \<Rightarrow> ptr \<Rightarrow> ptr \<Rightarrow> (axis2_status \<times> om_store) result" where
  "axiom_element_declare_namespace_assume_param_ownership malloc S om_element ns =
     (case (om_element, ns) of
        (Some e, Some n) \<Rightarrow> declare_at malloc S e n
      | _ \<Rightarrow> Inl INVALID_NULL_PARAM)"

text \<open>A pointer another search returned: NULL where it failed with an error of its own.\<close>

definition ns_found :: "ptr result option \<Rightarrow> (ptr \<Rightarrow> 'b result option) \<Rightarrow> 'b result option" where
  "ns_found r f =
     (case r of
        None \<Rightarrow> None
      | Some (Inl e) \<Rightarrow> if e = UNDEFINED_BEHAVIOUR \<or> e = BUILDER_INPUT then Some (Inl e) else f None
      | Some (Inr p) \<Rightarrow> f p)"

definition axiom_element_declare_namespace ::
    "alloc \<Rightarrow> om_store \<Rightarrow> ptr \<Rightarrow> ptr \<Rightarrow> ptr \<Rightarrow> (axis2_status \<times> om_store) result option" where
  "axiom_element_declare_namespace malloc S om_element node ns =
     (case (om_element, node, ns) of
        (Some e, Some nd, Some n) \<Rightarrow>
          ns_found (axiom_element_find_namespace malloc S e nd (axiom_namespace_get_uri (os_namespaces S n))
                      (axiom_namespace_get_prefix (os_namespaces S n)))
            (\<lambda>declared_ns.
               if (case declared_ns of
                     None \<Rightarrow> False
                   | Some d \<Rightarrow> axiom_namespace_equals (os_namespaces S n) (os_namespaces S d))
               then Some (Inr (AXIS2_SUCCESS, S))
               else Some (declare_at malloc S e n))
      | _ \<Rightarrow> Some (Inl INVALID_NULL_PARAM))"

definition axiom_element_declare_default_namespace ::
    "alloc \<Rightarrow> om_store \<Rightarrow> nat \<Rightarrow> nat \<Rightarrow> string \<Rightarrow> (ptr \<times> om_store) result" where
  "axiom_element_declare_default_namespace malloc S fresh e uri =
     (if axutil_strcmp (Some uri) (Some '''') = 0 then Inr (None, S)
      else
        (case axiom_namespace_create malloc (Some uri) (Some '''') of
           Inl err \<Rightarrow> if err = UNDEFINED_BEHAVIOUR then Inl err else Inr (None, S)
         | Inr ns \<Rightarrow>
             (case (case elt_namespaces (os_elements S e) of
                      Some ht \<Rightarrow> Some ht
                    | None \<Rightarrow> (case axutil_hash_make malloc of Inl _ \<Rightarrow> None | Inr ht \<Rightarrow> Some ht)) of
                None \<Rightarrow> Inr (None, S)
              | Some ht \<Rightarrow>
                  res_bind (hash_put malloc ht '''' (Some fresh)) (\<lambda>ht'.
                    Inr (Some fresh,
                         set_element e (\<lambda>el. el\<lparr>elt_namespaces := Some ht'\<rparr>)
                           (set_namespace fresh (\<lambda>_. axiom_namespace_increment_ref ns) S))))))"

section \<open>The namespace of an element\<close>

definition axiom_element_get_namespace :: "alloc \<Rightarrow> om_store \<Rightarrow> nat \<Rightarrow> nat \<Rightarrow> ptr result option" where
  "axiom_element_get_namespace malloc S om_element ele_node =
     (if elt_ns (os_elements S om_element) \<noteq> None then Some (Inr (elt_ns (os_elements S om_element)))
      else axiom_element_get_default_namespace malloc S om_element ele_node)"

definition axiom_element_set_namespace ::
    "alloc \<Rightarrow> om_store \<Rightarrow> nat \<Rightarrow> ptr \<Rightarrow> nat \<Rightarrow> (axis2_status \<times> om_store) result option" where
  "axiom_element_set_namespace malloc S om_element ns node =
     (case ns of
        None \<Rightarrow> Some (Inl INVALID_NULL_PARAM)
      | Some n \<Rightarrow>
          ns_found (axiom_element_find_namespace malloc S om_element node
                      (axiom_namespace_get_uri (os_namespaces S n)) (axiom_namespace_get_prefix (os_namespaces S n)))
            (\<lambda>om_ns.
               if om_ns \<noteq> None then Some (Inr (AXIS2_SUCCESS, set_element om_element (\<lambda>el. el\<lparr>elt_ns := om_ns\<rparr>) S))
               else
                 (case axiom_element_declare_namespace malloc S (Some om_element) (Some node) (Some n) of
                    None \<Rightarrow> None
                  | Some (Inl e) \<Rightarrow> Some (Inl e)
                  | Some (Inr (st, S1)) \<Rightarrow>
                      if st = AXIS2_FAILURE then Some (Inr (AXIS2_FAILURE, S1))
                      else Some (Inr (AXIS2_SUCCESS, set_element om_element (\<lambda>el. el\<lparr>elt_ns := Some n\<rparr>) S1)))))"

definition axiom_element_set_namespace_assume_param_ownership :: "om_store \<Rightarrow> nat \<Rightarrow> ptr \<Rightarrow> om_store" where
  "axiom_element_set_namespace_assume_param_ownership S e ns = set_element e (\<lambda>el. el\<lparr>elt_ns := ns\<rparr>) S"

definition axiom_element_set_namespace_with_no_find_in_current_scope ::
    "om_store \<Rightarrow> nat \<Rightarrow> ptr \<Rightarrow> om_store result" where
  "axiom_element_set_namespace_with_no_find_in_current_scope S e ns =
     (if ns = None then Inl INVALID_NULL_PARAM else Inr (set_element e (\<lambda>el. el\<lparr>elt_ns := ns\<rparr>) S))"

definition axiom_element_get_localname :: "om_store \<Rightarrow> nat \<Rightarrow> string option" where
  "axiom_element_get_localname S e = elt_localname (os_elements S e)"

text \<open>The old name is dropped also when the new one cannot be stored.\<close>

definition axiom_element_set_localname :: "alloc \<Rightarrow> om_store \<Rightarrow> nat \<Rightarrow> string option \<Rightarrow> (axis2_status \<times> om_store) result" where
  "axiom_element_set_localname malloc S e localname =
     (case localname of
        None \<Rightarrow> Inl INVALID_NULL_PARAM
      | Some n \<Rightarrow>
          (case axutil_string_create malloc 0 (Some n) of
             Inl _ \<Rightarrow> Inr (AXIS2_FAILURE, set_element e (\<lambda>el. el\<lparr>elt_localname := None\<rparr>) S)
           | Inr _ \<Rightarrow> Inr (AXIS2_SUCCESS, set_element e (\<lambda>el. el\<lparr>elt_localname := Some n\<rparr>) S)))"

definition axiom_element_get_is_empty :: "om_store \<Rightarrow> nat \<Rightarrow> bool" where
  "axiom_element_get_is_empty S e = elt_is_empty (os_elements S e)"

definition axiom_element_set_is_empty :: "om_store \<Rightarrow> nat \<Rightarrow> bool \<Rightarrow> om_store" where
  "axiom_element_set_is_empty S e b = set_element e (\<lambda>el. el\<lparr>elt_is_empty := b\<rparr>) S"

text \<open>The qualified name is computed once and kept, also when the namespace changes afterwards.\<close>

definition axiom_element_get_qname ::
    "alloc \<Rightarrow> om_store \<Rightarrow> nat \<Rightarrow> nat \<Rightarrow> (axutil_qname option \<times> om_store) result option" where
  "axiom_element_get_qname malloc S e ele_node =
     (case elt_qname (os_elements S e) of
        Some q \<Rightarrow> Some (Inr (Some q, S))
      | None \<Rightarrow>
          ns_found (axiom_element_get_namespace malloc S e ele_node) (\<lambda>ns.
            let q = (case axutil_qname_create malloc (elt_localname (os_elements S e))
                            (Option.bind ns (\<lambda>n. axiom_namespace_get_uri (os_namespaces S n)))
                            (Option.bind ns (\<lambda>n. axiom_namespace_get_prefix (os_namespaces S n))) of
                       Inl _ \<Rightarrow> None | Inr q \<Rightarrow> Some q)
            in Some (Inr (q, set_element e (\<lambda>el. el\<lparr>elt_qname := q\<rparr>) S))))"

end
