(* ===== verification/Dispatch.thy ===== *)
theory Dispatch
  imports Dispatch_Names Phase_Invoke Om_Element
begin

text \<open>
  The dispatchers of \<^verbatim>\<open>src/core/engine\<close>: the handlers that find the service and the operation a
  message is for (\<^verbatim>\<open>disp.c\<close>, \<^verbatim>\<open>addr_disp.c\<close>, \<^verbatim>\<open>req_uri_disp.c\<close>, \<^verbatim>\<open>soap_action_disp.c\<close>,
  \<^verbatim>\<open>soap_body_disp.c\<close>), and the handler that fails when none of them did (\<^verbatim>\<open>disp_checker.c\<close>). The
  services and operations are those of the world of \<^verbatim>\<open>Phase_Resolver\<close>, named by their addresses.
\<close>

section \<open>State\<close>

text \<open>
  The functions that \<^verbatim>\<open>find_svc\<close> and \<^verbatim>\<open>find_op\<close> of a message context point to, by the dispatcher
  they belong to.
\<close>

datatype dispatcher = Addr_disp | Req_uri_disp | Soap_action_disp | Soap_body_disp

text \<open>
  What the dispatchers use of \<^verbatim>\<open>struct axis2_msg_ctx\<close> beyond the fields the engine uses.
  \<open>mc_body_node\<close> is the node of the body of the envelope, NULL when the envelope has no body.
\<close>

record disp_ctx = msg_ctx +
  mc_svc :: ptr
  mc_svc_grp :: ptr
  mc_svc_grp_ctx_id :: "string option"
  mc_soap_action :: "string option"
  mc_body_node :: ptr
  mc_find_svc :: "dispatcher option"
  mc_find_op :: "dispatcher option"

text \<open>
  What the handlers find outside the message: the services and operations, the table
  \<^verbatim>\<open>op_ctx_map\<close> of the configuration context, the nodes, elements and namespaces of the message, the construction of
  a fault envelope with an exception text by the object model, and what \<^verbatim>\<open>sprintf\<close> writes for a NULL
  string, which the C standard leaves undefined (\<open>None\<close>: it does not return).
\<close>

record disp_env =
  de_malloc :: alloc
  de_world :: world
  de_op_ctx_map :: "axis2_op_ctx axutil_hash option"
  de_store :: om_store
  de_fault_envelope :: "string \<Rightarrow> string \<Rightarrow> soap_version \<Rightarrow> string \<Rightarrow> soap_envelope option"
  de_null_text :: "string option"

text \<open>
  A pointer that another function returned: NULL when it failed with an error, unless the failure is one
  of the program (undefined behaviour, or a request to the builder).
\<close>

definition found :: "'a option result option \<Rightarrow> ('a option \<Rightarrow> 'b result option) \<Rightarrow> 'b result option" where
  "found r f =
     (case r of
        None \<Rightarrow> None
      | Some (Inl e) \<Rightarrow> if e = UNDEFINED_BEHAVIOUR \<or> e = BUILDER_INPUT then Some (Inl e) else f None
      | Some (Inr p) \<Rightarrow> f p)"

section \<open>Setters\<close>

text \<open>
  \<^verbatim>\<open>axis2_msg_ctx_set_svc\<close> also copies the service's group; the names it copies with them are pointers
  into the two.
\<close>

definition axis2_msg_ctx_set_svc :: "world \<Rightarrow> disp_ctx \<Rightarrow> ptr \<Rightarrow> disp_ctx" where
  "axis2_msg_ctx_set_svc W mc p =
     (case p of
        None \<Rightarrow> mc
      | Some svc \<Rightarrow>
          (case svc_parent (w_svc W svc) of
             None \<Rightarrow> mc\<lparr>mc_svc := Some svc\<rparr>
           | Some grp \<Rightarrow> mc\<lparr>mc_svc := Some svc, mc_svc_grp := Some grp\<rparr>))"

definition axis2_msg_ctx_set_svc_ctx :: "world \<Rightarrow> disp_ctx \<Rightarrow> axis2_svc_ctx option \<Rightarrow> disp_ctx" where
  "axis2_msg_ctx_set_svc_ctx W mc p =
     (case p of
        None \<Rightarrow> mc
      | Some sc \<Rightarrow>
          let adopt = map_option (\<lambda>oc. if oc_parent oc = None then oc\<lparr>oc_parent := Some sc\<rparr> else oc) in
          axis2_msg_ctx_set_svc W (mc\<lparr>svc_ctx := Some sc, op_ctx := adopt (op_ctx mc)\<rparr>) (sc_svc sc))"

definition axis2_msg_ctx_set_svc_grp_ctx_id :: "disp_ctx \<Rightarrow> string option \<Rightarrow> disp_ctx" where
  "axis2_msg_ctx_set_svc_grp_ctx_id mc i = mc\<lparr>mc_svc_grp_ctx_id := i\<rparr>"

definition axis2_msg_ctx_set_find_svc :: "disp_ctx \<Rightarrow> dispatcher \<Rightarrow> disp_ctx" where
  "axis2_msg_ctx_set_find_svc mc d = mc\<lparr>mc_find_svc := Some d\<rparr>"

definition axis2_msg_ctx_set_find_op :: "disp_ctx \<Rightarrow> dispatcher \<Rightarrow> disp_ctx" where
  "axis2_msg_ctx_set_find_op mc d = mc\<lparr>mc_find_op := Some d\<rparr>"

text \<open>The operation at an address, as a message context keeps it.\<close>

definition op_at :: "world \<Rightarrow> ptr \<Rightarrow> axis2_op option" where
  "op_at W p = map_option (\<lambda>a. axis2_op.truncate (w_op W a)) p"

section \<open>Finding the service\<close>

text \<open>
  The service a URL names, as all dispatchers look for it: the configuration is asked only when there
  is a configuration context with a configuration. Lookups may fail for want of memory, and then find
  nothing.
\<close>

definition url_svc :: "disp_env \<Rightarrow> disp_ctx \<Rightarrow> string \<Rightarrow> ptr result" where
  "url_svc E mc url =
     res_bind (axutil_parse_request_url_for_svc_and_op (de_malloc E) url) (\<lambda>(svc_name, _).
       case svc_name of
         None \<Rightarrow> Inr None
       | Some n \<Rightarrow>
           (case Option.bind (axis2_msg_ctx_get_conf_ctx mc) axis2_conf_ctx_get_conf of
              None \<Rightarrow> Inr None
            | Some _ \<Rightarrow> axis2_conf_get_svc (de_malloc E) (w_conf (de_world E)) (Some n)))"

text \<open>The address a message is sent to.\<close>

definition to_address :: "disp_ctx \<Rightarrow> string option" where
  "to_address mc = Option.bind (axis2_msg_ctx_get_to mc) epr_address"

definition AXIS2_WSA_ANONYMOUS_URL :: string where
  "AXIS2_WSA_ANONYMOUS_URL = ''http://www.w3.org/2005/08/addressing/anonymous''"

definition AXIS2_WSA_NAMESPACE_SUBMISSION :: string where
  "AXIS2_WSA_NAMESPACE_SUBMISSION = ''http://schemas.xmlsoap.org/ws/2004/08/addressing''"

definition axis2_addr_disp_find_svc :: "disp_env \<Rightarrow> disp_ctx \<Rightarrow> ptr result option" where
  "axis2_addr_disp_find_svc E mc =
     (if doing_rest mc then Some (Inr None)
      else
        (case to_address mc of
           None \<Rightarrow> Some (Inr None)
         | Some address \<Rightarrow>
             if axutil_strcmp (Some AXIS2_WSA_ANONYMOUS_URL) (Some address) = 0 \<or>
                axutil_strcmp (Some AXIS2_WSA_NAMESPACE_SUBMISSION) (Some address) = 0
             then Some (Inr None)
             else Some (url_svc E mc address)))"

definition axis2_req_uri_disp_find_svc :: "disp_env \<Rightarrow> disp_ctx \<Rightarrow> ptr result option" where
  "axis2_req_uri_disp_find_svc E mc =
     (if doing_rest mc then Some (Inr None)
      else
        (case to_address mc of
           None \<Rightarrow> Some (Inr None)
         | Some address \<Rightarrow> Some (url_svc E mc address)))"

text \<open>Finding a service by the SOAP action is not implemented.\<close>

definition axis2_soap_action_disp_find_svc :: "disp_env \<Rightarrow> disp_ctx \<Rightarrow> ptr result option" where
  "axis2_soap_action_disp_find_svc E mc = Some (Inr None)"

text \<open>The first element in the body and its node, when there is an envelope with a body.\<close>

definition body_first_element :: "disp_env \<Rightarrow> disp_ctx \<Rightarrow> (nat \<times> nat) option result option" where
  "body_first_element E mc =
     (case axis2_msg_ctx_get_soap_envelope mc of
        None \<Rightarrow> Some (Inr None)
      | Some _ \<Rightarrow>
          if mc_body_node mc = None then Some (Inr None)
          else
            found (axiom_node_get_first_element (os_nodes (de_store E)) (mc_body_node mc)) (\<lambda>child.
              case child of
                None \<Rightarrow> Some (Inr None)
              | Some c \<Rightarrow> Some (
                  res_bind (axiom_node_get_node_type (os_nodes (de_store E)) child) (\<lambda>t.
                    if t \<noteq> AXIOM_ELEMENT then Inr None
                    else
                      res_bind (axiom_node_get_data_element (os_nodes (de_store E)) child) (\<lambda>d.
                        Inr (map_option (\<lambda>e. (e, c)) d))))))"

definition axis2_soap_body_disp_find_svc :: "disp_env \<Rightarrow> disp_ctx \<Rightarrow> ptr result option" where
  "axis2_soap_body_disp_find_svc E mc =
     (if doing_rest mc then Some (Inr None)
      else
        found (body_first_element E mc) (\<lambda>element.
          case element of
            None \<Rightarrow> Some (Inr None)
          | Some (e, node) \<Rightarrow>
              found (axiom_element_get_namespace (de_malloc E) (de_store E) e node) (\<lambda>ns.
                case Option.bind ns (\<lambda>n. axiom_namespace_get_uri (os_namespaces (de_store E) n)) of
                  None \<Rightarrow> Some (Inr None)
                | Some uri \<Rightarrow> Some (url_svc E mc uri))))"

section \<open>Finding the operation\<close>

text \<open>
  \<open>svc\<close> is the service found so far: without one \<^verbatim>\<open>AXIS2_PARAM_CHECK\<close> sets the error and NULL is
  returned. A qualified name that could not be created is NULL, and \<^verbatim>\<open>axutil_qname_free\<close> reads it.
\<close>

definition op_with_action :: "disp_env \<Rightarrow> axis2_svc \<Rightarrow> string \<Rightarrow> ptr result" where
  "op_with_action E svc action =
     (case axutil_qname_create (de_malloc E) (Some action) None None of
        Inl _ \<Rightarrow> Inl UNDEFINED_BEHAVIOUR
      | Inr name \<Rightarrow> axis2_svc_get_op_with_qname (de_malloc E) svc (Some name))"

definition axis2_addr_disp_find_op :: "disp_env \<Rightarrow> disp_ctx \<Rightarrow> ptr \<Rightarrow> ptr result option" where
  "axis2_addr_disp_find_op E mc svc =
     (case svc of
        None \<Rightarrow> Some (Inl INVALID_NULL_PARAM)
      | Some s \<Rightarrow>
          if doing_rest mc then Some (Inr None)
          else
            (case axis2_msg_ctx_get_wsa_action mc of
               None \<Rightarrow> Some (Inr None)
             | Some action \<Rightarrow> Some (op_with_action E (w_svc (de_world E) s) action)))"

definition axis2_req_uri_disp_find_op :: "disp_env \<Rightarrow> disp_ctx \<Rightarrow> ptr \<Rightarrow> ptr result option" where
  "axis2_req_uri_disp_find_op E mc svc =
     (case svc of
        None \<Rightarrow> Some (Inl INVALID_NULL_PARAM)
      | Some s \<Rightarrow>
          if doing_rest mc then Some (Inr None)
          else
            (case to_address mc of
               None \<Rightarrow> Some (Inr None)
             | Some address \<Rightarrow> Some (
                 res_bind (axutil_parse_request_url_for_svc_and_op (de_malloc E) address) (\<lambda>(_, op_name).
                   case op_name of
                     None \<Rightarrow> Inr None
                   | Some n \<Rightarrow>
                       (case axutil_qname_create (de_malloc E) (Some n) None None of
                          Inl _ \<Rightarrow> Inl UNDEFINED_BEHAVIOUR
                        | Inr name \<Rightarrow>
                            axis2_svc_get_op_with_name (de_malloc E) (w_svc (de_world E) s)
                              (Some (localpart name)))))))"

text \<open>The part of the action after its last slash is tried first, then the whole action.\<close>

definition axis2_soap_action_disp_find_op :: "disp_env \<Rightarrow> disp_ctx \<Rightarrow> ptr \<Rightarrow> ptr result option" where
  "axis2_soap_action_disp_find_op E mc svc =
     (case svc of
        None \<Rightarrow> Some (Inl INVALID_NULL_PARAM)
      | Some s \<Rightarrow>
          if doing_rest mc then Some (Inr None)
          else
            (case mc_soap_action mc of
               None \<Rightarrow> Some (Inr None)
             | Some action \<Rightarrow>
                 let op_name = (case axutil_rindex (Some action) (CHR ''/'') of
                                  Some i \<Rightarrow> drop (Suc i) action | None \<Rightarrow> action) in
                 found (Some (axis2_svc_get_op_with_name (de_malloc E) (w_svc (de_world E) s) (Some op_name)))
                   (\<lambda>op. if op \<noteq> None then Some (Inr op)
                         else Some (op_with_action E (w_svc (de_world E) s) action))))"

definition axis2_soap_body_disp_find_op :: "disp_env \<Rightarrow> disp_ctx \<Rightarrow> ptr \<Rightarrow> ptr result option" where
  "axis2_soap_body_disp_find_op E mc svc =
     (case svc of
        None \<Rightarrow> Some (Inl INVALID_NULL_PARAM)
      | Some s \<Rightarrow>
          if doing_rest mc then Some (Inr None)
          else
            found (body_first_element E mc) (\<lambda>element.
              case Option.bind element (\<lambda>(e, _). axiom_element_get_localname (de_store E) e) of
                None \<Rightarrow> Some (Inr None)
              | Some n \<Rightarrow> Some (axis2_svc_get_op_with_name (de_malloc E) (w_svc (de_world E) s) (Some n))))"

text \<open>The calls through the function pointers.\<close>

definition axis2_msg_ctx_find_svc :: "disp_env \<Rightarrow> disp_ctx \<Rightarrow> ptr result option" where
  "axis2_msg_ctx_find_svc E mc =
     (case mc_find_svc mc of
        None \<Rightarrow> Some (Inl UNDEFINED_BEHAVIOUR)
      | Some d \<Rightarrow>
          (case d of
             Addr_disp \<Rightarrow> axis2_addr_disp_find_svc E mc
           | Req_uri_disp \<Rightarrow> axis2_req_uri_disp_find_svc E mc
           | Soap_action_disp \<Rightarrow> axis2_soap_action_disp_find_svc E mc
           | Soap_body_disp \<Rightarrow> axis2_soap_body_disp_find_svc E mc))"

definition axis2_msg_ctx_find_op :: "disp_env \<Rightarrow> disp_ctx \<Rightarrow> ptr \<Rightarrow> ptr result option" where
  "axis2_msg_ctx_find_op E mc svc =
     (case mc_find_op mc of
        None \<Rightarrow> Some (Inl UNDEFINED_BEHAVIOUR)
      | Some d \<Rightarrow>
          (case d of
             Addr_disp \<Rightarrow> axis2_addr_disp_find_op E mc svc
           | Req_uri_disp \<Rightarrow> axis2_req_uri_disp_find_op E mc svc
           | Soap_action_disp \<Rightarrow> axis2_soap_action_disp_find_op E mc svc
           | Soap_body_disp \<Rightarrow> axis2_soap_body_disp_find_op E mc svc))"

section \<open>The handlers\<close>

definition axis2_disp_find_svc_and_op :: "disp_env \<Rightarrow> disp_ctx option \<Rightarrow> disp_ctx run" where
  "axis2_disp_find_svc_and_op E p =
     (case p of
        None \<Rightarrow> Some (Inl INVALID_NULL_PARAM)
      | Some mc \<Rightarrow>
          found (if mc_svc mc \<noteq> None then Some (Inr (mc_svc mc)) else axis2_msg_ctx_find_svc E mc) (\<lambda>svc.
            let mc1 = (if mc_svc mc = None then axis2_msg_ctx_set_svc (de_world E) mc svc else mc) in
            if mc_op mc1 \<noteq> None then returns AXIS2_SUCCESS mc1
            else
              found (axis2_msg_ctx_find_op E mc1 svc) (\<lambda>op.
                returns AXIS2_SUCCESS (axis2_msg_ctx_set_op mc1 (op_at (de_world E) op)))))"

text \<open>
  The two setters and the search, as every dispatcher's \<^verbatim>\<open>invoke\<close> does them; the addressing dispatcher
  looks for an operation context before.
\<close>

definition set_and_find :: "dispatcher \<Rightarrow> disp_env \<Rightarrow> disp_ctx \<Rightarrow> disp_ctx run" where
  "set_and_find d E mc =
     axis2_disp_find_svc_and_op E
       (Some (axis2_msg_ctx_set_find_op (axis2_msg_ctx_set_find_svc mc d) d))"

definition axis2_req_uri_disp_invoke :: "disp_env \<Rightarrow> disp_ctx \<Rightarrow> disp_ctx run" where
  "axis2_req_uri_disp_invoke E mc = set_and_find Req_uri_disp E mc"

definition axis2_soap_action_disp_invoke :: "disp_env \<Rightarrow> disp_ctx \<Rightarrow> disp_ctx run" where
  "axis2_soap_action_disp_invoke E mc = set_and_find Soap_action_disp E mc"

definition axis2_soap_body_disp_invoke :: "disp_env \<Rightarrow> disp_ctx \<Rightarrow> disp_ctx run" where
  "axis2_soap_body_disp_invoke E mc = set_and_find Soap_body_disp E mc"

definition axis2_conf_ctx_get_op_ctx :: "disp_env \<Rightarrow> string option \<Rightarrow> axis2_op_ctx option result" where
  "axis2_conf_ctx_get_op_ctx E message_id =
     (case message_id of
        None \<Rightarrow> Inl INVALID_NULL_PARAM
      | Some i \<Rightarrow>
          (case de_op_ctx_map E of
             None \<Rightarrow> Inr None
           | Some ht \<Rightarrow> axutil_hash_get (de_malloc E) (Some ht) i AXIS2_HASH_KEY_STRING))"

definition axis2_op_ctx_cleanup :: "axis2_op_ctx \<Rightarrow> axis2_op_ctx" where
  "axis2_op_ctx_cleanup oc = oc\<lparr>oc_msg_ctx_array := map (\<lambda>_. None) (oc_msg_ctx_array oc)\<rparr>"

text \<open>
  \<^verbatim>\<open>axis2_op_register_op_ctx\<close>: setting the operation context of a message context always succeeds, so
  the table is left alone. The cleanup works on the context through the pointers the message context
  holds.
\<close>

definition axis2_op_register_op_ctx :: "disp_ctx \<Rightarrow> axis2_op_ctx \<Rightarrow> disp_ctx" where
  "axis2_op_register_op_ctx mc oc =
     (case axis2_msg_ctx_get_conf_ctx mc of
        None \<Rightarrow> mc
      | Some _ \<Rightarrow>
          let mc1 = axis2_msg_ctx_set_op_ctx mc (Some oc) in
          if oc_is_complete oc
          then mc1\<lparr>op_ctx := map_option axis2_op_ctx_cleanup (op_ctx mc1),
                   mc_parent := map_option axis2_op_ctx_cleanup (mc_parent mc1)\<rparr>
          else mc1)"

text \<open>
  The branch of \<^verbatim>\<open>axis2_addr_disp_invoke\<close> for a message that relates to another one: the operation
  context is looked up by the identifier of the message itself.
\<close>

definition related_op_ctx :: "disp_env \<Rightarrow> disp_ctx \<Rightarrow> axis2_op_ctx option result option" where
  "related_op_ctx E mc =
     (case Option.bind (msg_info_headers mc) mih_relates_to of
        None \<Rightarrow> Some (Inr None)
      | Some (relates_to_value, _) \<Rightarrow>
          if relates_to_value = None \<or> axutil_strcmp relates_to_value (Some '''') = 0 then Some (Inr None)
          else if axis2_msg_ctx_get_conf_ctx mc = None then Some (Inr None)
          else Some (axis2_conf_ctx_get_op_ctx E (axis2_msg_ctx_get_msg_id mc)))"

definition use_op_ctx :: "disp_env \<Rightarrow> disp_ctx \<Rightarrow> axis2_op_ctx \<Rightarrow> bool \<times> disp_ctx" where
  "use_op_ctx E mc oc =
     (case axis2_op_ctx_get_op oc of
        None \<Rightarrow> (False, mc)
      | Some op \<Rightarrow>
          let mc1 = axis2_msg_ctx_set_op (axis2_msg_ctx_set_op_ctx mc (Some oc)) (Some op);
              mc2 = axis2_op_register_op_ctx mc1 (case op_ctx mc1 of None \<Rightarrow> oc | Some oc1 \<Rightarrow> oc1)
          in case Option.bind (op_ctx mc2) oc_parent of
               None \<Rightarrow> (False, mc2)
             | Some sc \<Rightarrow>
                 let mc3 = axis2_msg_ctx_set_svc_ctx (de_world E) mc2 (Some sc);
                     mc4 = axis2_msg_ctx_set_svc (de_world E) mc3 (sc_svc sc)
                 in (True,
                     case sc_parent sc of
                       None \<Rightarrow> mc4
                     | Some sgc \<Rightarrow>
                         axis2_msg_ctx_set_svc_grp_ctx_id mc4
                           (case axutil_string_create (de_malloc E) 0 (sgc_id sgc) of
                              Inl _ \<Rightarrow> None | Inr _ \<Rightarrow> sgc_id sgc)))"

definition axis2_addr_disp_invoke :: "disp_env \<Rightarrow> disp_ctx \<Rightarrow> disp_ctx run" where
  "axis2_addr_disp_invoke E mc =
     found (related_op_ctx E mc) (\<lambda>oc.
       case oc of
         None \<Rightarrow> set_and_find Addr_disp E mc
       | Some oc1 \<Rightarrow>
           (case use_op_ctx E mc oc1 of
              (dispatched, mc1) \<Rightarrow>
                if dispatched then returns AXIS2_SUCCESS mc1 else set_and_find Addr_disp E mc1))"

section \<open>The checker\<close>

definition AXIOM_SOAP_DEFAULT_NAMESPACE_PREFIX :: string where
  "AXIOM_SOAP_DEFAULT_NAMESPACE_PREFIX = ''soapenv''"

definition AXIOM_SOAP11_FAULT_CODE_RECEIVER :: string where
  "AXIOM_SOAP11_FAULT_CODE_RECEIVER = ''Server''"

definition AXIOM_SOAP12_SOAP_FAULT_VALUE_RECEIVER :: string where
  "AXIOM_SOAP12_SOAP_FAULT_VALUE_RECEIVER = ''Receiver''"

text \<open>A string given to \<^verbatim>\<open>sprintf\<close> for \<^verbatim>\<open>%s\<close>, and the text written to \<^verbatim>\<open>exception[1024]\<close>.\<close>

definition percent_s :: "disp_env \<Rightarrow> string option \<Rightarrow> string result" where
  "percent_s E p =
     (case p of
        Some s \<Rightarrow> Inr s
      | None \<Rightarrow> (case de_null_text E of None \<Rightarrow> Inl UNDEFINED_BEHAVIOUR | Some s \<Rightarrow> Inr s))"

definition exception_text :: "disp_env \<Rightarrow> string \<Rightarrow> string option \<Rightarrow> string option \<Rightarrow> string result" where
  "exception_text E what address wsa_action =
     res_bind (percent_s E address) (\<lambda>a.
     res_bind (percent_s E wsa_action) (\<lambda>w.
       let text = what @ '', Endpoint referance address is '' @ a @ '' and wsa actions is '' @ w in
       if length text < 1024 then Inr text else Inl UNDEFINED_BEHAVIOUR))"

text \<open>The fault for what was not found.\<close>

definition not_found :: "disp_env \<Rightarrow> string \<Rightarrow> disp_ctx \<Rightarrow> disp_ctx run" where
  "not_found E what mc =
     (let soap11 = axis2_msg_ctx_get_is_soap_11 mc;
          fault_code = AXIOM_SOAP_DEFAULT_NAMESPACE_PREFIX @ '':'' @
            (if soap11 then AXIOM_SOAP11_FAULT_CODE_RECEIVER else AXIOM_SOAP12_SOAP_FAULT_VALUE_RECEIVER)
      in case exception_text E what (to_address mc) (axis2_msg_ctx_get_wsa_action mc) of
           Inl e \<Rightarrow> Some (Inl e)
         | Inr exception \<Rightarrow>
             returns AXIS2_FAILURE
               (axis2_msg_ctx_set_fault_soap_envelope mc
                  (de_fault_envelope E fault_code what (if soap11 then AXIOM_SOAP11 else AXIOM_SOAP12) exception)))"

definition axis2_disp_checker_invoke :: "disp_env \<Rightarrow> disp_ctx option \<Rightarrow> disp_ctx run" where
  "axis2_disp_checker_invoke E p =
     (case p of
        None \<Rightarrow> Some (Inl INVALID_NULL_PARAM)
      | Some mc \<Rightarrow>
          if \<not> axis2_msg_ctx_get_server_side mc then returns AXIS2_SUCCESS mc
          else
            let mc1 = (if mc_op mc = None
                       then axis2_msg_ctx_set_op mc (Option.bind (axis2_msg_ctx_get_op_ctx mc) axis2_op_ctx_get_op)
                       else mc);
                mc2 = (if mc_svc mc1 = None
                       then axis2_msg_ctx_set_svc (de_world E) mc1 (Option.bind (svc_ctx mc1) sc_svc)
                       else mc1)
            in if mc_svc mc2 = None then not_found E ''Service Not Found'' mc2
               else if mc_op mc2 = None then not_found E ''Operation Not Found'' mc2
               else returns AXIS2_SUCCESS mc2)"

end
