(* ===== verification/Dispatch_Props.thy ===== *)
theory Dispatch_Props
  imports Dispatch
begin

text \<open>
  What the dispatchers find: a locale for the contract of one dispatcher, its interpretations, the sequence of
  dispatchers a phase runs, dispatching by request URL, and the checker behind them.
\<close>

section \<open>Combinators\<close>

lemma found_simps [simp]:
  "found (Some (Inr p)) f = f p" "found None f = None"
  "found (Some (Inl INVALID_NULL_PARAM)) f = f None"
  by (simp_all add: found_def)

lemma found_returns:
  "found r f = Some (Inr x) \<longleftrightarrow>
   (\<exists>p. (r = Some (Inr p) \<or> (\<exists>e. r = Some (Inl e) \<and> e \<noteq> UNDEFINED_BEHAVIOUR \<and> e \<noteq> BUILDER_INPUT \<and> p = None)) \<and>
        f p = Some (Inr x))"
  by (auto simp: found_def split: option.splits sum.splits if_splits)

lemma returns_eq [simp]: "returns st mc = returns st' mc' \<longleftrightarrow> st = st' \<and> mc = mc'"
  by (simp add: returns_def)

lemma set_svc_simps [simp]:
  "mc_svc (axis2_msg_ctx_set_svc W mc p) = (if p = None then mc_svc mc else p)"
  "mc_op (axis2_msg_ctx_set_svc W mc p) = mc_op mc"
  "mc_find_op (axis2_msg_ctx_set_svc W mc p) = mc_find_op mc"
  "mc_find_svc (axis2_msg_ctx_set_svc W mc p) = mc_find_svc mc"
  "fault_soap_envelope (axis2_msg_ctx_set_svc W mc p) = fault_soap_envelope mc"
  "is_soap_11 (axis2_msg_ctx_set_svc W mc p) = is_soap_11 mc"
  "msg_info_headers (axis2_msg_ctx_set_svc W mc p) = msg_info_headers mc"
  by (auto simp: axis2_msg_ctx_set_svc_def split: option.splits)

lemma set_op_simps [simp]:
  "mc_op (axis2_msg_ctx_set_op mc p) = (if p = None then mc_op mc else p)"
  "mc_svc (axis2_msg_ctx_set_op mc p) = mc_svc mc"
  "svc_ctx (axis2_msg_ctx_set_op mc p) = svc_ctx mc"
  "server_side (axis2_msg_ctx_set_op mc p) = server_side mc"
  "is_soap_11 (axis2_msg_ctx_set_op mc p) = is_soap_11 mc"
  "msg_info_headers (axis2_msg_ctx_set_op mc p) = msg_info_headers mc"
  by (auto simp: axis2_msg_ctx_set_op_def split: option.splits)

text \<open>
  The part of a message context that the dispatchers read, which none of them changes, and the flag the phase
  looks at.
\<close>

definition same_message :: "disp_ctx \<Rightarrow> disp_ctx \<Rightarrow> bool" where
  "same_message mc mc' \<longleftrightarrow>
     doing_rest mc' = doing_rest mc \<and> msg_info_headers mc' = msg_info_headers mc \<and> conf_ctx mc' = conf_ctx mc \<and>
     soap_envelope_of mc' = soap_envelope_of mc \<and> mc_body_node mc' = mc_body_node mc \<and>
     mc_soap_action mc' = mc_soap_action mc \<and> paused mc' = paused mc"

lemma same_message_refl [simp]: "same_message mc mc"
  by (simp add: same_message_def)

lemma same_message_trans: "same_message a b \<Longrightarrow> same_message b c \<Longrightarrow> same_message a c"
  by (simp add: same_message_def)

lemma same_message_setters [simp]:
  "same_message a (axis2_msg_ctx_set_svc W mc p) \<longleftrightarrow> same_message a mc"
  "same_message a (axis2_msg_ctx_set_op mc q) \<longleftrightarrow> same_message a mc"
  "same_message a (mc\<lparr>mc_find_svc := d\<rparr>) \<longleftrightarrow> same_message a mc"
  "same_message a (mc\<lparr>mc_find_op := d\<rparr>) \<longleftrightarrow> same_message a mc"
  "same_message a (axis2_msg_ctx_set_paused_phase_name mc n) \<longleftrightarrow> same_message a mc"
  by (auto simp: same_message_def axis2_msg_ctx_set_svc_def axis2_msg_ctx_set_op_def
      axis2_msg_ctx_set_paused_phase_name_def split: option.splits)

lemma set_index_message [simp]:
  "same_message a (axis2_msg_ctx_set_current_handler_index hs mc i) \<longleftrightarrow> same_message a mc"
  "mc_svc (axis2_msg_ctx_set_current_handler_index hs mc i) = mc_svc mc"
  "mc_op (axis2_msg_ctx_set_current_handler_index hs mc i) = mc_op mc"
  by (auto simp: same_message_def axis2_msg_ctx_set_current_handler_index_def Let_def split: option.splits)

section \<open>The contract of a dispatcher\<close>

text \<open>
  \<open>search\<close> looks for the service a message is for: it depends on the message only. \<open>invoke\<close> sets the service
  to what it finds when there is none yet, never changes a service or an operation that is there, and succeeds
  whenever it returns.
\<close>

locale dispatching =
  fixes invoke :: "disp_env \<Rightarrow> disp_ctx \<Rightarrow> disp_ctx run"
    and search :: "disp_env \<Rightarrow> disp_ctx \<Rightarrow> ptr result option"
  assumes search_message: "same_message mc mc' \<Longrightarrow> search E mc' = search E mc"
    and invoke_status: "invoke E mc = Some (Inr (st, mc')) \<Longrightarrow> st = AXIS2_SUCCESS"
    and invoke_message: "invoke E mc = Some (Inr (st, mc')) \<Longrightarrow> same_message mc mc'"
    and invoke_keeps_op: "invoke E mc = Some (Inr (st, mc')) \<Longrightarrow> mc_op mc \<noteq> None \<Longrightarrow> mc_op mc' = mc_op mc"
    and invoke_keeps_svc: "invoke E mc = Some (Inr (st, mc')) \<Longrightarrow> mc_svc mc \<noteq> None \<Longrightarrow> mc_svc mc' = mc_svc mc"
    and invoke_finds_svc: "invoke E mc = Some (Inr (st, mc')) \<Longrightarrow> mc_svc mc = None \<Longrightarrow> search E mc = Some (Inr p) \<Longrightarrow>
      mc_svc mc' = p"
begin

text \<open>A second run of the same dispatcher finds no other service.\<close>

lemma invoke_again:
  assumes "invoke E mc = Some (Inr (st, mc1))" "invoke E mc1 = Some (Inr (st', mc2))" "search E mc = Some (Inr p)"
  shows "mc_svc mc2 = mc_svc mc1"
proof (cases "mc_svc mc1 = None")
  case True
  then have "mc_svc mc = None" using invoke_keeps_svc [OF assms(1)] by (cases "mc_svc mc") simp_all
  then have "p = None" using invoke_finds_svc [OF assms(1) _ assms(3)] True by simp
  moreover have "search E mc1 = Some (Inr p)"
    using search_message [OF invoke_message [OF assms(1)]] assms(3) by simp
  ultimately show ?thesis using invoke_finds_svc [OF assms(2) True] True by simp
next
  case False
  then show ?thesis by (rule invoke_keeps_svc [OF assms(2)])
qed

end

text \<open>What each dispatcher looks for, by its name.\<close>

definition find_svc_of :: "dispatcher \<Rightarrow> disp_env \<Rightarrow> disp_ctx \<Rightarrow> ptr result option" where
  "find_svc_of d E mc = axis2_msg_ctx_find_svc E (mc\<lparr>mc_find_svc := Some d\<rparr>)"

lemma url_svc_message: "same_message mc mc' \<Longrightarrow> url_svc E mc' url = url_svc E mc url"
  unfolding url_svc_def axis2_msg_ctx_get_conf_ctx_def by (simp only: same_message_def)

lemma to_address_message: "same_message mc mc' \<Longrightarrow> to_address mc' = to_address mc"
  by (simp add: to_address_def same_message_def axis2_msg_ctx_get_to_def)

lemma body_first_element_message: "same_message mc mc' \<Longrightarrow> body_first_element E mc' = body_first_element E mc"
  unfolding body_first_element_def axis2_msg_ctx_get_soap_envelope_def by (simp only: same_message_def)

lemma find_svc_of_message:
  assumes "same_message mc mc'"
  shows "find_svc_of d E mc' = find_svc_of d E mc"
proof -
  let ?a = "mc\<lparr>mc_find_svc := Some d\<rparr>" and ?b = "mc'\<lparr>mc_find_svc := Some d\<rparr>"
  have m: "same_message ?a ?b" using assms by (simp add: same_message_def)
  have r: "doing_rest ?b = doing_rest ?a" "mc_find_svc ?b = mc_find_svc ?a" using m by (simp_all add: same_message_def)
  note eqs = url_svc_message [OF m] to_address_message [OF m] body_first_element_message [OF m] r
  show ?thesis
    unfolding find_svc_of_def axis2_msg_ctx_find_svc_def axis2_addr_disp_find_svc_def axis2_req_uri_disp_find_svc_def
      axis2_soap_action_disp_find_svc_def axis2_soap_body_disp_find_svc_def eqs ..
qed

lemma find_svc_of_fields [simp]:
  "axis2_msg_ctx_find_svc E (mc\<lparr>mc_find_svc := Some d, mc_find_op := q\<rparr>) = find_svc_of d E mc"
proof -
  have e: "mc\<lparr>mc_find_svc := Some d, mc_find_op := q\<rparr> = mc\<lparr>mc_find_op := q\<rparr>\<lparr>mc_find_svc := Some d\<rparr>" by simp
  show ?thesis unfolding e find_svc_of_def [symmetric] by (rule find_svc_of_message) simp
qed

lemma set_and_find_returns:
  assumes "set_and_find d E mc = Some (Inr (st, mc'))"
  shows "st = AXIS2_SUCCESS" "same_message mc mc'" "mc_op mc \<noteq> None \<Longrightarrow> mc_op mc' = mc_op mc"
    and "mc_svc mc \<noteq> None \<Longrightarrow> mc_svc mc' = mc_svc mc"
    and "mc_svc mc = None \<Longrightarrow> find_svc_of d E mc = Some (Inr p) \<Longrightarrow> mc_svc mc' = p"
  using assms
  by (auto simp: set_and_find_def axis2_disp_find_svc_and_op_def axis2_msg_ctx_set_find_op_def
      axis2_msg_ctx_set_find_svc_def found_returns Let_def returns_def
      split: if_splits)

interpretation req_uri: dispatching axis2_req_uri_disp_invoke "find_svc_of Req_uri_disp"
  unfolding axis2_req_uri_disp_invoke_def by unfold_locales (blast intro: find_svc_of_message set_and_find_returns)+

interpretation soap_action: dispatching axis2_soap_action_disp_invoke "find_svc_of Soap_action_disp"
  unfolding axis2_soap_action_disp_invoke_def by unfold_locales (blast intro: find_svc_of_message set_and_find_returns)+

interpretation soap_body: dispatching axis2_soap_body_disp_invoke "find_svc_of Soap_body_disp"
  unfolding axis2_soap_body_disp_invoke_def by unfold_locales (blast intro: find_svc_of_message set_and_find_returns)+

section \<open>Dispatchers in sequence\<close>

text \<open>The operation a dispatcher finds in a service, by the dispatcher's name.\<close>

definition find_op_of :: "dispatcher \<Rightarrow> disp_env \<Rightarrow> disp_ctx \<Rightarrow> ptr \<Rightarrow> ptr result option" where
  "find_op_of d E mc svc = axis2_msg_ctx_find_op E (mc\<lparr>mc_find_op := Some d\<rparr>) svc"

lemma find_op_of_message:
  assumes "same_message mc mc'"
  shows "find_op_of d E mc' svc = find_op_of d E mc svc"
proof -
  let ?a = "mc\<lparr>mc_find_op := Some d\<rparr>" and ?b = "mc'\<lparr>mc_find_op := Some d\<rparr>"
  have m: "same_message ?a ?b" using assms by (simp add: same_message_def)
  have r: "doing_rest ?b = doing_rest ?a" "mc_find_op ?b = mc_find_op ?a" "mc_soap_action ?b = mc_soap_action ?a"
    "axis2_msg_ctx_get_wsa_action ?b = axis2_msg_ctx_get_wsa_action ?a"
    using m by (simp_all add: same_message_def axis2_msg_ctx_get_wsa_action_def)
  note eqs = to_address_message [OF m] body_first_element_message [OF m] r
  show ?thesis
    unfolding find_op_of_def axis2_msg_ctx_find_op_def axis2_addr_disp_find_op_def axis2_req_uri_disp_find_op_def
      axis2_soap_action_disp_find_op_def axis2_soap_body_disp_find_op_def eqs ..
qed

lemma find_op_of_fields:
  assumes "mc_find_op mc' = Some d" "same_message mc mc'"
  shows "axis2_msg_ctx_find_op E mc' svc = find_op_of d E mc svc"
proof -
  have "mc'\<lparr>mc_find_op := Some d\<rparr> = mc'" using assms(1) by (cases mc') simp
  then have "find_op_of d E mc' svc = axis2_msg_ctx_find_op E mc' svc" by (simp add: find_op_of_def)
  then show ?thesis using find_op_of_message [OF assms(2)] by simp
qed

lemma find_op_of_None [simp]: "find_op_of d E mc None = Some (Inl INVALID_NULL_PARAM)"
  by (cases d) (simp_all add: find_op_of_def axis2_msg_ctx_find_op_def axis2_addr_disp_find_op_def
      axis2_req_uri_disp_find_op_def axis2_soap_action_disp_find_op_def axis2_soap_body_disp_find_op_def)

text \<open>The functions behind the dispatchers, and the handlers of the engine that call them.\<close>

definition disp_invoke :: "disp_env \<Rightarrow> dispatcher \<Rightarrow> disp_ctx \<Rightarrow> disp_ctx run" where
  "disp_invoke E d =
     (case d of
        Addr_disp \<Rightarrow> axis2_addr_disp_invoke E
      | Req_uri_disp \<Rightarrow> axis2_req_uri_disp_invoke E
      | Soap_action_disp \<Rightarrow> axis2_soap_action_disp_invoke E
      | Soap_body_disp \<Rightarrow> axis2_soap_body_disp_invoke E)"

definition runs_dispatcher :: "disp_ctx engine_env \<Rightarrow> disp_env \<Rightarrow> nat \<Rightarrow> dispatcher \<Rightarrow> bool" where
  "runs_dispatcher EE E h d \<longleftrightarrow>
     (\<forall>mc st mc'. disp_invoke E d mc = returns st mc' \<longrightarrow> handler_invoke EE h mc = (st, mc'))"

text \<open>
  The specification: with \<open>S d\<close> the service dispatcher \<open>d\<close> finds for the message and \<open>F d s\<close> the operation it
  finds in the service \<open>s\<close>, each dispatcher supplies what is still missing.
\<close>

fun dispatch_spec ::
    "(dispatcher \<Rightarrow> ptr) \<Rightarrow> (dispatcher \<Rightarrow> nat \<Rightarrow> 'op option) \<Rightarrow> dispatcher list \<Rightarrow> ptr \<times> 'op option \<Rightarrow> ptr \<times> 'op option" where
  "dispatch_spec S F [] so = so"
| "dispatch_spec S F (d # ds) (s, op) =
     (let s' = (if s = None then S d else s)
      in dispatch_spec S F ds (s', if op = None then Option.bind s' (F d) else op))"

lemma related_op_ctx_message: "same_message mc mc' \<Longrightarrow> related_op_ctx E mc' = related_op_ctx E mc"
  unfolding related_op_ctx_def axis2_msg_ctx_get_conf_ctx_def axis2_msg_ctx_get_msg_id_def by (simp only: same_message_def)

lemma disp_invoke_unrelated:
  "related_op_ctx E mc = Some (Inr None) \<Longrightarrow> disp_invoke E d mc = set_and_find d E mc"
  by (cases d) (simp_all add: disp_invoke_def axis2_addr_disp_invoke_def axis2_req_uri_disp_invoke_def
      axis2_soap_action_disp_invoke_def axis2_soap_body_disp_invoke_def)

lemma set_and_find_spec:
  assumes "find_svc_of d E mc = Some (Inr (S d))" "\<forall>s. find_op_of d E mc (Some s) = Some (Inr (F d s))"
  shows "\<exists>mc'. set_and_find d E mc = returns AXIS2_SUCCESS mc' \<and> same_message mc mc' \<and>
    (mc_svc mc', mc_op mc') =
      dispatch_spec S (\<lambda>d s. op_at (de_world E) (F d s)) [d] (mc_svc mc, mc_op mc)"
proof -
  let ?mc = "mc\<lparr>mc_find_svc := Some d, mc_find_op := Some d\<rparr>"
  let ?s = "if mc_svc mc = None then S d else mc_svc mc"
  let ?mc1 = "if mc_svc mc = None then axis2_msg_ctx_set_svc (de_world E) ?mc (S d) else ?mc"
  have m: "same_message mc ?mc1" "mc_find_op ?mc1 = Some d" "mc_svc ?mc1 = ?s" "mc_op ?mc1 = mc_op mc" by simp_all
  have op: "axis2_msg_ctx_find_op E ?mc1 ?s = find_op_of d E mc ?s"
    by (rule find_op_of_fields [OF m(2,1)])
  have "set_and_find d E mc =
      (if mc_op mc \<noteq> None then returns AXIS2_SUCCESS ?mc1
       else found (find_op_of d E mc ?s)
         (\<lambda>p. returns AXIS2_SUCCESS (axis2_msg_ctx_set_op ?mc1 (op_at (de_world E) p))))"
    using op assms(1) m(4) by (auto simp: set_and_find_def axis2_disp_find_svc_and_op_def
        axis2_msg_ctx_set_find_op_def axis2_msg_ctx_set_find_svc_def Let_def)
  then show ?thesis using m assms(2) by (cases ?s) (auto simp: op_at_def)
qed

lemma dispatcher_steps_spec:
  assumes "list_all2 (runs_dispatcher EE E) hs ds" "\<not> paused mc" "related_op_ctx E mc = Some (Inr None)"
    and "\<forall>d \<in> set ds. find_svc_of d E mc = Some (Inr (S d))"
    and "\<forall>d \<in> set ds. \<forall>s. find_op_of d E mc (Some s) = Some (Inr (F d s))"
  shows "\<exists>mc'. run_steps EE (list_steps i hs) mc = (AXIS2_SUCCESS, mc') \<and> same_message mc mc' \<and>
    (mc_svc mc', mc_op mc') = dispatch_spec S (\<lambda>d s. op_at (de_world E) (F d s)) ds (mc_svc mc, mc_op mc)"
  using assms
proof (induction hs ds arbitrary: mc i rule: list_all2_induct)
  case (Cons h hs d ds)
  obtain mc1 where mc1: "set_and_find d E mc = returns AXIS2_SUCCESS mc1" "same_message mc mc1"
    "(mc_svc mc1, mc_op mc1) = dispatch_spec S (\<lambda>d s. op_at (de_world E) (F d s)) [d] (mc_svc mc, mc_op mc)"
    using set_and_find_spec [of d E mc S F] Cons.prems(3,4) by auto
  let ?mc2 = "axis2_msg_ctx_set_current_handler_index (hstore EE) mc1 (i + 1)"
  have m: "same_message mc ?mc2" using mc1(2) by simp
  have h: "handler_invoke EE h mc = (AXIS2_SUCCESS, mc1)"
    using Cons.hyps(1) disp_invoke_unrelated [OF Cons.prems(2)] mc1(1) by (simp add: runs_dispatcher_def)
  have np: "\<not> paused ?mc2" using m Cons.prems(1) by (simp add: same_message_def)
  have r: "related_op_ctx E ?mc2 = Some (Inr None)" using related_op_ctx_message [OF m] Cons.prems(2) by simp
  have f: "\<forall>d \<in> set ds. find_svc_of d E ?mc2 = Some (Inr (S d))"
    "\<forall>d \<in> set ds. \<forall>s. find_op_of d E ?mc2 (Some s) = Some (Inr (F d s))"
    using Cons.prems(3,4) find_svc_of_message [OF m] find_op_of_message [OF m] by simp_all
  obtain mc' where mc': "run_steps EE (list_steps (i + 1) hs) ?mc2 = (AXIS2_SUCCESS, mc')" "same_message ?mc2 mc'"
    "(mc_svc mc', mc_op mc') = dispatch_spec S (\<lambda>d s. op_at (de_world E) (F d s)) ds (mc_svc mc1, mc_op mc1)"
    using Cons.IH [OF np r f] by auto
  have "run_steps EE (list_steps i (h # hs)) mc = (AXIS2_SUCCESS, mc')"
    using Cons.prems(1) h mc'(1) by (simp add: do_step_def)
  moreover have "(mc_svc mc', mc_op mc') =
      dispatch_spec S (\<lambda>d s. op_at (de_world E) (F d s)) (d # ds) (mc_svc mc, mc_op mc)"
    using mc'(3) mc1(3) by (simp add: Let_def)
  ultimately show ?case using same_message_trans [OF m mc'(2)] by blast
qed simp

section \<open>Dispatching by the request URL\<close>

text \<open>The configuration is there and knows its services, each with its tables of operations.\<close>

definition services_ok :: "disp_env \<Rightarrow> disp_ctx \<Rightarrow> nat axutil_hash \<Rightarrow> bool" where
  "services_ok E mc ht \<longleftrightarrow>
     mem_ok (de_malloc E) \<and> (\<exists>cc c. conf_ctx mc = Some cc \<and> cc_conf cc = Some c) \<and>
     conf_all_svcs (w_conf (de_world E)) = Some ht \<and> hash_inv ht \<and>
     (\<forall>a. svc_ok (w_svc (de_world E) a))"

text \<open>A request URL: the prefix of the services for the first time, a service and an operation, and perhaps a query.\<close>

definition request_url :: "string \<Rightarrow> string \<Rightarrow> string \<Rightarrow> string \<Rightarrow> bool" where
  "request_url url pre svc op \<longleftrightarrow>
     strstr (pre @ axis2_request_url_prefix) axis2_request_url_prefix = Some (length pre) \<and>
     CHR ''/'' \<notin> set svc \<and> CHR ''?'' \<notin> set op \<and> name_ok svc \<and> name_ok op \<and>
     (url = pre @ axis2_request_url_prefix @ ''/'' @ svc @ ''/'' @ op \<or>
      (\<exists>query. url = pre @ axis2_request_url_prefix @ ''/'' @ svc @ ''/'' @ op @ ''?'' @ query))"

lemma parse_request_url:
  assumes "mem_ok malloc" "request_url url pre svc op"
  shows "axutil_parse_request_url_for_svc_and_op malloc url = Inr (Some svc, Some op)"
  using assms parse_request_url_spec [of malloc pre svc op] by (auto simp: request_url_def)

lemma url_svc_spec:
  assumes "services_ok E mc ht" "request_url url pre svc op"
  shows "url_svc E mc url = Inr (hash_abs ht svc)"
  using assms parse_request_url [of "de_malloc E" url pre svc op]
  by (auto simp: url_svc_def services_ok_def axis2_msg_ctx_get_conf_ctx_def axis2_conf_ctx_get_conf_def
      axis2_conf_get_svc_def hash_get_name request_url_def)

lemma req_uri_find_op:
  assumes "services_ok E mc ht" "request_url url pre svc op" "to_address mc = Some url" "\<not> doing_rest mc"
  shows "find_op_of Req_uri_disp E mc (Some s) = Some (Inr (hash_abs (op_alias_map (w_svc (de_world E) s)) op))"
proof -
  have m: "mem_ok (de_malloc E)" using assms(1) by (simp add: services_ok_def)
  have q: "axutil_qname_create (de_malloc E) (Some op) None None =
      Inr \<lparr>localpart = op, namespace_uri = None, prefix = None, qname_string = None, qname_ref = 1\<rparr>"
    using m by (simp add: axutil_qname_create_def axutil_strdup_def mem_okD)
  have "to_address (mc\<lparr>mc_find_op := Some Req_uri_disp\<rparr>) = Some url"
    using to_address_message [of mc "mc\<lparr>mc_find_op := Some Req_uri_disp\<rparr>"] assms(3) by simp
  then show ?thesis
    using assms parse_request_url [OF m assms(2)] q
    by (simp add: find_op_of_def axis2_msg_ctx_find_op_def axis2_req_uri_disp_find_op_def axis2_svc_get_op_with_name_def
        hash_get_name svc_ok_def request_url_def services_ok_def)
qed

lemma req_uri_find_svc:
  assumes "services_ok E mc ht" "request_url url pre svc op" "to_address mc = Some url" "\<not> doing_rest mc"
  shows "find_svc_of Req_uri_disp E mc = Some (Inr (hash_abs ht svc))"
proof -
  let ?mc = "mc\<lparr>mc_find_svc := Some Req_uri_disp\<rparr>"
  have "to_address ?mc = Some url" "url_svc E ?mc url = Inr (hash_abs ht svc)"
    using to_address_message [of mc ?mc] url_svc_message [of mc ?mc E url] url_svc_spec [OF assms(1,2)] assms(3)
    by simp_all
  then show ?thesis
    using assms(4) by (simp add: find_svc_of_def axis2_msg_ctx_find_svc_def axis2_req_uri_disp_find_svc_def)
qed

text \<open>A context in which both are there passes the checker unchanged.\<close>

lemma checker_passes:
  assumes "mc_svc mc \<noteq> None" "mc_op mc \<noteq> None"
  shows "axis2_disp_checker_invoke E (Some mc) = returns AXIS2_SUCCESS mc"
  using assms by (cases "mc_svc mc"; cases "mc_op mc") (simp_all add: axis2_disp_checker_invoke_def Let_def)

section \<open>The checker\<close>

text \<open>The service and the operation the checker finds: those of the message, or those of its contexts.\<close>

definition known_svc :: "disp_ctx \<Rightarrow> ptr" where
  "known_svc mc = (if mc_svc mc = None then Option.bind (svc_ctx mc) sc_svc else mc_svc mc)"

definition known_op :: "disp_ctx \<Rightarrow> axis2_op option" where
  "known_op mc = (if mc_op mc = None then Option.bind (op_ctx mc) oc_op else mc_op mc)"

text \<open>What the checker reports, when it fails.\<close>

definition missing :: "disp_ctx \<Rightarrow> string" where
  "missing mc = (if known_svc mc = None then ''Service Not Found'' else ''Operation Not Found'')"

lemma checker_cases:
  assumes "server_side mc" "exception_text E (missing mc) (to_address mc) (axis2_msg_ctx_get_wsa_action mc) = Inr text"
  shows "\<exists>mc'. mc_svc mc' = known_svc mc \<and> mc_op mc' = known_op mc \<and> is_soap_11 mc' = is_soap_11 mc \<and>
    msg_info_headers mc' = msg_info_headers mc \<and>
    axis2_disp_checker_invoke E (Some mc) =
      (if known_svc mc = None \<or> known_op mc = None then not_found E (missing mc) mc' else returns AXIS2_SUCCESS mc')"
proof -
  let ?mc1 = "if mc_op mc = None
     then axis2_msg_ctx_set_op mc (Option.bind (axis2_msg_ctx_get_op_ctx mc) axis2_op_ctx_get_op) else mc"
  let ?mc2 = "if mc_svc ?mc1 = None
     then axis2_msg_ctx_set_svc (de_world E) ?mc1 (Option.bind (svc_ctx ?mc1) sc_svc) else ?mc1"
  have c: "axis2_op_ctx_get_op = oc_op" by (simp add: fun_eq_iff axis2_op_ctx_get_op_def)
  have "mc_svc ?mc2 = known_svc mc" "mc_op ?mc2 = known_op mc" "is_soap_11 ?mc2 = is_soap_11 mc"
    "msg_info_headers ?mc2 = msg_info_headers mc"
    by (auto simp: known_svc_def known_op_def c axis2_msg_ctx_get_op_ctx_def)
  moreover have "axis2_disp_checker_invoke E (Some mc) =
      (if mc_svc ?mc2 = None then not_found E ''Service Not Found'' ?mc2
       else if mc_op ?mc2 = None then not_found E ''Operation Not Found'' ?mc2 else returns AXIS2_SUCCESS ?mc2)"
    using assms(1) by (simp only: axis2_disp_checker_invoke_def axis2_msg_ctx_get_server_side_def Let_def option.case if_False not_True_eq_False)
  ultimately show ?thesis by (intro exI [of _ ?mc2]) (simp add: missing_def)
qed

text \<open>
  C11 (error). On the server side the checker returns: it fails exactly when, after the operation context and the
  service context were consulted, the service or the operation is still unknown, and then the fault envelope names what
  is missing, with the fault code of the message's SOAP version; otherwise it succeeds and both are set. This needs the
  text of the fault to fit the buffer of 1024 bytes it is written to.
\<close>

theorem disp_checker_spec:
  assumes "server_side mc" "exception_text E (missing mc) (to_address mc) (axis2_msg_ctx_get_wsa_action mc) = Inr text"
  shows "\<exists>st mc'. axis2_disp_checker_invoke E (Some mc) = returns st mc' \<and>
    (st = AXIS2_SUCCESS \<longleftrightarrow> known_svc mc \<noteq> None \<and> known_op mc \<noteq> None) \<and>
    mc_svc mc' = known_svc mc \<and> mc_op mc' = known_op mc \<and>
    (st = AXIS2_FAILURE \<longrightarrow> fault_soap_envelope mc' =
       (if is_soap_11 mc then de_fault_envelope E ''soapenv:Server'' (missing mc) AXIOM_SOAP11 text
        else de_fault_envelope E ''soapenv:Receiver'' (missing mc) AXIOM_SOAP12 text))"
proof -
  obtain mc1 where mc1: "mc_svc mc1 = known_svc mc" "mc_op mc1 = known_op mc" "is_soap_11 mc1 = is_soap_11 mc"
    "msg_info_headers mc1 = msg_info_headers mc"
    "axis2_disp_checker_invoke E (Some mc) =
      (if known_svc mc = None \<or> known_op mc = None then not_found E (missing mc) mc1 else returns AXIS2_SUCCESS mc1)"
    using checker_cases [OF assms] by blast
  have "to_address mc1 = to_address mc" "axis2_msg_ctx_get_wsa_action mc1 = axis2_msg_ctx_get_wsa_action mc"
    using mc1(4) by (simp_all add: to_address_def axis2_msg_ctx_get_to_def axis2_msg_ctx_get_wsa_action_def)
  then show ?thesis
    using mc1 assms(2)
    by (auto simp: not_found_def Let_def axis2_msg_ctx_get_is_soap_11_def axis2_msg_ctx_set_fault_soap_envelope_def
        AXIOM_SOAP_DEFAULT_NAMESPACE_PREFIX_def AXIOM_SOAP11_FAULT_CODE_RECEIVER_def
        AXIOM_SOAP12_SOAP_FAULT_VALUE_RECEIVER_def)
qed

section \<open>An example\<close>

text \<open>One service at address 5 with one operation at address 7.\<close>

definition example_op_desc :: op_desc where
  "example_op_desc = \<lparr>op_qname = ''hello'', op_base = None, op_msg_recv = Some 1, op_parent = Some 5,
     op_engaged_module_list = None, op_wsamapping_list = [], op_from_module = False, op_params = []\<rparr>"

definition empty_list :: "'a array_list" where
  "empty_list = \<lparr>al_size = 0, al_capacity = 0, al_data = []\<rparr>"

definition example_world :: "nat axutil_hash \<Rightarrow> nat axutil_hash \<Rightarrow> world" where
  "example_world svcs ops =
     \<lparr>w_op = (\<lambda>_. example_op_desc),
      w_svc = (\<lambda>_. \<lparr>op_alias_map = ops, op_action_map = ops, svc_engaged_module_list = empty_list,
        svc_module_list = empty_list, svc_parent = None\<rparr>),
      w_grp = (\<lambda>_. \<lparr>grp_module_qname_list = empty_list\<rparr>),
      w_module = (\<lambda>_. \<lparr>md_qname = \<lparr>localpart = ''m'', namespace_uri = None, prefix = None, qname_string = None, qname_ref = 1\<rparr>,
        md_in_flow = None, md_out_flow = None, md_fault_in_flow = None, md_fault_out_flow = None, md_ops = ops\<rparr>),
      w_conf = \<lparr>conf_in_phases = None, conf_out_phases = None, conf_out_fault_phases = None, conf_in_fault_phases = None,
        conf_engaged_module_list = empty_list, conf_all_modules = ops, conf_name_to_version_map = None,
        conf_all_svcs = Some svcs\<rparr>\<rparr>"

definition example_disp_env :: "nat axutil_hash \<Rightarrow> nat axutil_hash \<Rightarrow> disp_env" where
  "example_disp_env svcs ops =
     \<lparr>de_malloc = (\<lambda>n. True), de_world = example_world svcs ops, de_op_ctx_map = None, de_store = \<lparr>os_nodes = (\<lambda>_. None),
        os_elements = (\<lambda>_. \<lparr>elt_ns = None, elt_localname = None, elt_attributes = None, elt_namespaces = None,
          elt_qname = None, elt_next_ns_prefix_number = 0, elt_is_empty = False\<rparr>),
        os_namespaces = (\<lambda>_. \<lparr>ns_uri = None, ns_prefix = None, ns_ref = 0\<rparr>),
        os_attributes = (\<lambda>_. \<lparr>at_localname = None, at_value = None, at_ns = None, at_qname = None, at_ref = 0\<rparr>),
        os_texts = (\<lambda>_. \<lparr>tx_value = None\<rparr>), os_released = []\<rparr>,
      de_fault_envelope = (\<lambda>code reason v text. Some \<lparr>env_version = v, env_header = None\<rparr>),
      de_null_text = Some ''(null)''\<rparr>"

definition example_disp_ctx :: "string \<Rightarrow> disp_ctx" where
  "example_disp_ctx url = \<lparr>mc_base = \<lparr>property_map = None\<rparr>, mc_parent = None, process_fault = False,
     msg_info_headers = Some \<lparr>mih_to = Some \<lparr>epr_address = Some url\<rparr>, mih_from = None, mih_reply_to = None,
       mih_fault_to = None, mih_action = None, mih_message_id = None, mih_relates_to = None\<rparr>,
     op_ctx = None, svc_ctx = None, svc_grp_ctx = None,
     conf_ctx = Some \<lparr>cc_base = None, cc_conf = Some \<lparr>conf_in_phases = None, conf_out_phases = None,
       conf_out_fault_phases = None\<rparr>\<rparr>, mc_op = None,
     mc_op_qname = None, transport_in_desc = None, transport_out_desc = None, soap_envelope_of = None,
     fault_soap_envelope = None, server_side = True, paused = False, paused_phase_name = None,
     paused_handler_name = None, doing_rest = False, is_soap_11 = False, execution_chain = None,
     current_handler_index = -1, paused_handler_index = -1, current_phase_index = 0,
     paused_phase_index = 0, transport_out_stream = None, out_transport_info = None,
     mc_svc = None, mc_svc_grp = None, mc_svc_grp_ctx_id = None, mc_soap_action = None, mc_body_node = None,
     mc_find_svc = None, mc_find_op = None\<rparr>"

definition example_url :: string where
  "example_url = ''http://host/axis2/services/echo/hello?a=1''"

lemmas disp_example_defs = example_world_def example_disp_env_def example_disp_ctx_def

lemma example_tables:
  "\<exists>ht :: nat axutil_hash. hash_inv ht \<and> hash_abs ht = [''echo'' \<mapsto> 5]"
  "\<exists>ht :: nat axutil_hash. hash_inv ht \<and> hash_abs ht = [''hello'' \<mapsto> 7]"
  using hash_built [of "[((''echo'', AXIS2_HASH_KEY_STRING), Some (5 :: nat))]"]
    hash_built [of "[((''hello'', AXIS2_HASH_KEY_STRING), Some (7 :: nat))]"]
  by (auto simp: valid_key_def norm_key_def AXIS2_HASH_KEY_STRING_def c_string_def)

lemma example_request_url: "request_url example_url ''http://host/axis2/'' ''echo'' ''hello''"
  by (auto simp: request_url_def example_url_def axis2_request_url_prefix_def name_ok_def NUL_def)

lemma example_services:
  assumes "hash_inv svcs" "hash_inv ops"
  shows "services_ok (example_disp_env svcs ops) (example_disp_ctx url) svcs"
  using assms by (simp add: services_ok_def disp_example_defs svc_ok_def)

section \<open>Properties\<close>



theorem disp_checker_spec_witness:
  "\<exists>ht mc'. axis2_disp_checker_invoke (example_disp_env ht ht) (Some (example_disp_ctx ''/x'')) =
     returns AXIS2_FAILURE mc' \<and> fault_soap_envelope mc' = Some \<lparr>env_version = AXIOM_SOAP12, env_header = None\<rparr>"
proof -
  fix ht :: "nat axutil_hash"
  let ?E = "example_disp_env ht ht" and ?mc = "example_disp_ctx ''/x''"
  have k: "known_svc ?mc = None" by (simp add: known_svc_def disp_example_defs)
  then have m: "missing ?mc = ''Service Not Found''" by (simp add: missing_def)
  have s: "server_side ?mc" by (simp add: disp_example_defs)
  have "\<exists>text. exception_text ?E (missing ?mc) (to_address ?mc) (axis2_msg_ctx_get_wsa_action ?mc) = Inr text"
    unfolding m by (simp add: exception_text_def percent_s_def disp_example_defs to_address_def
        axis2_msg_ctx_get_to_def axis2_msg_ctx_get_wsa_action_def Let_def)
  then obtain exc where "exception_text ?E (missing ?mc) (to_address ?mc) (axis2_msg_ctx_get_wsa_action ?mc) = Inr exc" ..
  from disp_checker_spec [OF s this] k obtain st mc' where r: "axis2_disp_checker_invoke ?E (Some ?mc) = returns st mc'"
    "st \<noteq> AXIS2_SUCCESS" "st = AXIS2_FAILURE \<longrightarrow> fault_soap_envelope mc' =
       (if is_soap_11 ?mc then de_fault_envelope ?E ''soapenv:Server'' (missing ?mc) AXIOM_SOAP11 exc
        else de_fault_envelope ?E ''soapenv:Receiver'' (missing ?mc) AXIOM_SOAP12 exc)" by blast
  then have "st = AXIS2_FAILURE" by (cases st) simp_all
  then show ?thesis using r by (auto simp: disp_example_defs)
qed

text \<open>
  C5 (refinement). A phase without a first and a last handler whose handlers are dispatchers, in any order and number, applied by
  \<^verbatim>\<open>axis2_phase_invoke\<close> to a message that is not paused: the phase succeeds, and the service and the operation of the message are
  then those of the specification, in which each dispatcher, in the order of the phase, supplies the service if none was found
  before it and the operation if there is a service and no operation yet; neither is replaced once found. This is stated for
  messages that relate to no other message, or to one for which no operation context is registered (for the others the
  addressing dispatcher takes service and operation from that context), and for searches that return.
\<close>

theorem dispatchers_refine_spec:
  assumes "no_null_handler ph" "first_handler ph = None" "last_handler ph = None"
    and "list_all2 (runs_dispatcher EE E) (handler_list ph) ds"
    and "\<not> paused mc" and "related_op_ctx E mc = Some (Inr None)"
    and "\<forall>d \<in> set ds. find_svc_of d E mc = Some (Inr (S d))"
    and "\<forall>d \<in> set ds. \<forall>s. find_op_of d E mc (Some s) = Some (Inr (F d s))"
  shows "\<exists>mc'. axis2_phase_invoke EE ph mc = returns AXIS2_SUCCESS mc' \<and>
    (mc_svc mc', mc_op mc') = dispatch_spec S (\<lambda>d s. op_at (de_world E) (F d s)) ds (mc_svc mc, mc_op mc)"
proof -
  let ?mc = "axis2_msg_ctx_set_paused_phase_name mc (phase_name ph)"
  have m: "same_message mc ?mc" by simp
  have "\<not> paused ?mc" "related_op_ctx E ?mc = Some (Inr None)" "\<forall>d \<in> set ds. find_svc_of d E ?mc = Some (Inr (S d))"
    "\<forall>d \<in> set ds. \<forall>s. find_op_of d E ?mc (Some s) = Some (Inr (F d s))"
    using m assms(5-8) related_op_ctx_message [OF m] find_svc_of_message [OF m] find_op_of_message [OF m]
    by (simp_all add: same_message_def)
  from dispatcher_steps_spec [OF assms(4) this, of 0] obtain mc' where
    "run_steps EE (list_steps 0 (handler_list ph)) ?mc = (AXIS2_SUCCESS, mc')"
    "(mc_svc mc', mc_op mc') = dispatch_spec S (\<lambda>d s. op_at (de_world E) (F d s)) ds (mc_svc mc, mc_op mc)"
    by (auto simp: axis2_msg_ctx_set_paused_phase_name_def)
  then show ?thesis
    using phase_invoke_spec [OF assms(1,5), of EE] assms(2,3,5)
    by (simp add: phase_steps_def edge_steps_def do_step_def returns_def)
qed

text \<open>An engine whose handlers 1 and 2 are the dispatchers by SOAP action and by request URL.\<close>

definition example_engine_env :: "disp_env \<Rightarrow> disp_ctx engine_env" where
  "example_engine_env E =
     \<lparr>hstore = \<lparr>handler_at = (\<lambda>h. \<lparr>handler_desc = None\<rparr>),
        desc_at = (\<lambda>d. \<lparr>desc_name = None, desc_rules = None, desc_handler = None, desc_class_name = None\<rparr>)\<rparr>,
      handler_invoke = (\<lambda>h mc. case disp_invoke E (if h = 1 then Soap_action_disp else Req_uri_disp) mc of
        Some (Inr r) \<Rightarrow> r | _ \<Rightarrow> (AXIS2_FAILURE, mc)),
      sender_invoke = (\<lambda>_ mc. (AXIS2_SUCCESS, mc)), msg_recv_receive = (\<lambda>_ mc. (AXIS2_SUCCESS, mc)),
      default_fault_envelope = (\<lambda>_ _ _. None), uuid_gen = None, mem = (\<lambda>_. True)\<rparr>"

lemma example_engine_dispatchers:
  "list_all2 (runs_dispatcher (example_engine_env E) E) [1, 2] [Soap_action_disp, Req_uri_disp]"
  by (simp add: runs_dispatcher_def example_engine_env_def returns_def)

lemma plain_phase_dispatch:
  "no_null_handler (plain_phase n hs)" "handler_list (plain_phase n hs) = hs"
  "first_handler (plain_phase n hs) = None" "last_handler (plain_phase n hs) = None"
  by (auto simp: plain_phase_def no_null_handler_def handler_list_def comp_def)

theorem dispatchers_refine_spec_witness:
  "\<exists>svcs ops mc'. hash_abs svcs = [''echo'' \<mapsto> 5] \<and> hash_abs ops = [''hello'' \<mapsto> 7] \<and>
    axis2_phase_invoke (example_engine_env (example_disp_env svcs ops)) (plain_phase ''Dispatch'' [1, 2])
      (example_disp_ctx example_url) = returns AXIS2_SUCCESS mc' \<and>
    mc_svc mc' = Some 5 \<and> mc_op mc' = Some (axis2_op.truncate example_op_desc)"
proof -
  obtain svcs ops :: "nat axutil_hash" where t: "hash_inv svcs" "hash_abs svcs = [''echo'' \<mapsto> 5]"
    "hash_inv ops" "hash_abs ops = [''hello'' \<mapsto> 7]" using example_tables by blast
  let ?E = "example_disp_env svcs ops" and ?mc = "example_disp_ctx example_url"
  let ?S = "\<lambda>d. case d of Req_uri_disp \<Rightarrow> Some 5 | _ \<Rightarrow> None"
    and ?F = "\<lambda>d (s :: nat). if d = Req_uri_disp then Some (7 :: nat) else None"
  have u: "to_address ?mc = Some example_url" "\<not> doing_rest ?mc"
    by (simp_all add: disp_example_defs to_address_def axis2_msg_ctx_get_to_def)
  note ok = example_services [OF t(1,3), of example_url] example_request_url
  have uri: "find_svc_of Req_uri_disp ?E ?mc = Some (Inr (Some 5))" "\<And>s. find_op_of Req_uri_disp ?E ?mc (Some s) = Some (Inr (Some 7))"
    using req_uri_find_svc [OF ok u] req_uri_find_op [OF ok u] t by (simp_all add: disp_example_defs)
  have act: "find_svc_of Soap_action_disp ?E ?mc = Some (Inr None)" "\<And>s. find_op_of Soap_action_disp ?E ?mc (Some s) = Some (Inr None)"
    by (simp_all add: find_svc_of_def axis2_msg_ctx_find_svc_def axis2_soap_action_disp_find_svc_def find_op_of_def
        axis2_msg_ctx_find_op_def axis2_soap_action_disp_find_op_def disp_example_defs)
  have "related_op_ctx ?E ?mc = Some (Inr None)" "\<not> paused ?mc" by (simp_all add: disp_example_defs related_op_ctx_def)
  moreover have "\<forall>d \<in> set [Soap_action_disp, Req_uri_disp]. find_svc_of d ?E ?mc = Some (Inr (?S d))"
    "\<forall>d \<in> set [Soap_action_disp, Req_uri_disp]. \<forall>s. find_op_of d ?E ?mc (Some s) = Some (Inr (?F d s))"
    using uri act by simp_all
  ultimately obtain mc' where "axis2_phase_invoke (example_engine_env ?E) (plain_phase ''Dispatch'' [1, 2]) ?mc = returns AXIS2_SUCCESS mc'"
    "(mc_svc mc', mc_op mc') = dispatch_spec ?S (\<lambda>d s. op_at (de_world ?E) (?F d s)) [Soap_action_disp, Req_uri_disp] (mc_svc ?mc, mc_op ?mc)"
    using dispatchers_refine_spec [OF plain_phase_dispatch(1,3,4) [of "''Dispatch''" "[1, 2]"], of "example_engine_env ?E" ?E
        "[Soap_action_disp, Req_uri_disp]" ?mc ?S ?F] example_engine_dispatchers [of ?E]
    by (auto simp: plain_phase_dispatch(2))
  then show ?thesis using t(2,4) by (auto simp: op_at_def disp_example_defs)
qed

end
