(* ===== verification/Om_Scope.thy ===== *)
theory Om_Scope
  imports Om_Element
begin

text \<open>
  The scope of namespace declarations: the searches of \<^verbatim>\<open>om_element.c\<close> find the innermost declaration of a prefix
  among an element and the elements around it, and a namespace that is declared at an element, or set as its
  namespace, is found from there.
\<close>

section \<open>The elements around a node\<close>

text \<open>The elements from a node outwards, while the parent is an element.\<close>

inductive scope :: "om_heap \<Rightarrow> nat \<Rightarrow> nat list \<Rightarrow> bool" where
  outermost: "h p = Some n \<Longrightarrow> n_type n = AXIOM_ELEMENT \<Longrightarrow> n_data n = Some e \<Longrightarrow>
    parent_element h p = Inr None \<Longrightarrow> scope h p [e]"
| inner: "h p = Some n \<Longrightarrow> n_type n = AXIOM_ELEMENT \<Longrightarrow> n_data n = Some e \<Longrightarrow>
    parent_element h p = Inr (Some (e', q)) \<Longrightarrow> scope h q (e' # es) \<Longrightarrow> scope h p (e # e' # es)"

inductive_cases scope_singleE: "scope h p [e]"
inductive_cases scope_consE: "scope h p (e # e' # es)"
inductive_cases scope_nilE: "scope h p []"

text \<open>The namespaces declared at an element, by prefix, and the innermost declaration of a prefix.\<close>

definition decls :: "om_store \<Rightarrow> nat \<Rightarrow> string \<Rightarrow> ptr" where
  "decls S e = (case elt_namespaces (os_elements S e) of None \<Rightarrow> Map.empty | Some ht \<Rightarrow> hash_abs ht)"

fun declared :: "om_store \<Rightarrow> nat list \<Rightarrow> string \<Rightarrow> ptr" where
  "declared S [] p = None"
| "declared S (e # es) p = (case decls S e p of Some n \<Rightarrow> Some n | None \<Rightarrow> declared S es p)"

definition tables_ok :: "om_store \<Rightarrow> bool" where
  "tables_ok S \<longleftrightarrow> (\<forall>e ht. elt_namespaces (os_elements S e) = Some ht \<longrightarrow> hash_inv ht)"

definition prefix_ok :: "string \<Rightarrow> bool" where
  "prefix_ok p \<longleftrightarrow> CHR 0x00 \<notin> set p \<and> length p < 2 ^ 32 - 1"

lemma prefix_ok_empty [simp]: "prefix_ok ''''"
  by (simp add: prefix_ok_def)

lemma norm_prefix:
  assumes "prefix_ok p"
  shows "norm_key p AXIS2_HASH_KEY_STRING = p" "valid_key p AXIS2_HASH_KEY_STRING"
proof -
  have "c_string p = p" using assms by (auto simp: prefix_ok_def c_string_def takeWhile_eq_all_conv)
  then show "norm_key p AXIS2_HASH_KEY_STRING = p" "valid_key p AXIS2_HASH_KEY_STRING"
    using assms by (simp_all add: norm_key_def valid_key_def prefix_ok_def)
qed

lemma table_get:
  "hash_inv ht \<Longrightarrow> prefix_ok p \<Longrightarrow> axutil_hash_get malloc (Some ht) p AXIS2_HASH_KEY_STRING = Inr (hash_abs ht p)"
  using hash_get_spec [of ht p AXIS2_HASH_KEY_STRING malloc] norm_prefix [of p] by simp

lemma declared_here_spec:
  assumes "tables_ok S" "prefix_ok p"
  shows "declared_here malloc S e p = Inr (decls S e p)"
  using assms table_get [of _ p malloc] by (auto simp: declared_here_def decls_def tables_ok_def split: option.split)

section \<open>The searches\<close>

lemma default_namespace_spec:
  assumes "scope (os_nodes S) p es" "tables_ok S"
  shows "axiom_element_get_default_namespace malloc S (hd es) p = Some (Inr (declared S es ''''))"
  using assms
proof (induction "os_nodes S" p es rule: scope.induct)
  case (outermost p n e)
  then show ?case
    by (subst axiom_element_get_default_namespace.simps) (simp add: declared_here_spec split: option.split)
next
  case (inner p n e e' q es)
  then show ?case
    by (subst axiom_element_get_default_namespace.simps) (simp add: declared_here_spec split: option.split)
qed

lemma find_namespace_uri_spec:
  assumes "scope (os_nodes S) p es" "tables_ok S" "prefix_ok pre"
  shows "axiom_element_find_namespace_uri malloc S (hd es) pre p = Some (Inr (declared S es pre))"
  using assms
proof (induction "os_nodes S" p es rule: scope.induct)
  case (outermost p n e)
  then show ?case
    by (subst axiom_element_find_namespace_uri.simps) (simp add: declared_here_spec split: option.split)
next
  case (inner p n e e' q es)
  then show ?case
    by (subst axiom_element_find_namespace_uri.simps) (simp add: declared_here_spec split: option.split)
qed

text \<open>A declaration answers a search when no URI is asked for or its URI is the one asked for.\<close>

definition answer :: "om_store \<Rightarrow> string option \<Rightarrow> ptr \<Rightarrow> ptr" where
  "answer S uri d =
     (case d of
        None \<Rightarrow> None
      | Some n \<Rightarrow> if uri = None \<or> ns_uri (os_namespaces S n) = uri then Some n else None)"

lemma strcmp_Some [simp]: "axutil_strcmp p (Some u) = 0 \<longleftrightarrow> p = Some u" "axutil_strcmp (Some u) p = 0 \<longleftrightarrow> p = Some u"
  by (cases p; auto simp: axutil_strcmp_def)+

lemma node_checks:
  assumes "scope h p (e # es)"
  shows "res_bind (axiom_node_get_data_element h (Some p)) (\<lambda>d.
      if d = None then Inl INVALID_NULL_PARAM
      else res_bind (axiom_node_get_node_type h (Some p)) (\<lambda>t.
        if t \<noteq> AXIOM_ELEMENT then Inl INVALID_NULL_PARAM else Inr ())) = Inr ()"
proof -
  obtain n where "h p = Some n" "n_type n = AXIOM_ELEMENT" "n_data n = Some e"
    using assms by (cases rule: scope.cases) auto
  then show ?thesis by (simp add: axiom_node_get_data_element_def axiom_node_get_node_type_def node_at_def)
qed

lemma find_step:
  assumes "scope (os_nodes S) p (e # es)"
  shows "axiom_element_find_namespace malloc S e p uri pre =
    (case search_here malloc S e p uri pre of
       None \<Rightarrow> None
     | Some (Inl err) \<Rightarrow> Some (Inl err)
     | Some (Inr (Some r)) \<Rightarrow> Some (Inr r)
     | Some (Inr None) \<Rightarrow>
         (case parent_element (os_nodes S) p of
            Inl err \<Rightarrow> Some (Inl err)
          | Inr None \<Rightarrow> Some (Inr None)
          | Inr (Some (e', q)) \<Rightarrow> axiom_element_find_namespace malloc S e' q uri pre))"
  by (subst axiom_element_find_namespace.simps) (simp add: node_checks [OF assms])

lemma search_here_prefix:
  assumes "tables_ok S" "prefix_ok pre" "pre \<noteq> ''''"
  shows "search_here malloc S e p uri (Some pre) =
    Some (Inr (map_option (\<lambda>n. answer S uri (Some n)) (decls S e pre)))"
proof (cases "elt_namespaces (os_elements S e)")
  case (Some ht)
  then have "hash_inv ht" using assms(1) by (simp add: tables_ok_def)
  from table_get [OF this assms(2), of malloc] Some assms(3) show ?thesis
    by (cases uri; cases "hash_abs ht pre") (simp_all add: search_here_def decls_def answer_def axiom_namespace_get_uri_def)
qed (simp add: search_here_def decls_def)

lemma find_namespace_prefix:
  assumes "scope (os_nodes S) p es" "tables_ok S" "prefix_ok pre" "pre \<noteq> ''''"
  shows "axiom_element_find_namespace malloc S (hd es) p uri (Some pre) = Some (Inr (answer S uri (declared S es pre)))"
  using assms
proof (induction "os_nodes S" p es rule: scope.induct)
  case (outermost p n e)
  then have "scope (os_nodes S) p [e]" by (auto intro: scope.intros)
  from find_step [OF this, of malloc uri "Some pre"] show ?case
    using outermost by (cases "decls S e pre") (simp_all add: search_here_prefix answer_def)
next
  case (inner p n e e' q es)
  then have "scope (os_nodes S) p (e # e' # es)" by (auto intro: scope.intros)
  from find_step [OF this, of malloc uri "Some pre"] show ?case
    using inner by (cases "decls S e pre") (simp_all add: search_here_prefix)
qed

text \<open>Without a prefix: the loop over a table finds a namespace with the URI, if there is one.\<close>

lemma uri_loop:
  "list_loop (uri_body S u) es r =
     (case find (\<lambda>e. \<exists>n. e_val e = Some n \<and> ns_uri (os_namespaces S n) = Some u) es of None \<Rightarrow> r | Some e \<Rightarrow> e_val e)"
  by (induction es arbitrary: r) (auto simp: uri_body_def axiom_namespace_get_uri_def split: option.splits)

lemma table_uri_spec:
  assumes "hash_inv ht" "mem_ok malloc"
  shows "\<exists>r. table_uri malloc S ht u = Inr r \<and>
    (case r of
       None \<Rightarrow> \<forall>k n. hash_abs ht k = Some n \<longrightarrow> ns_uri (os_namespaces S n) \<noteq> Some u
     | Some n \<Rightarrow> (\<exists>k. hash_abs ht k = Some n) \<and> ns_uri (os_namespaces S n) = Some u)"
proof -
  obtain es q where es: "axutil_hash_first_impl malloc (Some ht) False = Inr q"
    "\<forall>(body :: nat hash_entry \<Rightarrow> ptr \<Rightarrow> bool \<times> ptr) s. hash_foreach ht body q s = Inr (list_loop body es s)"
    "\<forall>k v. hash_abs ht k = Some v \<longleftrightarrow> (\<exists>e \<in> set es. entry_key e = k \<and> e_val e = Some v)"
    using iterate_once [of ht malloc, where ?'s = ptr] assms(1) mem_okD [OF assms(2)] by blast
  let ?f = "find (\<lambda>e. \<exists>n. e_val e = Some n \<and> ns_uri (os_namespaces S n) = Some u) es"
  have t: "table_uri malloc S ht u = Inr (case ?f of None \<Rightarrow> None | Some e \<Rightarrow> e_val e)"
    using es(1,2) uri_loop [of S u es None] by (simp add: table_uri_def)
  show ?thesis
  proof (cases ?f)
    case None
    then have "\<forall>e \<in> set es. \<forall>n. e_val e = Some n \<longrightarrow> ns_uri (os_namespaces S n) \<noteq> Some u" by (auto simp: find_None_iff)
    with None t es(3) show ?thesis by auto
  next
    case (Some e)
    then obtain n where "e \<in> set es" "e_val e = Some n" "ns_uri (os_namespaces S n) = Some u"
      by (auto simp: find_Some_iff)
    with Some t es(3) show ?thesis by auto
  qed
qed

text \<open>Which namespaces with a URI are declared around a node.\<close>

definition uri_declared :: "om_store \<Rightarrow> nat list \<Rightarrow> string \<Rightarrow> nat \<Rightarrow> bool" where
  "uri_declared S es u n \<longleftrightarrow> ns_uri (os_namespaces S n) = Some u \<and> (\<exists>e \<in> set es. \<exists>k. decls S e k = Some n)"

lemma search_here_uri:
  assumes "scope (os_nodes S) p (e # es)" "tables_ok S" "mem_ok malloc" "pre = None \<or> pre = Some ''''"
  shows "\<exists>r. search_here malloc S e p (Some u) pre = Some (Inr r) \<and>
    (case r of
       Some q \<Rightarrow> (case declared S (e # es) '''' of
                    Some d \<Rightarrow> q = answer S (Some u) (Some d)
                  | None \<Rightarrow> (\<exists>n. q = Some n \<and> uri_declared S [e] u n))
     | None \<Rightarrow> decls S e = Map.empty \<or> declared S (e # es) '''' = None \<and> (\<forall>n. \<not> uri_declared S [e] u n))"
proof (cases "elt_namespaces (os_elements S e)")
  case None
  then show ?thesis by (simp add: search_here_def decls_def)
next
  case (Some ht)
  then have h: "hash_inv ht" "decls S e = hash_abs ht" using assms(2) by (simp_all add: tables_ok_def decls_def)
  have d: "axiom_element_get_default_namespace malloc S e p = Some (Inr (declared S (e # es) ''''))"
    using default_namespace_spec [OF assms(1,2), of malloc] by simp
  have q: "pre = None \<or> axutil_strcmp pre (Some '''') = 0" using assms(4) by auto
  obtain r where r: "table_uri malloc S ht u = Inr r" "case r of
       None \<Rightarrow> \<forall>k n. hash_abs ht k = Some n \<longrightarrow> ns_uri (os_namespaces S n) \<noteq> Some u
     | Some n \<Rightarrow> (\<exists>k. hash_abs ht k = Some n) \<and> ns_uri (os_namespaces S n) = Some u"
    using table_uri_spec [of ht malloc S u] h(1) assms(3) by blast
  show ?thesis
  proof (cases "declared S (e # es) ''''")
    case (Some n)
    then show ?thesis using \<open>elt_namespaces (os_elements S e) = Some ht\<close> d q
      by (auto simp: search_here_def answer_def axiom_namespace_get_uri_def)
  next
    case None
    then show ?thesis using \<open>elt_namespaces (os_elements S e) = Some ht\<close> d q r h(2)
      by (cases r) (auto simp: search_here_def uri_declared_def)
  qed
qed

lemma declared_mem: "declared S es k = Some d \<Longrightarrow> \<exists>e \<in> set es. decls S e k = Some d"
  by (induction es) (auto split: option.splits)

lemma search_here_found:
  assumes "scope (os_nodes S) p (e # es)" "tables_ok S" "mem_ok malloc" "pre = None \<or> pre = Some ''''"
  shows "\<exists>r. search_here malloc S e p (Some u) pre = Some (Inr r) \<and>
    (\<forall>d. r = Some (Some d) \<longrightarrow> uri_declared S (e # es) u d)"
proof -
  obtain r where r: "search_here malloc S e p (Some u) pre = Some (Inr r)"
    "case r of
       Some q \<Rightarrow> (case declared S (e # es) '''' of
                    Some d \<Rightarrow> q = answer S (Some u) (Some d)
                  | None \<Rightarrow> (\<exists>n. q = Some n \<and> uri_declared S [e] u n))
     | None \<Rightarrow> decls S e = Map.empty \<or> declared S (e # es) '''' = None \<and> (\<forall>n. \<not> uri_declared S [e] u n)"
    using search_here_uri [OF assms, of u] by blast
  have "uri_declared S (e # es) u d" if "r = Some (Some d)" for d
  proof (cases "declared S (e # es) ''''")
    case None
    then show ?thesis using r(2) that by (auto simp: uri_declared_def)
  next
    case (Some d')
    then have "d' = d" "ns_uri (os_namespaces S d) = Some u"
      using r(2) that by (auto simp: answer_def split: if_splits)
    then show ?thesis using declared_mem [OF Some] by (auto simp: uri_declared_def)
  qed
  then show ?thesis using r(1) by blast
qed

text \<open>The search always returns, and what it finds has the URI and, when one is asked for, the prefix.\<close>

lemma find_by_uri:
  assumes "scope (os_nodes S) p es" "tables_ok S" "mem_ok malloc" "pre = None \<or> pre = Some ''''"
  shows "\<exists>r. axiom_element_find_namespace malloc S (hd es) p (Some u) pre = Some (Inr r) \<and>
    (\<forall>d. r = Some d \<longrightarrow> uri_declared S es u d)"
  using assms
proof (induction "os_nodes S" p es rule: scope.induct)
  case (outermost p n e)
  then have sc: "scope (os_nodes S) p [e]" by (auto intro: scope.intros)
  obtain r where r: "search_here malloc S e p (Some u) pre = Some (Inr r)"
    "\<And>d. r = Some (Some d) \<Longrightarrow> uri_declared S [e] u d"
    using search_here_found [OF sc outermost(5,6,7), of u] by auto
  then show ?case using find_step [OF sc, of malloc "Some u" pre] outermost(4) by (cases r) auto
next
  case (inner p n e e' q es)
  then have sc: "scope (os_nodes S) p (e # e' # es)" by (auto intro: scope.intros)
  obtain r where r: "search_here malloc S e p (Some u) pre = Some (Inr r)"
    "\<And>d. r = Some (Some d) \<Longrightarrow> uri_declared S (e # e' # es) u d"
    using search_here_found [OF sc inner(7,8,9), of u] by auto
  then show ?case using find_step [OF sc, of malloc "Some u" pre] inner by (cases r) (auto simp: uri_declared_def)
qed

section \<open>Declarations\<close>

text \<open>The key under which a namespace is declared, and the stores whose tables hold the namespaces under their keys.\<close>

definition ns_key :: "axiom_namespace \<Rightarrow> string" where
  "ns_key ns = (case ns_prefix ns of None \<Rightarrow> '''' | Some p \<Rightarrow> p)"

definition store_ok :: "om_store \<Rightarrow> bool" where
  "store_ok S \<longleftrightarrow> tables_ok S \<and>
     (\<forall>e k d. decls S e k = Some d \<longrightarrow> ns_key (os_namespaces S d) = k \<and> ns_uri (os_namespaces S d) \<noteq> None)"

definition table_room :: "om_store \<Rightarrow> nat \<Rightarrow> bool" where
  "table_room S e \<longleftrightarrow> (case elt_namespaces (os_elements S e) of None \<Rightarrow> True | Some ht \<Rightarrow> unat (h_count ht) < 2 ^ 31 - 1)"

lemma hash_put_spec:
  assumes "hash_inv ht" "prefix_ok k" "mem_ok malloc" "unat (h_count ht) < 2 ^ 31 - 1"
  shows "\<exists>ht'. hash_put malloc ht k (Some v) = Inr ht' \<and> hash_inv ht' \<and> hash_abs ht' = (hash_abs ht)(k \<mapsto> v)"
  using hash_set_spec [of ht k AXIS2_HASH_KEY_STRING malloc "Some v"] norm_prefix [OF assms(2)] assms
  by (auto simp: hash_put_def updates_def)

text \<open>A store that differs from another in the declarations of one element only.\<close>

definition declares :: "om_store \<Rightarrow> nat \<Rightarrow> nat \<Rightarrow> om_store \<Rightarrow> bool" where
  "declares S e n S' \<longleftrightarrow> os_nodes S' = os_nodes S \<and> tables_ok S' \<and>
     decls S' = (decls S)(e := (decls S e)(ns_key (os_namespaces S n) \<mapsto> n)) \<and>
     (\<forall>m. ns_uri (os_namespaces S' m) = ns_uri (os_namespaces S m) \<and>
          ns_prefix (os_namespaces S' m) = ns_prefix (os_namespaces S m)) \<and>
     (\<forall>x. elt_qname (os_elements S' x) = elt_qname (os_elements S x) \<and>
          elt_ns (os_elements S' x) = elt_ns (os_elements S x) \<and>
          elt_localname (os_elements S' x) = elt_localname (os_elements S x) \<and>
          elt_attributes (os_elements S' x) = elt_attributes (os_elements S x)) \<and>
     os_attributes S' = os_attributes S"

lemma element_table:
  assumes "tables_ok S" "mem_ok malloc" "table_room S e"
  obtains ht where "hash_inv ht" "hash_abs ht = decls S e" "unat (h_count ht) < 2 ^ 31 - 1"
    "(case elt_namespaces (os_elements S e) of
        Some ht \<Rightarrow> Some ht
      | None \<Rightarrow> (case axutil_hash_make malloc of Inl _ \<Rightarrow> None | Inr ht \<Rightarrow> Some ht)) = Some ht"
proof (cases "elt_namespaces (os_elements S e)")
  case None
  obtain ht :: "nat axutil_hash" where "axutil_hash_make malloc = Inr ht" "hash_inv ht" "hash_abs ht = Map.empty"
    "axutil_hash_count ht = 0" using make_spec [OF assms(2)] by blast
  with None that [of ht] show ?thesis by (simp add: decls_def axutil_hash_count_def)
next
  case (Some ht)
  with that [of ht] assms show ?thesis by (simp add: decls_def tables_ok_def table_room_def)
qed

lemma declare_at_spec:
  assumes "tables_ok S" "mem_ok malloc" "table_room S e" "prefix_ok (ns_key (os_namespaces S n))"
  shows "\<exists>S'. declare_at malloc S e n = Inr (AXIS2_SUCCESS, S') \<and> declares S e n S'"
proof -
  obtain ht where ht: "hash_inv ht" "hash_abs ht = decls S e" "unat (h_count ht) < 2 ^ 31 - 1"
    "(case elt_namespaces (os_elements S e) of
        Some ht \<Rightarrow> Some ht
      | None \<Rightarrow> (case axutil_hash_make malloc of Inl _ \<Rightarrow> None | Inr ht \<Rightarrow> Some ht)) = Some ht"
    using element_table [OF assms(1-3)] by metis
  obtain ht' where ht': "hash_put malloc ht (ns_key (os_namespaces S n)) (Some n) = Inr ht'" "hash_inv ht'"
    "hash_abs ht' = (hash_abs ht)(ns_key (os_namespaces S n) \<mapsto> n)"
    using hash_put_spec [OF ht(1) assms(4,2) ht(3)] by blast
  show ?thesis
    using assms(1) ht(2,4) ht' mem_okD [OF assms(2), of 10]
    by (cases "ns_prefix (os_namespaces S n)")
      (auto simp: declare_at_def declares_def ns_key_def axiom_namespace_get_prefix_def set_namespace_def
         set_element_def tables_ok_def decls_def axiom_namespace_increment_ref_def fun_eq_iff)
qed

lemma declares_ok:
  assumes "store_ok S" "declares S e n S'" "ns_uri (os_namespaces S n) \<noteq> None"
  shows "store_ok S'"
  using assms by (auto simp: store_ok_def declares_def ns_key_def split: if_splits)

lemma declares_declared:
  assumes "declares S e n S'"
  shows "declared S' (e # es) (ns_key (os_namespaces S n)) = Some n"
    "k \<noteq> ns_key (os_namespaces S n) \<Longrightarrow> declared S' es k = declared S es k"
  using assms by (induction es) (auto simp: declares_def split: option.splits)

definition prefix_key :: "string option \<Rightarrow> string" where
  "prefix_key pre = (case pre of None \<Rightarrow> '''' | Some p \<Rightarrow> p)"

lemma ns_key_prefix: "ns_key ns = prefix_key (ns_prefix ns)"
  by (simp add: ns_key_def prefix_key_def)

lemma find_returns:
  assumes "scope (os_nodes S) p (e # es)" "store_ok S" "mem_ok malloc" "prefix_ok (prefix_key pre)"
  shows "\<exists>r. axiom_element_find_namespace malloc S e p (Some u) pre = Some (Inr r) \<and>
    (\<forall>d. r = Some d \<longrightarrow> ns_uri (os_namespaces S d) = Some u \<and>
       (prefix_key pre \<noteq> '''' \<longrightarrow> ns_prefix (os_namespaces S d) = pre))"
proof (cases "prefix_key pre = ''''")
  case True
  then have "pre = None \<or> pre = Some ''''" by (cases pre) (simp_all add: prefix_key_def)
  then show ?thesis using find_by_uri [OF assms(1) _ assms(3), of pre u] assms(2) True
    by (auto simp: store_ok_def uri_declared_def)
next
  case False
  then obtain q where q: "pre = Some q" "q \<noteq> ''''" by (cases pre) (simp_all add: prefix_key_def)
  have "ns_prefix (os_namespaces S d) = Some q" if "declared S (e # es) q = Some d" for d
    using declared_mem [OF that] assms(2) q(2) by (auto simp: store_ok_def ns_key_def split: option.splits)
  then show ?thesis
    using find_namespace_prefix [OF assms(1), of q malloc "Some u"] assms(2,4) q
    by (auto simp: store_ok_def prefix_key_def answer_def split: option.splits)
qed

lemma find_here:
  assumes "scope (os_nodes S) p (e # es)" "store_ok S" "prefix_ok (prefix_key pre)"
    and "decls S e (prefix_key pre) = Some n" "ns_uri (os_namespaces S n) = Some u"
  shows "axiom_element_find_namespace malloc S e p (Some u) pre = Some (Inr (Some n))"
proof (cases "prefix_key pre = ''''")
  case True
  then have q: "pre = None \<or> axutil_strcmp pre (Some '''') = 0" by (cases pre) (simp_all add: prefix_key_def)
  have t: "tables_ok S" using assms(2) by (simp add: store_ok_def)
  from True assms(4) obtain ht where ht: "elt_namespaces (os_elements S e) = Some ht"
    by (auto simp: decls_def split: option.splits)
  have "axiom_element_get_default_namespace malloc S e p = Some (Inr (Some n))"
    using default_namespace_spec [OF assms(1) t, of malloc] assms(4) True by simp
  then have "search_here malloc S e p (Some u) pre = Some (Inr (Some (Some n)))"
    using ht q assms(5) by (auto simp: search_here_def axiom_namespace_get_uri_def)
  then show ?thesis using find_step [OF assms(1), of malloc "Some u" pre] by simp
next
  case False
  then obtain q where "pre = Some q" "q \<noteq> ''''" by (cases pre) (simp_all add: prefix_key_def)
  then show ?thesis
    using find_namespace_prefix [OF assms(1), of q malloc "Some u"] assms(2-5)
    by (simp add: store_ok_def prefix_key_def answer_def)
qed

text \<open>Two elements, one in the other, without declarations.\<close>

definition plain_node :: "ptr \<Rightarrow> nat \<Rightarrow> axiom_node" where
  "plain_node parent d = \<lparr>n_doc = None, n_builder = None, n_parent = parent, n_prev_sibling = None,
     n_next_sibling = None, n_first_child = None, n_last_child = None, n_type = AXIOM_ELEMENT, n_done = True,
     n_data = Some d\<rparr>"

definition two_elements :: om_store where
  "two_elements = \<lparr>os_nodes = [10 \<mapsto> plain_node None 0, 11 \<mapsto> plain_node (Some 10) 1],
     os_elements = (\<lambda>_. \<lparr>elt_ns = None, elt_localname = Some ''Body'', elt_attributes = None, elt_namespaces = None,
       elt_qname = None, elt_next_ns_prefix_number = 0, elt_is_empty = False\<rparr>),
     os_namespaces = (\<lambda>_. \<lparr>ns_uri = Some ''urn:soap'', ns_prefix = Some ''soap'', ns_ref = 0\<rparr>),
     os_attributes = (\<lambda>_. \<lparr>at_localname = None, at_value = None, at_ns = None, at_qname = None, at_ref = 0\<rparr>),
     os_texts = (\<lambda>_. \<lparr>tx_value = None\<rparr>), os_released = []\<rparr>"

lemma two_elements_ok:
  "scope (os_nodes two_elements) 11 [1, 0]" "store_ok two_elements" "table_room two_elements 1"
  "ns_uri (os_namespaces two_elements 5) = Some ''urn:soap''" "ns_key (os_namespaces two_elements 5) = ''soap''"
  "ns_prefix (os_namespaces two_elements 5) = Some ''soap''"
proof -
  have n: "os_nodes two_elements 10 = Some (plain_node None 0)" "os_nodes two_elements 11 = Some (plain_node (Some 10) 1)"
    by (simp_all add: two_elements_def)
  have "scope (os_nodes two_elements) 10 [0]"
    by (rule scope.outermost [of _ _ "plain_node None 0"])
      (simp_all add: n plain_node_def parent_element_def axiom_node_get_parent_def node_at_def)
  then show "scope (os_nodes two_elements) 11 [1, 0]"
    by (rule scope.inner [of _ _ "plain_node (Some 10) 1" _ _ 10, rotated -1])
      (simp_all add: n plain_node_def parent_element_def axiom_node_get_parent_def axiom_node_get_node_type_def
        axiom_node_get_data_element_def node_at_def)
qed (simp_all add: two_elements_def store_ok_def tables_ok_def decls_def table_room_def ns_key_def)

text \<open>
  C17: declaring a namespace at an element (\<^verbatim>\<open>axiom_element_declare_namespace\<close>) succeeds whenever there is memory, keeps
  the tables of the tree in order, and makes a namespace with that URI and that prefix visible: the search from the
  element for its URI and prefix returns a namespace that \<^verbatim>\<open>axiom_namespace_equals\<close> it. The namespaces of all other
  prefixes in scope stay what they were, however deep the element is and whatever the elements around it declare.
\<close>

theorem declared_namespace_found:
  assumes "scope (os_nodes S) p (e # es)" "store_ok S" "mem_ok malloc" "table_room S e"
    and "ns_uri (os_namespaces S n) = Some u" "prefix_ok (ns_key (os_namespaces S n))"
  shows "\<exists>S' d. axiom_element_declare_namespace malloc S (Some e) (Some p) (Some n) = Some (Inr (AXIS2_SUCCESS, S')) \<and>
    store_ok S' \<and> os_nodes S' = os_nodes S \<and>
    axiom_element_find_namespace malloc S' e p (Some u) (ns_prefix (os_namespaces S n)) = Some (Inr (Some d)) \<and>
    axiom_namespace_equals (os_namespaces S n) (os_namespaces S' d) \<and>
    (\<forall>k. k \<noteq> ns_key (os_namespaces S n) \<longrightarrow> declared S' (e # es) k = declared S (e # es) k)"
proof -
  let ?ns = "os_namespaces S n"
  let ?find = "axiom_element_find_namespace malloc S e p (Some u) (ns_prefix ?ns)"
  have pk: "prefix_ok (prefix_key (ns_prefix ?ns))" using assms(6) by (simp add: ns_key_prefix)
  obtain r where r: "?find = Some (Inr r)" using find_returns [OF assms(1-3) pk] by blast
  show ?thesis
  proof (cases "case r of None \<Rightarrow> False | Some d \<Rightarrow> axiom_namespace_equals ?ns (os_namespaces S d)")
    case True
    then show ?thesis using r assms(2,5)
      by (cases r) (auto simp: axiom_element_declare_namespace_def ns_found_def axiom_namespace_get_uri_def
          axiom_namespace_get_prefix_def)
  next
    case False
    obtain S' where S': "declare_at malloc S e n = Inr (AXIS2_SUCCESS, S')" "declares S e n S'"
      using declare_at_spec [of S malloc e n] assms by (auto simp: store_ok_def)
    have d: "axiom_element_declare_namespace malloc S (Some e) (Some p) (Some n) = Some (Inr (AXIS2_SUCCESS, S'))"
      using False r assms(5) S'(1)
      by (simp add: axiom_element_declare_namespace_def ns_found_def axiom_namespace_get_uri_def
          axiom_namespace_get_prefix_def)
    have ok: "store_ok S'" "os_nodes S' = os_nodes S" "decls S' e (prefix_key (ns_prefix ?ns)) = Some n"
      "ns_uri (os_namespaces S' n) = Some u" "axiom_namespace_equals ?ns (os_namespaces S' n)"
      using declares_ok [OF assms(2) S'(2)] S'(2) assms(5)
      by (simp_all add: declares_def axiom_namespace_equals_def ns_key_prefix)
    have "axiom_element_find_namespace malloc S' e p (Some u) (ns_prefix ?ns) = Some (Inr (Some n))"
      using find_here [of S' p e es "ns_prefix ?ns" n u malloc] ok assms(1) pk by simp
    then show ?thesis using d ok declares_declared(2) [OF S'(2)] by blast
  qed
qed

theorem declared_namespace_found_witness:
  "\<exists>S' d. axiom_element_declare_namespace (\<lambda>n. True) two_elements (Some 1) (Some 11) (Some 5) =
     Some (Inr (AXIS2_SUCCESS, S')) \<and>
   axiom_element_find_namespace (\<lambda>n. True) S' 1 11 (Some ''urn:soap'') (Some ''soap'') = Some (Inr (Some d)) \<and>
   axiom_namespace_equals (os_namespaces two_elements 5) (os_namespaces S' d)"
  using declared_namespace_found [of two_elements 11 1 "[0]" "\<lambda>n. True" 5 "''urn:soap''"] two_elements_ok
  by (auto simp: mem_ok_def prefix_ok_def)

lemma named_by:
  assumes "mem_ok malloc" "elt_ns (os_elements S e) = Some d" "ns_uri (os_namespaces S d) = Some u"
    and "elt_qname (os_elements S e) = None" "elt_localname (os_elements S e) = Some l"
  shows "axiom_element_get_namespace malloc S e p = Some (Inr (Some d))"
    "\<exists>q S'. axiom_element_get_qname malloc S e p = Some (Inr (Some q, S')) \<and> localpart q = l \<and> namespace_uri q = Some u"
  using assms by (simp_all add: axiom_element_get_namespace_def axiom_element_get_qname_def ns_found_def
      qname_create_ok axiom_namespace_get_uri_def Let_def)

text \<open>
  After \<^verbatim>\<open>axiom_element_set_namespace\<close> with a namespace, which succeeds whenever there is memory, the namespace of the
  element is one with the same URI (and the same prefix, when it has one), whether it was in scope before or was declared
  for it, and so is the URI of the qualified name the element then computes.
\<close>

theorem set_namespace_spec:
  assumes "scope (os_nodes S) p (e # es)" "store_ok S" "mem_ok malloc" "table_room S e"
    and "ns_uri (os_namespaces S n) = Some u" "prefix_ok (ns_key (os_namespaces S n))"
    and "elt_qname (os_elements S e) = None" "elt_localname (os_elements S e) = Some l"
  shows "\<exists>S' d q S''. axiom_element_set_namespace malloc S e (Some n) p = Some (Inr (AXIS2_SUCCESS, S')) \<and>
    axiom_element_get_namespace malloc S' e p = Some (Inr (Some d)) \<and> ns_uri (os_namespaces S' d) = Some u \<and>
    (ns_key (os_namespaces S n) \<noteq> '''' \<longrightarrow> ns_prefix (os_namespaces S' d) = ns_prefix (os_namespaces S n)) \<and>
    axiom_element_get_qname malloc S' e p = Some (Inr (Some q, S'')) \<and> localpart q = l \<and> namespace_uri q = Some u"
proof -
  let ?ns = "os_namespaces S n" and ?set = "\<lambda>S d. set_element e (\<lambda>el. el\<lparr>elt_ns := Some d\<rparr>) S"
  have pk: "prefix_ok (prefix_key (ns_prefix ?ns))" using assms(6) by (simp add: ns_key_prefix)
  obtain r where r: "axiom_element_find_namespace malloc S e p (Some u) (ns_prefix ?ns) = Some (Inr r)"
    "\<forall>d. r = Some d \<longrightarrow> ns_uri (os_namespaces S d) = Some u \<and>
       (prefix_key (ns_prefix ?ns) \<noteq> '''' \<longrightarrow> ns_prefix (os_namespaces S d) = ns_prefix ?ns)"
    using find_returns [OF assms(1-3) pk] by blast
  have "\<exists>S1 d. axiom_element_set_namespace malloc S e (Some n) p = Some (Inr (AXIS2_SUCCESS, ?set S1 d)) \<and>
    ns_uri (os_namespaces S1 d) = Some u \<and>
    (ns_key ?ns \<noteq> '''' \<longrightarrow> ns_prefix (os_namespaces S1 d) = ns_prefix ?ns) \<and>
    elt_qname (os_elements S1 e) = None \<and> elt_localname (os_elements S1 e) = Some l"
  proof (cases r)
    case (Some d)
    then show ?thesis using r assms(5,7,8)
      by (auto simp: axiom_element_set_namespace_def ns_found_def axiom_namespace_get_uri_def
          axiom_namespace_get_prefix_def ns_key_prefix intro!: exI [of _ S] exI [of _ d])
  next
    case None
    obtain S' where S': "declare_at malloc S e n = Inr (AXIS2_SUCCESS, S')" "declares S e n S'"
      using declare_at_spec [of S malloc e n] assms by (auto simp: store_ok_def)
    then show ?thesis using None r(1) assms(5,7,8)
      by (auto simp: axiom_element_set_namespace_def axiom_element_declare_namespace_def ns_found_def
          axiom_namespace_get_uri_def axiom_namespace_get_prefix_def declares_def intro!: exI [of _ S'] exI [of _ n])
  qed
  then obtain S1 d where S1: "axiom_element_set_namespace malloc S e (Some n) p = Some (Inr (AXIS2_SUCCESS, ?set S1 d))"
    "ns_uri (os_namespaces S1 d) = Some u" "ns_key ?ns \<noteq> '''' \<longrightarrow> ns_prefix (os_namespaces S1 d) = ns_prefix ?ns"
    "elt_qname (os_elements S1 e) = None" "elt_localname (os_elements S1 e) = Some l" by blast
  then show ?thesis using named_by [OF assms(3), of "?set S1 d" e d u l p]
    by (auto simp: set_element_def intro!: exI [of _ "?set S1 d"])
qed

theorem set_namespace_spec_witness:
  "\<exists>S' d q S''. axiom_element_set_namespace (\<lambda>n. True) two_elements 1 (Some 5) 11 = Some (Inr (AXIS2_SUCCESS, S')) \<and>
   axiom_element_get_namespace (\<lambda>n. True) S' 1 11 = Some (Inr (Some d)) \<and>
   ns_prefix (os_namespaces S' d) = Some ''soap'' \<and>
   axiom_element_get_qname (\<lambda>n. True) S' 1 11 = Some (Inr (Some q, S'')) \<and> localpart q = ''Body'' \<and>
   namespace_uri q = Some ''urn:soap''"
proof -
  have "elt_qname (os_elements two_elements 1) = None" "elt_localname (os_elements two_elements 1) = Some ''Body''"
    by (simp_all add: two_elements_def)
  then show ?thesis
    using set_namespace_spec [of two_elements 11 1 "[0]" "\<lambda>n. True" 5 "''urn:soap''" "''Body''"] two_elements_ok
    by (simp add: mem_ok_def prefix_ok_def) blast
qed

section \<open>What the functions do not do\<close>

text \<open>
  A search with no URI at one element finds nothing, so that \<^verbatim>\<open>axiom_element_gather_parent_namespaces\<close>, which asks this
  way whether a prefix is declared at the element, always hears that it is not.
\<close>

lemma declared_without_uri:
  assumes "tables_ok S" "prefix_ok (prefix_key pre)"
  shows "axiom_element_find_declared_namespace malloc S e None pre = Inr None"
proof (cases "elt_namespaces (os_elements S e)")
  case (Some ht)
  then have "hash_inv ht" using assms(1) by (simp add: tables_ok_def)
  then show ?thesis using Some assms(2) table_get [of ht _ malloc]
    by (cases pre) (auto simp: axiom_element_find_declared_namespace_def prefix_key_def split: option.split)
qed (simp add: axiom_element_find_declared_namespace_def)

text \<open>A qualified name that was computed once stays when the local name changes.\<close>

lemma qname_is_stale:
  assumes "axiom_element_get_qname malloc S e p = Some (Inr (Some q, S1))"
    and "axiom_element_set_localname malloc S1 e (Some l) = Inr (st, S2)"
  shows "axiom_element_get_qname malloc S2 e p = Some (Inr (Some q, S2))"
proof -
  have "elt_qname (os_elements S1 e) = Some q"
    using assms(1) by (auto simp: axiom_element_get_qname_def ns_found_def set_element_def Let_def
        split: option.splits sum.splits if_splits)
  then have "elt_qname (os_elements S2 e) = Some q"
    using assms(2) by (auto simp: axiom_element_set_localname_def set_element_def split: sum.splits)
  then show ?thesis by (simp add: axiom_element_get_qname_def)
qed

end
