(* ===== verification/Om_Attribute.thy ===== *)
theory Om_Attribute
  imports Om_Scope
begin

text \<open>
  Attributes (\<^verbatim>\<open>axiom/src/om/om_attribute.c\<close>), the attributes of an element, and the creation of elements
  (\<^verbatim>\<open>om_element.c\<close>). An element keeps its attributes in a table under the strings of their qualified names;
  an attribute that is added is found again under its name, and the namespace it is in is declared for it.
\<close>

section \<open>Attributes\<close>

definition sizeof_attribute :: nat where "sizeof_attribute = 40"

definition axiom_attribute_create ::
    "alloc \<Rightarrow> string option \<Rightarrow> string option \<Rightarrow> ptr \<Rightarrow> axiom_attribute result" where
  "axiom_attribute_create malloc localname v ns =
     (if localname = None then Inl INVALID_NULL_PARAM
      else if \<not> malloc sizeof_attribute then Inl NO_MEMORY
      else
        res_bind (axutil_string_create malloc 0 localname) (\<lambda>_.
        res_bind (case v of None \<Rightarrow> Inr () | Some _ \<Rightarrow> map_sum id (\<lambda>_. ()) (axutil_string_create malloc 0 v)) (\<lambda>_.
          Inr \<lparr>at_localname = localname, at_value = v, at_ns = ns, at_qname = None, at_ref = 0\<rparr>)))"

definition set_attribute :: "nat \<Rightarrow> (axiom_attribute \<Rightarrow> axiom_attribute) \<Rightarrow> om_store \<Rightarrow> om_store" where
  "set_attribute a f S = S\<lparr>os_attributes := (os_attributes S)(a := f (os_attributes S a))\<rparr>"

text \<open>The qualified name is computed once and kept.\<close>

definition axiom_attribute_get_qname :: "alloc \<Rightarrow> om_store \<Rightarrow> nat \<Rightarrow> axutil_qname option \<times> om_store" where
  "axiom_attribute_get_qname malloc S a =
     (let attr = os_attributes S a in
      case at_qname attr of
        Some q \<Rightarrow> (Some q, S)
      | None \<Rightarrow>
          (let q = (case axutil_qname_create malloc (at_localname attr)
                           (Option.bind (at_ns attr) (\<lambda>n. axiom_namespace_get_uri (os_namespaces S n)))
                           (Option.bind (at_ns attr) (\<lambda>n. axiom_namespace_get_prefix (os_namespaces S n))) of
                      Inl _ \<Rightarrow> None | Inr q \<Rightarrow> Some q)
           in (q, set_attribute a (\<lambda>x. x\<lparr>at_qname := q\<rparr>) S)))"

definition axiom_attribute_get_localname :: "om_store \<Rightarrow> nat \<Rightarrow> string option" where
  "axiom_attribute_get_localname S a = at_localname (os_attributes S a)"

definition axiom_attribute_get_value :: "om_store \<Rightarrow> nat \<Rightarrow> string option" where
  "axiom_attribute_get_value S a = at_value (os_attributes S a)"

definition axiom_attribute_get_namespace :: "om_store \<Rightarrow> nat \<Rightarrow> ptr" where
  "axiom_attribute_get_namespace S a = at_ns (os_attributes S a)"

text \<open>The old text is dropped also when the new one cannot be stored.\<close>

definition axiom_attribute_set_localname ::
    "alloc \<Rightarrow> om_store \<Rightarrow> nat \<Rightarrow> string option \<Rightarrow> (axis2_status \<times> om_store) result" where
  "axiom_attribute_set_localname malloc S a localname =
     (if localname = None then Inl INVALID_NULL_PARAM
      else
        (case axutil_string_create malloc 0 localname of
           Inl _ \<Rightarrow> Inr (AXIS2_FAILURE, set_attribute a (\<lambda>x. x\<lparr>at_localname := None\<rparr>) S)
         | Inr _ \<Rightarrow> Inr (AXIS2_SUCCESS, set_attribute a (\<lambda>x. x\<lparr>at_localname := localname\<rparr>) S)))"

definition axiom_attribute_set_value ::
    "alloc \<Rightarrow> om_store \<Rightarrow> nat \<Rightarrow> string option \<Rightarrow> (axis2_status \<times> om_store) result" where
  "axiom_attribute_set_value malloc S a v =
     (if v = None then Inl INVALID_NULL_PARAM
      else
        (case axutil_string_create malloc 0 v of
           Inl _ \<Rightarrow> Inr (AXIS2_FAILURE, set_attribute a (\<lambda>x. x\<lparr>at_value := None\<rparr>) S)
         | Inr _ \<Rightarrow> Inr (AXIS2_SUCCESS, set_attribute a (\<lambda>x. x\<lparr>at_value := v\<rparr>) S)))"

definition axiom_attribute_set_namespace :: "om_store \<Rightarrow> nat \<Rightarrow> ptr \<Rightarrow> (axis2_status \<times> om_store) result" where
  "axiom_attribute_set_namespace S a ns =
     (if ns = None then Inl INVALID_NULL_PARAM
      else Inr (AXIS2_SUCCESS, set_attribute a (\<lambda>x. x\<lparr>at_ns := ns\<rparr>) S))"

text \<open>A copy has the same strings, one reference more each, and the same namespace.\<close>

definition axiom_attribute_clone :: "alloc \<Rightarrow> om_store \<Rightarrow> ptr \<Rightarrow> axiom_attribute option" where
  "axiom_attribute_clone malloc S a =
     (case a of
        None \<Rightarrow> None
      | Some x \<Rightarrow>
          let attr = os_attributes S x in
          if at_localname attr = None \<or> \<not> malloc sizeof_attribute then None
          else Some \<lparr>at_localname = at_localname attr, at_value = at_value attr, at_ns = at_ns attr,
                     at_qname = None, at_ref = 0\<rparr>)"

definition axiom_attribute_increment_ref :: "om_store \<Rightarrow> nat \<Rightarrow> om_store" where
  "axiom_attribute_increment_ref S a = set_attribute a (\<lambda>x. x\<lparr>at_ref := at_ref x + 1\<rparr>) S"

section \<open>The attributes of an element\<close>

text \<open>
  The end of \<^verbatim>\<open>axiom_element_add_attribute\<close>, once the namespace is declared. The string of the name is kept in
  the name, and so in the attribute; without the string the table is asked to hold a NULL key.
\<close>

definition add_to_table :: "alloc \<Rightarrow> om_store \<Rightarrow> nat \<Rightarrow> nat \<Rightarrow> (axis2_status \<times> om_store) result" where
  "add_to_table malloc S e a =
     (case (case elt_attributes (os_elements S e) of
              Some ht \<Rightarrow> Some ht
            | None \<Rightarrow> (case axutil_hash_make malloc of Inl _ \<Rightarrow> None | Inr ht \<Rightarrow> Some ht)) of
        None \<Rightarrow> Inr (AXIS2_FAILURE, S)
      | Some ht \<Rightarrow>
          (let S1 = set_element e (\<lambda>el. el\<lparr>elt_attributes := Some ht\<rparr>) S in
           case axiom_attribute_get_qname malloc S1 a of
             (None, S2) \<Rightarrow> Inr (AXIS2_FAILURE, S2)
           | (Some q, S2) \<Rightarrow>
               res_bind (axutil_qname_to_string malloc q) (\<lambda>(name, q').
                 case name of
                   None \<Rightarrow> Inl UNDEFINED_BEHAVIOUR
                 | Some k \<Rightarrow>
                     res_bind (hash_put malloc ht k (Some a)) (\<lambda>ht'.
                       Inr (AXIS2_SUCCESS,
                            axiom_attribute_increment_ref
                              (set_element e (\<lambda>el. el\<lparr>elt_attributes := Some ht'\<rparr>)
                                (set_attribute a (\<lambda>x. x\<lparr>at_qname := Some q'\<rparr>) S2)) a)))))"

definition axiom_element_add_attribute ::
    "alloc \<Rightarrow> om_store \<Rightarrow> ptr \<Rightarrow> ptr \<Rightarrow> ptr \<Rightarrow> (axis2_status \<times> om_store) result option" where
  "axiom_element_add_attribute malloc S om_element attr element_node =
     (case (attr, element_node, om_element) of
        (Some a, Some node, Some e) \<Rightarrow>
          (case axiom_attribute_get_namespace S a of
             None \<Rightarrow> Some (add_to_table malloc S e a)
           | Some n \<Rightarrow>
               ns_found (axiom_element_find_namespace malloc S e node (axiom_namespace_get_uri (os_namespaces S n))
                           (axiom_namespace_get_prefix (os_namespaces S n)))
                 (\<lambda>temp_ns.
                    if temp_ns = Some n then Some (add_to_table malloc S e a)
                    else
                      Some (res_bind (axiom_element_declare_namespace_assume_param_ownership malloc S (Some e) (Some n))
                        (\<lambda>(status, S1). if status \<noteq> AXIS2_SUCCESS then Inr (status, S1) else add_to_table malloc S1 e a))))
      | _ \<Rightarrow> Some (Inl INVALID_NULL_PARAM))"

text \<open>Reading computes and keeps the string of the name that is given.\<close>

definition axiom_element_get_attribute ::
    "alloc \<Rightarrow> om_store \<Rightarrow> ptr \<Rightarrow> axutil_qname option \<Rightarrow> ptr result" where
  "axiom_element_get_attribute malloc S om_element qname =
     (case (qname, om_element) of
        (Some q, Some e) \<Rightarrow>
          res_bind (axutil_qname_to_string malloc q) (\<lambda>(name, _).
            case (elt_attributes (os_elements S e), name) of
              (Some ht, Some k) \<Rightarrow> axutil_hash_get malloc (Some ht) k AXIS2_HASH_KEY_STRING
            | _ \<Rightarrow> Inr None)
      | _ \<Rightarrow> Inl INVALID_NULL_PARAM)"

definition axiom_element_get_attribute_value ::
    "alloc \<Rightarrow> om_store \<Rightarrow> ptr \<Rightarrow> axutil_qname option \<Rightarrow> string option result" where
  "axiom_element_get_attribute_value malloc S om_element qname =
     (case (qname, om_element) of
        (Some q, Some e) \<Rightarrow>
          res_bind (axutil_qname_to_string malloc q) (\<lambda>(name, _).
            case (elt_attributes (os_elements S e), name) of
              (Some ht, Some k) \<Rightarrow>
                res_bind (axutil_hash_get malloc (Some ht) k AXIS2_HASH_KEY_STRING) (\<lambda>attr.
                  Inr (Option.bind attr (axiom_attribute_get_value S)))
            | _ \<Rightarrow> Inr None)
      | _ \<Rightarrow> Inl INVALID_NULL_PARAM)"

definition axiom_element_remove_attribute ::
    "alloc \<Rightarrow> om_store \<Rightarrow> nat \<Rightarrow> ptr \<Rightarrow> (axis2_status \<times> om_store) result" where
  "axiom_element_remove_attribute malloc S e om_attribute =
     (case om_attribute of
        None \<Rightarrow> Inl INVALID_NULL_PARAM
      | Some a \<Rightarrow>
          (case axiom_attribute_get_qname malloc S a of
             (None, S1) \<Rightarrow> Inr (AXIS2_FAILURE, S1)
           | (Some q, S1) \<Rightarrow>
               (case elt_attributes (os_elements S1 e) of
                  None \<Rightarrow> Inr (AXIS2_FAILURE, S1)
                | Some ht \<Rightarrow>
                    res_bind (axutil_qname_to_string malloc q) (\<lambda>(name, q').
                      let S2 = set_attribute a (\<lambda>x. x\<lparr>at_qname := Some q'\<rparr>) S1 in
                      case name of
                        None \<Rightarrow> Inr (AXIS2_FAILURE, S2)
                      | Some k \<Rightarrow>
                          res_bind (hash_put malloc ht k None) (\<lambda>ht'.
                            Inr (AXIS2_SUCCESS, set_element e (\<lambda>el. el\<lparr>elt_attributes := Some ht'\<rparr>) S2))))))"

text \<open>
  The name of an attribute as it is written in a document: with the prefix of its namespace. An attribute in a
  namespace without prefix has none.
\<close>

definition written_name :: "alloc \<Rightarrow> om_store \<Rightarrow> nat \<Rightarrow> string option result" where
  "written_name malloc S a =
     (case axiom_attribute_get_namespace S a of
        None \<Rightarrow> (case axutil_strdup malloc (axiom_attribute_get_localname S a) of Inl _ \<Rightarrow> Inr None | Inr s \<Rightarrow> Inr s)
      | Some n \<Rightarrow>
          (case axiom_namespace_get_prefix (os_namespaces S n) of
             None \<Rightarrow> Inr None
           | Some p \<Rightarrow>
               res_bind (axutil_stracat malloc (Some p) (Some '':'')) (\<lambda>t.
                 axutil_stracat malloc t (axiom_attribute_get_localname S a))))"

definition by_name_body ::
    "alloc \<Rightarrow> om_store \<Rightarrow> string \<Rightarrow> nat hash_entry \<Rightarrow> string option result \<Rightarrow> bool \<times> string option result" where
  "by_name_body malloc S attr_name entry found =
     (case e_val entry of
        None \<Rightarrow> (False, found)
      | Some a \<Rightarrow>
          (case written_name malloc S a of
             Inl err \<Rightarrow> (True, Inl err)
           | Inr s \<Rightarrow>
               if s \<noteq> None \<and> axutil_strcmp s (Some attr_name) = 0 then (True, Inr (axiom_attribute_get_value S a))
               else (False, found)))"

definition axiom_element_get_attribute_value_by_name ::
    "alloc \<Rightarrow> om_store \<Rightarrow> ptr \<Rightarrow> string option \<Rightarrow> string option result" where
  "axiom_element_get_attribute_value_by_name malloc S om_element attr_name =
     (case (attr_name, om_element) of
        (Some name, Some e) \<Rightarrow>
          (case elt_attributes (os_elements S e) of
             None \<Rightarrow> Inr None
           | Some ht \<Rightarrow>
               (case axutil_hash_first_impl malloc (Some ht) False of
                  Inl err \<Rightarrow> if err = NO_MEMORY then Inr None else Inl err
                | Inr hi \<Rightarrow> res_bind (hash_foreach ht (by_name_body malloc S name) hi (Inr None)) id))
      | _ \<Rightarrow> Inl INVALID_NULL_PARAM)"

section \<open>Creating elements\<close>

text \<open>A released structure is not cleared; that it was released is recorded.\<close>

definition axiom_namespace_free :: "om_store \<Rightarrow> nat \<Rightarrow> om_store" where
  "axiom_namespace_free S n =
     (let S1 = set_namespace n (\<lambda>ns. ns\<lparr>ns_ref := ns_ref ns - 1\<rparr>) S in
      if ns_ref (os_namespaces S1 n) > 0 then S1 else S1\<lparr>os_released := n # os_released S1\<rparr>)"

definition sizeof_element :: nat where "sizeof_element = 88"

definition empty_element :: "string option \<Rightarrow> axiom_element" where
  "empty_element localname = \<lparr>elt_ns = None, elt_localname = localname, elt_attributes = None, elt_namespaces = None,
     elt_qname = None, elt_next_ns_prefix_number = 0, elt_is_empty = False\<rparr>"

text \<open>The new node is linked under the parent, if there is one, and gets its type and its element.\<close>

definition hang_element :: "om_heap \<Rightarrow> nat \<Rightarrow> nat \<Rightarrow> ptr \<Rightarrow> om_heap result" where
  "hang_element h nd e parent =
     res_bind (case parent of None \<Rightarrow> Inr h | Some _ \<Rightarrow> append_child h parent (Some nd)) (\<lambda>h1.
     res_bind (axiom_node_set_complete h1 (Some nd) False) (\<lambda>h2.
     res_bind (axiom_node_set_node_type h2 (Some nd) AXIOM_ELEMENT) (\<lambda>h3.
       axiom_node_set_data_element h3 (Some nd) (Some e))))"

text \<open>
  The namespace of a new element: one that is in scope takes the place of the given one, which is released;
  otherwise the given one is declared.
\<close>

definition take_namespace :: "alloc \<Rightarrow> om_store \<Rightarrow> nat \<Rightarrow> nat \<Rightarrow> nat \<Rightarrow> om_store result option" where
  "take_namespace malloc S e nd n =
     ns_found (axiom_element_find_namespace malloc S e nd (axiom_namespace_get_uri (os_namespaces S n))
                 (axiom_namespace_get_prefix (os_namespaces S n)))
       (\<lambda>found.
          case found of
            Some d \<Rightarrow>
              let S1 = set_element e (\<lambda>el. el\<lparr>elt_ns := Some d\<rparr>) S in
              Some (Inr (if n \<noteq> d then axiom_namespace_free S1 n else S1))
          | None \<Rightarrow>
              (case axiom_element_declare_namespace malloc S (Some e) (Some nd) (Some n) of
                 None \<Rightarrow> None
               | Some (Inl err) \<Rightarrow>
                   Some (if err = UNDEFINED_BEHAVIOUR \<or> err = BUILDER_INPUT then Inl err else Inr S)
               | Some (Inr (st, S1)) \<Rightarrow>
                   Some (Inr (if st = AXIS2_SUCCESS then set_element e (\<lambda>el. el\<lparr>elt_ns := Some n\<rparr>) S1 else S1))))"

text \<open>\<open>nd\<close> and \<open>e\<close> are the addresses the allocator returns for the node and the element.\<close>

definition axiom_element_create ::
    "alloc \<Rightarrow> om_store \<Rightarrow> nat \<Rightarrow> nat \<Rightarrow> ptr \<Rightarrow> string option \<Rightarrow> ptr \<Rightarrow> om_store result option" where
  "axiom_element_create malloc S nd e parent localname ns =
     (if localname = None then Some (Inl INVALID_NULL_PARAM)
      else
        (case axiom_node_create malloc nd (os_nodes S) of
           Inl err \<Rightarrow> Some (Inl NO_MEMORY)
         | Inr (_, h) \<Rightarrow>
             if \<not> malloc sizeof_element then Some (Inl NO_MEMORY)
             else
               (case axutil_string_create malloc 0 localname of
                  Inl _ \<Rightarrow> Some (Inl NO_MEMORY)
                | Inr _ \<Rightarrow>
                    (case hang_element h nd e parent of
                       Inl err \<Rightarrow> Some (Inl err)
                     | Inr h' \<Rightarrow>
                         (let S1 = set_element e (\<lambda>_. empty_element localname) (S\<lparr>os_nodes := h'\<rparr>) in
                          case ns of
                            None \<Rightarrow> Some (Inr S1)
                          | Some n \<Rightarrow> take_namespace malloc S1 e nd n)))))"

text \<open>
  A namespace for the URI of the name is made, at \<open>fresh\<close>, when none is in scope. When it cannot be made or declared, the
  element and the node are released, but the node stays linked under its parent.
\<close>

definition axiom_element_create_with_qname ::
    "alloc \<Rightarrow> om_store \<Rightarrow> nat \<Rightarrow> nat \<Rightarrow> nat \<Rightarrow> ptr \<Rightarrow> axutil_qname option \<Rightarrow> (ptr \<times> om_store) result option" where
  "axiom_element_create_with_qname malloc S nd e fresh parent qname =
     (case qname of
        None \<Rightarrow> Some (Inl INVALID_NULL_PARAM)
      | Some q \<Rightarrow>
          (case axiom_element_create malloc S nd e parent (Some (localpart q)) None of
             None \<Rightarrow> None
           | Some (Inl err) \<Rightarrow> Some (Inl err)
           | Some (Inr S1) \<Rightarrow>
               if namespace_uri q = None \<or> axutil_strcmp (namespace_uri q) (Some '''') = 0 then Some (Inr (Some e, S1))
               else
                 ns_found (axiom_element_find_namespace malloc S1 e nd (namespace_uri q) (prefix q)) (\<lambda>found.
                   if found \<noteq> None then Some (Inr (Some e, set_element e (\<lambda>el. el\<lparr>elt_ns := found\<rparr>) S1))
                   else
                     (case axiom_namespace_create malloc (namespace_uri q) (prefix q) of
                        Inl err \<Rightarrow>
                          if err = UNDEFINED_BEHAVIOUR then Some (Inl err)
                          else Some (Inr (None, S1\<lparr>os_nodes := (os_nodes S1)(nd := None)\<rparr>))
                      | Inr ns \<Rightarrow>
                          (let S2 = set_namespace fresh (\<lambda>_. ns) S1 in
                           case axiom_element_declare_namespace malloc S2 (Some e) (Some nd) (Some fresh) of
                             None \<Rightarrow> None
                           | Some (Inl err) \<Rightarrow> Some (Inl err)
                           | Some (Inr (st, S3)) \<Rightarrow>
                               if st = AXIS2_SUCCESS
                               then Some (Inr (Some e, set_element e (\<lambda>el. el\<lparr>elt_ns := Some fresh\<rparr>) S3))
                               else
                                 (let S4 = axiom_namespace_free S3 fresh in
                                  Some (Inr (None, S4\<lparr>os_nodes := (os_nodes S4)(nd := None)\<rparr>))))))))"

section \<open>An added attribute is found\<close>

definition attrs :: "om_store \<Rightarrow> nat \<Rightarrow> string \<Rightarrow> ptr" where
  "attrs S e = (case elt_attributes (os_elements S e) of None \<Rightarrow> Map.empty | Some ht \<Rightarrow> hash_abs ht)"

definition attributes_ok :: "om_store \<Rightarrow> bool" where
  "attributes_ok S \<longleftrightarrow> (\<forall>e ht. elt_attributes (os_elements S e) = Some ht \<longrightarrow> hash_inv ht)"

definition attribute_room :: "om_store \<Rightarrow> nat \<Rightarrow> bool" where
  "attribute_room S e \<longleftrightarrow> (case elt_attributes (os_elements S e) of None \<Rightarrow> True | Some ht \<Rightarrow> unat (h_count ht) < 2 ^ 31 - 1)"

text \<open>The string under which an attribute is kept.\<close>

definition attr_key :: "om_store \<Rightarrow> nat \<Rightarrow> string" where
  "attr_key S a =
     key_of (the (at_localname (os_attributes S a)))
       (Option.bind (at_ns (os_attributes S a)) (\<lambda>n. ns_uri (os_namespaces S n)))
       (Option.bind (at_ns (os_attributes S a)) (\<lambda>n. ns_prefix (os_namespaces S n)))"

definition qname_key :: "axutil_qname \<Rightarrow> string" where
  "qname_key q = key_of (localpart q) (namespace_uri q) (prefix q)"

lemma get_attribute_spec:
  assumes "attributes_ok S" "mem_ok malloc" "qname_string q = None" "prefix_ok (qname_key q)"
  shows "axiom_element_get_attribute malloc S (Some e) (Some q) = Inr (attrs S e (qname_key q))"
    "axiom_element_get_attribute_value malloc S (Some e) (Some q) =
       Inr (Option.bind (attrs S e (qname_key q)) (\<lambda>a. at_value (os_attributes S a)))"
proof -
  have n: "axutil_qname_to_string malloc q = Inr (Some (qname_key q), q\<lparr>qname_string := Some (qname_key q)\<rparr>)"
    using to_string_key [OF assms(2,3)] by (simp add: Let_def qname_key_def)
  have t: "elt_attributes (os_elements S e) = Some ht \<Longrightarrow>
      axutil_hash_get malloc (Some ht) (qname_key q) AXIS2_HASH_KEY_STRING = Inr (hash_abs ht (qname_key q))" for ht
    using assms(1,4) table_get [of ht "qname_key q" malloc] by (simp add: attributes_ok_def)
  show "axiom_element_get_attribute malloc S (Some e) (Some q) = Inr (attrs S e (qname_key q))"
    "axiom_element_get_attribute_value malloc S (Some e) (Some q) =
       Inr (Option.bind (attrs S e (qname_key q)) (\<lambda>a. at_value (os_attributes S a)))"
    using n t by (cases "elt_attributes (os_elements S e)"; simp add: axiom_element_get_attribute_def
      axiom_element_get_attribute_value_def attrs_def axiom_attribute_get_value_def [abs_def])+
qed

text \<open>A store that differs from another in the attributes of one element only.\<close>

definition adds_attribute :: "om_store \<Rightarrow> nat \<Rightarrow> nat \<Rightarrow> om_store \<Rightarrow> bool" where
  "adds_attribute S e a S' \<longleftrightarrow> attributes_ok S' \<and> attrs S' = (attrs S)(e := (attrs S e)(attr_key S a \<mapsto> a)) \<and>
     (\<forall>x. at_value (os_attributes S' x) = at_value (os_attributes S x) \<and>
          at_localname (os_attributes S' x) = at_localname (os_attributes S x) \<and>
          at_ns (os_attributes S' x) = at_ns (os_attributes S x)) \<and>
     os_nodes S' = os_nodes S \<and>
     os_namespaces S' = os_namespaces S \<and>
     (\<forall>x. elt_namespaces (os_elements S' x) = elt_namespaces (os_elements S x))"

lemma attribute_table:
  assumes "attributes_ok S" "mem_ok malloc" "attribute_room S e"
  obtains ht where "hash_inv ht" "hash_abs ht = attrs S e" "unat (h_count ht) < 2 ^ 31 - 1"
    "(case elt_attributes (os_elements S e) of
        Some ht \<Rightarrow> Some ht
      | None \<Rightarrow> (case axutil_hash_make malloc of Inl _ \<Rightarrow> None | Inr ht \<Rightarrow> Some ht)) = Some ht"
proof (cases "elt_attributes (os_elements S e)")
  case None
  obtain ht :: "nat axutil_hash" where "axutil_hash_make malloc = Inr ht" "hash_inv ht" "hash_abs ht = Map.empty"
    "axutil_hash_count ht = 0" using make_spec [OF assms(2)] by blast
  with None that [of ht] show ?thesis by (simp add: attrs_def axutil_hash_count_def)
next
  case (Some ht)
  with that [of ht] assms show ?thesis by (simp add: attrs_def attributes_ok_def attribute_room_def)
qed

lemma add_to_table_spec:
  assumes "attributes_ok S" "mem_ok malloc" "attribute_room S e"
    and "at_qname (os_attributes S a) = None" "at_localname (os_attributes S a) \<noteq> None" "prefix_ok (attr_key S a)"
  shows "\<exists>S'. add_to_table malloc S e a = Inr (AXIS2_SUCCESS, S') \<and> adds_attribute S e a S'"
proof -
  obtain l where l: "at_localname (os_attributes S a) = Some l" using assms(5) by auto
  obtain ht where ht: "hash_inv ht" "hash_abs ht = attrs S e" "unat (h_count ht) < 2 ^ 31 - 1"
    "(case elt_attributes (os_elements S e) of
        Some ht \<Rightarrow> Some ht
      | None \<Rightarrow> (case axutil_hash_make malloc of Inl _ \<Rightarrow> None | Inr ht \<Rightarrow> Some ht)) = Some ht"
    using attribute_table [OF assms(1-3)] by metis
  obtain ht' where ht': "hash_put malloc ht (attr_key S a) (Some a) = Inr ht'" "hash_inv ht'"
    "hash_abs ht' = (hash_abs ht)(attr_key S a \<mapsto> a)"
    using hash_put_spec [OF ht(1) assms(6,2) ht(3)] by blast
  show ?thesis
    using assms(1,4) ht(2,4) ht' l
    by (auto simp: add_to_table_def adds_attribute_def axiom_attribute_get_qname_def qname_create_ok [OF assms(2)]
        to_string_key [OF assms(2)] Let_def set_attribute_def set_element_def axiom_attribute_increment_ref_def
        axiom_namespace_get_uri_def axiom_namespace_get_prefix_def attr_key_def attrs_def attributes_ok_def fun_eq_iff)
qed

text \<open>The search for a namespace reads the nodes, the tables of namespaces and the namespaces only.\<close>

definition same_namespaces :: "om_store \<Rightarrow> om_store \<Rightarrow> bool" where
  "same_namespaces S S' \<longleftrightarrow> os_nodes S' = os_nodes S \<and> os_namespaces S' = os_namespaces S \<and>
     (\<forall>x. elt_namespaces (os_elements S' x) = elt_namespaces (os_elements S x))"

lemma same_namespaces_scope:
  assumes "same_namespaces S S'"
  shows "tables_ok S' = tables_ok S" "decls S' = decls S" "declared S' = declared S" "store_ok S' = store_ok S"
proof -
  show d: "decls S' = decls S" using assms by (simp add: decls_def same_namespaces_def fun_eq_iff)
  have "declared S' es k = declared S es k" for es k using d by (induction es) (auto split: option.split)
  then show "declared S' = declared S" by blast
  show "tables_ok S' = tables_ok S" using assms by (simp add: tables_ok_def same_namespaces_def)
  then show "store_ok S' = store_ok S" using assms d by (simp add: store_ok_def same_namespaces_def)
qed

lemma search_here_same:
  assumes "same_namespaces S S'" "scope (os_nodes S) p (e # es)" "tables_ok S"
  shows "search_here malloc S' e p uri pre = search_here malloc S e p uri pre"
proof -
  have d: "axiom_element_get_default_namespace malloc S' e p = axiom_element_get_default_namespace malloc S e p"
    using default_namespace_spec [of S p "e # es" malloc] default_namespace_spec [of S' p "e # es" malloc] assms
      same_namespaces_scope [OF assms(1)] by (simp add: same_namespaces_def)
  have u: "uri_body S' = uri_body S" using assms(1) by (auto simp: uri_body_def fun_eq_iff same_namespaces_def split: option.split)
  have t: "table_uri malloc S' = table_uri malloc S" by (intro ext) (simp add: table_uri_def u split: sum.split)
  have n: "os_namespaces S' = os_namespaces S" "elt_namespaces (os_elements S' e) = elt_namespaces (os_elements S e)"
    using assms(1) by (simp_all add: same_namespaces_def)
  show ?thesis unfolding search_here_def d t n ..
qed

lemma find_same:
  assumes "scope (os_nodes S) p es" "same_namespaces S S'" "tables_ok S"
  shows "axiom_element_find_namespace malloc S' (hd es) p uri pre = axiom_element_find_namespace malloc S (hd es) p uri pre"
  using assms
proof (induction "os_nodes S" p es rule: scope.induct)
  case (outermost p n e)
  then have sc: "scope (os_nodes S) p [e]" by (auto intro: scope.intros)
  then have sc': "scope (os_nodes S') p [e]" using outermost(5) by (simp add: same_namespaces_def)
  show ?case using find_step [OF sc, of malloc uri pre] find_step [OF sc', of malloc uri pre]
      search_here_same [OF outermost(5) sc outermost(6), of malloc uri pre] outermost(4,5)
    by (auto simp: same_namespaces_def split: option.split sum.split)
next
  case (inner p n e e' q es)
  then have sc: "scope (os_nodes S) p (e # e' # es)" by (auto intro: scope.intros)
  then have sc': "scope (os_nodes S') p (e # e' # es)" using inner(7) by (simp add: same_namespaces_def)
  show ?case using find_step [OF sc, of malloc uri pre] find_step [OF sc', of malloc uri pre]
      search_here_same [OF inner(7) sc inner(8), of malloc uri pre] inner
    by (auto simp: same_namespaces_def split: option.split sum.split)
qed

text \<open>An attribute that is new to an element, and what has to hold of its namespace.\<close>

definition new_attribute :: "om_store \<Rightarrow> nat \<Rightarrow> bool" where
  "new_attribute S a \<longleftrightarrow> at_qname (os_attributes S a) = None \<and> at_localname (os_attributes S a) \<noteq> None \<and>
     prefix_ok (attr_key S a) \<and>
     (case at_ns (os_attributes S a) of
        None \<Rightarrow> True
      | Some n \<Rightarrow> ns_uri (os_namespaces S n) \<noteq> None \<and> prefix_ok (ns_key (os_namespaces S n)))"

lemma declares_attributes:
  assumes "declares S e n S'"
  shows "attributes_ok S' = attributes_ok S" "attrs S' = attrs S" "attribute_room S' x = attribute_room S x"
    "attr_key S' a = attr_key S a" "new_attribute S' a = new_attribute S a"
proof -
  have d: "os_attributes S' = os_attributes S" "\<And>x. elt_attributes (os_elements S' x) = elt_attributes (os_elements S x)"
    "\<And>m. ns_uri (os_namespaces S' m) = ns_uri (os_namespaces S m)"
    "\<And>m. ns_prefix (os_namespaces S' m) = ns_prefix (os_namespaces S m)"
    using assms by (simp_all add: declares_def)
  show "attributes_ok S' = attributes_ok S" "attrs S' = attrs S" "attribute_room S' x = attribute_room S x"
    using d(2) by (simp_all add: attributes_ok_def attrs_def attribute_room_def fun_eq_iff)
  show k: "attr_key S' a = attr_key S a" using d by (simp add: attr_key_def)
  show "new_attribute S' a = new_attribute S a" using d k by (auto simp: new_attribute_def ns_key_def split: option.split)
qed

lemma declares_frame: "declares S e n S' \<Longrightarrow> os_nodes S' = os_nodes S \<and> os_attributes S' = os_attributes S"
  by (simp add: declares_def)

text \<open>After the first half of \<^verbatim>\<open>axiom_element_add_attribute\<close> the namespace of the attribute is found from the element.\<close>

definition ns_in_scope :: "alloc \<Rightarrow> om_store \<Rightarrow> nat \<Rightarrow> nat \<Rightarrow> ptr \<Rightarrow> bool" where
  "ns_in_scope malloc S e p ns \<longleftrightarrow>
     (case ns of
        None \<Rightarrow> True
      | Some n \<Rightarrow> axiom_element_find_namespace malloc S e p (ns_uri (os_namespaces S n)) (ns_prefix (os_namespaces S n)) =
                    Some (Inr (Some n)))"

lemma namespace_first:
  assumes "scope (os_nodes S) p (e # es)" "store_ok S" "mem_ok malloc" "table_room S e" "new_attribute S a"
  shows "\<exists>S1. axiom_element_add_attribute malloc S (Some e) (Some a) (Some p) = Some (add_to_table malloc S1 e a) \<and>
    (S1 = S \<or> (\<exists>n. declares S e n S1)) \<and> store_ok S1 \<and> ns_in_scope malloc S1 e p (at_ns (os_attributes S a))"
proof (cases "at_ns (os_attributes S a)")
  case None
  then show ?thesis using assms(2)
    by (auto simp: axiom_element_add_attribute_def axiom_attribute_get_namespace_def ns_in_scope_def)
next
  case (Some n)
  let ?ns = "os_namespaces S n"
  obtain u where u: "ns_uri ?ns = Some u" and pk: "prefix_ok (prefix_key (ns_prefix ?ns))"
    using assms(5) Some by (auto simp: new_attribute_def ns_key_prefix)
  obtain r where r: "axiom_element_find_namespace malloc S e p (Some u) (ns_prefix ?ns) = Some (Inr r)"
    using find_returns [OF assms(1-3) pk] by blast
  obtain S' where S': "declare_at malloc S e n = Inr (AXIS2_SUCCESS, S')" "declares S e n S'"
    using declare_at_spec [of S malloc e n] assms(2-4) pk by (auto simp: store_ok_def ns_key_prefix)
  then have ok: "store_ok S'" "scope (os_nodes S') p (e # es)" "decls S' e (prefix_key (ns_prefix ?ns)) = Some n"
    "ns_uri (os_namespaces S' n) = Some u" "ns_prefix (os_namespaces S' n) = ns_prefix ?ns"
    using declares_ok [OF assms(2) S'(2)] u assms(1) by (simp_all add: declares_def ns_key_prefix)
  then have "ns_in_scope malloc S' e p (Some n)"
    using find_here [OF ok(2,1) pk ok(3,4), of malloc] by (simp add: ns_in_scope_def)
  then show ?thesis using Some u r S' ok(1) assms(2)
    by (cases "r = Some n") (auto simp: axiom_element_add_attribute_def axiom_attribute_get_namespace_def ns_found_def
      axiom_namespace_get_uri_def axiom_namespace_get_prefix_def ns_in_scope_def
      axiom_element_declare_namespace_assume_param_ownership_def)
qed

text \<open>
  C19: adding an attribute to an element (\<^verbatim>\<open>axiom_element_add_attribute\<close>) succeeds whenever there is memory, and then the
  attribute and its value are found under its qualified name (\<^verbatim>\<open>axiom_element_get_attribute\<close>,
  \<^verbatim>\<open>axiom_element_get_attribute_value\<close>); what is found under the names of all other attributes stays what it was,
  and the namespace of the attribute is in scope at the element: the search for its URI and prefix returns that namespace.
\<close>

theorem added_attribute_found:
  assumes "scope (os_nodes S) p (e # es)" "store_ok S" "attributes_ok S" "mem_ok malloc"
    and "table_room S e" "attribute_room S e" "new_attribute S a"
    and "qname_string q = None" "qname_key q = attr_key S a"
  shows "\<exists>S'. axiom_element_add_attribute malloc S (Some e) (Some a) (Some p) = Some (Inr (AXIS2_SUCCESS, S')) \<and>
    axiom_element_get_attribute malloc S' (Some e) (Some q) = Inr (Some a) \<and>
    axiom_element_get_attribute_value malloc S' (Some e) (Some q) = Inr (at_value (os_attributes S a)) \<and>
    (\<forall>q'. qname_string q' = None \<and> prefix_ok (qname_key q') \<and> qname_key q' \<noteq> qname_key q \<longrightarrow>
       axiom_element_get_attribute malloc S' (Some e) (Some q') = axiom_element_get_attribute malloc S (Some e) (Some q')) \<and>
    store_ok S' \<and> attributes_ok S' \<and> ns_in_scope malloc S' e p (at_ns (os_attributes S a))"
proof -
  obtain S1 where S1: "axiom_element_add_attribute malloc S (Some e) (Some a) (Some p) = Some (add_to_table malloc S1 e a)"
    "S1 = S \<or> (\<exists>n. declares S e n S1)" "store_ok S1" "ns_in_scope malloc S1 e p (at_ns (os_attributes S a))"
    using namespace_first [OF assms(1,2,4,5,7)] by blast
  have k: "attributes_ok S1" "attrs S1 = attrs S" "attribute_room S1 e" "attr_key S1 a = attr_key S a"
    "new_attribute S1 a" "os_nodes S1 = os_nodes S" "os_attributes S1 = os_attributes S"
    using S1(2) assms(3,6,7) declares_attributes [of S e _ S1] declares_frame [of S e _ S1] by metis+
  obtain S' where S': "add_to_table malloc S1 e a = Inr (AXIS2_SUCCESS, S')" "adds_attribute S1 e a S'"
    using add_to_table_spec [OF k(1) assms(4) k(3)] k(5) by (auto simp: new_attribute_def)
  have same: "same_namespaces S1 S'" and a: "attributes_ok S'" "attrs S' e = (attrs S e)(attr_key S a \<mapsto> a)"
    "at_value (os_attributes S' a) = at_value (os_attributes S a)"
    using S'(2) k by (simp_all add: adds_attribute_def same_namespaces_def)
  have "ns_in_scope malloc S' e p (at_ns (os_attributes S a))"
    using S1(3,4) find_same [of S1 p "e # es" S' malloc] same k(6) assms(1)
    by (auto simp: ns_in_scope_def store_ok_def same_namespaces_def split: option.splits)
  moreover have "prefix_ok (qname_key q)" using assms(7,9) by (simp add: new_attribute_def)
  moreover have "axiom_element_get_attribute malloc S' (Some e) (Some q') = axiom_element_get_attribute malloc S (Some e) (Some q')"
    if "qname_string q' = None" "prefix_ok (qname_key q')" "qname_key q' \<noteq> qname_key q" for q'
    using get_attribute_spec(1) [OF a(1) assms(4) that(1,2)] get_attribute_spec(1) [OF assms(3,4) that(1,2)] that(3) a(2)
      assms(9) by simp
  ultimately show ?thesis
    using S1(1,3) S'(1) a get_attribute_spec [OF a(1) assms(4,8), of e] same_namespaces_scope(4) [OF same] assms(9)
    by simp
qed

text \<open>An attribute of the inner of the two elements of the example, in a namespace that is not yet declared.\<close>

definition with_attribute :: om_store where
  "with_attribute = two_elements\<lparr>os_attributes := (\<lambda>_. \<lparr>at_localname = Some ''type'', at_value = Some ''text'',
     at_ns = Some 5, at_qname = None, at_ref = 0\<rparr>)\<rparr>"

definition type_name :: axutil_qname where
  "type_name = \<lparr>localpart = ''type'', namespace_uri = Some ''urn:soap'', prefix = Some ''soap'', qname_string = None,
     qname_ref = 1\<rparr>"

lemma with_attribute_ok:
  "scope (os_nodes with_attribute) 11 [1, 0]" "store_ok with_attribute" "attributes_ok with_attribute"
  "table_room with_attribute 1" "attribute_room with_attribute 1" "new_attribute with_attribute 7"
  "qname_string type_name = None" "qname_key type_name = attr_key with_attribute 7"
proof -
  have "same_namespaces two_elements with_attribute" by (simp add: same_namespaces_def with_attribute_def)
  then show "store_ok with_attribute" using same_namespaces_scope(4) two_elements_ok(2) by blast
  show "scope (os_nodes with_attribute) 11 [1, 0]" "table_room with_attribute 1"
    using two_elements_ok(1,3) by (simp_all add: with_attribute_def table_room_def)
qed (simp_all add: with_attribute_def two_elements_def attributes_ok_def attribute_room_def new_attribute_def attr_key_def
    key_of_def prefix_ok_def ns_key_def type_name_def qname_key_def)

theorem added_attribute_found_witness:
  "\<exists>S'. axiom_element_add_attribute (\<lambda>n. True) with_attribute (Some 1) (Some 7) (Some 11) = Some (Inr (AXIS2_SUCCESS, S')) \<and>
     axiom_element_get_attribute_value (\<lambda>n. True) S' (Some 1) (Some type_name) = Inr (Some ''text'') \<and>
     axiom_element_find_namespace (\<lambda>n. True) S' 1 11 (ns_uri (os_namespaces S' 5)) (ns_prefix (os_namespaces S' 5)) =
       Some (Inr (Some 5))"
proof -
  have "at_value (os_attributes with_attribute 7) = Some ''text''" "at_ns (os_attributes with_attribute 7) = Some 5"
    by (simp_all add: with_attribute_def)
  then show ?thesis
    using added_attribute_found [OF with_attribute_ok(1,2,3) _ with_attribute_ok(4-8), of "\<lambda>n. True"]
    by (auto simp: mem_ok_def ns_in_scope_def)
qed

section \<open>Attributes by their written names\<close>

text \<open>The name of an attribute in a document.\<close>

definition shown_name :: "om_store \<Rightarrow> nat \<Rightarrow> string option" where
  "shown_name S a =
     (case at_ns (os_attributes S a) of
        None \<Rightarrow> at_localname (os_attributes S a)
      | Some n \<Rightarrow> map_option (\<lambda>p. p @ '':'' @ (case at_localname (os_attributes S a) of None \<Rightarrow> '''' | Some l \<Rightarrow> l))
                    (ns_prefix (os_namespaces S n)))"

lemma written_name_spec: "mem_ok malloc \<Longrightarrow> written_name malloc S a = Inr (shown_name S a)"
  by (auto simp: written_name_def shown_name_def axiom_attribute_get_namespace_def axiom_attribute_get_localname_def
      axiom_namespace_get_prefix_def axutil_stracat_def axutil_strdup_def mem_okD split: option.split)

lemma by_name_loop:
  assumes "mem_ok malloc"
  shows "list_loop (by_name_body malloc S name) es (Inr r) =
    (case find (\<lambda>e. \<exists>a. e_val e = Some a \<and> shown_name S a = Some name) es of
       None \<Rightarrow> Inr r
     | Some e \<Rightarrow> Inr (at_value (os_attributes S (the (e_val e)))))"
  by (induction es arbitrary: r)
    (auto simp: by_name_body_def written_name_spec [OF assms] axiom_attribute_get_value_def split: option.splits)

text \<open>
  \<^verbatim>\<open>axiom_element_get_attribute_value_by_name\<close>, which goes through the attributes of an element and builds the name of
  each as it is written, always returns: the value of an attribute that is written with this name when the element
  has one, and NULL when it has none.
\<close>

theorem attribute_by_name:
  assumes "attributes_ok S" "mem_ok malloc"
  shows "\<exists>r. axiom_element_get_attribute_value_by_name malloc S (Some e) (Some name) = Inr r \<and>
    (if \<exists>k a. attrs S e k = Some a \<and> shown_name S a = Some name
     then \<exists>k a. attrs S e k = Some a \<and> shown_name S a = Some name \<and> r = at_value (os_attributes S a)
     else r = None)"
proof (cases "elt_attributes (os_elements S e)")
  case None
  then show ?thesis by (simp add: axiom_element_get_attribute_value_by_name_def attrs_def)
next
  case (Some ht)
  then have inv: "hash_inv ht" and at: "attrs S e = hash_abs ht" using assms(1) by (simp_all add: attributes_ok_def attrs_def)
  obtain es q where es: "axutil_hash_first_impl malloc (Some ht) False = Inr q"
    "\<forall>(body :: nat hash_entry \<Rightarrow> string option result \<Rightarrow> bool \<times> string option result) s.
       hash_foreach ht body q s = Inr (list_loop body es s)"
    "\<forall>k v. hash_abs ht k = Some v \<longleftrightarrow> (\<exists>e \<in> set es. entry_key e = k \<and> e_val e = Some v)"
    using iterate_once [of ht malloc, where ?'s = "string option result"] inv mem_okD [OF assms(2)] by blast
  let ?f = "find (\<lambda>e. \<exists>a. e_val e = Some a \<and> shown_name S a = Some name) es"
  have r: "axiom_element_get_attribute_value_by_name malloc S (Some e) (Some name) =
      (case ?f of None \<Rightarrow> Inr None | Some e \<Rightarrow> Inr (at_value (os_attributes S (the (e_val e)))))"
    using es(1,2) Some by (simp add: axiom_element_get_attribute_value_by_name_def by_name_loop [OF assms(2)])
  show ?thesis
  proof (cases ?f)
    case None
    then have "\<not> (\<exists>k a. attrs S e k = Some a \<and> shown_name S a = Some name)" using es(3) at by (auto simp: find_None_iff)
    with None r show ?thesis by auto
  next
    case (Some x)
    then obtain a where "x \<in> set es" "e_val x = Some a" "shown_name S a = Some name" by (auto simp: find_Some_iff)
    then have "attrs S e (entry_key x) = Some a" using es(3) at by auto
    with Some r \<open>e_val x = Some a\<close> \<open>shown_name S a = Some name\<close> show ?thesis by auto
  qed
qed

theorem attribute_by_name_witness:
  "\<exists>S'. add_to_table (\<lambda>n. True) with_attribute 1 7 = Inr (AXIS2_SUCCESS, S') \<and>
     axiom_element_get_attribute_value_by_name (\<lambda>n. True) S' (Some 1) (Some ''soap:type'') = Inr (Some ''text'')"
proof -
  have m: "mem_ok (\<lambda>n. True)" by (simp add: mem_ok_def)
  obtain S' where S': "add_to_table (\<lambda>n. True) with_attribute 1 7 = Inr (AXIS2_SUCCESS, S')"
    "adds_attribute with_attribute 1 7 S'"
    using add_to_table_spec [OF with_attribute_ok(3) m with_attribute_ok(5), of 7] with_attribute_ok(6)
    by (auto simp: new_attribute_def)
  have a: "attributes_ok S'" "attrs S' 1 (attr_key with_attribute 7) = Some 7" "shown_name S' 7 = Some ''soap:type''"
    "\<And>x. at_value (os_attributes S' x) = Some ''text''"
    using S'(2) by (simp_all add: adds_attribute_def shown_name_def with_attribute_def two_elements_def)
  then have "\<exists>k a. attrs S' 1 k = Some a \<and> shown_name S' a = Some ''soap:type''" by blast
  with attribute_by_name [OF a(1) m, of 1 "''soap:type''"] a(4) S'(1) show ?thesis by metis
qed

section \<open>A new element has the namespace it is given\<close>

text \<open>The elements around a node depend on the types, the data and the parents only.\<close>

definition same_shape :: "om_heap \<Rightarrow> om_heap \<Rightarrow> bool" where
  "same_shape h h' \<longleftrightarrow> (\<forall>p n. h p = Some n \<longrightarrow>
     (\<exists>m. h' p = Some m \<and> n_type m = n_type n \<and> n_data m = n_data n \<and> n_parent m = n_parent n))"

lemma same_shape_parent:
  assumes "same_shape h h'" "h p = Some n" "parent_element h p = Inr r"
  shows "parent_element h' p = Inr r"
proof -
  obtain m where m: "h' p = Some m" "n_parent m = n_parent n" using assms(1,2) by (auto simp: same_shape_def)
  show ?thesis
  proof (cases "n_parent n")
    case None
    then show ?thesis using assms(2,3) m by (simp add: parent_element_def axiom_node_get_parent_def node_at_def)
  next
    case (Some q)
    then obtain k where k: "h q = Some k" using assms(2,3)
      by (cases "h q") (simp_all add: parent_element_def axiom_node_get_parent_def axiom_node_get_node_type_def node_at_def)
    then obtain k' where "h' q = Some k'" "n_type k' = n_type k" "n_data k' = n_data k"
      using assms(1) by (auto simp: same_shape_def)
    with k Some m assms(2,3) show ?thesis
      by (auto simp: parent_element_def axiom_node_get_parent_def axiom_node_get_node_type_def
          axiom_node_get_data_element_def node_at_def split: if_splits)
  qed
qed

lemma same_shapeD:
  assumes "same_shape h h'" "h p = Some n"
  obtains m where "h' p = Some m" "n_type m = n_type n" "n_data m = n_data n" "n_parent m = n_parent n"
  using assms unfolding same_shape_def by blast

lemma same_shape_scope:
  assumes "scope h p es" "same_shape h h'"
  shows "scope h' p es"
  using assms
proof (induction rule: scope.induct)
  case (outermost h p n e)
  then obtain m where "h' p = Some m" "n_type m = AXIOM_ELEMENT" "n_data m = Some e" by (metis same_shapeD)
  then show ?case using same_shape_parent outermost by (blast intro: scope.outermost)
next
  case (inner h p n e e' q es)
  then obtain m where "h' p = Some m" "n_type m = AXIOM_ELEMENT" "n_data m = Some e" by (metis same_shapeD)
  then show ?case using same_shape_parent inner by (blast intro: scope.inner)
qed

lemma new_scope:
  assumes "scope h q es" "h nd = Some m" "n_type m = AXIOM_ELEMENT" "n_data m = Some e" "n_parent m = Some q"
  shows "scope h nd (e # es)"
proof -
  obtain k e' xs where k: "h q = Some k" "n_type k = AXIOM_ELEMENT" "n_data k = Some e'" "es = e' # xs"
    using assms(1) by (cases rule: scope.cases) auto
  then have "parent_element h nd = Inr (Some (e', q))"
    using assms(2,5) by (simp add: parent_element_def axiom_node_get_parent_def axiom_node_get_node_type_def
        axiom_node_get_data_element_def node_at_def)
  then show ?thesis using assms k(4) scope.inner by blast
qed

text \<open>What linking the new node does to the heap.\<close>

lemma hang_element_spec:
  assumes "h q = Some par" "h nd = None" "n_last_child par \<noteq> None \<longrightarrow> h (the (n_last_child par)) \<noteq> None"
    and "axiom_node_create malloc nd h = Inr (a, h0)"
  shows "\<exists>h' m. hang_element h0 nd e (Some q) = Inr h' \<and> h' nd = Some m \<and> n_type m = AXIOM_ELEMENT \<and>
    n_data m = Some e \<and> n_parent m = Some q \<and> same_shape h h'"
proof -
  have h0: "h0 = h(nd \<mapsto> \<lparr>n_doc = None, n_builder = None, n_parent = None, n_prev_sibling = None,
      n_next_sibling = None, n_first_child = None, n_last_child = None, n_type = AXIOM_INVALID,
      n_done = False, n_data = None\<rparr>)" using assms(4) by (auto simp: axiom_node_create_def split: if_splits)
  show ?thesis using assms(1-3)
    by (cases "n_first_child par"; cases "n_last_child par")
      (auto simp: hang_element_def append_child_def node_at_def set_node_def axiom_node_set_complete_def set_field_def
        axiom_node_set_node_type_def axiom_node_set_data_element_def same_shape_def h0)
qed

text \<open>Stores with the same nodes and declarations, up to the counters of the namespaces.\<close>

lemma counted_ok:
  assumes "store_ok S" "\<And>x. elt_namespaces (os_elements S' x) = elt_namespaces (os_elements S x)"
    and "\<And>m. ns_uri (os_namespaces S' m) = ns_uri (os_namespaces S m)"
    and "\<And>m. ns_prefix (os_namespaces S' m) = ns_prefix (os_namespaces S m)"
  shows "store_ok S'" "decls S' = decls S" "declared S' = declared S"
proof -
  show d: "decls S' = decls S" using assms(2) by (simp add: decls_def fun_eq_iff)
  have "declared S' es k = declared S es k" for es k using d by (induction es) (auto split: option.split)
  then show "declared S' = declared S" by blast
  show "store_ok S'" using assms d by (simp add: store_ok_def tables_ok_def ns_key_def)
qed

lemma take_namespace_spec:
  assumes "scope (os_nodes S) p (e # es)" "store_ok S" "mem_ok malloc" "table_room S e"
    and "ns_uri (os_namespaces S n) = Some u" "prefix_ok (ns_key (os_namespaces S n))"
  shows "\<exists>S' d. take_namespace malloc S e p n = Some (Inr S') \<and> elt_ns (os_elements S' e) = Some d \<and>
    ns_uri (os_namespaces S' d) = Some u \<and>
    (ns_key (os_namespaces S n) \<noteq> '''' \<longrightarrow> ns_prefix (os_namespaces S' d) = ns_prefix (os_namespaces S n)) \<and>
    store_ok S' \<and> os_nodes S' = os_nodes S \<and> elt_localname (os_elements S' e) = elt_localname (os_elements S e) \<and>
    (\<forall>k. k \<noteq> ns_key (os_namespaces S n) \<longrightarrow> declared S' (e # es) k = declared S (e # es) k)"
proof -
  let ?ns = "os_namespaces S n" and ?set = "\<lambda>S d. set_element e (\<lambda>el. el\<lparr>elt_ns := Some d\<rparr>) S"
  have pk: "prefix_ok (prefix_key (ns_prefix ?ns))" using assms(6) by (simp add: ns_key_prefix)
  obtain r where r: "axiom_element_find_namespace malloc S e p (Some u) (ns_prefix ?ns) = Some (Inr r)"
    "\<forall>d. r = Some d \<longrightarrow> ns_uri (os_namespaces S d) = Some u \<and>
       (prefix_key (ns_prefix ?ns) \<noteq> '''' \<longrightarrow> ns_prefix (os_namespaces S d) = ns_prefix ?ns)"
    using find_returns [OF assms(1-3) pk] by blast
  show ?thesis
  proof (cases r)
    case (Some d)
    let ?S' = "if n \<noteq> d then axiom_namespace_free (?set S d) n else ?set S d"
    have t: "take_namespace malloc S e p n = Some (Inr ?S')"
      using Some r(1) assms(5) by (simp add: take_namespace_def ns_found_def axiom_namespace_get_uri_def
          axiom_namespace_get_prefix_def Let_def)
    have f: "elt_namespaces (os_elements ?S' x) = elt_namespaces (os_elements S x)" "elt_ns (os_elements ?S' e) = Some d"
      "ns_uri (os_namespaces ?S' m) = ns_uri (os_namespaces S m)" "os_nodes ?S' = os_nodes S"
      "ns_prefix (os_namespaces ?S' m) = ns_prefix (os_namespaces S m)"
      "elt_localname (os_elements ?S' e) = elt_localname (os_elements S e)" for x m
      by (simp_all add: axiom_namespace_free_def set_element_def set_namespace_def Let_def)
    show ?thesis using t f Some r(2) counted_ok [OF assms(2) f(1,3,5)]
      by (intro exI [of _ ?S'] exI [of _ d]) (simp add: ns_key_prefix)
  next
    case None
    obtain S' where S': "declare_at malloc S e n = Inr (AXIS2_SUCCESS, S')" "declares S e n S'"
      using declare_at_spec [of S malloc e n] assms by (auto simp: store_ok_def)
    have t: "take_namespace malloc S e p n = Some (Inr (?set S' n))"
      using None r(1) assms(5) S'(1) by (simp add: take_namespace_def axiom_element_declare_namespace_def ns_found_def
          axiom_namespace_get_uri_def axiom_namespace_get_prefix_def)
    have "store_ok S'" using declares_ok [OF assms(2) S'(2)] assms(5) by simp
    then have c: "store_ok (?set S' n)" "declared (?set S' n) = declared S'"
      using counted_ok [of S' "?set S' n"] by (simp_all add: set_element_def)
    show ?thesis using t c S'(2) assms(5) declares_declared(2) [OF S'(2)]
      by (intro exI [of _ "?set S' n"] exI [of _ n]) (simp add: set_element_def declares_def split: option.split)
  qed
qed

text \<open>
  C20: an element that is created under another one with a namespace (\<^verbatim>\<open>axiom_element_create\<close>, with memory) becomes the
  innermost element of the scope of its node, has the local name and a namespace with the URI that was given (and
  the prefix, when it has one), whether one in scope was taken or the given one was declared; every other prefix means
  at the new element what it means at its parent.
\<close>

theorem created_element_scope:
  assumes "scope (os_nodes S) q es" "os_nodes S q = Some par" "os_nodes S nd = None" "e \<notin> set es"
    and "n_last_child par \<noteq> None \<longrightarrow> os_nodes S (the (n_last_child par)) \<noteq> None"
    and "store_ok S" "mem_ok malloc" "ns_uri (os_namespaces S n) = Some u" "prefix_ok (ns_key (os_namespaces S n))"
  shows "\<exists>S' d. axiom_element_create malloc S nd e (Some q) (Some l) (Some n) = Some (Inr S') \<and>
    scope (os_nodes S') nd (e # es) \<and> store_ok S' \<and> axiom_element_get_localname S' e = Some l \<and>
    axiom_element_get_namespace malloc S' e nd = Some (Inr (Some d)) \<and> ns_uri (os_namespaces S' d) = Some u \<and>
    (ns_key (os_namespaces S n) \<noteq> '''' \<longrightarrow> ns_prefix (os_namespaces S' d) = ns_prefix (os_namespaces S n)) \<and>
    (\<forall>k. k \<noteq> ns_key (os_namespaces S n) \<longrightarrow> declared S' (e # es) k = declared S es k)"
proof -
  obtain h0 where h0: "axiom_node_create malloc nd (os_nodes S) = Inr (Some nd, h0)"
    using assms(7) by (simp add: axiom_node_create_def mem_okD)
  obtain h' m where h': "hang_element h0 nd e (Some q) = Inr h'" "h' nd = Some m" "n_type m = AXIOM_ELEMENT"
    "n_data m = Some e" "n_parent m = Some q" "same_shape (os_nodes S) h'"
    using hang_element_spec [OF assms(2,3,5) h0] by blast
  let ?S = "set_element e (\<lambda>_. empty_element (Some l)) (S\<lparr>os_nodes := h'\<rparr>)"
  have c: "axiom_element_create malloc S nd e (Some q) (Some l) (Some n) = take_namespace malloc ?S e nd n"
    using h0 h'(1) assms(7) by (simp add: axiom_element_create_def axutil_string_create_def mem_okD Let_def)
  have dc: "decls ?S e = Map.empty" "\<And>x. x \<noteq> e \<Longrightarrow> decls ?S x = decls S x"
    by (simp_all add: decls_def set_element_def empty_element_def)
  have "e \<notin> set xs \<Longrightarrow> declared ?S xs k = declared S xs k" for xs k
    using dc(2) by (induction xs) (auto split: option.split)
  with dc(1) have d: "declared ?S (e # es) k = declared S es k" for k using assms(4) by simp
  have sc: "scope (os_nodes ?S) nd (e # es)"
    using new_scope [OF same_shape_scope [OF assms(1) h'(6)] h'(2-5)] by (simp add: set_element_def)
  have ok: "store_ok ?S" "table_room ?S e"
    using assms(6) by (auto simp: store_ok_def tables_ok_def decls_def set_element_def empty_element_def table_room_def)
  obtain S' d' where S': "take_namespace malloc ?S e nd n = Some (Inr S')" "elt_ns (os_elements S' e) = Some d'"
    "ns_uri (os_namespaces S' d') = Some u" "store_ok S'" "os_nodes S' = os_nodes ?S"
    "elt_localname (os_elements S' e) = Some l"
    "ns_key (os_namespaces S n) \<noteq> '''' \<longrightarrow> ns_prefix (os_namespaces S' d') = ns_prefix (os_namespaces S n)"
    "\<forall>k. k \<noteq> ns_key (os_namespaces S n) \<longrightarrow> declared S' (e # es) k = declared ?S (e # es) k"
    using take_namespace_spec [OF sc ok(1) assms(7) ok(2), of n u] assms(8,9)
    by (auto simp: set_element_def empty_element_def)
  show ?thesis using c S' sc d
    by (intro exI [of _ S'] exI [of _ d']) (simp add: axiom_element_get_namespace_def axiom_element_get_localname_def)
qed

theorem created_element_scope_witness:
  "\<exists>S' d. axiom_element_create (\<lambda>n. True) two_elements 12 2 (Some 11) (Some ''echo'') (Some 5) = Some (Inr S') \<and>
    scope (os_nodes S') 12 [2, 1, 0] \<and> axiom_element_get_namespace (\<lambda>n. True) S' 2 12 = Some (Inr (Some d)) \<and>
    ns_uri (os_namespaces S' d) = Some ''urn:soap'' \<and> ns_prefix (os_namespaces S' d) = Some ''soap''"
proof -
  have n: "os_nodes two_elements 11 = Some (plain_node (Some 10) 1)" "os_nodes two_elements 12 = None"
    by (simp_all add: two_elements_def)
  show ?thesis
    using created_element_scope [OF two_elements_ok(1) n, of 2 "\<lambda>n. True" 5 "''urn:soap''" "''echo''"] two_elements_ok
    by (auto simp: mem_ok_def prefix_ok_def plain_node_def)
qed

end
