(* ===== verification/Om_Children.thy ===== *)
theory Om_Children
  imports Om_Attribute Om_Iterator "HOL-Library.Monad_Syntax"
begin

text \<open>
  What an element does with its children: its text, its first element (\<^verbatim>\<open>axiom/src/om/om_element.c\<close>), text nodes
  (\<^verbatim>\<open>om_text.c\<close>) and the iterator over the children with a qualified name (\<^verbatim>\<open>om_children_qname_iterator.c\<close>).
\<close>

section \<open>Text\<close>

definition axiom_text_get_value :: "om_store \<Rightarrow> nat \<Rightarrow> string option" where
  "axiom_text_get_value S t = tx_value (os_texts S t)"

definition sizeof_text :: nat where "sizeof_text = 72"

text \<open>
  \<open>nd\<close> and \<open>t\<close> are the addresses for the node and the text. A value that cannot be stored is left out, and the node is
  linked under the parent only when that is an element.
\<close>

definition axiom_text_create ::
    "alloc \<Rightarrow> om_store \<Rightarrow> nat \<Rightarrow> nat \<Rightarrow> ptr \<Rightarrow> string option \<Rightarrow> om_store result" where
  "axiom_text_create malloc S nd t parent v =
     (case axiom_node_create malloc nd (os_nodes S) of
        Inl _ \<Rightarrow> Inl NO_MEMORY
      | Inr (_, h) \<Rightarrow>
          if \<not> malloc sizeof_text then Inl NO_MEMORY
          else
            res_bind (axiom_node_set_data_element h (Some nd) (Some t)) (\<lambda>h1.
            res_bind (axiom_node_set_node_type h1 (Some nd) AXIOM_TEXT) (\<lambda>h2.
            res_bind (axiom_node_set_complete h2 (Some nd) False) (\<lambda>h3.
            res_bind (case parent of
                        None \<Rightarrow> Inr h3
                      | Some _ \<Rightarrow>
                          res_bind (axiom_node_get_node_type h3 parent) (\<lambda>ty.
                            if ty = AXIOM_ELEMENT then append_child h3 parent (Some nd) else Inr h3)) (\<lambda>h4.
              let s = (case v of None \<Rightarrow> None
                       | Some w \<Rightarrow> (case axutil_string_create malloc 0 v of Inl _ \<Rightarrow> None | Inr _ \<Rightarrow> Some w))
              in Inr (S\<lparr>os_nodes := h4, os_texts := (os_texts S)(t := \<lparr>tx_value = s\<rparr>)\<rparr>))))))"

text \<open>
  One text node is added to what was collected. The lengths are of type \<open>int\<close>, and the answer of the allocator is not
  looked at for the second and later texts.
\<close>

definition add_text :: "alloc \<Rightarrow> string option \<Rightarrow> string option \<Rightarrow> string option result" where
  "add_text malloc dest temp_text =
     (case temp_text of
        None \<Rightarrow> Inr dest
      | Some t \<Rightarrow>
          if axutil_strcmp temp_text (Some '''') = 0 then Inr dest
          else
            (case dest of
               Some d \<Rightarrow>
                 if length d + length t \<ge> 2 ^ 31 - 1 \<or> \<not> malloc (length d + length t + 1) then Inl UNDEFINED_BEHAVIOUR
                 else Inr (Some (d @ t))
             | None \<Rightarrow> (case axutil_strdup malloc temp_text of Inl _ \<Rightarrow> Inr None | Inr s \<Rightarrow> Inr s)))"

definition text_of_node :: "alloc \<Rightarrow> om_store \<Rightarrow> ptr \<Rightarrow> string option \<Rightarrow> string option result" where
  "text_of_node malloc S node dest =
     res_bind (axiom_node_get_node_type (os_nodes S) node) (\<lambda>ty.
       if ty \<noteq> AXIOM_TEXT then Inr dest
       else
         res_bind (axiom_node_get_data_element (os_nodes S) node) (\<lambda>d.
           case d of None \<Rightarrow> Inr dest | Some t \<Rightarrow> add_text malloc dest (axiom_text_get_value S t)))"

partial_function (option) text_loop :: "alloc \<Rightarrow> om_store \<Rightarrow> ptr \<Rightarrow> string option \<Rightarrow> string option result option" where
  "text_loop malloc S temp_node dest =
     (case temp_node of
        None \<Rightarrow> Some (Inr dest)
      | Some _ \<Rightarrow>
          (case text_of_node malloc S temp_node dest of
             Inl err \<Rightarrow> Some (Inl err)
           | Inr dest' \<Rightarrow>
               (case axiom_node_get_next_sibling (os_nodes S) temp_node of
                  Inl err \<Rightarrow> Some (Inl err)
                | Inr next \<Rightarrow> text_loop malloc S next dest')))"

definition axiom_element_get_text :: "alloc \<Rightarrow> om_store \<Rightarrow> ptr \<Rightarrow> ptr \<Rightarrow> string option result option" where
  "axiom_element_get_text malloc S om_element element_node =
     (if element_node = None \<or> om_element = None then Some (Inl INVALID_NULL_PARAM)
      else
        (case axiom_node_get_first_child (os_nodes S) element_node of
           Inl err \<Rightarrow> Some (Inl err)
         | Inr first \<Rightarrow> text_loop malloc S first None))"

section \<open>The first element\<close>

definition axiom_element_get_first_element :: "om_heap \<Rightarrow> ptr \<Rightarrow> (ptr \<times> ptr) result option" where
  "axiom_element_get_first_element h element_node =
     (if element_node = None then Some (Inl INVALID_NULL_PARAM)
      else
        (case axiom_node_get_first_child h element_node of
           Inl err \<Rightarrow> Some (Inl err)
         | Inr first \<Rightarrow>
             (case first_element_loop h first of
                None \<Rightarrow> None
              | Some (Inl err) \<Rightarrow> Some (Inl err)
              | Some (Inr None) \<Rightarrow> Some (Inr (None, None))
              | Some (Inr node) \<Rightarrow> Some (res_bind (axiom_node_get_data_element h node) (\<lambda>d. Inr (d, node))))))"

section \<open>Children with a qualified name\<close>

record axiom_children_qname_iterator =
  qi_current_child :: ptr
  qi_last_child :: ptr
  qi_next_called :: bool
  qi_remove_called :: bool
  qi_given_qname :: "axutil_qname option"
  qi_need_to_move_forward :: bool
  qi_matching_node_found :: bool

definition sizeof_qname_iterator :: nat where "sizeof_qname_iterator = 48"

definition axiom_children_qname_iterator_create ::
    "alloc \<Rightarrow> ptr \<Rightarrow> axutil_qname option \<Rightarrow> axiom_children_qname_iterator result" where
  "axiom_children_qname_iterator_create malloc current_child given_qname =
     (if current_child = None then Inl INVALID_NULL_PARAM
      else if \<not> malloc sizeof_qname_iterator then Inl NO_MEMORY
      else Inr \<lparr>qi_current_child = current_child, qi_last_child = None, qi_next_called = False,
                qi_remove_called = False, qi_given_qname = axutil_qname_clone given_qname,
                qi_need_to_move_forward = True, qi_matching_node_found = False\<rparr>)"

text \<open>Whether the current child matches; the name of an element is kept in it. A name that cannot be made is read all the same.\<close>

definition child_matches ::
    "alloc \<Rightarrow> om_store \<Rightarrow> axutil_qname option \<Rightarrow> nat \<Rightarrow> (bool \<times> om_store) result option" where
  "child_matches malloc S given c =
     (case axiom_node_get_node_type (os_nodes S) (Some c) of
        Inl err \<Rightarrow> Some (Inl err)
      | Inr ty \<Rightarrow>
          if ty \<noteq> AXIOM_ELEMENT then Some (Inr (False, S))
          else
            (case axiom_node_get_data_element (os_nodes S) (Some c) of
               Inl err \<Rightarrow> Some (Inl err)
             | Inr None \<Rightarrow> Some (Inr (False, S))
             | Inr (Some e) \<Rightarrow>
                 (case axiom_element_get_qname malloc S e c of
                    None \<Rightarrow> None
                  | Some (Inl err) \<Rightarrow> Some (Inl err)
                  | Some (Inr (None, S1)) \<Rightarrow> Some (Inl UNDEFINED_BEHAVIOUR)
                  | Some (Inr (Some q, S1)) \<Rightarrow>
                      Some (Inr (axutil_qname_equals q given = Inr True, S1)))))"

partial_function (option) axiom_children_qname_iterator_has_next ::
    "alloc \<Rightarrow> om_store \<Rightarrow> axiom_children_qname_iterator \<Rightarrow> (bool \<times> om_store \<times> axiom_children_qname_iterator) result option" where
  "axiom_children_qname_iterator_has_next malloc S it =
     (if \<not> qi_need_to_move_forward it then Some (Inr (qi_matching_node_found it, S, it))
      else
        (case qi_current_child it of
           None \<Rightarrow> Some (Inr (qi_matching_node_found it, S, it\<lparr>qi_need_to_move_forward := False\<rparr>))
         | Some c \<Rightarrow>
             (case child_matches malloc S (qi_given_qname it) c of
                None \<Rightarrow> None
              | Some (Inl err) \<Rightarrow> Some (Inl err)
              | Some (Inr (found, S1)) \<Rightarrow>
                  if found then
                    axiom_children_qname_iterator_has_next malloc S1
                      (it\<lparr>qi_matching_node_found := True, qi_need_to_move_forward := False\<rparr>)
                  else
                  (case axiom_node_get_next_sibling (os_nodes S1) (Some c) of
                     Inl err \<Rightarrow> Some (Inl err)
                   | Inr next \<Rightarrow>
                       axiom_children_qname_iterator_has_next malloc S1
                         (it\<lparr>qi_current_child := next, qi_need_to_move_forward := next \<noteq> None,
                            qi_matching_node_found := next \<noteq> None\<rparr>)))))"

definition axiom_children_qname_iterator_next ::
    "om_store \<Rightarrow> axiom_children_qname_iterator \<Rightarrow> (ptr \<times> axiom_children_qname_iterator) result" where
  "axiom_children_qname_iterator_next S it =
     (let it1 = it\<lparr>qi_need_to_move_forward := True, qi_matching_node_found := False, qi_next_called := True,
                  qi_remove_called := False, qi_last_child := qi_current_child it\<rparr>
      in case qi_current_child it of
           None \<Rightarrow> Inr (None, it1)
         | Some c \<Rightarrow>
             res_bind (axiom_node_get_next_sibling (os_nodes S) (Some c)) (\<lambda>next.
               Inr (Some c, it1\<lparr>qi_current_child := next\<rparr>)))"

definition axiom_children_qname_iterator_remove ::
    "om_store \<Rightarrow> axiom_children_qname_iterator \<Rightarrow> (axis2_status \<times> om_store \<times> axiom_children_qname_iterator) result option" where
  "axiom_children_qname_iterator_remove S it =
     (if \<not> qi_next_called it then Some (Inl ITERATOR_NEXT_METHOD_HAS_NOT_YET_BEEN_CALLED)
      else if qi_remove_called it then Some (Inl ITERATOR_REMOVE_HAS_ALREADY_BEING_CALLED)
      else
        (let it1 = it\<lparr>qi_remove_called := True\<rparr> in
         if qi_last_child it = None then Some (Inr (AXIS2_FAILURE, S, it1))
         else
           (case axiom_node_free_tree (os_nodes S) (qi_last_child it) of
              None \<Rightarrow> None
            | Some (Inl err) \<Rightarrow> Some (Inl err)
            | Some (Inr h) \<Rightarrow> Some (Inr (AXIS2_SUCCESS, S\<lparr>os_nodes := h\<rparr>, it1\<lparr>qi_last_child := None\<rparr>)))))"

definition axiom_element_get_first_child_with_qname ::
    "alloc \<Rightarrow> om_store \<Rightarrow> axutil_qname option \<Rightarrow> ptr \<Rightarrow> ((ptr \<times> ptr) \<times> om_store) result option" where
  "axiom_element_get_first_child_with_qname malloc S element_qname element_node =
     (if element_qname = None \<or> element_node = None then Some (Inl INVALID_NULL_PARAM)
      else
        (case axiom_node_get_first_child (os_nodes S) element_node of
           Inl err \<Rightarrow> Some (Inl err)
         | Inr None \<Rightarrow> Some (Inr ((None, None), S))
         | Inr (Some c) \<Rightarrow>
             (case axiom_children_qname_iterator_create malloc (Some c) element_qname of
                Inl _ \<Rightarrow> Some (Inr ((None, None), S))
              | Inr it \<Rightarrow>
                  (case axiom_children_qname_iterator_has_next malloc S it of
                     None \<Rightarrow> None
                   | Some (Inl err) \<Rightarrow> Some (Inl err)
                   | Some (Inr (has, S1, it1)) \<Rightarrow>
                       Some (res_bind (if has then axiom_children_qname_iterator_next S1 it1 else Inr (None, it1)) (\<lambda>(node, _).
                         case node of
                           None \<Rightarrow> Inr ((None, None), S1)
                         | Some _ \<Rightarrow>
                             res_bind (axiom_node_get_node_type (os_nodes S1) node) (\<lambda>ty.
                               if ty \<noteq> AXIOM_ELEMENT then Inr ((None, None), S1)
                               else res_bind (axiom_node_get_data_element (os_nodes S1) node) (\<lambda>d. Inr ((d, node), S1)))))))))"

section \<open>The text of an element\<close>

text \<open>The text a child contributes.\<close>

definition child_text :: "om_store \<Rightarrow> nat \<Rightarrow> string" where
  "child_text S c =
     (case os_nodes S c of
        Some n \<Rightarrow>
          if n_type n = AXIOM_TEXT then
            (case Option.bind (n_data n) (\<lambda>t. tx_value (os_texts S t)) of None \<Rightarrow> '''' | Some s \<Rightarrow> s)
          else ''''
      | None \<Rightarrow> '''')"

definition text_or_null :: "string \<Rightarrow> string option" where
  "text_or_null s = (if s = '''' then None else Some s)"

lemma add_text_spec:
  assumes "mem_ok malloc" "length d + length (case v of None \<Rightarrow> '''' | Some s \<Rightarrow> s) < 2 ^ 31 - 1"
  shows "add_text malloc (text_or_null d) v = Inr (text_or_null (d @ (case v of None \<Rightarrow> '''' | Some s \<Rightarrow> s)))"
  using assms by (auto simp: add_text_def text_or_null_def axutil_strdup_def mem_okD split: option.splits)

lemma text_of_node_spec:
  assumes "mem_ok malloc" "c \<in> dom (os_nodes S)" "length d + length (child_text S c) < 2 ^ 31 - 1"
  shows "text_of_node malloc S (Some c) (text_or_null d) = Inr (text_or_null (d @ child_text S c))"
proof -
  obtain n where n: "os_nodes S c = Some n" using assms(2) by auto
  show ?thesis
  proof (cases "n_type n = AXIOM_TEXT")
    case False
    then show ?thesis using n by (simp add: text_of_node_def child_text_def axiom_node_get_node_type_def node_at_def)
  next
    case True
    then show ?thesis using n assms(3) add_text_spec [OF assms(1), of d]
      by (cases "n_data n") (simp_all add: text_of_node_def child_text_def axiom_node_get_node_type_def
          axiom_node_get_data_element_def node_at_def axiom_text_get_value_def)
  qed
qed

lemma text_loop_spec:
  assumes "om_rel (os_nodes S) F" "mem_ok malloc"
  shows "kids F p = xs @ ys \<Longrightarrow> length d + length (concat (map (child_text S) ys)) < 2 ^ 31 - 1 \<Longrightarrow>
    text_loop malloc S (first_of ys None) (text_or_null d) = Some (Inr (text_or_null (d @ concat (map (child_text S) ys))))"
proof (induction ys arbitrary: xs d)
  case Nil
  then show ?case by (simp add: text_loop.simps)
next
  case (Cons y ys)
  note n = next_of_kid [OF assms(1) Cons.prems(1)]
  have "text_loop malloc S (first_of ys None) (text_or_null (d @ child_text S y)) =
      Some (Inr (text_or_null ((d @ child_text S y) @ concat (map (child_text S) ys))))"
    by (rule Cons.IH [of "xs @ [y]"]) (use Cons.prems in simp_all)
  then show ?case using Cons.prems(2) n text_of_node_spec [OF assms(2) n(1), of d]
    by (subst text_loop.simps) simp
qed

text \<open>
  C38: the text of an element (\<^verbatim>\<open>axiom_element_get_text\<close>) is the concatenation of the values of the text nodes among its
  children, in document order, elements and other nodes left out; it is NULL when that is empty. The loop over the
  children ends for every tree that is built completely and has less than 2 GB of text in one element.
\<close>

theorem element_text:
  assumes "om_rel (os_nodes S) F" "p \<in> dom (os_nodes S)" "mem_ok malloc"
    and "length (concat (map (child_text S) (kids F p))) < 2 ^ 31 - 1"
  shows "axiom_element_get_text malloc S (Some e) (Some p) =
    Some (Inr (text_or_null (concat (map (child_text S) (kids F p)))))"
  using text_loop_spec [OF assms(1,3), of p "[]" "kids F p" "''''"] links_sim(1) [OF assms(1,2)] assms(4)
  by (simp add: axiom_element_get_text_def text_or_null_def)

definition sample_store :: om_store where
  "sample_store = two_elements\<lparr>os_nodes := sample_heap, os_texts := (\<lambda>_. \<lparr>tx_value = Some ''hello''\<rparr>)\<rparr>"

lemma sample_dom: "dom sample_heap = {0, 1, 2}"
  using om_rel_dom [OF sample_rel] sample_shape(4) by blast

lemma sample_child_text: "child_text sample_store 1 = ''hello''" "child_text sample_store 2 = ''''"
proof -
  have "sample_heap 1 \<noteq> None" "sample_heap 2 \<noteq> None" using sample_dom by auto
  then obtain n1 n2 where "sample_heap 1 = Some n1" "sample_heap 2 = Some n2" by auto
  then show "child_text sample_store 1 = ''hello''" "child_text sample_store 2 = ''''"
    using sample_nodes(3-6) by (simp_all add: child_text_def sample_store_def)
qed

theorem element_text_witness:
  "axiom_element_get_text (\<lambda>n. True) sample_store (Some 10) (Some 0) = Some (Inr (Some ''hello''))"
proof -
  have "om_rel (os_nodes sample_store) sample_forest" "0 \<in> dom (os_nodes sample_store)"
    using sample_rel sample_dom by (simp_all add: sample_store_def)
  from element_text [OF this, of "\<lambda>n. True" 10] show ?thesis
    by (simp add: sample_shape(1) sample_child_text [simplified] mem_ok_def text_or_null_def)
qed

section \<open>The children with a name\<close>

text \<open>
  The name of an element among the children of a node whose elements outwards are \<open>es\<close>: the one it keeps, or the
  local name with the URI of its namespace or of the default namespace in scope.
\<close>

definition element_name :: "om_store \<Rightarrow> nat list \<Rightarrow> nat \<Rightarrow> string \<times> string option" where
  "element_name S es e =
     (case elt_qname (os_elements S e) of
        Some q \<Rightarrow> (localpart q, namespace_uri q)
      | None \<Rightarrow>
          (the (elt_localname (os_elements S e)),
           Option.bind (case elt_ns (os_elements S e) of Some n \<Rightarrow> Some n | None \<Rightarrow> declared S (e # es) '''')
             (\<lambda>n. ns_uri (os_namespaces S n))))"

text \<open>What computing and keeping names leaves as it was.\<close>

definition names_kept :: "nat list \<Rightarrow> om_store \<Rightarrow> om_store \<Rightarrow> bool" where
  "names_kept es S T \<longleftrightarrow> same_namespaces S T \<and> (\<forall>x. element_name T es x = element_name S es x \<and>
     elt_localname (os_elements T x) = elt_localname (os_elements S x))"

lemma names_kept_refl [simp]: "names_kept es S S"
  by (simp add: names_kept_def same_namespaces_def)

lemma names_kept_trans: "names_kept es S T \<Longrightarrow> names_kept es T U \<Longrightarrow> names_kept es S U"
  by (simp add: names_kept_def same_namespaces_def)

lemma get_qname_kept:
  assumes "scope (os_nodes S) c (e # es)" "tables_ok S" "mem_ok malloc" "elt_localname (os_elements S e) \<noteq> None"
  shows "\<exists>q T. axiom_element_get_qname malloc S e c = Some (Inr (Some q, T)) \<and>
    (localpart q, namespace_uri q) = element_name S es e \<and> names_kept es S T"
proof (cases "elt_qname (os_elements S e)")
  case (Some q)
  then show ?thesis by (auto simp: axiom_element_get_qname_def element_name_def)
next
  case None
  obtain l where l: "elt_localname (os_elements S e) = Some l" using assms(4) by auto
  let ?n = "case elt_ns (os_elements S e) of Some n \<Rightarrow> Some n | None \<Rightarrow> declared S (e # es) ''''"
  have "axiom_element_get_namespace malloc S e c = Some (Inr ?n)"
    using default_namespace_spec [OF assms(1,2), of malloc]
    by (cases "elt_ns (os_elements S e)") (simp_all add: axiom_element_get_namespace_def)
  then obtain q where q: "localpart q = l" "namespace_uri q = Option.bind ?n (\<lambda>n. ns_uri (os_namespaces S n))"
    "axiom_element_get_qname malloc S e c = Some (Inr (Some q, set_element e (\<lambda>el. el\<lparr>elt_qname := Some q\<rparr>) S))"
    using None l by (simp add: axiom_element_get_qname_def ns_found_def qname_create_ok [OF assms(3)] Let_def
        axiom_namespace_get_uri_def [abs_def])
  have n: "(localpart q, namespace_uri q) = element_name S es e" using q None l by (simp add: element_name_def)
  let ?T = "set_element e (\<lambda>el. el\<lparr>elt_qname := Some q\<rparr>) S"
  have same: "same_namespaces S ?T" by (simp add: same_namespaces_def set_element_def)
  have "element_name ?T es x = element_name S es x" for x
  proof (cases "x = e")
    case True
    have "elt_qname (os_elements ?T e) = Some q" by (simp add: set_element_def)
    then have "element_name ?T es e = (localpart q, namespace_uri q)" by (simp add: element_name_def)
    then show ?thesis using n True by simp
  next
    case False
    then have f: "os_elements ?T x = os_elements S x" "os_namespaces ?T = os_namespaces S" by (simp_all add: set_element_def)
    show ?thesis unfolding element_name_def f same_namespaces_scope(3) [OF same] ..
  qed
  then show ?thesis using q(3) n same by (auto simp: names_kept_def set_element_def)
qed

text \<open>Which child the iterator for a name stops at.\<close>

definition named :: "om_store \<Rightarrow> nat list \<Rightarrow> axutil_qname \<Rightarrow> nat \<Rightarrow> bool" where
  "named S es g c \<longleftrightarrow> (\<exists>n e. os_nodes S c = Some n \<and> n_type n = AXIOM_ELEMENT \<and> n_data n = Some e \<and>
     element_name S es e = (localpart g, namespace_uri g))"

text \<open>A node, with the elements around it, whose child elements have local names.\<close>

definition named_kids :: "om_store \<Rightarrow> om_forest \<Rightarrow> nat \<Rightarrow> nat list \<Rightarrow> bool" where
  "named_kids S F p es \<longleftrightarrow> om_rel (os_nodes S) F \<and> scope (os_nodes S) p es \<and> tables_ok S \<and>
     (\<forall>c \<in> set (kids F p). \<forall>n e. os_nodes S c = Some n \<and> n_type n = AXIOM_ELEMENT \<and> n_data n = Some e \<longrightarrow>
        elt_localname (os_elements S e) \<noteq> None)"

lemma named_kept:
  assumes "names_kept es S T"
  shows "named T es g c = named S es g c" "named_kids T F p es = named_kids S F p es"
proof -
  have s: "same_namespaces S T" using assms by (simp add: names_kept_def)
  show "named T es g c = named S es g c" using assms by (simp add: named_def names_kept_def same_namespaces_def)
  show "named_kids T F p es = named_kids S F p es"
    using assms same_namespaces_scope(1) [OF s] by (simp add: named_kids_def names_kept_def same_namespaces_def)
qed

lemma child_matches_spec:
  assumes "named_kids S F p es" "c \<in> set (kids F p)" "mem_ok malloc"
  shows "\<exists>T. child_matches malloc S (Some g) c = Some (Inr (named S es g c, T)) \<and> names_kept es S T"
proof -
  obtain xs ys where k: "kids F p = xs @ c # ys" using assms(2) by (metis split_list)
  have r: "om_rel (os_nodes S) F" "scope (os_nodes S) p es" "tables_ok S" using assms(1) by (simp_all add: named_kids_def)
  note kl = kid_links(3,5) [OF om_relD(1,2) [OF r(1)] k]
  obtain n where n: "os_nodes S c = Some n" "n_parent n = Some p" using kl by (auto simp: fld_def)
  consider (other) "n_type n \<noteq> AXIOM_ELEMENT \<or> n_data n = None" | (element) e where "n_type n = AXIOM_ELEMENT" "n_data n = Some e"
    by (cases "n_data n") auto
  then show ?thesis
  proof cases
    case other
    then show ?thesis using n(1)
      by (auto simp: child_matches_def axiom_node_get_node_type_def axiom_node_get_data_element_def node_at_def named_def)
  next
    case element
    then have "elt_localname (os_elements S e) \<noteq> None" using assms(1,2) n(1) by (simp add: named_kids_def)
    then obtain q T where "axiom_element_get_qname malloc S e c = Some (Inr (Some q, T))"
      "(localpart q, namespace_uri q) = element_name S es e" "names_kept es S T"
      using get_qname_kept [OF new_scope [OF r(2) n(1) element n(2)] r(3) assms(3)] by blast
    then show ?thesis using n(1) element
      by (auto simp: child_matches_def axiom_node_get_node_type_def axiom_node_get_data_element_def node_at_def named_def
          qname_equals_iff)
  qed
qed

text \<open>Two names with the same parts, as the iterator keeps a clone of the name it is given.\<close>

definition qname_equal :: "axutil_qname \<Rightarrow> axutil_qname \<Rightarrow> bool" where
  "qname_equal q r \<longleftrightarrow> localpart q = localpart r \<and> namespace_uri q = namespace_uri r"

lemma has_next_spec:
  assumes "mem_ok malloc" "qname_equal g' g"
  shows "named_kids S F p es \<Longrightarrow> kids F p = xs @ ys \<Longrightarrow> qi_current_child it = first_of ys None \<Longrightarrow>
    qi_need_to_move_forward it \<Longrightarrow> qi_given_qname it = Some g' \<Longrightarrow> (ys = [] \<longrightarrow> \<not> qi_matching_node_found it) \<Longrightarrow>
    \<exists>T it'. axiom_children_qname_iterator_has_next malloc S it =
        Some (Inr (dropWhile (\<lambda>c. \<not> named S es g c) ys \<noteq> [], T, it')) \<and> names_kept es S T \<and>
      qi_current_child it' = first_of (dropWhile (\<lambda>c. \<not> named S es g c) ys) None \<and> qi_given_qname it' = Some g'"
proof (induction ys arbitrary: S xs it)
  case Nil
  then show ?case by (subst axiom_children_qname_iterator_has_next.simps) simp
next
  case (Cons y ys)
  obtain T where T: "child_matches malloc S (Some g') y = Some (Inr (named S es g' y, T))" "names_kept es S T"
    using child_matches_spec [OF Cons.prems(1) _ assms(1), of y g'] Cons.prems(2) by auto
  have g: "named S es g' y = named S es g y" using assms(2) by (simp add: named_def qname_equal_def)
  have nodes: "os_nodes T = os_nodes S" using T(2) by (simp add: names_kept_def same_namespaces_def)
  show ?case
  proof (cases "named S es g y")
    case True
    then show ?thesis using Cons.prems T g
      by (subst axiom_children_qname_iterator_has_next.simps, subst axiom_children_qname_iterator_has_next.simps) simp
  next
    case False
    have n: "axiom_node_get_next_sibling (os_nodes T) (Some y) = Inr (first_of ys None)"
      using next_of_kid(2) [of "os_nodes S" F p xs y ys] Cons.prems(1,2) nodes by (simp add: named_kids_def)
    let ?it = "it\<lparr>qi_current_child := first_of ys None, qi_need_to_move_forward := first_of ys None \<noteq> None,
      qi_matching_node_found := first_of ys None \<noteq> None\<rparr>"
    have step: "axiom_children_qname_iterator_has_next malloc S it = axiom_children_qname_iterator_has_next malloc T ?it"
      using Cons.prems T n g False by (subst axiom_children_qname_iterator_has_next.simps) simp
    show ?thesis
    proof (cases ys)
      case Nil
      then show ?thesis using step T(2) False Cons.prems(5)
        by (subst step, subst axiom_children_qname_iterator_has_next.simps) simp
    next
      case (Cons z zs)
      have k: "named_kids T F p es" "named T es g = named S es g" using named_kept [OF T(2)] \<open>named_kids S F p es\<close> by auto
      from Cons.IH [OF k(1), of "xs @ [y]" ?it] Cons \<open>kids F p = xs @ y # ys\<close> \<open>qi_given_qname it = Some g'\<close>
      obtain U it' where "axiom_children_qname_iterator_has_next malloc T ?it =
          Some (Inr (dropWhile (\<lambda>c. \<not> named S es g c) ys \<noteq> [], U, it'))" "names_kept es T U"
        "qi_current_child it' = first_of (dropWhile (\<lambda>c. \<not> named S es g c) ys) None" "qi_given_qname it' = Some g'"
        unfolding k(2) by auto
      then show ?thesis using step names_kept_trans [OF T(2)] False by auto
    qed
  qed
qed

text \<open>The loop of the clients of the iterator, with the nodes it is given.\<close>

partial_function (option) drain_named ::
    "alloc \<Rightarrow> om_store \<Rightarrow> axiom_children_qname_iterator \<Rightarrow> ptr list result option" where
  "drain_named malloc S it = do {
     r \<leftarrow> axiom_children_qname_iterator_has_next malloc S it;
     (case r of
        Inl err \<Rightarrow> Some (Inl err)
      | Inr (has, S1, it1) \<Rightarrow>
          if \<not> has then Some (Inr [])
          else
            (case axiom_children_qname_iterator_next S1 it1 of
               Inl err \<Rightarrow> Some (Inl err)
             | Inr (c, it2) \<Rightarrow> do {
                 rs \<leftarrow> drain_named malloc S1 it2;
                 Some (res_bind rs (\<lambda>cs. Inr (c # cs))) })) }"

lemma drain_named_spec:
  assumes "mem_ok malloc" "qname_equal g' g"
  shows "named_kids S F p es \<Longrightarrow> kids F p = xs @ ys \<Longrightarrow> qi_current_child it = first_of ys None \<Longrightarrow>
    qi_need_to_move_forward it \<Longrightarrow> qi_given_qname it = Some g' \<Longrightarrow> (ys = [] \<longrightarrow> \<not> qi_matching_node_found it) \<Longrightarrow>
    drain_named malloc S it = Some (Inr (map Some (filter (named S es g) ys)))"
proof (induction "filter (named S es g) ys" arbitrary: S xs ys it)
  case Nil
  have "dropWhile (\<lambda>c. \<not> named S es g c) ys = []" using Nil.hyps [symmetric] by (auto simp: filter_empty_conv)
  then obtain T it' where "axiom_children_qname_iterator_has_next malloc S it = Some (Inr (False, T, it'))"
    using has_next_spec [OF assms Nil.prems] by auto
  with Nil(1) show ?case by (subst drain_named.simps) simp
next
  case (Cons z zs)
  obtain us vs where u: "ys = us @ z # vs" "\<forall>c \<in> set us. \<not> named S es g c" "named S es g z" "filter (named S es g) vs = zs"
    using Cons.hyps(2) by (metis filter_eq_ConsD)
  then have dr: "dropWhile (\<lambda>c. \<not> named S es g c) ys = z # vs" by (simp add: dropWhile_append2)
  obtain T it' where T: "axiom_children_qname_iterator_has_next malloc S it = Some (Inr (True, T, it'))" "names_kept es S T"
    "qi_current_child it' = Some z" "qi_given_qname it' = Some g'"
    using has_next_spec [OF assms Cons.prems] dr by auto
  have kk: "kids F p = (xs @ us) @ z # vs" "kids F p = (xs @ us @ [z]) @ vs" using Cons.prems(2) u(1) by simp_all
  have nodes: "os_nodes T = os_nodes S" using T(2) by (simp add: names_kept_def same_namespaces_def)
  have n: "axiom_node_get_next_sibling (os_nodes T) (Some z) = Inr (first_of vs None)"
    using next_of_kid(2) [OF _ kk(1), of "os_nodes S"] Cons.prems(1) nodes by (simp add: named_kids_def)
  let ?it = "it'\<lparr>qi_need_to_move_forward := True, qi_matching_node_found := False, qi_next_called := True,
    qi_remove_called := False, qi_last_child := Some z, qi_current_child := first_of vs None\<rparr>"
  have k: "named_kids T F p es" "named T es g = named S es g" using named_kept [OF T(2)] Cons.prems(1) by auto
  have "drain_named malloc T ?it = Some (Inr (map Some (filter (named T es g) vs)))"
    by (rule Cons.hyps(1) [OF _ k(1) kk(2)]) (use u(4) k(2) T(4) in simp_all)
  then show ?case using T n u k(2)
    by (subst drain_named.simps) (simp add: axiom_children_qname_iterator_next_def Let_def)
qed

text \<open>The iterator goes by the names that the elements keep.\<close>

lemma qname_iterator_kept_names:
  assumes "named_kids S F p es" "kids F p \<noteq> []" "mem_ok malloc"
  shows "\<exists>c it. axiom_node_get_first_child (os_nodes S) (Some p) = Inr c \<and>
    axiom_children_qname_iterator_create malloc c (Some g) = Inr it \<and>
    drain_named malloc S it = Some (Inr (map Some (filter (named S es g) (kids F p))))"
proof -
  have r: "om_rel (os_nodes S) F" using assms(1) by (simp add: named_kids_def)
  obtain y ys where y: "kids F p = y # ys" using assms(2) by (cases "kids F p") auto
  have "p \<in> dom (os_nodes S)" using kid_links(4) [OF om_relD(1,2) [OF r], of p "[]" y ys] y by simp
  then have c: "axiom_node_get_first_child (os_nodes S) (Some p) = Inr (Some y)" using links_sim(1) [OF r] y by simp
  let ?it = "\<lparr>qi_current_child = Some y, qi_last_child = None, qi_next_called = False, qi_remove_called = False,
    qi_given_qname = axutil_qname_clone (Some g), qi_need_to_move_forward = True, qi_matching_node_found = False\<rparr>"
  have i: "axiom_children_qname_iterator_create malloc (Some y) (Some g) = Inr ?it"
    using assms(3) by (simp add: axiom_children_qname_iterator_create_def mem_okD)
  have "qname_equal (g\<lparr>qname_ref := qname_ref g + 1\<rparr>) g" by (simp add: qname_equal_def)
  from drain_named_spec [OF assms(3) this assms(1), of "[]" "kids F p" ?it] show ?thesis
    using c i y by (simp add: axutil_qname_clone_def)
qed

text \<open>
  The name an element has now: its local name, with the URI of its namespace or else of the default namespace in scope. The child
  elements of \<open>p\<close> keep no name, or the one they have now, unless one was given another name or namespace after its
  qualified name had been asked for.
\<close>

definition current_name :: "om_store \<Rightarrow> nat list \<Rightarrow> nat \<Rightarrow> string option \<times> string option" where
  "current_name S es e =
     (elt_localname (os_elements S e),
      Option.bind (case elt_ns (os_elements S e) of Some n \<Rightarrow> Some n | None \<Rightarrow> declared S (e # es) '''')
        (\<lambda>n. ns_uri (os_namespaces S n)))"

definition holds_element :: "om_store \<Rightarrow> nat \<Rightarrow> nat \<Rightarrow> bool" where
  "holds_element S c e \<longleftrightarrow> (\<exists>n. os_nodes S c = Some n \<and> n_type n = AXIOM_ELEMENT \<and> n_data n = Some e)"

definition kept_names_current :: "om_store \<Rightarrow> om_forest \<Rightarrow> nat \<Rightarrow> nat list \<Rightarrow> bool" where
  "kept_names_current S F p es \<longleftrightarrow> (\<forall>c \<in> set (kids F p). \<forall>e q. holds_element S c e \<and> elt_qname (os_elements S e) = Some q \<longrightarrow>
     current_name S es e = (Some (localpart q), namespace_uri q))"

definition has_name :: "om_store \<Rightarrow> nat list \<Rightarrow> axutil_qname \<Rightarrow> nat \<Rightarrow> bool" where
  "has_name S es g c \<longleftrightarrow> (\<exists>e. holds_element S c e \<and> current_name S es e = (Some (localpart g), namespace_uri g))"

lemma named_current:
  assumes "named_kids S F p es" "kept_names_current S F p es" "c \<in> set (kids F p)"
  shows "named S es g c = has_name S es g c"
proof -
  have "element_name S es e = (localpart g, namespace_uri g) \<longleftrightarrow> current_name S es e = (Some (localpart g), namespace_uri g)"
    if e: "holds_element S c e" for e
  proof (cases "elt_qname (os_elements S e)")
    case (Some q)
    with assms(2,3) e have "current_name S es e = (Some (localpart q), namespace_uri q)" by (auto simp: kept_names_current_def)
    with Some show ?thesis by (simp add: element_name_def)
  next
    case None
    have "elt_localname (os_elements S e) \<noteq> None" using assms(1,3) e by (auto simp: named_kids_def holds_element_def)
    with None show ?thesis by (auto simp: element_name_def current_name_def)
  qed
  then show ?thesis unfolding named_def has_name_def holds_element_def by blast
qed

text \<open>
  C25: the iterator over the children with a qualified name (\<^verbatim>\<open>axiom_children_qname_iterator\<close>), on a tree that is built
  completely and whose child elements have local names, gives exactly the child elements whose present local name and namespace
  URI are those of the name, in document order, and then ends: elements without a namespace of their own count with the default
  namespace in scope, and prefixes do not count. It is assumed that no child element was given another local name or namespace
  after its qualified name had been asked for, since the iterator goes by the name that was kept then.
\<close>

theorem qname_iterator_visits:
  assumes "named_kids S F p es" "kept_names_current S F p es" "kids F p \<noteq> []" "mem_ok malloc"
  shows "\<exists>c it. axiom_node_get_first_child (os_nodes S) (Some p) = Inr c \<and>
    axiom_children_qname_iterator_create malloc c (Some g) = Inr it \<and>
    drain_named malloc S it = Some (Inr (map Some (filter (has_name S es g) (kids F p))))"
proof -
  have "filter (named S es g) (kids F p) = filter (has_name S es g) (kids F p)"
    using named_current [OF assms(1,2)] by (simp cong: filter_cong)
  with qname_iterator_kept_names [OF assms(1,3,4), of g] show ?thesis by simp
qed

definition body_name :: axutil_qname where
  "body_name = \<lparr>localpart = ''Body'', namespace_uri = None, prefix = None, qname_string = None, qname_ref = 1\<rparr>"

lemma sample_named:
  "named_kids sample_store sample_forest 0 [10]" "filter (named sample_store [10] body_name) (kids sample_forest 0) = [2]"
proof -
  have "sample_heap 0 \<noteq> None" "sample_heap 1 \<noteq> None" "sample_heap 2 \<noteq> None" using sample_dom by auto
  then obtain n0 n1 n2 where n: "sample_heap 0 = Some n0" "sample_heap 1 = Some n1" "sample_heap 2 = Some n2" by auto
  have t: "n_type n0 = AXIOM_ELEMENT" "n_data n0 = Some 10" "n_type n1 = AXIOM_TEXT" "n_type n2 = AXIOM_ELEMENT" "n_data n2 = Some 12"
    using sample_nodes n by simp_all
  have "f_par sample_forest 0 = None"
    by (simp add: sample_forest_def sample_calls_def no_nodes_def f_create_def f_place_def set_kids_def)
  then have "axiom_node_get_parent sample_heap (Some 0) = Inr None" using links_sim(3) [OF sample_rel, of 0] sample_dom by simp
  then have "parent_element sample_heap 0 = Inr None" by (simp add: parent_element_def)
  then have "scope sample_heap 0 [10]" using n(1) t by (blast intro: scope.outermost)
  moreover have "tables_ok sample_store" by (simp add: tables_ok_def sample_store_def two_elements_def)
  ultimately show "named_kids sample_store sample_forest 0 [10]"
    using sample_rel by (simp add: named_kids_def sample_store_def two_elements_def)
  show "filter (named sample_store [10] body_name) (kids sample_forest 0) = [2]"
    using n t by (simp add: sample_shape(1) named_def element_name_def sample_store_def two_elements_def body_name_def decls_def)
qed

lemma sample_current: "kept_names_current sample_store sample_forest 0 [10]"
  by (simp add: kept_names_current_def sample_store_def two_elements_def)

theorem qname_iterator_visits_witness:
  "\<exists>c it. axiom_node_get_first_child (os_nodes sample_store) (Some 0) = Inr c \<and>
    axiom_children_qname_iterator_create (\<lambda>n. True) c (Some body_name) = Inr it \<and>
    drain_named (\<lambda>n. True) sample_store it = Some (Inr [Some 2])"
proof -
  have "filter (has_name sample_store [10] body_name) (kids sample_forest 0) = [2]"
    using sample_named(2) named_current [OF sample_named(1) sample_current, of _ body_name] by (simp cong: filter_cong)
  with qname_iterator_visits [OF sample_named(1) sample_current, of "\<lambda>n. True" body_name] show ?thesis
    by (simp add: sample_shape(1) mem_ok_def)
qed

end
