(* ===== verification/Dispatch_Body.thy ===== *)
theory Dispatch_Body
  imports Dispatch_Props Om_Children
begin

text \<open>
  The dispatcher on the body of a message, on the trees of the object model: the first element of the body, its namespace
  in scope and its local name decide the service and the operation.
\<close>

section \<open>The first element of the body\<close>

text \<open>The message has an envelope, and its body at node \<open>p\<close> has the element \<open>e\<close> at node \<open>c\<close> as its first one.\<close>

definition body_starts :: "om_store \<Rightarrow> disp_ctx \<Rightarrow> om_forest \<Rightarrow> nat \<Rightarrow> nat \<Rightarrow> nat \<Rightarrow> bool" where
  "body_starts S mc F p c e \<longleftrightarrow>
     soap_envelope_of mc \<noteq> None \<and> mc_body_node mc = Some p \<and> om_rel (os_nodes S) F \<and>
     (\<exists>cs. filter (is_element (os_nodes S)) (kids F p) = c # cs) \<and> n_data (the (os_nodes S c)) = Some e"

lemma body_startsD:
  assumes "body_starts S mc F p c e"
  obtains n where "os_nodes S c = Some n" "n_type n = AXIOM_ELEMENT" "n_data n = Some e" "n_parent n = Some p"
    "axiom_node_get_first_element (os_nodes S) (Some p) = Some (Inr (Some c))"
proof -
  have r: "om_rel (os_nodes S) F" using assms by (simp add: body_starts_def)
  obtain cs where cs: "filter (is_element (os_nodes S)) (kids F p) = c # cs" using assms by (auto simp: body_starts_def)
  then have "c \<in> set (filter (is_element (os_nodes S)) (kids F p))" by simp
  then have c: "c \<in> set (kids F p)" "is_element (os_nodes S) c" by simp_all
  then obtain xs ys where k: "kids F p = xs @ c # ys" by (metis split_list)
  note kl = kid_links(3-5) [OF om_relD(1,2) [OF r] k]
  obtain n where n: "os_nodes S c = Some n" "n_parent n = Some p" using kl by (auto simp: fld_def)
  have "axiom_node_get_first_element (os_nodes S) (Some p) = Some (Inr (Some c))"
    using first_element_spec [OF r, of p "[]" "kids F p"] links_sim(1) [OF r kl(2)] cs
    by (simp add: axiom_node_get_first_element_def)
  then show ?thesis using that [of n] n c(2) assms by (simp add: is_element_def body_starts_def)
qed

lemma body_first_spec:
  assumes "body_starts (de_store E) mc F p c e"
  shows "body_first_element E mc = Some (Inr (Some (e, c)))"
proof -
  obtain n where "os_nodes (de_store E) c = Some n" "n_type n = AXIOM_ELEMENT" "n_data n = Some e"
    "axiom_node_get_first_element (os_nodes (de_store E)) (Some p) = Some (Inr (Some c))"
    using body_startsD [OF assms] by metis
  moreover have "soap_envelope_of mc \<noteq> None" "mc_body_node mc = Some p" using assms by (simp_all add: body_starts_def)
  ultimately show ?thesis
    by (auto simp: body_first_element_def axis2_msg_ctx_get_soap_envelope_def axiom_node_get_node_type_def
        axiom_node_get_data_element_def node_at_def)
qed

section \<open>Dispatching by the body\<close>

text \<open>A namespace URI that names a service: with the prefix of the services for the first time, and perhaps an operation.\<close>

definition service_uri :: "string \<Rightarrow> string \<Rightarrow> string \<Rightarrow> bool" where
  "service_uri uri pre svc \<longleftrightarrow>
     strstr (pre @ axis2_request_url_prefix) axis2_request_url_prefix = Some (length pre) \<and>
     CHR ''/'' \<notin> set svc \<and> name_ok svc \<and>
     (uri = pre @ axis2_request_url_prefix @ ''/'' @ svc \<or>
      (\<exists>op. CHR ''?'' \<notin> set op \<and> uri = pre @ axis2_request_url_prefix @ ''/'' @ svc @ ''/'' @ op))"

lemma url_svc_uri:
  assumes "services_ok E mc ht" "service_uri uri pre svc"
  shows "url_svc E mc uri = Inr (hash_abs ht svc)"
proof -
  have m: "mem_ok (de_malloc E)" using assms(1) by (simp add: services_ok_def)
  have "\<exists>op. axutil_parse_request_url_for_svc_and_op (de_malloc E) uri = Inr (Some svc, op)"
    using assms(2) parse_request_url_spec(1) [OF m] parse_request_url_spec(3) [OF m, of pre svc "''''"] by (auto simp: service_uri_def)
  then show ?thesis using assms
    by (auto simp: url_svc_def services_ok_def axis2_msg_ctx_get_conf_ctx_def axis2_conf_ctx_get_conf_def
        axis2_conf_get_svc_def hash_get_name service_uri_def)
qed

text \<open>The namespace of an element, its own or the default one around it.\<close>

definition namespace_of :: "om_store \<Rightarrow> nat list \<Rightarrow> nat \<Rightarrow> ptr" where
  "namespace_of S es e = (case elt_ns (os_elements S e) of Some n \<Rightarrow> Some n | None \<Rightarrow> declared S (e # es) '''')"

lemma get_namespace_spec:
  assumes "scope (os_nodes S) c (e # es)" "tables_ok S"
  shows "axiom_element_get_namespace malloc S e c = Some (Inr (namespace_of S es e))"
  using default_namespace_spec [OF assms, of malloc]
  by (cases "elt_ns (os_elements S e)") (simp_all add: axiom_element_get_namespace_def namespace_of_def)

lemma body_find_svc:
  assumes "services_ok E mc ht" "body_starts (de_store E) mc F p c e" "\<not> doing_rest mc"
    and "scope (os_nodes (de_store E)) p es" "tables_ok (de_store E)" "namespace_of (de_store E) es e = Some n"
    and "ns_uri (os_namespaces (de_store E) n) = Some uri" "service_uri uri pre svc"
  shows "find_svc_of Soap_body_disp E mc = Some (Inr (hash_abs ht svc))"
proof -
  let ?mc = "mc\<lparr>mc_find_svc := Some Soap_body_disp\<rparr>"
  obtain nd where nd: "os_nodes (de_store E) c = Some nd" "n_type nd = AXIOM_ELEMENT" "n_data nd = Some e" "n_parent nd = Some p"
    using body_startsD [OF assms(2)] by metis
  have ns: "axiom_element_get_namespace (de_malloc E) (de_store E) e c = Some (Inr (Some n))"
    using get_namespace_spec [OF new_scope [OF assms(4) nd] assms(5)] assms(6) by simp
  have b: "body_first_element E ?mc = Some (Inr (Some (e, c)))"
    using body_first_element_message [of mc ?mc E] body_first_spec [OF assms(2)] by simp
  have u: "url_svc E ?mc uri = Inr (hash_abs ht svc)"
    using url_svc_message [of mc ?mc E uri] url_svc_uri [OF assms(1,8)] by simp
  have "axis2_soap_body_disp_find_svc E ?mc = Some (Inr (hash_abs ht svc))"
    using assms(3,7) by (simp add: axis2_soap_body_disp_find_svc_def b ns u axiom_namespace_get_uri_def)
  then show ?thesis by (simp add: find_svc_of_def axis2_msg_ctx_find_svc_def)
qed

lemma body_find_op:
  assumes "services_ok E mc ht" "body_starts (de_store E) mc F p c e" "\<not> doing_rest mc"
    and "elt_localname (os_elements (de_store E) e) = Some op" "name_ok op"
  shows "find_op_of Soap_body_disp E mc (Some s) = Some (Inr (hash_abs (op_alias_map (w_svc (de_world E) s)) op))"
proof -
  let ?mc = "mc\<lparr>mc_find_op := Some Soap_body_disp\<rparr>"
  have "body_first_element E ?mc = Some (Inr (Some (e, c)))"
    using body_first_element_message [of mc ?mc E] body_first_spec [OF assms(2)] by simp
  then show ?thesis using assms
    by (simp add: find_op_of_def axis2_msg_ctx_find_op_def axis2_soap_body_disp_find_op_def axiom_element_get_localname_def
        axis2_svc_get_op_with_name_def hash_get_name svc_ok_def services_ok_def)
qed

text \<open>
  C10: dispatching on the content of a message. When the first element in the body is in a namespace, its own or the
  default one of the elements around it, whose URI names a service, the body dispatcher gives the message that service
  and its operation with the local name of the element, and the message then passes the checker.
\<close>

theorem dispatch_by_body:
  assumes "services_ok E mc ht" "body_starts (de_store E) mc F p c e" "\<not> doing_rest mc"
    and "scope (os_nodes (de_store E)) p es" "tables_ok (de_store E)" "namespace_of (de_store E) es e = Some n"
    and "ns_uri (os_namespaces (de_store E) n) = Some uri" "service_uri uri pre svc"
    and "elt_localname (os_elements (de_store E) e) = Some op" "name_ok op" "mc_svc mc = None" "mc_op mc = None"
    and "hash_abs ht svc = Some a" "hash_abs (op_alias_map (w_svc (de_world E) a)) op = Some b"
  shows "\<exists>mc'. axis2_soap_body_disp_invoke E mc = returns AXIS2_SUCCESS mc' \<and>
    mc_svc mc' = Some a \<and> mc_op mc' = op_at (de_world E) (Some b) \<and>
    axis2_disp_checker_invoke E (Some mc') = returns AXIS2_SUCCESS mc'"
proof -
  obtain mc' where "axis2_soap_body_disp_invoke E mc = returns AXIS2_SUCCESS mc'"
    "mc_svc mc' = Some a" "mc_op mc' = op_at (de_world E) (Some b)"
    using set_and_find_spec [of Soap_body_disp E mc "\<lambda>_. hash_abs ht svc"
        "\<lambda>_ s. hash_abs (op_alias_map (w_svc (de_world E) s)) op"]
      body_find_svc [OF assms(1-8)] body_find_op [OF assms(1-3,9,10)] assms(11-14)
    by (auto simp: axis2_soap_body_disp_invoke_def)
  then show ?thesis using checker_passes [of mc' E] by (auto simp: op_at_def)
qed

text \<open>A message whose body holds a text and an element in the namespace of a service.\<close>

definition hello_store :: om_store where
  "hello_store = sample_store\<lparr>
     os_elements := (\<lambda>_. (empty_element (Some ''hello''))\<lparr>elt_ns := Some 5\<rparr>),
     os_namespaces := (\<lambda>_. \<lparr>ns_uri = Some ''urn:services/echo'', ns_prefix = None, ns_ref = 1\<rparr>)\<rparr>"

definition hello_env :: "nat axutil_hash \<Rightarrow> nat axutil_hash \<Rightarrow> disp_env" where
  "hello_env svcs ops = (example_disp_env svcs ops)\<lparr>de_store := hello_store\<rparr>"

definition hello_ctx :: disp_ctx where
  "hello_ctx = (example_disp_ctx '''')\<lparr>soap_envelope_of := Some \<lparr>env_version = AXIOM_SOAP12, env_header = None\<rparr>,
     mc_body_node := Some 0\<rparr>"

lemma hello_body: "body_starts hello_store hello_ctx sample_forest 0 2 12" "scope (os_nodes hello_store) 0 [10]"
  "tables_ok hello_store" "namespace_of hello_store [10] 12 = Some 5"
proof -
  have n: "os_nodes hello_store = sample_heap" by (simp add: hello_store_def sample_store_def)
  have "filter (is_element sample_heap) (kids sample_forest 0) = [2]"
    by (simp add: sample_shape(1) is_element_def sample_nodes [simplified])
  then show "body_starts hello_store hello_ctx sample_forest 0 2 12"
    using sample_rel sample_nodes(6) by (simp add: body_starts_def n hello_ctx_def)
  show "scope (os_nodes hello_store) 0 [10]" using sample_named(1) by (simp add: named_kids_def n sample_store_def)
qed (simp_all add: hello_store_def tables_ok_def empty_element_def namespace_of_def)

theorem dispatch_by_body_witness:
  "\<exists>svcs ops mc'. hash_abs svcs = [''echo'' \<mapsto> 5] \<and> hash_abs ops = [''hello'' \<mapsto> 7] \<and>
    axis2_soap_body_disp_invoke (hello_env svcs ops) hello_ctx = returns AXIS2_SUCCESS mc' \<and>
    mc_svc mc' = Some 5 \<and> mc_op mc' = Some (axis2_op.truncate example_op_desc)"
proof -
  obtain svcs ops :: "nat axutil_hash" where t: "hash_inv svcs" "hash_abs svcs = [''echo'' \<mapsto> 5]"
    "hash_inv ops" "hash_abs ops = [''hello'' \<mapsto> 7]" using example_tables by blast
  let ?E = "hello_env svcs ops"
  have s: "de_store ?E = hello_store" "de_world ?E = de_world (example_disp_env svcs ops)" by (simp_all add: hello_env_def)
  have ok: "services_ok ?E hello_ctx svcs"
    using example_services [OF t(1,3), of "''''"] by (simp add: services_ok_def hello_env_def hello_ctx_def)
  have u: "service_uri ''urn:services/echo'' ''urn:'' ''echo''"
    by (simp add: service_uri_def name_ok_def NUL_def axis2_request_url_prefix_def)
  have d: "ns_uri (os_namespaces hello_store 5) = Some ''urn:services/echo''"
    "elt_localname (os_elements hello_store 12) = Some ''hello''" "name_ok ''hello''"
    by (simp_all add: hello_store_def empty_element_def name_ok_def NUL_def)
  have c: "\<not> doing_rest hello_ctx" "mc_svc hello_ctx = None" "mc_op hello_ctx = None" "hash_abs svcs ''echo'' = Some 5"
    "hash_abs (op_alias_map (w_svc (de_world ?E) 5)) ''hello'' = Some 7"
    "op_at (de_world ?E) (Some 7) = Some (axis2_op.truncate example_op_desc)"
    using t by (simp_all add: hello_ctx_def hello_env_def disp_example_defs op_at_def)
  show ?thesis
    using dispatch_by_body [OF ok hello_body(1) [folded s(1)] c(1) hello_body(2-4) [folded s(1)] d(1) [folded s(1)] u
        d(2) [folded s(1)] d(3) c(2,3,4,5)] t c(6) by fastforce
qed

end
