(* ===== verification/Md5.thy ===== *)
theory Md5
  imports Axis_Prelude
begin

text \<open>
  The MD5 message digest of \<^verbatim>\<open>util/src/md5.c\<close>: the context with its incremental update, padding and output, and the
  transformation of a block. The reference it is compared with follows RFC 1321: the padded message, its
  blocks of 64 bytes and the 64 operations of a block as a loop over tables. Bytes are words of 8 bits.
\<close>

unbundle bit_operations_syntax

section \<open>The code\<close>

definition S11 :: nat where "S11 = 7"
definition S12 :: nat where "S12 = 12"
definition S13 :: nat where "S13 = 17"
definition S14 :: nat where "S14 = 22"
definition S21 :: nat where "S21 = 5"
definition S22 :: nat where "S22 = 9"
definition S23 :: nat where "S23 = 14"
definition S24 :: nat where "S24 = 20"
definition S31 :: nat where "S31 = 4"
definition S32 :: nat where "S32 = 11"
definition S33 :: nat where "S33 = 16"
definition S34 :: nat where "S34 = 23"
definition S41 :: nat where "S41 = 6"
definition S42 :: nat where "S42 = 10"
definition S43 :: nat where "S43 = 15"
definition S44 :: nat where "S44 = 21"

type_synonym byte = "8 word"

type_synonym md5_state = "32 word \<times> 32 word \<times> 32 word \<times> 32 word"

definition AXIS2_MD5_DIGESTSIZE :: nat where "AXIS2_MD5_DIGESTSIZE = 16"

text \<open>\<^verbatim>\<open>axutil_md5_ctx_t\<close>: the words of \<^verbatim>\<open>count\<close> are the low and the high half of a number of bits.\<close>

record axutil_md5_ctx =
  md5_state :: md5_state
  md5_count0 :: "32 word"
  md5_count1 :: "32 word"
  md5_buffer :: "byte list"

definition PADDING :: "byte list" where
  "PADDING = 0x80 # replicate 63 0"

text \<open>The macros. \<open>md5_round\<close> names the four of them that are used as statements.\<close>

definition md5_F :: "32 word \<Rightarrow> 32 word \<Rightarrow> 32 word \<Rightarrow> 32 word" where
  "md5_F x y z = (x AND y) OR (NOT x AND z)"

definition md5_G :: "32 word \<Rightarrow> 32 word \<Rightarrow> 32 word \<Rightarrow> 32 word" where
  "md5_G x y z = (x AND z) OR (y AND NOT z)"

definition md5_H :: "32 word \<Rightarrow> 32 word \<Rightarrow> 32 word \<Rightarrow> 32 word" where
  "md5_H x y z = x XOR y XOR z"

definition md5_I :: "32 word \<Rightarrow> 32 word \<Rightarrow> 32 word \<Rightarrow> 32 word" where
  "md5_I x y z = y XOR (x OR NOT z)"

definition ROTATE_LEFT :: "32 word \<Rightarrow> nat \<Rightarrow> 32 word" where
  "ROTATE_LEFT x n = push_bit n x OR drop_bit (32 - n) x"

datatype md5_round = FF | GG | HH | II

definition md5_fun :: "md5_round \<Rightarrow> 32 word \<Rightarrow> 32 word \<Rightarrow> 32 word \<Rightarrow> 32 word" where
  "md5_fun r = (case r of FF \<Rightarrow> md5_F | GG \<Rightarrow> md5_G | HH \<Rightarrow> md5_H | II \<Rightarrow> md5_I)"

text \<open>The loops of \<^verbatim>\<open>encode\<close> and \<^verbatim>\<open>decode\<close>, over whole words.\<close>

fun encode :: "32 word list \<Rightarrow> byte list" where
  "encode [] = []"
| "encode (k # input) =
     [ucast (k AND 0xff), ucast (drop_bit 8 k AND 0xff), ucast (drop_bit 16 k AND 0xff),
      ucast (drop_bit 24 k AND 0xff)] @ encode input"

fun decode :: "byte list \<Rightarrow> 32 word list" where
  "decode (b0 # b1 # b2 # b3 # input) =
     (ucast b0 OR push_bit 8 (ucast b1) OR push_bit 16 (ucast b2) OR push_bit 24 (ucast b3)) # decode input"
| "decode input = []"

text \<open>
  The local variables \<^verbatim>\<open>a\<close>, \<^verbatim>\<open>b\<close>, \<^verbatim>\<open>c\<close> and \<^verbatim>\<open>d\<close> of \<^verbatim>\<open>md5_transform\<close>, and the statements of its body, in order:
  the macro, its four variables, the index into \<^verbatim>\<open>x\<close>, the rotation and the constant.
\<close>

datatype md5_reg = RA | RB | RC | RD

type_synonym md5_row = "md5_round \<times> md5_reg \<times> md5_reg \<times> md5_reg \<times> md5_reg \<times> nat \<times> nat \<times> 32 word"

definition md5_round1 :: "md5_row list" where
  "md5_round1 = [
     (FF, RA, RB, RC, RD, 0, S11, 0xd76aa478), (FF, RD, RA, RB, RC, 1, S12, 0xe8c7b756),
     (FF, RC, RD, RA, RB, 2, S13, 0x242070db), (FF, RB, RC, RD, RA, 3, S14, 0xc1bdceee),
     (FF, RA, RB, RC, RD, 4, S11, 0xf57c0faf), (FF, RD, RA, RB, RC, 5, S12, 0x4787c62a),
     (FF, RC, RD, RA, RB, 6, S13, 0xa8304613), (FF, RB, RC, RD, RA, 7, S14, 0xfd469501),
     (FF, RA, RB, RC, RD, 8, S11, 0x698098d8), (FF, RD, RA, RB, RC, 9, S12, 0x8b44f7af),
     (FF, RC, RD, RA, RB, 10, S13, 0xffff5bb1), (FF, RB, RC, RD, RA, 11, S14, 0x895cd7be),
     (FF, RA, RB, RC, RD, 12, S11, 0x6b901122), (FF, RD, RA, RB, RC, 13, S12, 0xfd987193),
     (FF, RC, RD, RA, RB, 14, S13, 0xa679438e), (FF, RB, RC, RD, RA, 15, S14, 0x49b40821)]"

definition md5_round2 :: "md5_row list" where
  "md5_round2 = [
     (GG, RA, RB, RC, RD, 1, S21, 0xf61e2562), (GG, RD, RA, RB, RC, 6, S22, 0xc040b340),
     (GG, RC, RD, RA, RB, 11, S23, 0x265e5a51), (GG, RB, RC, RD, RA, 0, S24, 0xe9b6c7aa),
     (GG, RA, RB, RC, RD, 5, S21, 0xd62f105d), (GG, RD, RA, RB, RC, 10, S22, 0x2441453),
     (GG, RC, RD, RA, RB, 15, S23, 0xd8a1e681), (GG, RB, RC, RD, RA, 4, S24, 0xe7d3fbc8),
     (GG, RA, RB, RC, RD, 9, S21, 0x21e1cde6), (GG, RD, RA, RB, RC, 14, S22, 0xc33707d6),
     (GG, RC, RD, RA, RB, 3, S23, 0xf4d50d87), (GG, RB, RC, RD, RA, 8, S24, 0x455a14ed),
     (GG, RA, RB, RC, RD, 13, S21, 0xa9e3e905), (GG, RD, RA, RB, RC, 2, S22, 0xfcefa3f8),
     (GG, RC, RD, RA, RB, 7, S23, 0x676f02d9), (GG, RB, RC, RD, RA, 12, S24, 0x8d2a4c8a)]"

definition md5_round3 :: "md5_row list" where
  "md5_round3 = [
     (HH, RA, RB, RC, RD, 5, S31, 0xfffa3942), (HH, RD, RA, RB, RC, 8, S32, 0x8771f681),
     (HH, RC, RD, RA, RB, 11, S33, 0x6d9d6122), (HH, RB, RC, RD, RA, 14, S34, 0xfde5380c),
     (HH, RA, RB, RC, RD, 1, S31, 0xa4beea44), (HH, RD, RA, RB, RC, 4, S32, 0x4bdecfa9),
     (HH, RC, RD, RA, RB, 7, S33, 0xf6bb4b60), (HH, RB, RC, RD, RA, 10, S34, 0xbebfbc70),
     (HH, RA, RB, RC, RD, 13, S31, 0x289b7ec6), (HH, RD, RA, RB, RC, 0, S32, 0xeaa127fa),
     (HH, RC, RD, RA, RB, 3, S33, 0xd4ef3085), (HH, RB, RC, RD, RA, 6, S34, 0x4881d05),
     (HH, RA, RB, RC, RD, 9, S31, 0xd9d4d039), (HH, RD, RA, RB, RC, 12, S32, 0xe6db99e5),
     (HH, RC, RD, RA, RB, 15, S33, 0x1fa27cf8), (HH, RB, RC, RD, RA, 2, S34, 0xc4ac5665)]"

definition md5_round4 :: "md5_row list" where
  "md5_round4 = [
     (II, RA, RB, RC, RD, 0, S41, 0xf4292244), (II, RD, RA, RB, RC, 7, S42, 0x432aff97),
     (II, RC, RD, RA, RB, 14, S43, 0xab9423a7), (II, RB, RC, RD, RA, 5, S44, 0xfc93a039),
     (II, RA, RB, RC, RD, 12, S41, 0x655b59c3), (II, RD, RA, RB, RC, 3, S42, 0x8f0ccc92),
     (II, RC, RD, RA, RB, 10, S43, 0xffeff47d), (II, RB, RC, RD, RA, 1, S44, 0x85845dd1),
     (II, RA, RB, RC, RD, 8, S41, 0x6fa87e4f), (II, RD, RA, RB, RC, 15, S42, 0xfe2ce6e0),
     (II, RC, RD, RA, RB, 6, S43, 0xa3014314), (II, RB, RC, RD, RA, 13, S44, 0x4e0811a1),
     (II, RA, RB, RC, RD, 4, S41, 0xf7537e82), (II, RD, RA, RB, RC, 11, S42, 0xbd3af235),
     (II, RC, RD, RA, RB, 2, S43, 0x2ad7d2bb), (II, RB, RC, RD, RA, 9, S44, 0xeb86d391)]"

definition md5_statements :: "md5_row list" where
  "md5_statements = md5_round1 @ md5_round2 @ md5_round3 @ md5_round4"

definition md5_statement ::
    "32 word list \<Rightarrow> md5_row \<Rightarrow> (md5_reg \<Rightarrow> 32 word) \<Rightarrow> (md5_reg \<Rightarrow> 32 word)" where
  "md5_statement x = (\<lambda>(r, a, b, c, d, k, s, ac) v.
     let va = v a + (md5_fun r (v b) (v c) (v d) + x ! k + ac);
         va' = ROTATE_LEFT va s
     in v(a := va' + v b))"

definition md5_transform :: "md5_state \<Rightarrow> byte list \<Rightarrow> md5_state" where
  "md5_transform state block =
     (case state of (s0, s1, s2, s3) \<Rightarrow>
        let x = decode block;
            v = fold (md5_statement x) md5_statements (\<lambda>r. case r of RA \<Rightarrow> s0 | RB \<Rightarrow> s1 | RC \<Rightarrow> s2 | RD \<Rightarrow> s3)
        in (s0 + v RA, s1 + v RB, s2 + v RC, s3 + v RD))"

text \<open>The buffer of a new context is not initialised.\<close>

definition sizeof_md5_ctx :: nat where "sizeof_md5_ctx = 88"

definition axutil_md5_ctx_create :: "alloc \<Rightarrow> axutil_md5_ctx option" where
  "axutil_md5_ctx_create malloc =
     (if \<not> malloc sizeof_md5_ctx then None
      else Some \<lparr>md5_state = (0x67452301, 0xefcdab89, 0x98badcfe, 0x10325476), md5_count0 = 0, md5_count1 = 0,
                 md5_buffer = replicate 64 garbage\<rparr>)"

text \<open>\<^verbatim>\<open>memcpy(&buffer[idx], bytes, n)\<close>, within the buffer.\<close>

definition copy_at :: "byte list \<Rightarrow> nat \<Rightarrow> byte list \<Rightarrow> byte list result" where
  "copy_at buffer idx bytes =
     (if idx + length bytes \<le> length buffer
      then Inr (take idx buffer @ bytes @ drop (idx + length bytes) buffer)
      else Inl UNDEFINED_BEHAVIOUR)"

text \<open>
  The loop of \<^verbatim>\<open>axutil_md5_update\<close> over the whole blocks of the input. The index is an \<^verbatim>\<open>unsigned int\<close>, the length of
  the input a \<^verbatim>\<open>size_t\<close>: for an input of 4 GB the loop does not end.
\<close>

partial_function (option) update_loop :: "byte list \<Rightarrow> nat \<Rightarrow> md5_state \<Rightarrow> (nat \<times> md5_state) result option" where
  "update_loop input i state =
     (if (i + 63) mod 2 ^ 32 < length input then
        if length input < i + 64 then Some (Inl UNDEFINED_BEHAVIOUR)
        else update_loop input ((i + 64) mod 2 ^ 32) (md5_transform state (take 64 (drop i input)))
      else Some (Inr (i, state)))"

definition md5_index :: "axutil_md5_ctx \<Rightarrow> nat" where
  "md5_index ctx = unat (drop_bit 3 (md5_count0 ctx) AND 0x3F)"

definition count_bits :: "axutil_md5_ctx \<Rightarrow> nat \<Rightarrow> axutil_md5_ctx" where
  "count_bits ctx len =
     (let bits = push_bit 3 (of_nat len :: 32 word);
          c0 = md5_count0 ctx + bits;
          c1 = (if c0 < bits then md5_count1 ctx + 1 else md5_count1 ctx)
      in ctx\<lparr>md5_count0 := c0, md5_count1 := c1 + drop_bit 29 (of_nat len)\<rparr>)"

definition axutil_md5_update :: "axutil_md5_ctx \<Rightarrow> byte list \<Rightarrow> axutil_md5_ctx result option" where
  "axutil_md5_update ctx input =
     (let idx = md5_index ctx;
          ctx1 = count_bits ctx (length input);
          partLen = 64 - idx
      in if length input \<ge> partLen then
           (case copy_at (md5_buffer ctx1) idx (take partLen input) of
              Inl e \<Rightarrow> Some (Inl e)
            | Inr buffer \<Rightarrow>
                (case update_loop input partLen (md5_transform (md5_state ctx1) buffer) of
                   None \<Rightarrow> None
                 | Some (Inl e) \<Rightarrow> Some (Inl e)
                 | Some (Inr (i, state)) \<Rightarrow>
                     Some (res_bind (copy_at buffer 0 (drop i input)) (\<lambda>buffer'.
                       Inr (ctx1\<lparr>md5_state := state, md5_buffer := buffer'\<rparr>)))))
         else Some (res_bind (copy_at (md5_buffer ctx1) idx input) (\<lambda>buffer. Inr (ctx1\<lparr>md5_buffer := buffer\<rparr>))))"

text \<open>The next C statement of a run.\<close>

definition md5_then :: "axutil_md5_ctx result option \<Rightarrow> (axutil_md5_ctx \<Rightarrow> 'a result option) \<Rightarrow> 'a result option" where
  "md5_then r f = (case r of None \<Rightarrow> None | Some (Inl e) \<Rightarrow> Some (Inl e) | Some (Inr ctx) \<Rightarrow> f ctx)"

definition axutil_md5_final :: "axutil_md5_ctx \<Rightarrow> byte list result option" where
  "axutil_md5_final ctx =
     (let bits = encode [md5_count0 ctx, md5_count1 ctx];
          idx = md5_index ctx;
          padLen = (if idx < 56 then 56 - idx else 120 - idx)
      in md5_then (axutil_md5_update ctx (take padLen PADDING)) (\<lambda>ctx1.
         md5_then (axutil_md5_update ctx1 bits) (\<lambda>ctx2.
           case md5_state ctx2 of (s0, s1, s2, s3) \<Rightarrow> Some (Inr (encode [s0, s1, s2, s3])))))"

definition axutil_md5 :: "alloc \<Rightarrow> byte list \<Rightarrow> byte list result option" where
  "axutil_md5 malloc input =
     (case axutil_md5_ctx_create malloc of
        None \<Rightarrow> Some (Inl FAILURE_STATUS)
      | Some ctx \<Rightarrow> md5_then (axutil_md5_update ctx input) axutil_md5_final)"

section \<open>The reference\<close>

text \<open>Numbers as bytes, least significant byte first, and back.\<close>

definition le_bytes :: "nat \<Rightarrow> nat \<Rightarrow> byte list" where
  "le_bytes n k = map (\<lambda>i. of_nat (k div 256 ^ i)) [0..<n]"

fun le_number :: "byte list \<Rightarrow> nat" where
  "le_number [] = 0"
| "le_number (b # bs) = unat b + 256 * le_number bs"

text \<open>The message with a bit 1, zeros up to 56 modulo 64, and its length in bits modulo \<open>2 ^ 64\<close>.\<close>

definition md5_padded :: "byte list \<Rightarrow> byte list" where
  "md5_padded m = m @ [0x80] @ replicate ((119 - length m mod 64) mod 64) 0 @ le_bytes 8 (8 * length m)"

text \<open>The additive constants \<open>floor (2 ^ 32 * abs (sin (i + 1)))\<close>, the rotations and the word each operation uses.\<close>

definition md5_T :: "32 word list list" where
  "md5_T = [
     [0xd76aa478, 0xe8c7b756, 0x242070db, 0xc1bdceee, 0xf57c0faf, 0x4787c62a, 0xa8304613, 0xfd469501,
      0x698098d8, 0x8b44f7af, 0xffff5bb1, 0x895cd7be, 0x6b901122, 0xfd987193, 0xa679438e, 0x49b40821],
     [0xf61e2562, 0xc040b340, 0x265e5a51, 0xe9b6c7aa, 0xd62f105d, 0x02441453, 0xd8a1e681, 0xe7d3fbc8,
      0x21e1cde6, 0xc33707d6, 0xf4d50d87, 0x455a14ed, 0xa9e3e905, 0xfcefa3f8, 0x676f02d9, 0x8d2a4c8a],
     [0xfffa3942, 0x8771f681, 0x6d9d6122, 0xfde5380c, 0xa4beea44, 0x4bdecfa9, 0xf6bb4b60, 0xbebfbc70,
      0x289b7ec6, 0xeaa127fa, 0xd4ef3085, 0x04881d05, 0xd9d4d039, 0xe6db99e5, 0x1fa27cf8, 0xc4ac5665],
     [0xf4292244, 0x432aff97, 0xab9423a7, 0xfc93a039, 0x655b59c3, 0x8f0ccc92, 0xffeff47d, 0x85845dd1,
      0x6fa87e4f, 0xfe2ce6e0, 0xa3014314, 0x4e0811a1, 0xf7537e82, 0xbd3af235, 0x2ad7d2bb, 0xeb86d391]]"

definition md5_rotations :: "nat list" where
  "md5_rotations = [7, 12, 17, 22,  5, 9, 14, 20,  4, 11, 16, 23,  6, 10, 15, 21]"

definition md5_word :: "nat \<Rightarrow> nat" where
  "md5_word i =
     (if i < 16 then i else if i < 32 then (5 * i + 1) mod 16 else if i < 48 then (3 * i + 5) mod 16 else 7 * i mod 16)"

definition rotl :: "32 word \<Rightarrow> nat \<Rightarrow> 32 word" where
  "rotl x n = word_rotl n x"

text \<open>Operation \<open>i\<close> of a block; the four words change places after it.\<close>

definition md5_operation :: "(nat \<Rightarrow> 32 word) \<Rightarrow> nat \<Rightarrow> md5_state \<Rightarrow> md5_state" where
  "md5_operation M i = (\<lambda>(a, b, c, d).
     let f = (if i < 16 then (b AND c) OR (NOT b AND d) else if i < 32 then (b AND d) OR (c AND NOT d)
              else if i < 48 then b XOR c XOR d else c XOR (b OR NOT d))
     in (d, b + rotl (a + f + M (md5_word i) + md5_T ! (i div 16) ! (i mod 16)) (md5_rotations ! (4 * (i div 16) + i mod 4)), b, c))"

definition md5_compress :: "md5_state \<Rightarrow> byte list \<Rightarrow> md5_state" where
  "md5_compress st block =
     (let M = (\<lambda>k. of_nat (le_number (take 4 (drop (4 * k) block))))
      in case (st, fold (md5_operation M) [0..<64] st) of
           ((a, b, c, d), (a', b', c', d')) \<Rightarrow> (a + a', b + b', c + c', d + d'))"

text \<open>The whole blocks of a message, one after the other.\<close>

function md5_blocks :: "md5_state \<Rightarrow> byte list \<Rightarrow> md5_state" where
  "md5_blocks st m = (if length m < 64 then st else md5_blocks (md5_compress st (take 64 m)) (drop 64 m))"
  by pat_completeness auto
termination by (relation "measure (\<lambda>(st, m). length m)") auto

declare md5_blocks.simps [simp del]

definition md5_init :: md5_state where
  "md5_init = (0x67452301, 0xefcdab89, 0x98badcfe, 0x10325476)"

definition md5_digest :: "byte list \<Rightarrow> byte list" where
  "md5_digest m =
     (case md5_blocks md5_init (md5_padded m) of
        (a, b, c, d) \<Rightarrow> le_bytes 4 (unat a) @ le_bytes 4 (unat b) @ le_bytes 4 (unat c) @ le_bytes 4 (unat d))"

section \<open>One block\<close>

lemma ROTATE_LEFT_rotl:
  assumes "0 < n" "n < 32"
  shows "ROTATE_LEFT x n = rotl x n"
proof (rule bit_word_eqI)
  fix i assume i: "i < LENGTH(32)"
  have l: "bit (ROTATE_LEFT x n) i \<longleftrightarrow> n \<le> i \<and> bit x (i - n) \<or> bit x (32 - n + i)"
    using i by (simp add: ROTATE_LEFT_def bit_simps)
  have r: "bit (rotl x n) i \<longleftrightarrow> bit x ((i + (32 - n)) mod 32)"
    using i assms by (simp add: rotl_def bit_word_rotl_iff)
  show "bit (ROTATE_LEFT x n) i = bit (rotl x n) i"
  proof (cases "i < n")
    case True
    then have "(i + (32 - n)) mod 32 = 32 - n + i" using assms by simp
    with True l r show ?thesis by simp
  next
    case False
    then have e: "i + (32 - n) = 32 + (i - n)" using assms by simp
    have "i < 32" using i by simp
    then have "(32 + (i - n)) mod 32 = i - n" using mod_add_self1 [of 32 "i - n"] by simp
    moreover have "\<not> bit x (32 - n + i)" using bit_imp_le_length [of x "32 - n + i"] e by auto
    ultimately show ?thesis using False l r unfolding e by simp
  qed
qed

text \<open>The statements of the code are those of the tables, with the variables in turn.\<close>

definition md5_regs :: "nat \<Rightarrow> md5_reg" where
  "md5_regs j = [RA, RB, RC, RD] ! (j mod 4)"

definition row_of :: "nat \<Rightarrow> md5_row" where
  "row_of i =
     ([FF, GG, HH, II] ! (i div 16), md5_regs (3 * i), md5_regs (3 * i + 1), md5_regs (3 * i + 2), md5_regs (3 * i + 3),
      md5_word i, md5_rotations ! (4 * (i div 16) + i mod 4), md5_T ! (i div 16) ! (i mod 16))"

lemma md5_round1_rows: "md5_round1 = map row_of [0, 1, 2, 3, 4, 5, 6, 7, 8, 9, 10, 11, 12, 13, 14, 15]"
  by (simp add: md5_round1_def row_of_def md5_regs_def md5_word_def md5_rotations_def md5_T_def
      S11_def S12_def S13_def S14_def)

lemma md5_round2_rows: "md5_round2 = map row_of [16, 17, 18, 19, 20, 21, 22, 23, 24, 25, 26, 27, 28, 29, 30, 31]"
  by (simp add: md5_round2_def row_of_def md5_regs_def md5_word_def md5_rotations_def md5_T_def
      S21_def S22_def S23_def S24_def)

lemma md5_round3_rows: "md5_round3 = map row_of [32, 33, 34, 35, 36, 37, 38, 39, 40, 41, 42, 43, 44, 45, 46, 47]"
  by (simp add: md5_round3_def row_of_def md5_regs_def md5_word_def md5_rotations_def md5_T_def
      S31_def S32_def S33_def S34_def)

lemma md5_round4_rows: "md5_round4 = map row_of [48, 49, 50, 51, 52, 53, 54, 55, 56, 57, 58, 59, 60, 61, 62, 63]"
  by (simp add: md5_round4_def row_of_def md5_regs_def md5_word_def md5_rotations_def md5_T_def
      S41_def S42_def S43_def S44_def)

lemma md5_statements_rows: "md5_statements = map row_of [0..<64]"
proof -
  have "[0..<64] = [0, 1, 2, 3, 4, 5, 6, 7, 8, 9, 10, 11, 12, 13, 14, 15] @
      [16, 17, 18, 19, 20, 21, 22, 23, 24, 25, 26, 27, 28, 29, 30, 31] @
      [32, 33, 34, 35, 36, 37, 38, 39, 40, 41, 42, 43, 44, 45, 46, 47] @
      [48, 49, 50, 51, 52, 53, 54, 55, 56, 57, 58, 59, 60, 61, 62, 63]" by code_simp
  then show ?thesis
    by (simp only: md5_statements_def md5_round1_rows md5_round2_rows md5_round3_rows md5_round4_rows map_append)
qed

lemma rotation_range:
  assumes "i < 64"
  shows "0 < md5_rotations ! (4 * (i div 16) + i mod 4) \<and> md5_rotations ! (4 * (i div 16) + i mod 4) < 32"
proof -
  have "list_all (\<lambda>n. 0 < n \<and> n < 32) md5_rotations" by (simp add: md5_rotations_def)
  moreover have "i div 16 < 4" using assms by simp
  then have "4 * (i div 16) + i mod 4 < 16" using mod_less_divisor [of 4 i] by linarith
  then have "4 * (i div 16) + i mod 4 < length md5_rotations" by (simp add: md5_rotations_def)
  ultimately show ?thesis by (simp add: list_all_length)
qed

lemma md5_word_range: "md5_word i < 16"
  by (simp add: md5_word_def)

definition md5_view :: "nat \<Rightarrow> (md5_reg \<Rightarrow> 32 word) \<Rightarrow> md5_state" where
  "md5_view i v = (v (md5_regs (3 * i)), v (md5_regs (3 * i + 1)), v (md5_regs (3 * i + 2)), v (md5_regs (3 * i + 3)))"

lemma md5_regs_distinct:
  "md5_regs (j + 1) \<noteq> md5_regs j" "md5_regs (j + 2) \<noteq> md5_regs j" "md5_regs (j + 3) \<noteq> md5_regs j"
  "md5_regs (j + 4) = md5_regs j" "md5_regs (j + 5) = md5_regs (j + 1)" "md5_regs (j + 6) = md5_regs (j + 2)"
proof -
  have m: "(j + 1) mod 4 = (if j mod 4 = 3 then 0 else j mod 4 + 1)"
    "(j + 2) mod 4 = (if j mod 4 < 2 then j mod 4 + 2 else j mod 4 - 2)"
    "(j + 3) mod 4 = (if j mod 4 = 0 then 3 else j mod 4 - 1)"
    "(j + 4) mod 4 = j mod 4" "(j + 5) mod 4 = (j + 1) mod 4" "(j + 6) mod 4 = (j + 2) mod 4" by presburger+
  consider "j mod 4 = 0" | "j mod 4 = 1" | "j mod 4 = 2" | "j mod 4 = 3" by linarith
  then show "md5_regs (j + 1) \<noteq> md5_regs j" "md5_regs (j + 2) \<noteq> md5_regs j" "md5_regs (j + 3) \<noteq> md5_regs j"
    by (cases; simp only: md5_regs_def m; simp)+
  show "md5_regs (j + 4) = md5_regs j" "md5_regs (j + 5) = md5_regs (j + 1)" "md5_regs (j + 6) = md5_regs (j + 2)"
    by (simp_all only: md5_regs_def m)
qed

lemma md5_statement_row:
  assumes "i < 64" "\<forall>k < 16. x ! k = M k"
  shows "md5_view (Suc i) (md5_statement x (row_of i) v) = md5_operation M i (md5_view i v)"
proof -
  have f: "md5_fun ([FF, GG, HH, II] ! (i div 16)) b c d =
      (if i < 16 then (b AND c) OR (NOT b AND d) else if i < 32 then (b AND d) OR (c AND NOT d)
       else if i < 48 then b XOR c XOR d else c XOR (b OR NOT d))" for b c d
  proof -
    consider "i div 16 = 0" "i < 16" | "i div 16 = 1" "i < 32" "\<not> i < 16"
      | "i div 16 = 2" "i < 48" "\<not> i < 32" | "i div 16 = 3" "\<not> i < 48" using assms(1) by linarith
    then show ?thesis by cases (auto simp: md5_fun_def md5_F_def md5_G_def md5_H_def md5_I_def)
  qed
  have r: "3 * Suc i = 3 * i + 3" "3 * Suc i + 1 = 3 * i + 4" "3 * Suc i + 2 = 3 * i + 5" "3 * Suc i + 3 = 3 * i + 6" by simp_all
  show ?thesis
    using assms(2) md5_word_range [of i] rotation_range [OF assms(1)] md5_regs_distinct [of "3 * i"]
    unfolding md5_view_def r
    by (simp add: md5_statement_def row_of_def md5_operation_def Let_def f ROTATE_LEFT_rotl ac_simps)
qed

lemma md5_fold_rows:
  assumes "n \<le> 64" "\<forall>k < 16. x ! k = M k"
  shows "md5_view n (fold (md5_statement x) (map row_of [0..<n]) v) = fold (md5_operation M) [0..<n] (md5_view 0 v)"
  using assms(1)
proof (induction n)
  case (Suc n)
  then show ?case using md5_statement_row [OF _ assms(2), of n] by simp
qed simp

text \<open>The words of a block.\<close>

lemma or_disjoint_add:
  fixes x y :: "32 word"
  assumes "take_bit n x = x"
  shows "x OR push_bit n y = x + push_bit n y"
proof -
  have "x AND push_bit n y = 0"
  proof (rule bit_word_eqI)
    fix i
    show "bit (x AND push_bit n y) i = bit (0 :: 32 word) i"
      using assms bit_take_bit_iff [of n x i] by (auto simp: bit_simps)
  qed
  then show ?thesis using word_plus_and_or [of x "push_bit n y"] by simp
qed

lemma or_byte:
  fixes b :: byte
  assumes "k < 2 ^ n"
  shows "(of_nat k OR push_bit n (ucast b) :: 32 word) = of_nat (k + unat b * 2 ^ n)"
proof -
  have "take_bit n (of_nat k :: 32 word) = of_nat k"
    using assms by (metis of_nat_take_bit take_bit_nat_eq_self)
  then have o: "(of_nat k OR push_bit n (ucast b) :: 32 word) = of_nat k + push_bit n (ucast b)"
    by (rule or_disjoint_add)
  have "(ucast b :: 32 word) = of_nat (unat b)" by simp
  then show ?thesis unfolding o by (simp only: push_bit_eq_mult of_nat_add of_nat_mult of_nat_power of_nat_numeral)
qed

lemma decode_word:
  "(ucast b0 OR push_bit 8 (ucast b1) OR push_bit 16 (ucast b2) OR push_bit 24 (ucast b3) :: 32 word) =
   of_nat (le_number [b0, b1, b2, b3])"
  for b0 b1 b2 b3 :: byte
proof -
  have l: "unat b < 2 ^ 8" for b :: byte using unsigned_less [of b, where ?'a = nat] by simp
  have "unat b0 + unat b1 * 2 ^ 8 < 2 ^ 16" "unat b0 + unat b1 * 2 ^ 8 + unat b2 * 2 ^ 16 < 2 ^ 24"
    using l [of b0] l [of b1] l [of b2] by simp_all
  then have "((of_nat (unat b0) OR push_bit 8 (ucast b1)) OR push_bit 16 (ucast b2)) OR push_bit 24 (ucast b3) =
      (of_nat (unat b0 + unat b1 * 2 ^ 8 + unat b2 * 2 ^ 16 + unat b3 * 2 ^ 24) :: 32 word)"
    using l [of b0] by (simp only: or_byte)
  moreover have "of_nat (unat b0) = (ucast b0 :: 32 word)" by simp
  moreover have "le_number [b0, b1, b2, b3] = unat b0 + unat b1 * 2 ^ 8 + unat b2 * 2 ^ 16 + unat b3 * 2 ^ 24" by simp
  ultimately show ?thesis by (simp only: or.assoc)
qed

lemma decode_nth:
  "4 * k + 4 \<le> length block \<Longrightarrow> decode block ! k = of_nat (le_number (take 4 (drop (4 * k) block)))"
proof (induction block arbitrary: k rule: decode.induct)
  case (1 b0 b1 b2 b3 input)
  show ?case
  proof (cases k)
    case 0
    then show ?thesis using decode_word [of b0 b1 b2 b3] by simp
  next
    case (Suc j)
    then have "4 * k = Suc (Suc (Suc (Suc (4 * j))))" by simp
    then have "drop (4 * k) (b0 # b1 # b2 # b3 # input) = drop (4 * j) input" by (simp only: drop_Suc_Cons)
    then show ?thesis using "1.IH" [of j] "1.prems" Suc by simp
  qed
qed auto

text \<open>The transformation of the code is the compression of the RFC.\<close>

lemma md5_transform_compress:
  assumes "length block = 64"
  shows "md5_transform st block = md5_compress st block"
proof -
  obtain a b c d where st: "st = (a, b, c, d)" by (cases st)
  let ?M = "\<lambda>k. of_nat (le_number (take 4 (drop (4 * k) block)))"
  let ?v = "\<lambda>r. case r of RA \<Rightarrow> a | RB \<Rightarrow> b | RC \<Rightarrow> c | RD \<Rightarrow> d"
  have M: "\<forall>k < 16. decode block ! k = ?M k" using assms decode_nth [of _ block] by simp
  have "md5_view 0 ?v = (a, b, c, d)" by (simp add: md5_view_def md5_regs_def)
  with md5_fold_rows [OF order_refl M, of ?v] have
    "md5_view 64 (fold (md5_statement (decode block)) md5_statements ?v) = fold (md5_operation ?M) [0..<64] (a, b, c, d)"
    unfolding md5_statements_rows by (simp only:)
  then show ?thesis
    by (auto simp: st md5_transform_def md5_compress_def Let_def md5_view_def md5_regs_def split: prod.splits)
qed

end
