(* ===== verification/Md5_Props.thy ===== *)
theory Md5_Props
  imports Md5
begin

text \<open>
  The incremental computation of \<^verbatim>\<open>util/src/md5.c\<close> gives the digest of the reference, whatever the pieces
  of the message: the context after some updates represents the bytes seen so far.
\<close>

unbundle bit_operations_syntax

section \<open>Counting\<close>

lemma unat_of_nat32: "unat (of_nat k :: 32 word) = k mod 2 ^ 32"
  by (simp add: unat_of_nat take_bit_eq_mod)

lemma unat_drop_bit32: "unat (drop_bit n (of_nat k :: 32 word)) = k mod 2 ^ 32 div 2 ^ n"
  unfolding unat_drop_bit_eq unfolding unat_of_nat32 unfolding drop_bit_eq_div ..

lemma unat_mod_64: "unat (drop_bit 3 (of_nat (8 * n) :: 32 word) AND 0x3F) = n mod 64"
proof -
  have "(0x3F :: 32 word) = mask 6" by (simp add: mask_eq_exp_minus_1)
  then have "unat (drop_bit 3 (of_nat (8 * n) :: 32 word) AND 0x3F) = unat (take_bit 6 (drop_bit 3 (of_nat (8 * n) :: 32 word)))"
    by (simp only: take_bit_eq_mask)
  also have "\<dots> = (8 * n mod 2 ^ 32) div 2 ^ 3 mod 64"
    by (simp only: unsigned_take_bit_eq unat_drop_bit32) (simp add: take_bit_eq_mod)
  also have "(8 * n mod 2 ^ 32) div 2 ^ 3 = n mod 2 ^ 29" using mod_mult_mult1 [of 8 n "2 ^ 29"] by simp
  also have "n mod 2 ^ 29 mod 64 = n mod 64" by (rule mod_mod_cancel) simp
  finally show ?thesis .
qed

lemma push_bit_3: "push_bit 3 (of_nat len :: 32 word) = of_nat (8 * len)"
  by (simp add: push_bit_eq_mult)

lemma wrapped_sum:
  fixes a b n :: nat
  assumes "a < n" "b < n"
  shows "(a + b) mod n = (if a + b < n then a + b else a + b - n)" "(a + b) div n = (if a + b < n then 0 else 1)"
  using assms by (auto simp: le_mod_geq le_div_geq)

lemma count_carry:
  "(of_nat (8 * n) + push_bit 3 (of_nat len) :: 32 word) < push_bit 3 (of_nat len) \<longleftrightarrow>
   \<not> 8 * n mod 2 ^ 32 + 8 * len mod 2 ^ 32 < 2 ^ 32"
proof -
  define N :: nat where "N = 2 ^ 32"
  define a b where "a = 8 * n mod N" and "b = 8 * len mod N"
  have l: "a < N" "b < N" by (simp_all add: a_def b_def N_def)
  have "(8 * n + 8 * len) mod N = (a + b) mod N" by (simp add: a_def b_def mod_add_eq)
  then have "(8 * n + 8 * len) mod N < b \<longleftrightarrow> \<not> a + b < N" using wrapped_sum(1) [OF l] l by auto
  then show ?thesis
    by (simp only: push_bit_3 of_nat_add [symmetric] word_less_nat_alt unat_of_nat32 N_def a_def b_def)
qed

lemma count_high:
  assumes "len < 2 ^ 32"
  shows "(if \<not> 8 * n mod 2 ^ 32 + 8 * len mod 2 ^ 32 < 2 ^ 32 then of_nat (8 * n div 2 ^ 32) + 1
          else of_nat (8 * n div 2 ^ 32)) + drop_bit 29 (of_nat len :: 32 word) = of_nat (8 * (n + len) div 2 ^ 32)"
proof -
  define N :: nat where "N = 2 ^ 32"
  define a b where "a = 8 * n mod N" and "b = 8 * len mod N"
  have l: "a < N" "b < N" by (simp_all add: a_def b_def N_def)
  have d: "drop_bit 29 (of_nat len :: 32 word) = of_nat (8 * len div N)"
  proof (rule word_unat_eq_iff [THEN iffD2])
    have "8 * len div N = len div 2 ^ 29" using div_mult_mult1 [of 8 len "2 ^ 29"] by (simp add: N_def)
    moreover have "len div 2 ^ 29 mod 2 ^ 32 = len div 2 ^ 29" using assms by (intro mod_less) simp
    ultimately show "unat (drop_bit 29 (of_nat len :: 32 word)) = unat (of_nat (8 * len div N) :: 32 word)"
      using assms by (simp only: unat_drop_bit32 unat_of_nat32 mod_less)
  qed
  have "8 * (n + len) div N = 8 * n div N + 8 * len div N + (a + b) div N"
    unfolding distrib_left a_def b_def by (rule div_add1_eq)
  then show ?thesis
    unfolding N_def [symmetric] a_def [symmetric] b_def [symmetric] d wrapped_sum(2) [OF l] by simp
qed

section \<open>Blocks\<close>

lemma md5_blocks_short: "length m < 64 \<Longrightarrow> md5_blocks st m = st"
  by (simp add: md5_blocks.simps)

lemma md5_blocks_step: "length b = 64 \<Longrightarrow> md5_blocks st (b @ m) = md5_blocks (md5_compress st b) m"
  by (subst md5_blocks.simps) simp

lemma md5_blocks_append:
  "64 dvd length a \<Longrightarrow> md5_blocks st (a @ b) = md5_blocks (md5_blocks st a) b"
proof (induction st a rule: md5_blocks.induct)
  case (1 st m)
  show ?case
  proof (cases "length m < 64")
    case True
    with "1.prems" have "m = []" using dvd_imp_le by fastforce
    then show ?thesis by (simp add: md5_blocks_short)
  next
    case False
    then have "64 dvd length (drop 64 m)" using "1.prems" by (simp add: dvd_diff_nat)
    moreover have "m = take 64 m @ drop 64 m" "length (take 64 m) = 64" using False by simp_all
    ultimately show ?thesis
      using "1.IH" [OF False] md5_blocks_step [of "take 64 m"] by (metis append_assoc)
  qed
qed

lemma update_loop_spec:
  "i \<le> length input \<Longrightarrow> length input + 64 < 2 ^ 32 \<Longrightarrow>
   update_loop input i st =
     Some (Inr (i + 64 * ((length input - i) div 64), md5_blocks st (drop i input)))"
proof (induction "length input - i" arbitrary: i st rule: less_induct)
  case less
  show ?case
  proof (cases "i + 63 < length input")
    case True
    let ?b = "take 64 (drop i input)"
    have b: "length ?b = 64" using True by simp
    have m: "(i + 63) mod 2 ^ 32 = i + 63" "(i + 64) mod 2 ^ 32 = i + 64" using True less.prems(2) by simp_all
    have "drop i input = ?b @ drop (i + 64) input" by (metis add.commute append_take_drop_id drop_drop)
    then have bl: "md5_blocks st (drop i input) = md5_blocks (md5_compress st ?b) (drop (i + 64) input)"
      using md5_blocks_step [OF b, of st "drop (i + 64) input"] by metis
    have "(length input - i) div 64 = Suc ((length input - (i + 64)) div 64)"
      using True div_add_self1 [of 64 "length input - (i + 64)"] by simp
    moreover have "update_loop input i st = update_loop input (i + 64) (md5_compress st ?b)"
      using True m md5_transform_compress [OF b] by (subst update_loop.simps) simp
    ultimately show ?thesis using less.hyps [of "i + 64" "md5_compress st ?b"] less.prems(2) True bl by simp
  next
    case False
    then have "(length input - i) div 64 = 0" by simp
    moreover have "(i + 63) mod 2 ^ 32 = i + 63" using less.prems by simp
    ultimately show ?thesis using False md5_blocks_short [of "drop i input" st] by (subst update_loop.simps) simp
  qed
qed

section \<open>The context and the bytes seen so far\<close>

definition md5_inv :: "axutil_md5_ctx \<Rightarrow> byte list \<Rightarrow> bool" where
  "md5_inv ctx m \<longleftrightarrow>
     md5_state ctx = md5_blocks md5_init m \<and> length (md5_buffer ctx) = 64 \<and>
     take (length m mod 64) (md5_buffer ctx) = drop (length m - length m mod 64) m \<and>
     md5_count0 ctx = of_nat (8 * length m) \<and> md5_count1 ctx = of_nat (8 * length m div 2 ^ 32)"

lemma md5_ctx_create_inv: "axutil_md5_ctx_create malloc = Some ctx \<Longrightarrow> md5_inv ctx []"
  by (auto simp: axutil_md5_ctx_create_def md5_inv_def md5_blocks_short md5_init_def split: if_splits)

lemma md5_index_inv: "md5_inv ctx m \<Longrightarrow> md5_index ctx = length m mod 64"
  by (simp only: md5_inv_def md5_index_def unat_mod_64)

lemma count_bits_inv:
  assumes "md5_inv ctx m" "len < 2 ^ 32"
  shows "count_bits ctx len = ctx\<lparr>md5_count0 := of_nat (8 * (length m + len)), md5_count1 := of_nat (8 * (length m + len) div 2 ^ 32)\<rparr>"
proof -
  have c: "md5_count0 ctx = of_nat (8 * length m)" "md5_count1 ctx = of_nat (8 * length m div 2 ^ 32)"
    using assms(1) by (simp_all only: md5_inv_def)
  have "(of_nat (8 * length m) + push_bit 3 (of_nat len) :: 32 word) = of_nat (8 * (length m + len))"
    unfolding push_bit_3 distrib_left by (simp only: of_nat_add)
  then show ?thesis
    using count_high [OF assms(2), of "length m"]
    unfolding count_bits_def Let_def c count_carry by simp
qed

lemma count_bits_fields [simp]:
  "md5_buffer (count_bits ctx n) = md5_buffer ctx" "md5_state (count_bits ctx n) = md5_state ctx"
  by (simp_all add: count_bits_def Let_def)

text \<open>The bytes split into the whole blocks, the bytes in the buffer and, with new bytes, the block they fill up.\<close>

lemma md5_inv_split:
  assumes "md5_inv ctx m"
  obtains w r where "m = w @ r" "64 dvd length w" "length r = length m mod 64" "length r < 64"
    "take (length r) (md5_buffer ctx) = r" "md5_state ctx = md5_blocks md5_init w"
proof -
  let ?k = "length m - length m mod 64"
  have k: "64 dvd ?k" "?k \<le> length m" by (simp_all add: dvd_minus_mod)
  then have l: "length (take ?k m) = ?k" "length (drop ?k m) = length m mod 64" by simp_all
  have "md5_blocks md5_init m = md5_blocks (md5_blocks md5_init (take ?k m)) (drop ?k m)"
    using md5_blocks_append [of "take ?k m" md5_init "drop ?k m"] k l by simp
  also have "\<dots> = md5_blocks md5_init (take ?k m)" by (rule md5_blocks_short) (simp add: l)
  finally have "md5_state ctx = md5_blocks md5_init (take ?k m)" using assms by (simp add: md5_inv_def)
  then show thesis using that [of "take ?k m" "drop ?k m"] assms k l by (simp add: md5_inv_def)
qed

lemma md5_update_short:
  assumes "md5_inv ctx (w @ r)" "64 dvd length w" "length (r @ input) < 64" "take (length r) (md5_buffer ctx) = r"
    and "md5_state ctx = md5_blocks md5_init w" "length input + 64 < 2 ^ 32"
  shows "\<exists>ctx'. axutil_md5_update ctx input = Some (Inr ctx') \<and> md5_inv ctx' (w @ r @ input)"
proof -
  let ?ctx = "(count_bits ctx (length input))\<lparr>md5_buffer := r @ input @ drop (length r + length input) (md5_buffer ctx)\<rparr>"
  have wl: "length w mod 64 = 0" using assms(2) by (simp add: dvd_imp_mod_0)
  have wr: "(length w + length r) mod 64 = length r" using wl assms(3) by (metis length_append mod_add_left_eq add_0 mod_less add_lessD1)
  have idx: "md5_index ctx = length r" using md5_index_inv [OF assms(1)] wr by simp
  have l: "length input < 2 ^ 32" "length (md5_buffer ctx) = 64" using assms(1,6) by (simp_all add: md5_inv_def)
  note count = count_bits_inv [OF assms(1) l(1)]
  have len: "length (w @ r @ input) mod 64 = length (r @ input)"
    using wl assms(3) by (metis length_append mod_add_left_eq add_0 mod_less)
  have dm: "drop (length (w @ r @ input) - length (w @ r @ input) mod 64) (w @ r @ input) = r @ input"
    unfolding len by simp
  have "\<not> 64 - length r \<le> length input" using assms(3) by simp
  then have "axutil_md5_update ctx input = Some (Inr ?ctx)"
    using assms(3,4) l(2) by (simp add: axutil_md5_update_def Let_def idx copy_at_def)
  moreover have "md5_blocks md5_init (w @ r @ input) = md5_state ctx"
    using md5_blocks_append [OF assms(2)] md5_blocks_short [OF assms(3)] assms(5) by simp
  then have "md5_inv ?ctx (w @ r @ input)"
    using dm len l(2) assms(3) by (simp add: md5_inv_def count add.assoc)
  ultimately show ?thesis by blast
qed

lemma length_written_over: "length xs \<le> length ys \<Longrightarrow> length (xs @ drop (length xs) ys) = length ys"
  by simp

text \<open>With a whole block \<open>r @ p\<close>: \<open>q\<close> more whole blocks follow, and the rest goes to the buffer.\<close>

lemma md5_update_full:
  assumes "md5_inv ctx (w @ r)" "64 dvd length w" "length (r @ p) = 64" "take (length r) (md5_buffer ctx) = r"
    and "md5_state ctx = md5_blocks md5_init w" "length (p @ rest) + 64 < 2 ^ 32" "length r < 64"
  shows "\<exists>ctx'. axutil_md5_update ctx (p @ rest) = Some (Inr ctx') \<and> md5_inv ctx' (w @ r @ p @ rest)"
proof -
  let ?q = "64 * (length rest div 64)" and ?m = "w @ (r @ p) @ rest"
  have wl: "length w mod 64 = 0" using assms(2) by (simp add: dvd_imp_mod_0)
  have wr: "(length w + length r) mod 64 = length r" using wl assms(7) by (metis mod_add_left_eq add_0 mod_less)
  have idx: "md5_index ctx = length r" using md5_index_inv [OF assms(1)] wr by simp
  have l: "length (p @ rest) < 2 ^ 32" "length (md5_buffer ctx) = 64" "64 - length r = length p"
    using assms(1,3,6) by (simp_all add: md5_inv_def)
  note count = count_bits_inv [OF assms(1) l(1)]
  have buf: "copy_at (md5_buffer ctx) (length r) p = Inr (r @ p)" using assms(3,4) l(2) by (simp add: copy_at_def)
  have st: "md5_blocks md5_init ?m = md5_blocks (md5_compress (md5_blocks md5_init w) (r @ p)) rest"
    using md5_blocks_append [OF assms(2), of md5_init "(r @ p) @ rest"] md5_blocks_step [OF assms(3)] by (simp only:)
  have loop: "update_loop (p @ rest) (length p) (md5_transform (md5_state ctx) (r @ p)) =
      Some (Inr (length p + ?q, md5_blocks md5_init ?m))"
    using update_loop_spec [of "length p" "p @ rest"] assms(6) md5_transform_compress [OF assms(3)] assms(5) st by simp
  have len: "length ?m = length w + 64 + length rest" using assms(3) by simp
  then have mod: "length ?m mod 64 = length rest mod 64" using wl by (metis mod_add_left_eq add_0 mod_add_self2)
  have q: "?q \<le> length rest" "length rest - ?q = length rest mod 64" "length rest mod 64 < 64"
    by (simp_all add: minus_mult_div_eq_mod)
  have "length ?m - length ?m mod 64 = length w + (64 + ?q)" using q(1,2) len unfolding mod by linarith
  then have dm: "drop (length ?m - length ?m mod 64) ?m = drop ?q rest" using assms(3) by (simp only: drop_append) simp
  let ?ctx = "(count_bits ctx (length (p @ rest)))\<lparr>md5_state := md5_blocks md5_init ?m,
     md5_buffer := drop ?q rest @ drop (length (drop ?q rest)) (r @ p)\<rparr>"
  have cp: "copy_at (r @ p) 0 (drop ?q rest) = Inr (drop ?q rest @ drop (length (drop ?q rest)) (r @ p))"
    using q(2,3) assms(3) by (simp add: copy_at_def)
  then have u: "axutil_md5_update ctx (p @ rest) = Some (Inr ?ctx)"
    using buf loop l(3) by (simp add: axutil_md5_update_def Let_def idx)
  have "length (drop ?q rest) = length ?m mod 64" unfolding mod using q(2) by simp
  then have b: "take (length ?m mod 64) (md5_buffer ?ctx) = drop (length ?m - length ?m mod 64) ?m" unfolding dm by simp
  have "length (drop ?q rest) \<le> length (r @ p)" using q(2,3) assms(3) by simp
  then have "length (drop ?q rest @ drop (length (drop ?q rest)) (r @ p)) = 64"
    using length_written_over [of "drop ?q rest" "r @ p"] assms(3) by (simp only:)
  moreover have "md5_buffer ?ctx = drop ?q rest @ drop (length (drop ?q rest)) (r @ p)" by simp
  ultimately have "length (md5_buffer ?ctx) = 64" by (simp only:)
  note b = b this
  have "length ?m = length (w @ r) + length (p @ rest)" by simp
  then have "md5_count0 ?ctx = of_nat (8 * length ?m)" "md5_count1 ?ctx = of_nat (8 * length ?m div 2 ^ 32)"
    unfolding count by (simp_all add: add.assoc)
  moreover have "md5_state ?ctx = md5_blocks md5_init ?m" by simp
  ultimately have "md5_inv ?ctx ?m" unfolding md5_inv_def using b by (intro conjI)
  with u show ?thesis by auto
qed

lemma md5_update_inv:
  assumes "md5_inv ctx m" "length input + 64 < 2 ^ 32"
  shows "\<exists>ctx'. axutil_md5_update ctx input = Some (Inr ctx') \<and> md5_inv ctx' (m @ input)"
proof -
  obtain w r where m: "m = w @ r" "64 dvd length w" "length r = length m mod 64" "length r < 64"
    "take (length r) (md5_buffer ctx) = r" "md5_state ctx = md5_blocks md5_init w"
    using md5_inv_split [OF assms(1)] by blast
  show ?thesis
  proof (cases "64 - length r \<le> length input")
    case True
    let ?p = "64 - length r"
    have "length (r @ take ?p input) = 64" "length (take ?p input @ drop ?p input) + 64 < 2 ^ 32"
      using True m(4) assms(2) by simp_all
    from md5_update_full [OF assms(1) [unfolded m(1)] m(2) this(1) m(5,6) this(2) m(4)] show ?thesis
      by (simp add: m(1))
  next
    case False
    then have "length (r @ input) < 64" by simp
    from md5_update_short [OF assms(1) [unfolded m(1)] m(2) this m(5,6) assms(2)] show ?thesis by (simp add: m(1))
  qed
qed

section \<open>The digest\<close>

lemma le_bytes_4: "le_bytes 4 k = [of_nat k, of_nat (k div 256), of_nat (k div 65536), of_nat (k div 16777216)]"
proof -
  have "[0..<4] = [0, 1, 2, 3 :: nat]" by code_simp
  then show ?thesis by (simp add: le_bytes_def)
qed

lemma byte_of_mod: "256 dvd M \<Longrightarrow> (of_nat (x mod M) :: byte) = of_nat x"
  by (simp add: word_of_nat_eq_iff take_bit_eq_mod mod_mod_cancel)

lemma byte_of_low:
  assumes "256 dvd M" "0 < d"
  shows "(of_nat (k mod (d * M) div d) :: byte) = of_nat (k div d)"
proof -
  have "k mod (d * M) div d = k div d mod M" using assms(2) by (simp add: mod_mult2_eq)
  then show ?thesis using byte_of_mod [OF assms(1)] by simp
qed

lemma le_bytes_low: "le_bytes 4 (k mod 2 ^ 32) = le_bytes 4 k"
proof -
  have "(of_nat (k mod 2 ^ 32) :: byte) = of_nat k" by (rule byte_of_mod) simp
  moreover have "(of_nat (k mod 2 ^ 32 div 256) :: byte) = of_nat (k div 256)"
    using byte_of_low [of "2 ^ 24" 256 k] by simp
  moreover have "(of_nat (k mod 2 ^ 32 div 65536) :: byte) = of_nat (k div 65536)"
    using byte_of_low [of "2 ^ 16" 65536 k] by simp
  moreover have "(of_nat (k mod 2 ^ 32 div 16777216) :: byte) = of_nat (k div 16777216)"
    using byte_of_low [of "2 ^ 8" 16777216 k] by simp
  ultimately show ?thesis by (simp only: le_bytes_4)
qed

lemma le_bytes_8: "le_bytes 8 k = le_bytes 4 k @ le_bytes 4 (k div 2 ^ 32)"
proof -
  have "[0..<8] = [0, 1, 2, 3, 4, 5, 6, 7 :: nat]" by code_simp
  then show ?thesis unfolding le_bytes_4 by (simp add: le_bytes_def div_mult2_eq [symmetric])
qed

lemma byte_of_word: "(ucast (drop_bit n k AND 0xff) :: byte) = of_nat (unat k div 2 ^ n)" for k :: "32 word"
proof -
  have m: "(0xff :: 32 word) = mask 8" by (simp add: mask_eq_exp_minus_1)
  have "unat (drop_bit n k AND mask 8) = take_bit 8 (drop_bit n (unat k))"
    by (simp only: take_bit_eq_mask [symmetric] unsigned_take_bit_eq unat_drop_bit_eq)
  then have "unat (drop_bit n k AND 0xff) = unat k div 2 ^ n mod 256"
    unfolding m by (simp add: take_bit_eq_mod drop_bit_eq_div)
  moreover have "(ucast w :: byte) = of_nat (unat w)" for w :: "32 word" by simp
  ultimately show ?thesis using byte_of_mod [of 256] by (metis dvd_refl)
qed

lemma encode_word: "encode (k # ks) = le_bytes 4 (unat k) @ encode ks"
  using byte_of_word [of 0 k] byte_of_word [of 8 k] byte_of_word [of 16 k] byte_of_word [of 24 k]
  by (simp add: le_bytes_4)

lemma encode_count: "encode [of_nat (8 * n), of_nat (8 * n div 2 ^ 32)] = le_bytes 8 (8 * n)"
  by (simp only: encode_word encode.simps unat_of_nat32 le_bytes_low le_bytes_8 append_Nil2)

lemma length_le_bytes [simp]: "length (le_bytes n k) = n"
  by (simp add: le_bytes_def)

lemma pad_length:
  assumes "i < (64 :: nat)"
  shows "0 < (if i < 56 then 56 - i else 120 - i)" "(if i < 56 then 56 - i else 120 - i) \<le> 64"
    and "(if i < 56 then 56 - i else 120 - i) - 1 = (119 - i) mod 64"
proof -
  show "(if i < 56 then 56 - i else 120 - i) - 1 = (119 - i) mod 64"
  proof (cases "i < 56")
    case True
    then have "119 - i = 64 + (55 - i)" by simp
    with True show ?thesis by (simp only: mod_add_self1) simp
  qed (use assms in simp)
qed (use assms in auto)

lemma md5_final_inv:
  assumes "md5_inv ctx m"
  shows "axutil_md5_final ctx = Some (Inr (md5_digest m))"
proof -
  let ?i = "length m mod 64"
  let ?p = "if ?i < 56 then 56 - ?i else 120 - ?i"
  have pos: "0 < ?p" "?p \<le> 64" "?p - 1 = (119 - ?i) mod 64"
    using pad_length [of ?i] by simp_all
  obtain j where j: "?p = Suc j" using pos(1) gr0_conv_Suc by blast
  have pad: "take ?p PADDING = 0x80 # replicate ((119 - ?i) mod 64) 0"
    using pos(2,3) unfolding j by (simp add: PADDING_def)
  then have len: "length (take ?p PADDING) + 64 < 2 ^ 32" using pos(2) by (simp add: PADDING_def)
  obtain ctx1 where c1: "axutil_md5_update ctx (take ?p PADDING) = Some (Inr ctx1)" "md5_inv ctx1 (m @ take ?p PADDING)"
    using md5_update_inv [OF assms len] by blast
  have bits: "encode [md5_count0 ctx, md5_count1 ctx] = le_bytes 8 (8 * length m)"
    using assms encode_count by (simp only: md5_inv_def)
  obtain ctx2 where c2: "axutil_md5_update ctx1 (le_bytes 8 (8 * length m)) = Some (Inr ctx2)"
    "md5_inv ctx2 ((m @ take ?p PADDING) @ le_bytes 8 (8 * length m))"
    using md5_update_inv [OF c1(2), of "le_bytes 8 (8 * length m)"] by auto
  have "(m @ take ?p PADDING) @ le_bytes 8 (8 * length m) = md5_padded m" unfolding pad md5_padded_def by simp
  with c2(2) have "md5_state ctx2 = md5_blocks md5_init (md5_padded m)" by (simp only: md5_inv_def)
  then show ?thesis
    using c1(1) c2(1) md5_index_inv [OF assms] bits
    by (simp add: axutil_md5_final_def Let_def md5_then_def md5_digest_def encode_word split: prod.splits del: encode.simps(2))
qed

section \<open>Properties\<close>

text \<open>The updates of a context, one after the other.\<close>

fun md5_updates :: "axutil_md5_ctx \<Rightarrow> byte list list \<Rightarrow> axutil_md5_ctx result option" where
  "md5_updates ctx [] = Some (Inr ctx)"
| "md5_updates ctx (p # ps) = md5_then (axutil_md5_update ctx p) (\<lambda>ctx1. md5_updates ctx1 ps)"

lemma md5_updates_inv:
  assumes "md5_inv ctx m" "\<forall>p \<in> set ps. length p + 64 < 2 ^ 32"
  shows "\<exists>ctx'. md5_updates ctx ps = Some (Inr ctx') \<and> md5_inv ctx' (m @ concat ps)"
  using assms
proof (induction ps arbitrary: ctx m)
  case (Cons p ps)
  obtain ctx1 where "axutil_md5_update ctx p = Some (Inr ctx1)" "md5_inv ctx1 (m @ p)"
    using md5_update_inv [OF Cons.prems(1), of p] Cons.prems(2) by auto
  then show ?case using Cons.IH [of ctx1 "m @ p"] Cons.prems(2) by (simp add: md5_then_def)
qed auto

lemma md5_pieces:
  assumes "malloc sizeof_md5_ctx" "\<forall>p \<in> set ps. length p + 64 < 2 ^ 32"
  shows "\<exists>ctx. axutil_md5_ctx_create malloc = Some ctx \<and>
    md5_then (md5_updates ctx ps) axutil_md5_final = Some (Inr (md5_digest (concat ps)))"
proof -
  obtain ctx where c: "axutil_md5_ctx_create malloc = Some ctx" using assms(1) by (simp add: axutil_md5_ctx_create_def)
  then obtain ctx' where "md5_updates ctx ps = Some (Inr ctx')" "md5_inv ctx' ([] @ concat ps)"
    using md5_updates_inv [OF md5_ctx_create_inv assms(2)] by blast
  then show ?thesis using c md5_final_inv by (simp add: md5_then_def)
qed

text \<open>
  C26 (equivalence). The incremental MD5 of \<^verbatim>\<open>md5.c\<close> is MD5 as RFC 1321 defines it: a context that is created,
  updated with any pieces in order (each shorter than 4 GB less 64 bytes, in any number) and finished returns, and gives
  the digest of the message the pieces make up, however the message was cut; the number of bits wraps at
  \<open>2 ^ 64\<close> as the RFC says. The reference pads the message, cuts it into blocks and runs 64 operations per
  block as a loop over the tables of the RFC, where the code buffers partial blocks and has the operations unrolled.
\<close>

theorem md5_rfc1321:
  assumes "malloc sizeof_md5_ctx" "\<forall>p \<in> set ps. length p + 64 < 2 ^ 32"
  shows "\<exists>ctx. axutil_md5_ctx_create malloc = Some ctx \<and>
    md5_then (md5_updates ctx ps) axutil_md5_final = Some (Inr (md5_digest (concat ps)))"
  using assms by (rule md5_pieces)

theorem md5_rfc1321_witness:
  "\<exists>ctx. axutil_md5_ctx_create (\<lambda>n. True) = Some ctx \<and>
    md5_then (md5_updates ctx [[0x61], replicate 70 0x62, []]) axutil_md5_final =
      Some (Inr (md5_digest (0x61 # replicate 70 0x62)))"
  using md5_rfc1321 [of "\<lambda>n. True" "[[0x61], replicate 70 0x62, []]"] by simp

text \<open>The digest of a message at once, and its failure without memory.\<close>

lemma md5_at_once:
  assumes "length input + 64 < 2 ^ 32"
  shows "axutil_md5 malloc input = Some (if malloc sizeof_md5_ctx then Inr (md5_digest input) else Inl FAILURE_STATUS)"
proof (cases "malloc sizeof_md5_ctx")
  case True
  then obtain ctx where c: "axutil_md5_ctx_create malloc = Some ctx" by (simp add: axutil_md5_ctx_create_def)
  obtain ctx' where "axutil_md5_update ctx input = Some (Inr ctx')" "md5_inv ctx' ([] @ input)"
    using md5_update_inv [OF md5_ctx_create_inv [OF c] assms] by blast
  then show ?thesis using True c md5_final_inv by (simp add: axutil_md5_def md5_then_def)
qed (simp add: axutil_md5_def axutil_md5_ctx_create_def)

end
