(* ===== verification/Digest_Calc.thy ===== *)
theory Digest_Calc
  imports Md5_Props C_String
begin

text \<open>
  The digests of HTTP digest authentication, \<^verbatim>\<open>util/src/digest_calc.c\<close>: the session key and the response that the
  sender puts in its \<^verbatim>\<open>Authorization\<close> header, against the formulas of RFC 2617.
\<close>

unbundle bit_operations_syntax

section \<open>The code\<close>

definition AXIS2_DIGEST_HASH_HEX_LEN :: nat where "AXIS2_DIGEST_HASH_HEX_LEN = 32"

text \<open>The bytes of a string, as the functions of \<^verbatim>\<open>md5.c\<close> get them.\<close>

definition bytes :: "string \<Rightarrow> byte list" where
  "bytes s = map of_char s"

text \<open>The body of \<^verbatim>\<open>convert_to_hex\<close> for half a byte, and its loop.\<close>

definition hex_half :: "byte \<Rightarrow> char" where
  "hex_half j = (if j \<le> 9 then char_of (unat (j + 48)) else char_of (unat (j + 97 - 10)))"

definition convert_to_hex :: "byte list \<Rightarrow> string" where
  "convert_to_hex bin = concat (map (\<lambda>b. [hex_half (drop_bit 4 b AND 0xf), hex_half (b AND 0xf)]) bin)"

text \<open>A context that is created, updated with the given pieces and finished.\<close>

definition digest_of :: "alloc \<Rightarrow> byte list list \<Rightarrow> byte list result option" where
  "digest_of malloc pieces =
     (case axutil_md5_ctx_create malloc of
        None \<Rightarrow> Some (Inl FAILURE_STATUS)
      | Some ctx \<Rightarrow> md5_then (md5_updates ctx pieces) axutil_md5_final)"

definition then_digest :: "byte list result option \<Rightarrow> (byte list \<Rightarrow> 'a result option) \<Rightarrow> 'a result option" where
  "then_digest r f = (case r of None \<Rightarrow> None | Some (Inl e) \<Rightarrow> Some (Inl e) | Some (Inr d) \<Rightarrow> f d)"

definition axutil_digest_calc_get_h_a1 ::
    "alloc \<Rightarrow> string \<Rightarrow> string \<Rightarrow> string \<Rightarrow> string \<Rightarrow> string \<Rightarrow> string \<Rightarrow> string result option" where
  "axutil_digest_calc_get_h_a1 malloc algorithm user_name realm password nonce cnonce =
     then_digest (digest_of malloc [bytes user_name, bytes '':'', bytes realm, bytes '':'', bytes password]) (\<lambda>ha1.
       if axutil_strcasecmp algorithm ''md5-sess'' = 0 then
         then_digest (digest_of malloc [ha1, bytes '':'', bytes nonce, bytes '':'', bytes cnonce])
           (\<lambda>ha1'. Some (Inr (convert_to_hex ha1')))
       else Some (Inr (convert_to_hex ha1)))"

text \<open>The hexadecimal arguments are buffers of 33 bytes, of which 32 are used.\<close>

definition axutil_digest_calc_get_response ::
    "alloc \<Rightarrow> string \<Rightarrow> string \<Rightarrow> string \<Rightarrow> string \<Rightarrow> string \<Rightarrow> string \<Rightarrow> string \<Rightarrow> string \<Rightarrow> string result option" where
  "axutil_digest_calc_get_response malloc h_a1 nonce nonce_count cnonce qop method digest_uri h_entity =
     then_digest (digest_of malloc
       ([bytes method, bytes '':'', bytes digest_uri] @
        (if axutil_strcasecmp qop ''auth-int'' = 0
         then [bytes '':'', bytes (take AXIS2_DIGEST_HASH_HEX_LEN h_entity)] else []))) (\<lambda>ha2.
     then_digest (digest_of malloc
       ([bytes (take AXIS2_DIGEST_HASH_HEX_LEN h_a1), bytes '':'', bytes nonce, bytes '':''] @
        (if front qop \<noteq> NUL
         then [bytes nonce_count, bytes '':'', bytes cnonce, bytes '':'', bytes qop, bytes '':''] else []) @
        [bytes (take AXIS2_DIGEST_HASH_HEX_LEN (convert_to_hex ha2))])) (\<lambda>resp_hash.
       Some (Inr (convert_to_hex resp_hash))))"

section \<open>The formulas of RFC 2617\<close>

text \<open>\<open>H\<close>: the MD5 digest of a string, written with 32 lower case hexadecimal digits.\<close>

definition lhex :: "byte list \<Rightarrow> string" where
  "lhex d = concat (map (\<lambda>b. [''0123456789abcdef'' ! (unat b div 16), ''0123456789abcdef'' ! (unat b mod 16)]) d)"

definition rfc_H :: "string \<Rightarrow> string" where
  "rfc_H s = lhex (md5_digest (bytes s))"

definition colons :: "string list \<Rightarrow> string" where
  "colons ss = (case ss of [] \<Rightarrow> [] | s # rest \<Rightarrow> s @ concat (map (\<lambda>t. '':'' @ t) rest))"

lemma colons_simps [simp]:
  "colons [s] = s" "colons (s # t # rest) = s @ '':'' @ colons (t # rest)"
  by (simp_all add: colons_def)

text \<open>
  The key: for \<^verbatim>\<open>MD5-sess\<close> the digest of user, realm and password enters as its 16 bytes, as in the sample code of the
  RFC.
\<close>

definition rfc_key :: "string \<Rightarrow> string \<Rightarrow> string \<Rightarrow> string \<Rightarrow> string \<Rightarrow> string \<Rightarrow> string" where
  "rfc_key algorithm user realm password nonce cnonce =
     (if map c_tolower algorithm = ''md5-sess''
      then lhex (md5_digest (md5_digest (bytes (colons [user, realm, password])) @ bytes ('':'' @ colons [nonce, cnonce])))
      else rfc_H (colons [user, realm, password]))"

definition rfc_response ::
    "string \<Rightarrow> string \<Rightarrow> string \<Rightarrow> string \<Rightarrow> string \<Rightarrow> string \<Rightarrow> string \<Rightarrow> string \<Rightarrow> string" where
  "rfc_response key nonce nc cnonce qop method uri entity =
     (let a2 = (if map c_tolower qop = ''auth-int'' then colons [method, uri, entity] else colons [method, uri])
      in rfc_H (if qop = [] then colons [key, nonce, rfc_H a2] else colons [key, nonce, nc, cnonce, qop, rfc_H a2]))"

section \<open>Equivalence\<close>

lemma bytes_append [simp]: "bytes (s @ t) = bytes s @ bytes t"
  by (simp add: bytes_def)

lemma length_bytes [simp]: "length (bytes s) = length s"
  by (simp add: bytes_def)

lemma hex_digits: "\<forall>k \<in> {0..<16}. hex_half (of_nat k) = ''0123456789abcdef'' ! k"
  by code_simp

lemma hex_half_nth:
  assumes "unat j < 16"
  shows "hex_half j = ''0123456789abcdef'' ! unat j"
  using bspec [OF hex_digits, of "unat j"] assms by simp

lemma convert_to_hex_lhex: "convert_to_hex d = lhex d"
proof -
  have m: "(0xf :: byte) = mask 4" by (simp add: mask_eq_exp_minus_1)
  have lo: "unat (b AND 0xf) = unat b mod 16" for b :: byte
    unfolding m take_bit_eq_mask [symmetric] by (simp only: unsigned_take_bit_eq) (simp add: take_bit_eq_mod)
  have "unat (drop_bit 4 b) = unat b div 16" "unat b < 256" for b :: byte
    using unsigned_less [of b, where ?'a = nat] by (simp_all only: unat_drop_bit_eq) (simp_all add: drop_bit_eq_div)
  then have hi: "unat (drop_bit 4 b AND 0xf) = unat b div 16" for b :: byte
    using lo [of "drop_bit 4 b"] less_mult_imp_div_less [of "unat b" 16 16] by simp
  have "hex_half (drop_bit 4 b AND 0xf) = ''0123456789abcdef'' ! (unat b div 16)"
    "hex_half (b AND 0xf) = ''0123456789abcdef'' ! (unat b mod 16)" for b :: byte
    using hex_half_nth [of "drop_bit 4 b AND 0xf"] hex_half_nth [of "b AND 0xf"] lo hi
      less_mult_imp_div_less [of "unat b" 16 16] unsigned_less [of b, where ?'a = nat] by simp_all
  then show ?thesis by (simp add: convert_to_hex_def lhex_def)
qed

lemma length_md5_digest: "length (md5_digest m) = 16"
  by (simp add: md5_digest_def split: prod.splits)

lemma length_lhex: "length (lhex d) = 2 * length d"
  by (induction d) (simp_all add: lhex_def)

definition short :: "string \<Rightarrow> bool" where
  "short s \<longleftrightarrow> length s + 64 < 2 ^ 32"

lemma digest_of_spec:
  assumes "mem_ok malloc" "\<forall>p \<in> set pieces. length p + 64 < 2 ^ 32"
  shows "digest_of malloc pieces = Some (Inr (md5_digest (concat pieces)))"
proof -
  obtain ctx where "axutil_md5_ctx_create malloc = Some ctx"
    "md5_then (md5_updates ctx pieces) axutil_md5_final = Some (Inr (md5_digest (concat pieces)))"
    using md5_pieces [of malloc pieces] mem_okD [OF assms(1)] assms(2) by blast
  then show ?thesis by (simp add: digest_of_def)
qed

lemma h_a1_spec:
  assumes "mem_ok malloc" "NUL \<notin> set algorithm" "\<forall>s \<in> {user, realm, password, nonce, cnonce}. short s"
  shows "axutil_digest_calc_get_h_a1 malloc algorithm user realm password nonce cnonce =
    Some (Inr (rfc_key algorithm user realm password nonce cnonce))"
proof -
  have c: "axutil_strcasecmp algorithm ''md5-sess'' = 0 \<longleftrightarrow> map c_tolower algorithm = ''md5-sess''"
    using strcasecmp_zero [of algorithm "''md5-sess''"] assms(2) by (simp add: NUL_def) code_simp
  show ?thesis
    using assms(1,3) c length_md5_digest
    by (simp add: axutil_digest_calc_get_h_a1_def digest_of_spec then_digest_def convert_to_hex_lhex rfc_key_def rfc_H_def short_def
        bytes_def)
qed

lemma response_spec:
  assumes "mem_ok malloc" "NUL \<notin> set qop" "length key = 32" "length entity = 32"
    and "\<forall>s \<in> {nonce, nc, cnonce, qop, method, uri}. short s"
  shows "axutil_digest_calc_get_response malloc key nonce nc cnonce qop method uri entity =
    Some (Inr (rfc_response key nonce nc cnonce qop method uri entity))"
proof -
  have c: "axutil_strcasecmp qop ''auth-int'' = 0 \<longleftrightarrow> map c_tolower qop = ''auth-int''"
    using strcasecmp_zero [of qop "''auth-int''"] assms(2) by (simp add: NUL_def) code_simp
  have q: "front qop \<noteq> NUL \<longleftrightarrow> qop \<noteq> []" using assms(2) by (auto simp: front_def split: list.splits)
  have l: "length (lhex (md5_digest m)) = 32" for m by (simp add: length_lhex length_md5_digest)
  show ?thesis
    using assms(1,3-5) c q l
    by (simp add: axutil_digest_calc_get_response_def digest_of_spec then_digest_def convert_to_hex_lhex
        AXIS2_DIGEST_HASH_HEX_LEN_def rfc_response_def rfc_H_def short_def bytes_def Let_def)
qed

text \<open>
  C27 (equivalence). The session key and the response the code computes are those of RFC 2617: with the key of
  \<^verbatim>\<open>axutil_digest_calc_get_h_a1\<close>, the response of \<^verbatim>\<open>axutil_digest_calc_get_response\<close> returns, and it is the digest the RFC
  prescribes for the algorithm (plain or session) and for the quality of protection (none, with or without the
  body), as 32 lower case hexadecimal digits.
\<close>

theorem digest_response_rfc2617:
  assumes "mem_ok malloc" "NUL \<notin> set algorithm" "NUL \<notin> set qop" "length entity = 32"
    and "\<forall>s \<in> {user, realm, password, nonce, nc, cnonce, qop, method, uri}. short s"
  shows "\<exists>key. axutil_digest_calc_get_h_a1 malloc algorithm user realm password nonce cnonce = Some (Inr key) \<and>
    key = rfc_key algorithm user realm password nonce cnonce \<and>
    axutil_digest_calc_get_response malloc key nonce nc cnonce qop method uri entity =
      Some (Inr (rfc_response key nonce nc cnonce qop method uri entity))"
proof -
  let ?key = "rfc_key algorithm user realm password nonce cnonce"
  have "length ?key = 32" by (simp add: rfc_key_def rfc_H_def length_lhex length_md5_digest)
  then show ?thesis using h_a1_spec [OF assms(1,2)] response_spec [OF assms(1,3) _ assms(4)] assms(5) by simp
qed

theorem digest_response_rfc2617_witness:
  "\<exists>key. axutil_digest_calc_get_h_a1 (\<lambda>n. True) ''MD5-sess'' ''Mufasa'' ''r'' ''pw'' ''n'' ''c'' = Some (Inr key) \<and>
    axutil_digest_calc_get_response (\<lambda>n. True) key ''n'' ''00000001'' ''c'' ''auth'' ''GET'' ''/'' (replicate 32 CHR ''0'') =
      Some (Inr (rfc_response key ''n'' ''00000001'' ''c'' ''auth'' ''GET'' ''/'' (replicate 32 CHR ''0'')))"
proof -
  have "mem_ok (\<lambda>n. True)" "NUL \<notin> set ''MD5-sess''" "NUL \<notin> set ''auth''" "length (replicate 32 CHR ''0'') = 32"
    "\<forall>s \<in> {''Mufasa'', ''r'', ''pw'', ''n'', ''00000001'', ''c'', ''auth'', ''GET'', ''/''}. short s"
    by (simp_all add: NUL_def short_def)
  from digest_response_rfc2617 [OF this] show ?thesis by blast
qed

end
