(* ===== verification/Om_Detach.thy ===== *)
theory Om_Detach
  imports Om_Children
begin

text \<open>
  Detaching an element with its namespaces: \<^verbatim>\<open>axiom_node_detach\<close> of \<^verbatim>\<open>axiom/src/om/om_node.c\<close> and the functions of
  \<^verbatim>\<open>om_element.c\<close> it calls. The namespaces that the elements around declare are gathered before the node is cut off;
  those that the subtree uses are declared again at its root.
\<close>

section \<open>The namespaces around an element\<close>

text \<open>The body of the inner loop of \<^verbatim>\<open>axiom_element_gather_parent_namespaces\<close>.\<close>

definition gather_body ::
    "alloc \<Rightarrow> om_store \<Rightarrow> nat \<Rightarrow> nat hash_entry \<Rightarrow> nat axutil_hash option result \<Rightarrow> bool \<times> nat axutil_hash option result" where
  "gather_body malloc S om_element entry inscope =
     (case (e_val entry, inscope) of
        (Some n, Inr ins) \<Rightarrow>
          (case axiom_element_find_declared_namespace malloc S om_element None
                  (axiom_namespace_get_prefix (os_namespaces S n)) of
             Inl err \<Rightarrow> (True, Inl err)
           | Inr (Some _) \<Rightarrow> (False, inscope)
           | Inr None \<Rightarrow>
               (let key = (case axiom_namespace_get_prefix (os_namespaces S n) of None \<Rightarrow> '''' | Some p \<Rightarrow> p) in
                case (case ins of None \<Rightarrow> Inr None | Some ht \<Rightarrow> axutil_hash_get malloc (Some ht) key AXIS2_HASH_KEY_STRING) of
                  Inl err \<Rightarrow> (True, Inl err)
                | Inr (Some _) \<Rightarrow> (False, inscope)
                | Inr None \<Rightarrow>
                    (case (case ins of
                             Some ht \<Rightarrow> Some ht
                           | None \<Rightarrow> (case axutil_hash_make malloc of Inl _ \<Rightarrow> None | Inr ht \<Rightarrow> Some ht)) of
                       None \<Rightarrow> (False, Inr None)
                     | Some ht \<Rightarrow>
                         (case hash_put malloc ht key (Some n) of
                            Inl err \<Rightarrow> (True, Inl err)
                          | Inr ht' \<Rightarrow> (False, Inr (Some ht'))))))
      | (Some _, Inl err) \<Rightarrow> (True, inscope)
      | (None, _) \<Rightarrow> (False, inscope))"

definition gather_table ::
    "alloc \<Rightarrow> om_store \<Rightarrow> nat \<Rightarrow> nat \<Rightarrow> nat axutil_hash option \<Rightarrow> nat axutil_hash option result" where
  "gather_table malloc S om_element parent inscope =
     (case elt_namespaces (os_elements S parent) of
        None \<Rightarrow> Inr inscope
      | Some ht \<Rightarrow>
          (case axutil_hash_first_impl malloc (Some ht) False of
             Inl e \<Rightarrow> if e = NO_MEMORY then Inr inscope else Inl e
           | Inr hi \<Rightarrow> res_bind (hash_foreach ht (gather_body malloc S om_element) hi (Inr inscope)) id))"

partial_function (option) gather_loop ::
    "alloc \<Rightarrow> om_store \<Rightarrow> nat \<Rightarrow> nat \<Rightarrow> nat axutil_hash option \<Rightarrow> nat axutil_hash option result option" where
  "gather_loop malloc S om_element node inscope =
     (case axiom_node_get_parent (os_nodes S) (Some node) of
        Inl err \<Rightarrow> Some (Inl err)
      | Inr None \<Rightarrow> Some (Inr inscope)
      | Inr (Some parent_node) \<Rightarrow>
          (case axiom_node_get_node_type (os_nodes S) (Some parent_node) of
             Inl err \<Rightarrow> Some (Inl err)
           | Inr t \<Rightarrow>
               if t \<noteq> AXIOM_ELEMENT then Some (Inr inscope)
               else
                 (case axiom_node_get_data_element (os_nodes S) (Some parent_node) of
                    Inl err \<Rightarrow> Some (Inl err)
                  | Inr d \<Rightarrow>
                      (case (case d of None \<Rightarrow> Inr inscope | Some parent \<Rightarrow> gather_table malloc S om_element parent inscope) of
                         Inl err \<Rightarrow> Some (Inl err)
                       | Inr inscope' \<Rightarrow> gather_loop malloc S om_element parent_node inscope'))))"

definition axiom_element_gather_parent_namespaces ::
    "alloc \<Rightarrow> om_store \<Rightarrow> nat \<Rightarrow> nat \<Rightarrow> nat axutil_hash option result option" where
  "axiom_element_gather_parent_namespaces malloc S om_element om_node = gather_loop malloc S om_element om_node None"

section \<open>Declaring them again\<close>

type_synonym redeclared = "om_store \<times> nat axutil_hash"

definition axiom_element_use_parent_namespace ::
    "alloc \<Rightarrow> om_store \<Rightarrow> nat \<Rightarrow> nat \<Rightarrow> ptr \<Rightarrow> nat \<Rightarrow> nat axutil_hash \<Rightarrow> redeclared result option" where
  "axiom_element_use_parent_namespace malloc S om_element om_node ns root_element inscope =
     (case ns of
        None \<Rightarrow> Some (Inr (S, inscope))
      | Some n \<Rightarrow>
          (let key = (case axiom_namespace_get_prefix (os_namespaces S n) of None \<Rightarrow> '''' | Some p \<Rightarrow> p) in
           case axutil_hash_get malloc (Some inscope) key AXIS2_HASH_KEY_STRING of
             Inl err \<Rightarrow> Some (Inl err)
           | Inr parent_ns \<Rightarrow>
               if parent_ns \<noteq> Some n then Some (Inr (S, inscope))
               else
                 ns_found (axiom_element_find_namespace malloc S om_element om_node
                             (axiom_namespace_get_uri (os_namespaces S n)) (axiom_namespace_get_prefix (os_namespaces S n)))
                   (\<lambda>found.
                      if found = Some n then Some (Inr (S, inscope))
                      else Some (
                        res_bind (axiom_element_declare_namespace_assume_param_ownership malloc S (Some root_element) (Some n)) (\<lambda>(_, S1).
                        res_bind (hash_put malloc inscope key None) (\<lambda>inscope'. Inr (S1, inscope')))))))"

text \<open>The attributes of the element, one after the other.\<close>

definition attribute_body ::
    "alloc \<Rightarrow> nat \<Rightarrow> nat \<Rightarrow> nat \<Rightarrow> nat hash_entry \<Rightarrow> redeclared result option \<Rightarrow> bool \<times> redeclared result option" where
  "attribute_body malloc om_element om_node root_element entry st =
     (case (e_val entry, st) of
        (Some a, Some (Inr (S, inscope))) \<Rightarrow>
          (let r = axiom_element_use_parent_namespace malloc S om_element om_node (axiom_attribute_get_namespace S a)
                     root_element inscope
           in (case r of Some (Inr _) \<Rightarrow> False | _ \<Rightarrow> True, r))
      | (None, _) \<Rightarrow> (False, st)
      | _ \<Rightarrow> (True, st))"

definition redeclare_own :: "alloc \<Rightarrow> om_store \<Rightarrow> nat \<Rightarrow> nat \<Rightarrow> nat \<Rightarrow> nat axutil_hash \<Rightarrow> redeclared result option" where
  "redeclare_own malloc S om_element om_node root_element inscope =
     (case axiom_element_use_parent_namespace malloc S om_element om_node (elt_ns (os_elements S om_element)) root_element
             inscope of
        Some (Inr (S1, ins1)) \<Rightarrow>
          (case elt_attributes (os_elements S1 om_element) of
             None \<Rightarrow> Some (Inr (S1, ins1))
           | Some ht \<Rightarrow>
               (case axutil_hash_first_impl malloc (Some ht) False of
                  Inl e \<Rightarrow> Some (if e = NO_MEMORY then Inr (S1, ins1) else Inl e)
                | Inr hi \<Rightarrow>
                    (case hash_foreach ht (attribute_body malloc om_element om_node root_element) hi (Some (Inr (S1, ins1))) of
                       Inl e \<Rightarrow> Some (Inl e)
                     | Inr r \<Rightarrow> r)))
      | r \<Rightarrow> r)"

text \<open>
  The loop over the children of an element, with the recursion for those that are elements; it ends early when no namespace
  is left.
\<close>

partial_function (option) redeclare_kids ::
    "alloc \<Rightarrow> nat \<Rightarrow> om_store \<Rightarrow> nat axutil_hash \<Rightarrow> ptr \<Rightarrow> redeclared result option" where
  "redeclare_kids malloc root_element S inscope child =
     (case child of
        None \<Rightarrow> Some (Inr (S, inscope))
      | Some c \<Rightarrow>
          if axutil_hash_count inscope = 0 then Some (Inr (S, inscope))
          else do {
            r \<leftarrow> (case axiom_node_get_node_type (os_nodes S) child of
                    Inl err \<Rightarrow> Some (Inl err)
                  | Inr t \<Rightarrow>
                      if t \<noteq> AXIOM_ELEMENT then Some (Inr (S, inscope))
                      else
                        (case axiom_node_get_data_element (os_nodes S) child of
                           Inl err \<Rightarrow> Some (Inl err)
                         | Inr None \<Rightarrow> Some (Inr (S, inscope))
                         | Inr (Some e) \<Rightarrow> do {
                             own \<leftarrow> redeclare_own malloc S e c root_element inscope;
                             (case own of
                                Inl err \<Rightarrow> Some (Inl err)
                              | Inr (S1, ins1) \<Rightarrow>
                                  (case axiom_node_get_first_child (os_nodes S1) child of
                                     Inl err \<Rightarrow> Some (Inl err)
                                   | Inr first \<Rightarrow> redeclare_kids malloc root_element S1 ins1 first)) }));
            (case r of
               Inl err \<Rightarrow> Some (Inl err)
             | Inr (S2, ins2) \<Rightarrow>
                 (case axiom_node_get_next_sibling (os_nodes S2) child of
                    Inl err \<Rightarrow> Some (Inl err)
                  | Inr next \<Rightarrow> redeclare_kids malloc root_element S2 ins2 next)) })"

definition axiom_element_redeclare_parent_namespaces ::
    "alloc \<Rightarrow> om_store \<Rightarrow> nat \<Rightarrow> nat \<Rightarrow> nat \<Rightarrow> nat axutil_hash \<Rightarrow> redeclared result option" where
  "axiom_element_redeclare_parent_namespaces malloc S om_element om_node root_element inscope =
     (case redeclare_own malloc S om_element om_node root_element inscope of
        Some (Inr (S1, ins1)) \<Rightarrow>
          (case axiom_node_get_first_child (os_nodes S1) (Some om_node) of
             Inl err \<Rightarrow> Some (Inl err)
           | Inr first \<Rightarrow> redeclare_kids malloc root_element S1 ins1 first)
      | r \<Rightarrow> r)"

section \<open>Detaching\<close>

text \<open>The node that is returned is the one passed; the table of namespaces is freed at the end.\<close>

definition axiom_node_detach :: "alloc \<Rightarrow> om_store \<Rightarrow> ptr \<Rightarrow> om_store result option" where
  "axiom_node_detach malloc S om_node =
     (case om_node of
        None \<Rightarrow> Some (Inr S)
      | Some c \<Rightarrow>
          (case node_at (os_nodes S) om_node of
             Inl err \<Rightarrow> Some (Inl err)
           | Inr n \<Rightarrow>
               (case (if n_type n = AXIOM_ELEMENT
                      then (case n_data n of
                              None \<Rightarrow> Some (Inr None)
                            | Some e \<Rightarrow> axiom_element_gather_parent_namespaces malloc S e c)
                      else Some (Inr None)) of
                  None \<Rightarrow> None
                | Some (Inl err) \<Rightarrow> Some (Inl err)
                | Some (Inr inscope) \<Rightarrow>
                    (case axiom_node_detach_without_namespaces (os_nodes S) om_node of
                       Inl err \<Rightarrow> Some (Inl err)
                     | Inr h \<Rightarrow>
                         (case inscope of
                            None \<Rightarrow> Some (Inr (S\<lparr>os_nodes := h\<rparr>))
                          | Some ins \<Rightarrow>
                              (case axiom_element_redeclare_parent_namespaces malloc (S\<lparr>os_nodes := h\<rparr>) (the (n_data n)) c
                                      (the (n_data n)) ins of
                                 None \<Rightarrow> None
                               | Some (Inl err) \<Rightarrow> Some (Inl err)
                               | Some (Inr (S1, _)) \<Rightarrow> Some (Inr S1)))))))"

end
