(* ===== verification/Om_Detach_Props.thy ===== *)
theory Om_Detach_Props
  imports Om_Detach
begin

text \<open>
  Detaching an element keeps the namespaces its subtree uses: before and after, every namespace of an element or attribute
  in it is the innermost declaration of its prefix, and exactly the declarations that are needed are added to the root.
\<close>

section \<open>Gathering\<close>

definition ins_abs :: "nat axutil_hash option \<Rightarrow> string \<Rightarrow> ptr" where
  "ins_abs ins = (case ins of None \<Rightarrow> Map.empty | Some ht \<Rightarrow> hash_abs ht)"

definition ins_ok :: "nat axutil_hash option \<Rightarrow> bool" where
  "ins_ok ins = (case ins of None \<Rightarrow> True | Some ht \<Rightarrow> hash_inv ht)"

text \<open>Declared prefixes are strings that tables can have as keys.\<close>

definition prefixes_ok :: "om_store \<Rightarrow> bool" where
  "prefixes_ok S \<longleftrightarrow> store_ok S \<and> (\<forall>e k d. decls S e k = Some d \<longrightarrow> prefix_ok k)"

lemma prefixes_okD:
  assumes "prefixes_ok S"
  shows "store_ok S" "tables_ok S" "decls S e k = Some d \<Longrightarrow> ns_key (os_namespaces S d) = k"
    "decls S e k = Some d \<Longrightarrow> prefix_ok k" "decls S e k = Some d \<Longrightarrow> ns_uri (os_namespaces S d) \<noteq> None"
  using assms unfolding prefixes_ok_def store_ok_def by blast+

lemma ns_key_get: "(case axiom_namespace_get_prefix ns of None \<Rightarrow> '''' | Some p \<Rightarrow> p) = ns_key ns"
  by (simp add: ns_key_def axiom_namespace_get_prefix_def)

lemma ins_get:
  assumes "ins_ok ins" "prefix_ok k"
  shows "(case ins of None \<Rightarrow> Inr None | Some ht \<Rightarrow> axutil_hash_get malloc (Some ht) k AXIS2_HASH_KEY_STRING) = Inr (ins_abs ins k)"
  using assms table_get [of _ k malloc] by (cases ins) (simp_all add: ins_ok_def ins_abs_def)

lemma ins_table:
  assumes "ins_ok ins" "mem_ok malloc"
  obtains ht where "hash_inv ht" "hash_abs ht = ins_abs ins"
    "(case ins of Some ht \<Rightarrow> Some ht | None \<Rightarrow> (case axutil_hash_make malloc of Inl _ \<Rightarrow> None | Inr ht \<Rightarrow> Some ht)) = Some ht"
proof (cases ins)
  case None
  obtain ht :: "nat axutil_hash" where "axutil_hash_make malloc = Inr ht" "hash_inv ht" "hash_abs ht = Map.empty"
    using make_spec [OF assms(2)] by blast
  with None that [of ht] show ?thesis by (simp add: ins_abs_def)
next
  case (Some ht)
  with that [of ht] assms(1) show ?thesis by (simp add: ins_abs_def ins_ok_def)
qed

text \<open>A table has room for a key that is not in it, when all keys are in a set that is not too large.\<close>

lemma room_for:
  assumes "hash_inv ht" "dom (hash_abs ht) \<subseteq> K" "k \<in> K" "hash_abs ht k = None" "finite K" "card K \<le> 2 ^ 31 - 1"
  shows "unat (h_count ht) < 2 ^ 31 - 1"
proof -
  have "dom (hash_abs ht) \<subset> K" using assms(2-4) by blast
  then have "card (dom (hash_abs ht)) < card K" using assms(5) by (rule psubset_card_mono [rotated])
  then show ?thesis using count_spec(2) [OF assms(1)] assms(6) by (simp add: axutil_hash_count_def)
qed

lemma gather_entry:
  assumes "store_ok S" "mem_ok malloc" "ins_ok ins" "e_val entry = Some n" "prefix_ok (ns_key (os_namespaces S n))"
    and "dom (ins_abs ins) \<subseteq> K" "ns_key (os_namespaces S n) \<in> K" "finite K" "card K \<le> 2 ^ 31 - 1"
  shows "\<exists>ins'. gather_body malloc S e entry (Inr ins) = (False, Inr ins') \<and> ins_ok ins' \<and>
    ins_abs ins' = [ns_key (os_namespaces S n) \<mapsto> n] ++ ins_abs ins"
proof -
  let ?k = "ns_key (os_namespaces S n)"
  have d: "axiom_element_find_declared_namespace malloc S e None (axiom_namespace_get_prefix (os_namespaces S n)) = Inr None"
    using declared_without_uri [of S "ns_prefix (os_namespaces S n)" malloc e] assms(1,5)
    by (simp add: store_ok_def axiom_namespace_get_prefix_def ns_key_prefix)
  note g = ins_get [OF assms(3,5), of malloc]
  show ?thesis
  proof (cases "ins_abs ins ?k")
    case (Some x)
    then have "[?k \<mapsto> n] ++ ins_abs ins = ins_abs ins" by (auto simp: map_add_def fun_eq_iff split: option.split)
    then show ?thesis using Some assms(3,4) d g by (simp add: gather_body_def Let_def ns_key_get)
  next
    case None
    obtain ht where ht: "hash_inv ht" "hash_abs ht = ins_abs ins"
      "(case ins of Some ht \<Rightarrow> Some ht | None \<Rightarrow> (case axutil_hash_make malloc of Inl _ \<Rightarrow> None | Inr ht \<Rightarrow> Some ht)) = Some ht"
      using ins_table [OF assms(3,2)] by metis
    have "unat (h_count ht) < 2 ^ 31 - 1" using room_for [OF ht(1) _ assms(7)] ht(2) None assms(6,8,9) by simp
    then obtain ht' where ht': "hash_put malloc ht ?k (Some n) = Inr ht'" "hash_inv ht'" "hash_abs ht' = (hash_abs ht)(?k \<mapsto> n)"
      using hash_put_spec [OF ht(1) assms(5,2)] by blast
    have "[?k \<mapsto> n] ++ ins_abs ins = (ins_abs ins)(?k \<mapsto> n)" using None by (auto simp: map_add_def fun_eq_iff split: option.split)
    then show ?thesis using None assms(4) d g ht ht'
      by (simp add: gather_body_def Let_def ns_key_get ins_ok_def ins_abs_def)
  qed
qed

lemma gather_entries:
  assumes "store_ok S" "mem_ok malloc" "finite K" "card K \<le> 2 ^ 31 - 1"
  shows "\<forall>x \<in> set es. \<forall>n. e_val x = Some n \<longrightarrow> ns_key (os_namespaces S n) = entry_key x \<and> prefix_ok (entry_key x) \<and> entry_key x \<in> K \<Longrightarrow>
    distinct (map entry_key es) \<Longrightarrow> ins_ok ins \<Longrightarrow> dom (ins_abs ins) \<subseteq> K \<Longrightarrow>
    \<exists>ins'. list_loop (gather_body malloc S e) es (Inr ins) = Inr ins' \<and> ins_ok ins' \<and>
      (\<forall>k v. ins_abs ins' k = Some v \<longleftrightarrow>
        ins_abs ins k = Some v \<or> ins_abs ins k = None \<and> (\<exists>x \<in> set es. entry_key x = k \<and> e_val x = Some v))"
proof (induction es arbitrary: ins)
  case Nil
  then show ?case by auto
next
  case (Cons x es)
  show ?case
  proof (cases "e_val x")
    case None
    then have "gather_body malloc S e x (Inr ins) = (False, Inr ins)" by (simp add: gather_body_def)
    with Cons.IH [of ins] Cons.prems None show ?thesis by auto
  next
    case (Some n)
    then have n: "ns_key (os_namespaces S n) = entry_key x" "prefix_ok (entry_key x)" "entry_key x \<in> K"
      using Cons.prems(1) by auto
    obtain ins1 where i: "gather_body malloc S e x (Inr ins) = (False, Inr ins1)" "ins_ok ins1"
      "ins_abs ins1 = [entry_key x \<mapsto> n] ++ ins_abs ins"
      using gather_entry [OF assms(1,2) Cons.prems(3) Some, of K e] n Cons.prems(4) assms(3,4) by auto
    have "dom (ins_abs ins1) \<subseteq> K" using i(3) n(3) Cons.prems(4) by auto
    then obtain ins' where "list_loop (gather_body malloc S e) es (Inr ins1) = Inr ins'" "ins_ok ins'"
      "\<And>k v. ins_abs ins' k = Some v \<longleftrightarrow>
        ins_abs ins1 k = Some v \<or> ins_abs ins1 k = None \<and> (\<exists>x \<in> set es. entry_key x = k \<and> e_val x = Some v)"
      using Cons.IH [of ins1] i(2) Cons.prems(1,2) by auto
    moreover from this(3) have "ins_abs ins' k = Some v \<longleftrightarrow>
        ins_abs ins k = Some v \<or> ins_abs ins k = None \<and> (\<exists>x \<in> set (x # es). entry_key x = k \<and> e_val x = Some v)" for k v
      using i(3) Some Cons.prems(2) by (auto simp: map_add_Some_iff map_add_None image_iff split: if_splits)
    ultimately show ?thesis using i(1) by auto
  qed
qed

text \<open>The declarations of one element that are not hidden are added.\<close>

definition tables_fit :: "om_store \<Rightarrow> nat list \<Rightarrow> string set \<Rightarrow> bool" where
  "tables_fit S es K \<longleftrightarrow> finite K \<and> card K \<le> 2 ^ 31 - 1 \<and> (\<forall>e \<in> set es. dom (decls S e) \<subseteq> K)"

lemma map_eqI:
  assumes "\<And>k v. f k = Some v \<longleftrightarrow> g k = Some v"
  shows "f = g"
proof
  show "f k = g k" for k using assms [of k] by (metis not_Some_eq)
qed

lemma gather_table_spec:
  assumes "prefixes_ok S" "mem_ok malloc" "tables_fit S [q] K" "ins_ok ins" "dom (ins_abs ins) \<subseteq> K"
  shows "\<exists>ins'. gather_table malloc S e q ins = Inr ins' \<and> ins_ok ins' \<and> ins_abs ins' = decls S q ++ ins_abs ins"
proof (cases "elt_namespaces (os_elements S q)")
  case None
  then show ?thesis using assms(4) by (simp add: gather_table_def decls_def)
next
  case (Some ht)
  have ok: "store_ok S" "hash_inv ht" "decls S q = hash_abs ht"
    using assms(1) Some by (auto simp: prefixes_ok_def store_ok_def tables_ok_def decls_def)
  obtain es hi where es: "axutil_hash_first_impl malloc (Some ht) False = Inr hi"
    "\<forall>(body :: nat hash_entry \<Rightarrow> nat axutil_hash option result \<Rightarrow> bool \<times> nat axutil_hash option result) s.
       hash_foreach ht body hi s = Inr (list_loop body es s)"
    "distinct (map entry_key es)" "\<forall>k v. hash_abs ht k = Some v \<longleftrightarrow> (\<exists>e \<in> set es. entry_key e = k \<and> e_val e = Some v)"
    using iterate_once [of ht malloc, where ?'s = "nat axutil_hash option result"] ok(2) mem_okD [OF assms(2)] by blast
  have d: "decls S q (entry_key x) = Some n" if "x \<in> set es" "e_val x = Some n" for x n
    using that es(4) ok(3) by metis
  have "\<forall>x \<in> set es. \<forall>n. e_val x = Some n \<longrightarrow> ns_key (os_namespaces S n) = entry_key x \<and> prefix_ok (entry_key x) \<and> entry_key x \<in> K"
    using d prefixes_okD(3,4) [OF assms(1) d] assms(3) by (auto simp: tables_fit_def)
  then obtain ins' where i: "list_loop (gather_body malloc S e) es (Inr ins) = Inr ins'" "ins_ok ins'"
    "\<And>k v. ins_abs ins' k = Some v \<longleftrightarrow>
        ins_abs ins k = Some v \<or> ins_abs ins k = None \<and> (\<exists>x \<in> set es. entry_key x = k \<and> e_val x = Some v)"
    using gather_entries [OF ok(1) assms(2), of K es ins e] es(3) assms(3-5) by (auto simp: tables_fit_def)
  have "ins_abs ins' = decls S q ++ ins_abs ins"
    by (rule map_eqI) (use i(3) es(4) ok(3) in \<open>auto simp: map_add_Some_iff\<close>)
  then show ?thesis using Some es(1,2) i(1,2) by (simp add: gather_table_def)
qed

lemma declared_dom: "dom (declared S es) \<subseteq> (\<Union>e \<in> set es. dom (decls S e))"
  using declared_mem [of S es] by fast

lemma declared_Cons: "declared S (e # es) = declared S es ++ decls S e"
  by (auto simp: map_add_def fun_eq_iff split: option.split)

text \<open>Every node of an element has its data.\<close>

definition data_set :: "om_heap \<Rightarrow> bool" where
  "data_set h \<longleftrightarrow> (\<forall>a n. h a = Some n \<longrightarrow> n_type n = AXIOM_ELEMENT \<longrightarrow> n_data n \<noteq> None)"

lemma gather_loop_outermost:
  assumes "parent_element (os_nodes S) p = Inr None" "data_set (os_nodes S)"
  shows "gather_loop malloc S e p ins = Some (Inr ins)"
  using assms
  by (subst gather_loop.simps)
     (fastforce simp: parent_element_def data_set_def axiom_node_get_node_type_def axiom_node_get_data_element_def node_at_def
       split: option.splits sum.splits if_splits)

lemma gather_loop_inner:
  assumes "parent_element (os_nodes S) p = Inr (Some (e', q))"
  shows "gather_loop malloc S e p ins =
    (case gather_table malloc S e e' ins of Inl err \<Rightarrow> Some (Inl err) | Inr ins' \<Rightarrow> gather_loop malloc S e q ins')"
  using assms
  by (subst gather_loop.simps) (auto simp: parent_element_def split: option.splits sum.splits if_splits)

lemma gather_loop_spec:
  assumes "scope (os_nodes S) p es" "prefixes_ok S" "mem_ok malloc" "data_set (os_nodes S)"
  shows "tables_fit S (tl es) K \<Longrightarrow> ins_ok ins \<Longrightarrow> dom (ins_abs ins) \<subseteq> K \<Longrightarrow>
    \<exists>ins'. gather_loop malloc S e p ins = Some (Inr ins') \<and> ins_ok ins' \<and> ins_abs ins' = declared S (tl es) ++ ins_abs ins"
  using assms
proof (induction "os_nodes S" p es arbitrary: ins rule: scope.induct)
  case (outermost p n x)
  then have "declared S (tl [x]) = Map.empty" by (simp add: fun_eq_iff)
  then show ?case using outermost gather_loop_outermost [of S p malloc e ins] by simp
next
  case (inner p n x e' q es)
  have "tables_fit S [e'] K" "tables_fit S es K" using inner(7) by (auto simp: tables_fit_def)
  then obtain ins1 where i1: "gather_table malloc S e e' ins = Inr ins1" "ins_ok ins1" "ins_abs ins1 = decls S e' ++ ins_abs ins"
    using gather_table_spec [OF inner(10,11) _ inner(8,9)] by blast
  have "dom (ins_abs ins1) \<subseteq> K" using i1(3) inner(9) \<open>tables_fit S [e'] K\<close> by (auto simp: tables_fit_def)
  then obtain ins' where "gather_loop malloc S e q ins1 = Some (Inr ins')" "ins_ok ins'" "ins_abs ins' = declared S es ++ ins_abs ins1"
    using inner(6) [of ins1] \<open>tables_fit S es K\<close> i1(2) inner(10-12) by auto
  then show ?case using gather_loop_inner [OF inner(4), of malloc e ins] i1 declared_Cons [of S e' es] by simp
qed

section \<open>Searching for a namespace object\<close>

lemma search_default_iff:
  assumes "scope (os_nodes S) p (e # es)" "store_ok S" "mem_ok malloc" "pre = None \<or> pre = Some ''''"
    and "ns_uri (os_namespaces S n) = Some u" "ns_key (os_namespaces S n) = ''''"
  shows "\<exists>r. search_here malloc S e p (Some u) pre = Some (Inr r) \<and>
    (case r of
       Some q \<Rightarrow> q = Some n \<longleftrightarrow> declared S (e # es) '''' = Some n
     | None \<Rightarrow> decls S e '''' = None)"
proof -
  have t: "tables_ok S" using assms(2) by (simp add: store_ok_def)
  obtain r where r: "search_here malloc S e p (Some u) pre = Some (Inr r)"
    "case r of
       Some q \<Rightarrow> (case declared S (e # es) '''' of
                    Some d \<Rightarrow> q = answer S (Some u) (Some d)
                  | None \<Rightarrow> (\<exists>n. q = Some n \<and> uri_declared S [e] u n))
     | None \<Rightarrow> decls S e = Map.empty \<or> declared S (e # es) '''' = None \<and> (\<forall>n. \<not> uri_declared S [e] u n)"
    using search_here_uri [OF assms(1) t assms(3,4), of u] by blast
  have "\<not> uri_declared S [e] u n" if "decls S e '''' = None"
    using that assms(2,6) by (auto simp: uri_declared_def store_ok_def)
  then show ?thesis using r assms(5)
    by (cases r) (auto simp: answer_def split: option.splits if_splits)
qed

lemma find_default_iff:
  assumes "scope (os_nodes S) p es" "store_ok S" "mem_ok malloc" "pre = None \<or> pre = Some ''''"
    and "ns_uri (os_namespaces S n) = Some u" "ns_key (os_namespaces S n) = ''''"
  shows "\<exists>r. axiom_element_find_namespace malloc S (hd es) p (Some u) pre = Some (Inr r) \<and>
    (r = Some n \<longleftrightarrow> declared S es '''' = Some n)"
  using assms
proof (induction "os_nodes S" p es rule: scope.induct)
  case (outermost p m e)
  then have sc: "scope (os_nodes S) p [e]" by (auto intro: scope.intros)
  from search_default_iff [OF sc outermost(5-9)] find_step [OF sc, of malloc "Some u" pre] outermost(4)
  show ?case by (auto split: option.splits)
next
  case (inner p m e e' q es)
  then have sc: "scope (os_nodes S) p (e # e' # es)" by (auto intro: scope.intros)
  from search_default_iff [OF sc inner(7-11)] find_step [OF sc, of malloc "Some u" pre] inner(4) inner(6) [OF inner(7-11)]
  show ?case by (auto split: option.splits)
qed

lemma find_iff:
  assumes "scope (os_nodes S) p (e # es)" "store_ok S" "mem_ok malloc" "prefix_ok (ns_key (os_namespaces S n))"
    and "ns_uri (os_namespaces S n) \<noteq> None"
  shows "\<exists>r. axiom_element_find_namespace malloc S e p (axiom_namespace_get_uri (os_namespaces S n))
      (axiom_namespace_get_prefix (os_namespaces S n)) = Some (Inr r) \<and>
    (r = Some n \<longleftrightarrow> declared S (e # es) (ns_key (os_namespaces S n)) = Some n)"
proof -
  obtain u where u: "ns_uri (os_namespaces S n) = Some u" using assms(5) by blast
  let ?pre = "ns_prefix (os_namespaces S n)" and ?k = "ns_key (os_namespaces S n)"
  show ?thesis
  proof (cases "?k = ''''")
    case True
    then have "?pre = None \<or> ?pre = Some ''''" by (cases ?pre) (simp_all add: ns_key_def)
    then show ?thesis using find_default_iff [OF assms(1-3) _ u True] u True
      by (simp add: axiom_namespace_get_uri_def axiom_namespace_get_prefix_def)
  next
    case False
    then have "?pre = Some ?k" by (cases ?pre) (simp_all add: ns_key_def)
    then show ?thesis using find_namespace_prefix [OF assms(1) _ assms(4) False, of malloc "Some u"] u assms(2)
      by (auto simp: axiom_namespace_get_uri_def axiom_namespace_get_prefix_def store_ok_def answer_def split: option.splits)
  qed
qed

section \<open>Moving declarations to the root\<close>

text \<open>
  The declarations \<open>D\<close> from around an element \<open>r\<close>, and the states in which those for the prefixes in \<open>M\<close> have been moved to
  \<open>r\<close>.
\<close>

definition gathered :: "(string \<Rightarrow> ptr) \<Rightarrow> om_store \<Rightarrow> nat \<Rightarrow> string set \<Rightarrow> bool" where
  "gathered D S r K \<longleftrightarrow> prefixes_ok S \<and> tables_fit S [r] K \<and> dom D \<subseteq> K \<and>
     (\<forall>k d. D k = Some d \<longrightarrow> ns_key (os_namespaces S d) = k \<and> prefix_ok k \<and> ns_uri (os_namespaces S d) \<noteq> None)"

definition moved ::
    "(string \<Rightarrow> ptr) \<Rightarrow> nat \<Rightarrow> om_store \<Rightarrow> string set \<Rightarrow> om_store \<Rightarrow> nat axutil_hash \<Rightarrow> bool" where
  "moved D r S0 M S ht \<longleftrightarrow> M \<subseteq> dom D \<and> (\<forall>k \<in> M. decls S0 r k = None) \<and> hash_inv ht \<and> hash_abs ht = D |` (- M) \<and>
     decls S = (decls S0)(r := decls S0 r ++ (D |` M)) \<and> store_ok S \<and> os_nodes S = os_nodes S0 \<and>
     os_attributes S = os_attributes S0 \<and>
     (\<forall>m. ns_uri (os_namespaces S m) = ns_uri (os_namespaces S0 m) \<and> ns_prefix (os_namespaces S m) = ns_prefix (os_namespaces S0 m)) \<and>
     (\<forall>x. elt_ns (os_elements S x) = elt_ns (os_elements S0 x) \<and> elt_attributes (os_elements S x) = elt_attributes (os_elements S0 x))"

lemma movedD:
  assumes "moved D r S0 M S ht"
  shows "M \<subseteq> dom D" "k \<in> M \<Longrightarrow> decls S0 r k = None" "hash_inv ht" "hash_abs ht = D |` (- M)"
    "decls S = (decls S0)(r := decls S0 r ++ (D |` M))" "store_ok S" "os_nodes S = os_nodes S0"
    "os_attributes S = os_attributes S0" "ns_key (os_namespaces S m) = ns_key (os_namespaces S0 m)"
    "ns_uri (os_namespaces S m) = ns_uri (os_namespaces S0 m)" "ns_prefix (os_namespaces S m) = ns_prefix (os_namespaces S0 m)"
    "elt_ns (os_elements S x) = elt_ns (os_elements S0 x)" "elt_attributes (os_elements S x) = elt_attributes (os_elements S0 x)"
  using assms by (auto simp: moved_def ns_key_def)

text \<open>A path from an element of the subtree up to its root.\<close>

definition path :: "nat \<Rightarrow> nat list \<Rightarrow> bool" where
  "path r es \<longleftrightarrow> (\<exists>us. es = us @ [r] \<and> r \<notin> set us)"

lemma path_single: "path r [r]"
  by (simp add: path_def)

lemma path_Cons: "path r es \<Longrightarrow> e \<noteq> r \<Longrightarrow> path r (e # es)"
  by (auto simp: path_def)

lemma declared_path: "path r es \<Longrightarrow> declared S es k = None \<Longrightarrow> decls S r k = None"
proof -
  have "declared S (us @ [r]) k = None \<Longrightarrow> decls S r k = None" for us by (induction us) (auto split: option.splits)
  then show "path r es \<Longrightarrow> declared S es k = None \<Longrightarrow> decls S r k = None" by (auto simp: path_def)
qed

lemma moved_declared:
  assumes "moved D r S0 M S ht" "path r es"
  shows "declared S es k = (case declared S0 es k of Some d \<Rightarrow> Some d | None \<Rightarrow> if k \<in> M then D k else None)"
proof -
  obtain us where us: "es = us @ [r]" "r \<notin> set us" using assms(2) by (auto simp: path_def)
  note d = movedD(5) [OF assms(1)]
  have "decls S r k = (case decls S0 r k of Some d \<Rightarrow> Some d | None \<Rightarrow> if k \<in> M then D k else None)"
    using movedD(2) [OF assms(1), of k] d by (auto simp: map_add_def restrict_map_def split: option.split)
  then have "r \<notin> set us \<Longrightarrow> declared S (us @ [r]) k =
      (case declared S0 (us @ [r]) k of Some d \<Rightarrow> Some d | None \<Rightarrow> if k \<in> M then D k else None)"
    using d by (induction us) (auto split: option.splits)
  with us show ?thesis by simp
qed

lemma hash_drop_spec:
  assumes "hash_inv ht" "prefix_ok k"
  shows "\<exists>ht'. hash_put malloc ht k None = Inr ht' \<and> hash_inv ht' \<and> hash_abs ht' = (hash_abs ht)(k := None)"
  using set_delete [of ht k AXIS2_HASH_KEY_STRING malloc] norm_prefix [OF assms(2)] assms(1)
  by (auto simp: hash_put_def updates_def)

lemma move_one:
  assumes g: "gathered D S0 r K" and mem: "mem_ok malloc" and m: "moved D r S0 M S ht"
    and k: "k \<notin> M" "D k = Some n" "decls S0 r k = None"
  shows "\<exists>S1 ht1. declare_at malloc S r n = Inr (AXIS2_SUCCESS, S1) \<and> hash_put malloc ht k None = Inr ht1 \<and>
    moved D r S0 (insert k M) S1 ht1"
proof -
  have n: "ns_key (os_namespaces S n) = k" "prefix_ok k" "ns_uri (os_namespaces S n) \<noteq> None" "k \<in> K"
    using g k(2) movedD(9,10) [OF m] by (auto simp: gathered_def)
  have t: "tables_ok S" using movedD(6) [OF m] by (simp add: store_ok_def)
  have d: "decls S r = decls S0 r ++ (D |` M)" using movedD(5) [OF m] by simp
  have "table_room S r"
  proof (cases "elt_namespaces (os_elements S r)")
    case (Some tb)
    then have tb: "hash_inv tb" "hash_abs tb = decls S r" using t by (auto simp: tables_ok_def decls_def)
    have "dom (decls S r) \<subseteq> K" "finite K" "card K \<le> 2 ^ 31 - 1"
      using g d by (auto simp: gathered_def tables_fit_def)
    moreover have "decls S r k = None" using d k(1,3) by (simp add: map_add_def)
    ultimately have "unat (h_count tb) < 2 ^ 31 - 1" using room_for [OF tb(1) _ n(4)] tb(2) by simp
    then show ?thesis using Some by (simp add: table_room_def)
  qed (simp add: table_room_def)
  then obtain S1 where S1: "declare_at malloc S r n = Inr (AXIS2_SUCCESS, S1)" "declares S r n S1"
    using declare_at_spec [OF t mem] n(1,2) by metis
  obtain ht1 where ht1: "hash_put malloc ht k None = Inr ht1" "hash_inv ht1" "hash_abs ht1 = (hash_abs ht)(k := None)"
    using hash_drop_spec [OF movedD(3) [OF m] n(2)] by blast
  have "hash_abs ht1 = D |` (- insert k M)" using ht1(3) movedD(4) [OF m] by (auto simp: restrict_map_def fun_eq_iff)
  moreover have "decls S1 = (decls S0)(r := decls S0 r ++ (D |` insert k M))"
    using S1(2) n(1) movedD(5) [OF m] k by (auto simp: declares_def fun_eq_iff map_add_def restrict_map_def split: option.split)
  ultimately have "moved D r S0 (insert k M) S1 ht1"
    using m S1(2) ht1(2) k(2,3) declares_ok [OF movedD(6) [OF m] S1(2) n(3)] by (auto simp: moved_def declares_def)
  then show ?thesis using S1(1) ht1(1) by blast
qed

section \<open>One namespace\<close>

text \<open>A namespace that is declared on the path or, hidden by nothing, around it; what the path lacks of it.\<close>

definition covered :: "(string \<Rightarrow> ptr) \<Rightarrow> om_store \<Rightarrow> nat list \<Rightarrow> nat \<Rightarrow> bool" where
  "covered D S es n \<longleftrightarrow> (let k = ns_key (os_namespaces S n) in
     declared S es k = Some n \<or> declared S es k = None \<and> D k = Some n)"

definition lacks :: "om_store \<Rightarrow> nat list \<Rightarrow> nat \<Rightarrow> string set" where
  "lacks S es n = (let k = ns_key (os_namespaces S n) in if declared S es k = Some n then {} else {k})"

lemma covered_prefix:
  assumes "gathered D S r K" "covered D S es n"
  shows "prefix_ok (ns_key (os_namespaces S n))"
proof (cases "declared S es (ns_key (os_namespaces S n)) = Some n")
  case True
  then show ?thesis using declared_mem [OF True] prefixes_okD(4) assms(1) by (auto simp: gathered_def)
next
  case False
  then show ?thesis using assms by (auto simp: gathered_def covered_def Let_def)
qed

lemma use_step:
  assumes g: "gathered D S0 r K" and mem: "mem_ok malloc" and m: "moved D r S0 M S ht"
    and sc: "scope (os_nodes S0) p (e # es)" and pa: "path r (e # es)" and c: "covered D S0 (e # es) n"
  shows "\<exists>S' ht'. axiom_element_use_parent_namespace malloc S e p (Some n) r ht = Some (Inr (S', ht')) \<and>
    moved D r S0 (M \<union> lacks S0 (e # es) n) S' ht'"
proof -
  let ?k = "ns_key (os_namespaces S0 n)"
  have pk: "prefix_ok ?k" using covered_prefix [OF g c] .
  have get: "axutil_hash_get malloc (Some ht) ?k AXIS2_HASH_KEY_STRING = Inr ((D |` (- M)) ?k)"
    using table_get [OF movedD(3) [OF m] pk, of malloc] movedD(4) [OF m] by simp
  note key = ns_key_get [of "os_namespaces S n"] movedD(9) [OF m, of n]
  show ?thesis
  proof (cases "?k \<notin> M \<and> D ?k = Some n")
    case False
    then have "(D |` (- M)) ?k \<noteq> Some n" by (auto simp: restrict_map_def)
    moreover have "M \<union> lacks S0 (e # es) n = M" using False c by (auto simp: lacks_def covered_def Let_def)
    ultimately show ?thesis using get key m by (auto simp: axiom_element_use_parent_namespace_def Let_def)
  next
    case True
    have "ns_uri (os_namespaces S n) \<noteq> None" using g True movedD(10) [OF m, of n] by (auto simp: gathered_def)
    then obtain x where x: "axiom_element_find_namespace malloc S e p (axiom_namespace_get_uri (os_namespaces S n))
        (axiom_namespace_get_prefix (os_namespaces S n)) = Some (Inr x)" "x = Some n \<longleftrightarrow> declared S (e # es) ?k = Some n"
      using find_iff [of S p e es malloc n] sc movedD(6,7) [OF m] mem pk key(2) by auto
    have y: "x = Some n \<longleftrightarrow> declared S0 (e # es) ?k = Some n"
      using x(2) moved_declared [OF m pa, of ?k] True by (auto split: option.splits)
    show ?thesis
    proof (cases "x = Some n")
      case same: True
      then show ?thesis using get key m True x(1) y
        by (auto simp: axiom_element_use_parent_namespace_def Let_def lacks_def ns_found_def)
    next
      case False
      have "decls S0 r ?k = None" using declared_path [OF pa, of S0 ?k] c y False by (auto simp: covered_def Let_def)
      then obtain S1 ht1 where "declare_at malloc S r n = Inr (AXIS2_SUCCESS, S1)" "hash_put malloc ht ?k None = Inr ht1"
        "moved D r S0 (insert ?k M) S1 ht1" using move_one [OF g mem m, of ?k n] True by blast
      then show ?thesis using get key True x(1) y False
        by (auto simp: axiom_element_use_parent_namespace_def Let_def lacks_def ns_found_def
            axiom_element_declare_namespace_assume_param_ownership_def)
    qed
  qed
qed

lemma use_option:
  assumes "gathered D S0 r K" "mem_ok malloc" "moved D r S0 M S ht" "scope (os_nodes S0) p (e # es)" "path r (e # es)"
    and "\<forall>n \<in> set_option ns. covered D S0 (e # es) n"
  shows "\<exists>S' ht'. axiom_element_use_parent_namespace malloc S e p ns r ht = Some (Inr (S', ht')) \<and>
    moved D r S0 (M \<union> (\<Union>n \<in> set_option ns. lacks S0 (e # es) n)) S' ht'"
proof (cases ns)
  case None
  then show ?thesis using assms(3) by (simp add: axiom_element_use_parent_namespace_def)
next
  case (Some n)
  then show ?thesis using use_step [OF assms(1-5), of n] assms(6) by simp
qed

section \<open>One element\<close>

text \<open>The namespaces of an element and of its attributes.\<close>

definition uses :: "om_store \<Rightarrow> nat \<Rightarrow> nat set" where
  "uses S e = set_option (elt_ns (os_elements S e)) \<union> {n. \<exists>k a. attrs S e k = Some a \<and> at_ns (os_attributes S a) = Some n}"

lemma attribute_loop:
  assumes g: "gathered D S0 r K" and mem: "mem_ok malloc"
    and sc: "scope (os_nodes S0) p (e # es)" and pa: "path r (e # es)"
  shows "moved D r S0 M S ht \<Longrightarrow>
    \<forall>x \<in> set xs. \<forall>a n. e_val x = Some a \<longrightarrow> at_ns (os_attributes S0 a) = Some n \<longrightarrow> covered D S0 (e # es) n \<Longrightarrow>
    \<exists>S' ht'. list_loop (attribute_body malloc e p r) xs (Some (Inr (S, ht))) = Some (Inr (S', ht')) \<and>
      moved D r S0 (M \<union> (\<Union>n \<in> {n. \<exists>x \<in> set xs. \<exists>a. e_val x = Some a \<and> at_ns (os_attributes S0 a) = Some n}.
        lacks S0 (e # es) n)) S' ht'"
proof (induction xs arbitrary: M S ht)
  case (Cons x xs)
  let ?N = "\<lambda>xs. {n. \<exists>x \<in> set xs. \<exists>a. e_val x = Some a \<and> at_ns (os_attributes S0 a) = Some n}"
  show ?case
  proof (cases "Option.bind (e_val x) (\<lambda>a. at_ns (os_attributes S0 a))")
    case None
    then have "attribute_body malloc e p r x (Some (Inr (S, ht))) = (False, Some (Inr (S, ht)))"
      using movedD(8) [OF Cons.prems(1)]
      by (auto simp: attribute_body_def axiom_attribute_get_namespace_def axiom_element_use_parent_namespace_def Let_def
          split: option.split)
    moreover have "?N (x # xs) = ?N xs" using None by auto
    ultimately show ?thesis using Cons.IH [OF Cons.prems(1)] Cons.prems(2) by simp
  next
    case (Some n)
    then obtain a where a: "e_val x = Some a" "at_ns (os_attributes S0 a) = Some n" by (auto simp: bind_eq_Some_conv)
    then obtain S1 ht1 where u: "axiom_element_use_parent_namespace malloc S e p (Some n) r ht = Some (Inr (S1, ht1))"
      "moved D r S0 (M \<union> lacks S0 (e # es) n) S1 ht1"
      using use_step [OF g mem Cons.prems(1) sc pa, of n] Cons.prems(2) by auto
    have b: "attribute_body malloc e p r x (Some (Inr (S, ht))) = (False, Some (Inr (S1, ht1)))"
      using a u(1) movedD(8) [OF Cons.prems(1)] by (simp add: attribute_body_def axiom_attribute_get_namespace_def Let_def)
    have "?N (x # xs) = insert n (?N xs)" using a by auto
    then show ?thesis using b Cons.IH [OF u(2)] Cons.prems(2) by (simp add: Un_assoc)
  qed
qed auto

lemma own_spec:
  assumes g: "gathered D S0 r K" and mem: "mem_ok malloc" and ok: "attributes_ok S0" and m: "moved D r S0 M S ht"
    and sc: "scope (os_nodes S0) p (e # es)" and pa: "path r (e # es)" and c: "\<forall>n \<in> uses S0 e. covered D S0 (e # es) n"
  shows "\<exists>S' ht'. redeclare_own malloc S e p r ht = Some (Inr (S', ht')) \<and>
    moved D r S0 (M \<union> (\<Union>n \<in> uses S0 e. lacks S0 (e # es) n)) S' ht'"
proof -
  let ?L = "\<lambda>N. \<Union>n \<in> N. lacks S0 (e # es) n"
  let ?N1 = "set_option (elt_ns (os_elements S0 e))"
  let ?N2 = "{n. \<exists>k a. attrs S0 e k = Some a \<and> at_ns (os_attributes S0 a) = Some n}"
  have U: "uses S0 e = ?N1 \<union> ?N2" by (simp add: uses_def)
  obtain S1 ht1 where S1: "axiom_element_use_parent_namespace malloc S e p (elt_ns (os_elements S e)) r ht = Some (Inr (S1, ht1))"
    "moved D r S0 (M \<union> ?L ?N1) S1 ht1"
    using use_option [OF g mem m sc pa, of "elt_ns (os_elements S0 e)"] c movedD(12) [OF m, of e] U by auto
  note at = movedD(13) [OF S1(2), of e]
  show ?thesis
  proof (cases "elt_attributes (os_elements S0 e)")
    case None
    then have "uses S0 e = ?N1" by (simp add: uses_def attrs_def)
    then show ?thesis using S1 at None by (simp add: redeclare_own_def)
  next
    case (Some tb)
    then have "hash_inv tb" and ab: "attrs S0 e = hash_abs tb" using ok by (auto simp: attributes_ok_def attrs_def)
    then obtain xs hi where xs: "axutil_hash_first_impl malloc (Some tb) False = Inr hi"
      "\<forall>(body :: nat hash_entry \<Rightarrow> redeclared result option \<Rightarrow> bool \<times> redeclared result option) s.
         hash_foreach tb body hi s = Inr (list_loop body xs s)"
      "\<forall>k v. hash_abs tb k = Some v \<longleftrightarrow> (\<exists>e \<in> set xs. entry_key e = k \<and> e_val e = Some v)"
      using iterate_once [of tb malloc, where ?'s = "redeclared result option"] mem_okD [OF mem] by blast
    have N2: "?N2 = {n. \<exists>x \<in> set xs. \<exists>a. e_val x = Some a \<and> at_ns (os_attributes S0 a) = Some n}"
      using xs(3) ab by auto
    have "\<forall>x \<in> set xs. \<forall>a n. e_val x = Some a \<longrightarrow> at_ns (os_attributes S0 a) = Some n \<longrightarrow> covered D S0 (e # es) n"
      using c U N2 by auto
    from attribute_loop [OF g mem sc pa S1(2) this] obtain S2 ht2 where
      "list_loop (attribute_body malloc e p r) xs (Some (Inr (S1, ht1))) = Some (Inr (S2, ht2))"
      "moved D r S0 (M \<union> ?L ?N1 \<union> ?L ?N2) S2 ht2" unfolding N2 by blast
    then show ?thesis using S1(1) xs(1,2) at Some U by (simp add: redeclare_own_def UN_Un Un_assoc)
  qed
qed

section \<open>The subtree\<close>

definition element_at :: "om_heap \<Rightarrow> nat \<Rightarrow> ptr" where
  "element_at h a = Option.bind (h a) (\<lambda>n. if n_type n = AXIOM_ELEMENT then n_data n else None)"

text \<open>The elements of a tree.\<close>

fun tree_elements :: "om_heap \<Rightarrow> om_tree \<Rightarrow> nat list" where
  "tree_elements h (Tree a ts) =
     (case element_at h a of None \<Rightarrow> [] | Some e \<Rightarrow> e # concat (map (tree_elements h) ts))"

text \<open>
  Every namespace that the elements of a tree and their attributes have is the innermost declaration of its prefix; and the
  prefixes of those that are not declared in the tree itself.
\<close>

fun scoped :: "om_store \<Rightarrow> nat list \<Rightarrow> om_tree \<Rightarrow> bool" where
  "scoped S es (Tree a ts) =
     (case element_at (os_nodes S) a of
        None \<Rightarrow> True
      | Some e \<Rightarrow>
          (\<forall>n \<in> uses S e. declared S (e # es) (ns_key (os_namespaces S n)) = Some n) \<and> (\<forall>t \<in> set ts. scoped S (e # es) t))"

fun needs :: "om_store \<Rightarrow> nat list \<Rightarrow> om_tree \<Rightarrow> string set" where
  "needs S es (Tree a ts) =
     (case element_at (os_nodes S) a of
        None \<Rightarrow> {}
      | Some e \<Rightarrow> (\<Union>n \<in> uses S e. lacks S (e # es) n) \<union> \<Union> (set (map (needs S (e # es)) ts)))"

lemma declared_append: "declared S (es @ fs) k = (case declared S es k of Some d \<Rightarrow> Some d | None \<Rightarrow> declared S fs k)"
  by (induction es) (auto split: option.split)

lemma scoped_covered: "declared S (es @ outer) (ns_key (os_namespaces S n)) = Some n \<Longrightarrow> covered (declared S outer) S es n"
  by (auto simp: covered_def Let_def declared_append split: option.splits)

lemma lacks_dom: "covered D S es n \<Longrightarrow> lacks S es n \<subseteq> dom D"
  by (auto simp: covered_def lacks_def Let_def split: if_splits)

lemma needs_dom: "scoped S (es @ outer) t \<Longrightarrow> needs S es t \<subseteq> dom (declared S outer)"
proof (induction t arbitrary: es)
  case (Tree a ts)
  show ?case
  proof (cases "element_at (os_nodes S) a")
    case (Some e)
    have "lacks S (e # es) n \<subseteq> dom (declared S outer)" if "n \<in> uses S e" for n
      by (rule lacks_dom, rule scoped_covered) (use Tree.prems Some that in auto)
    moreover have "needs S (e # es) t \<subseteq> dom (declared S outer)" if "t \<in> set ts" for t
      by (rule Tree.IH [OF that]) (use Tree.prems Some that in auto)
    ultimately show ?thesis using Some by (simp, blast)
  qed simp
qed

lemma needs_nothing: "needs S es t = {} \<Longrightarrow> scoped S es t"
  by (induction t arbitrary: es) (auto simp: lacks_def Let_def split: option.splits if_splits)

lemma element_run: "a \<in> dom h \<Longrightarrow> n_type (the (h a)) = AXIOM_ELEMENT \<Longrightarrow> element_at h a = n_data (the (h a))"
  by (auto simp: element_at_def)

lemma child_scope:
  assumes "om_rel h G" "scope h p (e # es)" "c \<in> set (kids G p)" "element_at h c = Some e'"
  shows "scope h c (e' # e # es)"
proof -
  obtain n where n: "h c = Some n" "n_type n = AXIOM_ELEMENT" "n_data n = Some e'"
    using assms(4) by (auto simp: element_at_def bind_eq_Some_conv split: if_splits)
  obtain m where m: "h p = Some m" "n_type m = AXIOM_ELEMENT" "n_data m = Some e"
    using assms(2) by (cases rule: scope.cases) auto
  have "f_par G c = Some p" using assms(3) forest_okD(4) [OF om_relD(1) [OF assms(1)]] by simp
  then have "axiom_node_get_parent h (Some c) = Inr (Some p)" using links_sim(3) [OF assms(1), of c] n(1) by auto
  then have "parent_element h c = Inr (Some (e, p))"
    using m by (simp add: parent_element_def axiom_node_get_node_type_def axiom_node_get_data_element_def node_at_def)
  then show ?thesis using n assms(2) by (auto intro: scope.inner)
qed

text \<open>When nothing is left to move, nothing more is needed.\<close>

lemma none_left:
  assumes "moved D r S0 M S ht" "axutil_hash_count ht = 0" "N \<subseteq> dom D"
  shows "M \<union> N = M"
proof -
  have "dom (hash_abs ht) = {}" using count_spec [OF movedD(3) [OF assms(1)]] assms(2) by simp
  then have "dom D \<subseteq> M" using movedD(4) [OF assms(1)] by auto
  with assms(3) show ?thesis by blast
qed

text \<open>What the loop does at one child, with the recursion for the children of that child.\<close>

definition visit :: "alloc \<Rightarrow> nat \<Rightarrow> om_store \<Rightarrow> nat axutil_hash \<Rightarrow> nat \<Rightarrow> redeclared result option" where
  "visit malloc r S ht c =
     (case element_at (os_nodes S) c of
        None \<Rightarrow> Some (Inr (S, ht))
      | Some e \<Rightarrow> do {
          own \<leftarrow> redeclare_own malloc S e c r ht;
          (case own of
             Inl err \<Rightarrow> Some (Inl err)
           | Inr (S1, ins1) \<Rightarrow>
               (case axiom_node_get_first_child (os_nodes S1) (Some c) of
                  Inl err \<Rightarrow> Some (Inl err)
                | Inr first \<Rightarrow> redeclare_kids malloc r S1 ins1 first)) })"

lemma kids_step:
  assumes "os_nodes S c = Some n" "axutil_hash_count ht \<noteq> 0" "visit malloc r S ht c = Some (Inr (S2, ht2))"
    and "axiom_node_get_next_sibling (os_nodes S2) (Some c) = Inr next"
  shows "redeclare_kids malloc r S ht (Some c) = redeclare_kids malloc r S2 ht2 next"
proof -
  have t: "axiom_node_get_node_type (os_nodes S) (Some c) = Inr (n_type n)"
    "axiom_node_get_data_element (os_nodes S) (Some c) = Inr (n_data n)"
    "element_at (os_nodes S) c = (if n_type n = AXIOM_ELEMENT then n_data n else None)"
    using assms(1) by (simp_all add: element_at_def axiom_node_get_node_type_def axiom_node_get_data_element_def node_at_def)
  show ?thesis
    using assms(2-4) unfolding visit_def t
    by (subst redeclare_kids.simps) (cases "n_type n = AXIOM_ELEMENT"; cases "n_data n"; use t in auto)
qed

definition visits :: "alloc \<Rightarrow> (string \<Rightarrow> ptr) \<Rightarrow> nat \<Rightarrow> om_store \<Rightarrow> nat list \<Rightarrow> om_tree \<Rightarrow> bool" where
  "visits malloc D r S0 es t \<longleftrightarrow> (\<forall>M S ht. moved D r S0 M S ht \<longrightarrow>
     (\<exists>S' ht'. visit malloc r S ht (root t) = Some (Inr (S', ht')) \<and> moved D r S0 (M \<union> needs S0 es t) S' ht'))"

lemma visitsD:
  "visits malloc D r S0 es t \<Longrightarrow> moved D r S0 M S ht \<Longrightarrow>
     \<exists>S' ht'. visit malloc r S ht (root t) = Some (Inr (S', ht')) \<and> moved D r S0 (M \<union> needs S0 es t) S' ht'"
  unfolding visits_def by blast

lemma kids_loop:
  assumes rel: "om_rel (os_nodes S0) G"
  shows "kids G p = xs @ map root vs \<Longrightarrow> moved D r S0 M S ht \<Longrightarrow>
    \<forall>v \<in> set vs. visits malloc D r S0 es v \<and> needs S0 es v \<subseteq> dom D \<Longrightarrow>
    \<exists>S' ht'. redeclare_kids malloc r S ht (first_of (map root vs) None) = Some (Inr (S', ht')) \<and>
      moved D r S0 (M \<union> \<Union> (set (map (needs S0 es) vs))) S' ht'"
proof (induction vs arbitrary: xs M S ht)
  case Nil
  then show ?case by (simp add: redeclare_kids.simps)
next
  case (Cons v vs)
  have k: "kids G p = xs @ root v # map root vs" using Cons.prems(1) by simp
  show ?case
  proof (cases "axutil_hash_count ht = 0")
    case True
    have "M \<union> \<Union> (set (map (needs S0 es) (v # vs))) = M"
      by (rule none_left [OF Cons.prems(2) True]) (use Cons.prems(3) in auto)
    then show ?thesis using True Cons.prems(2) by (auto simp: redeclare_kids.simps)
  next
    case False
    obtain S2 ht2 where v: "visit malloc r S ht (root v) = Some (Inr (S2, ht2))" "moved D r S0 (M \<union> needs S0 es v) S2 ht2"
      using visitsD [OF _ Cons.prems(2), of malloc es v] Cons.prems(3) by auto
    have n: "root v \<in> dom (os_nodes S)" "axiom_node_get_next_sibling (os_nodes S2) (Some (root v)) = Inr (first_of (map root vs) None)"
      using next_of_kid [OF rel k] movedD(7) [OF Cons.prems(2)] movedD(7) [OF v(2)] by simp_all
    have "redeclare_kids malloc r S ht (Some (root v)) = redeclare_kids malloc r S2 ht2 (first_of (map root vs) None)"
      using kids_step [OF _ False v(1) n(2)] n(1) by blast
    then show ?thesis using Cons.IH [of "xs @ [root v]", OF _ v(2)] k Cons.prems(3) by (simp add: Un_assoc)
  qed
qed

text \<open>A tree in which the root of the whole subtree does not come again.\<close>

definition below_root :: "nat \<Rightarrow> om_heap \<Rightarrow> nat list \<Rightarrow> om_tree \<Rightarrow> bool" where
  "below_root r h es t \<longleftrightarrow> (\<forall>e. element_at h (root t) = Some e \<longrightarrow>
     path r (e # es) \<and> r \<notin> set (concat (map (tree_elements h) (branches t))))"

lemma below_root_branch:
  assumes "below_root r h es (Tree a ts)" "element_at h a = Some e" "t \<in> set ts"
  shows "below_root r h (e # es) t"
proof -
  have "path r (e # es)" "r \<notin> set (tree_elements h t)" using assms by (auto simp: below_root_def)
  then show ?thesis by (cases t) (auto simp: below_root_def path_Cons)
qed

lemma visits_tree:
  assumes g: "gathered (declared S0 outer) S0 r K" and mem: "mem_ok malloc" and ok: "attributes_ok S0"
    and rel: "om_rel (os_nodes S0) G"
  shows "tree_at G t \<Longrightarrow> scoped S0 (es @ outer) t \<Longrightarrow>
    (\<And>e. element_at (os_nodes S0) (root t) = Some e \<Longrightarrow> scope (os_nodes S0) (root t) (e # es)) \<Longrightarrow>
    below_root r (os_nodes S0) es t \<Longrightarrow> visits malloc (declared S0 outer) r S0 es t"
proof (induction t arbitrary: es)
  case (Tree a ts)
  let ?h = "os_nodes S0" and ?D = "declared S0 outer"
  show ?case
  proof (cases "element_at ?h a")
    case None
    have "visit malloc r S ht a = Some (Inr (S, ht))" if "moved ?D r S0 M S ht" for M S ht
      using None movedD(7) [OF that] by (simp add: visit_def)
    then show ?thesis using None by (auto simp: visits_def)
  next
    case (Some e)
    then have sp: "scope ?h a (e # es)" "path r (e # es)" using Tree.prems(3,4) by (auto simp: below_root_def)
    have k: "a \<in> dom ?h" "kids G a = map root ts" using Tree.prems(1) om_rel_dom [OF rel] by auto
    have c: "\<forall>n \<in> uses S0 e. covered ?D S0 (e # es) n"
      using scoped_covered [of S0 "e # es" outer] Tree.prems(2) Some by auto
    have v: "visits malloc ?D r S0 (e # es) t \<and> needs S0 (e # es) t \<subseteq> dom ?D" if t: "t \<in> set ts" for t
    proof
      have sc: "scoped S0 ((e # es) @ outer) t" using Tree.prems(2) Some t by simp
      then show "needs S0 (e # es) t \<subseteq> dom ?D" by (rule needs_dom)
      show "visits malloc ?D r S0 (e # es) t"
      proof (rule Tree.IH [OF t _ sc])
        show "tree_at G t" using Tree.prems(1) t by simp
        show "below_root r ?h (e # es) t" using below_root_branch [OF Tree.prems(4) Some t] .
        show "scope ?h (root t) (e' # e # es)" if "element_at ?h (root t) = Some e'" for e'
          using child_scope [OF rel sp(1) _ that] k(2) t by simp
      qed
    qed
    have "\<exists>S' ht'. visit malloc r S ht a = Some (Inr (S', ht')) \<and> moved ?D r S0 (M \<union> needs S0 es (Tree a ts)) S' ht'"
      if m: "moved ?D r S0 M S ht" for M S ht
    proof -
      obtain S1 ht1 where S1: "redeclare_own malloc S e a r ht = Some (Inr (S1, ht1))"
        "moved ?D r S0 (M \<union> (\<Union>n \<in> uses S0 e. lacks S0 (e # es) n)) S1 ht1"
        using own_spec [OF g mem ok m sp(1,2) c] by blast
      have "axiom_node_get_first_child (os_nodes S1) (Some a) = Inr (first_of (map root ts) None)"
        using links_sim(1) [OF rel k(1)] k(2) movedD(7) [OF S1(2)] by simp
      moreover obtain S2 ht2 where "redeclare_kids malloc r S1 ht1 (first_of (map root ts) None) = Some (Inr (S2, ht2))"
        "moved ?D r S0 (M \<union> (\<Union>n \<in> uses S0 e. lacks S0 (e # es) n) \<union> \<Union> (set (map (needs S0 (e # es)) ts))) S2 ht2"
        using kids_loop [OF rel, of a "[]" ts, OF _ S1(2), of malloc "e # es"] k(2) v by auto
      ultimately show ?thesis using Some S1(1) movedD(7) [OF m] by (simp add: visit_def Un_assoc)
    qed
    then show ?thesis by (simp add: visits_def)
  qed
qed

lemma moved_uses: "moved D r S0 M S ht \<Longrightarrow> uses S e = uses S0 e"
  by (simp add: uses_def attrs_def movedD(8,12,13))

text \<open>Once what is needed has been moved, the tree stands for itself.\<close>

lemma moved_scoped:
  assumes m: "moved (declared S0 outer) r S0 M S ht"
  shows "scoped S0 (es @ outer) t \<Longrightarrow> needs S0 es t \<subseteq> M \<Longrightarrow> below_root r (os_nodes S0) es t \<Longrightarrow> scoped S es t"
proof (induction t arbitrary: es)
  case (Tree a ts)
  show ?case
  proof (cases "element_at (os_nodes S0) a")
    case (Some e)
    have pa: "path r (e # es)" using Tree.prems(3) Some by (simp add: below_root_def)
    have "declared S (e # es) (ns_key (os_namespaces S n)) = Some n" if n: "n \<in> uses S0 e" for n
    proof -
      let ?k = "ns_key (os_namespaces S0 n)"
      have "covered (declared S0 outer) S0 (e # es) n" by (rule scoped_covered) (use Tree.prems(1) Some n in simp)
      moreover have "lacks S0 (e # es) n \<subseteq> M" using Tree.prems(2) Some n by auto
      ultimately show ?thesis unfolding moved_declared [OF m pa] movedD(9) [OF m]
        by (auto simp: covered_def lacks_def Let_def split: if_splits)
    qed
    moreover have "scoped S (e # es) t" if t: "t \<in> set ts" for t
      by (rule Tree.IH [OF t _ _ below_root_branch [OF Tree.prems(3) Some t]]) (use Tree.prems(1,2) Some t in auto)
    ultimately show ?thesis using Some movedD(7) [OF m] moved_uses [OF m] by simp
  qed (simp add: movedD(7) [OF m])
qed

section \<open>The nodes\<close>

lemma same_elements: "same_data h h' \<Longrightarrow> element_at h' = element_at h"
proof
  fix a assume "same_data h h'"
  then have "map_option (\<lambda>n. (n_type n, n_data n, n_done n, n_doc n)) (h' a) =
     map_option (\<lambda>n. (n_type n, n_data n, n_done n, n_doc n)) (h a)" by (simp add: same_data_def)
  then show "element_at h' a = element_at h a" by (cases "h a"; cases "h' a") (auto simp: element_at_def)
qed

lemma decls_nodes [simp]: "decls (S\<lparr>os_nodes := h\<rparr>) = decls S"
  by (simp add: decls_def fun_eq_iff)

lemma declared_nodes [simp]: "declared (S\<lparr>os_nodes := h\<rparr>) es k = declared S es k"
  by (induction es) (auto split: option.split)

lemma tree_nodes:
  assumes "element_at h = element_at (os_nodes S)"
  shows "scoped (S\<lparr>os_nodes := h\<rparr>) es t = scoped S es t" "needs (S\<lparr>os_nodes := h\<rparr>) es t = needs S es t"
    "tree_elements h t = tree_elements (os_nodes S) t"
proof -
  have [simp]: "uses (S\<lparr>os_nodes := h\<rparr>) e = uses S e" "lacks (S\<lparr>os_nodes := h\<rparr>) fs n = lacks S fs n" for e fs n
    by (simp_all add: uses_def attrs_def lacks_def)
  show "scoped (S\<lparr>os_nodes := h\<rparr>) es t = scoped S es t" using assms by (induction t arbitrary: es) (auto split: option.split)
  show "needs (S\<lparr>os_nodes := h\<rparr>) es t = needs S es t" using assms by (induction t arbitrary: es) (auto split: option.split)
  show "tree_elements h t = tree_elements (os_nodes S) t"
    using assms by (induction t) (auto split: option.split cong: map_cong)
qed

lemma tree_apart:
  assumes "forest_ok F"
  shows "tree_at F t \<Longrightarrow> p \<notin> below F (root t) \<Longrightarrow> dom (f_kids G) = dom (f_kids F) \<Longrightarrow>
    (\<And>q. q \<noteq> p \<Longrightarrow> kids G q = kids F q) \<Longrightarrow> tree_at G t"
proof (induction t)
  case (Tree a ts)
  have "p \<notin> below F (root t)" if "t \<in> set ts" for t
  proof -
    have "root t \<in> set (kids F a)" using Tree.prems(1) that by simp
    then have "(root t, a) \<in> par_rel F" using forest_okD(4) [OF assms] by (simp add: par_rel_def)
    then show ?thesis using Tree.prems(2) rtrancl_into_rtrancl [of p "root t" "par_rel F" a] by (auto simp: below_def)
  qed
  moreover have "p \<noteq> a" using Tree.prems(2) by auto
  ultimately show ?case using Tree by auto
qed

lemma tree_detach:
  assumes "forest_ok F" "tree_at F t" "root t = c"
  shows "tree_at (f_detach c F) t"
proof (cases "f_par F c")
  case (Some p)
  have "p \<notin> below F c"
  proof
    assume "p \<in> below F c"
    then have "(c, c) \<in> (par_rel F)\<^sup>+" using Some by (auto simp: below_def par_rel_def intro: rtrancl_into_trancl2)
    then show False using forest_okD(2) [OF assms(1)] by (simp add: acyclic_def)
  qed
  moreover have "p \<in> dom (f_kids F)" using Some kid_dom [OF assms(1), of c p] forest_okD(4) [OF assms(1)] by simp
  ultimately show ?thesis using tree_apart [OF assms(1,2), of p "f_detach c F"] assms(3) Some
    by (auto simp: f_detach_def kids_set_kids dom_set_kids)
qed (use assms in \<open>simp add: f_detach_def\<close>)

lemma scope_cut:
  assumes "om_rel h F" "om_rel h' (f_detach c F)" "same_data h h'" "scope h c (e # outer)"
  shows "scope h' c [e]" "element_at h' c = Some e"
proof -
  obtain n where n: "h c = Some n" "n_type n = AXIOM_ELEMENT" "n_data n = Some e" using assms(4) by (cases rule: scope.cases) auto
  then show e: "element_at h' c = Some e" using same_elements [OF assms(3)] by (simp add: element_at_def)
  then obtain n' where n': "h' c = Some n'" "n_type n' = AXIOM_ELEMENT" "n_data n' = Some e"
    by (auto simp: element_at_def bind_eq_Some_conv split: if_splits)
  have "axiom_node_get_parent h' (Some c) = Inr None"
    using links_sim(3) [OF assms(2), of c] n'(1) f_detach_par [of c F] by auto
  then show "scope h' c [e]" using n' by (auto intro!: scope.outermost simp: parent_element_def)
qed

text \<open>The declarations around an element, gathered in a table.\<close>

lemma gathered_declared:
  assumes "prefixes_ok S" "tables_fit S (e # outer) K"
  shows "gathered (declared S outer) (S\<lparr>os_nodes := h\<rparr>) e K"
proof -
  have "prefixes_ok (S\<lparr>os_nodes := h\<rparr>)" using assms(1) by (simp add: prefixes_ok_def store_ok_def tables_ok_def)
  moreover have "tables_fit (S\<lparr>os_nodes := h\<rparr>) [e] K" using assms(2) by (simp add: tables_fit_def)
  moreover have "(\<Union>x \<in> set outer. dom (decls S x)) \<subseteq> K" using assms(2) by (intro UN_least) (simp add: tables_fit_def)
  then have "dom (declared S outer) \<subseteq> K" using declared_dom [of S outer] by (rule subset_trans [rotated])
  moreover have "ns_key (os_namespaces S d) = k \<and> prefix_ok k \<and> ns_uri (os_namespaces S d) \<noteq> None"
    if d: "declared S outer k = Some d" for k d
  proof -
    obtain x where x: "decls S x k = Some d" using declared_mem [OF d] by blast
    show ?thesis using prefixes_okD(3-5) [OF assms(1) x] by simp
  qed
  ultimately show ?thesis by (simp add: gathered_def)
qed

lemma moved_start:
  assumes "prefixes_ok S" "hash_inv ht" "hash_abs ht = D"
  shows "moved D r (S\<lparr>os_nodes := h\<rparr>) {} (S\<lparr>os_nodes := h\<rparr>) ht"
  using assms by (simp add: moved_def prefixes_ok_def store_ok_def tables_ok_def restrict_map_def)

lemma redeclare_visit:
  assumes "element_at (os_nodes S) c = Some e"
  shows "axiom_element_redeclare_parent_namespaces malloc S e c r ht = visit malloc r S ht c"
  using assms
  by (auto simp: axiom_element_redeclare_parent_namespaces_def visit_def split: option.split sum.split prod.split)

lemma redeclared:
  assumes rel: "om_rel h (f_detach c F)" and el: "element_at h = element_at (os_nodes S)"
    and sc: "scope h c [e]" "element_at h c = Some e" and t: "tree_at (f_detach c F) t" "root t = c"
    and ok: "distinct (tree_elements (os_nodes S) t)" "prefixes_ok S" "attributes_ok S" "tables_fit S (e # outer) K" "mem_ok malloc"
    and s: "scoped S outer t" and ht: "hash_inv ht" "hash_abs ht = declared S outer"
  shows "\<exists>S' ht'. axiom_element_redeclare_parent_namespaces malloc (S\<lparr>os_nodes := h\<rparr>) e c e ht = Some (Inr (S', ht')) \<and>
    os_nodes S' = h \<and> scoped S' [] t \<and> decls S' = (decls S)(e := decls S e ++ (declared S outer |` needs S [] t))"
proof -
  let ?S = "S\<lparr>os_nodes := h\<rparr>"
  note n = tree_nodes [OF el]
  have D: "declared ?S outer = declared S outer" by (simp add: fun_eq_iff)
  have g: "gathered (declared ?S outer) ?S e K" using gathered_declared [OF ok(2,4)] D by simp
  have b: "below_root e (os_nodes ?S) [] t"
    using ok(1) t(2) sc(2) unfolding n(3) [of t, symmetric] by (cases t) (auto simp: below_root_def path_single)
  have "visits malloc (declared ?S outer) e ?S [] t"
    by (rule visits_tree [OF g ok(5), of "f_detach c F"]) (use ok(3) rel t sc s n b in \<open>auto simp: attributes_ok_def\<close>)
  then obtain S' ht' where S': "visit malloc e ?S ht c = Some (Inr (S', ht'))" "moved (declared ?S outer) e ?S (needs ?S [] t) S' ht'"
    using visitsD [OF _ moved_start [OF ok(2) ht(1)], of malloc "declared ?S outer" e h "[]" t] ht(2) D t(2) by auto
  have "scoped S' [] t" by (rule moved_scoped [OF S'(2) _ _ b]) (use s n in auto)
  then show ?thesis using S'(1) movedD(5,7) [OF S'(2)] redeclare_visit [of ?S c e malloc e ht] sc(2) n(2) D by auto
qed

text \<open>
  C18: detaching an element (\<^verbatim>\<open>axiom_node_detach\<close>) keeps its namespaces. In a tree where every namespace of an element or
  attribute is the innermost declaration of its prefix, an element at any depth is cut off with its subtree, and afterwards
  every namespace in the subtree is again the innermost declaration of its prefix, now with nothing around it. For this
  exactly the declarations that the subtree used from outside are added to its root; no other declaration changes, in the
  subtree or in the tree it leaves.
\<close>

theorem detach_keeps_namespaces:
  assumes "om_rel (os_nodes S) F" "scope (os_nodes S) c (e # outer)" "data_set (os_nodes S)" "tree_at F t" "root t = c"
    and "distinct (tree_elements (os_nodes S) t)" "prefixes_ok S" "attributes_ok S" "tables_fit S (e # outer) K" "mem_ok malloc"
    and "scoped S outer t"
  shows "\<exists>S'. axiom_node_detach malloc S (Some c) = Some (Inr S') \<and> om_rel (os_nodes S') (f_detach c F) \<and> scoped S' [] t \<and>
    decls S' = (decls S)(e := decls S e ++ (declared S outer |` needs S [] t))"
proof -
  obtain n where n: "os_nodes S c = Some n" "n_type n = AXIOM_ELEMENT" "n_data n = Some e"
    using assms(2) by (cases rule: scope.cases) auto
  have fo: "tables_fit S (tl (e # outer)) K" using assms(9) by (simp add: tables_fit_def)
  obtain ins where ins: "gather_loop malloc S e c None = Some (Inr ins)" "ins_ok ins" "ins_abs ins = declared S outer"
    using gather_loop_spec [OF assms(2,7,10,3) fo, of None e] by (auto simp: ins_ok_def ins_abs_def)
  obtain h where h: "axiom_node_detach_without_namespaces (os_nodes S) (Some c) = Inr h" "rep h (f_detach c F)"
    "fld n_builder h = (fld n_builder (os_nodes S))(c := None)" "same_data (os_nodes S) h"
    using detach_rep [OF om_relD(1,2) [OF assms(1)], of c] n(1) by blast
  have rel: "om_rel h (f_detach c F)"
    using h(2,3) forest_ok_detach [OF om_relD(1) [OF assms(1)]] om_relD(3) [OF assms(1)] by (simp add: om_rel_def)
  note el = same_elements [OF h(4)] and sc = scope_cut [OF assms(1) rel h(4) assms(2)]
  note red = redeclared [OF rel el sc tree_detach [OF om_relD(1) [OF assms(1)] assms(4,5)] assms(5-11)]
  show ?thesis
  proof (cases ins)
    case None
    have "declared S outer = Map.empty" using ins(3) None by (simp add: ins_abs_def)
    then have nn: "needs S [] t = {}" using needs_dom [of S "[]" outer t] assms(11) by simp
    have "scoped (S\<lparr>os_nodes := h\<rparr>) [] t" using needs_nothing [OF nn] tree_nodes(1) [OF el, of "[]" t] by simp
    then show ?thesis using None ins(1) n h(1) rel nn
      by (simp add: axiom_node_detach_def node_at_def axiom_element_gather_parent_namespaces_def)
  next
    case (Some ht)
    then show ?thesis
      using red [of ht] ins n h(1) rel
      by (auto simp: ins_ok_def ins_abs_def axiom_node_detach_def node_at_def axiom_element_gather_parent_namespaces_def)
  qed
qed

text \<open>An element that uses the namespace its parent declares.\<close>

definition nested_store :: "nat axutil_hash \<Rightarrow> om_store" where
  "nested_store ht = two_elements\<lparr>os_nodes := sample_heap, os_elements := (\<lambda>e.
     \<lparr>elt_ns = Some 5, elt_localname = Some ''Body'', elt_attributes = None,
      elt_namespaces = (if e = 10 then Some ht else None), elt_qname = None, elt_next_ns_prefix_number = 0,
      elt_is_empty = False\<rparr>)\<rparr>"

lemma nested_ok:
  assumes "hash_inv ht" "hash_abs ht = [''soap'' \<mapsto> 5]"
  shows "decls (nested_store ht) = (\<lambda>_. Map.empty)(10 := [''soap'' \<mapsto> 5])" "prefixes_ok (nested_store ht)"
    "attributes_ok (nested_store ht)" "uses (nested_store ht) e = {5}" "data_set (os_nodes (nested_store ht))"
proof -
  show d: "decls (nested_store ht) = (\<lambda>_. Map.empty)(10 := [''soap'' \<mapsto> 5])"
    using assms(2) by (simp add: decls_def nested_store_def fun_eq_iff)
  show "prefixes_ok (nested_store ht)"
    using assms(1) d by (auto simp: prefixes_ok_def store_ok_def tables_ok_def nested_store_def two_elements_def ns_key_def
        prefix_ok_def split: if_splits)
  show "attributes_ok (nested_store ht)" "uses (nested_store ht) e = {5}"
    by (simp_all add: attributes_ok_def uses_def attrs_def nested_store_def)
  have "a \<in> {0, 1, 2}" if "sample_heap a = Some n" for a n using that sample_dom by blast
  then show "data_set (os_nodes (nested_store ht))"
    using sample_nodes by (auto simp: data_set_def nested_store_def) (metis option.distinct(1) option.sel)+
qed

theorem detach_keeps_namespaces_witness:
  "\<exists>S S'. decls S 10 ''soap'' = Some 5 \<and> decls S 12 = Map.empty \<and> elt_ns (os_elements S 12) = Some 5 \<and>
    axiom_node_detach (\<lambda>_. True) S (Some 2) = Some (Inr S') \<and> scoped S' [] (Tree 2 []) \<and> decls S' 12 ''soap'' = Some 5"
proof -
  obtain ht :: "nat axutil_hash" where ht: "hash_inv ht" "hash_abs ht = [''soap'' \<mapsto> 5]"
    using hash_built [of "[((''soap'', AXIS2_HASH_KEY_STRING), Some (5 :: nat))]"]
    by (auto simp: valid_key_def norm_key_def AXIS2_HASH_KEY_STRING_def c_string_def)
  let ?S = "nested_store ht"
  have h: "os_nodes ?S = sample_heap" by (simp add: nested_store_def)
  note ok = nested_ok [OF ht]
  have el: "element_at sample_heap 0 = Some 10" "element_at sample_heap 2 = Some 12"
    using sample_nodes element_run [of 0] element_run [of 2] sample_dom by simp_all
  have "scope sample_heap 0 [10]" using sample_named(1) by (simp add: named_kids_def sample_store_def)
  then have sc: "scope (os_nodes ?S) 2 [12, 10]" using child_scope [OF sample_rel _ _ el(2)] sample_shape(1) h by simp
  have k: "ns_key (os_namespaces ?S 5) = ''soap''" by (simp add: nested_store_def two_elements_def ns_key_def)
  have "scoped ?S [10] (Tree 2 [])" using el h ok(1,4) k by simp
  moreover have "tables_fit ?S [12, 10] {''soap''}" using ok(1) by (simp add: tables_fit_def)
  moreover have "tree_at sample_forest (Tree 2 [])" using sample_shape by simp
  ultimately obtain S' where "axiom_node_detach (\<lambda>_. True) ?S (Some 2) = Some (Inr S')" "scoped S' [] (Tree 2 [])"
    "decls S' = (decls ?S)(12 := decls ?S 12 ++ (declared ?S [10] |` needs ?S [] (Tree 2 [])))"
    using detach_keeps_namespaces [of ?S sample_forest 2 12 "[10]" "Tree 2 []" "{''soap''}" "\<lambda>_. True"] sample_rel h sc ok el by auto
  moreover have "needs ?S [] (Tree 2 []) = {''soap''}" using el h ok(1,4) k by (simp add: lacks_def)
  ultimately show ?thesis using ok(1) by (intro exI [of _ ?S] exI [of _ S']) (simp add: nested_store_def map_add_def)
qed

end
