(* ===== verification/Spec2Isabelle.thy ===== *)
theory Spec2Isabelle
  imports Array_List Phase_Placement Hash_Map Engine_Props Linked_List_Spec Util_Stack Base64
    Neethi_Normal Phase_Resolver_Op Om_Navigator Http_Request Http_Params Dispatch_Body Digest_Calc Om_Detach_Props
begin

text \<open>
  Axis2/C is a web services engine in C. A message context travels through flows, which are
  lists of phases; a phase is a list of handlers ordered by rules. The engine runs the flows of a
  message, may be paused and resumed by a handler, and ends in a transport sender or a message
  receiver. The first handlers of the in flow are the dispatchers, which find the service and the operation a message is for. Modules bring handlers of their own: engaging a module puts them into the phases of the
  configuration and of the operations. Policies say what a service asks of its clients and are normalised and
  merged. Messages are XML trees of the object model \<^verbatim>\<open>axiom\<close>, with namespaces that are declared at elements. They travel over HTTP: a client writes a request to a connection and reads the
  response, a server connection reads the one and writes the other. Underneath are the containers, streams and codecs of \<^verbatim>\<open>util\<close>: growable
  arrays, hash tables, linked lists, stacks, strings, numbers, base64, MD5, qualified names, URLs, streams.

  The theories, from the bottom up, with the source each models (paths under \<^verbatim>\<open>src/\<close>):

  \<^item> \<open>Axis_Prelude\<close>: status and error codes, results, allocation, 32-bit integers, strings, list lemmas, and the
    locales \<open>simulation\<close> (an object whose legal calls simulate those of an abstract one does so in every
    history) and \<open>refinement\<close>, its case where every call is legal and there is an abstraction function.
  \<^item> \<open>Array_List\<close>: \<^verbatim>\<open>util/src/array_list.c\<close>, every operation; the locale \<open>sequence_store\<close> and its
    interpretation \<open>al\<close>; histories of calls with the values they return (the interpretation \<open>alh\<close> of
    \<open>refinement\<close>), round trip, bounds of the \<^verbatim>\<open>int\<close> fields, search.
  \<^item> \<open>Handler_Desc\<close>: handlers, handler descriptions and phase rules (\<^verbatim>\<open>src/core/engine/handler.c\<close>,
    \<^verbatim>\<open>src/core/description/handler_desc.c\<close>, \<^verbatim>\<open>phase_rule.c\<close>) in an explicit store, because they point
    at each other.
  \<^item> \<open>Phase\<close>, \<open>Phase_Placement\<close>: \<^verbatim>\<open>src/core/engine/phase.c\<close>, the placement of handlers by their
    rules, against the specification \<open>place_spec\<close> of where a handler goes; the rules hold
    afterwards, the order of the others is kept, and three defects.
  \<^item> \<open>Hash_Table\<close>, \<open>Hash_Map\<close>: \<^verbatim>\<open>util/src/hash.c\<close>; the invariant \<open>hash_inv\<close>, the map \<open>hash_abs\<close> a
    table stands for, the locale \<open>dictionary\<close> and its interpretation \<open>hd\<close>; stores, growth,
    iteration, copy and overlay refine maps.
  \<^item> \<open>Linked_List\<close>, \<open>Linked_List_Spec\<close>: \<^verbatim>\<open>util/src/linked_list.c\<close>, every function, with the entries in a
    heap; doubly linked segments \<open>dseg\<close>, the invariant \<open>ll_inv\<close>, the interpretation \<open>lst\<close> of
    \<open>simulation\<close> by the list calls \<open>seq_call\<close> (every index but the greatest \<^verbatim>\<open>int\<close> is legal), and deallocation.
  \<^item> \<open>Util_Stack\<close>: \<^verbatim>\<open>util/src/stack.c\<close>; the invariant \<open>stack_inv\<close> and the interpretation \<open>stk\<close> of
    \<open>refinement\<close> by \<open>list_call\<close>.
  \<^item> \<open>Base64\<close>: \<^verbatim>\<open>util/src/base64.c\<close> on bytes and 32-bit words; equivalence with RFC 4648, round
    trip, exact lengths, for as many bytes as the \<^verbatim>\<open>int\<close> lengths of the code allow.
  \<^item> \<open>Msg_Ctx\<close>: the message context and the structures the engine reads through it
    (\<^verbatim>\<open>src/core/context/msg_ctx.c\<close>, \<^verbatim>\<open>ctx.c\<close>, \<^verbatim>\<open>src/core/addr/msg_info_headers.c\<close>, parts of \<^verbatim>\<open>op.c\<close>,
    \<^verbatim>\<open>conf.c\<close>, \<^verbatim>\<open>transport_out_desc.c\<close>).
  \<^item> \<open>Phase_Invoke\<close>: \<^verbatim>\<open>axis2_phase_invoke\<close> and \<^verbatim>\<open>axis2_phase_invoke_start_from_handler\<close>, and the
    specification of a run as a flat list of steps (\<open>run_steps\<close>).
  \<^item> \<open>Engine\<close>, \<open>Engine_Flow\<close>, \<open>Engine_Props\<close>: \<^verbatim>\<open>src/core/engine/engine.c\<close>, every function; flows
    refine lists of steps, resuming starts at the recorded position, sending, receiving,
    header check and faults, and the defects found on these paths.
  \<^item> \<open>C_String\<close>, \<open>C_Number\<close>: \<^verbatim>\<open>util/src/string.c\<close> and \<^verbatim>\<open>util/src/types.c\<close>, every function, with what they use of the C library; trimming,
    comparison and search without case, a replacement that may not end, numbers printed and read back.
  \<^item> \<open>Qname\<close>: \<^verbatim>\<open>util/src/qname.c\<close>; the string of a name is read back, and when two names have the same one.
  \<^item> \<open>Steps\<close>: steps on a shared state that may fail, loops over array lists and hash tables as steps.
  \<^item> \<open>Phase_Resolver\<close>: module engagement: \<^verbatim>\<open>src/core/phaseresolver/phase_holder.c\<close>, \<^verbatim>\<open>phase_resolver.c\<close> and the
    functions of \<^verbatim>\<open>flow.c\<close>, \<^verbatim>\<open>op.c\<close>, \<^verbatim>\<open>svc.c\<close>, \<^verbatim>\<open>svc_grp.c\<close> and \<^verbatim>\<open>conf.c\<close> they call, as steps on a world of stores.
  \<^item> \<open>Phase_Resolver_Props\<close>, \<open>Phase_Resolver_Op\<close>: where the handlers of a module end up (\<open>flow_has\<close>, \<open>in_place\<close>),
    what stays as it was (\<open>phase_grows\<close>, \<open>engagement\<close>), and the defects of the loops.
  \<^item> \<open>Neethi\<close>, \<open>Neethi_Normal\<close>: \<^verbatim>\<open>neethi/src/engine.c\<close>, \<^verbatim>\<open>policy.c\<close>, \<^verbatim>\<open>registry.c\<close>: normalisation and merge of
    policies against the alternatives a policy stands for; normal form, termination, merge as conjunction, defects.
  \<^item> \<open>Om_Node\<close>: \<^verbatim>\<open>axiom/src/om/om_node.c\<close> (links, deallocation, \<^verbatim>\<open>axiom_node_serialize\<close>) and the iterators
    \<^verbatim>\<open>om_children_iterator.c\<close>, \<^verbatim>\<open>om_child_element_iterator.c\<close>, with the nodes in a heap.
  \<^item> \<open>Om_Forest\<close>, \<open>Om_Tree\<close>: the heap as an ordered forest (\<open>rep\<close>, \<open>forest_ok\<close>), what each operation does to the forest, and the
    interpretation \<open>om\<close> of \<open>simulation\<close>: histories of calls; a defect of inserting after the last child.
  \<^item> \<open>Om_Serialize\<close>, \<open>Om_Iterator\<close>, \<open>Om_Navigator\<close>: serialisation, the iterators and the navigator (\<^verbatim>\<open>om_navigator.c\<close>)
    against the recursive order of a tree, and two defects.
  \<^item> \<open>Om_Element\<close>, \<open>Om_Scope\<close>: \<^verbatim>\<open>om_element.c\<close> and \<^verbatim>\<open>om_namespace.c\<close>: namespaces that elements declare in hash tables and the searches
    through the elements around a node, against the innermost declaration of a prefix (\<open>scope\<close>, \<open>declared\<close>); what is declared is found.
  \<^item> \<open>Om_Attribute\<close>, \<open>Om_Children\<close>: attributes (\<^verbatim>\<open>om_attribute.c\<close>), the creation of elements, text (\<^verbatim>\<open>om_text.c\<close>) and the iterator over children
    with a qualified name (\<^verbatim>\<open>om_children_qname_iterator.c\<close>): attributes are found again, new elements have the namespace they are given, the text of
    an element is that of its text nodes, and the iterator gives exactly the children with the name, as long as no kept name is out of date.
  \<^item> \<open>Om_Detach\<close>, \<open>Om_Detach_Props\<close>: \<^verbatim>\<open>axiom_node_detach\<close> and the functions of \<^verbatim>\<open>om_element.c\<close> that gather the namespaces around a node and declare
    those its subtree uses again at its root: a tree whose namespaces are all in scope (\<open>scoped\<close>) stays so when it is cut off.
  \<^item> \<open>Dispatch_Names\<close>: the parser of request URLs (\<^verbatim>\<open>util/src/utils.c\<close>) and the lookup of services and operations, with the patterns of actions
    (\<^verbatim>\<open>src/core/description/svc.c\<close>), in closed form.
  \<^item> \<open>Dispatch\<close>, \<open>Dispatch_Props\<close>: the dispatchers and the dispatch checker (\<^verbatim>\<open>src/core/engine/disp.c\<close>, \<^verbatim>\<open>addr_disp.c\<close>, \<^verbatim>\<open>req_uri_disp.c\<close>,
    \<^verbatim>\<open>soap_action_disp.c\<close>, \<^verbatim>\<open>soap_body_disp.c\<close>, \<^verbatim>\<open>disp_checker.c\<close>), run by \<^verbatim>\<open>axis2_phase_invoke\<close> as the handlers of a phase, against \<open>dispatch_spec\<close>; the locale \<open>dispatching\<close> says what a dispatcher
    promises and is interpreted on those that only search (\<open>req_uri\<close>, \<open>soap_action\<close>, \<open>soap_body\<close>).
  \<^item> \<open>Dispatch_Body\<close>: the dispatcher on the body composed with the object model: its first element, the namespace in scope there and its local
    name decide the service and the operation.
  \<^item> \<open>Md5\<close>, \<open>Md5_Props\<close>, \<open>Digest_Calc\<close>: \<^verbatim>\<open>util/src/md5.c\<close> on 32-bit words and \<^verbatim>\<open>digest_calc.c\<close>, against RFC 1321 and RFC 2617 (\<open>md5_digest\<close>,
    \<open>rfc_response\<close>).
  \<^item> \<open>Util_Stream\<close>: \<^verbatim>\<open>util/src/stream.c\<close>, streams over memory, files and sockets; the locales \<open>byte_source\<close> and \<open>byte_sink\<close> say what a
    reader and a writer promise, and are interpreted on each kind of stream. A socket delivers its bytes in any pieces.
  \<^item> \<open>Http_Chunked\<close>: \<^verbatim>\<open>util/src/http_chunked_stream.c\<close>; what is written is read back from every source of bytes, for every size of chunks and
    buffers; the limit of a chunk, and the loop that does not end when a connection does.
  \<^item> \<open>Http_Lines\<close>, \<open>Http_Message\<close>: request line, status line, headers, requests and responses (\<^verbatim>\<open>src/core/transport/http/common/http_header.c\<close>,
    \<^verbatim>\<open>http_request_line.c\<close>, \<^verbatim>\<open>http_status_line.c\<close>, \<^verbatim>\<open>http_simple_request.c\<close>, \<^verbatim>\<open>http_simple_response.c\<close>); which lines are parsed, and the
    interpretation \<open>headers\<close> of \<open>dictionary\<close>.
  \<^item> \<open>Util_Url\<close>, \<open>Http_Params\<close>: \<^verbatim>\<open>util/src/url.c\<close>, the default ports of \<^verbatim>\<open>uri.c\<close>, the parameters of REST requests in \<^verbatim>\<open>http_sender.c\<close> and
    \<^verbatim>\<open>http_transport_utils.c\<close>; a URL is read back from its text, and the parameters from the query.
  \<^item> \<open>Http_Conn\<close>, \<open>Http_Client\<close>: \<^verbatim>\<open>http_response_writer.c\<close>, \<^verbatim>\<open>simple_http_svr_conn.c\<close> and \<^verbatim>\<open>sender/http_client.c\<close>.
  \<^item> \<open>Http_Response\<close>, \<open>Http_Request\<close>: both ends together: a chunked response is read back by the client, a request by the server, and a request
    that is lost because it arrives in two pieces.

  State and effects. A C structure is a record and an operation that changes it returns the
  changed record; NULL is \<open>None\<close>. Handlers and their descriptions, which are shared and cyclic,
  live in \<open>handler_store\<close>; the entries of linked lists and the nodes of trees live in heaps. Allocation is a parameter (\<open>alloc\<close>), so that every out-of-memory branch
  is a branch of the model. \<^verbatim>\<open>unsigned int\<close> values whose wrap-around matters are \<open>32 word\<close>. An \<^verbatim>\<open>int\<close> is
  an \<open>int\<close> of Isabelle; where it can leave its 32 bits the computation wraps around (\<open>c_wrap\<close>) or ends in \<open>UNDEFINED_BEHAVIOUR\<close>, or a
  theorem bounds the history and states that the values stay in range. A use of freed memory is not detected. The code
  of handlers, senders and message receivers is not part of the repository's engine: it is a
  parameter (\<open>engine_env\<close>), and what a property needs of it is a hypothesis (\<open>steady\<close>, \<open>smooth\<close>).

  Termination. Loops over arrays and chains are total functions with a measure. The loop of
  \<^verbatim>\<open>axis2_phase_invoke\<close> may run forever and is a partial function into \<open>option\<close>; that it returns on
  lists without NULL entries and diverges otherwise is proved. The pointer loops of the linked list
  are partial functions too, and return on every list that satisfies the invariant. The normalisation of policies
  follows references and is a partial function: it returns when the references can be ranked and never
  on a policy that refers to itself. The loops over the nodes of trees are partial functions and return on every heap
  that stands for a forest. The loops that read from a connection are partial functions: those of the chunked stream, of the
  client and of the server return on the bytes their peer writes, which the round trips state, and the read of a chunk does not return when the
  connection ends inside of it. No fuel is used.

  Not modelled: the deallocation functions (but for the linked list's and the node tree's), logging, threads, TLS and the opening of sockets (what a
  connection delivers is part of the state of a socket), the glue between message contexts and connections (\<^verbatim>\<open>http_worker.c\<close>, \<^verbatim>\<open>http_sender.c\<close> but
  for its parameter string), attachments, the builders of the object model (a node that would ask a builder for input ends in \<open>BUILDER_INPUT\<close>) and
  what a single node writes (the parameter \<open>serializer\<close>), SOAP (the construction of a fault
  envelope is a parameter of the dispatch checker), the XML parsers and writers, deployment (what it builds is a parameter of \<open>axis2_conf_engage_module\<close>),
  the REST dispatcher and its maps, the XML form of policies, the transport chains of the phase resolver, which are
  deprecated, the parser of \<^verbatim>\<open>uri.c\<close>, dates, durations and parameters, the client API. Most of this reads or writes through a library or a transport, or builds
  the structures that are modelled here from XML.
\<close>

end
